(* ===== verification/BTree.thy ===== *)
theory BTree
  imports Prelude
begin

text \<open>
  \<open>BTreeMap\<close> and \<open>BTreeSet\<close>: the ordered containers that hold the monitor's state.
  A map is the list of its entries in key order, which is what the source iterates
  over; \<open>bm_wf\<close> says the keys ascend strictly. The locale \<open>ordered_map\<close> is the
  interface the components rely on; its laws are proved of the entry lists at the
  end of the theory, where the interpretation \<open>bm\<close> makes its lemmas available.
\<close>

section \<open>Operations\<close>

type_synonym ('k, 'v) bmap = "('k \<times> 'v) list"

definition bm_wf :: "('k::linorder, 'v) bmap \<Rightarrow> bool" where
  "bm_wf m \<longleftrightarrow> sorted_wrt (<) (map fst m)"

fun bm_put :: "'k::linorder \<Rightarrow> 'v \<Rightarrow> ('k, 'v) bmap \<Rightarrow> ('k, 'v) bmap" where
  "bm_put k v [] = [(k, v)]"
| "bm_put k v ((k', v') # m) =
     (if k < k' then (k, v) # (k', v') # m
      else if k = k' then (k, v) # m
      else (k', v') # bm_put k v m)"

definition bm_del :: "'k \<Rightarrow> ('k, 'v) bmap \<Rightarrow> ('k, 'v) bmap" where
  "bm_del k m = filter (\<lambda>(k', v). k' \<noteq> k) m"

definition bm_retain :: "('k \<Rightarrow> 'v \<Rightarrow> bool) \<Rightarrow> ('k, 'v) bmap \<Rightarrow> ('k, 'v) bmap" where
  "bm_retain p m = filter (\<lambda>(k, v). p k v) m"

definition bm_mapv :: "('k \<Rightarrow> 'v \<Rightarrow> 'w) \<Rightarrow> ('k, 'v) bmap \<Rightarrow> ('k, 'w) bmap" where
  "bm_mapv f m = map (\<lambda>(k, v). (k, f k v)) m"

text \<open>\<open>collect()\<close> into a map: a later entry replaces an earlier one.\<close>

definition bm_collect :: "('k::linorder \<times> 'v) list \<Rightarrow> ('k, 'v) bmap" where
  "bm_collect xs = fold (\<lambda>(k, v). bm_put k v) xs []"

abbreviation bm_get :: "('k, 'v) bmap \<Rightarrow> 'k \<Rightarrow> 'v option" where
  "bm_get \<equiv> map_of"

abbreviation bm_has :: "('k, 'v) bmap \<Rightarrow> 'k \<Rightarrow> bool" where
  "bm_has m k \<equiv> map_of m k \<noteq> None"

text \<open>A \<open>BTreeSet\<close> that is iterated is the ascending list of its elements.\<close>

fun bs_insert :: "'a::linorder \<Rightarrow> 'a list \<Rightarrow> 'a list" where
  "bs_insert x [] = [x]"
| "bs_insert x (y # ys) = (if x < y then x # y # ys else if x = y then y # ys else y # bs_insert x ys)"

definition bs_collect :: "'a::linorder list \<Rightarrow> 'a list" where
  "bs_collect xs = fold bs_insert xs []"

section \<open>The interface\<close>

locale ordered_map =
  fixes get :: "'m \<Rightarrow> 'k::linorder \<Rightarrow> 'v option"
    and put :: "'k \<Rightarrow> 'v \<Rightarrow> 'm \<Rightarrow> 'm"
    and del :: "'k \<Rightarrow> 'm \<Rightarrow> 'm"
    and entries :: "'m \<Rightarrow> ('k \<times> 'v) list"
    and ok :: "'m \<Rightarrow> bool"
  assumes entries_sorted: "ok m \<Longrightarrow> sorted_wrt (<) (map fst (entries m))"
    and get_entries: "ok m \<Longrightarrow> get m k = Some v \<longleftrightarrow> (k, v) \<in> set (entries m)"
    and get_put: "get (put k v m) = (get m)(k \<mapsto> v)"
    and get_del: "ok m \<Longrightarrow> get (del k m) = (get m)(k := None)"
    and ok_put: "ok m \<Longrightarrow> ok (put k v m)"
    and ok_del: "ok m \<Longrightarrow> ok (del k m)"
begin

lemma distinct_keys: "ok m \<Longrightarrow> distinct (map fst (entries m))"
  using entries_sorted strict_sorted_iff by blast

lemma dom_get: "ok m \<Longrightarrow> dom (get m) = fst ` set (entries m)"
  by (force simp: get_entries dom_def image_iff)

lemma finite_dom: "ok m \<Longrightarrow> finite (dom (get m))"
  by (simp add: dom_get)

lemma size_card: "ok m \<Longrightarrow> length (entries m) = card (dom (get m))"
  using distinct_card [OF distinct_keys] by (simp add: dom_get)

lemma size_put:
  "ok m \<Longrightarrow> length (entries (put k v m)) =
     (if get m k = None then Suc (length (entries m)) else length (entries m))"
  by (auto simp: size_card ok_put get_put card_insert_if finite_dom insert_absorb domI)

lemma size_put_le: "ok m \<Longrightarrow> length (entries (put k v m)) \<le> Suc (length (entries m))"
  by (simp add: size_put)

lemma size_del_le: "ok m \<Longrightarrow> length (entries (del k m)) \<le> length (entries m)"
  by (simp add: size_card ok_del get_del card_mono finite_dom)

lemma entries_ext:
  assumes "ok m" and "ok m'" and "get m = get m'"
  shows "entries m = entries m'"
proof -
  have same: "set (entries m) = set (entries m')"
    using assms by (auto simp: get_entries [symmetric])
  have "inj_on fst (set (entries m) \<union> set (entries m'))"
    using distinct_keys [OF assms(1)] by (simp add: same [symmetric] distinct_map)
  then show ?thesis
    using assms(1,2) [THEN entries_sorted] same
    by (intro map_sorted_distinct_set_unique) (auto simp: strict_sorted_iff)
qed

end

section \<open>The entry lists provide it\<close>

lemma get_bm_put: "bm_get (bm_put k v m) = (bm_get m)(k \<mapsto> v)"
  by (induction k v m rule: bm_put.induct) auto

lemma keys_bm_put: "set (map fst (bm_put k v m)) = insert k (set (map fst m))"
  by (induction k v m rule: bm_put.induct) auto

lemma bm_wf_put: "bm_wf m \<Longrightarrow> bm_wf (bm_put k v m)"
proof (induction k v m rule: bm_put.induct)
  case (1 k v)
  then show ?case by (simp add: bm_wf_def)
next
  case (2 k v k' v' m)
  then show ?case
    using keys_bm_put [of k v m] by (auto simp: bm_wf_def)
qed

lemma bm_wf_filter: "bm_wf m \<Longrightarrow> bm_wf (filter P m)"
  by (induction m) (auto simp: bm_wf_def)

lemma bm_wf_del: "bm_wf m \<Longrightarrow> bm_wf (bm_del k m)"
  by (simp add: bm_del_def bm_wf_filter)

lemma bm_wf_retain: "bm_wf m \<Longrightarrow> bm_wf (bm_retain p m)"
  by (simp add: bm_retain_def bm_wf_filter)

lemma bm_wf_mapv [simp]: "bm_wf (bm_mapv f m) = bm_wf m"
  by (simp add: bm_mapv_def bm_wf_def comp_def case_prod_beta)

lemma bm_wf_Nil [simp]: "bm_wf []"
  by (simp add: bm_wf_def)

lemma bm_wf_distinct: "bm_wf m \<Longrightarrow> distinct (map fst m)"
  by (auto simp: bm_wf_def strict_sorted_iff)

lemma get_bm_del: "bm_get (bm_del k m) = (bm_get m)(k := None)"
  by (induction m) (auto simp: bm_del_def fun_eq_iff)

interpretation bm: ordered_map "map_of" bm_put bm_del "\<lambda>m. m" bm_wf
proof unfold_locales
  show "map_of m k = Some v \<longleftrightarrow> (k, v) \<in> set m" if "bm_wf m" for m :: "('a, 'b) bmap" and k v
    by (rule map_of_eq_Some_iff [OF bm_wf_distinct [OF that]])
qed (simp_all add: bm_wf_def [symmetric] get_bm_put get_bm_del bm_wf_put bm_wf_del)

lemma get_bm_retain:
  "bm_wf m \<Longrightarrow> bm_get (bm_retain p m) k =
     (case bm_get m k of None \<Rightarrow> None | Some v \<Rightarrow> if p k v then Some v else None)"
proof (induction m)
  case Nil
  then show ?case by (simp add: bm_retain_def)
next
  case (Cons x m)
  obtain k' v' where x: "x = (k', v')" by (cases x)
  have wf: "bm_wf m" and fresh: "k' \<notin> fst ` set m"
    using Cons.prems x by (auto simp: bm_wf_def)
  then have "bm_get m k' = None" by (simp add: map_of_eq_None_iff)
  then show ?case
    using Cons.IH [OF wf] x by (auto simp: bm_retain_def split: option.splits)
qed

lemma get_bm_mapv: "bm_get (bm_mapv f m) k = map_option (f k) (bm_get m k)"
  by (induction m) (auto simp: bm_mapv_def)

lemma length_bm_retain: "length (bm_retain p m) \<le> length m"
  by (simp add: bm_retain_def)

lemma length_bm_mapv [simp]: "length (bm_mapv f m) = length m"
  by (simp add: bm_mapv_def)

lemma bm_retain_subset: "set (bm_retain p m) \<subseteq> set m"
  by (auto simp: bm_retain_def)

lemma bm_wf_fold_put: "bm_wf m \<Longrightarrow> bm_wf (fold (\<lambda>(k, v). bm_put k v) xs m)"
  by (induction xs arbitrary: m) (auto simp: bm_wf_put)

lemma bm_wf_collect: "bm_wf (bm_collect xs)"
  by (simp add: bm_collect_def bm_wf_fold_put)

lemma set_bs_insert [simp]: "set (bs_insert x xs) = insert x (set xs)"
  by (induction x xs rule: bs_insert.induct) auto

lemma set_bs_collect [simp]: "set (bs_collect xs) = set xs"
proof -
  have "set (fold bs_insert xs ys) = set xs \<union> set ys" for ys
    by (induction xs arbitrary: ys) auto
  then show ?thesis by (simp add: bs_collect_def)
qed

lemma sorted_bs_insert: "sorted_wrt (<) xs \<Longrightarrow> sorted_wrt (<) (bs_insert x xs)"
  by (induction x xs rule: bs_insert.induct) auto

lemma sorted_bs_collect: "sorted_wrt (<) (bs_collect xs)"
proof -
  have "sorted_wrt (<) ys \<Longrightarrow> sorted_wrt (<) (fold bs_insert xs ys)" for ys
    by (induction xs arbitrary: ys) (auto simp: sorted_bs_insert)
  then show ?thesis by (simp add: bs_collect_def)
qed

end
