(* ===== verification/Float64.thy ===== *)
theory Float64
  imports Prelude
begin

text \<open>
  The source's \<open>f64\<close>: IEEE 754 binary64 as Rust uses it. A finite value is its
  rational value, so comparisons are exact; a product or quotient is the exact
  rational result rounded to 53 bits, ties to even, with the subnormal range and the
  overflow to an infinity written out. The sign of a zero is not kept: it is only
  observable by dividing by it, and every division of the program has a divisor that
  a guard has found positive.
\<close>

datatype f64 = F_NaN | F_Inf bool \<comment> \<open>\<open>True\<close> is minus infinity\<close> | Fin rat

lemma f64_cases [case_names nan minus plus fin]:
  assumes "a = F_NaN \<Longrightarrow> P" and "a = F_Inf True \<Longrightarrow> P" and "a = F_Inf False \<Longrightarrow> P"
    and "\<And>q. a = Fin q \<Longrightarrow> P"
  shows P
proof (cases a)
  case (F_Inf s)
  with assms(2,3) show ?thesis by (cases s) auto
qed (use assms in auto)

section \<open>Comparisons\<close>

fun is_finite :: "f64 \<Rightarrow> bool" where
  "is_finite (Fin q) = True"
| "is_finite _ = False"

text \<open>A comparison with a NaN is false.\<close>

fun f_lt :: "f64 \<Rightarrow> f64 \<Rightarrow> bool" where
  "f_lt (Fin a) (Fin b) = (a < b)"
| "f_lt (F_Inf True) (Fin b) = True"
| "f_lt (Fin a) (F_Inf False) = True"
| "f_lt (F_Inf True) (F_Inf False) = True"
| "f_lt _ _ = False"

fun f_eq :: "f64 \<Rightarrow> f64 \<Rightarrow> bool" where
  "f_eq (Fin a) (Fin b) = (a = b)"
| "f_eq (F_Inf s) (F_Inf t) = (s = t)"
| "f_eq _ _ = False"

definition f_le :: "f64 \<Rightarrow> f64 \<Rightarrow> bool" where
  "f_le a b \<longleftrightarrow> f_lt a b \<or> f_eq a b"

lemma f_le_Fin [simp]: "f_le (Fin a) (Fin b) \<longleftrightarrow> a \<le> b"
  by (auto simp: f_le_def)

lemma f_lt_irrefl [simp]: "\<not> f_lt a a"
  by (cases "(a, a)" rule: f_lt.cases) auto

lemma f_lt_not_le: "f_lt a b \<Longrightarrow> \<not> f_le b a"
  by (induction a b rule: f_lt.induct) (auto simp: f_le_def)

lemma f_le_total: "a \<noteq> F_NaN \<Longrightarrow> b \<noteq> F_NaN \<Longrightarrow> f_le a b \<or> f_lt b a"
  by (cases a rule: f64_cases; cases b rule: f64_cases) (auto simp: f_le_def)

lemma f_le_NaN [simp]: "\<not> f_le F_NaN b" "\<not> f_le a F_NaN"
  by (cases b; simp add: f_le_def) (cases a; simp add: f_le_def)

section \<open>Arithmetic\<close>

definition pow2 :: "int \<Rightarrow> rat" where
  "pow2 k = (if 0 \<le> k then 2 ^ nat k else 1 / 2 ^ nat (- k))"

function bits :: "int \<Rightarrow> int" where
  "bits n = (if n \<le> 0 then 0 else 1 + bits (n div 2))"
  by pat_completeness auto
termination
  by (relation "measure nat") auto

declare bits.simps [simp del]

text \<open>\<open>floor (log2 a)\<close> of a positive rational, from the sizes of its two parts.\<close>

definition ilog2 :: "rat \<Rightarrow> int" where
  "ilog2 a = (case quotient_of a of (n, d) \<Rightarrow>
     (let k = bits n - bits d
      in if pow2 k \<le> a then k else k - 1))"

definition round_half_even :: "rat \<Rightarrow> int" where
  "round_half_even x =
     (let f = \<lfloor>x\<rfloor>; d = x - of_int f
      in if d < 1 / 2 then f else if 1 / 2 < d then f + 1 else if even f then f else f + 1)"

definition f_round :: "rat \<Rightarrow> f64" where
  "f_round q =
     (if q = 0 then Fin 0
      else let a = \<bar>q\<bar>; k = max (ilog2 a - 52) (- 1074);
               r = of_int (round_half_even (a / pow2 k)) * pow2 k
           in if pow2 1024 \<le> r then F_Inf (q < 0) else Fin (if q < 0 then - r else r))"

fun f_mul :: "f64 \<Rightarrow> f64 \<Rightarrow> f64" where
  "f_mul (Fin a) (Fin b) = f_round (a * b)"
| "f_mul (F_Inf s) (F_Inf t) = F_Inf (s \<noteq> t)"
| "f_mul (F_Inf s) (Fin b) = (if b = 0 then F_NaN else F_Inf (s \<noteq> (b < 0)))"
| "f_mul (Fin a) (F_Inf t) = (if a = 0 then F_NaN else F_Inf ((a < 0) \<noteq> t))"
| "f_mul _ _ = F_NaN"

fun f_div :: "f64 \<Rightarrow> f64 \<Rightarrow> f64" where
  "f_div (Fin a) (Fin b) =
     (if b = 0 then (if a = 0 then F_NaN else F_Inf (a < 0)) else f_round (a / b))"
| "f_div (F_Inf s) (Fin b) = F_Inf (s \<noteq> (b < 0))"
| "f_div (Fin a) (F_Inf t) = Fin 0"
| "f_div _ _ = F_NaN"

text \<open>\<open>n as f64\<close> for an unsigned integer.\<close>

definition f_of_nat :: "nat \<Rightarrow> f64" where
  "f_of_nat n = f_round (of_int (int n))"

text \<open>\<open>value / capacity * 100.0\<close>, the utilisation of the capacity policies.\<close>

definition utilisation :: "f64 \<Rightarrow> f64 \<Rightarrow> f64" where
  "utilisation value capacity = f_mul (f_div value capacity) (Fin 100)"

lemma round_half_even_int [simp]: "round_half_even (of_int k) = k"
  by (simp add: round_half_even_def)

lemma round_half_even_nonneg: "0 \<le> x \<Longrightarrow> 0 \<le> round_half_even x"
  by (auto simp: round_half_even_def Let_def)

lemma pow2_pos [simp]: "0 < pow2 k"
  by (simp add: pow2_def)

lemma f_round_zero [simp]: "f_round 0 = Fin 0"
  by (simp add: f_round_def)

text \<open>Rounding keeps the sign: no quotient of a nonnegative value is negative or a NaN.\<close>

lemma f_round_nonneg: "0 \<le> q \<Longrightarrow> f_le (Fin 0) (f_round q)"
proof -
  assume q: "0 \<le> q"
  let ?k = "max (ilog2 \<bar>q\<bar> - 52) (- 1074)"
  have "0 \<le> rat_of_int (round_half_even (\<bar>q\<bar> / pow2 ?k)) * pow2 ?k"
    by (simp add: round_half_even_nonneg less_imp_le)
  with q show ?thesis by (auto simp: f_round_def Let_def f_le_def less_le)
qed

lemma f_round_not_NaN [simp]: "f_round q \<noteq> F_NaN"
  by (auto simp: f_round_def Let_def)

lemma utilisation_not_NaN:
  assumes "is_finite v" and "c = Fin d" and "0 < d"
  shows "utilisation v c \<noteq> F_NaN"
proof -
  obtain a where v: "v = Fin a" using assms(1) by (cases v) auto
  have "f_div v c = f_round (a / d)" using v assms by simp
  moreover have "f_mul (f_round q) (Fin 100) \<noteq> F_NaN" for q
    by (cases "f_round q") auto
  ultimately show ?thesis by (simp add: utilisation_def)
qed

subsection \<open>Rounding is exact on representable values\<close>

text \<open>
  A rational \<open>m * 2 ^ k\<close> with \<open>\<bar>m\<bar> < 2 ^ 53\<close> in the exponent range is a binary64 value
  and rounds to itself, so integer-valued readings and thresholds suffer no error.
\<close>

lemma pow2_powi: "pow2 k = 2 powi k"
  by (simp add: pow2_def power_int_def power_one_over inverse_eq_divide)

lemma pow2_add: "pow2 (j + k) = pow2 j * pow2 k"
  by (simp add: pow2_powi power_int_add)

lemma pow2_less_iff [simp]: "pow2 j < pow2 k \<longleftrightarrow> j < k"
proof
  show "j < k \<Longrightarrow> pow2 j < pow2 k"
    by (simp add: pow2_powi power_int_strict_increasing)
  show "pow2 j < pow2 k \<Longrightarrow> j < k"
    by (metis linorder_not_le order_less_irrefl order_less_le_trans pow2_powi
        power_int_increasing one_le_numeral zero_neq_numeral)
qed

lemma pow2_le_iff [simp]: "pow2 j \<le> pow2 k \<longleftrightarrow> j \<le> k"
  by (simp flip: linorder_not_less)

lemma pow2_nat: "pow2 (int n) = 2 ^ n"
  by (simp add: pow2_def)

lemma bits_nonneg: "0 \<le> bits n"
  by (induction n rule: bits.induct) (simp add: bits.simps)

lemma bits_spec: "0 < n \<Longrightarrow> pow2 (bits n - 1) \<le> of_int n \<and> of_int n < pow2 (bits n)"
proof (induction n rule: bits.induct)
  case (1 n)
  have unfold: "bits n = 1 + bits (n div 2)" using "1.prems" by (simp add: bits.simps)
  have n: "n = 2 * (n div 2) + n mod 2" by simp
  show ?case
  proof (cases "n = 1")
    case True
    then show ?thesis by (simp add: bits.simps pow2_def)
  next
    case False
    with "1.prems" have half: "0 < n div 2" by presburger
    with "1.IH" "1.prems" have
      lo: "pow2 (bits (n div 2) - 1) \<le> of_int (n div 2)" and
      hi: "of_int (n div 2) < pow2 (bits (n div 2))" by auto
    have two: "pow2 (bits (n div 2)) = 2 * pow2 (bits (n div 2) - 1)"
      using pow2_add [of 1 "bits (n div 2) - 1"] by (simp add: pow2_def)
    have "bits (n div 2) \<ge> 0" by (rule bits_nonneg)
    then obtain b where b: "bits (n div 2) = int b" using nonneg_int_cases by blast
    from hi have "rat_of_int (n div 2) < rat_of_int (2 ^ b)" by (simp only: b pow2_nat) simp
    then have "n div 2 < 2 ^ b" by (simp only: of_int_less_iff)
    then have "n < 2 * 2 ^ b" by linarith
    then have "rat_of_int n < rat_of_int (2 * 2 ^ b)" by (simp only: of_int_less_iff)
    then have "of_int n < pow2 (1 + int b)" by (simp add: pow2_add pow2_nat) (simp add: pow2_def)
    moreover have "2 * pow2 (bits (n div 2) - 1) \<le> of_int n"
    proof -
      have "rat_of_int (2 * (n div 2)) \<le> of_int n" by (subst of_int_le_iff) linarith
      with lo show ?thesis by simp
    qed
    ultimately show ?thesis using unfold two b by simp
  qed
qed

lemma ilog2_spec:
  assumes "0 < a"
  shows "pow2 (ilog2 a) \<le> a" and "a < pow2 (ilog2 a + 1)"
proof -
  obtain n d where q: "quotient_of a = (n, d)" by (cases "quotient_of a")
  then have d: "0 < d" and a: "a = of_int n / of_int d"
    using quotient_of_denom_pos quotient_of_div by auto
  with assms have n: "0 < n" by (simp add: zero_less_divide_iff)
  let ?k = "bits n - bits d"
  have bn: "pow2 (bits n - 1) \<le> of_int n" "of_int n < pow2 (bits n)"
    and bd: "pow2 (bits d - 1) \<le> of_int d" "of_int d < pow2 (bits d)"
    using bits_spec [OF n] bits_spec [OF d] by auto
  have "pow2 (?k - 1) * of_int d \<le> pow2 (?k - 1) * pow2 (bits d)"
    using bd(2) by (intro mult_left_mono) (auto simp: less_imp_le)
  also have "\<dots> = pow2 (bits n - 1)" by (simp flip: pow2_add)
  finally have lo: "pow2 (?k - 1) \<le> a"
    using bn(1) d by (simp add: a pos_le_divide_eq)
  have "of_int n < pow2 (?k + 1) * pow2 (bits d - 1)" using bn(2) by (simp flip: pow2_add)
  also have "\<dots> \<le> pow2 (?k + 1) * of_int d"
    using bd(1) by (intro mult_left_mono) (auto simp: less_imp_le)
  finally have hi: "a < pow2 (?k + 1)"
    using d by (simp add: a pos_divide_less_eq)
  show "pow2 (ilog2 a) \<le> a" using lo by (simp add: ilog2_def q Let_def)
  show "a < pow2 (ilog2 a + 1)" using hi by (simp add: ilog2_def q Let_def)
qed

lemma f_round_exact:
  assumes "q = of_int m * pow2 k" and "\<bar>m\<bar> < 2 ^ 53" and "- 1074 \<le> k" and "k \<le> 971"
  shows "f_round q = Fin q"
proof (cases "q = 0")
  case False
  then have m: "0 < \<bar>m\<bar>" and a: "\<bar>q\<bar> = of_int \<bar>m\<bar> * pow2 k"
    using assms(1) by (auto simp: abs_mult less_imp_le)
  have "rat_of_int \<bar>m\<bar> < 2 ^ 53"
    using assms(2) by (simp flip: of_int_less_iff [where 'a=rat])
  then have "\<bar>q\<bar> < 2 ^ 53 * pow2 k" unfolding a by (intro mult_strict_right_mono) auto
  also have "\<dots> = pow2 (53 + k)" using pow2_nat [of 53] by (simp add: pow2_add)
  finally have up: "\<bar>q\<bar> < pow2 (53 + k)" .
  have pos: "0 < \<bar>q\<bar>" using False by simp
  have "ilog2 \<bar>q\<bar> < 53 + k"
    using ilog2_spec(1) [OF pos] up pow2_less_iff by (metis order_le_less_trans)
  define j where "j = max (ilog2 \<bar>q\<bar> - 52) (- 1074)"
  have "j \<le> k" using \<open>ilog2 \<bar>q\<bar> < 53 + k\<close> assms(3) by (simp add: j_def)
  then obtain i where i: "k = j + int i" using zle_iff_zadd by blast
  have whole: "\<bar>q\<bar> / pow2 j = of_int (\<bar>m\<bar> * 2 ^ i)"
    using pow2_pos [of j] by (simp add: a i pow2_add pow2_nat del: pow2_pos)
  have r: "of_int (round_half_even (\<bar>q\<bar> / pow2 j)) * pow2 j = \<bar>q\<bar>"
    unfolding whole round_half_even_int by (simp add: a i pow2_add pow2_nat)
  have "pow2 (53 + k) \<le> pow2 1024" using assms(4) by simp
  with up have "\<not> pow2 1024 \<le> \<bar>q\<bar>" by linarith
  with False r show ?thesis
    unfolding f_round_def Let_def j_def [symmetric] by auto
qed simp

lemma f_round_int: "\<bar>n\<bar> < 2 ^ 53 \<Longrightarrow> f_round (of_int n) = Fin (of_int n)"
  by (rule f_round_exact [of _ n 0]) (simp_all add: pow2_def)

lemma f_round_numeral [simp]:
  "(numeral w :: int) < 2 ^ 53 \<Longrightarrow> f_round (numeral w) = Fin (numeral w)"
  using f_round_int [of "numeral w"] by simp

lemma f_round_one [simp]: "f_round 1 = Fin 1"
  using f_round_int [of 1] by simp

end
