(* ===== verification/Model.thy ===== *)
theory Model
  imports BTree Float64
begin

text \<open>
  The evidence model: \<open>crates/core/src/model.rs\<close>, \<open>observations.rs\<close> and the
  \<open>Diagnostic\<close> and \<open>ResourceContext\<close> of \<open>diagnostics.rs\<close>, with the configuration
  types an observation embeds. Structs are records, enums are datatypes with the
  source's constructors and field order; a letter or a short prefix keeps the names
  of different enums apart (\<open>CEdge\<close> is \<open>Check::Edge\<close>, \<open>SReady\<close> is
  \<open>ServiceState::Ready\<close>). What the code takes from crates outside the repository is
  the record \<open>ext\<close>, an argument of the operations that use it.
\<close>

section \<open>Vocabulary\<close>

datatype provider = Gcp | Aws | Azure | Kubernetes | Github | Edge | Nats

datatype check =
  CPreflight | CDiscovery | CInventory | CKubernetes | CEdge | CManaged | CQueues
| CReleases | CGithub | CMetrics | CLogs | CAlerts | CSlo | CFlows

datatype expected = Active | Dormant | ScaleToZero | Suspended

datatype health = Healthy | Degraded | Unhealthy | Unknown | ExpectedInactive

datatype severity = Info | Warning | Error

datatype coverage =
  Complete | Denied | Unauthenticated | Unavailable | Unsupported | Missing | Truncated
| Timeout | Cancelled | Malformed | Stale | InventoryOnly

datatype confidence = Direct | Correlated | Insufficient

datatype service_state = SReady | SStarting | SStopped | SFailed | SUnknown

datatype log_class =
  LImport | LPanic | LOutOfMemory | LConnection | LPermission | LTimeout | LWarning | LOtherError

datatype manifest_kind = MImage | MIndex | MUnknown

datatype transition_kind = TNew | TWorsened | TRecovered | TStale | TRemoved | TReappeared

datatype aggregation = Minimum | Maximum | Average | Sum | Latest

text \<open>\<open>Check::ALL\<close>, in declaration order, which is also the derived \<open>Ord\<close>.\<close>

definition all_checks :: "check list" where
  "all_checks = [CPreflight, CDiscovery, CInventory, CKubernetes, CEdge, CManaged, CQueues,
     CReleases, CGithub, CMetrics, CLogs, CAlerts, CSlo, CFlows]"

fun check_index :: "check \<Rightarrow> nat" where
  "check_index CPreflight = 0" | "check_index CDiscovery = 1" | "check_index CInventory = 2"
| "check_index CKubernetes = 3" | "check_index CEdge = 4" | "check_index CManaged = 5"
| "check_index CQueues = 6" | "check_index CReleases = 7" | "check_index CGithub = 8"
| "check_index CMetrics = 9" | "check_index CLogs = 10" | "check_index CAlerts = 11"
| "check_index CSlo = 12" | "check_index CFlows = 13"

lemma check_index_inj: "check_index a = check_index b \<Longrightarrow> a = b"
  by (cases a; cases b) simp_all

instantiation check :: linorder
begin

definition less_eq_check :: "check \<Rightarrow> check \<Rightarrow> bool" where
  "less_eq_check a b \<longleftrightarrow> check_index a \<le> check_index b"

definition less_check :: "check \<Rightarrow> check \<Rightarrow> bool" where
  "less_check a b \<longleftrightarrow> check_index a < check_index b"

instance
  by standard (auto simp: less_eq_check_def less_check_def intro: check_index_inj)

end

fun severity_index :: "severity \<Rightarrow> nat" where
  "severity_index Info = 0" | "severity_index Warning = 1" | "severity_index Error = 2"

instantiation severity :: linorder
begin

definition less_eq_severity :: "severity \<Rightarrow> severity \<Rightarrow> bool" where
  "less_eq_severity a b \<longleftrightarrow> severity_index a \<le> severity_index b"

definition less_severity :: "severity \<Rightarrow> severity \<Rightarrow> bool" where
  "less_severity a b \<longleftrightarrow> severity_index a < severity_index b"

instance
proof
  show "a \<le> b \<Longrightarrow> b \<le> a \<Longrightarrow> a = b" for a b :: severity
    by (cases a; cases b) (simp_all add: less_eq_severity_def)
qed (auto simp: less_eq_severity_def less_severity_def)

end

lemmas enum_order = less_eq_check_def less_check_def less_eq_severity_def less_severity_def

text \<open>\<open>Check::interval_seconds\<close>: the default cadence of a check.\<close>

fun interval_seconds :: "check \<Rightarrow> u64" where
  "interval_seconds c =
     (if c \<in> {CPreflight, CKubernetes, CEdge, CQueues, CFlows} then 30
      else if c \<in> {CInventory, CManaged} then 900
      else if c = CDiscovery then 3600
      else 300)"

text \<open>The derived \<open>Debug\<close> name of a check, the second half of a job key.\<close>

fun check_name :: "check \<Rightarrow> string" where
  "check_name CPreflight = ''Preflight''" | "check_name CDiscovery = ''Discovery''"
| "check_name CInventory = ''Inventory''" | "check_name CKubernetes = ''Kubernetes''"
| "check_name CEdge = ''Edge''" | "check_name CManaged = ''Managed''"
| "check_name CQueues = ''Queues''" | "check_name CReleases = ''Releases''"
| "check_name CGithub = ''Github''" | "check_name CMetrics = ''Metrics''"
| "check_name CLogs = ''Logs''" | "check_name CAlerts = ''Alerts''"
| "check_name CSlo = ''Slo''" | "check_name CFlows = ''Flows''"

fun provider_name :: "provider \<Rightarrow> string" where
  "provider_name Gcp = ''Gcp''" | "provider_name Aws = ''Aws''"
| "provider_name Azure = ''Azure''" | "provider_name Kubernetes = ''Kubernetes''"
| "provider_name Github = ''Github''" | "provider_name Edge = ''Edge''"
| "provider_name Nats = ''Nats''"

section \<open>Observations\<close>

record metric_query =
  mq_aggregation :: aggregation
  mq_name :: string
  mq_namespace :: string
  mq_metric :: string
  mq_resource :: string
  mq_dimensions :: "(string, string) bmap"
  mq_capacity :: "f64 option"
  mq_warning :: "f64 option"
  mq_error :: "f64 option"

text \<open>\<open>observations::Data\<close>; the fields are in the source's order.\<close>

datatype data =
  Activity string service_state "instant option"
    \<comment> \<open>operation, state, event at\<close>
| NetworkPolicy "string option" "bool option" "string list" "string list" "u32 option"
    \<comment> \<open>direction, allows public, protocols, ports, priority\<close>
| KeyMetadata "bool option" "string option" "instant option" "instant option"
    \<comment> \<open>enabled, purpose, rotates at, expires at\<close>
| Maintenance "string option" bool
    \<comment> \<open>window, pending\<close>
| Synchronization "bool option" "instant option" "u64 option"
    \<comment> \<open>ready, last sync, interval seconds\<close>
| Registry string
| Artifact manifest_kind "string list" string string "string list" "string option"
    "string option" bool "instant option"
    \<comment> \<open>manifest, children, image, digest, tags, revision, repository, built, created at\<close>
| Commit string string "string option"
    \<comment> \<open>repository, revision, reference\<close>
| Provenance instant "string list" "string option" bool "string option" "string option"
    bool bool bool bool
    \<comment> \<open>valid until, observed digests, desired digest, pending, revision, repository,
      registry, build and commit verified, mismatch\<close>
| SloDefinition string "f64 option" "u64 option"
    \<comment> \<open>name, goal, period seconds\<close>
| Slo f64 "f64 option" "f64 option" "f64 option" "u64 option"
    \<comment> \<open>goal, compliance, budget, burn rate, period seconds\<close>
| LogWorkspace string string
    \<comment> \<open>workspace id, resource id\<close>
| LogWindow u64 instant instant usize usize usize bool
    \<comment> \<open>gap seconds, start, end, scanned, duplicates, limit, complete\<close>
| Certificate "bool option" "instant option"
    \<comment> \<open>issued, expires at\<close>
| Recovery "instant option" service_state "bool option" "instant option" "u32 option"
    "bool option" "bool option"
    \<comment> \<open>last attempt, state, enabled, last success, retention days, point in time, geo redundant\<close>
| MetricResource string string
    \<comment> \<open>resource id, namespace\<close>
| Quota string string f64 "metric_query option"
    \<comment> \<open>region, code, limit, usage\<close>
| Progress health
| Scaler string string string string f64 bool
    \<comment> \<open>namespace, name, worker, metric, activation, ready\<close>
| Owner string "string option"
    \<comment> \<open>uid, owner uid\<close>
| AdvertisedEndpoint string
| Endpoint bool bool "u16 option" "u16 list" u64 "instant option"
    \<comment> \<open>dns, tls, status, accepted, latency ms, expires at\<close>
| Job "instant option" "instant option" bool bool u32 u32 u32 "instant option"
    \<comment> \<open>completed at, scheduled at, complete, failed, failed attempts, succeeded, active, created at\<close>
| Workload u32 u32 "instant option" bool bool
    \<comment> \<open>desired, ready, created at, draining, node\<close>
| Pod string string bool u32 bool "instant option" "instant option"
    \<comment> \<open>uid, container, ready, restarts, crash loop, created at, terminated at\<close>
| Schedule "instant option" "u64 option" bool string string bool u32 "instant option" "instant option"
    \<comment> \<open>created at, starting deadline seconds, forbid overlap, schedule, timezone, suspended,
      active, last schedule, last success\<close>
| Queue f64 f64 u32 u32 bool bool "f64 option" "f64 option"
    \<comment> \<open>backlog, activation, ready, desired, crash loop, scaler ready, age seconds, dead letters\<close>
| Service service_state "u32 option" "bool option" "bool option"
    \<comment> \<open>state, replicas, backup enabled, encrypted\<close>
| Metric string f64 "f64 option" "f64 option" "f64 option" u64
    \<comment> \<open>name, value, capacity, warning, error, window seconds\<close>
| Build bool string string string service_state "instant option"
    \<comment> \<open>superseded, pipeline, revision, target, state, created at\<close>
| Image string "string option" "string option"
    \<comment> \<open>desired, observed digest, revision\<close>
| Log log_class u64 instant instant bool
    \<comment> \<open>signature, count, first seen, last seen, sampled\<close>
| Inventory string bool
    \<comment> \<open>family, supported\<close>
| Condition string "bool option"
    \<comment> \<open>rule, healthy\<close>
| Identity string

text \<open>\<open>Data::is_health_evidence\<close>: inventory and metadata imply no resource health.\<close>

fun is_health_evidence :: "data \<Rightarrow> bool" where
  "is_health_evidence (Activity _ _ _) = False"
| "is_health_evidence (NetworkPolicy _ _ _ _ _) = False"
| "is_health_evidence (KeyMetadata _ _ _ _) = False"
| "is_health_evidence (Maintenance _ _) = False"
| "is_health_evidence (Registry _) = False"
| "is_health_evidence (Artifact _ _ _ _ _ _ _ _ _) = False"
| "is_health_evidence (Commit _ _ _) = False"
| "is_health_evidence (SloDefinition _ _ _) = False"
| "is_health_evidence (LogWorkspace _ _) = False"
| "is_health_evidence (LogWindow _ _ _ _ _ _ _) = False"
| "is_health_evidence (MetricResource _ _) = False"
| "is_health_evidence (Quota _ _ _ _) = False"
| "is_health_evidence (Owner _ _) = False"
| "is_health_evidence (Inventory _ _) = False"
| "is_health_evidence (Identity _) = False"
| "is_health_evidence (Scaler _ _ _ _ _ _) = False"
| "is_health_evidence (AdvertisedEndpoint _) = False"
| "is_health_evidence _ = True"

record resource_context =
  rc_provider :: provider
  rc_scope :: string
  rc_service :: string
  rc_native_id :: string
  rc_region :: "string option"
  rc_zone :: "string option"
  rc_cluster :: "string option"
  rc_namespace :: "string option"
  rc_name :: "string option"
  rc_uid :: "string option"
  rc_container :: "string option"
  rc_reason :: "string option"
  rc_exit_code :: "int option"

record observation =
  o_context :: "resource_context option"
  o_resource :: string
  o_operation :: string
  o_observed_at :: instant
  o_expected :: expected
  o_data :: data

record operation =
  op_id :: string
  op_coverage :: coverage
  op_observed_at :: instant
  op_records :: usize
  op_pages :: usize
  op_attempts :: usize
  op_required :: bool

section \<open>Findings, results and the snapshot\<close>

record diagnostic =
  d_first_detected_at :: "instant option"
  d_last_detected_at :: instant
  d_observation :: observation
  d_previous_restarts :: "u32 option"
  d_grace_seconds :: u64

record finding =
  f_diagnostic :: "diagnostic option"
  f_check :: "check option"
  f_id :: string
  f_resource :: string
  f_rule :: string
  f_severity :: severity
  f_evidence :: "string list"
  f_observed_at :: instant
  f_expected :: expected
  f_confidence :: confidence
  f_stale :: bool
  f_clear_count :: u32
  f_valid_until :: "instant option"

record check_result =
  r_target :: string
  r_check :: check
  r_revision :: string
  r_started_at :: instant
  r_finished_at :: instant
  r_operations :: "operation list"
  r_observations :: "observation list"

record transition =
  tr_at :: instant
  tr_finding :: string
  tr_kind :: transition_kind

record removal_confirmation =
  rm_count :: u32
  rm_last_at :: instant

text \<open>\<open>capacity::Pressure\<close> and \<open>flows::Progress\<close>, the comparison state of two policies.\<close>

record pressure =
  p_last_seen :: instant
  p_warning_since :: "instant option"
  p_error_since :: "instant option"
  p_warning :: f64
  p_error :: f64

record progress =
  g_value :: f64
  g_last_seen :: instant
  g_last_progress :: instant
  g_established :: bool

record snapshot =
  sn_version :: u32
  sn_revision :: string
  sn_captured_at :: instant
  sn_selected_scope :: "string list"
  sn_collection_only :: "string list"
  sn_scope_fingerprints :: "(string, string) bmap"
  sn_samples :: "(string, u32) bmap"
  sn_selectors :: "(string, string list) bmap"
  sn_regions :: "(string, string list) bmap"
  sn_freshness :: "(string, u64) bmap"
  sn_results :: "(string, check_result) bmap"
  sn_findings :: "(string, finding) bmap"
  sn_health :: "(string, health) bmap"
  sn_pressure :: "(string, pressure) bmap"
  sn_progress :: "(string, progress) bmap"
  sn_retired :: "(string, transition) bmap"
  sn_confirmations :: "(string, removal_confirmation) bmap"
  sn_persistence_fault :: bool
  sn_dropped_transitions :: u64

text \<open>\<open>CheckResult::complete\<close>.\<close>

definition result_complete :: "check_result \<Rightarrow> bool" where
  "result_complete r \<longleftrightarrow> r_operations r \<noteq> [] \<and>
     (\<forall>p \<in> set (r_operations r). \<not> op_required p \<or> op_coverage p = Complete)"

text \<open>\<open>CheckResult::failure\<close>; \<open>now\<close> is the \<open>Utc::now()\<close> it reads.\<close>

definition result_failure :: "string \<Rightarrow> check \<Rightarrow> string \<Rightarrow> coverage \<Rightarrow> instant \<Rightarrow> check_result" where
  "result_failure target check revision coverage now =
     \<lparr>r_target = target, r_check = check, r_revision = revision,
      r_started_at = now, r_finished_at = now,
      r_operations = [\<lparr>op_id = check_name check, op_coverage = coverage, op_observed_at = now,
        op_records = 0, op_pages = 0, op_attempts = 1, op_required = True\<rparr>],
      r_observations = []\<rparr>"

section \<open>What the code takes from outside the repository\<close>

text \<open>
  \<^item> \<open>x_obs_json\<close>: the length of \<open>serde_json::to_vec\<close> of an observation, \<open>None\<close> on an
    encoding error; \<open>x_sizeof_obs\<close>, \<open>x_sizeof_op\<close>: the compiler's \<open>size_of\<close>.
  \<^item> \<open>x_add_secs t n\<close>, \<open>x_sub_secs t n\<close>: chrono's \<open>checked_add_signed\<close> and
    \<open>checked_sub_signed\<close> of \<open>Duration::seconds(n)\<close>.
  \<^item> \<open>x_cron schedule zone cutoff\<close>: \<open>None\<close> when croner or chrono-tz rejects the
    expression, \<open>Some None\<close> when there is no previous occurrence, else the occurrence.
  \<^item> \<open>x_wall\<close>: the value \<open>Utc::now()\<close> has while the operation runs.
\<close>

record ext =
  x_obs_json :: "observation \<Rightarrow> usize option"
  x_sizeof_obs :: usize
  x_sizeof_op :: usize
  x_add_secs :: "instant \<Rightarrow> int \<Rightarrow> instant option"
  x_sub_secs :: "instant \<Rightarrow> int \<Rightarrow> instant option"
  x_cron :: "string \<Rightarrow> string \<Rightarrow> instant \<Rightarrow> instant option option"
  x_wall :: instant

text \<open>The documented behaviour of checked instant arithmetic: exact when it is defined.\<close>

definition chrono_exact :: "ext \<Rightarrow> bool" where
  "chrono_exact x \<longleftrightarrow>
     (\<forall>t n u. x_add_secs x t n = Some u \<longrightarrow> u = t + n * nanos_per_sec) \<and>
     (\<forall>t n u. x_sub_secs x t n = Some u \<longrightarrow> u = t - n * nanos_per_sec)"

lemma result_failure_incomplete:
  "coverage \<noteq> Complete \<Longrightarrow> \<not> result_complete (result_failure t c r coverage now)"
  by (simp add: result_complete_def result_failure_def)

end
