(* ===== verification/Settings.thy ===== *)
theory Settings
  imports Model
begin

text \<open>
  Monitoring settings, \<open>crates/core/src/config\<close>: \<open>settings.rs\<close> (the record, its
  defaults and \<open>overlay\<close>, \<open>freshness\<close>), \<open>patch.rs\<close> (the sparse overlay),
  \<open>limits.rs\<close> (the hard ceilings of \<open>Settings::validate\<close>) and \<open>duration.rs\<close> (the
  range of a parsed \<open>Span\<close>). The lemmas say that overlays compose as one combined
  patch whose later layer wins, and that validated settings with parsed spans keep
  the freshness arithmetic clear of saturation and of the \<open>as i64\<close> wrap.
\<close>

section \<open>The record, its defaults and its overlays\<close>

record settings =
  s_interval :: span
  s_samples :: u32
  s_sample_interval :: span
  s_connect_timeout :: span
  s_attempt_timeout :: span
  s_operation_timeout :: span
  s_attempts :: usize
  s_concurrency :: usize
  s_scope_concurrency :: usize
  s_subprocesses :: usize
  s_ready_queue :: usize
  s_jitter_percent :: u8
  s_max_assets :: usize
  s_max_findings :: usize
  s_memory_bytes :: usize
  s_response_bytes :: usize
  s_max_pages :: usize
  s_page_size :: usize
  s_max_series :: usize
  s_log_window :: span
  s_log_overlap :: span
  s_log_dedup_entries :: usize
  s_log_entries :: usize
  s_runtime_window :: span
  s_runtime_entries :: usize
  s_metric_window :: span
  s_slo_burn_window :: span
  s_slo_burn_rate_error :: "f64 option"
  s_history_interval :: span
  s_history_age :: span
  s_history_count :: usize
  s_history_bytes :: u64
  s_node_grace :: span
  s_rollout_grace :: span
  s_capacity_warning :: f64
  s_capacity_error :: f64
  s_capacity_sustain :: span
  s_certificate_warning :: span
  s_recovery_age_error :: "span option"
  s_recover_confirmations :: u32
  s_removal_confirmations :: u32
  s_stale_after :: "span option"
  s_queue_age_error :: "f64 option"
  s_latency_error_ms :: "f64 option"
  s_enabled :: bool
  s_required :: bool

text \<open>\<open>Settings::default\<close>.\<close>

definition default_settings :: settings where
  "default_settings =
     \<lparr>s_interval = 300,
      s_samples = 5,
      s_sample_interval = 30,
      s_connect_timeout = 10,
      s_attempt_timeout = 30,
      s_operation_timeout = 90,
      s_attempts = 3,
      s_concurrency = 16,
      s_scope_concurrency = 4,
      s_subprocesses = 2,
      s_ready_queue = 1024,
      s_jitter_percent = 10,
      s_max_assets = 50000,
      s_max_findings = 10000,
      s_memory_bytes = 256 * 1024 * 1024,
      s_response_bytes = 2 * 1024 * 1024,
      s_max_pages = 50,
      s_page_size = 100,
      s_max_series = 1000,
      s_log_window = 3600,
      s_log_overlap = 120,
      s_log_dedup_entries = 4096,
      s_log_entries = 500,
      s_runtime_window = 86400,
      s_runtime_entries = 250,
      s_metric_window = 900,
      s_slo_burn_window = 3600,
      s_slo_burn_rate_error = None,
      s_history_interval = 300,
      s_history_age = 86400,
      s_history_count = 288,
      s_history_bytes = 1024 * 1024 * 1024,
      s_node_grace = 300,
      s_rollout_grace = 600,
      s_capacity_warning = Fin 80,
      s_capacity_error = Fin 90,
      s_capacity_sustain = 600,
      s_certificate_warning = 14 * 86400,
      s_recovery_age_error = None,
      s_recover_confirmations = 2,
      s_removal_confirmations = 2,
      s_stale_after = None,
      s_queue_age_error = None,
      s_latency_error_ms = None,
      s_enabled = True,
      s_required = True\<rparr>"

text \<open>\<open>SettingsPatch\<close>: a sparse overlay, \<open>None\<close> where a scope says nothing.\<close>

record settings_patch =
  p_slo_burn_window :: "span option"
  p_slo_burn_rate_error :: "(f64 option) option"
  p_log_dedup_entries :: "usize option"
  p_log_overlap :: "span option"
  p_certificate_warning :: "span option"
  p_recovery_age_error :: "(span option) option"
  p_interval :: "span option"
  p_samples :: "u32 option"
  p_sample_interval :: "span option"
  p_connect_timeout :: "span option"
  p_attempt_timeout :: "span option"
  p_operation_timeout :: "span option"
  p_attempts :: "usize option"
  p_concurrency :: "usize option"
  p_scope_concurrency :: "usize option"
  p_subprocesses :: "usize option"
  p_ready_queue :: "usize option"
  p_jitter_percent :: "u8 option"
  p_max_assets :: "usize option"
  p_max_findings :: "usize option"
  p_memory_bytes :: "usize option"
  p_response_bytes :: "usize option"
  p_max_pages :: "usize option"
  p_page_size :: "usize option"
  p_max_series :: "usize option"
  p_log_window :: "span option"
  p_log_entries :: "usize option"
  p_runtime_window :: "span option"
  p_runtime_entries :: "usize option"
  p_metric_window :: "span option"
  p_history_interval :: "span option"
  p_history_age :: "span option"
  p_history_count :: "usize option"
  p_history_bytes :: "u64 option"
  p_node_grace :: "span option"
  p_rollout_grace :: "span option"
  p_capacity_warning :: "f64 option"
  p_capacity_error :: "f64 option"
  p_capacity_sustain :: "span option"
  p_recover_confirmations :: "u32 option"
  p_removal_confirmations :: "u32 option"
  p_stale_after :: "(span option) option"
  p_queue_age_error :: "(f64 option) option"
  p_latency_error_ms :: "(f64 option) option"
  p_enabled :: "bool option"
  p_required :: "bool option"

definition empty_patch :: settings_patch where
  "empty_patch =
     \<lparr>p_slo_burn_window = None,
      p_slo_burn_rate_error = None,
      p_log_dedup_entries = None,
      p_log_overlap = None,
      p_certificate_warning = None,
      p_recovery_age_error = None,
      p_interval = None,
      p_samples = None,
      p_sample_interval = None,
      p_connect_timeout = None,
      p_attempt_timeout = None,
      p_operation_timeout = None,
      p_attempts = None,
      p_concurrency = None,
      p_scope_concurrency = None,
      p_subprocesses = None,
      p_ready_queue = None,
      p_jitter_percent = None,
      p_max_assets = None,
      p_max_findings = None,
      p_memory_bytes = None,
      p_response_bytes = None,
      p_max_pages = None,
      p_page_size = None,
      p_max_series = None,
      p_log_window = None,
      p_log_entries = None,
      p_runtime_window = None,
      p_runtime_entries = None,
      p_metric_window = None,
      p_history_interval = None,
      p_history_age = None,
      p_history_count = None,
      p_history_bytes = None,
      p_node_grace = None,
      p_rollout_grace = None,
      p_capacity_warning = None,
      p_capacity_error = None,
      p_capacity_sustain = None,
      p_recover_confirmations = None,
      p_removal_confirmations = None,
      p_stale_after = None,
      p_queue_age_error = None,
      p_latency_error_ms = None,
      p_enabled = None,
      p_required = None\<rparr>"

text \<open>\<open>Settings::overlay\<close>: only the values a patch provides replace those below it.\<close>

definition overlay :: "settings_patch \<Rightarrow> settings \<Rightarrow> settings" where
  "overlay p s =
     \<lparr>s_interval = unwrap_or (s_interval s) (p_interval p),
      s_samples = unwrap_or (s_samples s) (p_samples p),
      s_sample_interval = unwrap_or (s_sample_interval s) (p_sample_interval p),
      s_connect_timeout = unwrap_or (s_connect_timeout s) (p_connect_timeout p),
      s_attempt_timeout = unwrap_or (s_attempt_timeout s) (p_attempt_timeout p),
      s_operation_timeout = unwrap_or (s_operation_timeout s) (p_operation_timeout p),
      s_attempts = unwrap_or (s_attempts s) (p_attempts p),
      s_concurrency = unwrap_or (s_concurrency s) (p_concurrency p),
      s_scope_concurrency = unwrap_or (s_scope_concurrency s) (p_scope_concurrency p),
      s_subprocesses = unwrap_or (s_subprocesses s) (p_subprocesses p),
      s_ready_queue = unwrap_or (s_ready_queue s) (p_ready_queue p),
      s_jitter_percent = unwrap_or (s_jitter_percent s) (p_jitter_percent p),
      s_max_assets = unwrap_or (s_max_assets s) (p_max_assets p),
      s_max_findings = unwrap_or (s_max_findings s) (p_max_findings p),
      s_memory_bytes = unwrap_or (s_memory_bytes s) (p_memory_bytes p),
      s_response_bytes = unwrap_or (s_response_bytes s) (p_response_bytes p),
      s_max_pages = unwrap_or (s_max_pages s) (p_max_pages p),
      s_page_size = unwrap_or (s_page_size s) (p_page_size p),
      s_max_series = unwrap_or (s_max_series s) (p_max_series p),
      s_log_window = unwrap_or (s_log_window s) (p_log_window p),
      s_log_overlap = unwrap_or (s_log_overlap s) (p_log_overlap p),
      s_log_dedup_entries = unwrap_or (s_log_dedup_entries s) (p_log_dedup_entries p),
      s_log_entries = unwrap_or (s_log_entries s) (p_log_entries p),
      s_runtime_window = unwrap_or (s_runtime_window s) (p_runtime_window p),
      s_runtime_entries = unwrap_or (s_runtime_entries s) (p_runtime_entries p),
      s_metric_window = unwrap_or (s_metric_window s) (p_metric_window p),
      s_slo_burn_window = unwrap_or (s_slo_burn_window s) (p_slo_burn_window p),
      s_slo_burn_rate_error = unwrap_or (s_slo_burn_rate_error s) (p_slo_burn_rate_error p),
      s_history_interval = unwrap_or (s_history_interval s) (p_history_interval p),
      s_history_age = unwrap_or (s_history_age s) (p_history_age p),
      s_history_count = unwrap_or (s_history_count s) (p_history_count p),
      s_history_bytes = unwrap_or (s_history_bytes s) (p_history_bytes p),
      s_node_grace = unwrap_or (s_node_grace s) (p_node_grace p),
      s_rollout_grace = unwrap_or (s_rollout_grace s) (p_rollout_grace p),
      s_capacity_warning = unwrap_or (s_capacity_warning s) (p_capacity_warning p),
      s_capacity_error = unwrap_or (s_capacity_error s) (p_capacity_error p),
      s_capacity_sustain = unwrap_or (s_capacity_sustain s) (p_capacity_sustain p),
      s_certificate_warning = unwrap_or (s_certificate_warning s) (p_certificate_warning p),
      s_recovery_age_error = unwrap_or (s_recovery_age_error s) (p_recovery_age_error p),
      s_recover_confirmations = unwrap_or (s_recover_confirmations s) (p_recover_confirmations p),
      s_removal_confirmations = unwrap_or (s_removal_confirmations s) (p_removal_confirmations p),
      s_stale_after = unwrap_or (s_stale_after s) (p_stale_after p),
      s_queue_age_error = unwrap_or (s_queue_age_error s) (p_queue_age_error p),
      s_latency_error_ms = unwrap_or (s_latency_error_ms s) (p_latency_error_ms p),
      s_enabled = unwrap_or (s_enabled s) (p_enabled p),
      s_required = unwrap_or (s_required s) (p_required p)\<rparr>"

text \<open>The patch that says what \<open>q\<close> says and, where \<open>q\<close> is silent, what \<open>p\<close> says.\<close>

definition patch_over :: "settings_patch \<Rightarrow> settings_patch \<Rightarrow> settings_patch" where
  "patch_over p q =
     \<lparr>p_slo_burn_window = (case p_slo_burn_window q of None \<Rightarrow> p_slo_burn_window p | Some v \<Rightarrow> Some v),
      p_slo_burn_rate_error = (case p_slo_burn_rate_error q of None \<Rightarrow> p_slo_burn_rate_error p | Some v \<Rightarrow> Some v),
      p_log_dedup_entries = (case p_log_dedup_entries q of None \<Rightarrow> p_log_dedup_entries p | Some v \<Rightarrow> Some v),
      p_log_overlap = (case p_log_overlap q of None \<Rightarrow> p_log_overlap p | Some v \<Rightarrow> Some v),
      p_certificate_warning = (case p_certificate_warning q of None \<Rightarrow> p_certificate_warning p | Some v \<Rightarrow> Some v),
      p_recovery_age_error = (case p_recovery_age_error q of None \<Rightarrow> p_recovery_age_error p | Some v \<Rightarrow> Some v),
      p_interval = (case p_interval q of None \<Rightarrow> p_interval p | Some v \<Rightarrow> Some v),
      p_samples = (case p_samples q of None \<Rightarrow> p_samples p | Some v \<Rightarrow> Some v),
      p_sample_interval = (case p_sample_interval q of None \<Rightarrow> p_sample_interval p | Some v \<Rightarrow> Some v),
      p_connect_timeout = (case p_connect_timeout q of None \<Rightarrow> p_connect_timeout p | Some v \<Rightarrow> Some v),
      p_attempt_timeout = (case p_attempt_timeout q of None \<Rightarrow> p_attempt_timeout p | Some v \<Rightarrow> Some v),
      p_operation_timeout = (case p_operation_timeout q of None \<Rightarrow> p_operation_timeout p | Some v \<Rightarrow> Some v),
      p_attempts = (case p_attempts q of None \<Rightarrow> p_attempts p | Some v \<Rightarrow> Some v),
      p_concurrency = (case p_concurrency q of None \<Rightarrow> p_concurrency p | Some v \<Rightarrow> Some v),
      p_scope_concurrency = (case p_scope_concurrency q of None \<Rightarrow> p_scope_concurrency p | Some v \<Rightarrow> Some v),
      p_subprocesses = (case p_subprocesses q of None \<Rightarrow> p_subprocesses p | Some v \<Rightarrow> Some v),
      p_ready_queue = (case p_ready_queue q of None \<Rightarrow> p_ready_queue p | Some v \<Rightarrow> Some v),
      p_jitter_percent = (case p_jitter_percent q of None \<Rightarrow> p_jitter_percent p | Some v \<Rightarrow> Some v),
      p_max_assets = (case p_max_assets q of None \<Rightarrow> p_max_assets p | Some v \<Rightarrow> Some v),
      p_max_findings = (case p_max_findings q of None \<Rightarrow> p_max_findings p | Some v \<Rightarrow> Some v),
      p_memory_bytes = (case p_memory_bytes q of None \<Rightarrow> p_memory_bytes p | Some v \<Rightarrow> Some v),
      p_response_bytes = (case p_response_bytes q of None \<Rightarrow> p_response_bytes p | Some v \<Rightarrow> Some v),
      p_max_pages = (case p_max_pages q of None \<Rightarrow> p_max_pages p | Some v \<Rightarrow> Some v),
      p_page_size = (case p_page_size q of None \<Rightarrow> p_page_size p | Some v \<Rightarrow> Some v),
      p_max_series = (case p_max_series q of None \<Rightarrow> p_max_series p | Some v \<Rightarrow> Some v),
      p_log_window = (case p_log_window q of None \<Rightarrow> p_log_window p | Some v \<Rightarrow> Some v),
      p_log_entries = (case p_log_entries q of None \<Rightarrow> p_log_entries p | Some v \<Rightarrow> Some v),
      p_runtime_window = (case p_runtime_window q of None \<Rightarrow> p_runtime_window p | Some v \<Rightarrow> Some v),
      p_runtime_entries = (case p_runtime_entries q of None \<Rightarrow> p_runtime_entries p | Some v \<Rightarrow> Some v),
      p_metric_window = (case p_metric_window q of None \<Rightarrow> p_metric_window p | Some v \<Rightarrow> Some v),
      p_history_interval = (case p_history_interval q of None \<Rightarrow> p_history_interval p | Some v \<Rightarrow> Some v),
      p_history_age = (case p_history_age q of None \<Rightarrow> p_history_age p | Some v \<Rightarrow> Some v),
      p_history_count = (case p_history_count q of None \<Rightarrow> p_history_count p | Some v \<Rightarrow> Some v),
      p_history_bytes = (case p_history_bytes q of None \<Rightarrow> p_history_bytes p | Some v \<Rightarrow> Some v),
      p_node_grace = (case p_node_grace q of None \<Rightarrow> p_node_grace p | Some v \<Rightarrow> Some v),
      p_rollout_grace = (case p_rollout_grace q of None \<Rightarrow> p_rollout_grace p | Some v \<Rightarrow> Some v),
      p_capacity_warning = (case p_capacity_warning q of None \<Rightarrow> p_capacity_warning p | Some v \<Rightarrow> Some v),
      p_capacity_error = (case p_capacity_error q of None \<Rightarrow> p_capacity_error p | Some v \<Rightarrow> Some v),
      p_capacity_sustain = (case p_capacity_sustain q of None \<Rightarrow> p_capacity_sustain p | Some v \<Rightarrow> Some v),
      p_recover_confirmations = (case p_recover_confirmations q of None \<Rightarrow> p_recover_confirmations p | Some v \<Rightarrow> Some v),
      p_removal_confirmations = (case p_removal_confirmations q of None \<Rightarrow> p_removal_confirmations p | Some v \<Rightarrow> Some v),
      p_stale_after = (case p_stale_after q of None \<Rightarrow> p_stale_after p | Some v \<Rightarrow> Some v),
      p_queue_age_error = (case p_queue_age_error q of None \<Rightarrow> p_queue_age_error p | Some v \<Rightarrow> Some v),
      p_latency_error_ms = (case p_latency_error_ms q of None \<Rightarrow> p_latency_error_ms p | Some v \<Rightarrow> Some v),
      p_enabled = (case p_enabled q of None \<Rightarrow> p_enabled p | Some v \<Rightarrow> Some v),
      p_required = (case p_required q of None \<Rightarrow> p_required p | Some v \<Rightarrow> Some v)\<rparr>"

text \<open>\<open>Settings::freshness\<close>.\<close>

definition freshness :: "settings \<Rightarrow> u64" where
  "freshness s =
     (case s_stale_after s of
        None \<Rightarrow> sat_add64 (sat_mul64 (s_interval s) 2) (s_operation_timeout s)
      | Some v \<Rightarrow> v)"

text \<open>\<open>Span::from_str\<close> of a duration given as humantime parses it: whole seconds and the
  nanoseconds below them, \<open>None\<close> where humantime rejects the text.\<close>

definition span_from :: "(u64 \<times> u32) option \<Rightarrow> string + span" where
  "span_from parsed =
     (case parsed of
        None \<Rightarrow> Inl ''invalid duration''
      | Some (secs, nanos) \<Rightarrow>
          if nanos \<noteq> 0 \<or> secs = 0 \<or> 31536000 < secs
          then Inl ''duration must be whole seconds between 1s and 365d''
          else Inr secs)"

definition span_ok :: "span \<Rightarrow> bool" where
  "span_ok n \<longleftrightarrow> 1 \<le> n \<and> n \<le> 31536000"

section \<open>Hard ceilings\<close>

text \<open>The disjunction of \<open>Settings::validate\<close>, in its order.\<close>

definition settings_invalid :: "settings \<Rightarrow> bool" where
  "settings_invalid s \<longleftrightarrow>
     50 < s_jitter_percent s \<or>
     is_some_and (\<lambda>v. \<not> is_finite v \<or> f_le v (Fin 0)) (s_slo_burn_rate_error s) \<or>
     s_log_dedup_entries s = 0 \<or>
     200000 < s_log_dedup_entries s \<or>
     s_log_window s < s_log_overlap s \<or>
     s_runtime_window s < s_log_overlap s \<or>
     s_concurrency s = 0 \<or>
     256 < s_concurrency s \<or>
     s_scope_concurrency s = 0 \<or>
     s_concurrency s < s_scope_concurrency s \<or>
     s_subprocesses s = 0 \<or>
     s_concurrency s < s_subprocesses s \<or>
     s_attempts s = 0 \<or>
     10 < s_attempts s \<or>
     s_samples s = 0 \<or>
     100 < s_samples s \<or>
     s_attempt_timeout s < s_connect_timeout s \<or>
     s_operation_timeout s < s_attempt_timeout s \<or>
     s_interval s = 0 \<or>
     s_sample_interval s = 0 \<or>
     s_max_pages s = 0 \<or>
     1000 < s_max_pages s \<or>
     s_page_size s = 0 \<or>
     1000 < s_page_size s \<or>
     s_max_assets s = 0 \<or>
     1000000 < s_max_assets s \<or>
     s_max_findings s = 0 \<or>
     s_max_assets s < s_max_findings s \<or>
     s_ready_queue s < s_concurrency s \<or>
     65536 < s_ready_queue s \<or>
     s_response_bytes s < 1024 \<or>
     16 * 1024 * 1024 < s_response_bytes s \<or>
     s_memory_bytes s < sat_mul64 (sat_mul64 (s_response_bytes s) (s_concurrency s)) 4 \<or>
     s_memory_bytes s < sat_mul64 (s_max_assets s) 1024 \<or>
     4 * 1024 * 1024 * 1024 < s_memory_bytes s \<or>
     s_history_count s = 0 \<or>
     10000 < s_history_count s \<or>
     s_history_age s < s_history_interval s \<or>
     s_history_bytes s < s_response_bytes s \<or>
     100 * 1024 * 1024 * 1024 < s_history_bytes s \<or>
     s_max_series s = 0 \<or>
     s_max_assets s < s_max_series s \<or>
     s_log_entries s = 0 \<or>
     50000 < s_log_entries s \<or>
     s_runtime_entries s = 0 \<or>
     50000 < s_runtime_entries s \<or>
     \<not> is_finite (s_capacity_warning s) \<or>
     \<not> is_finite (s_capacity_error s) \<or>
     f_le (s_capacity_warning s) (Fin 0) \<or>
     f_le (s_capacity_error s) (s_capacity_warning s) \<or>
     f_lt (Fin 100) (s_capacity_error s) \<or>
     s_recover_confirmations s = 0 \<or>
     s_removal_confirmations s = 0"

text \<open>\<open>error::Error\<close>; only the display text of the third-party causes is lost.\<close>

datatype error = ConfigError string | EvidenceError | CapacityError | IoError | JsonError | LockedError

definition retryable :: "error \<Rightarrow> bool" where
  "retryable e \<longleftrightarrow> e = IoError"

definition validate_settings :: "settings \<Rightarrow> error + unit" where
  "validate_settings s =
     (if settings_invalid s
      then Inl (ConfigError ''inconsistent or excessive collection/retention limits'')
      else Inr ())"

section \<open>Lemmas\<close>

lemma overlay_empty: "overlay empty_patch s = s"
  by (simp add: overlay_def empty_patch_def)

lemma unwrap_or_twice:
  "unwrap_or (unwrap_or d x) y = unwrap_or d (case y of None \<Rightarrow> x | Some v \<Rightarrow> Some v)"
  by (cases y) auto

lemma overlay_overlay: "overlay q (overlay p s) = overlay (patch_over p q) s"
  by (simp add: overlay_def patch_over_def unwrap_or_twice)

text \<open>The layers of a resolution collapse into one patch, whatever their number.\<close>

lemma overlay_layers: "fold overlay ps s = overlay (fold (\<lambda>q p. patch_over p q) ps empty_patch) s"
proof -
  have "fold overlay ps (overlay p s) = overlay (fold (\<lambda>q p. patch_over p q) ps p) s" for p
    by (induction ps arbitrary: p) (auto simp: overlay_overlay)
  from this [of empty_patch] show ?thesis by (simp add: overlay_empty)
qed

lemma span_from_ok: "span_from parsed = Inr n \<Longrightarrow> span_ok n"
  by (auto simp: span_from_def span_ok_def split: option.splits prod.splits if_splits)

lemma default_settings_valid: "\<not> settings_invalid default_settings"
  by (simp add: settings_invalid_def default_settings_def sat_mul64_def u64_max_def is_some_and_def)

text \<open>With parsed spans the freshness limit is the exact sum and fits an \<open>i64\<close>.\<close>

definition spans_parsed :: "settings \<Rightarrow> bool" where
  "spans_parsed s \<longleftrightarrow> span_ok (s_interval s) \<and> span_ok (s_operation_timeout s) \<and>
     (\<forall>v. s_stale_after s = Some v \<longrightarrow> span_ok v)"

lemma freshness_exact:
  assumes "spans_parsed s"
  shows "freshness s =
    (case s_stale_after s of None \<Rightarrow> s_interval s * 2 + s_operation_timeout s | Some v \<Rightarrow> v)"
  using assms
  by (auto simp: spans_parsed_def span_ok_def freshness_def sat_add64_def sat_mul64_def
      u64_max_def split: option.splits)

lemma freshness_bound: "spans_parsed s \<Longrightarrow> 1 \<le> freshness s \<and> freshness s \<le> 94608000"
  by (auto simp: freshness_exact) (auto simp: spans_parsed_def span_ok_def split: option.splits)

lemma as_i64_freshness: "spans_parsed s \<Longrightarrow> as_i64 (freshness s) = int (freshness s)"
  using freshness_bound [of s] by (simp add: as_i64_small)

end
