(* ===== verification/Config_Types.thy ===== *)
theory Config_Types
  imports Settings
begin

text \<open>
  Operator configuration and resolved jobs: \<open>crates/core/src/config/types.rs\<close> and the
  \<open>Job\<close>, \<open>Selection\<close> and \<open>Effective\<close> of \<open>resolve.rs\<close>. A \<open>url::Url\<close> is the record of
  the accessors the validator calls on it.
\<close>

section \<open>Targets\<close>

record url =
  u_scheme :: string
  u_host :: "string option"
  u_username :: string
  u_password :: "string option"
  u_path :: string
  u_query :: "string option"
  u_fragment :: "string option"

record endpoint =
  e_name :: string
  e_url :: url
  e_accepted :: "u16 list"

datatype signal_mode = Counter | Rate

record flow_stage =
  st_name :: string
  st_progress :: string
  st_mode :: signal_mode
  st_workload :: "string option"

record flow =
  fl_name :: string
  fl_demand :: string
  fl_idle_after :: span
  fl_stages :: "flow_stage list"

record change_scope =
  cs_repository :: string
  cs_base :: string
  cs_head :: string
  cs_paths :: "string list"
  cs_workloads :: "(string, string) bmap"

record nats_fallback =
  nf_namespace :: string
  nf_deployment :: string

record target =
  t_name :: string
  t_provider :: provider
  t_scope :: string
  t_credential :: "string option"
  t_regions :: "string list"
  t_github_credential :: "string option"
  t_context :: "string option"
  t_cluster :: "string option"
  t_cluster_location :: "string option"
  t_timezone :: "string option"
  t_expected :: expected
  t_expectations :: "(string, expected) bmap"
  t_resources :: "string list"
  t_settings :: settings_patch
  t_checks :: "(check, settings_patch) bmap"
  t_endpoints :: "endpoint list"
  t_repositories :: "string list"
  t_artifact_targets :: "string list"
  t_build_targets :: "(string, string) bmap"
  t_build_repositories :: "(string, string) bmap"
  t_repository_refs :: "(string, string) bmap"
  t_desired_file :: "string option"
  t_source_ref :: "string option"
  t_watched_secrets :: "string list"
  t_metrics :: "metric_query list"
  t_slo_goals :: "(string, f64) bmap"
  t_nats_url :: "url option"
  t_nats_fallback :: "nats_fallback option"
  t_flows :: "flow list"
  t_flows_required :: bool
  t_change :: "change_scope option"

record google_federation =
  gf_subject :: string
  gf_audience :: string
  gf_client_id :: "string option"

record credential =
  c_google_federation :: "google_federation option"
  c_credential_file :: "string option"
  c_provider :: provider
  c_profile :: "string option"
  c_tenant :: "string option"
  c_role_arn :: "string option"
  c_expected_identity :: "string option"
  c_token_env :: "string option"

record discovery_root =
  dr_provider :: provider
  dr_scope :: string
  dr_credential :: "string option"

record profile =
  pf_checks :: "check list option"
  pf_settings :: settings_patch

record config =
  cf_version :: u32
  cf_settings :: settings_patch
  cf_credentials :: "(string, credential) bmap"
  cf_discovery :: "discovery_root list"
  cf_profiles :: "(string, profile) bmap"
  cf_checks :: "(check, settings_patch) bmap"
  cf_severity :: "(string, severity) bmap"
  cf_targets :: "target list"

section \<open>Jobs\<close>

record job =
  j_artifact_only :: bool
  j_assess_health :: bool
  j_requested_checks :: "check list"
  j_kube_only :: bool
  j_sampling_explicit :: bool
  j_interval_explicit :: bool
  j_continuous :: bool
  j_log_start :: "instant option"
  j_log_end :: "instant option"
  j_key :: string
  j_target :: target
  j_check :: check
  j_settings :: settings
  j_revision :: string
  j_flows_enabled :: bool
  j_flow_settings :: "settings option"
  j_severity :: "(string, severity) bmap"

record selection =
  sel_profile :: "string option"
  sel_targets :: "string list"
  sel_checks :: "check list"
  sel_resources :: "string list"
  sel_overrides :: settings_patch

record effective =
  ef_revision :: string
  ef_jobs :: "job list"

text \<open>
  \<open>Debug\<close> formatting as \<open>Job::observation_scope\<close> uses it, with the escapes of the ASCII
  characters.
\<close>

definition hex_digit :: "nat \<Rightarrow> char" where
  "hex_digit n = (if n < 10 then char_of (48 + n) else char_of (87 + n))"

definition debug_char :: "char \<Rightarrow> string" where
  "debug_char c =
     (if c = CHR 0x22 then [CHR 0x5C, CHR 0x22]
      else if c = CHR 0x5C then [CHR 0x5C, CHR 0x5C]
      else if c = CHR 0x0A then [CHR 0x5C, CHR ''n'']
      else if c = CHR 0x0D then [CHR 0x5C, CHR ''r'']
      else if c = CHR 0x09 then [CHR 0x5C, CHR ''t'']
      else if c = CHR 0x00 then [CHR 0x5C, CHR ''0'']
      else if of_char c < (0x10::nat) then CHR 0x5C # ''u{'' @ [hex_digit (of_char c)] @ ''}''
      else if of_char c < (0x20::nat) \<or> c = CHR 0x7F
      then CHR 0x5C # ''u{'' @ [hex_digit (of_char c div 16), hex_digit (of_char c mod 16)] @ ''}''
      else [c])"

definition debug_str :: "string \<Rightarrow> string" where
  "debug_str s = [CHR 0x22] @ concat (map debug_char s) @ [CHR 0x22]"

definition debug_opt :: "string option \<Rightarrow> string" where
  "debug_opt x = (case x of None \<Rightarrow> ''None'' | Some s \<Rightarrow> ''Some('' @ debug_str s @ '')'')"

definition debug_list :: "string list \<Rightarrow> string" where
  "debug_list xs = ''['' @ join_with '', '' (map debug_str xs) @ '']''"

text \<open>\<open>Job::observation_scope\<close>: sorting and \<open>dedup\<close> leave the ascending distinct regions.\<close>

definition observation_scope :: "job \<Rightarrow> string" where
  "observation_scope j =
     (let t = j_target j
      in ''('' @ join_with '', ''
           [provider_name (t_provider t), debug_str (t_scope t), debug_opt (t_context t),
            debug_opt (t_cluster t), debug_opt (t_cluster_location t),
            debug_opt (t_credential t), debug_list (bs_collect (t_regions t))] @ '')'')"

definition job_scope :: "job \<Rightarrow> string" where
  "job_scope j = provider_name (t_provider (j_target j)) @ ''/'' @ t_scope (j_target j)"

text \<open>The prefix of every resource of a target, \<open>format!("{}/", job.target.name)\<close>.\<close>

definition target_prefix :: "job \<Rightarrow> string" where
  "target_prefix j = t_name (j_target j) @ ''/''"

definition in_target :: "job \<Rightarrow> string \<Rightarrow> bool" where
  "in_target j resource \<longleftrightarrow> starts_with resource (target_prefix j)"

definition job_freshness :: "job \<Rightarrow> u64" where
  "job_freshness j = freshness (j_settings j)"

end
