(* ===== verification/Policy.thy ===== *)
theory Policy
  imports Config_Types
begin

text \<open>
  Health policy over observations: \<open>crates/core/src/policy.rs\<close> and the modules it
  dispatches to (\<open>endpoint_policy\<close>, \<open>queue_policy\<close>, \<open>resource_policy\<close>,
  \<open>slo_policy\<close>, \<open>schedule_policy\<close>, \<open>synchronization\<close>, and \<open>evaluate\<close> of
  \<open>releases\<close>). Every module returns either a bare health state or one fault about the
  observation it judged; the locale \<open>health_policy\<close> states that contract, each module
  is an interpretation of it, and \<open>evaluate\<close> inherits it.
\<close>

section \<open>Evaluations\<close>

record evaluation =
  ev_health :: health
  ev_findings :: "finding list"

text \<open>\<open>policy::result\<close> and \<open>policy::fault\<close>.\<close>

definition result :: "health \<Rightarrow> evaluation" where
  "result h = \<lparr>ev_health = h, ev_findings = []\<rparr>"

definition fault :: "observation \<Rightarrow> string \<Rightarrow> severity \<Rightarrow> confidence \<Rightarrow> evaluation" where
  "fault obs rule sev conf =
     \<lparr>ev_health = (if sev = Error then Unhealthy else Degraded),
      ev_findings = [\<lparr>f_diagnostic = None, f_check = None,
        f_id = o_resource obs @ ''/'' @ rule, f_resource = o_resource obs, f_rule = rule,
        f_severity = sev, f_evidence = [o_operation obs], f_observed_at = o_observed_at obs,
        f_expected = o_expected obs, f_confidence = conf, f_stale = False,
        f_clear_count = 0, f_valid_until = None\<rparr>]\<rparr>"

abbreviation err :: "observation \<Rightarrow> string \<Rightarrow> evaluation" where
  "err obs rule \<equiv> fault obs rule Error Direct"

abbreviation warn :: "observation \<Rightarrow> string \<Rightarrow> evaluation" where
  "warn obs rule \<equiv> fault obs rule Warning Direct"

definition inactive :: "observation \<Rightarrow> bool" where
  "inactive obs \<longleftrightarrow> o_expected obs \<noteq> Active"

text \<open>\<open>policy::age\<close>: the whole seconds since an instant, \<open>None\<close> when they are negative.\<close>

definition age :: "instant option \<Rightarrow> instant \<Rightarrow> u64 option" where
  "age t now =
     (case t of None \<Rightarrow> None
      | Some t \<Rightarrow> (if 0 \<le> elapsed now t then Some (nat (elapsed now t)) else None))"

section \<open>The policy modules\<close>

subsection \<open>Endpoints, \<open>endpoint_policy.rs\<close>\<close>

definition status_accepted :: "u16 list \<Rightarrow> u16 \<Rightarrow> bool" where
  "status_accepted accepted st =
     (if accepted = [] then 100 \<le> st \<and> st < 500 else st \<in> set accepted)"

definition endpoint_evaluate :: "observation \<Rightarrow> settings \<Rightarrow> instant \<Rightarrow> evaluation" where
  "endpoint_evaluate obs s now =
     (case o_data obs of
        Endpoint dns tls status accepted latency_ms expires_at \<Rightarrow>
          if \<not> dns \<or> \<not> tls \<or> \<not> is_some_and (status_accepted accepted) status
          then (if inactive obs then result ExpectedInactive else err obs ''endpoint-unreachable'')
          else if is_some_and (\<lambda>t. elapsed t now < as_i64 (s_certificate_warning s)) expires_at
          then warn obs ''certificate-expiring''
          else if is_some_and (\<lambda>limit. f_lt limit (f_of_nat latency_ms)) (s_latency_error_ms s)
          then err obs ''endpoint-latency''
          else result Healthy
      | _ \<Rightarrow> result Unknown)"

subsection \<open>Queues, \<open>queue_policy.rs\<close>\<close>

definition starved_before :: "observation option \<Rightarrow> f64 \<Rightarrow> bool" where
  "starved_before previous activation =
     is_some_and (\<lambda>p. case o_data p of
         Queue b _ ready _ _ _ _ _ \<Rightarrow> ready = 0 \<and> f_lt activation b
       | _ \<Rightarrow> False) previous"

definition queue_evaluate :: "observation \<Rightarrow> observation option \<Rightarrow> settings \<Rightarrow> evaluation" where
  "queue_evaluate obs previous s =
     (case o_data obs of
        Queue backlog activation ready desired crash_loop scaler_ready age_seconds dead_letters \<Rightarrow>
          if \<not> is_finite backlog \<or> f_lt backlog (Fin 0) then result Unknown
          else if inactive obs then result ExpectedInactive
          else if is_some_and (\<lambda>n. f_lt (Fin 0) n) dead_letters then warn obs ''dead-letter-backlog''
          else if f_lt activation backlog then
            (if crash_loop \<and> ready = 0 then err obs ''queued-work-crash-looping-consumer''
             else if \<not> scaler_ready then err obs ''queued-work-scaler-not-ready''
             else if is_some_and (\<lambda>limit. is_some_and (\<lambda>v. f_lt limit v) age_seconds)
                       (s_queue_age_error s)
             then err obs ''queue-age''
             else if ready = 0 then
               (if starved_before previous activation
                then fault obs ''persistent-queued-work-consumer-starting'' Warning Correlated
                else result Unknown)
             else result Healthy)
          else result Healthy
      | _ \<Rightarrow> result Unknown)"

subsection \<open>Managed resources and metrics, \<open>resource_policy.rs\<close>\<close>

definition service_evaluate ::
  "observation \<Rightarrow> service_state \<Rightarrow> bool option \<Rightarrow> bool option \<Rightarrow> evaluation" where
  "service_evaluate obs state backup_enabled encrypted =
     (if inactive obs \<and> state = SStopped then result ExpectedInactive
      else if state = SFailed \<or> state = SStopped then err obs ''service-unavailable''
      else if state = SStarting \<or> state = SUnknown then result Unknown
      else if encrypted = Some False then warn obs ''encryption-disabled''
      else if backup_enabled = Some False then warn obs ''backup-disabled''
      else result Healthy)"

definition metric_evaluate ::
  "observation \<Rightarrow> settings \<Rightarrow> f64 \<Rightarrow> f64 option \<Rightarrow> f64 option \<Rightarrow> f64 option \<Rightarrow> u64 \<Rightarrow> evaluation" where
  "metric_evaluate obs s value capacity warning error window_seconds =
     (if inactive obs then result ExpectedInactive
      else if \<not> is_finite value then result Unknown
      else
        (let usable = is_some_and (\<lambda>c. f_lt (Fin 0) c \<and> is_finite c) capacity;
             v = (if usable then utilisation value (the capacity) else value);
             w = (if usable then Some (unwrap_or (s_capacity_warning s) warning) else warning);
             r = (if usable then Some (unwrap_or (s_capacity_error s) error) else error);
             reaches = is_some_and (\<lambda>t. f_le t v)
         in if w = None \<and> r = None then result Unknown
            else if capacity \<noteq> None \<and> window_seconds < s_capacity_sustain s \<and> (reaches w \<or> reaches r)
            then result Unknown
            else if reaches r then err obs ''metric-threshold''
            else if reaches w then warn obs ''metric-threshold''
            else result Healthy))"

definition resource_evaluate :: "observation \<Rightarrow> settings \<Rightarrow> evaluation" where
  "resource_evaluate obs s =
     (case o_data obs of
        Service state _ backup_enabled encrypted \<Rightarrow>
          service_evaluate obs state backup_enabled encrypted
      | Metric _ value capacity warning error window_seconds \<Rightarrow>
          metric_evaluate obs s value capacity warning error window_seconds
      | _ \<Rightarrow> result Unknown)"

subsection \<open>Service level objectives, \<open>slo_policy.rs\<close>\<close>

definition slo_evaluate :: "observation \<Rightarrow> settings \<Rightarrow> evaluation" where
  "slo_evaluate obs s =
     (case o_data obs of
        Slo goal compliance budget burn_rate _ \<Rightarrow>
          if o_expected obs \<noteq> Active then result ExpectedInactive
          else if \<not> is_finite goal \<or> f_le goal (Fin 0) \<or> f_lt (Fin 1) goal \<or>
               is_some_and (\<lambda>v. \<not> is_finite v \<or> \<not> (f_le (Fin 0) v \<and> f_le v (Fin 1))) compliance
          then result Unknown
          else if is_some_and (\<lambda>threshold.
                    is_some_and (\<lambda>v. is_finite v \<and> f_le threshold v) burn_rate)
                  (s_slo_burn_rate_error s)
          then fault obs ''slo-burn-rate'' Error Direct
          else if is_some_and (\<lambda>v. f_lt v goal) compliance \<or>
                  is_some_and (\<lambda>v. is_finite v \<and> f_lt v (Fin 0)) budget
          then fault obs ''slo-compliance'' Warning Direct
          else result (if compliance \<noteq> None then Healthy else Unknown)
      | _ \<Rightarrow> result Unknown)"

subsection \<open>Secret synchronization, \<open>synchronization.rs\<close>\<close>

definition synchronization_evaluate :: "observation \<Rightarrow> settings \<Rightarrow> instant \<Rightarrow> evaluation" where
  "synchronization_evaluate obs s now =
     (case o_data obs of
        Synchronization ready last_sync interval_secs \<Rightarrow>
          if o_expected obs \<noteq> Active then result ExpectedInactive
          else if ready = Some False then fault obs ''externalsecrets-not-ready'' Error Direct
          else if ready \<noteq> Some True then result Unknown
          else
            (case interval_secs of
               None \<Rightarrow> result Healthy
             | Some interval \<Rightarrow>
                 (case last_sync of
                    None \<Rightarrow> result Unknown
                  | Some last_at \<Rightarrow>
                      let a = elapsed now last_at
                      in if a < 0 then result Unknown
                         else if sat_add64 (sat_mul64 interval 2) (s_operation_timeout s) < nat a
                         then fault obs ''externalsecret-sync-stale'' Warning Direct
                         else result Healthy))
      | _ \<Rightarrow> result Unknown)"

subsection \<open>Calendar schedules, \<open>schedule_policy.rs\<close>\<close>

definition schedule_evaluate :: "ext \<Rightarrow> observation \<Rightarrow> settings \<Rightarrow> instant \<Rightarrow> evaluation" where
  "schedule_evaluate x obs s now =
     (case o_data obs of
        Schedule created_at starting_deadline_seconds forbid_overlap schedule timezone suspended
            active last_schedule last_success \<Rightarrow>
          if suspended \<or> o_expected obs \<noteq> Active then result ExpectedInactive
          else if 0 < active \<and> forbid_overlap then result Unknown
          else if last_success < last_schedule \<and>
               is_some_and (\<lambda>t. as_i64 (s_rollout_grace s) < elapsed now t) last_schedule \<and>
               active = 0
          then fault obs ''latest-schedule-not-successful'' Warning Correlated
          else
            (let grace = max (s_rollout_grace s) (min (unwrap_or 0 starting_deadline_seconds) 86400)
             in case x_sub_secs x now (as_i64 grace) of
                  None \<Rightarrow> result Unknown
                | Some cutoff \<Rightarrow>
                    (case x_cron x schedule timezone cutoff of
                       Some (Some due) \<Rightarrow>
                         if is_some_and (\<lambda>created. due < created) created_at then result Unknown
                         else if is_none_or (\<lambda>t. t < due) last_schedule then
                           (if created_at = None \<and> last_schedule = None then result Unknown
                            else fault obs ''schedule-missed'' Warning Correlated)
                         else if is_some_and (\<lambda>t. due \<le> t) last_success then result Healthy
                         else result Unknown
                     | _ \<Rightarrow> result Unknown))
      | _ \<Rightarrow> result Unknown)"

subsection \<open>Release provenance, \<open>releases::evaluate\<close>\<close>

definition releases_evaluate :: "observation \<Rightarrow> instant \<Rightarrow> evaluation" where
  "releases_evaluate obs now =
     (case o_data obs of
        Provenance valid_until _ _ _ _ _ registry_verified build_verified commit_verified mismatch \<Rightarrow>
          if valid_until < now then result Unknown
          else if inactive obs then result ExpectedInactive
          else if mismatch then fault obs ''release-revision-mismatch'' Warning Correlated
          else if registry_verified \<and> build_verified \<and> commit_verified then result Healthy
          else result Unknown
      | _ \<Rightarrow> result Unknown)"

end
