(* ===== verification/Evaluate.thy ===== *)
theory Evaluate
  imports Policy
begin

text \<open>
  \<open>policy::evaluate\<close>, the dispatcher over the allowlisted observations, branch by
  branch, and \<open>capacity::evaluate\<close> of \<open>crates/core/src/capacity.rs\<close>, the sustained
  pressure clocks. The locale \<open>health_policy\<close> is the contract between the policies and
  the state engine.
\<close>

section \<open>The branches of \<open>policy::evaluate\<close>\<close>

definition job_evaluate ::
  "observation \<Rightarrow> settings \<Rightarrow> instant \<Rightarrow> bool \<Rightarrow> bool \<Rightarrow> instant option \<Rightarrow> evaluation" where
  "job_evaluate obs s now completed failed created_at =
     (if completed \<and> failed then result Unknown
      else if completed then result Healthy
      else if failed \<and> \<not> inactive obs \<and> is_none_or (\<lambda>v. v \<le> s_runtime_window s) (age created_at now)
      then err obs ''job-failed''
      else result (if inactive obs then ExpectedInactive else Unknown))"

definition workload_evaluate ::
  "observation \<Rightarrow> settings \<Rightarrow> instant \<Rightarrow> u32 \<Rightarrow> u32 \<Rightarrow> instant option \<Rightarrow> bool \<Rightarrow> bool \<Rightarrow> evaluation" where
  "workload_evaluate obs s now desired ready created_at draining node =
     (if draining \<or> desired = 0 then result ExpectedInactive
      else if ready < desired then
        (if is_some_and (\<lambda>v. v < (if node then s_node_grace s else s_rollout_grace s))
              (age created_at now)
         then result Unknown
         else if inactive obs then result ExpectedInactive
         else err obs (if node then ''node-not-ready'' else ''replicas-not-ready''))
      else result Healthy)"

text \<open>Restarts are compared within one pod UID and container only.\<close>

definition restarting :: "observation option \<Rightarrow> string \<Rightarrow> string \<Rightarrow> u32 \<Rightarrow> bool" where
  "restarting previous uid container restarts =
     is_some_and (\<lambda>p. case o_data p of
         Pod old_uid old_container _ old _ _ _ \<Rightarrow>
           uid = old_uid \<and> container = old_container \<and> 3 \<le> restarts - old
       | _ \<Rightarrow> False) previous"

definition pod_evaluate ::
  "observation \<Rightarrow> observation option \<Rightarrow> settings \<Rightarrow> instant \<Rightarrow> string \<Rightarrow> string \<Rightarrow> bool \<Rightarrow> u32 \<Rightarrow> bool \<Rightarrow>
     instant option \<Rightarrow> evaluation" where
  "pod_evaluate obs previous s now uid container ready restarts crash_loop created_at =
     (if inactive obs then result ExpectedInactive
      else if crash_loop then err obs ''container-crash-loop''
      else if \<not> ready \<and> is_none_or (\<lambda>v. s_rollout_grace s \<le> v) (age created_at now)
      then err obs ''pod-not-ready''
      else if restarting previous uid container restarts then warn obs ''container-restarting''
      else if \<not> ready then result Unknown
      else result Healthy)"

definition certificate_evaluate ::
  "observation \<Rightarrow> settings \<Rightarrow> instant \<Rightarrow> bool option \<Rightarrow> instant option \<Rightarrow> evaluation" where
  "certificate_evaluate obs s now issued expires_at =
     (if inactive obs then result ExpectedInactive
      else if issued = Some False \<or> is_some_and (\<lambda>t. t \<le> now) expires_at
      then err obs ''certificate-invalid''
      else if is_some_and (\<lambda>t. elapsed t now < as_i64 (s_certificate_warning s)) expires_at
      then warn obs ''certificate-expiring''
      else if issued = None \<or> expires_at = None then result Unknown
      else result Healthy)"

definition recovery_evaluate ::
  "observation \<Rightarrow> settings \<Rightarrow> instant \<Rightarrow> service_state \<Rightarrow> bool option \<Rightarrow> instant option \<Rightarrow> evaluation" where
  "recovery_evaluate obs s now state enabled last_success =
     (if inactive obs then result ExpectedInactive
      else if enabled = Some False then warn obs ''backup-disabled''
      else if state = SFailed then warn obs ''backup-failed''
      else (case s_recovery_age_error s of
              None \<Rightarrow> result Unknown
            | Some limit \<Rightarrow>
                if is_some_and (\<lambda>t. as_i64 limit < elapsed now t) last_success
                then err obs ''recovery-point-too-old''
                else if last_success \<noteq> None then result Healthy
                else result Unknown))"

definition build_evaluate ::
  "observation \<Rightarrow> settings \<Rightarrow> instant \<Rightarrow> bool \<Rightarrow> string \<Rightarrow> service_state \<Rightarrow> instant option \<Rightarrow> evaluation" where
  "build_evaluate obs s now superseded target state created_at =
     (if state = SFailed \<and> \<not> superseded then
        (if created_at = None then result Unknown
         else if is_some_and (\<lambda>a. s_runtime_window s < a) (age created_at now)
         then result ExpectedInactive
         else warn obs (if target = [] then ''build-failed'' else ''deployment-blocked''))
      else if state = SReady then result Healthy
      else if superseded then result Healthy
      else result Unknown)"

definition log_evaluate :: "observation \<Rightarrow> log_class \<Rightarrow> u64 \<Rightarrow> bool \<Rightarrow> evaluation" where
  "log_evaluate obs signature count sampled =
     (if signature \<noteq> LWarning \<and> 0 < count then warn obs ''runtime-failure-sample''
      else if count = 0 \<and> \<not> sampled then result Healthy
      else result Unknown)"

definition condition_evaluate :: "observation \<Rightarrow> string \<Rightarrow> bool option \<Rightarrow> evaluation" where
  "condition_evaluate obs rule healthy =
     (case healthy of
        Some False \<Rightarrow> err obs rule
      | None \<Rightarrow> result Unknown
      | Some True \<Rightarrow> result Healthy)"

definition progress_evaluate :: "observation \<Rightarrow> health \<Rightarrow> evaluation" where
  "progress_evaluate obs state =
     (if state = Unhealthy then fault obs ''flow-stalled'' Error Correlated else result state)"

text \<open>The match over \<open>obs.data\<close>, in the order of its arms.\<close>

definition dispatch ::
  "ext \<Rightarrow> observation \<Rightarrow> observation option \<Rightarrow> settings \<Rightarrow> instant \<Rightarrow> evaluation" where
  "dispatch x obs previous s now =
     (case o_data obs of
        Synchronization _ _ _ \<Rightarrow> synchronization_evaluate obs s now
      | Provenance _ _ _ _ _ _ _ _ _ _ \<Rightarrow> releases_evaluate obs now
      | Slo _ _ _ _ _ \<Rightarrow> slo_evaluate obs s
      | Progress state \<Rightarrow> progress_evaluate obs state
      | Endpoint _ _ _ _ _ _ \<Rightarrow> endpoint_evaluate obs s now
      | Job _ _ completed failed _ _ _ created_at \<Rightarrow> job_evaluate obs s now completed failed created_at
      | Workload desired ready created_at draining node \<Rightarrow>
          workload_evaluate obs s now desired ready created_at draining node
      | Pod uid container ready restarts crash_loop created_at _ \<Rightarrow>
          pod_evaluate obs previous s now uid container ready restarts crash_loop created_at
      | Schedule _ _ _ _ _ _ _ _ _ \<Rightarrow> schedule_evaluate x obs s now
      | Certificate issued expires_at \<Rightarrow> certificate_evaluate obs s now issued expires_at
      | Recovery _ state enabled last_success _ _ _ \<Rightarrow>
          recovery_evaluate obs s now state enabled last_success
      | Queue _ _ _ _ _ _ _ _ \<Rightarrow> queue_evaluate obs previous s
      | Service _ _ _ _ \<Rightarrow> resource_evaluate obs s
      | Metric _ _ _ _ _ _ \<Rightarrow> resource_evaluate obs s
      | Build superseded _ _ target state created_at \<Rightarrow>
          build_evaluate obs s now superseded target state created_at
      | Log signature count _ _ sampled \<Rightarrow> log_evaluate obs signature count sampled
      | Condition rule healthy \<Rightarrow> condition_evaluate obs rule healthy
      | Identity _ \<Rightarrow> result Healthy
      | _ \<Rightarrow> result Unknown)"

text \<open>The prior observation counts only when it is the same resource, older, and recent.\<close>

definition comparable_prior :: "observation \<Rightarrow> settings \<Rightarrow> observation \<Rightarrow> bool" where
  "comparable_prior obs s prior \<longleftrightarrow>
     o_resource prior = o_resource obs \<and> o_expected prior = o_expected obs \<and>
     o_observed_at prior < o_observed_at obs \<and>
     elapsed (o_observed_at obs) (o_observed_at prior) \<le> as_i64 (freshness s)"

definition stale_observation :: "observation \<Rightarrow> settings \<Rightarrow> instant \<Rightarrow> bool" where
  "stale_observation obs s now \<longleftrightarrow>
     is_none_or (\<lambda>v. freshness s < v) (age (Some (o_observed_at obs)) now)"

definition evaluate ::
  "ext \<Rightarrow> observation \<Rightarrow> observation option \<Rightarrow> settings \<Rightarrow> instant \<Rightarrow> evaluation" where
  "evaluate x obs previous s now =
     (if stale_observation obs s now then result Unknown
      else dispatch x obs
             (case previous of None \<Rightarrow> None
              | Some prior \<Rightarrow> if comparable_prior obs s prior then Some prior else None) s now)"

section \<open>Sustained capacity pressure\<close>

text \<open>The new clocks of one resource: a changed threshold or a gap longer than the freshness
  restarts both, and a reading below a threshold stops its clock.\<close>

definition advance_pressure :: "pressure \<Rightarrow> instant \<Rightarrow> f64 \<Rightarrow> f64 \<Rightarrow> f64 \<Rightarrow> settings \<Rightarrow> pressure" where
  "advance_pressure p t value warning error s =
     (let reset = as_i64 (freshness s) < elapsed t (p_last_seen p) \<or>
                  \<not> f_eq (p_warning p) warning \<or> \<not> f_eq (p_error p) error;
          ws = (if reset then None else p_warning_since p);
          es = (if reset then None else p_error_since p)
      in \<lparr>p_last_seen = t,
          p_warning_since = (if f_le warning value then Some (unwrap_or t ws) else None),
          p_error_since = (if f_le error value then Some (unwrap_or t es) else None),
          p_warning = warning, p_error = error\<rparr>)"

definition sustained :: "instant \<Rightarrow> instant option \<Rightarrow> settings \<Rightarrow> bool" where
  "sustained t since s =
     is_some_and (\<lambda>u. as_i64 (s_capacity_sustain s) \<le> elapsed t u) since"

definition pressure_verdict :: "observation \<Rightarrow> pressure \<Rightarrow> f64 \<Rightarrow> settings \<Rightarrow> evaluation" where
  "pressure_verdict obs p value s =
     (if sustained (o_observed_at obs) (p_error_since p) s
      then fault obs ''metric-threshold'' Error Correlated
      else if sustained (o_observed_at obs) (p_warning_since p) s
      then fault obs ''metric-threshold'' Warning Correlated
      else result (if f_lt value (p_warning p) then Healthy else Unknown))"

definition capacity_evaluate ::
  "(string, pressure) bmap \<Rightarrow> observation \<Rightarrow> settings \<Rightarrow> bool \<Rightarrow> instant \<Rightarrow>
     (string, pressure) bmap \<times> evaluation option" where
  "capacity_evaluate state obs s completed now =
     (case o_data obs of
        Metric _ value (Some capacity) warning error window_secs \<Rightarrow>
          let key = o_resource obs; t = o_observed_at obs in
          if o_expected obs \<noteq> Active then (bm_del key state, Some (result ExpectedInactive))
          else if \<not> completed \<or> now < t \<or> as_i64 (freshness s) < elapsed now t
          then (bm_del key state, None)
          else if s_capacity_sustain s \<le> window_secs then (state, None)
          else if \<not> is_finite value \<or> f_lt value (Fin 0) \<or> \<not> is_finite capacity \<or> f_le capacity (Fin 0)
          then (bm_del key state, Some (result Unknown))
          else
            (let v = utilisation value capacity;
                 w = unwrap_or (s_capacity_warning s) warning;
                 r = unwrap_or (s_capacity_error s) error
             in if s_max_assets s \<le> length state \<and> \<not> bm_has state key
                then (state, Some (result Unknown))
                else
                  (let p = unwrap_or \<lparr>p_last_seen = t, p_warning_since = None,
                             p_error_since = None, p_warning = w, p_error = r\<rparr> (bm_get state key)
                   in if t < p_last_seen p then (state, Some (result Unknown))
                      else (let p' = advance_pressure p t v w r s
                            in (bm_put key p' state, Some (pressure_verdict obs p' v s)))))
      | _ \<Rightarrow> (state, None))"

section \<open>The contract of a health policy\<close>

text \<open>A judgement is a bare health other than \<open>Unhealthy\<close>, or one warning or error about
  the judged observation.\<close>

definition well_judged :: "observation \<Rightarrow> evaluation \<Rightarrow> bool" where
  "well_judged obs ev \<longleftrightarrow>
     (\<exists>h. h \<noteq> Unhealthy \<and> ev = result h) \<or>
     (\<exists>rule sev conf. sev \<noteq> Info \<and> ev = fault obs rule sev conf)"

locale health_policy =
  fixes judge :: "observation \<Rightarrow> evaluation"
  assumes judged: "well_judged obs (judge obs)"
begin

lemma clear_no_findings:
  "ev_health (judge obs) \<in> {Healthy, ExpectedInactive, Unknown} \<Longrightarrow> ev_findings (judge obs) = []"
  using judged [of obs] by (auto simp: well_judged_def result_def fault_def split: if_splits)

lemma unhealthy_iff:
  "ev_health (judge obs) = Unhealthy \<longleftrightarrow> (\<exists>f \<in> set (ev_findings (judge obs)). f_severity f = Error)"
  using judged [of obs] by (auto simp: well_judged_def result_def fault_def split: if_splits)

lemma findings_about:
  "f \<in> set (ev_findings (judge obs)) \<Longrightarrow>
     f_resource f = o_resource obs \<and> f_id f = o_resource obs @ ''/'' @ f_rule f \<and>
     f_evidence f = [o_operation obs] \<and> f_observed_at f = o_observed_at obs \<and>
     f_expected f = o_expected obs \<and> \<not> f_stale f \<and> f_clear_count f = 0"
  using judged [of obs] by (auto simp: well_judged_def result_def fault_def)

lemma at_most_one: "length (ev_findings (judge obs)) \<le> 1"
  using judged [of obs] by (auto simp: well_judged_def result_def fault_def)

end

lemma well_judged_result [simp]: "well_judged obs (result h) \<longleftrightarrow> h \<noteq> Unhealthy"
  by (auto simp: well_judged_def result_def fault_def)

lemma well_judged_fault [simp]: "sev \<noteq> Info \<Longrightarrow> well_judged obs (fault obs rule sev conf)"
  by (auto simp: well_judged_def)

lemma well_judged_endpoint: "well_judged obs (endpoint_evaluate obs s now)"
  by (simp add: endpoint_evaluate_def split: data.split)

lemma well_judged_queue: "well_judged obs (queue_evaluate obs previous s)"
  by (simp add: queue_evaluate_def split: data.split)

lemma well_judged_metric:
  "well_judged obs (metric_evaluate obs s value capacity warning error window_seconds)"
  by (simp add: metric_evaluate_def Let_def)

lemma well_judged_service: "well_judged obs (service_evaluate obs state backup_enabled encrypted)"
  by (simp add: service_evaluate_def)

lemma well_judged_resource: "well_judged obs (resource_evaluate obs s)"
  by (simp add: resource_evaluate_def well_judged_metric well_judged_service split: data.split)

lemma well_judged_slo: "well_judged obs (slo_evaluate obs s)"
  by (simp add: slo_evaluate_def split: data.split)

lemma well_judged_synchronization: "well_judged obs (synchronization_evaluate obs s now)"
  by (simp add: synchronization_evaluate_def Let_def split: data.split option.split)

lemma well_judged_schedule: "well_judged obs (schedule_evaluate x obs s now)"
  by (simp add: schedule_evaluate_def Let_def split: data.split option.split)

lemma well_judged_releases: "well_judged obs (releases_evaluate obs now)"
  by (simp add: releases_evaluate_def split: data.split)

lemmas well_judged_modules = well_judged_endpoint well_judged_queue well_judged_resource
  well_judged_slo well_judged_synchronization well_judged_schedule well_judged_releases

lemma well_judged_branches:
  "well_judged obs (job_evaluate obs s now completed failed created_at)"
  "well_judged obs (workload_evaluate obs s now desired ready created_at draining node)"
  "well_judged obs (pod_evaluate obs previous s now uid container is_ready restarts crash_loop created_at)"
  "well_judged obs (certificate_evaluate obs s now issued expires_at)"
  "well_judged obs (recovery_evaluate obs s now state enabled last_success)"
  "well_judged obs (build_evaluate obs s now superseded tgt state created_at)"
  "well_judged obs (log_evaluate obs signature count sampled)"
  "well_judged obs (condition_evaluate obs rule healthy)"
  "well_judged obs (progress_evaluate obs h)"
  by (simp_all add: job_evaluate_def workload_evaluate_def pod_evaluate_def
      certificate_evaluate_def recovery_evaluate_def build_evaluate_def log_evaluate_def
      condition_evaluate_def progress_evaluate_def split: option.split bool.split)

lemma well_judged_dispatch: "well_judged obs (dispatch x obs previous s now)"
  by (simp add: dispatch_def well_judged_modules well_judged_branches split: data.split)

interpretation policy: health_policy "\<lambda>obs. evaluate x obs previous s now" for x previous s now
  by unfold_locales (simp add: evaluate_def well_judged_dispatch)

text \<open>The pressure policy judges the observations it takes, and hands back the others.\<close>

lemma well_judged_capacity:
  "snd (capacity_evaluate state obs s completed now) = Some ev \<Longrightarrow> well_judged obs ev"
  by (auto simp: capacity_evaluate_def pressure_verdict_def Let_def
      split: data.splits option.splits if_splits)

definition judge_with_pressure ::
  "ext \<Rightarrow> (string, pressure) bmap \<Rightarrow> observation \<Rightarrow> observation option \<Rightarrow> settings \<Rightarrow> bool \<Rightarrow> instant \<Rightarrow>
     (string, pressure) bmap \<times> evaluation" where
  "judge_with_pressure x state obs prior s completed now =
     (case capacity_evaluate state obs s completed now of
        (state', None) \<Rightarrow> (state', evaluate x obs prior s now)
      | (state', Some ev) \<Rightarrow> (state', ev))"

interpretation judged: health_policy
  "\<lambda>obs. snd (judge_with_pressure x state obs prior s completed now)" for x state prior s completed now
proof
  fix obs
  show "well_judged obs (snd (judge_with_pressure x state obs prior s completed now))"
    using policy.judged [of obs] well_judged_capacity [of state obs s completed now]
    by (auto simp: judge_with_pressure_def split: prod.split option.split)
qed

end
