(* ===== verification/Bounds.thy ===== *)
theory Bounds
  imports Config_Types
begin

text \<open>
  Accounting of retained evidence: \<open>crates/core/src/bounds.rs\<close>, the charge and
  admission of diagnostics in \<open>diagnostics.rs\<close>, and the per-collection budget of
  \<open>collection_budget.rs\<close>. The locale \<open>coverage_filter\<close> is the contract of every pass
  over a collected result: it may withdraw an operation's complete coverage, never
  grant it.
\<close>

section \<open>Sizes\<close>

definition observation_bytes :: "ext \<Rightarrow> observation \<Rightarrow> usize" where
  "observation_bytes x obs =
     (case x_obs_json x obs of
        None \<Rightarrow> u64_max
      | Some n \<Rightarrow> sat_add64 (sat_mul64 n 4) (x_sizeof_obs x))"

definition operation_bytes :: "ext \<Rightarrow> operation \<Rightarrow> usize" where
  "operation_bytes x p = sat_add64 (sat_mul64 (length (op_id p)) 4) (x_sizeof_op x + 256)"

definition result_bytes :: "ext \<Rightarrow> check_result \<Rightarrow> usize" where
  "result_bytes x r =
     fold (\<lambda>obs n. sat_add64 n (observation_bytes x obs)) (r_observations r)
       (sum_list (map (operation_bytes x) (r_operations r)))"

section \<open>Coverage\<close>

text \<open>The loop that marks every complete operation truncated.\<close>

definition demote :: "coverage \<Rightarrow> operation \<Rightarrow> operation" where
  "demote c p = (if op_coverage p = Complete then p\<lparr>op_coverage := c\<rparr> else p)"

definition truncate_coverage :: "check_result \<Rightarrow> check_result" where
  "truncate_coverage r = r\<lparr>r_operations := map (demote Truncated) (r_operations r)\<rparr>"

text \<open>The identifiers with a complete operation, \<open>evaluation_index::complete\<close>.\<close>

definition complete_ids :: "check_result \<Rightarrow> string set" where
  "complete_ids r = set (map op_id (filter (\<lambda>p. op_coverage p = Complete) (r_operations r)))"

definition has_complete :: "check_result \<Rightarrow> string \<Rightarrow> bool" where
  "has_complete r i \<longleftrightarrow> list_ex (\<lambda>p. op_id p = i \<and> op_coverage p = Complete) (r_operations r)"

section \<open>Truncation and source validation, \<open>bounds.rs\<close>\<close>

text \<open>The number of leading observations whose running total stays within the budget.\<close>

fun fitting :: "ext \<Rightarrow> usize \<Rightarrow> usize \<Rightarrow> observation list \<Rightarrow> nat" where
  "fitting x bytes used [] = 0"
| "fitting x bytes used (obs # rest) =
     (let used' = sat_add64 used (observation_bytes x obs)
      in if bytes < used' then 0 else Suc (fitting x bytes used' rest))"

definition truncate_result :: "ext \<Rightarrow> usize \<Rightarrow> usize \<Rightarrow> check_result \<Rightarrow> check_result" where
  "truncate_result x bytes assets r =
     (let used = sum_list (map (operation_bytes x) (r_operations r));
          retained = fitting x bytes used (take assets (r_observations r))
      in if retained < length (r_observations r)
         then truncate_coverage (r\<lparr>r_observations := take retained (r_observations r)\<rparr>)
         else r)"

definition set_coverage :: "string \<Rightarrow> (operation \<Rightarrow> operation) \<Rightarrow> operation list \<Rightarrow> operation list" where
  "set_coverage i f ps = map (\<lambda>p. if op_id p = i then f p else p) ps"

definition mark_malformed :: "observation \<Rightarrow> operation list \<Rightarrow> operation list" where
  "mark_malformed obs ps =
     (case o_data obs of
        Job _ _ True True _ _ _ _ \<Rightarrow>
          set_coverage (o_operation obs) (\<lambda>p. p\<lparr>op_coverage := Malformed\<rparr>) ps
      | _ \<Rightarrow> ps)"

definition validate_observation :: "u64 \<Rightarrow> instant \<Rightarrow> observation \<Rightarrow> operation list \<Rightarrow> operation list" where
  "validate_observation limit now obs ps =
     (let ps = mark_malformed obs ps
      in if as_i64 limit < elapsed now (o_observed_at obs)
         then set_coverage (o_operation obs) (demote Stale) ps
         else ps)"

definition validate_source :: "u64 \<Rightarrow> instant \<Rightarrow> check_result \<Rightarrow> check_result" where
  "validate_source limit now r =
     r\<lparr>r_operations := fold (validate_observation limit now) (r_observations r) (r_operations r)\<rparr>"

section \<open>Diagnostics, \<open>diagnostics.rs\<close>\<close>

definition diagnostic_bytes :: "ext \<Rightarrow> diagnostic \<Rightarrow> usize" where
  "diagnostic_bytes x d = sat_add64 (observation_bytes x (d_observation d)) 256"

text \<open>\<open>Diagnostic::admit\<close>: the retained diagnostic and the remaining budget.\<close>

definition admit_diagnostic ::
  "ext \<Rightarrow> diagnostic \<Rightarrow> finding option \<Rightarrow> usize \<Rightarrow> diagnostic option \<times> usize" where
  "admit_diagnostic x d old remaining =
     (let prior = (case old of None \<Rightarrow> None | Some f \<Rightarrow> f_diagnostic f);
          available = sat_add64 remaining (case prior of None \<Rightarrow> 0 | Some q \<Rightarrow> diagnostic_bytes x q);
          needed = diagnostic_bytes x d
      in if needed \<le> available then (Some d, available - needed) else (prior, remaining))"

definition previous_restarts :: "observation \<Rightarrow> observation option \<Rightarrow> u32 option" where
  "previous_restarts obs previous =
     (case (map_option o_data previous, o_data obs) of
        (Some (Pod prior_uid prior_container _ restarts _ _ _), Pod uid container _ _ _ _ _) \<Rightarrow>
          if prior_uid = uid \<and> prior_container = container then Some restarts else None
      | _ \<Rightarrow> None)"

definition capture_diagnostic ::
  "observation \<Rightarrow> observation option \<Rightarrow> finding option \<Rightarrow> u64 \<Rightarrow> diagnostic" where
  "capture_diagnostic obs previous old grace_seconds =
     \<lparr>d_first_detected_at =
        (case old of
           Some f \<Rightarrow> (case f_diagnostic f of None \<Rightarrow> None | Some d \<Rightarrow> d_first_detected_at d)
         | None \<Rightarrow> Some (o_observed_at obs)),
      d_last_detected_at = o_observed_at obs,
      d_observation = obs,
      d_previous_restarts = previous_restarts obs previous,
      d_grace_seconds = grace_seconds\<rparr>"

section \<open>The collection budget, \<open>collection_budget.rs\<close>\<close>

text \<open>\<open>Shared\<close> and \<open>Limit\<close>. The charge of a shared budget is an atomic counter that every
  holder updates; the model threads it through the operations.\<close>

record shared_budget =
  sh_used :: usize
  sh_limit :: usize

record limit =
  l_used :: usize
  l_bytes :: usize
  l_assets :: usize
  l_operations :: usize
  l_limited :: bool
  l_shared :: "shared_budget option"

definition collection_share :: "settings \<Rightarrow> usize" where
  "collection_share s = s_memory_bytes s div 2 div max (s_concurrency s) 1"

definition new_shared :: "settings \<Rightarrow> shared_budget" where
  "new_shared s = \<lparr>sh_used = 0, sh_limit = collection_share s\<rparr>"

text \<open>\<open>Shared::claim\<close>: \<open>None\<close> when the charge overflows or passes the limit.\<close>

definition claim :: "usize \<Rightarrow> shared_budget \<Rightarrow> shared_budget option" where
  "claim bytes sh =
     (case checked_add64 (sh_used sh) bytes of
        None \<Rightarrow> None
      | Some charged \<Rightarrow> if charged \<le> sh_limit sh then Some (sh\<lparr>sh_used := charged\<rparr>) else None)"

definition new_limit :: "settings \<Rightarrow> limit" where
  "new_limit s =
     (let share = collection_share s
      in \<lparr>l_used = 0, l_bytes = share - min (share div 4) 4096, l_assets = s_max_assets s,
          l_operations = 0, l_limited = False, l_shared = None\<rparr>)"

definition limit_with_shared :: "settings \<Rightarrow> shared_budget \<Rightarrow> limit" where
  "limit_with_shared s sh = (new_limit s)\<lparr>l_shared := Some sh\<rparr>"

definition limit_exhausted :: "limit \<Rightarrow> bool" where
  "limit_exhausted l \<longleftrightarrow> l_bytes l \<le> l_used l \<or> l_assets l \<le> l_operations l"

definition mark_limited :: "limit \<Rightarrow> limit" where
  "mark_limited l = l\<lparr>l_limited := True\<rparr>"

text \<open>The shared claim of one item: the limit with the new charge, or refused.\<close>

definition charge :: "usize \<Rightarrow> limit \<Rightarrow> limit option" where
  "charge cost l =
     (if l_bytes l - l_used l < cost then None
      else case l_shared l of
             None \<Rightarrow> Some (l\<lparr>l_used := l_used l + cost\<rparr>)
           | Some sh \<Rightarrow>
               (case claim cost sh of
                  None \<Rightarrow> None
                | Some sh' \<Rightarrow> Some (l\<lparr>l_used := l_used l + cost, l_shared := Some sh'\<rparr>)))"

fun admit_observations ::
  "ext \<Rightarrow> limit \<Rightarrow> observation list \<Rightarrow> observation list \<Rightarrow> limit \<times> observation list \<times> bool" where
  "admit_observations x l out [] = (l, out, True)"
| "admit_observations x l out (obs # incoming) =
     (if l_assets l \<le> length out then (mark_limited l, out, False)
      else case charge (observation_bytes x obs) l of
             None \<Rightarrow> (mark_limited l, out, False)
           | Some l' \<Rightarrow> admit_observations x l' (out @ [obs]) incoming)"

fun admit_operations ::
  "ext \<Rightarrow> limit \<Rightarrow> operation list \<Rightarrow> operation list \<Rightarrow> limit \<times> operation list \<times> bool" where
  "admit_operations x l out [] = (l, out, True)"
| "admit_operations x l out (p # incoming) =
     (if l_assets l \<le> l_operations l then (mark_limited l, out, False)
      else case charge (operation_bytes x p) l of
             None \<Rightarrow> (mark_limited l, out, False)
           | Some l' \<Rightarrow>
               admit_operations x (l'\<lparr>l_operations := Suc (l_operations l')\<rparr>) (out @ [p]) incoming)"

text \<open>\<open>Limit::merge\<close>: a refused observation withdraws the coverage of the operations
  merged with it.\<close>

definition merge_result :: "ext \<Rightarrow> limit \<Rightarrow> check_result \<Rightarrow> check_result \<Rightarrow> limit \<times> check_result" where
  "merge_result x l out incoming =
     (let start = length (r_operations out);
          (l1, ps, _) = admit_operations x l (r_operations out) (r_operations incoming);
          (l2, os, fits) = admit_observations x l1 (r_observations out) (r_observations incoming);
          ps' = (if fits then ps else take start ps @ map (demote Truncated) (drop start ps))
      in (l2, out\<lparr>r_operations := ps', r_observations := os\<rparr>))"

definition finish_limit :: "ext \<Rightarrow> limit \<Rightarrow> bool \<Rightarrow> check_result \<Rightarrow> check_result" where
  "finish_limit x l required r =
     (if l_limited l
      then r\<lparr>r_operations := r_operations r @
             [\<lparr>op_id = ''collection-budget'', op_coverage = Truncated, op_observed_at = x_wall x,
               op_records = length (r_observations r), op_pages = 0, op_attempts = 0,
               op_required = required\<rparr>]\<rparr>
      else r)"

section \<open>The contract of a pass over a result\<close>

locale coverage_filter =
  fixes pass :: "check_result \<Rightarrow> check_result"
  assumes grants_nothing: "complete_ids (pass r) \<subseteq> complete_ids r"
begin

lemma incomplete_stays: "i \<notin> complete_ids r \<Longrightarrow> i \<notin> complete_ids (pass r)"
  using grants_nothing by blast

end

lemma complete_ids_iff:
  "i \<in> complete_ids r \<longleftrightarrow> (\<exists>p \<in> set (r_operations r). op_id p = i \<and> op_coverage p = Complete)"
  by (auto simp: complete_ids_def)

lemma has_complete_iff: "has_complete r i \<longleftrightarrow> i \<in> complete_ids r"
  by (auto simp: has_complete_def complete_ids_iff list_ex_iff)

lemma demote_simps [simp]: "op_id (demote c p) = op_id p"
  "c \<noteq> Complete \<Longrightarrow> op_coverage (demote c p) \<noteq> Complete"
  by (auto simp: demote_def)

lemma complete_ids_truncate_coverage [simp]: "complete_ids (truncate_coverage r) = {}"
  by (auto simp: complete_ids_iff truncate_coverage_def)

lemma complete_ids_observations [simp]:
  "complete_ids (r\<lparr>r_observations := os\<rparr>) = complete_ids r"
  by (simp add: complete_ids_def)

lemma truncate_result_obs:
  "r_observations (truncate_result x bytes assets r) =
     take (fitting x bytes (sum_list (map (operation_bytes x) (r_operations r)))
       (take assets (r_observations r))) (r_observations r)"
  by (auto simp: truncate_result_def truncate_coverage_def Let_def)

lemma fitting_le: "fitting x bytes used os \<le> length os"
  by (induction x bytes used os rule: fitting.induct) (auto simp: Let_def)

lemma truncate_result_assets: "length (r_observations (truncate_result x bytes assets r)) \<le> assets"
proof -
  let ?used = "sum_list (map (operation_bytes x) (r_operations r))"
  have "fitting x bytes ?used (take assets (r_observations r)) \<le> assets"
    using fitting_le [of x bytes ?used "take assets (r_observations r)"] by simp
  then show ?thesis by (simp add: truncate_result_obs)
qed

interpretation truncation: coverage_filter "truncate_result x bytes assets" for x bytes assets
  by unfold_locales (auto simp: truncate_result_def Let_def)

lemma demote_Complete: "op_coverage (demote c p) = Complete \<Longrightarrow> op_coverage p = Complete"
  by (auto simp: demote_def split: if_splits)

lemma set_coverage_grants_nothing:
  assumes "\<And>p. op_id (f p) = op_id p" and "\<And>p. op_coverage (f p) = Complete \<Longrightarrow> op_coverage p = Complete"
    and "p \<in> set (set_coverage i f ps)" and "op_coverage p = Complete"
  shows "\<exists>q \<in> set ps. op_id q = op_id p \<and> op_coverage q = Complete"
proof -
  obtain q where "q \<in> set ps" and "p = (if op_id q = i then f q else q)"
    using assms(3) by (auto simp: set_coverage_def)
  with assms(1,2,4) show ?thesis by (metis (full_types))
qed

lemma mark_malformed_grants_nothing:
  assumes "p \<in> set (mark_malformed obs ps)" and "op_coverage p = Complete"
  shows "\<exists>q \<in> set ps. op_id q = op_id p \<and> op_coverage q = Complete"
  using assms set_coverage_grants_nothing [of "\<lambda>p. p\<lparr>op_coverage := Malformed\<rparr>" p "o_operation obs" ps]
  by (auto simp: mark_malformed_def split: data.splits bool.splits)

lemma validate_observation_grants_nothing:
  assumes "p \<in> set (validate_observation limit now obs ps)" and "op_coverage p = Complete"
  shows "\<exists>q \<in> set ps. op_id q = op_id p \<and> op_coverage q = Complete"
proof -
  let ?ps = "mark_malformed obs ps"
  have "\<exists>q \<in> set ?ps. op_id q = op_id p \<and> op_coverage q = Complete"
    using assms set_coverage_grants_nothing
      [of "demote Stale" p "o_operation obs" ?ps, OF _ demote_Complete]
    by (auto simp: validate_observation_def Let_def split: if_splits)
  then show ?thesis using mark_malformed_grants_nothing by fastforce
qed

lemma fold_validate_grants_nothing:
  "p \<in> set (fold (validate_observation limit now) os ps) \<Longrightarrow> op_coverage p = Complete \<Longrightarrow>
     \<exists>q \<in> set ps. op_id q = op_id p \<and> op_coverage q = Complete"
  by (induction os arbitrary: ps) (fastforce dest: validate_observation_grants_nothing)+

interpretation validation: coverage_filter "validate_source limit now" for limit now
  by unfold_locales
    (auto simp: complete_ids_iff validate_source_def dest!: fold_validate_grants_nothing)

end
