(* ===== verification/Passes.thy ===== *)
theory Passes
  imports Bounds
begin

text \<open>
  The passes \<open>State::apply\<close> makes over a collected result before it is judged:
  \<open>partial_results.rs\<close> (earlier evidence kept through a failed refresh),
  \<open>provenance.rs\<close> (superseded builds), \<open>schedule_policy::correlate\<close> (CronJob
  completions by owner UID), \<open>recovery.rs\<close> (one recovery point per resource) and
  \<open>log_recovery.rs\<close> (clears of historical log findings). Each is an interpretation of
  \<open>coverage_filter\<close>: none grants complete coverage.
\<close>

section \<open>Retained partial results\<close>

text \<open>The loop over the previous observations: those appended, the budget left is not
  returned; the second component is the set of operations they came from.\<close>

fun retain_observations ::
  "ext \<Rightarrow> usize \<Rightarrow> string set \<Rightarrow> string set \<Rightarrow> observation list \<Rightarrow> usize \<Rightarrow> nat \<Rightarrow>
     observation list \<times> string set" where
  "retain_observations x max_assets resources completed [] available n = ([], {})"
| "retain_observations x max_assets resources completed (obs # rest) available n =
     (if max_assets \<le> n then ([], {})
      else if o_resource obs \<notin> resources \<and> o_operation obs \<notin> completed then
        (let bytes = sat_add64 (observation_bytes x obs) 1024
         in if available < bytes then ([], {})
            else (case retain_observations x max_assets resources completed rest
                         (available - bytes) (Suc n) of
                    (kept, retained) \<Rightarrow> (obs # kept, insert (o_operation obs) retained)))
      else retain_observations x max_assets resources completed rest available n)"

text \<open>The loop over the previous operations: a retained one returns, marked stale.\<close>

fun retain_operations :: "string set \<Rightarrow> operation list \<Rightarrow> operation list \<Rightarrow> operation list" where
  "retain_operations retained ps [] = ps"
| "retain_operations retained ps (q # qs) =
     retain_operations retained
       (if op_id q \<in> retained \<and> \<not> list_ex (\<lambda>p. op_id p = op_id q) ps
        then ps @ [q\<lparr>op_coverage := Stale\<rparr>] else ps) qs"

definition retain_partial :: "ext \<Rightarrow> job \<Rightarrow> snapshot \<Rightarrow> check_result \<Rightarrow> check_result" where
  "retain_partial x j sn r =
     (if list_all (\<lambda>p. op_coverage p = Complete) (r_operations r) then r
      else case bm_get (sn_results sn) (j_key j) of
             None \<Rightarrow> r
           | Some prev \<Rightarrow>
               (case retain_observations x (s_max_assets (j_settings j))
                       (set (map o_resource (r_observations r))) (complete_ids r)
                       (r_observations prev)
                       (s_memory_bytes (j_settings j) div 4 - result_bytes x r)
                       (length (r_observations r)) of
                  (kept, retained) \<Rightarrow>
                    r\<lparr>r_observations := r_observations r @ kept,
                      r_operations :=
                        retain_operations retained (r_operations r) (r_operations prev)\<rparr>))"

section \<open>Superseded builds\<close>

text \<open>\<open>provenance::scope\<close>.\<close>

definition build_scope :: "observation \<Rightarrow> string" where
  "build_scope obs =
     (let parts = split_on CHR ''/'' (o_operation obs);
          family = hd parts;
          ctx = (if family = ''workflows'' then join_with ''/'' (take 2 (tl parts))
                 else (case tl parts of [] \<Rightarrow> ''global'' | p # _ \<Rightarrow> p))
      in first_part CHR ''/'' (o_resource obs) @ ''/'' @ ctx)"

type_synonym build_key = "string \<times> string \<times> string \<times> string"

definition record_success :: "observation \<Rightarrow> (build_key, instant) bmap \<Rightarrow> (build_key, instant) bmap" where
  "record_success obs success =
     (case o_data obs of
        Build _ pipeline revision tgt SReady (Some created_at) \<Rightarrow>
          if pipeline = [] \<or> revision = [] \<or> tgt = [] then success
          else (let key = (build_scope obs, pipeline, revision, tgt)
                in bm_put key (case bm_get success key of
                     None \<Rightarrow> created_at | Some t \<Rightarrow> max t created_at) success)
      | _ \<Rightarrow> success)"

definition mark_retry :: "(build_key, instant) bmap \<Rightarrow> observation \<Rightarrow> observation" where
  "mark_retry success obs =
     (case o_data obs of
        Build _ pipeline revision tgt SFailed (Some created_at) \<Rightarrow>
          obs\<lparr>o_data := Build
            (is_some_and (\<lambda>t. created_at < t)
              (bm_get success (build_scope obs, pipeline, revision, tgt)))
            pipeline revision tgt SFailed (Some created_at)\<rparr>
      | _ \<Rightarrow> obs)"

definition mark_retries :: "observation list \<Rightarrow> observation list" where
  "mark_retries obss = map (mark_retry (fold record_success obss [])) obss"

section \<open>CronJob completions\<close>

definition owner_entry :: "check_result \<Rightarrow> observation \<Rightarrow> (string \<times> string \<times> string option) option" where
  "owner_entry r obs =
     (case (o_data obs, strip_suffix ''/owner'' (o_resource obs)) of
        (Owner uid owner_uid, Some resource) \<Rightarrow>
          if has_complete r (o_operation obs) then Some (resource, uid, owner_uid) else None
      | _ \<Rightarrow> None)"

definition owners_of :: "check_result \<Rightarrow> (string, string \<times> string option) bmap" where
  "owners_of r = bm_collect (List.map_filter (owner_entry r) (r_observations r))"

definition record_completion ::
  "check_result \<Rightarrow> (string, string \<times> string option) bmap \<Rightarrow> observation \<Rightarrow>
     (string, instant option \<times> instant) bmap \<Rightarrow> (string, instant option \<times> instant) bmap" where
  "record_completion r owners obs completions =
     (case (o_data obs, bm_get owners (o_resource obs)) of
        (Job (Some completed) scheduled True False _ _ _ _, Some (_, Some owner)) \<Rightarrow>
          if has_complete r (o_operation obs)
          then (case unwrap_or (scheduled, completed) (bm_get completions owner) of
                  (s, c) \<Rightarrow> bm_put owner (max s scheduled, max c completed) completions)
          else completions
      | _ \<Rightarrow> completions)"

definition apply_completion ::
  "(string, string \<times> string option) bmap \<Rightarrow> (string, instant option \<times> instant) bmap \<Rightarrow>
     observation \<Rightarrow> observation" where
  "apply_completion owners completions obs =
     (case (o_data obs, bm_get owners (o_resource obs)) of
        (Schedule created_at deadline forbid schedule timezone suspended active last_schedule
            last_success, Some (uid, _)) \<Rightarrow>
          (case bm_get completions uid of
             None \<Rightarrow> obs
           | Some (scheduled, completed) \<Rightarrow>
               obs\<lparr>o_data := Schedule created_at deadline forbid schedule timezone suspended active
                 (max last_schedule scheduled) (max last_success (Some completed))\<rparr>)
      | _ \<Rightarrow> obs)"

definition correlate :: "check_result \<Rightarrow> check_result" where
  "correlate r =
     (let owners = owners_of r;
          completions = fold (record_completion r owners) (r_observations r) []
      in r\<lparr>r_observations := map (apply_completion owners completions) (r_observations r)\<rparr>)"

section \<open>Recovery points\<close>

text \<open>The merge of a later recovery point into the one already kept for its resource.\<close>

definition combine_recovery :: "observation \<Rightarrow> observation \<Rightarrow> observation" where
  "combine_recovery old obs =
     (case (o_data old, o_data obs) of
        (Recovery previous _ _ success _ _ _, Recovery last_attempt _ _ last_success _ _ _) \<Rightarrow>
          (let kept = (if previous < last_attempt then obs else old)
           in case o_data kept of
                Recovery a st en _ days pit geo \<Rightarrow>
                  kept\<lparr>o_data := Recovery a st en (max success last_success) days pit geo\<rparr>
              | _ \<Rightarrow> kept)
      | _ \<Rightarrow> old)"

definition consolidate_step ::
  "observation \<Rightarrow> (string, nat) bmap \<times> observation list \<Rightarrow> (string, nat) bmap \<times> observation list" where
  "consolidate_step obs st =
     (case st of (indices, output) \<Rightarrow>
       (case o_data obs of
          Recovery _ _ _ _ _ _ _ \<Rightarrow>
            (case bm_get indices (o_resource obs) of
               Some i \<Rightarrow> (indices, output[i := combine_recovery (output ! i) obs])
             | None \<Rightarrow> (bm_put (o_resource obs) (length output) indices, output @ [obs]))
        | _ \<Rightarrow> (indices, output @ [obs])))"

definition consolidate :: "observation list \<Rightarrow> observation list" where
  "consolidate obss = snd (fold consolidate_step obss ([], []))"

section \<open>Log findings\<close>

text \<open>A complete, gapless window that ends after the finding was observed.\<close>

definition clearing_window :: "check_result \<Rightarrow> finding \<Rightarrow> observation \<Rightarrow> bool" where
  "clearing_window r f obs \<longleftrightarrow>
     o_operation obs \<in> set (f_evidence f) \<and>
     (case o_data obs of
        LogWindow gap _ window_end _ _ _ True \<Rightarrow> gap = 0 \<and> f_observed_at f < window_end
      | _ \<Rightarrow> False) \<and>
     has_complete r (o_operation obs)"

definition known_signature :: "job \<Rightarrow> snapshot \<Rightarrow> finding \<Rightarrow> log_class" where
  "known_signature j sn f =
     (case bm_get (sn_results sn) (j_key j) of
        None \<Rightarrow> LOtherError
      | Some r \<Rightarrow>
          (case find (\<lambda>obs. o_resource obs = f_resource f) (r_observations r) of
             None \<Rightarrow> LOtherError
           | Some obs \<Rightarrow> (case o_data obs of Log signature _ _ _ _ \<Rightarrow> signature | _ \<Rightarrow> LOtherError)))"

fun log_clears :: "job \<Rightarrow> snapshot \<Rightarrow> check_result \<Rightarrow> nat \<Rightarrow> finding list \<Rightarrow> observation list" where
  "log_clears j sn r n [] = []"
| "log_clears j sn r n (f # fs) =
     (if \<not> (f_rule f = ''runtime-failure-sample'' \<and> in_target j (f_resource f))
      then log_clears j sn r n fs
      else if list_ex (\<lambda>obs. o_resource obs = f_resource f) (r_observations r)
      then log_clears j sn r n fs
      else (case find (clearing_window r f) (r_observations r) of
              None \<Rightarrow> log_clears j sn r n fs
            | Some window \<Rightarrow>
                if s_max_assets (j_settings j) \<le> length (r_observations r) + n then []
                else \<lparr>o_context = None, o_resource = f_resource f,
                       o_operation = o_operation window, o_observed_at = o_observed_at window,
                       o_expected = f_expected f,
                       o_data = Log (known_signature j sn f) 0 (f_observed_at f)
                         (f_observed_at f) False\<rparr>
                     # log_clears j sn r (Suc n) fs))"

definition reconcile_logs :: "job \<Rightarrow> snapshot \<Rightarrow> check_result \<Rightarrow> check_result" where
  "reconcile_logs j sn r =
     (if j_check j \<noteq> CLogs then r
      else r\<lparr>r_observations :=
             r_observations r @ log_clears j sn r 0 (map snd (sn_findings sn))\<rparr>)"

section \<open>Lemmas\<close>

lemma retain_operations_grants_nothing:
  "p \<in> set (retain_operations retained ps qs) \<Longrightarrow> op_coverage p = Complete \<Longrightarrow> p \<in> set ps"
  by (induction retained ps qs rule: retain_operations.induct) (auto split: if_splits)

interpretation retention: coverage_filter "retain_partial x j sn" for x j sn
proof (unfold_locales, rule subsetI)
  fix r i
  assume "i \<in> complete_ids (retain_partial x j sn r)"
  then show "i \<in> complete_ids r"
    unfolding complete_ids_iff
    by (auto simp: retain_partial_def split: option.splits prod.splits if_splits
        dest!: retain_operations_grants_nothing)
qed

interpretation retries: coverage_filter "\<lambda>r. r\<lparr>r_observations := mark_retries (r_observations r)\<rparr>"
  by unfold_locales simp

interpretation correlation: coverage_filter correlate
  by unfold_locales (simp add: correlate_def Let_def)

interpretation consolidation: coverage_filter "\<lambda>r. r\<lparr>r_observations := consolidate (r_observations r)\<rparr>"
  by unfold_locales simp

interpretation log_clearing: coverage_filter "reconcile_logs j sn" for j sn
  by unfold_locales (simp add: reconcile_logs_def)

lemma length_mark_retries [simp]: "length (mark_retries obss) = length obss"
  by (simp add: mark_retries_def)

lemma length_correlate [simp]: "length (r_observations (correlate r)) = length (r_observations r)"
  by (simp add: correlate_def Let_def)

lemma length_consolidate_step:
  "length (snd (consolidate_step obs st)) \<le> Suc (length (snd st))"
  by (auto simp: consolidate_step_def split: prod.splits data.splits option.splits)

lemma length_consolidate_fold:
  "length (snd (fold consolidate_step obss st)) \<le> length (snd st) + length obss"
proof (induction obss arbitrary: st)
  case Nil
  then show ?case by simp
next
  case (Cons obs obss)
  show ?case using Cons.IH [of "consolidate_step obs st"] length_consolidate_step [of obs st]
    by simp
qed

lemma length_consolidate: "length (consolidate obss) \<le> length obss"
  using length_consolidate_fold [of obss "([], [])"] by (simp add: consolidate_def)

text \<open>A pass that rewrites data keeps the resource and the operation of each observation.\<close>

lemma mark_retry_keys [simp]:
  "o_resource (mark_retry m obs) = o_resource obs" "o_operation (mark_retry m obs) = o_operation obs"
  "o_observed_at (mark_retry m obs) = o_observed_at obs"
  by (auto simp: mark_retry_def split: data.split service_state.split option.split)

lemma apply_completion_keys [simp]:
  "o_resource (apply_completion m c obs) = o_resource obs"
  "o_operation (apply_completion m c obs) = o_operation obs"
  "o_observed_at (apply_completion m c obs) = o_observed_at obs"
  by (auto simp: apply_completion_def split: data.split option.split prod.split)

end
