(* ===== verification/Eval_Index.thy ===== *)
theory Eval_Index
  imports Passes
begin

text \<open>
  \<open>crates/core/src/evaluation_index.rs\<close>: the comparison index of one \<open>apply\<close>. It
  answers which earlier observation of a resource is authoritative, which operations
  of the new result are complete, and which findings a healthy observation clears.
\<close>

record index =
  ix_prior :: "(string, observation) bmap"
  ix_complete :: "string set"
  ix_clear :: "(string, string \<times> instant) bmap"

definition clear_health :: "health \<Rightarrow> bool" where
  "clear_health h \<longleftrightarrow> h = Healthy \<or> h = ExpectedInactive"

definition authoritative :: "check_result option \<Rightarrow> observation list" where
  "authoritative old =
     (case old of None \<Rightarrow> []
      | Some r \<Rightarrow> filter (\<lambda>obs. o_operation obs \<in> complete_ids r) (r_observations r))"

definition new_index :: "check_result option \<Rightarrow> check_result \<Rightarrow> index" where
  "new_index old r =
     \<lparr>ix_prior = bm_collect (map (\<lambda>obs. (o_resource obs, obs)) (authoritative old)),
      ix_complete = complete_ids r, ix_clear = []\<rparr>"

definition index_prior :: "index \<Rightarrow> observation \<Rightarrow> observation option" where
  "index_prior ix obs = bm_get (ix_prior ix) (o_resource obs)"

definition index_complete :: "index \<Rightarrow> observation \<Rightarrow> bool" where
  "index_complete ix obs \<longleftrightarrow> o_operation obs \<in> ix_complete ix"

definition record_clear :: "observation \<Rightarrow> health \<Rightarrow> index \<Rightarrow> index" where
  "record_clear obs h ix =
     (if index_complete ix obs \<and> clear_health h
      then ix\<lparr>ix_clear := bm_put (o_resource obs) (o_operation obs, o_observed_at obs) (ix_clear ix)\<rparr>
      else ix)"

text \<open>\<open>Index::reconcile\<close>: the health of an observation whose operation lost its coverage
  falls back to \<open>Unknown\<close>.\<close>

definition unsettle :: "string set \<Rightarrow> observation \<Rightarrow> (string, health) bmap \<Rightarrow> (string, health) bmap" where
  "unsettle completed obs hs =
     (if o_operation obs \<in> completed then hs
      else case bm_get hs (o_resource obs) of
             None \<Rightarrow> hs
           | Some h \<Rightarrow> if clear_health h then bm_put (o_resource obs) Unknown hs else hs)"

definition reconcile_index ::
  "check_result \<Rightarrow> index \<Rightarrow> (string, health) bmap \<Rightarrow> index \<times> (string, health) bmap" where
  "reconcile_index r ix hs =
     (let completed = complete_ids r
      in (ix\<lparr>ix_complete := completed,
            ix_clear := bm_retain (\<lambda>_ (i, _). i \<in> completed) (ix_clear ix)\<rparr>,
          fold (unsettle completed) (r_observations r) hs))"

text \<open>\<open>Index::clear\<close>: a clear must come from an operation of the finding's evidence and be
  newer than the finding's observation.\<close>

definition clear_time :: "index \<Rightarrow> finding \<Rightarrow> instant option" where
  "clear_time ix f =
     (case bm_get (ix_clear ix) (f_resource f) of
        None \<Rightarrow> None
      | Some (i, t) \<Rightarrow> if i \<in> set (f_evidence f) \<and> f_observed_at f < t then Some t else None)"

definition can_remove :: "index \<Rightarrow> finding \<Rightarrow> bool" where
  "can_remove ix f \<longleftrightarrow> f_evidence f \<noteq> [] \<and> list_all (\<lambda>i. i \<in> ix_complete ix) (f_evidence f)"

section \<open>Lemmas\<close>

lemma clear_health_simps [simp]: "clear_health Healthy" "clear_health ExpectedInactive"
  "\<not> clear_health Unknown" "\<not> clear_health Degraded" "\<not> clear_health Unhealthy"
  by (simp_all add: clear_health_def)

text \<open>Every recorded clear names a complete operation.\<close>

definition clears_complete :: "index \<Rightarrow> bool" where
  "clears_complete ix \<longleftrightarrow> bm_wf (ix_clear ix) \<and>
     (\<forall>k i t. bm_get (ix_clear ix) k = Some (i, t) \<longrightarrow> i \<in> ix_complete ix)"

lemma clears_complete_new: "clears_complete (new_index old r)"
  by (simp add: clears_complete_def new_index_def)

lemma ix_complete_record_clear [simp]: "ix_complete (record_clear obs h ix) = ix_complete ix"
  by (simp add: record_clear_def)

lemma ix_prior_record_clear [simp]: "ix_prior (record_clear obs h ix) = ix_prior ix"
  by (simp add: record_clear_def)

lemma clears_complete_record: "clears_complete ix \<Longrightarrow> clears_complete (record_clear obs h ix)"
  by (auto simp: clears_complete_def record_clear_def index_complete_def bm.ok_put bm.get_put)

lemma clears_complete_reconcile:
  "clears_complete ix \<Longrightarrow> clears_complete (fst (reconcile_index r ix hs))"
  by (auto simp: clears_complete_def reconcile_index_def Let_def bm_wf_retain get_bm_retain
      split: option.splits if_splits)

lemma clear_time_evidence:
  assumes "clears_complete ix" and "clear_time ix f = Some t"
  shows "f_observed_at f < t \<and> (\<exists>i \<in> set (f_evidence f). i \<in> ix_complete ix)"
  using assms
  by (fastforce simp: clear_time_def clears_complete_def split: option.splits if_splits prod.splits)

lemma can_remove_evidence:
  "can_remove ix f \<Longrightarrow> \<exists>i \<in> set (f_evidence f). i \<in> ix_complete ix"
  by (auto simp: can_remove_def list_all_iff neq_Nil_conv)

lemma bm_wf_unsettle: "bm_wf hs \<Longrightarrow> bm_wf (unsettle c obs hs)"
  by (simp add: unsettle_def bm.ok_put split: option.split)

lemma get_unsettle:
  "bm_get (unsettle c obs hs) k =
     (case bm_get hs k of None \<Rightarrow> None
      | Some h \<Rightarrow> Some (if k = o_resource obs \<and> o_operation obs \<notin> c \<and> clear_health h then Unknown else h))"
  by (auto simp: unsettle_def bm.get_put split: option.splits)

lemma get_fold_unsettle:
  "bm_get (fold (unsettle c) obss hs) k =
     (case bm_get hs k of None \<Rightarrow> None
      | Some h \<Rightarrow> Some (if (\<exists>obs \<in> set obss. k = o_resource obs \<and> o_operation obs \<notin> c) \<and> clear_health h
                       then Unknown else h))"
proof (induction obss arbitrary: hs)
  case Nil
  then show ?case by (simp split: option.split)
next
  case (Cons obs obss)
  then show ?case by (auto simp: Cons.IH get_unsettle split: option.splits)
qed

lemma bm_wf_fold_unsettle: "bm_wf hs \<Longrightarrow> bm_wf (fold (unsettle c) obss hs)"
  by (induction obss arbitrary: hs) (auto simp: bm_wf_unsettle)

end
