(* ===== verification/Release_Evidence.thy ===== *)
theory Release_Evidence
  imports Eval_Index Images
begin

text \<open>
  \<open>crates/core/src/release_evidence.rs\<close>: the fresh provenance facts a release check
  correlates, one per resource, and the walk along Kubernetes owner references from a
  runtime image to the controller that declares it. Borrowed observations are values.
\<close>

record evidence =
  ev_candidates :: "(string, observation) bmap"
  ev_expiry :: "(string, instant) bmap"
  ev_facts :: "observation list"
  ev_artifacts :: "(string, observation list) bmap"
  ev_commits :: "(string, observation list) bmap"
  ev_owners :: "(string, string \<times> string option) bmap"
  ev_parents :: "(string \<times> string, string option) bmap"

definition is_image :: "data \<Rightarrow> bool" where
  "is_image d = (case d of Image _ _ _ \<Rightarrow> True | _ \<Rightarrow> False)"

definition kubernetes_operations :: "string list" where
  "kubernetes_operations = [''pods'', ''nodes'', ''deployments'', ''statefulsets'', ''replicasets'',
     ''daemonsets'', ''jobs'', ''cronjobs'', ''scaledobjects'']"

definition source_limit :: "snapshot \<Rightarrow> string \<Rightarrow> observation \<Rightarrow> u64 \<Rightarrow> u64" where
  "source_limit sn target_name obs limit =
     (if o_operation obs \<in> set kubernetes_operations
      then unwrap_or (min limit 150) (bm_get (sn_freshness sn) (target_name @ ''/Kubernetes''))
      else limit)"

section \<open>Building the evidence\<close>

definition evidence_inputs :: "snapshot \<Rightarrow> job \<Rightarrow> check_result \<Rightarrow> (string \<times> check_result) list" where
  "evidence_inputs sn j current =
     filter (\<lambda>(key, _). key \<noteq> j_key j) (sn_results sn) @ [(j_key j, current)]"

definition latest_operations ::
  "(string \<times> check_result) list \<Rightarrow> (string \<times> string, instant) bmap" where
  "latest_operations inputs =
     fold (\<lambda>(_, r). fold (\<lambda>p m.
         (let key = (r_target r, op_id p)
          in if is_none_or (\<lambda>t. t < op_observed_at p) (bm_get m key)
             then bm_put key (op_observed_at p) m else m)) (r_operations r)) inputs []"

definition insert_candidate :: "observation \<Rightarrow> (string, observation) bmap \<Rightarrow> (string, observation) bmap" where
  "insert_candidate obs m =
     (if is_image (o_data obs) \<and>
         is_none_or (\<lambda>prior. o_observed_at prior \<le> o_observed_at obs) (bm_get m (o_resource obs))
      then bm_put (o_resource obs) obs m else m)"

text \<open>A fact is current: observed within its source's limit, by an operation that is
  complete and is the latest run of its name in the target.\<close>

definition current_fact ::
  "snapshot \<Rightarrow> (string \<times> string, instant) bmap \<Rightarrow> instant \<Rightarrow> check_result \<Rightarrow> u64 \<Rightarrow> observation \<Rightarrow> bool" where
  "current_fact sn latest now r limit obs \<longleftrightarrow>
     o_observed_at obs \<le> now \<and>
     elapsed now (o_observed_at obs) \<le> as_i64 (source_limit sn (r_target r) obs limit) \<and>
     list_ex (\<lambda>p. op_id p = o_operation obs \<and> op_coverage p = Complete \<and>
        bm_get latest (r_target r, op_id p) = Some (op_observed_at p)) (r_operations r)"

definition input_limit :: "snapshot \<Rightarrow> job \<Rightarrow> string \<Rightarrow> u64" where
  "input_limit sn j key = unwrap_or (job_freshness j) (bm_get (sn_freshness sn) key)"

definition insert_expiry ::
  "ext \<Rightarrow> snapshot \<Rightarrow> check_result \<Rightarrow> u64 \<Rightarrow> observation \<Rightarrow> (string, instant) bmap \<Rightarrow> (string, instant) bmap" where
  "insert_expiry x sn r limit obs m =
     (case x_add_secs x (o_observed_at obs) (as_i64 (source_limit sn (r_target r) obs limit)) of
        None \<Rightarrow> m
      | Some until \<Rightarrow>
          bm_put (o_resource obs)
            (case bm_get m (o_resource obs) of None \<Rightarrow> until | Some t \<Rightarrow> max t until) m)"

definition insert_latest :: "observation \<Rightarrow> (string, observation) bmap \<Rightarrow> (string, observation) bmap" where
  "insert_latest obs m =
     (if is_none_or (\<lambda>old. o_observed_at old \<le> o_observed_at obs) (bm_get m (o_resource obs))
      then bm_put (o_resource obs) obs m else m)"

definition push_under :: "string \<Rightarrow> observation \<Rightarrow> (string, observation list) bmap \<Rightarrow>
    (string, observation list) bmap" where
  "push_under key obs m = bm_put key (unwrap_or [] (bm_get m key) @ [obs]) m"

definition index_artifact :: "observation \<Rightarrow> (string, observation list) bmap \<Rightarrow> (string, observation list) bmap" where
  "index_artifact obs m =
     (case o_data obs of Artifact _ _ img _ _ _ _ _ _ \<Rightarrow> push_under img obs m | _ \<Rightarrow> m)"

definition index_commit :: "observation \<Rightarrow> (string, observation list) bmap \<Rightarrow> (string, observation list) bmap" where
  "index_commit obs m =
     (case o_data obs of Commit _ revision _ \<Rightarrow> push_under revision obs m | _ \<Rightarrow> m)"

definition owner_fact :: "observation \<Rightarrow> (string \<times> string \<times> string option) option" where
  "owner_fact obs =
     (case o_data obs of
        Owner uid owner_uid \<Rightarrow>
          map_option (\<lambda>resource. (resource, uid, owner_uid)) (strip_suffix ''/owner'' (o_resource obs))
      | _ \<Rightarrow> None)"

definition new_evidence :: "ext \<Rightarrow> snapshot \<Rightarrow> job \<Rightarrow> check_result \<Rightarrow> instant \<Rightarrow> evidence" where
  "new_evidence x sn j current now =
     (let inputs = evidence_inputs sn j current;
          latest_ops = latest_operations inputs;
          candidates = fold (\<lambda>(_, r). fold insert_candidate (r_observations r)) inputs [];
          raw = concat (map (\<lambda>(key, r).
            filter (current_fact sn latest_ops now r (input_limit sn j key)) (r_observations r)) inputs);
          expiry = fold (\<lambda>(key, r).
            fold (insert_expiry x sn r (input_limit sn j key)) (r_observations r)) inputs [];
          facts = map snd (fold insert_latest raw []);
          owners = bm_collect (List.map_filter owner_fact facts)
      in \<lparr>ev_candidates = candidates, ev_expiry = expiry, ev_facts = facts,
          ev_artifacts = fold index_artifact facts [],
          ev_commits = fold index_commit facts [],
          ev_owners = owners,
          ev_parents = bm_collect (map (\<lambda>(resource, uid, parent).
            ((first_part CHR ''/'' resource, uid), parent)) owners)\<rparr>)"

section \<open>Queries\<close>

text \<open>\<open>resource.rsplit_once("/image/").unwrap_or((resource, ""))\<close>.\<close>

definition image_base :: "string \<Rightarrow> string \<times> string" where
  "image_base resource = unwrap_or (resource, []) (rsplit_once_str ''/image/'' resource)"

text \<open>At most \<open>n\<close> owner references from \<open>current\<close> lead to \<open>uid\<close>; the code uses 64.\<close>

fun owned_by :: "nat \<Rightarrow> (string \<times> string, string option) bmap \<Rightarrow> string \<Rightarrow> string \<Rightarrow> string option \<Rightarrow> bool" where
  "owned_by 0 parents target_name uid current = False"
| "owned_by (Suc n) parents target_name uid current =
     (case current of
        None \<Rightarrow> False
      | Some parent \<Rightarrow>
          parent = uid \<or>
          owned_by n parents target_name uid
            (case bm_get parents (target_name, parent) of None \<Rightarrow> None | Some p \<Rightarrow> p))"

definition runtime_candidate :: "evidence \<Rightarrow> string \<Rightarrow> string \<Rightarrow> string \<Rightarrow> observation \<Rightarrow> bool" where
  "runtime_candidate ev target_name container uid cand \<longleftrightarrow>
     starts_with (o_resource cand) (target_name @ ''/'') \<and>
     (case o_data cand of Image _ (Some _) _ \<Rightarrow> True | _ \<Rightarrow> False) \<and>
     snd (image_base (o_resource cand)) = container \<and>
     (case bm_get (ev_owners ev) (fst (image_base (o_resource cand))) of
        None \<Rightarrow> False
      | Some (_, owner) \<Rightarrow> owned_by 64 (ev_parents ev) target_name uid owner)"

definition runtime_images :: "evidence \<Rightarrow> observation \<Rightarrow> observation list" where
  "runtime_images ev img =
     (case image_base (o_resource img) of
        (base, container) \<Rightarrow>
          (case bm_get (ev_owners ev) base of
             None \<Rightarrow> []
           | Some (uid, _) \<Rightarrow>
               filter (runtime_candidate ev (first_part CHR ''/'' (o_resource img)) container uid)
                 (ev_facts ev)))"

definition evidence_inactive :: "evidence \<Rightarrow> observation \<Rightarrow> bool" where
  "evidence_inactive ev img \<longleftrightarrow>
     o_expected img \<noteq> Active \<or>
     list_ex (\<lambda>obs. o_resource obs = fst (image_base (o_resource img)) \<and>
       (case o_data obs of
          Workload desired _ _ _ _ \<Rightarrow> desired = 0
        | Schedule _ _ _ _ _ _ active _ _ \<Rightarrow> active = 0
        | Job _ _ completed _ _ _ _ _ \<Rightarrow> completed
        | _ \<Rightarrow> False)) (ev_facts ev)"

definition within_rollout :: "job \<Rightarrow> instant \<Rightarrow> instant \<Rightarrow> bool" where
  "within_rollout j now t \<longleftrightarrow>
     0 \<le> elapsed now t \<and> elapsed now t < as_i64 (s_rollout_grace (j_settings j))"

definition evidence_grace :: "evidence \<Rightarrow> observation \<Rightarrow> job \<Rightarrow> instant \<Rightarrow> bool" where
  "evidence_grace ev img j now \<longleftrightarrow>
     list_ex (\<lambda>obs.
       (let base = fst (image_base (o_resource img));
            t = (case o_data obs of
                   Workload _ _ created_at _ _ \<Rightarrow> if o_resource obs = base then created_at else None
                 | Pod _ _ _ _ _ created_at _ \<Rightarrow>
                     if starts_with (o_resource obs) (base @ ''/'') then created_at else None
                 | _ \<Rightarrow> None)
        in is_some_and (within_rollout j now) t)) (ev_facts ev)"

text \<open>\<open>Evidence::images\<close>: the keys of \<open>candidates\<close> are the resources, so the \<open>seen\<close> set of
  the source never filters.\<close>

definition evidence_images :: "evidence \<Rightarrow> string \<Rightarrow> observation list" where
  "evidence_images ev target_name =
     filter (\<lambda>obs. starts_with (o_resource obs) (target_name @ ''/'') \<and> is_image (o_data obs))
       (map snd (ev_candidates ev))"

definition evidence_fresh :: "evidence \<Rightarrow> observation \<Rightarrow> bool" where
  "evidence_fresh ev obs \<longleftrightarrow>
     list_ex (\<lambda>known. o_resource known = o_resource obs \<and> o_observed_at known = o_observed_at obs) (ev_facts ev)"

definition evidence_expires :: "evidence \<Rightarrow> observation \<Rightarrow> instant" where
  "evidence_expires ev obs = unwrap_or (o_observed_at obs) (bm_get (ev_expiry ev) (o_resource obs))"

section \<open>Lemmas\<close>

text \<open>The owner walk: a positive answer is a chain of parent references that ends in the
  controller, and a longer budget never loses one.\<close>

inductive owner_chain ::
  "(string \<times> string, string option) bmap \<Rightarrow> string \<Rightarrow> string \<Rightarrow> string \<Rightarrow> bool" for parents target_name uid
where
  here: "owner_chain parents target_name uid uid"
| up: "bm_get parents (target_name, u) = Some (Some p) \<Longrightarrow> owner_chain parents target_name uid p \<Longrightarrow>
    owner_chain parents target_name uid u"

inductive_cases owner_chain_from: "owner_chain parents target_name uid u"

lemma owned_by_chain:
  "owned_by n parents tn uid cur \<Longrightarrow> \<exists>u. cur = Some u \<and> owner_chain parents tn uid u"
proof (induction n parents tn uid cur rule: owned_by.induct)
  case (2 n parents tn uid cur)
  then obtain u where u: "cur = Some u" by (auto split: option.splits)
  show ?case
  proof (cases "u = uid")
    case True
    with u show ?thesis by (auto intro: owner_chain.here)
  next
    case False
    with "2.prems" u obtain p where "bm_get parents (tn, u) = Some p"
      and "owned_by n parents tn uid p"
      by (cases "bm_get parents (tn, u)") (auto, cases n, auto)
    then obtain q where "p = Some q" and "owner_chain parents tn uid q"
      using "2.IH" [of u] u False by auto
    with \<open>bm_get parents (tn, u) = Some p\<close> u show ?thesis by (auto intro: owner_chain.up)
  qed
qed simp

lemma owned_by_mono: "owned_by n parents tn uid cur \<Longrightarrow> n \<le> m \<Longrightarrow> owned_by m parents tn uid cur"
proof (induction n arbitrary: m cur)
  case (Suc n)
  then obtain m' where m': "m = Suc m'" "n \<le> m'" by (cases m) auto
  with Suc.prems Suc.IH [OF _ m'(2)] show ?case by (cases cur) auto
qed simp

end
