(* ===== verification/Releases.thy ===== *)
theory Releases
  imports Release_Evidence
begin

text \<open>
  \<open>crates/core/src/releases.rs\<close>, \<open>enrich\<close>: the provenance of every runtime image of a
  release check, correlated with registry artifacts, builds and commits. The sets the
  source collects in a \<open>BTreeSet\<close> are ascending lists. The verdict over a provenance
  observation, \<open>releases::evaluate\<close>, is in theory \<open>Policy\<close>.
\<close>

section \<open>The steps of one image\<close>

definition single :: "'a list \<Rightarrow> 'a option" where
  "single xs = (case xs of [v] \<Rightarrow> Some v | _ \<Rightarrow> None)"

definition under_name :: "string \<Rightarrow> string \<Rightarrow> bool" where
  "under_name canon name = ends_with canon (''/'' @ name)"

definition release_tracked :: "evidence \<Rightarrow> job \<Rightarrow> string \<Rightarrow> string option \<Rightarrow> bool" where
  "release_tracked ev j canon revision \<longleftrightarrow>
     revision \<noteq> None \<or>
     str_contains canon (t_scope (j_target j)) \<or>
     list_ex (\<lambda>(_, name). under_name canon name) (t_build_targets (j_target j)) \<or>
     bm_has (ev_artifacts ev) canon"

definition same_canonical :: "string \<Rightarrow> observation \<Rightarrow> bool" where
  "same_canonical canon obs \<longleftrightarrow>
     (case o_data obs of Image desired _ _ \<Rightarrow> canonical desired = Some canon | _ \<Rightarrow> False)"

definition runtime_of :: "evidence \<Rightarrow> observation \<Rightarrow> string option \<Rightarrow> string \<Rightarrow> observation list" where
  "runtime_of ev img observed_digest canon =
     filter (same_canonical canon)
       (if observed_digest \<noteq> None \<and> evidence_fresh ev img then [img] else runtime_images ev img)"

definition observed_digest_of :: "observation \<Rightarrow> string option" where
  "observed_digest_of obs =
     (case o_data obs of Image _ (Some d) _ \<Rightarrow> digest d | _ \<Rightarrow> None)"

definition artifacts_of :: "evidence \<Rightarrow> string \<Rightarrow> observation list" where
  "artifacts_of ev canon = unwrap_or [] (bm_get (ev_artifacts ev) canon)"

definition is_registry :: "string \<Rightarrow> observation \<Rightarrow> bool" where
  "is_registry canon obs \<longleftrightarrow>
     (case o_data obs of Artifact _ _ name _ _ _ _ built _ \<Rightarrow> \<not> built \<and> name = canon | _ \<Rightarrow> False)"

definition artifact_digest :: "observation \<Rightarrow> string option" where
  "artifact_digest obs =
     (case o_data obs of Artifact _ _ _ d _ _ _ _ _ \<Rightarrow> Some d | _ \<Rightarrow> None)"

definition tagged_digest :: "string \<Rightarrow> observation \<Rightarrow> string option" where
  "tagged_digest desired obs =
     (case o_data obs of
        Artifact _ _ _ d tags _ _ _ _ \<Rightarrow>
          if is_some_and (\<lambda>tag. tag \<in> set tags) (image_tag desired) then Some d else None
      | _ \<Rightarrow> None)"

text \<open>The digests the reference asks for: the one it pins, else those its tag names.\<close>

definition expected_digests :: "string \<Rightarrow> observation list \<Rightarrow> string list" where
  "expected_digests desired registries =
     (case Option.bind (split_once CHR ''@'' desired) (\<lambda>(_, d). digest d) of
        Some d \<Rightarrow> [d]
      | None \<Rightarrow> bs_collect (List.map_filter (tagged_digest desired) registries))"

definition recently_published :: "job \<Rightarrow> instant \<Rightarrow> string option \<Rightarrow> observation \<Rightarrow> bool" where
  "recently_published j now wanted obs \<longleftrightarrow>
     (case o_data obs of
        Artifact _ _ _ d _ _ _ _ (Some t) \<Rightarrow> Some d = wanted \<and> within_rollout j now t
      | _ \<Rightarrow> False)"

definition index_children :: "string option \<Rightarrow> observation \<Rightarrow> string list" where
  "index_children wanted obs =
     (case o_data obs of
        Artifact MIndex children _ d _ _ _ _ _ \<Rightarrow> if Some d = wanted then children else []
      | _ \<Rightarrow> [])"

definition is_wanted_image :: "string option \<Rightarrow> observation \<Rightarrow> bool" where
  "is_wanted_image wanted obs \<longleftrightarrow>
     (case o_data obs of Artifact MImage _ _ d _ _ _ _ _ \<Rightarrow> Some d = wanted | _ \<Rightarrow> False)"

definition digest_matches :: "string list \<Rightarrow> string \<Rightarrow> string \<Rightarrow> bool" where
  "digest_matches children wanted d \<longleftrightarrow> d = wanted \<or> d \<in> set children"

definition digests_mismatch :: "bool \<Rightarrow> bool \<Rightarrow> string list \<Rightarrow> string option \<Rightarrow> string list \<Rightarrow> bool" where
  "digests_mismatch pending comparable digests wanted children \<longleftrightarrow>
     \<not> pending \<and> comparable \<and> digests \<noteq> [] \<and>
     is_some_and (\<lambda>w. list_ex (\<lambda>d. \<not> digest_matches children w d) digests) wanted"

definition registry_conforms :: "observation list \<Rightarrow> string list \<Rightarrow> string option \<Rightarrow> string list \<Rightarrow> bool" where
  "registry_conforms registries digests wanted children \<longleftrightarrow>
     digests \<noteq> [] \<and>
     is_some_and (\<lambda>w. list_all (digest_matches children w) digests) wanted \<and>
     list_all (\<lambda>d. list_ex (\<lambda>obs. artifact_digest obs = Some d) registries \<or> d \<in> set children) digests"

definition is_build_of :: "string list \<Rightarrow> string option \<Rightarrow> string list \<Rightarrow> observation \<Rightarrow> bool" where
  "is_build_of digests wanted children obs \<longleftrightarrow>
     (case o_data obs of
        Artifact _ _ _ d _ _ _ True _ \<Rightarrow>
          d \<in> set digests \<or> (Some d = wanted \<and> children \<noteq> [])
      | _ \<Rightarrow> False)"

definition artifact_revision :: "observation \<Rightarrow> string option" where
  "artifact_revision obs =
     (case o_data obs of Artifact _ _ _ _ _ revision _ _ _ \<Rightarrow> revision | _ \<Rightarrow> None)"

definition artifact_repository :: "observation \<Rightarrow> string option" where
  "artifact_repository obs =
     (case o_data obs of Artifact _ _ _ _ _ _ repository _ _ \<Rightarrow> repository | _ \<Rightarrow> None)"

text \<open>A successful build of this target whose revision the image's label abbreviates.\<close>

definition is_mapped_build :: "job \<Rightarrow> string \<Rightarrow> string option \<Rightarrow> observation \<Rightarrow> bool" where
  "is_mapped_build j canon revision obs \<longleftrightarrow>
     in_target j (o_resource obs) \<and>
     (case o_data obs of
        Build _ _ built_revision tgt SReady _ \<Rightarrow>
          tgt \<noteq> [] \<and> under_name canon tgt \<and>
          is_some_and (\<lambda>r. revision_matches r built_revision) revision
      | _ \<Rightarrow> False)"

definition build_revision :: "observation \<Rightarrow> string option" where
  "build_revision obs = (case o_data obs of Build _ _ revision _ _ _ \<Rightarrow> Some revision | _ \<Rightarrow> None)"

definition build_repository :: "job \<Rightarrow> observation \<Rightarrow> string option" where
  "build_repository j obs =
     (case o_data obs of
        Build _ pipeline _ _ _ _ \<Rightarrow> bm_get (t_build_repositories (j_target j)) pipeline
      | _ \<Rightarrow> None)"

definition built_by :: "string option \<Rightarrow> string list \<Rightarrow> string \<Rightarrow> observation \<Rightarrow> bool" where
  "built_by wanted children d obs \<longleftrightarrow>
     (case artifact_digest obs of
        None \<Rightarrow> False
      | Some known \<Rightarrow> known = d \<or> (Some known = wanted \<and> d \<in> set children))"

definition commit_repository :: "observation \<Rightarrow> string option" where
  "commit_repository obs = (case o_data obs of Commit repository _ _ \<Rightarrow> Some repository | _ \<Rightarrow> None)"

definition commit_candidates :: "evidence \<Rightarrow> string option \<Rightarrow> string list \<Rightarrow> observation list" where
  "commit_candidates ev revision repositories =
     filter (\<lambda>obs. case commit_repository obs of
               None \<Rightarrow> False
             | Some repository \<Rightarrow> repositories = [] \<or> repository \<in> set repositories)
       (case revision of None \<Rightarrow> [] | Some r \<Rightarrow> unwrap_or [] (bm_get (ev_commits ev) r))"

definition provenance_operation :: "string \<Rightarrow> coverage \<Rightarrow> instant \<Rightarrow> bool \<Rightarrow> operation" where
  "provenance_operation i coverage t required =
     \<lparr>op_id = i, op_coverage = coverage, op_observed_at = t, op_records = 1, op_pages = 0,
      op_attempts = 0, op_required = required\<rparr>"

section \<open>One image, and the whole result\<close>

text \<open>The correlation of a tracked or inactive image: its operation and its provenance.\<close>

definition correlate_image ::
  "evidence \<Rightarrow> job \<Rightarrow> instant \<Rightarrow> observation \<Rightarrow> string \<Rightarrow> string option \<Rightarrow> string option \<Rightarrow> string \<Rightarrow>
     operation \<times> observation" where
  "correlate_image ev j now img desired observed_digest label canon =
     (let i = ''provenance/'' @ o_resource img;
          idle = evidence_inactive ev img;
          runtime = runtime_of ev img observed_digest canon;
          digests = bs_collect (List.map_filter observed_digest_of runtime);
          registries = filter (is_registry canon) (artifacts_of ev canon);
          wanted = single (expected_digests desired registries);
          pending = (evidence_grace ev img j now \<or>
            list_ex (recently_published j now wanted) registries);
          children = bs_collect (concat (map (index_children wanted) registries));
          comparable = (list_ex (is_wanted_image wanted) registries \<or> children \<noteq> []);
          registry_verified = registry_conforms registries digests wanted children;
          builds = filter (is_build_of digests wanted children) (artifacts_of ev canon);
          mapped = filter (is_mapped_build j canon label) (ev_facts ev);
          revision = single (bs_collect (List.map_filter artifact_revision builds @
            List.map_filter build_revision mapped));
          mismatch = (digests_mismatch pending comparable digests wanted children \<or>
            (\<not> pending \<and> is_some_and (\<lambda>w.
               is_some_and (\<lambda>actual. \<not> revision_matches w actual) revision) label));
          build_verified = (revision \<noteq> None \<and> digests \<noteq> [] \<and>
            (list_all (\<lambda>d. list_ex (built_by wanted children d) builds) digests \<or> mapped \<noteq> []));
          repositories = bs_collect (List.map_filter artifact_repository builds @
            List.map_filter (build_repository j) mapped);
          commits = commit_candidates ev revision repositories;
          repository = single (bs_collect (List.map_filter commit_repository commits));
          commit_verified = (repository \<noteq> None);
          sources = runtime @ registries @ builds @ mapped @ commits;
          t = unwrap_or (o_observed_at img) (list_max (map o_observed_at sources));
          valid_until = unwrap_or (evidence_expires ev img)
            (list_min (map (evidence_expires ev) sources));
          coverage = (if 16 < length digests then Truncated
            else if idle \<or> pending \<or> (registry_verified \<and> build_verified \<and> commit_verified)
            then Complete else Missing)
      in (provenance_operation i coverage t True,
          \<lparr>o_context = o_context img, o_resource = o_resource img @ ''/provenance'',
           o_operation = i, o_observed_at = t,
           o_expected = (if idle then ScaleToZero else o_expected img),
           o_data = Provenance valid_until (take 16 digests) wanted pending revision repository
             registry_verified build_verified commit_verified mismatch\<rparr>))"

definition enrich_image ::
  "evidence \<Rightarrow> job \<Rightarrow> instant \<Rightarrow> observation \<Rightarrow> operation list \<times> observation list" where
  "enrich_image ev j now img =
     (case o_data img of
        Image desired observed_digest label \<Rightarrow>
          (let i = ''provenance/'' @ o_resource img
           in case canonical desired of
                None \<Rightarrow> ([provenance_operation i Malformed now True], [])
              | Some canon \<Rightarrow>
                  if \<not> release_tracked ev j canon label \<and> \<not> evidence_inactive ev img
                  then ([provenance_operation i InventoryOnly now False], [])
                  else (case correlate_image ev j now img desired observed_digest label canon of
                          (p, obs) \<Rightarrow> ([p], [obs])))
      | _ \<Rightarrow> ([], []))"

definition is_provenance :: "data \<Rightarrow> bool" where
  "is_provenance d = (case d of Provenance _ _ _ _ _ _ _ _ _ _ \<Rightarrow> True | _ \<Rightarrow> False)"

definition enrich :: "ext \<Rightarrow> snapshot \<Rightarrow> job \<Rightarrow> check_result \<Rightarrow> instant \<Rightarrow> check_result" where
  "enrich x sn j r now =
     (let r = r\<lparr>r_operations := filter (\<lambda>p. \<not> starts_with (op_id p) ''provenance/'') (r_operations r),
               r_observations := filter (\<lambda>obs. \<not> is_provenance (o_data obs)) (r_observations r)\<rparr>;
          ev = new_evidence x sn j r now;
          imgs = take (s_max_assets (j_settings j) - length (r_observations r))
                   (evidence_images ev (t_name (j_target j)));
          parts = map (enrich_image ev j now) imgs
      in r\<lparr>r_operations := r_operations r @ concat (map fst parts),
           r_observations := r_observations r @ concat (map snd parts)\<rparr>)"

section \<open>Lemmas\<close>

lemma single_Some: "single xs = Some v \<longleftrightarrow> xs = [v]"
  by (auto simp: single_def split: list.splits)

text \<open>What the flags of a provenance observation state about the evidence behind it.\<close>

lemma registry_conforms_wanted:
  assumes "registry_conforms registries digests wanted children" and "d \<in> set digests"
  shows "\<exists>w. wanted = Some w \<and> (d = w \<or> d \<in> set children)"
  using assms by (auto simp: registry_conforms_def is_some_and_iff list_all_iff digest_matches_def)

lemma conforming_digests_do_not_mismatch:
  "registry_conforms registries digests wanted children \<Longrightarrow>
     \<not> digests_mismatch pending comparable digests wanted children"
  by (auto simp: registry_conforms_def digests_mismatch_def is_some_and_iff list_all_iff list_ex_iff)

lemma enrich_image_operations:
  assumes "p \<in> set (fst (enrich_image ev j now img))"
  shows "starts_with (op_id p) ''provenance/''"
proof -
  have "op_id p = ''provenance/'' @ o_resource img"
    using assms
    by (auto simp: enrich_image_def correlate_image_def provenance_operation_def Let_def
        split: data.splits option.splits if_splits)
  then show ?thesis by (simp only: starts_with_append)
qed

lemma enrich_image_length: "length (snd (enrich_image ev j now img)) \<le> 1"
  by (auto simp: enrich_image_def Let_def split: data.split option.split prod.split)

text \<open>Enrichment only ever adds provenance operations and observations.\<close>

lemma complete_ids_enrich:
  assumes "i \<in> complete_ids (enrich x sn j r now)" and "\<not> starts_with i ''provenance/''"
  shows "i \<in> complete_ids r"
proof -
  obtain p where p: "p \<in> set (r_operations (enrich x sn j r now))" "op_id p = i" "op_coverage p = Complete"
    using assms(1) complete_ids_iff by blast
  have "p \<in> set (r_operations r) \<or> (\<exists>ev img. p \<in> set (fst (enrich_image ev j now img)))"
    using p(1) unfolding enrich_def Let_def by auto
  with p assms(2) show ?thesis
    using enrich_image_operations complete_ids_iff by blast
qed

lemma length_concat_le: "(\<And>y. y \<in> set ys \<Longrightarrow> length y \<le> 1) \<Longrightarrow> length (concat ys) \<le> length ys"
  by (induction ys) (simp, fastforce)

lemma length_enrich:
  assumes "length (r_observations r) \<le> s_max_assets (j_settings j)"
  shows "length (r_observations (enrich x sn j r now)) \<le> s_max_assets (j_settings j)"
proof -
  let ?kept = "filter (\<lambda>obs. \<not> is_provenance (o_data obs)) (r_observations r)"
  let ?m = "s_max_assets (j_settings j)"
  have kept: "length ?kept \<le> ?m"
    using assms by (meson length_filter_le le_trans)
  obtain ev imgs where obs: "r_observations (enrich x sn j r now) =
      ?kept @ concat (map snd (map (enrich_image ev j now) (take (?m - length ?kept) imgs)))"
    unfolding enrich_def Let_def by simp
  have "length (concat (map snd (map (enrich_image ev j now) (take (?m - length ?kept) imgs))))
      \<le> length (map snd (map (enrich_image ev j now) (take (?m - length ?kept) imgs)))"
    by (rule length_concat_le) (auto simp: enrich_image_length [simplified])
  also have "\<dots> \<le> ?m - length ?kept" by simp
  finally show ?thesis using kept unfolding obs length_append by linarith
qed

end
