(* ===== verification/Flows.thy ===== *)
theory Flows
  imports Bounds
begin

text \<open>
  \<open>crates/core/src/flows.rs\<close>: aggregate pipeline progress. A flow has a demand signal
  and stages with a progress signal each; the comparison state of a stage
  (\<open>progress\<close>) says when it last moved. \<open>flows_evaluate\<close> returns the new progress map
  beside the result, the only part of the snapshot the source mutates.
\<close>

section \<open>Signals\<close>

definition recent :: "job \<Rightarrow> instant \<Rightarrow> observation \<Rightarrow> bool" where
  "recent j now obs \<longleftrightarrow>
     elapsed now (o_observed_at obs) \<le> as_i64 (job_freshness j) \<and> o_observed_at obs \<le> now"

definition selects :: "string \<Rightarrow> observation \<Rightarrow> bool" where
  "selects selector obs \<longleftrightarrow>
     o_resource obs = selector \<or> ends_with (o_resource obs) (''/'' @ selector) \<or>
     (case o_data obs of Metric name _ _ _ _ _ \<Rightarrow> name = selector | _ \<Rightarrow> False)"

definition signal_value :: "job \<Rightarrow> string \<Rightarrow> instant \<Rightarrow> check_result \<Rightarrow> observation \<Rightarrow> f64 option" where
  "signal_value j selector now r obs =
     (if \<not> selects selector obs \<or> \<not> has_complete r (o_operation obs) then None
      else if \<not> recent j now obs then None
      else (case o_data obs of
              Metric _ v _ _ _ _ \<Rightarrow> if is_finite v then Some v else None
            | Queue backlog _ _ _ _ _ _ _ \<Rightarrow> if is_finite backlog then Some backlog else None
            | _ \<Rightarrow> None))"

text \<open>The newest reading; a selector that names two resources has none.\<close>

fun scan_signal ::
  "job \<Rightarrow> string \<Rightarrow> instant \<Rightarrow> (check_result \<times> observation) list \<Rightarrow> string option \<Rightarrow>
     (f64 \<times> instant) option \<Rightarrow> (f64 \<times> instant) option" where
  "scan_signal j selector now [] resource found = found"
| "scan_signal j selector now ((r, obs) # rest) resource found =
     (case signal_value j selector now r obs of
        None \<Rightarrow> scan_signal j selector now rest resource found
      | Some v \<Rightarrow>
          if is_some_and (\<lambda>q. q \<noteq> o_resource obs) resource then None
          else scan_signal j selector now rest (Some (o_resource obs))
                 (if is_none_or (\<lambda>(_, t). t < o_observed_at obs) found
                  then Some (v, o_observed_at obs) else found))"

definition target_readings :: "snapshot \<Rightarrow> job \<Rightarrow> (check_result \<times> observation) list" where
  "target_readings sn j =
     concat (map (\<lambda>r. map (Pair r) (r_observations r))
       (filter (\<lambda>r. r_target r = t_name (j_target j)) (map snd (sn_results sn))))"

definition signal :: "snapshot \<Rightarrow> job \<Rightarrow> string \<Rightarrow> instant \<Rightarrow> (f64 \<times> instant) option" where
  "signal sn j selector now = scan_signal j selector now (target_readings sn j) None None"

definition workload_known :: "snapshot \<Rightarrow> job \<Rightarrow> string \<Rightarrow> instant \<Rightarrow> bool" where
  "workload_known sn j selector now \<longleftrightarrow>
     list_ex (\<lambda>(r, obs). ends_with (o_resource obs) (''/'' @ selector) \<and>
        (case o_data obs of Workload _ _ _ _ _ \<Rightarrow> True | _ \<Rightarrow> False) \<and>
        has_complete r (o_operation obs) \<and> recent j now obs) (target_readings sn j)"

section \<open>Stages\<close>

text \<open>The comparison with the previous reading of a stage, at a strictly later instant: a
  gap or a counter that went back starts the episode again.\<close>

definition advance_progress :: "u64 \<Rightarrow> signal_mode \<Rightarrow> f64 \<Rightarrow> instant \<Rightarrow> progress \<Rightarrow> progress" where
  "advance_progress limit mode value t p =
     (if as_i64 limit < elapsed t (g_last_seen p) \<or> (f_lt value (g_value p) \<and> mode = Counter)
      then \<lparr>g_value = value, g_last_seen = t, g_last_progress = t, g_established = False\<rparr>
      else \<lparr>g_value = value, g_last_seen = t,
            g_last_progress =
              (if (case mode of Counter \<Rightarrow> f_lt (g_value p) value | Rate \<Rightarrow> f_lt (Fin 0) value)
               then t else g_last_progress p),
            g_established = True\<rparr>)"

definition stage_health :: "span \<Rightarrow> instant \<Rightarrow> progress \<Rightarrow> health" where
  "stage_health idle_after t p =
     (if g_established p
      then (if as_i64 idle_after \<le> elapsed t (g_last_progress p) then Unhealthy else Healthy)
      else Unknown)"

text \<open>The stage's progress entry, health and whether its evidence is complete, for a positive
  demand and a reading \<open>value\<close> at \<open>t\<close>.\<close>

definition stage_progress ::
  "job \<Rightarrow> flow \<Rightarrow> flow_stage \<Rightarrow> string \<Rightarrow> f64 \<Rightarrow> instant \<Rightarrow> (string, progress) bmap \<Rightarrow>
     (string, progress) bmap \<times> health \<times> bool" where
  "stage_progress j fl stage key value t progress =
     (case bm_get progress key of
        Some p \<Rightarrow>
          (let p' = (if g_last_seen p < t
                     then advance_progress (job_freshness j) (st_mode stage) value t p else p)
           in ((if g_last_seen p < t then bm_put key p' progress else progress),
               stage_health (fl_idle_after fl) t p', True))
      | None \<Rightarrow>
          if length progress < s_max_findings (j_settings j)
          then (bm_put key \<lparr>g_value = value, g_last_seen = t, g_last_progress = t,
                  g_established = False\<rparr> progress,
                if st_mode stage = Rate \<and> f_lt (Fin 0) value then Healthy else Unknown, True)
          else (progress, Unknown, False))"

definition stage_key :: "job \<Rightarrow> flow \<Rightarrow> flow_stage \<Rightarrow> string" where
  "stage_key j fl stage =
     t_name (j_target j) @ ''/flows/'' @ fl_name fl @ ''/'' @ st_name stage"

definition stage_step ::
  "snapshot \<Rightarrow> job \<Rightarrow> instant \<Rightarrow> flow \<Rightarrow> (f64 \<times> instant) option \<Rightarrow> flow_stage \<Rightarrow>
     (string, progress) bmap \<Rightarrow> (string, progress) bmap \<times> observation \<times> bool" where
  "stage_step sn j now fl demand stage progress =
     (let key = stage_key j fl stage;
          reading = signal sn j (st_progress stage) now;
          (progress', h, t, ok) =
            (if t_expected (j_target j) \<noteq> Active then (progress, ExpectedInactive, now, True)
             else case demand of
               None \<Rightarrow> (progress, Unknown, now, False)
             | Some (wanted, demand_at) \<Rightarrow>
                 if f_le wanted (Fin 0) then (bm_del key progress, ExpectedInactive, demand_at, True)
                 else (case reading of
                         None \<Rightarrow> (progress, Unknown, now, False)
                       | Some (value, at') \<Rightarrow>
                           (let t = min at' demand_at;
                                (progress', h, ok) = stage_progress j fl stage key value t progress
                            in if is_some_and (\<lambda>w. \<not> workload_known sn j w now) (st_workload stage)
                               then (progress', Unknown, t, False)
                               else (progress', h, t, ok))))
      in (progress',
          \<lparr>o_context = None, o_resource = key, o_operation = ''flow/'' @ fl_name fl,
           o_observed_at = t, o_expected = t_expected (j_target j), o_data = Progress h\<rparr>, ok))"

fun stage_steps ::
  "snapshot \<Rightarrow> job \<Rightarrow> instant \<Rightarrow> flow \<Rightarrow> (f64 \<times> instant) option \<Rightarrow> flow_stage list \<Rightarrow>
     (string, progress) bmap \<Rightarrow> (string, progress) bmap \<times> observation list \<times> bool" where
  "stage_steps sn j now fl demand [] progress = (progress, [], True)"
| "stage_steps sn j now fl demand (stage # stages) progress =
     (case stage_step sn j now fl demand stage progress of
        (progress', obs, ok) \<Rightarrow>
          (case stage_steps sn j now fl demand stages progress' of
             (progress'', obss, ok') \<Rightarrow> (progress'', obs # obss, ok \<and> ok')))"

fun flow_steps ::
  "snapshot \<Rightarrow> job \<Rightarrow> instant \<Rightarrow> flow list \<Rightarrow> (string, progress) bmap \<Rightarrow>
     (string, progress) bmap \<times> operation list \<times> observation list" where
  "flow_steps sn j now [] progress = (progress, [], [])"
| "flow_steps sn j now (fl # fls) progress =
     (case stage_steps sn j now fl (signal sn j (fl_demand fl) now) (fl_stages fl) progress of
        (progress', obss, ok) \<Rightarrow>
          (case flow_steps sn j now fls progress' of
             (progress'', ps, obss') \<Rightarrow>
               (progress'',
                \<lparr>op_id = ''flow/'' @ fl_name fl, op_coverage = (if ok then Complete else Missing),
                 op_observed_at = now, op_records = length (fl_stages fl), op_pages = 0,
                 op_attempts = 0, op_required = True\<rparr> # ps,
                obss @ obss')))"

definition flows_evaluate ::
  "ext \<Rightarrow> snapshot \<Rightarrow> job \<Rightarrow> instant \<Rightarrow> (string, progress) bmap \<times> check_result" where
  "flows_evaluate x sn j now =
     (let r = result_failure (t_name (j_target j)) CFlows (j_revision j) Missing (x_wall x)
      in if t_flows (j_target j) = []
         then (sn_progress sn, r\<lparr>r_operations :=
                 map (\<lambda>p. p\<lparr>op_id := ''flow-configuration''\<rparr>) (r_operations r)\<rparr>)
         else (case flow_steps sn j now (t_flows (j_target j)) (sn_progress sn) of
                 (progress, ps, obss) \<Rightarrow>
                   (progress, r\<lparr>r_operations := ps, r_observations := obss, r_finished_at := now\<rparr>)))"

section \<open>Lemmas\<close>

lemma stage_progress_entries:
  assumes "bm_wf progress" and "stage_progress j fl stage key value t progress = (progress', h, ok)"
    and "length progress \<le> s_max_findings (j_settings j)"
  shows "bm_wf progress' \<and> length progress' \<le> s_max_findings (j_settings j)"
  using assms
  by (auto simp: stage_progress_def Let_def bm.ok_put bm.size_put split: option.splits if_splits)

lemma stage_step_entries:
  assumes "bm_wf progress" and "stage_step sn j now fl demand stage progress = (progress', obs, ok)"
    and "length progress \<le> s_max_findings (j_settings j)"
  shows "bm_wf progress' \<and> length progress' \<le> s_max_findings (j_settings j)"
  using assms
  by (auto simp: stage_step_def Let_def bm.ok_del le_trans [OF bm.size_del_le]
      split: option.splits if_splits prod.splits dest: stage_progress_entries)

lemma stage_steps_entries:
  "bm_wf progress \<Longrightarrow> stage_steps sn j now fl demand stages progress = (progress', obss, ok) \<Longrightarrow>
     length progress \<le> s_max_findings (j_settings j) \<Longrightarrow>
     bm_wf progress' \<and> length progress' \<le> s_max_findings (j_settings j)"
proof (induction stages arbitrary: progress obss ok)
  case (Cons stage stages)
  obtain p1 obs ok1 where one: "stage_step sn j now fl demand stage progress = (p1, obs, ok1)"
    by (metis prod_cases3)
  obtain p2 obss2 ok2 where rest: "stage_steps sn j now fl demand stages p1 = (p2, obss2, ok2)"
    by (metis prod_cases3)
  have "progress' = p2" using Cons.prems(2) one rest by simp
  with Cons.IH [of p1 obss2 ok2] rest stage_step_entries [OF Cons.prems(1) one Cons.prems(3)]
  show ?case by simp
qed simp

lemma flow_steps_entries:
  "bm_wf progress \<Longrightarrow> flow_steps sn j now fls progress = (progress', ps, obss) \<Longrightarrow>
     length progress \<le> s_max_findings (j_settings j) \<Longrightarrow>
     bm_wf progress' \<and> length progress' \<le> s_max_findings (j_settings j)"
proof (induction fls arbitrary: progress ps obss)
  case (Cons fl fls)
  let ?demand = "signal sn j (fl_demand fl) now"
  obtain p1 obs1 ok1 where one: "stage_steps sn j now fl ?demand (fl_stages fl) progress = (p1, obs1, ok1)"
    by (metis prod_cases3)
  obtain p2 ps2 obss2 where rest: "flow_steps sn j now fls p1 = (p2, ps2, obss2)"
    by (metis prod_cases3)
  have "progress' = p2" using Cons.prems(2) one rest by simp
  with Cons.IH [of p1 ps2 obss2] rest stage_steps_entries [OF Cons.prems(1) one Cons.prems(3)]
  show ?case by simp
qed simp

end
