(* ===== verification/State.thy ===== *)
theory State
  imports Evaluate Eval_Index Releases Flows
begin

text \<open>
  \<open>State::apply\<close> of \<open>crates/core/src/state.rs\<close>: one collected result enters the
  snapshot. The operation is split where the source's blocks are: the job is
  registered, the result prepared, each observation judged and its findings recorded,
  each older finding visited (cleared, confirmed for removal or left alone), the
  removed findings retired, and expired evidence marked stale. \<open>expire\<close> and
  \<open>trim_retired\<close> are the ones of \<open>state_lifecycle.rs\<close>.
\<close>

section \<open>Registration and preparation\<close>

definition register_job :: "job \<Rightarrow> snapshot \<Rightarrow> snapshot" where
  "register_job j sn =
     sn\<lparr>sn_samples := bm_put (j_key j)
          (sat_add32 (unwrap_or 0 (bm_get (sn_samples sn) (j_key j))) 1) (sn_samples sn),
        sn_regions := bm_put (t_name (j_target j)) (t_regions (j_target j)) (sn_regions sn),
        sn_collection_only :=
          (if j_assess_health j then filter (\<lambda>k. k \<noteq> j_key j) (sn_collection_only sn)
           else bs_insert (j_key j) (sn_collection_only sn)),
        sn_scope_fingerprints :=
          bm_put (j_key j) (observation_scope j) (sn_scope_fingerprints sn)\<rparr>"

definition other_results :: "job \<Rightarrow> snapshot \<Rightarrow> check_result list" where
  "other_results j sn = map snd (filter (\<lambda>(k, _). k \<noteq> j_key j) (sn_results sn))"

definition other_bytes :: "ext \<Rightarrow> job \<Rightarrow> snapshot \<Rightarrow> usize" where
  "other_bytes x j sn = fold (\<lambda>r n. sat_add64 n (result_bytes x r)) (other_results j sn) 0"

definition other_assets :: "job \<Rightarrow> snapshot \<Rightarrow> usize" where
  "other_assets j sn = sum_list (map (\<lambda>r. length (r_observations r)) (other_results j sn))"

text \<open>The evidence passes, in the order of the source.\<close>

definition prepare_result :: "ext \<Rightarrow> job \<Rightarrow> snapshot \<Rightarrow> check_result \<Rightarrow> instant \<Rightarrow> check_result" where
  "prepare_result x j sn r now =
     (let r = retain_partial x j sn r;
          r = reconcile_logs j sn r;
          r = truncate_result x (s_memory_bytes (j_settings j) div 2 - other_bytes x j sn)
                (s_max_assets (j_settings j)) r;
          r = r\<lparr>r_observations := mark_retries (r_observations r)\<rparr>;
          r = correlate r;
          r = r\<lparr>r_observations := consolidate (r_observations r)\<rparr>
      in validate_source (job_freshness j) now r)"

text \<open>What a flow or release job evaluates replaces or extends the collected result.\<close>

definition derive_result ::
  "ext \<Rightarrow> job \<Rightarrow> snapshot \<Rightarrow> check_result \<Rightarrow> instant \<Rightarrow> snapshot \<times> check_result" where
  "derive_result x j sn r now =
     (let (sn, r) = (if j_check j = CFlows
                     then (case flows_evaluate x sn j now of
                             (progress, r) \<Rightarrow> (sn\<lparr>sn_progress := progress\<rparr>, r))
                     else (sn, r));
          r = (if j_check j = CReleases \<and> \<not> j_artifact_only j then enrich x sn j r now else r)
      in (sn, r))"

text \<open>The last bound: all retained observations together stay within \<open>max_assets\<close>.\<close>

definition fit_assets :: "usize \<Rightarrow> check_result \<Rightarrow> check_result" where
  "fit_assets remaining r =
     (if remaining < length (r_observations r)
      then truncate_coverage (r\<lparr>r_observations := take remaining (r_observations r)\<rparr>)
      else r)"

section \<open>Judging the observations\<close>

record applying =
  a_snapshot :: snapshot
  a_operations :: "operation list"
  a_index :: index
  a_current :: "string set"
  a_diagnostic_bytes :: usize
  a_transitions :: "transition list"

definition assessed :: "job \<Rightarrow> observation \<Rightarrow> bool" where
  "assessed j obs \<longleftrightarrow> j_assess_health j \<and>
     (j_check j \<noteq> CReleases \<or>
      (case o_data obs of
         Build _ _ _ _ _ _ \<Rightarrow> True
       | Provenance _ _ _ _ _ _ _ _ _ _ \<Rightarrow> True
       | _ \<Rightarrow> False))"

definition finding_until :: "ext \<Rightarrow> job \<Rightarrow> instant \<Rightarrow> instant option" where
  "finding_until x j t = x_add_secs x t (as_i64 (job_freshness j))"

text \<open>The finding as it will be stored, before its diagnostic is attached.\<close>

definition stamp_finding :: "ext \<Rightarrow> job \<Rightarrow> observation \<Rightarrow> finding \<Rightarrow> finding" where
  "stamp_finding x j obs f =
     (let until = finding_until x j (f_observed_at f);
          until = (case o_data obs of
                     Provenance valid_until _ _ _ _ _ _ _ _ _ \<Rightarrow> map_option (\<lambda>t. min t valid_until) until
                   | _ \<Rightarrow> until)
      in f\<lparr>f_check := Some (j_check j), f_valid_until := until,
           f_severity := unwrap_or (f_severity f) (bm_get (j_severity j) (f_rule f)),
           f_clear_count := 0\<rparr>)"

definition diagnostic_grace :: "job \<Rightarrow> observation \<Rightarrow> u64" where
  "diagnostic_grace j obs =
     (case o_data obs of
        Workload _ _ _ _ True \<Rightarrow> s_node_grace (j_settings j)
      | _ \<Rightarrow> s_rollout_grace (j_settings j))"

definition transition_for :: "snapshot \<Rightarrow> finding option \<Rightarrow> finding \<Rightarrow> transition_kind option" where
  "transition_for sn previous f =
     (case previous of
        None \<Rightarrow> Some (if bm_has (sn_retired sn) (f_id f) then TReappeared else TNew)
      | Some old \<Rightarrow>
          if f_stale old then Some TReappeared
          else if f_severity old < f_severity f then Some TWorsened
          else None)"

definition record_finding ::
  "ext \<Rightarrow> job \<Rightarrow> observation \<Rightarrow> observation option \<Rightarrow> instant \<Rightarrow> finding \<Rightarrow> applying \<Rightarrow> applying" where
  "record_finding x j obs prior now f st =
     (let f = stamp_finding x j obs f;
          sn = a_snapshot st;
          previous = bm_get (sn_findings sn) (f_id f);
          (d, remaining) = admit_diagnostic x
            (capture_diagnostic obs prior previous (diagnostic_grace j obs)) previous
            (a_diagnostic_bytes st);
          f = f\<lparr>f_diagnostic := d\<rparr>;
          st = st\<lparr>a_current := insert (f_id f) (a_current st), a_diagnostic_bytes := remaining\<rparr>
      in if previous = None \<and> s_max_findings (j_settings j) \<le> length (sn_findings sn)
         then st\<lparr>a_operations := map (demote Truncated) (a_operations st)\<rparr>
         else st\<lparr>a_transitions := a_transitions st @
                   (case transition_for sn previous f of
                      None \<Rightarrow> []
                    | Some kind \<Rightarrow> [\<lparr>tr_at = now, tr_finding = f_id f, tr_kind = kind\<rparr>]),
                 a_snapshot := sn\<lparr>sn_retired := bm_del (f_id f) (sn_retired sn),
                   sn_findings := bm_put (f_id f) f (sn_findings sn)\<rparr>\<rparr>)"

definition judgement ::
  "ext \<Rightarrow> job \<Rightarrow> instant \<Rightarrow> observation \<Rightarrow> applying \<Rightarrow> (string, pressure) bmap \<times> evaluation" where
  "judgement x j now obs st =
     (if assessed j obs
      then judge_with_pressure x (sn_pressure (a_snapshot st)) obs (index_prior (a_index st) obs)
             (j_settings j) (index_complete (a_index st) obs) now
      else (sn_pressure (a_snapshot st), result Unknown))"

text \<open>A clear verdict of an incomplete operation is recorded as \<open>Unknown\<close>.\<close>

definition recorded_health :: "index \<Rightarrow> observation \<Rightarrow> health \<Rightarrow> health" where
  "recorded_health ix obs h = (if \<not> index_complete ix obs \<and> clear_health h then Unknown else h)"

definition observe :: "ext \<Rightarrow> job \<Rightarrow> instant \<Rightarrow> observation \<Rightarrow> applying \<Rightarrow> applying" where
  "observe x j now obs st =
     (let sn = a_snapshot st;
          (pressure, ev) = judgement x j now obs st;
          hs = (if assessed j obs \<and> is_health_evidence (o_data obs)
                then bm_put (o_resource obs) (recorded_health (a_index st) obs (ev_health ev)) (sn_health sn)
                else sn_health sn)
      in st\<lparr>a_snapshot := sn\<lparr>sn_pressure := pressure, sn_health := hs\<rparr>,
            a_index := record_clear obs (ev_health ev) (a_index st)\<rparr>)"

definition judge_observation :: "ext \<Rightarrow> job \<Rightarrow> instant \<Rightarrow> observation \<Rightarrow> applying \<Rightarrow> applying" where
  "judge_observation x j now obs st =
     fold (record_finding x j obs (index_prior (a_index st) obs) now)
       (ev_findings (snd (judgement x j now obs st))) (observe x j now obs st)"

section \<open>Visiting the older findings\<close>

record visiting =
  v_confirmations :: "(string, removal_confirmation) bmap"
  v_transitions :: "transition list"
  v_removed :: "(string \<times> transition_kind) list"

definition confirmation_key :: "job \<Rightarrow> string \<Rightarrow> string" where
  "confirmation_key j i = j_key j @ ''|'' @ i"

text \<open>What the visit reads of the result and the snapshot before it.\<close>

record visit_view =
  w_result :: check_result
  w_index :: index
  w_current :: "string set"
  w_old_resources :: "string set"
  w_new_resources :: "string set"

definition evidence_time :: "check_result \<Rightarrow> finding \<Rightarrow> instant" where
  "evidence_time r f =
     unwrap_or (r_started_at r) (list_max (map op_observed_at
       (filter (\<lambda>p. op_id p \<in> set (f_evidence f)) (r_operations r))))"

definition confirm_removal :: "check_result \<Rightarrow> finding \<Rightarrow> removal_confirmation option \<Rightarrow> removal_confirmation" where
  "confirm_removal r f prior =
     (let t = evidence_time r f;
          c = unwrap_or \<lparr>rm_count = 0, rm_last_at = f_observed_at f\<rparr> prior
      in if rm_last_at c < t then \<lparr>rm_count = sat_add32 (rm_count c) 1, rm_last_at = t\<rparr> else c)"

definition removable ::
  "job \<Rightarrow> visit_view \<Rightarrow> (string, removal_confirmation) bmap \<Rightarrow> string \<Rightarrow> finding \<Rightarrow> bool" where
  "removable j w confirmations i f \<longleftrightarrow>
     (j_check j = CInventory \<or> j_check j = CKubernetes) \<and> can_remove (w_index w) f \<and>
     (f_resource f \<in> w_old_resources w \<or> bm_has confirmations (confirmation_key j i)) \<and>
     f_resource f \<notin> w_new_resources w \<and> in_target j (f_resource f)"

definition retire :: "instant \<Rightarrow> string \<Rightarrow> transition_kind \<Rightarrow> visiting \<Rightarrow> visiting" where
  "retire now i kind v =
     v\<lparr>v_transitions := v_transitions v @ [\<lparr>tr_at = now, tr_finding = i, tr_kind = kind\<rparr>],
       v_removed := v_removed v @ [(i, kind)]\<rparr>"

definition visit_finding ::
  "ext \<Rightarrow> job \<Rightarrow> instant \<Rightarrow> visit_view \<Rightarrow> string \<Rightarrow> finding \<Rightarrow> visiting \<Rightarrow> finding \<times> visiting" where
  "visit_finding x j now w i f v =
     (let key = confirmation_key j i;
          v = (if f_resource f \<in> w_new_resources w
               then v\<lparr>v_confirmations := bm_del key (v_confirmations v)\<rparr> else v)
      in if i \<in> w_current w then (f, v)
         else case clear_time (w_index w) f of
                Some t \<Rightarrow>
                  (let f = f\<lparr>f_clear_count := sat_add32 (f_clear_count f) 1, f_observed_at := t,
                            f_valid_until := finding_until x j t, f_stale := False\<rparr>
                   in (f, if s_recover_confirmations (j_settings j) \<le> f_clear_count f
                          then retire now i TRecovered v else v))
              | None \<Rightarrow>
                  if removable j w (v_confirmations v) i f then
                    (let c = confirm_removal (w_result w) f (bm_get (v_confirmations v) key);
                         v = v\<lparr>v_confirmations := bm_put key c (v_confirmations v)\<rparr>
                     in (f, if s_removal_confirmations (j_settings j) \<le> rm_count c
                            then retire now i TRemoved v else v))
                  else (f, v))"

fun visit_findings ::
  "ext \<Rightarrow> job \<Rightarrow> instant \<Rightarrow> visit_view \<Rightarrow> (string \<times> finding) list \<Rightarrow> visiting \<Rightarrow>
     (string \<times> finding) list \<times> visiting" where
  "visit_findings x j now w [] v = ([], v)"
| "visit_findings x j now w ((i, f) # fs) v =
     (case visit_finding x j now w i f v of
        (f', v') \<Rightarrow> (case visit_findings x j now w fs v' of
           (fs', v'') \<Rightarrow> ((i, f') # fs', v'')))"

text \<open>The loop over \<open>removed\<close>.\<close>

definition remove_finding :: "instant \<Rightarrow> string \<times> transition_kind \<Rightarrow> snapshot \<Rightarrow> snapshot" where
  "remove_finding now ik sn =
     (case ik of (i, kind) \<Rightarrow>
       sn\<lparr>sn_findings := bm_del i (sn_findings sn),
          sn_confirmations := bm_retain (\<lambda>k _. \<not> ends_with k (''|'' @ i)) (sn_confirmations sn),
          sn_retired := bm_put i \<lparr>tr_at = now, tr_finding = i, tr_kind = kind\<rparr> (sn_retired sn)\<rparr>)"

section \<open>Trimming and expiry, \<open>state_lifecycle.rs\<close>\<close>

definition trim_retired :: "usize \<Rightarrow> snapshot \<Rightarrow> snapshot" where
  "trim_retired limit sn =
     (let excess = length (sn_retired sn) - limit;
          oldest = sort (map (\<lambda>(k, t). (tr_at t, k)) (sn_retired sn))
      in if excess = 0 then sn
         else sn\<lparr>sn_retired := fold (\<lambda>(_, k). bm_del k) (take excess oldest) (sn_retired sn)\<rparr>)"

definition outlived :: "observation \<Rightarrow> u64 \<Rightarrow> instant \<Rightarrow> bool" where
  "outlived obs limit now \<longleftrightarrow>
     as_i64 limit < elapsed now (o_observed_at obs) \<or>
     (case o_data obs of Provenance valid_until _ _ _ _ _ _ _ _ _ \<Rightarrow> valid_until < now | _ \<Rightarrow> False)"

definition expire_operation :: "u64 \<Rightarrow> instant \<Rightarrow> operation \<Rightarrow> operation" where
  "expire_operation limit now p =
     (if as_i64 limit < elapsed now (op_observed_at p) then demote Stale p else p)"

definition expire_observation ::
  "u64 \<Rightarrow> instant \<Rightarrow> observation \<Rightarrow> operation list \<times> (string, health) bmap \<Rightarrow>
     operation list \<times> (string, health) bmap" where
  "expire_observation limit now obs st =
     (case st of (ps, hs) \<Rightarrow>
        if outlived obs limit now \<and> bm_has hs (o_resource obs)
        then (set_coverage (o_operation obs) (demote Stale) ps, bm_put (o_resource obs) Unknown hs)
        else (ps, hs))"

definition expire_result ::
  "u64 \<Rightarrow> instant \<Rightarrow> check_result \<Rightarrow> (string, health) bmap \<Rightarrow> check_result \<times> (string, health) bmap" where
  "expire_result limit now r hs =
     (case fold (expire_observation limit now) (r_observations r)
             (map (expire_operation limit now) (r_operations r), hs) of
        (ps, hs') \<Rightarrow> (r\<lparr>r_operations := ps\<rparr>, hs'))"

fun expire_results ::
  "(string, u64) bmap \<Rightarrow> u64 \<Rightarrow> instant \<Rightarrow> (string, check_result) bmap \<Rightarrow> (string, health) bmap \<Rightarrow>
     (string, check_result) bmap \<times> (string, health) bmap" where
  "expire_results fresh limit now [] hs = ([], hs)"
| "expire_results fresh limit now ((k, r) # rs) hs =
     (case expire_result (unwrap_or limit (bm_get fresh k)) now r hs of
        (r', hs') \<Rightarrow> (case expire_results fresh limit now rs hs' of
           (rs', hs'') \<Rightarrow> ((k, r') # rs', hs'')))"

definition finding_expired :: "u64 \<Rightarrow> instant \<Rightarrow> finding \<Rightarrow> bool" where
  "finding_expired limit now f \<longleftrightarrow>
     \<not> f_stale f \<and>
     (case f_valid_until f of
        None \<Rightarrow> as_i64 limit < elapsed now (f_observed_at f)
      | Some until \<Rightarrow> until < now)"

definition expire_finding :: "u64 \<Rightarrow> instant \<Rightarrow> finding \<Rightarrow> finding" where
  "expire_finding limit now f = (if finding_expired limit now f then f\<lparr>f_stale := True\<rparr> else f)"

definition expire :: "u64 \<Rightarrow> instant \<Rightarrow> snapshot \<Rightarrow> snapshot \<times> transition list" where
  "expire limit now sn =
     (case expire_results (sn_freshness sn) limit now (sn_results sn) (sn_health sn) of
        (rs, hs) \<Rightarrow>
          (sn\<lparr>sn_results := rs, sn_health := hs,
              sn_findings := bm_mapv (\<lambda>_. expire_finding limit now) (sn_findings sn)\<rparr>,
           map (\<lambda>f. \<lparr>tr_at = now, tr_finding = f_id f, tr_kind = TStale\<rparr>)
             (filter (finding_expired limit now) (map snd (sn_findings sn)))))"

section \<open>\<open>State::apply\<close>\<close>

definition diagnostic_budget :: "ext \<Rightarrow> job \<Rightarrow> snapshot \<Rightarrow> usize" where
  "diagnostic_budget x j sn =
     s_memory_bytes (j_settings j) div 4 -
     sum_list (map (diagnostic_bytes x) (List.map_filter (\<lambda>(_, f). f_diagnostic f) (sn_findings sn)))"

definition observed_resources :: "snapshot \<Rightarrow> string set" where
  "observed_resources sn =
     set (concat (map (\<lambda>(_, r). map o_resource (r_observations r)) (sn_results sn)))"

text \<open>The observations are judged in order; the result's operations are the ones the findings
  limit may have truncated meanwhile.\<close>

definition judge_result ::
  "ext \<Rightarrow> job \<Rightarrow> instant \<Rightarrow> snapshot \<Rightarrow> check_result \<Rightarrow> check_result \<Rightarrow> applying" where
  "judge_result x j now sn whole r =
     fold (judge_observation x j now) (r_observations r)
       \<lparr>a_snapshot = sn, a_operations = r_operations r,
        a_index = new_index (bm_get (sn_results sn) (j_key j)) whole, a_current = {},
        a_diagnostic_bytes = diagnostic_budget x j sn, a_transitions = []\<rparr>"

definition settle ::
  "ext \<Rightarrow> job \<Rightarrow> instant \<Rightarrow> check_result option \<Rightarrow> check_result \<Rightarrow> applying \<Rightarrow> snapshot \<times> transition list" where
  "settle x j now old r st =
     (let sn = a_snapshot st;
          (ix, hs) = reconcile_index r (a_index st) (sn_health sn);
          w = \<lparr>w_result = r, w_index = ix, w_current = a_current st,
               w_old_resources = (case old of None \<Rightarrow> {} | Some q \<Rightarrow> set (map o_resource (r_observations q))),
               w_new_resources = set (map o_resource (r_observations r))\<rparr>;
          (fs, v) = visit_findings x j now w (sn_findings sn)
            \<lparr>v_confirmations = sn_confirmations sn, v_transitions = a_transitions st, v_removed = []\<rparr>;
          sn = sn\<lparr>sn_health := hs, sn_findings := fs, sn_confirmations := v_confirmations v\<rparr>;
          sn = fold (remove_finding now) (v_removed v) sn;
          sn = trim_retired (s_max_findings (j_settings j)) sn;
          sn = sn\<lparr>sn_results := bm_put (j_key j) r (sn_results sn)\<rparr>;
          seen = observed_resources sn;
          sn = sn\<lparr>sn_health := bm_retain (\<lambda>k _. k \<in> seen) (sn_health sn),
                  sn_pressure := bm_retain (\<lambda>k _. k \<in> seen) (sn_pressure sn),
                  sn_captured_at := now, sn_revision := j_revision j\<rparr>;
          (sn, stale) = expire (job_freshness j) now sn
      in (sn, v_transitions v @ stale))"

definition admit_result ::
  "ext \<Rightarrow> job \<Rightarrow> check_result \<Rightarrow> instant \<Rightarrow> snapshot \<Rightarrow> snapshot \<times> check_result \<times> check_result" where
  "admit_result x j r now sn =
     (let (sn, r) = derive_result x j (register_job j sn) r now;
          whole = prepare_result x j sn r now;
          sn = sn\<lparr>sn_freshness := bm_put (j_key j) (job_freshness j) (sn_freshness sn)\<rparr>
      in (sn, whole, fit_assets (s_max_assets (j_settings j) - other_assets j sn) whole))"

text \<open>Everything up to the derived flow evaluation.\<close>

definition apply_core ::
  "ext \<Rightarrow> job \<Rightarrow> check_result \<Rightarrow> instant \<Rightarrow> snapshot \<Rightarrow> snapshot \<times> transition list" where
  "apply_core x j r now sn =
     (case admit_result x j r now sn of
        (sn, whole, r) \<Rightarrow>
          (let st = judge_result x j now sn whole r
           in settle x j now (bm_get (sn_results sn) (j_key j))
                (r\<lparr>r_operations := a_operations st\<rparr>) st))"

text \<open>\<open>State::apply_derived\<close> keeps the sample count of its key.\<close>

definition keep_samples :: "job \<Rightarrow> snapshot \<Rightarrow> snapshot \<Rightarrow> snapshot" where
  "keep_samples j before after =
     after\<lparr>sn_samples :=
       (case bm_get (sn_samples before) (j_key j) of
          Some n \<Rightarrow> bm_put (j_key j) n (sn_samples after)
        | None \<Rightarrow> bm_del (j_key j) (sn_samples after))\<rparr>"

definition flow_job :: "job \<Rightarrow> job" where
  "flow_job j =
     j\<lparr>j_settings := unwrap_or (j_settings j) (j_flow_settings j),
       j_key := t_name (j_target j) @ ''/Flows'', j_check := CFlows, j_flows_enabled := False\<rparr>"

text \<open>The derived job has flows disabled, so the recursion of \<open>apply\<close> through
  \<open>apply_derived\<close> is one level deep: its inner \<open>apply\<close> is \<open>apply_core\<close>. The caller's own
  flow evaluation, whose progress the inner one continues, comes first.\<close>

definition apply_result ::
  "ext \<Rightarrow> job \<Rightarrow> check_result \<Rightarrow> instant \<Rightarrow> snapshot \<Rightarrow> snapshot \<times> transition list" where
  "apply_result x j r now sn =
     (case apply_core x j r now sn of
        (sn1, ts) \<Rightarrow>
          if j_flows_enabled j \<and> j_check j \<noteq> CFlows then
            (let fj = flow_job j in
             case flows_evaluate x sn1 fj now of
               (progress, fr) \<Rightarrow>
                 (let sn2 = sn1\<lparr>sn_progress := progress\<rparr> in
                  case apply_core x fj fr now sn2 of
                    (sn3, ts') \<Rightarrow> (keep_samples fj sn2 sn3, ts @ ts')))
          else (sn1, ts))"

definition apply_derived ::
  "ext \<Rightarrow> job \<Rightarrow> check_result \<Rightarrow> instant \<Rightarrow> snapshot \<Rightarrow> snapshot \<times> transition list" where
  "apply_derived x j r now sn =
     (case apply_result x j r now sn of (sn', ts) \<Rightarrow> (keep_samples j sn sn', ts))"

end
