(* ===== verification/State_Facts.thy ===== *)
theory State_Facts
  imports State
begin

text \<open>
  The lemmas of \<open>State::apply\<close>. \<open>snapshot_ok\<close> is the well-formedness of a snapshot; the
  locale \<open>snapshot_step\<close> is the contract of every operation on it, and its
  interpretations discharge the contract block by block. The other groups say what
  each block may do to a finding, to the coverage of a result and to the health map.
\<close>

section \<open>Well-formed snapshots\<close>

definition snapshot_ok :: "snapshot \<Rightarrow> bool" where
  "snapshot_ok sn \<longleftrightarrow>
     bm_wf (sn_findings sn) \<and> bm_wf (sn_retired sn) \<and> bm_wf (sn_health sn) \<and>
     bm_wf (sn_results sn) \<and> bm_wf (sn_confirmations sn) \<and>
     (\<forall>i f. bm_get (sn_findings sn) i = Some f \<longrightarrow> f_id f = i \<and> \<not> bm_has (sn_retired sn) i)"

text \<open>An operation on snapshots keeps them well formed and never retires more findings than
  its bound allows: the contract the components rely on.\<close>

locale snapshot_step =
  fixes step :: "snapshot \<Rightarrow> snapshot"
  assumes keeps: "snapshot_ok sn \<Longrightarrow> snapshot_ok (step sn)"
begin

lemma keeps_power: "snapshot_ok sn \<Longrightarrow> snapshot_ok ((step ^^ n) sn)"
  by (induction n) (auto intro: keeps)

lemma findings_keyed: "snapshot_ok sn \<Longrightarrow> bm_get (sn_findings (step sn)) i = Some f \<Longrightarrow> f_id f = i"
  using keeps [of sn] by (simp add: snapshot_ok_def)

lemma retired_is_gone:
  "snapshot_ok sn \<Longrightarrow> bm_has (sn_retired (step sn)) i \<Longrightarrow> \<not> bm_has (sn_findings (step sn)) i"
  using keeps [of sn] by (cases "bm_get (sn_findings (step sn)) i") (auto simp: snapshot_ok_def)

end

lemma fold_keeps_snapshot:
  assumes "\<And>a sn. snapshot_ok sn \<Longrightarrow> snapshot_ok (f a sn)"
  shows "snapshot_ok sn \<Longrightarrow> snapshot_ok (fold f xs sn)"
  using assms by (induction xs arbitrary: sn) auto

text \<open>Only the maps \<open>snapshot_ok\<close> names matter to it.\<close>

lemma snapshot_ok_cong:
  assumes "sn_findings b = sn_findings a" and "sn_retired b = sn_retired a"
    and "sn_health b = sn_health a" and "sn_results b = sn_results a"
    and "sn_confirmations b = sn_confirmations a"
  shows "snapshot_ok b = snapshot_ok a"
  using assms by (simp add: snapshot_ok_def)

lemma snapshot_ok_frame [simp]:
  "snapshot_ok (sn\<lparr>sn_pressure := p\<rparr>) = snapshot_ok sn"
  "snapshot_ok (sn\<lparr>sn_freshness := m\<rparr>) = snapshot_ok sn"
  "snapshot_ok (sn\<lparr>sn_progress := g\<rparr>) = snapshot_ok sn"
  "snapshot_ok (sn\<lparr>sn_samples := n\<rparr>) = snapshot_ok sn"
  "snapshot_ok (sn\<lparr>sn_captured_at := t\<rparr>) = snapshot_ok sn"
  "snapshot_ok (sn\<lparr>sn_revision := r\<rparr>) = snapshot_ok sn"
  by (rule snapshot_ok_cong; simp)+

section \<open>Recording findings\<close>

lemma f_id_stamp [simp]: "f_id (stamp_finding x j obs f) = f_id f"
  by (simp add: stamp_finding_def Let_def)

lemma record_finding_current [simp]:
  "a_current (record_finding x j obs prior now f st) = insert (f_id f) (a_current st)"
  by (simp add: record_finding_def Let_def split: prod.split)

lemma record_finding_index [simp]:
  "a_index (record_finding x j obs prior now f st) = a_index st"
  by (simp add: record_finding_def Let_def split: prod.split)

lemma record_finding_frame [simp]:
  "sn_health (a_snapshot (record_finding x j obs prior now f st)) = sn_health (a_snapshot st)"
  "sn_results (a_snapshot (record_finding x j obs prior now f st)) = sn_results (a_snapshot st)"
  "sn_confirmations (a_snapshot (record_finding x j obs prior now f st)) = sn_confirmations (a_snapshot st)"
  by (simp_all add: record_finding_def Let_def split: prod.split)

lemma record_finding_other:
  "i \<noteq> f_id f \<Longrightarrow>
     bm_get (sn_findings (a_snapshot (record_finding x j obs prior now f st))) i =
     bm_get (sn_findings (a_snapshot st)) i"
  by (simp add: record_finding_def Let_def bm.get_put split: prod.split)

lemma record_finding_present:
  "bm_has (sn_findings (a_snapshot st)) i \<Longrightarrow>
     bm_has (sn_findings (a_snapshot (record_finding x j obs prior now f st))) i"
  by (cases "i = f_id f") (auto simp: record_finding_def Let_def bm.get_put split: prod.split)

lemma record_finding_length:
  "bm_wf (sn_findings (a_snapshot st)) \<Longrightarrow>
     length (sn_findings (a_snapshot (record_finding x j obs prior now f st)))
       \<le> max (length (sn_findings (a_snapshot st))) (s_max_findings (j_settings j))"
  by (auto simp: record_finding_def Let_def bm.size_put split: prod.split)

lemma record_finding_ok:
  "snapshot_ok (a_snapshot st) \<Longrightarrow> snapshot_ok (a_snapshot (record_finding x j obs prior now f st))"
  by (auto simp: record_finding_def Let_def snapshot_ok_def bm.get_put bm.ok_put bm.ok_del bm.get_del
      split: prod.split if_splits)

section \<open>Judging observations\<close>

definition op_ids_complete :: "operation list \<Rightarrow> string set" where
  "op_ids_complete ps = set (map op_id (filter (\<lambda>p. op_coverage p = Complete) ps))"

lemma op_ids_complete_result: "op_ids_complete (r_operations r) = complete_ids r"
  by (simp add: op_ids_complete_def complete_ids_def)

lemma op_ids_complete_demoted:
  "c \<noteq> Complete \<Longrightarrow> op_ids_complete (map (demote c) ps) = {}"
  by (auto simp: op_ids_complete_def)

lemma record_finding_operations:
  "op_ids_complete (a_operations (record_finding x j obs prior now f st))
     \<subseteq> op_ids_complete (a_operations st)"
  by (auto simp: record_finding_def Let_def op_ids_complete_demoted split: prod.split)

lemma observe_frame [simp]:
  "sn_findings (a_snapshot (observe x j now obs st)) = sn_findings (a_snapshot st)"
  "sn_retired (a_snapshot (observe x j now obs st)) = sn_retired (a_snapshot st)"
  "sn_results (a_snapshot (observe x j now obs st)) = sn_results (a_snapshot st)"
  "sn_confirmations (a_snapshot (observe x j now obs st)) = sn_confirmations (a_snapshot st)"
  "a_operations (observe x j now obs st) = a_operations st"
  "a_current (observe x j now obs st) = a_current st"
  "a_transitions (observe x j now obs st) = a_transitions st"
  by (simp_all add: observe_def Let_def split: prod.split)

lemma observe_ok: "snapshot_ok (a_snapshot st) \<Longrightarrow> snapshot_ok (a_snapshot (observe x j now obs st))"
  by (auto simp: observe_def Let_def snapshot_ok_def bm.ok_put split: prod.split)

lemma fold_record_rule:
  assumes "\<And>f st. P st \<Longrightarrow> P (record_finding x j obs prior now f st)"
  shows "P st \<Longrightarrow> P (fold (record_finding x j obs prior now) fs st)"
  using assms by (induction fs arbitrary: st) auto

lemma judge_observation_rule:
  assumes "P (observe x j now obs st)"
    and "\<And>prior f st. P st \<Longrightarrow> P (record_finding x j obs prior now f st)"
  shows "P (judge_observation x j now obs st)"
  unfolding judge_observation_def by (rule fold_record_rule) (fact assms)+

lemma fold_judge_rule:
  assumes observed: "\<And>obs st. P st \<Longrightarrow> P (observe x j now obs st)"
    and recorded: "\<And>obs prior f st. P st \<Longrightarrow> P (record_finding x j obs prior now f st)"
    and start: "P st"
  shows "P (fold (judge_observation x j now) obss st)"
  using start
proof (induction obss arbitrary: st)
  case Nil
  then show ?case by simp
next
  case (Cons obs obss)
  have "P (judge_observation x j now obs st)"
    by (rule judge_observation_rule) (rule observed [OF Cons.prems], rule recorded)
  from Cons.IH [OF this] show ?case by simp
qed

lemma judge_ok:
  "snapshot_ok (a_snapshot st) \<Longrightarrow>
     snapshot_ok (a_snapshot (fold (judge_observation x j now) obss st))"
  by (rule fold_judge_rule [where P = "\<lambda>st. snapshot_ok (a_snapshot st)"])
    (auto intro: observe_ok record_finding_ok)

lemma judge_length:
  assumes "snapshot_ok (a_snapshot st)"
  shows "length (sn_findings (a_snapshot (fold (judge_observation x j now) obss st)))
     \<le> max (length (sn_findings (a_snapshot st))) (s_max_findings (j_settings j))"
proof -
  let ?n = "max (length (sn_findings (a_snapshot st))) (s_max_findings (j_settings j))"
  let ?P = "\<lambda>st. snapshot_ok (a_snapshot st) \<and> length (sn_findings (a_snapshot st)) \<le> ?n"
  have "?P (fold (judge_observation x j now) obss st)"
  proof (rule fold_judge_rule [where P = ?P])
    fix obs prior f and st' :: applying
    assume P: "?P st'"
    then have wf: "bm_wf (sn_findings (a_snapshot st'))" by (simp add: snapshot_ok_def)
    show "?P (record_finding x j obs prior now f st')"
      using record_finding_length [OF wf, of x j obs prior now f] P by (auto intro: record_finding_ok)
  qed (use assms in \<open>auto intro: observe_ok\<close>)
  then show ?thesis by simp
qed

lemma judge_present:
  "bm_has (sn_findings (a_snapshot st)) i \<Longrightarrow>
     bm_has (sn_findings (a_snapshot (fold (judge_observation x j now) obss st))) i"
  by (rule fold_judge_rule [where P = "\<lambda>st. bm_has (sn_findings (a_snapshot st)) i"])
    (simp, erule record_finding_present, assumption)

text \<open>A finding the judging did not touch is what it was.\<close>

lemma judge_untouched:
  assumes "i \<notin> a_current (fold (judge_observation x j now) obss st)"
  shows "bm_get (sn_findings (a_snapshot (fold (judge_observation x j now) obss st))) i =
     bm_get (sn_findings (a_snapshot st)) i"
proof -
  let ?P = "\<lambda>st'. i \<notin> a_current st' \<longrightarrow>
     bm_get (sn_findings (a_snapshot st')) i = bm_get (sn_findings (a_snapshot st)) i"
  have "?P (fold (judge_observation x j now) obss st)"
    by (rule fold_judge_rule [where P = ?P]) (auto simp: record_finding_other)
  then show ?thesis using assms by simp
qed

lemma judge_operations:
  "op_ids_complete (a_operations (fold (judge_observation x j now) obss st))
     \<subseteq> op_ids_complete (a_operations st)"
  by (rule fold_judge_rule [where P = "\<lambda>st'. op_ids_complete (a_operations st') \<subseteq> _"])
    (auto dest: subsetD [OF record_finding_operations])

lemma judge_results [simp]:
  "sn_results (a_snapshot (fold (judge_observation x j now) obss st)) = sn_results (a_snapshot st)"
  by (rule fold_judge_rule [where P = "\<lambda>st'. sn_results (a_snapshot st') = _"]) simp_all

lemma judge_confirmations [simp]:
  "sn_confirmations (a_snapshot (fold (judge_observation x j now) obss st)) =
     sn_confirmations (a_snapshot st)"
  by (rule fold_judge_rule [where P = "\<lambda>st'. sn_confirmations (a_snapshot st') = _"]) simp_all

lemma judge_index:
  "clears_complete (a_index st) \<Longrightarrow> clears_complete (a_index (fold (judge_observation x j now) obss st))"
  by (rule fold_judge_rule [where P = "\<lambda>st'. clears_complete (a_index st')"])
    (auto simp: observe_def Let_def clears_complete_record split: prod.split)

section \<open>Visiting findings\<close>

definition may_recover :: "job \<Rightarrow> visit_view \<Rightarrow> finding \<Rightarrow> bool" where
  "may_recover j w f \<longleftrightarrow>
     (\<exists>t. clear_time (w_index w) f = Some t) \<and>
     s_recover_confirmations (j_settings j) \<le> sat_add32 (f_clear_count f) 1"

definition may_retire :: "job \<Rightarrow> visit_view \<Rightarrow> string \<Rightarrow> finding \<Rightarrow> transition_kind \<Rightarrow> bool" where
  "may_retire j w i f kind \<longleftrightarrow> i \<notin> w_current w \<and>
     (kind = TRecovered \<and> may_recover j w f \<or> kind = TRemoved \<and> can_remove (w_index w) f)"

lemma visit_finding_id [simp]: "f_id (fst (visit_finding x j now w i f v)) = f_id f"
  by (simp add: visit_finding_def Let_def split: option.split)

lemma retire_simps [simp]:
  "v_removed (retire now i kind v) = v_removed v @ [(i, kind)]"
  "v_confirmations (retire now i kind v) = v_confirmations v"
  "v_transitions (retire now i kind v) =
     v_transitions v @ [\<lparr>tr_at = now, tr_finding = i, tr_kind = kind\<rparr>]"
  by (simp_all add: retire_def)

lemma visit_finding_removed:
  "ik \<in> set (v_removed (snd (visit_finding x j now w i f v))) \<Longrightarrow>
     ik \<in> set (v_removed v) \<or> (\<exists>kind. ik = (i, kind) \<and> may_retire j w i f kind)"
  by (auto simp: visit_finding_def Let_def may_retire_def may_recover_def removable_def
      split: option.splits if_splits)

lemma visit_finding_wf:
  "bm_wf (v_confirmations v) \<Longrightarrow> bm_wf (v_confirmations (snd (visit_finding x j now w i f v)))"
  by (simp add: visit_finding_def Let_def bm.ok_put bm.ok_del split: option.split)

lemma visit_findings_keys [simp]: "map fst (fst (visit_findings x j now w fs v)) = map fst fs"
  by (induction x j now w fs v rule: visit_findings.induct) (auto split: prod.splits)

lemma visit_findings_get:
  "bm_get (fst (visit_findings x j now w fs v)) i = None \<longleftrightarrow> bm_get fs i = None"
  by (metis list.set_map map_of_eq_None_iff visit_findings_keys)

lemma visit_findings_id:
  "(i, f') \<in> set (fst (visit_findings x j now w fs v)) \<Longrightarrow>
     \<exists>f. (i, f) \<in> set fs \<and> f_id f' = f_id f"
proof (induction x j now w fs v rule: visit_findings.induct)
  case (2 x j now w k f fs v)
  obtain g v' where step: "visit_finding x j now w k f v = (g, v')" by fastforce
  then have "f_id g = f_id f" using visit_finding_id [of x j now w k f v] by simp
  then show ?case using 2 step by (auto split: prod.splits)
qed simp

lemma visit_findings_removed:
  "(k, kind) \<in> set (v_removed (snd (visit_findings x j now w fs v))) \<Longrightarrow>
     (k, kind) \<in> set (v_removed v) \<or> (\<exists>f. (k, f) \<in> set fs \<and> may_retire j w k f kind)"
proof (induction x j now w fs v rule: visit_findings.induct)
  case (2 x j now w i f fs v)
  obtain f' v' where step: "visit_finding x j now w i f v = (f', v')" by fastforce
  have "(k, kind) \<in> set (v_removed v') \<or> (\<exists>g. (k, g) \<in> set fs \<and> may_retire j w k g kind)"
    using 2(1) [OF step [symmetric]] 2(2) step by (simp split: prod.splits)
  then show ?case
    using visit_finding_removed [of "(k, kind)" x j now w i f v] step by auto
qed simp

lemma visit_findings_wf:
  "bm_wf (v_confirmations v) \<Longrightarrow> bm_wf (v_confirmations (snd (visit_findings x j now w fs v)))"
proof (induction x j now w fs v rule: visit_findings.induct)
  case (2 x j now w i f fs v)
  then show ?case
    using visit_finding_wf [of v x j now w i f] by (auto split: prod.splits)
qed simp

section \<open>Removal, trimming and expiry\<close>

lemma bm_del_fold:
  "fold (\<lambda>(_, k). bm_del k) ks m = filter (\<lambda>(k, _). k \<notin> snd ` set ks) m"
proof (induction ks arbitrary: m)
  case Nil
  then show ?case by (simp add: case_prod_beta)
next
  case (Cons tk ks)
  then show ?case
    by (simp add: bm_del_def case_prod_beta)
qed

lemma trim_retired_frame [simp]:
  "sn_findings (trim_retired n sn) = sn_findings sn" "sn_health (trim_retired n sn) = sn_health sn"
  "sn_results (trim_retired n sn) = sn_results sn"
  "sn_confirmations (trim_retired n sn) = sn_confirmations sn"
  by (simp_all add: trim_retired_def Let_def)

lemma trim_retired_get:
  "bm_wf (sn_retired sn) \<Longrightarrow> bm_get (sn_retired (trim_retired n sn)) k = Some t \<Longrightarrow>
     bm_get (sn_retired sn) k = Some t"
proof -
  assume wf: "bm_wf (sn_retired sn)" and got: "bm_get (sn_retired (trim_retired n sn)) k = Some t"
  have "set (sn_retired (trim_retired n sn)) \<subseteq> set (sn_retired sn)"
    by (auto simp: trim_retired_def Let_def bm_del_fold)
  with map_of_SomeD [OF got] show ?thesis using wf bm.get_entries by fastforce
qed

lemma trim_retired_wf: "bm_wf (sn_retired sn) \<Longrightarrow> bm_wf (sn_retired (trim_retired n sn))"
  by (simp add: trim_retired_def Let_def bm_del_fold bm_wf_filter)

lemma length_filter_keys:
  assumes "distinct (map fst m)" and "distinct ks" and "set ks \<subseteq> set (map fst m)"
  shows "length (filter (\<lambda>(k, _). k \<notin> set ks) m) + length ks = length m"
proof -
  have "length (filter (\<lambda>(k, _). k \<in> set ks) m) = length (filter (\<lambda>k. k \<in> set ks) (map fst m))"
    by (simp add: filter_map comp_def case_prod_unfold)
  also have "\<dots> = card (set (filter (\<lambda>k. k \<in> set ks) (map fst m)))"
    using assms(1) distinct_card distinct_filter by metis
  also have "set (filter (\<lambda>k. k \<in> set ks) (map fst m)) = set ks"
    using assms(3) by auto
  finally have "length (filter (\<lambda>(k, _). k \<in> set ks) m) = length ks"
    using assms(2) by (simp add: distinct_card)
  then show ?thesis
    using sum_length_filter_compl [of "\<lambda>(k, _). k \<in> set ks" m] by (simp add: case_prod_unfold)
qed

lemma distinct_map_sort: "distinct (map f (sort xs)) = distinct (map f xs)"
  by (simp add: distinct_map)

lemma trim_retired_length:
  assumes "bm_wf (sn_retired sn)"
  shows "length (sn_retired (trim_retired n sn)) \<le> n"
proof -
  let ?m = "sn_retired sn"
  let ?cut = "take (length ?m - n) (sort (map (\<lambda>(k, t). (tr_at t, k)) ?m))"
  let ?all = "sort (map (\<lambda>(k, t). (tr_at t, k)) ?m)"
  have dist: "distinct (map fst ?m)" by (rule bm.distinct_keys [OF assms])
  have "map snd (map (\<lambda>(k, t). (tr_at t, k)) ?m) = map fst ?m"
    by (simp add: comp_def case_prod_unfold)
  then have all: "distinct (map snd ?all)" "set (map snd ?all) = set (map fst ?m)"
    using dist distinct_map_sort by (metis, metis set_map set_sort)
  have ks: "distinct (map snd ?cut)" "set (map snd ?cut) \<subseteq> set (map fst ?m)"
    using all by (metis distinct_take take_map) (metis all(2) set_take_subset take_map)
  have "length (filter (\<lambda>(k, _). k \<notin> set (map snd ?cut)) ?m) + length (map snd ?cut) = length ?m"
    by (rule length_filter_keys [OF dist ks])
  then have "length (filter (\<lambda>(k, _). k \<notin> set (map snd ?cut)) ?m) \<le> n"
    by simp
  then show ?thesis
    by (auto simp: trim_retired_def Let_def bm_del_fold)
qed

lemma remove_finding_ok: "snapshot_ok sn \<Longrightarrow> snapshot_ok (remove_finding now ik sn)"
  by (auto simp: remove_finding_def snapshot_ok_def bm.ok_del bm.ok_put bm_wf_retain bm.get_del
      bm.get_put split: prod.split if_splits)

lemma trim_retired_ok: "snapshot_ok sn \<Longrightarrow> snapshot_ok (trim_retired n sn)"
proof -
  assume ok: "snapshot_ok sn"
  then have wf: "bm_wf (sn_retired sn)" by (simp add: snapshot_ok_def)
  have "bm_get (sn_retired (trim_retired n sn)) i = None" if "bm_get (sn_retired sn) i = None" for i
    using trim_retired_get [OF wf, of n i] that
    by (cases "bm_get (sn_retired (trim_retired n sn)) i") auto
  then show ?thesis
    using ok by (simp add: snapshot_ok_def trim_retired_wf)
qed

lemma expire_observation_wf:
  "bm_wf (snd st) \<Longrightarrow> bm_wf (snd (expire_observation limit now obs st))"
  by (cases st) (simp add: expire_observation_def bm.ok_put)

lemma fold_expire_wf:
  "bm_wf (snd st) \<Longrightarrow> bm_wf (snd (fold (expire_observation limit now) obss st))"
  by (induction obss arbitrary: st) (auto simp: expire_observation_wf)

lemma expire_result_wf: "bm_wf hs \<Longrightarrow> bm_wf (snd (expire_result limit now r hs))"
  using fold_expire_wf [of "(map (expire_operation limit now) (r_operations r), hs)"]
  by (auto simp: expire_result_def split: prod.split) (metis snd_conv)

lemma expire_result_obs [simp]:
  "r_observations (fst (expire_result limit now r hs)) = r_observations r"
  by (simp add: expire_result_def split: prod.split)

lemma expire_results_keys [simp]:
  "map fst (fst (expire_results fresh limit now rs hs)) = map fst rs"
  by (induction fresh limit now rs hs rule: expire_results.induct) (auto split: prod.splits)

lemma expire_results_health_wf:
  "bm_wf hs \<Longrightarrow> bm_wf (snd (expire_results fresh limit now rs hs))"
proof (induction fresh limit now rs hs rule: expire_results.induct)
  case (2 fresh limit now k r rs hs)
  then show ?case
    using expire_result_wf [of hs "unwrap_or limit (bm_get fresh k)" now r]
    by (auto split: prod.splits)
qed simp

lemma expire_results_wf: "bm_wf (fst (expire_results fresh limit now rs hs)) = bm_wf rs"
  by (simp add: bm_wf_def)

lemma expire_findings_get:
  "bm_get (sn_findings (fst (expire limit now sn))) i =
     map_option (expire_finding limit now) (bm_get (sn_findings sn) i)"
  by (simp add: expire_def get_bm_mapv split: prod.split)

lemma expire_frame [simp]:
  "sn_retired (fst (expire limit now sn)) = sn_retired sn"
  "sn_confirmations (fst (expire limit now sn)) = sn_confirmations sn"
  "length (sn_findings (fst (expire limit now sn))) = length (sn_findings sn)"
  by (simp_all add: expire_def split: prod.split)

lemma f_id_expire [simp]: "f_id (expire_finding limit now f) = f_id f"
  by (simp add: expire_finding_def)

lemma expire_ok: "snapshot_ok sn \<Longrightarrow> snapshot_ok (fst (expire limit now sn))"
proof -
  assume ok: "snapshot_ok sn"
  let ?e = "expire_results (sn_freshness sn) limit now (sn_results sn) (sn_health sn)"
  have "bm_wf (fst ?e)" "bm_wf (snd ?e)"
    using ok by (simp_all add: expire_results_wf expire_results_health_wf snapshot_ok_def)
  then show ?thesis
    using ok by (auto simp: snapshot_ok_def expire_def get_bm_mapv split: prod.splits)
qed

interpretation removal: snapshot_step "remove_finding now ik" for now ik
  by unfold_locales (rule remove_finding_ok)

interpretation trimming: snapshot_step "trim_retired n" for n
  by unfold_locales (rule trim_retired_ok)

interpretation expiry: snapshot_step "\<lambda>sn. fst (expire limit now sn)" for limit now
  by unfold_locales (rule expire_ok)

section \<open>Settling\<close>

lemma fold_remove_get:
  "bm_get (sn_findings (fold (remove_finding now) iks sn)) i =
     (if i \<in> fst ` set iks then None else bm_get (sn_findings sn) i)"
  by (induction iks arbitrary: sn)
    (auto simp: remove_finding_def get_bm_del split: prod.split)

lemma fold_remove_ok: "snapshot_ok sn \<Longrightarrow> snapshot_ok (fold (remove_finding now) iks sn)"
  by (rule fold_keeps_snapshot [OF remove_finding_ok])

lemma fold_remove_frame [simp]:
  "sn_health (fold (remove_finding now) iks sn) = sn_health sn"
  "sn_results (fold (remove_finding now) iks sn) = sn_results sn"
  "sn_pressure (fold (remove_finding now) iks sn) = sn_pressure sn"
  by (induction iks arbitrary: sn) (auto simp: remove_finding_def split: prod.split)

lemma fold_remove_length:
  "length (sn_findings (fold (remove_finding now) iks sn)) \<le> length (sn_findings sn)"
proof (induction iks arbitrary: sn)
  case (Cons ik iks)
  have "length (sn_findings (remove_finding now ik sn)) \<le> length (sn_findings sn)"
    by (simp add: remove_finding_def bm_del_def split: prod.split)
  with Cons.IH [of "remove_finding now ik sn"] show ?case by simp
qed simp

text \<open>The view the visit has, and what the visit of a settling snapshot removes.\<close>

definition settle_view :: "check_result option \<Rightarrow> check_result \<Rightarrow> applying \<Rightarrow> visit_view" where
  "settle_view old r st =
     \<lparr>w_result = r, w_index = fst (reconcile_index r (a_index st) (sn_health (a_snapshot st))),
      w_current = a_current st,
      w_old_resources = (case old of None \<Rightarrow> {} | Some q \<Rightarrow> set (map o_resource (r_observations q))),
      w_new_resources = set (map o_resource (r_observations r))\<rparr>"

definition settle_visit ::
  "ext \<Rightarrow> job \<Rightarrow> instant \<Rightarrow> check_result option \<Rightarrow> check_result \<Rightarrow> applying \<Rightarrow>
     (string \<times> finding) list \<times> visiting" where
  "settle_visit x j now old r st =
     visit_findings x j now (settle_view old r st) (sn_findings (a_snapshot st))
       \<lparr>v_confirmations = sn_confirmations (a_snapshot st), v_transitions = a_transitions st,
        v_removed = []\<rparr>"

definition settle_removed ::
  "ext \<Rightarrow> job \<Rightarrow> instant \<Rightarrow> check_result option \<Rightarrow> check_result \<Rightarrow> applying \<Rightarrow> snapshot" where
  "settle_removed x j now old r st =
     trim_retired (s_max_findings (j_settings j))
       (fold (remove_finding now) (v_removed (snd (settle_visit x j now old r st)))
         ((a_snapshot st)\<lparr>
           sn_health := snd (reconcile_index r (a_index st) (sn_health (a_snapshot st))),
           sn_findings := fst (settle_visit x j now old r st),
           sn_confirmations := v_confirmations (snd (settle_visit x j now old r st))\<rparr>))"

definition settle_stored :: "job \<Rightarrow> instant \<Rightarrow> check_result \<Rightarrow> snapshot \<Rightarrow> snapshot" where
  "settle_stored j now r sn =
     (let sn = sn\<lparr>sn_results := bm_put (j_key j) r (sn_results sn)\<rparr>;
          seen = observed_resources sn
      in sn\<lparr>sn_health := bm_retain (\<lambda>k _. k \<in> seen) (sn_health sn),
            sn_pressure := bm_retain (\<lambda>k _. k \<in> seen) (sn_pressure sn),
            sn_captured_at := now, sn_revision := j_revision j\<rparr>)"

lemma settle_blocks:
  "fst (settle x j now old r st) =
     fst (expire (job_freshness j) now (settle_stored j now r (settle_removed x j now old r st)))"
  by (simp add: settle_def settle_stored_def settle_removed_def settle_visit_def settle_view_def
      Let_def split: prod.split)

lemma settle_stored_frame [simp]:
  "sn_findings (settle_stored j now r sn) = sn_findings sn"
  "sn_retired (settle_stored j now r sn) = sn_retired sn"
  by (simp_all add: settle_stored_def Let_def)

lemma settle_stored_ok: "snapshot_ok sn \<Longrightarrow> snapshot_ok (settle_stored j now r sn)"
  by (simp add: settle_stored_def Let_def snapshot_ok_def bm.ok_put bm_wf_retain)

interpretation storing: snapshot_step "settle_stored j now r" for j now r
  by unfold_locales (rule settle_stored_ok)

lemma settle_visited_ok:
  assumes ok: "snapshot_ok (a_snapshot st)" and hs: "bm_wf hs"
  shows "snapshot_ok ((a_snapshot st)\<lparr>sn_health := hs,
           sn_findings := fst (settle_visit x j now old r st),
           sn_confirmations := v_confirmations (snd (settle_visit x j now old r st))\<rparr>)"
proof -
  let ?fs = "fst (settle_visit x j now old r st)"
  have keys: "map fst ?fs = map fst (sn_findings (a_snapshot st))"
    by (simp add: settle_visit_def)
  then have wf: "bm_wf ?fs" using ok by (simp add: bm_wf_def snapshot_ok_def)
  have "f_id f' = i \<and> \<not> bm_has (sn_retired (a_snapshot st)) i" if "bm_get ?fs i = Some f'" for i f'
  proof -
    have "(i, f') \<in> set ?fs" using that wf by (simp add: bm.get_entries)
    then obtain f where "(i, f) \<in> set (sn_findings (a_snapshot st))" "f_id f' = f_id f"
      by (auto simp: settle_visit_def dest: visit_findings_id)
    then show ?thesis using ok by (simp add: snapshot_ok_def bm.get_entries)
  qed
  then show ?thesis
    using ok hs wf by (simp add: snapshot_ok_def settle_visit_def visit_findings_wf)
qed

lemma settle_removed_ok:
  assumes "snapshot_ok (a_snapshot st)"
  shows "snapshot_ok (settle_removed x j now old r st)"
  unfolding settle_removed_def
  using assms
  by (intro trim_retired_ok fold_remove_ok settle_visited_ok)
    (auto simp: reconcile_index_def Let_def snapshot_ok_def bm_wf_fold_unsettle)

lemma settle_ok:
  "snapshot_ok (a_snapshot st) \<Longrightarrow> snapshot_ok (fst (settle x j now old r st))"
  by (simp add: settle_blocks expire_ok settle_stored_ok settle_removed_ok)

lemma settle_retired_length:
  assumes "snapshot_ok (a_snapshot st)"
  shows "length (sn_retired (fst (settle x j now old r st))) \<le> s_max_findings (j_settings j)"
proof -
  have "bm_wf (sn_retired (fold (remove_finding now) (v_removed (snd (settle_visit x j now old r st)))
      ((a_snapshot st)\<lparr>
           sn_health := snd (reconcile_index r (a_index st) (sn_health (a_snapshot st))),
           sn_findings := fst (settle_visit x j now old r st),
           sn_confirmations := v_confirmations (snd (settle_visit x j now old r st))\<rparr>)))"
    (is "bm_wf (sn_retired ?sn)")
  proof -
    have "snapshot_ok ?sn"
      using assms by (intro fold_remove_ok settle_visited_ok)
        (auto simp: reconcile_index_def Let_def snapshot_ok_def bm_wf_fold_unsettle)
    then show ?thesis by (simp add: snapshot_ok_def)
  qed
  from trim_retired_length [OF this] show ?thesis
    by (simp add: settle_blocks settle_removed_def)
qed

lemma settle_findings_length:
  "length (sn_findings (fst (settle x j now old r st))) \<le> length (sn_findings (a_snapshot st))"
proof -
  have "length (fst (settle_visit x j now old r st)) = length (sn_findings (a_snapshot st))"
    by (metis length_map settle_visit_def visit_findings_keys)
  then show ?thesis
    by (auto simp: settle_blocks settle_removed_def intro!: order_trans [OF fold_remove_length])
qed

text \<open>Which findings a settling removes.\<close>

lemma settle_keeps:
  assumes "bm_wf (sn_findings (a_snapshot st))"
    and "bm_get (sn_findings (a_snapshot st)) i = Some f"
    and "\<And>kind. \<not> may_retire j (settle_view old r st) i f kind"
  shows "bm_has (sn_findings (fst (settle x j now old r st))) i"
proof -
  have "(i, kind) \<notin> set (v_removed (snd (settle_visit x j now old r st)))" for kind
  proof
    assume "(i, kind) \<in> set (v_removed (snd (settle_visit x j now old r st)))"
    from visit_findings_removed [OF this [unfolded settle_visit_def]]
    obtain g where "(i, g) \<in> set (sn_findings (a_snapshot st))"
      and "may_retire j (settle_view old r st) i g kind" by auto
    then show False
      using assms by (metis bm.get_entries option.inject)
  qed
  then have "i \<notin> fst ` set (v_removed (snd (settle_visit x j now old r st)))" by force
  moreover have "bm_get (fst (settle_visit x j now old r st)) i \<noteq> None"
    using assms(2) visit_findings_get by (metis option.discI settle_visit_def)
  ultimately show ?thesis
    by (simp add: settle_blocks settle_removed_def expire_findings_get fold_remove_get)
qed

end
