(* ===== verification/Apply_Facts.thy ===== *)
theory Apply_Facts
  imports State_Facts
begin

text \<open>
  \<open>State::apply\<close> as a whole: the snapshot it returns is well formed and bounded, an
  operation that was not complete clears, removes and heals nothing, and a reported
  recovery names the observation that justifies it. The properties at the end are the
  contract the comment on \<open>State::apply\<close> states.
\<close>

section \<open>Admitting a result\<close>

text \<open>The operations the monitor derives itself: flow evaluation and provenance.\<close>

definition derived_id :: "string \<Rightarrow> bool" where
  "derived_id i \<longleftrightarrow> starts_with i ''provenance/'' \<or> starts_with i ''flow/''"

lemma flow_steps_ids:
  "flow_steps sn j now fls progress = (progress', ps, obss) \<Longrightarrow> p \<in> set ps \<Longrightarrow>
     starts_with (op_id p) ''flow/''"
proof (induction fls arbitrary: progress progress' ps obss)
  case (Cons fl fls)
  then show ?case by (auto split: prod.splits simp: starts_with_iff)
qed simp

lemma flows_evaluate_operations:
  assumes "p \<in> set (r_operations (snd (flows_evaluate x sn j now)))" and "op_coverage p = Complete"
  shows "starts_with (op_id p) ''flow/''"
proof (cases "t_flows (j_target j) = []")
  case True
  then show ?thesis using assms by (simp add: flows_evaluate_def Let_def result_failure_def)
next
  case False
  obtain g ps obss where steps: "flow_steps sn j now (t_flows (j_target j)) (sn_progress sn) = (g, ps, obss)"
    by (metis prod_cases3)
  then have "p \<in> set ps" using assms(1) False by (simp add: flows_evaluate_def Let_def)
  then show ?thesis by (rule flow_steps_ids [OF steps])
qed

lemma complete_ids_flows:
  "i \<in> complete_ids (snd (flows_evaluate x sn j now)) \<Longrightarrow> starts_with i ''flow/''"
  using flows_evaluate_operations by (auto simp: complete_ids_iff)

lemma complete_ids_derived:
  assumes "i \<notin> complete_ids r" and "\<not> derived_id i"
  shows "i \<notin> complete_ids (snd (derive_result x j sn r now))"
proof -
  let ?f = "flows_evaluate x sn j now"
  have flow: "i \<notin> complete_ids (snd ?f)"
    using assms(2) complete_ids_flows unfolding derived_id_def by blast
  have "i \<notin> complete_ids (if j_check j = CReleases \<and> \<not> j_artifact_only j then enrich x sn' j q now else q)"
    if "i \<notin> complete_ids q" for sn' q
    using that assms(2) complete_ids_enrich unfolding derived_id_def by (simp split: if_split) blast
  with assms(1) flow show ?thesis
    by (simp add: derive_result_def Let_def prod.case_eq_if split: if_splits)
qed

lemma derive_result_frame [simp]:
  "sn_findings (fst (derive_result x j sn r now)) = sn_findings sn"
  "sn_retired (fst (derive_result x j sn r now)) = sn_retired sn"
  "sn_results (fst (derive_result x j sn r now)) = sn_results sn"
  "sn_confirmations (fst (derive_result x j sn r now)) = sn_confirmations sn"
  "sn_health (fst (derive_result x j sn r now)) = sn_health sn"
  by (simp_all add: derive_result_def Let_def split: prod.split)

lemma register_job_frame [simp]:
  "sn_findings (register_job j sn) = sn_findings sn"
  "sn_retired (register_job j sn) = sn_retired sn"
  "sn_results (register_job j sn) = sn_results sn"
  "sn_confirmations (register_job j sn) = sn_confirmations sn"
  "sn_health (register_job j sn) = sn_health sn"
  by (simp_all add: register_job_def)

lemma complete_ids_prepared: "complete_ids (prepare_result x j sn r now) \<subseteq> complete_ids r"
  unfolding prepare_result_def Let_def
  using validation.grants_nothing consolidation.grants_nothing correlation.grants_nothing
    retries.grants_nothing truncation.grants_nothing log_clearing.grants_nothing
    retention.grants_nothing
  by (meson order_trans)

lemma complete_ids_fit: "complete_ids (fit_assets n r) \<subseteq> complete_ids r"
  by (simp add: fit_assets_def)

interpretation preparation: coverage_filter "\<lambda>r. prepare_result x j sn r now" for x j sn now
  by unfold_locales (rule complete_ids_prepared)

interpretation fitting_assets: coverage_filter "fit_assets n" for n
  by unfold_locales (rule complete_ids_fit)

abbreviation admitted :: "ext \<Rightarrow> job \<Rightarrow> check_result \<Rightarrow> instant \<Rightarrow> snapshot \<Rightarrow> snapshot" where
  "admitted x j r now sn \<equiv> fst (admit_result x j r now sn)"

abbreviation admitted_whole :: "ext \<Rightarrow> job \<Rightarrow> check_result \<Rightarrow> instant \<Rightarrow> snapshot \<Rightarrow> check_result" where
  "admitted_whole x j r now sn \<equiv> fst (snd (admit_result x j r now sn))"

abbreviation admitted_result :: "ext \<Rightarrow> job \<Rightarrow> check_result \<Rightarrow> instant \<Rightarrow> snapshot \<Rightarrow> check_result" where
  "admitted_result x j r now sn \<equiv> snd (snd (admit_result x j r now sn))"

lemma admitted_frame [simp]:
  "sn_findings (admitted x j r now sn) = sn_findings sn"
  "sn_retired (admitted x j r now sn) = sn_retired sn"
  "sn_results (admitted x j r now sn) = sn_results sn"
  "sn_confirmations (admitted x j r now sn) = sn_confirmations sn"
  "sn_health (admitted x j r now sn) = sn_health sn"
  by (simp_all add: admit_result_def Let_def prod.case_eq_if)

lemma admitted_ok: "snapshot_ok sn \<Longrightarrow> snapshot_ok (admitted x j r now sn)"
  by (subst snapshot_ok_cong [where a = sn]) simp_all

lemma admitted_complete:
  assumes "i \<notin> complete_ids r" and "\<not> derived_id i"
  shows "i \<notin> complete_ids (admitted_whole x j r now sn)"
    and "i \<notin> complete_ids (admitted_result x j r now sn)"
  using complete_ids_derived [OF assms] complete_ids_prepared complete_ids_fit
  by (auto simp: admit_result_def Let_def prod.case_eq_if dest!: subsetD [OF complete_ids_fit]
      subsetD [OF complete_ids_prepared])

section \<open>The blocks of an application\<close>

abbreviation judging :: "ext \<Rightarrow> job \<Rightarrow> check_result \<Rightarrow> instant \<Rightarrow> snapshot \<Rightarrow> applying" where
  "judging x j r now sn \<equiv>
     judge_result x j now (admitted x j r now sn) (admitted_whole x j r now sn)
       (admitted_result x j r now sn)"

abbreviation judged_result :: "ext \<Rightarrow> job \<Rightarrow> check_result \<Rightarrow> instant \<Rightarrow> snapshot \<Rightarrow> check_result" where
  "judged_result x j r now sn \<equiv>
     (admitted_result x j r now sn)\<lparr>r_operations := a_operations (judging x j r now sn)\<rparr>"

lemma apply_core_blocks:
  "apply_core x j r now sn =
     settle x j now (bm_get (sn_results sn) (j_key j)) (judged_result x j r now sn)
       (judging x j r now sn)"
  using admitted_frame(3) [of x j r now sn]
  by (simp add: apply_core_def Let_def prod.case_eq_if)

lemma judging_ok: "snapshot_ok sn \<Longrightarrow> snapshot_ok (a_snapshot (judging x j r now sn))"
  by (simp add: judge_result_def judge_ok admitted_ok)

lemma apply_core_ok: "snapshot_ok sn \<Longrightarrow> snapshot_ok (fst (apply_core x j r now sn))"
  by (simp add: apply_core_blocks settle_ok judging_ok)

interpretation application: snapshot_step "\<lambda>sn. fst (apply_core x j r now sn)" for x j r now
  by unfold_locales (rule apply_core_ok)

lemma complete_ids_operations:
  "complete_ids (q\<lparr>r_operations := ps\<rparr>) = op_ids_complete ps"
  by (simp add: complete_ids_def op_ids_complete_def)

lemma judging_complete:
  assumes "i \<notin> complete_ids r" and "\<not> derived_id i"
  shows "i \<notin> complete_ids (judged_result x j r now sn)"
proof -
  have "op_ids_complete (a_operations (judging x j r now sn))
      \<subseteq> complete_ids (admitted_result x j r now sn)"
    unfolding judge_result_def
    by (rule order_trans [OF judge_operations]) (simp add: op_ids_complete_result)
  then show ?thesis
    using admitted_complete(2) [OF assms, of x j now sn] complete_ids_operations by blast
qed

lemma judging_clears: "clears_complete (a_index (judging x j r now sn))"
  by (simp add: judge_result_def judge_index clears_complete_new)

lemma judging_present:
  "bm_has (sn_findings sn) i \<Longrightarrow> bm_has (sn_findings (a_snapshot (judging x j r now sn))) i"
  unfolding judge_result_def by (rule judge_present) simp

lemma judging_untouched:
  "i \<notin> a_current (judging x j r now sn) \<Longrightarrow>
     bm_get (sn_findings (a_snapshot (judging x j r now sn))) i = bm_get (sn_findings sn) i"
  unfolding judge_result_def by (drule judge_untouched) simp

lemma settle_view_simps [simp]:
  "w_current (settle_view old r st) = a_current st"
  "ix_complete (w_index (settle_view old r st)) = complete_ids r"
  by (simp_all add: settle_view_def reconcile_index_def Let_def)

lemma settle_view_clears:
  "clears_complete (a_index st) \<Longrightarrow> clears_complete (w_index (settle_view old r st))"
  by (simp add: settle_view_def clears_complete_reconcile)

lemma retired_by_evidence:
  assumes "may_retire j (settle_view old r st) i f kind" and "clears_complete (a_index st)"
  shows "\<exists>e \<in> set (f_evidence f). e \<in> complete_ids r"
  using assms clear_time_evidence [OF settle_view_clears [OF assms(2)]] can_remove_evidence
  by (fastforce simp: may_retire_def may_recover_def)

text \<open>A finding none of whose evidence is complete in the new result stays.\<close>

lemma apply_core_keeps:
  assumes ok: "snapshot_ok sn" and f: "bm_get (sn_findings sn) i = Some f"
    and e: "\<And>e. e \<in> set (f_evidence f) \<Longrightarrow> e \<notin> complete_ids r \<and> \<not> derived_id e"
  shows "bm_has (sn_findings (fst (apply_core x j r now sn))) i"
proof -
  let ?st = "judging x j r now sn"
  let ?w = "settle_view (bm_get (sn_results sn) (j_key j)) (judged_result x j r now sn) ?st"
  obtain g where g: "bm_get (sn_findings (a_snapshot ?st)) i = Some g"
    using judging_present [where sn = sn and i = i and x = x and j = j and r = r and now = now] f by auto
  have "\<not> may_retire j ?w i g kind" for kind
  proof
    assume retire: "may_retire j ?w i g kind"
    then have "i \<notin> a_current ?st" by (simp add: may_retire_def)
    then have "g = f" using judging_untouched f g by (metis option.inject)
    with retired_by_evidence [OF retire judging_clears] e judging_complete show False by blast
  qed
  moreover have "bm_wf (sn_findings (a_snapshot ?st))"
    using judging_ok [OF ok] by (simp add: snapshot_ok_def)
  ultimately show ?thesis
    unfolding apply_core_blocks using g by (intro settle_keeps)
qed

section \<open>Bounds\<close>

lemma judging_length:
  "snapshot_ok sn \<Longrightarrow> length (sn_findings (a_snapshot (judging x j r now sn)))
     \<le> max (length (sn_findings sn)) (s_max_findings (j_settings j))"
  using judge_length [of "\<lparr>a_snapshot = admitted x j r now sn,
      a_operations = r_operations (admitted_result x j r now sn),
      a_index = new_index (bm_get (sn_results (admitted x j r now sn)) (j_key j)) (admitted_whole x j r now sn),
      a_current = {}, a_diagnostic_bytes = diagnostic_budget x j (admitted x j r now sn),
      a_transitions = []\<rparr>" x j now "r_observations (admitted_result x j r now sn)"]
  by (simp add: judge_result_def admitted_ok)

lemma apply_core_findings:
  "snapshot_ok sn \<Longrightarrow> length (sn_findings (fst (apply_core x j r now sn)))
     \<le> max (length (sn_findings sn)) (s_max_findings (j_settings j))"
  unfolding apply_core_blocks
  by (rule order_trans [OF settle_findings_length judging_length])

lemma apply_core_retired:
  "snapshot_ok sn \<Longrightarrow>
     length (sn_retired (fst (apply_core x j r now sn))) \<le> s_max_findings (j_settings j)"
  unfolding apply_core_blocks by (rule settle_retired_length [OF judging_ok])

definition asset_count :: "snapshot \<Rightarrow> usize" where
  "asset_count sn = sum_list (map (\<lambda>(_, r). length (r_observations r)) (sn_results sn))"

lemma sum_list_put:
  "bm_wf m \<Longrightarrow> sum_list (map (\<lambda>(_, r). g r) (bm_put k v m)) =
     sum_list (map (\<lambda>(_, r). g r) (filter (\<lambda>(k', _). k' \<noteq> k) m)) + (g v :: nat)"
proof (induction k v m rule: bm_put.induct)
  case (2 k v k' v' m)
  have wf: "bm_wf m" and above: "\<And>p. p \<in> set m \<Longrightarrow> k' < fst p"
    using "2.prems" by (auto simp: bm_wf_def)
  have all: "filter (\<lambda>(k'', _). k'' \<noteq> k) m = m" if "k \<le> k'"
    using above that by (fastforce simp: filter_id_conv)
  show ?case using "2.IH" wf all by (auto simp: not_less)
qed simp

lemma other_assets_le: "other_assets j sn \<le> asset_count sn"
proof -
  have "sum_list (map g (filter P xs)) \<le> sum_list (map g xs)" for g :: "string \<times> check_result \<Rightarrow> nat" and P xs
    by (induction xs) auto
  then show ?thesis
    by (simp add: other_assets_def other_results_def asset_count_def comp_def case_prod_unfold)
qed

lemma expire_results_assets:
  "sum_list (map (\<lambda>(_, r). length (r_observations r)) (fst (expire_results fresh limit now rs hs))) =
     sum_list (map (\<lambda>(_, r). length (r_observations r)) rs)"
proof (induction fresh limit now rs hs rule: expire_results.induct)
  case (2 fresh limit now k r rs hs)
  let ?e = "expire_result (unwrap_or limit (bm_get fresh k)) now r hs"
  show ?case
    using 2 [of "fst ?e" "snd ?e"] by (simp add: prod.case_eq_if)
qed simp

lemma asset_count_expire [simp]: "asset_count (fst (expire limit now sn)) = asset_count sn"
  using expire_results_assets [of "sn_freshness sn" limit now "sn_results sn" "sn_health sn"]
  by (simp add: asset_count_def expire_def prod.case_eq_if)

lemma admitted_result_fits:
  "length (r_observations (admitted_result x j r now sn)) \<le> s_max_assets (j_settings j) - other_assets j sn"
proof -
  have "other_assets j (fst (derive_result x j (register_job j sn) r now)) = other_assets j sn"
    by (simp add: other_assets_def other_results_def)
  then show ?thesis
    by (simp add: admit_result_def Let_def prod.case_eq_if fit_assets_def truncate_coverage_def
        other_assets_def other_results_def)
qed

lemma apply_core_assets:
  assumes ok: "snapshot_ok sn"
  shows "asset_count (fst (apply_core x j r now sn))
     \<le> max (asset_count sn) (s_max_assets (j_settings j))"
proof -
  let ?st = "judging x j r now sn"
  let ?m = "sn_results sn"
  have results: "sn_results (a_snapshot ?st) = ?m" by (simp add: judge_result_def)
  have wf: "bm_wf ?m" using ok by (simp add: snapshot_ok_def)
  let ?q = "judged_result x j r now sn"
  have "asset_count (fst (apply_core x j r now sn)) =
      sum_list (map (\<lambda>(_, r). length (r_observations r)) (bm_put (j_key j) ?q ?m))"
    by (simp add: apply_core_blocks settle_blocks) (simp add: asset_count_def settle_stored_def
        Let_def settle_removed_def results)
  also have "\<dots> = other_assets j sn + length (r_observations (admitted_result x j r now sn))"
    by (subst sum_list_put [OF wf]) (simp add: other_assets_def other_results_def comp_def case_prod_unfold)
  also have "\<dots> \<le> max (asset_count sn) (s_max_assets (j_settings j))"
    using admitted_result_fits [of x j r now sn] other_assets_le [of j sn] by linarith
  finally show ?thesis .
qed

section \<open>Health\<close>

lemma expire_observation_health:
  "bm_get (snd (expire_observation limit now obs st)) k =
     (if k = o_resource obs \<and> outlived obs limit now
      then map_option (\<lambda>_. Unknown) (bm_get (snd st) k) else bm_get (snd st) k)"
  by (cases st) (auto simp: expire_observation_def bm.get_put)

lemma fold_expire_health:
  "bm_get (snd (fold (expire_observation limit now) obss st)) k =
     (if \<exists>obs \<in> set obss. k = o_resource obs \<and> outlived obs limit now
      then map_option (\<lambda>_. Unknown) (bm_get (snd st) k) else bm_get (snd st) k)"
  by (induction obss arbitrary: st) (auto simp: expire_observation_health option.map_comp comp_def)

lemma expire_result_health:
  "bm_get (snd (expire_result limit now r hs)) k =
     (if \<exists>obs \<in> set (r_observations r). k = o_resource obs \<and> outlived obs limit now
      then map_option (\<lambda>_. Unknown) (bm_get hs k) else bm_get hs k)"
  by (auto simp: expire_result_def prod.case_eq_if fold_expire_health)

text \<open>Expiry either leaves a health as it is or makes it \<open>Unknown\<close>.\<close>

lemma expire_results_health:
  "bm_get (snd (expire_results fresh limit now rs hs)) k =
     (if \<exists>(i, r) \<in> set rs. \<exists>obs \<in> set (r_observations r).
           k = o_resource obs \<and> outlived obs (unwrap_or limit (bm_get fresh i)) now
      then map_option (\<lambda>_. Unknown) (bm_get hs k) else bm_get hs k)"
proof (induction fresh limit now rs hs rule: expire_results.induct)
  case (2 fresh limit now i r rs hs)
  let ?e = "expire_result (unwrap_or limit (bm_get fresh i)) now r hs"
  show ?case
    using 2 [of "fst ?e" "snd ?e"]
    by (auto simp: prod.case_eq_if expire_result_health option.map_comp comp_def)
qed simp

lemma expire_health:
  "bm_get (sn_health (fst (expire limit now sn))) k \<in> {bm_get (sn_health sn) k, Some Unknown}"
  by (cases "bm_get (sn_health sn) k")
    (auto simp: expire_def prod.case_eq_if expire_results_health split: if_splits)

lemma settle_health:
  assumes ok: "snapshot_ok (a_snapshot st)"
    and obs: "obs \<in> set (r_observations r)" and e: "o_operation obs \<notin> complete_ids r"
    and h: "bm_get (sn_health (fst (settle x j now old r st))) (o_resource obs) = Some h"
  shows "\<not> clear_health h"
proof -
  let ?hs = "snd (reconcile_index r (a_index st) (sn_health (a_snapshot st)))"
  have hs: "?hs = fold (unsettle (complete_ids r)) (r_observations r) (sn_health (a_snapshot st))"
    by (simp add: reconcile_index_def Let_def)
  have wf: "bm_wf ?hs" using ok by (simp add: hs bm_wf_fold_unsettle snapshot_ok_def)
  have "\<not> clear_health h'" if "bm_get ?hs (o_resource obs) = Some h'" for h'
    using that obs e unfolding hs get_fold_unsettle by (auto split: option.splits if_splits)
  moreover have "bm_get (sn_health (settle_stored j now r (settle_removed x j now old r st))) (o_resource obs)
      \<in> {None, bm_get ?hs (o_resource obs)}"
    using get_bm_retain [OF wf]
    by (simp add: settle_stored_def settle_removed_def Let_def split: option.splits)
  ultimately show ?thesis
    using h expire_health [of "job_freshness j" now
        "settle_stored j now r (settle_removed x j now old r st)" "o_resource obs"]
    by (auto simp: settle_blocks)
qed

lemma expire_results_get:
  "bm_get (fst (expire_results fresh limit now rs hs)) k = Some r' \<Longrightarrow>
     \<exists>r. bm_get rs k = Some r \<and> r_observations r' = r_observations r"
proof (induction fresh limit now rs hs rule: expire_results.induct)
  case (2 fresh limit now i r rs hs)
  let ?e = "expire_result (unwrap_or limit (bm_get fresh i)) now r hs"
  show ?case
    using 2(1) [of "fst ?e" "snd ?e"] 2(2) by (auto simp: prod.case_eq_if split: if_splits)
qed simp

lemma apply_core_stored:
  assumes "bm_get (sn_results (fst (apply_core x j r now sn))) (j_key j) = Some q"
  shows "r_observations q = r_observations (admitted_result x j r now sn)"
proof -
  obtain q' where "bm_get (sn_results (settle_stored j now (judged_result x j r now sn)
      (settle_removed x j now (bm_get (sn_results sn) (j_key j)) (judged_result x j r now sn)
        (judging x j r now sn)))) (j_key j) = Some q'" and "r_observations q = r_observations q'"
    using assms unfolding apply_core_blocks settle_blocks
    by (auto simp: expire_def prod.case_eq_if dest!: expire_results_get)
  then show ?thesis by (auto simp: settle_stored_def Let_def bm.get_put)
qed

lemma apply_core_health:
  assumes ok: "snapshot_ok sn"
    and q: "bm_get (sn_results (fst (apply_core x j r now sn))) (j_key j) = Some q"
    and obs: "obs \<in> set (r_observations q)"
    and e: "o_operation obs \<notin> complete_ids r" "\<not> derived_id (o_operation obs)"
    and h: "bm_get (sn_health (fst (apply_core x j r now sn))) (o_resource obs) = Some h"
  shows "\<not> clear_health h"
proof (rule settle_health [OF judging_ok [OF ok]])
  show "obs \<in> set (r_observations (judged_result x j r now sn))"
    using obs apply_core_stored [OF q] by simp
qed (use judging_complete [OF e] h in \<open>simp_all add: apply_core_blocks\<close>)

section \<open>What a recovery rests on\<close>

definition clears_from :: "ext \<Rightarrow> job \<Rightarrow> instant \<Rightarrow> observation set \<Rightarrow> index \<Rightarrow> bool" where
  "clears_from x j now R ix \<longleftrightarrow>
     (\<forall>k i t. bm_get (ix_clear ix) k = Some (i, t) \<longrightarrow>
       (\<exists>obs \<in> R. o_resource obs = k \<and> o_operation obs = i \<and> o_observed_at obs = t \<and>
         (\<exists>st. clear_health (ev_health (snd (judgement x j now obs st))))))"

lemma judge_observation_index:
  "a_index (judge_observation x j now obs st) =
     record_clear obs (ev_health (snd (judgement x j now obs st))) (a_index st)"
proof -
  have "a_index (fold (record_finding x j obs prior now) fs st') = a_index st'" for prior fs st'
    by (rule fold_record_rule) simp_all
  then show ?thesis
    by (simp add: judge_observation_def) (simp add: observe_def Let_def prod.case_eq_if)
qed

lemma clears_from_judge:
  assumes "clears_from x j now R (a_index st)" and "obs \<in> R"
  shows "clears_from x j now R (a_index (judge_observation x j now obs st))"
  using assms
  by (auto simp: clears_from_def judge_observation_index record_clear_def bm.get_put split: if_splits)

lemma clears_from_fold:
  "clears_from x j now R (a_index st) \<Longrightarrow> set obss \<subseteq> R \<Longrightarrow>
     clears_from x j now R (a_index (fold (judge_observation x j now) obss st))"
  by (induction obss arbitrary: st) (auto simp: clears_from_judge)

lemma judging_clears_from:
  "clears_from x j now (set (r_observations (admitted_result x j r now sn))) (a_index (judging x j r now sn))"
  unfolding judge_result_def
  by (rule clears_from_fold) (simp_all add: clears_from_def new_index_def)

text \<open>The observation that clears a finding: newer, complete, and judged clear.\<close>

definition justifies :: "ext \<Rightarrow> job \<Rightarrow> instant \<Rightarrow> finding \<Rightarrow> observation \<Rightarrow> bool" where
  "justifies x j now f obs \<longleftrightarrow>
     o_resource obs = f_resource f \<and> o_operation obs \<in> set (f_evidence f) \<and>
     f_observed_at f < o_observed_at obs \<and>
     (\<exists>st. clear_health (ev_health (snd (judgement x j now obs st))))"

lemma clear_time_justified:
  assumes "clears_from x j now R ix" and "clears_complete ix"
    and "clear_time (fst (reconcile_index r ix hs)) f = Some t"
  shows "\<exists>obs \<in> R. justifies x j now f obs \<and> o_operation obs \<in> complete_ids r \<and> o_observed_at obs = t"
proof -
  let ?ix = "fst (reconcile_index r ix hs)"
  obtain i where i: "bm_get (ix_clear ?ix) (f_resource f) = Some (i, t)" "i \<in> set (f_evidence f)"
    "f_observed_at f < t"
    using assms(3) by (auto simp: clear_time_def split: option.splits prod.splits if_splits)
  have "bm_wf (ix_clear ix)" using assms(2) by (simp add: clears_complete_def)
  then have "bm_get (ix_clear ix) (f_resource f) = Some (i, t)" and "i \<in> complete_ids r"
    using i(1) by (auto simp: reconcile_index_def Let_def get_bm_retain split: option.splits if_splits)
  with assms(1) i show ?thesis by (fastforce simp: clears_from_def justifies_def)
qed

text \<open>Every transition of an application, by its kind.\<close>

lemma visit_findings_transitions:
  "tr \<in> set (v_transitions (snd (visit_findings x j now w fs v))) \<Longrightarrow>
     tr \<in> set (v_transitions v) \<or>
     tr_at tr = now \<and> (tr_finding tr, tr_kind tr) \<in> set (v_removed (snd (visit_findings x j now w fs v)))"
proof -
  let ?Q = "\<lambda>v v' :: visiting. set (v_removed v) \<subseteq> set (v_removed v') \<and>
     (\<forall>tr \<in> set (v_transitions v'). tr \<in> set (v_transitions v) \<or>
       tr_at tr = now \<and> (tr_finding tr, tr_kind tr) \<in> set (v_removed v'))"
  have step: "?Q v (snd (visit_finding x j now w i f v))" for i f v
    by (auto simp: visit_finding_def Let_def split: option.split)
  have "?Q v (snd (visit_findings x j now w fs v))"
  proof (induction fs arbitrary: v)
    case (Cons p fs)
    obtain i f where p: "p = (i, f)" by fastforce
    let ?v' = "snd (visit_finding x j now w i f v)"
    have "snd (visit_findings x j now w (p # fs) v) = snd (visit_findings x j now w fs ?v')"
      by (simp add: p prod.case_eq_if)
    then show ?case using step [of v i f] Cons.IH [of ?v'] by (simp only:) blast
  qed simp
  then show "tr \<in> set (v_transitions (snd (visit_findings x j now w fs v))) \<Longrightarrow> ?thesis" by blast
qed

lemma settle_transitions:
  "snd (settle x j now old r st) =
     v_transitions (snd (settle_visit x j now old r st)) @
     snd (expire (job_freshness j) now (settle_stored j now r (settle_removed x j now old r st)))"
  by (simp add: settle_def settle_stored_def settle_removed_def settle_visit_def settle_view_def
      Let_def prod.case_eq_if)

lemma expire_transitions_stale: "tr \<in> set (snd (expire limit now sn)) \<Longrightarrow> tr_kind tr = TStale"
  by (auto simp: expire_def prod.case_eq_if)

lemma judging_transitions:
  "tr \<in> set (a_transitions (judging x j r now sn)) \<Longrightarrow> tr_kind tr \<in> {TNew, TReappeared, TWorsened}"
proof -
  let ?P = "\<lambda>st. \<forall>tr \<in> set (a_transitions st). tr_kind tr \<in> {TNew, TReappeared, TWorsened}"
  have "?P (judging x j r now sn)"
    unfolding judge_result_def
  proof (rule fold_judge_rule [where P = ?P])
    fix obs prior f and st :: applying
    assume "?P st"
    then show "?P (record_finding x j obs prior now f st)"
      by (auto simp: record_finding_def Let_def transition_for_def prod.case_eq_if
          split: option.splits if_splits)
  qed simp_all
  then show "tr \<in> set (a_transitions (judging x j r now sn)) \<Longrightarrow> ?thesis" by blast
qed

lemma apply_core_left:
  assumes ok: "snapshot_ok sn"
    and tr: "tr \<in> set (snd (apply_core x j r now sn))" and kind: "tr_kind tr \<in> {TRecovered, TRemoved}"
  shows "\<exists>f. bm_get (sn_findings sn) (tr_finding tr) = Some f \<and>
     may_retire j (settle_view (bm_get (sn_results sn) (j_key j)) (judged_result x j r now sn)
       (judging x j r now sn)) (tr_finding tr) f (tr_kind tr) \<and>
     \<not> bm_has (sn_findings (fst (apply_core x j r now sn))) (tr_finding tr)"
proof -
  let ?st = "judging x j r now sn"
  let ?r = "judged_result x j r now sn"
  let ?old = "bm_get (sn_results sn) (j_key j)"
  let ?w = "settle_view ?old ?r ?st"
  have "tr \<in> set (v_transitions (snd (settle_visit x j now ?old ?r ?st)))"
    using tr kind expire_transitions_stale unfolding apply_core_blocks settle_transitions by fastforce
  then have gone: "(tr_finding tr, tr_kind tr) \<in> set (v_removed (snd (settle_visit x j now ?old ?r ?st)))"
    using judging_transitions [where tr = tr and x = x and j = j and r = r and now = now and sn = sn] kind
    by (auto simp: settle_visit_def dest!: visit_findings_transitions)
  then obtain f where "(tr_finding tr, f) \<in> set (sn_findings (a_snapshot ?st))"
    and f: "may_retire j ?w (tr_finding tr) f (tr_kind tr)"
    by (auto simp: settle_visit_def dest!: visit_findings_removed)
  moreover have "bm_wf (sn_findings (a_snapshot ?st))"
    using judging_ok [OF ok] by (simp add: snapshot_ok_def)
  moreover have "tr_finding tr \<notin> a_current ?st" using f by (simp add: may_retire_def)
  ultimately have "bm_get (sn_findings sn) (tr_finding tr) = Some f"
    by (metis bm.get_entries judging_untouched)
  moreover have "tr_finding tr \<in> fst ` set (v_removed (snd (settle_visit x j now ?old ?r ?st)))"
    using gone by force
  ultimately show ?thesis
    using f by (simp add: apply_core_blocks settle_blocks settle_removed_def expire_findings_get
        fold_remove_get)
qed

text \<open>Which findings are new after an application.\<close>

definition raised :: "job \<Rightarrow> observation \<Rightarrow> finding \<Rightarrow> bool" where
  "raised j obs f \<longleftrightarrow> assessed j obs \<and>
     f_id f = o_resource obs @ ''/'' @ f_rule f \<and> f_resource f = o_resource obs \<and>
     f_evidence f = [o_operation obs] \<and> f_observed_at f = o_observed_at obs \<and>
     f_check f = Some (j_check j) \<and> f_clear_count f = 0 \<and> \<not> f_stale f"

lemma judgement_raises:
  assumes "f \<in> set (ev_findings (snd (judgement x j now obs st)))"
  shows "raised j obs (stamp_finding x j obs f)" and "raised j obs ((stamp_finding x j obs f)\<lparr>f_diagnostic := d\<rparr>)"
  using assms judged.findings_about
  by (auto simp: judgement_def raised_def stamp_finding_def Let_def result_def split: if_splits)

lemma record_finding_raised:
  assumes "f \<in> set (ev_findings (snd (judgement x j now obs st0)))"
    and "bm_get (sn_findings (a_snapshot (record_finding x j obs prior now f st))) i = Some g"
  shows "bm_get (sn_findings (a_snapshot st)) i = Some g \<or> raised j obs g"
  using assms(2) judgement_raises(2) [OF assms(1)]
  by (auto simp: record_finding_def Let_def prod.case_eq_if bm.get_put split: if_splits)

lemma fold_record_raised:
  assumes "set fs \<subseteq> set (ev_findings (snd (judgement x j now obs st0)))"
    and "bm_get (sn_findings (a_snapshot (fold (record_finding x j obs prior now) fs st))) i = Some g"
  shows "bm_get (sn_findings (a_snapshot st)) i = Some g \<or> raised j obs g"
  using assms
proof (induction fs arbitrary: st)
  case (Cons f fs)
  have "bm_get (sn_findings (a_snapshot (record_finding x j obs prior now f st))) i = Some g \<or> raised j obs g"
    using Cons by simp
  then show ?case
    using record_finding_raised [of f x j now obs st0 prior st i g] Cons.prems(1) by auto
qed simp

lemma judge_raised:
  assumes "bm_get (sn_findings (a_snapshot (fold (judge_observation x j now) obss st))) i = Some g"
  shows "bm_get (sn_findings (a_snapshot st)) i = Some g \<or> (\<exists>obs \<in> set obss. raised j obs g)"
  using assms
proof (induction obss arbitrary: st)
  case (Cons obs obss)
  have "bm_get (sn_findings (a_snapshot (judge_observation x j now obs st))) i = Some g \<or>
      (\<exists>obs \<in> set obss. raised j obs g)"
    using Cons by simp
  then show ?case
    using fold_record_raised [of "ev_findings (snd (judgement x j now obs st))" x j now obs st
        "index_prior (a_index st) obs" "observe x j now obs st" i g]
    by (auto simp: judge_observation_def)
qed simp

text \<open>What a visit leaves of a finding it does not remove.\<close>

definition same_fault :: "finding \<Rightarrow> finding \<Rightarrow> bool" where
  "same_fault f g \<longleftrightarrow> f_id g = f_id f \<and> f_resource g = f_resource f \<and> f_rule g = f_rule f \<and>
     f_severity g = f_severity f \<and> f_evidence g = f_evidence f \<and> f_check g = f_check f \<and>
     f_diagnostic g = f_diagnostic f"

lemma same_fault_refl [simp]: "same_fault f f"
  by (simp add: same_fault_def)

lemma visit_finding_same: "same_fault f (fst (visit_finding x j now w i f v))"
  by (simp add: visit_finding_def Let_def same_fault_def split: option.split)

lemma visit_findings_same:
  "(i, g) \<in> set (fst (visit_findings x j now w fs v)) \<Longrightarrow> \<exists>f. (i, f) \<in> set fs \<and> same_fault f g"
proof (induction x j now w fs v rule: visit_findings.induct)
  case (2 x j now w k f fs v)
  let ?v = "visit_finding x j now w k f v"
  show ?case
    using 2(1) [of "fst ?v" "snd ?v"] 2(2) visit_finding_same [of f x j now w k v]
    by (auto simp: prod.case_eq_if)
qed simp

lemma apply_core_raised:
  assumes ok: "snapshot_ok sn"
    and g: "bm_get (sn_findings (fst (apply_core x j r now sn))) i = Some g"
    and new: "\<not> bm_has (sn_findings sn) i"
  shows "\<exists>obs \<in> set (r_observations (admitted_result x j r now sn)).
     \<exists>f. raised j obs f \<and> same_fault f g"
proof -
  let ?st = "judging x j r now sn"
  let ?v = "settle_visit x j now (bm_get (sn_results sn) (j_key j)) (judged_result x j r now sn) ?st"
  obtain g' where g': "bm_get (fst ?v) i = Some g'" and same: "same_fault g' g"
    using g unfolding apply_core_blocks settle_blocks
    by (auto simp: expire_findings_get settle_removed_def fold_remove_get same_fault_def
        expire_finding_def split: if_splits)
  then obtain f where "(i, f) \<in> set (sn_findings (a_snapshot ?st))" and f: "same_fault f g'"
    using map_of_SomeD visit_findings_same unfolding settle_visit_def by metis
  then have "bm_get (sn_findings (a_snapshot ?st)) i = Some f"
    using judging_ok [OF ok] by (simp add: snapshot_ok_def bm.get_entries)
  then obtain obs where "obs \<in> set (r_observations (admitted_result x j r now sn))" "raised j obs f"
    using new unfolding judge_result_def by (auto dest!: judge_raised)
  with f same show ?thesis by (auto simp: same_fault_def)
qed

section \<open>The whole application\<close>

lemma keep_samples_frame [simp]:
  "sn_findings (keep_samples j a b) = sn_findings b" "sn_retired (keep_samples j a b) = sn_retired b"
  "sn_results (keep_samples j a b) = sn_results b" "sn_health (keep_samples j a b) = sn_health b"
  "snapshot_ok (keep_samples j a b) = snapshot_ok b" "asset_count (keep_samples j a b) = asset_count b"
  by (simp_all add: keep_samples_def asset_count_def)

lemma asset_count_progress [simp]: "asset_count (sn\<lparr>sn_progress := g\<rparr>) = asset_count sn"
  by (simp add: asset_count_def)

text \<open>The derived flow evaluation is one more application.\<close>

lemma apply_result_cases:
  obtains (plain) "apply_result x j r now sn = apply_core x j r now sn"
  | (flows) g fr where "apply_result x j r now sn =
      (keep_samples (flow_job j) ((fst (apply_core x j r now sn))\<lparr>sn_progress := g\<rparr>)
         (fst (apply_core x (flow_job j) fr now ((fst (apply_core x j r now sn))\<lparr>sn_progress := g\<rparr>))),
       snd (apply_core x j r now sn) @
         snd (apply_core x (flow_job j) fr now ((fst (apply_core x j r now sn))\<lparr>sn_progress := g\<rparr>)))"
      "complete_ids fr \<subseteq> Collect derived_id"
proof (cases "j_flows_enabled j \<and> j_check j \<noteq> CFlows")
  case True
  let ?sn = "fst (apply_core x j r now sn)"
  let ?f = "flows_evaluate x ?sn (flow_job j) now"
  show ?thesis
  proof (rule flows [of "fst ?f" "snd ?f"])
    show "complete_ids (snd ?f) \<subseteq> Collect derived_id"
      using complete_ids_flows by (auto simp: derived_id_def)
  qed (use True in \<open>simp add: apply_result_def Let_def prod.case_eq_if\<close>)
next
  case False
  then show ?thesis by (intro plain) (auto simp: apply_result_def prod.case_eq_if)
qed

lemma apply_result_ok: "snapshot_ok sn \<Longrightarrow> snapshot_ok (fst (apply_result x j r now sn))"
  by (cases rule: apply_result_cases [of x j r now sn]) (simp_all add: apply_core_ok)

interpretation applying: snapshot_step "\<lambda>sn. fst (apply_result x j r now sn)" for x j r now
  by unfold_locales (rule apply_result_ok)

definition flow_limits :: "job \<Rightarrow> settings" where
  "flow_limits j = unwrap_or (j_settings j) (j_flow_settings j)"

lemma flow_job_settings [simp]: "j_settings (flow_job j) = flow_limits j"
  by (simp add: flow_job_def flow_limits_def)

lemma apply_result_findings:
  assumes ok: "snapshot_ok sn" and n: "s_max_findings (j_settings j) \<le> n" "s_max_findings (flow_limits j) \<le> n"
    and before: "length (sn_findings sn) \<le> n"
  shows "length (sn_findings (fst (apply_result x j r now sn))) \<le> n"
proof -
  let ?sn = "fst (apply_core x j r now sn)"
  have one: "length (sn_findings ?sn) \<le> n"
    using apply_core_findings [OF ok, of x j r now] n(1) before by linarith
  show ?thesis
  proof (cases rule: apply_result_cases [of x j r now sn])
    case plain
    then show ?thesis using one by simp
  next
    case (flows g fr)
    have "snapshot_ok (?sn\<lparr>sn_progress := g\<rparr>)" by (simp add: apply_core_ok ok)
    from apply_core_findings [OF this, of x "flow_job j" fr now] one n(2) show ?thesis
      by (simp add: flows(1))
  qed
qed

lemma apply_result_retired:
  assumes ok: "snapshot_ok sn" and n: "s_max_findings (j_settings j) \<le> n" "s_max_findings (flow_limits j) \<le> n"
  shows "length (sn_retired (fst (apply_result x j r now sn))) \<le> n"
proof (cases rule: apply_result_cases [of x j r now sn])
  case plain
  then show ?thesis using apply_core_retired [OF ok, of x j r now] n(1) by simp
next
  case (flows g fr)
  have "snapshot_ok ((fst (apply_core x j r now sn))\<lparr>sn_progress := g\<rparr>)"
    by (simp add: apply_core_ok ok)
  from apply_core_retired [OF this, of x "flow_job j" fr now] n(2) show ?thesis
    by (simp add: flows(1))
qed

lemma apply_result_assets:
  assumes ok: "snapshot_ok sn" and n: "s_max_assets (j_settings j) \<le> n" "s_max_assets (flow_limits j) \<le> n"
    and before: "asset_count sn \<le> n"
  shows "asset_count (fst (apply_result x j r now sn)) \<le> n"
proof -
  let ?sn = "fst (apply_core x j r now sn)"
  have one: "asset_count ?sn \<le> n"
    using apply_core_assets [OF ok, of x j r now] n(1) before by linarith
  show ?thesis
  proof (cases rule: apply_result_cases [of x j r now sn])
    case plain
    then show ?thesis using one by simp
  next
    case (flows g fr)
    have "snapshot_ok (?sn\<lparr>sn_progress := g\<rparr>)" by (simp add: apply_core_ok ok)
    from apply_core_assets [OF this, of x "flow_job j" fr now] one n(2) show ?thesis
      by (simp add: flows(1))
  qed
qed

text \<open>The evidence of a finding that survives: its own, or the observation that raised it again.\<close>

lemma apply_core_evidence:
  assumes ok: "snapshot_ok sn" and f: "bm_get (sn_findings sn) i = Some f"
    and g: "bm_get (sn_findings (fst (apply_core x j r now sn))) i = Some g"
  shows "f_evidence g = f_evidence f \<or>
     (\<exists>obs \<in> set (r_observations (admitted_result x j r now sn)). f_evidence g = [o_operation obs])"
proof -
  let ?st = "judging x j r now sn"
  let ?v = "settle_visit x j now (bm_get (sn_results sn) (j_key j)) (judged_result x j r now sn) ?st"
  obtain g' where g': "bm_get (fst ?v) i = Some g'" and same: "f_evidence g = f_evidence g'"
    using g unfolding apply_core_blocks settle_blocks
    by (auto simp: expire_findings_get settle_removed_def fold_remove_get expire_finding_def
        split: if_splits)
  then obtain h where "(i, h) \<in> set (sn_findings (a_snapshot ?st))" and h: "same_fault h g'"
    using map_of_SomeD visit_findings_same unfolding settle_visit_def by metis
  then have "bm_get (sn_findings (a_snapshot ?st)) i = Some h"
    using judging_ok [OF ok] by (simp add: snapshot_ok_def bm.get_entries)
  then have "h = f \<or> (\<exists>obs \<in> set (r_observations (admitted_result x j r now sn)). raised j obs h)"
    using f unfolding judge_result_def by (auto dest!: judge_raised)
  then show ?thesis using h same by (auto simp: same_fault_def raised_def)
qed

lemma apply_result_keeps:
  assumes ok: "snapshot_ok sn" and f: "bm_get (sn_findings sn) i = Some f"
    and e: "\<And>e. e \<in> set (f_evidence f) \<Longrightarrow> e \<notin> complete_ids r \<and> \<not> derived_id e"
    and obs: "\<And>obs. obs \<in> set (r_observations (admitted_result x j r now sn)) \<Longrightarrow> \<not> derived_id (o_operation obs)"
  shows "bm_has (sn_findings (fst (apply_result x j r now sn))) i"
proof -
  let ?sn = "fst (apply_core x j r now sn)"
  obtain g where g: "bm_get (sn_findings ?sn) i = Some g"
    using apply_core_keeps [OF ok f e] by fastforce
  show ?thesis
  proof (cases rule: apply_result_cases [of x j r now sn])
    case plain
    then show ?thesis using g by simp
  next
    case (flows p fr)
    have "\<not> derived_id e'" if "e' \<in> set (f_evidence g)" for e'
      using apply_core_evidence [OF ok f g] e obs that by auto
    then have "e' \<notin> complete_ids fr \<and> \<not> derived_id e'" if "e' \<in> set (f_evidence g)" for e'
      using that flows(2) by auto
    then show ?thesis
      using apply_core_keeps [of "?sn\<lparr>sn_progress := p\<rparr>" i g fr x "flow_job j" now] g
      by (simp add: flows(1) apply_core_ok ok)
  qed
qed

end
