(* ===== verification/Lifecycle.thy ===== *)
theory Lifecycle
  imports Apply_Facts
begin

text \<open>
  \<open>crates/core/src/state_lifecycle.rs\<close>: fresh snapshots, one-off runs, configuration
  reloads and the scope a snapshot keeps for a list of jobs. Expiry and trimming, which
  \<open>State::apply\<close> calls, are in \<open>State\<close>.
\<close>

section \<open>Fresh snapshots and runs\<close>

definition new_snapshot :: "ext \<Rightarrow> string \<Rightarrow> string list \<Rightarrow> snapshot" where
  "new_snapshot x revision selected =
     \<lparr>sn_version = 1, sn_revision = revision, sn_captured_at = x_wall x,
      sn_selected_scope = selected, sn_collection_only = [], sn_scope_fingerprints = [],
      sn_samples = [], sn_selectors = [], sn_regions = [], sn_freshness = [], sn_results = [],
      sn_findings = [], sn_health = [], sn_pressure = [], sn_progress = [], sn_retired = [],
      sn_confirmations = [], sn_persistence_fault = False, sn_dropped_transitions = 0\<rparr>"

definition begin_run :: "snapshot \<Rightarrow> snapshot" where
  "begin_run sn =
     sn\<lparr>sn_results := [], sn_health := [], sn_pressure := [], sn_progress := [],
        sn_confirmations := [], sn_samples := []\<rparr>"

text \<open>\<open>refresh_releases\<close>: stored release results are judged again against later evidence.\<close>

definition refreshes :: "job \<Rightarrow> bool" where
  "refreshes j \<longleftrightarrow> j_check j = CReleases \<and> \<not> j_artifact_only j \<and> t_provider (j_target j) \<noteq> Github"

fun refresh_releases :: "ext \<Rightarrow> job list \<Rightarrow> instant \<Rightarrow> snapshot \<Rightarrow> snapshot \<times> transition list" where
  "refresh_releases x [] now sn = (sn, [])"
| "refresh_releases x (j # js) now sn =
     (case (if refreshes j then bm_get (sn_results sn) (j_key j) else None) of
        None \<Rightarrow> refresh_releases x js now sn
      | Some r \<Rightarrow>
          (case apply_derived x j r now sn of
             (sn', ts) \<Rightarrow> (case refresh_releases x js now sn' of
                (sn'', ts') \<Rightarrow> (sn'', ts @ ts'))))"

section \<open>Scope\<close>

text \<open>One job of the second loop of \<open>retain_scope\<close>.\<close>

definition drops_finding :: "job \<Rightarrow> finding \<Rightarrow> bool" where
  "drops_finding j f \<longleftrightarrow> in_target j (f_resource f) \<and> is_none_or (\<lambda>c. c = j_check j) (f_check f)"

definition rescope :: "job \<Rightarrow> snapshot \<Rightarrow> snapshot" where
  "rescope j sn =
     (let sn = (if bm_get (sn_scope_fingerprints sn) (j_key j) \<noteq> Some (observation_scope j)
                then sn\<lparr>sn_results := bm_del (j_key j) (sn_results sn),
                        sn_retired := bm_retain (\<lambda>i _. \<not> in_target j i) (sn_retired sn),
                        sn_findings := bm_retain (\<lambda>_ f. \<not> drops_finding j f) (sn_findings sn),
                        sn_pressure := bm_retain (\<lambda>k _. \<not> in_target j k) (sn_pressure sn),
                        sn_progress := bm_retain (\<lambda>k _. \<not> in_target j k) (sn_progress sn)\<rparr>
                else sn)
      in if is_some_and (\<lambda>sel. sel \<noteq> t_resources (j_target j)) (bm_get (sn_selectors sn) (j_key j))
         then sn\<lparr>sn_results := bm_del (j_key j) (sn_results sn)\<rparr>
         else sn)"

definition flow_keys :: "job list \<Rightarrow> string set" where
  "flow_keys js =
     set (concat (map (\<lambda>j. concat (map (\<lambda>fl. map (\<lambda>st.
       t_name (j_target j) @ ''/flows/'' @ fl_name fl @ ''/'' @ st_name st) (fl_stages fl))
         (t_flows (j_target j)))) (filter j_flows_enabled js)))"

definition observed_by :: "job list \<Rightarrow> snapshot \<Rightarrow> string set" where
  "observed_by js sn =
     set (concat (map (\<lambda>r. map o_resource (r_observations r))
       (List.map_filter (\<lambda>j. bm_get (sn_results sn) (j_key j)) (filter j_assess_health js))))"

text \<open>The finding is in the selected scope of an assessing job.\<close>

definition covers_finding :: "job \<Rightarrow> finding \<Rightarrow> bool" where
  "covers_finding j f \<longleftrightarrow> j_assess_health j \<and> in_target j (f_resource f) \<and>
     is_none_or (\<lambda>c. c = j_check j) (f_check f) \<and>
     (t_resources (j_target j) = [] \<or>
      list_ex (\<lambda>selector. str_contains (f_resource f) selector) (t_resources (j_target j)))"

definition confirmed_finding :: "string \<Rightarrow> string" where
  "confirmed_finding key = (case split_once CHR ''|'' key of Some (_, i) \<Rightarrow> i | None \<Rightarrow> key)"

definition first_regions :: "job list \<Rightarrow> (string, string list) bmap" where
  "first_regions js =
     fold (\<lambda>j m. if bm_has m (t_name (j_target j)) then m
                 else bm_put (t_name (j_target j)) (t_regions (j_target j)) m) js []"

definition retain_scope :: "job list \<Rightarrow> snapshot \<Rightarrow> snapshot" where
  "retain_scope js sn =
     (let sn = sn\<lparr>sn_regions := first_regions js\<rparr>;
          sn = (case js of
                  j # _ \<Rightarrow> if j_revision j \<noteq> sn_revision sn
                           then sn\<lparr>sn_pressure := [], sn_progress := []\<rparr> else sn
                | [] \<Rightarrow> sn);
          sn = fold rescope js sn;
          keys = set (map j_key js);
          sn = sn\<lparr>sn_selectors := bm_collect (map (\<lambda>j. (j_key j, t_resources (j_target j))) js),
                  sn_scope_fingerprints := bm_collect (map (\<lambda>j. (j_key j, observation_scope j)) js),
                  sn_progress := bm_retain (\<lambda>k _. k \<in> flow_keys js) (sn_progress sn),
                  sn_results := bm_retain (\<lambda>k _. k \<in> keys) (sn_results sn)\<rparr>;
          observed = observed_by js sn;
          sn = sn\<lparr>sn_health := bm_retain (\<lambda>k _. k \<in> observed) (sn_health sn),
                  sn_freshness := fold (\<lambda>j. bm_put (j_key j) (job_freshness j)) js
                    (bm_retain (\<lambda>k _. k \<in> keys) (sn_freshness sn)),
                  sn_samples := bm_retain (\<lambda>k _. k \<in> keys) (sn_samples sn),
                  sn_findings := bm_retain (\<lambda>_ f. list_ex (\<lambda>j. covers_finding j f) js) (sn_findings sn)\<rparr>
      in sn\<lparr>sn_confirmations :=
              bm_retain (\<lambda>k _. bm_has (sn_findings sn) (confirmed_finding k)) (sn_confirmations sn),
            sn_selected_scope := map j_key js,
            sn_collection_only := bs_collect (map j_key (filter (\<lambda>j. \<not> j_assess_health j) js))\<rparr>)"

text \<open>\<open>reconfigured\<close>: a reload either fits the new limits or is refused.\<close>

definition reconfigured :: "ext \<Rightarrow> job list \<Rightarrow> snapshot \<Rightarrow> error + snapshot" where
  "reconfigured x js sn =
     (let next = retain_scope js sn
      in case js of
           [] \<Rightarrow> Inl EvidenceError
         | j # _ \<Rightarrow>
             (let s = j_settings j;
                  next = trim_retired (s_max_findings s) next;
                  assets = sum_list (map (\<lambda>(_, r). length (r_observations r)) (sn_results next));
                  bytes = sum_list (map (\<lambda>(_, r). result_bytes x r) (sn_results next))
              in if s_max_assets s < assets \<or> s_max_findings s < length (sn_findings next) \<or>
                    s_memory_bytes s div 2 < bytes
                 then Inl (ConfigError ''replacement limits cannot retain current evidence; previous configuration retained'')
                 else Inr (next\<lparr>sn_revision := j_revision j\<rparr>)))"

section \<open>Lemmas\<close>

lemma new_snapshot_ok: "snapshot_ok (new_snapshot x revision selected)"
  by (simp add: snapshot_ok_def new_snapshot_def)

lemma begin_run_ok: "snapshot_ok sn \<Longrightarrow> snapshot_ok (begin_run sn)"
  by (auto simp: snapshot_ok_def begin_run_def)

lemma apply_derived_fst [simp]:
  "fst (apply_derived x j r now sn) = keep_samples j sn (fst (apply_result x j r now sn))"
  by (simp add: apply_derived_def prod.case_eq_if)

lemma refresh_releases_ok: "snapshot_ok sn \<Longrightarrow> snapshot_ok (fst (refresh_releases x js now sn))"
proof (induction x js now sn rule: refresh_releases.induct)
  case (2 x j js now sn)
  show ?case
  proof (cases "if refreshes j then bm_get (sn_results sn) (j_key j) else None")
    case None
    then show ?thesis using 2 by simp
  next
    case (Some r)
    let ?d = "apply_derived x j r now sn"
    have "snapshot_ok (fst ?d)" by (simp add: apply_result_ok 2)
    then have "snapshot_ok (fst (refresh_releases x js now (fst ?d)))"
      by (intro 2(2) [OF Some prod.collapse])
    then show ?thesis by (simp add: Some prod.case_eq_if)
  qed
qed simp

text \<open>Retaining entries of the maps keeps a snapshot well formed.\<close>

lemma snapshot_ok_retain:
  assumes "snapshot_ok sn"
    and "sn_findings sn' = bm_retain p (sn_findings sn)" and "sn_retired sn' = bm_retain q (sn_retired sn)"
    and "bm_wf (sn_health sn')" and "bm_wf (sn_results sn')" and "bm_wf (sn_confirmations sn')"
  shows "snapshot_ok sn'"
  using assms by (auto simp: snapshot_ok_def bm_wf_retain get_bm_retain split: option.splits if_splits)

lemma bm_retain_True [simp]: "bm_retain (\<lambda>_ _. True) m = m"
  by (simp add: bm_retain_def)

lemma bm_retain_retain: "bm_retain p (bm_retain q m) = bm_retain (\<lambda>k v. q k v \<and> p k v) m"
  by (simp add: bm_retain_def case_prod_unfold conj_commute)

lemma bm_del_retain: "bm_del k m = bm_retain (\<lambda>k' _. k' \<noteq> k) m"
  by (simp add: bm_del_def bm_retain_def)

lemma rescope_frame [simp]:
  "sn_scope_fingerprints (rescope j sn) = sn_scope_fingerprints sn"
  "sn_selectors (rescope j sn) = sn_selectors sn"
  "sn_health (rescope j sn) = sn_health sn"
  "sn_confirmations (rescope j sn) = sn_confirmations sn"
  by (simp_all add: rescope_def Let_def)

text \<open>Each of the maps a rescoping touches is a selection of its entries.\<close>

lemma rescope_retains:
  "\<exists>p. sn_findings (rescope j sn) = bm_retain p (sn_findings sn)"
  "\<exists>p. sn_retired (rescope j sn) = bm_retain p (sn_retired sn)"
  "\<exists>p. sn_results (rescope j sn) = bm_retain p (sn_results sn)"
  by (auto simp: rescope_def Let_def bm_del_retain bm_retain_retain
      intro: exI [of _ "\<lambda>_ _. True"])

lemma fold_rescope_retains:
  "\<exists>p. sn_findings (fold rescope js sn) = bm_retain p (sn_findings sn)"
  "\<exists>p. sn_retired (fold rescope js sn) = bm_retain p (sn_retired sn)"
  "\<exists>p. sn_results (fold rescope js sn) = bm_retain p (sn_results sn)"
proof -
  have "(\<exists>p. sn_findings (fold rescope js sn) = bm_retain p (sn_findings sn)) \<and>
      (\<exists>p. sn_retired (fold rescope js sn) = bm_retain p (sn_retired sn)) \<and>
      (\<exists>p. sn_results (fold rescope js sn) = bm_retain p (sn_results sn))"
  proof (induction js arbitrary: sn)
    case Nil
    then show ?case by (auto intro: exI [of _ "\<lambda>_ _. True"])
  next
    case (Cons j js)
    obtain p q r where
      "sn_findings (rescope j sn) = bm_retain p (sn_findings sn)"
      "sn_retired (rescope j sn) = bm_retain q (sn_retired sn)"
      "sn_results (rescope j sn) = bm_retain r (sn_results sn)"
      using rescope_retains by metis
    with Cons.IH [of "rescope j sn"] show ?case by (auto simp: bm_retain_retain)
  qed
  then show "\<exists>p. sn_findings (fold rescope js sn) = bm_retain p (sn_findings sn)"
    "\<exists>p. sn_retired (fold rescope js sn) = bm_retain p (sn_retired sn)"
    "\<exists>p. sn_results (fold rescope js sn) = bm_retain p (sn_results sn)" by blast+
qed

lemma fold_rescope_frame [simp]:
  "sn_health (fold rescope js sn) = sn_health sn"
  "sn_confirmations (fold rescope js sn) = sn_confirmations sn"
  by (induction js arbitrary: sn) simp_all

text \<open>Results observed under another scope, or with other selectors, are dropped.\<close>

lemma rescope_results:
  assumes "bm_get (sn_results (rescope j sn)) k = Some r"
  shows "bm_get (sn_results sn) k = Some r"
    and "j_key j = k \<Longrightarrow> bm_get (sn_scope_fingerprints sn) k = Some (observation_scope j)"
    and "j_key j = k \<Longrightarrow> bm_get (sn_selectors sn) k \<in> {None, Some (t_resources (j_target j))}"
  using assms
  by (cases "bm_get (sn_selectors sn) k";
      auto simp: rescope_def Let_def get_bm_del is_some_and_iff split: if_splits)+

lemma fold_rescope_results:
  assumes "bm_get (sn_results (fold rescope js sn)) k = Some r"
  shows "bm_get (sn_results sn) k = Some r \<and>
     (\<forall>j \<in> set js. j_key j = k \<longrightarrow>
       bm_get (sn_scope_fingerprints sn) k = Some (observation_scope j) \<and>
       bm_get (sn_selectors sn) k \<in> {None, Some (t_resources (j_target j))})"
  using assms
proof (induction js arbitrary: sn)
  case (Cons j js)
  have IH: "bm_get (sn_results (rescope j sn)) k = Some r"
    "\<forall>j' \<in> set js. j_key j' = k \<longrightarrow>
       bm_get (sn_scope_fingerprints sn) k = Some (observation_scope j') \<and>
       bm_get (sn_selectors sn) k \<in> {None, Some (t_resources (j_target j'))}"
    using Cons.IH [of "rescope j sn"] Cons.prems by auto
  with rescope_results [OF IH(1)] show ?case by auto
qed simp

definition scoped_start :: "job list \<Rightarrow> snapshot \<Rightarrow> snapshot" where
  "scoped_start js sn =
     (let sn = sn\<lparr>sn_regions := first_regions js\<rparr>
      in case js of
           j # _ \<Rightarrow> if j_revision j \<noteq> sn_revision sn then sn\<lparr>sn_pressure := [], sn_progress := []\<rparr> else sn
         | [] \<Rightarrow> sn)"

lemma scoped_start_frame [simp]:
  "sn_findings (scoped_start js sn) = sn_findings sn" "sn_retired (scoped_start js sn) = sn_retired sn"
  "sn_results (scoped_start js sn) = sn_results sn" "sn_health (scoped_start js sn) = sn_health sn"
  "sn_confirmations (scoped_start js sn) = sn_confirmations sn"
  "sn_scope_fingerprints (scoped_start js sn) = sn_scope_fingerprints sn"
  "sn_selectors (scoped_start js sn) = sn_selectors sn"
  by (simp_all add: scoped_start_def Let_def split: list.split)

lemma retain_scope_fields:
  "sn_findings (retain_scope js sn) = bm_retain (\<lambda>_ f. list_ex (\<lambda>j. covers_finding j f) js)
     (sn_findings (fold rescope js (scoped_start js sn)))"
  "sn_retired (retain_scope js sn) = sn_retired (fold rescope js (scoped_start js sn))"
  "sn_results (retain_scope js sn) =
     bm_retain (\<lambda>k _. k \<in> set (map j_key js)) (sn_results (fold rescope js (scoped_start js sn)))"
  by (simp_all add: retain_scope_def scoped_start_def Let_def cong: list.case_cong)

lemma retain_scope_others:
  "\<exists>p. sn_health (retain_scope js sn) = bm_retain p (sn_health (fold rescope js (scoped_start js sn)))"
  "\<exists>p. sn_confirmations (retain_scope js sn) =
     bm_retain p (sn_confirmations (fold rescope js (scoped_start js sn)))"
  by (auto simp: retain_scope_def scoped_start_def Let_def cong: list.case_cong)

lemma retain_scope_ok: "snapshot_ok sn \<Longrightarrow> snapshot_ok (retain_scope js sn)"
proof -
  assume ok: "snapshot_ok sn"
  obtain p q r where r: "sn_findings (fold rescope js (scoped_start js sn)) = bm_retain p (sn_findings sn)"
    "sn_retired (fold rescope js (scoped_start js sn)) = bm_retain q (sn_retired sn)"
    "sn_results (fold rescope js (scoped_start js sn)) = bm_retain r (sn_results sn)"
    using fold_rescope_retains [of js "scoped_start js sn"] by auto
  show ?thesis
  proof (rule snapshot_ok_retain [OF ok])
    show "sn_retired (retain_scope js sn) = bm_retain q (sn_retired sn)"
      by (simp add: retain_scope_fields r)
    show "bm_wf (sn_health (retain_scope js sn))" "bm_wf (sn_confirmations (retain_scope js sn))"
      using retain_scope_others [of js sn] ok by (auto simp: bm_wf_retain snapshot_ok_def)
    show "bm_wf (sn_results (retain_scope js sn))"
      using ok by (simp add: retain_scope_fields r bm_wf_retain snapshot_ok_def)
  qed (simp add: retain_scope_fields r bm_retain_retain)
qed

interpretation fresh_run: snapshot_step begin_run
  by unfold_locales (rule begin_run_ok)

interpretation release_refresh: snapshot_step "\<lambda>sn. fst (refresh_releases x js now sn)" for x js now
  by unfold_locales (rule refresh_releases_ok)

interpretation scope_retention: snapshot_step "retain_scope js" for js
  by unfold_locales (rule retain_scope_ok)

lemma reconfigured_Inr:
  assumes "reconfigured x js sn = Inr next"
  obtains j js' where "js = j # js'"
    "next = (trim_retired (s_max_findings (j_settings j)) (retain_scope js sn))\<lparr>sn_revision := j_revision j\<rparr>"
    "asset_count next \<le> s_max_assets (j_settings j)"
    "length (sn_findings next) \<le> s_max_findings (j_settings j)"
    "sum_list (map (\<lambda>(_, r). result_bytes x r) (sn_results next)) \<le> s_memory_bytes (j_settings j) div 2"
  using assms
  by (auto simp: reconfigured_def Let_def asset_count_def split: list.splits if_splits)

end
