(* ===== verification/Samples.thy ===== *)
theory Samples
  imports Config_Types
begin

text \<open>
  Concrete values the witnesses of the properties share: a library environment, a
  target, a job of it, and an observation, an operation and a finding of that job.
\<close>

definition sample_ext :: ext where
  "sample_ext = \<lparr>x_obs_json = (\<lambda>_. Some 100), x_sizeof_obs = 300, x_sizeof_op = 80,
     x_add_secs = (\<lambda>t n. Some (t + n * nanos_per_sec)),
     x_sub_secs = (\<lambda>t n. Some (t - n * nanos_per_sec)),
     x_cron = (\<lambda>_ _ t. Some (Some t)), x_wall = 0\<rparr>"

definition sample_target :: target where
  "sample_target = \<lparr>t_name = ''prod'', t_provider = Gcp, t_scope = ''project'', t_credential = None,
     t_regions = [''us''], t_github_credential = None, t_context = None, t_cluster = None,
     t_cluster_location = None, t_timezone = None, t_expected = Active, t_expectations = [],
     t_resources = [], t_settings = empty_patch, t_checks = [], t_endpoints = [],
     t_repositories = [], t_artifact_targets = [], t_build_targets = [], t_build_repositories = [],
     t_repository_refs = [], t_desired_file = None, t_source_ref = None, t_watched_secrets = [],
     t_metrics = [], t_slo_goals = [], t_nats_url = None, t_nats_fallback = None, t_flows = [],
     t_flows_required = False, t_change = None\<rparr>"

definition sample_job :: job where
  "sample_job = \<lparr>j_artifact_only = False, j_assess_health = True, j_requested_checks = [],
     j_kube_only = False, j_sampling_explicit = False, j_interval_explicit = False,
     j_continuous = False, j_log_start = None, j_log_end = None, j_key = ''prod/Kubernetes'',
     j_target = sample_target, j_check = CKubernetes, j_settings = default_settings,
     j_revision = ''r1'', j_flows_enabled = False, j_flow_settings = None, j_severity = []\<rparr>"

definition sample_observation :: observation where
  "sample_observation = \<lparr>o_context = None, o_resource = ''prod/ns/deployment/api'',
     o_operation = ''workloads'', o_observed_at = 0, o_expected = Active,
     o_data = Condition ''ready'' (Some False)\<rparr>"

definition sample_operation :: "coverage \<Rightarrow> operation" where
  "sample_operation c = \<lparr>op_id = ''workloads'', op_coverage = c, op_observed_at = 0, op_records = 1,
     op_pages = 1, op_attempts = 1, op_required = True\<rparr>"

definition sample_result :: "coverage \<Rightarrow> observation list \<Rightarrow> check_result" where
  "sample_result c obss = \<lparr>r_target = ''prod'', r_check = CKubernetes, r_revision = ''r1'',
     r_started_at = 0, r_finished_at = 0, r_operations = [sample_operation c], r_observations = obss\<rparr>"

definition sample_finding :: finding where
  "sample_finding = \<lparr>f_diagnostic = None, f_check = Some CKubernetes,
     f_id = ''prod/ns/deployment/api/ready'', f_resource = ''prod/ns/deployment/api'',
     f_rule = ''ready'', f_severity = Error, f_evidence = [''workloads''], f_observed_at = 0,
     f_expected = Active, f_confidence = Direct, f_stale = False, f_clear_count = 0,
     f_valid_until = None\<rparr>"

definition sample_snapshot :: snapshot where
  "sample_snapshot = \<lparr>sn_version = 1, sn_revision = ''r1'', sn_captured_at = 0,
     sn_selected_scope = [], sn_collection_only = [], sn_scope_fingerprints = [], sn_samples = [],
     sn_selectors = [], sn_regions = [], sn_freshness = [], sn_results = [],
     sn_findings = [(''prod/ns/deployment/api/ready'', sample_finding)], sn_health = [],
     sn_pressure = [], sn_progress = [], sn_retired = [], sn_confirmations = [],
     sn_persistence_fault = False, sn_dropped_transitions = 0\<rparr>"

text \<open>What the samples hold, so that an evaluation need not unfold them.\<close>

lemma sample_result_simps [simp]:
  "r_operations (sample_result c obss) = [sample_operation c]"
  "r_observations (sample_result c obss) = obss"
  by (simp_all add: sample_result_def)

lemma sample_operation_simps [simp]:
  "op_id (sample_operation c) = ''workloads''" "op_coverage (sample_operation c) = c"
  "op_observed_at (sample_operation c) = 0" "op_required (sample_operation c)"
  by (simp_all add: sample_operation_def)

lemma sample_observation_simps [simp]:
  "o_resource sample_observation = ''prod/ns/deployment/api''"
  "o_operation sample_observation = ''workloads''" "o_observed_at sample_observation = 0"
  "o_expected sample_observation = Active" "o_data sample_observation = Condition ''ready'' (Some False)"
  by (simp_all add: sample_observation_def)

lemma sample_finding_simps [simp]:
  "f_id sample_finding = ''prod/ns/deployment/api/ready''"
  "f_resource sample_finding = ''prod/ns/deployment/api''" "f_rule sample_finding = ''ready''"
  "f_evidence sample_finding = [''workloads'']" "f_observed_at sample_finding = 0"
  "f_clear_count sample_finding = 0" "\<not> f_stale sample_finding"
  "f_check sample_finding = Some CKubernetes" "f_diagnostic sample_finding = None"
  "f_valid_until sample_finding = None" "f_severity sample_finding = Error"
  by (simp_all add: sample_finding_def)

lemma sample_snapshot_simps [simp]:
  "sn_results sample_snapshot = []" "sn_health sample_snapshot = []" "sn_retired sample_snapshot = []"
  "sn_findings sample_snapshot = [(''prod/ns/deployment/api/ready'', sample_finding)]"
  "sn_confirmations sample_snapshot = []" "sn_pressure sample_snapshot = []"
  "sn_scope_fingerprints sample_snapshot = []" "sn_selectors sample_snapshot = []"
  "sn_freshness sample_snapshot = []" "sn_progress sample_snapshot = []" "sn_samples sample_snapshot = []"
  by (simp_all add: sample_snapshot_def)

lemma sample_job_simps [simp]:
  "j_key sample_job = ''prod/Kubernetes''" "j_check sample_job = CKubernetes" "j_severity sample_job = []"
  "j_settings sample_job = default_settings" "j_target sample_job = sample_target"
  "j_assess_health sample_job" "\<not> j_flows_enabled sample_job" "j_flow_settings sample_job = None"
  "j_revision sample_job = ''r1''" "\<not> j_artifact_only sample_job"
  by (simp_all add: sample_job_def)

lemma sample_target_simps [simp]: "t_name sample_target = ''prod''" "t_resources sample_target = []"
  "t_flows sample_target = []" "t_regions sample_target = [''us'']"
  by (simp_all add: sample_target_def)

end
