(* ===== verification/State_Properties.thy ===== *)
theory State_Properties
  imports Lifecycle Samples
begin

text \<open>
  The properties of the state engine: what \<open>State::apply\<close>, expiry and reloads promise of
  the findings, the health map and the retained evidence, each with a concrete instance.
\<close>

section \<open>Helpers\<close>

lemmas sample_values = sample_snapshot_def sample_finding_def sample_result_def
  sample_operation_def sample_job_def sample_observation_def

lemma sample_snapshot_ok: "snapshot_ok sample_snapshot"
  by (simp add: snapshot_ok_def sample_snapshot_def bm_wf_def sample_finding_def)

lemma sample_finding_get:
  "bm_get (sn_findings sample_snapshot) ''prod/ns/deployment/api/ready'' = Some sample_finding"
  by (simp add: sample_snapshot_def)

lemma sample_failed [simp]: "complete_ids (sample_result Missing obss) = {}"
  by (simp add: complete_ids_def sample_result_def sample_operation_def)

lemma sample_not_derived [simp]: "\<not> derived_id ''workloads''"
  by (simp add: derived_id_def starts_with_def)

lemma length_apply_frame:
  "length (sn_findings sample_snapshot) = 1" "asset_count sample_snapshot = 0"
  by (simp_all add: sample_snapshot_def asset_count_def)

text \<open>A run: results applied in order, each for its job at its time.\<close>

definition run_results :: "ext \<Rightarrow> (job \<times> check_result \<times> instant) list \<Rightarrow> snapshot \<Rightarrow> snapshot" where
  "run_results x steps sn = fold (\<lambda>(j, r, now) sn. fst (apply_result x j r now sn)) steps sn"

definition job_within :: "nat \<Rightarrow> nat \<Rightarrow> job \<Rightarrow> bool" where
  "job_within findings assets j \<longleftrightarrow>
     s_max_findings (j_settings j) \<le> findings \<and> s_max_findings (flow_limits j) \<le> findings \<and>
     s_max_assets (j_settings j) \<le> assets \<and> s_max_assets (flow_limits j) \<le> assets"

lemma run_results_bounded:
  assumes "\<forall>(j, _) \<in> set steps. job_within n m j" and "snapshot_ok sn"
    and "length (sn_findings sn) \<le> n" and "length (sn_retired sn) \<le> n" and "asset_count sn \<le> m"
  shows "snapshot_ok (run_results x steps sn) \<and> length (sn_findings (run_results x steps sn)) \<le> n \<and>
     length (sn_retired (run_results x steps sn)) \<le> n \<and> asset_count (run_results x steps sn) \<le> m"
  using assms
proof (induction steps arbitrary: sn)
  case Nil
  then show ?case by (simp add: run_results_def)
next
  case (Cons step steps)
  obtain j r now where step: "step = (j, r, now)" by (cases step)
  let ?sn = "fst (apply_result x j r now sn)"
  have j: "job_within n m j" using Cons.prems(1) step by simp
  have "run_results x (step # steps) sn = run_results x steps ?sn"
    by (simp add: run_results_def step)
  moreover have "snapshot_ok ?sn" "length (sn_findings ?sn) \<le> n" "length (sn_retired ?sn) \<le> n"
    "asset_count ?sn \<le> m"
    using j Cons.prems(2-5)
    by (simp_all add: job_within_def apply_result_ok apply_result_findings apply_result_retired
        apply_result_assets)
  ultimately show ?case using Cons.IH [of ?sn] Cons.prems(1) by simp
qed

text \<open>The number of clears counted towards the recovery of a finding.\<close>

definition clears_counted :: "snapshot \<Rightarrow> string \<Rightarrow> nat" where
  "clears_counted sn i = (case bm_get (sn_findings sn) i of None \<Rightarrow> 0 | Some f \<Rightarrow> f_clear_count f)"

lemma visit_finding_count:
  "f_clear_count (fst (visit_finding x j now w i f v)) \<le> Suc (f_clear_count f)"
  using sat_add32_le [of "f_clear_count f" 1] by (simp add: visit_finding_def Let_def split: option.split)

lemma visit_finding_current: "i \<in> w_current w \<Longrightarrow> fst (visit_finding x j now w i f v) = f"
  by (simp add: visit_finding_def Let_def)

lemma visit_findings_count:
  "(i, g) \<in> set (fst (visit_findings x j now w fs v)) \<Longrightarrow>
     \<exists>f. (i, f) \<in> set fs \<and> f_clear_count g \<le> Suc (f_clear_count f)"
proof (induction x j now w fs v rule: visit_findings.induct)
  case (2 x j now w k f fs v)
  let ?v = "visit_finding x j now w k f v"
  show ?case
    using 2(1) [of "fst ?v" "snd ?v"] 2(2) visit_finding_count [of x j now w k f v]
    by (auto simp: prod.case_eq_if)
qed simp

lemma apply_core_counted:
  assumes ok: "snapshot_ok sn"
  shows "clears_counted (fst (apply_core x j r now sn)) i \<le> Suc (clears_counted sn i)"
proof (cases "bm_get (sn_findings (fst (apply_core x j r now sn))) i")
  case None
  then show ?thesis by (simp add: clears_counted_def)
next
  case (Some g)
  let ?st = "judging x j r now sn"
  let ?v = "settle_visit x j now (bm_get (sn_results sn) (j_key j)) (judged_result x j r now sn) ?st"
  obtain g' where g': "bm_get (fst ?v) i = Some g'" and same: "f_clear_count g = f_clear_count g'"
    using Some unfolding apply_core_blocks settle_blocks
    by (auto simp: expire_findings_get settle_removed_def fold_remove_get expire_finding_def
        split: if_splits)
  then obtain h where "(i, h) \<in> set (sn_findings (a_snapshot ?st))"
    and h: "f_clear_count g' \<le> Suc (f_clear_count h)"
    using map_of_SomeD visit_findings_count unfolding settle_visit_def by metis
  then have "bm_get (sn_findings (a_snapshot ?st)) i = Some h"
    using judging_ok [OF ok] by (simp add: snapshot_ok_def bm.get_entries)
  then have "bm_get (sn_findings sn) i = Some h \<or> f_clear_count h = 0"
    unfolding judge_result_def by (auto dest!: judge_raised simp: raised_def)
  then show ?thesis using h same Some by (auto simp: clears_counted_def)
qed

lemma set_coverage_complete:
  "p \<in> set (set_coverage i (demote c) ps) \<Longrightarrow> op_coverage p = Complete \<Longrightarrow> c \<noteq> Complete \<Longrightarrow> p \<in> set ps"
  by (auto simp: set_coverage_def demote_def split: if_splits)

lemma expire_observation_complete:
  "p \<in> set (fst (expire_observation limit now obs st)) \<Longrightarrow> op_coverage p = Complete \<Longrightarrow> p \<in> set (fst st)"
  by (cases st) (auto simp: expire_observation_def split: if_splits dest: set_coverage_complete)

lemma fold_expire_complete:
  "p \<in> set (fst (fold (expire_observation limit now) obss st)) \<Longrightarrow> op_coverage p = Complete \<Longrightarrow>
     p \<in> set (fst st)"
proof (induction obss arbitrary: st)
  case (Cons obs obss)
  show ?case
    using Cons.IH [of "expire_observation limit now obs st"] Cons.prems
      expire_observation_complete [of p limit now obs st] by simp
qed simp

lemma expire_result_fresh:
  assumes "p \<in> set (r_operations (fst (expire_result limit now r hs)))" and "op_coverage p = Complete"
  shows "elapsed now (op_observed_at p) \<le> as_i64 limit"
proof -
  have "p \<in> set (map (expire_operation limit now) (r_operations r))"
    using assms fold_expire_complete by (fastforce simp: expire_result_def prod.case_eq_if)
  then show ?thesis
    using assms(2) by (auto simp: expire_operation_def demote_def split: if_splits)
qed

lemma expire_results_stored:
  "bm_get (fst (expire_results fresh limit now rs hs)) k = Some r' \<Longrightarrow>
     \<exists>r. bm_get rs k = Some r \<and> r_observations r' = r_observations r \<and>
       (\<exists>hs. r' = fst (expire_result (unwrap_or limit (bm_get fresh k)) now r hs))"
proof (induction fresh limit now rs hs rule: expire_results.induct)
  case (2 fresh limit now i r rs hs)
  let ?e = "expire_result (unwrap_or limit (bm_get fresh i)) now r hs"
  show ?case
    using 2(1) [of "fst ?e" "snd ?e"] 2(2) by (auto simp: prod.case_eq_if split: if_splits)
qed simp

lemma retain_scope_results:
  assumes "snapshot_ok sn" and "bm_get (sn_results (retain_scope js sn)) k = Some r"
  shows "bm_get (sn_results sn) k = Some r \<and> k \<in> set (map j_key js) \<and>
      (\<forall>j \<in> set js. j_key j = k \<longrightarrow>
         bm_get (sn_scope_fingerprints sn) k = Some (observation_scope j) \<and>
         bm_get (sn_selectors sn) k \<in> {None, Some (t_resources (j_target j))})"
proof -
  obtain q where q: "sn_results (fold rescope js (scoped_start js sn)) = bm_retain q (sn_results sn)"
    using fold_rescope_retains(3) [of js "scoped_start js sn"] by auto
  have "bm_wf (sn_results (fold rescope js (scoped_start js sn)))"
    using assms(1) by (simp add: q bm_wf_retain snapshot_ok_def)
  then have "bm_get (sn_results (fold rescope js (scoped_start js sn))) k = Some r"
    and "k \<in> set (map j_key js)"
    using assms(2) by (simp_all add: retain_scope_fields get_bm_retain split: option.splits if_splits)
  with fold_rescope_results [OF this(1)] show ?thesis by simp
qed

lemma retain_scope_findings:
  assumes "snapshot_ok sn" and "bm_get (sn_findings (retain_scope js sn)) i = Some f"
  shows "bm_get (sn_findings sn) i = Some f \<and> (\<exists>j \<in> set js. covers_finding j f)"
proof -
  obtain p where p: "sn_findings (fold rescope js (scoped_start js sn)) = bm_retain p (sn_findings sn)"
    using fold_rescope_retains(1) [of js "scoped_start js sn"] by auto
  have wf: "bm_wf (sn_findings sn)" using assms(1) by (simp add: snapshot_ok_def)
  then have "bm_get (bm_retain p (sn_findings sn)) i = Some f" and "\<exists>j \<in> set js. covers_finding j f"
    using assms(2) by (auto simp: retain_scope_fields p get_bm_retain bm_wf_retain list_ex_iff
        split: option.splits if_splits)
  then show ?thesis using wf by (auto simp: get_bm_retain split: option.splits if_splits)
qed

section \<open>A sample recovery and a sample failure\<close>

lemmas pass_defs = derive_result_def prepare_result_def retain_partial_def reconcile_logs_def
  truncate_result_def mark_retries_def mark_retry_def correlate_def owners_of_def consolidate_def
  validate_source_def fit_assets_def Let_def validate_observation_def mark_malformed_def
  record_success_def owner_entry_def record_completion_def apply_completion_def
  consolidate_step_def bm_collect_def other_bytes_def other_results_def other_assets_def

lemmas number_defs = sat_add64_def sat_mul64_def u64_max_def num_seconds_def nanos_per_sec_def
  elapsed_def as_i64_def sat_add32_def u32_max_def

lemmas sample_size_defs = operation_bytes_def observation_bytes_def sample_ext_def

definition clear_observation :: observation where
  "clear_observation = sample_observation\<lparr>o_observed_at := 1, o_data := Condition ''ready'' (Some True)\<rparr>"

lemma clear_observation_simps [simp]:
  "o_resource clear_observation = ''prod/ns/deployment/api''"
  "o_operation clear_observation = ''workloads''" "o_observed_at clear_observation = 1"
  "o_expected clear_observation = Active" "o_data clear_observation = Condition ''ready'' (Some True)"
  by (simp_all add: clear_observation_def)

text \<open>A job that recovers a finding at the first clear, and the result that clears it.\<close>

definition eager_job :: job where
  "eager_job = sample_job\<lparr>j_settings := default_settings\<lparr>s_recover_confirmations := 1\<rparr>\<rparr>"

lemma eager_job_simps [simp]:
  "j_key eager_job = ''prod/Kubernetes''" "j_check eager_job = CKubernetes"
  "s_recover_confirmations (j_settings eager_job) = 1" "job_freshness eager_job = 690"
  "j_assess_health eager_job" "s_max_assets (j_settings eager_job) = 50000"
  "s_max_findings (j_settings eager_job) = 10000"
  "s_memory_bytes (j_settings eager_job) = 268435456" "freshness (j_settings eager_job) = 690"
  "j_severity eager_job = []"
  by (simp_all add: eager_job_def default_settings_def job_freshness_def freshness_def number_defs)

definition clearing :: check_result where
  "clearing = sample_result Complete [clear_observation]"

lemma clearing_simps [simp]:
  "r_observations clearing = [clear_observation]" "r_operations clearing = [sample_operation Complete]"
  by (simp_all add: clearing_def)

lemma clearing_prepared:
  "sn_results s = [] \<Longrightarrow> prepare_result sample_ext eager_job s clearing 2 = clearing"
  by (simp add: pass_defs number_defs sample_size_defs List.map_filter_simps)

lemma clearing_admitted:
  "admit_result sample_ext eager_job clearing 2 sample_snapshot =
     ((register_job eager_job sample_snapshot)\<lparr>sn_freshness := [(''prod/Kubernetes'', 690)]\<rparr>, clearing, clearing)"
  by (simp add: admit_result_def derive_result_def Let_def clearing_prepared other_assets_def
      other_results_def fit_assets_def register_job_def)

lemma clearing_judgement:
  "judgement sample_ext eager_job 2 clear_observation st = (sn_pressure (a_snapshot st), result Healthy)"
  by (simp add: judgement_def assessed_def judge_with_pressure_def capacity_evaluate_def evaluate_def
      dispatch_def condition_evaluate_def stale_observation_def age_def number_defs)

lemma clearing_judged:
  "ix_clear (a_index (judging sample_ext eager_job clearing 2 sample_snapshot)) =
     [(''prod/ns/deployment/api'', ''workloads'', 1)]"
  "sn_findings (a_snapshot (judging sample_ext eager_job clearing 2 sample_snapshot)) =
     [(''prod/ns/deployment/api/ready'', sample_finding)]"
  "a_operations (judging sample_ext eager_job clearing 2 sample_snapshot) = [sample_operation Complete]"
  "a_current (judging sample_ext eager_job clearing 2 sample_snapshot) = {}"
  unfolding clearing_admitted prod.sel
  by (simp_all add: judge_result_def judge_observation_def clearing_judgement result_def observe_def
      Let_def record_clear_def index_complete_def new_index_def complete_ids_def register_job_def)

lemma sample_recovery:
  "\<lparr>tr_at = 2, tr_finding = ''prod/ns/deployment/api/ready'', tr_kind = TRecovered\<rparr>
     \<in> set (snd (apply_core sample_ext eager_job clearing 2 sample_snapshot))"
  unfolding apply_core_blocks settle_transitions settle_visit_def clearing_admitted prod.sel
  by (simp add: clearing_judged [unfolded clearing_admitted prod.sel] settle_view_def
      reconcile_index_def Let_def bm_retain_def complete_ids_def visit_finding_def clear_time_def
      number_defs confirmation_key_def)

text \<open>A failed operation that still observed a fault, on a fresh snapshot.\<close>

definition failing :: check_result where
  "failing = sample_result Missing [sample_observation]"

abbreviation fresh :: snapshot where
  "fresh \<equiv> new_snapshot sample_ext ''r1'' []"

lemma failing_simps [simp]:
  "r_observations failing = [sample_observation]" "r_operations failing = [sample_operation Missing]"
  "complete_ids failing = {}"
  by (simp_all add: failing_def complete_ids_def)

lemma fresh_simps [simp]:
  "sn_results fresh = []" "sn_findings fresh = []" "sn_retired fresh = []" "sn_health fresh = []"
  by (simp_all add: new_snapshot_def)

lemma failing_prepared:
  "sn_results s = [] \<Longrightarrow> prepare_result sample_ext eager_job s failing 2 = failing"
  by (simp add: pass_defs number_defs sample_size_defs List.map_filter_simps)

lemma failing_admitted: "admitted_result sample_ext eager_job failing 2 fresh = failing"
  by (simp add: admit_result_def derive_result_def Let_def failing_prepared other_assets_def
      other_results_def fit_assets_def)

lemma failing_judgement:
  "judgement sample_ext eager_job 2 sample_observation st =
     (sn_pressure (a_snapshot st), err sample_observation ''ready'')"
  by (simp add: judgement_def assessed_def judge_with_pressure_def capacity_evaluate_def evaluate_def
      dispatch_def condition_evaluate_def stale_observation_def age_def number_defs)

lemma failing_judged:
  "bm_has (sn_findings (a_snapshot (judging sample_ext eager_job failing 2 fresh)))
     ''prod/ns/deployment/api/ready''"
  "''prod/ns/deployment/api/ready'' \<in> a_current (judging sample_ext eager_job failing 2 fresh)"
  by (simp_all add: judge_result_def failing_admitted judge_observation_def failing_judgement
      fault_def record_finding_def Let_def prod.case_eq_if bm.get_put)

lemma failing_raises:
  "bm_has (sn_findings (fst (apply_core sample_ext eager_job failing 2 fresh)))
     ''prod/ns/deployment/api/ready''"
proof -
  let ?st = "judging sample_ext eager_job failing 2 fresh"
  have "snapshot_ok (a_snapshot ?st)" by (rule judging_ok) (rule new_snapshot_ok)
  then have "bm_wf (sn_findings (a_snapshot ?st))" by (simp add: snapshot_ok_def)
  moreover obtain g where "bm_get (sn_findings (a_snapshot ?st)) ''prod/ns/deployment/api/ready'' = Some g"
    using failing_judged(1) by fastforce
  ultimately show ?thesis
    unfolding apply_core_blocks using failing_judged(2)
    by (intro settle_keeps) (auto simp: may_retire_def)
qed

lemma apply_core_has_result:
  "\<exists>q. bm_get (sn_results (fst (apply_core x j r now sn))) (j_key j) = Some q"
proof -
  have "j_key j \<in> set (map fst (sn_results (fst (apply_core x j r now sn))))"
    unfolding apply_core_blocks settle_blocks
    by (simp add: expire_def prod.case_eq_if settle_stored_def Let_def del: set_map)
      (simp only: keys_bm_put insertI1)
  then show ?thesis by (metis map_of_eq_None_iff not_None_eq set_map)
qed

section \<open>Properties\<close>


lemma sample_failed_admitted:
  "r_observations (admitted_result sample_ext sample_job (sample_result Missing []) 1 sample_snapshot) = []"
  by (simp add: admit_result_def derive_result_def register_job_def prepare_result_def retain_partial_def
      reconcile_logs_def truncate_result_def mark_retries_def correlate_def consolidate_def
      validate_source_def fit_assets_def sample_values Let_def)




text \<open>C22: Over any run the snapshot stays well formed and within its limits: at most
  \<open>max_findings\<close> findings and retired findings, and \<open>max_assets\<close> observations in all
  results together, the derived flow jobs included.\<close>

theorem run_stays_bounded:
  assumes "\<forall>(j, _) \<in> set steps. job_within n m j"
  shows "let sn = run_results x steps (new_snapshot x revision selected)
         in snapshot_ok sn \<and> length (sn_findings sn) \<le> n \<and> length (sn_retired sn) \<le> n \<and>
            asset_count sn \<le> m"
  using run_results_bounded [OF assms new_snapshot_ok, of x revision selected x]
  by (simp add: Let_def new_snapshot_def asset_count_def)

theorem run_stays_bounded_witness:
  "let sn = run_results sample_ext [(sample_job, sample_result Complete [sample_observation], 1)]
              (new_snapshot sample_ext ''r1'' [])
   in snapshot_ok sn \<and> length (sn_findings sn) \<le> 10000 \<and> length (sn_retired sn) \<le> 10000 \<and>
      asset_count sn \<le> 50000"
  by (rule run_stays_bounded)
    (simp add: job_within_def flow_limits_def sample_job_def default_settings_def)



text \<open>No finding comes from nowhere: a finding that was not there before carries the
  resource, operation and rule of an assessed observation of the admitted result.\<close>

theorem new_findings_are_observed:
  assumes "snapshot_ok sn" and "\<not> bm_has (sn_findings sn) i"
    and "bm_get (sn_findings (fst (apply_core x j r now sn))) i = Some g"
  shows "\<exists>obs \<in> set (r_observations (admitted_result x j r now sn)).
     assessed j obs \<and> f_resource g = o_resource obs \<and> i = o_resource obs @ ''/'' @ f_rule g \<and>
     f_evidence g = [o_operation obs] \<and> f_check g = Some (j_check j)"
proof -
  have "f_id g = i" using application.findings_keyed [OF assms(1,3)] .
  with apply_core_raised [OF assms(1,3,2)] show ?thesis by (auto simp: raised_def same_fault_def)
qed

theorem new_findings_are_observed_witness:
  "\<exists>g :: finding. \<exists>obs \<in> set (r_observations (admitted_result sample_ext eager_job failing 2 fresh)).
     assessed eager_job obs \<and> f_resource g = o_resource obs \<and>
     ''prod/ns/deployment/api/ready'' = o_resource obs @ ''/'' @ f_rule g \<and>
     f_evidence g = [o_operation obs] \<and> f_check g = Some (j_check eager_job)"
proof -
  obtain g where "bm_get (sn_findings (fst (apply_core sample_ext eager_job failing 2 fresh)))
      ''prod/ns/deployment/api/ready'' = Some g"
    using failing_raises by fastforce
  note raised = new_findings_are_observed [OF new_snapshot_ok _ this]
  show ?thesis by (rule exI, rule raised) simp
qed

text \<open>C37: A recovery takes as many applications as the settings demand: when a finding has no
  clear counted and the next \<open>n\<close> results leave it unresolved, an application that reports
  it recovered has \<open>recover_confirmations \<le> n + 1\<close>.\<close>

theorem recovery_takes_confirmations:
  assumes "snapshot_ok sn" and "clears_counted sn i = 0"
    and "tr \<in> set (snd (apply_core x j r now
           (fold (\<lambda>(j, r, now) sn. fst (apply_core x j r now sn)) steps sn)))"
    and "tr_kind tr = TRecovered" and "tr_finding tr = i"
  shows "s_recover_confirmations (j_settings j) \<le> Suc (length steps)"
proof -
  let ?run = "\<lambda>steps sn. fold (\<lambda>(j, r, now) sn. fst (apply_core x j r now sn)) steps sn"
  have run: "snapshot_ok sn \<Longrightarrow> snapshot_ok (?run steps sn) \<and>
      clears_counted (?run steps sn) i \<le> clears_counted sn i + length steps" for steps sn
  proof (induction steps arbitrary: sn)
    case (Cons step steps)
    obtain j r now where step: "step = (j, r, now)" by (cases step)
    show ?case
      using Cons.IH [of "fst (apply_core x j r now sn)"] apply_core_ok [OF Cons.prems, of x j r now]
        apply_core_counted [OF Cons.prems, of x j r now i] by (simp add: step)
  qed simp
  have ok: "snapshot_ok (?run steps sn)" and count: "clears_counted (?run steps sn) i \<le> length steps"
    using run [OF assms(1), of steps] assms(2) by auto
  obtain f where "bm_get (sn_findings (?run steps sn)) i = Some f"
    and "s_recover_confirmations (j_settings j) \<le> sat_add32 (f_clear_count f) 1"
    using apply_core_left [OF ok assms(3)] assms(4,5) by (auto simp: may_retire_def may_recover_def)
  then show ?thesis
    using count sat_add32_le [of "f_clear_count f" 1] by (simp add: clears_counted_def)
qed

theorem recovery_takes_confirmations_witness:
  "s_recover_confirmations (j_settings eager_job) \<le> 1"
proof -
  have "clears_counted sample_snapshot ''prod/ns/deployment/api/ready'' = 0"
    by (simp add: clears_counted_def)
  from recovery_takes_confirmations [OF sample_snapshot_ok this, where steps = "[]", OF _ _ _]
  show ?thesis using sample_recovery by fastforce
qed

text \<open>The sample failure, stored a day ago, and the time at which it has expired.\<close>

definition aged :: snapshot where
  "aged = sample_snapshot\<lparr>sn_results := [(''prod/Kubernetes'', sample_result Complete [sample_observation])],
     sn_health := [(''prod/ns/deployment/api'', Healthy)],
     sn_scope_fingerprints := [(''prod/Kubernetes'', observation_scope sample_job)]\<rparr>"

definition next_day :: instant where
  "next_day = 90000 * nanos_per_sec"

lemma aged_simps [simp]:
  "sn_results aged = [(''prod/Kubernetes'', sample_result Complete [sample_observation])]"
  "sn_health aged = [(''prod/ns/deployment/api'', Healthy)]" "sn_freshness aged = []"
  "sn_findings aged = [(''prod/ns/deployment/api/ready'', sample_finding)]" "sn_selectors aged = []"
  "sn_scope_fingerprints aged = [(''prod/Kubernetes'', observation_scope sample_job)]"
  by (simp_all add: aged_def)

lemma aged_ok: "snapshot_ok aged"
  using sample_snapshot_ok by (simp add: aged_def snapshot_ok_def bm_wf_def)

text \<open>C38: After expiry no resource that an outlived observation describes keeps a health
  other than \<open>Unknown\<close>.\<close>

theorem outlived_evidence_is_unknown:
  assumes "snapshot_ok sn"
    and "bm_get (sn_results (fst (expire limit now sn))) k = Some r"
    and "obs \<in> set (r_observations r)"
    and "outlived obs (unwrap_or limit (bm_get (sn_freshness sn) k)) now"
  shows "bm_get (sn_health (fst (expire limit now sn))) (o_resource obs) \<in> {None, Some Unknown}"
proof -
  obtain r0 where r0: "bm_get (sn_results sn) k = Some r0" "r_observations r = r_observations r0"
    using expire_results_stored [of "sn_freshness sn" limit now "sn_results sn" "sn_health sn" k r] assms(2)
    by (auto simp: expire_def prod.case_eq_if)
  have "(k, r0) \<in> set (sn_results sn)" using r0(1) assms(1) by (simp add: snapshot_ok_def bm.get_entries)
  then have "\<exists>(i, q) \<in> set (sn_results sn). \<exists>obs' \<in> set (r_observations q). o_resource obs = o_resource obs' \<and>
      outlived obs' (unwrap_or limit (bm_get (sn_freshness sn) i)) now"
    using assms(3,4) r0(2) by force
  then show ?thesis
    by (cases "bm_get (sn_health sn) (o_resource obs)")
      (simp_all add: expire_def prod.case_eq_if expire_results_health)
qed

theorem outlived_evidence_is_unknown_witness:
  "bm_get (sn_health (fst (expire 690 next_day aged))) ''prod/ns/deployment/api'' \<in> {None, Some Unknown}"
proof -
  obtain r where r: "bm_get (sn_results (fst (expire 690 next_day aged))) ''prod/Kubernetes'' = Some r"
    "r_observations r = [sample_observation]"
    by (auto simp: expire_def prod.case_eq_if)
  have "outlived sample_observation (unwrap_or 690 (bm_get (sn_freshness aged) ''prod/Kubernetes'')) next_day"
    by (simp add: outlived_def next_day_def number_defs)
  from outlived_evidence_is_unknown [OF aged_ok r(1) _ this] show ?thesis by (simp add: r)
qed

text \<open>After expiry an operation that still counts as complete is no older than the
  freshness of its result.\<close>

theorem complete_operations_are_fresh:
  assumes "bm_get (sn_results (fst (expire limit now sn))) k = Some r"
    and "p \<in> set (r_operations r)" and "op_coverage p = Complete"
  shows "elapsed now (op_observed_at p) \<le> as_i64 (unwrap_or limit (bm_get (sn_freshness sn) k))"
proof -
  have "bm_get (fst (expire_results (sn_freshness sn) limit now (sn_results sn) (sn_health sn))) k = Some r"
    using assms(1) by (simp add: expire_def prod.case_eq_if)
  from expire_results_stored [OF this] obtain r0 hs
    where "r = fst (expire_result (unwrap_or limit (bm_get (sn_freshness sn) k)) now r0 hs)" by blast
  with assms(2,3) show ?thesis by (metis expire_result_fresh)
qed

theorem complete_operations_are_fresh_witness:
  "elapsed 1 0 \<le> as_i64 (unwrap_or 690 (bm_get (sn_freshness aged) ''prod/Kubernetes''))"
proof -
  obtain r where r: "bm_get (sn_results (fst (expire 690 1 aged))) ''prod/Kubernetes'' = Some r"
    "r_operations r = [sample_operation Complete]"
    by (auto simp: expire_def prod.case_eq_if expire_result_def expire_observation_def
        expire_operation_def outlived_def number_defs)
  from complete_operations_are_fresh [OF r(1), of "sample_operation Complete"] show ?thesis
    by (simp add: r)
qed

text \<open>Staleness is reported once: expiring again at the same time reports nothing.\<close>

theorem staleness_reported_once:
  "snd (expire limit now (fst (expire limit now sn))) = []"
proof -
  have "finding_expired limit now (expire_finding limit now f) = False" for f
    by (simp add: expire_finding_def finding_expired_def)
  then show ?thesis
    by (simp add: expire_def prod.case_eq_if bm_mapv_def comp_def filter_map case_prod_unfold)
qed

text \<open>C34: A reload keeps no evidence of another scope: a stored result survives
  \<open>retain_scope\<close> only unchanged, and only when every job that owns its key observes the
  provider scope, regions and resource selectors under which the result was taken.\<close>

theorem scope_change_discards_evidence:
  assumes "snapshot_ok sn" and "bm_get (sn_results (retain_scope js sn)) k = Some r"
    and "j \<in> set js" and "j_key j = k"
  shows "bm_get (sn_results sn) k = Some r \<and>
     bm_get (sn_scope_fingerprints sn) k = Some (observation_scope j) \<and>
     bm_get (sn_selectors sn) k \<in> {None, Some (t_resources (j_target j))}"
  using retain_scope_results [OF assms(1,2), THEN conjunct1]
    retain_scope_results [OF assms(1,2), THEN conjunct2, THEN conjunct2, rule_format, OF assms(3,4)]
  by (rule conjI)

theorem scope_change_discards_evidence_witness:
  "bm_get (sn_results aged) ''prod/Kubernetes'' = Some (sample_result Complete [sample_observation]) \<and>
     bm_get (sn_scope_fingerprints aged) ''prod/Kubernetes'' = Some (observation_scope sample_job) \<and>
     bm_get (sn_selectors aged) ''prod/Kubernetes'' \<in> {None, Some (t_resources (j_target sample_job))}"
proof -
  have "bm_get (sn_results (retain_scope [sample_job] aged)) ''prod/Kubernetes'' =
      Some (sample_result Complete [sample_observation])"
    by (simp add: retain_scope_fields rescope_def Let_def bm_retain_def)
  from scope_change_discards_evidence [OF aged_ok this, of sample_job] show ?thesis by simp
qed

text \<open>A finding survives a reload only unchanged, and only under a job that assesses
  health and still covers the finding's target, check and resource.\<close>

theorem reload_keeps_covered_findings:
  assumes "snapshot_ok sn" and "bm_get (sn_findings (retain_scope js sn)) i = Some f"
  shows "bm_get (sn_findings sn) i = Some f \<and> (\<exists>j \<in> set js. covers_finding j f)"
  by (rule retain_scope_findings [OF assms])

theorem reload_keeps_covered_findings_witness:
  "bm_get (sn_findings aged) ''prod/ns/deployment/api/ready'' = Some sample_finding \<and>
     (\<exists>j \<in> set [sample_job]. covers_finding j sample_finding)"
proof -
  have "bm_get (sn_findings (retain_scope [sample_job] aged)) ''prod/ns/deployment/api/ready'' =
      Some sample_finding"
    by (simp add: retain_scope_fields rescope_def Let_def bm_retain_def covers_finding_def in_target_def
        starts_with_def target_prefix_def)
  from reload_keeps_covered_findings [OF aged_ok this] show ?thesis .
qed

text \<open>A reload is admitted only within the new limits, and then it keeps a well-formed
  snapshot at the new revision.\<close>

theorem reload_within_limits:
  assumes "reconfigured x js sn = Inr next" and "snapshot_ok sn"
  shows "snapshot_ok next \<and> sn_revision next = j_revision (hd js) \<and>
     asset_count next \<le> s_max_assets (j_settings (hd js)) \<and>
     length (sn_findings next) \<le> s_max_findings (j_settings (hd js)) \<and>
     length (sn_retired next) \<le> s_max_findings (j_settings (hd js))"
  using assms(1)
proof (rule reconfigured_Inr)
  fix j js'
  assume js: "js = j # js'" and
    "next": "next = trim_retired (s_max_findings (j_settings j)) (retain_scope js sn)\<lparr>sn_revision := j_revision j\<rparr>" and
    limits: "asset_count next \<le> s_max_assets (j_settings j)"
      "length (sn_findings next) \<le> s_max_findings (j_settings j)"
  have ok: "snapshot_ok (retain_scope js sn)" by (rule scope_retention.keeps [OF assms(2)])
  then have "length (sn_retired next) \<le> s_max_findings (j_settings j)"
    by (simp add: "next" snapshot_ok_def trim_retired_length)
  moreover have "snapshot_ok next" using trimming.keeps [OF ok] by (simp add: "next")
  ultimately show ?thesis using limits by (simp add: js "next")
qed

theorem reload_within_limits_witness:
  "\<exists>next. reconfigured sample_ext [sample_job] fresh = Inr next \<and> snapshot_ok next \<and>
     sn_revision next = j_revision (hd [sample_job]) \<and>
     asset_count next \<le> s_max_assets (j_settings (hd [sample_job])) \<and>
     length (sn_findings next) \<le> s_max_findings (j_settings (hd [sample_job])) \<and>
     length (sn_retired next) \<le> s_max_findings (j_settings (hd [sample_job]))"
proof -
  have empty: "sn_results (retain_scope [sample_job] fresh) = []"
    "sn_findings (retain_scope [sample_job] fresh) = []"
    by (simp_all add: retain_scope_fields bm_retain_def rescope_def Let_def bm_del_def)
  have "\<exists>next. reconfigured sample_ext [sample_job] fresh = Inr next"
    by (simp add: reconfigured_def Let_def empty)
  then show ?thesis using reload_within_limits [OF _ new_snapshot_ok] by blast
qed

end
