(* ===== verification/Validate.thy ===== *)
theory Validate
  imports Config_Types
begin

text \<open>
  \<open>crates/core/src/config/validate.rs\<close> and \<open>credentials.rs\<close>: the checks a configuration
  passes before anything is scheduled. Each \<open>if ... return Err\<close> of the source is a
  \<open>reject\<close>; \<open>first_error\<close> and \<open>each\<close> are its sequencing and its loops. Whether chrono-tz
  knows a time zone is the parameter \<open>zone_ok\<close>.
\<close>

section \<open>Sequencing\<close>

definition reject :: "bool \<Rightarrow> string \<Rightarrow> error + unit" where
  "reject bad message = (if bad then Inl (ConfigError message) else Inr ())"

fun first_error :: "(error + unit) list \<Rightarrow> error + unit" where
  "first_error [] = Inr ()"
| "first_error (Inl e # rest) = Inl e"
| "first_error (Inr u # rest) = first_error rest"

definition each :: "('a \<Rightarrow> error + unit) \<Rightarrow> 'a list \<Rightarrow> error + unit" where
  "each f xs = first_error (map f xs)"

lemma reject_Inr [simp]: "reject bad message = Inr () \<longleftrightarrow> \<not> bad"
  by (simp add: reject_def)

lemma first_error_Inr: "first_error xs = Inr () \<longleftrightarrow> (\<forall>v \<in> set xs. v = Inr ())"
  by (induction xs rule: first_error.induct) auto

lemma each_Inr: "each f xs = Inr () \<longleftrightarrow> (\<forall>v \<in> set xs. f v = Inr ())"
  by (auto simp: each_def first_error_Inr)

section \<open>Identifiers\<close>

definition identifier_byte :: "char \<Rightarrow> bool" where
  "identifier_byte c \<longleftrightarrow> is_ascii_alphanumeric c \<or> c \<in> set ''-_./:@''"

definition is_identifier :: "string \<Rightarrow> bool" where
  "is_identifier v \<longleftrightarrow> v \<noteq> [] \<and> length v \<le> 512 \<and> \<not> str_contains v ''..'' \<and> list_all identifier_byte v"

section \<open>Credentials\<close>

text \<open>\<open>chars().any(char::is_whitespace)\<close> on UTF-8 bytes.\<close>

fun whitespace_head :: "string \<Rightarrow> bool" where
  "whitespace_head (c # d # e # s) \<longleftrightarrow>
     c \<in> {CHR 0x09, CHR 0x0A, CHR 0x0B, CHR 0x0C, CHR 0x0D, CHR 0x20} \<or>
     (c = CHR 0xC2 \<and> (d = CHR 0x85 \<or> d = CHR 0xA0)) \<or>
     (c = CHR 0xE1 \<and> d = CHR 0x9A \<and> e = CHR 0x80) \<or>
     (c = CHR 0xE2 \<and> d = CHR 0x80 \<and>
        (CHR 0x80 \<le> e \<and> e \<le> CHR 0x8A \<or> e \<in> {CHR 0xA8, CHR 0xA9, CHR 0xAF})) \<or>
     (c = CHR 0xE2 \<and> d = CHR 0x81 \<and> e = CHR 0x9F) \<or>
     (c = CHR 0xE3 \<and> d = CHR 0x80 \<and> e = CHR 0x80)"
| "whitespace_head [c, d] \<longleftrightarrow>
     c \<in> {CHR 0x09, CHR 0x0A, CHR 0x0B, CHR 0x0C, CHR 0x0D, CHR 0x20} \<or>
     (c = CHR 0xC2 \<and> (d = CHR 0x85 \<or> d = CHR 0xA0))"
| "whitespace_head [c] \<longleftrightarrow> c \<in> {CHR 0x09, CHR 0x0A, CHR 0x0B, CHR 0x0C, CHR 0x0D, CHR 0x20}"
| "whitespace_head [] = False"

fun has_whitespace :: "string \<Rightarrow> bool" where
  "has_whitespace [] = False"
| "has_whitespace (c # s) \<longleftrightarrow> whitespace_head (c # s) \<or> has_whitespace s"

definition uuid :: "string \<Rightarrow> bool" where
  "uuid v \<longleftrightarrow> length v = 36 \<and>
     list_all (\<lambda>(i, b). if i \<in> {8, 13, 18, 23} then b = CHR ''-'' else is_ascii_hexdigit b)
       (enumerate 0 v)"

text \<open>\<open>value.splitn(n, c)\<close>: at most \<open>n\<close> parts, the last one unsplit.\<close>

fun splitn :: "nat \<Rightarrow> char \<Rightarrow> string \<Rightarrow> string list" where
  "splitn 0 c s = []"
| "splitn (Suc 0) c s = [s]"
| "splitn (Suc (Suc n)) c s =
     (case split_once c s of None \<Rightarrow> [s] | Some (a, b) \<Rightarrow> a # splitn (Suc n) c b)"

definition role_arn :: "string \<Rightarrow> bool" where
  "role_arn v \<longleftrightarrow>
     (case splitn 6 CHR '':'' v of
        [arn, aws, iam, region, account, role] \<Rightarrow>
          arn = ''arn'' \<and> aws = ''aws'' \<and> iam = ''iam'' \<and> region = [] \<and>
          length account = 12 \<and> list_all is_ascii_digit account \<and>
          starts_with role ''role/'' \<and> 5 < length role \<and> length v \<le> 2048 \<and>
          list_all (\<lambda>b. is_ascii_alphanumeric b \<or> b \<in> set ''/+=,.@_-'') role
      | _ \<Rightarrow> False)"

definition federation_complete :: "credential \<Rightarrow> google_federation \<Rightarrow> bool" where
  "federation_complete c g \<longleftrightarrow>
     (c_provider c = Aws \<and> gf_client_id g = None \<and> is_some_and role_arn (c_role_arn c)) \<or>
     (c_provider c = Azure \<and> gf_audience g = ''api://AzureADTokenExchange'' \<and>
        is_some_and uuid (c_tenant c) \<and> is_some_and uuid (gf_client_id g))"

definition validate_federation :: "credential \<Rightarrow> error + unit" where
  "validate_federation c =
     (case c_google_federation c of
        None \<Rightarrow> Inr ()
      | Some g \<Rightarrow> first_error
          [reject (c_provider c \<notin> {Aws, Azure} \<or> c_profile c \<noteq> None \<or> gf_subject g = [] \<or>
                   32 < length (gf_subject g) \<or> \<not> list_all is_ascii_digit (gf_subject g) \<or>
                   gf_audience g = [] \<or> 1024 < length (gf_audience g) \<or>
                   has_whitespace (gf_audience g) \<or> has_control (gf_audience g))
             ''invalid Google federation identity'',
           reject (\<not> federation_complete c g) ''incomplete cloud federation configuration''])"

definition validate_credential :: "credential \<Rightarrow> error + unit" where
  "validate_credential c =
     first_error
       [reject (is_some_and (\<lambda>p. 512 < length p \<or> has_control p) (c_profile c) \<or>
                is_some_and (\<lambda>i. 1024 < length i \<or> has_control i) (c_expected_identity c))
          ''invalid credential profile metadata'',
        reject ((c_tenant c \<noteq> None \<and> c_provider c \<noteq> Azure) \<or>
                (c_role_arn c \<noteq> None \<and> c_provider c \<noteq> Aws) \<or>
                (c_credential_file c \<noteq> None \<and> c_provider c \<notin> {Gcp, Nats, Github}) \<or>
                (c_token_env c \<noteq> None \<and> c_provider c \<notin> {Github, Nats}))
          ''credential option is unsupported by its provider'',
        reject (c_profile c \<noteq> None \<and> c_provider c \<notin> {Aws, Azure})
          ''use credential_file for named GCP/NATS credentials'',
        reject (c_provider c = Azure \<and>
                is_some_and (\<lambda>p. p \<notin> {''cli'', ''managed_identity'', ''workload_identity''}) (c_profile c))
          ''unknown Azure credential provider'',
        reject (c_expected_identity c \<noteq> None \<and> c_provider c \<notin> {Gcp, Aws, Azure, Github})
          ''identity assertions are unsupported by this credential provider'',
        reject (c_provider c \<in> {Nats, Github} \<and> c_credential_file c \<noteq> None \<and> c_token_env c \<noteq> None)
          ''select a credential file or token variable'',
        reject (is_some_and (\<lambda>n. n = [] \<or> \<not> list_all (\<lambda>b. is_ascii_alphanumeric b \<or> b = CHR ''_'') n)
                  (c_token_env c))
          ''invalid credential variable name'',
        validate_federation c]"

definition validate_credentials :: "config \<Rightarrow> error + unit" where
  "validate_credentials cf =
     each (\<lambda>(name, c). first_error
       [reject (\<not> is_identifier name) ''invalid credential profile name'', validate_credential c])
     (cf_credentials cf)"

section \<open>One target\<close>

text \<open>The provider of a credential profile, when the configuration names it.\<close>

definition credential_for :: "config \<Rightarrow> provider \<Rightarrow> string \<Rightarrow> bool" where
  "credential_for cf p name \<longleftrightarrow> is_some_and (\<lambda>c. c_provider c = p) (bm_get (cf_credentials cf) name)"

definition repository_name :: "string \<Rightarrow> bool" where
  "repository_name v \<longleftrightarrow> length (split_on CHR ''/'' v) = 2 \<and> list_all (\<lambda>p. p \<noteq> []) (split_on CHR ''/'' v)"

definition identifier_pair :: "string \<times> string \<Rightarrow> bool" where
  "identifier_pair kv \<longleftrightarrow> is_identifier (fst kv) \<and> is_identifier (snd kv)"

definition validate_references :: "config \<Rightarrow> target \<Rightarrow> error + unit" where
  "validate_references cf t =
     first_error
       [reject (is_some_and (\<lambda>n. \<not> credential_for cf Github n) (t_github_credential t))
          ''GitHub credentials must reference a GitHub profile'',
        reject (128 < length (t_artifact_targets t) \<or>
                \<not> list_all (\<lambda>n. list_ex (\<lambda>u. t_name u = n) (cf_targets cf)) (t_artifact_targets t))
          ''artifact targets must reference configured targets'',
        reject (128 < length (t_repositories t) \<or> 1024 < length (t_resources t) \<or>
                512 < length (t_watched_secrets t) \<or> 128 < length (t_repository_refs t) \<or>
                \<not> list_all repository_name (t_repositories t @ map fst (t_repository_refs t) @
                    map snd (t_build_repositories t)) \<or>
                \<not> list_all is_identifier (map snd (t_repository_refs t)))
          ''repository references need owner/repository identities within configured bounds'',
        reject (512 < length (t_build_targets t) \<or> 512 < length (t_build_repositories t) \<or>
                \<not> list_all identifier_pair (t_build_targets t @ t_build_repositories t))
          ''invalid build target or repository mapping'']"

definition slo_goal_ok :: "target \<Rightarrow> string \<times> f64 \<Rightarrow> bool" where
  "slo_goal_ok t ng \<longleftrightarrow>
     is_finite (snd ng) \<and> \<not> f_le (snd ng) (Fin 0) \<and> \<not> f_lt (Fin 1) (snd ng) \<and>
     list_ex (\<lambda>m. mq_name m = fst ng \<and> mq_aggregation m = Latest) (t_metrics t)"

definition change_ok :: "change_scope \<Rightarrow> bool" where
  "change_ok c \<longleftrightarrow>
     is_identifier (cs_repository c) \<and> is_identifier (cs_base c) \<and> is_identifier (cs_head c) \<and>
     cs_paths c \<noteq> [] \<and> length (cs_paths c) \<le> 128 \<and> list_all is_identifier (cs_paths c) \<and>
     length (cs_workloads c) \<le> 1024 \<and> list_all identifier_pair (cs_workloads c)"

definition stage_ok :: "flow_stage \<Rightarrow> bool" where
  "stage_ok st \<longleftrightarrow> is_identifier (st_name st) \<and> is_identifier (st_progress st) \<and>
     is_none_or is_identifier (st_workload st)"

definition validate_flow :: "target \<Rightarrow> flow \<Rightarrow> error + unit" where
  "validate_flow t fl =
     first_error
       [reject (list_ex (\<lambda>m. (mq_name m = fl_demand fl \<or>
                   list_ex (\<lambda>st. st_progress st = mq_name m) (fl_stages fl)) \<and>
                 mq_aggregation m \<noteq> Latest) (t_metrics t))
          ''flow demand and progress metrics must use latest aggregation'',
        reject (\<not> is_identifier (fl_name fl) \<or> \<not> is_identifier (fl_demand fl) \<or> fl_stages fl = [] \<or>
                16 < length (fl_stages fl) \<or> \<not> list_all stage_ok (fl_stages fl))
          ''invalid flow or stage configuration'']"

definition validate_facts :: "(string \<Rightarrow> bool) \<Rightarrow> target \<Rightarrow> error + unit" where
  "validate_facts zone_ok t =
     first_error
       [reject (128 < length (t_slo_goals t) \<or> \<not> list_all (slo_goal_ok t) (t_slo_goals t))
          ''SLO goals need a fraction in (0,1] and a named latest-aggregation compliance metric'',
        reject (is_some_and (\<lambda>z. \<not> zone_ok z) (t_timezone t)) ''invalid controller timezone'',
        reject (128 < length (t_expectations t) \<or> \<not> list_all is_identifier (map fst (t_expectations t)))
          ''invalid resource expectations'',
        reject (is_some_and (\<lambda>c. \<not> change_ok c) (t_change t)) ''invalid repository change scope'',
        reject (16 < length (t_flows t)) ''at most 16 flows per target'',
        each (validate_flow t) (t_flows t)]"

text \<open>\<open>earlier\<close>: the names of the targets before this one.\<close>

definition validate_name :: "string list \<Rightarrow> target \<Rightarrow> error + unit" where
  "validate_name earlier t =
     reject (\<not> is_identifier (t_name t) \<or> list_ex (\<lambda>c. c \<in> set ''/:@'') (t_name t) \<or>
             \<not> is_identifier (t_scope t) \<or> t_name t \<in> set earlier)
       ''target names must be unique and scope identifiers valid''"

definition validate_target_credential :: "config \<Rightarrow> target \<Rightarrow> error + unit" where
  "validate_target_credential cf t =
     (case t_credential t of
        None \<Rightarrow> Inr ()
      | Some name \<Rightarrow>
          (case bm_get (cf_credentials cf) name of
             None \<Rightarrow> Inl (ConfigError ''unknown credential profile'')
           | Some c \<Rightarrow> reject (c_provider c \<noteq> t_provider t) ''credential provider differs from target''))"

definition opt_list :: "'a option \<Rightarrow> 'a list" where
  "opt_list v = (case v of None \<Rightarrow> [] | Some w \<Rightarrow> [w])"

definition validate_selectors :: "target \<Rightarrow> error + unit" where
  "validate_selectors t =
     each (\<lambda>v. reject (\<not> is_identifier v) ''invalid resource selector'')
       (t_regions t @ t_resources t @ t_repositories t @ t_watched_secrets t @
        opt_list (t_context t) @ opt_list (t_cluster t) @ opt_list (t_cluster_location t))"

definition region_ok :: "string \<Rightarrow> bool" where
  "region_ok r \<longleftrightarrow> length r \<le> 64 \<and>
     list_all (\<lambda>b. is_ascii_lowercase b \<or> is_ascii_digit b \<or> b = CHR ''-'') r"

definition validate_bounds :: "target \<Rightarrow> error + unit" where
  "validate_bounds t =
     reject (32 < length (t_regions t) \<or>
             ((t_cluster t \<noteq> None) \<noteq> (t_cluster_location t \<noteq> None)) \<or>
             (t_cluster t \<noteq> None \<and> t_context t = None) \<or>
             \<not> list_all region_ok (t_regions t) \<or>
             500 < length (t_metrics t) \<or> 256 < length (t_endpoints t))
       ''target exceeds collection bounds''"

definition endpoint_ok :: "endpoint \<Rightarrow> bool" where
  "endpoint_ok e \<longleftrightarrow>
     u_scheme (e_url e) = ''https'' \<and> u_host (e_url e) \<noteq> None \<and> u_username (e_url e) = [] \<and>
     u_password (e_url e) = None \<and> u_query (e_url e) = None \<and> u_fragment (e_url e) = None \<and>
     e_accepted e \<noteq> [] \<and> list_all (\<lambda>s. 100 \<le> s \<and> s \<le> 599) (e_accepted e)"

definition nats_url_ok :: "url \<Rightarrow> bool" where
  "nats_url_ok u \<longleftrightarrow>
     u_scheme u \<in> {''tls'', ''nats''} \<and> u_host u \<noteq> None \<and> u_query u = None \<and> u_fragment u = None \<and>
     u_path u \<in> {[], ''/''} \<and> u_username u = [] \<and> u_password u = None"

definition metric_identity_ok :: "metric_query \<Rightarrow> bool" where
  "metric_identity_ok m \<longleftrightarrow>
     is_identifier (mq_name m) \<and> is_identifier (mq_namespace m) \<and> mq_metric m \<noteq> [] \<and>
     length (mq_metric m) \<le> 256 \<and> CHR '','' \<notin> set (mq_metric m) \<and> \<not> has_control (mq_metric m) \<and>
     is_identifier (mq_resource m) \<and> length (mq_dimensions m) \<le> 30 \<and>
     list_all (\<lambda>(k, v). is_identifier k \<and> length v \<le> 512 \<and> \<not> has_control v) (mq_dimensions m)"

definition metric_values_ok :: "metric_query \<Rightarrow> bool" where
  "metric_values_ok m \<longleftrightarrow>
     list_all (\<lambda>v. is_finite v \<and> \<not> f_lt v (Fin 0))
       (opt_list (mq_capacity m) @ opt_list (mq_warning m) @ opt_list (mq_error m)) \<and>
     \<not> is_some_and (\<lambda>c. f_eq c (Fin 0)) (mq_capacity m)"

definition validate_metric :: "metric_query \<Rightarrow> error + unit" where
  "validate_metric m =
     first_error
       [reject (\<not> metric_identity_ok m) ''invalid metric identity'',
        reject (\<not> metric_values_ok m) ''invalid metric threshold or capacity'']"

definition validate_target :: "(string \<Rightarrow> bool) \<Rightarrow> config \<Rightarrow> string list \<Rightarrow> target \<Rightarrow> error + unit" where
  "validate_target zone_ok cf earlier t =
     first_error
       [validate_references cf t, validate_facts zone_ok t, validate_name earlier t,
        validate_target_credential cf t, validate_selectors t, validate_bounds t,
        each (\<lambda>e. reject (\<not> endpoint_ok e)
          ''endpoint needs an HTTPS URL without credentials/query and explicit accepted statuses'')
          (t_endpoints t),
        reject (is_some_and (\<lambda>u. \<not> nats_url_ok u) (t_nats_url t))
          ''NATS URL needs a server host without credentials, path, query or fragment'',
        each validate_metric (t_metrics t)]"

section \<open>The configuration\<close>

fun validate_targets :: "(string \<Rightarrow> bool) \<Rightarrow> config \<Rightarrow> string list \<Rightarrow> target list \<Rightarrow> error + unit" where
  "validate_targets zone_ok cf earlier [] = Inr ()"
| "validate_targets zone_ok cf earlier (t # ts) =
     first_error [validate_target zone_ok cf earlier t,
       validate_targets zone_ok cf (t_name t # earlier) ts]"

definition validate_root :: "config \<Rightarrow> discovery_root \<Rightarrow> error + unit" where
  "validate_root cf dr =
     first_error
       [reject (is_some_and (\<lambda>n. \<not> credential_for cf (dr_provider dr) n) (dr_credential dr))
          ''discovery credentials must match the root provider'',
        reject (\<not> is_identifier (dr_scope dr)) ''invalid discovery scope'']"

definition validate_config :: "(string \<Rightarrow> bool) \<Rightarrow> config \<Rightarrow> error + unit" where
  "validate_config zone_ok cf =
     first_error
       [validate_credentials cf,
        reject (cf_version cf \<noteq> 1 \<or> cf_targets cf = [] \<or> 128 < length (cf_targets cf))
          ''version must be 1 with 1..128 explicit targets'',
        reject (128 < length (cf_discovery cf) \<or> 128 < length (cf_credentials cf) \<or>
                64 < length (cf_profiles cf) \<or> 512 < length (cf_severity cf))
          ''configuration exceeds registry bounds'',
        validate_targets zone_ok cf [] (cf_targets cf),
        each (validate_root cf) (cf_discovery cf)]"

section \<open>Lemmas\<close>

lemma identifier_no_separator: "is_identifier v \<Longrightarrow> CHR ''|'' \<notin> set v"
  by (auto simp: is_identifier_def identifier_byte_def list_all_iff char_classes)

lemma validate_targets_ok:
  assumes "validate_targets zone_ok cf earlier ts = Inr ()"
  shows "(\<forall>t \<in> set ts. is_identifier (t_name t) \<and> CHR ''/'' \<notin> set (t_name t) \<and> t_name t \<notin> set earlier) \<and>
     distinct (map t_name ts)"
  using assms
proof (induction ts arbitrary: earlier)
  case (Cons t ts)
  have "validate_name earlier t = Inr ()" and rest: "validate_targets zone_ok cf (t_name t # earlier) ts = Inr ()"
    using Cons.prems by (auto simp: first_error_Inr validate_target_def)
  then have "is_identifier (t_name t) \<and> CHR ''/'' \<notin> set (t_name t) \<and> t_name t \<notin> set earlier"
    by (auto simp: validate_name_def list_ex_iff)
  then show ?case using Cons.IH [OF rest] by auto
qed simp

end
