(* ===== verification/Resolve.thy ===== *)
theory Resolve
  imports Validate
begin

text \<open>
  Resolution of a configuration into jobs: \<open>config/applicability.rs\<close>,
  \<open>prerequisites.rs\<close>, \<open>shared_limits.rs\<close>, \<open>references.rs\<close> and \<open>resolve.rs\<close>. JSON
  encoding and SHA-256 are the parameters of \<open>encoding\<close>; a set of checks is the
  ascending list of its elements. \<open>resolve_inner\<close> and \<open>reference_jobs\<close> call each
  other, so the model has fuel; two levels always suffice (\<open>resolve_total\<close>).
\<close>

record encoding =
  y_target :: "target \<Rightarrow> usize option"
  y_strings :: "string list \<Rightarrow> usize option"
  y_severity :: "(string, severity) bmap \<Rightarrow> usize option"
  y_revision :: "config \<Rightarrow> string \<Rightarrow> selection \<Rightarrow> string option"

definition and_then :: "'e + 'a \<Rightarrow> ('a \<Rightarrow> 'e + 'b) \<Rightarrow> 'e + 'b" where
  "and_then r f = (case r of Inl e \<Rightarrow> Inl e | Inr v \<Rightarrow> f v)"

definition encoded :: "usize option \<Rightarrow> error + usize" where
  "encoded n = (case n of None \<Rightarrow> Inl JsonError | Some v \<Rightarrow> Inr v)"

lemma and_then_simps [simp]: "and_then (Inr v) f = f v" "and_then (Inl e) f = Inl e"
  by (simp_all add: and_then_def)

lemma and_then_Inr: "and_then r f = Inr v \<longleftrightarrow> (\<exists>w. r = Inr w \<and> f w = Inr v)"
  by (auto simp: and_then_def split: sum.splits)

section \<open>Applicable checks\<close>

definition applicable :: "target \<Rightarrow> check \<Rightarrow> bool" where
  "applicable t c =
     (if c = CSlo \<and> t_provider t = Azure then t_slo_goals t \<noteq> []
      else if c = CFlows then t_flows_required t \<or> t_flows t \<noteq> []
      else if c = CPreflight then True
      else if c = CKubernetes then t_context t \<noteq> None \<or> t_provider t = Kubernetes
      else if c = CEdge
      then t_endpoints t \<noteq> [] \<or> t_provider t \<in> {Gcp, Aws, Azure, Kubernetes, Edge}
      else if c = CGithub then t_provider t = Github \<or> t_repositories t \<noteq> []
      else (case t_provider t of
              Edge \<Rightarrow> False
            | Github \<Rightarrow> c \<in> {CDiscovery, CInventory, CReleases}
            | Kubernetes \<Rightarrow> c \<in> {CInventory, CQueues, CReleases, CManaged}
            | Nats \<Rightarrow> c = CQueues
            | _ \<Rightarrow> True))"

section \<open>Sampling of prerequisites\<close>

type_synonym sampling_source = "string \<times> check \<times> settings"

definition sampling_sources :: "job list \<Rightarrow> sampling_source list" where
  "sampling_sources js =
     map (\<lambda>j. (t_name (j_target j), j_check j, j_settings j))
       (filter (\<lambda>j. j_check j = CQueues \<or> (j_check j = CFlows \<and> t_flows (j_target j) \<noteq> [])) js)"

definition sampling_dependent :: "check \<Rightarrow> job \<Rightarrow> bool" where
  "sampling_dependent c j \<longleftrightarrow> j_check j = CKubernetes \<or> (c = CFlows \<and> j_check j \<in> {CMetrics, CQueues})"

definition sample_with :: "sampling_source \<Rightarrow> job \<Rightarrow> job" where
  "sample_with src j =
     (case src of (name, c, s) \<Rightarrow>
       if name \<noteq> t_name (j_target j) then j
       else
         (let j = (if sampling_dependent c j \<and> \<not> j_sampling_explicit j
                   then j\<lparr>j_settings := (j_settings j)\<lparr>
                          s_samples := max (s_samples (j_settings j)) (s_samples s),
                          s_sample_interval := min (s_sample_interval (j_settings j)) (s_sample_interval s)\<rparr>\<rparr>
                   else j)
          in if c = CFlows \<and> j_check j = CMetrics \<and> \<not> j_interval_explicit j
             then j\<lparr>j_settings := (j_settings j)\<lparr>
                    s_interval := min (s_interval (j_settings j)) (s_interval s)\<rparr>\<rparr>
             else j))"

definition check_sampling :: "job list \<Rightarrow> sampling_source \<Rightarrow> error + unit" where
  "check_sampling js src =
     (case src of (name, c, s) \<Rightarrow>
       first_error
         [reject (1 < s_samples s \<and> freshness s < s_sample_interval s)
            ''sampling interval exceeds evidence freshness'',
          reject (c = CFlows \<and>
                  list_ex (\<lambda>j. t_name (j_target j) = name \<and> j_check j = CMetrics \<and>
                    freshness s < s_interval (j_settings j)) js)
            ''flow freshness must cover its metric collection interval''])"

definition sampling :: "job list \<Rightarrow> error + job list" where
  "sampling js =
     (let sources = sampling_sources js;
          js' = map (fold sample_with sources) js
      in and_then (each (check_sampling js') sources) (\<lambda>_. Inr js'))"

section \<open>Shared limits\<close>

record footprint =
  fp_used :: usize
  fp_limit :: usize

definition empty_footprint :: footprint where
  "empty_footprint = \<lparr>fp_used = 0, fp_limit = u64_max\<rparr>"

definition footprint_bytes ::
  "encoding \<Rightarrow> target \<Rightarrow> string list \<Rightarrow> (string, severity) bmap \<Rightarrow> error + usize" where
  "footprint_bytes y t selectors sev =
     and_then (encoded (y_target y t)) (\<lambda>bytes.
     and_then (if selectors = [] then Inr bytes
               else and_then (encoded (y_strings y (t_resources t))) (\<lambda>old.
                    and_then (encoded (y_strings y selectors)) (\<lambda>new.
                      Inr (sat_add64 (bytes - old) new)))) (\<lambda>bytes.
     and_then (encoded (y_severity y sev)) (\<lambda>n.
       Inr (sat_mul64 (sat_add64 (sat_add64 bytes n) 4096) 4))))"

definition admit_footprint ::
  "encoding \<Rightarrow> target \<Rightarrow> settings \<Rightarrow> string list \<Rightarrow> (string, severity) bmap \<Rightarrow> footprint \<Rightarrow> error + footprint" where
  "admit_footprint y t s selectors sev fp =
     and_then (footprint_bytes y t selectors sev) (\<lambda>bytes.
       (let fp = \<lparr>fp_used = sat_add64 (fp_used fp) bytes,
                  fp_limit = min (fp_limit fp) (s_memory_bytes s div 8)\<rparr>
        in if fp_limit fp < fp_used fp
           then Inl (ConfigError ''effective configuration exceeds the shared memory budget'')
           else Inr fp))"

fun admit_jobs :: "encoding \<Rightarrow> job list \<Rightarrow> footprint \<Rightarrow> error + footprint" where
  "admit_jobs y [] fp = Inr fp"
| "admit_jobs y (j # js) fp =
     and_then (admit_footprint y (j_target j) (j_settings j) [] (j_severity j) fp) (admit_jobs y js)"

definition tighten :: "settings \<Rightarrow> settings \<Rightarrow> settings" where
  "tighten s shared =
     shared\<lparr>s_concurrency := min (s_concurrency shared) (s_concurrency s),
            s_subprocesses := min (s_subprocesses shared) (s_subprocesses s),
            s_memory_bytes := min (s_memory_bytes shared) (s_memory_bytes s),
            s_max_assets := min (s_max_assets shared) (s_max_assets s),
            s_max_findings := min (s_max_findings shared) (s_max_findings s),
            s_history_interval := min (s_history_interval shared) (s_history_interval s),
            s_history_age := min (s_history_age shared) (s_history_age s),
            s_history_count := min (s_history_count shared) (s_history_count s),
            s_history_bytes := min (s_history_bytes shared) (s_history_bytes s)\<rparr>"

definition shared_settings :: "settings \<Rightarrow> job list \<Rightarrow> settings" where
  "shared_settings first js = fold (\<lambda>j. tighten (j_settings j)) js first"

definition scope_limits :: "job list \<Rightarrow> (string, usize) bmap" where
  "scope_limits js =
     fold (\<lambda>j m. let n = s_scope_concurrency (j_settings j)
                 in bm_put (job_scope j) (min (unwrap_or n (bm_get m (job_scope j))) n) m) js []"

definition share :: "settings \<Rightarrow> (string, usize) bmap \<Rightarrow> job \<Rightarrow> job" where
  "share shared scopes j =
     (let s = j_settings j
      in j\<lparr>j_settings := s\<lparr>s_concurrency := s_concurrency shared,
            s_subprocesses := s_subprocesses shared, s_memory_bytes := s_memory_bytes shared,
            s_max_assets := s_max_assets shared, s_max_findings := s_max_findings shared,
            s_max_series := min (s_max_series s) (s_max_assets shared),
            s_history_interval := s_history_interval shared, s_history_age := s_history_age shared,
            s_history_count := s_history_count shared, s_history_bytes := s_history_bytes shared,
            s_scope_concurrency :=
              min (unwrap_or 1 (bm_get scopes (job_scope j))) (s_concurrency shared)\<rparr>\<rparr>)"

definition normalize :: "encoding \<Rightarrow> job list \<Rightarrow> error + job list" where
  "normalize y js =
     and_then (admit_jobs y js empty_footprint) (\<lambda>_.
       case js of
         [] \<Rightarrow> Inr []
       | first # _ \<Rightarrow>
           (let js' = map (share (shared_settings (j_settings first) js) (scope_limits js)) js
            in and_then (each (\<lambda>j. reject (settings_invalid (j_settings j))
                 ''selected checks exceed their shared runtime limits'') js') (\<lambda>_. Inr js')))"

section \<open>The jobs of one resolution\<close>

definition check_set :: "check list \<Rightarrow> check list" where
  "check_set cs = bs_collect cs"

definition insert_if :: "bool \<Rightarrow> check \<Rightarrow> check list \<Rightarrow> check list" where
  "insert_if b c cs = (if b then bs_insert c cs else cs)"

definition requested_checks :: "selection \<Rightarrow> profile \<Rightarrow> target \<Rightarrow> check list" where
  "requested_checks sel pf t =
     check_set (filter (applicable t)
       (if sel_checks sel = [] then unwrap_or all_checks (pf_checks pf) else sel_checks sel))"

definition only_kubernetes :: "target \<Rightarrow> check list \<Rightarrow> bool" where
  "only_kubernetes t cs \<longleftrightarrow>
     t_context t \<noteq> None \<and> list_ex (\<lambda>c. c \<noteq> CPreflight) cs \<and>
     list_all (\<lambda>c. c \<in> {CPreflight, CKubernetes, CQueues}) cs"

text \<open>The checks that run for a target: the requested ones and their prerequisites.\<close>

definition scheduled_checks :: "config \<Rightarrow> bool \<Rightarrow> selection \<Rightarrow> target \<Rightarrow> check list \<Rightarrow> check list" where
  "scheduled_checks cf metadata_only sel t requested =
     (let cs = (if t_provider t \<noteq> Github \<and> CDiscovery \<notin> set (sel_checks sel) \<and>
                   \<not> list_ex (\<lambda>dr. dr_provider dr = t_provider t) (cf_discovery cf)
                then filter (\<lambda>c. c \<noteq> CDiscovery) requested else requested);
          cs = bs_insert CPreflight cs;
          deep = (\<not> metadata_only \<and> list_ex (\<lambda>c. c \<in> {CManaged, CReleases}) cs \<and> t_provider t \<noteq> Edge);
          cs = insert_if (deep \<and> applicable t CInventory) CInventory cs;
          cs = insert_if (deep \<and> t_context t \<noteq> None \<and> CReleases \<in> set cs) CKubernetes cs;
          cs = insert_if (t_context t \<noteq> None \<and> list_ex (\<lambda>c. c \<in> {CQueues, CEdge}) cs) CKubernetes cs;
          flow = (CFlows \<in> set cs \<and> t_flows t \<noteq> []);
          cs = insert_if flow CMetrics cs;
          cs = insert_if (flow \<and> t_context t \<noteq> None) CKubernetes cs
      in insert_if (flow \<and> t_context t \<noteq> None) CQueues cs)"

text \<open>Defaults, global, profile, target, global check, target check, command line.\<close>

definition layers :: "config \<Rightarrow> profile \<Rightarrow> target \<Rightarrow> selection \<Rightarrow> check \<Rightarrow> settings_patch list" where
  "layers cf pf t sel c =
     [cf_settings cf, pf_settings pf, t_settings t, unwrap_or empty_patch (bm_get (cf_checks cf) c),
      unwrap_or empty_patch (bm_get (t_checks t) c), sel_overrides sel]"

definition base_settings :: "target \<Rightarrow> check \<Rightarrow> settings" where
  "base_settings t c =
     default_settings\<lparr>s_interval := interval_seconds c,
       s_samples := (if c = CQueues \<or> (c = CFlows \<and> t_flows t \<noteq> []) then 5 else 1)\<rparr>"

definition check_settings :: "config \<Rightarrow> profile \<Rightarrow> target \<Rightarrow> selection \<Rightarrow> check \<Rightarrow> settings" where
  "check_settings cf pf t sel c = fold overlay (layers cf pf t sel c) (base_settings t c)"

definition job_key :: "target \<Rightarrow> check \<Rightarrow> string" where
  "job_key t c = t_name t @ ''/'' @ check_name c"

definition new_job ::
  "config \<Rightarrow> profile \<Rightarrow> selection \<Rightarrow> bool \<Rightarrow> string \<Rightarrow> target \<Rightarrow> check list \<Rightarrow> check list \<Rightarrow> check \<Rightarrow> job" where
  "new_job cf pf sel metadata_only revision t requested cs c =
     \<lparr>j_artifact_only = metadata_only, j_assess_health = (c \<in> set requested \<or> c = CPreflight),
      j_requested_checks = requested, j_kube_only = only_kubernetes t requested,
      j_sampling_explicit = list_ex (\<lambda>p. p_samples p \<noteq> None) (layers cf pf t sel c),
      j_interval_explicit = list_ex (\<lambda>p. p_interval p \<noteq> None) (layers cf pf t sel c),
      j_continuous = False, j_log_start = None, j_log_end = None, j_key = job_key t c,
      j_target = (if sel_resources sel = [] then t else t\<lparr>t_resources := sel_resources sel\<rparr>),
      j_check = c, j_settings = check_settings cf pf t sel c, j_revision = revision,
      j_flows_enabled = (CFlows \<in> set cs), j_flow_settings = None, j_severity = cf_severity cf\<rparr>"

fun check_jobs ::
  "encoding \<Rightarrow> config \<Rightarrow> profile \<Rightarrow> selection \<Rightarrow> bool \<Rightarrow> string \<Rightarrow> target \<Rightarrow> check list \<Rightarrow> check list \<Rightarrow>
     check list \<Rightarrow> footprint \<Rightarrow> error + footprint \<times> job list" where
  "check_jobs y cf pf sel meta rv t requested cs [] fp = Inr (fp, [])"
| "check_jobs y cf pf sel meta rv t requested cs (c # rest) fp =
     (let s = check_settings cf pf t sel c in
      and_then (validate_settings s) (\<lambda>_.
        if \<not> s_enabled s then check_jobs y cf pf sel meta rv t requested cs rest fp
        else and_then (admit_footprint y t s (sel_resources sel) (cf_severity cf) fp) (\<lambda>fp.
             and_then (check_jobs y cf pf sel meta rv t requested cs rest fp) (\<lambda>(fp, js).
               Inr (fp, new_job cf pf sel meta rv t requested cs c # js)))))"

fun target_jobs ::
  "encoding \<Rightarrow> config \<Rightarrow> profile \<Rightarrow> selection \<Rightarrow> bool \<Rightarrow> string \<Rightarrow> target list \<Rightarrow> footprint \<Rightarrow>
     error + job list" where
  "target_jobs y cf pf sel meta rv [] fp = Inr []"
| "target_jobs y cf pf sel meta rv (t # ts) fp =
     (let requested = requested_checks sel pf t;
          cs = scheduled_checks cf meta sel t requested
      in and_then (check_jobs y cf pf sel meta rv t requested cs cs fp) (\<lambda>(fp, js).
         and_then (target_jobs y cf pf sel meta rv ts fp) (\<lambda>js'. Inr (js @ js'))))"

definition selected_targets :: "config \<Rightarrow> selection \<Rightarrow> target list" where
  "selected_targets cf sel =
     filter (\<lambda>t. sel_targets sel = [] \<or> t_name t \<in> set (sel_targets sel)) (cf_targets cf)"

text \<open>The part of \<open>resolve_inner\<close> before \<open>reference_jobs\<close>: the revision and the jobs.\<close>

definition base_jobs :: "encoding \<Rightarrow> config \<Rightarrow> selection \<Rightarrow> bool \<Rightarrow> error + string \<times> job list" where
  "base_jobs y cf sel meta =
     and_then (reject (1024 < length (sel_resources sel) \<or> \<not> list_all is_identifier (sel_resources sel))
       ''invalid or excessive CLI resource selectors'') (\<lambda>_.
     case bm_get (cf_profiles cf) (unwrap_or ''full'' (sel_profile sel)) of
       None \<Rightarrow> Inl (ConfigError ''unknown profile'')
     | Some pf \<Rightarrow>
         and_then (reject (\<not> list_all (\<lambda>n. list_ex (\<lambda>t. t_name t = n) (cf_targets cf)) (sel_targets sel))
           ''unknown target'') (\<lambda>_.
         case y_revision y cf (unwrap_or ''full'' (sel_profile sel)) sel of
           None \<Rightarrow> Inl JsonError
         | Some rv \<Rightarrow>
             and_then (target_jobs y cf pf sel meta rv (selected_targets cf sel) empty_footprint) (\<lambda>js.
             and_then (sampling js) (\<lambda>js. Inr (rv, js)))))"

section \<open>Reference jobs\<close>

text \<open>The artifact targets of release jobs that have no release job of their own.\<close>

definition artifact_dependencies :: "job list \<Rightarrow> string list" where
  "artifact_dependencies js =
     bs_collect (filter (\<lambda>n. \<not> list_ex (\<lambda>j. t_name (j_target j) = n \<and> j_check j = CReleases) js)
       (concat (map (\<lambda>j. t_artifact_targets (j_target j)) (filter (\<lambda>j. j_check j = CReleases) js))))"

definition dependency_selection :: "selection \<Rightarrow> string list \<Rightarrow> selection" where
  "dependency_selection sel names =
     sel\<lparr>sel_targets := names, sel_checks := [CReleases]\<rparr>"

definition github_sources :: "config \<Rightarrow> job list \<Rightarrow> string list" where
  "github_sources cf js =
     (if list_ex (\<lambda>j. j_check j = CReleases \<and> t_provider (j_target j) \<noteq> Github) js
      then map t_name (filter (\<lambda>t. t_provider t = Github \<and>
             \<not> list_ex (\<lambda>j. t_name (j_target j) = t_name t \<and>
                  j_check j \<in> {CGithub, CReleases, CInventory}) js) (cf_targets cf))
      else [])"

definition source_selection :: "selection \<Rightarrow> string list \<Rightarrow> selection" where
  "source_selection sel names =
     sel\<lparr>sel_targets := names, sel_checks := [CGithub], sel_resources := []\<rparr>"

definition as_reference :: "string \<Rightarrow> job \<Rightarrow> job" where
  "as_reference revision j = j\<lparr>j_revision := revision, j_assess_health := False\<rparr>"

text \<open>The jobs a nested resolution adds; none when there is nothing to resolve.\<close>

definition nested ::
  "(selection \<Rightarrow> (error + effective) option) \<Rightarrow> (selection \<times> bool) \<Rightarrow> string \<Rightarrow> job list \<Rightarrow>
     (error + job list) option" where
  "nested resolve_it sel_wanted revision js =
     (case sel_wanted of (sel, wanted) \<Rightarrow>
       if \<not> wanted then Some (Inr js)
       else map_option (\<lambda>r. and_then r (\<lambda>e. Inr (js @ map (as_reference revision) (ef_jobs e))))
              (resolve_it sel))"

definition flow_settings_of :: "job list \<Rightarrow> (string, settings) bmap" where
  "flow_settings_of js =
     bm_collect (map (\<lambda>j. (t_name (j_target j), j_settings j)) (filter (\<lambda>j. j_check j = CFlows) js))"

definition with_flow_settings :: "(string, settings) bmap \<Rightarrow> job \<Rightarrow> job" where
  "with_flow_settings m j =
     j\<lparr>j_flow_settings := bm_get m (t_name (j_target j)),
       j_flows_enabled := bm_has m (t_name (j_target j))\<rparr>"

definition finish_jobs :: "encoding \<Rightarrow> string \<Rightarrow> job list \<Rightarrow> error + effective" where
  "finish_jobs y revision js =
     and_then (normalize y js) (\<lambda>js.
       (let js = map (with_flow_settings (flow_settings_of js)) js
        in and_then (reject (js = [] \<or> 4096 < length js) ''select between 1 and 4096 checks'')
             (\<lambda>_. Inr \<lparr>ef_revision = revision, ef_jobs = js\<rparr>)))"

text \<open>\<open>resolve_inner\<close> with the calls of \<open>reference_jobs\<close> written out: \<open>None\<close> when the fuel
  does not cover the nesting.\<close>

fun resolve_inner :: "nat \<Rightarrow> encoding \<Rightarrow> config \<Rightarrow> selection \<Rightarrow> bool \<Rightarrow> (error + effective) option" where
  "resolve_inner 0 y cf sel meta = None"
| "resolve_inner (Suc n) y cf sel meta =
     (case base_jobs y cf sel meta of
        Inl e \<Rightarrow> Some (Inl e)
      | Inr (revision, js) \<Rightarrow>
          (let deps = artifact_dependencies js in
           case nested (\<lambda>s. resolve_inner n y cf s True)
                  (dependency_selection sel deps, \<not> meta \<and> deps \<noteq> []) revision js of
             None \<Rightarrow> None
           | Some (Inl e) \<Rightarrow> Some (Inl e)
           | Some (Inr js) \<Rightarrow>
               (let sources = github_sources cf js in
                case nested (\<lambda>s. resolve_inner n y cf s False)
                       (source_selection sel sources, \<not> meta \<and> sources \<noteq> []) revision js of
                  None \<Rightarrow> None
                | Some (Inl e) \<Rightarrow> Some (Inl e)
                | Some (Inr js) \<Rightarrow> Some (finish_jobs y revision js))))"

definition resolve_fuel :: nat where
  "resolve_fuel = 2"

definition resolve_config :: "encoding \<Rightarrow> config \<Rightarrow> selection \<Rightarrow> (error + effective) option" where
  "resolve_config y cf sel = resolve_inner resolve_fuel y cf sel False"

section \<open>Parsing\<close>

text \<open>The built-in profiles that \<open>Config::parse\<close> adds when the text does not define them.
  \<open>parsed\<close> is what \<open>toml::from_str\<close> makes of the text, \<open>None\<close> on an error.\<close>

definition default_profiles :: "(string \<times> profile) list" where
  "default_profiles =
     [(''quick'', \<lparr>pf_checks = Some [CPreflight, CEdge, CKubernetes, CQueues],
        pf_settings = empty_patch\<lparr>p_samples := Some 1\<rparr>\<rparr>),
      (''full'', \<lparr>pf_checks = Some all_checks, pf_settings = empty_patch\<rparr>),
      (''deep'', \<lparr>pf_checks = Some all_checks,
        pf_settings = empty_patch\<lparr>p_log_entries := Some 5000, p_log_window := Some 86400\<rparr>\<rparr>)]"

definition with_default_profiles :: "config \<Rightarrow> config" where
  "with_default_profiles cf =
     cf\<lparr>cf_profiles := fold (\<lambda>(name, pf) m. if bm_has m name then m else bm_put name pf m)
          default_profiles (cf_profiles cf)\<rparr>"

definition parse_config :: "(string \<Rightarrow> bool) \<Rightarrow> (string \<Rightarrow> config option) \<Rightarrow> string \<Rightarrow> error + config" where
  "parse_config zone_ok parsed text =
     (if 1024 * 1024 < length text then Inl (ConfigError ''configuration exceeds 1 MiB'')
      else case parsed text of
             None \<Rightarrow> Inl (ConfigError ''invalid TOML or unknown fields'')
           | Some cf \<Rightarrow>
               (let cf = with_default_profiles cf
                in and_then (validate_config zone_ok cf) (\<lambda>_. Inr cf)))"

end
