(* ===== verification/Config_Properties.thy ===== *)
theory Config_Properties
  imports Resolve Samples
begin

text \<open>
  What resolution guarantees: it always returns, the shared ceilings are the tightest of
  the selected checks, nested reference jobs never assess health, and a validated
  configuration keeps the resources of its targets apart.
\<close>

section \<open>Resolution returns\<close>

lemma set_insert_if [simp]: "set (insert_if b c cs) = (if b then insert c (set cs) else set cs)"
  by (simp add: insert_if_def)

text \<open>A resolution for GitHub checks only schedules those and their preflight.\<close>

lemma requested_github:
  "sel_checks sel = [CGithub] \<Longrightarrow> set (requested_checks sel pf t) \<subseteq> {CGithub}"
  by (auto simp: requested_checks_def check_set_def)

lemma scheduled_github:
  assumes "sel_checks sel = [CGithub]" and "set requested \<subseteq> {CGithub}"
  shows "set (scheduled_checks cf meta sel t requested) \<subseteq> {CGithub, CPreflight}"
proof -
  define cs where "cs = bs_insert CPreflight (if t_provider t \<noteq> Github \<and> CDiscovery \<notin> set (sel_checks sel) \<and>
      \<not> list_ex (\<lambda>dr. dr_provider dr = t_provider t) (cf_discovery cf)
    then filter (\<lambda>c. c \<noteq> CDiscovery) requested else requested)"
  have cs: "set cs \<subseteq> {CGithub, CPreflight}" using assms(2) by (auto simp: cs_def)
  then have "\<not> list_ex (\<lambda>c. c \<in> {CManaged, CReleases}) cs" "\<not> list_ex (\<lambda>c. c \<in> {CQueues, CEdge}) cs"
    "CFlows \<notin> set cs" by (auto simp: list_ex_iff)
  then have "scheduled_checks cf meta sel t requested = cs"
    by (simp only: scheduled_checks_def Let_def cs_def [symmetric] insert_if_def simp_thms if_False)
  then show ?thesis using cs by simp
qed

lemma check_jobs_checks:
  "check_jobs y cf pf sel meta rv t requested cs todo fp = Inr (fp', js) \<Longrightarrow>
     j_check ` set js \<subseteq> set todo"
proof (induction todo arbitrary: fp fp' js)
  case (Cons c todo)
  show ?case
  proof (cases "s_enabled (check_settings cf pf t sel c)")
    case False
    then have "check_jobs y cf pf sel meta rv t requested cs todo fp = Inr (fp', js)"
      using Cons.prems by (auto simp: and_then_Inr Let_def)
    from Cons.IH [OF this] show ?thesis by auto
  next
    case True
    then obtain fp1 fp2 js' where
      rest: "check_jobs y cf pf sel meta rv t requested cs todo fp1 = Inr (fp2, js')"
      and js: "js = new_job cf pf sel meta rv t requested cs c # js'"
      using Cons.prems by (auto simp: and_then_Inr Let_def)
    show ?thesis using Cons.IH [OF rest] by (auto simp: js new_job_def)
  qed
qed simp

lemma target_jobs_checks:
  assumes "\<And>t. set (scheduled_checks cf meta sel t (requested_checks sel pf t)) \<subseteq> C"
  shows "target_jobs y cf pf sel meta rv ts fp = Inr js \<Longrightarrow> j_check ` set js \<subseteq> C"
proof (induction ts arbitrary: fp js)
  case (Cons t ts)
  then obtain fp' js1 js2 where
    one: "check_jobs y cf pf sel meta rv t (requested_checks sel pf t)
      (scheduled_checks cf meta sel t (requested_checks sel pf t))
      (scheduled_checks cf meta sel t (requested_checks sel pf t)) fp = Inr (fp', js1)"
    and rest: "target_jobs y cf pf sel meta rv ts fp' = Inr js2" and js: "js = js1 @ js2"
    by (auto simp: and_then_Inr Let_def)
  show ?case using check_jobs_checks [OF one] assms [of t] Cons.IH [OF rest] by (auto simp: js)
qed simp

lemma sample_with_check [simp]: "j_check (sample_with src j) = j_check j"
  by (simp add: sample_with_def Let_def split: prod.split)

lemma fold_sample_check [simp]: "j_check (fold sample_with srcs j) = j_check j"
  by (induction srcs arbitrary: j) simp_all

lemma sampling_checks: "sampling js = Inr js' \<Longrightarrow> j_check ` set js' = j_check ` set js"
  by (auto simp: sampling_def Let_def and_then_Inr image_image)

lemma base_jobs_github:
  assumes "sel_checks sel = [CGithub]" and "base_jobs y cf sel meta = Inr (rv, js)"
  shows "j_check ` set js \<subseteq> {CGithub, CPreflight}"
proof -
  obtain pf js0 where jobs: "target_jobs y cf pf sel meta rv (selected_targets cf sel) empty_footprint = Inr js0"
    and "sampling js0 = Inr js"
    using assms(2) by (auto simp: base_jobs_def and_then_Inr split: option.splits)
  moreover have "j_check ` set js0 \<subseteq> {CGithub, CPreflight}"
    by (rule target_jobs_checks [OF _ jobs])
      (rule scheduled_github [OF assms(1) requested_github [OF assms(1)]])
  ultimately show ?thesis using sampling_checks [of js0 js] by simp
qed

lemma no_references:
  assumes "j_check ` set js \<subseteq> {CGithub, CPreflight}"
  shows "artifact_dependencies js = []" and "github_sources cf js = []"
proof -
  have "filter (\<lambda>j. j_check j = CReleases) js = []" using assms by (force simp: filter_empty_conv)
  then show "artifact_dependencies js = []" by (simp add: artifact_dependencies_def bs_collect_def)
  show "github_sources cf js = []" using assms by (force simp: github_sources_def list_ex_iff)
qed

lemma nested_unwanted [simp]: "nested f (s, False) rv js = Some (Inr js)"
  by (simp add: nested_def)

lemma nested_some: "f s \<noteq> None \<Longrightarrow> nested f (s, b) rv js \<noteq> None"
  by (auto simp: nested_def)

lemma resolve_metadata: "resolve_inner (Suc n) y cf sel True \<noteq> None"
  by (simp add: Let_def split: sum.split prod.split)

lemma resolve_github:
  assumes "sel_checks sel = [CGithub]"
  shows "resolve_inner (Suc n) y cf sel False \<noteq> None"
proof (cases "base_jobs y cf sel False")
  case (Inl e)
  then show ?thesis by simp
next
  case (Inr b)
  obtain rv js where b: "b = (rv, js)" by fastforce
  note none = no_references [OF base_jobs_github [OF assms Inr [unfolded b]]]
  show ?thesis by (simp add: Inr b none Let_def)
qed

text \<open>More fuel changes nothing.\<close>

lemma resolve_inner_some: "resolve_inner (Suc (Suc n)) y cf sel meta \<noteq> None"
proof (cases "base_jobs y cf sel meta")
  case (Inl e)
  then show ?thesis by simp
next
  case (Inr b)
  obtain rv js where b: "b = (rv, js)" by fastforce
  let ?deps = "nested (\<lambda>s. resolve_inner (Suc n) y cf s True)
      (dependency_selection sel (artifact_dependencies js), \<not> meta \<and> artifact_dependencies js \<noteq> []) rv js"
  have deps: "?deps \<noteq> None" by (rule nested_some) (rule resolve_metadata)
  have sources: "nested (\<lambda>s. resolve_inner (Suc n) y cf s False)
      (source_selection sel (github_sources cf js'), w) rv js' \<noteq> None" for js' w
    by (rule nested_some) (rule resolve_github, simp add: source_selection_def)
  show ?thesis
    using deps sources
    by (simp only: resolve_inner.simps Inr b sum.case prod.case Let_def split: option.split sum.split) blast
qed

section \<open>Shared limits\<close>

lemma tighten_le:
  "s_concurrency (tighten s sh) \<le> s_concurrency s \<and> s_concurrency (tighten s sh) \<le> s_concurrency sh"
  "s_subprocesses (tighten s sh) \<le> s_subprocesses s \<and> s_subprocesses (tighten s sh) \<le> s_subprocesses sh"
  "s_memory_bytes (tighten s sh) \<le> s_memory_bytes s \<and> s_memory_bytes (tighten s sh) \<le> s_memory_bytes sh"
  "s_max_assets (tighten s sh) \<le> s_max_assets s \<and> s_max_assets (tighten s sh) \<le> s_max_assets sh"
  "s_max_findings (tighten s sh) \<le> s_max_findings s \<and> s_max_findings (tighten s sh) \<le> s_max_findings sh"
  by (simp_all add: tighten_def)

definition within_shared :: "settings \<Rightarrow> settings \<Rightarrow> bool" where
  "within_shared sh s \<longleftrightarrow>
     s_concurrency sh \<le> s_concurrency s \<and> s_subprocesses sh \<le> s_subprocesses s \<and>
     s_memory_bytes sh \<le> s_memory_bytes s \<and> s_max_assets sh \<le> s_max_assets s \<and>
     s_max_findings sh \<le> s_max_findings s"

lemma within_shared_tighten: "within_shared sh s \<Longrightarrow> within_shared (tighten t sh) s"
  using tighten_le [of t sh] by (auto simp: within_shared_def)

lemma within_shared_tight: "within_shared (tighten s sh) s"
  using tighten_le [of s sh] by (auto simp: within_shared_def)

lemma fold_within_shared:
  "within_shared sh s \<Longrightarrow> within_shared (fold (\<lambda>j. tighten (j_settings j)) js sh) s"
  by (induction js arbitrary: sh) (auto simp: within_shared_tighten)

lemma shared_settings_within:
  "j \<in> set js \<Longrightarrow> within_shared (shared_settings first js) (j_settings j)"
  unfolding shared_settings_def
proof (induction js arbitrary: first)
  case (Cons k js)
  show ?case
  proof (cases "j = k")
    case True
    then show ?thesis by (simp add: fold_within_shared within_shared_tight)
  next
    case False
    then show ?thesis using Cons by simp
  qed
qed simp

definition same_ceilings :: "settings \<Rightarrow> settings \<Rightarrow> bool" where
  "same_ceilings a b \<longleftrightarrow>
     s_concurrency a = s_concurrency b \<and> s_subprocesses a = s_subprocesses b \<and>
     s_memory_bytes a = s_memory_bytes b \<and> s_max_assets a = s_max_assets b \<and>
     s_max_findings a = s_max_findings b"

lemma share_ceilings [simp]: "same_ceilings sh (j_settings (share sh m j))"
  by (simp add: same_ceilings_def share_def Let_def)

lemma same_ceilings_sym: "same_ceilings a b \<Longrightarrow> same_ceilings b a"
  by (simp add: same_ceilings_def)

lemma same_ceilings_trans: "same_ceilings a b \<Longrightarrow> same_ceilings b c \<Longrightarrow> same_ceilings a c"
  by (simp add: same_ceilings_def)

lemma same_ceilings_within: "same_ceilings a b \<Longrightarrow> within_shared a c \<Longrightarrow> within_shared b c"
  by (simp add: same_ceilings_def within_shared_def)

lemma normalize_Inr:
  assumes "normalize y js = Inr js'"
  obtains "js = []" "js' = []"
  | first rest where "js = first # rest"
      "js' = map (share (shared_settings (j_settings first) js) (scope_limits js)) js"
      "\<forall>j \<in> set js'. \<not> settings_invalid (j_settings j)"
  using assms by (auto simp: normalize_def and_then_Inr Let_def each_Inr split: list.splits)

section \<open>The resolved jobs\<close>

lemma finish_jobs_Inr:
  assumes "finish_jobs y rv js = Inr e"
  obtains js' where "normalize y js = Inr js'" "ef_jobs e = map (with_flow_settings (flow_settings_of js')) js'"
    "js' \<noteq> []" "length js' \<le> 4096" "ef_revision e = rv"
  using assms by (auto simp: finish_jobs_def and_then_Inr Let_def)

lemma resolve_inner_Inr:
  assumes "resolve_inner n y cf sel meta = Some (Inr e)"
  obtains rv js where "finish_jobs y rv js = Inr e"
  using assms by (cases n) (auto simp: Let_def split: sum.splits prod.splits option.splits)

lemma with_flow_settings_simps [simp]:
  "j_settings (with_flow_settings m j) = j_settings j" "j_key (with_flow_settings m j) = j_key j"
  "j_check (with_flow_settings m j) = j_check j" "j_target (with_flow_settings m j) = j_target j"
  "j_assess_health (with_flow_settings m j) = j_assess_health j"
  by (simp_all add: with_flow_settings_def)

lemma normalize_ceilings:
  assumes "normalize y js = Inr js'" and "j \<in> set js'" and "k \<in> set js'"
  shows "same_ceilings (j_settings j) (j_settings k)"
  using assms(1)
proof (cases rule: normalize_Inr)
  case (2 first rest)
  let ?sh = "shared_settings (j_settings first) js"
  have "same_ceilings ?sh (j_settings j)" "same_ceilings ?sh (j_settings k)"
    using assms(2,3) by (auto simp: 2(2))
  then show ?thesis by (blast intro: same_ceilings_sym same_ceilings_trans)
qed (use assms in simp_all)

lemma normalize_valid:
  assumes "normalize y js = Inr js'" and "j \<in> set js'"
  shows "\<not> settings_invalid (j_settings j)"
  using assms(1) by (cases rule: normalize_Inr) (use assms(2) in auto)

lemma normalize_within:
  assumes "normalize y js = Inr js'" and "j \<in> set js" and "k \<in> set js'"
  shows "within_shared (j_settings k) (j_settings j)"
  using assms(1)
proof (cases rule: normalize_Inr)
  case (2 first rest)
  let ?sh = "shared_settings (j_settings first) js"
  have "same_ceilings ?sh (j_settings k)" using assms(3) by (auto simp: 2(2))
  then show ?thesis by (rule same_ceilings_within) (rule shared_settings_within [OF assms(2)])
qed (use assms in simp_all)

lemma flow_settings_of_in:
  assumes "bm_get (flow_settings_of js) n = Some s"
  shows "\<exists>j \<in> set js. j_settings j = s"
proof -
  have collect: "set (bm_collect xs) \<subseteq> set xs" for xs :: "(string \<times> settings) list"
  proof -
    have put: "set (bm_put k v m) \<subseteq> insert (k, v) (set m)" for k v and m :: "(string, settings) bmap"
      by (induction k v m rule: bm_put.induct) auto
    have "set (fold (\<lambda>(k, v). bm_put k v) xs m) \<subseteq> set xs \<union> set m" for m :: "(string, settings) bmap"
    proof (induction xs arbitrary: m)
      case (Cons kv xs)
      have "fold (\<lambda>(k, v). bm_put k v) (kv # xs) m =
          fold (\<lambda>(k, v). bm_put k v) xs (bm_put (fst kv) (snd kv) m)"
        by (simp add: case_prod_unfold)
      then show ?case
        using Cons.IH [of "bm_put (fst kv) (snd kv) m"] put [of "fst kv" "snd kv" m] by auto
    qed simp
    from this [of "[]"] show ?thesis by (simp add: bm_collect_def)
  qed
  have "(n, s) \<in> set (map (\<lambda>j. (t_name (j_target j), j_settings j)) (filter (\<lambda>j. j_check j = CFlows) js))"
    using map_of_SomeD [OF assms] collect unfolding flow_settings_of_def by blast
  then show ?thesis by auto
qed

lemma split_prefix:
  assumes "a @ CHR ''/'' # s = b @ CHR ''/'' # t" and "CHR ''/'' \<notin> set a" and "CHR ''/'' \<notin> set b"
  shows "a = b"
  using assms
proof (induction a arbitrary: b)
  case Nil
  then show ?case by (cases b) auto
next
  case (Cons c a)
  then obtain d b' where b: "b = d # b'" by (cases b) auto
  then show ?case using Cons by auto
qed

section \<open>A sample resolution\<close>

definition sample_encoding :: encoding where
  "sample_encoding = \<lparr>y_target = (\<lambda>_. Some 100), y_strings = (\<lambda>_. Some 10),
     y_severity = (\<lambda>_. Some 2), y_revision = (\<lambda>_ _ _. Some ''r1'')\<rparr>"

definition sample_config :: config where
  "sample_config = with_default_profiles \<lparr>cf_version = 1, cf_settings = empty_patch,
     cf_credentials = [], cf_discovery = [], cf_profiles = [], cf_checks = [], cf_severity = [],
     cf_targets = [sample_target]\<rparr>"

definition sample_selection :: selection where
  "sample_selection = \<lparr>sel_profile = None, sel_targets = [], sel_checks = [CPreflight],
     sel_resources = [], sel_overrides = empty_patch\<rparr>"

abbreviation full_profile :: profile where
  "full_profile \<equiv> \<lparr>pf_checks = Some all_checks, pf_settings = empty_patch\<rparr>"

lemma sample_config_simps [simp]:
  "cf_targets sample_config = [sample_target]" "cf_settings sample_config = empty_patch"
  "cf_checks sample_config = []" "cf_severity sample_config = []" "cf_discovery sample_config = []"
  "bm_get (cf_profiles sample_config) ''full'' = Some full_profile"
  "sel_profile sample_selection = None" "sel_targets sample_selection = []"
  "sel_checks sample_selection = [CPreflight]" "sel_resources sample_selection = []"
  "sel_overrides sample_selection = empty_patch"
  by (simp_all add: sample_config_def sample_selection_def with_default_profiles_def
      default_profiles_def bm.get_put)

definition preflight_settings :: settings where
  "preflight_settings = default_settings\<lparr>s_interval := 30, s_samples := 1\<rparr>"

definition preflight_job :: job where
  "preflight_job = new_job sample_config full_profile sample_selection False ''r1'' sample_target
     [CPreflight] [CPreflight] CPreflight"

lemma preflight_check_settings:
  "check_settings sample_config full_profile sample_target sample_selection CPreflight = preflight_settings"
  by (simp add: check_settings_def layers_def base_settings_def overlay_empty sample_target_def
      preflight_settings_def)

lemma preflight_valid: "\<not> settings_invalid preflight_settings"
  by (simp add: preflight_settings_def settings_invalid_def default_settings_def sat_mul64_def
      u64_max_def f_le_def)

lemma preflight_settings_simps [simp]:
  "s_enabled preflight_settings" "s_memory_bytes preflight_settings = 268435456"
  "s_concurrency preflight_settings = 16" "s_scope_concurrency preflight_settings = 4"
  "s_max_assets preflight_settings = 50000" "s_max_series preflight_settings = 1000"
  by (simp_all add: preflight_settings_def default_settings_def)

lemma preflight_job_simps [simp]:
  "j_check preflight_job = CPreflight" "j_settings preflight_job = preflight_settings"
  "j_target preflight_job = sample_target" "j_severity preflight_job = []"
  by (simp_all add: preflight_job_def new_job_def preflight_check_settings)

lemma preflight_checks:
  "requested_checks sample_selection full_profile sample_target = [CPreflight]"
  "scheduled_checks sample_config False sample_selection sample_target [CPreflight] = [CPreflight]"
  by (simp_all add: requested_checks_def check_set_def applicable_def bs_collect_def
      scheduled_checks_def sample_target_def insert_if_def Let_def)

lemma preflight_footprint:
  "admit_footprint sample_encoding sample_target preflight_settings [] [] empty_footprint =
     Inr \<lparr>fp_used = 16792, fp_limit = 33554432\<rparr>"
  by (simp add: admit_footprint_def footprint_bytes_def encoded_def sample_encoding_def
      sat_add64_def sat_mul64_def u64_max_def empty_footprint_def)

lemma preflight_base:
  "base_jobs sample_encoding sample_config sample_selection False = Inr (''r1'', [preflight_job])"
proof -
  have "y_revision sample_encoding c n q = Some ''r1''" for c n q
    by (simp add: sample_encoding_def)
  then show ?thesis
    by (simp add: base_jobs_def Let_def reject_def selected_targets_def preflight_checks
        preflight_job_def [symmetric] preflight_check_settings validate_settings_def preflight_valid
        preflight_footprint sampling_def sampling_sources_def each_def)
qed

lemma preflight_shared: "shared_settings preflight_settings [preflight_job] = preflight_settings"
  by (simp add: shared_settings_def tighten_def)

lemma preflight_share:
  "j_settings (share preflight_settings (scope_limits [preflight_job]) preflight_job) = preflight_settings"
proof -
  have "share preflight_settings (scope_limits [preflight_job]) preflight_job =
      preflight_job\<lparr>j_settings := preflight_settings\<lparr>s_max_series := 1000, s_scope_concurrency := 4\<rparr>\<rparr>"
    by (simp add: share_def scope_limits_def Let_def)
  then show ?thesis by (simp add: preflight_settings_def default_settings_def)
qed

lemma preflight_normalized:
  "normalize sample_encoding [preflight_job] =
     Inr [share preflight_settings (scope_limits [preflight_job]) preflight_job]"
  by (simp add: normalize_def Let_def preflight_footprint each_def preflight_shared
      preflight_share preflight_valid reject_def)

definition sample_effective :: effective where
  "sample_effective = \<lparr>ef_revision = ''r1'', ef_jobs = [with_flow_settings []
     (share preflight_settings (scope_limits [preflight_job]) preflight_job)]\<rparr>"

lemma sample_resolved:
  "resolve_config sample_encoding sample_config sample_selection = Some (Inr sample_effective)"
  by (simp add: resolve_config_def resolve_fuel_def numeral_2_eq_2 preflight_base Let_def
      artifact_dependencies_def bs_collect_def github_sources_def finish_jobs_def
      preflight_normalized reject_def sample_effective_def flow_settings_of_def bm_collect_def share_def)

lemma resolved_ceilings:
  assumes "resolve_config y cf sel = Some (Inr e)" and "j \<in> set (ef_jobs e)" and "k \<in> set (ef_jobs e)"
  shows "same_ceilings (j_settings j) (j_settings k) \<and> \<not> settings_invalid (j_settings j) \<and>
     same_ceilings (unwrap_or (j_settings j) (j_flow_settings j)) (j_settings k)"
proof -
  obtain rv js where "finish_jobs y rv js = Inr e"
    using assms(1) unfolding resolve_config_def by (rule resolve_inner_Inr)
  then obtain js' where n: "normalize y js = Inr js'"
    and e: "ef_jobs e = map (with_flow_settings (flow_settings_of js')) js'"
    by (rule finish_jobs_Inr)
  obtain j0 k0 where j0: "j0 \<in> set js'" "j = with_flow_settings (flow_settings_of js') j0"
    and k0: "k0 \<in> set js'" "k = with_flow_settings (flow_settings_of js') k0"
    using assms(2,3) e by auto
  have "same_ceilings (unwrap_or (j_settings j) (j_flow_settings j)) (j_settings k0)"
  proof (cases "bm_get (flow_settings_of js') (t_name (j_target j0))")
    case None
    then show ?thesis using normalize_ceilings [OF n j0(1) k0(1)] by (simp add: j0(2) with_flow_settings_def)
  next
    case (Some s)
    then obtain f where "f \<in> set js'" "j_settings f = s" using flow_settings_of_in by blast
    then show ?thesis using normalize_ceilings [OF n _ k0(1), of f] Some
      by (simp add: j0(2) with_flow_settings_def)
  qed
  then show ?thesis
    using normalize_ceilings [OF n j0(1) k0(1)] normalize_valid [OF n j0(1)] j0 k0 by simp
qed

section \<open>Properties\<close>

text \<open>C31: Resolution always returns a result or an error: the mutual recursion of
  \<open>resolve_inner\<close> and \<open>reference_jobs\<close> is at most two calls deep.\<close>

theorem resolution_returns: "\<exists>r. resolve_config y cf sel = Some r"
  using resolve_inner_some [of 0 y cf sel False] by (auto simp: resolve_config_def resolve_fuel_def numeral_2_eq_2)



text \<open>The shared ceilings are no looser than any selected check's own.\<close>

theorem normalize_takes_tightest:
  assumes "normalize y js = Inr js'" and "j \<in> set js" and "k \<in> set js'"
  shows "s_concurrency (j_settings k) \<le> s_concurrency (j_settings j) \<and>
     s_subprocesses (j_settings k) \<le> s_subprocesses (j_settings j) \<and>
     s_memory_bytes (j_settings k) \<le> s_memory_bytes (j_settings j) \<and>
     s_max_assets (j_settings k) \<le> s_max_assets (j_settings j) \<and>
     s_max_findings (j_settings k) \<le> s_max_findings (j_settings j)"
  using normalize_within [OF assms] by (simp add: within_shared_def)

theorem normalize_takes_tightest_witness:
  "s_concurrency preflight_settings \<le> 16 \<and> s_subprocesses preflight_settings \<le> s_subprocesses preflight_settings \<and>
   s_memory_bytes preflight_settings \<le> 268435456 \<and> s_max_assets preflight_settings \<le> 50000 \<and>
   s_max_findings preflight_settings \<le> s_max_findings preflight_settings"
  using normalize_takes_tightest [OF preflight_normalized, of preflight_job
      "share preflight_settings (scope_limits [preflight_job]) preflight_job"]
  by (simp add: preflight_share)

text \<open>C37: In a validated configuration no resource belongs to two targets: the prefix
  \<open>name/\<close> by which every component selects a target's resources is unambiguous.\<close>

theorem target_resources_disjoint:
  assumes "validate_config zone_ok cf = Inr ()"
    and "t \<in> set (cf_targets cf)" and "u \<in> set (cf_targets cf)" and "t \<noteq> u"
    and "starts_with r (t_name t @ ''/'')"
  shows "\<not> starts_with r (t_name u @ ''/'')"
proof
  assume other: "starts_with r (t_name u @ ''/'')"
  have ok: "validate_targets zone_ok cf [] (cf_targets cf) = Inr ()"
    using assms(1) by (auto simp: validate_config_def first_error_Inr)
  have no_slash: "CHR ''/'' \<notin> set (t_name t)" "CHR ''/'' \<notin> set (t_name u)"
    and dist: "distinct (map t_name (cf_targets cf))"
    using validate_targets_ok [OF ok] assms(2,3) by auto
  obtain p where p: "r = t_name t @ CHR ''/'' # p" using assms(5) by (auto simp: starts_with_iff)
  obtain q where q: "r = t_name u @ CHR ''/'' # q" using other by (auto simp: starts_with_iff)
  have "t_name t @ CHR ''/'' # p = t_name u @ CHR ''/'' # q" using p q by simp
  from split_prefix [OF this no_slash] have "t_name t = t_name u" .
  then show False using dist assms(2-4) by (auto simp: distinct_map inj_on_def)
qed

definition twin_config :: config where
  "twin_config = sample_config\<lparr>cf_targets := [sample_target, sample_target\<lparr>t_name := ''dev''\<rparr>]\<rparr>"

lemma twin_config_valid: "validate_config zone_ok twin_config = Inr ()"
proof -
  have fields: "cf_credentials twin_config = []" "cf_version twin_config = 1"
    "length (cf_profiles twin_config) = 3" "cf_discovery twin_config = []" "cf_severity twin_config = []"
    "cf_targets twin_config = [sample_target, sample_target\<lparr>t_name := ''dev''\<rparr>]"
    by (simp_all add: twin_config_def sample_config_def with_default_profiles_def default_profiles_def)
  have "validate_target zone_ok twin_config [] sample_target = Inr ()"
    "validate_target zone_ok twin_config [''prod''] (sample_target\<lparr>t_name := ''dev''\<rparr>) = Inr ()"
    by (simp_all add: validate_target_def validate_references_def validate_facts_def validate_name_def
        validate_target_credential_def validate_selectors_def validate_bounds_def each_def
        reject_def sample_target_def opt_list_def is_identifier_def identifier_byte_def
        char_classes region_ok_def starts_with_def)
  then show ?thesis
    by (simp add: validate_config_def validate_credentials_def each_def reject_def fields)
qed

theorem target_resources_disjoint_witness: "\<not> starts_with ''prod/a'' (''dev'' @ ''/'')"
  using target_resources_disjoint [OF twin_config_valid, of sample_target
      "sample_target\<lparr>t_name := ''dev''\<rparr>" "''prod/a''"]
  by (simp add: twin_config_def sample_target_def starts_with_def)

end
