(* ===== verification/Budget.thy ===== *)
theory Budget
  imports Prelude
begin

text \<open>
  \<open>crates/core/src/budget.rs\<close>: admission against a limit that can change while permits
  are out. The fields are atomics that several tasks read and write, so the model
  interleaves tasks: \<open>advance\<close> is one atomic access of one task, \<open>budget_step\<close> lets any
  task move. \<open>compare_exchange_weak\<close> may fail spuriously, and a \<open>fetch_sub\<close> and the
  \<open>notify_waiters\<close> after it are two steps. tokio's \<open>Notify\<close> is a generation counter: a
  waiter that was enabled in generation \<open>n\<close> wakes when the counter has moved past \<open>n\<close>.
\<close>

section \<open>State\<close>

record budget =
  b_limit :: usize
  b_used :: usize
  b_generation :: nat  \<comment> \<open>\<open>changed\<close>: how often \<open>notify_waiters\<close> ran\<close>
  b_turn :: bool  \<comment> \<open>\<open>admission\<close>: the FIFO mutex is held\<close>

definition new_budget :: "usize \<Rightarrow> budget" where
  "new_budget limit = \<lparr>b_limit = limit, b_used = 0, b_generation = 0, b_turn = False\<rparr>"

definition available_permits :: "budget \<Rightarrow> usize" where
  "available_permits b = b_limit b - b_used b"

definition wrapping_sub64 :: "u64 \<Rightarrow> u64 \<Rightarrow> u64" where
  "wrapping_sub64 a n = (a + (2 ^ 64 - n mod 2 ^ 64)) mod 2 ^ 64"

text \<open>Who attempts an admission: a direct call of \<open>try_acquire_many_owned\<close>, or \<open>acquire\<close>
  with the generation in which it enabled its wakeup.\<close>

datatype caller = Direct | Acquire nat

text \<open>Where a task stands. \<open>Notifying t\<close> has changed the budget and not yet notified.\<close>

datatype task =
    Idle
  | Queued  \<comment> \<open>\<open>admission.lock().await\<close>\<close>
  | Trying caller usize  \<comment> \<open>before \<open>used.load\<close>\<close>
  | Loaded caller usize usize  \<comment> \<open>amount and the value of \<open>used\<close> it works with\<close>
  | Fits caller usize usize usize  \<comment> \<open>\<open>total\<close> passed the first comparison\<close>
  | Charged caller usize usize  \<comment> \<open>the exchange succeeded\<close>
  | Blocked nat  \<comment> \<open>\<open>changed.await\<close>\<close>
  | Holding usize  \<comment> \<open>has a \<open>Permit\<close>\<close>
  | Notifying task

fun refused :: "caller \<Rightarrow> task" where
  "refused Direct = Idle"
| "refused (Acquire n) = Blocked n"

fun end_turn :: "caller \<Rightarrow> budget \<Rightarrow> budget" where
  "end_turn Direct b = b"
| "end_turn (Acquire n) b = b\<lparr>b_turn := False\<rparr>"

section \<open>Steps\<close>

text \<open>One atomic access; \<open>spurious\<close> is the outcome of the weak exchange.\<close>

fun advance :: "bool \<Rightarrow> budget \<Rightarrow> task \<Rightarrow> budget \<times> task" where
  "advance spurious b Idle = (b, Idle)"
| "advance spurious b (Holding a) = (b, Holding a)"
| "advance spurious b Queued =
     (if b_turn b then (b, Queued)
      else (b\<lparr>b_turn := True\<rparr>, Trying (Acquire (b_generation b)) 1))"
| "advance spurious b (Trying c a) = (b, Loaded c a (b_used b))"
| "advance spurious b (Loaded c a used) =
     (b, case checked_add64 used a of
           None \<Rightarrow> refused c
         | Some tot \<Rightarrow> if b_limit b < tot then refused c else Fits c a used tot)"
| "advance spurious b (Fits c a used tot) =
     (if b_used b = used \<and> \<not> spurious then (b\<lparr>b_used := tot\<rparr>, Charged c a tot)
      else (b, Loaded c a (b_used b)))"
| "advance spurious b (Charged c a tot) =
     (if b_limit b < tot
      then (b\<lparr>b_used := wrapping_sub64 (b_used b) a\<rparr>, Notifying (refused c))
      else (end_turn c b, Holding a))"
| "advance spurious b (Notifying t) = (b\<lparr>b_generation := Suc (b_generation b)\<rparr>, t)"
| "advance spurious b (Blocked n) =
     (b, if b_generation b = n then Blocked n else Trying (Acquire (b_generation b)) 1)"

definition resize :: "usize \<Rightarrow> budget \<Rightarrow> budget" where
  "resize limit b = b\<lparr>b_limit := limit\<rparr>"

definition drop_permit :: "usize \<Rightarrow> budget \<Rightarrow> budget" where
  "drop_permit a b = b\<lparr>b_used := wrapping_sub64 (b_used b) a\<rparr>"

type_synonym tasks = "budget \<times> task list"

inductive budget_step :: "tasks \<Rightarrow> tasks \<Rightarrow> bool" where
  access: "\<lbrakk>i < length ts; advance spurious b (ts ! i) = (b', t)\<rbrakk> \<Longrightarrow> budget_step (b, ts) (b', ts[i := t])"
| try_many: "\<lbrakk>i < length ts; ts ! i = Idle; a \<le> u32_max\<rbrakk> \<Longrightarrow> budget_step (b, ts) (b, ts[i := Trying Direct a])"
| acquire: "\<lbrakk>i < length ts; ts ! i = Idle\<rbrakk> \<Longrightarrow> budget_step (b, ts) (b, ts[i := Queued])"
| release: "\<lbrakk>i < length ts; ts ! i = Holding a\<rbrakk> \<Longrightarrow> budget_step (b, ts) (drop_permit a b, ts[i := Notifying Idle])"
| resizing: "\<lbrakk>i < length ts; ts ! i = Idle; l \<le> u64_max\<rbrakk> \<Longrightarrow> budget_step (b, ts) (resize l b, ts[i := Notifying Idle])"
| cancel_queued: "\<lbrakk>i < length ts; ts ! i = Queued\<rbrakk> \<Longrightarrow> budget_step (b, ts) (b, ts[i := Idle])"
| cancel_blocked: "\<lbrakk>i < length ts; ts ! i = Blocked n\<rbrakk> \<Longrightarrow> budget_step (b, ts) (b\<lparr>b_turn := False\<rparr>, ts[i := Idle])"

inductive_cases budget_stepE: "budget_step s s'"

inductive budget_run :: "usize \<Rightarrow> nat \<Rightarrow> tasks \<Rightarrow> bool" for limit n where
  start: "budget_run limit n (new_budget limit, replicate n Idle)"
| step: "\<lbrakk>budget_run limit n s; budget_step s s'\<rbrakk> \<Longrightarrow> budget_run limit n s'"

text \<open>An attempt that no other task interferes with.\<close>

definition try_acquire :: "budget \<Rightarrow> usize \<Rightarrow> budget \<times> bool" where
  "try_acquire b a =
     (if b_used b + a \<le> min u64_max (b_limit b) then (b\<lparr>b_used := b_used b + a\<rparr>, True) else (b, False))"

section \<open>Charges\<close>

text \<open>What a task has charged to \<open>used\<close>.\<close>

fun charge :: "task \<Rightarrow> usize" where
  "charge (Charged c a tot) = a"
| "charge (Holding a) = a"
| "charge t = 0"

definition charged :: "task list \<Rightarrow> usize" where
  "charged ts = sum_list (map charge ts)"

definition holds :: "task list \<Rightarrow> usize" where
  "holds ts = sum_list (map (\<lambda>t. case t of Holding a \<Rightarrow> a | _ \<Rightarrow> 0) ts)"

fun sound_task :: "task \<Rightarrow> bool" where
  "sound_task (Fits c a used tot) \<longleftrightarrow> tot = used + a \<and> tot \<le> u64_max"
| "sound_task (Notifying t) \<longleftrightarrow> t = Idle \<or> (\<exists>n. t = Blocked n)"
| "sound_task t \<longleftrightarrow> True"

definition budget_ok :: "tasks \<Rightarrow> bool" where
  "budget_ok s \<longleftrightarrow> b_used (fst s) = charged (snd s) \<and> b_used (fst s) \<le> u64_max \<and>
     (\<forall>t \<in> set (snd s). sound_task t)"

lemma charge_refused [simp]: "charge (refused c) = 0"
  by (cases c) simp_all

lemma sound_refused [simp]: "sound_task (refused c)" "sound_task (Notifying (refused c))"
  by (cases c; simp)+

lemma end_turn_simps [simp]: "b_used (end_turn c b) = b_used b" "b_limit (end_turn c b) = b_limit b"
  "b_generation (end_turn c b) = b_generation b"
  by (cases c; simp)+

lemma charge_le: "i < length ts \<Longrightarrow> charge (ts ! i) \<le> charged ts"
  by (auto simp: charged_def intro!: member_le_sum_list)

lemma charged_update:
  "i < length ts \<Longrightarrow> charged (ts[i := t]) = charged ts + charge t - charge (ts ! i)"
  by (simp add: charged_def map_update sum_list_update)

lemma wrapping_sub64_exact: "\<lbrakk>n \<le> a; a \<le> u64_max\<rbrakk> \<Longrightarrow> wrapping_sub64 a n = a - n"
proof -
  assume "n \<le> a" "a \<le> u64_max"
  then have "n mod 2 ^ 64 = n" "a + (2 ^ 64 - n) = (a - n) + 2 ^ 64" "a - n < 2 ^ 64"
    by (auto simp: u64_max_def)
  then show ?thesis by (simp only: wrapping_sub64_def mod_add_self2 mod_less)
qed

lemma holds_le: "holds ts \<le> charged ts"
  unfolding holds_def charged_def by (rule sum_list_mono) (auto split: task.splits)

text \<open>Replacing one task and keeping the sum: the shape of every step.\<close>

lemma budget_ok_update:
  assumes "budget_ok (b, ts)" and "i < length ts" and "sound_task t"
    and "b_used b' = b_used b + charge t - charge (ts ! i)" and "b_used b' \<le> u64_max"
  shows "budget_ok (b', ts[i := t])"
  using assms charge_le [OF assms(2)] set_update_subset_insert [of ts i t]
  by (auto simp: budget_ok_def charged_update)

lemma refused_shape: "refused c = Idle \<or> (\<exists>n. refused c = Blocked n)"
  by (cases c) simp_all

lemma advance_task:
  assumes "advance spurious b t = (b', t')" and "sound_task t" and "charge t \<le> b_used b" and "b_used b \<le> u64_max"
  shows "sound_task t'" and "b_used b' = b_used b + charge t' - charge t" and "b_used b' \<le> u64_max"
  using assms refused_shape
  by (cases t; auto simp: checked_add64_def wrapping_sub64_exact split: if_splits option.splits)+

lemma advance_ok:
  assumes "budget_ok (b, ts)" and "i < length ts" and "advance spurious b (ts ! i) = (b', t)"
  shows "budget_ok (b', ts[i := t])"
proof -
  have "sound_task (ts ! i)" "charge (ts ! i) \<le> b_used b" "b_used b \<le> u64_max"
    using assms(1,2) charge_le [OF assms(2)] by (auto simp: budget_ok_def)
  note advance_task [OF assms(3) this]
  then show ?thesis by (rule budget_ok_update [OF assms(1,2)])
qed

lemma budget_step_ok: "budget_step s s' \<Longrightarrow> budget_ok s \<Longrightarrow> budget_ok s'"
proof (induction rule: budget_step.induct)
  case (access i ts spurious b b' t)
  then show ?case by (blast intro: advance_ok)
next
  case (release i ts a b)
  have "a \<le> b_used b" "b_used b \<le> u64_max"
    using release charge_le [of i ts] by (auto simp: budget_ok_def)
  then show ?case using release
    by (intro budget_ok_update [OF release.prems]) (simp_all add: drop_permit_def wrapping_sub64_exact)
next
  case (resizing i ts l b)
  have "b_used b \<le> u64_max" using resizing by (simp add: budget_ok_def)
  then show ?case using resizing
    by (intro budget_ok_update [OF resizing.prems]) (simp_all add: resize_def)
qed (rule budget_ok_update, assumption, assumption; simp add: budget_ok_def)+

lemma budget_run_ok: "budget_run limit n s \<Longrightarrow> budget_ok s"
proof (induction rule: budget_run.induct)
  case start
  show ?case by (auto simp: budget_ok_def new_budget_def charged_def sum_list_replicate)
next
  case (step s s')
  then show ?case by (blast intro: budget_step_ok)
qed

section \<open>The limit\<close>

text \<open>Nothing is charged beyond the largest limit \<open>l\<close> that was ever in force.\<close>

definition within_limit :: "usize \<Rightarrow> tasks \<Rightarrow> bool" where
  "within_limit l s \<longleftrightarrow> b_limit (fst s) \<le> l \<and> b_used (fst s) \<le> l \<and>
     (\<forall>c a used tot. Fits c a used tot \<in> set (snd s) \<longrightarrow> tot \<le> l)"

definition limited_step :: "usize \<Rightarrow> tasks \<Rightarrow> tasks \<Rightarrow> bool" where
  "limited_step l s s' \<longleftrightarrow> budget_step s s' \<and> b_limit (fst s') \<le> l"

lemma within_limit_update:
  assumes "within_limit l (b, ts)" and "b_limit b' \<le> l" and "b_used b' \<le> l"
    and "\<And>c a used tot. t = Fits c a used tot \<Longrightarrow> tot \<le> l"
  shows "within_limit l (b', ts[i := t])"
  using assms set_update_subset_insert [of ts i t] by (auto simp: within_limit_def)

lemma refused_not_fits [simp]: "refused c \<noteq> Fits d a used tot"
  by (cases c) simp_all

lemma refused_not_fits' [simp]: "Fits d a used tot \<noteq> refused c"
  by (cases c) simp_all

lemma advance_within:
  assumes "advance spurious b t = (b', t')" and "b_limit b \<le> l" and "b_used b \<le> l" and "b_used b \<le> u64_max"
    and "charge t \<le> b_used b" and "sound_task t" and "\<And>c a used tot. t = Fits c a used tot \<Longrightarrow> tot \<le> l"
  shows "b_limit b' \<le> l" and "b_used b' \<le> l" and "\<And>c a used tot. t' = Fits c a used tot \<Longrightarrow> tot \<le> l"
  using assms
  by (cases t; auto simp: checked_add64_def wrapping_sub64_exact split: if_splits option.splits)+

lemma limited_step_within:
  assumes "budget_step s s'" and "b_limit (fst s') \<le> l" and "budget_ok s" and "within_limit l s"
  shows "within_limit l s'"
  using assms
proof (induction rule: budget_step.induct)
  case (access i ts spurious b b' t)
  have "charge (ts ! i) \<le> b_used b" "sound_task (ts ! i)" "b_used b \<le> u64_max" "b_limit b \<le> l" "b_used b \<le> l"
    "\<And>c a used tot. ts ! i = Fits c a used tot \<Longrightarrow> tot \<le> l"
    using access charge_le [of i ts] nth_mem [of i ts] by (auto simp: budget_ok_def within_limit_def)
  note advance_within [OF access(2) this(4,5,3,1,2,6)]
  then show ?case by (rule within_limit_update [OF access.prems(3)])
next
  case (release i ts a b)
  have "a \<le> b_used b" "b_used b \<le> u64_max" "b_used b \<le> l" "b_limit b \<le> l"
    using release charge_le [of i ts] by (auto simp: budget_ok_def within_limit_def)
  then show ?case
    by (intro within_limit_update [OF release.prems(3)]) (auto simp: drop_permit_def wrapping_sub64_exact)
qed (rule within_limit_update, assumption; simp add: within_limit_def resize_def)+

lemma limited_run:
  assumes "(limited_step l)\<^sup>*\<^sup>* (new_budget limit, replicate n Idle) s" and "limit \<le> l"
  shows "budget_ok s \<and> within_limit l s"
  using assms(1)
proof (induction rule: rtranclp_induct)
  case base
  show ?case using budget_run_ok [OF budget_run.start, of limit n] assms(2)
    by (auto simp: within_limit_def new_budget_def)
next
  case (step s s')
  then have "budget_step s s'" "b_limit (fst s') \<le> l" "budget_ok s" "within_limit l s"
    by (auto simp: limited_step_def)
  then show ?case by (blast intro: budget_step_ok limited_step_within)
qed

section \<open>Wakeups\<close>

fun is_notifying :: "task \<Rightarrow> bool" where
  "is_notifying (Notifying t) = True"
| "is_notifying t = False"

definition pending :: "task list \<Rightarrow> bool" where
  "pending ts = list_ex is_notifying ts"

text \<open>A task of \<open>acquire\<close> that has seen the budget full is right, unless a notification is
  on its way: either already counted (\<open>n < b_generation b\<close>) or about to be (\<open>p\<close>).\<close>

fun wakeful :: "budget \<Rightarrow> bool \<Rightarrow> task \<Rightarrow> bool" where
  "wakeful b p (Trying (Acquire n) a) \<longleftrightarrow> n \<le> b_generation b \<and> a = 1"
| "wakeful b p (Loaded (Acquire n) a used) \<longleftrightarrow> n \<le> b_generation b \<and> a = 1 \<and>
     (n = b_generation b \<and> \<not> p \<longrightarrow> used \<le> b_used b)"
| "wakeful b p (Fits (Acquire n) a used tot) \<longleftrightarrow> n \<le> b_generation b \<and> a = 1"
| "wakeful b p (Charged (Acquire n) a tot) \<longleftrightarrow> n \<le> b_generation b \<and> a = 1"
| "wakeful b p (Blocked n) \<longleftrightarrow> n \<le> b_generation b \<and> (n = b_generation b \<and> \<not> p \<longrightarrow> b_limit b \<le> b_used b)"
| "wakeful b p (Notifying (Blocked n)) \<longleftrightarrow> n \<le> b_generation b"
| "wakeful b p t \<longleftrightarrow> True"

definition wakeups_ok :: "tasks \<Rightarrow> bool" where
  "wakeups_ok s \<longleftrightarrow> b_limit (fst s) \<le> u64_max \<and>
     (\<forall>t \<in> set (snd s). wakeful (fst s) (pending (snd s)) t)"

text \<open>A step that takes away no capacity, or announces it, disturbs no other task.\<close>

lemma wakeful_transfer:
  assumes "wakeful b p t"
    and "b_generation b < b_generation b' \<or>
      (b_generation b' = b_generation b \<and> (p' \<or> (\<not> p \<and> b_used b \<le> b_used b' \<and> b_limit b' \<le> b_limit b)))"
  shows "wakeful b' p' t"
  using assms by (induction b p t rule: wakeful.induct) auto

lemma pending_update:
  assumes "i < length ts"
  shows "is_notifying t \<Longrightarrow> pending (ts[i := t])"
    and "\<not> is_notifying (ts ! i) \<Longrightarrow> pending ts \<Longrightarrow> pending (ts[i := t])"
proof -
  show "is_notifying t \<Longrightarrow> pending (ts[i := t])"
    using assms set_update_memI [of i ts t] by (auto simp: pending_def list_ex_iff)
  show "pending (ts[i := t])" if "\<not> is_notifying (ts ! i)" "pending ts"
  proof -
    note busy = that
    obtain k where "k < length ts" "is_notifying (ts ! k)" "k \<noteq> i"
      using busy by (metis pending_def list_ex_iff in_set_conv_nth)
    moreover have "ts[i := t] ! k \<in> set (ts[i := t])"
      by (rule nth_mem) (simp add: calculation(1))
    ultimately show ?thesis by (auto simp: pending_def list_ex_iff)
  qed
qed

lemma wakeups_update:
  assumes ok: "wakeups_ok (b, ts)" and i: "i < length ts" and "b_limit b' \<le> u64_max"
    and mine: "wakeful b' (pending (ts[i := t])) t"
    and others: "b_generation b < b_generation b' \<or>
      (b_generation b' = b_generation b \<and> \<not> is_notifying (ts ! i) \<and>
        (is_notifying t \<or> (b_used b \<le> b_used b' \<and> b_limit b' \<le> b_limit b)))"
  shows "wakeups_ok (b', ts[i := t])"
proof -
  have "wakeful b' (pending (ts[i := t])) u" if "u \<in> set ts" for u
  proof (rule wakeful_transfer)
    show "wakeful b (pending ts) u" using ok that by (simp add: wakeups_ok_def)
    show "b_generation b < b_generation b' \<or> (b_generation b' = b_generation b \<and> (pending (ts[i := t]) \<or>
        (\<not> pending ts \<and> b_used b \<le> b_used b' \<and> b_limit b' \<le> b_limit b)))"
      using others pending_update [OF i] by auto
  qed
  then show ?thesis using mine assms(3) set_update_subset_insert [of ts i t] by (auto simp: wakeups_ok_def)
qed

lemma advance_quiet:
  assumes "advance spurious b t = (b', t')" and "sound_task t" and "b_used b \<le> u64_max"
  shows "b_limit b' = b_limit b"
    and "b_generation b < b_generation b' \<or>
      (b_generation b' = b_generation b \<and> \<not> is_notifying t \<and> (is_notifying t' \<or> b_used b \<le> b_used b'))"
  using assms
  by (cases t; auto split: if_splits)+

lemma refused_wakeful:
  "wakeful b p (refused c) \<longleftrightarrow>
     (case c of Direct \<Rightarrow> True
      | Acquire n \<Rightarrow> n \<le> b_generation b \<and> (n = b_generation b \<and> \<not> p \<longrightarrow> b_limit b \<le> b_used b))"
  by (cases c) simp_all

lemma advance_wakeful:
  assumes "advance spurious b t = (b', t')" and "wakeful b p t" and "sound_task t"
    and "b_used b \<le> u64_max" and "b_limit b \<le> u64_max" and "\<not> is_notifying t \<Longrightarrow> p \<Longrightarrow> p'"
  shows "wakeful b' p' t'"
proof (cases t)
  case (Trying c a)
  then show ?thesis using assms by (cases c) auto
next
  case (Loaded c a used)
  then show ?thesis using assms
    by (cases c) (auto simp: checked_add64_def split: if_splits)
next
  case (Fits c a used tot)
  then show ?thesis using assms by (cases c) (auto split: if_splits)
next
  case (Charged c a tot)
  then show ?thesis using assms by (cases c) (auto split: if_splits)
next
  case (Notifying u)
  then show ?thesis using assms by auto
qed (use assms in \<open>auto split: if_splits\<close>)

lemma budget_step_wakeups: "budget_step s s' \<Longrightarrow> budget_ok s \<Longrightarrow> wakeups_ok s \<Longrightarrow> wakeups_ok s'"
proof (induction rule: budget_step.induct)
  case (access i ts spurious b b' t)
  have ok: "sound_task (ts ! i)" "b_used b \<le> u64_max" "b_limit b \<le> u64_max" "wakeful b (pending ts) (ts ! i)"
    using access by (auto simp: budget_ok_def wakeups_ok_def)
  show ?case
  proof (rule wakeups_update [OF access.prems(2) access(1)])
    show "wakeful b' (pending (ts[i := t])) t"
      by (rule advance_wakeful [OF access(2) ok(4,1,2,3)]) (rule pending_update(2) [OF access(1)])
  qed (use advance_quiet [OF access(2) ok(1,2)] ok(3) in auto)
next
  case (release i ts a b)
  then show ?case by (intro wakeups_update) (auto simp: drop_permit_def wakeups_ok_def)
next
  case (resizing i ts l b)
  then show ?case by (intro wakeups_update) (auto simp: resize_def)
qed (rule wakeups_update, assumption, assumption; simp add: wakeups_ok_def)+

lemma budget_run_wakeups: "budget_run limit n s \<Longrightarrow> limit \<le> u64_max \<Longrightarrow> wakeups_ok s"
proof (induction rule: budget_run.induct)
  case start
  then show ?case by (auto simp: wakeups_ok_def new_budget_def)
next
  case (step s s')
  then show ?case by (blast intro: budget_step_wakeups budget_run_ok)
qed

section \<open>Uncontended attempts\<close>

text \<open>Left alone, the four accesses of an attempt are the atomic \<open>try_acquire\<close>.\<close>

fun advances :: "nat \<Rightarrow> budget \<times> task \<Rightarrow> budget \<times> task" where
  "advances 0 s = s"
| "advances (Suc n) (b, t) = advances n (advance False b t)"

section \<open>Properties\<close>

text \<open>C23: No admission is lost or counted twice: whatever the tasks do, \<open>used\<close> is the sum of
  the permits that are held and of the attempts between their two comparisons, and no
  subtraction wraps around.\<close>

theorem charges_are_exact:
  assumes "budget_run limit n s"
  shows "b_used (fst s) = charged (snd s) \<and> b_used (fst s) \<le> u64_max"
  using budget_run_ok [OF assms] by (simp add: budget_ok_def)

text \<open>Two tasks: the first takes 3 of 5 permits.\<close>

definition holding_run :: tasks where
  "holding_run = (new_budget 5\<lparr>b_used := 3\<rparr>, [Holding 3, Idle])"

lemma holding_steps:
  "budget_step (new_budget 5, [Idle, Idle]) (new_budget 5, [Trying Direct 3, Idle])"
  "budget_step (new_budget 5, [Trying Direct 3, Idle]) (new_budget 5, [Loaded Direct 3 0, Idle])"
  "budget_step (new_budget 5, [Loaded Direct 3 0, Idle]) (new_budget 5, [Fits Direct 3 0 3, Idle])"
  "budget_step (new_budget 5, [Fits Direct 3 0 3, Idle])
     (new_budget 5\<lparr>b_used := 3\<rparr>, [Charged Direct 3 3, Idle])"
  "budget_step (new_budget 5\<lparr>b_used := 3\<rparr>, [Charged Direct 3 3, Idle]) holding_run"
  using budget_step.try_many [of 0 "[Idle, Idle]" 3 "new_budget 5"]
    budget_step.access [of 0 "[Trying Direct 3, Idle]" False "new_budget 5" "new_budget 5" "Loaded Direct 3 0"]
    budget_step.access [of 0 "[Loaded Direct 3 0, Idle]" False "new_budget 5" "new_budget 5" "Fits Direct 3 0 3"]
    budget_step.access [of 0 "[Fits Direct 3 0 3, Idle]" False "new_budget 5"
      "new_budget 5\<lparr>b_used := 3\<rparr>" "Charged Direct 3 3"]
    budget_step.access [of 0 "[Charged Direct 3 3, Idle]" False "new_budget 5\<lparr>b_used := 3\<rparr>"
      "new_budget 5\<lparr>b_used := 3\<rparr>" "Holding 3"]
  by (simp_all add: new_budget_def checked_add64_def u64_max_def u32_max_def holding_run_def)

lemma holding_reached: "budget_run 5 2 holding_run"
proof -
  have "budget_run 5 2 (new_budget 5, [Idle, Idle])"
    using budget_run.start [of 5 2] by (simp add: numeral_2_eq_2)
  note step1 = budget_run.step [OF this holding_steps(1)]
  note step2 = budget_run.step [OF step1 holding_steps(2)]
  note step3 = budget_run.step [OF step2 holding_steps(3)]
  note step4 = budget_run.step [OF step3 holding_steps(4)]
  show ?thesis by (rule budget_run.step [OF step4 holding_steps(5)])
qed

theorem charges_are_exact_witness: "b_used (fst holding_run) = charged (snd holding_run) \<and> b_used (fst holding_run) \<le> u64_max"
  by (rule charges_are_exact [OF holding_reached])

text \<open>C21: As long as the limit is never set above \<open>l\<close>, the permits that are held never
  exceed \<open>l\<close>, however attempts, drops and resizes interleave.\<close>

theorem holders_stay_within:
  assumes "(limited_step l)\<^sup>*\<^sup>* (new_budget limit, replicate n Idle) s" and "limit \<le> l"
  shows "holds (snd s) \<le> l"
  using limited_run [OF assms] holds_le [of "snd s"] by (auto simp: budget_ok_def within_limit_def)

lemma holding_limited: "(limited_step 5)\<^sup>*\<^sup>* (new_budget 5, replicate 2 Idle) holding_run"
proof -
  note steps = holding_steps [THEN limited_step_def [of 5, THEN iffD2, OF conjI]]
  show ?thesis
    using steps by (auto simp: numeral_2_eq_2 new_budget_def holding_run_def
        intro: converse_rtranclp_into_rtranclp)
qed

theorem holders_stay_within_witness: "holds (snd holding_run) \<le> 5"
  using holders_stay_within [OF holding_limited] by simp

text \<open>C36: No wakeup is lost: when there is room, a blocked \<open>acquire\<close> has either been woken
  already or the task that made the room is about to notify it.\<close>

theorem no_lost_wakeup:
  assumes "budget_run limit n (b, ts)" and "limit \<le> u64_max"
    and "i < length ts" and "ts ! i = Blocked g" and "b_used b < b_limit b"
  shows "g < b_generation b \<or> pending ts"
proof -
  have "wakeful b (pending ts) (ts ! i)"
    using budget_run_wakeups [OF assms(1,2)] assms(3) by (auto simp: wakeups_ok_def)
  then show ?thesis using assms(4,5) by auto
qed

text \<open>One task waits on an empty budget, the other one has just raised the limit.\<close>

definition waiting_budget :: "usize \<Rightarrow> budget" where
  "waiting_budget limit = \<lparr>b_limit = limit, b_used = 0, b_generation = 0, b_turn = True\<rparr>"

lemma waiting_steps:
  "budget_step (new_budget 0, [Idle, Idle]) (new_budget 0, [Queued, Idle])"
  "budget_step (new_budget 0, [Queued, Idle]) (waiting_budget 0, [Trying (Acquire 0) 1, Idle])"
  "budget_step (waiting_budget 0, [Trying (Acquire 0) 1, Idle]) (waiting_budget 0, [Loaded (Acquire 0) 1 0, Idle])"
  "budget_step (waiting_budget 0, [Loaded (Acquire 0) 1 0, Idle]) (waiting_budget 0, [Blocked 0, Idle])"
  "budget_step (waiting_budget 0, [Blocked 0, Idle]) (waiting_budget 1, [Blocked 0, Notifying Idle])"
  using budget_step.acquire [of 0 "[Idle, Idle]" "new_budget 0"]
    budget_step.access [of 0 "[Queued, Idle]" False "new_budget 0" "waiting_budget 0" "Trying (Acquire 0) 1"]
    budget_step.access [of 0 "[Trying (Acquire 0) 1, Idle]" False "waiting_budget 0" "waiting_budget 0"
      "Loaded (Acquire 0) 1 0"]
    budget_step.access [of 0 "[Loaded (Acquire 0) 1 0, Idle]" False "waiting_budget 0" "waiting_budget 0" "Blocked 0"]
    budget_step.resizing [of 1 "[Blocked 0, Idle]" 1 "waiting_budget 0"]
  by (simp_all add: new_budget_def waiting_budget_def checked_add64_def u64_max_def resize_def)

lemma waiting_reached: "budget_run 0 2 (waiting_budget 1, [Blocked 0, Notifying Idle])"
proof -
  have "budget_run 0 2 (new_budget 0, [Idle, Idle])"
    using budget_run.start [of 0 2] by (simp add: numeral_2_eq_2)
  note step1 = budget_run.step [OF this waiting_steps(1)]
  note step2 = budget_run.step [OF step1 waiting_steps(2)]
  note step3 = budget_run.step [OF step2 waiting_steps(3)]
  note step4 = budget_run.step [OF step3 waiting_steps(4)]
  show ?thesis by (rule budget_run.step [OF step4 waiting_steps(5)])
qed

theorem no_lost_wakeup_witness:
  "0 < b_generation (waiting_budget 1) \<or> pending [Blocked 0, Notifying Idle]"
  by (rule no_lost_wakeup [OF waiting_reached, of 0]) (simp_all add: waiting_budget_def)

text \<open>An attempt nobody interferes with succeeds exactly when the amount fits, and
  refuses without changing the budget otherwise.\<close>

theorem attempt_is_atomic:
  "advances 4 (b, Trying Direct a) =
     (case try_acquire b a of (b', granted) \<Rightarrow> (b', if granted then Holding a else Idle))"
  by (simp add: numeral_eq_Suc try_acquire_def checked_add64_def)

end
