(* ===== verification/Report.thy ===== *)
theory Report
  imports Model
begin

text \<open>
  \<open>crates/core/src/report.rs\<close>: the exit status of a run, the comparison of two snapshots
  and the text that may enter a report cell. The Markdown layout is not modelled.
\<close>

section \<open>Exit status\<close>

definition exit_code :: "snapshot \<Rightarrow> bool \<Rightarrow> u8" where
  "exit_code sn strict =
     (if sn_persistence_fault sn then 2
      else if list_ex (\<lambda>k. is_none_or (\<lambda>r. \<not> result_complete r) (bm_get (sn_results sn) k))
                (sn_selected_scope sn) then 3
      else if list_ex (\<lambda>(_, f). f_severity f = Error \<or> (strict \<and> f_severity f = Warning))
                (sn_findings sn) then 1
      else 0)"

section \<open>Comparison\<close>

definition diff_kind :: "snapshot \<Rightarrow> string \<Rightarrow> finding \<Rightarrow> transition_kind option" where
  "diff_kind old i f =
     (case bm_get (sn_findings old) i of
        None \<Rightarrow> Some (if bm_has (sn_retired old) i then TReappeared else TNew)
      | Some prior \<Rightarrow>
          if \<not> f_stale prior \<and> f_stale f then Some TStale
          else if f_stale prior \<and> \<not> f_stale f then Some TReappeared
          else if f_severity prior < f_severity f then Some TWorsened
          else None)"

definition diff_present :: "snapshot \<Rightarrow> snapshot \<Rightarrow> transition list" where
  "diff_present old new =
     List.map_filter (\<lambda>(i, f). map_option
       (\<lambda>k. \<lparr>tr_at = sn_captured_at new, tr_finding = i, tr_kind = k\<rparr>) (diff_kind old i f)) (sn_findings new)"

text \<open>A finding that is gone is reported only by the transition that retired it.\<close>

definition diff_gone :: "snapshot \<Rightarrow> snapshot \<Rightarrow> transition list" where
  "diff_gone old new =
     List.map_filter (bm_get (sn_retired new))
       (filter (\<lambda>i. \<not> bm_has (sn_findings new) i) (map fst (sn_findings old)))"

definition diff :: "snapshot \<Rightarrow> snapshot \<Rightarrow> transition list" where
  "diff old new = diff_present old new @ diff_gone old new"

section \<open>Cells\<close>

text \<open>The characters of a UTF-8 string, by the width its lead byte announces.\<close>

definition char_width :: "char \<Rightarrow> nat" where
  "char_width c = (if c < CHR 0xC0 then 1 else if c < CHR 0xE0 then 2 else if c < CHR 0xF0 then 3 else 4)"

lemma char_width_pos: "0 < char_width c"
  by (simp add: char_width_def)

function utf8_chars :: "string \<Rightarrow> string list" where
  "utf8_chars [] = []"
| "utf8_chars (c # s) = take (char_width c) (c # s) # utf8_chars (drop (char_width c) (c # s))"
  by pat_completeness auto
termination by (relation "measure length") (auto simp: char_width_def)

definition utf8_char :: "string \<Rightarrow> bool" where
  "utf8_char ch \<longleftrightarrow> (case ch of [] \<Rightarrow> False
     | c # s \<Rightarrow> length ch = char_width c \<and> (c < CHR 0x80 \<or> CHR 0xC0 \<le> c) \<and>
         list_all (\<lambda>b. CHR 0x80 \<le> b \<and> b < CHR 0xC0) s)"

text \<open>What every Rust \<open>String\<close> is: a sequence of encoded characters.\<close>

definition utf8 :: "string \<Rightarrow> bool" where
  "utf8 s \<longleftrightarrow> list_all utf8_char (utf8_chars s)"

definition cell_char :: "string \<Rightarrow> string" where
  "cell_char ch = (if ch \<in> {''|'', ''<'', ''>'', ''`''} then ''_'' else ch)"

definition safe :: "string \<Rightarrow> string" where
  "safe v = concat (map cell_char (take 512 (filter (\<lambda>ch. \<not> has_control ch) (utf8_chars v))))"

section \<open>Lemmas\<close>

text \<open>The bytes that separate cells, open tags or end a line.\<close>

definition inert :: "char \<Rightarrow> bool" where
  "inert b \<longleftrightarrow> b \<notin> set ''|<>`'' \<and> CHR 0x20 \<le> b \<and> b \<noteq> CHR 0x7F"

lemma inert_continuation: "CHR 0x80 \<le> b \<Longrightarrow> inert b"
proof -
  assume "CHR 0x80 \<le> b"
  then have "128 \<le> (of_char b :: nat)" by (simp add: less_eq_char_def)
  then show ?thesis by (auto simp: inert_def less_eq_char_def)
qed

lemma inert_cell_char:
  assumes "utf8_char ch" and "\<not> has_control ch" and "b \<in> set (cell_char ch)"
  shows "inert b"
proof -
  obtain c s where ch: "ch = c # s" and tail: "\<forall>b \<in> set s. CHR 0x80 \<le> b"
    and lead: "length ch = char_width c" "c < CHR 0x80 \<or> CHR 0xC0 \<le> c"
    using assms(1) by (auto simp: utf8_char_def list_all_iff split: list.splits)
  show ?thesis
  proof (cases "c < CHR 0x80")
    case True
    then have "s = []" using lead(1) ch by (auto simp: char_width_def less_char_def)
    then show ?thesis using assms(2,3) ch
      by (auto simp: cell_char_def inert_def not_less split: if_splits)
  next
    case False
    then have "CHR 0x80 \<le> c" by simp
    then have "\<forall>b \<in> set ch. CHR 0x80 \<le> b" using tail ch by simp
    moreover have "ch \<notin> {''|'', ''<'', ''>'', ''`''}"
      using False ch by (auto simp: less_char_def)
    ultimately show ?thesis using assms(3) by (auto simp: cell_char_def inert_continuation)
  qed
qed

lemma safe_inert: "utf8 v \<Longrightarrow> b \<in> set (safe v) \<Longrightarrow> inert b"
  by (auto simp: safe_def utf8_def list_all_iff dest!: in_set_takeD) (metis inert_cell_char)

lemma map_filter_entries:
  "map h (List.map_filter (\<lambda>(i, f). map_option (r i) (g i f)) fs) =
     List.map_filter (\<lambda>(i, f). map_option (\<lambda>k. h (r i k)) (g i f)) fs"
  by (induction fs) (auto simp: map_filter_simps split: option.splits)

lemma diff_same:
  assumes "bm_wf (sn_findings sn)" and "(i, f) \<in> set (sn_findings sn)"
  shows "diff_kind sn i f = None"
proof -
  have "bm_get (sn_findings sn) i = Some f" using assms by (simp add: bm.get_entries)
  then show ?thesis by (simp add: diff_kind_def)
qed

end
