(* ===== verification/Report_Properties.thy ===== *)
theory Report_Properties
  imports Report State_Properties
begin

text \<open>
  What the report promises: its cells cannot break out of the table they stand in, the
  exit status puts coverage before health, and the offline comparison of two snapshots
  agrees with the transitions the state engine reported online.
\<close>

text \<open>A cell of the report carries no separator, tag bracket, quote, line break or other
  control byte, whatever text the providers return.\<close>

theorem cells_are_inert:
  assumes "utf8 v" and "b \<in> set (safe v)"
  shows "b \<notin> set ''|<>`'' \<and> CHR 0x20 \<le> b \<and> b \<noteq> CHR 0x7F"
  using safe_inert [OF assms] by (simp add: inert_def)

theorem cells_are_inert_witness:
  "utf8 ''a|b'' \<and> CHR ''_'' \<in> set (safe ''a|b'') \<and> CHR ''_'' \<notin> set ''|<>`''"
proof -
  have "utf8 ''a|b''" "CHR ''_'' \<in> set (safe ''a|b'')"
    by (simp_all add: utf8_def safe_def utf8_char_def cell_char_def char_width_def less_char_def)
  then show ?thesis using cells_are_inert [of "''a|b''" "CHR ''_''"] by simp
qed

text \<open>The offline comparison of a snapshot with what expiry makes of it finds exactly the
  findings, in the order, that expiry reported as stale.\<close>

lemma diff_expired:
  assumes "snapshot_ok sn" and "(i, f) \<in> set (sn_findings sn)"
  shows "diff_kind sn i (expire_finding limit now f) =
     (if finding_expired limit now f then Some TStale else None)"
proof -
  have "bm_get (sn_findings sn) i = Some f" using assms by (simp add: bm.get_entries snapshot_ok_def)
  then show ?thesis by (simp add: diff_kind_def expire_finding_def finding_expired_def)
qed

lemma map_filter_stale:
  assumes "\<forall>(i, f) \<in> set fs. g i (e f) = (if p f then Some k else None) \<and> f_id f = i"
  shows "List.map_filter (\<lambda>(i, f). map_option (Pair i) (g i f)) (bm_mapv (\<lambda>_. e) fs) =
     map (\<lambda>f. (f_id f, k)) (filter p (map snd fs))"
  using assms by (induction fs) (auto simp: map_filter_simps bm_mapv_def)

theorem offline_agrees_on_expiry:
  assumes "snapshot_ok sn"
  shows "map (\<lambda>t. (tr_finding t, tr_kind t)) (diff sn (fst (expire limit now sn))) =
     map (\<lambda>t. (tr_finding t, tr_kind t)) (snd (expire limit now sn))"
proof -
  let ?new = "fst (expire limit now sn)"
  have fs: "sn_findings ?new = bm_mapv (\<lambda>_. expire_finding limit now) (sn_findings sn)"
    by (simp add: expire_def prod.case_eq_if)
  have ids: "f_id f = i" if "(i, f) \<in> set (sn_findings sn)" for i f
    using that assms bm.get_entries [of "sn_findings sn" i f] by (auto simp: snapshot_ok_def)
  have "diff_gone sn ?new = []"
    by (auto simp: diff_gone_def fs get_bm_mapv map_filter_def map_of_eq_None_iff)
  moreover have "map (\<lambda>t. (tr_finding t, tr_kind t)) (diff_present sn ?new) =
      List.map_filter (\<lambda>(i, f). map_option (Pair i) (diff_kind sn i f)) (sn_findings ?new)"
    by (simp add: diff_present_def map_filter_entries)
  ultimately show ?thesis
    using ids diff_expired [OF assms]
    by (simp add: diff_def fs map_filter_stale expire_def prod.case_eq_if comp_def)
qed

theorem offline_agrees_on_expiry_witness:
  "map (\<lambda>t. (tr_finding t, tr_kind t)) (diff sample_snapshot (fst (expire 60 (100 * nanos_per_sec) sample_snapshot))) =
     [(''prod/ns/deployment/api/ready'', TStale)]"
  unfolding offline_agrees_on_expiry [OF sample_snapshot_ok]
  by (simp add: expire_def finding_expired_def elapsed_def num_seconds_def nanos_per_sec_def as_i64_def)

text \<open>A run whose collection left a selected check without a result, or with one that is
  not complete, never exits as healthy or as merely unhealthy.\<close>

theorem coverage_before_health:
  assumes "k \<in> set (sn_selected_scope sn)"
    and "bm_get (sn_results sn) k = None \<or> (\<exists>r. bm_get (sn_results sn) k = Some r \<and> \<not> result_complete r)"
  shows "exit_code sn strict \<in> {2, 3}"
  using assms by (auto simp: exit_code_def list_ex_iff)

theorem coverage_before_health_witness:
  "exit_code (sample_snapshot\<lparr>sn_selected_scope := [''prod/Kubernetes'']\<rparr>) True \<in> {2, 3}"
  by (rule coverage_before_health [of "''prod/Kubernetes''"]) simp_all

end
