(* ===== verification/Publication.thy ===== *)
theory Publication
  imports Config_Types
begin

text \<open>
  \<open>crates/core/src/publication.rs\<close>: one background writer. A \<open>Publisher\<close> is the record
  \<open>publisher\<close>; its \<open>task\<close>, a blocking call of \<open>Sink::publish\<close>, is the arguments the call
  runs with, and whether the call succeeded is an argument of the operation that
  awaits it. Instants are nanoseconds, the backoff whole seconds.
\<close>

section \<open>State\<close>

record writing =
  wr_snapshot :: snapshot
  wr_transitions :: "transition list"
  wr_settings :: settings

record publisher =
  pb_task :: "writing option"
  pb_event_count :: usize
  pb_requested :: bool
  pb_next :: instant
  pb_backoff :: span

definition new_publisher :: "instant \<Rightarrow> publisher" where
  "new_publisher now =
     \<lparr>pb_task = None, pb_event_count = 0, pb_requested = False, pb_next = now, pb_backoff = 1\<rparr>"

section \<open>Operations\<close>

definition request :: "publisher \<Rightarrow> publisher" where
  "request p = p\<lparr>pb_requested := True\<rparr>"

text \<open>\<open>wall\<close> is the wall clock the captured snapshot is stamped with.\<close>

definition start_publishing ::
  "instant \<Rightarrow> instant \<Rightarrow> snapshot \<Rightarrow> transition list \<Rightarrow> settings \<Rightarrow> publisher \<Rightarrow> publisher \<times> bool" where
  "start_publishing now wall sn ts s p =
     (if pb_task p \<noteq> None \<or> \<not> pb_requested p \<or> now < pb_next p then (p, False)
      else (p\<lparr>pb_requested := False, pb_event_count := length ts,
              pb_task := Some \<lparr>wr_snapshot = sn\<lparr>sn_captured_at := wall, sn_persistence_fault := False\<rparr>,
                wr_transitions = ts, wr_settings = s\<rparr>\<rparr>, True))"

text \<open>\<open>complete\<close>: \<open>written\<close> is the outcome of the call, a panic counting as a failure; the
  result is the number of acknowledged events, or \<open>None\<close> for a failed write.\<close>

definition complete_publishing :: "instant \<Rightarrow> bool \<Rightarrow> publisher \<Rightarrow> publisher \<times> usize option option" where
  "complete_publishing now written p =
     (case pb_task p of
        None \<Rightarrow> (p, None)
      | Some _ \<Rightarrow>
          if written
          then (p\<lparr>pb_task := None, pb_next := now, pb_backoff := 1\<rparr>, Some (Some (pb_event_count p)))
          else (p\<lparr>pb_task := None, pb_requested := True,
                  pb_next := now + int (pb_backoff p) * nanos_per_sec,
                  pb_backoff := min (pb_backoff p * 2) 60\<rparr>, Some None))"

text \<open>\<open>poll\<close>: \<open>outcome\<close> is \<open>None\<close> while the call has not finished.\<close>

definition poll_publisher :: "instant \<Rightarrow> bool option \<Rightarrow> publisher \<Rightarrow> publisher \<times> usize option option" where
  "poll_publisher now outcome p =
     (case outcome of None \<Rightarrow> (p, None) | Some written \<Rightarrow> complete_publishing now written p)"

text \<open>\<open>transitions.drain(..count.min(transitions.len()))\<close>.\<close>

definition acknowledge :: "usize \<Rightarrow> transition list \<Rightarrow> transition list" where
  "acknowledge n ts = drop (min n (length ts)) ts"

text \<open>\<open>finish\<close>: \<open>first\<close> and \<open>second\<close> are the outcomes of the two awaited calls before the
  deadline, \<open>None\<close> for a timeout (the abandoned call stays unacknowledged).\<close>

definition drain_first ::
  "instant \<Rightarrow> bool option \<Rightarrow> publisher \<Rightarrow> transition list \<Rightarrow> (publisher \<times> transition list) option" where
  "drain_first now first p ts =
     (if pb_task p = None then Some (p, ts)
      else case first of
             None \<Rightarrow> None
           | Some written \<Rightarrow>
               (case complete_publishing now written p of
                  (p, Some (Some n)) \<Rightarrow> Some (p, acknowledge n ts)
                | (p, _) \<Rightarrow> Some (p, ts)))"

definition finish_publishing ::
  "instant \<Rightarrow> instant \<Rightarrow> instant \<Rightarrow> bool option \<Rightarrow> bool option \<Rightarrow> snapshot \<Rightarrow> settings \<Rightarrow>
     publisher \<Rightarrow> transition list \<Rightarrow> publisher \<times> transition list \<times> bool" where
  "finish_publishing now deadline wall first second sn s p ts =
     (if deadline \<le> now then (p, ts, False)
      else case drain_first now first p ts of
             None \<Rightarrow> (p\<lparr>pb_task := None\<rparr>, ts, False)
           | Some (p, ts) \<Rightarrow>
               (case start_publishing now wall sn ts s ((request p)\<lparr>pb_next := now\<rparr>) of
                  (p, False) \<Rightarrow> (p, ts, False)
                | (p, True) \<Rightarrow>
                    (case second of
                       None \<Rightarrow> (p\<lparr>pb_task := None\<rparr>, ts, False)
                     | Some written \<Rightarrow>
                         (case complete_publishing now written p of
                            (p, Some (Some n)) \<Rightarrow> (p, acknowledge n ts, True)
                          | (p, _) \<Rightarrow> (p, ts, False)))))"

section \<open>Invariant\<close>

text \<open>The running call was given the front of the queue, and nothing else is counted.\<close>

definition publisher_ok :: "transition list \<Rightarrow> publisher \<Rightarrow> bool" where
  "publisher_ok ts p \<longleftrightarrow> 1 \<le> pb_backoff p \<and> pb_backoff p \<le> 60 \<and>
     (case pb_task p of
        None \<Rightarrow> True
      | Some w \<Rightarrow> pb_event_count p = length (wr_transitions w) \<and>
                  (\<exists>later. ts = wr_transitions w @ later))"

lemma publisher_ok_new: "publisher_ok ts (new_publisher now)"
  by (simp add: publisher_ok_def new_publisher_def)

lemma publisher_ok_request [simp]: "publisher_ok ts (request p) = publisher_ok ts p"
  by (simp add: publisher_ok_def request_def cong: option.case_cong)

lemma publisher_ok_append: "publisher_ok ts p \<Longrightarrow> publisher_ok (ts @ us) p"
  by (auto simp: publisher_ok_def split: option.splits)

lemma publisher_ok_start:
  "publisher_ok ts p \<Longrightarrow> publisher_ok ts (fst (start_publishing now wall sn ts s p))"
  by (auto simp: publisher_ok_def start_publishing_def split: option.splits)

lemma publisher_ok_complete:
  "publisher_ok ts p \<Longrightarrow> publisher_ok us (fst (complete_publishing now written p))"
  by (auto simp: publisher_ok_def complete_publishing_def split: option.splits)

text \<open>What a completion acknowledges is what the call was given, and only if it succeeded.\<close>

lemma complete_acknowledges:
  assumes "publisher_ok ts p" and "complete_publishing now written p = (p', Some (Some n))"
  obtains w where "pb_task p = Some w" "written" "n = length (wr_transitions w)"
    "ts = wr_transitions w @ acknowledge n ts"
  using assms
  by (auto simp: publisher_ok_def complete_publishing_def acknowledge_def split: option.splits if_splits)

lemma acknowledge_length: "length (acknowledge n ts) \<le> length ts"
  by (simp add: acknowledge_def)

end
