(* ===== verification/Supervise.thy ===== *)
theory Supervise
  imports Lifecycle Resolve Publication Report
begin

text \<open>
  \<open>crates/runtime/src/supervise.rs\<close>: the foreground loop that composes configuration,
  state engine and publication. The locals of \<open>monitor\<close> are the record \<open>monitor\<close>, each
  arm of its \<open>select!\<close> is a handler, and \<open>monitor_step\<close> runs the arm an event enables.
  What the loop tells its collaborators (the observer, the router, the scheduler's
  configuration channel) is the list of \<open>notice\<close>s of a step. Reading the file,
  \<open>Store::latest\<close>, signals and clocks are inputs.
\<close>

section \<open>State\<close>

datatype mode = Once | Watch "nat option"  \<comment> \<open>the duration in nanoseconds\<close>

record monitor =
  mo_effective :: effective
  mo_settings :: settings
  mo_snapshot :: snapshot
  mo_queue :: "transition list"  \<comment> \<open>\<open>transitions\<close>: not yet acknowledged by the disk\<close>
  mo_publisher :: publisher
  mo_cancelled :: bool
  mo_cleanup :: "instant option"

datatype notice =
    Updated snapshot effective "transition list"
  | Heartbeat instant bool
  | RouterReload config effective
  | RestoreLogs snapshot
  | NewSchedule effective
  | StopScheduler

text \<open>The clock readings of one step: the monotonic clock and \<open>Utc::now()\<close>.\<close>

record clocks =
  ck_now :: instant
  ck_wall :: instant

datatype event =
    StopRequested  \<comment> \<open>\<open>stop.cancelled()\<close>\<close>
  | Signalled  \<comment> \<open>interrupt or terminate\<close>
  | DurationOver
  | Hangup "error + config" bool  \<comment> \<open>what \<open>load\<close> returns, and whether \<open>updates.send\<close> succeeds\<close>
  | HistoryTick
  | DiskTick "bool option"  \<comment> \<open>the outcome of a write that has finished\<close>
  | Collected job check_result

section \<open>Handlers\<close>

definition watching :: "mode \<Rightarrow> bool" where
  "watching md \<longleftrightarrow> (case md of Once \<Rightarrow> False | Watch _ \<Rightarrow> True)"

text \<open>\<open>append\<close>: the queue holds twice the findings limit; what does not fit is counted.\<close>

definition queue_room :: "settings \<Rightarrow> transition list \<Rightarrow> usize" where
  "queue_room s queue = sat_mul64 (s_max_findings s) 2 - length queue"

definition append_transitions :: "transition list \<Rightarrow> monitor \<Rightarrow> monitor" where
  "append_transitions incoming m =
     (let room = queue_room (mo_settings m) (mo_queue m);
          sn = mo_snapshot m
      in m\<lparr>mo_snapshot :=
             (if room < length incoming
              then sn\<lparr>sn_dropped_transitions :=
                       sat_add64 (sn_dropped_transitions sn) (length incoming - room),
                     sn_persistence_fault := True\<rparr>
              else sn),
           mo_queue := mo_queue m @ take room incoming\<rparr>)"

definition start_write :: "clocks \<Rightarrow> monitor \<Rightarrow> monitor" where
  "start_write ck m =
     m\<lparr>mo_publisher := fst (start_publishing (ck_now ck) (ck_wall ck) (mo_snapshot m) (mo_queue m)
         (mo_settings m) (mo_publisher m))\<rparr>"

text \<open>Both ticks begin with expiry.\<close>

definition expire_evidence :: "clocks \<Rightarrow> monitor \<Rightarrow> monitor \<times> notice list" where
  "expire_evidence ck m =
     (case expire (freshness (mo_settings m)) (ck_wall ck) (mo_snapshot m) of
        (sn, expired) \<Rightarrow>
          (append_transitions expired (m\<lparr>mo_snapshot := sn\<rparr>), [Updated sn (mo_effective m) expired]))"

definition history_tick :: "clocks \<Rightarrow> monitor \<Rightarrow> monitor \<times> notice list" where
  "history_tick ck m =
     (case expire_evidence ck m of
        (m, out) \<Rightarrow> (start_write ck (m\<lparr>mo_publisher := request (mo_publisher m)\<rparr>), out))"

definition poll_disk :: "clocks \<Rightarrow> bool option \<Rightarrow> monitor \<Rightarrow> monitor" where
  "poll_disk ck outcome m =
     (case poll_publisher (ck_now ck) outcome (mo_publisher m) of
        (p, None) \<Rightarrow> m\<lparr>mo_publisher := p\<rparr>
      | (p, Some (Some n)) \<Rightarrow>
          m\<lparr>mo_publisher := p, mo_queue := acknowledge n (mo_queue m),
            mo_snapshot := (mo_snapshot m)\<lparr>sn_persistence_fault := False\<rparr>\<rparr>
      | (p, Some None) \<Rightarrow>
          m\<lparr>mo_publisher := p, mo_snapshot := (mo_snapshot m)\<lparr>sn_persistence_fault := True\<rparr>\<rparr>)"

definition disk_tick :: "clocks \<Rightarrow> bool option \<Rightarrow> monitor \<Rightarrow> monitor \<times> notice list" where
  "disk_tick ck outcome m =
     (case expire_evidence ck m of
        (m, out) \<Rightarrow> (start_write ck (poll_disk ck outcome m), out @ [Heartbeat (ck_wall ck) True]))"

definition refreshing_check :: "check \<Rightarrow> bool" where
  "refreshing_check c \<longleftrightarrow> c \<in> {CInventory, CKubernetes, CGithub, CReleases}"

definition scheduled :: "job \<Rightarrow> effective \<Rightarrow> bool" where
  "scheduled j e \<longleftrightarrow> list_ex (\<lambda>k. j_key k = j_key j \<and> j_revision k = j_revision j) (ef_jobs e)"

definition collected :: "ext \<Rightarrow> clocks \<Rightarrow> job \<Rightarrow> check_result \<Rightarrow> monitor \<Rightarrow> monitor \<times> notice list" where
  "collected x ck j r m =
     (if \<not> scheduled j (mo_effective m) then (m, [])
      else case apply_result x j r (ck_wall ck) (mo_snapshot m) of
             (sn, ts) \<Rightarrow>
               (case if refreshing_check (j_check j)
                     then refresh_releases x (ef_jobs (mo_effective m)) (ck_wall ck) sn else (sn, []) of
                  (sn, ts') \<Rightarrow>
                    (append_transitions (ts @ ts') (m\<lparr>mo_snapshot := sn\<rparr>),
                     [Updated sn (mo_effective m) (ts @ ts')])))"

text \<open>A reload is loaded, resolved and reconfigured, or refused whole. Resolution always
  returns, so the \<open>None\<close> of its fuel never occurs.\<close>

definition hangup ::
  "ext \<Rightarrow> encoding \<Rightarrow> selection \<Rightarrow> error + config \<Rightarrow> bool \<Rightarrow> monitor \<Rightarrow> monitor \<times> notice list" where
  "hangup x y sel loaded delivered m =
     (case loaded of
        Inl _ \<Rightarrow> (m, [])
      | Inr cf \<Rightarrow>
          (case resolve_config y cf sel of
             Some (Inr e) \<Rightarrow>
               (case reconfigured x (ef_jobs e) (mo_snapshot m) of
                  Inl _ \<Rightarrow> (m, [])
                | Inr sn \<Rightarrow>
                    (m\<lparr>mo_snapshot := sn, mo_effective := e,
                       mo_settings := (case ef_jobs e of [] \<Rightarrow> mo_settings m | j # _ \<Rightarrow> j_settings j)\<rparr>,
                     [RouterReload cf e, NewSchedule e] @ (if delivered then [] else [StopScheduler]) @
                     [Updated sn e []]))
           | _ \<Rightarrow> (m, [])))"

definition begin_cleanup :: "clocks \<Rightarrow> bool \<Rightarrow> monitor \<Rightarrow> monitor" where
  "begin_cleanup ck cancelled m =
     m\<lparr>mo_cancelled := mo_cancelled m \<or> cancelled,
       mo_cleanup := Some (ck_now ck + 4 * nanos_per_sec)\<rparr>"

section \<open>The loop\<close>

text \<open>The guards of the \<open>select!\<close> arms.\<close>

fun enabled :: "mode \<Rightarrow> monitor \<Rightarrow> event \<Rightarrow> bool" where
  "enabled md m (Collected j r) \<longleftrightarrow> True"
| "enabled md m StopRequested \<longleftrightarrow> mo_cleanup m = None"
| "enabled md m Signalled \<longleftrightarrow> mo_cleanup m = None"
| "enabled md m DurationOver \<longleftrightarrow> mo_cleanup m = None"
| "enabled md m (Hangup loaded delivered) \<longleftrightarrow> watching md \<and> mo_cleanup m = None"
| "enabled md m HistoryTick \<longleftrightarrow> watching md \<and> mo_cleanup m = None"
| "enabled md m (DiskTick outcome) \<longleftrightarrow> watching md \<and> mo_cleanup m = None"

fun handle ::
  "ext \<Rightarrow> encoding \<Rightarrow> selection \<Rightarrow> clocks \<Rightarrow> event \<Rightarrow> monitor \<Rightarrow> monitor \<times> notice list" where
  "handle x y sel ck StopRequested m = (begin_cleanup ck True m, [])"
| "handle x y sel ck Signalled m = (begin_cleanup ck True m, [StopScheduler])"
| "handle x y sel ck DurationOver m = (begin_cleanup ck False m, [StopScheduler])"
| "handle x y sel ck (Hangup loaded delivered) m = hangup x y sel loaded delivered m"
| "handle x y sel ck HistoryTick m = history_tick ck m"
| "handle x y sel ck (DiskTick outcome) m = disk_tick ck outcome m"
| "handle x y sel ck (Collected j r) m = collected x ck j r m"

definition monitor_step ::
  "ext \<Rightarrow> encoding \<Rightarrow> selection \<Rightarrow> mode \<Rightarrow> clocks \<times> event \<Rightarrow> monitor \<Rightarrow> monitor \<times> notice list" where
  "monitor_step x y sel md ev m =
     (if enabled md m (snd ev) then handle x y sel (fst ev) (snd ev) m else (m, []))"

definition run_monitor ::
  "ext \<Rightarrow> encoding \<Rightarrow> selection \<Rightarrow> mode \<Rightarrow> (clocks \<times> event) list \<Rightarrow> monitor \<Rightarrow> monitor" where
  "run_monitor x y sel md evs m = fold (\<lambda>ev m. fst (monitor_step x y sel md ev m)) evs m"

section \<open>Start and end\<close>

text \<open>\<open>latest\<close> is what \<open>Store::latest\<close> finds on disk.\<close>

definition first_snapshot :: "ext \<Rightarrow> mode \<Rightarrow> effective \<Rightarrow> snapshot option \<Rightarrow> snapshot" where
  "first_snapshot x md e found =
     (let sn = (case found of Some sn \<Rightarrow> sn
                | None \<Rightarrow> new_snapshot x (ef_revision e) (map j_key (ef_jobs e)))
      in if md = Once then begin_run sn else sn)"

definition start_monitor ::
  "ext \<Rightarrow> encoding \<Rightarrow> selection \<Rightarrow> mode \<Rightarrow> clocks \<Rightarrow> error + config \<Rightarrow> error + snapshot option \<Rightarrow>
     error + monitor \<times> notice list" where
  "start_monitor x y sel md ck loaded latest =
     and_then loaded (\<lambda>cf.
     and_then (unwrap_or (Inl EvidenceError) (resolve_config y cf sel)) (\<lambda>e.
     and_then (case ef_jobs e of [] \<Rightarrow> Inl EvidenceError | j # _ \<Rightarrow> Inr (j_settings j)) (\<lambda>s.
     and_then latest (\<lambda>found.
       and_then (reconfigured x (ef_jobs e) (first_snapshot x md e found)) (\<lambda>sn.
             Inr (\<lparr>mo_effective = e, mo_settings = s, mo_snapshot = sn, mo_queue = [],
                   mo_publisher = new_publisher (ck_now ck), mo_cancelled = False, mo_cleanup = None\<rparr>,
                  (if watching md then [RestoreLogs sn] else []) @
                  [Updated sn e [], Heartbeat (ck_wall ck) True]))))))"

definition end_monitor ::
  "mode \<Rightarrow> bool \<Rightarrow> clocks \<Rightarrow> bool option \<Rightarrow> bool option \<Rightarrow> monitor \<Rightarrow> monitor \<times> u8 \<times> notice list" where
  "end_monitor md strict ck first second m =
     (let deadline = unwrap_or (ck_now ck + 4 * nanos_per_sec) (mo_cleanup m) in
      case finish_publishing (ck_now ck) deadline (ck_wall ck) first second (mo_snapshot m)
             (mo_settings m) (mo_publisher m) (mo_queue m) of
        (p, queue, done) \<Rightarrow>
          (let sn = (mo_snapshot m)\<lparr>sn_persistence_fault := \<not> done\<rparr>
           in (m\<lparr>mo_publisher := p, mo_queue := queue, mo_snapshot := sn\<rparr>,
               if mo_cancelled m then 130 else if watching md then 0 else exit_code sn strict,
               [Updated sn (mo_effective m) [], Heartbeat (ck_wall ck) False])))"

end
