(* ===== verification/Supervise_Properties.thy ===== *)
theory Supervise_Properties
  imports Supervise State_Properties Config_Properties
begin

text \<open>
  The invariant of the foreground loop, its preservation by every handler, and what
  follows of whole runs: bounds on everything the loop holds, and no event leaves the
  queue before it is on disk.
\<close>

section \<open>The invariant\<close>

definition snapshot_within :: "nat \<Rightarrow> nat \<Rightarrow> snapshot \<Rightarrow> bool" where
  "snapshot_within n m sn \<longleftrightarrow> snapshot_ok sn \<and> length (sn_findings sn) \<le> n \<and>
     length (sn_retired sn) \<le> n \<and> asset_count sn \<le> m"

definition queue_ceiling :: nat where
  "queue_ceiling = 2000000"

definition monitor_ok :: "monitor \<Rightarrow> bool" where
  "monitor_ok m \<longleftrightarrow>
     snapshot_within (s_max_findings (mo_settings m)) (s_max_assets (mo_settings m)) (mo_snapshot m) \<and>
     publisher_ok (mo_queue m) (mo_publisher m) \<and>
     s_max_findings (mo_settings m) \<le> 1000000 \<and> length (mo_queue m) \<le> queue_ceiling \<and>
     (\<forall>j \<in> set (ef_jobs (mo_effective m)).
        job_within (s_max_findings (mo_settings m)) (s_max_assets (mo_settings m)) j)"

text \<open>A job a task returns under a revision in force is a job of that resolution: the
  revision is a digest of everything the resolution depends on.\<close>

definition own_job :: "effective \<Rightarrow> event \<Rightarrow> bool" where
  "own_job e ev \<longleftrightarrow>
     (case ev of
        Collected j r \<Rightarrow> scheduled j e \<longrightarrow>
          (\<exists>k \<in> set (ef_jobs e). j_settings j = j_settings k \<and> j_flow_settings j = j_flow_settings k)
      | _ \<Rightarrow> True)"

section \<open>Snapshots within limits\<close>

lemma snapshot_within_apply:
  assumes "snapshot_within n m sn" and "job_within n m j"
  shows "snapshot_within n m (fst (apply_result x j r now sn))"
  using assms
  by (simp add: snapshot_within_def job_within_def apply_result_ok apply_result_findings
      apply_result_retired apply_result_assets)

lemma snapshot_within_frame:
  assumes "snapshot_within n m sn" and "sn_findings sn' = sn_findings sn" "sn_retired sn' = sn_retired sn"
    "sn_results sn' = sn_results sn" "sn_health sn' = sn_health sn" "sn_confirmations sn' = sn_confirmations sn"
  shows "snapshot_within n m sn'"
  using assms by (simp add: snapshot_within_def snapshot_ok_def asset_count_def)

lemma snapshot_within_samples [simp]:
  "snapshot_within n m (keep_samples j before sn) = snapshot_within n m sn"
  by (auto simp: keep_samples_def elim: snapshot_within_frame)

lemma snapshot_within_refresh:
  assumes "\<forall>j \<in> set js. job_within n m j" and "snapshot_within n m sn"
  shows "snapshot_within n m (fst (refresh_releases x js now sn))"
  using assms
proof (induction x js now sn rule: refresh_releases.induct)
  case (2 x j js now sn)
  show ?case
  proof (cases "if refreshes j then bm_get (sn_results sn) (j_key j) else None")
    case None
    then show ?thesis using 2 by simp
  next
    case (Some r)
    let ?d = "apply_derived x j r now sn"
    have "snapshot_within n m (fst ?d)" using 2 by (simp add: snapshot_within_apply)
    then have "snapshot_within n m (fst (refresh_releases x js now (fst ?d)))"
      using 2(3) by (intro 2(2) [OF Some prod.collapse]) simp_all
    then show ?thesis by (simp add: Some prod.case_eq_if)
  qed
qed simp

lemma snapshot_within_expire:
  "snapshot_within n m sn \<Longrightarrow> snapshot_within n m (fst (expire limit now sn))"
  by (simp add: snapshot_within_def expire_ok)

lemma snapshot_within_reconfigured:
  assumes "reconfigured x js sn = Inr sn'" and "snapshot_ok sn"
  obtains j js' where "js = j # js'"
    "snapshot_within (s_max_findings (j_settings j)) (s_max_assets (j_settings j)) sn'"
  using assms(1)
proof (rule reconfigured_Inr)
  fix j js'
  assume js: "js = j # js'" and sn': "sn' = trim_retired (s_max_findings (j_settings j)) (retain_scope js sn)
      \<lparr>sn_revision := j_revision j\<rparr>"
    and "asset_count sn' \<le> s_max_assets (j_settings j)"
    and "length (sn_findings sn') \<le> s_max_findings (j_settings j)"
  moreover have "snapshot_ok (trim_retired (s_max_findings (j_settings j)) (retain_scope js sn))"
    by (intro trim_retired_ok retain_scope_ok assms(2))
  then have "snapshot_ok sn'" "length (sn_retired sn') \<le> s_max_findings (j_settings j)"
    using trim_retired_length [of "retain_scope js sn" "s_max_findings (j_settings j)"] retain_scope_ok [OF assms(2)]
    by (auto simp: sn' snapshot_ok_def)
  ultimately show thesis using that [OF js] by (simp add: snapshot_within_def)
qed

text \<open>What resolution promises the loop.\<close>

lemma resolved_jobs:
  assumes "resolve_config y cf sel = Some (Inr e)"
  shows "ef_jobs e \<noteq> []"
    and "j \<in> set (ef_jobs e) \<Longrightarrow> k \<in> set (ef_jobs e) \<Longrightarrow>
      job_within (s_max_findings (j_settings k)) (s_max_assets (j_settings k)) j"
    and "k \<in> set (ef_jobs e) \<Longrightarrow> s_max_findings (j_settings k) \<le> 1000000"
proof -
  obtain rv js where fin: "finish_jobs y rv js = Inr e"
    using assms unfolding resolve_config_def by (rule resolve_inner_Inr)
  then show "ef_jobs e \<noteq> []"
    by (auto simp: finish_jobs_def and_then_Inr reject_def Let_def split: if_splits)
  show "job_within (s_max_findings (j_settings k)) (s_max_assets (j_settings k)) j"
    if "j \<in> set (ef_jobs e)" "k \<in> set (ef_jobs e)"
    using resolved_ceilings [OF assms that]
    by (simp add: job_within_def same_ceilings_def flow_limits_def)
  show "s_max_findings (j_settings k) \<le> 1000000" if "k \<in> set (ef_jobs e)"
    using resolved_ceilings [OF assms that that] by (simp add: settings_invalid_def)
qed

section \<open>The handlers keep the invariant\<close>

text \<open>A handler reads and appends; the other fields it leaves alone.\<close>

lemma append_simps [simp]:
  "mo_settings (append_transitions ts m) = mo_settings m"
  "mo_effective (append_transitions ts m) = mo_effective m"
  "mo_publisher (append_transitions ts m) = mo_publisher m"
  "mo_cleanup (append_transitions ts m) = mo_cleanup m"
  "mo_queue (append_transitions ts m) = mo_queue m @ take (queue_room (mo_settings m) (mo_queue m)) ts"
  by (simp_all add: append_transitions_def Let_def)

lemma append_within [simp]:
  "snapshot_within n k (mo_snapshot (append_transitions ts m)) = snapshot_within n k (mo_snapshot m)"
  by (auto simp: append_transitions_def Let_def elim: snapshot_within_frame)

lemma append_length:
  "length (mo_queue (append_transitions ts m)) \<le>
     max (length (mo_queue m)) (2 * s_max_findings (mo_settings m))"
  by (auto simp: queue_room_def sat_mul64_def)

lemma monitor_ok_append:
  assumes "monitor_ok m"
    and "snapshot_within (s_max_findings (mo_settings m)) (s_max_assets (mo_settings m)) sn"
  shows "monitor_ok (append_transitions ts (m\<lparr>mo_snapshot := sn\<rparr>))"
  using assms append_length [of ts "m\<lparr>mo_snapshot := sn\<rparr>"]
  by (auto simp: monitor_ok_def publisher_ok_append queue_ceiling_def)

lemma monitor_ok_publisher:
  "monitor_ok m \<Longrightarrow> publisher_ok (mo_queue m) p \<Longrightarrow> monitor_ok (m\<lparr>mo_publisher := p\<rparr>)"
  by (simp add: monitor_ok_def)

lemma monitor_ok_start_write: "monitor_ok m \<Longrightarrow> monitor_ok (start_write ck m)"
  unfolding start_write_def
  by (rule monitor_ok_publisher) (simp_all add: publisher_ok_start monitor_ok_def)

lemma monitor_ok_request: "monitor_ok m \<Longrightarrow> monitor_ok (m\<lparr>mo_publisher := request (mo_publisher m)\<rparr>)"
  by (rule monitor_ok_publisher) (simp_all add: monitor_ok_def)

lemma expire_evidence_ok: "monitor_ok m \<Longrightarrow> monitor_ok (fst (expire_evidence ck m))"
  by (simp add: expire_evidence_def prod.case_eq_if monitor_ok_append snapshot_within_expire monitor_ok_def
      [of m, THEN iffD1, THEN conjunct1])

lemma monitor_ok_acknowledge:
  assumes "monitor_ok m" and "publisher_ok (acknowledge n (mo_queue m)) p"
    and "snapshot_within (s_max_findings (mo_settings m)) (s_max_assets (mo_settings m)) sn"
  shows "monitor_ok (m\<lparr>mo_publisher := p, mo_queue := acknowledge n (mo_queue m), mo_snapshot := sn\<rparr>)"
  using assms acknowledge_length [of n "mo_queue m"] by (simp add: monitor_ok_def)

lemma acknowledge_0 [simp]: "acknowledge 0 ts = ts"
  by (simp add: acknowledge_def)

lemma poll_disk_ok:
  assumes "monitor_ok m"
  shows "monitor_ok (poll_disk ck outcome m)"
proof -
  obtain p a where p: "poll_publisher (ck_now ck) outcome (mo_publisher m) = (p, a)"
    by (rule prod.exhaust)
  have pub: "publisher_ok (mo_queue m) (mo_publisher m)" using assms by (simp add: monitor_ok_def)
  have sn: "snapshot_within (s_max_findings (mo_settings m)) (s_max_assets (mo_settings m))
      ((mo_snapshot m)\<lparr>sn_persistence_fault := b\<rparr>)" for b
    using assms by (auto simp: monitor_ok_def elim: snapshot_within_frame)
  have ok: "publisher_ok us p" if "a \<noteq> None" for us
  proof (cases outcome)
    case (Some b)
    then show ?thesis using p publisher_ok_complete [OF pub, of us "ck_now ck" b]
      by (simp add: poll_publisher_def)
  qed (use p that in \<open>simp add: poll_publisher_def\<close>)
  consider (none) "a = None" | (failed) "a = Some None" | (written) n where "a = Some (Some n)" by fastforce
  then show ?thesis
  proof cases
    case none
    then have "publisher_ok (mo_queue m) p"
      using p pub by (auto simp: poll_publisher_def complete_publishing_def split: option.splits if_splits)
    then show ?thesis using assms none p by (simp add: poll_disk_def monitor_ok_publisher)
  next
    case failed
    then show ?thesis using monitor_ok_acknowledge [OF assms ok sn, where n = 0] p by (simp add: poll_disk_def)
  next
    case written
    then show ?thesis using monitor_ok_acknowledge [OF assms ok sn] p by (simp add: poll_disk_def)
  qed
qed

lemma collected_ok:
  assumes "monitor_ok m" and "own_job (mo_effective m) (Collected j r)"
  shows "monitor_ok (fst (collected x ck j r m))"
proof (cases "scheduled j (mo_effective m)")
  case True
  let ?n = "s_max_findings (mo_settings m)" and ?a = "s_max_assets (mo_settings m)"
  have jobs: "\<forall>k \<in> set (ef_jobs (mo_effective m)). job_within ?n ?a k"
    and within: "snapshot_within ?n ?a (mo_snapshot m)"
    using assms(1) by (auto simp: monitor_ok_def)
  have "job_within ?n ?a j"
    using assms(2) True jobs by (auto simp: own_job_def job_within_def flow_limits_def)
  then have "snapshot_within ?n ?a (fst (apply_result x j r (ck_wall ck) (mo_snapshot m)))"
    by (rule snapshot_within_apply [OF within])
  then show ?thesis
    using True by (auto simp: collected_def prod.case_eq_if intro!: monitor_ok_append [OF assms(1)]
        snapshot_within_refresh [OF jobs])
qed (simp add: collected_def assms(1))

lemma hangup_ok:
  assumes "monitor_ok m"
  shows "monitor_ok (fst (hangup x y sel loaded delivered m))"
proof (cases "\<exists>cf e sn. loaded = Inr cf \<and> resolve_config y cf sel = Some (Inr e) \<and>
    reconfigured x (ef_jobs e) (mo_snapshot m) = Inr sn")
  case True
  then obtain cf e sn where load: "loaded = Inr cf" "resolve_config y cf sel = Some (Inr e)"
    and sn: "reconfigured x (ef_jobs e) (mo_snapshot m) = Inr sn" by blast
  have "snapshot_ok (mo_snapshot m)" using assms by (simp add: monitor_ok_def snapshot_within_def)
  with sn obtain j js where j: "ef_jobs e = j # js"
    "snapshot_within (s_max_findings (j_settings j)) (s_max_assets (j_settings j)) sn"
    by (rule snapshot_within_reconfigured)
  then show ?thesis
    using assms resolved_jobs(2,3) [OF load(2)] load sn by (simp add: hangup_def monitor_ok_def)
next
  case False
  then show ?thesis using assms by (auto simp: hangup_def split: sum.splits option.splits)
qed

lemma monitor_step_ok:
  assumes "monitor_ok m" and "own_job (mo_effective m) (snd ev)"
  shows "monitor_ok (fst (monitor_step x y sel md ev m))"
proof (cases "snd ev")
  case (Hangup loaded delivered)
  then show ?thesis using hangup_ok [OF assms(1)] assms(1) by (simp add: monitor_step_def)
next
  case HistoryTick
  then show ?thesis using assms(1)
    by (simp add: monitor_step_def history_tick_def prod.case_eq_if expire_evidence_ok
        monitor_ok_start_write monitor_ok_request)
next
  case (DiskTick outcome)
  then show ?thesis using assms(1)
    by (simp add: monitor_step_def disk_tick_def prod.case_eq_if expire_evidence_ok
        monitor_ok_start_write poll_disk_ok)
next
  case (Collected j r)
  then show ?thesis using collected_ok [of m j r] assms by (simp add: monitor_step_def)
qed (use assms(1) in \<open>simp_all add: monitor_step_def begin_cleanup_def monitor_ok_def\<close>)

section \<open>Runs\<close>

inductive supervised ::
  "ext \<Rightarrow> encoding \<Rightarrow> selection \<Rightarrow> mode \<Rightarrow> monitor \<Rightarrow> monitor \<Rightarrow> bool" for x y sel md m0 where
  started: "supervised x y sel md m0 m0"
| stepped: "\<lbrakk>supervised x y sel md m0 m; own_job (mo_effective m) (snd ev)\<rbrakk> \<Longrightarrow>
    supervised x y sel md m0 (fst (monitor_step x y sel md ev m))"

lemma supervised_ok: "supervised x y sel md m0 m \<Longrightarrow> monitor_ok m0 \<Longrightarrow> monitor_ok m"
  by (induction rule: supervised.induct) (simp_all add: monitor_step_ok)

lemma start_monitor_ok:
  assumes "start_monitor x y sel md ck loaded latest = Inr (m, out)"
    and "\<And>sn. latest = Inr (Some sn) \<Longrightarrow> snapshot_ok sn"
  shows "monitor_ok m"
proof -
  obtain cf e s found sn where
    r: "unwrap_or (Inl EvidenceError) (resolve_config y cf sel) = Inr e"
    and s: "(case ef_jobs e of [] \<Rightarrow> Inl EvidenceError | j # _ \<Rightarrow> Inr (j_settings j)) = Inr s"
    and found: "latest = Inr found"
    and sn: "reconfigured x (ef_jobs e) (first_snapshot x md e found) = Inr sn"
    and m: "mo_effective m = e" "mo_settings m = s" "mo_snapshot m = sn" "mo_queue m = []"
      "mo_publisher m = new_publisher (ck_now ck)"
    using assms(1) unfolding start_monitor_def and_then_Inr by (elim exE conjE) fastforce
  have e: "resolve_config y cf sel = Some (Inr e)"
    using r by (cases "resolve_config y cf sel") (auto simp: unwrap_or_def)
  obtain j js where j: "ef_jobs e = j # js" "s = j_settings j"
    using s by (cases "ef_jobs e") auto
  have "snapshot_ok (first_snapshot x md e found)"
    using assms(2) found by (auto simp: first_snapshot_def Let_def new_snapshot_ok begin_run_ok split: option.split)
  from snapshot_within_reconfigured [OF sn this]
  have "snapshot_within (s_max_findings (j_settings j)) (s_max_assets (j_settings j)) sn"
    using j(1) by auto
  then show ?thesis
    using resolved_jobs(2,3) [OF e] j by (simp add: monitor_ok_def m publisher_ok_new queue_ceiling_def)
qed

section \<open>The event log\<close>

text \<open>The events of the write a step acknowledges.\<close>

definition acknowledged :: "event \<Rightarrow> monitor \<Rightarrow> transition list option" where
  "acknowledged ev m =
     (case ev of
        DiskTick (Some True) \<Rightarrow> map_option wr_transitions (pb_task (mo_publisher m))
      | _ \<Rightarrow> None)"

text \<open>A step appends to the queue and drops the front \<open>k\<close> events, if any, as acknowledged.\<close>

definition log_step :: "event \<Rightarrow> monitor \<Rightarrow> monitor \<Rightarrow> bool" where
  "log_step ev m m' \<longleftrightarrow> (\<exists>new k. mo_queue m' = drop k (mo_queue m @ new) \<and> k \<le> length (mo_queue m) \<and>
     (k \<noteq> 0 \<longrightarrow> acknowledged ev m = Some (take k (mo_queue m))))"

lemma log_step_append: "mo_queue m' = mo_queue m @ new \<Longrightarrow> log_step ev m m'"
  unfolding log_step_def by (rule exI [of _ new], rule exI [of _ 0]) simp

lemma start_write_queue [simp]: "mo_queue (start_write ck m) = mo_queue m"
  by (simp add: start_write_def)

lemma expire_evidence_simps [simp]:
  "mo_publisher (fst (expire_evidence ck m)) = mo_publisher m"
  "mo_cleanup (fst (expire_evidence ck m)) = mo_cleanup m"
  "mo_settings (fst (expire_evidence ck m)) = mo_settings m"
  "mo_queue (fst (expire_evidence ck m)) = mo_queue m @ take (queue_room (mo_settings m) (mo_queue m))
     (snd (expire (freshness (mo_settings m)) (ck_wall ck) (mo_snapshot m)))"
  by (simp_all add: expire_evidence_def prod.case_eq_if)

lemma poll_disk_queue:
  assumes "publisher_ok queue (mo_publisher m)" and "mo_queue m = queue @ new"
  obtains k where "mo_queue (poll_disk ck outcome m) = drop k (queue @ new)" "k \<le> length queue"
    "k \<noteq> 0 \<longrightarrow> outcome = Some True \<and> map_option wr_transitions (pb_task (mo_publisher m)) = Some (take k queue)"
proof (cases "poll_publisher (ck_now ck) outcome (mo_publisher m)")
  case (Pair p a)
  consider (kept) "a = None \<or> a = Some None" | (written) n where "a = Some (Some n)" by (metis option.exhaust)
  then show ?thesis
  proof cases
    case kept
    then have "mo_queue (poll_disk ck outcome m) = queue @ new"
      using Pair assms(2) by (auto simp: poll_disk_def)
    then show ?thesis using that [of 0] by simp
  next
    case written
    then obtain b where out: "outcome = Some b"
      and c: "complete_publishing (ck_now ck) b (mo_publisher m) = (p, Some (Some n))"
      using Pair by (auto simp: poll_publisher_def split: option.splits)
    from complete_acknowledges [OF assms(1) c] obtain w where
      w: "pb_task (mo_publisher m) = Some w" "b" "n = length (wr_transitions w)"
        "queue = wr_transitions w @ acknowledge n queue" by blast
    then have "take n queue = wr_transitions w" "n \<le> length queue"
      by (metis append_eq_conv_conj, metis length_append le_add1)
    moreover have "mo_queue (poll_disk ck outcome m) = drop n (queue @ new)"
      using Pair written assms(2) \<open>n \<le> length queue\<close> by (simp add: poll_disk_def acknowledge_def)
    ultimately show ?thesis using that [of n] w out by simp
  qed
qed

lemma monitor_step_log:
  assumes "monitor_ok m"
  shows "log_step (snd ev) m (fst (monitor_step x y sel md ev m))"
proof -
  have pub: "publisher_ok (mo_queue m) (mo_publisher m)" using assms by (simp add: monitor_ok_def)
  have same: "log_step (snd ev) m m'" if "mo_queue m' = mo_queue m" for m'
    using that by (intro log_step_append [of _ _ "[]"]) simp
  show ?thesis
  proof (cases "enabled md m (snd ev)")
    case True
    show ?thesis
    proof (cases "snd ev")
      case (Hangup loaded delivered)
      have "mo_queue (fst (hangup x y sel loaded delivered m)) = mo_queue m"
        by (auto simp: hangup_def split: sum.split option.split)
      then show ?thesis using Hangup True same by (simp add: monitor_step_def)
    next
      case HistoryTick
      have "mo_queue (fst (history_tick (fst ev) m)) = mo_queue (fst (expire_evidence (fst ev) m))"
        by (simp add: history_tick_def prod.case_eq_if)
      then show ?thesis using HistoryTick True log_step_append by (simp add: monitor_step_def)
    next
      case (DiskTick outcome)
      let ?m = "fst (expire_evidence (fst ev) m)"
      obtain new where new: "mo_queue ?m = mo_queue m @ new" by simp
      obtain k where "mo_queue (poll_disk (fst ev) outcome ?m) = drop k (mo_queue m @ new)" "k \<le> length (mo_queue m)"
        "k \<noteq> 0 \<longrightarrow> outcome = Some True \<and> map_option wr_transitions (pb_task (mo_publisher ?m)) = Some (take k (mo_queue m))"
        using poll_disk_queue [of "mo_queue m" ?m new] pub new by auto
      then show ?thesis using DiskTick True unfolding log_step_def
        by (intro exI [of _ new] exI [of _ k])
          (auto simp: monitor_step_def disk_tick_def prod.case_eq_if acknowledged_def)
    next
      case (Collected j r)
      then show ?thesis
        by (cases "scheduled j (mo_effective m)")
          (auto simp: monitor_step_def collected_def prod.case_eq_if intro: same log_step_append)
    qed (use same in \<open>auto simp: monitor_step_def begin_cleanup_def\<close>)
  qed (simp add: monitor_step_def same)
qed

section \<open>A sample run\<close>

definition sample_clocks :: clocks where
  "sample_clocks = \<lparr>ck_now = 0, ck_wall = 0\<rparr>"

definition scheduled_job :: job where
  "scheduled_job = hd (ef_jobs sample_effective)"

definition sample_first :: snapshot where
  "sample_first = (trim_retired 10000 (retain_scope (ef_jobs sample_effective)
     (new_snapshot sample_ext ''r1'' [j_key scheduled_job])))\<lparr>sn_revision := j_revision scheduled_job\<rparr>"

definition sample_monitor :: monitor where
  "sample_monitor = \<lparr>mo_effective = sample_effective, mo_settings = preflight_settings,
     mo_snapshot = sample_first, mo_queue = [], mo_publisher = new_publisher 0,
     mo_cancelled = False, mo_cleanup = None\<rparr>"

lemma sample_effective_jobs: "ef_jobs sample_effective = [scheduled_job]" "ef_revision sample_effective = ''r1''"
  "j_settings scheduled_job = preflight_settings"
  by (simp_all add: sample_effective_def scheduled_job_def preflight_share)

lemma bm_retain_Nil [simp]: "bm_retain p [] = []"
  by (simp add: bm_retain_def)

lemma sample_first_empty: "sn_findings sample_first = []" "sn_results sample_first = []"
proof -
  let ?sn = "new_snapshot sample_ext ''r1'' [j_key scheduled_job]"
  have "sn_findings ?sn = []" "sn_results ?sn = []" by (simp_all add: new_snapshot_def)
  then have "sn_findings (retain_scope js ?sn) = []" "sn_results (retain_scope js ?sn) = []" for js
    using fold_rescope_retains(1,3) [of js "scoped_start js ?sn"] by (auto simp: retain_scope_fields)
  then show "sn_findings sample_first = []" "sn_results sample_first = []"
    by (simp_all add: sample_first_def)
qed

lemma sample_started:
  "start_monitor sample_ext sample_encoding sample_selection (Watch None) sample_clocks
     (Inr sample_config) (Inr None) =
   Inr (sample_monitor, [RestoreLogs sample_first, Updated sample_first sample_effective [], Heartbeat 0 True])"
proof -
  have "first_snapshot sample_ext (Watch None) sample_effective None =
      new_snapshot sample_ext ''r1'' [j_key scheduled_job]"
    by (simp add: first_snapshot_def sample_effective_jobs)
  moreover have "s_max_findings preflight_settings = 10000"
    by (simp add: preflight_settings_def default_settings_def)
  ultimately have "reconfigured sample_ext (ef_jobs sample_effective)
      (first_snapshot sample_ext (Watch None) sample_effective None) = Inr sample_first"
    using sample_first_empty
    by (simp add: reconfigured_def Let_def sample_effective_jobs sample_first_def)
  then show ?thesis
    by (simp add: start_monitor_def sample_resolved sample_effective_jobs sample_monitor_def
        watching_def sample_clocks_def)
qed

lemma sample_monitor_ok: "monitor_ok sample_monitor"
  by (rule start_monitor_ok [OF sample_started]) simp

lemma sample_monitor_simps [simp]:
  "mo_queue sample_monitor = []" "mo_settings sample_monitor = preflight_settings"
  "mo_effective sample_monitor = sample_effective" "mo_snapshot sample_monitor = sample_first"
  "mo_cleanup sample_monitor = None" "mo_publisher sample_monitor = new_publisher 0"
  by (simp_all add: sample_monitor_def)

lemma sample_tick_runs:
  "supervised sample_ext sample_encoding sample_selection (Watch None) sample_monitor
     (fst (monitor_step sample_ext sample_encoding sample_selection (Watch None)
        (sample_clocks, HistoryTick) sample_monitor))"
  by (rule supervised.stepped [OF supervised.started]) (simp add: own_job_def)

section \<open>Properties\<close>

text \<open>From the start through any sequence of signals, ticks, reloads and results the loop
  stays within the limits in force: the snapshot within those of the current
  configuration, the queue of events below a constant, and the retry delay within a
  minute.\<close>

theorem supervised_run_is_bounded:
  assumes "start_monitor x y sel md ck loaded latest = Inr (m0, out)"
    and "\<And>sn. latest = Inr (Some sn) \<Longrightarrow> snapshot_ok sn"
    and "supervised x y sel md m0 m"
  shows "snapshot_ok (mo_snapshot m) \<and>
     length (sn_findings (mo_snapshot m)) \<le> s_max_findings (mo_settings m) \<and>
     length (sn_retired (mo_snapshot m)) \<le> s_max_findings (mo_settings m) \<and>
     asset_count (mo_snapshot m) \<le> s_max_assets (mo_settings m) \<and>
     length (mo_queue m) \<le> 2000000 \<and> pb_backoff (mo_publisher m) \<le> 60"
  using supervised_ok [OF assms(3) start_monitor_ok [OF assms(1,2)]]
  by (simp add: monitor_ok_def snapshot_within_def publisher_ok_def queue_ceiling_def)

theorem supervised_run_is_bounded_witness:
  "let m = fst (monitor_step sample_ext sample_encoding sample_selection (Watch None)
             (sample_clocks, HistoryTick) sample_monitor)
   in snapshot_ok (mo_snapshot m) \<and>
     length (sn_findings (mo_snapshot m)) \<le> s_max_findings (mo_settings m) \<and>
     length (sn_retired (mo_snapshot m)) \<le> s_max_findings (mo_settings m) \<and>
     asset_count (mo_snapshot m) \<le> s_max_assets (mo_settings m) \<and>
     length (mo_queue m) \<le> 2000000 \<and> pb_backoff (mo_publisher m) \<le> 60"
  unfolding Let_def by (rule supervised_run_is_bounded [OF sample_started _ sample_tick_runs]) simp

text \<open>C14: The queue implements an append-only log with a durable prefix: a step appends events,
  and the prefix grows only over events a write that has succeeded was given.\<close>

definition durable_prefix :: "transition list \<Rightarrow> nat \<Rightarrow> monitor \<Rightarrow> bool" where
  "durable_prefix events d m \<longleftrightarrow> d \<le> length events \<and> mo_queue m = drop d events"

theorem queue_refines_event_log:
  assumes "monitor_ok m" and "durable_prefix events d m"
  shows "\<exists>new d'. durable_prefix (events @ new) d' (fst (monitor_step x y sel md ev m)) \<and> d \<le> d' \<and>
     (d' = d \<or> acknowledged (snd ev) m = Some (drop d (take d' events)))"
proof -
  obtain new k where step: "mo_queue (fst (monitor_step x y sel md ev m)) = drop k (mo_queue m @ new)"
    "k \<le> length (mo_queue m)" "k \<noteq> 0 \<longrightarrow> acknowledged (snd ev) m = Some (take k (mo_queue m))"
    using monitor_step_log [OF assms(1)] unfolding log_step_def by blast
  have q: "mo_queue m = drop d events" "d \<le> length events" using assms(2) by (auto simp: durable_prefix_def)
  show ?thesis
    using step q by (intro exI [of _ new] exI [of _ "d + k"]) (auto simp: durable_prefix_def drop_take add.commute)
qed

text \<open>A monitor whose write of its one queued event has just succeeded.\<close>

definition sample_event :: transition where
  "sample_event = \<lparr>tr_at = 0, tr_finding = ''f'', tr_kind = TNew\<rparr>"

definition writing_monitor :: monitor where
  "writing_monitor = sample_monitor\<lparr>mo_queue := [sample_event],
     mo_publisher := (new_publisher 0)\<lparr>pb_event_count := 1,
       pb_task := Some \<lparr>wr_snapshot = sample_first, wr_transitions = [sample_event],
         wr_settings = preflight_settings\<rparr>\<rparr>\<rparr>"

lemma writing_monitor_ok: "monitor_ok writing_monitor"
  using sample_monitor_ok
  by (simp add: monitor_ok_def writing_monitor_def publisher_ok_def new_publisher_def queue_ceiling_def)

theorem queue_refines_event_log_witness:
  "\<exists>new d'. durable_prefix ([sample_event] @ new) d' (fst (monitor_step sample_ext sample_encoding
       sample_selection (Watch None) (sample_clocks, DiskTick (Some True)) writing_monitor)) \<and> 0 \<le> d' \<and>
     (d' = 0 \<or> acknowledged (DiskTick (Some True)) writing_monitor = Some (drop 0 (take d' [sample_event])))"
  using queue_refines_event_log [OF writing_monitor_ok, of "[sample_event]" 0 _ _ _ _
      "(sample_clocks, DiskTick (Some True))"]
  by (simp add: durable_prefix_def writing_monitor_def)

text \<open>When the disk accepts writes, the queue drains: a history tick on an idle publisher hands
  over the whole queue, and the disk tick that sees the write succeed leaves only the
  events expired since.\<close>

theorem accepted_writes_drain_the_queue:
  assumes "watching md" and "mo_cleanup m = None" and "pb_task (mo_publisher m) = None"
    and "pb_next (mo_publisher m) \<le> ck_now ck"
    and m1_def: "m1 = fst (monitor_step x y sel md (ck, HistoryTick) m)"
  shows "mo_queue (fst (monitor_step x y sel md (ck', DiskTick (Some True)) m1)) =
     take (queue_room (mo_settings m1) (mo_queue m1))
       (snd (expire (freshness (mo_settings m1)) (ck_wall ck') (mo_snapshot m1)))"
proof -
  let ?m = "fst (expire_evidence ck m)"
  have m1: "m1 = start_write ck (?m\<lparr>mo_publisher := request (mo_publisher m)\<rparr>)"
    using assms(1,2) by (simp add: m1_def monitor_step_def history_tick_def prod.case_eq_if)
  have pub: "pb_task (mo_publisher m1) \<noteq> None" "pb_event_count (mo_publisher m1) = length (mo_queue m1)"
    "mo_cleanup m1 = None"
    using assms(2-4) by (simp_all add: m1 start_write_def start_publishing_def request_def)
  then show ?thesis
    using assms(1)
    by (auto simp: monitor_step_def disk_tick_def prod.case_eq_if poll_disk_def poll_publisher_def
        complete_publishing_def acknowledge_def)
qed

theorem accepted_writes_drain_the_queue_witness:
  "let m1 = fst (monitor_step sample_ext sample_encoding sample_selection (Watch None)
        (sample_clocks, HistoryTick) (sample_monitor\<lparr>mo_queue := [sample_event]\<rparr>))
   in mo_queue (fst (monitor_step sample_ext sample_encoding sample_selection (Watch None)
        (sample_clocks, DiskTick (Some True)) m1)) =
      take (queue_room (mo_settings m1) (mo_queue m1))
        (snd (expire (freshness (mo_settings m1)) (ck_wall sample_clocks) (mo_snapshot m1)))"
  unfolding Let_def
  by (rule accepted_writes_drain_the_queue [where ck = sample_clocks
        and m = "sample_monitor\<lparr>mo_queue := [sample_event]\<rparr>", OF _ _ _ _ refl])
    (simp_all add: watching_def sample_clocks_def new_publisher_def)

text \<open>A failed write is retried: once the delay, at most a minute, is over, the publisher starts
  again, with the events it had been given still in the queue.\<close>

theorem failed_write_is_retried:
  assumes "publisher_ok queue p" and "pb_task p = Some w"
    and "now + 60 * nanos_per_sec \<le> later"
  defines "p' \<equiv> fst (complete_publishing now False p)"
  shows "snd (start_publishing later wall sn (queue @ new) s p') \<and>
     pb_task (fst (start_publishing later wall sn (queue @ new) s p')) =
       Some \<lparr>wr_snapshot = sn\<lparr>sn_captured_at := wall, sn_persistence_fault := False\<rparr>,
             wr_transitions = queue @ new, wr_settings = s\<rparr>"
proof -
  have "int (pb_backoff p) * nanos_per_sec \<le> 60 * nanos_per_sec"
    using assms(1) by (simp add: publisher_ok_def nanos_per_sec_def)
  then have "\<not> later < now + int (pb_backoff p) * nanos_per_sec" using assms(3) by linarith
  then show ?thesis
    by (simp add: p'_def complete_publishing_def assms(2) start_publishing_def)
qed

theorem failed_write_is_retried_witness:
  "snd (start_publishing (60 * nanos_per_sec) 0 sample_first ([sample_event] @ []) preflight_settings
     (fst (complete_publishing 0 False (mo_publisher writing_monitor))))"
  using failed_write_is_retried [of "[sample_event]" "mo_publisher writing_monitor" _ 0
      "60 * nanos_per_sec" 0 sample_first "[]" preflight_settings]
    writing_monitor_ok by (simp add: monitor_ok_def writing_monitor_def)

text \<open>A reload is atomic: a configuration that cannot be read, resolved or reconciled with the
  evidence changes nothing and tells nobody; otherwise schedule, settings and snapshot
  change together, and events and writer stay.\<close>

theorem reload_is_atomic:
  "let (m', out) = monitor_step x y sel md (ck, Hangup loaded delivered) m
   in (m' = m \<and> out = []) \<or>
      (\<exists>cf e sn. loaded = Inr cf \<and> resolve_config y cf sel = Some (Inr e) \<and>
         reconfigured x (ef_jobs e) (mo_snapshot m) = Inr sn \<and>
         m' = m\<lparr>mo_snapshot := sn, mo_effective := e, mo_settings := j_settings (hd (ef_jobs e))\<rparr> \<and>
         {RouterReload cf e, NewSchedule e, Updated sn e []} \<subseteq> set out)"
proof (cases "enabled md m (Hangup loaded delivered) \<and> (\<exists>cf e sn. loaded = Inr cf \<and>
    resolve_config y cf sel = Some (Inr e) \<and> reconfigured x (ef_jobs e) (mo_snapshot m) = Inr sn)")
  case True
  then obtain cf e sn where r: "loaded = Inr cf" "resolve_config y cf sel = Some (Inr e)"
    "reconfigured x (ef_jobs e) (mo_snapshot m) = Inr sn" by blast
  then show ?thesis
    using True resolved_jobs(1) [OF r(2)] by (cases "ef_jobs e") (auto simp: monitor_step_def hangup_def)
next
  case False
  then show ?thesis
    by (auto simp: monitor_step_def hangup_def Let_def split: sum.splits option.splits)
qed

text \<open>A one-off run that ends with status 0 was not cancelled, has a complete result for every
  selected check, and its final snapshot and all its events are on disk.\<close>

theorem clean_exit_is_on_disk:
  assumes "end_monitor md strict ck first second m = (m', 0, out)" and "md = Once"
  shows "second = Some True \<and> mo_queue m' = [] \<and> \<not> mo_cancelled m \<and>
     set (sn_selected_scope (mo_snapshot m)) \<subseteq>
       {k. \<exists>r. bm_get (sn_results (mo_snapshot m)) k = Some r \<and> result_complete r}"
proof -
  obtain p q written where f: "finish_publishing (ck_now ck)
      (unwrap_or (ck_now ck + 4 * nanos_per_sec) (mo_cleanup m)) (ck_wall ck) first second
      (mo_snapshot m) (mo_settings m) (mo_publisher m) (mo_queue m) = (p, q, written)"
    by (metis prod_cases3)
  then have code: "exit_code ((mo_snapshot m)\<lparr>sn_persistence_fault := \<not> written\<rparr>) strict = 0"
    and m': "mo_queue m' = q" and "\<not> mo_cancelled m"
    using assms by (auto simp: end_monitor_def watching_def Let_def split: if_splits)
  moreover have "written" using code by (simp add: exit_code_def split: if_splits)
  then have "second = Some True \<and> q = []"
    using f by (auto simp: finish_publishing_def complete_publishing_def start_publishing_def
        acknowledge_def split: if_splits option.splits prod.splits bool.splits)
  moreover have "\<exists>r. bm_get (sn_results (mo_snapshot m)) k = Some r \<and> result_complete r"
    if "k \<in> set (sn_selected_scope (mo_snapshot m))" for k
    using code that by (auto simp: exit_code_def list_ex_iff is_none_or_def split: if_splits option.splits)
  ultimately show ?thesis by blast
qed

definition finished_monitor :: monitor where
  "finished_monitor = sample_monitor\<lparr>mo_queue := [sample_event],
     mo_snapshot := sample_snapshot\<lparr>sn_selected_scope := [''prod/Kubernetes''], sn_findings := [],
       sn_results := [(''prod/Kubernetes'', sample_result Complete [])]\<rparr>\<rparr>"

lemma finished_exit:
  "fst (snd (end_monitor Once True sample_clocks None (Some True) finished_monitor)) = 0"
  by (simp add: end_monitor_def finished_monitor_def finish_publishing_def sample_clocks_def
      nanos_per_sec_def drain_first_def new_publisher_def start_publishing_def request_def
      complete_publishing_def sample_monitor_def exit_code_def watching_def result_complete_def
      unwrap_or_def Let_def)

theorem clean_exit_is_on_disk_witness:
  "mo_queue (fst (end_monitor Once True sample_clocks None (Some True) finished_monitor)) = [] \<and>
   set (sn_selected_scope (mo_snapshot finished_monitor)) \<subseteq>
     {k. \<exists>r. bm_get (sn_results (mo_snapshot finished_monitor)) k = Some r \<and> result_complete r}"
proof -
  obtain m' out where "end_monitor Once True sample_clocks None (Some True) finished_monitor = (m', 0, out)"
    using finished_exit by (metis prod.collapse)
  from clean_exit_is_on_disk [OF this refl] show ?thesis
    using \<open>end_monitor Once True sample_clocks None (Some True) finished_monitor = (m', 0, out)\<close> by simp
qed

end
