(* ===== verification/Scheduler.thy ===== *)
theory Scheduler
  imports Supervise
begin

text \<open>
  \<open>crates/core/src/scheduler.rs\<close>: the locals of \<open>drive\<close> are the record \<open>sched\<close>; one pass
  of its loop is \<open>turn\<close> (admission and the cursor) and then one arm of the \<open>select!\<close>.
  Cancellation tokens are numbers with the set of cancelled ones, a task in the
  \<open>JoinSet\<close> is its job and its token, and how a collector ends is an input.
\<close>

section \<open>State\<close>

record entry =
  en_job :: job
  en_due :: instant
  en_samples :: u32
  en_cancel :: nat

record running_task =
  ru_job :: job
  ru_token :: nat  \<comment> \<open>of the entry it was spawned for; its own token is a child of that\<close>

record sched =
  sc_entries :: "entry list"
  sc_running :: "string list"
  sc_scopes :: "(string, usize) bmap"
  sc_tasks :: "running_task list"
  sc_cursor :: usize
  sc_config_open :: bool
  sc_fresh :: nat
  sc_cancelled :: "nat list"

section \<open>Cadence\<close>

definition cadence_hash :: "u32 \<Rightarrow> string \<Rightarrow> u64" where
  "cadence_hash cycle key =
     fold (\<lambda>b h. (h * 1099511628211 mod 2 ^ 64 + of_char b) mod 2 ^ 64) key cycle"

definition cadence_spread :: "span \<Rightarrow> u8 \<Rightarrow> u64" where
  "cadence_spread interval percent = sat_mul64 interval percent div 100"

definition cadence :: "span \<Rightarrow> u8 \<Rightarrow> string \<Rightarrow> u32 \<Rightarrow> span" where
  "cadence interval percent key cycle =
     (let spread = cadence_spread interval percent in
      if spread = 0 then interval
      else (let delta = as_i64 (cadence_hash cycle key mod (spread * 2 + 1)) - int spread
            in max (nat (max 0 (min (int u64_max) (int interval + delta)))) 1))"

section \<open>Admission\<close>

definition global_limit :: "entry list \<Rightarrow> usize" where
  "global_limit es = unwrap_or 1 (list_min (map (\<lambda>e. s_concurrency (j_settings (en_job e))) es))"

definition scope_count :: "(string, usize) bmap \<Rightarrow> string \<Rightarrow> usize" where
  "scope_count m k = unwrap_or 0 (bm_get m k)"

definition sampled :: "mode \<Rightarrow> entry \<Rightarrow> bool" where
  "sampled md e \<longleftrightarrow> md = Once \<and> s_samples (j_settings (en_job e)) \<le> en_samples e"

text \<open>The guards of the admission loop: not due, running, scope saturated, or done.\<close>

definition held_back :: "mode \<Rightarrow> instant \<Rightarrow> sched \<Rightarrow> entry \<Rightarrow> bool" where
  "held_back md now st e \<longleftrightarrow>
     now < en_due e \<or> j_key (en_job e) \<in> set (sc_running st) \<or>
     s_scope_concurrency (j_settings (en_job e)) \<le> scope_count (sc_scopes st) (job_scope (en_job e)) \<or>
     sampled md e"

definition next_interval :: "mode \<Rightarrow> entry \<Rightarrow> span" where
  "next_interval md e =
     (let s = j_settings (en_job e)
      in if md = Once then s_sample_interval s
         else cadence (s_interval s) (s_jitter_percent s) (j_key (en_job e)) (en_samples e))"

definition spawn_entry :: "mode \<Rightarrow> instant \<Rightarrow> nat \<Rightarrow> sched \<Rightarrow> sched" where
  "spawn_entry md now i st =
     (let e = sc_entries st ! i; scope = job_scope (en_job e)
      in st\<lparr>sc_running := bs_insert (j_key (en_job e)) (sc_running st),
            sc_scopes := bm_put scope (Suc (scope_count (sc_scopes st) scope)) (sc_scopes st),
            sc_entries := (sc_entries st)[i := e\<lparr>
              en_due := now + int (next_interval md e) * nanos_per_sec,
              en_samples := sat_add32 (en_samples e) 1\<rparr>],
            sc_tasks := sc_tasks st @
              [\<lparr>ru_job = (en_job e)\<lparr>j_continuous := watching md\<rparr>, ru_token = en_cancel e\<rparr>]\<rparr>)"

text \<open>The loop over the rotated indices, with its early exit at the global limit.\<close>

fun admit_entries :: "mode \<Rightarrow> instant \<Rightarrow> usize \<Rightarrow> nat list \<Rightarrow> sched \<Rightarrow> sched" where
  "admit_entries md now limit [] st = st"
| "admit_entries md now limit (i # rest) st =
     (if limit \<le> length (sc_running st) then st
      else admit_entries md now limit rest
        (if held_back md now st (sc_entries st ! i) then st else spawn_entry md now i st))"

definition rotation :: "sched \<Rightarrow> nat list" where
  "rotation st =
     map (\<lambda>offset. (sc_cursor st + offset) mod length (sc_entries st)) [0..<length (sc_entries st)]"

definition turn :: "mode \<Rightarrow> instant \<Rightarrow> sched \<Rightarrow> sched" where
  "turn md now st =
     (let st' = admit_entries md now (global_limit (sc_entries st)) (rotation st) st
      in if sc_entries st = [] then st'
         else st'\<lparr>sc_cursor := (sc_cursor st + 1) mod length (sc_entries st)\<rparr>)"

text \<open>The end of a one-off run.\<close>

definition once_finished :: "mode \<Rightarrow> sched \<Rightarrow> bool" where
  "once_finished md st \<longleftrightarrow> md = Once \<and> sc_running st = [] \<and>
     list_all (\<lambda>e. s_samples (j_settings (en_job e)) \<le> en_samples e) (sc_entries st)"

text \<open>How long the loop sleeps, in nanoseconds.\<close>

definition sleep_time :: "mode \<Rightarrow> instant \<Rightarrow> instant \<Rightarrow> sched \<Rightarrow> int" where
  "sleep_time md now later st =
     (let due = unwrap_or (now + nanos_per_sec)
            (list_min (map en_due (filter
              (\<lambda>e. j_key (en_job e) \<notin> set (sc_running st) \<and> \<not> sampled md e) (sc_entries st))))
      in min nanos_per_sec (max 10000000 (max 0 (due - later))))"

section \<open>Arms of the loop\<close>

text \<open>How a collection ends; its result is stamped with the time it started.\<close>

datatype ending = Cancelled_early | Panicked | Returned check_result

definition task_result :: "job \<Rightarrow> instant \<Rightarrow> instant \<Rightarrow> ending \<Rightarrow> check_result" where
  "task_result j started now how =
     (case how of
        Cancelled_early \<Rightarrow> result_failure (t_name (j_target j)) (j_check j) (j_revision j) Cancelled now
      | Panicked \<Rightarrow> result_failure (t_name (j_target j)) (j_check j) (j_revision j) Malformed now
      | Returned r \<Rightarrow> r)\<lparr>r_started_at := started\<rparr>"

fun reload_entries :: "instant \<Rightarrow> entry list \<Rightarrow> job list \<Rightarrow> nat \<Rightarrow> entry list \<times> nat" where
  "reload_entries now old [] fresh = ([], fresh)"
| "reload_entries now old (j # js) fresh =
     (case List.find (\<lambda>e. j_key (en_job e) = j_key j) old of
        Some e \<Rightarrow> (case reload_entries now old js fresh of (es, n) \<Rightarrow>
          (\<lparr>en_job = j, en_due = now, en_samples = 0, en_cancel = en_cancel e\<rparr> # es, n))
      | None \<Rightarrow> (case reload_entries now old js (Suc fresh) of (es, n) \<Rightarrow>
          (\<lparr>en_job = j, en_due = now, en_samples = 0, en_cancel = fresh\<rparr> # es, n)))"

definition reload_sched :: "instant \<Rightarrow> job list \<Rightarrow> sched \<Rightarrow> sched" where
  "reload_sched now js st =
     (let dropped = filter (\<lambda>e. j_key (en_job e) \<notin> set (map j_key js)) (sc_entries st)
      in case reload_entries now (sc_entries st) js (sc_fresh st) of
           (es, n) \<Rightarrow> st\<lparr>sc_cancelled := map en_cancel dropped @ sc_cancelled st,
                         sc_entries := es, sc_fresh := n\<rparr>)"

definition leave_scope :: "string \<Rightarrow> (string, usize) bmap \<Rightarrow> (string, usize) bmap" where
  "leave_scope k m =
     (case bm_get m k of
        None \<Rightarrow> m
      | Some n \<Rightarrow> if n - 1 = 0 then bm_del k m else bm_put k (n - 1) m)"

text \<open>A finished task leaves its scope; its result goes out under the current revision only.\<close>

definition joined :: "nat \<Rightarrow> check_result \<Rightarrow> sched \<Rightarrow> sched \<times> (job \<times> check_result) list" where
  "joined k r st =
     (let j = ru_job (sc_tasks st ! k)
      in (st\<lparr>sc_tasks := take k (sc_tasks st) @ drop (Suc k) (sc_tasks st),
             sc_running := filter (\<lambda>key. key \<noteq> j_key j) (sc_running st),
             sc_scopes := leave_scope (job_scope j) (sc_scopes st)\<rparr>,
          if list_ex (\<lambda>e. j_key (en_job e) = j_key j \<and> j_revision (en_job e) = j_revision j) (sc_entries st)
          then [(j, r)] else []))"

definition new_sched :: "instant \<Rightarrow> job list \<Rightarrow> sched" where
  "new_sched now js =
     \<lparr>sc_entries = map (\<lambda>(i, j). \<lparr>en_job = j, en_due = now, en_samples = 0, en_cancel = i\<rparr>) (enumerate 0 js),
      sc_running = [], sc_scopes = [], sc_tasks = [], sc_cursor = 0, sc_config_open = True,
      sc_fresh = length js, sc_cancelled = []\<rparr>"

text \<open>The loop, with every interleaving of its arms; \<open>P\<close> restricts the configurations sent.\<close>

inductive driven :: "mode \<Rightarrow> (job list \<Rightarrow> bool) \<Rightarrow> sched \<Rightarrow> bool" for md P where
  spawned: "P js \<Longrightarrow> driven md P (new_sched now js)"
| turned: "driven md P st \<Longrightarrow> driven md P (turn md now st)"
| reloaded: "\<lbrakk>driven md P st; sc_config_open st; watching md; P js\<rbrakk> \<Longrightarrow> driven md P (reload_sched now js st)"
| closed: "driven md P st \<Longrightarrow> driven md P (st\<lparr>sc_config_open := False\<rparr>)"
| completed: "\<lbrakk>driven md P st; k < length (sc_tasks st)\<rbrakk> \<Longrightarrow> driven md P (fst (joined k r st))"

end
