(* ===== verification/Scheduler_Properties.thy ===== *)
theory Scheduler_Properties
  imports Scheduler Config_Properties
begin

text \<open>
  The bookkeeping invariant of the scheduler, its preservation by admission, completion
  and reload, and what follows: concurrency limits, no overlap of a check with itself,
  no capacity left idle, and cancellation of what is no longer scheduled.
\<close>

section \<open>Bookkeeping\<close>

abbreviation task_key :: "running_task \<Rightarrow> string" where
  "task_key t \<equiv> j_key (ru_job t)"

definition in_scope :: "string \<Rightarrow> running_task list \<Rightarrow> nat" where
  "in_scope s ts = length (filter (\<lambda>t. job_scope (ru_job t) = s) ts)"

definition sched_ok :: "sched \<Rightarrow> bool" where
  "sched_ok st \<longleftrightarrow> distinct (map task_key (sc_tasks st)) \<and> distinct (sc_running st) \<and>
     set (sc_running st) = task_key ` set (sc_tasks st) \<and> bm_wf (sc_scopes st) \<and>
     (\<forall>s. scope_count (sc_scopes st) s = in_scope s (sc_tasks st))"

lemma running_length: "sched_ok st \<Longrightarrow> length (sc_running st) = length (sc_tasks st)"
  unfolding sched_ok_def by (metis distinct_card length_map set_map)

lemma in_scope_append [simp]: "in_scope s (ts @ us) = in_scope s ts + in_scope s us"
  by (simp add: in_scope_def)

lemma job_scope_continuous [simp]: "job_scope (j\<lparr>j_continuous := b\<rparr>) = job_scope j"
  by (simp add: job_scope_def)

lemma distinct_bs_insert: "distinct xs \<Longrightarrow> distinct (bs_insert x xs) \<or> x \<in> set xs"
  by (induction x xs rule: bs_insert.induct) auto

lemma distinct_bs_insert_new: "distinct xs \<Longrightarrow> x \<notin> set xs \<Longrightarrow> distinct (bs_insert x xs)"
  using distinct_bs_insert by blast

lemma scope_count_put: "scope_count (bm_put k n m) s = (if s = k then n else scope_count m s)"
  by (simp add: scope_count_def bm.get_put)

lemma scope_count_leave:
  "bm_wf m \<Longrightarrow> scope_count (leave_scope k m) s = (if s = k then scope_count m s - 1 else scope_count m s)"
  by (auto simp: leave_scope_def scope_count_def bm.get_put bm.get_del split: option.split)

lemma spawn_simps [simp]:
  "sc_cancelled (spawn_entry md now i st) = sc_cancelled st" "sc_fresh (spawn_entry md now i st) = sc_fresh st"
  "sc_config_open (spawn_entry md now i st) = sc_config_open st" "sc_cursor (spawn_entry md now i st) = sc_cursor st"
  "length (sc_entries (spawn_entry md now i st)) = length (sc_entries st)"
  by (simp_all add: spawn_entry_def Let_def)

lemma spawn_entries [simp]:
  assumes "i < length (sc_entries st)"
  shows "map en_job (sc_entries (spawn_entry md now i st)) = map en_job (sc_entries st)"
    "map en_cancel (sc_entries (spawn_entry md now i st)) = map en_cancel (sc_entries st)"
  using assms by (simp_all add: spawn_entry_def Let_def map_update list_update_same_conv)

lemma spawn_ok:
  assumes ok: "sched_ok st" and "\<not> held_back md now st (sc_entries st ! i)"
  shows "sched_ok (spawn_entry md now i st)"
proof -
  let ?k = "j_key (en_job (sc_entries st ! i))"
  have "?k \<notin> set (sc_running st)" using assms(2) by (simp add: held_back_def)
  then show ?thesis using ok
    by (auto simp: sched_ok_def spawn_entry_def Let_def distinct_bs_insert_new scope_count_put
        in_scope_def bm_wf_put)
qed

text \<open>A property every admitted entry keeps holds after the whole admission loop.\<close>

lemma admit_rule:
  assumes "P st" and "\<forall>i \<in> set idx. i < length (sc_entries st)"
    and step: "\<And>st' i. \<lbrakk>P st'; i < length (sc_entries st'); length (sc_running st') < limit;
      \<not> held_back md now st' (sc_entries st' ! i)\<rbrakk> \<Longrightarrow> P (spawn_entry md now i st')"
  shows "P (admit_entries md now limit idx st)"
  using assms(1,2)
proof (induction idx arbitrary: st)
  case (Cons i idx)
  show ?case
  proof (cases "limit \<le> length (sc_running st) \<or> held_back md now st (sc_entries st ! i)")
    case True
    then show ?thesis using Cons by auto
  next
    case False
    then have "P (spawn_entry md now i st)" using step Cons.prems by simp
    then show ?thesis using Cons.IH [of "spawn_entry md now i st"] Cons.prems False by simp
  qed
qed simp

lemma rotation_bound: "i \<in> set (rotation st) \<Longrightarrow> i < length (sc_entries st)"
  by (cases "sc_entries st = []") (auto simp: rotation_def)

lemma rotation_covers:
  assumes "i < length (sc_entries st)"
  shows "i \<in> set (rotation st)"
proof -
  let ?n = "length (sc_entries st)" and ?c = "sc_cursor st"
  have "(?c + (i + ?n - ?c mod ?n) mod ?n) mod ?n = (?c mod ?n + (i + ?n - ?c mod ?n)) mod ?n"
    by (simp add: mod_simps)
  also have "?c mod ?n + (i + ?n - ?c mod ?n) = i + ?n"
    using assms mod_less_divisor [of ?n ?c] by linarith
  finally have "(?c + (i + ?n - ?c mod ?n) mod ?n) mod ?n = i" using assms by simp
  moreover have "(i + ?n - ?c mod ?n) mod ?n < ?n" using assms by (intro mod_less_divisor) linarith
  ultimately show ?thesis using assms
    by (auto simp: rotation_def intro!: image_eqI [of _ _ "(i + ?n - ?c mod ?n) mod ?n"])
qed

lemma turn_rule:
  assumes "P st" and cursor: "\<And>st' c. P st' \<Longrightarrow> P (st'\<lparr>sc_cursor := c\<rparr>)"
    and "\<And>st' i. \<lbrakk>P st'; map en_job (sc_entries st') = map en_job (sc_entries st); i < length (sc_entries st');
      length (sc_running st') < global_limit (sc_entries st);
      \<not> held_back md now st' (sc_entries st' ! i)\<rbrakk> \<Longrightarrow> P (spawn_entry md now i st')"
  shows "P (turn md now st)"
proof -
  let ?Q = "\<lambda>st'. P st' \<and> map en_job (sc_entries st') = map en_job (sc_entries st)"
  have "?Q (admit_entries md now (global_limit (sc_entries st)) (rotation st) st)"
  proof (rule admit_rule [where P = ?Q])
    show "?Q st" using assms(1) by simp
    show "\<forall>i \<in> set (rotation st). i < length (sc_entries st)" using rotation_bound by blast
    show "?Q (spawn_entry md now i st')"
      if "?Q st'" "i < length (sc_entries st')" "length (sc_running st') < global_limit (sc_entries st)"
        "\<not> held_back md now st' (sc_entries st' ! i)" for st' i
      using that assms(3) by simp
  qed
  then show ?thesis using cursor by (auto simp: turn_def Let_def)
qed

lemma sched_ok_cursor: "sched_ok st \<Longrightarrow> sched_ok (st\<lparr>sc_cursor := c\<rparr>)"
  by (simp add: sched_ok_def)

lemma turn_ok: "sched_ok st \<Longrightarrow> sched_ok (turn md now st)"
  by (rule turn_rule) (assumption | rule sched_ok_cursor spawn_ok)+

lemma reload_entries_jobs: "map en_job (fst (reload_entries now old js fresh)) = js"
  by (induction now old js fresh rule: reload_entries.induct) (auto split: option.split prod.split)

lemma reload_sched_simps [simp]:
  "sc_running (reload_sched now js st) = sc_running st" "sc_scopes (reload_sched now js st) = sc_scopes st"
  "sc_tasks (reload_sched now js st) = sc_tasks st" "map en_job (sc_entries (reload_sched now js st)) = js"
  using reload_entries_jobs [of now "sc_entries st" js "sc_fresh st"]
  by (simp_all add: reload_sched_def Let_def prod.case_eq_if)

lemma reload_ok: "sched_ok st \<Longrightarrow> sched_ok (reload_sched now js st)"
  by (simp add: sched_ok_def)

lemma joined_ok:
  assumes "sched_ok st" and "k < length (sc_tasks st)"
  shows "sched_ok (fst (joined k r st))"
proof -
  obtain a b where ts: "sc_tasks st = a @ sc_tasks st ! k # b" and ab: "take k (sc_tasks st) = a" "drop (Suc k) (sc_tasks st) = b"
    using id_take_nth_drop [OF assms(2)] by blast
  have counts: "scope_count (sc_scopes st) s = in_scope s (a @ sc_tasks st ! k # b)" for s
    using assms(1) ts by (metis sched_ok_def)
  have "distinct (map task_key (a @ sc_tasks st ! k # b))" "distinct (sc_running st)" "bm_wf (sc_scopes st)"
    "set (sc_running st) = task_key ` set (a @ sc_tasks st ! k # b)"
    using assms(1) ts by (auto simp: sched_ok_def)
  moreover have "bm_wf (leave_scope n (sc_scopes st))" for n
    using calculation(3) by (auto simp: leave_scope_def bm_wf_put bm_wf_del split: option.split)
  ultimately show ?thesis using counts
    by (auto simp: sched_ok_def joined_def Let_def ab scope_count_leave in_scope_def rev_image_eqI)
qed

lemma driven_ok: "driven md P st \<Longrightarrow> sched_ok st"
proof (induction rule: driven.induct)
  case (spawned js now)
  show ?case by (simp add: sched_ok_def new_sched_def scope_count_def in_scope_def)
next
  case (closed st)
  then show ?case by (simp add: sched_ok_def)
qed (simp_all add: turn_ok reload_ok joined_ok)

text \<open>The jobs of the entries are those of the configuration last received.\<close>

lemma new_sched_jobs [simp]: "map en_job (sc_entries (new_sched now js)) = js"
  by (simp add: new_sched_def comp_def case_prod_unfold)

lemma turn_jobs: "map en_job (sc_entries (turn md now st)) = map en_job (sc_entries st)"
proof (rule turn_rule)
  fix st' :: sched and i
  assume "map en_job (sc_entries st') = map en_job (sc_entries st)" "i < length (sc_entries st')"
  then show "map en_job (sc_entries (spawn_entry md now i st')) = map en_job (sc_entries st)" by simp
qed simp_all

lemma driven_mono: "driven md P st \<Longrightarrow> (\<And>js. P js \<Longrightarrow> Q js) \<Longrightarrow> driven md Q st"
  by (induction rule: driven.induct) (auto intro: driven.intros)

lemma driven_jobs: "driven md P st \<Longrightarrow> P (map en_job (sc_entries st))"
  by (induction rule: driven.induct) (simp_all add: turn_jobs joined_def Let_def)

section \<open>Limits\<close>

lemma global_limit_le:
  assumes "\<forall>j \<in> set (map en_job es). s_concurrency (j_settings j) \<le> c" and "es \<noteq> []"
  shows "global_limit es \<le> c"
proof -
  obtain n where n: "list_min (map (\<lambda>e. s_concurrency (j_settings (en_job e))) es) = Some n"
    using assms(2) by (metis list.map_disc_iff list_min_None not_None_eq)
  then show ?thesis using list_min_Some [OF n] assms(1) by (auto simp: global_limit_def unwrap_or_def)
qed

text \<open>The tasks a state may hold: at most \<open>c\<close>, and at most \<open>l\<close> of the scope \<open>s\<close>.\<close>

definition limits_ok :: "nat \<Rightarrow> string \<Rightarrow> nat \<Rightarrow> job list \<Rightarrow> bool" where
  "limits_ok c s l js \<longleftrightarrow> (\<forall>j \<in> set js. s_concurrency (j_settings j) \<le> c \<and>
     (job_scope j = s \<longrightarrow> s_scope_concurrency (j_settings j) \<le> l))"

definition tasks_within :: "nat \<Rightarrow> string \<Rightarrow> nat \<Rightarrow> sched \<Rightarrow> bool" where
  "tasks_within c s l st \<longleftrightarrow> sched_ok st \<and> length (sc_tasks st) \<le> c \<and> in_scope s (sc_tasks st) \<le> l"

lemma spawn_within:
  assumes within: "tasks_within c s l st" and i: "i < length (sc_entries st)"
    and room: "length (sc_running st) < c" and free: "\<not> held_back md now st (sc_entries st ! i)"
    and jobs: "limits_ok c s l (map en_job (sc_entries st))"
  shows "tasks_within c s l (spawn_entry md now i st)"
proof -
  let ?j = "en_job (sc_entries st ! i)"
  have ok: "sched_ok st" using within by (simp add: tasks_within_def)
  have "scope_count (sc_scopes st) (job_scope ?j) < s_scope_concurrency (j_settings ?j)"
    using free by (simp add: held_back_def)
  moreover have "?j \<in> set (map en_job (sc_entries st))" using i by simp
  ultimately have "job_scope ?j = s \<Longrightarrow> in_scope s (sc_tasks st) < l"
    using jobs ok unfolding limits_ok_def sched_ok_def by fastforce
  moreover have "in_scope s (sc_tasks (spawn_entry md now i st)) =
      in_scope s (sc_tasks st) + (if job_scope ?j = s then 1 else 0)"
    "length (sc_tasks (spawn_entry md now i st)) = Suc (length (sc_tasks st))"
    by (simp_all add: spawn_entry_def Let_def) (simp add: in_scope_def)
  ultimately show ?thesis using within spawn_ok [OF ok free] room running_length [OF ok]
    by (auto simp: tasks_within_def)
qed

lemma turn_within:
  assumes "tasks_within c s l st" and jobs: "limits_ok c s l (map en_job (sc_entries st))"
  shows "tasks_within c s l (turn md now st)"
proof (rule turn_rule)
  fix st' :: sched and i
  assume st': "tasks_within c s l st'" "map en_job (sc_entries st') = map en_job (sc_entries st)"
    "i < length (sc_entries st')" "length (sc_running st') < global_limit (sc_entries st)"
    "\<not> held_back md now st' (sc_entries st' ! i)"
  then have "sc_entries st \<noteq> []" by auto
  then have "global_limit (sc_entries st) \<le> c"
    using jobs by (intro global_limit_le) (auto simp: limits_ok_def)
  then show "tasks_within c s l (spawn_entry md now i st')"
    using st' jobs by (intro spawn_within) simp_all
qed (use assms in \<open>simp_all add: tasks_within_def sched_ok_cursor\<close>)

lemma length_joined: "length (sc_tasks (fst (joined k r st))) \<le> length (sc_tasks st)"
  by (simp add: joined_def Let_def)

lemma in_scope_joined: "in_scope s (sc_tasks (fst (joined k r st))) \<le> in_scope s (sc_tasks st)"
proof -
  have "in_scope s (sc_tasks st) =
      in_scope s (take k (sc_tasks st)) + in_scope s (drop k (sc_tasks st))"
    by (metis append_take_drop_id in_scope_append)
  moreover have "in_scope s (drop (Suc k) ts) \<le> in_scope s (drop k ts)" for ts
    by (induction ts arbitrary: k) (auto simp: in_scope_def drop_Cons split: nat.split)
  ultimately show ?thesis by (simp add: joined_def Let_def)
qed

lemma driven_within: "driven md (limits_ok c s l) st \<Longrightarrow> tasks_within c s l st"
proof (induction rule: driven.induct)
  case (spawned js now)
  show ?case using driven_ok [OF driven.spawned, where P = "\<lambda>_. True"]
    by (simp add: tasks_within_def) (simp add: new_sched_def in_scope_def)
next
  case (turned st now)
  then show ?case using turn_within driven_jobs by blast
next
  case (completed st k r)
  then show ?case using joined_ok [of st k r] length_joined [of k r st] in_scope_joined [of s k r st]
    by (simp add: tasks_within_def)
next
  case (closed st)
  then show ?case by (simp add: tasks_within_def sched_ok_def)
qed (simp add: tasks_within_def reload_ok)

section \<open>Work conservation\<close>

lemma length_bs_insert: "length xs \<le> length (bs_insert x xs)"
  by (induction x xs rule: bs_insert.induct) auto

lemma running_spawn: "length (sc_running st) \<le> length (sc_running (spawn_entry md now i st))"
  by (simp add: spawn_entry_def Let_def length_bs_insert)

lemma running_admit: "length (sc_running st) \<le> length (sc_running (admit_entries md now limit idx st))"
proof (induction idx arbitrary: st)
  case (Cons i idx)
  then show ?case using order_trans [OF running_spawn Cons] by (auto simp: Cons)
qed simp

lemma held_spawned:
  "i < length (sc_entries st) \<Longrightarrow> held_back md now (spawn_entry md now i st) (sc_entries (spawn_entry md now i st) ! i)"
  by (simp add: held_back_def spawn_entry_def Let_def)

lemma held_other:
  assumes "held_back md now st (sc_entries st ! i)" and "i < length (sc_entries st)" and "k < length (sc_entries st)"
  shows "held_back md now (spawn_entry md now k st) (sc_entries (spawn_entry md now k st) ! i)"
proof (cases "i = k")
  case True
  then show ?thesis using assms(2) held_spawned by simp
next
  case False
  then show ?thesis using assms
    by (auto simp: held_back_def spawn_entry_def Let_def scope_count_put sampled_def)
qed

lemma admit_keeps_held:
  assumes "held_back md now st (sc_entries st ! i)" and "i < length (sc_entries st)"
    and "\<forall>k \<in> set idx. k < length (sc_entries st)"
  shows "held_back md now (admit_entries md now limit idx st) (sc_entries (admit_entries md now limit idx st) ! i)"
  using assms
proof (induction idx arbitrary: st)
  case (Cons k idx)
  then show ?case using held_other [OF Cons.prems(1,2)] by auto
qed simp

lemma admit_leaves_held:
  assumes "i \<in> set idx" and "\<forall>k \<in> set idx. k < length (sc_entries st)"
  shows "limit \<le> length (sc_running (admit_entries md now limit idx st)) \<or>
     held_back md now (admit_entries md now limit idx st) (sc_entries (admit_entries md now limit idx st) ! i)"
  using assms
proof (induction idx arbitrary: st)
  case (Cons k idx)
  let ?next = "if held_back md now st (sc_entries st ! k) then st else spawn_entry md now k st"
  show ?case
  proof (cases "limit \<le> length (sc_running st) \<or> i \<noteq> k")
    case True
    then show ?thesis using Cons.IH [of ?next] Cons.prems by (auto split: if_splits)
  next
    case False
    have "held_back md now ?next (sc_entries ?next ! k)"
      using held_spawned [of k st] Cons.prems(2) by simp
    from admit_keeps_held [OF this, of idx limit] show ?thesis
      using False Cons.prems(2) by auto
  qed
qed simp

section \<open>Samples\<close>

text \<open>A one-off run never starts a check more often than it is to be sampled.\<close>

definition samples_within :: "sched \<Rightarrow> bool" where
  "samples_within st \<longleftrightarrow> (\<forall>e \<in> set (sc_entries st). en_samples e \<le> s_samples (j_settings (en_job e)))"

lemma spawn_samples:
  assumes "samples_within st" and "i < length (sc_entries st)" and "\<not> held_back Once now st (sc_entries st ! i)"
  shows "samples_within (spawn_entry Once now i st)"
  using assms sat_add32_le [of "en_samples (sc_entries st ! i)" 1]
    set_update_subset_insert [of "sc_entries st" i]
  by (fastforce simp: samples_within_def spawn_entry_def Let_def held_back_def sampled_def)

lemma turn_samples: "samples_within st \<Longrightarrow> samples_within (turn Once now st)"
proof (rule turn_rule)
  fix st' :: sched and i
  assume "samples_within st'" "i < length (sc_entries st')" "\<not> held_back Once now st' (sc_entries st' ! i)"
  then show "samples_within (spawn_entry Once now i st')" by (rule spawn_samples)
qed (simp_all add: samples_within_def)

lemma driven_samples: "driven Once P st \<Longrightarrow> samples_within st"
proof (induction rule: driven.induct)
  case (spawned js now)
  show ?case by (auto simp: samples_within_def new_sched_def)
next
  case (turned st now)
  then show ?case by (simp add: turn_samples)
qed (simp_all add: samples_within_def watching_def joined_def Let_def)

section \<open>Cancellation\<close>

text \<open>Every task is covered: an entry of its key holds its token, or the token is cancelled.\<close>

definition covered :: "sched \<Rightarrow> running_task \<Rightarrow> bool" where
  "covered st t \<longleftrightarrow> ru_token t \<in> set (sc_cancelled st) \<or>
     (task_key t, ru_token t) \<in> (\<lambda>e. (j_key (en_job e), en_cancel e)) ` set (sc_entries st)"

lemma entry_tokens_spawn:
  assumes "i < length (sc_entries st)"
  shows "(\<lambda>e. (j_key (en_job e), en_cancel e)) ` set (sc_entries (spawn_entry md now i st)) =
     (\<lambda>e. (j_key (en_job e), en_cancel e)) ` set (sc_entries st)"
proof -
  have "map (\<lambda>e. (j_key (en_job e), en_cancel e)) (sc_entries (spawn_entry md now i st)) =
      map (\<lambda>e. (j_key (en_job e), en_cancel e)) (sc_entries st)"
    using assms by (simp add: spawn_entry_def Let_def map_update list_update_same_conv)
  then show ?thesis by (metis set_map)
qed

lemma spawn_covered:
  assumes "\<forall>t \<in> set (sc_tasks st). covered st t" and "i < length (sc_entries st)"
  shows "\<forall>t \<in> set (sc_tasks (spawn_entry md now i st)). covered (spawn_entry md now i st) t"
proof -
  have "covered (spawn_entry md now i st) t \<longleftrightarrow> covered st t" for t
    by (simp add: covered_def entry_tokens_spawn [OF assms(2)])
  then show ?thesis using assms by (auto simp: spawn_entry_def Let_def covered_def)
qed

lemma reload_entries_find:
  assumes "e \<in> set old" and "distinct (map (\<lambda>e. j_key (en_job e)) old)" and "j_key (en_job e) \<in> set (map j_key js)"
  shows "(j_key (en_job e), en_cancel e) \<in>
     (\<lambda>e. (j_key (en_job e), en_cancel e)) ` set (fst (reload_entries now old js fresh))"
  using assms
proof (induction now old js fresh rule: reload_entries.induct)
  case (2 now old j js fresh)
  show ?case
  proof (cases "j_key j = j_key (en_job e)")
    case True
    have "List.find (\<lambda>d. j_key (en_job d) = j_key j) old = Some e"
      using 2(3,4) True by (induction old) (auto simp: rev_image_eqI)
    then show ?thesis using True by (simp add: prod.case_eq_if)
  next
    case False
    then show ?thesis using 2 by (auto simp: prod.case_eq_if split: option.split)
  qed
qed simp

lemma reload_covered:
  assumes "\<forall>t \<in> set (sc_tasks st). covered st t" and "distinct (map j_key (map en_job (sc_entries st)))"
  shows "\<forall>t \<in> set (sc_tasks (reload_sched now js st)). covered (reload_sched now js st) t"
proof
  fix t
  assume "t \<in> set (sc_tasks (reload_sched now js st))"
  then have t: "covered st t" using assms(1) by simp
  have cancelled: "set (sc_cancelled (reload_sched now js st)) = set (sc_cancelled st) \<union>
      en_cancel ` {e \<in> set (sc_entries st). j_key (en_job e) \<notin> set (map j_key js)}"
    by (auto simp: reload_sched_def Let_def prod.case_eq_if)
  have entries: "sc_entries (reload_sched now js st) =
      fst (reload_entries now (sc_entries st) js (sc_fresh st))"
    by (simp add: reload_sched_def Let_def prod.case_eq_if)
  show "covered (reload_sched now js st) t"
  proof (cases "ru_token t \<in> set (sc_cancelled st)")
    case False
    then obtain e where e: "e \<in> set (sc_entries st)" "task_key t = j_key (en_job e)" "ru_token t = en_cancel e"
      using t by (auto simp: covered_def)
    then show ?thesis
      using reload_entries_find [OF e(1), of js now "sc_fresh st"] assms(2)
      by (cases "j_key (en_job e) \<in> set (map j_key js)") (auto simp: covered_def cancelled entries comp_def)
  qed (simp add: covered_def cancelled)
qed

lemma driven_covered:
  "driven md (\<lambda>js. distinct (map j_key js)) st \<Longrightarrow> \<forall>t \<in> set (sc_tasks st). covered st t"
proof (induction rule: driven.induct)
  case (spawned js now)
  show ?case by (simp add: new_sched_def)
next
  case (turned st now)
  show ?case
  proof (rule turn_rule)
    fix st' :: sched and i
    assume "\<forall>t \<in> set (sc_tasks st'). covered st' t" "i < length (sc_entries st')"
    then show "\<forall>t \<in> set (sc_tasks (spawn_entry md now i st')). covered (spawn_entry md now i st') t"
      by (rule spawn_covered)
  qed (use turned in \<open>simp_all add: covered_def\<close>)
next
  case (reloaded st js now)
  then show ?case using reload_covered driven_jobs by blast
next
  case (closed st)
  then show ?case by (simp add: covered_def)
next
  case (completed st k r)
  then show ?case
    by (auto simp: joined_def Let_def covered_def dest: in_set_takeD in_set_dropD)
qed

section \<open>Cadence\<close>

lemma cadence_between:
  assumes "interval \<le> 2 ^ 40" and "percent \<le> 100"
  shows "int interval - int (cadence_spread interval percent) \<le> int (cadence interval percent key cycle)"
    and "int (cadence interval percent key cycle) \<le> max 1 (int interval + int (cadence_spread interval percent))"
proof -
  let ?s = "cadence_spread interval percent"
  have "sat_mul64 interval percent \<le> interval * 100"
    using assms(2) by (simp add: sat_mul64_def min.coboundedI1)
  then have s: "?s \<le> interval"
    using div_le_mono [of _ "interval * 100" 100] by (simp add: cadence_spread_def)
  have small: "?s * 2 + 1 < 2 ^ 63" using s assms(1) by simp
  define h where "h = cadence_hash cycle key mod (?s * 2 + 1)"
  have h: "h \<le> ?s * 2" using mod_less_divisor [of "?s * 2 + 1" "cadence_hash cycle key"] by (simp add: h_def)
  then have "as_i64 h = int h" using small by (intro as_i64_small) linarith
  moreover have "int interval + int ?s \<le> int u64_max" using s assms(1) by (simp add: u64_max_def)
  ultimately have "cadence interval percent key cycle =
      (if ?s = 0 then interval else max (nat (int interval + (int h - int ?s))) 1)"
    using s h unfolding cadence_def Let_def h_def [symmetric] by simp
  then show "int interval - int ?s \<le> int (cadence interval percent key cycle)"
    "int (cadence interval percent key cycle) \<le> max 1 (int interval + int ?s)"
    using s h by (auto split: if_splits)
qed

section \<open>Properties\<close>

text \<open>C16: However turns, completions and reloads interleave, at most \<open>c\<close> collections run at
  once, at most \<open>l\<close> of them in the scope \<open>s\<close>, and no check overlaps with itself, when no
  configuration ever allowed more.\<close>

theorem concurrency_is_limited:
  assumes "driven md (limits_ok c s l) st"
  shows "length (sc_tasks st) \<le> c \<and> in_scope s (sc_tasks st) \<le> l \<and> distinct (map task_key (sc_tasks st))"
  using driven_within [OF assms] by (simp add: tasks_within_def sched_ok_def)

definition sample_turn :: sched where
  "sample_turn = turn Once 0 (new_sched 0 [sample_job])"

lemma sample_turn_simps [simp]:
  "sc_tasks sample_turn = [\<lparr>ru_job = sample_job\<lparr>j_continuous := False\<rparr>, ru_token = 0\<rparr>]"
  "sc_running sample_turn = [''prod/Kubernetes'']" "sc_cancelled sample_turn = []"
  "sc_entries sample_turn = [\<lparr>en_job = sample_job, en_due = int (s_sample_interval default_settings) * nanos_per_sec, en_samples = 1, en_cancel = 0\<rparr>]"
  "sc_fresh sample_turn = 1"
  by (simp_all add: sample_turn_def turn_def new_sched_def rotation_def global_limit_def default_settings_def
      unwrap_or_def held_back_def scope_count_def sampled_def spawn_entry_def Let_def watching_def
      next_interval_def sat_add32_def u32_max_def)

lemma sample_turn_driven: "P [sample_job] \<Longrightarrow> driven Once P sample_turn"
  unfolding sample_turn_def by (intro driven.turned driven.spawned)

theorem concurrency_is_limited_witness:
  "length (sc_tasks sample_turn) \<le> 16 \<and> in_scope ''Gcp/project'' (sc_tasks sample_turn) \<le> 4 \<and>
   distinct (map task_key (sc_tasks sample_turn))"
  by (rule concurrency_is_limited [where md = Once], rule sample_turn_driven)
    (simp add: limits_ok_def default_settings_def)

text \<open>A turn leaves no capacity idle: after it, either the global limit is reached, or every
  entry is not due, already running, of a saturated scope, or done.\<close>

theorem turn_is_work_conserving:
  assumes "i < length (sc_entries st)"
  shows "global_limit (sc_entries st) \<le> length (sc_running (turn md now st)) \<or>
     held_back md now (turn md now st) (sc_entries (turn md now st) ! i)"
proof -
  let ?st = "admit_entries md now (global_limit (sc_entries st)) (rotation st) st"
  have "global_limit (sc_entries st) \<le> length (sc_running ?st) \<or> held_back md now ?st (sc_entries ?st ! i)"
    using rotation_covers [OF assms] rotation_bound by (intro admit_leaves_held) blast+
  then show ?thesis using assms by (auto simp: turn_def Let_def held_back_def)
qed

theorem turn_is_work_conserving_witness:
  "global_limit (sc_entries (new_sched 0 [sample_job])) \<le> length (sc_running sample_turn) \<or>
   held_back Once 0 sample_turn (sc_entries sample_turn ! 0)"
  unfolding sample_turn_def by (rule turn_is_work_conserving) (simp add: new_sched_def)

text \<open>When a one-off run ends, nothing is running and every check has been collected exactly as
  often as it is to be sampled.\<close>

theorem one_off_run_takes_every_sample:
  assumes "driven Once P st" and "once_finished Once st"
  shows "sc_tasks st = [] \<and>
     map en_samples (sc_entries st) = map (\<lambda>e. s_samples (j_settings (en_job e))) (sc_entries st)"
proof -
  have "length (sc_tasks st) = 0"
    using running_length [OF driven_ok [OF assms(1)]] assms(2) by (simp add: once_finished_def)
  then show ?thesis
    using driven_samples [OF assms(1)] assms(2)
    by (auto simp: once_finished_def samples_within_def list_all_iff intro: antisym)
qed

definition single_job :: job where
  "single_job = sample_job\<lparr>j_settings := default_settings\<lparr>s_samples := 1\<rparr>\<rparr>"

lemma single_job_simps: "j_key single_job = ''prod/Kubernetes''" "s_samples (j_settings single_job) = 1"
  "s_concurrency (j_settings single_job) = 16" "s_scope_concurrency (j_settings single_job) = 4"
  by (simp_all add: single_job_def default_settings_def)

definition sample_done :: sched where
  "sample_done = fst (joined 0 (sample_result Complete []) (turn Once 0 (new_sched 0 [single_job])))"

theorem one_off_run_takes_every_sample_witness:
  "sc_tasks sample_done = [] \<and>
   map en_samples (sc_entries sample_done) = map (\<lambda>e. s_samples (j_settings (en_job e))) (sc_entries sample_done)"
proof (rule one_off_run_takes_every_sample [where P = "\<lambda>_. True"])
  have tasks: "sc_tasks (turn Once 0 (new_sched 0 [single_job])) =
      [\<lparr>ru_job = single_job\<lparr>j_continuous := False\<rparr>, ru_token = 0\<rparr>]"
    "sc_running (turn Once 0 (new_sched 0 [single_job])) = [''prod/Kubernetes'']"
    "map en_samples (sc_entries (turn Once 0 (new_sched 0 [single_job]))) = [1]"
    by (simp_all add: turn_def new_sched_def rotation_def global_limit_def single_job_simps
        unwrap_or_def held_back_def scope_count_def sampled_def spawn_entry_def Let_def watching_def
        next_interval_def sat_add32_def u32_max_def)
  show "driven Once (\<lambda>_. True) sample_done"
    unfolding sample_done_def by (intro driven.completed driven.turned driven.spawned) (simp_all add: tasks)
  have "map en_job (sc_entries (turn Once 0 (new_sched 0 [single_job]))) = [single_job]" by (simp add: turn_jobs)
  then show "once_finished Once sample_done"
    using tasks by (auto simp: sample_done_def once_finished_def joined_def Let_def single_job_simps)
qed

text \<open>Every collection that runs is either of an entry of the current configuration, which
  holds its token, or has been cancelled, when the keys of each configuration are distinct.\<close>

theorem unscheduled_tasks_are_cancelled:
  assumes "driven md (\<lambda>js. distinct (map j_key js)) st" and "t \<in> set (sc_tasks st)"
  shows "ru_token t \<in> set (sc_cancelled st) \<or>
     (\<exists>e. e \<in> set (sc_entries st) \<and> j_key (en_job e) = task_key t \<and> en_cancel e = ru_token t)"
  using driven_covered [OF assms(1)] assms(2) unfolding covered_def by fastforce

theorem unscheduled_tasks_are_cancelled_witness:
  "(0::nat) \<in> set (sc_cancelled sample_turn) \<or>
   (\<exists>e. e \<in> set (sc_entries sample_turn) \<and> j_key (en_job e) = ''prod/Kubernetes'' \<and> en_cancel e = 0)"
  using unscheduled_tasks_are_cancelled [of Once sample_turn "hd (sc_tasks sample_turn)", OF sample_turn_driven]
  by simp

text \<open>The jitter of the schedule stays within its percentage: with the largest spread a
  configuration may ask for, a check is collected after at least half and at most one and
  a half of its interval.\<close>

theorem cadence_stays_near_the_interval:
  assumes "percent \<le> 50" and "1 \<le> interval" and "interval \<le> 2 ^ 40"
  shows "interval \<le> 2 * cadence interval percent key cycle \<and> 2 * cadence interval percent key cycle \<le> 3 * interval"
proof -
  have "sat_mul64 interval percent \<le> interval * 50"
    using assms(1) by (simp add: sat_mul64_def min.coboundedI1)
  then have "cadence_spread interval percent \<le> interval * 50 div 100"
    unfolding cadence_spread_def by (rule div_le_mono)
  then have "2 * cadence_spread interval percent \<le> interval" by linarith
  then show ?thesis
    using cadence_between [of interval percent key cycle] assms by simp
qed

theorem cadence_stays_near_the_interval_witness:
  "60 \<le> 2 * cadence 60 10 ''prod/Kubernetes'' 3 \<and> 2 * cadence 60 10 ''prod/Kubernetes'' 3 \<le> 3 * 60"
  by (rule cadence_stays_near_the_interval) simp_all

end
