(* ===== verification/Storage.thy ===== *)
theory Storage
  imports Config_Types Validate
begin

text \<open>
  \<open>crates/core/src/storage.rs\<close>: the output directory and the operations on it. A directory
  is the list of its entries in the order \<open>read_dir\<close> yields them. Every system call that
  can fail asks \<open>faults\<close>, an arbitrary stream of failures: a crash is a stream that fails
  from some call on, and a write that fails may have written any part of its bytes.
  JSON, Markdown and the time stamps of chrono are parameters.
\<close>

section \<open>Directories\<close>

datatype file_kind = Regular | Symlink | Subdirectory

record stored_file =
  fi_bytes :: string
  fi_modified :: instant
  fi_kind :: file_kind

type_synonym directory = "(string \<times> stored_file) list"

record codec =
  cd_snapshot :: "snapshot \<Rightarrow> string option"  \<comment> \<open>\<open>serde_json::to_vec\<close>\<close>
  cd_transition :: "transition \<Rightarrow> string option"
  cd_parse :: "string \<Rightarrow> snapshot option"  \<comment> \<open>\<open>serde_json::from_slice\<close>\<close>
  cd_markdown :: "snapshot \<Rightarrow> string"
  cd_stamp :: "instant \<Rightarrow> string"  \<comment> \<open>\<open>format("%Y%m%dT%H%M%S%.9fZ")\<close>\<close>
  cd_is_stamp :: "string \<Rightarrow> bool"  \<comment> \<open>\<open>NaiveDateTime::parse_from_str\<close> accepts it\<close>

record faults =
  fa_fails :: "nat \<Rightarrow> bool"
  fa_written :: "nat \<Rightarrow> nat"

text \<open>The directory and the number of system calls made so far.\<close>

record disk =
  dk_files :: directory
  dk_calls :: nat

fun put_file :: "string \<Rightarrow> stored_file \<Rightarrow> directory \<Rightarrow> directory" where
  "put_file n f [] = [(n, f)]"
| "put_file n f ((m, g) # d) = (if m = n then (n, f) # d else (m, g) # put_file n f d)"

definition remove_entry :: "string \<Rightarrow> directory \<Rightarrow> directory" where
  "remove_entry n d = filter (\<lambda>(m, _). m \<noteq> n) d"

definition rename_entry :: "string \<Rightarrow> string \<Rightarrow> directory \<Rightarrow> directory" where
  "rename_entry a b d =
     (case map_of d a of None \<Rightarrow> d | Some f \<Rightarrow> put_file b f (remove_entry a d))"

section \<open>System calls\<close>

definition sys_call :: "faults \<Rightarrow> (directory \<Rightarrow> directory) \<Rightarrow> disk \<Rightarrow> (error + unit) \<times> disk" where
  "sys_call fa f dk =
     (if fa_fails fa (dk_calls dk) then (Inl IoError, dk\<lparr>dk_calls := Suc (dk_calls dk)\<rparr>)
      else (Inr (), \<lparr>dk_files = f (dk_files dk), dk_calls = Suc (dk_calls dk)\<rparr>))"

text \<open>Open, truncate, set the mode, \<open>write_all\<close> and \<open>sync_all\<close> of the temporary file.\<close>

definition write_file :: "faults \<Rightarrow> instant \<Rightarrow> string \<Rightarrow> string \<Rightarrow> disk \<Rightarrow> (error + unit) \<times> disk" where
  "write_file fa now n bytes dk =
     (if fa_fails fa (dk_calls dk)
      then (Inl IoError,
        \<lparr>dk_files = put_file n \<lparr>fi_bytes = take (fa_written fa (dk_calls dk)) bytes, fi_modified = now,
             fi_kind = Regular\<rparr> (dk_files dk),
         dk_calls = Suc (dk_calls dk)\<rparr>)
      else (Inr (),
        \<lparr>dk_files = put_file n \<lparr>fi_bytes = bytes, fi_modified = now, fi_kind = Regular\<rparr> (dk_files dk),
         dk_calls = Suc (dk_calls dk)\<rparr>))"

definition reject_symlink :: "faults \<Rightarrow> string \<Rightarrow> disk \<Rightarrow> (error + unit) \<times> disk" where
  "reject_symlink fa n dk =
     (case sys_call fa (\<lambda>d. d) dk of
        (Inl e, dk) \<Rightarrow> (Inl e, dk)
      | (Inr _, dk) \<Rightarrow>
          (case map_of (dk_files dk) n of
             None \<Rightarrow> (Inr (), dk)
           | Some f \<Rightarrow> (if fi_kind f = Symlink then Inl EvidenceError else Inr (), dk)))"

definition then_disk ::
  "(error + 'a) \<times> disk \<Rightarrow> ('a \<Rightarrow> disk \<Rightarrow> (error + 'b) \<times> disk) \<Rightarrow> (error + 'b) \<times> disk" where
  "then_disk r f = (case r of (Inl e, dk) \<Rightarrow> (Inl e, dk) | (Inr v, dk) \<Rightarrow> f v dk)"

section \<open>Names\<close>

definition latest_name :: string where "latest_name = ''monitor-latest.json''"
definition report_name :: string where "report_name = ''monitor-report.md''"
definition lock_name :: string where "lock_name = ''monitor.lock''"

definition snapshot_name :: "string \<Rightarrow> string" where
  "snapshot_name stamp = ''monitor-snapshot-'' @ stamp @ ''.json''"

definition events_name :: "string \<Rightarrow> string" where
  "events_name stamp = ''monitor-events-'' @ stamp @ ''.ndjson''"

definition temp_name :: "string \<Rightarrow> string" where
  "temp_name n = ''.'' @ n @ ''.tmp''"

text \<open>\<open>owned\<close>: whether the name is history of the service, and whether a snapshot.\<close>

definition owned :: "codec \<Rightarrow> string \<Rightarrow> bool option" where
  "owned cd n =
     (case (case strip_prefix ''monitor-snapshot-'' n of None \<Rightarrow> None | Some s \<Rightarrow> strip_suffix ''.json'' s) of
        Some stamp \<Rightarrow> if cd_is_stamp cd stamp then Some True else None
      | None \<Rightarrow>
          (case (case strip_prefix ''monitor-events-'' n of None \<Rightarrow> None | Some s \<Rightarrow> strip_suffix ''.ndjson'' s) of
             Some stamp \<Rightarrow> if cd_is_stamp cd stamp then Some False else None
           | None \<Rightarrow> None))"

fun trim_start :: "nat \<Rightarrow> string \<Rightarrow> string \<Rightarrow> string" where
  "trim_start 0 p s = s"
| "trim_start (Suc n) p s = (if starts_with s p then trim_start n p (drop (length p) s) else s)"

text \<open>The stamp retention sorts by: the name without its prefixes, up to the first dot.\<close>

definition retention_stamp :: "string \<Rightarrow> string" where
  "retention_stamp n =
     first_part CHR ''.'' (trim_start (length n) ''monitor-events-''
       (trim_start (length n) ''monitor-snapshot-'' n))"

section \<open>Retention\<close>

record history_file =
  hf_stamp :: string
  hf_name :: string
  hf_size :: u64
  hf_snapshot :: bool
  hf_modified :: instant

definition file_size :: "stored_file \<Rightarrow> u64" where
  "file_size f = length (fi_bytes f)"

definition service_bytes :: "directory \<Rightarrow> u64" where
  "service_bytes d =
     sum_list (map file_size (List.map_filter (map_of d) [latest_name, report_name, lock_name]))"

text \<open>One entry of the listing; more than 20002 history files are refused.\<close>

definition history_entry :: "codec \<Rightarrow> string \<times> stored_file \<Rightarrow> history_file option" where
  "history_entry cd nf =
     (case (owned cd (fst nf), fi_kind (snd nf)) of
        (Some snapshot, Regular) \<Rightarrow>
          Some \<lparr>hf_stamp = retention_stamp (fst nf), hf_name = fst nf, hf_size = file_size (snd nf),
                hf_snapshot = snapshot, hf_modified = fi_modified (snd nf)\<rparr>
      | _ \<Rightarrow> None)"

definition history_files :: "codec \<Rightarrow> directory \<Rightarrow> history_file list" where
  "history_files cd d = List.map_filter (history_entry cd) d"

definition surplus :: "settings \<Rightarrow> instant \<Rightarrow> u64 \<Rightarrow> usize \<Rightarrow> history_file \<Rightarrow> bool" where
  "surplus s now bytes count hf \<longleftrightarrow>
     s_history_bytes s < bytes \<or> s_history_count s < count \<or>
     int (s_history_age s) * nanos_per_sec < max 0 (now - hf_modified hf)"

fun prune :: "faults \<Rightarrow> settings \<Rightarrow> instant \<Rightarrow> u64 \<Rightarrow> usize \<Rightarrow> history_file list \<Rightarrow> disk \<Rightarrow> (error + unit) \<times> disk" where
  "prune fa s now bytes count [] dk = (Inr (), dk)"
| "prune fa s now bytes count (hf # rest) dk =
     (if surplus s now bytes count hf
      then then_disk (sys_call fa (remove_entry (hf_name hf)) dk) (\<lambda>_.
             prune fa s now (bytes - hf_size hf) (if hf_snapshot hf then count - 1 else count) rest)
      else prune fa s now bytes count rest dk)"

definition retain :: "faults \<Rightarrow> codec \<Rightarrow> settings \<Rightarrow> instant \<Rightarrow> disk \<Rightarrow> (error + unit) \<times> disk" where
  "retain fa cd s now dk =
     then_disk (sys_call fa (\<lambda>d. d) dk) (\<lambda>_ dk.
       (let files = history_files cd (dk_files dk);
            bytes = fold (\<lambda>hf b. sat_add64 b (hf_size hf)) files (service_bytes (dk_files dk))
        in if 20002 < length files then (Inl EvidenceError, dk)
           else prune fa s now bytes (length (filter hf_snapshot files)) (sort_key hf_stamp files) dk))"

section \<open>Publication\<close>

definition write_and_rename :: "faults \<Rightarrow> instant \<Rightarrow> string \<Rightarrow> string \<Rightarrow> disk \<Rightarrow> (error + unit) \<times> disk" where
  "write_and_rename fa now n bytes dk =
     then_disk (write_file fa now (temp_name n) bytes dk) (\<lambda>_ dk.
     then_disk (sys_call fa (rename_entry (temp_name n) n) dk) (\<lambda>_.
       sys_call fa (\<lambda>d. d)))"

text \<open>\<open>atomic\<close>: a write to a temporary file and a rename; a failure removes the temporary.\<close>

definition atomic_write :: "faults \<Rightarrow> instant \<Rightarrow> string \<Rightarrow> string \<Rightarrow> disk \<Rightarrow> (error + unit) \<times> disk" where
  "atomic_write fa now n bytes dk =
     then_disk (reject_symlink fa n dk) (\<lambda>_ dk.
     then_disk (reject_symlink fa (temp_name n) dk) (\<lambda>_ dk.
       (case write_and_rename fa now n bytes dk of
          (Inr u, dk) \<Rightarrow> (Inr u, dk)
        | (Inl e, dk) \<Rightarrow> (Inl e, snd (sys_call fa (remove_entry (temp_name n)) dk)))))"

text \<open>The event file: one JSON line per transition.\<close>

fun encode_events :: "codec \<Rightarrow> transition list \<Rightarrow> error + string" where
  "encode_events cd [] = Inr []"
| "encode_events cd (t # ts) =
     (case cd_transition cd t of
        None \<Rightarrow> Inl JsonError
      | Some line \<Rightarrow> (case encode_events cd ts of Inl e \<Rightarrow> Inl e | Inr rest \<Rightarrow> Inr (line @ [CHR 0x0A] @ rest)))"

definition reserve_bytes :: "string \<Rightarrow> string \<Rightarrow> string \<Rightarrow> u64" where
  "reserve_bytes encoded report events =
     sat_add64 (sat_add64 (sat_mul64 (length encoded) 2) (length report)) (length events)"

definition write_all :: "faults \<Rightarrow> codec \<Rightarrow> snapshot \<Rightarrow> settings \<Rightarrow> string \<Rightarrow> string \<Rightarrow> disk \<Rightarrow> (error + unit) \<times> disk" where
  "write_all fa cd sn s encoded events dk =
     (let now = sn_captured_at sn; stamp = cd_stamp cd now; report = cd_markdown cd sn;
          reserve = reserve_bytes encoded report events
      in if s_history_bytes s < reserve then (Inl EvidenceError, dk)
         else then_disk (retain fa cd (s\<lparr>s_history_bytes := s_history_bytes s - reserve\<rparr>) now dk) (\<lambda>_ dk.
              then_disk (atomic_write fa now (snapshot_name stamp) encoded dk) (\<lambda>_ dk.
              then_disk (if events = [] then (Inr (), dk) else atomic_write fa now (events_name stamp) events dk) (\<lambda>_ dk.
              then_disk (atomic_write fa now report_name report dk) (\<lambda>_ dk.
              then_disk (atomic_write fa now latest_name encoded dk) (\<lambda>_.
                retain fa cd s now))))))"

definition publish :: "faults \<Rightarrow> codec \<Rightarrow> snapshot \<Rightarrow> transition list \<Rightarrow> settings \<Rightarrow> disk \<Rightarrow> (error + unit) \<times> disk" where
  "publish fa cd sn ts s dk =
     (case cd_snapshot cd sn of
        None \<Rightarrow> (Inl JsonError, dk)
      | Some encoded \<Rightarrow>
          if s_memory_bytes s div 2 < length encoded \<or> s_history_bytes s < length encoded
          then (Inl EvidenceError, dk)
          else (case encode_events cd ts of
                  Inl e \<Rightarrow> (Inl e, dk)
                | Inr events \<Rightarrow> write_all fa cd sn s encoded events dk))"

section \<open>Reading\<close>

text \<open>\<open>read\<close>: at most \<open>limit\<close> bytes, and only version 1.\<close>

definition read_snapshot :: "codec \<Rightarrow> directory \<Rightarrow> usize \<Rightarrow> string \<Rightarrow> error + snapshot" where
  "read_snapshot cd d limit n =
     (case map_of d n of
        None \<Rightarrow> Inl IoError
      | Some f \<Rightarrow>
          if fi_kind f = Symlink then Inl EvidenceError
          else if fi_kind f = Subdirectory then Inl IoError
          else if limit < length (fi_bytes f) then Inl EvidenceError
          else case cd_parse cd (fi_bytes f) of
                 None \<Rightarrow> Inl JsonError
               | Some sn \<Rightarrow> if sn_version sn = 1 then Inr sn else Inl EvidenceError)"

fun first_readable :: "codec \<Rightarrow> directory \<Rightarrow> usize \<Rightarrow> string list \<Rightarrow> snapshot option" where
  "first_readable cd d limit [] = None"
| "first_readable cd d limit (n # ns) =
     (case read_snapshot cd d limit n of Inr sn \<Rightarrow> Some sn | Inl _ \<Rightarrow> first_readable cd d limit ns)"

definition latest_snapshot :: "codec \<Rightarrow> usize \<Rightarrow> directory \<Rightarrow> error + snapshot option" where
  "latest_snapshot cd limit d =
     (if is_some_and (\<lambda>f. fi_kind f = Symlink) (map_of d latest_name) then Inl EvidenceError
      else case read_snapshot cd d limit latest_name of
             Inr sn \<Rightarrow> Inr (Some sn)
           | Inl _ \<Rightarrow>
               (let names = sort (take 10001 (filter (\<lambda>n. owned cd n = Some True) (map fst d)))
                in if names = [] \<and> map_of d latest_name = None then Inr None
                   else (case first_readable cd d limit (rev names) of
                           Some sn \<Rightarrow> Inr (Some sn)
                         | None \<Rightarrow> Inl EvidenceError)))"

section \<open>Opening\<close>

text \<open>Temporaries an interrupted publication left behind.\<close>

definition stale_temp :: "codec \<Rightarrow> string \<Rightarrow> bool" where
  "stale_temp cd n =
     (case (case strip_prefix ''.'' n of None \<Rightarrow> None | Some s \<Rightarrow> strip_suffix ''.tmp'' s) of
        None \<Rightarrow> False
      | Some m \<Rightarrow> m \<in> {latest_name, report_name} \<or> owned cd m \<noteq> None)"

fun clean_temps :: "faults \<Rightarrow> codec \<Rightarrow> directory \<Rightarrow> disk \<Rightarrow> (error + unit) \<times> disk" where
  "clean_temps fa cd [] dk = (Inr (), dk)"
| "clean_temps fa cd ((n, f) # rest) dk =
     (if stale_temp cd n
      then then_disk (reject_symlink fa n dk) (\<lambda>_ dk.
             then_disk (if fi_kind f = Regular then sys_call fa (remove_entry n) dk else (Inr (), dk)) (\<lambda>_.
               clean_temps fa cd rest))
      else clean_temps fa cd rest dk)"

text \<open>\<open>open\<close>: \<open>symlinked\<close> says that the directory itself is a link, \<open>locked\<close> that another
  process holds the lock.\<close>

definition open_store :: "faults \<Rightarrow> codec \<Rightarrow> bool \<Rightarrow> bool \<Rightarrow> instant \<Rightarrow> disk \<Rightarrow> (error + unit) \<times> disk" where
  "open_store fa cd symlinked locked now dk =
     then_disk (sys_call fa (\<lambda>d. d) dk) (\<lambda>_ dk.
       if symlinked then (Inl EvidenceError, dk)
       else then_disk (reject_symlink fa lock_name dk) (\<lambda>_ dk.
            then_disk (sys_call fa (\<lambda>d. if map_of d lock_name = None
                 then put_file lock_name \<lparr>fi_bytes = [], fi_modified = now, fi_kind = Regular\<rparr> d else d) dk) (\<lambda>_ dk.
              if locked then (Inl LockedError, dk)
              else then_disk (sys_call fa (\<lambda>d. d) dk) (\<lambda>_ dk. clean_temps fa cd (dk_files dk) dk))))"

end
