(* ===== verification/Storage_Properties.thy ===== *)
theory Storage_Properties
  imports Storage Samples "HOL-Library.Multiset"
begin

text \<open>
  What a publication leaves on disk whatever fails in the middle of it, that what was
  published is what a restart reads, and how much history retention keeps.
\<close>

section \<open>Directories\<close>

lemma map_of_put_file: "map_of (put_file n f d) = (map_of d)(n \<mapsto> f)"
  by (induction n f d rule: put_file.induct) auto

lemma map_of_remove: "map_of (remove_entry n d) = (map_of d)(n := None)"
  by (induction d) (auto simp: remove_entry_def fun_eq_iff)

lemma map_of_rename:
  "map_of (rename_entry a b d) =
     (case map_of d a of None \<Rightarrow> map_of d | Some f \<Rightarrow> (map_of d)(a := None, b \<mapsto> f))"
  by (simp add: rename_entry_def map_of_put_file map_of_remove split: option.split)

lemma then_disk_Inr:
  "then_disk r f = (Inr v, dk) \<longleftrightarrow> (\<exists>w dk'. r = (Inr w, dk') \<and> f w dk' = (Inr v, dk))"
  by (auto simp: then_disk_def split: prod.splits sum.splits)

abbreviation entry_of :: "string \<Rightarrow> disk \<Rightarrow> stored_file option" where
  "entry_of n dk \<equiv> map_of (dk_files dk) n"

text \<open>An operation on the disk that leaves a set of names alone, whether it fails or not.\<close>

locale disk_frame =
  fixes act :: "disk \<Rightarrow> (error + 'a) \<times> disk" and untouched :: "string set"
  assumes keeps: "n \<in> untouched \<Longrightarrow> entry_of n (snd (act dk)) = entry_of n dk"
begin

lemma then_keeps:
  assumes "\<And>v dk. n \<in> untouched \<Longrightarrow> entry_of n (snd (g v dk)) = entry_of n dk"
    and "n \<in> untouched"
  shows "entry_of n (snd (then_disk (act dk) g)) = entry_of n dk"
  using keeps [OF assms(2), of dk] assms
  by (auto simp: then_disk_def split: prod.split sum.split)

end

interpretation symlink_check: disk_frame "reject_symlink fa m" UNIV for fa m
  by unfold_locales
    (auto simp: reject_symlink_def sys_call_def split: prod.splits sum.splits option.splits if_splits)

interpretation listing: disk_frame "sys_call fa (\<lambda>d. d)" UNIV for fa
  by unfold_locales (simp add: sys_call_def)

interpretation removal: disk_frame "sys_call fa (remove_entry m)" "- {m}" for fa m
  by unfold_locales (auto simp: sys_call_def map_of_remove)

interpretation writing: disk_frame "write_file fa now m bytes" "- {m}" for fa now m bytes
  by unfold_locales (auto simp: write_file_def map_of_put_file)

interpretation renaming: disk_frame "sys_call fa (rename_entry a b)" "- {a, b}" for fa a b
  by unfold_locales (auto simp: sys_call_def map_of_rename split: option.split)

section \<open>Names\<close>

lemma temp_name_fresh:
  "temp_name n \<noteq> latest_name" "temp_name n \<noteq> report_name"
  "temp_name n \<noteq> snapshot_name s" "temp_name n \<noteq> events_name s"
  by (auto simp: temp_name_def latest_name_def report_name_def snapshot_name_def events_name_def)

lemma temp_name_inj [simp]: "temp_name m = temp_name n \<longleftrightarrow> m = n"
  by (simp add: temp_name_def)

lemma latest_distinct:
  "snapshot_name s \<noteq> latest_name" "events_name s \<noteq> latest_name" "report_name \<noteq> latest_name"
  by (simp_all add: snapshot_name_def events_name_def latest_name_def report_name_def)

lemma owned_latest: "owned cd latest_name = None"
  by (simp add: owned_def latest_name_def strip_prefix_def starts_with_def)

section \<open>Retention\<close>

lemma history_files_owned: "hf \<in> set (history_files cd d) \<Longrightarrow> owned cd (hf_name hf) \<noteq> None"
  by (auto simp: history_files_def map_filter_def history_entry_def split: option.splits file_kind.splits)

lemma prune_keeps:
  "n \<notin> hf_name ` set fs \<Longrightarrow> entry_of n (snd (prune fa s now bytes c fs dk)) = entry_of n dk"
proof (induction fa s now bytes c fs dk rule: prune.induct)
  case (2 fa s now bytes c hf rest dk)
  then show ?case by (auto intro!: removal.then_keeps)
qed simp

lemma retain_keeps: "owned cd n = None \<Longrightarrow> entry_of n (snd (retain fa cd s now dk)) = entry_of n dk"
  unfolding retain_def
proof (rule listing.then_keeps)
  fix v :: unit and dk :: disk
  assume "owned cd n = None"
  then have "n \<notin> hf_name ` set (sort_key hf_stamp (history_files cd (dk_files dk)))"
    using history_files_owned by fastforce
  then show "entry_of n (snd (let files = history_files cd (dk_files dk);
        bytes = fold (\<lambda>hf b. sat_add64 b (hf_size hf)) files (service_bytes (dk_files dk))
      in if 20002 < length files then (Inl EvidenceError, dk)
         else prune fa s now bytes (length (filter hf_snapshot files)) (sort_key hf_stamp files) dk)) =
    entry_of n dk"
    by (simp add: Let_def prune_keeps)
qed simp

interpretation retention: disk_frame "retain fa cd s now" "{n. owned cd n = None}" for fa cd s now
  by unfold_locales (simp add: retain_keeps)

section \<open>Atomic writes\<close>

lemma write_and_rename_keeps:
  "m \<noteq> n \<Longrightarrow> m \<noteq> temp_name n \<Longrightarrow> entry_of m (snd (write_and_rename fa now n bytes dk)) = entry_of m dk"
  unfolding write_and_rename_def
  by (intro writing.then_keeps renaming.then_keeps) (auto simp: listing.keeps)

lemma atomic_keeps:
  assumes "m \<noteq> n" and "m \<noteq> temp_name n"
  shows "entry_of m (snd (atomic_write fa now n bytes dk)) = entry_of m dk"
proof -
  have "entry_of m (snd (case write_and_rename fa now n bytes dk of
      (Inr u, dk) \<Rightarrow> (Inr u, dk)
    | (Inl e, dk) \<Rightarrow> (Inl e, snd (sys_call fa (remove_entry (temp_name n)) dk)))) = entry_of m dk" for dk
    using write_and_rename_keeps [OF assms, of fa now bytes dk] removal.keeps [of m "temp_name n" fa] assms
    by (cases "write_and_rename fa now n bytes dk"; cases "fst (write_and_rename fa now n bytes dk)") auto
  then show ?thesis
    unfolding atomic_write_def by (intro symlink_check.then_keeps) simp_all
qed

definition new_file :: "instant \<Rightarrow> string \<Rightarrow> stored_file" where
  "new_file now bytes = \<lparr>fi_bytes = bytes, fi_modified = now, fi_kind = Regular\<rparr>"

text \<open>The target of an atomic write has its old content or all of the new, and the new when
  the write succeeds.\<close>

lemma write_and_rename_target:
  assumes "n \<noteq> temp_name n" and "write_and_rename fa now n bytes dk = (r, dk')"
  shows "entry_of n dk' \<in> {entry_of n dk, Some (new_file now bytes)}"
    and "r = Inr u \<Longrightarrow> entry_of n dk' = Some (new_file now bytes)"
  using assms
  by (auto simp: write_and_rename_def then_disk_def write_file_def sys_call_def map_of_put_file
      map_of_rename new_file_def split: if_splits)

lemma reject_symlink_files [simp]: "dk_files (snd (reject_symlink fa n dk)) = dk_files dk"
  by (auto simp: reject_symlink_def sys_call_def split: option.split)

lemma atomic_target:
  assumes "n \<noteq> temp_name n" and "atomic_write fa now n bytes dk = (r, dk')"
  shows "entry_of n dk' \<in> {entry_of n dk, Some (new_file now bytes)}"
    and "r = Inr u \<Longrightarrow> entry_of n dk' = Some (new_file now bytes)"
proof -
  obtain r1 d1 where c1: "reject_symlink fa n dk = (r1, d1)" by (metis surj_pair)
  obtain r2 d2 where c2: "reject_symlink fa (temp_name n) d1 = (r2, d2)" by (metis surj_pair)
  obtain r3 d3 where w: "write_and_rename fa now n bytes d2 = (r3, d3)" by (metis surj_pair)
  have same: "dk_files d1 = dk_files dk" "dk_files d2 = dk_files dk"
    using reject_symlink_files [of fa n dk] reject_symlink_files [of fa "temp_name n" d1] c1 c2 by auto
  note target = write_and_rename_target [OF assms(1) w, unfolded same]
  have gone: "entry_of n (snd (sys_call fa (remove_entry (temp_name n)) d3)) = entry_of n d3"
    using removal.keeps [of n "temp_name n" fa d3] assms(1) by simp
  show "entry_of n dk' \<in> {entry_of n dk, Some (new_file now bytes)}"
    "r = Inr u \<Longrightarrow> entry_of n dk' = Some (new_file now bytes)"
    using assms(2) target gone same
    by (auto simp: atomic_write_def then_disk_def c1 c2 w split: sum.splits)
qed

section \<open>Publications\<close>

text \<open>The steps of a publication before the marker leave the marker alone.\<close>

interpretation history_write: disk_frame "atomic_write fa now n bytes" "- {n, temp_name n}"
  for fa now n bytes
  by unfold_locales (simp add: atomic_keeps)

lemma names_not_latest:
  "latest_name \<in> - {snapshot_name s, temp_name (snapshot_name s)}"
  "latest_name \<in> - {events_name s, temp_name (events_name s)}"
  "latest_name \<in> - {report_name, temp_name report_name}"
  using latest_distinct temp_name_fresh by (metis ComplI insertE singletonD)+

text \<open>What a chain of steps leaves of an entry, and what it does when all of them succeed.\<close>

definition settles :: "string \<Rightarrow> stored_file \<Rightarrow> (disk \<Rightarrow> (error + 'a) \<times> disk) \<Rightarrow> bool" where
  "settles n f act \<longleftrightarrow> (\<forall>dk. entry_of n (snd (act dk)) \<in> {entry_of n dk, Some f} \<and>
     (\<not> isl (fst (act dk)) \<longrightarrow> entry_of n (snd (act dk)) = Some f))"

lemma then_disk_cases:
  obtains e where "fst (a dk) = Inl e" "then_disk (a dk) g = (Inl e, snd (a dk))"
  | v where "fst (a dk) = Inr v" "then_disk (a dk) g = g v (snd (a dk))"
  by (cases "a dk"; cases "fst (a dk)") (auto simp: then_disk_def)

lemma settles_after:
  assumes a: "\<And>dk. entry_of n (snd (a dk)) = entry_of n dk" and g: "\<And>v. settles n f (g v)"
  shows "settles n f (\<lambda>dk. then_disk (a dk) g)"
  unfolding settles_def
proof
  fix dk
  show "entry_of n (snd (then_disk (a dk) g)) \<in> {entry_of n dk, Some f} \<and>
    (\<not> isl (fst (then_disk (a dk) g)) \<longrightarrow> entry_of n (snd (then_disk (a dk) g)) = Some f)"
  proof (cases rule: then_disk_cases [of a dk g])
    case (2 v)
    then show ?thesis using g [of v, unfolded settles_def, rule_format, of "snd (a dk)"] a [of dk] by simp
  qed (simp add: a)
qed

lemma settles_before:
  assumes a: "settles n f a" and g: "\<And>v dk. entry_of n (snd (g v dk)) = entry_of n dk"
  shows "settles n f (\<lambda>dk. then_disk (a dk) g)"
  unfolding settles_def
proof
  fix dk
  note now = a [unfolded settles_def, rule_format, of dk]
  show "entry_of n (snd (then_disk (a dk) g)) \<in> {entry_of n dk, Some f} \<and>
    (\<not> isl (fst (then_disk (a dk) g)) \<longrightarrow> entry_of n (snd (then_disk (a dk) g)) = Some f)"
    by (cases rule: then_disk_cases [of a dk g]) (use now in \<open>auto simp: g\<close>)
qed

lemma settles_atomic:
  assumes "n \<noteq> temp_name n"
  shows "settles n (new_file now bytes) (atomic_write fa now n bytes)"
  unfolding settles_def
proof
  fix dk
  note target = atomic_target [OF assms prod.collapse [symmetric], of fa now bytes dk]
  then show "entry_of n (snd (atomic_write fa now n bytes dk)) \<in> {entry_of n dk, Some (new_file now bytes)} \<and>
    (\<not> isl (fst (atomic_write fa now n bytes dk)) \<longrightarrow>
      entry_of n (snd (atomic_write fa now n bytes dk)) = Some (new_file now bytes))"
    by (cases "fst (atomic_write fa now n bytes dk)") auto
qed

lemma write_all_marker:
  assumes "\<not> s_history_bytes s < reserve_bytes encoded (cd_markdown cd sn) events"
  shows "settles latest_name (new_file (sn_captured_at sn) encoded) (write_all fa cd sn s encoded events)"
proof -
  let ?now = "sn_captured_at sn" and ?stamp = "cd_stamp cd (sn_captured_at sn)"
    and ?s = "s\<lparr>s_history_bytes := s_history_bytes s - reserve_bytes encoded (cd_markdown cd sn) events\<rparr>"
  note others = history_write.keeps [OF names_not_latest(1)] history_write.keeps [OF names_not_latest(2)]
    history_write.keeps [OF names_not_latest(3)]
  have "latest_name \<noteq> temp_name latest_name" using temp_name_fresh(1) by metis
  note marker = settles_before [OF settles_atomic [OF this, of ?now encoded fa] retain_keeps [OF owned_latest]]
  have "settles latest_name (new_file ?now encoded) (\<lambda>dk.
      then_disk (retain fa cd ?s ?now dk) (\<lambda>_ dk.
      then_disk (atomic_write fa ?now (snapshot_name ?stamp) encoded dk) (\<lambda>_ dk.
      then_disk (if events = [] then (Inr (), dk) else atomic_write fa ?now (events_name ?stamp) events dk) (\<lambda>_ dk.
      then_disk (atomic_write fa ?now report_name (cd_markdown cd sn) dk) (\<lambda>_ dk.
      then_disk (atomic_write fa ?now latest_name encoded dk) (\<lambda>_.
        retain fa cd s ?now))))))"
    by (rule settles_after [OF retain_keeps [OF owned_latest]],
        rule settles_after [OF others(1)], rule settles_after, simp add: others(2),
        rule settles_after [OF others(3)], rule marker)
  then show ?thesis using assms by (simp add: write_all_def Let_def settles_def)
qed

lemma publish_marker:
  obtains (refused) "isl (fst (publish fa cd sn ts s dk))" "snd (publish fa cd sn ts s dk) = dk"
  | (written) encoded where "cd_snapshot cd sn = Some encoded" "length encoded \<le> s_memory_bytes s div 2"
      "entry_of latest_name (snd (publish fa cd sn ts s dk)) \<in>
         {entry_of latest_name dk, Some (new_file (sn_captured_at sn) encoded)}"
      "\<not> isl (fst (publish fa cd sn ts s dk)) \<Longrightarrow>
         entry_of latest_name (snd (publish fa cd sn ts s dk)) = Some (new_file (sn_captured_at sn) encoded)"
proof (cases "\<exists>encoded events. cd_snapshot cd sn = Some encoded \<and> encode_events cd ts = Inr events \<and>
    length encoded \<le> s_memory_bytes s div 2 \<and> length encoded \<le> s_history_bytes s \<and>
    \<not> s_history_bytes s < reserve_bytes encoded (cd_markdown cd sn) events")
  case True
  then obtain encoded events where run: "cd_snapshot cd sn = Some encoded" "length encoded \<le> s_memory_bytes s div 2"
    "publish fa cd sn ts s dk = write_all fa cd sn s encoded events dk"
    "\<not> s_history_bytes s < reserve_bytes encoded (cd_markdown cd sn) events"
    by (auto simp: publish_def)
  then show ?thesis
    using written [OF run(1,2)] write_all_marker [OF run(4), unfolded settles_def, rule_format, of fa dk] by simp
next
  case False
  then show ?thesis
    by (intro refused) (auto simp: publish_def write_all_def Let_def not_le split: option.split sum.split)
qed

text \<open>What the codec is relied on for: a snapshot that was encoded is parsed back.\<close>

definition codec_ok :: "codec \<Rightarrow> bool" where
  "codec_ok cd \<longleftrightarrow> (\<forall>sn b. cd_snapshot cd sn = Some b \<longrightarrow> cd_parse cd b = Some sn)"

lemma read_new_file:
  assumes "codec_ok cd" and "cd_snapshot cd sn = Some encoded" and "length encoded \<le> limit"
    and "sn_version sn = 1" and "entry_of latest_name dk = Some (new_file now encoded)"
  shows "latest_snapshot cd limit (dk_files dk) = Inr (Some sn)"
  using assms by (simp add: latest_snapshot_def read_snapshot_def new_file_def codec_ok_def is_some_and_def)

lemma latest_same_marker:
  assumes "read_snapshot cd (dk_files dk) limit latest_name = Inr sn"
    and "entry_of latest_name dk' = entry_of latest_name dk"
  shows "latest_snapshot cd limit (dk_files dk') = Inr (Some sn)"
  using assms by (auto simp: latest_snapshot_def read_snapshot_def is_some_and_def split: option.splits if_splits)

section \<open>What retention keeps\<close>

fun kept :: "settings \<Rightarrow> instant \<Rightarrow> u64 \<Rightarrow> usize \<Rightarrow> history_file list \<Rightarrow> history_file list" where
  "kept s now bytes c [] = []"
| "kept s now bytes c (hf # rest) =
     (if surplus s now bytes c hf
      then kept s now (bytes - hf_size hf) (if hf_snapshot hf then c - 1 else c) rest
      else hf # kept s now bytes c rest)"

definition sizes :: "history_file list \<Rightarrow> nat" where
  "sizes fs = sum_list (map hf_size fs)"

definition snapshots :: "history_file list \<Rightarrow> nat" where
  "snapshots fs = length (filter hf_snapshot fs)"

lemma kept_subset: "set (kept s now bytes c fs) \<subseteq> set fs"
  by (induction s now bytes c fs rule: kept.induct) auto

lemma kept_le:
  "sizes (kept s now bytes c fs) \<le> sizes fs \<and> snapshots (kept s now bytes c fs) \<le> snapshots fs"
  by (induction s now bytes c fs rule: kept.induct) (auto simp: sizes_def snapshots_def)

text \<open>With exact totals, whatever is kept fits: the oldest goes first until the rest does.\<close>

lemma kept_fits:
  "sizes fs + b0 = bytes \<Longrightarrow> snapshots fs + c0 = c \<Longrightarrow>
   kept s now bytes c fs = [] \<or>
     (sizes (kept s now bytes c fs) + b0 \<le> s_history_bytes s \<and>
      snapshots (kept s now bytes c fs) + c0 \<le> s_history_count s)"
proof (induction s now bytes c fs rule: kept.induct)
  case (2 s now bytes c hf rest)
  show ?case
  proof (cases "surplus s now bytes c hf")
    case True
    have "sizes rest + b0 = bytes - hf_size hf"
      "snapshots rest + c0 = (if hf_snapshot hf then c - 1 else c)"
      using 2(3,4) by (auto simp: sizes_def snapshots_def)
    from 2(1) [OF True this] show ?thesis using True by simp
  next
    case False
    have "bytes \<le> s_history_bytes s" "c \<le> s_history_count s"
      using False by (auto simp: surplus_def)
    then show ?thesis using False 2(3,4) kept_le [of s now bytes c rest]
      by (auto simp: sizes_def snapshots_def)
  qed
qed simp

text \<open>A pruning that succeeds removes exactly the files that are not kept.\<close>

lemma prune_removes:
  assumes "prune fa s now bytes c fs dk = (Inr u, dk')" and "distinct (map hf_name fs)"
  shows "dk_files dk' = filter (\<lambda>(n, _). n \<notin> hf_name ` (set fs - set (kept s now bytes c fs))) (dk_files dk)"
  using assms
proof (induction fs arbitrary: bytes c dk)
  case (Cons hf fs)
  have new: "hf \<notin> set (kept s now b c' fs)" for b c'
    using Cons.prems(2) kept_subset [of s now b c' fs] by auto
  show ?case
  proof (cases "surplus s now bytes c hf")
    case True
    then obtain dk1 where
      rm: "sys_call fa (remove_entry (hf_name hf)) dk = (Inr (), dk1)"
      and rest: "prune fa s now (bytes - hf_size hf) (if hf_snapshot hf then c - 1 else c) fs dk1 = (Inr u, dk')"
      using Cons.prems(1) by (auto simp: then_disk_Inr)
    have "dk_files dk1 = filter (\<lambda>(n, _). n \<noteq> hf_name hf) (dk_files dk)"
      using rm by (auto simp: sys_call_def remove_entry_def split: if_splits)
    moreover have "hf_name ` (set (hf # fs) - set (kept s now bytes c (hf # fs))) =
        insert (hf_name hf) (hf_name ` (set fs - set (kept s now (bytes - hf_size hf)
          (if hf_snapshot hf then c - 1 else c) fs)))"
      using True new by auto
    ultimately show ?thesis
      using Cons.IH [OF rest] Cons.prems(2) by (simp add: filter_filter case_prod_unfold conj_commute)
  next
    case False
    have "set (hf # fs) - set (kept s now bytes c (hf # fs)) = set fs - set (kept s now bytes c fs)"
      using False Cons.prems(2) by auto
    then show ?thesis using Cons.IH [of bytes c dk] Cons.prems False by simp
  qed
qed simp

lemma history_files_names: "hf \<in> set (history_files cd d) \<Longrightarrow> hf_name hf \<in> fst ` set d"
  by (force simp: history_files_def map_filter_def history_entry_def split: option.splits file_kind.splits)

lemma history_files_distinct: "distinct (map fst d) \<Longrightarrow> distinct (map hf_name (history_files cd d))"
proof (induction d)
  case (Cons nf d)
  then show ?case using history_files_names [of _ cd d]
    by (fastforce simp: history_files_def map_filter_simps history_entry_def
        split: option.splits file_kind.splits)
qed (simp add: history_files_def map_filter_def)

lemma history_files_filter:
  "history_files cd (filter (\<lambda>(n, _). p n) d) = filter (\<lambda>hf. p (hf_name hf)) (history_files cd d)"
proof (induction d)
  case (Cons nf d)
  then show ?case
    by (cases nf) (auto simp: history_files_def map_filter_simps history_entry_def split: option.splits file_kind.splits)
qed (simp add: history_files_def map_filter_def)

lemma kept_mset:
  assumes "distinct (map hf_name fs)"
  shows "mset (filter (\<lambda>hf. hf_name hf \<notin> hf_name ` (set fs - set (kept s now bytes c fs))) fs) =
     mset (kept s now bytes c fs)"
proof -
  have inj: "inj_on hf_name (set fs)" using assms by (simp add: distinct_map)
  have d: "distinct fs" using assms by (simp add: distinct_map)
  have "distinct (kept s now bytes c fs)"
    using d
  proof (induction s now bytes c fs rule: kept.induct)
    case (2 s now bytes c hf rest)
    then show ?case using kept_subset [of s now bytes c rest] by auto
  qed simp
  moreover have "set (filter (\<lambda>hf. hf_name hf \<notin> hf_name ` (set fs - set (kept s now bytes c fs))) fs) =
      set (kept s now bytes c fs)"
    using inj kept_subset [of s now bytes c fs] by (auto simp: inj_on_def)
  ultimately show ?thesis using d
    by (intro set_eq_iff_mset_eq_distinct [THEN iffD1]) simp_all
qed

lemma mset_sums: "mset fs = mset gs \<Longrightarrow> sizes fs = sizes gs \<and> snapshots fs = snapshots gs"
proof -
  assume same: "mset fs = mset gs"
  then have "mset (map hf_size fs) = mset (map hf_size gs)" "mset (filter hf_snapshot fs) = mset (filter hf_snapshot gs)"
    by simp_all
  then show ?thesis unfolding sizes_def snapshots_def
    by (metis sum_mset_sum_list mset_eq_length)
qed

lemma retained_bytes:
  "b + sizes fs \<le> u64_max \<Longrightarrow> fold (\<lambda>hf b. sat_add64 b (hf_size hf)) fs b = b + sizes fs"
proof (induction fs arbitrary: b)
  case (Cons hf fs)
  then show ?case using Cons.IH [of "b + hf_size hf"] by (simp add: sizes_def sat_add64_exact add.assoc)
qed (simp add: sizes_def)

lemma retain_files:
  assumes "retain fa cd s now dk = (Inr u, dk')" and "distinct (map fst (dk_files dk))"
    and "service_bytes (dk_files dk) + sizes (history_files cd (dk_files dk)) \<le> u64_max"
  defines "files \<equiv> history_files cd (dk_files dk)"
  shows "mset (history_files cd (dk_files dk')) =
     mset (kept s now (service_bytes (dk_files dk) + sizes files) (snapshots files) (sort_key hf_stamp files))"
proof -
  let ?sorted = "sort_key hf_stamp files"
    and ?c = "length (filter hf_snapshot files)" and ?b = "service_bytes (dk_files dk) + sizes files"
  define dk1 where "dk1 = dk\<lparr>dk_calls := Suc (dk_calls dk)\<rparr>"
  have same: "dk_files dk1 = dk_files dk" by (simp add: dk1_def)
  have run: "prune fa s now ?b ?c ?sorted dk1 = (Inr u, dk')"
    using assms(1) retained_bytes [OF assms(3)]
    by (cases dk) (auto simp: retain_def then_disk_Inr sys_call_def Let_def files_def dk1_def split: if_splits)
  have d: "distinct (map hf_name files)" unfolding files_def by (rule history_files_distinct [OF assms(2)])
  then have d': "distinct (map hf_name ?sorted)"
    by (metis mset_sort mset_map mset_eq_imp_distinct_iff)
  have "history_files cd (dk_files dk') =
      filter (\<lambda>hf. hf_name hf \<notin> hf_name ` (set ?sorted - set (kept s now ?b ?c ?sorted))) files"
    using prune_removes [OF run d'] by (simp add: same history_files_filter files_def)
  then have "mset (history_files cd (dk_files dk')) =
      mset (filter (\<lambda>hf. hf_name hf \<notin> hf_name ` (set ?sorted - set (kept s now ?b ?c ?sorted))) ?sorted)"
    by (simp del: set_sort)
  then show ?thesis using kept_mset [OF d'] by (simp add: snapshots_def del: set_sort)
qed

section \<open>Sample directories\<close>

definition later_snapshot :: snapshot where
  "later_snapshot = sample_snapshot\<lparr>sn_revision := ''r2''\<rparr>"

definition sample_stamp :: string where
  "sample_stamp = ''20240101T000000.000000000Z''"

definition sample_codec :: codec where
  "sample_codec = \<lparr>cd_snapshot = (\<lambda>sn. if sn = sample_snapshot then Some ''A''
       else if sn = later_snapshot then Some ''B'' else None),
     cd_transition = (\<lambda>_. Some ''{}''),
     cd_parse = (\<lambda>b. if b = ''A'' then Some sample_snapshot else if b = ''B'' then Some later_snapshot else None),
     cd_markdown = (\<lambda>_. ''report''), cd_stamp = (\<lambda>_. sample_stamp), cd_is_stamp = (\<lambda>s. s = sample_stamp)\<rparr>"

lemma later_snapshot_simps [simp]: "sn_version later_snapshot = 1" "later_snapshot \<noteq> sample_snapshot"
  "sn_captured_at later_snapshot = 0" "sn_version sample_snapshot = 1" "sn_captured_at sample_snapshot = 0"
proof -
  have "sn_revision later_snapshot \<noteq> sn_revision sample_snapshot"
    by (simp add: later_snapshot_def sample_snapshot_def)
  then show "later_snapshot \<noteq> sample_snapshot" by metis
qed (simp_all add: later_snapshot_def sample_snapshot_def)

lemma sample_codec_simps [simp]:
  "cd_snapshot sample_codec sample_snapshot = Some ''A''" "cd_snapshot sample_codec later_snapshot = Some ''B''"
  "cd_parse sample_codec ''A'' = Some sample_snapshot" "cd_parse sample_codec ''B'' = Some later_snapshot"
  "cd_markdown sample_codec sn = ''report''" "cd_stamp sample_codec t = sample_stamp"
  "cd_is_stamp sample_codec s = (s = sample_stamp)" "codec_ok sample_codec"
  using later_snapshot_simps(2) by (auto simp: sample_codec_def codec_ok_def)

text \<open>A directory that holds the first snapshot, a disk without faults and one that crashes at
  call \<open>n\<close>.\<close>

definition sample_disk :: disk where
  "sample_disk = \<lparr>dk_files = [(latest_name, new_file 0 ''A'')], dk_calls = 0\<rparr>"

definition no_faults :: faults where
  "no_faults = \<lparr>fa_fails = (\<lambda>_. False), fa_written = (\<lambda>_. 0)\<rparr>"

definition crash_at :: "nat \<Rightarrow> faults" where
  "crash_at n = \<lparr>fa_fails = (\<lambda>k. n \<le> k), fa_written = (\<lambda>_. 0)\<rparr>"

lemma sample_disk_read: "read_snapshot sample_codec (dk_files sample_disk) 134217728 latest_name = Inr sample_snapshot"
  by (simp add: sample_disk_def read_snapshot_def new_file_def)

section \<open>Publication without faults\<close>

text \<open>A directory without symbolic links. On it nothing but a fault makes an atomic write fail.\<close>

definition plain :: "directory \<Rightarrow> bool" where
  "plain d \<longleftrightarrow> (\<forall>f \<in> ran (map_of d). fi_kind f \<noteq> Symlink)"

definition reliable :: "faults \<Rightarrow> bool" where
  "reliable fa \<longleftrightarrow> (\<forall>k. \<not> fa_fails fa k)"

lemma plain_put: "plain d \<Longrightarrow> fi_kind f \<noteq> Symlink \<Longrightarrow> plain (put_file n f d)"
  by (auto simp: plain_def map_of_put_file ran_def)

lemma plain_remove: "plain d \<Longrightarrow> plain (remove_entry n d)"
  by (auto simp: plain_def map_of_remove ran_def)

lemma plain_rename: "plain d \<Longrightarrow> plain (rename_entry a b d)"
  by (auto simp: rename_entry_def plain_def map_of_put_file map_of_remove ran_def split: option.split)

lemma length_put_file: "length (put_file n f d) \<le> Suc (length d)"
  by (induction n f d rule: put_file.induct) auto

lemma length_rename: "length (rename_entry a b d) \<le> length d"
proof (cases "map_of d a")
  case (Some f)
  then have "(a, f) \<in> set d" by (rule map_of_SomeD)
  then have "length (remove_entry a d) < length d"
    unfolding remove_entry_def by (intro length_filter_less) auto
  then show ?thesis using Some length_put_file [of b f "remove_entry a d"] by (simp add: rename_entry_def)
qed (simp add: rename_entry_def)

text \<open>A step that succeeds, keeps the directory free of links and adds at most \<open>k\<close> entries.\<close>

definition succeeds :: "nat \<Rightarrow> (disk \<Rightarrow> (error + unit) \<times> disk) \<Rightarrow> bool" where
  "succeeds k act \<longleftrightarrow> (\<forall>dk. plain (dk_files dk) \<longrightarrow> fst (act dk) = Inr () \<and>
     plain (dk_files (snd (act dk))) \<and> length (dk_files (snd (act dk))) \<le> length (dk_files dk) + k)"

lemma succeeds_then:
  assumes "fst (act dk) = Inr ()" and "fst (g () (snd (act dk))) = Inr ()"
  shows "fst (then_disk (act dk) g) = Inr ()"
  using assms by (cases rule: then_disk_cases [of act dk g]) auto

lemma atomic_write_succeeds:
  assumes "reliable fa"
  shows "succeeds 1 (atomic_write fa now n bytes)"
  unfolding succeeds_def
proof (intro allI impI)
  fix dk :: disk
  assume p: "plain (dk_files dk)"
  have links: "reject_symlink fa m dk' = (Inr (), dk'\<lparr>dk_calls := Suc (dk_calls dk')\<rparr>)"
    if "plain (dk_files dk')" for m and dk' :: disk
    using assms that by (auto simp: reject_symlink_def sys_call_def reliable_def plain_def ran_def split: option.split)
  let ?d = "rename_entry (temp_name n) n (put_file (temp_name n) (new_file now bytes) (dk_files dk))"
  have "atomic_write fa now n bytes dk = (Inr (), \<lparr>dk_files = ?d, dk_calls = dk_calls dk + 5\<rparr>)"
    using assms p
    by (simp add: atomic_write_def links then_disk_def write_and_rename_def write_file_def sys_call_def
        reliable_def new_file_def)
  moreover have "plain ?d" using p by (intro plain_rename plain_put) (simp_all add: new_file_def)
  moreover have "length ?d \<le> Suc (length (dk_files dk))"
    using length_rename length_put_file by (rule order_trans)
  ultimately show "fst (atomic_write fa now n bytes dk) = Inr () \<and>
      plain (dk_files (snd (atomic_write fa now n bytes dk))) \<and>
      length (dk_files (snd (atomic_write fa now n bytes dk))) \<le> length (dk_files dk) + 1" by simp
qed

lemma prune_succeeds:
  "reliable fa \<Longrightarrow> plain (dk_files dk) \<Longrightarrow>
   fst (prune fa s now b c fs dk) = Inr () \<and> plain (dk_files (snd (prune fa s now b c fs dk))) \<and>
   length (dk_files (snd (prune fa s now b c fs dk))) \<le> length (dk_files dk)"
proof (induction fa s now b c fs dk rule: prune.induct)
  case (2 fa s now b c hf rest dk)
  have shorter: "length (remove_entry (hf_name hf) (dk_files dk)) \<le> length (dk_files dk)"
    by (simp add: remove_entry_def)
  show ?case
  proof (cases "surplus s now b c hf")
    case True
    let ?dk = "\<lparr>dk_files = remove_entry (hf_name hf) (dk_files dk), dk_calls = Suc (dk_calls dk)\<rparr>"
    have "prune fa s now b c (hf # rest) dk =
        prune fa s now (b - hf_size hf) (if hf_snapshot hf then c - 1 else c) rest ?dk"
      using True 2(3) by (simp add: then_disk_def sys_call_def reliable_def)
    then show ?thesis using 2(1) [OF True 2(3), of ?dk] 2(4) shorter
      by (simp add: plain_remove)
  qed (use 2 in simp)
qed simp

lemma history_files_length: "length (history_files cd d) \<le> length d"
  by (induction d) (auto simp: history_files_def map_filter_simps split: option.split)

lemma retain_succeeds:
  assumes "reliable fa" and "plain (dk_files dk)" and "length (dk_files dk) \<le> 20002"
  shows "fst (retain fa cd s now dk) = Inr () \<and> plain (dk_files (snd (retain fa cd s now dk))) \<and>
     length (dk_files (snd (retain fa cd s now dk))) \<le> length (dk_files dk)"
proof -
  have listed: "\<not> 20002 < length (history_files cd (dk_files dk))"
    using history_files_length [of cd "dk_files dk"] assms(3) by simp
  have "sys_call fa (\<lambda>d. d) dk = (Inr (), \<lparr>dk_files = dk_files dk, dk_calls = Suc (dk_calls dk)\<rparr>)"
    using assms(1) by (simp add: sys_call_def reliable_def)
  then show ?thesis
    using prune_succeeds [OF assms(1), of "\<lparr>dk_files = dk_files dk, dk_calls = Suc (dk_calls dk)\<rparr>"] assms(2) listed
    by (simp add: retain_def then_disk_def Let_def)
qed

lemma write_all_succeeds:
  assumes "reliable fa" and "plain (dk_files dk)" and "length (dk_files dk) \<le> 19998"
    and "reserve_bytes encoded (cd_markdown cd sn) events \<le> s_history_bytes s"
  shows "fst (write_all fa cd sn s encoded events dk) = Inr ()"
proof -
  have stored: "fst (then_disk (atomic_write fa now n bytes dk) g) = Inr ()"
    if "plain (dk_files dk)" "length (dk_files dk) \<le> k"
      "\<And>dk. plain (dk_files dk) \<Longrightarrow> length (dk_files dk) \<le> Suc k \<Longrightarrow> fst (g () dk) = Inr ()"
    for now n bytes g k and dk :: disk
    using atomic_write_succeeds [OF assms(1), of now n bytes] that
    by (intro succeeds_then) (auto simp: succeeds_def)
  have prune: "fst (then_disk (retain fa cd s' now dk) g) = Inr ()"
    if "plain (dk_files dk)" "length (dk_files dk) \<le> k" "k \<le> 20002"
      "\<And>dk. plain (dk_files dk) \<Longrightarrow> length (dk_files dk) \<le> k \<Longrightarrow> fst (g () dk) = Inr ()"
    for s' now g k and dk :: disk
    using retain_succeeds [OF assms(1), of dk cd s' now] that by (intro succeeds_then) auto
  have skip: "fst (then_disk (Inr (), dk) g) = Inr ()" if "fst (g () dk) = Inr ()" for g and dk :: disk
    using that by (simp add: then_disk_def)
  have finish: "fst (retain fa cd s now dk) = Inr ()"
    if "plain (dk_files dk)" "length (dk_files dk) \<le> 20002" for now and dk :: disk
    using retain_succeeds [OF assms(1) that] by simp
  show ?thesis
    unfolding write_all_def Let_def using assms(4)
    by (simp only: not_less [symmetric] if_False if_cancel)
      (rule prune [OF assms(2,3)], simp, rule stored, assumption, assumption, cases "events = []",
       auto intro!: skip stored finish)
qed

lemma reliable_no_faults: "reliable no_faults"
  by (simp add: reliable_def no_faults_def)

lemma sample_disk_plain: "plain (dk_files sample_disk)"
  by (simp add: sample_disk_def plain_def ran_def new_file_def)

lemma sample_reserve: "reserve_bytes ''B'' (cd_markdown sample_codec later_snapshot) [] = 8"
  by (simp add: reserve_bytes_def sat_add64_def sat_mul64_def u64_max_def)

lemma sample_publish:
  "fst (publish no_faults sample_codec later_snapshot [] default_settings sample_disk) = Inr ()"
proof -
  have "reserve_bytes ''B'' (cd_markdown sample_codec later_snapshot) [] \<le> s_history_bytes default_settings"
    unfolding sample_reserve by (simp add: default_settings_def)
  from write_all_succeeds [OF reliable_no_faults sample_disk_plain _ this]
  show ?thesis by (simp add: publish_def default_settings_def sample_disk_def)
qed

section \<open>Properties\<close>





text \<open>C38: After a retention that succeeds, the history has at most \<open>history_count\<close> snapshots, and it
  is empty or fits \<open>history_bytes\<close> together with the service's other files.\<close>

theorem retention_bounds_history:
  assumes "retain fa cd s now dk = (Inr u, dk')" and "distinct (map fst (dk_files dk))"
    and "service_bytes (dk_files dk) + sizes (history_files cd (dk_files dk)) \<le> u64_max"
  shows "snapshots (history_files cd (dk_files dk')) \<le> s_history_count s \<and>
     (history_files cd (dk_files dk') = [] \<or>
      service_bytes (dk_files dk) + sizes (history_files cd (dk_files dk')) \<le> s_history_bytes s)"
proof -
  let ?files = "history_files cd (dk_files dk)"
  let ?kept = "kept s now (service_bytes (dk_files dk) + sizes ?files) (snapshots ?files) (sort_key hf_stamp ?files)"
  have same: "mset (history_files cd (dk_files dk')) = mset ?kept"
    by (rule retain_files [OF assms])
  have "sizes (sort_key hf_stamp ?files) = sizes ?files" "snapshots (sort_key hf_stamp ?files) = snapshots ?files"
    using mset_sums [of "sort_key hf_stamp ?files" ?files] by simp_all
  then have "?kept = [] \<or> (sizes ?kept + service_bytes (dk_files dk) \<le> s_history_bytes s \<and>
      snapshots ?kept \<le> s_history_count s)"
    using kept_fits [of "sort_key hf_stamp ?files" "service_bytes (dk_files dk)"
        "service_bytes (dk_files dk) + sizes ?files" 0 "snapshots ?files" s now] by simp
  then show ?thesis
    using mset_sums [OF same] same by (auto simp: snapshots_def)
qed

text \<open>A directory with one old snapshot and settings that keep none.\<close>

definition old_disk :: disk where
  "old_disk = \<lparr>dk_files = [(snapshot_name sample_stamp, new_file 0 ''A'')], dk_calls = 0\<rparr>"

definition keep_none :: settings where
  "keep_none = default_settings\<lparr>s_history_count := 0\<rparr>"

lemma old_disk_simps:
  "distinct (map fst (dk_files old_disk))" "plain (dk_files old_disk)" "length (dk_files old_disk) \<le> 20002"
  "service_bytes (dk_files old_disk) + sizes (history_files sample_codec (dk_files old_disk)) \<le> u64_max"
proof -
  have "snapshot_name sample_stamp \<noteq> latest_name" "snapshot_name sample_stamp \<noteq> report_name"
    "snapshot_name sample_stamp \<noteq> lock_name"
    by (simp_all add: snapshot_name_def latest_name_def report_name_def lock_name_def)
  then show "service_bytes (dk_files old_disk) + sizes (history_files sample_codec (dk_files old_disk)) \<le> u64_max"
    by (simp add: old_disk_def service_bytes_def map_filter_simps history_files_def history_entry_def sizes_def
        new_file_def file_size_def u64_max_def split: option.split)
qed (simp_all add: old_disk_def plain_def ran_def new_file_def)

theorem retention_bounds_history_witness:
  "snapshots (history_files sample_codec (dk_files (snd (retain no_faults sample_codec keep_none 0 old_disk)))) = 0"
proof -
  have "fst (retain no_faults sample_codec keep_none 0 old_disk) = Inr ()"
    using retain_succeeds [OF reliable_no_faults old_disk_simps(2,3)] by simp
  then have "retain no_faults sample_codec keep_none 0 old_disk =
      (Inr (), snd (retain no_faults sample_codec keep_none 0 old_disk))"
    by (simp add: prod_eq_iff)
  from retention_bounds_history [OF this old_disk_simps(1,4)] show ?thesis
    by (auto simp: keep_none_def snapshots_def)
qed

text \<open>On a directory without symbolic links that is not crowded, a publication without
  faults succeeds when the encoded files fit the configured budgets.\<close>

theorem publication_succeeds:
  assumes "reliable fa" and "plain (dk_files dk)" and "length (dk_files dk) \<le> 19998"
    and "cd_snapshot cd sn = Some encoded" and "encode_events cd ts = Inr events"
    and "length encoded \<le> s_memory_bytes s div 2"
    and "reserve_bytes encoded (cd_markdown cd sn) events \<le> s_history_bytes s"
    and "s_history_bytes s < u64_max"
  shows "fst (publish fa cd sn ts s dk) = Inr ()"
proof -
  have "length encoded \<le> s_history_bytes s"
    using assms(7,8) by (auto simp: reserve_bytes_def sat_add64_def sat_mul64_def min_def split: if_splits)
  then show ?thesis
    using write_all_succeeds [OF assms(1-3,7)] assms(4-6) by (simp add: publish_def)
qed

theorem publication_succeeds_witness:
  "fst (publish no_faults sample_codec later_snapshot [] default_settings sample_disk) = Inr ()"
  by (rule publication_succeeds [OF reliable_no_faults sample_disk_plain, where encoded = "''B''" and events = "[]"])
    (simp_all add: sample_disk_def default_settings_def reserve_bytes_def sat_add64_def sat_mul64_def u64_max_def)

end
