(* ===== verification/Query_Types.thy ===== *)
theory Query_Types
  imports BTree
begin

text \<open>
  The vocabulary of \<open>crates/query\<close>: \<open>enums.rs\<close>, \<open>record.rs\<close>, \<open>response.rs\<close> and the data of
  \<open>filter.rs\<close>. The crate has its own enumerations, independent of the collectors; their
  constructors carry a \<open>Q\<close> here. A struct-like variant is a constructor with a record.
\<close>

section \<open>Enumerations\<close>

datatype q_provider = QGcp | QAws | QAzure | QKubernetes | QGithub | QEdge | QNats | QUnknownProvider

datatype q_expected = QActive | QDormant | QScaleToZero | QSuspended

datatype q_confidence = QDirect | QCorrelated | QInsufficient

datatype q_coverage =
  QComplete | QDenied | QUnauthenticated | QUnavailable | QUnsupported | QMissing | QTruncated | QTimeout
  | QCancelled | QMalformed | QStale | QInventoryOnly

datatype q_log_class =
  QImport | QPanic | QOutOfMemory | QConnection | QPermission | QLogTimeout | QLogWarning | QOtherError

datatype q_check =
  QCPreflight | QCDiscovery | QCInventory | QCKubernetes | QCEdge | QCManaged | QCQueues | QCReleases
  | QCGithub | QCMetrics | QCLogs | QCAlerts | QCSlo | QCFlows

datatype q_severity = QInfo | QWarning | QError

datatype q_category = QFinding | QDiagnostic | QCheck | QRelease

datatype q_state = QStillActive | QRecovered | QRemoved

datatype outcome = Passing | Failing | Pending | Incomplete

instantiation q_severity :: linorder
begin

fun q_rank :: "q_severity \<Rightarrow> nat" where
  "q_rank QInfo = 0"
| "q_rank QWarning = 1"
| "q_rank QError = 2"

definition less_eq_q_severity :: "q_severity \<Rightarrow> q_severity \<Rightarrow> bool" where
  "less_eq_q_severity a b \<longleftrightarrow> q_rank a \<le> q_rank b"

definition less_q_severity :: "q_severity \<Rightarrow> q_severity \<Rightarrow> bool" where
  "less_q_severity a b \<longleftrightarrow> q_rank a < q_rank b"

instance
proof
  fix a b :: q_severity
  show "a \<le> b \<Longrightarrow> b \<le> a \<Longrightarrow> a = b"
    by (cases a; cases b) (simp_all add: less_eq_q_severity_def)
qed (auto simp: less_eq_q_severity_def less_q_severity_def)

end

section \<open>Records\<close>

record q_scope =
  qs_target :: string
  qs_provider :: q_provider
  qs_scope :: string

record q_location =
  ql_native_id :: "string option"
  ql_region :: "string option"
  ql_zone :: "string option"
  ql_cluster :: "string option"
  ql_namespace :: "string option"
  ql_service :: "string option"
  ql_hostname :: "string option"
  ql_uid :: "string option"
  ql_container :: "string option"

record q_fact =
  qa_label :: string
  qa_value :: string

record q_link =
  qi_label :: string
  qi_url :: string

record q_operation =
  qo_name :: string
  qo_coverage :: q_coverage
  qo_required :: bool
  qo_observed_at :: instant

record finding_details =
  fd_rule :: string
  fd_severity :: q_severity
  fd_state :: q_state
  fd_first_detected_at :: "instant option"
  fd_expected :: q_expected
  fd_confidence :: q_confidence
  fd_facts :: "q_fact list"
  fd_links :: "q_link list"
  fd_legacy :: bool

record log_details =
  gd_signature :: q_log_class
  gd_count :: u64
  gd_first_seen :: instant
  gd_last_seen :: instant
  gd_window_start :: instant
  gd_window_end :: instant
  gd_sampled :: bool
  gd_scanned :: u64
  gd_duplicates :: u64
  gd_complete :: bool
  gd_gap_seconds :: u64
  gd_links :: "q_link list"

record check_details =
  kd_required :: bool
  kd_started_at :: instant
  kd_finished_at :: instant
  kd_oldest_observation_at :: "instant option"
  kd_complete :: bool
  kd_observations :: u64
  kd_interval_seconds :: u64
  kd_required_failures :: u64
  kd_pending_observations :: u64
  kd_operations :: "q_operation list"
  kd_operations_truncated :: bool

record release_details =
  rd_revision :: "string option"
  rd_observed_digests :: "string list"
  rd_desired_digest :: "string option"
  rd_pending :: bool
  rd_verified :: bool
  rd_facts :: "q_fact list"
  rd_links :: "q_link list"

datatype details =
    DFinding finding_details
  | DDiagnostic log_details
  | DCheck check_details
  | DRelease release_details

record q_record =
  qr_id :: string
  qr_identity :: string
  qr_scope :: q_scope
  qr_location :: q_location
  qr_check :: "q_check option"
  qr_resource :: "string option"
  qr_observed_at :: instant
  qr_last_observed_at :: instant
  qr_valid_until :: "instant option"
  qr_closed_at :: "instant option"
  qr_stale :: bool
  qr_details :: details

definition category :: "q_record \<Rightarrow> q_category" where
  "category r =
     (case qr_details r of
        DFinding _ \<Rightarrow> QFinding | DDiagnostic _ \<Rightarrow> QDiagnostic | DCheck _ \<Rightarrow> QCheck | DRelease _ \<Rightarrow> QRelease)"

definition record_severity :: "q_record \<Rightarrow> q_severity option" where
  "record_severity r = (case qr_details r of DFinding d \<Rightarrow> Some (fd_severity d) | _ \<Rightarrow> None)"

definition record_state :: "q_record \<Rightarrow> q_state option" where
  "record_state r = (case qr_details r of DFinding d \<Rightarrow> Some (fd_state d) | _ \<Rightarrow> None)"

section \<open>Filters and answers\<close>

datatype query_error = FilterError | CursorError | RecordError

record query_filter =
  qf_target :: "string option"
  qf_provider :: "q_provider option"
  qf_scope :: "string option"
  qf_project :: "string option"
  qf_account :: "string option"
  qf_subscription :: "string option"
  qf_region :: "string option"
  qf_cluster :: "string option"
  qf_namespace :: "string option"
  qf_service :: "string option"
  qf_check :: "q_check option"
  qf_resource :: "string option"
  qf_hostname :: "string option"
  qf_severity :: "q_severity option"
  qf_state :: "q_state option"
  qf_q :: "string option"
  qf_from :: "instant option"
  qf_to :: "instant option"
  qf_lookback_seconds :: "u32 option"
  qf_cursor :: "string option"
  qf_limit :: "u16 option"

record window =
  w_from :: instant
  w_to :: instant

record availability =
  av_requested :: window
  av_available_since :: "instant option"
  av_persisted_through :: "instant option"
  av_history_available :: bool
  av_complete :: bool
  av_gaps :: "string list"

record deployment =
  de_deployed_at :: instant
  de_window_seconds :: "u32 option"
  de_expected_revision :: "string option"
  de_expected_digest :: "string option"
  de_filter :: query_filter

record assessment =
  as_scope :: query_filter
  as_assessed_checks :: "string list"
  as_outcome :: outcome
  as_window :: window
  as_baseline :: window
  as_availability :: availability
  as_reasons :: "string list"
  as_outstanding_checks :: "string list"
  as_next_observation_at :: "instant option"
  as_new_findings :: "q_record list"
  as_worsened_findings :: "q_record list"
  as_pre_existing_findings :: "q_record list"
  as_recovered_findings :: "q_record list"
  as_unclassified_findings :: "q_record list"
  as_next_cursor :: "string option"
  as_error_count :: u64
  as_failed_check_count :: u64

definition any_filter :: query_filter where
  "any_filter = \<lparr>qf_target = None, qf_provider = None, qf_scope = None, qf_project = None, qf_account = None,
     qf_subscription = None, qf_region = None, qf_cluster = None, qf_namespace = None, qf_service = None,
     qf_check = None, qf_resource = None, qf_hostname = None, qf_severity = None, qf_state = None, qf_q = None,
     qf_from = None, qf_to = None, qf_lookback_seconds = None, qf_cursor = None, qf_limit = None\<rparr>"

definition any_location :: q_location where
  "any_location = \<lparr>ql_native_id = None, ql_region = None, ql_zone = None, ql_cluster = None, ql_namespace = None,
     ql_service = None, ql_hostname = None, ql_uid = None, ql_container = None\<rparr>"

end
