(* ===== verification/Query.thy ===== *)
theory Query
  imports Query_Types
begin

text \<open>
  \<open>crates/query\<close>: filters and their windows (\<open>filter.rs\<close>), the match of a record
  (\<open>matching.rs\<close>), the fold over release records (\<open>release_assessment.rs\<close>) and the verdict on a
  deployment (\<open>assessment.rs\<close>). \<open>rep\<close> says which instants chrono represents.
\<close>

section \<open>Filters\<close>

text \<open>One step of the alias loop of \<open>normalize\<close>.\<close>

definition take_alias :: "string option \<times> q_provider \<Rightarrow> query_filter \<Rightarrow> query_error + query_filter" where
  "take_alias a fl =
     (case a of
        (None, _) \<Rightarrow> Inr fl
      | (Some sc, p) \<Rightarrow>
          if is_some_and (\<lambda>old. old \<noteq> sc) (qf_scope fl) \<or> is_some_and (\<lambda>old. old \<noteq> p) (qf_provider fl)
          then Inl FilterError
          else Inr (fl\<lparr>qf_scope := Some sc, qf_provider := Some p\<rparr>))"

fun take_aliases :: "(string option \<times> q_provider) list \<Rightarrow> query_filter \<Rightarrow> query_error + query_filter" where
  "take_aliases [] fl = Inr fl"
| "take_aliases (a # as) fl = (case take_alias a fl of Inl e \<Rightarrow> Inl e | Inr fl \<Rightarrow> take_aliases as fl)"

definition bad_value :: "string \<Rightarrow> bool" where
  "bad_value v \<longleftrightarrow> v = [] \<or> 2048 < length v \<or> has_control v"

definition filter_values :: "query_filter \<Rightarrow> string option list" where
  "filter_values fl = [qf_target fl, qf_scope fl, qf_region fl, qf_cluster fl, qf_namespace fl, qf_service fl,
     qf_resource fl, qf_hostname fl, qf_q fl]"

definition trim_end_dots :: "string \<Rightarrow> string" where
  "trim_end_dots s = rev (dropWhile (\<lambda>c. c = CHR ''.'') (rev s))"

definition normal_host :: "string \<Rightarrow> string" where
  "normal_host h = map to_ascii_lowercase (trim_end_dots h)"

definition bad_host :: "string \<Rightarrow> bool" where
  "bad_host h \<longleftrightarrow> h = [] \<or> 253 < length h \<or>
     \<not> list_all (\<lambda>b. is_ascii_alphanumeric b \<or> b = CHR ''.'' \<or> b = CHR ''-'') h"

definition bad_page :: "query_filter \<Rightarrow> bool" where
  "bad_page fl \<longleftrightarrow> unwrap_or 50 (qf_limit fl) \<notin> {1..100} \<or> is_some_and (\<lambda>s. 128 < length s) (qf_q fl) \<or>
     is_some_and (\<lambda>s. 2048 < length s) (qf_cursor fl)"

definition normalize_filter :: "query_filter \<Rightarrow> query_error + query_filter" where
  "normalize_filter fl =
     (case take_aliases [(qf_project fl, QGcp), (qf_account fl, QAws), (qf_subscription fl, QAzure)]
             (fl\<lparr>qf_project := None, qf_account := None, qf_subscription := None\<rparr>) of
        Inl e \<Rightarrow> Inl e
      | Inr fl \<Rightarrow>
          if list_ex (is_some_and bad_value) (filter_values fl) then Inl FilterError
          else (let fl = fl\<lparr>qf_hostname := map_option normal_host (qf_hostname fl)\<rparr>
                in if is_some_and bad_host (qf_hostname fl) \<or> bad_page fl then Inl FilterError else Inr fl))"

definition seconds :: "nat \<Rightarrow> int" where
  "seconds n = int n * nanos_per_sec"

definition days31 :: int where
  "days31 = seconds (31 * 86400)"

definition filter_window :: "(instant \<Rightarrow> bool) \<Rightarrow> instant \<Rightarrow> query_filter \<Rightarrow> query_error + window" where
  "filter_window rep now fl =
     (if qf_lookback_seconds fl \<noteq> None \<and> (qf_from fl \<noteq> None \<or> qf_to fl \<noteq> None) then Inl FilterError
      else (let to = unwrap_or now (qf_to fl);
                from = (case qf_from fl of
                          Some from \<Rightarrow> Some from
                        | None \<Rightarrow> (let from = to - seconds (unwrap_or 3600 (qf_lookback_seconds fl))
                                  in if rep from then Some from else None))
            in case from of
                 None \<Rightarrow> Inl FilterError
               | Some from \<Rightarrow>
                   if \<not> rep (to - days31) then Inl FilterError
                   else if to \<le> from \<or> now + seconds 30 < to \<or> days31 < to - from then Inl FilterError
                   else Inr \<lparr>w_from = from, w_to = to\<rparr>))"

text \<open>What \<open>Deployment::window\<close> refuses.\<close>

definition bad_deployment :: "deployment \<Rightarrow> bool" where
  "bad_deployment d =
     (let fl = de_filter d
      in unwrap_or 300 (de_window_seconds d) \<notin> {60..86400} \<or> qf_severity fl \<noteq> None \<or> qf_state fl \<noteq> None \<or>
         qf_q fl \<noteq> None \<or> qf_from fl \<noteq> None \<or> qf_to fl \<noteq> None \<or> qf_lookback_seconds fl \<noteq> None \<or>
         qf_cursor fl \<noteq> None \<or>
         (qf_target fl = None \<and> qf_resource fl = None \<and> qf_scope fl = None \<and> qf_project fl = None \<and>
          qf_account fl = None \<and> qf_subscription fl = None))"

definition bad_expectation :: "string \<Rightarrow> bool" where
  "bad_expectation v \<longleftrightarrow> v = [] \<or> 512 < length v \<or> has_control v"

definition deployment_window :: "(instant \<Rightarrow> bool) \<Rightarrow> deployment \<Rightarrow> query_error + window" where
  "deployment_window rep d =
     (let duration = seconds (unwrap_or 300 (de_window_seconds d))
      in if bad_deployment d \<or>
            list_ex (is_some_and bad_expectation) [de_expected_revision d, de_expected_digest d] \<or>
            \<not> rep (de_deployed_at d - duration) \<or> \<not> rep (de_deployed_at d + duration)
         then Inl FilterError
         else Inr \<lparr>w_from = de_deployed_at d, w_to = de_deployed_at d + duration\<rparr>)"

section \<open>Matching\<close>

text \<open>\<open>str::to_lowercase\<close> of Unicode and the JSON of the details are parameters.\<close>

record query_text =
  qt_lower :: "string \<Rightarrow> string"
  qt_details :: "details \<Rightarrow> string option"

definition scope_matches :: "query_filter \<Rightarrow> q_scope \<Rightarrow> q_location \<Rightarrow> bool" where
  "scope_matches fl s l \<longleftrightarrow>
     is_none_or (\<lambda>v. v = qs_target s) (qf_target fl) \<and>
     is_none_or (\<lambda>v. v = qs_provider s) (qf_provider fl) \<and>
     is_none_or (\<lambda>v. v = qs_scope s) (qf_scope fl) \<and>
     is_none_or (\<lambda>v. Some v = ql_region l) (qf_region fl) \<and>
     is_none_or (\<lambda>v. Some v = ql_cluster l) (qf_cluster fl) \<and>
     is_none_or (\<lambda>v. Some v = ql_namespace l) (qf_namespace fl) \<and>
     is_none_or (\<lambda>v. Some v = ql_service l) (qf_service fl) \<and>
     is_none_or (\<lambda>v. Some v = ql_hostname l) (qf_hostname fl)"

definition text_matches :: "query_text \<Rightarrow> string \<Rightarrow> q_record \<Rightarrow> bool" where
  "text_matches qt q r =
     (let q = qt_lower qt q
      in str_contains (qt_lower qt (qr_identity r)) q \<or>
         is_some_and (\<lambda>s. str_contains (qt_lower qt s) q) (qt_details qt (qr_details r)))"

definition record_matches :: "query_text \<Rightarrow> query_filter \<Rightarrow> q_record \<Rightarrow> bool" where
  "record_matches qt fl r \<longleftrightarrow>
     scope_matches fl (qr_scope r) (qr_location r) \<and>
     is_none_or (\<lambda>v. Some v = qr_check r) (qf_check fl) \<and>
     is_none_or (\<lambda>v. Some v = qr_resource r) (qf_resource fl) \<and>
     is_none_or (\<lambda>v. Some v = record_severity r) (qf_severity fl) \<and>
     is_none_or (\<lambda>v. Some v = record_state r) (qf_state fl) \<and>
     is_none_or (\<lambda>q. text_matches qt q r) (qf_q fl)"

definition overlaps :: "q_record \<Rightarrow> window \<Rightarrow> bool" where
  "overlaps r w \<longleftrightarrow> qr_observed_at r < w_to w \<and>
     (w_from w \<le> qr_last_observed_at r \<or>
      (category r = QFinding \<and> is_none_or (\<lambda>t. w_from w \<le> t) (qr_closed_at r)))"

section \<open>Releases\<close>

record release_assessment =
  ra_fresh :: u64
  ra_mismatch :: bool
  ra_pending :: bool
  ra_missing_digest :: bool
  ra_unverified_revision :: bool

definition no_release :: release_assessment where
  "no_release = \<lparr>ra_fresh = 0, ra_mismatch = False, ra_pending = False, ra_missing_digest = False,
     ra_unverified_revision = False\<rparr>"

definition release_fresh :: "window \<Rightarrow> instant \<Rightarrow> q_record \<Rightarrow> bool" where
  "release_fresh w now r \<longleftrightarrow>
     \<not> (qr_last_observed_at r < w_from w \<or> w_to w \<le> qr_observed_at r \<or> qr_stale r \<or>
        is_none_or (\<lambda>t. t < min (w_to w) now) (qr_valid_until r))"

definition digest_wrong :: "deployment \<Rightarrow> release_details \<Rightarrow> bool" where
  "digest_wrong d rd \<longleftrightarrow>
     is_some_and (\<lambda>e. list_ex (\<lambda>x. x \<noteq> e) (rd_observed_digests rd)) (de_expected_digest d)"

definition revision_wrong :: "deployment \<Rightarrow> release_details \<Rightarrow> bool" where
  "revision_wrong d rd \<longleftrightarrow>
     is_some_and (\<lambda>e. rd_verified rd \<and> is_some_and (\<lambda>x. x \<noteq> e) (rd_revision rd)) (de_expected_revision d)"

definition observe_release ::
  "deployment \<Rightarrow> window \<Rightarrow> instant \<Rightarrow> q_record \<Rightarrow> release_assessment \<Rightarrow> release_assessment" where
  "observe_release d w now r ra =
     (if \<not> release_fresh w now r then ra
      else case qr_details r of
             DRelease rd \<Rightarrow>
               ra\<lparr>ra_fresh := sat_add64 (ra_fresh ra) 1,
                  ra_pending := ra_pending ra \<or> rd_pending rd,
                  ra_missing_digest := ra_missing_digest ra \<or>
                    (de_expected_digest d \<noteq> None \<and> rd_observed_digests rd = []),
                  ra_mismatch := ra_mismatch ra \<or> digest_wrong d rd \<or> revision_wrong d rd,
                  ra_unverified_revision := ra_unverified_revision ra \<or>
                    (de_expected_revision d \<noteq> None \<and> (\<not> rd_verified rd \<or> rd_revision rd = None))\<rparr>
           | _ \<Rightarrow> ra)"

definition release_reasons :: "release_assessment \<Rightarrow> string list" where
  "release_reasons ra = map snd (filter fst
     [(ra_fresh ra = 0, ''Expected release has not been observed after deployment''),
      (ra_pending ra, ''Release rollout is still pending''),
      (ra_missing_digest ra, ''Observed image digest is unavailable''),
      (ra_unverified_revision ra, ''Observed source revision is not verified'')])"

section \<open>Deployment verdicts\<close>

record evidence =
  ev_checks :: "q_record list"
  ev_required_checks :: "string list"
  ev_releases :: "q_record list"
  ev_release_assessment :: "release_assessment option"
  ev_findings :: "q_record list"
  ev_baseline :: "q_record list"
  ev_error_count :: u64
  ev_failed_checks :: u64
  ev_availability :: availability
  ev_next_cursor :: "string option"

text \<open>The worst severity each identity had before the deployment.\<close>

definition baseline_step :: "window \<Rightarrow> q_record \<Rightarrow> (string, q_severity) bmap \<Rightarrow> (string, q_severity) bmap" where
  "baseline_step w r m =
     (if is_some_and (\<lambda>t. t < w_from w) (qr_closed_at r) then m
      else case record_severity r of
             None \<Rightarrow> m
           | Some s \<Rightarrow>
               bm_put (qr_identity r)
                 (case bm_get m (qr_identity r) of None \<Rightarrow> s | Some old \<Rightarrow> max old s) m)"

definition baseline_severity :: "window \<Rightarrow> q_record list \<Rightarrow> (string, q_severity) bmap" where
  "baseline_severity w rs = fold (baseline_step w) rs []"

definition first_detected :: "q_record \<Rightarrow> instant option" where
  "first_detected r = (case qr_details r of DFinding d \<Rightarrow> fd_first_detected_at d | _ \<Rightarrow> None)"

definition recovered_within :: "window \<Rightarrow> q_record \<Rightarrow> bool" where
  "recovered_within w r \<longleftrightarrow> record_state r = Some QRecovered \<and>
     is_some_and (\<lambda>t. w_from w \<le> t \<and> t < w_to w) (qr_closed_at r)"

definition started_within :: "window \<Rightarrow> q_record \<Rightarrow> bool" where
  "started_within w r \<longleftrightarrow> is_some_and (\<lambda>t. w_from w \<le> t \<and> t < w_to w) (first_detected r)"

definition worsened_since :: "(string, q_severity) bmap \<Rightarrow> q_record \<Rightarrow> bool" where
  "worsened_since m r \<longleftrightarrow>
     is_some_and (\<lambda>s. is_some_and (\<lambda>v. s < v) (record_severity r)) (bm_get m (qr_identity r))"

definition existed_before :: "(string, q_severity) bmap \<Rightarrow> window \<Rightarrow> q_record \<Rightarrow> bool" where
  "existed_before m w r \<longleftrightarrow>
     bm_has m (qr_identity r) \<or> is_some_and (\<lambda>t. t < w_from w) (first_detected r)"

definition place_finding :: "(string, q_severity) bmap \<Rightarrow> window \<Rightarrow> q_record \<Rightarrow> assessment \<Rightarrow> assessment" where
  "place_finding m w r a =
     (let a = (if recovered_within w r
               then a\<lparr>as_recovered_findings := as_recovered_findings a @ [r]\<rparr> else a)
      in if started_within w r then a\<lparr>as_new_findings := as_new_findings a @ [r]\<rparr>
         else if worsened_since m r then a\<lparr>as_worsened_findings := as_worsened_findings a @ [r]\<rparr>
         else if existed_before m w r then a\<lparr>as_pre_existing_findings := as_pre_existing_findings a @ [r]\<rparr>
         else a\<lparr>as_unclassified_findings := as_unclassified_findings a @ [r]\<rparr>)"

text \<open>The newest check record of each identity inside the window.\<close>

definition newest_step :: "window \<Rightarrow> q_record \<Rightarrow> (string, q_record) bmap \<Rightarrow> (string, q_record) bmap" where
  "newest_step w r m =
     (if qr_observed_at r < w_to w \<and>
         is_none_or (\<lambda>old. qr_observed_at old < qr_observed_at r) (bm_get m (qr_identity r))
      then bm_put (qr_identity r) r m else m)"

definition newest_checks :: "window \<Rightarrow> q_record list \<Rightarrow> (string, q_record) bmap" where
  "newest_checks w rs = fold (newest_step w) rs []"

definition check_settled :: "window \<Rightarrow> instant \<Rightarrow> q_record \<Rightarrow> bool" where
  "check_settled w now r =
     (case qr_details r of
        DCheck k \<Rightarrow>
          kd_complete k \<and> \<not> kd_operations_truncated k \<and> kd_pending_observations k = 0 \<and>
          w_from w \<le> kd_started_at k \<and> w_from w \<le> kd_finished_at k \<and>
          is_none_or (\<lambda>t. w_from w \<le> t) (kd_oldest_observation_at k) \<and>
          is_some_and (\<lambda>t. min (w_to w) now \<le> t) (qr_valid_until r) \<and> \<not> qr_stale r
      | _ \<Rightarrow> False)"

definition outstanding :: "(string, q_record) bmap \<Rightarrow> window \<Rightarrow> instant \<Rightarrow> string list \<Rightarrow> string list" where
  "outstanding m w now required = filter (\<lambda>k. \<not> is_some_and (check_settled w now) (bm_get m k)) required"

definition next_step :: "(string, q_record) bmap \<Rightarrow> instant \<Rightarrow> string \<Rightarrow> instant option \<Rightarrow> instant option" where
  "next_step m now k old =
     (case bm_get m k of
        None \<Rightarrow> old
      | Some r \<Rightarrow>
          (case qr_details r of
             DCheck d \<Rightarrow>
               (let due = qr_last_observed_at r + as_i64 (kd_interval_seconds d) * nanos_per_sec
                in if now < due then Some (case old of None \<Rightarrow> due | Some t \<Rightarrow> min t due) else old)
           | _ \<Rightarrow> old))"

definition next_observation :: "(string, q_record) bmap \<Rightarrow> instant \<Rightarrow> string list \<Rightarrow> instant option" where
  "next_observation m now required = fold (next_step m now) required None"

text \<open>The status of the release, asked for only when a revision or a digest is expected.\<close>

definition release_status :: "deployment \<Rightarrow> window \<Rightarrow> instant \<Rightarrow> evidence \<Rightarrow> release_assessment option" where
  "release_status d w now ev =
     (if de_expected_revision d = None \<and> de_expected_digest d = None then None
      else Some (case ev_release_assessment ev of
                   Some ra \<Rightarrow> ra
                 | None \<Rightarrow> fold (observe_release d w now) (ev_releases ev) no_release))"

definition raw_reasons :: "evidence \<Rightarrow> string list \<Rightarrow> release_assessment option \<Rightarrow> string list" where
  "raw_reasons ev missing ra =
     (if ev_required_checks ev = [] then [''No configured checks match this deployment scope''] else []) @
     (if missing \<noteq> []
      then [''Required checks lack complete fresh post-deployment evidence or still have unevaluated observations'']
      else []) @
     (if 0 < ev_failed_checks ev then [''Collection failures occurred inside the deployment window''] else []) @
     (case ra of None \<Rightarrow> [] | Some ra \<Rightarrow> release_reasons ra) @
     (if 0 < ev_error_count ev then [''Error-level findings were observed in the deployment window''] else [])"

definition verdict :: "evidence \<Rightarrow> window \<Rightarrow> instant \<Rightarrow> bool \<Rightarrow> string list \<Rightarrow> outcome \<times> string list" where
  "verdict ev w now mismatch reasons =
     (if 0 < ev_error_count ev \<or> (mismatch \<and> w_to w \<le> now)
      then (Failing, if mismatch
                     then reasons @ [''Observed release does not match the requested revision or digest'']
                     else reasons)
      else if now < w_to w then (Pending, reasons)
      else if \<not> av_complete (ev_availability ev) \<or> reasons \<noteq> [] then (Incomplete, reasons)
      else (Passing, reasons))"

definition blank_assessment :: "deployment \<Rightarrow> window \<Rightarrow> evidence \<Rightarrow> assessment" where
  "blank_assessment d w ev =
     \<lparr>as_scope = de_filter d, as_assessed_checks = ev_required_checks ev, as_outcome = Pending,
      as_window = w, as_baseline = \<lparr>w_from = w_from w - (w_to w - w_from w), w_to = w_from w\<rparr>,
      as_availability = ev_availability ev, as_reasons = [], as_outstanding_checks = [],
      as_next_observation_at = None, as_new_findings = [], as_worsened_findings = [],
      as_pre_existing_findings = [], as_recovered_findings = [], as_unclassified_findings = [],
      as_next_cursor = ev_next_cursor ev, as_error_count = ev_error_count ev,
      as_failed_check_count = ev_failed_checks ev\<rparr>"

definition evaluate_deployment ::
  "(instant \<Rightarrow> bool) \<Rightarrow> deployment \<Rightarrow> evidence \<Rightarrow> instant \<Rightarrow> query_error + assessment" where
  "evaluate_deployment rep d ev now =
     (case deployment_window rep d of
        Inl e \<Rightarrow> Inl e
      | Inr w \<Rightarrow>
          (let a = fold (place_finding (baseline_severity w (ev_baseline ev)) w) (ev_findings ev)
                     (blank_assessment d w ev);
               m = newest_checks w (ev_checks ev);
               missing = outstanding m w now (ev_required_checks ev);
               ra = release_status d w now ev;
               reasons = remdups_adj (sort (raw_reasons ev missing ra));
               (out, reasons) = verdict ev w now (is_some_and ra_mismatch ra) reasons
           in Inr (a\<lparr>as_outstanding_checks := missing,
                     as_next_observation_at := next_observation m now (ev_required_checks ev),
                     as_reasons := reasons, as_outcome := out\<rparr>)))"

end
