(* ===== verification/Query_Properties.thy ===== *)
theory Query_Properties
  imports Query "HOL-Library.Multiset"
begin

text \<open>
  Facts about \<open>crates/query\<close>: normalised filters are stable, windows are bounded, the fold over
  release records has a closed form, and what a verdict on a deployment rests on.
\<close>

section \<open>Filters\<close>

lemma upper_code: "is_ascii_uppercase c \<longleftrightarrow> 65 \<le> (of_char c :: nat) \<and> (of_char c :: nat) \<le> 90"
  by (simp add: is_ascii_uppercase_def less_eq_char_def)

lemma lower_code: "is_ascii_uppercase c \<Longrightarrow> of_char (to_ascii_lowercase c) = (of_char c + 32 :: nat)"
  by (simp add: to_ascii_lowercase_def upper_code)

lemma lower_dot [simp]: "to_ascii_lowercase c = CHR ''.'' \<longleftrightarrow> c = CHR ''.''"
proof (cases "is_ascii_uppercase c")
  case True
  have dot: "of_char (CHR ''.'') = (46 :: nat)" by simp
  have "(of_char (to_ascii_lowercase c) :: nat) \<noteq> 46" "(of_char c :: nat) \<noteq> 46"
    using lower_code [OF True] True [unfolded upper_code] by linarith+
  then show ?thesis using dot by metis
qed (simp add: to_ascii_lowercase_def)

lemma lower_idem [simp]: "to_ascii_lowercase (to_ascii_lowercase c) = to_ascii_lowercase c"
proof (cases "is_ascii_uppercase c")
  case True
  then have "\<not> is_ascii_uppercase (to_ascii_lowercase c)"
    using lower_code [OF True] unfolding upper_code by linarith
  then show ?thesis by (simp add: to_ascii_lowercase_def)
qed (simp add: to_ascii_lowercase_def)

lemma trim_end_dots_eq: "s = [] \<or> last s \<noteq> CHR ''.'' \<Longrightarrow> trim_end_dots s = s"
  by (cases s rule: rev_cases) (simp_all add: trim_end_dots_def)

lemma trim_end_dots_last: "trim_end_dots s = [] \<or> last (trim_end_dots s) \<noteq> CHR ''.''"
proof (cases "dropWhile (\<lambda>c. c = CHR ''.'') (rev s)")
  case (Cons c t)
  then have "c \<noteq> CHR ''.''" by (metis (mono_tags, lifting) dropWhile_eq_Cons_conv)
  then show ?thesis by (simp add: trim_end_dots_def Cons)
qed (simp add: trim_end_dots_def)

lemma normal_host_idem: "normal_host (normal_host h) = normal_host h"
proof -
  have "normal_host h = [] \<or> last (normal_host h) \<noteq> CHR ''.''"
    using trim_end_dots_last [of h] by (auto simp: normal_host_def last_map)
  then have "trim_end_dots (normal_host h) = normal_host h" by (simp add: trim_end_dots_eq)
  then have "normal_host (normal_host h) = map to_ascii_lowercase (normal_host h)"
    by (metis normal_host_def)
  also have "\<dots> = normal_host h" by (simp add: normal_host_def o_def)
  finally show ?thesis .
qed

lemma take_aliases_clears:
  assumes "take_aliases as fl = Inr fl'"
  shows "qf_project fl' = qf_project fl \<and> qf_account fl' = qf_account fl \<and>
     qf_subscription fl' = qf_subscription fl"
  using assms
proof (induction as arbitrary: fl)
  case (Cons a as)
  then obtain fl1 where step: "take_alias a fl = Inr fl1" and rest: "take_aliases as fl1 = Inr fl'"
    by (auto split: sum.splits)
  have "qf_project fl1 = qf_project fl \<and> qf_account fl1 = qf_account fl \<and>
      qf_subscription fl1 = qf_subscription fl"
    using step by (auto simp: take_alias_def split: prod.splits option.splits if_splits)
  then show ?case using Cons.IH [OF rest] by simp
qed simp

lemma normalize_filter_cases:
  assumes "normalize_filter fl = Inr fl'"
  obtains fl1 where "take_aliases [(qf_project fl, QGcp), (qf_account fl, QAws), (qf_subscription fl, QAzure)]
       (fl\<lparr>qf_project := None, qf_account := None, qf_subscription := None\<rparr>) = Inr fl1"
    and "\<not> list_ex (is_some_and bad_value) (filter_values fl1)"
    and "fl' = fl1\<lparr>qf_hostname := map_option normal_host (qf_hostname fl1)\<rparr>"
    and "\<not> is_some_and bad_host (qf_hostname fl')" and "\<not> bad_page fl'"
  using assms by (auto simp: normalize_filter_def Let_def split: sum.splits if_splits)

text \<open>A host name that \<open>bad_host\<close> accepts is a value \<open>bad_value\<close> accepts.\<close>

lemma host_is_a_value: "\<not> bad_host h \<Longrightarrow> \<not> bad_value h"
proof -
  assume ok: "\<not> bad_host h"
  have plain: "\<not> (c < CHR 0x20 \<or> c = CHR 0x7F \<or> c = CHR 0xC2)"
    if "is_ascii_alphanumeric c \<or> c = CHR ''.'' \<or> c = CHR ''-''" for c
  proof -
    have "45 \<le> (of_char c :: nat) \<and> (of_char c :: nat) \<le> 122"
      using that by (auto simp: char_classes less_eq_char_def)
    moreover have "(of_char (CHR 0x7F) :: nat) = 127" "(of_char (CHR 0xC2) :: nat) = 194" by simp_all
    ultimately show ?thesis by (auto simp: less_char_def)
  qed
  have "\<not> has_control s" if "list_all (\<lambda>b. is_ascii_alphanumeric b \<or> b = CHR ''.'' \<or> b = CHR ''-'') s" for s
    using that plain by (induction s rule: has_control.induct) auto
  then show ?thesis using ok by (auto simp: bad_host_def bad_value_def)
qed

section \<open>Releases\<close>

definition fresh_releases :: "window \<Rightarrow> instant \<Rightarrow> q_record list \<Rightarrow> release_details list" where
  "fresh_releases w now rs = List.map_filter
     (\<lambda>r. case qr_details r of DRelease rd \<Rightarrow> if release_fresh w now r then Some rd else None | _ \<Rightarrow> None) rs"

lemma fresh_releases_simps [simp]:
  "fresh_releases w now [] = []"
  "fresh_releases w now (r # rs) =
     (case qr_details r of DRelease rd \<Rightarrow> if release_fresh w now r then [rd] else [] | _ \<Rightarrow> []) @
     fresh_releases w now rs"
  by (simp_all add: fresh_releases_def map_filter_simps split: details.split)

definition summarize :: "deployment \<Rightarrow> release_details list \<Rightarrow> release_assessment" where
  "summarize d rds = \<lparr>ra_fresh = min (length rds) u64_max,
     ra_mismatch = list_ex (\<lambda>rd. digest_wrong d rd \<or> revision_wrong d rd) rds,
     ra_pending = list_ex rd_pending rds,
     ra_missing_digest = list_ex (\<lambda>rd. de_expected_digest d \<noteq> None \<and> rd_observed_digests rd = []) rds,
     ra_unverified_revision =
       list_ex (\<lambda>rd. de_expected_revision d \<noteq> None \<and> (\<not> rd_verified rd \<or> rd_revision rd = None)) rds\<rparr>"

lemma observe_summarize:
  "fold (observe_release d w now) rs (summarize d rds) = summarize d (rds @ fresh_releases w now rs)"
proof (induction rs arbitrary: rds)
  case (Cons r rs)
  show ?case
  proof (cases "\<exists>rd. qr_details r = DRelease rd \<and> release_fresh w now r")
    case True
    then obtain rd where rd: "qr_details r = DRelease rd" "release_fresh w now r" by blast
    have "observe_release d w now r (summarize d rds) = summarize d (rds @ [rd])"
      using rd by (auto simp: observe_release_def summarize_def sat_add64_def min_def)
    then show ?thesis using Cons.IH [of "rds @ [rd]"] rd by simp
  next
    case False
    then have "observe_release d w now r (summarize d rds) = summarize d rds"
      by (auto simp: observe_release_def split: details.split)
    then show ?thesis using Cons.IH [of rds] False by (auto split: details.split)
  qed
qed simp

lemma observe_all: "fold (observe_release d w now) rs no_release = summarize d (fresh_releases w now rs)"
proof -
  have "no_release = summarize d []" by (simp add: no_release_def summarize_def)
  then show ?thesis using observe_summarize [of d w now rs "[]"] by simp
qed

section \<open>Checks\<close>

lemma newest_step_get:
  "bm_get (newest_step w x m) k =
     (if k = qr_identity x \<and> qr_observed_at x < w_to w \<and>
         is_none_or (\<lambda>old. qr_observed_at old < qr_observed_at x) (bm_get m k)
      then Some x else bm_get m k)"
  by (auto simp: newest_step_def get_bm_put)

lemma newest_checks_sound:
  "bm_get (fold (newest_step w) rs m) k = Some r \<Longrightarrow>
   bm_get m k = Some r \<or> (r \<in> set rs \<and> qr_identity r = k \<and> qr_observed_at r < w_to w)"
proof (induction rs arbitrary: m)
  case (Cons x rs)
  then show ?case using Cons.IH [of "newest_step w x m"] by (auto simp: newest_step_get split: if_splits)
qed simp

lemma newest_checks_grow:
  "bm_get m k = Some r \<Longrightarrow>
   \<exists>r'. bm_get (fold (newest_step w) rs m) k = Some r' \<and> qr_observed_at r \<le> qr_observed_at r'"
proof (induction rs arbitrary: m r)
  case (Cons x rs)
  obtain r1 where r1: "bm_get (newest_step w x m) k = Some r1" "qr_observed_at r \<le> qr_observed_at r1"
    using Cons.prems by (cases "bm_get (newest_step w x m) k") (auto simp: newest_step_get split: if_splits)
  then show ?case using Cons.IH [OF r1(1)] by (auto intro: order_trans)
qed simp

lemma newest_checks_cover:
  "r \<in> set rs \<Longrightarrow> qr_observed_at r < w_to w \<Longrightarrow>
   \<exists>r'. bm_get (fold (newest_step w) rs m) (qr_identity r) = Some r' \<and> qr_observed_at r \<le> qr_observed_at r'"
proof (induction rs arbitrary: m)
  case (Cons x rs)
  show ?case
  proof (cases "r = x")
    case True
    have "\<exists>r1. bm_get (newest_step w x m) (qr_identity x) = Some r1 \<and> qr_observed_at x \<le> qr_observed_at r1"
      using Cons.prems(2) True by (cases "bm_get m (qr_identity x)") (auto simp: newest_step_get not_less)
    then obtain r1 where r1: "bm_get (newest_step w x m) (qr_identity x) = Some r1" "qr_observed_at x \<le> qr_observed_at r1"
      by blast
    show ?thesis using newest_checks_grow [OF r1(1), of w rs] r1(2) True by (auto intro: order_trans)
  next
    case False
    then show ?thesis using Cons by simp
  qed
qed simp

lemma newest_checks_get:
  assumes "bm_get (newest_checks w rs) k = Some r"
  shows "r \<in> set rs \<and> qr_identity r = k \<and> qr_observed_at r < w_to w \<and>
     (\<forall>r' \<in> set rs. qr_identity r' = k \<longrightarrow> qr_observed_at r' < w_to w \<longrightarrow> qr_observed_at r' \<le> qr_observed_at r)"
proof -
  have get: "bm_get (fold (newest_step w) rs []) k = Some r" using assms by (simp add: newest_checks_def)
  have "qr_observed_at r' \<le> qr_observed_at r"
    if "r' \<in> set rs" "qr_identity r' = k" "qr_observed_at r' < w_to w" for r'
    using newest_checks_cover [OF that(1,3), of "[]"] get that(2) by simp
  then show ?thesis using newest_checks_sound [OF get] by simp
qed

section \<open>Findings\<close>

definition classified :: "assessment \<Rightarrow> q_record multiset" where
  "classified a = mset (as_new_findings a) + mset (as_worsened_findings a) +
     mset (as_pre_existing_findings a) + mset (as_unclassified_findings a)"

lemma placed: "classified (fold (place_finding m w) rs a) = classified a + mset rs"
proof (induction rs arbitrary: a)
  case (Cons r rs)
  have "classified (if c then b else b') = (if c then classified b else classified b')" for c and b b' :: assessment
    by simp
  then have "classified (place_finding m w r a) = classified a + {#r#}"
    by (simp add: place_finding_def Let_def) (simp add: classified_def)
  then show ?case using Cons.IH [of "place_finding m w r a"] by simp
qed simp

lemma placed_lists:
  "as_new_findings (fold (place_finding m w) rs a) = as_new_findings a @ filter (started_within w) rs"
  "as_worsened_findings (fold (place_finding m w) rs a) =
     as_worsened_findings a @ filter (\<lambda>r. worsened_since m r \<and> \<not> started_within w r) rs"
  "as_recovered_findings (fold (place_finding m w) rs a) =
     as_recovered_findings a @ filter (recovered_within w) rs"
  by (induction rs arbitrary: a) (auto simp: place_finding_def Let_def)

section \<open>Verdicts\<close>

lemma evaluate_cases:
  assumes "evaluate_deployment rep d ev now = Inr a"
  obtains w where "deployment_window rep d = Inr w" "as_window a = w"
    and "as_outstanding_checks a = outstanding (newest_checks w (ev_checks ev)) w now (ev_required_checks ev)"
    and "(as_outcome a, as_reasons a) = verdict ev w now (is_some_and ra_mismatch (release_status d w now ev))
      (remdups_adj (sort (raw_reasons ev (as_outstanding_checks a) (release_status d w now ev))))"
    and "as_new_findings a = filter (started_within w) (ev_findings ev)"
    and "as_recovered_findings a = filter (recovered_within w) (ev_findings ev)"
    and "classified a = mset (ev_findings ev)"
proof -
  obtain w where w: "deployment_window rep d = Inr w"
    using assms by (auto simp: evaluate_deployment_def split: sum.splits)
  have keep: "as_window (fold (place_finding m w) rs b) = as_window b" for m rs and b :: assessment
    by (induction rs arbitrary: b) (simp_all add: place_finding_def Let_def)
  obtain out reasons where v: "verdict ev w now (is_some_and ra_mismatch (release_status d w now ev))
      (remdups_adj (sort (raw_reasons ev (outstanding (newest_checks w (ev_checks ev)) w now (ev_required_checks ev))
        (release_status d w now ev)))) = (out, reasons)" by (metis surj_pair)
  have a: "a = fold (place_finding (baseline_severity w (ev_baseline ev)) w) (ev_findings ev) (blank_assessment d w ev)
      \<lparr>as_outstanding_checks := outstanding (newest_checks w (ev_checks ev)) w now (ev_required_checks ev),
       as_next_observation_at := next_observation (newest_checks w (ev_checks ev)) now (ev_required_checks ev),
       as_reasons := reasons, as_outcome := out\<rparr>"
    using assms w v by (simp add: evaluate_deployment_def Let_def)
  have blank: "as_new_findings (blank_assessment d w ev) = []" "as_recovered_findings (blank_assessment d w ev) = []"
    "as_window (blank_assessment d w ev) = w" "classified (blank_assessment d w ev) = {#}"
    by (simp_all add: blank_assessment_def classified_def)
  have "classified a = classified (fold (place_finding (baseline_severity w (ev_baseline ev)) w) (ev_findings ev)
      (blank_assessment d w ev))"
    by (simp add: a classified_def)
  then show ?thesis
    using that [OF w] v by (simp add: a keep placed_lists placed blank)
qed

lemma verdict_passing:
  assumes "verdict ev w now mismatch reasons = (Passing, reasons')"
  shows "ev_error_count ev = 0" "\<not> mismatch" "w_to w \<le> now" "av_complete (ev_availability ev)" "reasons = []"
  using assms by (auto simp: verdict_def split: if_splits)

lemma passing_cases:
  assumes "evaluate_deployment rep d ev now = Inr a" and "as_outcome a = Passing"
  obtains "deployment_window rep d = Inr (as_window a)" "w_to (as_window a) \<le> now"
    "ev_error_count ev = 0" "ev_failed_checks ev = 0" "av_complete (ev_availability ev)"
    "ev_required_checks ev \<noteq> []"
    "outstanding (newest_checks (as_window a) (ev_checks ev)) (as_window a) now (ev_required_checks ev) = []"
    "\<And>ra. release_status d (as_window a) now ev = Some ra \<Longrightarrow> \<not> ra_mismatch ra \<and> release_reasons ra = []"
proof -
  obtain w where w: "deployment_window rep d = Inr w" "as_window a = w"
    "as_outstanding_checks a = outstanding (newest_checks w (ev_checks ev)) w now (ev_required_checks ev)"
    "(as_outcome a, as_reasons a) = verdict ev w now (is_some_and ra_mismatch (release_status d w now ev))
      (remdups_adj (sort (raw_reasons ev (as_outstanding_checks a) (release_status d w now ev))))"
    using evaluate_cases [OF assms(1)] by metis
  note v = verdict_passing [OF w(4) [unfolded assms(2), symmetric]]
  have none: "raw_reasons ev (as_outstanding_checks a) (release_status d w now ev) = []"
    using v(5) by (metis remdups_adj_set set_empty set_sort)
  show ?thesis
    using that v(1-4) none w(1-3)
    by (auto simp: raw_reasons_def split: if_splits option.splits)
qed

section \<open>A sample deployment\<close>

definition sample_deployment :: deployment where
  "sample_deployment = \<lparr>de_deployed_at = 0, de_window_seconds = Some 60, de_expected_revision = None,
     de_expected_digest = Some ''sha256:a'', de_filter = any_filter\<lparr>qf_target := Some ''api''\<rparr>\<rparr>"

definition sample_record :: "string \<Rightarrow> details \<Rightarrow> q_record" where
  "sample_record i ds = \<lparr>qr_id = ''r'', qr_identity = i,
     qr_scope = \<lparr>qs_target = ''api'', qs_provider = QGcp, qs_scope = ''p''\<rparr>, qr_location = any_location,
     qr_check = Some QCKubernetes, qr_resource = None, qr_observed_at = seconds 45,
     qr_last_observed_at = seconds 45, qr_valid_until = Some (seconds 300), qr_closed_at = None, qr_stale = False,
     qr_details = ds\<rparr>"

definition sample_check :: check_details where
  "sample_check = \<lparr>kd_required = True, kd_started_at = seconds 30, kd_finished_at = seconds 45,
     kd_oldest_observation_at = Some (seconds 35), kd_complete = True, kd_observations = 4,
     kd_interval_seconds = 30, kd_required_failures = 0, kd_pending_observations = 0, kd_operations = [],
     kd_operations_truncated = False\<rparr>"

definition sample_release :: release_details where
  "sample_release = \<lparr>rd_revision = None, rd_observed_digests = [''sha256:a''], rd_desired_digest = None,
     rd_pending = False, rd_verified = False, rd_facts = [], rd_links = []\<rparr>"

definition sample_finding_record :: q_record where
  "sample_finding_record = sample_record ''f'' (DFinding \<lparr>fd_rule = ''down'', fd_severity = QWarning,
     fd_state = QStillActive, fd_first_detected_at = Some (seconds 10), fd_expected = QActive,
     fd_confidence = QDirect, fd_facts = [], fd_links = [], fd_legacy = False\<rparr>)"

definition sample_evidence :: evidence where
  "sample_evidence = \<lparr>ev_checks = [sample_record ''k'' (DCheck sample_check)], ev_required_checks = [''k''],
     ev_releases = [sample_record ''i'' (DRelease sample_release)], ev_release_assessment = None,
     ev_findings = [sample_finding_record], ev_baseline = [], ev_error_count = 0, ev_failed_checks = 0,
     ev_availability = \<lparr>av_requested = \<lparr>w_from = 0, w_to = 0\<rparr>, av_available_since = None,
       av_persisted_through = None, av_history_available = True, av_complete = True, av_gaps = []\<rparr>,
     ev_next_cursor = None\<rparr>"

definition sample_assessment :: assessment where
  "sample_assessment = blank_assessment sample_deployment \<lparr>w_from = 0, w_to = seconds 60\<rparr> sample_evidence
     \<lparr>as_outcome := Passing, as_new_findings := [sample_finding_record]\<rparr>"

lemmas sample_query_defs = sample_deployment_def sample_record_def sample_check_def sample_release_def
  sample_finding_record_def sample_evidence_def any_filter_def seconds_def nanos_per_sec_def

lemma sample_assessed:
  "evaluate_deployment (\<lambda>_. True) sample_deployment sample_evidence (seconds 100) = Inr sample_assessment"
proof -
  let ?w = "\<lparr>w_from = 0, w_to = seconds 60\<rparr>"
  have w: "deployment_window (\<lambda>_. True) sample_deployment = Inr ?w"
    by (simp add: deployment_window_def bad_deployment_def bad_expectation_def sample_query_defs)
  have m: "newest_checks ?w (ev_checks sample_evidence) = [(''k'', sample_record ''k'' (DCheck sample_check))]"
    by (simp add: newest_checks_def newest_step_def sample_query_defs)
  have o: "outstanding [(''k'', sample_record ''k'' (DCheck sample_check))] ?w (seconds 100)
      (ev_required_checks sample_evidence) = []"
    by (simp add: outstanding_def check_settled_def sample_query_defs)
  have n: "next_observation [(''k'', sample_record ''k'' (DCheck sample_check))] (seconds 100)
      (ev_required_checks sample_evidence) = None"
    by (simp add: next_observation_def next_step_def sample_query_defs as_i64_small)
  have f: "fresh_releases ?w (seconds 100) (ev_releases sample_evidence) = [sample_release]"
    by (simp add: release_fresh_def sample_query_defs)
  have r: "release_status sample_deployment ?w (seconds 100) sample_evidence =
      Some (summarize sample_deployment [sample_release])"
  proof -
    have "de_expected_digest sample_deployment = Some ''sha256:a''" "ev_release_assessment sample_evidence = None"
      by (simp_all add: sample_deployment_def sample_evidence_def)
    then show ?thesis
      using observe_all [of sample_deployment ?w "seconds 100" "ev_releases sample_evidence"]
      unfolding f by (simp add: release_status_def)
  qed
  have s: "summarize sample_deployment [sample_release] =
      \<lparr>ra_fresh = 1, ra_mismatch = False, ra_pending = False, ra_missing_digest = False, ra_unverified_revision = False\<rparr>"
    by (simp add: summarize_def digest_wrong_def revision_wrong_def sample_deployment_def sample_release_def u64_max_def)
  have fs: "ev_findings sample_evidence = [sample_finding_record]" "ev_baseline sample_evidence = []"
    "ev_error_count sample_evidence = 0" "ev_failed_checks sample_evidence = 0"
    "ev_required_checks sample_evidence = [''k'']" "av_complete (ev_availability sample_evidence)"
    by (simp_all add: sample_evidence_def)
  have p: "place_finding [] ?w sample_finding_record a = a\<lparr>as_new_findings := as_new_findings a @ [sample_finding_record]\<rparr>" for a
    by (simp add: place_finding_def started_within_def recovered_within_def first_detected_def record_state_def
        sample_query_defs)
  have q: "seconds 60 \<le> seconds 100" "\<not> seconds 100 < seconds 60" by (simp_all add: seconds_def nanos_per_sec_def)
  show ?thesis
    unfolding evaluate_deployment_def w sum.case Let_def m o n r s
    by (simp add: fs p baseline_severity_def raw_reasons_def release_reasons_def verdict_def q sample_assessment_def
        blank_assessment_def)
qed

section \<open>Properties\<close>

text \<open>C3: A verdict of \<open>Passing\<close> rests on observed evidence: the window is over, nothing failed,
  and the newest record of every required check is complete, fresh and collected after the
  deployment.\<close>

theorem passing_is_justified:
  assumes "evaluate_deployment rep d ev now = Inr a" and "as_outcome a = Passing"
  shows "w_to (as_window a) \<le> now \<and> ev_error_count ev = 0 \<and> ev_failed_checks ev = 0 \<and>
     av_complete (ev_availability ev) \<and> ev_required_checks ev \<noteq> [] \<and>
     (\<forall>k \<in> set (ev_required_checks ev). \<exists>r \<in> set (ev_checks ev). \<exists>c.
        qr_identity r = k \<and> qr_details r = DCheck c \<and> kd_complete c \<and> \<not> kd_operations_truncated c \<and>
        kd_pending_observations c = 0 \<and> de_deployed_at d \<le> kd_started_at c \<and> \<not> qr_stale r \<and>
        is_some_and (\<lambda>t. w_to (as_window a) \<le> t) (qr_valid_until r) \<and>
        (\<forall>r' \<in> set (ev_checks ev). qr_identity r' = k \<longrightarrow> qr_observed_at r' < w_to (as_window a) \<longrightarrow>
           qr_observed_at r' \<le> qr_observed_at r))"
  using assms
proof (cases rule: passing_cases)
  case 1
  have start: "w_from (as_window a) = de_deployed_at d"
    using 1(1) by (cases "as_window a") (auto simp: deployment_window_def Let_def split: if_splits)
  have "\<exists>r \<in> set (ev_checks ev). \<exists>c.
        qr_identity r = k \<and> qr_details r = DCheck c \<and> kd_complete c \<and> \<not> kd_operations_truncated c \<and>
        kd_pending_observations c = 0 \<and> de_deployed_at d \<le> kd_started_at c \<and> \<not> qr_stale r \<and>
        is_some_and (\<lambda>t. w_to (as_window a) \<le> t) (qr_valid_until r) \<and>
        (\<forall>r' \<in> set (ev_checks ev). qr_identity r' = k \<longrightarrow> qr_observed_at r' < w_to (as_window a) \<longrightarrow>
           qr_observed_at r' \<le> qr_observed_at r)"
    if k: "k \<in> set (ev_required_checks ev)" for k
  proof -
    obtain r where r: "bm_get (newest_checks (as_window a) (ev_checks ev)) k = Some r"
      "check_settled (as_window a) now r"
      using 1(7) k by (auto simp: outstanding_def filter_empty_conv is_some_and_iff)
    then obtain c where c: "qr_details r = DCheck c" by (auto simp: check_settled_def split: details.splits)
    show ?thesis
      using newest_checks_get [OF r(1)] r(2) c 1(2) start
      by (intro bexI [of _ r] exI [of _ c]) (auto simp: check_settled_def)
  qed
  then show ?thesis using 1 by blast
qed

theorem passing_is_justified_witness:
  "ev_error_count sample_evidence = 0 \<and> as_outcome sample_assessment = Passing"
  using passing_is_justified [OF sample_assessed] by (simp add: sample_assessment_def)

text \<open>C34: When a revision or a digest is expected, a verdict of \<open>Passing\<close> means that a release was
  observed after the deployment and that every fresh one runs exactly what was expected.\<close>

theorem passing_runs_the_expected_release:
  assumes "evaluate_deployment rep d ev now = Inr a" and "as_outcome a = Passing"
    and "de_expected_revision d \<noteq> None \<or> de_expected_digest d \<noteq> None" and "ev_release_assessment ev = None"
  defines "seen \<equiv> fresh_releases (as_window a) now (ev_releases ev)"
  shows "seen \<noteq> [] \<and> (\<forall>rd \<in> set seen. \<not> rd_pending rd \<and>
     is_none_or (\<lambda>x. set (rd_observed_digests rd) = {x}) (de_expected_digest d) \<and>
     is_none_or (\<lambda>v. rd_verified rd \<and> rd_revision rd = Some v) (de_expected_revision d))"
  using assms(1,2)
proof (cases rule: passing_cases)
  case 1
  have "release_status d (as_window a) now ev = Some (summarize d seen)"
    using assms(3,4) by (auto simp: release_status_def observe_all seen_def)
  from 1(8) [OF this] have ok: "\<not> ra_mismatch (summarize d seen)" "release_reasons (summarize d seen) = []"
    by auto
  then have "seen \<noteq> []" by (auto simp: release_reasons_def summarize_def)
  moreover have "\<not> rd_pending rd \<and> is_none_or (\<lambda>x. set (rd_observed_digests rd) = {x}) (de_expected_digest d) \<and>
     is_none_or (\<lambda>v. rd_verified rd \<and> rd_revision rd = Some v) (de_expected_revision d)"
    if rd: "rd \<in> set seen" for rd
  proof -
    have "\<not> rd_pending rd" and missing: "de_expected_digest d \<noteq> None \<Longrightarrow> rd_observed_digests rd \<noteq> []"
      and verified: "de_expected_revision d \<noteq> None \<Longrightarrow> rd_verified rd \<and> rd_revision rd \<noteq> None"
      using ok(2) rd by (auto simp: release_reasons_def summarize_def list_ex_iff split: if_splits)
    moreover have "\<not> digest_wrong d rd" "\<not> revision_wrong d rd"
      using ok(1) rd by (auto simp: summarize_def list_ex_iff)
    ultimately show ?thesis
      by (cases "de_expected_digest d"; cases "de_expected_revision d"; cases "rd_observed_digests rd")
        (auto simp: digest_wrong_def revision_wrong_def list_ex_iff)
  qed
  ultimately show ?thesis by blast
qed

theorem passing_runs_the_expected_release_witness:
  "fresh_releases (as_window sample_assessment) (seconds 100) (ev_releases sample_evidence) \<noteq> []"
  using passing_runs_the_expected_release [OF sample_assessed]
  by (simp add: sample_assessment_def sample_deployment_def sample_evidence_def)

text \<open>Every finding of the evidence is reported in exactly one class, as new only when it was
  first detected inside the window, and as recovered only when it closed inside it.\<close>

theorem findings_are_classified:
  assumes "evaluate_deployment rep d ev now = Inr a"
  shows "mset (as_new_findings a) + mset (as_worsened_findings a) + mset (as_pre_existing_findings a) +
       mset (as_unclassified_findings a) = mset (ev_findings ev) \<and>
     as_new_findings a = filter (started_within (as_window a)) (ev_findings ev) \<and>
     as_recovered_findings a = filter (recovered_within (as_window a)) (ev_findings ev)"
  using assms by (cases rule: evaluate_cases) (simp add: classified_def)

theorem findings_are_classified_witness:
  "as_new_findings sample_assessment = filter (started_within (as_window sample_assessment))
     (ev_findings sample_evidence)"
  using findings_are_classified [OF sample_assessed] by simp

text \<open>Observing release records page by page is the same as judging all of them at once: the
  status depends only on which fresh records there are.\<close>

theorem release_fold_is_summary:
  "fold (observe_release d w now) (concat pages) no_release =
     summarize d (concat (map (fresh_releases w now) pages))"
proof -
  have "fresh_releases w now (xs @ ys) = fresh_releases w now xs @ fresh_releases w now ys" for xs ys
    by (induction xs) simp_all
  then have "fresh_releases w now (concat pages) = concat (map (fresh_releases w now) pages)"
    by (induction pages) simp_all
  then show ?thesis by (simp add: observe_all)
qed

text \<open>A normalised filter is a fixed point of normalisation.\<close>

theorem normalized_filter_is_stable:
  assumes "normalize_filter fl = Inr fl'"
  shows "normalize_filter fl' = Inr fl'"
  using assms
proof (cases rule: normalize_filter_cases)
  case (1 fl1)
  have gone: "qf_project fl1 = None" "qf_account fl1 = None" "qf_subscription fl1 = None"
    using take_aliases_clears [OF 1(1)] by simp_all
  have host: "map_option normal_host (qf_hostname fl') = qf_hostname fl'"
    by (simp add: 1(3) option.map_comp o_def normal_host_idem)
  have "is_some_and bad_value (qf_hostname fl') \<Longrightarrow> is_some_and bad_host (qf_hostname fl')"
    using host_is_a_value by (auto simp: is_some_and_iff)
  then have "\<not> list_ex (is_some_and bad_value) (filter_values fl')"
    using 1(2,4) by (auto simp: filter_values_def 1(3))
  moreover have none: "qf_project fl' = None" "qf_account fl' = None" "qf_subscription fl' = None"
    using gone by (simp_all add: 1(3))
  moreover from none have "fl'\<lparr>qf_project := None, qf_account := None, qf_subscription := None\<rparr> = fl'" by simp
  then have aliases: "take_aliases [(qf_project fl', QGcp), (qf_account fl', QAws), (qf_subscription fl', QAzure)]
      (fl'\<lparr>qf_project := None, qf_account := None, qf_subscription := None\<rparr>) = Inr fl'"
    by (simp only: none take_aliases.simps take_alias_def prod.case option.case sum.case)
  moreover have host': "fl'\<lparr>qf_hostname := map_option normal_host (qf_hostname fl')\<rparr> = fl'"
    by (simp add: host)
  ultimately show ?thesis
    unfolding normalize_filter_def aliases by (simp only: sum.case Let_def host' 1(4,5) if_False simp_thms)
qed

theorem normalized_filter_is_stable_witness:
  "normalize_filter (any_filter\<lparr>qf_scope := Some ''p'', qf_provider := Some QGcp\<rparr>) =
     Inr (any_filter\<lparr>qf_scope := Some ''p'', qf_provider := Some QGcp\<rparr>)"
  by (rule normalized_filter_is_stable [where fl = "any_filter\<lparr>qf_project := Some ''p''\<rparr>"])
    (simp add: normalize_filter_def take_alias_def filter_values_def bad_value_def bad_page_def any_filter_def)

text \<open>A window that is granted is not empty, ends at most thirty seconds ahead and spans at
  most 31 days.\<close>

theorem windows_are_bounded:
  assumes "filter_window rep now fl = Inr w"
  shows "w_from w < w_to w \<and> w_to w \<le> now + seconds 30 \<and> w_to w - w_from w \<le> seconds (31 * 86400)"
  using assms by (auto simp: filter_window_def days31_def Let_def split: if_splits option.splits)

theorem windows_are_bounded_witness:
  "w_from \<lparr>w_from = - seconds 3600, w_to = 0\<rparr> < w_to \<lparr>w_from = - seconds 3600, w_to = (0::instant)\<rparr>"
  using windows_are_bounded [of "\<lambda>_. True" 0 any_filter "\<lparr>w_from = - seconds 3600, w_to = 0\<rparr>"]
  by (simp add: filter_window_def any_filter_def seconds_def nanos_per_sec_def days31_def)

end
