(* ===== verification/Scope_Cache.thy ===== *)
theory Scope_Cache
  imports Prelude "HOL-Library.Multiset"
begin

text \<open>
  \<open>crates/server/src/scope_cache.rs\<close>: expiring responses in order of use, and the flights by
  which callers of one key share a load. A flight is a number; its \<open>Weak\<close> upgrades while some
  caller holds it, so the multiset of flights callers hold is part of the state of a run.
\<close>

section \<open>Entries\<close>

definition max_entries :: usize where "max_entries = 64"
definition max_bytes :: usize where "max_bytes = 32 * 1024 * 1024"

record cache_key =
  ky_generation :: u64
  ky_filter :: string

record cached =
  ca_body :: string
  ca_created :: instant
  ca_ttl :: int

definition new_cached :: "instant \<Rightarrow> string \<Rightarrow> cached" where
  "new_cached now body = \<lparr>ca_body = body, ca_created = now, ca_ttl = 15 * nanos_per_sec\<rparr>"

definition current_only :: "instant \<Rightarrow> string \<Rightarrow> cached" where
  "current_only now body = \<lparr>ca_body = body, ca_created = now, ca_ttl = nanos_per_sec\<rparr>"

text \<open>The two headers of a response: the cache mark and the age in seconds.\<close>

definition cache_headers :: "instant \<Rightarrow> bool \<Rightarrow> cached \<Rightarrow> string \<times> int" where
  "cache_headers now hit v =
     (if hit then ''hit'' else ''miss'', num_seconds (max 0 (now - ca_created v)))"

type_synonym cache_entry = "cache_key \<times> cached"

definition entry_bytes :: "cache_entry \<Rightarrow> usize" where
  "entry_bytes e = length (ky_filter (fst e)) + length (ca_body (snd e))"

definition fresh :: "instant \<Rightarrow> cached \<Rightarrow> bool" where
  "fresh now v \<longleftrightarrow> max 0 (now - ca_created v) < ca_ttl v"

record cache =
  cc_entries :: "cache_entry list"
  cc_bytes :: usize
  cc_flights :: "(cache_key \<times> nat) list"

definition new_cache :: cache where
  "new_cache = \<lparr>cc_entries = [], cc_bytes = 0, cc_flights = []\<rparr>"

definition cache_size :: "cache_entry list \<Rightarrow> usize" where
  "cache_size es = sum_list (map entry_bytes es)"

definition expire_cache :: "instant \<Rightarrow> nat multiset \<Rightarrow> cache \<Rightarrow> cache" where
  "expire_cache now held c =
     (let es = filter (\<lambda>(_, v). fresh now v) (cc_entries c)
      in \<lparr>cc_entries = es, cc_bytes = cache_size es,
          cc_flights = filter (\<lambda>(_, f). f \<in># held) (cc_flights c)\<rparr>)"

section \<open>Operations\<close>

text \<open>\<open>get\<close>: the entry moves to the back of the eviction order.\<close>

definition drop_key :: "cache_key \<Rightarrow> cache_entry list \<Rightarrow> cache_entry list" where
  "drop_key k es = filter (\<lambda>(k', _). k' \<noteq> k) es"

definition cache_get :: "instant \<Rightarrow> nat multiset \<Rightarrow> cache_key \<Rightarrow> cache \<Rightarrow> cached option \<times> cache" where
  "cache_get now held k c =
     (let c = expire_cache now held c
      in case map_of (cc_entries c) k of
           None \<Rightarrow> (None, c)
         | Some v \<Rightarrow> (Some v, c\<lparr>cc_entries := remove1 (k, v) (cc_entries c) @ [(k, v)]\<rparr>))"

text \<open>The eviction loop of \<open>insert\<close>: from the front, until the new entry of \<open>n\<close> bytes fits.\<close>

fun evict :: "usize \<Rightarrow> cache_entry list \<Rightarrow> usize \<Rightarrow> cache_entry list \<times> usize" where
  "evict n [] b = ([], b)"
| "evict n (e # es) b =
     (if max_entries \<le> length (e # es) \<or> max_bytes < b + n then evict n es (b - entry_bytes e)
      else (e # es, b))"

definition cache_insert :: "instant \<Rightarrow> nat multiset \<Rightarrow> cache_key \<Rightarrow> cached \<Rightarrow> cache \<Rightarrow> cache" where
  "cache_insert now held k v c =
     (let c = expire_cache now held c;
          (es, b) = (case map_of (cc_entries c) k of
                       None \<Rightarrow> (cc_entries c, cc_bytes c)
                     | Some old \<Rightarrow> (remove1 (k, old) (cc_entries c), cc_bytes c - entry_bytes (k, old)));
          n = entry_bytes (k, v)
      in if max_bytes < n then c\<lparr>cc_entries := es, cc_bytes := b\<rparr>
         else (let (es, b) = evict n es b in c\<lparr>cc_entries := es @ [(k, v)], cc_bytes := b + n\<rparr>))"

text \<open>\<open>flight\<close>: the flight in progress for the key, or the new one \<open>f\<close>; \<open>None\<close> is \<open>Busy\<close>.\<close>

definition join_flight :: "instant \<Rightarrow> nat multiset \<Rightarrow> nat \<Rightarrow> cache_key \<Rightarrow> cache \<Rightarrow> nat option \<times> cache" where
  "join_flight now held f k c =
     (let c = expire_cache now held c
      in case map_of (cc_flights c) k of
           Some g \<Rightarrow> (Some g, c)
         | None \<Rightarrow> if max_entries \<le> length (cc_flights c) then (None, c)
                  else (Some f, c\<lparr>cc_flights := (k, f) # cc_flights c\<rparr>))"

section \<open>Runs\<close>

text \<open>A cache in use: the flights callers hold with their keys, the next flight number, and the
  value inserted last for every key.\<close>

record caching =
  cg_cache :: cache
  cg_callers :: "(cache_key \<times> nat) multiset"
  cg_next :: nat
  cg_last :: "cache_key \<Rightarrow> cached option"

definition held :: "caching \<Rightarrow> nat multiset" where
  "held g = image_mset snd (cg_callers g)"

definition new_caching :: caching where
  "new_caching = \<lparr>cg_cache = new_cache, cg_callers = {#}, cg_next = 0, cg_last = Map.empty\<rparr>"

definition look_up :: "instant \<Rightarrow> cache_key \<Rightarrow> caching \<Rightarrow> caching" where
  "look_up now k g = g\<lparr>cg_cache := snd (cache_get now (held g) k (cg_cache g))\<rparr>"

definition store :: "instant \<Rightarrow> cache_key \<Rightarrow> cached \<Rightarrow> caching \<Rightarrow> caching" where
  "store now k v g = g\<lparr>cg_cache := cache_insert now (held g) k v (cg_cache g),
     cg_last := (cg_last g)(k \<mapsto> v)\<rparr>"

definition take_off :: "instant \<Rightarrow> cache_key \<Rightarrow> caching \<Rightarrow> caching" where
  "take_off now k g =
     (case join_flight now (held g) (cg_next g) k (cg_cache g) of
        (None, c) \<Rightarrow> g\<lparr>cg_cache := c\<rparr>
      | (Some f, c) \<Rightarrow> g\<lparr>cg_cache := c, cg_callers := add_mset (k, f) (cg_callers g),
                         cg_next := Suc (cg_next g)\<rparr>)"

definition land :: "cache_key \<times> nat \<Rightarrow> caching \<Rightarrow> caching" where
  "land kf g = g\<lparr>cg_callers := cg_callers g - {#kf#}\<rparr>"

inductive cache_run :: "caching \<Rightarrow> bool" where
  fresh_cache: "cache_run new_caching"
| looked: "cache_run g \<Longrightarrow> cache_run (look_up now k g)"
| stored: "cache_run g \<Longrightarrow> cache_run (store now k v g)"
| took_off: "cache_run g \<Longrightarrow> cache_run (take_off now k g)"
| landed: "cache_run g \<Longrightarrow> cache_run (land kf g)"

section \<open>Invariant\<close>

definition entries_ok :: "(cache_key \<Rightarrow> cached option) \<Rightarrow> cache_entry list \<Rightarrow> bool" where
  "entries_ok latest es \<longleftrightarrow> distinct (map fst es) \<and> set es \<subseteq> {(k, v). latest k = Some v}"

definition cache_ok :: "caching \<Rightarrow> bool" where
  "cache_ok g \<longleftrightarrow>
     entries_ok (cg_last g) (cc_entries (cg_cache g)) \<and>
     length (cc_entries (cg_cache g)) \<le> max_entries \<and>
     cc_bytes (cg_cache g) = cache_size (cc_entries (cg_cache g)) \<and>
     cc_bytes (cg_cache g) \<le> max_bytes \<and>
     length (cc_flights (cg_cache g)) \<le> max_entries \<and>
     distinct (map fst (cc_flights (cg_cache g))) \<and>
     (\<forall>(k, f) \<in># cg_callers g. map_of (cc_flights (cg_cache g)) k = Some f) \<and>
     distinct (map snd (cc_flights (cg_cache g))) \<and> (\<forall>f \<in> snd ` set (cc_flights (cg_cache g)). f < cg_next g)"

lemma cache_size_simps [simp]: "cache_size [] = 0" "cache_size (e # es) = entry_bytes e + cache_size es"
  "cache_size (es @ fs) = cache_size es + cache_size fs"
  by (simp_all add: cache_size_def)

lemma cache_size_filter: "cache_size (filter p es) \<le> cache_size es"
  by (induction es) auto

lemma cache_size_remove1: "e \<in> set es \<Longrightarrow> entry_bytes e + cache_size (remove1 e es) = cache_size es"
  by (induction es) auto

lemma entries_ok_filter: "entries_ok l es \<Longrightarrow> entries_ok l (filter p es)"
  by (auto simp: entries_ok_def distinct_map_filter)

lemma remove1_filter:
  assumes "distinct (map fst es)" and "map_of es k = Some v"
  shows "remove1 (k, v) es = drop_key k es"
  using assms
proof (induction es)
  case (Cons e es)
  obtain k' v' where e: "e = (k', v')" by fastforce
  show ?case
  proof (cases "k' = k")
    case True
    then have "filter (\<lambda>(k', _). k' \<noteq> k) es = es"
      using Cons.prems(1) e by (force simp: filter_id_conv)
    then show ?thesis using True Cons.prems(2) e by (simp add: drop_key_def)
  next
    case False
    then show ?thesis using Cons e by (auto simp: drop_key_def)
  qed
qed simp

lemma entries_ok_push:
  "entries_ok l es \<Longrightarrow> k \<notin> fst ` set es \<Longrightarrow> entries_ok (l(k \<mapsto> v)) (es @ [(k, v)])"
  by (force simp: entries_ok_def)

lemma drop_key_fresh: "k \<notin> fst ` set (drop_key k es)"
  by (auto simp: drop_key_def)

lemma evict_suffix: "\<exists>gone. es = gone @ fst (evict n es b)"
proof (induction n es b rule: evict.induct)
  case (2 n e es b)
  show ?case
  proof (cases "max_entries \<le> length (e # es) \<or> max_bytes < b + n")
    case True
    then obtain gone where "es = gone @ fst (evict n es (b - entry_bytes e))" using 2 by blast
    then have "e # es = (e # gone) @ fst (evict n (e # es) b)" using True by simp
    then show ?thesis by blast
  qed simp
qed simp

lemma evict_fits:
  assumes "b = cache_size es" and "n \<le> max_bytes"
  shows "snd (evict n es b) = cache_size (fst (evict n es b)) \<and>
     snd (evict n es b) + n \<le> max_bytes \<and> length (fst (evict n es b)) < max_entries"
  using assms
proof (induction n es b rule: evict.induct)
  case (1 n b)
  then show ?case by (simp add: max_entries_def)
next
  case (2 n e es b)
  then show ?case by auto
qed

lemma cache_expire_ok:
  assumes "cache_ok g" and "c = expire_cache now (held g) (cg_cache g)"
  shows "cache_ok (g\<lparr>cg_cache := c\<rparr>)"
proof -
  let ?es = "cc_entries (cg_cache g)" and ?fs = "cc_flights (cg_cache g)"
  have small: "length (filter p ?es) \<le> max_entries" "cache_size (filter p ?es) \<le> max_bytes" for p
    using assms(1) by (auto simp: cache_ok_def intro: order_trans [OF length_filter_le] order_trans [OF cache_size_filter])
  have flights: "length (filter q ?fs) \<le> max_entries" for q
    using assms(1) by (auto simp: cache_ok_def intro: order_trans [OF length_filter_le])
  have callers: "map_of (filter (\<lambda>(_, f). f \<in># held g) ?fs) k = Some f" if "(k, f) \<in># cg_callers g" for k f
  proof -
    have "(k, f) \<in> set ?fs" using assms(1) that by (auto simp: cache_ok_def dest: map_of_SomeD)
    moreover have "f \<in># held g" using that by (force simp: held_def)
    ultimately show ?thesis using assms(1) distinct_map_filter [of fst ?fs]
      by (intro map_of_is_SomeI) (auto simp: cache_ok_def)
  qed
  have "distinct (map snd (filter q ?fs))" if "distinct (map snd ?fs)" for q
    using that by (rule distinct_map_filter)
  then show ?thesis
    using assms small flights callers
    by (auto simp: cache_ok_def expire_cache_def Let_def entries_ok_filter distinct_map_filter)
qed

lemma cache_get_ok:
  assumes "cache_ok g"
  shows "cache_ok (look_up now k g)"
proof -
  let ?c = "expire_cache now (held g) (cg_cache g)"
  have ok: "cache_ok (g\<lparr>cg_cache := ?c\<rparr>)" by (rule cache_expire_ok [OF assms refl])
  show ?thesis
  proof (cases "map_of (cc_entries ?c) k")
    case None
    then show ?thesis using ok by (simp add: look_up_def cache_get_def)
  next
    case (Some v)
    let ?es = "cc_entries ?c"
    have mem: "(k, v) \<in> set ?es" using Some by (rule map_of_SomeD)
    have d: "distinct (map fst ?es)" and e: "entries_ok (cg_last g) ?es" using ok by (auto simp: cache_ok_def entries_ok_def)
    have drop: "remove1 (k, v) ?es = drop_key k ?es" by (rule remove1_filter [OF d Some])
    have "cg_last g k = Some v" using mem e by (auto simp: entries_ok_def)
    then have "(cg_last g)(k \<mapsto> v) = cg_last g" by (rule fun_upd_idem)
    then have "entries_ok (cg_last g) (drop_key k ?es @ [(k, v)])"
      using entries_ok_push [OF _ drop_key_fresh, of "cg_last g" k ?es v] entries_ok_filter [OF e]
      by (simp add: drop_key_def)
    moreover have "cache_size (drop_key k ?es @ [(k, v)]) = cache_size ?es"
      using cache_size_remove1 [OF mem] by (simp add: drop)
    moreover have "length (drop_key k ?es @ [(k, v)]) = length ?es"
      using mem length_remove1 [of "(k, v)" ?es] by (simp add: drop [symmetric]) (metis Suc_pred length_pos_if_in_set)
    ultimately show ?thesis
      using ok Some by (auto simp: look_up_def cache_get_def Let_def drop cache_ok_def)
  qed
qed

lemma cache_insert_ok:
  assumes "cache_ok g"
  shows "cache_ok (store now k v g)"
proof -
  let ?c = "expire_cache now (held g) (cg_cache g)"
  have ok: "cache_ok (g\<lparr>cg_cache := ?c\<rparr>)" by (rule cache_expire_ok [OF assms refl])
  let ?es = "cc_entries ?c" and ?n = "entry_bytes (k, v)"
  have d: "distinct (map fst ?es)" and e: "entries_ok (cg_last g) ?es" using ok by (auto simp: cache_ok_def entries_ok_def)
  have removed: "(case map_of ?es k of None \<Rightarrow> (?es, cc_bytes ?c)
      | Some old \<Rightarrow> (remove1 (k, old) ?es, cc_bytes ?c - entry_bytes (k, old))) =
    (drop_key k ?es, cache_size (drop_key k ?es))"
  proof (cases "map_of ?es k")
    case None
    then have "drop_key k ?es = ?es" by (force simp: drop_key_def filter_id_conv map_of_eq_None_iff)
    then show ?thesis using None ok by (simp add: cache_ok_def)
  next
    case (Some old)
    have "entry_bytes (k, old) + cache_size (drop_key k ?es) = cache_size ?es"
      using cache_size_remove1 [OF map_of_SomeD [OF Some]] by (simp add: remove1_filter [OF d Some])
    then show ?thesis using Some ok by (simp add: cache_ok_def remove1_filter [OF d Some])
  qed
  have dropped: "entries_ok ((cg_last g)(k \<mapsto> v)) (drop_key k ?es)"
    using entries_ok_filter [OF e] drop_key_fresh [of k ?es] by (fastforce simp: drop_key_def entries_ok_def)
  have size: "cache_size (drop_key k ?es) \<le> max_bytes" "length (drop_key k ?es) \<le> max_entries"
    using ok by (auto simp: cache_ok_def drop_key_def intro: order_trans [OF length_filter_le]
        order_trans [OF cache_size_filter])
  show ?thesis
  proof (cases "max_bytes < ?n")
    case True
    then show ?thesis using ok dropped size
      by (auto simp: store_def cache_insert_def Let_def removed cache_ok_def)
  next
    case False
    obtain es b where ev: "evict ?n (drop_key k ?es) (cache_size (drop_key k ?es)) = (es, b)" by fastforce
    have fits: "b = cache_size es" "b + ?n \<le> max_bytes" "length es < max_entries"
      using evict_fits [of "cache_size (drop_key k ?es)" "drop_key k ?es" ?n] False ev by auto
    obtain gone where "drop_key k ?es = gone @ es"
      using evict_suffix [of "drop_key k ?es" ?n "cache_size (drop_key k ?es)"] ev by auto
    then have "entries_ok ((cg_last g)(k \<mapsto> v)) es" "k \<notin> fst ` set es"
      using dropped drop_key_fresh [of k ?es] by (auto simp: entries_ok_def)
    from entries_ok_push [OF this] have "entries_ok ((cg_last g)(k \<mapsto> v)) (es @ [(k, v)])" by simp
    then show ?thesis using ok fits False
      by (auto simp: store_def cache_insert_def Let_def removed ev cache_ok_def)
  qed
qed

lemma join_flight_ok:
  assumes "cache_ok g"
  shows "cache_ok (take_off now k g)"
proof -
  let ?c = "expire_cache now (held g) (cg_cache g)"
  have ok: "cache_ok (g\<lparr>cg_cache := ?c\<rparr>)" by (rule cache_expire_ok [OF assms refl])
  show ?thesis
  proof (cases "map_of (cc_flights ?c) k")
    case None
    have away: "k' \<noteq> k" if "(k', f) \<in># cg_callers g" for k' f using ok None that by (auto simp: cache_ok_def)
    have "cg_next g \<notin> snd ` set (cc_flights ?c)" "k \<notin> fst ` set (cc_flights ?c)"
      using ok None by (auto simp: cache_ok_def map_of_eq_None_iff)
    then show ?thesis using ok None away
      by (auto simp: take_off_def join_flight_def Let_def cache_ok_def less_Suc_eq)
  next
    case (Some f)
    then show ?thesis using ok by (auto simp: take_off_def join_flight_def cache_ok_def less_Suc_eq)
  qed
qed

lemma cache_run_ok: "cache_run g \<Longrightarrow> cache_ok g"
proof (induction rule: cache_run.induct)
  case fresh_cache
  then show ?case by (simp add: cache_ok_def new_caching_def new_cache_def entries_ok_def)
next
  case (landed g kf)
  then show ?case by (auto simp: cache_ok_def land_def dest: in_diffD)
qed (simp_all add: cache_get_ok cache_insert_ok join_flight_ok)

section \<open>Properties\<close>

text \<open>A hit is the value stored last under the key, and it has not outlived its time.\<close>

theorem hits_are_current:
  assumes "cache_run g" and "fst (cache_get now (held g) k (cg_cache g)) = Some v"
  shows "cg_last g k = Some v \<and> max 0 (now - ca_created v) < ca_ttl v"
proof -
  have "map_of (filter (\<lambda>(_, v). fresh now v) (cc_entries (cg_cache g))) k = Some v"
    using assms(2) by (auto simp: cache_get_def expire_cache_def Let_def split: option.splits)
  then have "(k, v) \<in> set (cc_entries (cg_cache g))" "fresh now v" by (auto dest: map_of_SomeD)
  then show ?thesis using cache_run_ok [OF assms(1)] by (auto simp: cache_ok_def entries_ok_def fresh_def)
qed

definition sample_key :: cache_key where
  "sample_key = \<lparr>ky_generation = 1, ky_filter = ''api''\<rparr>"

lemma sample_store:
  "cache_get 1 (held (store 0 sample_key (new_cached 0 ''{}'') new_caching)) sample_key
     (cg_cache (store 0 sample_key (new_cached 0 ''{}'') new_caching)) =
   (Some (new_cached 0 ''{}''), cg_cache (store 0 sample_key (new_cached 0 ''{}'') new_caching))"
  by (simp add: store_def cache_insert_def cache_get_def expire_cache_def new_caching_def new_cache_def Let_def
      fresh_def new_cached_def nanos_per_sec_def max_bytes_def entry_bytes_def sample_key_def)

theorem hits_are_current_witness:
  "cg_last (store 0 sample_key (new_cached 0 ''{}'') new_caching) sample_key = Some (new_cached 0 ''{}'')"
  using hits_are_current [of "store 0 sample_key (new_cached 0 ''{}'') new_caching" 1 sample_key "new_cached 0 ''{}''"]
  by (simp add: sample_store cache_run.intros)

text \<open>However it is used, the cache holds at most 64 entries of at most 32 MiB together, counts
  their bytes exactly and knows at most 64 flights.\<close>

theorem cache_stays_bounded:
  assumes "cache_run g"
  shows "length (cc_entries (cg_cache g)) \<le> 64 \<and>
     cc_bytes (cg_cache g) = sum_list (map entry_bytes (cc_entries (cg_cache g))) \<and>
     cc_bytes (cg_cache g) \<le> 33554432 \<and> length (cc_flights (cg_cache g)) \<le> 64"
  using cache_run_ok [OF assms] by (simp add: cache_ok_def max_entries_def max_bytes_def cache_size_def)

theorem cache_stays_bounded_witness:
  "cc_bytes (cg_cache (store 0 sample_key (new_cached 0 ''{}'') new_caching)) \<le> 33554432"
  using cache_stays_bounded [of "store 0 sample_key (new_cached 0 ''{}'') new_caching"] by (simp add: cache_run.intros)

text \<open>Two callers in flight share one load exactly when they ask for the same key.\<close>

theorem flights_are_shared_by_key:
  assumes "cache_run g" and "(k, f) \<in># cg_callers g" and "(k', f') \<in># cg_callers g"
  shows "k = k' \<longleftrightarrow> f = f'"
proof -
  have m: "map_of (cc_flights (cg_cache g)) k = Some f" "map_of (cc_flights (cg_cache g)) k' = Some f'"
    and d: "distinct (map snd (cc_flights (cg_cache g)))"
    using cache_run_ok [OF assms(1)] assms(2,3) by (auto simp: cache_ok_def)
  have "(k, f) \<in> set (cc_flights (cg_cache g))" "(k', f') \<in> set (cc_flights (cg_cache g))"
    using m by (auto dest: map_of_SomeD)
  then show ?thesis using m inj_onD [OF conjunct2 [OF d [unfolded distinct_map]], of "(k, f)" "(k', f')"] by auto
qed

theorem flights_are_shared_by_key_witness:
  "(sample_key, 0) \<in># cg_callers (take_off 0 sample_key (take_off 0 sample_key new_caching)) \<and>
   (sample_key = sample_key \<longleftrightarrow> (0::nat) = 0)"
proof -
  have "(sample_key, 0) \<in># cg_callers (take_off 0 sample_key (take_off 0 sample_key new_caching))"
    by (simp add: take_off_def join_flight_def expire_cache_def new_caching_def new_cache_def Let_def held_def max_entries_def)
  from this flights_are_shared_by_key [OF _ this this] show ?thesis by (simp add: cache_run.intros)
qed

end
