(* ===== verification/History_Records.thy ===== *)
theory History_Records
  imports Model Query_Types
begin

text \<open>
  \<open>crates/history\<close>, the rows of the journal: bounded text (\<open>types.rs\<close>), errors (\<open>error.rs\<close>), runs,
  events and gaps (\<open>records.rs\<close>) and the compact query rows (\<open>query_records.rs\<close>). JSON and SHA-256
  are parameters.
\<close>

section \<open>Bounded text\<close>

definition char_count :: "string \<Rightarrow> nat" where
  "char_count s = length (filter (\<lambda>c. \<not> (CHR 0x80 \<le> c \<and> c < CHR 0xC0)) s)"

definition bounded_text :: "nat \<Rightarrow> string \<Rightarrow> bool" where
  "bounded_text n s \<longleftrightarrow> s \<noteq> [] \<and> char_count s \<le> n \<and> CHR 0x00 \<notin> set s"

definition is_digest :: "string \<Rightarrow> bool" where
  "is_digest s \<longleftrightarrow> length s = 64 \<and> list_all (\<lambda>b. is_ascii_digit b \<or> (CHR ''a'' \<le> b \<and> b \<le> CHR ''f'')) s"

definition is_name :: "string \<Rightarrow> bool" where "is_name s \<longleftrightarrow> bounded_text 128 s"
definition is_resource :: "string \<Rightarrow> bool" where "is_resource s \<longleftrightarrow> bounded_text 2048 s"
definition is_evidence :: "string \<Rightarrow> bool" where "is_evidence s \<longleftrightarrow> bounded_text 1024 s"

section \<open>Errors\<close>

datatype query_failure = CheckViolation | NotNullViolation | ForeignKeyViolation | OtherFailure

datatype history_error =
  HConfiguration | HRecord | HConnection | HPool | HMigration | HQuery query_failure | HTask | HCapacity | HRevision

definition retryable_history :: "history_error \<Rightarrow> bool" where
  "retryable_history e \<longleftrightarrow> \<not> (e = HRecord \<or> e = HConfiguration) \<and>
     \<not> (case e of HQuery q \<Rightarrow> q = CheckViolation \<or> q = NotNullViolation \<or> q = ForeignKeyViolation | _ \<Rightarrow> False)"

section \<open>Rows\<close>

text \<open>\<open>records::digest\<close> of the tuples the rows are keyed by; \<open>None\<close> when encoding fails.\<close>

record digests =
  dg_run :: "check_result \<Rightarrow> string option"
  dg_event :: "transition \<Rightarrow> string option"
  dg_gap :: "instant \<Rightarrow> u64 \<Rightarrow> u64 \<Rightarrow> string option"

definition to_i64 :: "nat \<Rightarrow> nat option" where
  "to_i64 n = (if n < 2 ^ 63 then Some n else None)"

record run =
  rn_key :: string
  rn_target :: string
  rn_check :: check
  rn_started_at :: instant
  rn_finished_at :: instant
  rn_complete :: bool
  rn_observations :: nat
  rn_failures :: nat

definition new_run :: "digests \<Rightarrow> check_result \<Rightarrow> history_error + run" where
  "new_run dg r =
     (case (dg_run dg r, to_i64 (length (r_observations r)),
            to_i64 (length (filter (\<lambda>p. op_required p \<and> op_coverage p \<noteq> Complete) (r_operations r)))) of
        (Some k, Some n, Some m) \<Rightarrow>
          if is_digest k \<and> is_name (r_target r)
          then Inr \<lparr>rn_key = k, rn_target = r_target r, rn_check = r_check r, rn_started_at = r_started_at r,
                    rn_finished_at = max (r_finished_at r) (r_started_at r), rn_complete = result_complete r,
                    rn_observations = n, rn_failures = m\<rparr>
          else Inl HRecord
      | _ \<Rightarrow> Inl HRecord)"

record event_row =
  er_key :: string
  er_target :: string
  er_finding :: string
  er_resource :: string
  er_rule :: string
  er_kind :: transition_kind
  er_severity :: severity
  er_expected :: expected
  er_confidence :: confidence
  er_observed_at :: instant
  er_at :: instant
  er_stale :: bool
  er_evidence :: "string list"

definition new_event :: "digests \<Rightarrow> string \<Rightarrow> transition \<Rightarrow> finding \<Rightarrow> history_error + event_row" where
  "new_event dg target t f =
     (if 64 < length (f_evidence f) \<or> tr_finding t \<noteq> f_id f then Inl HRecord
      else case dg_event dg t of
             None \<Rightarrow> Inl HRecord
           | Some k \<Rightarrow>
               if is_digest k \<and> is_name target \<and> is_resource (f_id f) \<and> is_resource (f_resource f) \<and>
                  is_name (f_rule f) \<and> list_all is_evidence (f_evidence f)
               then Inr \<lparr>er_key = k, er_target = target, er_finding = f_id f, er_resource = f_resource f,
                         er_rule = f_rule f, er_kind = tr_kind t, er_severity = f_severity f,
                         er_expected = f_expected f, er_confidence = f_confidence f,
                         er_observed_at = f_observed_at f, er_at = tr_at t, er_stale = f_stale f,
                         er_evidence = f_evidence f\<rparr>
               else Inl HRecord)"

record gap =
  gp_key :: string
  gp_at :: instant
  gp_events :: nat
  gp_runs :: nat

definition new_gap :: "digests \<Rightarrow> instant \<Rightarrow> u64 \<Rightarrow> u64 \<Rightarrow> history_error + gap" where
  "new_gap dg now events runs =
     (case (dg_gap dg now events runs, to_i64 events, to_i64 runs) of
        (Some k, Some n, Some m) \<Rightarrow>
          if is_digest k then Inr \<lparr>gp_key = k, gp_at = now, gp_events = n, gp_runs = m\<rparr> else Inl HRecord
      | _ \<Rightarrow> Inl HRecord)"

section \<open>Query rows\<close>

text \<open>\<open>serde_json::Value\<close>, as far as \<open>validate\<close> looks at it.\<close>

datatype json =
    JString string
  | JArray "json list"
  | JObject "(string \<times> json) list"
  | JScalar

fun json_bounded :: "json \<Rightarrow> bool" where
  "json_bounded (JString s) \<longleftrightarrow> length s \<le> 4096 \<and> \<not> has_control s"
| "json_bounded (JArray a) \<longleftrightarrow> length a \<le> 256 \<and> list_all json_bounded a"
| "json_bounded (JObject fs) \<longleftrightarrow> list_all (\<lambda>(_, v). json_bounded v) fs"
| "json_bounded JScalar \<longleftrightarrow> True"

record record_codec =
  rc_value :: "q_record \<Rightarrow> json option"  \<comment> \<open>\<open>serde_json::to_value\<close>\<close>
  rc_length :: "q_record \<Rightarrow> usize option"  \<comment> \<open>the length of \<open>serde_json::to_vec\<close>\<close>

definition valid_text :: "string option \<Rightarrow> bool" where
  "valid_text v \<longleftrightarrow> is_none_or (\<lambda>s. is_resource s \<and> length s \<le> 2048) v"

definition valid_record :: "record_codec \<Rightarrow> q_record \<Rightarrow> bool" where
  "valid_record rc r \<longleftrightarrow>
     is_name (qs_target (qr_scope r)) \<and> is_resource (qs_scope (qr_scope r)) \<and> is_resource (qr_identity r) \<and>
     list_all valid_text [qr_resource r, ql_region (qr_location r), ql_cluster (qr_location r),
       ql_namespace (qr_location r), ql_service (qr_location r)] \<and>
     \<not> is_some_and (\<lambda>s. s = [] \<or> 253 < length s) (ql_hostname (qr_location r)) \<and>
     qr_observed_at r \<le> qr_last_observed_at r \<and>
     is_some_and json_bounded (rc_value rc r) \<and> is_some_and (\<lambda>n. n \<le> 16384) (rc_length rc r)"

record query_row =
  qw_key :: string
  qw_record :: q_record

definition new_query_row :: "record_codec \<Rightarrow> string \<Rightarrow> q_record \<Rightarrow> history_error + query_row" where
  "new_query_row rc k r = (if valid_record rc r then Inr \<lparr>qw_key = k, qw_record = r\<rparr> else Inl HRecord)"

end
