(* ===== verification/Journal.thy ===== *)
theory Journal
  imports History_Records Budget "HOL-Library.Multiset"
begin

text \<open>
  \<open>crates/history/src/journal.rs\<close> and \<open>journal_worker.rs\<close>: admission of records to a bounded queue
  and the one writer that drains it. Submissions and the steps of the writer interleave; one
  submission and one step of the writer are atomic here. The permits are counters of the
  admission budget. What a database call answers is an input.
\<close>

section \<open>State\<close>

record batch =
  ba_revision :: string
  ba_runs :: "run list"
  ba_events :: "event_row list"
  ba_records :: "query_row list"
  ba_gaps :: "gap list"
  ba_charges :: "usize list"

record status =
  su_available :: bool
  su_outstanding :: u64
  su_dropped_events :: u64
  su_dropped_runs :: u64
  su_pending_events :: u64
  su_pending_runs :: u64
  su_gaps :: u64
  su_last_write :: int  \<comment> \<open>milliseconds since the epoch, 0 for never\<close>

record journal_limits =
  jl_batches :: usize
  jl_bytes :: usize

record journal =
  jo_queue :: "batch list"
  jo_bytes :: budget
  jo_status :: status

definition new_journal :: "journal_limits \<Rightarrow> journal" where
  "new_journal jl = \<lparr>jo_queue = [], jo_bytes = new_budget (jl_bytes jl),
     jo_status = \<lparr>su_available = False, su_outstanding = 0, su_dropped_events = 0, su_dropped_runs = 0,
       su_pending_events = 0, su_pending_runs = 0, su_gaps = 0, su_last_write = 0\<rparr>\<rparr>"

definition drop_records :: "u64 \<Rightarrow> u64 \<Rightarrow> status \<Rightarrow> status" where
  "drop_records events runs s =
     s\<lparr>su_dropped_events := sat_add64 (su_dropped_events s) events,
       su_pending_events := sat_add64 (su_pending_events s) events,
       su_dropped_runs := sat_add64 (su_dropped_runs s) runs,
       su_pending_runs := sat_add64 (su_pending_runs s) runs, su_available := False\<rparr>"

section \<open>Submission\<close>

text \<open>\<open>reserve\<close>: the permits for twice the JSON and 512 bytes more; \<open>len\<close> is the length of the JSON.\<close>

definition reserve :: "('a \<Rightarrow> usize option) \<Rightarrow> 'a \<Rightarrow> journal \<Rightarrow> (history_error + usize) \<times> journal" where
  "reserve len v j =
     (case len v of
        None \<Rightarrow> (Inl HRecord, j)
      | Some n \<Rightarrow>
          (let bytes = sat_add64 (sat_mul64 n 2) 512
           in if u32_max < bytes then (Inl HCapacity, j)
              else (case try_acquire (jo_bytes j) bytes of
                      (b, True) \<Rightarrow> (Inr bytes, j\<lparr>jo_bytes := b\<rparr>)
                    | (_, False) \<Rightarrow> (Inl HCapacity, j))))"

text \<open>One loop of \<open>submit_queries\<close>: what fits below \<open>cap\<close> is taken with its permits, and every
  other item counts as dropped.\<close>

fun admit_items ::
  "('a \<Rightarrow> usize option) \<Rightarrow> usize \<Rightarrow> u64 \<times> u64 \<Rightarrow> (history_error + 'a) list \<Rightarrow> 'a list \<times> usize list \<times> journal \<Rightarrow>
   'a list \<times> usize list \<times> journal" where
  "admit_items len cap lost [] st = st"
| "admit_items len cap lost (Inl e # vs) (taken, charges, j) =
     admit_items len cap lost vs
       (taken, charges, j\<lparr>jo_status := drop_records (fst lost) (snd lost) (jo_status j)\<rparr>)"
| "admit_items len cap lost (Inr v # vs) (taken, charges, j) =
     (case reserve len v j of
        (Inl _, j) \<Rightarrow>
          admit_items len cap lost vs
            (taken, charges, j\<lparr>jo_status := drop_records (fst lost) (snd lost) (jo_status j)\<rparr>)
      | (Inr n, j) \<Rightarrow>
          if length taken < cap then admit_items len cap lost vs (taken @ [v], charges @ [n], j)
          else admit_items len cap lost vs
                 (taken, charges, j\<lparr>jo_bytes := drop_permit n (jo_bytes j),
                    jo_status := drop_records (fst lost) (snd lost) (jo_status j)\<rparr>))"

definition release_charges :: "usize list \<Rightarrow> journal \<Rightarrow> journal" where
  "release_charges ns j = j\<lparr>jo_bytes := fold drop_permit ns (jo_bytes j)\<rparr>"

definition batch_events :: "batch \<Rightarrow> nat" where
  "batch_events b = length (ba_events b) + length (ba_records b)"

text \<open>Dropping a batch returns its permits and takes it off the outstanding count.\<close>

definition drop_batch :: "batch \<Rightarrow> journal \<Rightarrow> journal" where
  "drop_batch b j =
     (let j = release_charges (ba_charges b) j
      in j\<lparr>jo_status := (jo_status j)\<lparr>su_outstanding := su_outstanding (jo_status j) - 1\<rparr>\<rparr>)"

record lengths =
  le_run :: "run \<Rightarrow> usize option"
  le_event :: "event_row \<Rightarrow> usize option"
  le_row :: "query_row \<Rightarrow> usize option"

definition submit ::
  "journal_limits \<Rightarrow> lengths \<Rightarrow> bool \<Rightarrow> string \<Rightarrow> (history_error + run) list \<Rightarrow> (history_error + event_row) list \<Rightarrow>
   (history_error + query_row) list \<Rightarrow> journal \<Rightarrow> journal" where
  "submit jl le shut revision runs events rows j =
     (let j = j\<lparr>jo_status := (jo_status j)\<lparr>su_outstanding := su_outstanding (jo_status j) + 1\<rparr>\<rparr>;
          (rs, charges, j) = admit_items (le_run le) 2048 (0, 1) runs ([], [], j);
          (es, charges, j) = admit_items (le_event le) 10000 (1, 0) events ([], charges, j);
          (qs, charges, j) = admit_items (le_row le) 20000 (1, 0) rows ([], charges, j);
          b = \<lparr>ba_revision = revision, ba_runs = rs, ba_events = es, ba_records = qs, ba_gaps = [],
               ba_charges = charges\<rparr>
      in if qs = [] \<and> rs = [] \<and> es = [] \<and> su_pending_events (jo_status j) = 0 \<and>
            su_pending_runs (jo_status j) = 0
         then drop_batch b j
         else if shut \<or> jl_batches jl \<le> length (jo_queue j)
         then (let j = j\<lparr>jo_status := drop_records (batch_events b) (length rs) (jo_status j)\<rparr> in drop_batch b j)
         else j\<lparr>jo_queue := jo_queue j @ [b]\<rparr>)"

section \<open>The writer\<close>

text \<open>Where the writer is: before the migration, at the head of its loop, with a batch in hand, or
  returned (with what it held).\<close>

datatype writer =
    Migrating
  | Idling
  | Writing batch
  | Returned "batch option"

text \<open>The writer with the revision it saw last.\<close>

record journaling =
  jn_journal :: journal
  jn_writer :: writer
  jn_revision :: "string option"

text \<open>\<open>status.pending\<close> goes into a gap of the batch.\<close>

definition take_gap :: "digests \<Rightarrow> instant \<Rightarrow> batch \<Rightarrow> journal \<Rightarrow> batch \<times> journal" where
  "take_gap dg now b j =
     (let s = jo_status j; events = su_pending_events s; runs = su_pending_runs s;
          j = j\<lparr>jo_status := s\<lparr>su_pending_events := 0, su_pending_runs := 0\<rparr>\<rparr>
      in if events \<noteq> 0 \<or> runs \<noteq> 0
         then (case new_gap dg now events runs of
                 Inr g \<Rightarrow> (b\<lparr>ba_gaps := ba_gaps b @ [g]\<rparr>, j)
               | Inl _ \<Rightarrow> (b, j))
         else (b, j))"

definition begin_write :: "digests \<Rightarrow> instant \<Rightarrow> batch \<Rightarrow> journaling \<Rightarrow> journaling" where
  "begin_write dg now b jn =
     (case take_gap dg now b (jn_journal jn) of
        (b, j) \<Rightarrow> jn\<lparr>jn_journal := j, jn_writer := Writing b, jn_revision := Some (ba_revision b)\<rparr>)"

definition has_pending :: "journal \<Rightarrow> bool" where
  "has_pending j \<longleftrightarrow> su_pending_events (jo_status j) \<noteq> 0 \<or> su_pending_runs (jo_status j) \<noteq> 0"

text \<open>The head of the loop: pending counts are written with the last revision before anything
  is received.\<close>

definition next_batch :: "digests \<Rightarrow> instant \<Rightarrow> journaling \<Rightarrow> journaling option" where
  "next_batch dg now jn =
     (let j = jn_journal jn
      in case (jn_revision jn, has_pending j, jo_queue j) of
           (Some revision, True, _) \<Rightarrow>
             (let j = j\<lparr>jo_status := (jo_status j)\<lparr>su_outstanding := su_outstanding (jo_status j) + 1\<rparr>\<rparr>
              in Some (begin_write dg now \<lparr>ba_revision = revision, ba_runs = [], ba_events = [],
                   ba_records = [], ba_gaps = [], ba_charges = []\<rparr> (jn\<lparr>jn_journal := j\<rparr>)))
         | (_, _, b # bs) \<Rightarrow> Some (begin_write dg now b (jn\<lparr>jn_journal := j\<lparr>jo_queue := bs\<rparr>\<rparr>))
         | _ \<Rightarrow> None)"

text \<open>The migration is done: the writer enters its loop.\<close>

definition initialized :: "nat option \<Rightarrow> journaling \<Rightarrow> journaling" where
  "initialized gaps jn =
     (let j = jn_journal jn; s = (jo_status j)\<lparr>su_available := True\<rparr>;
          s = (case gaps of None \<Rightarrow> s | Some n \<Rightarrow> s\<lparr>su_gaps := n\<rparr>)
      in jn\<lparr>jn_journal := j\<lparr>jo_status := s\<rparr>, jn_writer := Idling\<rparr>)"

text \<open>A maintenance tick: the retention pass and the number of gaps.\<close>

definition maintained :: "bool \<Rightarrow> nat option \<Rightarrow> journaling \<Rightarrow> journaling" where
  "maintained retained gaps jn =
     (let j = jn_journal jn; s = jo_status j;
          s = (case gaps of Some n \<Rightarrow> if retained then s\<lparr>su_gaps := n\<rparr> else s | None \<Rightarrow> s)
      in jn\<lparr>jn_journal := j\<lparr>jo_status := s\<lparr>su_available := retained\<rparr>\<rparr>\<rparr>)"

text \<open>A write that succeeded.\<close>

definition written :: "instant \<Rightarrow> batch \<Rightarrow> journaling \<Rightarrow> journaling" where
  "written now b jn =
     (let j = jn_journal jn; s = jo_status j;
          s = s\<lparr>su_gaps := su_gaps s + length (ba_gaps b), su_available := True,
                su_last_write := now div 1000000\<rparr>
      in jn\<lparr>jn_journal := drop_batch b (j\<lparr>jo_status := s\<rparr>), jn_writer := Idling\<rparr>)"

text \<open>A batch the database rejects for good: its records count as dropped, and its gaps are pending
  again. A batch with nothing but gaps ends the writer.\<close>

definition restore_gap :: "gap \<Rightarrow> status \<Rightarrow> status" where
  "restore_gap g s = s\<lparr>su_pending_events := su_pending_events s + gp_events g,
     su_pending_runs := su_pending_runs s + gp_runs g\<rparr>"

definition rejected :: "batch \<Rightarrow> journaling \<Rightarrow> journaling" where
  "rejected b jn =
     (let j = jn_journal jn;
          s = drop_records (batch_events b) (length (ba_runs b)) (jo_status j)
      in if ba_events b = [] \<and> ba_runs b = [] \<and> ba_records b = []
         then jn\<lparr>jn_journal := drop_batch b (j\<lparr>jo_status := s\<lparr>su_available := False\<rparr>\<rparr>),
                 jn_writer := Returned (Some b)\<rparr>
         else jn\<lparr>jn_journal := drop_batch b (j\<lparr>jo_status := fold restore_gap (ba_gaps b) s\<rparr>),
                 jn_writer := Idling\<rparr>)"

definition write_result :: "instant \<Rightarrow> batch \<Rightarrow> history_error + unit \<Rightarrow> journaling \<Rightarrow> journaling" where
  "write_result now b outcome jn =
     (case outcome of
        Inr _ \<Rightarrow> written now b jn
      | Inl e \<Rightarrow>
          if \<not> retryable_history e then rejected b jn
          else jn\<lparr>jn_journal := (jn_journal jn)
                    \<lparr>jo_status := (jo_status (jn_journal jn))\<lparr>su_available := False\<rparr>\<rparr>\<rparr>)"

text \<open>Cancellation: the batch in hand is dropped with the task.\<close>

definition stopped :: "journaling \<Rightarrow> journaling" where
  "stopped jn =
     (let quit = (\<lambda>j. j\<lparr>jo_status := (jo_status j)\<lparr>su_available := False\<rparr>\<rparr>)
      in case jn_writer jn of
           Returned x \<Rightarrow> jn
         | Writing b \<Rightarrow> jn\<lparr>jn_journal := quit (drop_batch b (jn_journal jn)), jn_writer := Returned (Some b)\<rparr>
         | _ \<Rightarrow> jn\<lparr>jn_journal := quit (jn_journal jn), jn_writer := Returned None\<rparr>)"

text \<open>\<open>health\<close>: available, last persisted, dropped events and runs, queued batches, gaps.\<close>

definition journal_health :: "journal \<Rightarrow> bool \<times> instant option \<times> u64 \<times> u64 \<times> usize \<times> u64" where
  "journal_health j =
     (let s = jo_status j
      in (su_available s, if su_last_write s \<noteq> 0 then Some (su_last_write s * 1000000) else None,
          su_dropped_events s, su_dropped_runs s, length (jo_queue j), su_gaps s))"

text \<open>\<open>flush\<close> looks at three counters, one after the other; here at once.\<close>

definition flushed :: "journal \<Rightarrow> bool" where
  "flushed j \<longleftrightarrow> su_outstanding (jo_status j) = 0 \<and> su_pending_events (jo_status j) = 0 \<and>
     su_pending_runs (jo_status j) = 0"

end
