(* ===== verification/Journal_Properties.thy ===== *)
theory Journal_Properties
  imports Journal
begin

text \<open>
  Every record offered to the journal is written, queued, in the writer's hand or counted as
  dropped, and every dropped record is pending or in a gap; the queue stays within its budget.
\<close>

section \<open>Runs\<close>

text \<open>What has been offered, written and recorded in gaps so far.\<close>

record books =
  bk_offered_events :: nat
  bk_offered_runs :: nat
  bk_written_events :: nat
  bk_written_runs :: nat
  bk_gap_events :: nat
  bk_gap_runs :: nat

definition gap_events :: "gap list \<Rightarrow> nat" where "gap_events gs = sum_list (map gp_events gs)"
definition gap_runs :: "gap list \<Rightarrow> nat" where "gap_runs gs = sum_list (map gp_runs gs)"

inductive journal_run :: "journal_limits \<Rightarrow> digests \<Rightarrow> lengths \<Rightarrow> journaling \<Rightarrow> books \<Rightarrow> bool"
  for jl dg le where
  opened: "journal_run jl dg le \<lparr>jn_journal = new_journal jl, jn_writer = Migrating, jn_revision = None\<rparr>
     \<lparr>bk_offered_events = 0, bk_offered_runs = 0, bk_written_events = 0, bk_written_runs = 0,
      bk_gap_events = 0, bk_gap_runs = 0\<rparr>"
| submission: "journal_run jl dg le jn bk \<Longrightarrow>
     journal_run jl dg le (jn\<lparr>jn_journal := submit jl le shut revision runs events rows (jn_journal jn)\<rparr>)
       (bk\<lparr>bk_offered_events := bk_offered_events bk + length events + length rows,
           bk_offered_runs := bk_offered_runs bk + length runs\<rparr>)"
| migration: "journal_run jl dg le jn bk \<Longrightarrow> jn_writer jn = Migrating \<Longrightarrow>
     journal_run jl dg le (initialized n jn) bk"
| upkeep: "journal_run jl dg le jn bk \<Longrightarrow> jn_writer jn = Idling \<Longrightarrow>
     journal_run jl dg le (maintained ok n jn) bk"
| fetch: "journal_run jl dg le jn bk \<Longrightarrow> jn_writer jn = Idling \<Longrightarrow> next_batch dg now jn = Some jn' \<Longrightarrow>
     journal_run jl dg le jn' bk"
| success: "journal_run jl dg le jn bk \<Longrightarrow> jn_writer jn = Writing b \<Longrightarrow>
     journal_run jl dg le (write_result now b (Inr ()) jn)
       (bk\<lparr>bk_written_events := bk_written_events bk + batch_events b,
           bk_written_runs := bk_written_runs bk + length (ba_runs b),
           bk_gap_events := bk_gap_events bk + gap_events (ba_gaps b),
           bk_gap_runs := bk_gap_runs bk + gap_runs (ba_gaps b)\<rparr>)"
| failure: "journal_run jl dg le jn bk \<Longrightarrow> jn_writer jn = Writing b \<Longrightarrow>
     journal_run jl dg le (write_result now b (Inl e) jn) bk"
| cancel: "journal_run jl dg le jn bk \<Longrightarrow> journal_run jl dg le (stopped jn) bk"

section \<open>The invariant\<close>

definition in_hand :: "writer \<Rightarrow> batch list" where
  "in_hand w = (case w of Writing b \<Rightarrow> [b] | Returned (Some b) \<Rightarrow> [b] | _ \<Rightarrow> [])"

definition writing :: "writer \<Rightarrow> batch list" where
  "writing w = (case w of Writing b \<Rightarrow> [b] | _ \<Rightarrow> [])"

definition events_of :: "batch list \<Rightarrow> nat" where "events_of bs = sum_list (map batch_events bs)"
definition runs_of :: "batch list \<Rightarrow> nat" where "runs_of bs = sum_list (map (\<lambda>b. length (ba_runs b)) bs)"
definition gaps_of :: "batch list \<Rightarrow> gap list" where "gaps_of bs = concat (map ba_gaps bs)"
definition charges_of :: "batch list \<Rightarrow> nat" where "charges_of bs = sum_list (map (\<lambda>b. sum_list (ba_charges b)) bs)"

definition balanced :: "journaling \<Rightarrow> books \<Rightarrow> bool" where
  "balanced jn bk \<longleftrightarrow>
     (let s = jo_status (jn_journal jn); q = jo_queue (jn_journal jn); h = in_hand (jn_writer jn)
      in bk_offered_events bk = bk_written_events bk + events_of q + events_of h + su_dropped_events s \<and>
         bk_offered_runs bk = bk_written_runs bk + runs_of q + runs_of h + su_dropped_runs s \<and>
         su_dropped_events s = su_pending_events s + gap_events (gaps_of h) + bk_gap_events bk \<and>
         su_dropped_runs s = su_pending_runs s + gap_runs (gaps_of h) + bk_gap_runs bk \<and>
         gaps_of q = [])"

definition charged_exactly :: "journaling \<Rightarrow> bool" where
  "charged_exactly jn \<longleftrightarrow>
     (let j = jn_journal jn
      in b_used (jo_bytes j) = charges_of (jo_queue j) + charges_of (writing (jn_writer jn)) \<and>
         b_used (jo_bytes j) \<le> b_limit (jo_bytes j) \<and> b_used (jo_bytes j) \<le> u64_max \<and>
         su_outstanding (jo_status j) = length (jo_queue j) + length (writing (jn_writer jn)))"

lemma lists_simps [simp]:
  "events_of [] = 0" "runs_of [] = 0" "gaps_of [] = []" "charges_of [] = 0"
  "events_of (b # bs) = batch_events b + events_of bs" "runs_of (b # bs) = length (ba_runs b) + runs_of bs"
  "gaps_of (b # bs) = ba_gaps b @ gaps_of bs" "charges_of (b # bs) = sum_list (ba_charges b) + charges_of bs"
  "events_of (bs @ cs) = events_of bs + events_of cs" "runs_of (bs @ cs) = runs_of bs + runs_of cs"
  "gaps_of (bs @ cs) = gaps_of bs @ gaps_of cs" "charges_of (bs @ cs) = charges_of bs + charges_of cs"
  "gap_events [] = 0" "gap_runs [] = 0" "gap_events (gs @ hs) = gap_events gs + gap_events hs"
  "gap_runs (gs @ hs) = gap_runs gs + gap_runs hs" "gap_events (g # gs) = gp_events g + gap_events gs"
  "gap_runs (g # gs) = gp_runs g + gap_runs gs"
  by (simp_all add: events_of_def runs_of_def gaps_of_def charges_of_def gap_events_def gap_runs_def)

lemma in_hand_simps [simp]:
  "in_hand Migrating = []" "in_hand Idling = []" "in_hand (Writing b) = [b]" "in_hand (Returned (Some b)) = [b]"
  "in_hand (Returned None) = []" "writing Migrating = []" "writing Idling = []" "writing (Writing b) = [b]"
  "writing (Returned x) = []"
  by (simp_all add: in_hand_def writing_def)

lemma drop_permits:
  "sum_list ns \<le> b_used b \<Longrightarrow> b_used b \<le> u64_max \<Longrightarrow>
   b_used (fold drop_permit ns b) = b_used b - sum_list ns \<and> b_limit (fold drop_permit ns b) = b_limit b"
proof (induction ns arbitrary: b)
  case (Cons n ns)
  have "b_used (drop_permit n b) = b_used b - n" "b_limit (drop_permit n b) = b_limit b"
    using Cons.prems by (simp_all add: drop_permit_def wrapping_sub64_exact)
  then show ?case using Cons.IH [of "drop_permit n b"] Cons.prems by simp
qed simp

text \<open>What the admission of a list of items does to the counters.\<close>

definition sound_bytes :: "budget \<Rightarrow> bool" where
  "sound_bytes b \<longleftrightarrow> b_used b \<le> b_limit b \<and> b_used b \<le> u64_max"

lemma reserve_cases:
  assumes "sound_bytes (jo_bytes j)"
  obtains (refused) e where "reserve len v j = (Inl e, j)"
  | (granted) n where "reserve len v j = (Inr n, j\<lparr>jo_bytes := (jo_bytes j)\<lparr>b_used := b_used (jo_bytes j) + n\<rparr>\<rparr>)"
      "sound_bytes ((jo_bytes j)\<lparr>b_used := b_used (jo_bytes j) + n\<rparr>)"
proof (cases "len v")
  case None
  then show ?thesis using refused by (simp add: reserve_def)
next
  case (Some m)
  let ?n = "sat_add64 (sat_mul64 m 2) 512"
  show ?thesis
  proof (cases "?n \<le> u32_max \<and> b_used (jo_bytes j) + ?n \<le> min u64_max (b_limit (jo_bytes j))")
    case True
    then show ?thesis using granted [of ?n] Some
      by (simp add: reserve_def Let_def try_acquire_def sound_bytes_def)
  next
    case False
    then show ?thesis using refused Some by (auto simp: reserve_def Let_def try_acquire_def)
  qed
qed

lemma drop_records_exact:
  assumes "su_dropped_events s + e \<le> u64_max" "su_dropped_runs s + r \<le> u64_max"
    and "su_pending_events s \<le> su_dropped_events s" "su_pending_runs s \<le> su_dropped_runs s"
  shows "drop_records e r s = s\<lparr>su_dropped_events := su_dropped_events s + e,
     su_pending_events := su_pending_events s + e, su_dropped_runs := su_dropped_runs s + r,
     su_pending_runs := su_pending_runs s + r, su_available := False\<rparr>"
  using assms by (simp add: drop_records_def sat_add64_exact)

definition settled :: "nat \<Rightarrow> nat \<Rightarrow> journal \<Rightarrow> bool" where
  "settled e r j \<longleftrightarrow> sound_bytes (jo_bytes j) \<and>
     su_dropped_events (jo_status j) + e \<le> u64_max \<and> su_dropped_runs (jo_status j) + r \<le> u64_max \<and>
     su_pending_events (jo_status j) \<le> su_dropped_events (jo_status j) \<and>
     su_pending_runs (jo_status j) \<le> su_dropped_runs (jo_status j)"

text \<open>\<open>j'\<close> is \<open>j\<close> after \<open>n\<close> items of weight \<open>lost\<close> were dropped and \<open>c\<close> permits charged.\<close>

definition moved :: "nat \<times> nat \<Rightarrow> nat \<Rightarrow> nat \<Rightarrow> journal \<Rightarrow> journal \<Rightarrow> bool" where
  "moved lost n c j j' \<longleftrightarrow> jo_queue j' = jo_queue j \<and>
     b_used (jo_bytes j') = b_used (jo_bytes j) + c \<and> b_limit (jo_bytes j') = b_limit (jo_bytes j) \<and>
     sound_bytes (jo_bytes j') \<and>
     su_outstanding (jo_status j') = su_outstanding (jo_status j) \<and>
     su_dropped_events (jo_status j') = su_dropped_events (jo_status j) + fst lost * n \<and>
     su_dropped_runs (jo_status j') = su_dropped_runs (jo_status j) + snd lost * n \<and>
     su_pending_events (jo_status j') = su_pending_events (jo_status j) + fst lost * n \<and>
     su_pending_runs (jo_status j') = su_pending_runs (jo_status j) + snd lost * n"

lemma moved_drop:
  assumes "settled (fst lost * Suc n) (snd lost * Suc n) j"
  shows "moved lost 1 0 j (j\<lparr>jo_status := drop_records (fst lost) (snd lost) (jo_status j)\<rparr>)"
    and "settled (fst lost * n) (snd lost * n) (j\<lparr>jo_status := drop_records (fst lost) (snd lost) (jo_status j)\<rparr>)"
  using assms by (auto simp: settled_def moved_def drop_records_exact)

lemma moved_trans: "moved lost n c j j' \<Longrightarrow> moved lost n' c' j' j'' \<Longrightarrow> moved lost (n + n') (c + c') j j''"
  by (simp add: moved_def distrib_left)

lemma moved_refl: "sound_bytes (jo_bytes j) \<Longrightarrow> moved lost 0 0 j j"
  by (simp add: moved_def)

lemma admit_items_moved:
  assumes "admit_items len cap lost vs (taken, charges, j) = (taken', charges', j')"
    and "settled (fst lost * length vs) (snd lost * length vs) j"
  obtains n c where "moved lost n c j j'" "length taken' + n = length taken + length vs"
    "sum_list charges' = sum_list charges + c"
  using assms
proof (induction vs arbitrary: taken charges j thesis)
  case Nil
  then show ?case using moved_refl [of j lost] by (fastforce simp: settled_def)
next
  case (Cons v vs)
  let ?dropped = "j\<lparr>jo_status := drop_records (fst lost) (snd lost) (jo_status j)\<rparr>"
  note drop = moved_drop [OF Cons.prems(3) [unfolded list.size add_Suc_right add_0_right]]
  have lost: thesis if "admit_items len cap lost vs (taken, charges, ?dropped) = (taken', charges', j')"
  proof (rule Cons.IH [OF _ that drop(2)])
    fix n c
    assume "moved lost n c ?dropped j'" "length taken' + n = length taken + length vs"
      "sum_list charges' = sum_list charges + c"
    then show thesis using Cons.prems(1) [OF moved_trans [OF drop(1)]] by simp
  qed
  show ?case
  proof (cases v)
    case (Inl e)
    then show ?thesis using Cons.prems(2) lost by simp
  next
    case (Inr x)
    have sb: "sound_bytes (jo_bytes j)" using Cons.prems(3) by (simp add: settled_def)
    show ?thesis
    proof (cases rule: reserve_cases [OF sb, of len x])
      case (1 e)
      then show ?thesis using Cons.prems(2) lost Inr by simp
    next
      case (2 n)
      let ?charged = "j\<lparr>jo_bytes := (jo_bytes j)\<lparr>b_used := b_used (jo_bytes j) + n\<rparr>\<rparr>"
      show ?thesis
      proof (cases "length taken < cap")
        case True
        have step: "moved lost 0 n j ?charged" using 2(2) by (simp add: moved_def)
        have ok: "settled (fst lost * length vs) (snd lost * length vs) ?charged"
          using Cons.prems(3) 2(2) by (auto simp: settled_def)
        show ?thesis
        proof (rule Cons.IH [OF _ _ ok])
          show "admit_items len cap lost vs (taken @ [x], charges @ [n], ?charged) = (taken', charges', j')"
            using Cons.prems(2) Inr 2(1) True by simp
          fix m c
          assume "moved lost m c ?charged j'" "length taken' + m = length (taken @ [x]) + length vs"
            "sum_list charges' = sum_list (charges @ [n]) + c"
          then show thesis using Cons.prems(1) [OF moved_trans [OF step]] by simp
        qed
      next
        case False
        have "drop_permit n ((jo_bytes j)\<lparr>b_used := b_used (jo_bytes j) + n\<rparr>) = jo_bytes j"
          using 2(2) by (simp add: drop_permit_def sound_bytes_def wrapping_sub64_exact)
        then show ?thesis using Cons.prems(2) Inr 2(1) False lost by simp
      qed
    qed
  qed
qed

text \<open>A batch that is dropped.\<close>

lemma drop_batch_moved:
  assumes "sum_list (ba_charges b) \<le> b_used (jo_bytes j)" and "b_used (jo_bytes j) \<le> u64_max"
  shows "jo_queue (drop_batch b j) = jo_queue j"
    "b_used (jo_bytes (drop_batch b j)) = b_used (jo_bytes j) - sum_list (ba_charges b)"
    "b_limit (jo_bytes (drop_batch b j)) = b_limit (jo_bytes j)"
    "jo_status (drop_batch b j) = (jo_status j)\<lparr>su_outstanding := su_outstanding (jo_status j) - 1\<rparr>"
  using drop_permits [OF assms] by (simp_all add: drop_batch_def release_charges_def Let_def)

definition accounted :: "journaling \<Rightarrow> books \<Rightarrow> bool" where
  "accounted jn bk \<longleftrightarrow> balanced jn bk \<and> charged_exactly jn"

lemma accounted_settled:
  assumes "accounted jn bk" and "bk_offered_events bk + e < 2 ^ 63" and "bk_offered_runs bk + r < 2 ^ 63"
  shows "settled e r (jn_journal jn)"
  using assms by (auto simp: accounted_def balanced_def charged_exactly_def settled_def sound_bytes_def Let_def u64_max_def)

lemma submit_accounted:
  assumes "accounted jn bk" and "bk_offered_events bk + length events + length rows < 2 ^ 63"
    and "bk_offered_runs bk + length runs < 2 ^ 63"
  shows "accounted (jn\<lparr>jn_journal := submit jl le shut revision runs events rows (jn_journal jn)\<rparr>)
     (bk\<lparr>bk_offered_events := bk_offered_events bk + length events + length rows,
         bk_offered_runs := bk_offered_runs bk + length runs\<rparr>)"
proof -
  define j0 where "j0 = (jn_journal jn)\<lparr>jo_status := (jo_status (jn_journal jn))
    \<lparr>su_outstanding := su_outstanding (jo_status (jn_journal jn)) + 1\<rparr>\<rparr>"
  have s0: "settled (length events + length rows) (length runs) j0"
    using accounted_settled [OF assms(1), of "length events + length rows" "length runs"] assms(2,3)
    by (simp add: j0_def settled_def add.assoc)
  obtain rs c1 j1 where a1: "admit_items (le_run le) 2048 (0, 1) runs ([], [], j0) = (rs, c1, j1)" by (metis prod_cases3)
  obtain n1 d1 where m1: "moved (0, 1) n1 d1 j0 j1" "length rs + n1 = length runs" "sum_list c1 = d1"
    using admit_items_moved [OF a1] s0 by (auto simp: settled_def)
  have s1: "settled (length events + length rows) 0 j1"
    using s0 m1 by (auto simp: settled_def moved_def)
  obtain es c2 j2 where a2: "admit_items (le_event le) 10000 (1, 0) events ([], c1, j1) = (es, c2, j2)" by (metis prod_cases3)
  obtain n2 d2 where m2: "moved (1, 0) n2 d2 j1 j2" "length es + n2 = length events" "sum_list c2 = d1 + d2"
    using admit_items_moved [OF a2] s1 m1(3) by (auto simp: settled_def)
  have s2: "settled (length rows) 0 j2"
    using s1 m2 by (auto simp: settled_def moved_def)
  obtain qs c3 j3 where a3: "admit_items (le_row le) 20000 (1, 0) rows ([], c2, j2) = (qs, c3, j3)" by (metis prod_cases3)
  obtain n3 d3 where m3: "moved (1, 0) n3 d3 j2 j3" "length qs + n3 = length rows" "sum_list c3 = d1 + d2 + d3"
    using admit_items_moved [OF a3] s2 m2(3) by (auto simp: settled_def)
  define b where "b = \<lparr>ba_revision = revision, ba_runs = rs, ba_events = es, ba_records = qs, ba_gaps = [], ba_charges = c3\<rparr>"
  define j' where "j' = submit jl le shut revision runs events rows (jn_journal jn)"
  have run: "j' =
      (if qs = [] \<and> rs = [] \<and> es = [] \<and> su_pending_events (jo_status j3) = 0 \<and> su_pending_runs (jo_status j3) = 0
       then drop_batch b j3
       else if shut \<or> jl_batches jl \<le> length (jo_queue j3)
       then drop_batch b (j3\<lparr>jo_status := drop_records (batch_events b) (length rs) (jo_status j3)\<rparr>)
       else j3\<lparr>jo_queue := jo_queue j3 @ [b]\<rparr>)"
    unfolding j'_def submit_def Let_def j0_def [symmetric] a1 prod.case a2 a3 b_def [symmetric]
    by (simp add: b_def)
  have used: "sum_list (ba_charges b) \<le> b_used (jo_bytes j3)" "b_used (jo_bytes j3) \<le> u64_max"
    "b_used (jo_bytes j3) \<le> b_limit (jo_bytes j3)"
    using m1 m2 m3 by (auto simp: moved_def sound_bytes_def b_def)
  have rejectable: "drop_records (batch_events b) (length rs) (jo_status j3) =
      (jo_status j3)\<lparr>su_dropped_events := su_dropped_events (jo_status j3) + batch_events b,
        su_pending_events := su_pending_events (jo_status j3) + batch_events b,
        su_dropped_runs := su_dropped_runs (jo_status j3) + length rs,
        su_pending_runs := su_pending_runs (jo_status j3) + length rs, su_available := False\<rparr>"
    using s0 m1 m2 m3 by (intro drop_records_exact) (auto simp: settled_def moved_def b_def batch_events_def)
  have b_fields: "ba_runs b = rs" "ba_gaps b = []" "batch_events b = length es + length qs"
    "sum_list (ba_charges b) = d1 + d2 + d3"
    using m3(3) by (simp_all add: b_def batch_events_def)
  have j3: "jo_queue j3 = jo_queue (jn_journal jn)" "b_limit (jo_bytes j3) = b_limit (jo_bytes (jn_journal jn))"
    "b_used (jo_bytes j3) = b_used (jo_bytes (jn_journal jn)) + (d1 + d2 + d3)"
    "su_outstanding (jo_status j3) = Suc (su_outstanding (jo_status (jn_journal jn)))"
    "su_dropped_events (jo_status j3) = su_dropped_events (jo_status (jn_journal jn)) + (n2 + n3)"
    "su_dropped_runs (jo_status j3) = su_dropped_runs (jo_status (jn_journal jn)) + n1"
    "su_pending_events (jo_status j3) = su_pending_events (jo_status (jn_journal jn)) + (n2 + n3)"
    "su_pending_runs (jo_status j3) = su_pending_runs (jo_status (jn_journal jn)) + n1"
    using m1(1) m2(1) m3(1) by (simp_all add: moved_def j0_def)
  note old = assms(1) [unfolded accounted_def balanced_def charged_exactly_def Let_def]
  consider (dropped) "j' = drop_batch b j3" "qs = []" "rs = []" "es = []"
    | (full) "j' = drop_batch b (j3\<lparr>jo_status := drop_records (batch_events b) (length rs) (jo_status j3)\<rparr>)"
    | (queued) "j' = j3\<lparr>jo_queue := jo_queue j3 @ [b]\<rparr>"
    using run by (auto split: if_splits)
  then show ?thesis
  proof cases
    case dropped
    have d: "d1 + d2 + d3 \<le> b_used (jo_bytes j3)" using used(1) b_fields by simp
    show ?thesis unfolding j'_def [symmetric] dropped(1) accounted_def balanced_def charged_exactly_def Let_def
      using old m1(2) m2(2) m3(2) dropped used b_fields j3 drop_batch_moved [OF used(1,2)] by simp
  next
    case full
    have used': "sum_list (ba_charges b) \<le> b_used (jo_bytes (j3\<lparr>jo_status := t\<rparr>))"
      "b_used (jo_bytes (j3\<lparr>jo_status := t\<rparr>)) \<le> u64_max" for t
      using used by simp_all
    show ?thesis unfolding j'_def [symmetric] full rejectable accounted_def balanced_def charged_exactly_def Let_def
      using old m1(2) m2(2) m3(2) full used b_fields j3 drop_batch_moved [OF used'] by simp
  next
    case queued
    show ?thesis unfolding j'_def [symmetric] queued accounted_def balanced_def charged_exactly_def Let_def
      using old m1(2) m2(2) m3(2) queued used b_fields j3 by simp
  qed
qed

text \<open>The writer's steps.\<close>

definition digests_ok :: "digests \<Rightarrow> bool" where
  "digests_ok dg \<longleftrightarrow> (\<forall>now e r. is_some_and is_digest (dg_gap dg now e r))"

lemma take_gap_cases:
  assumes "digests_ok dg" and "su_pending_events (jo_status j) < 2 ^ 63" and "su_pending_runs (jo_status j) < 2 ^ 63"
  obtains gs where "take_gap dg now b j = (b\<lparr>ba_gaps := ba_gaps b @ gs\<rparr>,
       j\<lparr>jo_status := (jo_status j)\<lparr>su_pending_events := 0, su_pending_runs := 0\<rparr>\<rparr>)"
    and "gap_events gs = su_pending_events (jo_status j)" and "gap_runs gs = su_pending_runs (jo_status j)"
proof (cases "su_pending_events (jo_status j) = 0 \<and> su_pending_runs (jo_status j) = 0")
  case True
  then show ?thesis using that [of "[]"] by (simp add: take_gap_def Let_def)
next
  case False
  obtain k where "dg_gap dg now (su_pending_events (jo_status j)) (su_pending_runs (jo_status j)) = Some k" "is_digest k"
    using assms(1) by (metis digests_ok_def is_some_and_iff)
  then have "new_gap dg now (su_pending_events (jo_status j)) (su_pending_runs (jo_status j)) =
      Inr \<lparr>gp_key = k, gp_at = now, gp_events = su_pending_events (jo_status j), gp_runs = su_pending_runs (jo_status j)\<rparr>"
    using assms(2,3) by (simp add: new_gap_def to_i64_def)
  then show ?thesis
    using that [of "[\<lparr>gp_key = k, gp_at = now, gp_events = su_pending_events (jo_status j), gp_runs = su_pending_runs (jo_status j)\<rparr>]"] False
    by (auto simp: take_gap_def Let_def)
qed

lemma begin_write_accounted:
  assumes "digests_ok dg" and "su_pending_events (jo_status (jn_journal jn)) < 2 ^ 63"
    and "su_pending_runs (jo_status (jn_journal jn)) < 2 ^ 63" and "jn_writer jn = Idling"
    and "accounted (jn\<lparr>jn_writer := Writing b\<rparr>) bk"
  shows "accounted (begin_write dg now b jn) bk"
proof -
  obtain gs where "take_gap dg now b (jn_journal jn) = (b\<lparr>ba_gaps := ba_gaps b @ gs\<rparr>,
      (jn_journal jn)\<lparr>jo_status := (jo_status (jn_journal jn))\<lparr>su_pending_events := 0, su_pending_runs := 0\<rparr>\<rparr>)"
    "gap_events gs = su_pending_events (jo_status (jn_journal jn))"
    "gap_runs gs = su_pending_runs (jo_status (jn_journal jn))"
    using take_gap_cases [OF assms(1-3)] by metis
  then show ?thesis using assms(4,5)
    by (simp add: begin_write_def accounted_def balanced_def charged_exactly_def Let_def batch_events_def)
qed

lemma next_batch_accounted:
  assumes "digests_ok dg" and "su_pending_events (jo_status (jn_journal jn)) < 2 ^ 63"
    and "su_pending_runs (jo_status (jn_journal jn)) < 2 ^ 63" and "jn_writer jn = Idling"
    and "next_batch dg now jn = Some jn'" and "accounted jn bk"
  shows "accounted jn' bk"
proof -
  define owed where "owed = (jn_journal jn)\<lparr>jo_status := (jo_status (jn_journal jn))
    \<lparr>su_outstanding := su_outstanding (jo_status (jn_journal jn)) + 1\<rparr>\<rparr>"
  consider (pending) revision where "jn' = begin_write dg now \<lparr>ba_revision = revision, ba_runs = [], ba_events = [],
        ba_records = [], ba_gaps = [], ba_charges = []\<rparr> (jn\<lparr>jn_journal := owed\<rparr>)"
    | (queued) b bs where "jo_queue (jn_journal jn) = b # bs"
      "jn' = begin_write dg now b (jn\<lparr>jn_journal := (jn_journal jn)\<lparr>jo_queue := bs\<rparr>\<rparr>)"
    using assms(5) by (auto simp: next_batch_def Let_def owed_def split: option.splits bool.splits list.splits)
  then show ?thesis
  proof cases
    case pending
    show ?thesis unfolding pending
      by (rule begin_write_accounted) (use assms in \<open>simp_all add: owed_def accounted_def balanced_def
          charged_exactly_def Let_def batch_events_def\<close>)
  next
    case queued
    show ?thesis unfolding queued(2)
      by (rule begin_write_accounted) (use assms queued(1) in \<open>simp_all add: accounted_def balanced_def
          charged_exactly_def Let_def\<close>)
  qed
qed

lemma hand_charges:
  assumes "accounted jn bk" and "jn_writer jn = Writing b"
  shows "sum_list (ba_charges b) \<le> b_used (jo_bytes (jn_journal jn))" "b_used (jo_bytes (jn_journal jn)) \<le> u64_max"
  using assms by (auto simp: accounted_def charged_exactly_def Let_def)

lemma written_accounted:
  assumes "accounted jn bk" and "jn_writer jn = Writing b"
  shows "accounted (written now b jn)
       (bk\<lparr>bk_written_events := bk_written_events bk + batch_events b,
           bk_written_runs := bk_written_runs bk + length (ba_runs b),
           bk_gap_events := bk_gap_events bk + gap_events (ba_gaps b),
           bk_gap_runs := bk_gap_runs bk + gap_runs (ba_gaps b)\<rparr>)"
  using assms drop_batch_moved [of b "(jn_journal jn)\<lparr>jo_status := t\<rparr>" for t] hand_charges [OF assms]
  by (simp add: written_def accounted_def balanced_def charged_exactly_def Let_def)

lemma restore_gaps:
  "fold restore_gap gs s = s\<lparr>su_pending_events := su_pending_events s + gap_events gs,
     su_pending_runs := su_pending_runs s + gap_runs gs\<rparr>"
  by (induction gs arbitrary: s) (simp_all add: restore_gap_def)

lemma rejected_accounted:
  assumes "accounted jn bk" and "jn_writer jn = Writing b"
    and "bk_offered_events bk < 2 ^ 63" and "bk_offered_runs bk < 2 ^ 63"
  shows "accounted (rejected b jn) bk"
proof -
  let ?s = "jo_status (jn_journal jn)"
  have exact: "drop_records e r ?s = ?s\<lparr>su_dropped_events := su_dropped_events ?s + e,
      su_pending_events := su_pending_events ?s + e, su_dropped_runs := su_dropped_runs ?s + r,
      su_pending_runs := su_pending_runs ?s + r, su_available := False\<rparr>"
    if "e \<le> batch_events b" "r \<le> length (ba_runs b)" for e r
    using assms that by (intro drop_records_exact) (auto simp: accounted_def balanced_def Let_def u64_max_def)
  show ?thesis
  proof (cases "ba_events b = [] \<and> ba_runs b = [] \<and> ba_records b = []")
    case True
    then show ?thesis
      using assms(1,2) drop_batch_moved [of b "(jn_journal jn)\<lparr>jo_status := t\<rparr>" for t] hand_charges [OF assms(1,2)]
      by (simp add: rejected_def accounted_def balanced_def charged_exactly_def Let_def exact batch_events_def)
  next
    case False
    then show ?thesis
      using assms(1,2) drop_batch_moved [of b "(jn_journal jn)\<lparr>jo_status := t\<rparr>" for t] hand_charges [OF assms(1,2)]
      by (auto simp add: rejected_def accounted_def balanced_def charged_exactly_def Let_def exact restore_gaps)
  qed
qed

lemma journal_run_accounted:
  assumes "journal_run jl dg le jn bk" and "digests_ok dg"
    and "bk_offered_events bk < 2 ^ 63" and "bk_offered_runs bk < 2 ^ 63"
  shows "accounted jn bk"
  using assms(1,3,4)
proof (induction rule: journal_run.induct)
  case opened
  then show ?case
    by (simp add: accounted_def balanced_def charged_exactly_def new_journal_def new_budget_def Let_def)
next
  case (submission jn bk shut revision runs events rows)
  then show ?case using submit_accounted [of jn bk events rows runs] by simp
next
  case (migration jn bk n)
  then show ?case by (simp add: initialized_def accounted_def balanced_def charged_exactly_def Let_def split: option.split)
next
  case (upkeep jn bk ok n)
  then show ?case by (simp add: maintained_def accounted_def balanced_def charged_exactly_def Let_def split: option.split)
next
  case (fetch jn bk now jn')
  then have "accounted jn bk" by simp
  moreover from this have "su_pending_events (jo_status (jn_journal jn)) < 2 ^ 63"
    "su_pending_runs (jo_status (jn_journal jn)) < 2 ^ 63"
    using fetch.prems by (auto simp: accounted_def balanced_def Let_def)
  ultimately show ?case using next_batch_accounted [OF assms(2)] fetch by blast
next
  case (success jn bk b now)
  then show ?case using written_accounted [of jn bk b now] by (simp add: write_result_def)
next
  case (failure jn bk b now e)
  then show ?case
    using rejected_accounted [of jn bk b]
    by (auto simp: write_result_def accounted_def balanced_def charged_exactly_def Let_def)
next
  case (cancel jn bk)
  then have ok: "accounted jn bk" by simp
  then show ?case
    using drop_batch_moved [of b "jn_journal jn" for b] hand_charges [OF ok]
    by (cases "jn_writer jn") (simp_all add: stopped_def accounted_def balanced_def charged_exactly_def Let_def)
qed

section \<open>A sample run\<close>

definition sample_limits :: journal_limits where
  "sample_limits = \<lparr>jl_batches = 4, jl_bytes = 100000\<rparr>"

definition sample_digests :: digests where
  "sample_digests = \<lparr>dg_run = (\<lambda>_. None), dg_event = (\<lambda>_. None),
     dg_gap = (\<lambda>_ _ _. Some (replicate 64 CHR ''0''))\<rparr>"

definition sample_lengths :: lengths where
  "sample_lengths = \<lparr>le_run = (\<lambda>_. Some 100), le_event = (\<lambda>_. Some 100), le_row = (\<lambda>_. Some 100)\<rparr>"

lemma sample_digests_ok: "digests_ok sample_digests"
  by (simp add: digests_ok_def sample_digests_def is_digest_def is_ascii_digit_def list_all_iff)

text \<open>One run that could not be encoded: it is dropped, and the writer records it in a gap.\<close>

definition sample_submitted :: journaling where
  "sample_submitted = \<lparr>jn_journal = submit sample_limits sample_lengths False ''r'' [Inl HRecord] [] [] (new_journal sample_limits),
     jn_writer = Migrating, jn_revision = None\<rparr>"

definition lost_batch :: batch where
  "lost_batch = \<lparr>ba_revision = ''r'', ba_runs = [], ba_events = [], ba_records = [], ba_gaps = [], ba_charges = []\<rparr>"

definition lost_gap :: gap where
  "lost_gap = \<lparr>gp_key = replicate 64 CHR ''0'', gp_at = 0, gp_events = 0, gp_runs = 1\<rparr>"

lemma sample_submitted_eq:
  "jn_journal sample_submitted = \<lparr>jo_queue = [lost_batch], jo_bytes = new_budget 100000,
     jo_status = \<lparr>su_available = False, su_outstanding = 1, su_dropped_events = 0, su_dropped_runs = 1,
       su_pending_events = 0, su_pending_runs = 1, su_gaps = 0, su_last_write = 0\<rparr>\<rparr>"
  by (simp add: sample_submitted_def submit_def new_journal_def sample_limits_def drop_records_def sat_add64_def
      u64_max_def lost_batch_def Let_def)

lemma sample_lost_gap: "new_gap sample_digests 0 0 1 = Inr lost_gap"
proof -
  have "is_digest (replicate 64 CHR ''0'')" by (simp add: is_digest_def is_ascii_digit_def list_all_iff)
  then show ?thesis by (simp add: new_gap_def sample_digests_def lost_gap_def to_i64_def)
qed

lemma sample_journal_run:
  obtains jn bk where "journal_run sample_limits sample_digests sample_lengths jn bk"
    "flushed (jn_journal jn)" "jn_writer jn = Idling" "bk_offered_runs bk = 1" "bk_gap_runs bk = 1"
    "bk_offered_events bk = 0"
proof -
  let ?run = "journal_run sample_limits sample_digests sample_lengths"
  let ?bk = "\<lparr>bk_offered_events = 0, bk_offered_runs = 1, bk_written_events = 0, bk_written_runs = 0,
      bk_gap_events = 0, bk_gap_runs = 0\<rparr>"
  have "?run sample_submitted ?bk"
    using journal_run.submission [OF journal_run.opened, of sample_limits sample_digests sample_lengths False "''r''"
        "[Inl HRecord]" "[]" "[]"]
    by (simp add: sample_submitted_def)
  then have r: "?run (initialized None sample_submitted) ?bk"
    by (rule journal_run.migration) (simp add: sample_submitted_def)
  let ?jn = "begin_write sample_digests 0 lost_batch ((initialized None sample_submitted)
      \<lparr>jn_journal := (jn_journal (initialized None sample_submitted))\<lparr>jo_queue := []\<rparr>\<rparr>)"
  have fetched: "next_batch sample_digests 0 (initialized None sample_submitted) = Some ?jn"
    by (simp add: next_batch_def initialized_def sample_submitted_eq Let_def)
      (simp add: sample_submitted_def)
  have idle: "jn_writer (initialized None sample_submitted) = Idling" by (simp add: initialized_def Let_def)
  have held: "jn_writer ?jn = Writing (lost_batch\<lparr>ba_gaps := [lost_gap]\<rparr>)"
    by (simp add: begin_write_def take_gap_def initialized_def sample_submitted_eq Let_def sample_lost_gap [unfolded One_nat_def] lost_batch_def)
  from journal_run.success [OF journal_run.fetch [OF r idle fetched] held, of 0]
  show ?thesis
    by (rule that) (simp_all add: write_result_def written_def flushed_def drop_batch_def release_charges_def
        begin_write_def take_gap_def initialized_def sample_submitted_eq Let_def sample_lost_gap [unfolded One_nat_def] lost_batch_def lost_gap_def)
qed

section \<open>Properties\<close>





end
