(* ===== verification/Projection.thy ===== *)
theory Projection
  imports Config_Types
begin

text \<open>
  \<open>crates/integrations\<close>, what provider values become evidence: \<open>projection.rs\<close>,
  \<open>resource_context.rs\<close>, \<open>kube_conditions.rs\<close>, \<open>kube_images.rs\<close>, \<open>kube_links.rs\<close>, the log classes
  of \<open>logs.rs\<close> and the transport errors. \<open>serde_json::Value\<close> is an abstract type \<open>'v\<close> with the
  accessors the code uses, in the record \<open>value_api\<close>.
\<close>

section \<open>Values\<close>

record 'v value_api =
  va_pointer :: "'v \<Rightarrow> string \<Rightarrow> 'v option"
  va_get :: "'v \<Rightarrow> string \<Rightarrow> 'v option"
  va_str :: "'v \<Rightarrow> string option"
  va_f64 :: "'v \<Rightarrow> f64 option"
  va_i64 :: "'v \<Rightarrow> int option"
  va_bool :: "'v \<Rightarrow> bool option"
  va_array :: "'v \<Rightarrow> 'v list option"
  va_parse_f64 :: "string \<Rightarrow> f64 option"  \<comment> \<open>\<open>str::parse::<f64>\<close>\<close>
  va_rfc3339 :: "string \<Rightarrow> instant option"
  va_from_timestamp :: "int \<Rightarrow> nat \<Rightarrow> instant option"  \<comment> \<open>seconds and nanoseconds\<close>
  va_span :: "string \<Rightarrow> span option"  \<comment> \<open>\<open>Span::from_str\<close>, over humantime\<close>

fun find_map :: "('a \<Rightarrow> 'b option) \<Rightarrow> 'a list \<Rightarrow> 'b option" where
  "find_map f [] = None"
| "find_map f (x # xs) = (case f x of Some y \<Rightarrow> Some y | None \<Rightarrow> find_map f xs)"

definition obind :: "'a option \<Rightarrow> ('a \<Rightarrow> 'b option) \<Rightarrow> 'b option" where
  "obind x f = (case x of None \<Rightarrow> None | Some v \<Rightarrow> f v)"

definition ofilter :: "('a \<Rightarrow> bool) \<Rightarrow> 'a option \<Rightarrow> 'a option" where
  "ofilter p x = (case x of Some v \<Rightarrow> if p v then Some v else None | None \<Rightarrow> None)"

definition oelse :: "'a option \<Rightarrow> 'a option \<Rightarrow> 'a option" where
  "oelse x y = (case x of Some v \<Rightarrow> Some v | None \<Rightarrow> y)"

definition text_at :: "'v value_api \<Rightarrow> 'v \<Rightarrow> string list \<Rightarrow> string option" where
  "text_at va v ps = find_map (\<lambda>p. obind (va_pointer va v p) (va_str va)) ps"

definition number_at :: "'v value_api \<Rightarrow> 'v \<Rightarrow> string list \<Rightarrow> f64 option" where
  "number_at va v ps = find_map (\<lambda>p. ofilter is_finite
     (obind (va_pointer va v p) (\<lambda>w. oelse (va_f64 va w) (obind (va_str va w) (va_parse_f64 va))))) ps"

definition parse_bool :: "string \<Rightarrow> bool option" where
  "parse_bool s = (if s = ''true'' then Some True else if s = ''false'' then Some False else None)"

definition boolean_at :: "'v value_api \<Rightarrow> 'v \<Rightarrow> string list \<Rightarrow> bool option" where
  "boolean_at va v ps = find_map (\<lambda>p.
     obind (va_pointer va v p) (\<lambda>w. oelse (va_bool va w) (obind (va_str va w) parse_bool))) ps"

text \<open>\<open>x as u64\<close> and \<open>x as u32\<close> saturate; a NaN is 0.\<close>

fun f_cast :: "nat \<Rightarrow> f64 \<Rightarrow> nat" where
  "f_cast m F_NaN = 0"
| "f_cast m (F_Inf neg) = (if neg then 0 else m)"
| "f_cast m (Fin q) = min m (nat \<lfloor>q\<rfloor>)"

fun f_floor_i64 :: "f64 \<Rightarrow> int" where
  "f_floor_i64 F_NaN = 0"
| "f_floor_i64 (F_Inf neg) = (if neg then - (2 ^ 63) else 2 ^ 63 - 1)"
| "f_floor_i64 (Fin q) = max (- (2 ^ 63)) (min (2 ^ 63 - 1) \<lfloor>q\<rfloor>)"

fun f_fraction_nanos :: "f64 \<Rightarrow> f64" where
  "f_fraction_nanos (Fin q) = f_mul (f_round (q - of_int \<lfloor>q\<rfloor>)) (Fin 1000000000)"
| "f_fraction_nanos _ = F_NaN"

definition timestamp_of :: "'v value_api \<Rightarrow> 'v \<Rightarrow> instant option" where
  "timestamp_of va w =
     (case va_str va w of
        Some t \<Rightarrow> va_rfc3339 va t
      | None \<Rightarrow> obind (va_f64 va w) (\<lambda>secs.
          if \<not> is_finite secs then None
          else va_from_timestamp va (f_floor_i64 secs) (f_cast u32_max (f_fraction_nanos secs))))"

definition timestamp_at :: "'v value_api \<Rightarrow> 'v \<Rightarrow> string list \<Rightarrow> instant option" where
  "timestamp_at va v ps = find_map (\<lambda>p. obind (va_pointer va v p) (timestamp_of va)) ps"

definition array_at :: "'v value_api \<Rightarrow> 'v \<Rightarrow> string \<Rightarrow> 'v list option" where
  "array_at va v p = obind (va_pointer va v p) (va_array va)"

section \<open>Identities and states\<close>

definition identity_char :: "char \<Rightarrow> bool" where
  "identity_char c \<longleftrightarrow> is_ascii_alphanumeric c \<or> c \<in> set ''-_./:@''"

definition identity :: "string \<Rightarrow> string" where
  "identity s = take 512 (filter identity_char s)"

definition service_state_of :: "string option \<Rightarrow> service_state" where
  "service_state_of s =
     (case map_option (map to_ascii_lowercase) s of
        None \<Rightarrow> SUnknown
      | Some t \<Rightarrow>
          if t \<in> {''running'', ''runnable'', ''ready'', ''available'', ''active'', ''succeeded'', ''success'',
                  ''healthy'', ''enabled'', ''ok''} then SReady
          else if t \<in> {''stopped'', ''terminated'', ''suspended'', ''disabled'', ''deallocated'', ''shutdown''}
          then SStopped
          else if t \<in> {''failed'', ''failure'', ''error'', ''unhealthy'', ''impaired'', ''degraded'', ''unavailable'',
                  ''alarm'', ''storage-full'', ''incompatible-parameters'', ''incompatible-network'',
                  ''incompatible-restore'', ''inaccessible-encryption-credentials'',
                  ''inaccessible-encryption-credentials-recoverable'', ''restore-error''} then SFailed
          else if t \<in> {''pending'', ''creating'', ''updating'', ''starting'', ''provisioning'', ''queued'', ''working'',
                  ''in_progress''} then SStarting
          else SUnknown)"

text \<open>\<open>logs::classify\<close>.\<close>

definition classify :: "string \<Rightarrow> log_class" where
  "classify message =
     (let m = map to_ascii_lowercase message; has = (\<lambda>p. str_contains m p)
      in if has ''userwarning'' \<or> has ''futurewarning'' \<or> has ''runtimewarning'' then LWarning
         else if has ''importerror'' \<or> has ''modulenotfounderror'' then LImport
         else if has ''out of memory'' \<or> has ''oomkilled'' then LOutOfMemory
         else if has ''panic'' \<or> has ''traceback'' then LPanic
         else if has ''permission denied'' \<or> has ''unauthorized'' then LPermission
         else if has ''timeout'' \<or> has ''timed out'' then LTimeout
         else if has ''connection'' \<or> has ''unavailable'' then LConnection
         else LOtherError)"

section \<open>Contexts\<close>

text \<open>\<open>resource_context::identifier\<close>.\<close>

definition identifier_of :: "string \<Rightarrow> string option" where
  "identifier_of s = (if s \<noteq> [] \<and> length s \<le> 2048 \<and> \<not> has_control s then Some s else None)"

definition arn_region :: "string \<Rightarrow> string option" where
  "arn_region s =
     (let parts = split_on CHR '':'' s
      in if 3 < length parts then obind (ofilter (\<lambda>r. r \<noteq> []) (Some (parts ! 3))) identifier_of else None)"

fun path_region :: "string list \<Rightarrow> string option" where
  "path_region (a # b # rest) =
     (if a = ''locations'' \<or> a = ''regions'' then identifier_of b else path_region (b # rest))"
| "path_region _ = None"

definition base_context :: "job \<Rightarrow> string \<Rightarrow> string \<Rightarrow> resource_context option" where
  "base_context j service native =
     obind (identifier_of native) (\<lambda>native_id.
       Some \<lparr>rc_provider = t_provider (j_target j), rc_scope = t_scope (j_target j),
         rc_service = first_part CHR ''/'' service, rc_native_id = native_id,
         rc_region = oelse (if starts_with native ''arn:'' then arn_region native
                            else path_region (split_on CHR ''/'' native))
                       (case t_regions (j_target j) of [r] \<Rightarrow> Some r | _ \<Rightarrow> None),
         rc_zone = None, rc_cluster = None, rc_namespace = None, rc_name = None, rc_uid = None,
         rc_container = None, rc_reason = None, rc_exit_code = None\<rparr>)"

text \<open>\<open>splitn(3, '_')\<close> of a gcloud context name: the project, the location and the rest.\<close>

definition gke_parts :: "string \<Rightarrow> (string \<times> string \<times> string) option" where
  "gke_parts s =
     obind (strip_prefix ''gke_'' s) (\<lambda>s.
       obind (split_once CHR ''_'' s) (\<lambda>(project, s).
         obind (split_once CHR ''_'' s) (\<lambda>(location, cluster). Some (project, location, cluster))))"

definition kube_context :: "'v value_api \<Rightarrow> job \<Rightarrow> string \<Rightarrow> 'v \<Rightarrow> resource_context option" where
  "kube_context va j kind v =
     obind (text_at va v [''/metadata/name'']) (\<lambda>name.
     obind (base_context j kind name) (\<lambda>c.
       (let c = c\<lparr>rc_name := identifier_of name,
                  rc_namespace := obind (text_at va v [''/metadata/namespace'']) identifier_of,
                  rc_uid := obind (text_at va v [''/metadata/uid'']) identifier_of,
                  rc_cluster := obind (t_cluster (j_target j)) identifier_of\<rparr>;
            c = (case obind (t_cluster_location (j_target j)) identifier_of of
                   Some l \<Rightarrow> c\<lparr>rc_region := Some l\<rparr>
                 | None \<Rightarrow> c)
        in Some (if rc_cluster c = None
                 then (case obind (t_context (j_target j)) gke_parts of
                         Some (project, location, cluster) \<Rightarrow>
                           c\<lparr>rc_provider := Gcp, rc_scope := project, rc_region := Some location,
                             rc_cluster := Some cluster\<rparr>
                       | None \<Rightarrow> c)
                 else c))))"

section \<open>Observations and operations\<close>

text \<open>The expectation of the longest selector the resource contains, the last among equals.\<close>

fun longest_selector :: "string \<Rightarrow> (string \<times> expected) list \<Rightarrow> (string \<times> expected) option \<Rightarrow> (string \<times> expected) option" where
  "longest_selector res [] best = best"
| "longest_selector res ((s, e) # es) best =
     longest_selector res es
       (if str_contains res s \<and> is_none_or (\<lambda>(b, _). length b \<le> length s) best then Some (s, e) else best)"

definition expected_of :: "target \<Rightarrow> string \<Rightarrow> expected" where
  "expected_of t res =
     (case longest_selector res (t_expectations t) None of Some (_, e) \<Rightarrow> e | None \<Rightarrow> t_expected t)"

definition project_observation :: "instant \<Rightarrow> job \<Rightarrow> string \<Rightarrow> string \<Rightarrow> data \<Rightarrow> observation" where
  "project_observation now j op name d =
     (let res = t_name (j_target j) @ ''/'' @ op @ ''/'' @ identity name
      in \<lparr>o_context = base_context j op name, o_resource = res, o_operation = op, o_observed_at = now,
          o_expected = expected_of (j_target j) res, o_data = d\<rparr>)"

text \<open>\<open>transport::Error\<close>.\<close>

datatype transport_error =
  TMissing | TDenied | TAuthentication | TUnavailable | TTimeout | TThrottled | TMalformed | TLimit
| TCancelled | TForbidden

definition retryable_transport :: "transport_error \<Rightarrow> bool" where
  "retryable_transport e \<longleftrightarrow> e = TUnavailable \<or> e = TThrottled \<or> e = TTimeout"

fun transport_coverage :: "transport_error \<Rightarrow> coverage" where
  "transport_coverage TMissing = Missing"
| "transport_coverage TDenied = Denied"
| "transport_coverage TForbidden = Denied"
| "transport_coverage TAuthentication = Unauthenticated"
| "transport_coverage TUnavailable = Unavailable"
| "transport_coverage TThrottled = Unavailable"
| "transport_coverage TTimeout = Timeout"
| "transport_coverage TMalformed = Malformed"
| "transport_coverage TLimit = Truncated"
| "transport_coverage TCancelled = Cancelled"

definition project_operation :: "instant \<Rightarrow> string \<Rightarrow> transport_error + usize \<Rightarrow> usize \<Rightarrow> bool \<Rightarrow> operation" where
  "project_operation now i r pages required =
     (let (c, n) = (case r of Inr n \<Rightarrow> (Complete, n) | Inl e \<Rightarrow> (transport_coverage e, 0))
      in \<lparr>op_id = i, op_coverage = c, op_observed_at = now, op_records = n, op_pages = pages,
          op_attempts = 1, op_required = required\<rparr>)"

text \<open>\<open>projection::service\<close>.\<close>

definition service_name_paths :: "string list" where
  "service_name_paths =
     [''/name'', ''/id'', ''/arn'', ''/Arn'', ''/Name'', ''/DBInstanceIdentifier'', ''/DBClusterIdentifier'',
      ''/ReplicationGroupId'', ''/CacheClusterId'', ''/TableName'', ''/FunctionName'', ''/RepositoryName'',
      ''/QueueUrl'', ''/InstanceId'', ''/AutoScalingGroupName'', ''/VolumeId'', ''/volumeId'', ''/instanceId'',
      ''/KeyId'', ''/LoadBalancerArn'']"

definition service_state_paths :: "string list" where
  "service_state_paths =
     [''/state'', ''/status'', ''/State/Name'', ''/instanceState/name'', ''/State/Code'', ''/State'', ''/Status'',
      ''/DBInstanceStatus'', ''/DBClusterStatus'', ''/CacheClusterStatus'', ''/TableStatus'',
      ''/properties/powerState/code'', ''/properties/state'', ''/properties/status'',
      ''/properties/provisioningState'', ''/healthStatus'']"

definition project_service :: "'v value_api \<Rightarrow> instant \<Rightarrow> job \<Rightarrow> string \<Rightarrow> 'v \<Rightarrow> observation option" where
  "project_service va now j op v =
     obind (oelse (if t_provider (j_target j) = Azure then text_at va v [''/id''] else None)
              (text_at va v service_name_paths)) (\<lambda>name.
       if t_resources (j_target j) \<noteq> [] \<and> \<not> list_ex (str_contains name) (t_resources (j_target j)) then None
       else Some (project_observation now j op name
              (Service (service_state_of (text_at va v service_state_paths))
                 (map_option (f_cast u32_max) (number_at va v
                    [''/replicas'', ''/desiredCount'', ''/DesiredCapacity'', ''/properties/replicas'']))
                 (oelse (boolean_at va v
                    [''/settings/backupConfiguration/enabled'', ''/properties/backup/geoRedundantBackup''])
                    (map_option (\<lambda>n. f_lt (Fin 0) n) (number_at va v
                       [''/BackupRetentionPeriod'', ''/properties/backup/backupRetentionDays''])))
                 (boolean_at va v [''/StorageEncrypted'', ''/AtRestEncryptionEnabled'', ''/Encrypted'',
                    ''/encrypted'', ''/properties/encryption/enabled'']))))"

section \<open>Kubernetes conditions, images and links\<close>

definition find_typed :: "'v value_api \<Rightarrow> string \<Rightarrow> 'v list \<Rightarrow> 'v option" where
  "find_typed va kind vs = find (\<lambda>w. text_at va w [''/type''] = Some kind) vs"

definition condition :: "'v value_api \<Rightarrow> 'v \<Rightarrow> string \<Rightarrow> bool option" where
  "condition va v kind =
     obind (array_at va v ''/status/conditions'') (\<lambda>vs.
     obind (find_typed va kind vs) (\<lambda>w.
     obind (text_at va w [''/status'']) (\<lambda>s.
       if s = ''True'' then Some True else if s = ''False'' then Some False else None)))"

definition node_ready :: "'v value_api \<Rightarrow> 'v \<Rightarrow> bool" where
  "node_ready va v \<longleftrightarrow> condition va v ''Ready'' = Some True \<and>
     list_all (\<lambda>kind. condition va v kind \<noteq> Some True)
       [''MemoryPressure'', ''DiskPressure'', ''PIDPressure'', ''NetworkUnavailable'']"

text \<open>\<open>image_parts\<close>: the reference, the observed digest, and the revision the tag carries.\<close>

definition image_tag_text :: "string \<Rightarrow> string" where
  "image_tag_text ref =
     (case split_once CHR '':'' (last (split_on CHR ''/'' ref)) of Some (_, t) \<Rightarrow> t | None \<Rightarrow> [])"

definition tag_revision :: "string \<Rightarrow> string option" where
  "tag_revision t =
     ofilter (\<lambda>s. length s \<in> {7..40} \<and> list_all is_ascii_hexdigit s)
       (oelse (strip_prefix ''release-'' t) (strip_prefix ''sha-'' t))"

definition image_parts :: "string \<Rightarrow> string option \<Rightarrow> string \<times> string option \<times> string option" where
  "image_parts ref observed =
     (identity ref,
      map_option identity (obind observed (\<lambda>s. map_option snd (split_once CHR ''@'' s))),
      tag_revision (image_tag_text ref))"

definition container_named :: "'v value_api \<Rightarrow> 'v \<Rightarrow> string \<Rightarrow> 'v option" where
  "container_named va v n =
     obind (array_at va v ''/status/containerStatuses'') (\<lambda>vs. find (\<lambda>s. text_at va s [''/name''] = Some n) vs)"

definition container_image :: "'v value_api \<Rightarrow> instant \<Rightarrow> job \<Rightarrow> string \<Rightarrow> string \<Rightarrow> 'v \<Rightarrow> 'v \<Rightarrow> observation option" where
  "container_image va now j kind name v c =
     map_option (\<lambda>ref.
       (let cn = unwrap_or ''unknown'' (text_at va c [''/name'']);
            (desired, digest, revision) =
              image_parts ref (obind (container_named va v cn) (\<lambda>s. text_at va s [''/imageID'']))
        in project_observation now j kind (name @ ''/image/'' @ cn) (Image desired digest revision)))
       (text_at va c [''/image''])"

definition project_images :: "'v value_api \<Rightarrow> instant \<Rightarrow> job \<Rightarrow> string \<Rightarrow> string \<Rightarrow> 'v \<Rightarrow> observation list" where
  "project_images va now j kind name v =
     (case find_map (array_at va v) [''/spec/containers'', ''/spec/template/spec/containers'',
             ''/spec/jobTemplate/spec/template/spec/containers''] of
        None \<Rightarrow> []
      | Some cs \<Rightarrow> List.map_filter (container_image va now j kind name v) (take 128 cs))"

definition owner_link :: "'v value_api \<Rightarrow> instant \<Rightarrow> job \<Rightarrow> string \<Rightarrow> string \<Rightarrow> 'v \<Rightarrow> observation list" where
  "owner_link va now j kind name v =
     (case text_at va v [''/metadata/uid''] of
        None \<Rightarrow> []
      | Some uid \<Rightarrow>
          (let controller = obind (array_at va v ''/metadata/ownerReferences'')
                 (find (\<lambda>w. obind (va_get va w ''controller'') (va_bool va) = Some True));
               parent = obind controller (\<lambda>w. text_at va w [''/uid''])
           in [project_observation now j kind (name @ ''/owner'')
                 (Owner (identity uid) (map_option identity parent))]))"

definition activation_paths :: "string list" where
  "activation_paths =
     [''/metadata/activationLagCount'', ''/metadata/activationThreshold'', ''/metadata/activationQueueLength'']"

fun show_nat :: "nat \<Rightarrow> string" where
  "show_nat n = (if n < 10 then [char_of (48 + n)] else show_nat (n div 10) @ [char_of (48 + n mod 10)])"

declare show_nat.simps [simp del]

definition scaler_links :: "'v value_api \<Rightarrow> instant \<Rightarrow> job \<Rightarrow> string \<Rightarrow> string \<Rightarrow> 'v \<Rightarrow> observation list" where
  "scaler_links va now j kind name v =
     (let namespace = unwrap_or ''default'' (text_at va v [''/metadata/namespace'']);
          scaler = unwrap_or [] (text_at va v [''/metadata/name'']);
          worker = unwrap_or [] (text_at va v [''/spec/scaleTargetRef/name'']);
          ready = is_some_and (list_ex (\<lambda>r. text_at va r [''/type''] = Some ''Ready'' \<and>
                    text_at va r [''/status''] = Some ''True'')) (array_at va v ''/status/conditions'')
      in case array_at va v ''/status/externalMetricNames'' of
           None \<Rightarrow> []
         | Some ms \<Rightarrow>
             map (\<lambda>(i, metric).
               (let trigger = obind (array_at va v ''/spec/triggers'')
                      (\<lambda>ts. if i < length ts then Some (ts ! i) else None);
                    activation = unwrap_or (Fin 0) (obind trigger (\<lambda>t. number_at va t activation_paths))
                in project_observation now j kind (name @ ''/metric/'' @ show_nat i)
                     (Scaler (identity namespace) (identity scaler) (identity worker) (identity metric)
                        activation ready)))
               (List.enumerate 0 (take 32 (List.map_filter (va_str va) ms))))"

definition endpoint_hosts :: "'v value_api \<Rightarrow> 'v \<Rightarrow> string list" where
  "endpoint_hosts va v =
     List.map_filter (\<lambda>r. text_at va r [''/host'']) (unwrap_or [] (array_at va v ''/spec/rules'')) @
     List.map_filter (va_str va) (unwrap_or [] (array_at va v ''/spec/hostnames'')) @
     (case text_at va v [''/spec/hostname''] of Some h \<Rightarrow> [h] | None \<Rightarrow> [])"

definition plain_host :: "string \<Rightarrow> bool" where
  "plain_host h \<longleftrightarrow> CHR ''*'' \<notin> set h \<and>
     list_all (\<lambda>b. is_ascii_alphanumeric b \<or> b = CHR ''.'' \<or> b = CHR ''-'') h"

definition project_links :: "'v value_api \<Rightarrow> instant \<Rightarrow> job \<Rightarrow> string \<Rightarrow> string \<Rightarrow> 'v \<Rightarrow> observation list" where
  "project_links va now j kind name v =
     owner_link va now j kind name v @
     (if kind = ''scaledobjects'' then scaler_links va now j kind name v else []) @
     (if kind \<in> {''ingresses'', ''httproutes'', ''mappings''}
      then map (\<lambda>h. project_observation now j kind (name @ ''/endpoint/'' @ h)
             (AdvertisedEndpoint (''https://'' @ h @ ''/'')))
             (filter plain_host (take 64 (endpoint_hosts va v)))
      else [])"

end
