(* ===== verification/Kube_Projection.thy ===== *)
theory Kube_Projection
  imports Projection BTree
begin

text \<open>
  \<open>crates/integrations/src/kube_projection.rs\<close>: the observations of a Kubernetes object, and
  \<open>worker_index.rs\<close> and the demand reads of \<open>queues.rs\<close>, which join scalers with their workloads.
\<close>

section \<open>Objects\<close>

definition count_at :: "'v value_api \<Rightarrow> 'v \<Rightarrow> string \<Rightarrow> u32" where
  "count_at va v p = f_cast u32_max (unwrap_or (Fin 0) (number_at va v [p]))"

definition job_data :: "'v value_api \<Rightarrow> 'v \<Rightarrow> instant option \<Rightarrow> data" where
  "job_data va v created =
     Job (timestamp_at va v [''/status/completionTime''])
       (timestamp_at va v [''/metadata/annotations/batch.kubernetes.io~1cronjob-scheduled-timestamp''])
       (condition va v ''Complete'' = Some True) (condition va v ''Failed'' = Some True)
       (count_at va v ''/status/failed'') (count_at va v ''/status/succeeded'')
       (count_at va v ''/status/active'') created"

definition schedule_data :: "'v value_api \<Rightarrow> job \<Rightarrow> 'v \<Rightarrow> instant option \<Rightarrow> data" where
  "schedule_data va j v created =
     Schedule created (map_option (f_cast u64_max) (number_at va v [''/spec/startingDeadlineSeconds'']))
       (text_at va v [''/spec/concurrencyPolicy''] = Some ''Forbid'')
       (unwrap_or [] (text_at va v [''/spec/schedule'']))
       (unwrap_or [] (oelse (text_at va v [''/spec/timeZone'']) (t_timezone (j_target j))))
       (unwrap_or False (boolean_at va v [''/spec/suspend'']))
       (case array_at va v ''/status/active'' of None \<Rightarrow> 0 | Some a \<Rightarrow> length a mod 2 ^ 32)
       (timestamp_at va v [''/status/lastScheduleTime'']) (timestamp_at va v [''/status/lastSuccessfulTime''])"

text \<open>A rollout in progress counts as the creation time of the workload.\<close>

definition rollout_time :: "'v value_api \<Rightarrow> 'v \<Rightarrow> instant option" where
  "rollout_time va v =
     obind (array_at va v ''/status/conditions'') (\<lambda>cs.
     obind (find (\<lambda>c. text_at va c [''/type''] = Some ''Progressing'' \<and>
         text_at va c [''/reason''] \<in> {Some ''NewReplicaSetCreated'', Some ''ReplicaSetUpdated''}) cs) (\<lambda>c.
       timestamp_at va c [''/lastUpdateTime'', ''/lastTransitionTime'']))"

definition is_draining :: "'v value_api \<Rightarrow> 'v \<Rightarrow> bool" where
  "is_draining va v \<longleftrightarrow> va_pointer va v ''/metadata/deletionTimestamp'' \<noteq> None \<or>
     is_some_and (list_ex (\<lambda>t. text_at va t [''/key''] \<in>
         {Some ''ToBeDeletedByClusterAutoscaler'', Some ''DeletionCandidateOfClusterAutoscaler''}))
       (array_at va v ''/spec/taints'')"

definition workload_data :: "'v value_api \<Rightarrow> string \<Rightarrow> 'v \<Rightarrow> instant option \<Rightarrow> data" where
  "workload_data va kind v created =
     (let node = (kind = ''nodes'')
      in Workload
           (if node then 1
            else if kind = ''daemonsets'' then count_at va v ''/status/desiredNumberScheduled''
            else f_cast u32_max (unwrap_or (Fin 1) (number_at va v [''/spec/replicas''])))
           (if node then (if node_ready va v then 1 else 0)
            else f_cast u32_max (unwrap_or (Fin 0)
              (number_at va v [''/status/readyReplicas'', ''/status/numberReady''])))
           (oelse (rollout_time va v) created) (is_draining va v) node)"

definition container_data :: "'v value_api \<Rightarrow> 'v \<Rightarrow> 'v \<Rightarrow> instant option \<Rightarrow> data" where
  "container_data va v c created =
     Pod (unwrap_or [] (text_at va v [''/metadata/uid''])) (unwrap_or ''unknown'' (text_at va c [''/name'']))
       (unwrap_or False (boolean_at va c [''/ready'']))
       (f_cast u32_max (unwrap_or (Fin 0) (number_at va c [''/restartCount''])))
       (text_at va c [''/state/waiting/reason''] \<in> {Some ''CrashLoopBackOff'', Some ''ImagePullBackOff''})
       created (timestamp_at va c [''/lastState/terminated/finishedAt''])"

definition container_observations ::
  "'v value_api \<Rightarrow> instant \<Rightarrow> job \<Rightarrow> string \<Rightarrow> string \<Rightarrow> 'v \<Rightarrow> 'v list \<Rightarrow> instant option \<Rightarrow> observation list" where
  "container_observations va now j kind name v cs created =
     map (\<lambda>c. project_observation now j kind (name @ ''/'' @ unwrap_or ''unknown'' (text_at va c [''/name'']))
           (container_data va v c created)) (take 128 cs)"

definition sync_interval :: "'v value_api \<Rightarrow> 'v \<Rightarrow> u64 option" where
  "sync_interval va v =
     (case text_at va v [''/spec/refreshInterval''] of
        None \<Rightarrow> Some 3600
      | Some s \<Rightarrow> if s \<in> {''0'', ''0s'', ''0m'', ''0h''} then Some 0 else va_span va s)"

definition sync_data :: "'v value_api \<Rightarrow> 'v \<Rightarrow> data" where
  "sync_data va v =
     (let periodic = text_at va v [''/spec/refreshPolicy''] \<notin> {Some ''CreatedOnce'', Some ''OnChange''};
          interval = sync_interval va v
      in Synchronization (obind interval (\<lambda>_. condition va v ''Ready''))
           (timestamp_at va v [''/status/refreshTime'']) (ofilter (\<lambda>i. periodic \<and> 0 < i) interval))"

definition recent_event :: "'v value_api \<Rightarrow> instant \<Rightarrow> job \<Rightarrow> 'v \<Rightarrow> instant option" where
  "recent_event va now j v =
     ofilter (\<lambda>t. elapsed now t \<le> as_i64 (s_log_window (j_settings j)))
       (timestamp_at va v [''/lastTimestamp'', ''/eventTime'', ''/metadata/creationTimestamp''])"

definition event_data :: "'v value_api \<Rightarrow> 'v \<Rightarrow> instant \<Rightarrow> data" where
  "event_data va v last_seen =
     Log LWarning (f_cast u64_max (unwrap_or (Fin 1) (number_at va v [''/count''])))
       (unwrap_or last_seen (timestamp_at va v [''/firstTimestamp''])) last_seen True"

text \<open>How a kind is projected: nothing at all, only what was collected so far, or an observation of
  the object itself and its images.\<close>

datatype projected = Discarded | Collected "observation list" | Observed data

definition project_pod :: "'v value_api \<Rightarrow> instant \<Rightarrow> job \<Rightarrow> string \<Rightarrow> string \<Rightarrow> 'v \<Rightarrow> instant option \<Rightarrow> projected" where
  "project_pod va now j kind name v created =
     (let phase = text_at va v [''/status/phase'']
      in if phase = Some ''Failed'' \<and>
            is_some_and (\<lambda>t. as_i64 (s_runtime_window (j_settings j)) < elapsed now t) created
         then Discarded
         else if phase = Some ''Succeeded'' then Collected []
         else case array_at va v ''/status/containerStatuses'' of
                Some cs \<Rightarrow> Collected (container_observations va now j kind name v cs created @
                             project_images va now j kind name v)
              | None \<Rightarrow> Observed (Workload 1 0 created False False))"

definition project_kind :: "'v value_api \<Rightarrow> instant \<Rightarrow> job \<Rightarrow> string \<Rightarrow> string \<Rightarrow> 'v \<Rightarrow> projected" where
  "project_kind va now j kind name v =
     (let created = timestamp_at va v [''/metadata/creationTimestamp'']
      in if kind = ''jobs'' then Observed (job_data va v created)
         else if kind = ''cronjobs'' then Observed (schedule_data va j v created)
         else if kind \<in> {''deployments'', ''statefulsets'', ''daemonsets'', ''nodes''}
         then Observed (workload_data va kind v created)
         else if kind = ''pods'' then project_pod va now j kind name v created
         else if kind = ''externalsecrets'' then Observed (sync_data va v)
         else if kind = ''certificates'' \<or> kind = ''scaledobjects''
         then Observed (Condition (kind @ ''-not-ready'') (condition va v ''Ready''))
         else if kind = ''horizontalpodautoscalers''
         then Observed (Condition ''autoscaler-unavailable'' (condition va v ''AbleToScale''))
         else if kind = ''events''
         then (if text_at va v [''/type''] \<noteq> Some ''Warning'' then Collected []
               else case recent_event va now j v of
                      None \<Rightarrow> Discarded
                    | Some t \<Rightarrow> Observed (event_data va v t))
         else Observed (Inventory kind True))"

definition project_inner :: "'v value_api \<Rightarrow> instant \<Rightarrow> job \<Rightarrow> string \<Rightarrow> 'v \<Rightarrow> observation list" where
  "project_inner va now j kind v =
     (case text_at va v [''/metadata/name''] of
        None \<Rightarrow> []
      | Some n \<Rightarrow>
          (let namespace = unwrap_or ''_cluster'' (text_at va v [''/metadata/namespace'']);
               path = kind @ ''/'' @ namespace @ ''/'' @ n;
               name = namespace @ ''/'' @ n;
               links = project_links va now j kind name v
           in if t_resources (j_target j) \<noteq> [] \<and> \<not> list_ex (str_contains path) (t_resources (j_target j)) then []
              else case project_kind va now j kind name v of
                     Discarded \<Rightarrow> []
                   | Collected obss \<Rightarrow> links @ obss
                   | Observed d \<Rightarrow> links @ [project_observation now j kind name d] @
                                   project_images va now j kind name v))"

text \<open>\<open>project\<close>: every observation gets the identity of the object, a container its last exit.\<close>

definition plain_reason :: "string \<Rightarrow> bool" where
  "plain_reason s \<longleftrightarrow> length s \<le> 64 \<and>
     list_all (\<lambda>b. is_ascii_alphanumeric b \<or> b = CHR ''_'' \<or> b = CHR ''-'') s"

definition to_i32 :: "int \<Rightarrow> int option" where
  "to_i32 n = (if - (2 ^ 31) \<le> n \<and> n < 2 ^ 31 then Some n else None)"

definition container_context :: "'v value_api \<Rightarrow> 'v \<Rightarrow> string \<Rightarrow> resource_context \<Rightarrow> resource_context" where
  "container_context va v container c =
     (let c = c\<lparr>rc_container := Some container\<rparr>
      in case container_named va v container of
           None \<Rightarrow> c
         | Some st \<Rightarrow>
             c\<lparr>rc_reason := ofilter plain_reason (text_at va st
                 [''/state/waiting/reason'', ''/state/terminated/reason'', ''/lastState/terminated/reason'']),
               rc_exit_code := obind (va_pointer va st ''/lastState/terminated/exitCode'')
                 (\<lambda>w. obind (va_i64 va w) to_i32)\<rparr>)"

definition contextual :: "'v value_api \<Rightarrow> 'v \<Rightarrow> resource_context option \<Rightarrow> observation \<Rightarrow> observation" where
  "contextual va v ctx obs =
     obs\<lparr>o_context := (case (ctx, o_data obs) of
          (Some c, Pod _ container _ _ _ _ _) \<Rightarrow> Some (container_context va v container c)
        | _ \<Rightarrow> ctx)\<rparr>"

definition project_object :: "'v value_api \<Rightarrow> instant \<Rightarrow> job \<Rightarrow> string \<Rightarrow> 'v \<Rightarrow> observation list" where
  "project_object va now j kind v =
     map (contextual va v (kube_context va j kind v)) (project_inner va now j kind v)"

section \<open>Workers of a scaler\<close>

definition owner_entries :: "observation list \<Rightarrow> (string, string) bmap" where
  "owner_entries obss = bm_collect (List.map_filter
     (\<lambda>obs. case o_data obs of Owner uid _ \<Rightarrow> Some (o_resource obs, uid) | _ \<Rightarrow> None) obss)"

definition parent_entries :: "observation list \<Rightarrow> (string, string) bmap" where
  "parent_entries obss = bm_collect (List.map_filter
     (\<lambda>obs. case o_data obs of Owner uid (Some parent) \<Rightarrow> Some (uid, parent) | _ \<Rightarrow> None) obss)"

fun ancestors :: "nat \<Rightarrow> (string, string) bmap \<Rightarrow> string \<Rightarrow> string list" where
  "ancestors 0 parents uid = []"
| "ancestors (Suc n) parents uid =
     (case bm_get parents uid of None \<Rightarrow> [] | Some p \<Rightarrow> p # ancestors n parents p)"

definition crashing :: "observation list \<Rightarrow> string set" where
  "crashing obss =
     (let parents = parent_entries obss
      in set (concat (List.map_filter
           (\<lambda>obs. case o_data obs of
              Pod uid _ _ _ True _ _ \<Rightarrow> Some (uid # ancestors 3 parents uid) | _ \<Rightarrow> None) obss)))"

text \<open>The last two parts of a resource.\<close>

definition name_and_namespace :: "string \<Rightarrow> (string \<times> string) option" where
  "name_and_namespace res =
     (case rev (split_on CHR ''/'' res) of name # namespace # _ \<Rightarrow> Some (name, namespace) | _ \<Rightarrow> None)"

definition worker_step ::
  "(string, string) bmap \<Rightarrow> string set \<Rightarrow> observation \<Rightarrow> (string, u32 \<times> u32 \<times> bool) bmap \<Rightarrow>
   (string, u32 \<times> u32 \<times> bool) bmap" where
  "worker_step owners crashes obs m =
     (case (o_data obs, name_and_namespace (o_resource obs)) of
        (Workload desired ready _ _ False, Some (name, namespace)) \<Rightarrow>
          (let k = namespace @ ''/'' @ name;
               crash = is_some_and (\<lambda>uid. uid \<in> crashes) (bm_get owners (o_resource obs @ ''/owner''))
           in if bm_has m k then m else bm_put k (desired, ready, crash) m)
      | _ \<Rightarrow> m)"

definition workers :: "observation list \<Rightarrow> (string, u32 \<times> u32 \<times> bool) bmap" where
  "workers obss = fold (worker_step (owner_entries obss) (crashing obss)) obss []"

definition worker_state :: "observation list \<Rightarrow> string \<Rightarrow> string \<Rightarrow> (u32 \<times> u32 \<times> bool) option" where
  "worker_state obss namespace name = bm_get (workers obss) (namespace @ ''/'' @ name)"

text \<open>\<open>queues::demand\<close> once the external metric has been read: the backlog with a milli suffix.\<close>

definition backlog_of :: "'v value_api \<Rightarrow> 'v \<Rightarrow> f64 option" where
  "backlog_of va v =
     ofilter (\<lambda>b. is_finite b \<and> f_le (Fin 0) b)
       (obind (array_at va v ''/items'') (\<lambda>items. case items of
          [] \<Rightarrow> None
        | w # _ \<Rightarrow> oelse (number_at va w [''/value''])
            (obind (obind (va_get va w ''value'') (va_str va)) (\<lambda>s.
             obind (strip_suffix ''m'' s) (\<lambda>s.
               map_option (\<lambda>n. f_div n (Fin 1000)) (va_parse_f64 va s))))))"

definition queue_demand ::
  "'v value_api \<Rightarrow> instant \<Rightarrow> job \<Rightarrow> observation list \<Rightarrow> observation \<Rightarrow> transport_error + 'v \<Rightarrow>
   operation \<times> observation option" where
  "queue_demand va now j obss source outcome =
     (let required = s_required (j_settings j)
      in case o_data source of
           Scaler namespace name worker metric activation scaler_ready \<Rightarrow>
             (let i = ''keda/'' @ namespace @ ''/'' @ name @ ''/'' @ metric
              in case outcome of
                   Inl e \<Rightarrow> (project_operation now i (Inl e) 1 required, None)
                 | Inr v \<Rightarrow>
                     (case backlog_of va v of
                        None \<Rightarrow> (project_operation now i (Inl TMalformed) 1 required, None)
                      | Some backlog \<Rightarrow>
                          (case bm_get (workers obss) (namespace @ ''/'' @ worker) of
                             None \<Rightarrow> (project_operation now i (Inl TMissing) 1 required,
                               Some (project_observation now j i worker (Metric metric backlog None None None 0)))
                           | Some (desired, ready, crash) \<Rightarrow>
                               (project_operation now i (Inr 1) 1 required,
                                Some (project_observation now j i worker
                                  (Queue backlog activation ready desired crash scaler_ready None None))))))
         | _ \<Rightarrow> (project_operation now ''keda-demand'' (Inl TMalformed) 0 required, None))"

end
