(* ===== verification/Log_Window.thy ===== *)
theory Log_Window
  imports Projection BTree Budget
begin

text \<open>
  \<open>crates/integrations/src/log_window.rs\<close>, \<open>log_dedup.rs\<close> and the groups of \<open>logs.rs\<close>: one
  diagnostic window, the fingerprints it has seen, and the cache that recognises events of the
  overlap with the window before. SHA-256 and the eviction of \<open>scc::HashCache\<close> are parameters.
\<close>

section \<open>Groups\<close>

record log_group =
  lg_count :: u64
  lg_first :: instant
  lg_last :: instant

text \<open>The map is ordered by scope and class; \<open>log_rank\<close> is the derived order of the class.\<close>

fun log_rank :: "log_class \<Rightarrow> nat" where
  "log_rank LImport = 0"
| "log_rank LPanic = 1"
| "log_rank LOutOfMemory = 2"
| "log_rank LConnection = 3"
| "log_rank LPermission = 4"
| "log_rank LTimeout = 5"
| "log_rank LWarning = 6"
| "log_rank LOtherError = 7"

fun log_class_name :: "log_class \<Rightarrow> string" where
  "log_class_name LImport = ''Import''"
| "log_class_name LPanic = ''Panic''"
| "log_class_name LOutOfMemory = ''OutOfMemory''"
| "log_class_name LConnection = ''Connection''"
| "log_class_name LPermission = ''Permission''"
| "log_class_name LTimeout = ''Timeout''"
| "log_class_name LWarning = ''Warning''"
| "log_class_name LOtherError = ''OtherError''"

type_synonym log_groups = "(string \<times> nat, log_class \<times> log_group) bmap"

definition add_log :: "string \<Rightarrow> string \<Rightarrow> instant \<Rightarrow> log_groups \<Rightarrow> log_groups" where
  "add_log scope message t gs =
     (let c = classify message; k = (identity scope, log_rank c);
          g = (case bm_get gs k of None \<Rightarrow> \<lparr>lg_count = 0, lg_first = t, lg_last = t\<rparr> | Some (_, g) \<Rightarrow> g)
      in bm_put k (c, \<lparr>lg_count = sat_add64 (lg_count g) 1, lg_first = min (lg_first g) t,
                       lg_last = max (lg_last g) t\<rparr>) gs)"

text \<open>\<open>finish_scoped\<close>: the scope, the signature and the data of every group.\<close>

definition scoped_logs :: "log_groups \<Rightarrow> (string \<times> string \<times> (bool \<Rightarrow> data)) list" where
  "scoped_logs gs = map (\<lambda>((scope, _), (c, g)).
     (scope, scope @ ''/'' @ log_class_name c, Log c (lg_count g) (lg_first g) (lg_last g))) gs"

section \<open>Deduplication\<close>

type_synonym fingerprint = string

text \<open>\<open>hc_put\<close> stores an entry and may evict others.\<close>

record hash_cache =
  hc_put :: "(fingerprint \<rightharpoonup> instant) \<Rightarrow> fingerprint \<Rightarrow> instant \<Rightarrow> (fingerprint \<rightharpoonup> instant)"

definition evicting_cache :: "hash_cache \<Rightarrow> bool" where
  "evicting_cache hc \<longleftrightarrow> (\<forall>m k t. hc_put hc m k t k = Some t \<and> hc_put hc m k t \<subseteq>\<^sub>m m(k \<mapsto> t))"

text \<open>\<open>Dedupe::new\<close>: the bytes the cache reserves.\<close>

definition dedupe_bytes :: "usize \<Rightarrow> usize" where
  "dedupe_bytes limit = sat_mul64 (sat_add64 limit 32) 256"

definition new_dedupe :: "usize \<Rightarrow> budget \<Rightarrow> (fingerprint \<rightharpoonup> instant) option \<times> budget" where
  "new_dedupe limit b =
     (if u32_max < dedupe_bytes limit then (None, b)
      else (case try_acquire b (dedupe_bytes limit) of
              (b, True) \<Rightarrow> (Some Map.empty, b)
            | (b, False) \<Rightarrow> (None, b)))"

definition accept_event ::
  "hash_cache \<Rightarrow> fingerprint \<Rightarrow> instant \<Rightarrow> instant option \<Rightarrow> (fingerprint \<rightharpoonup> instant) \<Rightarrow>
   bool \<times> (fingerprint \<rightharpoonup> instant)" where
  "accept_event hc fp batch_end committed m =
     (if is_some_and (\<lambda>t. is_some_and (\<lambda>c. t \<le> c) committed) (m fp) then (False, m)
      else (True, hc_put hc m fp batch_end))"

section \<open>Windows\<close>

record log_window =
  lw_id :: string
  lw_dedupe :: "(fingerprint \<rightharpoonup> instant) option"
  lw_committed :: "instant option"
  lw_gap_seconds :: u64
  lw_start :: instant
  lw_end :: instant
  lw_scanned :: usize
  lw_limit :: usize
  lw_duplicates :: usize
  lw_fingerprints :: "fingerprint set"
  lw_groups :: log_groups
  lw_contexts :: "(string, resource_context) bmap"

definition new_window ::
  "instant \<Rightarrow> job \<Rightarrow> string \<Rightarrow> span \<Rightarrow> usize \<Rightarrow> (fingerprint \<rightharpoonup> instant) option \<Rightarrow> log_window" where
  "new_window now j i window limit dedupe =
     (let stop = unwrap_or now (j_log_end j);
          full = stop - as_i64 window * nanos_per_sec
      in \<lparr>lw_id = i, lw_dedupe = dedupe, lw_committed = j_log_start j,
          lw_gap_seconds = (case j_log_start j of None \<Rightarrow> 0
            | Some t \<Rightarrow> nat (max 0 (num_seconds (full - t)))),
          lw_start = (case j_log_start j of None \<Rightarrow> full
            | Some t \<Rightarrow> max full (t - as_i64 (s_log_overlap (j_settings j)) * nanos_per_sec)),
          lw_end = stop, lw_scanned = 0, lw_limit = limit, lw_duplicates = 0, lw_fingerprints = {},
          lw_groups = [], lw_contexts = []\<rparr>)"

text \<open>What is hashed: the operation, the scope, the provider's id or the message, and the time.\<close>

type_synonym hash_fun = "string \<Rightarrow> string \<Rightarrow> string \<Rightarrow> instant \<Rightarrow> fingerprint"

text \<open>Whether an event is new: to this window, and to the cache if there is one.\<close>

definition judge_event ::
  "hash_cache \<Rightarrow> fingerprint \<Rightarrow> log_window \<Rightarrow> bool \<times> (fingerprint \<rightharpoonup> instant) option" where
  "judge_event hc fp w =
     (if fp \<in> lw_fingerprints w then (False, lw_dedupe w)
      else case lw_dedupe w of
             None \<Rightarrow> (True, None)
           | Some m \<Rightarrow> (case accept_event hc fp (lw_end w) (lw_committed w) m of (ok, m) \<Rightarrow> (ok, Some m)))"

definition record_log ::
  "hash_cache \<Rightarrow> hash_fun \<Rightarrow> string \<Rightarrow> string option \<Rightarrow> string \<Rightarrow> instant \<Rightarrow> log_window \<Rightarrow>
   (transport_error + unit) \<times> log_window" where
  "record_log hc hash scope i message t w =
     (if lw_limit w \<le> lw_scanned w then (Inl TLimit, w)
      else if t < lw_start w \<or> lw_end w < t then (Inl TMalformed, w\<lparr>lw_scanned := lw_scanned w + 1\<rparr>)
      else (let fp = hash (lw_id w) scope (unwrap_or message i) t;
                (new, cache) = judge_event hc fp w;
                w = w\<lparr>lw_scanned := lw_scanned w + 1, lw_dedupe := cache,
                      lw_fingerprints := insert fp (lw_fingerprints w)\<rparr>
            in if new then (Inr (), w\<lparr>lw_groups := add_log scope message t (lw_groups w)\<rparr>)
               else (Inr (), w\<lparr>lw_duplicates := lw_duplicates w + 1\<rparr>)))"

text \<open>The location fields two resources of one group have in common.\<close>

definition common_context :: "string \<Rightarrow> resource_context \<Rightarrow> resource_context \<Rightarrow> resource_context" where
  "common_context scope old new =
     old\<lparr>rc_native_id := (if rc_native_id old \<noteq> rc_native_id new then scope else rc_native_id old),
         rc_name := (if rc_name old \<noteq> rc_name new then None else rc_name old),
         rc_uid := (if rc_uid old \<noteq> rc_uid new then None else rc_uid old),
         rc_container := (if rc_container old \<noteq> rc_container new then None else rc_container old),
         rc_cluster := (if rc_cluster old \<noteq> rc_cluster new then None else rc_cluster old),
         rc_namespace := (if rc_namespace old \<noteq> rc_namespace new then None else rc_namespace old),
         rc_region := (if rc_region old \<noteq> rc_region new then None else rc_region old),
         rc_zone := (if rc_zone old \<noteq> rc_zone new then None else rc_zone old)\<rparr>"

definition record_log_context ::
  "hash_cache \<Rightarrow> hash_fun \<Rightarrow> string \<Rightarrow> string option \<Rightarrow> string \<Rightarrow> instant \<Rightarrow> resource_context option \<Rightarrow> log_window \<Rightarrow>
   (transport_error + unit) \<times> log_window" where
  "record_log_context hc hash scope i message t ctx w =
     (case record_log hc hash scope i message t w of
        (Inl e, w) \<Rightarrow> (Inl e, w)
      | (Inr u, w) \<Rightarrow>
          (case ctx of
             None \<Rightarrow> (Inr u, w)
           | Some c \<Rightarrow>
               (let k = identity scope
                in (Inr u, w\<lparr>lw_contexts := bm_put k
                      (case bm_get (lw_contexts w) k of None \<Rightarrow> c | Some old \<Rightarrow> common_context k old c)
                      (lw_contexts w)\<rparr>))))"

text \<open>\<open>finish\<close>: the groups, the window itself and its operations are added to the result.\<close>

definition signature_scope :: "string \<Rightarrow> string option" where
  "signature_scope s = map_option fst (rsplit_once CHR ''/'' s)"

definition log_observation ::
  "instant \<Rightarrow> job \<Rightarrow> string \<Rightarrow> log_window \<Rightarrow> bool \<Rightarrow> string \<times> string \<times> (bool \<Rightarrow> data) \<Rightarrow> observation" where
  "log_observation now j i w sampled entry =
     (let (_, signature, d) = entry;
          obs = project_observation now j i signature (d sampled)
      in case signature_scope signature of
           None \<Rightarrow> obs
         | Some scope \<Rightarrow> obs\<lparr>o_context := oelse (bm_get (lw_contexts w) scope) (o_context obs)\<rparr>)"

definition finish_window ::
  "instant \<Rightarrow> job \<Rightarrow> string \<Rightarrow> transport_error + unit \<Rightarrow> usize \<Rightarrow> log_window \<Rightarrow> check_result \<Rightarrow> check_result" where
  "finish_window now j i outcome pages w r =
     (let outcome = (if j_continuous j \<and> lw_dedupe w = None \<and> \<not> isl outcome then Inl TLimit else outcome);
          required = s_required (j_settings j);
          window = (project_observation now j i ''window''
            (LogWindow (lw_gap_seconds w) (lw_start w) (lw_end w) (lw_scanned w) (lw_duplicates w) (lw_limit w)
               (\<not> isl outcome)))\<lparr>o_observed_at := lw_end w\<rparr>
      in r\<lparr>r_observations := r_observations r @
             map (log_observation now j i w (isl outcome)) (scoped_logs (lw_groups w)) @ [window],
           r_operations := r_operations r @
             (if 0 < lw_gap_seconds w
              then [project_operation now (i @ ''/missing-window'') (Inl TMissing) 0 required] else []) @
             [project_operation now i (map_sum id (\<lambda>_. lw_scanned w) outcome) pages required]\<rparr>)"

end
