(* ===== verification/Projection_Properties.thy ===== *)
theory Projection_Properties
  imports Kube_Projection Log_Window Samples
begin

text \<open>
  Facts about what integrations project: identities carry only allowed characters, a queue
  demand is complete only with a workload and a finite backlog, and a log window counts every
  event it scanned once.
\<close>

section \<open>Identities\<close>

lemma identity_chars: "list_all identity_char (identity s) \<and> length (identity s) \<le> 512"
  by (auto simp: identity_def list_all_iff dest: in_set_takeD)

lemma project_observation_resource:
  "o_resource (project_observation now j op name d) = t_name (j_target j) @ ''/'' @ op @ ''/'' @ identity name"
  by (simp add: project_observation_def Let_def)

definition projected_by :: "job \<Rightarrow> string \<Rightarrow> observation \<Rightarrow> bool" where
  "projected_by j op obs \<longleftrightarrow> (\<exists>i. o_resource obs = t_name (j_target j) @ ''/'' @ op @ ''/'' @ i \<and>
     list_all identity_char i \<and> length i \<le> 512)"

lemma projected_by_projection [simp]: "projected_by j op (project_observation now j op name d)"
  using identity_chars by (auto simp: projected_by_def project_observation_resource)

lemma projected_by_contextual [simp]: "projected_by j op (contextual va v ctx obs) = projected_by j op obs"
  by (simp add: projected_by_def contextual_def)

lemma project_links_by: "obs \<in> set (project_links va now j kind name v) \<Longrightarrow> projected_by j kind obs"
  by (auto simp: project_links_def owner_link_def scaler_links_def Let_def split: option.splits if_splits)

lemma project_images_by: "obs \<in> set (project_images va now j kind name v) \<Longrightarrow> projected_by j kind obs"
  by (auto simp: project_images_def container_image_def map_filter_def Let_def
      split: option.splits prod.splits)

lemma project_kind_by:
  "project_kind va now j kind name v = Collected obss \<Longrightarrow> obs \<in> set obss \<Longrightarrow> projected_by j kind obs"
  by (auto simp: project_kind_def project_pod_def container_observations_def Let_def
      dest: project_images_by split: option.splits if_splits)

section \<open>Log windows\<close>

definition counted :: "log_groups \<Rightarrow> nat" where
  "counted gs = sum_list (map (\<lambda>(_, _, g). lg_count g) gs)"

lemma counted_put:
  assumes "bm_wf gs"
  shows "counted (bm_put k (c, g) gs) + (case bm_get gs k of None \<Rightarrow> 0 | Some (_, g') \<Rightarrow> lg_count g') =
     counted gs + lg_count g"
  using assms
proof (induction k "(c, g)" gs rule: bm_put.induct)
  case (2 k k' v' gs)
  obtain c' g' where v': "v' = (c', g')" by fastforce
  have wf: "bm_wf gs" and above: "\<forall>x \<in> set (map fst gs). k' < x" using 2(2) by (auto simp: bm_wf_def)
  have "bm_get gs k = None" if "k < k'"
    using above that by (force simp: map_of_eq_None_iff)
  with wf above show ?case using 2 v' by (auto simp: counted_def split: if_splits)
qed (simp add: counted_def)

definition room :: "log_window \<Rightarrow> nat" where
  "room w = lw_limit w - lw_scanned w"

definition window_ok :: "log_window \<Rightarrow> bool" where
  "window_ok w \<longleftrightarrow> bm_wf (lw_groups w) \<and> lw_limit w \<le> u64_max \<and> lw_scanned w \<le> lw_limit w \<and>
     counted (lw_groups w) + lw_duplicates w \<le> lw_scanned w"

text \<open>What a record leaves of the window, by its answer.\<close>

lemma add_log_counted:
  assumes "bm_wf gs" and "counted gs < u64_max"
  shows "bm_wf (add_log scope message t gs)" "counted (add_log scope message t gs) = Suc (counted gs)"
proof -
  let ?k = "(identity scope, log_rank (classify message))"
  have le: "lg_count g \<le> counted gs" if "bm_get gs ?k = Some (c, g)" for c g
  proof -
    have "lg_count g \<in> set (map (\<lambda>(_, _, g). lg_count g) gs)" using map_of_SomeD [OF that] by force
    then show ?thesis unfolding counted_def by (rule member_le_sum_list) simp
  qed
  show "bm_wf (add_log scope message t gs)" using assms(1) by (simp add: add_log_def Let_def bm_wf_put)
  show "counted (add_log scope message t gs) = Suc (counted gs)"
  proof (cases "bm_get gs ?k")
    case None
    then show ?thesis
      using counted_put [OF assms(1), of ?k "classify message"] by (simp add: add_log_def Let_def sat_add64_def u64_max_def)
  next
    case (Some cg)
    obtain c g where cg: "cg = (c, g)" by fastforce
    have "sat_add64 (lg_count g) 1 = lg_count g + 1"
      using le [of c g] Some cg assms(2) by (intro sat_add64_exact) simp
    then show ?thesis
      using counted_put [OF assms(1), of ?k "classify message" "\<lparr>lg_count = Suc (lg_count g),
          lg_first = min (lg_first g) t, lg_last = max (lg_last g) t\<rparr>"] Some cg
      by (simp add: add_log_def Let_def)
  qed
qed

lemma record_log_cases:
  assumes "record_log hc hash scope i message t w = (res, w')"
  obtains (limit) "res = Inl TLimit" "w' = w" "lw_limit w \<le> lw_scanned w"
  | (outside) "res = Inl TMalformed" "w' = w\<lparr>lw_scanned := lw_scanned w + 1\<rparr>" "lw_scanned w < lw_limit w"
  | (new) cache where "res = Inr ()" "lw_scanned w < lw_limit w"
      "w' = w\<lparr>lw_scanned := lw_scanned w + 1, lw_dedupe := cache,
         lw_fingerprints := insert (hash (lw_id w) scope (unwrap_or message i) t) (lw_fingerprints w),
         lw_groups := add_log scope message t (lw_groups w)\<rparr>"
  | (duplicate) cache where "res = Inr ()" "lw_scanned w < lw_limit w"
      "w' = w\<lparr>lw_scanned := lw_scanned w + 1, lw_dedupe := cache,
         lw_fingerprints := insert (hash (lw_id w) scope (unwrap_or message i) t) (lw_fingerprints w),
         lw_duplicates := lw_duplicates w + 1\<rparr>"
proof (cases "lw_limit w \<le> lw_scanned w")
  case True
  then show ?thesis using assms limit by (simp add: record_log_def)
next
  case False
  let ?fp = "hash (lw_id w) scope (unwrap_or message i) t"
  show ?thesis
  proof (cases "t < lw_start w \<or> lw_end w < t")
    case True
    then show ?thesis using assms False outside by (simp add: record_log_def Let_def)
  next
    case inside: False
    obtain fresh cache where answer: "judge_event hc ?fp w = (fresh, cache)" by (metis surj_pair)
    have "(res, w') = (if fresh
        then (Inr (), w\<lparr>lw_scanned := lw_scanned w + 1, lw_dedupe := cache,
          lw_fingerprints := insert ?fp (lw_fingerprints w), lw_groups := add_log scope message t (lw_groups w)\<rparr>)
        else (Inr (), w\<lparr>lw_scanned := lw_scanned w + 1, lw_dedupe := cache,
          lw_fingerprints := insert ?fp (lw_fingerprints w), lw_duplicates := lw_duplicates w + 1\<rparr>))"
      using assms False inside answer by (cases fresh) (auto simp: record_log_def Let_def)
    then show ?thesis using new duplicate False by (auto split: if_splits)
  qed
qed

lemma record_log_ok:
  assumes "window_ok w" and "record_log hc hash scope i message t w = (res, w')"
  shows "window_ok w'"
    and "res = Inr u \<Longrightarrow> counted (lw_groups w') + lw_duplicates w' = Suc (counted (lw_groups w) + lw_duplicates w) \<and>
      lw_scanned w' = Suc (lw_scanned w)"
  using assms(1) add_log_counted [of "lw_groups w" scope message t]
  by (cases rule: record_log_cases [OF assms(2)]; auto simp: window_ok_def)+

text \<open>A batch of events, up to the first one that is refused.\<close>

fun record_all ::
  "hash_cache \<Rightarrow> hash_fun \<Rightarrow> (string \<times> string option \<times> string \<times> instant) list \<Rightarrow> log_window \<Rightarrow>
   (transport_error + unit) \<times> log_window" where
  "record_all hc hash [] w = (Inr (), w)"
| "record_all hc hash ((scope, i, message, t) # es) w =
     (case record_log hc hash scope i message t w of
        (Inl e, w) \<Rightarrow> (Inl e, w) | (Inr _, w) \<Rightarrow> record_all hc hash es w)"

lemma record_all_ok:
  "window_ok w \<Longrightarrow> record_all hc hash es w = (res, w') \<Longrightarrow> window_ok w' \<and>
   (\<not> isl res \<longrightarrow> counted (lw_groups w') + lw_duplicates w' = counted (lw_groups w) + lw_duplicates w + length es \<and>
      lw_scanned w' = lw_scanned w + length es)"
proof (induction es arbitrary: w)
  case (Cons e es)
  obtain scope i message t where e: "e = (scope, i, message, t)" by (metis prod_cases4)
  obtain r1 w1 where r: "record_log hc hash scope i message t w = (r1, w1)" by (metis surj_pair)
  note ok = record_log_ok [OF Cons.prems(1) r]
  show ?case
  proof (cases r1)
    case (Inl x)
    then show ?thesis using Cons.prems(2) r e ok(1) by auto
  next
    case (Inr u)
    then have "record_all hc hash es w1 = (res, w')" using Cons.prems(2) r e by simp
    from Cons.IH [OF ok(1) this] show ?thesis using ok(2) [OF Inr] by auto
  qed
qed auto

section \<open>Properties\<close>

text \<open>C40: Every observation of a Kubernetes object is named after its target and kind and by at most
  512 characters of the identity alphabet, whatever the object contains.\<close>

theorem projected_identities_are_clean:
  assumes "obs \<in> set (project_object va now j kind v)"
  shows "\<exists>i. o_resource obs = t_name (j_target j) @ ''/'' @ kind @ ''/'' @ i \<and>
     list_all identity_char i \<and> length i \<le> 512"
proof -
  obtain obs' where obs': "obs' \<in> set (project_inner va now j kind v)"
    "obs = contextual va v (kube_context va j kind v) obs'"
    using assms by (auto simp: project_object_def)
  have "projected_by j kind obs'"
    using obs'(1) by (auto simp: project_inner_def Let_def dest: project_links_by project_images_by project_kind_by
        split: option.splits if_splits projected.splits)
  then have "projected_by j kind obs" by (simp add: obs'(2))
  then show ?thesis by (simp only: projected_by_def)
qed

text \<open>A value that is only a name.\<close>

definition name_api :: "unit value_api" where
  "name_api = \<lparr>va_pointer = (\<lambda>_ p. if p = ''/metadata/name'' then Some () else None), va_get = (\<lambda>_ _. None),
     va_str = (\<lambda>_. Some ''api'' ), va_f64 = (\<lambda>_. None), va_i64 = (\<lambda>_. None), va_bool = (\<lambda>_. None),
     va_array = (\<lambda>_. None), va_parse_f64 = (\<lambda>_. None), va_rfc3339 = (\<lambda>_. None),
     va_from_timestamp = (\<lambda>_ _. None), va_span = (\<lambda>_. None)\<rparr>"

theorem projected_identities_are_clean_witness:
  "\<exists>obs \<in> set (project_object name_api 0 sample_job ''certificates'' ()). \<exists>i.
     o_resource obs = t_name (j_target sample_job) @ ''/'' @ ''certificates'' @ ''/'' @ i \<and> list_all identity_char i"
proof -
  have "project_inner name_api 0 sample_job ''certificates'' () \<noteq> []"
    by (simp add: project_inner_def text_at_def name_api_def obind_def project_kind_def Let_def
        sample_job_def sample_target_def)
  then obtain obs where "obs \<in> set (project_object name_api 0 sample_job ''certificates'' ())"
    by (metis all_not_in_conv map_is_Nil_conv project_object_def set_empty)
  with projected_identities_are_clean [OF this] show ?thesis by blast
qed

text \<open>Every event of a batch that a log window took is counted in exactly one group or as a
  duplicate.\<close>

theorem every_event_is_counted:
  assumes "record_all hc hash es (new_window now j i window limit dedupe) = (Inr u, w)" and "limit \<le> u64_max"
  shows "counted (lw_groups w) + lw_duplicates w = length es \<and> lw_scanned w = length es \<and> length es \<le> limit"
proof -
  have "window_ok (new_window now j i window limit dedupe)"
    using assms(2) by (simp add: window_ok_def new_window_def Let_def counted_def)
  from record_all_ok [OF this assms(1)] have "window_ok w"
    "counted (lw_groups w) + lw_duplicates w = length es" "lw_scanned w = length es"
    by (auto simp: new_window_def Let_def counted_def)
  moreover have "lw_limit w' = lw_limit w" if "record_all hc hash es w = (res, w')" for es w w' res
    using that
  proof (induction es arbitrary: w)
    case (Cons e es)
    obtain scope i message t where e: "e = (scope, i, message, t)" by (metis prod_cases4)
    obtain r1 w1 where r: "record_log hc hash scope i message t w = (r1, w1)" by (metis surj_pair)
    have "lw_limit w1 = lw_limit w" by (cases rule: record_log_cases [OF r]) auto
    then show ?case using Cons r e by (cases r1) auto
  qed simp
  ultimately show ?thesis using assms(1) by (force simp: window_ok_def new_window_def Let_def)
qed

text \<open>An event a window took is not counted again by a later window over the same operation once
  the first one is committed and while the cache still holds it; before that it is.\<close>

theorem overlap_is_counted_once:
  assumes "evicting_cache hc" and "lw_dedupe w2 = Some m2"
    and "hash (lw_id w) scope (unwrap_or message i) t \<notin> lw_fingerprints w" and "lw_dedupe w = Some m"
    and "record_log hc hash scope i message t w = (Inr u, w1)" and "lw_groups w1 \<noteq> lw_groups w"
    and "lw_id w2 = lw_id w" and "lw_fingerprints w2 = {}" and "lw_dedupe w1 = Some m1"
    and "m2 (hash (lw_id w) scope (unwrap_or message i) t) = m1 (hash (lw_id w) scope (unwrap_or message i) t)"
    and "record_log hc hash scope i message t w2 = (Inr u', w2')" and "lw_committed w2 = Some c"
  shows "lw_groups w2' = lw_groups w2 \<longleftrightarrow> lw_end w \<le> c \<or> add_log scope message t (lw_groups w2) = lw_groups w2"
proof -
  let ?fp = "hash (lw_id w) scope (unwrap_or message i) t"
  have "m1 ?fp = Some (lw_end w)"
    using assms(1,3-6,9) by (auto simp: record_log_def judge_event_def accept_event_def evicting_cache_def Let_def split: if_splits)
  then show ?thesis
    using assms(2,7,8,10-12) by (auto simp: record_log_def judge_event_def accept_event_def Let_def split: if_splits)
qed

theorem every_event_is_counted_witness:
  "counted (lw_groups (snd (record_all \<lparr>hc_put = (\<lambda>m k t. m(k \<mapsto> t))\<rparr> (\<lambda>_ s i _. s @ i)
      [(''a'', Some ''1'', ''panic'', 0), (''a'', Some ''1'', ''panic'', 0)]
      (new_window 0 sample_job ''logs'' 60 10 None)))) +
   lw_duplicates (snd (record_all \<lparr>hc_put = (\<lambda>m k t. m(k \<mapsto> t))\<rparr> (\<lambda>_ s i _. s @ i)
      [(''a'', Some ''1'', ''panic'', 0), (''a'', Some ''1'', ''panic'', 0)]
      (new_window 0 sample_job ''logs'' 60 10 None))) = 2"
proof -
  let ?w = "new_window 0 sample_job ''logs'' 60 10 None"
  have "lw_start ?w \<le> 0" "0 \<le> lw_end ?w" "lw_scanned ?w = 0" "lw_limit ?w = 10" "lw_fingerprints ?w = {}" "lw_dedupe ?w = None"
    by (simp_all add: new_window_def sample_job_def as_i64_small nanos_per_sec_def)
  then have "fst (record_all \<lparr>hc_put = (\<lambda>m k t. m(k \<mapsto> t))\<rparr> (\<lambda>_ s i _. s @ i)
      [(''a'', Some ''1'', ''panic'', 0), (''a'', Some ''1'', ''panic'', 0)] ?w) = Inr ()"
    by (simp add: record_log_def judge_event_def Let_def)
  then show ?thesis
    using every_event_is_counted [of "\<lparr>hc_put = (\<lambda>m k t. m(k \<mapsto> t))\<rparr>" "\<lambda>_ s i _. s @ i"
        "[(''a'', Some ''1'', ''panic'', 0), (''a'', Some ''1'', ''panic'', 0)]" 0 sample_job "''logs''" 60 10 None
        "()" "snd (record_all \<lparr>hc_put = (\<lambda>m k t. m(k \<mapsto> t))\<rparr> (\<lambda>_ s i _. s @ i)
          [(''a'', Some ''1'', ''panic'', 0), (''a'', Some ''1'', ''panic'', 0)] ?w)"]
    by (simp add: prod_eq_iff u64_max_def)
qed

end
