(* ===== verification/Query_Recorder.thy ===== *)
theory Query_Recorder
  imports History_Records BTree
begin

text \<open>
  \<open>crates/server/src/query_recorder.rs\<close>: unchanged findings become intervals. The versions that are
  open, their bytes, and the rows every capture and closure emits; with the ledger of rows the
  journal writes. SHA-256 over JSON is a parameter.
\<close>

section \<open>State\<close>

record recorder_codec =
  rk_rows :: record_codec
  rk_check_key :: "q_category \<Rightarrow> string \<Rightarrow> instant \<Rightarrow> details \<Rightarrow> string option"
  rk_fingerprint :: "q_scope \<Rightarrow> q_location \<Rightarrow> q_check option \<Rightarrow> string option \<Rightarrow> bool \<Rightarrow> details \<Rightarrow> string option"
  rk_key :: "string \<Rightarrow> string \<Rightarrow> instant \<Rightarrow> string option"

record version =
  ve_fingerprint :: string
  ve_row :: query_row
  ve_bytes :: usize

record recorder =
  re_active :: "(string, version) bmap"
  re_bytes :: usize

definition new_recorder :: recorder where
  "new_recorder = \<lparr>re_active = [], re_bytes = 0\<rparr>"

fun category_name :: "q_category \<Rightarrow> string" where
  "category_name QFinding = ''Finding''"
| "category_name QDiagnostic = ''Diagnostic''"
| "category_name QCheck = ''Check''"
| "category_name QRelease = ''Release''"

definition recorder_limit :: usize where "recorder_limit = 16 * 1024 * 1024"

definition active_identity :: "q_record \<Rightarrow> string" where
  "active_identity r = category_name (category r) @ ''/'' @ qr_identity r"

definition record_fingerprint :: "recorder_codec \<Rightarrow> q_record \<Rightarrow> string option" where
  "record_fingerprint rk r =
     rk_fingerprint rk (qr_scope r) (qr_location r) (qr_check r) (qr_resource r) (qr_stale r) (qr_details r)"

section \<open>Capture\<close>

text \<open>Checks and diagnostics are recorded once each.\<close>

definition capture_once :: "recorder_codec \<Rightarrow> q_record \<Rightarrow> history_error + query_row list" where
  "capture_once rk r =
     (case rk_check_key rk (category r) (qr_identity r) (qr_observed_at r) (qr_details r) of
        None \<Rightarrow> Inl HRecord
      | Some k \<Rightarrow> (case new_query_row (rk_rows rk) k r of Inl e \<Rightarrow> Inl e | Inr row \<Rightarrow> Inr [row]))"

text \<open>The same content as the open version: its interval grows.\<close>

definition extend_version ::
  "recorder_codec \<Rightarrow> string \<Rightarrow> usize \<Rightarrow> version \<Rightarrow> q_record \<Rightarrow> recorder \<Rightarrow> (history_error + query_row list) \<times> recorder" where
  "extend_version rk i bytes old r rc =
     (let prior = qw_record (ve_row old);
          r = r\<lparr>qr_observed_at := qr_observed_at prior,
                qr_last_observed_at := max (qr_last_observed_at r) (qr_last_observed_at prior)\<rparr>
      in case new_query_row (rk_rows rk) (qw_key (ve_row old)) r of
           Inl e \<Rightarrow> (Inl e, rc)
         | Inr row \<Rightarrow>
             (Inr (if qr_last_observed_at r \<noteq> qr_last_observed_at prior \<or> qr_valid_until r \<noteq> qr_valid_until prior
                   then [row] else []),
              rc\<lparr>re_active := bm_put i (old\<lparr>ve_row := row, ve_bytes := bytes\<rparr>) (re_active rc),
                 re_bytes := sat_add64 (re_bytes rc - ve_bytes old) bytes\<rparr>))"

definition close_row :: "instant \<Rightarrow> query_row \<Rightarrow> query_row" where
  "close_row now row = row\<lparr>qw_record := (qw_record row)\<lparr>qr_closed_at := Some now\<rparr>\<rparr>"

text \<open>New content: the old version is closed (in place, even when the new row is refused) and the
  new one opened.\<close>

definition replace_version ::
  "recorder_codec \<Rightarrow> string \<Rightarrow> string \<Rightarrow> usize \<Rightarrow> instant \<Rightarrow> q_record \<Rightarrow> recorder \<Rightarrow>
   (history_error + query_row list) \<times> recorder" where
  "replace_version rk i fp bytes now r rc =
     (let old = bm_get (re_active rc) i;
          closed = (case old of None \<Rightarrow> [] | Some v \<Rightarrow> [close_row now (ve_row v)]);
          rc' = (case old of None \<Rightarrow> rc
             | Some v \<Rightarrow> rc\<lparr>re_active := bm_put i (v\<lparr>ve_row := close_row now (ve_row v)\<rparr>) (re_active rc)\<rparr>)
      in case rk_key rk i fp now of
           None \<Rightarrow> (Inl HRecord, rc')
         | Some k \<Rightarrow>
             (case new_query_row (rk_rows rk) k r of
                Inl e \<Rightarrow> (Inl e, rc')
              | Inr row \<Rightarrow>
                  (Inr (closed @ [row]),
                   rc'\<lparr>re_bytes := sat_add64 (re_bytes rc' - (case old of None \<Rightarrow> 0 | Some v \<Rightarrow> ve_bytes v)) bytes,
                      re_active := bm_put i \<lparr>ve_fingerprint = fp, ve_row = row, ve_bytes = bytes\<rparr> (re_active rc')\<rparr>)))"

definition capture ::
  "recorder_codec \<Rightarrow> instant \<Rightarrow> q_record \<Rightarrow> recorder \<Rightarrow> (history_error + query_row list) \<times> recorder" where
  "capture rk now r rc =
     (if category r = QCheck \<or> category r = QDiagnostic then (capture_once rk r, rc)
      else case (record_fingerprint rk r, rc_length (rk_rows rk) r) of
             (Some fp, Some n) \<Rightarrow>
               (let i = active_identity r;
                    bytes = sat_add64 (sat_mul64 n 2) 1024;
                    old = bm_get (re_active rc) i;
                    previous = (case old of None \<Rightarrow> 0 | Some v \<Rightarrow> ve_bytes v)
                in if recorder_limit < sat_add64 (re_bytes rc - previous) bytes then (Inl HCapacity, rc)
                   else case old of
                          Some v \<Rightarrow>
                            if ve_fingerprint v = fp then extend_version rk i bytes v r rc
                            else replace_version rk i fp bytes now r rc
                        | None \<Rightarrow>
                            if 20000 \<le> length (re_active rc) then (Inl HCapacity, rc)
                            else replace_version rk i fp bytes now r rc)
           | _ \<Rightarrow> (Inl HRecord, rc))"

section \<open>Closure\<close>

definition set_state :: "q_state \<Rightarrow> details \<Rightarrow> details" where
  "set_state st d = (case d of DFinding f \<Rightarrow> DFinding (f\<lparr>fd_state := st\<rparr>) | _ \<Rightarrow> d)"

definition close_finding :: "string \<Rightarrow> instant \<Rightarrow> bool \<Rightarrow> recorder \<Rightarrow> query_row option \<times> recorder" where
  "close_finding finding now removed rc =
     (let i = ''Finding/'' @ finding
      in case bm_get (re_active rc) i of
           None \<Rightarrow> (None, rc)
         | Some v \<Rightarrow>
             (let row = close_row now (ve_row v);
                  row = row\<lparr>qw_record := (qw_record row)\<lparr>qr_details :=
                    set_state (if removed then QRemoved else QRecovered) (qr_details (qw_record row))\<rparr>\<rparr>
              in (Some row, rc\<lparr>re_active := bm_del i (re_active rc), re_bytes := re_bytes rc - ve_bytes v\<rparr>)))"

definition version_bytes :: "(string, version) bmap \<Rightarrow> nat" where
  "version_bytes m = sum_list (map (\<lambda>(_, v). ve_bytes v) m)"

definition retain_resources :: "string set \<Rightarrow> recorder \<Rightarrow> recorder" where
  "retain_resources resources rc =
     (let m = bm_retain (\<lambda>k v. starts_with k ''Finding/'' \<or>
                 is_some_and (\<lambda>i. i \<in> resources) (qr_resource (qw_record (ve_row v)))) (re_active rc)
      in rc\<lparr>re_active := m, re_bytes := version_bytes m\<rparr>)"

section \<open>Runs\<close>

text \<open>A recorder in use and every row it has emitted, newest last.\<close>

inductive recording :: "recorder_codec \<Rightarrow> recorder \<Rightarrow> query_row list \<Rightarrow> bool" for rk where
  empty: "recording rk new_recorder []"
| captured: "recording rk rc rows \<Longrightarrow> qr_closed_at r = None \<Longrightarrow> capture rk now r rc = (Inr out, rc') \<Longrightarrow>
     recording rk rc' (rows @ out)"
| refused: "recording rk rc rows \<Longrightarrow> qr_closed_at r = None \<Longrightarrow> capture rk now r rc = (Inl e, rc') \<Longrightarrow>
     recording rk rc' rows"
| closed: "recording rk rc rows \<Longrightarrow> close_finding f now removed rc = (out, rc') \<Longrightarrow>
     recording rk rc' (rows @ (case out of None \<Rightarrow> [] | Some row \<Rightarrow> [row]))"
| retained: "recording rk rc rows \<Longrightarrow> recording rk (retain_resources resources rc) rows"

text \<open>What the ledger says of the finding row with a key: the last row emitted for it.\<close>

definition is_finding_row :: "query_row \<Rightarrow> bool" where
  "is_finding_row row \<longleftrightarrow> category (qw_record row) = QFinding"

definition ledger :: "query_row list \<Rightarrow> string \<Rightarrow> q_record option" where
  "ledger rows = map_of (map (\<lambda>row. (qw_key row, qw_record row)) (rev (filter is_finding_row rows)))"

end
