(* ===== verification/Recorder_Properties.thy ===== *)
theory Recorder_Properties
  imports Query_Recorder
begin

text \<open>
  The recorder stays within its bytes and entries, and the ledger never has two open rows of one
  finding.
\<close>

section \<open>The invariant\<close>

definition keys_distinct :: "recorder_codec \<Rightarrow> bool" where
  "keys_distinct rk \<longleftrightarrow> (\<forall>i f t i' f' t' k. rk_key rk i f t = Some k \<longrightarrow> rk_key rk i' f' t' = Some k \<longrightarrow>
     i = i' \<and> f = f')"

definition version_ok :: "recorder_codec \<Rightarrow> string \<Rightarrow> version \<Rightarrow> bool" where
  "version_ok rk i v \<longleftrightarrow> active_identity (qw_record (ve_row v)) = i \<and>
     (\<exists>t. rk_key rk i (ve_fingerprint v) t = Some (qw_key (ve_row v)))"

definition open_as :: "recorder \<Rightarrow> string \<Rightarrow> q_record \<Rightarrow> bool" where
  "open_as rc k r \<longleftrightarrow> qr_closed_at r = None \<longrightarrow>
     (\<exists>v. bm_get (re_active rc) (active_identity r) = Some v \<and> qw_key (ve_row v) = k)"

definition recorder_ok :: "recorder_codec \<Rightarrow> recorder \<Rightarrow> query_row list \<Rightarrow> bool" where
  "recorder_ok rk rc rows \<longleftrightarrow>
     bm_wf (re_active rc) \<and> length (re_active rc) \<le> 20000 \<and>
     re_bytes rc = version_bytes (re_active rc) \<and> re_bytes rc \<le> recorder_limit \<and>
     (\<forall>i v. bm_get (re_active rc) i = Some v \<longrightarrow> version_ok rk i v) \<and>
     (\<forall>k r. ledger rows k = Some r \<longrightarrow> open_as rc k r \<and> category r = QFinding)"

lemma ledger_append:
  "ledger (rows @ [row]) =
     (if is_finding_row row then (ledger rows)(qw_key row \<mapsto> qw_record row) else ledger rows)"
  by (simp add: ledger_def)

lemma version_bytes_put:
  "bm_wf m \<Longrightarrow> version_bytes (bm_put i v m) + (case bm_get m i of None \<Rightarrow> 0 | Some v' \<Rightarrow> ve_bytes v') =
     version_bytes m + ve_bytes v"
proof (induction i v m rule: bm_put.induct)
  case (2 i v i' v' m)
  have wf: "bm_wf m" and above: "\<forall>x \<in> set (map fst m). i' < x" using 2(2) by (auto simp: bm_wf_def)
  have "bm_get m i = None" if "i < i'" using above that by (force simp: map_of_eq_None_iff)
  with wf show ?case using 2 by (auto simp: version_bytes_def split: if_splits)
qed (simp add: version_bytes_def)

lemma version_bytes_del:
  "bm_wf m \<Longrightarrow> bm_get m i = Some v \<Longrightarrow> version_bytes (bm_del i m) + ve_bytes v = version_bytes m"
proof (induction m)
  case (Cons a m)
  obtain j w where a: "a = (j, w)" by fastforce
  have wf: "bm_wf m" and above: "\<forall>x \<in> set (map fst m). j < x" using Cons.prems(1) a by (auto simp: bm_wf_def)
  show ?case
  proof (cases "j = i")
    case True
    then have "filter (\<lambda>(k', v). k' \<noteq> i) m = m" using above by (force simp: filter_id_conv)
    then show ?thesis using True Cons.prems(2) a by (simp add: bm_del_def version_bytes_def)
  next
    case False
    then show ?thesis using Cons.IH [OF wf] Cons.prems(2) a by (simp add: bm_del_def version_bytes_def)
  qed
qed simp

lemma version_bytes_filter: "version_bytes (filter p m) \<le> version_bytes m"
  by (induction m) (auto simp: version_bytes_def)

lemma version_bytes_ge: "bm_get m i = Some v \<Longrightarrow> ve_bytes v \<le> version_bytes m"
proof -
  assume "bm_get m i = Some v"
  then have "ve_bytes v \<in> set (map (\<lambda>(_, v). ve_bytes v) m)" by (force dest: map_of_SomeD)
  then show ?thesis unfolding version_bytes_def by (rule member_le_sum_list) simp
qed

lemma length_put: "bm_wf m \<Longrightarrow> bm_get m i = Some v' \<Longrightarrow> length (bm_put i v m) = length m"
proof (induction i v m rule: bm_put.induct)
  case (2 i v i' w m)
  have wf: "bm_wf m" and above: "\<forall>x \<in> set (map fst m). i' < x" using 2(2) by (auto simp: bm_wf_def)
  have "bm_get m i = None" if "i < i'" using above that by (force simp: map_of_eq_None_iff)
  with wf show ?case using 2 by (auto split: if_splits)
qed simp

lemma length_put_le: "length (bm_put i v m) \<le> Suc (length m)"
  by (induction i v m rule: bm_put.induct) auto

lemma category_close [simp]: "category (qw_record (close_row now row)) = category (qw_record row)"
  "qw_key (close_row now row) = qw_key row"
  "active_identity (qw_record (close_row now row)) = active_identity (qw_record row)"
  "qr_closed_at (qw_record (close_row now row)) = Some now"
  by (simp_all add: close_row_def category_def active_identity_def)

lemma category_set_state [simp]: "category (r\<lparr>qr_details := set_state st (qr_details r)\<rparr>) = category r"
  by (simp add: category_def set_state_def split: details.split)

lemma new_row_fields:
  "new_query_row rc k r = Inr row \<Longrightarrow> qw_key row = k \<and> qw_record row = r"
  by (auto simp: new_query_row_def split: if_splits)

text \<open>A version of an identity is replaced in the map by one with the same key.\<close>

lemma recorder_ok_touch:
  assumes "recorder_ok rk rc rows" and "bm_get (re_active rc) i = Some v"
    and "ve_bytes v' = ve_bytes v" and "version_ok rk i v'" and "qw_key (ve_row v') = qw_key (ve_row v)"
  shows "recorder_ok rk (rc\<lparr>re_active := bm_put i v' (re_active rc)\<rparr>) rows"
proof -
  have wf: "bm_wf (re_active rc)" using assms(1) by (simp add: recorder_ok_def)
  have "open_as (rc\<lparr>re_active := bm_put i v' (re_active rc)\<rparr>) k r" if "open_as rc k r" for k r
    using that assms(2,5) by (auto simp: open_as_def get_bm_put)
  then show ?thesis
    using assms version_bytes_put [OF wf, of i v'] length_put [OF wf assms(2), of v']
    by (auto simp: recorder_ok_def bm_wf_put get_bm_put)
qed

lemma capture_once_rows: "capture_once rk r = Inr out \<Longrightarrow> row \<in> set out \<Longrightarrow> qw_record row = r"
  by (auto simp: capture_once_def split: option.splits sum.splits dest: new_row_fields)

lemma sat_within: "sat_add64 a b \<le> recorder_limit \<Longrightarrow> sat_add64 a b = a + b"
  by (auto simp: sat_add64_def recorder_limit_def u64_max_def min_def split: if_splits)

lemma extend_ok:
  assumes ok: "recorder_ok rk rc rows" and old: "bm_get (re_active rc) i = Some v"
    and i: "i = active_identity r" and "qr_closed_at r = None"
    and room: "sat_add64 (re_bytes rc - ve_bytes v) bytes \<le> recorder_limit"
    and run: "extend_version rk i bytes v r rc = (res, rc')"
  shows "case res of Inl e \<Rightarrow> rc' = rc | Inr out \<Rightarrow> recorder_ok rk rc' (rows @ out)"
proof -
  let ?r = "r\<lparr>qr_observed_at := qr_observed_at (qw_record (ve_row v)),
    qr_last_observed_at := max (qr_last_observed_at r) (qr_last_observed_at (qw_record (ve_row v)))\<rparr>"
  show ?thesis
  proof (cases "new_query_row (rk_rows rk) (qw_key (ve_row v)) ?r")
    case (Inl e)
    then show ?thesis using run by (auto simp: extend_version_def)
  next
    case (Inr row)
    let ?v = "v\<lparr>ve_row := row, ve_bytes := bytes\<rparr>"
    let ?out = "if qr_last_observed_at ?r \<noteq> qr_last_observed_at (qw_record (ve_row v)) \<or>
        qr_valid_until ?r \<noteq> qr_valid_until (qw_record (ve_row v)) then [row] else []"
    have res: "res = Inr ?out"
      "rc' = rc\<lparr>re_active := bm_put i ?v (re_active rc), re_bytes := sat_add64 (re_bytes rc - ve_bytes v) bytes\<rparr>"
      using run Inr by (auto simp: extend_version_def Let_def)
    have row: "qw_key row = qw_key (ve_row v)" "qw_record row = ?r" using new_row_fields [OF Inr] by simp_all
    have wf: "bm_wf (re_active rc)" and vok: "version_ok rk i v" using ok old by (auto simp: recorder_ok_def)
    have ident: "active_identity ?r = i" "category ?r = category r" by (simp_all add: i active_identity_def category_def)
    have "version_ok rk i ?v" using vok row ident by (auto simp: version_ok_def)
    moreover have "sat_add64 (re_bytes rc - ve_bytes v) bytes = version_bytes (bm_put i ?v (re_active rc))"
      using version_bytes_put [OF wf, of i ?v] version_bytes_ge [OF old] sat_within [OF room] old ok
      by (simp add: recorder_ok_def)
    moreover have kept: "open_as rc' k x" if "open_as rc k x" for k x
      using that old row by (auto simp: open_as_def res(2) get_bm_put)
    moreover have "open_as rc' (qw_key row) (qw_record row)"
      using row ident by (auto simp: open_as_def res(2) get_bm_put)
    ultimately have "recorder_ok rk rc' (rows @ ?out)"
      using ok old room row length_put [OF wf old, of ?v]
      by (auto simp: recorder_ok_def res(2) bm_wf_put get_bm_put ledger_append is_finding_row_def split: if_splits)
    then show ?thesis by (simp add: res(1))
  qed
qed

lemma replace_ok:
  assumes ok: "recorder_ok rk rc rows" and keys: "keys_distinct rk"
    and i: "i = active_identity r" and open_row: "qr_closed_at r = None"
    and cat: "category r = QFinding \<or> category r = QRelease"
    and new: "\<And>v. bm_get (re_active rc) i = Some v \<Longrightarrow> ve_fingerprint v \<noteq> fp"
    and count: "bm_get (re_active rc) i = None \<Longrightarrow> length (re_active rc) < 20000"
    and room: "sat_add64 (re_bytes rc - (case bm_get (re_active rc) i of None \<Rightarrow> 0 | Some v \<Rightarrow> ve_bytes v)) bytes
      \<le> recorder_limit"
    and run: "replace_version rk i fp bytes now r rc = (res, rc')"
  shows "case res of Inl e \<Rightarrow> recorder_ok rk rc' rows | Inr out \<Rightarrow> recorder_ok rk rc' (rows @ out)"
proof -
  define rc1 where "rc1 = (case bm_get (re_active rc) i of None \<Rightarrow> rc
    | Some v \<Rightarrow> rc\<lparr>re_active := bm_put i (v\<lparr>ve_row := close_row now (ve_row v)\<rparr>) (re_active rc)\<rparr>)"
  have ok1: "recorder_ok rk rc1 rows"
  proof (cases "bm_get (re_active rc) i")
    case (Some v)
    have "version_ok rk i v" using ok Some by (auto simp: recorder_ok_def)
    then have "version_ok rk i (v\<lparr>ve_row := close_row now (ve_row v)\<rparr>)" by (simp add: version_ok_def)
    then show ?thesis using recorder_ok_touch [OF ok Some] Some by (simp add: rc1_def)
  qed (simp add: rc1_def ok)
  have run1: "(res, rc') = (case rk_key rk i fp now of
        None \<Rightarrow> (Inl HRecord, rc1)
      | Some k \<Rightarrow> (case new_query_row (rk_rows rk) k r of
          Inl e \<Rightarrow> (Inl e, rc1)
        | Inr row \<Rightarrow>
            (Inr ((case bm_get (re_active rc) i of None \<Rightarrow> [] | Some v \<Rightarrow> [close_row now (ve_row v)]) @ [row]),
             rc1\<lparr>re_bytes := sat_add64 (re_bytes rc1 - (case bm_get (re_active rc) i of None \<Rightarrow> 0 | Some v \<Rightarrow> ve_bytes v)) bytes,
               re_active := bm_put i \<lparr>ve_fingerprint = fp, ve_row = row, ve_bytes = bytes\<rparr> (re_active rc1)\<rparr>)))"
    unfolding run [symmetric] replace_version_def Let_def rc1_def ..
  show ?thesis
  proof (cases "rk_key rk i fp now")
    case None
    then show ?thesis using run1 ok1 by simp
  next
    case (Some k)
    show ?thesis
    proof (cases "new_query_row (rk_rows rk) k r")
      case (Inl e)
      then show ?thesis using run1 ok1 Some by simp
    next
      case (Inr row)
      have row: "qw_key row = k" "qw_record row = r" using new_row_fields [OF Inr] by simp_all
      let ?v = "\<lparr>ve_fingerprint = fp, ve_row = row, ve_bytes = bytes\<rparr>"
      let ?prev = "case bm_get (re_active rc) i of None \<Rightarrow> 0 | Some v \<Rightarrow> ve_bytes v"
      have res: "res = Inr ((case bm_get (re_active rc) i of None \<Rightarrow> [] | Some v \<Rightarrow> [close_row now (ve_row v)]) @ [row])"
        "re_active rc' = bm_put i ?v (re_active rc1)" "re_bytes rc' = sat_add64 (re_bytes rc - ?prev) bytes"
        using run1 Some Inr by (auto simp: rc1_def split: option.split)
      have wf: "bm_wf (re_active rc1)" using ok1 by (simp add: recorder_ok_def)
      have get1: "bm_get (re_active rc1) i = map_option (\<lambda>v. v\<lparr>ve_row := close_row now (ve_row v)\<rparr>) (bm_get (re_active rc) i)"
        "j \<noteq> i \<Longrightarrow> bm_get (re_active rc1) j = bm_get (re_active rc) j" for j
        by (auto simp: rc1_def get_bm_put split: option.split)
      have v_ok: "version_ok rk i ?v" using Some row i by (auto simp: version_ok_def)
      have bytes: "re_bytes rc' = version_bytes (re_active rc')" "re_bytes rc' \<le> recorder_limit"
      proof -
        have "re_bytes rc = version_bytes (re_active rc1)"
          using ok1 by (auto simp: recorder_ok_def rc1_def split: option.splits)
        then show "re_bytes rc' = version_bytes (re_active rc')"
          using version_bytes_put [OF wf, of i ?v] sat_within [OF room] version_bytes_ge [of "re_active rc1" i]
          by (cases "bm_get (re_active rc) i") (auto simp: res get1)
        show "re_bytes rc' \<le> recorder_limit" using room by (simp add: res)
      qed
      have len: "length (re_active rc') \<le> 20000"
      proof (cases "bm_get (re_active rc) i")
        case None
        then show ?thesis using count length_put_le [of i ?v "re_active rc1"] by (simp add: res rc1_def)
      next
        case (Some v)
        then show ?thesis using length_put [OF wf, of i _ ?v] get1(1) ok1 by (auto simp: res recorder_ok_def)
      qed
      have versions: "version_ok rk j v" if "bm_get (re_active rc') j = Some v" for j v
        using that ok1 v_ok by (auto simp: res get_bm_put recorder_ok_def split: if_splits)
      let ?closed = "case bm_get (re_active rc) i of None \<Rightarrow> [] | Some v \<Rightarrow> [close_row now (ve_row v)]"
      have others: "open_as rc' k' x" "category x = QFinding"
        if x: "ledger (rows @ ?closed) k' = Some x" for k' x
      proof -
        have old: "open_as rc1 k' x \<and> category x = QFinding" if "ledger rows k' = Some x"
          using ok1 that by (auto simp: recorder_ok_def)
        have "open_as rc' k' x \<and> category x = QFinding"
        proof (cases "bm_get (re_active rc) i")
          case None
          then have "open_as rc1 k' x" "category x = QFinding" using x old by auto
          moreover have "active_identity x \<noteq> i" if "qr_closed_at x = None"
            using calculation(1) that None get1(1) by (auto simp: open_as_def)
          ultimately show ?thesis by (auto simp: open_as_def res get_bm_put)
        next
          case (Some v)
          have vok: "version_ok rk i v" using ok Some by (auto simp: recorder_ok_def)
          show ?thesis
          proof (cases "k' = qw_key (ve_row v) \<and> is_finding_row (close_row now (ve_row v))")
            case True
            then have "x = qw_record (close_row now (ve_row v))" using x Some by (simp add: ledger_append)
            then show ?thesis using True by (auto simp: open_as_def is_finding_row_def)
          next
            case False
            then have "ledger rows k' = Some x" using x Some by (auto simp: ledger_append split: if_splits)
            then have was: "open_as rc1 k' x" "category x = QFinding" using old by auto
            have "active_identity x \<noteq> i" if "qr_closed_at x = None"
            proof
              assume same: "active_identity x = i"
              then have key: "k' = qw_key (ve_row v)" using was(1) that get1(1) Some by (auto simp: open_as_def)
              have "active_identity (qw_record (ve_row v)) = active_identity x" using vok same by (simp add: version_ok_def)
              then have "category (qw_record (ve_row v)) = QFinding"
                using was(2) by (cases "category (qw_record (ve_row v))") (auto simp: active_identity_def)
              then show False using False key by (simp add: is_finding_row_def)
            qed
            then show ?thesis using was by (auto simp: open_as_def res get_bm_put)
          qed
        qed
        then show "open_as rc' k' x" "category x = QFinding" by auto
      qed
      have "open_as rc' k r" using i row by (auto simp: open_as_def res get_bm_put)
      then have "open_as rc' k' x \<and> category x = QFinding" if "ledger (rows @ ?closed @ [row]) k' = Some x" for k' x
        using that others ledger_append [of "rows @ ?closed" row] row
        by (auto simp: is_finding_row_def split: if_splits)
      then show ?thesis
        using bytes len versions wf by (simp add: res(1) recorder_ok_def res(2) bm_wf_put)
    qed
  qed
qed

lemma ledger_other_rows:
  "(\<And>row. row \<in> set out \<Longrightarrow> \<not> is_finding_row row) \<Longrightarrow> ledger (rows @ out) = ledger rows"
  by (simp add: ledger_def filter_empty_conv)

lemma capture_ok:
  assumes ok: "recorder_ok rk rc rows" and keys: "keys_distinct rk" and open_row: "qr_closed_at r = None"
    and run: "capture rk now r rc = (res, rc')"
  shows "case res of Inl e \<Rightarrow> recorder_ok rk rc' rows | Inr out \<Rightarrow> recorder_ok rk rc' (rows @ out)"
proof (cases "category r = QCheck \<or> category r = QDiagnostic")
  case True
  then have res: "res = capture_once rk r" "rc' = rc" using run by (auto simp: capture_def)
  have "ledger (rows @ out) = ledger rows" if "res = Inr out" for out
    using capture_once_rows [of rk r out] that res True by (intro ledger_other_rows) (auto simp: is_finding_row_def)
  then show ?thesis using ok res by (auto simp: recorder_ok_def split: sum.split)
next
  case False
  then have cat: "category r = QFinding \<or> category r = QRelease" by (cases "category r") auto
  define i where "i = active_identity r"
  show ?thesis
  proof (cases "record_fingerprint rk r = None \<or> rc_length (rk_rows rk) r = None")
    case True
    then show ?thesis using run False ok by (auto simp: capture_def split: option.splits)
  next
    case some: False
    then obtain fp n where fp: "record_fingerprint rk r = Some fp" "rc_length (rk_rows rk) r = Some n" by auto
    define bytes where "bytes = sat_add64 (sat_mul64 n 2) 1024"
    let ?prev = "case bm_get (re_active rc) i of None \<Rightarrow> 0 | Some v \<Rightarrow> ve_bytes v"
    have run': "(if recorder_limit < sat_add64 (re_bytes rc - ?prev) bytes then (Inl HCapacity, rc)
        else case bm_get (re_active rc) i of
            Some v \<Rightarrow> if ve_fingerprint v = fp then extend_version rk i bytes v r rc else replace_version rk i fp bytes now r rc
          | None \<Rightarrow> if 20000 \<le> length (re_active rc) then (Inl HCapacity, rc) else replace_version rk i fp bytes now r rc)
        = (res, rc')"
      using run False by (simp add: capture_def fp Let_def i_def bytes_def cong: option.case_cong if_cong)
    show ?thesis
    proof (cases "recorder_limit < sat_add64 (re_bytes rc - ?prev) bytes")
      case True
      then show ?thesis using run' ok by auto
    next
      case False
      then have room: "sat_add64 (re_bytes rc - ?prev) bytes \<le> recorder_limit" by simp
      note replace = replace_ok [OF ok keys i_def open_row cat _ _ room]
      show ?thesis
      proof (cases "bm_get (re_active rc) i")
        case None
        then have "res = Inl HCapacity \<and> rc' = rc \<or>
            length (re_active rc) < 20000 \<and> replace_version rk i fp bytes now r rc = (res, rc')"
          using run' False by (auto split: if_splits)
        then show ?thesis using replace [of fp now res rc'] None ok by auto
      next
        case (Some v)
        show ?thesis
        proof (cases "ve_fingerprint v = fp")
          case True
          then have "extend_version rk i bytes v r rc = (res, rc')" using run' False Some by simp
          from extend_ok [OF ok Some i_def open_row _ this] show ?thesis
            using room Some ok by (auto split: sum.splits)
        next
          case new: False
          then have "replace_version rk i fp bytes now r rc = (res, rc')" using run' False Some by simp
          from replace [OF _ _ this] show ?thesis using new Some by simp
        qed
      qed
    qed
  qed
qed

lemma close_finding_ok:
  assumes ok: "recorder_ok rk rc rows" and run: "close_finding f now removed rc = (out, rc')"
  shows "recorder_ok rk rc' (rows @ (case out of None \<Rightarrow> [] | Some row \<Rightarrow> [row]))"
proof (cases "bm_get (re_active rc) (''Finding/'' @ f)")
  case None
  then show ?thesis using ok run by (auto simp: close_finding_def)
next
  case (Some v)
  define i where "i = ''Finding/'' @ f"
  have v: "bm_get (re_active rc) i = Some v" using Some i_def by simp
  define row where "row = (close_row now (ve_row v))\<lparr>qw_record := (qw_record (close_row now (ve_row v)))\<lparr>qr_details :=
      set_state (if removed then QRemoved else QRecovered) (qr_details (qw_record (ve_row v)))\<rparr>\<rparr>"
  have det: "qr_details (qw_record (close_row now (ve_row v))) = qr_details (qw_record (ve_row v))"
    by (simp add: close_row_def)
  have out: "out = Some row" "rc' = rc\<lparr>re_active := bm_del i (re_active rc), re_bytes := re_bytes rc - ve_bytes v\<rparr>"
    using run Some by (auto simp: close_finding_def Let_def row_def i_def det)
  have wf: "bm_wf (re_active rc)" and vok: "version_ok rk i v" using ok v by (auto simp: recorder_ok_def)
  have row: "qw_key row = qw_key (ve_row v)" "qr_closed_at (qw_record row) = Some now"
    "category (qw_record row) = category (qw_record (ve_row v))"
    by (simp_all add: row_def close_row_def category_def set_state_def split: details.split)
  have finding: "is_finding_row row"
    using vok row(3) by (cases "category (qw_record (ve_row v))") (auto simp: version_ok_def active_identity_def i_def is_finding_row_def)
  have kept: "open_as rc' k x \<and> category x = QFinding" if "ledger (rows @ [row]) k = Some x" for k x
  proof (cases "k = qw_key row")
    case True
    then show ?thesis using that finding row by (auto simp: ledger_append open_as_def is_finding_row_def)
  next
    case False
    then have was: "open_as rc k x" "category x = QFinding"
      using that ok by (auto simp: ledger_append recorder_ok_def split: if_splits)
    have "active_identity x \<noteq> i" if "qr_closed_at x = None"
      using was(1) that v False row(1) by (auto simp: open_as_def)
    then show ?thesis using was by (auto simp: open_as_def out get_bm_del)
  qed
  have "length (bm_del i (re_active rc)) \<le> length (re_active rc)" by (simp add: bm_del_def)
  moreover have "version_bytes (bm_del i (re_active rc)) + ve_bytes v = version_bytes (re_active rc)"
    using version_bytes_del [OF wf v] .
  ultimately show ?thesis using ok kept by (auto simp: recorder_ok_def out bm_wf_del get_bm_del split: if_splits)
qed

lemma retain_ok:
  assumes ok: "recorder_ok rk rc rows"
  shows "recorder_ok rk (retain_resources resources rc) rows"
proof -
  define p :: "string \<Rightarrow> version \<Rightarrow> bool" where "p = (\<lambda>k v. starts_with k ''Finding/'' \<or>
    is_some_and (\<lambda>i. i \<in> resources) (qr_resource (qw_record (ve_row v))))"
  have rc': "retain_resources resources rc =
      rc\<lparr>re_active := bm_retain p (re_active rc), re_bytes := version_bytes (bm_retain p (re_active rc))\<rparr>"
    by (simp add: retain_resources_def Let_def p_def)
  have wf: "bm_wf (re_active rc)" using ok by (simp add: recorder_ok_def)
  have "p (active_identity x) v" if "category x = QFinding" for x v
    using that by (simp add: p_def active_identity_def starts_with_def)
  then have kept: "open_as (retain_resources resources rc) k x" if "open_as rc k x" "category x = QFinding" for k x
    using that by (fastforce simp: open_as_def rc' get_bm_retain [OF wf])
  have le: "version_bytes (bm_retain p (re_active rc)) \<le> version_bytes (re_active rc)"
    "length (bm_retain p (re_active rc)) \<le> length (re_active rc)"
    using version_bytes_filter by (auto simp: bm_retain_def)
  have "version_ok rk i v" if "bm_get (bm_retain p (re_active rc)) i = Some v" for i v
    using that ok by (auto simp: get_bm_retain [OF wf] recorder_ok_def split: option.splits if_splits)
  then show ?thesis using ok kept le by (auto simp: recorder_ok_def rc' bm_wf_retain)
qed

lemma recording_ok:
  assumes "recording rk rc rows" and "keys_distinct rk"
  shows "recorder_ok rk rc rows"
  using assms(1)
proof induction
  case empty
  show ?case by (simp add: recorder_ok_def new_recorder_def version_bytes_def bm_wf_def ledger_def)
next
  case (captured rc rows r now out rc')
  show ?case using capture_ok [OF captured.IH assms(2) captured.hyps(2,3)] by simp
next
  case (refused rc rows r now e rc')
  show ?case using capture_ok [OF refused.IH assms(2) refused.hyps(2,3)] by simp
next
  case (closed rc rows f now removed out rc')
  show ?case using close_finding_ok [OF closed.IH closed.hyps(2)] .
next
  case (retained rc rows resources)
  show ?case using retain_ok [OF retained.IH] .
qed

section \<open>Properties\<close>

text \<open>C24: however captures, refusals, closures and evictions interleave, the recorder holds at most
  20000 open versions, its byte counter is exactly the sum over them and never above 16 MiB, and the
  ledger never shows two open rows of one finding.\<close>

theorem one_open_row_per_finding:
  assumes "recording rk rc rows" and "keys_distinct rk"
  shows "length (re_active rc) \<le> 20000 \<and> re_bytes rc = version_bytes (re_active rc) \<and>
    re_bytes rc \<le> 16 * 1024 * 1024 \<and>
    (\<forall>k k' r r'. ledger rows k = Some r \<and> ledger rows k' = Some r' \<and> qr_closed_at r = None \<and>
       qr_closed_at r' = None \<and> qr_identity r = qr_identity r' \<longrightarrow> k = k')"
proof -
  have ok: "recorder_ok rk rc rows" by (rule recording_ok [OF assms])
  have "k = k'" if "ledger rows k = Some r" "ledger rows k' = Some r'" "qr_closed_at r = None"
    "qr_closed_at r' = None" "qr_identity r = qr_identity r'" for k k' r r'
  proof -
    have "open_as rc k r" "open_as rc k' r'" "active_identity r = active_identity r'"
      using that ok by (auto simp: recorder_ok_def active_identity_def)
    then show ?thesis using that(3,4) by (auto simp: open_as_def)
  qed
  then show ?thesis using ok by (auto simp: recorder_ok_def recorder_limit_def)
qed

section \<open>A finding that changes once\<close>

definition sample_codec_rk :: recorder_codec where
  "sample_codec_rk = \<lparr>rk_rows = \<lparr>rc_value = \<lambda>_. Some JScalar, rc_length = \<lambda>_. Some 512\<rparr>,
     rk_check_key = \<lambda>_ _ _ _. None, rk_fingerprint = \<lambda>_ _ _ _ stale _. Some (if stale then ''b'' else ''a''),
     rk_key = \<lambda>i f _. if i = ''Finding/f'' then Some f else None\<rparr>"

definition sample_observed :: "bool \<Rightarrow> instant \<Rightarrow> q_record" where
  "sample_observed stale t = \<lparr>qr_id = ''r'', qr_identity = ''f'',
     qr_scope = \<lparr>qs_target = ''api'', qs_provider = QGcp, qs_scope = ''p''\<rparr>, qr_location = any_location,
     qr_check = Some QCKubernetes, qr_resource = None, qr_observed_at = t, qr_last_observed_at = t,
     qr_valid_until = None, qr_closed_at = None, qr_stale = stale,
     qr_details = DFinding \<lparr>fd_rule = ''down'', fd_severity = QWarning, fd_state = QStillActive,
       fd_first_detected_at = Some 1, fd_expected = QActive, fd_confidence = QDirect, fd_facts = [],
       fd_links = [], fd_legacy = False\<rparr>\<rparr>"

definition sample_rows :: "query_row list" where
  "sample_rows = [\<lparr>qw_key = ''a'', qw_record = sample_observed False 1\<rparr>,
     \<lparr>qw_key = ''a'', qw_record = (sample_observed False 1)\<lparr>qr_closed_at := Some 2\<rparr>\<rparr>,
     \<lparr>qw_key = ''b'', qw_record = sample_observed True 2\<rparr>]"

definition sample_recorder :: "bool \<Rightarrow> instant \<Rightarrow> recorder" where
  "sample_recorder stale t = \<lparr>re_active = [(''Finding/f'', \<lparr>ve_fingerprint = (if stale then ''b'' else ''a''),
     ve_row = \<lparr>qw_key = (if stale then ''b'' else ''a''), qw_record = sample_observed stale t\<rparr>, ve_bytes = 2048\<rparr>)],
     re_bytes = 2048\<rparr>"

lemmas sample_recorder_defs = capture_def sample_codec_rk_def sample_recorder_def sample_observed_def new_recorder_def
  category_def active_identity_def record_fingerprint_def recorder_limit_def sat_add64_def sat_mul64_def u64_max_def
  replace_version_def new_query_row_def close_row_def valid_record_def valid_text_def any_location_def
  is_name_def is_resource_def bounded_text_def

lemma sample_capture_1:
  "capture sample_codec_rk 1 (sample_observed False 1) new_recorder =
     (Inr (take 1 sample_rows), sample_recorder False 1)"
  by (simp add: sample_recorder_defs sample_rows_def) code_simp

lemma sample_capture_2:
  "capture sample_codec_rk 2 (sample_observed True 2) (sample_recorder False 1) =
     (Inr (drop 1 sample_rows), sample_recorder True 2)"
  by (simp add: sample_recorder_defs sample_rows_def) code_simp

lemma sample_recording: "recording sample_codec_rk (sample_recorder True 2) sample_rows"
proof -
  have one: "recording sample_codec_rk (sample_recorder False 1) ([] @ take 1 sample_rows)"
    by (rule recording.captured [OF recording.empty _ sample_capture_1]) (simp add: sample_observed_def)
  have "recording sample_codec_rk (sample_recorder True 2) (take 1 sample_rows @ drop 1 sample_rows)"
    by (rule recording.captured [OF _ _ sample_capture_2]) (use one in \<open>simp_all add: sample_observed_def\<close>)
  then show ?thesis by simp
qed

lemma sample_keys_distinct: "keys_distinct sample_codec_rk"
  by (auto simp: keys_distinct_def sample_codec_rk_def split: if_splits)

lemma one_open_row_per_finding_witness:
  "length (re_active (sample_recorder True 2)) \<le> 20000 \<and> re_bytes (sample_recorder True 2) \<le> 16 * 1024 * 1024 \<and>
   ledger sample_rows ''b'' = Some (sample_observed True 2) \<and>
   ledger sample_rows ''a'' = Some ((sample_observed False 1)\<lparr>qr_closed_at := Some 2\<rparr>)"
  using one_open_row_per_finding [OF sample_recording sample_keys_distinct]
  by (simp add: ledger_def sample_rows_def is_finding_row_def category_def sample_observed_def)

end
