(* ===== verification/Costs.thy ===== *)
theory Costs
  imports Validate
begin

text \<open>
  \<open>crates/costs\<close>: bounded amounts, charges and the sources they come from (\<open>model.rs\<close>,
  \<open>config.rs\<close>), the filter of a billing view (\<open>query.rs\<close>) and the reduction of daily aggregates to
  chart points (\<open>aggregate.rs\<close>). \<open>BigDecimal\<close> is an abstract type \<open>'d\<close> with the operations the code
  uses, in the record \<open>decimal_api\<close>. A \<open>NaiveDate\<close> is the number of days since the epoch.
\<close>

section \<open>Decimals and dates\<close>

record 'd decimal_api =
  dc_parse :: "string \<Rightarrow> 'd option"
  dc_plain :: "'d \<Rightarrow> string"
  dc_int :: "nat \<Rightarrow> 'd"
  dc_add :: "'d \<Rightarrow> 'd \<Rightarrow> 'd"
  dc_sub :: "'d \<Rightarrow> 'd \<Rightarrow> 'd"
  dc_mul :: "'d \<Rightarrow> 'd \<Rightarrow> 'd"
  dc_abs :: "'d \<Rightarrow> 'd"
  dc_le :: "'d \<Rightarrow> 'd \<Rightarrow> bool"
  dc_fraction_digits :: "'d \<Rightarrow> int"
  dc_normalized :: "'d \<Rightarrow> 'd"

text \<open>What \<open>BigDecimal\<close> documents: its operations are exact and normalisation keeps the value.\<close>

definition decimal_laws :: "'d decimal_api \<Rightarrow> ('d \<Rightarrow> rat) \<Rightarrow> bool" where
  "decimal_laws dc v \<longleftrightarrow>
     (\<forall>n. v (dc_int dc n) = of_nat n) \<and> (\<forall>a b. v (dc_add dc a b) = v a + v b) \<and>
     (\<forall>a b. v (dc_sub dc a b) = v a - v b) \<and> (\<forall>a b. v (dc_mul dc a b) = v a * v b) \<and>
     (\<forall>a. v (dc_abs dc a) = \<bar>v a\<bar>) \<and> (\<forall>a b. dc_le dc a b \<longleftrightarrow> v a \<le> v b) \<and> (\<forall>a. v (dc_normalized dc a) = v a)"

type_synonym date = int

definition date_of :: "instant \<Rightarrow> date" where
  "date_of t = t div (86400 * nanos_per_sec)"

text \<open>\<open>ca_valid\<close>: the dates \<open>NaiveDate\<close> represents; \<open>ca_month_start\<close>: \<open>with_day(1)\<close>.\<close>

record calendar =
  ca_valid :: "date \<Rightarrow> bool"
  ca_month_start :: "date \<Rightarrow> date option"

definition date_add :: "calendar \<Rightarrow> date \<Rightarrow> int \<Rightarrow> date option" where
  "date_add ca d n = (if ca_valid ca (d + n) then Some (d + n) else None)"

section \<open>Amounts\<close>

datatype cost_error = CConfiguration | CQuery | CAmount | CLimit | CRecord | CRevision

datatype cost_provider = CostGcp | CostAws | CostAzure | CostExternal

text \<open>\<open>from_decimal\<close>: at most 38 fractional and twenty integer digits.\<close>

definition from_decimal :: "'d decimal_api \<Rightarrow> 'd \<Rightarrow> cost_error + 'd" where
  "from_decimal dc x =
     (if 38 < dc_fraction_digits dc x \<or> dc_le dc (dc_mul dc (dc_int dc 10000000000000000000) (dc_int dc 10)) (dc_abs dc x)
      then Inl CAmount else Inr (dc_normalized dc x))"

definition zero_amount :: "'d decimal_api \<Rightarrow> 'd" where "zero_amount dc = dc_int dc 0"

definition add_amounts :: "'d decimal_api \<Rightarrow> 'd \<Rightarrow> 'd \<Rightarrow> cost_error + 'd" where
  "add_amounts dc a b = from_decimal dc (dc_add dc a b)"

text \<open>\<open>i32::from_str\<close>, without its range (an exponent beyond 38 is refused anyway).\<close>

definition digits_value :: "string \<Rightarrow> nat" where
  "digits_value s = foldl (\<lambda>n c. 10 * n + (of_char c - 48)) 0 s"

definition parse_exponent :: "string \<Rightarrow> int option" where
  "parse_exponent s =
     (case s of
        CHR ''-'' # ds \<Rightarrow> if ds \<noteq> [] \<and> list_all is_ascii_digit ds then Some (- int (digits_value ds)) else None
      | CHR ''+'' # ds \<Rightarrow> if ds \<noteq> [] \<and> list_all is_ascii_digit ds then Some (int (digits_value ds)) else None
      | ds \<Rightarrow> if ds \<noteq> [] \<and> list_all is_ascii_digit ds then Some (int (digits_value ds)) else None)"

text \<open>What follows the first \<open>e\<close> or \<open>E\<close>.\<close>

fun exponent_text :: "string \<Rightarrow> string option" where
  "exponent_text [] = None"
| "exponent_text (c # s) = (if c \<in> {CHR ''e'', CHR ''E''} then Some s else exponent_text s)"

definition provider_amount :: "'d decimal_api \<Rightarrow> string \<Rightarrow> cost_error + 'd" where
  "provider_amount dc s =
     (if 64 < length s \<or> s = [] \<or> list_ex (\<lambda>b. \<not> is_ascii_digit b \<and> b \<notin> set ''.+-eE'') s then Inl CAmount
      else if is_some_and (\<lambda>x. \<not> is_some_and (\<lambda>e. \<bar>e\<bar> \<le> 38) (parse_exponent x)) (exponent_text s) then Inl CAmount
      else case dc_parse dc s of None \<Rightarrow> Inl CAmount | Some x \<Rightarrow> from_decimal dc x)"

definition text_amount :: "'d decimal_api \<Rightarrow> string \<Rightarrow> cost_error + 'd" where
  "text_amount dc s =
     (if s = [] \<or> 60 < length s \<or> is_some_and (\<lambda>(_, fraction). 38 < length fraction) (split_once CHR ''.'' s) \<or>
         list_ex (\<lambda>b. \<not> is_ascii_digit b \<and> b \<noteq> CHR ''.'' \<and> b \<noteq> CHR ''-'') s
      then Inl CAmount
      else case dc_parse dc s of None \<Rightarrow> Inl CAmount | Some x \<Rightarrow> from_decimal dc x)"

section \<open>Charges\<close>

record 'd charge =
  cg_target :: "string option"
  cg_day :: date
  cg_invoice_month :: "string option"
  cg_provider :: cost_provider
  cg_scope :: "string option"
  cg_region :: "string option"
  cg_product :: string
  cg_resource :: "string option"
  cg_category :: "string option"
  cg_currency :: string
  cg_billed :: 'd
  cg_effective :: "'d option"

definition currencies :: "string list" where
  "currencies = [''USD'', ''EUR'', ''GBP'', ''JPY'', ''CAD'', ''AUD'', ''NZD'', ''CHF'', ''INR'', ''KRW'', ''SGD'', ''BRL'', ''MXN'',
     ''CNY'', ''HKD'', ''TWD'', ''SEK'', ''NOK'', ''DKK'', ''PLN'', ''ZAR'', ''IDR'', ''MYR'', ''THB'', ''TRY'', ''ILS'',
     ''AED'', ''SAR'', ''CLP'', ''COP'', ''PEN'']"

definition is_currency :: "string \<Rightarrow> bool" where
  "is_currency s \<longleftrightarrow> s \<in> set currencies"

text \<open>\<open>config::identifier\<close> of this crate.\<close>

definition cost_identifier :: "string \<Rightarrow> bool" where
  "cost_identifier s \<longleftrightarrow> s \<noteq> [] \<and> length s \<le> 128 \<and>
     list_all (\<lambda>b. is_ascii_alphanumeric b \<or> b = CHR ''_'' \<or> b = CHR ''-'') s"

definition bad_month :: "string \<Rightarrow> bool" where
  "bad_month s \<longleftrightarrow> length s \<noteq> 6 \<or> \<not> list_all is_ascii_digit s \<or>
     \<not> (1 \<le> digits_value (drop 4 s) \<and> digits_value (drop 4 s) \<le> 12)"

definition bad_dimension :: "nat \<Rightarrow> string \<Rightarrow> bool" where
  "bad_dimension limit s \<longleftrightarrow> s = [] \<or> limit < length s \<or> has_control s"

definition charge_valid :: "'d charge \<Rightarrow> bool" where
  "charge_valid c \<longleftrightarrow>
     \<not> is_some_and (\<lambda>t. \<not> cost_identifier t) (cg_target c) \<and> is_currency (cg_currency c) \<and>
     cg_product c \<noteq> [] \<and> length (cg_product c) \<le> 256 \<and> \<not> has_control (cg_product c) \<and>
     \<not> is_some_and bad_month (cg_invoice_month c) \<and>
     list_all (\<lambda>(x, limit). \<not> is_some_and (bad_dimension limit) x)
       [(cg_scope c, 128), (cg_region c, 128), (cg_resource c, 2048), (cg_category c, 128)]"

record source_status =
  so_id :: string
  so_provider :: cost_provider
  so_state :: string
  so_imported_at :: "instant option"
  so_from :: "date option"
  so_to :: "date option"
  so_revision :: "string option"
  so_fault :: "string option"

section \<open>Configuration\<close>

record scope_target =
  sg_provider :: cost_provider
  sg_scope :: string
  sg_target :: string
  sg_valid_from :: "date option"
  sg_valid_to :: "date option"

record gcp_source =
  gs_project :: string
  gs_dataset :: string
  gs_table :: string
  gs_location :: string
  gs_detailed :: bool

text \<open>\<open>AwsQuery\<close> is its region, \<open>AzureQuery\<close> its API version, \<open>ReaderAccess\<close> has one value.\<close>

record cost_source =
  cs_id :: string
  cs_provider :: cost_provider
  cs_billing_scope :: string
  cs_gcp :: "gcp_source option"
  cs_aws_query :: "string option"
  cs_azure_query :: "string option"
  cs_credential :: "credential option"

record cost_config =
  cc_enabled :: bool
  cc_reader_access :: "unit option"
  cc_sources :: "cost_source list"
  cc_scope_targets :: "scope_target list"
  cc_interval_seconds :: "u64 option"
  cc_backfill_days :: "u16 option"
  cc_retention_days :: "u16 option"
  cc_max_rows :: "usize option"
  cc_max_bytes_billed :: "u64 option"
  cc_daily_bytes_billed :: "u64 option"

definition cost_interval :: "cost_config \<Rightarrow> u64" where
  "cost_interval cc = unwrap_or 3600 (cc_interval_seconds cc)"
definition cost_backfill :: "cost_config \<Rightarrow> u16" where
  "cost_backfill cc = unwrap_or 90 (cc_backfill_days cc)"
definition cost_retention :: "cost_config \<Rightarrow> u16" where
  "cost_retention cc = unwrap_or 400 (cc_retention_days cc)"
definition cost_row_limit :: "cost_config \<Rightarrow> usize" where
  "cost_row_limit cc = unwrap_or 100000 (cc_max_rows cc)"
definition query_bytes :: "cost_config \<Rightarrow> u64" where
  "query_bytes cc = unwrap_or (2 * 1024 * 1024 * 1024) (cc_max_bytes_billed cc)"
definition daily_bytes :: "cost_config \<Rightarrow> u64" where
  "daily_bytes cc = unwrap_or (20 * 1024 * 1024 * 1024) (cc_daily_bytes_billed cc)"

text \<open>A charge belongs to a target only when exactly one mapping matches it.\<close>

definition mapping_matches :: "'d charge \<Rightarrow> scope_target \<Rightarrow> bool" where
  "mapping_matches c m \<longleftrightarrow>
     sg_provider m = cg_provider c \<and> cg_scope c = Some (sg_scope m) \<and>
     is_none_or (\<lambda>d. d \<le> cg_day c) (sg_valid_from m) \<and> is_none_or (\<lambda>d. cg_day c < d) (sg_valid_to m)"

definition attribute :: "cost_config \<Rightarrow> 'd charge \<Rightarrow> 'd charge" where
  "attribute cc c =
     c\<lparr>cg_target := (case filter (mapping_matches c) (cc_scope_targets cc) of [m] \<Rightarrow> Some (sg_target m) | _ \<Rightarrow> None)\<rparr>"

definition credential_fits :: "cost_provider \<Rightarrow> provider \<Rightarrow> bool" where
  "credential_fits p q \<longleftrightarrow> (p, q) \<in> {(CostGcp, Gcp), (CostAws, Aws), (CostAzure, Azure)}"

definition adapter_valid :: "cost_source \<Rightarrow> bool" where
  "adapter_valid s \<longleftrightarrow>
     (case (cs_gcp s, cs_provider s) of
        (Some g, CostGcp) \<Rightarrow> list_all cost_identifier [gs_project g, gs_dataset g, gs_table g, gs_location g]
      | (None, CostAws) \<Rightarrow> is_some_and cost_identifier (cs_aws_query s) \<and> length (cs_billing_scope s) = 12 \<and>
          list_all is_ascii_digit (cs_billing_scope s)
      | (None, CostAzure) \<Rightarrow> is_some_and cost_identifier (cs_azure_query s) \<and> length (cs_billing_scope s) = 36 \<and>
          list_all (\<lambda>b. is_ascii_hexdigit b \<or> b = CHR ''-'') (cs_billing_scope s)
      | _ \<Rightarrow> False)"

definition source_valid :: "cost_source \<Rightarrow> bool" where
  "source_valid s \<longleftrightarrow>
     is_none_or (\<lambda>c. validate_credential c = Inr () \<and> credential_fits (cs_provider s) (c_provider c)) (cs_credential s) \<and>
     cost_identifier (cs_id s) \<and> cs_billing_scope s \<noteq> [] \<and> length (cs_billing_scope s) \<le> 128 \<and>
     (if cs_gcp s \<noteq> None then 1 else 0) + (if cs_aws_query s \<noteq> None then 1 else 0) +
       (if cs_azure_query s \<noteq> None then 1 else 0) = (1::nat) \<and>
     adapter_valid s"

definition cost_bounds_valid :: "cost_config \<Rightarrow> bool" where
  "cost_bounds_valid cc \<longleftrightarrow>
     \<not> (cc_enabled cc \<and> cc_reader_access cc = None) \<and> length (cc_sources cc) \<le> 16 \<and>
     length (cc_scope_targets cc) \<le> 128 \<and>
     900 \<le> cost_interval cc \<and> cost_interval cc \<le> 86400 \<and> 1 \<le> cost_backfill cc \<and> cost_backfill cc \<le> 400 \<and>
     cost_backfill cc \<le> cost_retention cc \<and> cost_retention cc \<le> 730 \<and>
     100 \<le> cost_row_limit cc \<and> cost_row_limit cc \<le> 500000 \<and> query_bytes cc \<noteq> 0 \<and>
     query_bytes cc \<le> daily_bytes cc \<and> daily_bytes cc \<le> 1024 * 1024 * 1024 * 1024"

definition validate_costs :: "cost_config \<Rightarrow> cost_error + unit" where
  "validate_costs cc =
     (if \<not> cost_bounds_valid cc then Inl CConfiguration
      else if \<not> (list_all source_valid (cc_sources cc) \<and> distinct (map cs_id (cc_sources cc)) \<and>
                distinct (map (\<lambda>s. (cs_provider s, cs_billing_scope s)) (cc_sources cc)))
      then Inl CConfiguration
      else if list_ex (\<lambda>m. sg_scope m = [] \<or> 128 < length (sg_scope m) \<or> \<not> cost_identifier (sg_target m))
                (cc_scope_targets cc)
      then Inl CConfiguration else Inr ())"

section \<open>Views\<close>

datatype cost_group = GProvider | GProduct | GScope | GRegion | GCategory | GResource | GTarget
datatype measure_kind = Billed | Effective
datatype granularity = Daily | Monthly

record cost_filter =
  cq_from :: "date option"
  cq_to :: "date option"
  cq_currency :: "string option"
  cq_measure :: measure_kind
  cq_group :: cost_group
  cq_granularity :: granularity
  cq_target :: "string option"
  cq_provider :: "cost_provider option"
  cq_scope :: "string option"
  cq_product :: "string option"
  cq_region :: "string option"
  cq_category :: "string option"
  cq_resource :: "string option"
  cq_contributor :: "string option"
  cq_day :: "date option"
  cq_q :: "string option"
  cq_cursor :: "string option"
  cq_revision :: "string option"
  cq_limit :: "u16 option"

record period =
  pe_from :: date
  pe_to :: date

text \<open>A year before 1970 is a negative day.\<close>

definition cost_period :: "instant \<Rightarrow> cost_filter \<Rightarrow> cost_error + period" where
  "cost_period now f =
     (let t = unwrap_or (date_of now) (cq_to f); s = unwrap_or (t - 30) (cq_from f)
      in if s < 0 \<or> t \<le> s \<or> 400 < t - s \<or> date_of now + 1 < t \<or>
            is_some_and (\<lambda>c. \<not> is_currency c) (cq_currency f) \<or>
            is_some_and (\<lambda>n. \<not> (1 \<le> n \<and> n \<le> 100)) (cq_limit f) \<or>
            list_ex (is_some_and (bad_dimension 2048))
              [cq_target f, cq_scope f, cq_product f, cq_region f, cq_category f, cq_resource f, cq_contributor f, cq_q f] \<or>
            is_some_and (\<lambda>v. 8192 < length v) (cq_cursor f) \<or> is_some_and (\<lambda>v. 128 < length v) (cq_revision f) \<or>
            is_some_and (\<lambda>d. d < s \<or> t \<le> d) (cq_day f)
         then Inl CQuery else Inr \<lparr>pe_from = s, pe_to = t\<rparr>)"

section \<open>Charts\<close>

record 'd bucket =
  bu_day :: date
  bu_key :: string
  bu_amount :: 'd
  bu_credits :: 'd

record 'd contributor =
  co_key :: string
  co_amount :: 'd
  co_credits :: 'd
  co_previous :: "'d option"

record 'd point =
  po_date :: date
  po_total :: 'd
  po_credits :: 'd
  po_previous :: "'d option"
  po_contributors :: "'d contributor list"

type_synonym 'd day_groups = "(date, (string, 'd \<times> 'd) bmap) bmap"

definition align_day :: "calendar \<Rightarrow> granularity \<Rightarrow> date \<Rightarrow> date option" where
  "align_day ca g d = (case g of Daily \<Rightarrow> Some d | Monthly \<Rightarrow> ca_month_start ca d)"

definition add_both :: "'d decimal_api \<Rightarrow> 'd \<times> 'd \<Rightarrow> 'd \<times> 'd \<Rightarrow> cost_error + 'd \<times> 'd" where
  "add_both dc x y =
     (case add_amounts dc (fst x) (fst y) of
        Inl e \<Rightarrow> Inl e
      | Inr a \<Rightarrow> (case add_amounts dc (snd x) (snd y) of Inl e \<Rightarrow> Inl e | Inr c \<Rightarrow> Inr (a, c)))"

text \<open>One row of the first loop of \<open>series\<close>: into its day and key, or into the comparison line.\<close>

definition series_row ::
  "'d decimal_api \<Rightarrow> calendar \<Rightarrow> period \<Rightarrow> granularity \<Rightarrow> 'd bucket \<Rightarrow> 'd day_groups \<times> (date, 'd) bmap \<Rightarrow>
   cost_error + 'd day_groups \<times> (date, 'd) bmap" where
  "series_row dc ca p g row st =
     (case st of (days, prior) \<Rightarrow>
       (let current = pe_from p \<le> bu_day row
        in case (if current then Some (bu_day row) else date_add ca (bu_day row) (pe_to p - pe_from p)) of
             None \<Rightarrow> Inl CQuery
           | Some aligned \<Rightarrow>
               (case align_day ca g aligned of
                  None \<Rightarrow> Inl CQuery
                | Some day \<Rightarrow>
                    if current then
                      (let gs = unwrap_or [] (bm_get days day);
                           old = unwrap_or (zero_amount dc, zero_amount dc) (bm_get gs (bu_key row))
                       in case add_both dc old (bu_amount row, bu_credits row) of
                            Inl e \<Rightarrow> Inl e
                          | Inr new \<Rightarrow> Inr (bm_put day (bm_put (bu_key row) new gs) days, prior))
                    else
                      (case add_amounts dc (unwrap_or (zero_amount dc) (bm_get prior day)) (bu_amount row) of
                         Inl e \<Rightarrow> Inl e
                       | Inr new \<Rightarrow> Inr (days, bm_put day new prior)))))"

fun series_rows ::
  "'d decimal_api \<Rightarrow> calendar \<Rightarrow> period \<Rightarrow> granularity \<Rightarrow> 'd bucket list \<Rightarrow> 'd day_groups \<times> (date, 'd) bmap \<Rightarrow>
   cost_error + 'd day_groups \<times> (date, 'd) bmap" where
  "series_rows dc ca p g [] st = Inr st"
| "series_rows dc ca p g (row # rows) st =
     (case series_row dc ca p g row st of Inl e \<Rightarrow> Inl e | Inr st \<Rightarrow> series_rows dc ca p g rows st)"

fun sum_groups ::
  "'d decimal_api \<Rightarrow> (string \<times> 'd \<times> 'd) list \<Rightarrow> 'd \<times> 'd \<Rightarrow> cost_error + 'd \<times> 'd" where
  "sum_groups dc [] acc = Inr acc"
| "sum_groups dc ((_, x) # gs) acc =
     (case add_both dc acc x of Inl e \<Rightarrow> Inl e | Inr acc \<Rightarrow> sum_groups dc gs acc)"

definition make_point ::
  "'d decimal_api \<Rightarrow> bool \<Rightarrow> (date, 'd) bmap \<Rightarrow> date \<Rightarrow> (string, 'd \<times> 'd) bmap \<Rightarrow> cost_error + 'd point" where
  "make_point dc known prior day groups =
     (case sum_groups dc groups (zero_amount dc, zero_amount dc) of
        Inl e \<Rightarrow> Inl e
      | Inr (t, c) \<Rightarrow>
          Inr \<lparr>po_date = day, po_total = t, po_credits = c,
               po_previous = (if known then Some (unwrap_or (zero_amount dc) (bm_get prior day)) else None),
               po_contributors = map (\<lambda>(k, (a, c)). \<lparr>co_key = k, co_amount = a, co_credits = c, co_previous = None\<rparr>) groups\<rparr>)"

text \<open>\<open>prior.remove\<close> reads each day once, so the lookup needs no removal.\<close>

fun make_points ::
  "'d decimal_api \<Rightarrow> bool \<Rightarrow> (date, 'd) bmap \<Rightarrow> 'd day_groups \<Rightarrow> cost_error + 'd point list" where
  "make_points dc known prior [] = Inr []"
| "make_points dc known prior ((day, groups) # days) =
     (case make_point dc known prior day groups of
        Inl e \<Rightarrow> Inl e
      | Inr pt \<Rightarrow> (case make_points dc known prior days of Inl e \<Rightarrow> Inl e | Inr pts \<Rightarrow> Inr (pt # pts)))"

definition series ::
  "'d decimal_api \<Rightarrow> calendar \<Rightarrow> 'd bucket list \<Rightarrow> period \<Rightarrow> granularity \<Rightarrow> bool \<Rightarrow> cost_error + 'd point list" where
  "series dc ca rows p g previous_complete =
     (case series_rows dc ca p g rows ([], []) of
        Inl e \<Rightarrow> Inl e
      | Inr (days, prior) \<Rightarrow> make_points dc previous_complete prior days)"

fun sum_amounts :: "'d decimal_api \<Rightarrow> 'd list \<Rightarrow> 'd \<Rightarrow> cost_error + 'd" where
  "sum_amounts dc [] acc = Inr acc"
| "sum_amounts dc (x # xs) acc = (case add_amounts dc acc x of Inl e \<Rightarrow> Inl e | Inr acc \<Rightarrow> sum_amounts dc xs acc)"

definition within_period :: "period \<Rightarrow> 'd bucket \<Rightarrow> bool" where
  "within_period p r \<longleftrightarrow> pe_from p \<le> bu_day r \<and> bu_day r < pe_to p"

definition period_total :: "'d decimal_api \<Rightarrow> 'd bucket list \<Rightarrow> period \<Rightarrow> cost_error + 'd" where
  "period_total dc rows p = sum_amounts dc (map bu_amount (filter (within_period p) rows)) (zero_amount dc)"

definition period_credits :: "'d decimal_api \<Rightarrow> 'd bucket list \<Rightarrow> period \<Rightarrow> cost_error + 'd" where
  "period_credits dc rows p = sum_amounts dc (map bu_credits (filter (within_period p) rows)) (zero_amount dc)"

end
