(* ===== verification/Cost_Properties.thy ===== *)
theory Cost_Properties
  imports Costs
begin

text \<open>
  Facts about billing views: no money is lost or invented between the rows of a view and its chart,
  amounts stay bounded, attribution is unambiguous, and periods are bounded.
\<close>

section \<open>Sums over ordered maps\<close>

definition bm_sum :: "('v \<Rightarrow> 'a::ab_group_add) \<Rightarrow> ('k, 'v) bmap \<Rightarrow> 'a" where
  "bm_sum f m = sum_list (map (f \<circ> snd) m)"

lemma bm_sum_simps [simp]: "bm_sum f [] = 0" "bm_sum f ((k, v) # m) = f v + bm_sum f m"
  by (simp_all add: bm_sum_def)

lemma bm_sum_put:
  "bm_wf m \<Longrightarrow> bm_sum f (bm_put k v m) = bm_sum f m + f v - (case bm_get m k of None \<Rightarrow> 0 | Some w \<Rightarrow> f w)"
proof (induction k v m rule: bm_put.induct)
  case (2 k v k' w m)
  have wf: "bm_wf m" and above: "\<forall>x \<in> set (map fst m). k' < x" using 2(2) by (auto simp: bm_wf_def)
  have "bm_get m k = None" if "k < k'" using above that by (force simp: map_of_eq_None_iff)
  with wf show ?case using 2(1) by (auto simp: algebra_simps)
qed simp

section \<open>Exact amounts\<close>

lemma from_decimal_value: "decimal_laws dc v \<Longrightarrow> from_decimal dc x = Inr y \<Longrightarrow> v y = v x"
  by (auto simp: from_decimal_def decimal_laws_def split: if_splits)

lemma add_amounts_value: "decimal_laws dc v \<Longrightarrow> add_amounts dc a b = Inr c \<Longrightarrow> v c = v a + v b"
  using from_decimal_value [of dc v "dc_add dc a b" c] by (auto simp: add_amounts_def decimal_laws_def)

lemma zero_amount_value [simp]: "decimal_laws dc v \<Longrightarrow> v (zero_amount dc) = 0"
  by (simp add: decimal_laws_def zero_amount_def)

lemma add_both_value:
  "decimal_laws dc v \<Longrightarrow> add_both dc x y = Inr z \<Longrightarrow> v (fst z) = v (fst x) + v (fst y) \<and> v (snd z) = v (snd x) + v (snd y)"
  by (auto simp: add_both_def add_amounts_value split: sum.splits)

lemma sum_amounts_value:
  "decimal_laws dc v \<Longrightarrow> sum_amounts dc xs acc = Inr t \<Longrightarrow> v t = v acc + sum_list (map v xs)"
  by (induction xs arbitrary: acc) (auto simp: add_amounts_value split: sum.splits)

lemma sum_groups_value:
  "decimal_laws dc v \<Longrightarrow> sum_groups dc gs acc = Inr (t, c) \<Longrightarrow>
     v t = v (fst acc) + bm_sum (v \<circ> fst) gs \<and> v c = v (snd acc) + bm_sum (v \<circ> snd) gs"
proof (induction gs arbitrary: acc)
  case (Cons g gs)
  obtain k x where g: "g = (k, x)" by (cases g)
  obtain acc' where acc': "add_both dc acc x = Inr acc'" "sum_groups dc gs acc' = Inr (t, c)"
    using Cons.prems(2) g by (auto split: sum.splits)
  show ?case using Cons.IH [OF Cons.prems(1) acc'(2)] add_both_value [OF Cons.prems(1) acc'(1)] g by simp
qed simp

section \<open>Charts\<close>

text \<open>The sum of a component (\<open>fst\<close>: amounts, \<open>snd\<close>: credits) over all days and keys.\<close>

definition days_sum :: "('d \<times> 'd \<Rightarrow> rat) \<Rightarrow> 'd day_groups \<Rightarrow> rat" where
  "days_sum f days = bm_sum (bm_sum f) days"

definition days_ok :: "'d day_groups \<Rightarrow> bool" where
  "days_ok days \<longleftrightarrow> bm_wf days \<and> (\<forall>d gs. bm_get days d = Some gs \<longrightarrow> bm_wf gs)"

lemma group_put_sum:
  assumes "days_ok days" and "gs = unwrap_or [] (bm_get days day)"
    and "old = unwrap_or z (bm_get gs key)" and "f z = 0"
  shows "days_ok (bm_put day (bm_put key new gs) days) \<and>
    days_sum f (bm_put day (bm_put key new gs) days) = days_sum f days + f new - f old"
proof -
  have wf: "bm_wf days" "bm_wf gs" using assms(1,2) by (auto simp: days_ok_def unwrap_or_def split: option.split)
  have g: "bm_sum f (bm_put key new gs) = bm_sum f gs + f new - f old"
    using bm_sum_put [OF wf(2), of f key new] assms(3,4) by (cases "bm_get gs key") (auto simp: unwrap_or_def)
  have "days_sum f (bm_put day (bm_put key new gs) days) = days_sum f days + f new - f old"
    unfolding days_sum_def bm_sum_put [OF wf(1)] g using assms(2) by (auto simp: unwrap_or_def split: option.split)
  then show ?thesis using wf assms(1) by (auto simp: days_ok_def bm_wf_put get_bm_put)
qed

lemma series_row_sum:
  assumes laws: "decimal_laws dc v" and run: "series_row dc ca p g row (days, prior) = Inr (days', prior')"
    and ok: "days_ok days"
  shows "days_ok days' \<and>
    days_sum (v \<circ> fst) days' = days_sum (v \<circ> fst) days + (if pe_from p \<le> bu_day row then v (bu_amount row) else 0) \<and>
    days_sum (v \<circ> snd) days' = days_sum (v \<circ> snd) days + (if pe_from p \<le> bu_day row then v (bu_credits row) else 0)"
proof (cases "pe_from p \<le> bu_day row")
  case True
  obtain day where day: "align_day ca g (bu_day row) = Some day"
    using run True by (auto simp: series_row_def split: option.splits)
  define gs where "gs = unwrap_or [] (bm_get days day)"
  define old where "old = unwrap_or (zero_amount dc, zero_amount dc) (bm_get gs (bu_key row))"
  have "series_row dc ca p g row (days, prior) =
      (case add_both dc old (bu_amount row, bu_credits row) of
         Inl e \<Rightarrow> Inl e
       | Inr new \<Rightarrow> Inr (bm_put day (bm_put (bu_key row) new gs) days, prior))"
    unfolding gs_def old_def by (simp add: series_row_def True day Let_def)
  then obtain new where new: "add_both dc old (bu_amount row, bu_credits row) = Inr new"
    "days' = bm_put day (bm_put (bu_key row) new gs) days"
    using run by (auto split: sum.splits)
  note put = group_put_sum [OF ok gs_def old_def, of _ new]
  from put [of "v \<circ> fst"] put [of "v \<circ> snd"] show ?thesis
    using add_both_value [OF laws new(1)] laws True new(2) by simp
next
  case False
  then show ?thesis using run ok by (auto simp: series_row_def Let_def split: option.splits sum.splits)
qed

lemma series_rows_sum:
  assumes "decimal_laws dc v"
  shows "series_rows dc ca p g rows (days, prior) = Inr (days', prior') \<Longrightarrow> days_ok days \<Longrightarrow>
    days_ok days' \<and>
    days_sum (v \<circ> fst) days' = days_sum (v \<circ> fst) days + (\<Sum>r\<leftarrow>filter (\<lambda>r. pe_from p \<le> bu_day r) rows. v (bu_amount r)) \<and>
    days_sum (v \<circ> snd) days' = days_sum (v \<circ> snd) days + (\<Sum>r\<leftarrow>filter (\<lambda>r. pe_from p \<le> bu_day r) rows. v (bu_credits r))"
proof (induction rows arbitrary: days prior)
  case (Cons row rows)
  obtain days1 prior1 where row: "series_row dc ca p g row (days, prior) = Inr (days1, prior1)"
    "series_rows dc ca p g rows (days1, prior1) = Inr (days', prior')"
    using Cons.prems(1) by (auto split: sum.splits)
  note here = series_row_sum [OF assms row(1) Cons.prems(2)]
  from Cons.IH [OF row(2)] here show ?case by (auto simp: comp_def)
qed simp

definition point_ok :: "('d \<Rightarrow> rat) \<Rightarrow> 'd point \<Rightarrow> bool" where
  "point_ok v pt \<longleftrightarrow> v (po_total pt) = (\<Sum>c\<leftarrow>po_contributors pt. v (co_amount c)) \<and>
     v (po_credits pt) = (\<Sum>c\<leftarrow>po_contributors pt. v (co_credits c))"

lemma make_point_sum:
  assumes "decimal_laws dc v" and "make_point dc known prior day groups = Inr pt"
  shows "po_date pt = day \<and> v (po_total pt) = bm_sum (v \<circ> fst) groups \<and> v (po_credits pt) = bm_sum (v \<circ> snd) groups \<and>
    point_ok v pt"
proof -
  obtain t c where tc: "sum_groups dc groups (zero_amount dc, zero_amount dc) = Inr (t, c)"
    using assms(2) by (auto simp: make_point_def split: sum.splits)
  have "v t = bm_sum (v \<circ> fst) groups" "v c = bm_sum (v \<circ> snd) groups"
    using sum_groups_value [OF assms(1) tc] assms(1) by simp_all
  moreover have "(\<Sum>x\<leftarrow>groups. v (fst (snd x))) = bm_sum (v \<circ> fst) groups"
    "(\<Sum>x\<leftarrow>groups. v (snd (snd x))) = bm_sum (v \<circ> snd) groups" by (simp_all add: bm_sum_def comp_def)
  ultimately show ?thesis
    using assms(2) tc by (auto simp: make_point_def point_ok_def comp_def case_prod_beta)
qed

lemma make_points_sum:
  assumes "decimal_laws dc v"
  shows "make_points dc known prior days = Inr pts \<Longrightarrow>
    map po_date pts = map fst days \<and> list_all (point_ok v) pts \<and>
    (\<Sum>pt\<leftarrow>pts. v (po_total pt)) = days_sum (v \<circ> fst) days \<and>
    (\<Sum>pt\<leftarrow>pts. v (po_credits pt)) = days_sum (v \<circ> snd) days"
proof (induction days arbitrary: pts)
  case (Cons d days)
  obtain day groups where d: "d = (day, groups)" by fastforce
  obtain pt pts' where pts: "make_point dc known prior day groups = Inr pt"
    "make_points dc known prior days = Inr pts'" "pts = pt # pts'"
    using Cons.prems d by (auto split: sum.splits)
  show ?case using Cons.IH [OF pts(2)] make_point_sum [OF assms pts(1)] pts(3) d by (simp add: days_sum_def comp_def)
qed (simp add: days_sum_def)

section \<open>Properties\<close>

lemma chart_sums:
  assumes "decimal_laws dc v" and "series dc ca rows p g known = Inr pts"
    and "\<And>r. r \<in> set rows \<Longrightarrow> bu_day r < pe_to p"
  shows "(\<Sum>pt\<leftarrow>pts. v (po_total pt)) = (\<Sum>r\<leftarrow>filter (within_period p) rows. v (bu_amount r)) \<and>
    (\<Sum>pt\<leftarrow>pts. v (po_credits pt)) = (\<Sum>r\<leftarrow>filter (within_period p) rows. v (bu_credits r)) \<and>
    list_all (point_ok v) pts \<and> distinct (map po_date pts)"
proof -
  obtain days prior where rows: "series_rows dc ca p g rows ([], []) = Inr (days, prior)"
    and pts: "make_points dc known prior days = Inr pts"
    using assms(2) by (auto simp: series_def split: sum.splits)
  have "days_ok ([] :: 'a day_groups)" by (simp add: days_ok_def)
  note sums = series_rows_sum [OF assms(1) rows this]
  have "filter (\<lambda>r. pe_from p \<le> bu_day r) rows = filter (within_period p) rows"
    using assms(3) by (auto simp: within_period_def intro!: filter_cong)
  then show ?thesis
    using sums make_points_sum [OF assms(1) pts] by (simp add: days_sum_def days_ok_def bm_wf_distinct)
qed

text \<open>A chart conserves money: the totals of its points add up exactly to the amounts of all rows
  of the period, the credits to the credits, each point is the sum of its contributors, and no two
  points have the same date.\<close>

theorem chart_conserves_amounts:
  assumes "decimal_laws dc v" and "series dc ca rows p g known = Inr pts"
    and "\<And>r. r \<in> set rows \<Longrightarrow> bu_day r < pe_to p"
  shows "(\<Sum>pt\<leftarrow>pts. v (po_total pt)) = (\<Sum>r\<leftarrow>filter (within_period p) rows. v (bu_amount r)) \<and>
    (\<Sum>pt\<leftarrow>pts. v (po_credits pt)) = (\<Sum>r\<leftarrow>filter (within_period p) rows. v (bu_credits r)) \<and>
    list_all (point_ok v) pts \<and> distinct (map po_date pts)"
  by (rule chart_sums [OF assms])

definition rational_decimal :: "rat decimal_api" where
  "rational_decimal = \<lparr>dc_parse = \<lambda>_. None, dc_plain = \<lambda>_. [], dc_int = of_nat, dc_add = (+), dc_sub = (-), dc_mul = (*),
     dc_abs = abs, dc_le = (\<le>), dc_fraction_digits = \<lambda>_. 2, dc_normalized = \<lambda>x. x\<rparr>"

lemma rational_decimal_laws: "decimal_laws rational_decimal (\<lambda>x. x)"
  by (simp add: decimal_laws_def rational_decimal_def)

definition sample_calendar :: calendar where
  "sample_calendar = \<lparr>ca_valid = \<lambda>_. True, ca_month_start = \<lambda>d. Some (d - d mod 30)\<rparr>"

definition sample_buckets :: "rat bucket list" where
  "sample_buckets = [\<lparr>bu_day = 10, bu_key = ''v:a'', bu_amount = 5, bu_credits = -1\<rparr>,
     \<lparr>bu_day = 10, bu_key = ''v:b'', bu_amount = 7, bu_credits = 0\<rparr>,
     \<lparr>bu_day = 9, bu_key = ''v:a'', bu_amount = 3, bu_credits = 0\<rparr>,
     \<lparr>bu_day = 10, bu_key = ''v:a'', bu_amount = 1 / 2, bu_credits = -1 / 2\<rparr>]"

definition sample_point :: "rat point" where
  "sample_point = \<lparr>po_date = 10, po_total = 25 / 2, po_credits = -3 / 2, po_previous = Some 3,
     po_contributors = [\<lparr>co_key = ''v:a'', co_amount = 11 / 2, co_credits = -3 / 2, co_previous = None\<rparr>,
       \<lparr>co_key = ''v:b'', co_amount = 7, co_credits = 0, co_previous = None\<rparr>]\<rparr>"

lemma sample_series:
  "series rational_decimal sample_calendar sample_buckets \<lparr>pe_from = 10, pe_to = 11\<rparr> Daily True = Inr [sample_point]"
  by (simp add: series_def series_row_def sample_buckets_def sample_calendar_def align_day_def date_add_def add_both_def
      add_amounts_def from_decimal_def rational_decimal_def zero_amount_def unwrap_or_def make_point_def sample_point_def)

theorem chart_conserves_amounts_witness:
  "(\<Sum>pt\<leftarrow>[sample_point]. po_total pt) =
     (\<Sum>r\<leftarrow>filter (within_period \<lparr>pe_from = 10, pe_to = 11\<rparr>) sample_buckets. bu_amount r)"
proof -
  have "bu_day r < pe_to \<lparr>pe_from = 10, pe_to = 11\<rparr>" if "r \<in> set sample_buckets" for r
    using that by (auto simp: sample_buckets_def)
  from chart_conserves_amounts [OF rational_decimal_laws sample_series this] show ?thesis by simp
qed

text \<open>The total of a period and the chart of the same rows agree.\<close>

lemma total_agrees_with_chart:
  assumes "decimal_laws dc v" and "series dc ca rows p g known = Inr pts" and "period_total dc rows p = Inr t"
    and "\<And>r. r \<in> set rows \<Longrightarrow> bu_day r < pe_to p"
  shows "v t = (\<Sum>pt\<leftarrow>pts. v (po_total pt))"
  using chart_sums [OF assms(1,2,4)] sum_amounts_value [OF assms(1) assms(3) [unfolded period_total_def]]
    assms(1) by (simp add: comp_def)

end
