(* ===== verification/Billing.thy ===== *)
theory Billing
  imports Costs History_Records
begin

text \<open>
  The billing tables of \<open>crates/history\<close> and what is done to them: \<open>cost_write.rs\<close>, \<open>cost_accounting.rs\<close>,
  \<open>cost_schedule.rs\<close>, \<open>cost_coverage.rs\<close>, \<open>cost_rows.rs\<close>. The record \<open>billing\<close> holds the four tables with the
  constraints of their migration; a transaction that fails leaves them as they were. New ids count
  upwards, as \<open>uuidv7()\<close> does. The order of rows without \<open>ORDER BY\<close> is that of the tables.
\<close>

section \<open>Tables\<close>

record import_row =
  bi_source :: nat
  bi_started_at :: instant
  bi_published_at :: "instant option"
  bi_from :: date
  bi_to :: date
  bi_reserved :: int
  bi_billed :: "int option"
  bi_attempted_at :: "instant option"

record source_row =
  br_name :: string
  br_provider :: cost_provider
  br_scope :: string
  br_imported_at :: "instant option"
  br_revision :: "nat option"
  br_fault :: "string option"

record 'd daily_row =
  bd_import :: nat
  bd_key :: string
  bd_charge :: "'d charge"

record 'd billing =
  bl_sources :: "(nat, source_row) bmap"
  bl_imports :: "(nat, import_row) bmap"
  bl_daily :: "'d daily_row list"
  bl_partitions :: "(nat \<times> date, nat) bmap"
  bl_next :: nat

text \<open>\<open>be_key\<close>: the hash of a charge's dimensions; \<open>be_row_ok\<close>: the checks of the daily table.\<close>

record 'd billing_env =
  be_key :: "'d charge \<Rightarrow> string option"
  be_row_ok :: "'d daily_row \<Rightarrow> bool"

record import_handle =
  ih_id :: nat
  ih_source :: nat
  ih_period :: period

definition as_u64 :: "int \<Rightarrow> u64" where
  "as_u64 i = nat (i mod 2 ^ 64)"

section \<open>Accounting\<close>

definition today_start :: "instant \<Rightarrow> instant" where
  "today_start now = date_of now * (86400 * nanos_per_sec)"

definition counts_today :: "instant \<Rightarrow> import_row \<Rightarrow> bool" where
  "counts_today now i \<longleftrightarrow> today_start now \<le> bi_started_at i \<or> bi_published_at i = None"

definition charged_bytes :: "import_row \<Rightarrow> u64" where
  "charged_bytes i = as_u64 (unwrap_or (bi_reserved i) (bi_billed i))"

definition reservations :: "instant \<Rightarrow> 'd billing \<Rightarrow> import_row list" where
  "reservations now st = filter (counts_today now) (map snd (bl_imports st))"

fun checked_sum :: "u64 \<Rightarrow> u64 list \<Rightarrow> u64 option" where
  "checked_sum acc [] = Some acc"
| "checked_sum acc (x # xs) = (case checked_add64 acc x of None \<Rightarrow> None | Some acc \<Rightarrow> checked_sum acc xs)"

text \<open>\<open>cost_accounting::reserve\<close>: whether the allowance of the day has room.\<close>

definition allowance_left :: "instant \<Rightarrow> u64 \<Rightarrow> u64 \<Rightarrow> 'd billing \<Rightarrow> bool" where
  "allowance_left now additional allowance st =
     (let rs = take 4097 (reservations now st)
      in case checked_sum 0 (map charged_bytes rs) of
           None \<Rightarrow> False
         | Some used \<Rightarrow> length rs \<le> 4096 \<and> sat_add64 used additional \<le> allowance)"

section \<open>Beginning an import\<close>

definition find_source :: "string \<Rightarrow> 'd billing \<Rightarrow> (nat \<times> source_row) option" where
  "find_source name st = find (\<lambda>(_, s). br_name s = name) (bl_sources st)"

definition insert_source :: "cost_source \<Rightarrow> 'd billing \<Rightarrow> 'd billing option" where
  "insert_source src st =
     (if \<not> cost_identifier (cs_id src) \<or> 128 < length (cs_billing_scope src) then None
      else if find_source (cs_id src) st \<noteq> None then Some st
      else if list_ex (\<lambda>(_, s). br_provider s = cs_provider src \<and> br_scope s = cs_billing_scope src) (bl_sources st)
      then None
      else Some (st\<lparr>bl_sources := bm_put (bl_next st)
             \<lparr>br_name = cs_id src, br_provider = cs_provider src, br_scope = cs_billing_scope src,
              br_imported_at = None, br_revision = None, br_fault = None\<rparr> (bl_sources st),
             bl_next := bl_next st + 1\<rparr>))"

text \<open>The unpublished import of the source that started last.\<close>

fun latest_import :: "(nat \<times> import_row) list \<Rightarrow> (nat \<times> import_row) option" where
  "latest_import [] = None"
| "latest_import ((k, i) # is) =
     (case latest_import is of
        None \<Rightarrow> Some (k, i)
      | Some (k', i') \<Rightarrow> if bi_started_at i < bi_started_at i' then Some (k', i') else Some (k, i))"

definition pending_import :: "nat \<Rightarrow> 'd billing \<Rightarrow> (nat \<times> import_row) option" where
  "pending_import source st =
     latest_import (filter (\<lambda>(_, i). bi_source i = source \<and> bi_published_at i = None) (bl_imports st))"

definition period_valid :: "period \<Rightarrow> bool" where
  "period_valid p \<longleftrightarrow> pe_from p < pe_to p \<and> pe_to p - pe_from p \<le> 400"

definition drop_staged :: "nat \<Rightarrow> 'd billing \<Rightarrow> 'd billing" where
  "drop_staged k st = st\<lparr>bl_daily := filter (\<lambda>r. bd_import r \<noteq> k) (bl_daily st)\<rparr>"

text \<open>A pending import is resumed, with a larger reservation if the settings ask for one.\<close>

definition resume_import ::
  "instant \<Rightarrow> u64 \<Rightarrow> u64 \<Rightarrow> nat \<Rightarrow> import_row \<Rightarrow> 'd billing \<Rightarrow> history_error + 'd billing" where
  "resume_import now reservation allowance k i st =
     (if as_u64 (bi_reserved i) < reservation then
        (if \<not> allowance_left now (reservation - as_u64 (bi_reserved i)) allowance st then Inl HRecord
         else if as_i64 reservation \<le> 0 then Inl (HQuery CheckViolation)
         else Inr (st\<lparr>bl_imports := bm_put k (i\<lparr>bi_reserved := as_i64 reservation\<rparr>) (bl_imports st)\<rparr>))
      else Inr st)"

definition new_import ::
  "instant \<Rightarrow> u64 \<Rightarrow> u64 \<Rightarrow> nat \<Rightarrow> period \<Rightarrow> 'd billing \<Rightarrow> history_error + 'd billing" where
  "new_import now reservation allowance source p st =
     (if \<not> allowance_left now reservation allowance st then Inl HRecord
      else if \<not> period_valid p \<or> as_i64 reservation \<le> 0 then Inl (HQuery CheckViolation)
      else Inr (st\<lparr>bl_imports := bm_put (bl_next st)
             \<lparr>bi_source = source, bi_started_at = now, bi_published_at = None, bi_from = pe_from p, bi_to = pe_to p,
              bi_reserved = as_i64 reservation, bi_billed = None, bi_attempted_at = None\<rparr> (bl_imports st),
             bl_next := bl_next st + 1\<rparr>))"

definition cost_begin ::
  "instant \<Rightarrow> cost_config \<Rightarrow> cost_source \<Rightarrow> period \<Rightarrow> 'd billing \<Rightarrow> (history_error + import_handle) \<times> 'd billing" where
  "cost_begin now cc src p st =
     (let reservation = (if cs_gcp src \<noteq> None then query_bytes cc else 1)
      in case insert_source src st of
           None \<Rightarrow> (Inl (HQuery OtherFailure), st)
         | Some st1 \<Rightarrow>
             (case find_source (cs_id src) st1 of
                None \<Rightarrow> (Inl (HQuery OtherFailure), st)
              | Some (source, row) \<Rightarrow>
                  if br_provider row \<noteq> cs_provider src \<or> br_scope row \<noteq> cs_billing_scope src then (Inl HRecord, st)
                  else (case pending_import source st1 of
                          Some (k, i) \<Rightarrow>
                            (case resume_import now reservation (daily_bytes cc) k i st1 of
                               Inl e \<Rightarrow> (Inl e, st)
                             | Inr st2 \<Rightarrow>
                                 (Inr \<lparr>ih_id = k, ih_source = source, ih_period = \<lparr>pe_from = bi_from i, pe_to = bi_to i\<rparr>\<rparr>,
                                  drop_staged k st2))
                        | None \<Rightarrow>
                            (case new_import now reservation (daily_bytes cc) source p st1 of
                               Inl e \<Rightarrow> (Inl e, st)
                             | Inr st2 \<Rightarrow>
                                 (Inr \<lparr>ih_id = bl_next st1, ih_source = source, ih_period = p\<rparr>,
                                  drop_staged (bl_next st1) st2)))))"

section \<open>Staging and publishing\<close>

definition new_daily :: "'d billing_env \<Rightarrow> nat \<Rightarrow> 'd charge \<Rightarrow> 'd daily_row option" where
  "new_daily be k c =
     (if \<not> charge_valid c then None
      else map_option (\<lambda>key. \<lparr>bd_import = k, bd_key = key, bd_charge = c\<rparr>) (be_key be c))"

fun new_dailies :: "'d billing_env \<Rightarrow> nat \<Rightarrow> 'd charge list \<Rightarrow> 'd daily_row list option" where
  "new_dailies be k [] = Some []"
| "new_dailies be k (c # cs) =
     (case new_daily be k c of
        None \<Rightarrow> None
      | Some r \<Rightarrow> (case new_dailies be k cs of None \<Rightarrow> None | Some rs \<Rightarrow> Some (r # rs)))"

definition identities :: "'d daily_row list \<Rightarrow> (nat \<times> string) list" where
  "identities rs = map (\<lambda>r. (bd_import r, bd_key r)) rs"

definition outside :: "period \<Rightarrow> 'd charge \<Rightarrow> bool" where
  "outside p c \<longleftrightarrow> cg_day c < pe_from p \<or> pe_to p \<le> cg_day c"

definition cost_stage ::
  "'d billing_env \<Rightarrow> import_handle \<Rightarrow> 'd charge list \<Rightarrow> 'd billing \<Rightarrow> (history_error + usize) \<times> 'd billing" where
  "cost_stage be h charges st =
     (if charges = [] then (Inr 0, st)
      else if 500 < length charges \<or> list_ex (outside (ih_period h)) charges then (Inl HRecord, st)
      else case new_dailies be (ih_id h) charges of
             None \<Rightarrow> (Inl HRecord, st)
           | Some rows \<Rightarrow>
               if \<not> bm_has (bl_imports st) (ih_id h) then (Inl (HQuery ForeignKeyViolation), st)
               else if \<not> list_all (be_row_ok be) rows then (Inl (HQuery CheckViolation), st)
               else if \<not> distinct (identities (bl_daily st @ rows)) then (Inl (HQuery OtherFailure), st)
               else (Inr (length rows), st\<lparr>bl_daily := bl_daily st @ rows\<rparr>))"

definition staged :: "nat \<Rightarrow> 'd billing \<Rightarrow> 'd daily_row list" where
  "staged k st = filter (\<lambda>r. bd_import r = k) (bl_daily st)"

definition period_days :: "period \<Rightarrow> date list" where
  "period_days p = map (\<lambda>n. pe_from p + int n) [0..<nat (pe_to p - pe_from p)]"

definition publish_days :: "import_handle \<Rightarrow> (nat \<times> date, nat) bmap \<Rightarrow> (nat \<times> date, nat) bmap" where
  "publish_days h ps = fold (\<lambda>d. bm_put (ih_source h, d) (ih_id h)) (period_days (ih_period h)) ps"

definition update_row :: "nat \<Rightarrow> ('r \<Rightarrow> 'r) \<Rightarrow> (nat, 'r) bmap \<Rightarrow> (nat, 'r) bmap" where
  "update_row k f m = bm_mapv (\<lambda>k' r. if k' = k then f r else r) m"

definition cost_publish ::
  "calendar \<Rightarrow> instant \<Rightarrow> import_handle \<Rightarrow> usize \<Rightarrow> u16 \<Rightarrow> 'd billing \<Rightarrow> (history_error + unit) \<times> 'd billing" where
  "cost_publish ca now h expected retention st =
     (if length (staged (ih_id h) st) \<noteq> expected then (Inl HRecord, st)
      else if \<not> list_all (ca_valid ca) (period_days (ih_period h)) then (Inl HRecord, st)
      else if \<not> bm_has (bl_imports st) (ih_id h) \<or> \<not> bm_has (bl_sources st) (ih_source h)
      then (Inl (HQuery ForeignKeyViolation), st)
      else (Inr (),
        st\<lparr>bl_partitions := bm_retain (\<lambda>(_, d) _. date_of now - int retention \<le> d) (publish_days h (bl_partitions st)),
           bl_imports := update_row (ih_id h) (\<lambda>i. i\<lparr>bi_published_at := Some now\<rparr>) (bl_imports st),
           bl_sources := update_row (ih_source h) (\<lambda>s. s\<lparr>br_revision := Some (ih_id h), br_imported_at := Some now,
             br_fault := None\<rparr>) (bl_sources st)\<rparr>))"

section \<open>Settling, faults and cleanup\<close>

definition cost_settle :: "import_handle \<Rightarrow> u64 \<Rightarrow> 'd billing \<Rightarrow> (history_error + unit) \<times> 'd billing" where
  "cost_settle h bytes st =
     (if 2 ^ 63 \<le> bytes then (Inl HRecord, st)
      else (Inr (), st\<lparr>bl_imports := update_row (ih_id h) (\<lambda>i. i\<lparr>bi_billed := Some (int bytes)\<rparr>) (bl_imports st)\<rparr>))"

definition cost_attempt :: "instant \<Rightarrow> import_handle \<Rightarrow> 'd billing \<Rightarrow> 'd billing" where
  "cost_attempt now h st =
     st\<lparr>bl_imports := update_row (ih_id h) (\<lambda>i. i\<lparr>bi_attempted_at := Some now\<rparr>) (bl_imports st)\<rparr>"

definition cost_fault :: "string \<Rightarrow> string \<Rightarrow> 'd billing \<Rightarrow> (history_error + unit) \<times> 'd billing" where
  "cost_fault name fault st =
     (if 128 < length fault then (Inl HRecord, st)
      else (Inr (), st\<lparr>bl_sources := bm_mapv (\<lambda>_ s. if br_name s = name then s\<lparr>br_fault := Some fault\<rparr> else s)
             (bl_sources st)\<rparr>))"

definition cost_recent_attempt :: "instant \<Rightarrow> string \<Rightarrow> int \<Rightarrow> 'd billing \<Rightarrow> bool" where
  "cost_recent_attempt now name seconds st =
     list_ex (\<lambda>(_, i). is_some_and (\<lambda>s. br_name s = name) (bm_get (bl_sources st) (bi_source i)) \<and>
         is_some_and (\<lambda>t. now - seconds * nanos_per_sec \<le> t) (bi_attempted_at i)) (bl_imports st)"

definition kept_imports :: "'d billing \<Rightarrow> nat set" where
  "kept_imports st = set (map snd (bl_partitions st)) \<union>
     {k. \<exists>s \<in> set (map snd (bl_sources st)). br_revision s = Some k}"

definition obsolete_imports :: "'d billing \<Rightarrow> nat list" where
  "obsolete_imports st =
     take 16 (map fst (filter (\<lambda>(k, i). bi_published_at i \<noteq> None \<and> k \<notin> kept_imports st) (bl_imports st)))"

text \<open>Deleting an import deletes its rows and partitions.\<close>

definition clean_imports :: "'d billing \<Rightarrow> 'd billing" where
  "clean_imports st =
     (let gone = obsolete_imports st
      in st\<lparr>bl_imports := bm_retain (\<lambda>k _. k \<notin> set gone) (bl_imports st),
            bl_daily := filter (\<lambda>r. bd_import r \<notin> set gone) (bl_daily st),
            bl_partitions := bm_retain (\<lambda>_ k. k \<notin> set gone) (bl_partitions st)\<rparr>)"

fun drop_first :: "nat \<Rightarrow> ('a \<Rightarrow> bool) \<Rightarrow> 'a list \<Rightarrow> 'a list" where
  "drop_first 0 p xs = xs"
| "drop_first (Suc n) p [] = []"
| "drop_first (Suc n) p (x # xs) = (if p x then drop_first n p xs else x # drop_first (Suc n) p xs)"

definition superseded :: "'d billing \<Rightarrow> 'd daily_row \<Rightarrow> bool" where
  "superseded st r \<longleftrightarrow>
     \<not> list_ex (\<lambda>((_, d), k). k = bd_import r \<and> d = cg_day (bd_charge r)) (bl_partitions st) \<and>
     is_some_and (\<lambda>i. bi_published_at i \<noteq> None) (bm_get (bl_imports st) (bd_import r))"

definition clean_rows :: "'d billing \<Rightarrow> 'd billing" where
  "clean_rows st = st\<lparr>bl_daily := drop_first 5000 (superseded st) (bl_daily st)\<rparr>"

definition cost_cleanup :: "'d billing \<Rightarrow> 'd billing" where
  "cost_cleanup st = clean_rows (clean_imports st)"

section \<open>What readers see\<close>

text \<open>The join every query of \<open>cost_read.rs\<close> starts from: the charges of a source and a day, if the day
  is published.\<close>

definition published_view :: "'d billing \<Rightarrow> nat \<Rightarrow> date \<Rightarrow> 'd charge list option" where
  "published_view st source d =
     (case bm_get (bl_partitions st) (source, d) of
        None \<Rightarrow> None
      | Some k \<Rightarrow> Some (map bd_charge (filter (\<lambda>r. bd_import r = k \<and> cg_day (bd_charge r) = d) (bl_daily st))))"

end
