(* ===== verification/Billing_Properties.thy ===== *)
theory Billing_Properties
  imports Billing
begin

text \<open>
  What readers see of the billing tables changes only when an import is published, and then for all
  days of its period at once; staging, resuming, settling and cleaning up never touch it.
\<close>

section \<open>The invariant\<close>

definition billing_ok :: "'d billing \<Rightarrow> bool" where
  "billing_ok st \<longleftrightarrow>
     bm_wf (bl_sources st) \<and> bm_wf (bl_imports st) \<and> bm_wf (bl_partitions st) \<and>
     (\<forall>k i. bm_get (bl_imports st) k = Some i \<longrightarrow> k < bl_next st) \<and>
     (\<forall>k s. bm_get (bl_sources st) k = Some s \<longrightarrow> k < bl_next st) \<and>
     (\<forall>x k. bm_get (bl_partitions st) x = Some k \<longrightarrow>
        (\<exists>i. bm_get (bl_imports st) k = Some i \<and> bi_published_at i \<noteq> None)) \<and>
     (\<forall>r \<in> set (bl_daily st). bm_has (bl_imports st) (bd_import r))"

lemma billing_okI:
  assumes "bm_wf (bl_sources st)" "bm_wf (bl_imports st)" "bm_wf (bl_partitions st)"
    and "\<And>k i. bm_get (bl_imports st) k = Some i \<Longrightarrow> k < bl_next st"
    and "\<And>k s. bm_get (bl_sources st) k = Some s \<Longrightarrow> k < bl_next st"
    and "\<And>x k. bm_get (bl_partitions st) x = Some k \<Longrightarrow> \<exists>i. bm_get (bl_imports st) k = Some i \<and> bi_published_at i \<noteq> None"
    and "\<And>r. r \<in> set (bl_daily st) \<Longrightarrow> bm_has (bl_imports st) (bd_import r)"
  shows "billing_ok st"
  using assms by (simp add: billing_ok_def)

lemma billing_okD:
  assumes "billing_ok st"
  shows "bm_wf (bl_sources st)" "bm_wf (bl_imports st)" "bm_wf (bl_partitions st)"
    and "\<And>k i. bm_get (bl_imports st) k = Some i \<Longrightarrow> k < bl_next st"
    and "\<And>k s. bm_get (bl_sources st) k = Some s \<Longrightarrow> k < bl_next st"
    and "\<And>x k. bm_get (bl_partitions st) x = Some k \<Longrightarrow> \<exists>i. bm_get (bl_imports st) k = Some i \<and> bi_published_at i \<noteq> None"
    and "\<And>r. r \<in> set (bl_daily st) \<Longrightarrow> bm_has (bl_imports st) (bd_import r)"
  using assms unfolding billing_ok_def by blast+

text \<open>The handle of an import that is not published yet.\<close>

definition live :: "'d billing \<Rightarrow> import_handle \<Rightarrow> bool" where
  "live st h \<longleftrightarrow> (\<exists>i. bm_get (bl_imports st) (ih_id h) = Some i \<and> bi_published_at i = None) \<and>
     bm_has (bl_sources st) (ih_source h)"

definition opened_billing :: "'d billing" where
  "opened_billing = \<lparr>bl_sources = [], bl_imports = [], bl_daily = [], bl_partitions = [], bl_next = 0\<rparr>"

lemma opened_ok: "billing_ok opened_billing"
  by (simp add: billing_ok_def opened_billing_def)

section \<open>Operations that readers do not see\<close>

locale unseen =
  fixes pre :: "'d billing \<Rightarrow> bool" and f :: "'d billing \<Rightarrow> 'd billing"
  assumes keeps_ok: "billing_ok st \<Longrightarrow> pre st \<Longrightarrow> billing_ok (f st)"
    and keeps_view: "billing_ok st \<Longrightarrow> pre st \<Longrightarrow> published_view (f st) = published_view st"
    and keeps_live: "billing_ok st \<Longrightarrow> pre st \<Longrightarrow> live st h \<Longrightarrow> live (f st) h"
begin

lemma keeps_all:
  "billing_ok st \<Longrightarrow> pre st \<Longrightarrow> (\<And>h. ho = Some h \<Longrightarrow> live st h) \<Longrightarrow>
   billing_ok (f st) \<and> (\<forall>h. ho = Some h \<longrightarrow> live (f st) h) \<and> published_view (f st) = published_view st"
  using keeps_ok keeps_view keeps_live by blast

lemma unseen_then:
  assumes "unseen pre g" and "\<And>st. billing_ok st \<Longrightarrow> pre st \<Longrightarrow> pre (f st)"
  shows "unseen pre (\<lambda>st. g (f st))"
proof
  fix st assume ok: "billing_ok st" "pre st"
  note g = unseen.keeps_ok [OF assms(1)] unseen.keeps_view [OF assms(1)] unseen.keeps_live [OF assms(1)]
  note next' = keeps_ok [OF ok] assms(2) [OF ok]
  show "billing_ok (g (f st))" using g(1) [OF next'] .
  show "published_view (g (f st)) = published_view st" using g(2) [OF next'] keeps_view [OF ok] by simp
  show "live (g (f st)) h" if "live st h" for h using g(3) [OF next' keeps_live [OF ok that]] .
qed

end

lemma get_update_row: "bm_get (update_row k f m) k' = (if k' = k then map_option f (bm_get m k') else bm_get m k')"
  by (cases "bm_get m k'") (auto simp: update_row_def get_bm_mapv)

lemma bm_wf_update_row [simp]: "bm_wf (update_row k f m) = bm_wf m"
  by (simp add: update_row_def)

text \<open>Two stores with the same partitions show the same, if the rows of published imports are the same.\<close>

lemma view_cong:
  assumes "bl_partitions st' = bl_partitions st"
    and "\<And>k p. k \<in> ran (bm_get (bl_partitions st)) \<Longrightarrow>
      filter (\<lambda>r. bd_import r = k \<and> p r) (bl_daily st') = filter (\<lambda>r. bd_import r = k \<and> p r) (bl_daily st)"
  shows "published_view st' = published_view st"
proof (intro ext)
  fix s d
  show "published_view st' s d = published_view st s d"
  proof (cases "bm_get (bl_partitions st) (s, d)")
    case (Some k)
    then have "k \<in> ran (bm_get (bl_partitions st))" by (rule ranI)
    from assms(2) [OF this, of "\<lambda>r. cg_day (bd_charge r) = d"] show ?thesis
      using Some by (simp add: published_view_def assms(1))
  qed (simp add: published_view_def assms(1))
qed

interpretation settling: unseen "\<lambda>_. True" "\<lambda>st. snd (cost_settle h bytes st)" for h bytes
proof
  show "published_view (snd (cost_settle h bytes st)) = published_view st" for st :: "'d billing"
    by (rule view_cong) (simp_all add: cost_settle_def)
qed (force simp: cost_settle_def billing_ok_def live_def get_update_row split: if_splits)+

interpretation attempting: unseen "\<lambda>_. True" "cost_attempt now h" for now h
proof
  show "published_view (cost_attempt now h st) = published_view st" for st :: "'d billing"
    by (rule view_cong) (simp_all add: cost_attempt_def)
qed (force simp: cost_attempt_def billing_ok_def live_def get_update_row split: if_splits)+

interpretation faulting: unseen "\<lambda>_. True" "\<lambda>st. snd (cost_fault name fault st)" for name fault
proof
  show "published_view (snd (cost_fault name fault st)) = published_view st" for st :: "'d billing"
    by (rule view_cong) (simp_all add: cost_fault_def)
qed (force simp: cost_fault_def billing_ok_def live_def get_bm_mapv split: if_splits)+

text \<open>Nothing published belongs to a live import.\<close>

lemma live_unpublished: "billing_ok st \<Longrightarrow> live st h \<Longrightarrow> ih_id h \<notin> ran (bm_get (bl_partitions st))"
  by (force simp: billing_ok_def live_def ran_def)

lemma new_dailies_import: "new_dailies be k cs = Some rs \<Longrightarrow> map bd_charge rs = cs \<and> (\<forall>r \<in> set rs. bd_import r = k)"
  by (induction cs arbitrary: rs) (auto simp: new_daily_def split: option.splits if_splits)

lemma cost_stage_cases:
  obtains "snd (cost_stage be h charges st) = st"
  | rows where "new_dailies be (ih_id h) charges = Some rows" "bm_has (bl_imports st) (ih_id h)"
    "cost_stage be h charges st = (Inr (length rows), st\<lparr>bl_daily := bl_daily st @ rows\<rparr>)"
    "\<not> list_ex (outside (ih_period h)) charges"
proof (cases "snd (cost_stage be h charges st) = st")
  case False
  then obtain rows where "new_dailies be (ih_id h) charges = Some rows" "bm_has (bl_imports st) (ih_id h)"
    "cost_stage be h charges st = (Inr (length rows), st\<lparr>bl_daily := bl_daily st @ rows\<rparr>)"
    "\<not> list_ex (outside (ih_period h)) charges"
    by (auto simp: cost_stage_def split: if_splits option.splits)
  then show ?thesis by (rule that(2))
qed (rule that(1))

interpretation staging: unseen "\<lambda>st. live st h" "\<lambda>st. snd (cost_stage be h charges st)" for be h charges
proof
  fix st :: "'a billing"
  assume ok: "billing_ok st" and "live st h"
  note free = live_unpublished [OF this]
  show "published_view (snd (cost_stage be h charges st)) = published_view st"
  proof (cases rule: cost_stage_cases [of be h charges st])
    case (2 rows)
    then show ?thesis using free new_dailies_import [OF 2(1)] by (intro view_cong) (auto simp: filter_empty_conv)
  qed simp
  show "billing_ok (snd (cost_stage be h charges st))"
  proof (cases rule: cost_stage_cases [of be h charges st])
    case (2 rows)
    then show ?thesis using ok new_dailies_import [OF 2(1)] by (auto simp: billing_ok_def)
  qed (simp add: ok)
  show "live (snd (cost_stage be h charges st)) h'" if "live st h'" for h'
    using that by (cases rule: cost_stage_cases [of be h charges st]) (auto simp: live_def)
qed

lemma filter_drop_first:
  "(\<And>x. x \<in> set xs \<Longrightarrow> q x \<Longrightarrow> \<not> p x) \<Longrightarrow> filter q (drop_first n p xs) = filter q xs"
  by (induction n p xs rule: drop_first.induct) auto

lemma set_drop_first: "set (drop_first n p xs) \<subseteq> set xs"
  by (induction n p xs rule: drop_first.induct) auto

lemma obsolete_imports_free:
  assumes "billing_ok st" and "k \<in> set (obsolete_imports st)"
  shows "k \<notin> ran (bm_get (bl_partitions st)) \<and> (\<exists>i. bm_get (bl_imports st) k = Some i \<and> bi_published_at i \<noteq> None)"
proof -
  obtain i where i: "(k, i) \<in> set (bl_imports st)" "bi_published_at i \<noteq> None" "k \<notin> kept_imports st"
    using assms(2) by (auto simp: obsolete_imports_def dest!: in_set_takeD)
  have "bm_get (bl_imports st) k = Some i"
    using assms(1) i(1) by (simp add: billing_ok_def bm_wf_distinct)
  moreover have "k \<notin> ran (bm_get (bl_partitions st))"
    using i(3) by (auto simp: kept_imports_def ran_def dest!: map_of_SomeD) force
  ultimately show ?thesis using i(2) by blast
qed

interpretation cleaning_imports: unseen "\<lambda>_. True" clean_imports
proof
  fix st :: "'d billing"
  assume ok: "billing_ok st"
  note free = obsolete_imports_free [OF ok]
  have wf: "bm_wf (bl_imports st)" "bm_wf (bl_partitions st)" using ok by (simp_all add: billing_ok_def)
  have parts: "bm_retain (\<lambda>_ k. k \<notin> set (obsolete_imports st)) (bl_partitions st) = bl_partitions st"
    using free wf(2) unfolding bm_retain_def filter_id_conv
    by (auto simp: bm_wf_distinct intro!: ranI dest!: free)
  show "published_view (clean_imports st) = published_view st"
    by (rule view_cong) (auto simp: clean_imports_def Let_def parts dest: free intro!: filter_cong)
  have get: "bm_get (bl_imports (clean_imports st)) k =
      (if k \<in> set (obsolete_imports st) then None else bm_get (bl_imports st) k)" for k
    by (auto simp: clean_imports_def Let_def get_bm_retain [OF wf(1)] split: option.split)
  have fields: "bl_partitions (clean_imports st) = bl_partitions st" "bl_sources (clean_imports st) = bl_sources st"
    "bl_next (clean_imports st) = bl_next st" "bm_wf (bl_imports (clean_imports st))"
    "set (bl_daily (clean_imports st)) = {r \<in> set (bl_daily st). bd_import r \<notin> set (obsolete_imports st)}"
    using wf by (auto simp: clean_imports_def Let_def parts bm_wf_retain)
  have "k \<notin> set (obsolete_imports st)" if "bm_get (bl_partitions st) x = Some k" for x k
    using free [of k] ranI [of "bm_get (bl_partitions st)", OF that] by blast
  then show "billing_ok (clean_imports st)"
    using ok by (auto simp: billing_ok_def get fields)
  show "live (clean_imports st) h" if "live st h" for h
    using that free by (force simp: live_def get fields)
qed

interpretation cleaning_rows: unseen "\<lambda>_. True" clean_rows
proof
  fix st :: "'d billing"
  assume ok: "billing_ok st"
  show "published_view (clean_rows st) = published_view st"
  proof (intro ext)
    fix s d
    show "published_view (clean_rows st) s d = published_view st s d"
    proof (cases "bm_get (bl_partitions st) (s, d)")
      case (Some k)
      then have "((s, d), k) \<in> set (bl_partitions st)" by (rule map_of_SomeD)
      then have "filter (\<lambda>r. bd_import r = k \<and> cg_day (bd_charge r) = d) (drop_first 5000 (superseded st) (bl_daily st)) =
          filter (\<lambda>r. bd_import r = k \<and> cg_day (bd_charge r) = d) (bl_daily st)"
        by (intro filter_drop_first) (force simp: superseded_def list_ex_iff)
      then show ?thesis using Some by (simp add: published_view_def clean_rows_def)
    qed (simp add: published_view_def clean_rows_def)
  qed
  show "billing_ok (clean_rows st)"
    using ok set_drop_first [of 5000 "superseded st" "bl_daily st"] by (auto simp: billing_ok_def clean_rows_def)
  show "live (clean_rows st) h" if "live st h" for h
    using that by (simp add: live_def clean_rows_def)
qed

text \<open>A cleanup is both.\<close>

interpretation cleaning: unseen "\<lambda>_. True" cost_cleanup
  unfolding cost_cleanup_def by (rule cleaning_imports.unseen_then [OF cleaning_rows.unseen_axioms]) simp

section \<open>Beginning an import\<close>

lemma latest_import_in: "latest_import xs = Some x \<Longrightarrow> x \<in> set xs"
  by (induction xs rule: latest_import.induct) (auto split: option.splits if_splits prod.splits)

lemma pending_import_live:
  assumes "billing_ok st" and "pending_import source st = Some (k, i)"
  shows "bm_get (bl_imports st) k = Some i \<and> bi_published_at i = None"
proof -
  have "(k, i) \<in> set (bl_imports st)" "bi_published_at i = None"
    using latest_import_in [OF assms(2) [unfolded pending_import_def]] by auto
  then show ?thesis using assms(1) by (simp add: billing_ok_def bm_wf_distinct)
qed

lemma find_source_in:
  assumes "billing_ok st" and "find_source name st = Some (k, s)"
  shows "bm_get (bl_sources st) k = Some s \<and> br_name s = name"
proof -
  have "(k, s) \<in> set (bl_sources st)" "br_name s = name"
    using assms(2) unfolding find_source_def find_Some_iff by (auto simp: in_set_conv_nth)
  then show ?thesis using assms(1) by (simp add: billing_ok_def bm_wf_distinct)
qed

definition same_shown :: "'d billing \<Rightarrow> 'd billing \<Rightarrow> bool" where
  "same_shown st st' \<longleftrightarrow> billing_ok st' \<and> published_view st' = published_view st \<and> (\<forall>h. live st h \<longrightarrow> live st' h)"

lemma same_shown_trans: "same_shown st st1 \<Longrightarrow> same_shown st1 st2 \<Longrightarrow> same_shown st st2"
  by (simp add: same_shown_def)

lemma insert_source_shown:
  assumes ok: "billing_ok st" and "insert_source src st = Some st'"
  shows "same_shown st st' \<and> bl_imports st' = bl_imports st"
proof -
  have "billing_ok st'"
  proof (cases "st' = st")
    case False
    then obtain s where "st' = st\<lparr>bl_sources := bm_put (bl_next st) s (bl_sources st), bl_next := bl_next st + 1\<rparr>"
      using assms(2) by (auto simp: insert_source_def split: if_splits)
    then show ?thesis using ok by (auto simp: billing_ok_def bm_wf_put get_bm_put less_Suc_eq)
  qed (simp add: ok)
  moreover have "published_view st' = published_view st" "bl_imports st' = bl_imports st"
    using assms(2) by (auto simp: insert_source_def intro!: view_cong split: if_splits)
  moreover have "live st' h" if "live st h" for h
    using that assms(2) by (auto simp: insert_source_def live_def get_bm_put split: if_splits)
  ultimately show ?thesis by (simp add: same_shown_def)
qed

lemma drop_staged_shown:
  assumes ok: "billing_ok st" and "k \<notin> ran (bm_get (bl_partitions st))"
  shows "same_shown st (drop_staged k st)"
proof -
  have "published_view (drop_staged k st) = published_view st"
    using assms(2) by (intro view_cong) (auto simp: drop_staged_def intro!: filter_cong)
  then show ?thesis using ok by (auto simp: same_shown_def drop_staged_def billing_ok_def live_def)
qed

lemma imports_update_shown:
  assumes ok: "billing_ok st" and "\<And>i. bm_get (bl_imports st) k = Some i \<Longrightarrow> bi_published_at i = None"
    and "bi_published_at row = None" and "k < n" and "bl_next st \<le> n"
  shows "same_shown st (st\<lparr>bl_imports := bm_put k row (bl_imports st), bl_next := n\<rparr>)"
proof -
  have "published_view (st\<lparr>bl_imports := bm_put k row (bl_imports st), bl_next := n\<rparr>) = published_view st"
    by (rule view_cong) simp_all
  moreover have other: "k' \<noteq> k" if "bm_get (bl_partitions st) x = Some k'" for x k'
    using billing_okD(6) [OF ok that] assms(2) by auto
  have "billing_ok (st\<lparr>bl_imports := bm_put k row (bl_imports st), bl_next := n\<rparr>)"
  proof (rule billing_okI, goal_cases)
    case (4 k' i)
    then show ?case using billing_okD(4) [OF ok, of k'] assms(4,5) by (force simp: get_bm_put split: if_splits)
  next
    case (5 k' s)
    then show ?case using billing_okD(5) [OF ok, of k'] assms(5) by force
  next
    case (6 x k')
    then show ?case using billing_okD(6) [OF ok, of x k'] other [of x k'] by (simp add: get_bm_put)
  next
    case (7 r)
    then show ?case using billing_okD(7) [OF ok, of r] by (simp add: get_bm_put)
  qed (simp_all add: billing_okD [OF ok] bm_wf_put)
  ultimately show ?thesis
    using assms(3) by (auto simp: same_shown_def live_def get_bm_put)
qed

lemma resume_import_shown:
  assumes ok: "billing_ok st" and i: "bm_get (bl_imports st) k = Some i" "bi_published_at i = None"
    and run: "resume_import now reservation allowance k i st = Inr st'"
  shows "same_shown st st' \<and> bl_partitions st' = bl_partitions st \<and> bl_sources st' = bl_sources st \<and>
    (\<exists>i'. bm_get (bl_imports st') k = Some i' \<and> bi_published_at i' = None)"
proof (cases "as_u64 (bi_reserved i) < reservation")
  case True
  then have st': "st' = st\<lparr>bl_imports := bm_put k (i\<lparr>bi_reserved := as_i64 reservation\<rparr>) (bl_imports st), bl_next := bl_next st\<rparr>"
    using run by (auto simp: resume_import_def split: if_splits)
  have "k < bl_next st" using ok i(1) by (auto simp: billing_ok_def)
  then have "same_shown st st'" unfolding st' using i by (intro imports_update_shown [OF ok]) auto
  then show ?thesis using i by (simp add: st' get_bm_put)
next
  case False
  then show ?thesis using run ok i by (auto simp: resume_import_def same_shown_def)
qed

lemma cost_begin_shown:
  assumes ok: "billing_ok st" and run: "cost_begin now cc src p st = (res, st')"
  shows "case res of Inl e \<Rightarrow> st' = st | Inr h \<Rightarrow> same_shown st st' \<and> live st' h"
proof (cases res)
  case (Inl e)
  then show ?thesis using run by (auto simp: cost_begin_def Let_def split: option.splits if_splits sum.splits)
next
  case (Inr h)
  obtain st1 where st1: "insert_source src st = Some st1"
    using run Inr by (auto simp: cost_begin_def Let_def split: option.splits)
  then obtain source row where row: "find_source (cs_id src) st1 = Some (source, row)"
    using run Inr by (auto simp: cost_begin_def Let_def split: option.splits)
  note shown1 = insert_source_shown [OF ok st1, THEN conjunct1]
  then have ok1: "billing_ok st1" by (simp add: same_shown_def)
  note src = find_source_in [OF ok1 row]
  show ?thesis
  proof (cases "pending_import source st1")
    case (Some x)
    then obtain k i st2 where i: "pending_import source st1 = Some (k, i)"
      "resume_import now (if cs_gcp src \<noteq> None then query_bytes cc else 1) (daily_bytes cc) k i st1 = Inr st2"
      "ih_id h = k" "ih_source h = source" "st' = drop_staged k st2"
      using run Inr st1 row by (cases x) (auto simp: cost_begin_def Let_def split: if_splits sum.splits)
    note pending = pending_import_live [OF ok1 i(1)]
    note resumed = resume_import_shown [OF ok1 pending [THEN conjunct1] pending [THEN conjunct2] i(2)]
    have ok2: "billing_ok st2" and live: "live st2 h"
      using resumed src i(3,4) by (auto simp: same_shown_def live_def)
    have "same_shown st2 st'" unfolding i(5) using live_unpublished [OF ok2 live] i(3)
      by (intro drop_staged_shown [OF ok2]) simp
    then show ?thesis
      using Inr live resumed shown1 by (auto simp: same_shown_def)
  next
    case None
    then obtain st2 where i: "new_import now (if cs_gcp src \<noteq> None then query_bytes cc else 1) (daily_bytes cc) source p st1 = Inr st2"
      "ih_id h = bl_next st1" "ih_source h = source" "st' = drop_staged (bl_next st1) st2"
      using run Inr st1 row by (auto simp: cost_begin_def Let_def split: if_splits sum.splits)
    have fresh: "bm_get (bl_imports st1) (bl_next st1) = None"
      using ok1 by (auto simp: billing_ok_def)
    obtain new where st2: "st2 = st1\<lparr>bl_imports := bm_put (bl_next st1) new (bl_imports st1), bl_next := bl_next st1 + 1\<rparr>"
      "bi_published_at new = None"
      using i(1) by (auto simp: new_import_def split: if_splits)
    have shown2: "same_shown st1 st2" unfolding st2(1) using fresh st2(2) by (intro imports_update_shown [OF ok1]) auto
    then have ok2: "billing_ok st2" by (simp add: same_shown_def)
    have live: "live st2 h" using src i(2,3) st2 by (simp add: live_def get_bm_put)
    have "same_shown st2 st'" unfolding i(4) using live_unpublished [OF ok2 live] i(2)
      by (intro drop_staged_shown [OF ok2]) simp
    then show ?thesis using Inr live shown1 shown2 by (auto simp: same_shown_def)
  qed
qed

section \<open>Publication\<close>

lemma set_period_days: "set (period_days p) = {pe_from p ..< pe_to p}"
proof -
  have "d \<in> (\<lambda>n. pe_from p + int n) ` {0..<nat (pe_to p - pe_from p)}" if "d \<in> {pe_from p ..< pe_to p}" for d
    using that by (intro image_eqI [where x = "nat (d - pe_from p)"]) auto
  then show ?thesis by (auto simp: period_days_def)
qed

lemma get_publish_days:
  "bm_get (publish_days h ps) (s, d) =
     (if s = ih_source h \<and> d \<in> {pe_from (ih_period h) ..< pe_to (ih_period h)} then Some (ih_id h) else bm_get ps (s, d))"
proof -
  have "bm_get (fold (\<lambda>d. bm_put (ih_source h, d) (ih_id h)) ds ps) (s, d) =
      (if s = ih_source h \<and> d \<in> set ds then Some (ih_id h) else bm_get ps (s, d))" for ds
    by (induction ds arbitrary: ps) (auto simp: get_bm_put)
  then show ?thesis by (simp add: publish_days_def set_period_days)
qed

lemma bm_wf_publish_days: "bm_wf ps \<Longrightarrow> bm_wf (publish_days h ps)"
proof -
  have "bm_wf ps \<Longrightarrow> bm_wf (fold (\<lambda>d. bm_put (ih_source h, d) (ih_id h)) ds ps)" for ds
    by (induction ds arbitrary: ps) (simp_all add: bm_wf_put)
  then show "bm_wf ps \<Longrightarrow> bm_wf (publish_days h ps)" by (simp add: publish_days_def)
qed

text \<open>The charges of an import for a day.\<close>

definition staged_charges :: "'d billing \<Rightarrow> import_handle \<Rightarrow> date \<Rightarrow> 'd charge list" where
  "staged_charges st h d = map bd_charge (filter (\<lambda>r. cg_day (bd_charge r) = d) (staged (ih_id h) st))"

text \<open>The specification of a publication: every day of the period is replaced at once, and days
  beyond retention are gone.\<close>

definition republished ::
  "'d billing \<Rightarrow> import_handle \<Rightarrow> date \<Rightarrow> (nat \<Rightarrow> date \<Rightarrow> 'd charge list option) \<Rightarrow> nat \<Rightarrow> date \<Rightarrow> 'd charge list option" where
  "republished st h oldest view s d =
     (if d < oldest then None
      else if s = ih_source h \<and> d \<in> {pe_from (ih_period h) ..< pe_to (ih_period h)} then Some (staged_charges st h d)
      else view s d)"

lemma cost_publish_shown:
  assumes ok: "billing_ok st" and run: "cost_publish ca now h expected retention st = (Inr u, st')"
  shows "billing_ok st' \<and> length (staged (ih_id h) st) = expected \<and>
    published_view st' = republished st h (date_of now - int retention) (published_view st)"
proof -
  let ?oldest = "date_of now - int retention"
  let ?ps = "publish_days h (bl_partitions st)"
  have st': "st' = st\<lparr>bl_partitions := bm_retain (\<lambda>(_, d) _. ?oldest \<le> d) ?ps,
           bl_imports := update_row (ih_id h) (\<lambda>i. i\<lparr>bi_published_at := Some now\<rparr>) (bl_imports st),
           bl_sources := update_row (ih_source h) (\<lambda>s. s\<lparr>br_revision := Some (ih_id h), br_imported_at := Some now,
             br_fault := None\<rparr>) (bl_sources st)\<rparr>"
    and len: "length (staged (ih_id h) st) = expected" and has: "bm_has (bl_imports st) (ih_id h)"
    using run by (auto simp: cost_publish_def split: if_splits)
  have wf: "bm_wf ?ps" using ok by (simp add: billing_ok_def bm_wf_publish_days)
  have get: "bm_get (bl_partitions st') (s, d) = (if d < ?oldest then None
      else if s = ih_source h \<and> d \<in> {pe_from (ih_period h) ..< pe_to (ih_period h)} then Some (ih_id h)
      else bm_get (bl_partitions st) (s, d))" for s d
    by (auto simp: st' get_bm_retain [OF wf] get_publish_days split: option.split)
  have daily: "bl_daily st' = bl_daily st" by (simp add: st')
  have "published_view st' s d = republished st h ?oldest (published_view st) s d" for s d
    unfolding published_view_def get daily by (auto simp: republished_def staged_charges_def staged_def published_view_def conj_commute)
  moreover have "billing_ok st'"
  proof (rule billing_okI, goal_cases)
    case 3
    show ?case using wf by (simp add: st' bm_wf_retain)
  next
    case (4 k i)
    then show ?case using billing_okD(4) [OF ok, of k] by (auto simp: st' get_update_row split: if_splits)
  next
    case (5 k s)
    then show ?case using billing_okD(5) [OF ok, of k] by (auto simp: st' get_update_row split: if_splits)
  next
    case (6 x k)
    obtain s d where x: "x = (s, d)" by (cases x)
    then have "k = ih_id h \<or> bm_get (bl_partitions st) (s, d) = Some k"
      using 6 get [of s d] by (auto split: if_splits)
    then show ?case using billing_okD(6) [OF ok, of "(s, d)" k] has by (auto simp: st' get_update_row)
  next
    case (7 r)
    then show ?case using billing_okD(7) [OF ok, of r] by (auto simp: st' get_update_row)
  qed (simp_all add: st' billing_okD [OF ok])
  ultimately show ?thesis using len by blast
qed

section \<open>Runs\<close>

text \<open>One step of the billing worker, with the import it is working on: nothing else writes these
  tables. A call that fails leaves the tables alone.\<close>

inductive billing_step ::
  "'d billing_env \<Rightarrow> calendar \<Rightarrow> 'd billing \<times> import_handle option \<Rightarrow> 'd billing \<times> import_handle option \<Rightarrow> bool" for be ca where
  begun: "cost_begin now cc src p st = (Inr h, st') \<Longrightarrow> billing_step be ca (st, None) (st', Some h)"
| stages: "cost_stage be h charges st = (Inr n, st') \<Longrightarrow> billing_step be ca (st, Some h) (st', Some h)"
| publishes: "cost_publish ca now h expected retention st = (Inr u, st') \<Longrightarrow> billing_step be ca (st, Some h) (st', None)"
| abandons: "billing_step be ca (st, Some h) (st, None)"
| settles: "cost_settle h bytes st = (Inr u, st') \<Longrightarrow> billing_step be ca (st, Some h) (st', Some h)"
| attempts: "billing_step be ca (st, Some h) (cost_attempt now h st, Some h)"
| faults: "cost_fault name fault st = (Inr u, st') \<Longrightarrow> billing_step be ca (st, ho) (st', ho)"
| cleans_imports: "billing_step be ca (st, ho) (clean_imports st, ho)"
| cleans_rows: "billing_step be ca (st, ho) (clean_rows st, ho)"

inductive billing_run :: "'d billing_env \<Rightarrow> calendar \<Rightarrow> 'd billing \<times> import_handle option \<Rightarrow> bool" for be ca where
  opened: "billing_run be ca (opened_billing, None)"
| stepped: "billing_run be ca x \<Longrightarrow> billing_step be ca x y \<Longrightarrow> billing_run be ca y"

definition worker_ok :: "'d billing \<times> import_handle option \<Rightarrow> bool" where
  "worker_ok x \<longleftrightarrow> billing_ok (fst x) \<and> (\<forall>h. snd x = Some h \<longrightarrow> live (fst x) h)"

text \<open>What a step does to what readers see: nothing, or a publication.\<close>

inductive shown_step :: "'d billing \<times> import_handle option \<Rightarrow> 'd billing \<times> import_handle option \<Rightarrow> bool" where
  unchanged: "published_view (fst y) = published_view (fst x) \<Longrightarrow> shown_step x y"
| republication: "published_view st' = republished st h oldest (published_view st) \<Longrightarrow> shown_step (st, Some h) (st', None)"

lemma worker_step:
  assumes "billing_step be ca x y" and ok: "worker_ok x"
  shows "worker_ok y \<and> shown_step x y"
  using assms
proof (cases rule: billing_step.cases)
  case (begun now cc src p st h st')
  then show ?thesis using cost_begin_shown [of st now cc src p "Inr h" st'] ok
    by (auto simp: worker_ok_def same_shown_def intro: unchanged)
next
  case (stages h charges st n st')
  then have st': "st' = snd (cost_stage be h charges st)" by simp
  show ?thesis using staging.keeps_all [of st h "Some h" be charges] ok stages(1,2)
    by (auto simp: worker_ok_def st' intro: unchanged)
next
  case (publishes now h expected retention st u st')
  then show ?thesis using cost_publish_shown [OF _ publishes(3)] ok
    by (auto simp: worker_ok_def intro: republication)
next
  case (abandons st h)
  then show ?thesis using ok by (auto simp: worker_ok_def intro: unchanged)
next
  case (settles h bytes st u st')
  then have st': "st' = snd (cost_settle h bytes st)" by simp
  show ?thesis using settling.keeps_all [of st "Some h" h bytes] ok settles(1,2)
    by (auto simp: worker_ok_def st' intro: unchanged)
next
  case (attempts st h now)
  then show ?thesis using attempting.keeps_all [of st "Some h" now h] ok
    by (auto simp: worker_ok_def intro: unchanged)
next
  case (faults name fault st u st' ho)
  then have st': "st' = snd (cost_fault name fault st)" by simp
  show ?thesis using faulting.keeps_all [of st ho name fault] ok faults(1,2)
    by (auto simp: worker_ok_def st' intro: unchanged)
next
  case (cleans_imports st ho)
  then show ?thesis using cleaning_imports.keeps_all [of st ho] ok by (auto simp: worker_ok_def intro: unchanged)
next
  case (cleans_rows st ho)
  then show ?thesis using cleaning_rows.keeps_all [of st ho] ok by (auto simp: worker_ok_def intro: unchanged)
qed

lemma worker_run: "billing_run be ca x \<Longrightarrow> worker_ok x"
  by (induction rule: billing_run.induct) (auto simp: worker_ok_def opened_ok dest: worker_step)

section \<open>Properties\<close>


section \<open>A sample import\<close>

definition sample_costs :: cost_config where
  "sample_costs = \<lparr>cc_enabled = True, cc_reader_access = Some (), cc_sources = [], cc_scope_targets = [],
     cc_interval_seconds = None, cc_backfill_days = None, cc_retention_days = None, cc_max_rows = None,
     cc_max_bytes_billed = None, cc_daily_bytes_billed = None\<rparr>"

definition sample_source :: cost_source where
  "sample_source = \<lparr>cs_id = ''aws'', cs_provider = CostAws, cs_billing_scope = ''123456789012'', cs_gcp = None,
     cs_aws_query = Some ''us-east-1'', cs_azure_query = None, cs_credential = None\<rparr>"

definition sample_import :: import_handle where
  "sample_import = \<lparr>ih_id = 1, ih_source = 0, ih_period = \<lparr>pe_from = 10, pe_to = 11\<rparr>\<rparr>"

definition sample_begun :: "rat billing" where
  "sample_begun = \<lparr>bl_sources = [(0, \<lparr>br_name = ''aws'', br_provider = CostAws, br_scope = ''123456789012'',
       br_imported_at = None, br_revision = None, br_fault = None\<rparr>)],
     bl_imports = [(1, \<lparr>bi_source = 0, bi_started_at = 0, bi_published_at = None, bi_from = 10, bi_to = 11,
       bi_reserved = 1, bi_billed = None, bi_attempted_at = None\<rparr>)],
     bl_daily = [], bl_partitions = [], bl_next = 2\<rparr>"

lemma sample_begin:
  "cost_begin 0 sample_costs sample_source \<lparr>pe_from = 10, pe_to = 11\<rparr> opened_billing = (Inr sample_import, sample_begun)"
  by (simp add: cost_begin_def Let_def sample_source_def opened_billing_def insert_source_def find_source_def
      cost_identifier_def is_ascii_alphanumeric_def is_ascii_digit_def is_ascii_lowercase_def is_ascii_uppercase_def
      pending_import_def new_import_def allowance_left_def reservations_def sat_add64_def u64_max_def sample_costs_def
      daily_bytes_def period_valid_def as_i64_def drop_staged_def sample_import_def sample_begun_def
      less_eq_char_def)

definition sample_published :: "rat billing" where
  "sample_published = snd (cost_publish \<lparr>ca_valid = \<lambda>_. True, ca_month_start = Some\<rparr> 0 sample_import 0 400 sample_begun)"

lemma sample_bill_published:
  "cost_publish \<lparr>ca_valid = \<lambda>_. True, ca_month_start = Some\<rparr> 0 sample_import 0 400 sample_begun = (Inr (), sample_published)"
  by (simp add: sample_published_def cost_publish_def staged_def sample_begun_def list_all_iff sample_import_def)


end
