(* ===== verification/Allowance_Properties.thy ===== *)
theory Allowance_Properties
  imports Billing_Properties
begin

text \<open>
  The daily allowance of billed bytes: no reservation takes the bytes that count towards a day above
  the allowance of the settings.
\<close>

section \<open>Sums over the import table\<close>

text \<open>The bytes that count towards the day: reserved, or billed once the provider has said so.\<close>

definition import_weight :: "instant \<Rightarrow> import_row \<Rightarrow> nat" where
  "import_weight now i = (if counts_today now i then charged_bytes i else 0)"

definition used_today :: "instant \<Rightarrow> 'd billing \<Rightarrow> nat" where
  "used_today now st = sum_list (map (import_weight now) (map snd (bl_imports st)))"

lemma sum_list_filter_weight:
  "sum_list (map f (filter P xs)) = sum_list (map (\<lambda>x. if P x then f x else (0::nat)) xs)"
  by (induction xs) simp_all

lemma used_reservations: "used_today now st = sum_list (map charged_bytes (reservations now st))"
  by (simp add: used_today_def reservations_def sum_list_filter_weight import_weight_def [abs_def] comp_def)

lemma checked_sum_Some: "checked_sum acc xs = Some n \<Longrightarrow> n = acc + sum_list xs"
  by (induction xs arbitrary: acc) (force simp: checked_add64_def split: option.splits if_splits)+

lemma allowance_left_used:
  assumes "allowance_left now additional allowance st" and "allowance < u64_max"
  shows "used_today now st + additional \<le> allowance"
proof -
  let ?rs = "take 4097 (reservations now st)"
  obtain n where n: "checked_sum 0 (map charged_bytes ?rs) = Some n" "length ?rs \<le> 4096" "sat_add64 n additional \<le> allowance"
    using assms(1) by (auto simp: allowance_left_def Let_def split: option.splits)
  from n(2) have "?rs = reservations now st" by simp
  then show ?thesis
    using checked_sum_Some [OF n(1)] n(3) assms(2) by (simp add: used_reservations sat_add64_def min_def split: if_splits)
qed

lemma sum_bm_put:
  "bm_wf m \<Longrightarrow> sum_list (map f (map snd (bm_put k v m))) + (case bm_get m k of None \<Rightarrow> 0 | Some w \<Rightarrow> f w) =
     sum_list (map f (map snd m)) + (f v :: nat)"
proof (induction k v m rule: bm_put.induct)
  case (2 k v k' v' m)
  have wf: "bm_wf m" and "k < k' \<Longrightarrow> k \<notin> fst ` set m" using 2(2) by (auto simp: bm_wf_def)
  then have "k < k' \<Longrightarrow> bm_get m k = None" by (simp add: map_of_eq_None_iff)
  then show ?case using 2(1) wf by auto
qed simp

lemma used_put:
  assumes "bm_wf (bl_imports st)"
  shows "used_today now (st\<lparr>bl_imports := bm_put k i (bl_imports st), bl_next := n\<rparr>) +
      (case bm_get (bl_imports st) k of None \<Rightarrow> 0 | Some j \<Rightarrow> import_weight now j) =
    used_today now st + import_weight now i"
  using sum_bm_put [OF assms, of "import_weight now"] by (simp add: used_today_def)

lemma used_cong: "bl_imports st' = bl_imports st \<Longrightarrow> used_today now st' = used_today now st"
  by (simp add: used_today_def)

lemma as_u64_as_i64: "n < 2 ^ 64 \<Longrightarrow> as_u64 (as_i64 n) = n"
proof -
  assume n: "n < 2 ^ 64"
  have "int n mod 2 ^ 64 = int n" "(int n - 2 ^ 64) mod 2 ^ 64 = int n" using n by (simp_all add: mod_diff_eq [symmetric])
  then show ?thesis using n by (simp add: as_u64_def as_i64_def)
qed

section \<open>Reservations\<close>

text \<open>How an import begins: a pending one is resumed, or a new one is inserted.\<close>

lemma cost_begin_cases:
  assumes "cost_begin now cc src p st = (Inr h, st')" and "r = (if cs_gcp src \<noteq> None then query_bytes cc else 1)"
  obtains (resumed) st1 source row k i st2 where
    "insert_source src st = Some st1" "find_source (cs_id src) st1 = Some (source, row)" "pending_import source st1 = Some (k, i)"
    "resume_import now r (daily_bytes cc) k i st1 = Inr st2"
    "h = \<lparr>ih_id = k, ih_source = source, ih_period = \<lparr>pe_from = bi_from i, pe_to = bi_to i\<rparr>\<rparr>" "st' = drop_staged k st2"
  | (fresh) st1 source row st2 where
    "insert_source src st = Some st1" "find_source (cs_id src) st1 = Some (source, row)" "pending_import source st1 = None"
    "new_import now r (daily_bytes cc) source p st1 = Inr st2"
    "h = \<lparr>ih_id = bl_next st1, ih_source = source, ih_period = p\<rparr>" "st' = drop_staged (bl_next st1) st2"
proof -
  obtain st1 where st1: "insert_source src st = Some st1"
    using assms(1) by (cases "insert_source src st") (simp_all add: cost_begin_def)
  then obtain source row where row: "find_source (cs_id src) st1 = Some (source, row)"
    using assms(1) by (cases "find_source (cs_id src) st1") (auto simp: cost_begin_def)
  have known: "br_provider row = cs_provider src \<and> br_scope row = cs_billing_scope src"
    using assms(1) st1 row by (simp add: cost_begin_def Let_def split: if_splits)
  show ?thesis
  proof (cases "pending_import source st1")
    case (Some x)
    obtain k i where x: "x = (k, i)" by (cases x)
    show ?thesis
      using assms(1) st1 row known Some x unfolding cost_begin_def Let_def assms(2) [symmetric]
      by (cases "resume_import now r (daily_bytes cc) k i st1") (auto intro: resumed)
  next
    case None
    then show ?thesis
      using assms(1) st1 row known unfolding cost_begin_def Let_def assms(2) [symmetric]
      by (cases "new_import now r (daily_bytes cc) source p st1") (auto intro: fresh)
  qed
qed

lemma new_import_used:
  assumes ok: "billing_ok st" and run: "new_import now reservation allowance source p st = Inr st'"
    and "allowance < u64_max" "reservation < 2 ^ 64"
  shows "used_today now st' \<le> allowance"
proof -
  let ?i = "\<lparr>bi_source = source, bi_started_at = now, bi_published_at = None, bi_from = pe_from p, bi_to = pe_to p,
      bi_reserved = as_i64 reservation, bi_billed = None, bi_attempted_at = None\<rparr>"
  have st': "st' = st\<lparr>bl_imports := bm_put (bl_next st) ?i (bl_imports st), bl_next := bl_next st + 1\<rparr>"
    and left: "allowance_left now reservation allowance st"
    using run by (auto simp: new_import_def split: if_splits)
  have "bm_get (bl_imports st) (bl_next st) = None" using billing_okD(4) [OF ok] by fastforce
  then have "used_today now st' = used_today now st + import_weight now ?i"
    using used_put [OF billing_okD(2) [OF ok], where now = now and k = "bl_next st" and i = ?i and n = "bl_next st + 1"] by (simp add: st')
  also have "import_weight now ?i = reservation"
    using assms(4) by (simp add: import_weight_def counts_today_def charged_bytes_def as_u64_as_i64)
  finally show ?thesis using allowance_left_used [OF left assms(3)] by simp
qed

lemma resume_import_used:
  assumes ok: "billing_ok st" and i: "bm_get (bl_imports st) k = Some i" "bi_published_at i = None"
    and run: "resume_import now reservation allowance k i st = Inr st'" and "allowance < u64_max" "reservation < 2 ^ 64"
  shows "used_today now st' \<le> max (used_today now st) allowance"
proof (cases "as_u64 (bi_reserved i) < reservation")
  case True
  let ?i = "i\<lparr>bi_reserved := as_i64 reservation\<rparr>"
  have st': "st' = st\<lparr>bl_imports := bm_put k ?i (bl_imports st), bl_next := bl_next st\<rparr>"
    and left: "allowance_left now (reservation - as_u64 (bi_reserved i)) allowance st"
    using run True by (auto simp: resume_import_def split: if_splits)
  have used: "used_today now st' + import_weight now i = used_today now st + import_weight now ?i"
    using used_put [OF billing_okD(2) [OF ok], where now = now and k = k and i = ?i and n = "bl_next st"] i(1) by (simp add: st')
  have "import_weight now ?i - import_weight now i \<le> reservation - as_u64 (bi_reserved i)"
    using i(2) assms(6) by (cases "bi_billed i") (auto simp: import_weight_def counts_today_def charged_bytes_def as_u64_as_i64)
  then show ?thesis using used allowance_left_used [OF left assms(5)] by linarith
next
  case False
  then show ?thesis using run by (auto simp: resume_import_def)
qed

section \<open>Properties\<close>

text \<open>C25: An import that is allowed to begin never takes the bytes that count towards the day above the
  daily allowance: the reservation of a new import fits in what is left, and resuming a pending import
  with a larger reservation pays only for the difference.\<close>

theorem reservations_respect_the_allowance:
  assumes "billing_run be ca (st, None)" and "validate_costs cc = Inr ()"
    and "cost_begin now cc src p st = (Inr h, st')"
  shows "used_today now st' \<le> max (used_today now st) (daily_bytes cc)"
proof -
  have ok: "billing_ok st" using worker_run [OF assms(1)] by (simp add: worker_ok_def)
  let ?r = "if cs_gcp src \<noteq> None then query_bytes cc else 1"
  have "cost_bounds_valid cc" using assms(2) by (auto simp: validate_costs_def split: if_splits)
  then have bounds: "daily_bytes cc < u64_max" "?r < 2 ^ 64"
    by (auto simp: cost_bounds_valid_def u64_max_def)
  from assms(3) refl show ?thesis
  proof (cases rule: cost_begin_cases)
    case (resumed st1 source row k i st2)
    note shown = insert_source_shown [OF ok resumed(1)]
    then have ok1: "billing_ok st1" and same: "used_today now st1 = used_today now st"
      by (auto simp: same_shown_def intro: used_cong)
    have "used_today now st' = used_today now st2" by (rule used_cong) (simp add: resumed(6) drop_staged_def)
    then show ?thesis
      using resume_import_used [OF ok1 _ _ resumed(4) bounds] pending_import_live [OF ok1 resumed(3)] same by simp
  next
    case (fresh st1 source row st2)
    have ok1: "billing_ok st1" using insert_source_shown [OF ok fresh(1)] by (simp add: same_shown_def)
    have "used_today now st' = used_today now st2" by (rule used_cong) (simp add: fresh(6) drop_staged_def)
    then show ?thesis using new_import_used [OF ok1 fresh(4) bounds] by simp
  qed
qed

theorem reservations_respect_the_allowance_witness:
  "used_today 0 sample_begun \<le> max (used_today 0 (opened_billing :: rat billing)) (daily_bytes sample_costs)"
proof (rule reservations_respect_the_allowance [OF opened _ sample_begin])
  show "validate_costs sample_costs = Inr ()"
    by (simp add: validate_costs_def cost_bounds_valid_def sample_costs_def cost_interval_def cost_backfill_def
        cost_retention_def cost_row_limit_def query_bytes_def daily_bytes_def)
qed

end
