(* ===== verification/Billing_Worker.thy ===== *)
theory Billing_Worker
  imports Billing
begin

text \<open>
  The billing worker: which period a source imports next (\<open>cost_schedule.rs\<close>), the two import loops
  (\<open>crates/server/src/cost_worker.rs\<close>, \<open>cost_reader.rs\<close>), what readers are told of the sources
  (\<open>cost_write.rs\<close> \<open>cost_status\<close>, \<open>cost_coverage.rs\<close>) and the cursors of a breakdown
  (\<open>cost_cursor.rs\<close>). Pages of the provider and outcomes of its calls are inputs.
\<close>

section \<open>Schedule\<close>

text \<open>\<open>num_days\<close>: whole days, rounded towards zero.\<close>

definition num_days :: "int \<Rightarrow> int" where
  "num_days d = (let s = num_seconds d in if 0 \<le> s then s div 86400 else - ((- s) div 86400))"

text \<open>The published days of a source with the time of their import; the query keeps 731 of them.\<close>

definition partition_row :: "string \<Rightarrow> date \<Rightarrow> 'd billing \<Rightarrow> (nat \<times> date) \<times> nat \<Rightarrow> (date \<times> instant option) option" where
  "partition_row name oldest st x =
     (case x of ((s, d), k) \<Rightarrow>
        (case (bm_get (bl_sources st) s, bm_get (bl_imports st) k) of
           (Some sr, Some i) \<Rightarrow> if br_name sr = name \<and> oldest \<le> d then Some (d, bi_published_at i) else None
         | _ \<Rightarrow> None))"

definition partition_rows :: "string \<Rightarrow> date \<Rightarrow> 'd billing \<Rightarrow> (date \<times> instant option) list" where
  "partition_rows name oldest st = List.map_filter (partition_row name oldest st) (bl_partitions st)"

text \<open>The days of the backfill window, latest first.\<close>

definition backfill_dates :: "date \<Rightarrow> nat \<Rightarrow> date list" where
  "backfill_dates t n = map (\<lambda>i. t - (int i + 1)) [0..<n]"

fun oldest_row :: "(date \<times> instant option) list \<Rightarrow> (date \<times> instant option) option" where
  "oldest_row [] = None"
| "oldest_row (r # rs) =
     (case oldest_row rs of None \<Rightarrow> Some r | Some r' \<Rightarrow> if snd r' < snd r then Some r' else Some r)"

definition import_window :: "cost_source \<Rightarrow> date \<Rightarrow> date \<Rightarrow> period" where
  "import_window src start stop =
     \<lparr>pe_from = (if cs_aws_query src \<noteq> None then start else max (stop - 7) start), pe_to = stop\<rparr>"

definition import_cadence :: "cost_config \<Rightarrow> cost_source \<Rightarrow> int" where
  "import_cadence cc src = (if cs_aws_query src \<noteq> None then 86400 else as_i64 (cost_interval cc))"

definition recently_imported :: "instant \<Rightarrow> int \<Rightarrow> (date \<times> instant option) list \<Rightarrow> bool" where
  "recently_imported now cadence rows \<longleftrightarrow>
     (case find (\<lambda>(d, _). d = date_of now) rows of
        Some (_, Some t) \<Rightarrow> num_seconds (now - t) < cadence
      | _ \<Rightarrow> False)"

definition cost_next_period ::
  "calendar \<Rightarrow> instant \<Rightarrow> cost_config \<Rightarrow> cost_source \<Rightarrow> 'd billing \<Rightarrow> history_error + period option" where
  "cost_next_period ca now cc src st =
     (let stop = date_of now + 1; start = stop - int (cost_backfill cc);
          rows = take 731 (partition_rows (cs_id src) (stop - int (cost_retention cc)) st)
      in if \<not> ca_valid ca stop \<or> 730 < length rows then Inl HRecord
         else if \<not> recently_imported now (import_cadence cc src) rows then Inr (Some (import_window src start stop))
         else case find (\<lambda>d. d \<notin> set (map fst rows)) (backfill_dates stop (cost_backfill cc)) of
                Some d \<Rightarrow> Inr (if ca_valid ca (d + 1) then Some (import_window src start (d + 1)) else None)
              | None \<Rightarrow>
                  (case oldest_row (filter (\<lambda>(_, t). is_some_and (\<lambda>t. 30 \<le> num_days (now - t)) t) rows) of
                     None \<Rightarrow> Inr None
                   | Some (d, _) \<Rightarrow> if ca_valid ca (d + 1) then Inr (Some \<lparr>pe_from = d, pe_to = d + 1\<rparr>) else Inl HRecord))"

section \<open>Import loops\<close>

text \<open>The faults a billing import can record.\<close>

datatype billing_fault =
    StorageOrAllowance | ProviderFault | AllowanceUnrecorded | ResultsUnavailable | AggregateChanged
  | AggregateTooLarge | StagingFailed | PagesIncomplete | PublicationFailed | CursorRepeated | PaginationExceeded

record 'd cost_page =
  cp_rows :: "'d charge list"
  cp_total :: usize
  cp_next :: "string option"

text \<open>The page loop of \<open>cost_worker::import\<close>: \<open>pages n cursor\<close> is the answer when \<open>n\<close> requests are left.\<close>

fun import_pages ::
  "'d billing_env \<Rightarrow> calendar \<Rightarrow> instant \<Rightarrow> cost_config \<Rightarrow> import_handle \<Rightarrow> (nat \<Rightarrow> string option \<Rightarrow> 'd cost_page option) \<Rightarrow>
   nat \<Rightarrow> string option \<Rightarrow> usize \<Rightarrow> usize option \<Rightarrow> 'd billing \<Rightarrow> (billing_fault + unit) \<times> 'd billing" where
  "import_pages be ca now cc h pages 0 cursor n expected st = (Inl PaginationExceeded, st)"
| "import_pages be ca now cc h pages (Suc left) cursor n expected st =
     (case pages left cursor of
        None \<Rightarrow> (Inl ResultsUnavailable, st)
      | Some pg \<Rightarrow>
          if cost_row_limit cc < cp_total pg \<or> is_some_and (\<lambda>m. m \<noteq> cp_total pg) expected then (Inl AggregateChanged, st)
          else (case checked_add64 n (length (cp_rows pg)) of
                  None \<Rightarrow> (Inl AggregateTooLarge, st)
                | Some n \<Rightarrow>
                    if cost_row_limit cc < n then (Inl AggregateTooLarge, st)
                    else (case cost_stage be h (map (attribute cc) (cp_rows pg)) st of
                            (Inl _, st) \<Rightarrow> (Inl StagingFailed, st)
                          | (Inr _, st) \<Rightarrow>
                              if cp_next pg = None then
                                (if n \<noteq> cp_total pg then (Inl PagesIncomplete, st)
                                 else (case cost_publish ca now h n (cost_retention cc) st of
                                         (Inl _, st) \<Rightarrow> (Inl PublicationFailed, st)
                                       | (Inr _, st) \<Rightarrow> (Inr (), st)))
                              else if cp_next pg = cursor then (Inl CursorRepeated, st)
                              else import_pages be ca now cc h pages left (cp_next pg) n (Some (cp_total pg)) st)))"

text \<open>\<open>start\<close>: the outcome of the provider's job, its billed bytes; the import is published \<open>later\<close>.\<close>

definition import_job ::
  "'d billing_env \<Rightarrow> calendar \<Rightarrow> instant \<Rightarrow> instant \<Rightarrow> cost_config \<Rightarrow> cost_source \<Rightarrow> period \<Rightarrow> (import_handle \<Rightarrow> u64 option) \<Rightarrow>
   (nat \<Rightarrow> string option \<Rightarrow> 'd cost_page option) \<Rightarrow> 'd billing \<Rightarrow> (billing_fault + unit) \<times> 'd billing" where
  "import_job be ca now later cc src p start pages st =
     (case cost_begin now cc src p st of
        (Inl _, st) \<Rightarrow> (Inl StorageOrAllowance, st)
      | (Inr h, st) \<Rightarrow>
          (case start h of
             None \<Rightarrow> (Inl ProviderFault, st)
           | Some billed \<Rightarrow>
               (case cost_settle h billed st of
                  (Inl _, st) \<Rightarrow> (Inl AllowanceUnrecorded, st)
                | (Inr _, st) \<Rightarrow> import_pages be ca later cc h pages (cost_row_limit cc div 500 + 2) None 0 None st)))"

text \<open>\<open>rows.chunks(500)\<close>, each staged for itself.\<close>

fun chunks :: "nat \<Rightarrow> 'a list \<Rightarrow> 'a list list" where
  "chunks 0 xs = []"
| "chunks (Suc n) [] = []"
| "chunks (Suc n) (x # xs) = take (Suc n) (x # xs) # chunks (Suc n) (drop n xs)"

fun stage_chunks ::
  "'d billing_env \<Rightarrow> import_handle \<Rightarrow> 'd charge list list \<Rightarrow> 'd billing \<Rightarrow> (history_error + unit) \<times> 'd billing" where
  "stage_chunks be h [] st = (Inr (), st)"
| "stage_chunks be h (c # cs) st =
     (case cost_stage be h c st of (Inl e, st) \<Rightarrow> (Inl e, st) | (Inr _, st) \<Rightarrow> stage_chunks be h cs st)"

text \<open>The page loop of \<open>query_import\<close>; a page has no total here.\<close>

fun query_pages ::
  "'d billing_env \<Rightarrow> calendar \<Rightarrow> instant \<Rightarrow> cost_config \<Rightarrow> import_handle \<Rightarrow>
   (nat \<Rightarrow> string option \<Rightarrow> ('d charge list \<times> string option) option) \<Rightarrow>
   nat \<Rightarrow> string option \<Rightarrow> usize \<Rightarrow> 'd billing \<Rightarrow> (billing_fault + unit) \<times> 'd billing" where
  "query_pages be ca now cc h pages 0 cursor n st = (Inl PaginationExceeded, st)"
| "query_pages be ca now cc h pages (Suc left) cursor n st =
     (case pages left cursor of
        None \<Rightarrow> (Inl ProviderFault, st)
      | Some (rows, next) \<Rightarrow>
          if cost_row_limit cc < n + length rows then (Inl AggregateTooLarge, st)
          else (case stage_chunks be h (chunks 500 (map (attribute cc) rows)) st of
                  (Inl _, st) \<Rightarrow> (Inl StagingFailed, st)
                | (Inr _, st) \<Rightarrow>
                    if next = None then
                      (case cost_publish ca now h (n + length rows) (cost_retention cc) st of
                         (Inl _, st) \<Rightarrow> (Inl PublicationFailed, st)
                       | (Inr _, st) \<Rightarrow> (Inr (), st))
                    else if next = cursor then (Inl CursorRepeated, st)
                    else query_pages be ca now cc h pages left next (n + length rows) st))"

definition query_import ::
  "'d billing_env \<Rightarrow> calendar \<Rightarrow> instant \<Rightarrow> instant \<Rightarrow> cost_config \<Rightarrow> cost_source \<Rightarrow> period \<Rightarrow>
   (nat \<Rightarrow> string option \<Rightarrow> ('d charge list \<times> string option) option) \<Rightarrow> 'd billing \<Rightarrow> (billing_fault + unit) \<times> 'd billing" where
  "query_import be ca now later cc src p pages st =
     (case cost_begin now cc src p st of
        (Inl _, st) \<Rightarrow> (Inl StorageOrAllowance, st)
      | (Inr h, st) \<Rightarrow>
          (case cost_settle h 0 (cost_attempt now h st) of
             (Inl _, st) \<Rightarrow> (Inl AllowanceUnrecorded, st)
           | (Inr _, st) \<Rightarrow> query_pages be ca later cc h pages (if cs_aws_query src \<noteq> None then 4 else 32) None 0 st))"

text \<open>The period the worker imports for a source in this round, if it imports at all.\<close>

definition source_due :: "calendar \<Rightarrow> instant \<Rightarrow> cost_config \<Rightarrow> cost_source \<Rightarrow> 'd billing \<Rightarrow> period option" where
  "source_due ca now cc src st =
     (if cs_aws_query src \<noteq> None \<and> cost_recent_attempt now (cs_id src) 86400 st then None
      else case cost_next_period ca now cc src st of Inr p \<Rightarrow> p | Inl _ \<Rightarrow> None)"

section \<open>Coverage\<close>

text \<open>\<open>show_id\<close> renders the id of an import.\<close>

definition stored_status :: "(nat \<Rightarrow> string) \<Rightarrow> calendar \<Rightarrow> 'd billing \<Rightarrow> nat \<times> source_row \<Rightarrow> source_status" where
  "stored_status show_id ca st x =
     (case x of (k, s) \<Rightarrow>
       (let days = map (\<lambda>((_, d), _). d) (filter (\<lambda>((k', _), _). k' = k) (bl_partitions st))
        in \<lparr>so_id = br_name s, so_provider = br_provider s,
            so_state = (if br_fault s \<noteq> None then ''failed'' else if br_imported_at s \<noteq> None then ''provisional'' else ''waiting''),
            so_imported_at = br_imported_at s, so_from = list_min days,
            so_to = (case list_max days of None \<Rightarrow> None | Some d \<Rightarrow> date_add ca d 1),
            so_revision = map_option show_id (br_revision s), so_fault = br_fault s\<rparr>))"

definition cost_status :: "(nat \<Rightarrow> string) \<Rightarrow> calendar \<Rightarrow> 'd billing \<Rightarrow> history_error + source_status list" where
  "cost_status show_id ca st =
     (let rows = take 17 (bl_sources st)
      in if 16 < length rows then Inl HRecord else Inr (map (stored_status show_id ca st) rows))"

definition waiting_status :: "cost_source \<Rightarrow> source_status" where
  "waiting_status src = \<lparr>so_id = cs_id src, so_provider = cs_provider src, so_state = ''waiting'', so_imported_at = None,
     so_from = None, so_to = None, so_revision = None, so_fault = None\<rparr>"

definition source_state :: "instant \<Rightarrow> cost_config \<Rightarrow> source_status list \<Rightarrow> cost_source \<Rightarrow> source_status" where
  "source_state now cc stored src =
     (let s = unwrap_or (waiting_status src) (find (\<lambda>s. so_id s = cs_id src) stored);
          limit = as_i64 (sat_mul64 (if cs_aws_query src \<noteq> None then 86400 else cost_interval cc) 2)
      in if so_fault s = None \<and> is_some_and (\<lambda>t. limit < num_seconds (now - t)) (so_imported_at s)
         then s\<lparr>so_state := ''stale''\<rparr> else s)"

definition cost_statuses :: "instant \<Rightarrow> cost_config \<Rightarrow> cost_filter \<Rightarrow> source_status list \<Rightarrow> source_status list" where
  "cost_statuses now cc f stored =
     map (source_state now cc stored)
       (filter (\<lambda>src. is_none_or (\<lambda>p. p = cs_provider src) (cq_provider f)) (cc_sources cc))"

definition published_days :: "string \<Rightarrow> period \<Rightarrow> 'd billing \<Rightarrow> nat" where
  "published_days name p st =
     length (filter (\<lambda>((s, d), _). is_some_and (\<lambda>sr. br_name sr = name) (bm_get (bl_sources st) s) \<and>
       pe_from p \<le> d \<and> d < pe_to p) (bl_partitions st))"

text \<open>A source without a published day has no row in the counts, so a period of no days is not covered by it.\<close>

definition cost_covered :: "source_status list \<Rightarrow> period \<Rightarrow> 'd billing \<Rightarrow> bool" where
  "cost_covered sources p st \<longleftrightarrow>
     sources \<noteq> [] \<and> \<not> list_ex (\<lambda>s. so_fault s \<noteq> None \<or> so_state s = ''stale'') sources \<and>
     list_all (\<lambda>s. 0 < published_days (so_id s) p st \<and> int (published_days (so_id s) p st) = pe_to p - pe_from p) sources"

section \<open>Cursors of a breakdown\<close>

record 'd cost_cursor =
  cu_amount :: 'd
  cu_key :: string
  cu_revision :: string
  cu_fingerprint :: string

record 'd cursor_codec =
  cc_encode :: "'d cost_cursor \<Rightarrow> string option"
  cc_decode :: "string \<Rightarrow> 'd cost_cursor option"

definition encode_cursor :: "'d cursor_codec \<Rightarrow> 'd contributor \<Rightarrow> string \<Rightarrow> string \<Rightarrow> history_error + string" where
  "encode_cursor cd row revision fingerprint =
     (case cc_encode cd \<lparr>cu_amount = co_amount row, cu_key = co_key row, cu_revision = revision, cu_fingerprint = fingerprint\<rparr> of
        None \<Rightarrow> Inl HRecord | Some s \<Rightarrow> Inr s)"

definition decode_cursor ::
  "'d cursor_codec \<Rightarrow> string option \<Rightarrow> string \<Rightarrow> string \<Rightarrow> history_error + 'd cost_cursor option" where
  "decode_cursor cd s revision fingerprint =
     (case s of
        None \<Rightarrow> Inr None
      | Some s \<Rightarrow>
          (case cc_decode cd s of
             None \<Rightarrow> Inl HRecord
           | Some c \<Rightarrow>
               if 4096 < length (cu_key c) \<or> cu_revision c \<noteq> revision \<or> cu_fingerprint c \<noteq> fingerprint then Inl HRevision
               else Inr (Some c)))"

end
