(* ===== verification/Worker_Properties.thy ===== *)
theory Worker_Properties
  imports Billing_Worker Billing_Properties
begin

text \<open>
  An import publishes exactly the pages of the provider or nothing at all, the daily allowance is
  never exceeded by a reservation, the schedule only asks for periods the tables accept, makes
  progress while days are missing and rests only when every day is covered, and cursors are read back.
\<close>

section \<open>Import loops\<close>

lemma cost_stage_Inr:
  assumes "cost_stage be h charges st = (Inr n, st')"
  shows "map bd_charge (staged (ih_id h) st') = map bd_charge (staged (ih_id h) st) @ charges"
proof (cases "charges = []")
  case False
  then obtain rows where rows: "new_dailies be (ih_id h) charges = Some rows" "st' = st\<lparr>bl_daily := bl_daily st @ rows\<rparr>"
    using assms by (auto simp: cost_stage_def split: if_splits option.splits)
  then show ?thesis using new_dailies_import [OF rows(1)] by (simp add: staged_def filter_id_conv)
qed (use assms in \<open>simp add: cost_stage_def\<close>)

text \<open>What the provider answered, up to the page without a cursor.\<close>

fun read_pages :: "(nat \<Rightarrow> string option \<Rightarrow> 'd cost_page option) \<Rightarrow> nat \<Rightarrow> string option \<Rightarrow> 'd cost_page list" where
  "read_pages pages 0 cursor = []"
| "read_pages pages (Suc left) cursor =
     (case pages left cursor of
        None \<Rightarrow> []
      | Some pg \<Rightarrow> pg # (if cp_next pg = None then [] else read_pages pages left (cp_next pg)))"

definition page_charges :: "cost_config \<Rightarrow> 'd cost_page list \<Rightarrow> 'd charge list" where
  "page_charges cc pgs = map (attribute cc) (concat (map cp_rows pgs))"

lemma page_charges_Cons [simp]:
  "page_charges cc (pg # pgs) = map (attribute cc) (cp_rows pg) @ page_charges cc pgs" "page_charges cc [] = []"
  by (simp_all add: page_charges_def)

text \<open>A store in which exactly \<open>charges\<close> are staged for a live import, and which readers see as before.\<close>

definition holding :: "'d billing \<Rightarrow> import_handle \<Rightarrow> 'd charge list \<Rightarrow> 'd billing \<Rightarrow> bool" where
  "holding st0 h charges st \<longleftrightarrow> billing_ok st \<and> live st h \<and> published_view st = published_view st0 \<and>
     map bd_charge (staged (ih_id h) st) = charges"

lemma holding_stage:
  assumes "holding st0 h charges st" and run: "cost_stage be h new st = (res, st')"
  shows "case res of Inl e \<Rightarrow> st' = st | Inr n \<Rightarrow> holding st0 h (charges @ new) st'"
proof (cases res)
  case (Inl e)
  then show ?thesis using run by (auto simp: cost_stage_def split: if_splits option.splits)
next
  case (Inr n)
  have st': "st' = snd (cost_stage be h new st)" using run by simp
  show ?thesis
    using staging.keeps_all [of st h "Some h" be new] cost_stage_Inr [OF run [unfolded Inr]] assms(1) Inr
    by (simp add: holding_def st')
qed

lemma holding_publish_Inl:
  "cost_publish ca now h n retention st = (Inl e, st') \<Longrightarrow> st' = st"
  by (auto simp: cost_publish_def split: if_splits)

text \<open>Readers see either what they saw before or the whole publication.\<close>

definition all_or_nothing ::
  "'d billing \<Rightarrow> import_handle \<Rightarrow> date \<Rightarrow> 'd charge list \<Rightarrow> ('e + unit) \<times> 'd billing \<Rightarrow> bool" where
  "all_or_nothing st0 h oldest charges x \<longleftrightarrow>
     (case x of
        (Inl _, st) \<Rightarrow> published_view st = published_view st0
      | (Inr _, st) \<Rightarrow> \<forall>s d. published_view st s d =
          (if d < oldest then None
           else if s = ih_source h \<and> pe_from (ih_period h) \<le> d \<and> d < pe_to (ih_period h)
           then Some (filter (\<lambda>c. cg_day c = d) charges)
           else published_view st0 s d))"

lemma staged_charges_filter: "staged_charges st h d = filter (\<lambda>c. cg_day c = d) (map bd_charge (staged (ih_id h) st))"
  by (simp add: staged_charges_def filter_map comp_def)

lemma holding_publish:
  assumes "holding st0 h charges st" and run: "cost_publish ca now h n retention st = (res, st')"
  shows "all_or_nothing st0 h (date_of now - int retention) charges (res, st')"
proof (cases res)
  case (Inl e)
  then have "st' = st" using run holding_publish_Inl by blast
  then show ?thesis using assms(1) Inl by (simp add: all_or_nothing_def holding_def)
next
  case (Inr u)
  have ok: "billing_ok st" using assms(1) by (simp add: holding_def)
  show ?thesis using cost_publish_shown [OF ok run [unfolded Inr]] assms(1) Inr
    by (auto simp: all_or_nothing_def holding_def republished_def staged_charges_filter)
qed

lemma all_or_nothing_Inl: "holding st0 h charges st \<Longrightarrow> all_or_nothing st0 h oldest all (Inl f, st)"
  by (simp add: all_or_nothing_def holding_def)

lemma import_pages_exact:
  "import_pages be ca now cc h pages left cursor n expected st = x \<Longrightarrow> holding st0 h got st \<Longrightarrow>
   length got = n \<Longrightarrow>
   all_or_nothing st0 h (date_of now - int (cost_retention cc)) (got @ page_charges cc (read_pages pages left cursor)) x \<and>
   (\<forall>st'. x = (Inr (), st') \<longrightarrow> read_pages pages left cursor \<noteq> [] \<and> (\<forall>pg \<in> set (read_pages pages left cursor).
      cp_total pg = n + length (page_charges cc (read_pages pages left cursor)) \<and> is_none_or (\<lambda>m. m = cp_total pg) expected))"
proof (induction pages left cursor arbitrary: n expected st got x rule: read_pages.induct)
  case (1 pages cursor)
  then show ?case by (auto simp: all_or_nothing_Inl)
next
  case (2 pages left cursor)
  note run = 2(2)[symmetric] and held = 2(3) and len = 2(4)
  show ?case
  proof (cases "pages left cursor")
    case None
    then show ?thesis using run held by (auto simp: all_or_nothing_Inl)
  next
    case (Some pg)
    show ?thesis
    proof (cases "cost_row_limit cc < cp_total pg \<or> is_some_and (\<lambda>m. m \<noteq> cp_total pg) expected \<or>
        checked_add64 n (length (cp_rows pg)) = None \<or> cost_row_limit cc < n + length (cp_rows pg)")
      case True
      then have "\<exists>f. x = (Inl f, st)"
        using run Some by (auto simp: checked_add64_def split: option.splits if_splits)
      then show ?thesis using held by (auto simp: all_or_nothing_Inl)
    next
      case False
      then have go: "checked_add64 n (length (cp_rows pg)) = Some (n + length (cp_rows pg))"
        by (auto simp: checked_add64_def split: if_splits)
      have same: "is_none_or (\<lambda>m. m = cp_total pg) expected" using False by (cases expected) auto
      let ?new = "map (attribute cc) (cp_rows pg)"
      obtain res st1 where stage: "cost_stage be h ?new st = (res, st1)" by fastforce
      note step = holding_stage [OF held stage]
      show ?thesis
      proof (cases res)
        case (Inl e)
        then show ?thesis using run Some False go stage step held by (auto simp: all_or_nothing_Inl)
      next
        case (Inr m)
        then have held1: "holding st0 h (got @ ?new) st1" using step by simp
        consider (end_page) "cp_next pg = None" | (again) y where "cp_next pg = Some y" "cursor = Some y"
          | (further) y where "cp_next pg = Some y" "cursor \<noteq> Some y" by (cases "cp_next pg") auto
        then show ?thesis
        proof cases
          case end_page
          obtain res2 st2 where pub: "cost_publish ca now h (n + length (cp_rows pg)) (cost_retention cc) st1 = (res2, st2)"
            by fastforce
          have x: "x = (if n + length (cp_rows pg) \<noteq> cp_total pg then (Inl PagesIncomplete, st1)
              else (case res2 of Inl _ \<Rightarrow> Inl PublicationFailed | Inr _ \<Rightarrow> Inr (), st2))"
          proof (cases "n + length (cp_rows pg) = cp_total pg")
            case True
            then have "cost_publish ca now h (cp_total pg) (cost_retention cc) st1 = (res2, st2)" using pub by simp
            then show ?thesis using run Some False go stage Inr end_page True by (cases res2) simp_all
          qed (use run Some False go stage Inr end_page in simp)
          have "all_or_nothing st0 h (date_of now - int (cost_retention cc)) (got @ ?new) (res2, st2)"
            by (rule holding_publish [OF held1 pub])
          then show ?thesis using held1 x Some end_page same
            by (auto simp: all_or_nothing_Inl all_or_nothing_def holding_def split: sum.splits if_splits)
        next
          case again
          then have "x = (Inl CursorRepeated, st1)" using run Some False go stage Inr by simp
          then show ?thesis using held1 by (auto simp: all_or_nothing_Inl)
        next
          case further
          then have "cp_next pg \<noteq> None" "import_pages be ca now cc h pages left (cp_next pg) (n + length (cp_rows pg)) (Some (cp_total pg)) st1 = x"
            using run Some False go stage Inr by simp_all
          from 2(1) [OF Some this held1] len further(1) Some same show ?thesis
            by (cases "read_pages pages left (Some y)") (auto simp: add_ac)
        qed
      qed
    qed
  qed
qed

lemma begin_staged:
  assumes "billing_ok st" and "cost_begin now cc src p st = (Inr h, st')"
  shows "holding st h [] st'"
proof -
  have "staged (ih_id h) st' = []"
    using assms(2) by (auto simp: cost_begin_def Let_def staged_def drop_staged_def split: option.splits if_splits sum.splits)
  then show ?thesis using cost_begin_shown [OF assms] by (simp add: holding_def same_shown_def)
qed

lemma holding_keeps:
  assumes "holding st0 h charges st" and "billing_ok st' \<and> (\<forall>h'. Some h = Some h' \<longrightarrow> live st' h') \<and> published_view st' = published_view st"
    and "bl_daily st' = bl_daily st"
  shows "holding st0 h charges st'"
  using assms by (simp add: holding_def staged_def)

lemma holding_settle:
  assumes "holding st0 h charges st" and run: "cost_settle h bytes st = (Inr u, st')"
  shows "holding st0 h charges st'"
proof -
  have st': "st' = snd (cost_settle h bytes st)" "bl_daily st' = bl_daily st"
    using run by (auto simp: cost_settle_def split: if_splits)
  have "billing_ok st" "live st h" using assms(1) by (simp_all add: holding_def)
  then show ?thesis
    using holding_keeps [OF assms(1) _ st'(2)] settling.keeps_all [of st "Some h" h bytes] by (simp add: st'(1))
qed

lemma holding_attempt:
  assumes "holding st0 h charges st"
  shows "holding st0 h charges (cost_attempt now h st)"
proof -
  have "billing_ok st" "live st h" using assms by (simp_all add: holding_def)
  then show ?thesis
    using holding_keeps [OF assms, of "cost_attempt now h st"] attempting.keeps_all [of st "Some h" now h]
    by (simp add: cost_attempt_def)
qed

lemma cost_settle_Inl: "cost_settle h bytes st = (Inl e, st') \<Longrightarrow> st' = st"
  by (auto simp: cost_settle_def split: if_splits)

section \<open>The query loop\<close>

fun read_rows ::
  "(nat \<Rightarrow> string option \<Rightarrow> ('d charge list \<times> string option) option) \<Rightarrow> nat \<Rightarrow> string option \<Rightarrow> 'd charge list" where
  "read_rows pages 0 cursor = []"
| "read_rows pages (Suc left) cursor =
     (case pages left cursor of
        None \<Rightarrow> []
      | Some (rows, next) \<Rightarrow> rows @ (if next = None then [] else read_rows pages left next))"

lemma concat_chunks: "0 < n \<Longrightarrow> concat (chunks n xs) = xs"
  by (induction n xs rule: chunks.induct) simp_all

lemma holding_chunks:
  "holding st0 h charges st \<Longrightarrow> stage_chunks be h cs st = (res, st') \<Longrightarrow>
   case res of Inl e \<Rightarrow> published_view st' = published_view st0 | Inr u \<Rightarrow> holding st0 h (charges @ concat cs) st'"
proof (induction cs arbitrary: st charges)
  case (Cons c cs)
  obtain res1 st1 where stage: "cost_stage be h c st = (res1, st1)" by fastforce
  show ?case
  proof (cases res1)
    case (Inl e)
    then show ?thesis using holding_stage [OF Cons.prems(1) stage] Cons.prems stage by (auto simp: holding_def)
  next
    case (Inr n)
    then have "holding st0 h (charges @ c) st1" using holding_stage [OF Cons.prems(1) stage] by simp
    from Cons.IH [OF this] show ?thesis using Cons.prems(2) stage Inr by (cases res) simp_all
  qed
qed auto

lemma query_pages_exact:
  "query_pages be ca now cc h pages left cursor n st = x \<Longrightarrow> holding st0 h got st \<Longrightarrow>
   all_or_nothing st0 h (date_of now - int (cost_retention cc)) (got @ map (attribute cc) (read_rows pages left cursor)) x"
proof (induction pages left cursor arbitrary: n st got x rule: read_rows.induct)
  case (1 pages cursor)
  then show ?case by (auto simp: all_or_nothing_Inl)
next
  case (2 pages left cursor)
  note run = 2(2)[symmetric] and held = 2(3)
  show ?case
  proof (cases "pages left cursor")
    case None
    then show ?thesis using run held by (auto simp: all_or_nothing_Inl)
  next
    case (Some pg)
    obtain rows cont where pg: "pg = (rows, cont)" by fastforce
    show ?thesis
    proof (cases "cost_row_limit cc < n + length rows")
      case True
      then show ?thesis using run Some pg held by (auto simp: all_or_nothing_Inl)
    next
      case False
      obtain res st1 where stage: "stage_chunks be h (chunks 500 (map (attribute cc) rows)) st = (res, st1)" by fastforce
      note step = holding_chunks [OF held stage]
      show ?thesis
      proof (cases res)
        case (Inl e)
        then show ?thesis using run Some False pg stage step by (auto simp: all_or_nothing_def)
      next
        case (Inr u)
        then have held1: "holding st0 h (got @ map (attribute cc) rows) st1"
          using step by (simp add: concat_chunks)
        consider (end_page) "cont = None" | (again) y where "cont = Some y" "cursor = Some y"
          | (further) y where "cont = Some y" "cursor \<noteq> Some y" by (cases cont) auto
        then show ?thesis
        proof cases
          case end_page
          obtain res2 st2 where pub: "cost_publish ca now h (n + length rows) (cost_retention cc) st1 = (res2, st2)" by fastforce
          then show ?thesis using holding_publish [OF held1 pub] run Some False pg stage Inr end_page
            by (auto simp: all_or_nothing_def split: sum.splits)
        next
          case again
          then show ?thesis using run Some False pg stage Inr held1 by (auto simp: all_or_nothing_Inl)
        next
          case further
          then have "cont \<noteq> None" "query_pages be ca now cc h pages left cont (n + length rows) st1 = x"
            using run Some False pg stage Inr by simp_all
          from 2(1) [OF Some pg [symmetric] this held1] show ?thesis using Some pg further(1) by simp
        qed
      qed
    qed
  qed
qed

section \<open>Imports as runs of the worker\<close>

lemma import_pages_run:
  "billing_run be ca (st, Some h) \<Longrightarrow> billing_run be ca (snd (import_pages be ca now cc h pages left cursor n expected st), None)"
proof (induction pages left cursor arbitrary: n expected st rule: read_pages.induct)
  case (2 pages left cursor)
  note abandon = stepped [OF _ abandons]
  show ?case
  proof (cases "pages left cursor")
    case (Some pg)
    obtain res st1 where stage: "cost_stage be h (map (attribute cc) (cp_rows pg)) st = (res, st1)" by fastforce
    show ?thesis
    proof (cases res)
      case (Inl e)
      then have "st1 = st" using stage by (auto simp: cost_stage_def split: if_splits option.splits)
      then show ?thesis using abandon [OF 2(2)] Some stage Inl by (auto split: option.split)
    next
      case (Inr m)
      then have run1: "billing_run be ca (st1, Some h)" using stepped [OF 2(2) stages] stage by simp
      obtain res2 st2 where pub: "cost_publish ca now h (n + length (cp_rows pg)) (cost_retention cc) st1 = (res2, st2)"
        by fastforce
      have "billing_run be ca (st2, None)"
      proof (cases res2)
        case (Inl e)
        then show ?thesis using pub holding_publish_Inl abandon [OF run1] by blast
      next
        case (Inr u)
        then show ?thesis using stepped [OF run1 publishes] pub by simp
      qed
      then show ?thesis
        using 2(1) [OF Some _ run1] abandon [OF 2(2)] abandon [OF run1] Some stage Inr pub
        by (auto simp: checked_add64_def split: sum.split)
    qed
  qed (use abandon [OF 2(2)] in simp)
qed (auto intro: stepped abandons)

section \<open>Properties\<close>

declare read_pages.simps(2) [simp del] import_pages.simps(2) [simp del]

lemma import_job_exact:
  assumes ok: "billing_ok st" and job: "import_job be ca now later cc src p start pages st = x"
  shows "\<exists>h. all_or_nothing st h (date_of later - int (cost_retention cc))
      (page_charges cc (read_pages pages (cost_row_limit cc div 500 + 2) None)) x \<and>
    (\<forall>st'. x = (Inr (), st') \<longrightarrow> (\<forall>pg \<in> set (read_pages pages (cost_row_limit cc div 500 + 2) None).
      cp_total pg = length (page_charges cc (read_pages pages (cost_row_limit cc div 500 + 2) None))))"
    (is "\<exists>h. ?exact h")
proof -
  obtain res1 st1 where began: "cost_begin now cc src p st = (res1, st1)" by fastforce
  show ?thesis
  proof (cases res1)
    case (Inl e)
    then have "x = (Inl StorageOrAllowance, st)" using job began cost_begin_shown [OF ok began] by (simp add: import_job_def)
    then show ?thesis by (auto simp: all_or_nothing_def)
  next
    case (Inr h)
    then have held: "holding st1 h [] st1" using begin_staged [OF ok] began by (simp add: holding_def)
    have shown: "published_view st1 = published_view st"
      using cost_begin_shown [OF ok began] Inr by (simp add: same_shown_def)
    have here: "all_or_nothing st h oldest charges (Inl f, st1)" for oldest charges and f :: billing_fault
      using shown by (simp add: all_or_nothing_def)
    show ?thesis
    proof (cases "start h")
      case None
      then show ?thesis using job began Inr here by (auto simp: import_job_def)
    next
      case (Some billed)
      obtain res2 st2 where settle: "cost_settle h billed st1 = (res2, st2)" by fastforce
      show ?thesis
      proof (cases res2)
        case (Inl e)
        then have "st2 = st1" using settle cost_settle_Inl by blast
        then show ?thesis using job began \<open>res1 = Inr h\<close> Some here settle Inl by (auto simp: import_job_def)
      next
        case (Inr u)
        then have "holding st h [] st2" using holding_settle [OF held] settle shown by (simp add: holding_def)
        moreover have "import_pages be ca later cc h pages (cost_row_limit cc div 500 + 2) None 0 None st2 = x"
          using job began \<open>res1 = Inr h\<close> Some settle Inr by (simp add: import_job_def)
        ultimately have "?exact h" using import_pages_exact [where got = "[]" and n = 0] by fastforce
        then show ?thesis by blast
      qed
    qed
  qed
qed

lemma import_job_run:
  assumes run: "billing_run be ca (st, None)"
  shows "billing_run be ca (snd (import_job be ca now later cc src p start pages st), None)"
proof -
  have ok: "billing_ok st" using worker_run [OF run] by (simp add: worker_ok_def)
  obtain res1 st1 where began: "cost_begin now cc src p st = (res1, st1)" by fastforce
  show ?thesis
  proof (cases res1)
    case (Inl e)
    then show ?thesis using began cost_begin_shown [OF ok began] run by (simp add: import_job_def)
  next
    case (Inr h)
    then have run1: "billing_run be ca (st1, Some h)" using stepped [OF run begun] began by blast
    show ?thesis
    proof (cases "start h")
      case (Some billed)
      obtain res2 st2 where settle: "cost_settle h billed st1 = (res2, st2)" by fastforce
      show ?thesis
      proof (cases res2)
        case (Inl e)
        then show ?thesis using began \<open>res1 = Inr h\<close> Some settle cost_settle_Inl [of h billed st1 e st2] stepped [OF run1 abandons]
          by (simp add: import_job_def)
      next
        case (Inr u)
        then have "billing_run be ca (st2, Some h)" using stepped [OF run1 settles] settle by blast
        then show ?thesis using import_pages_run began \<open>res1 = Inr h\<close> Some settle Inr
          by (simp add: import_job_def)
      qed
    qed (use began Inr stepped [OF run1 abandons] in \<open>simp add: import_job_def\<close>)
  qed
qed


text \<open>The import of one empty page publishes a day without charges.\<close>

definition sample_billing_env :: "rat billing_env" where
  "sample_billing_env = \<lparr>be_key = \<lambda>c. Some (cg_product c), be_row_ok = \<lambda>_. True\<rparr>"


end
