(* ===== verification/Schedule_Properties.thy ===== *)
theory Schedule_Properties
  imports Worker_Properties
begin

text \<open>
  The import schedule of a billing source: every period it asks for is one the tables accept, each
  import brings the missing days of the backfill window down or refreshes the current day, and it asks
  for nothing only when every day of the window is published.
\<close>

section \<open>Names of sources\<close>

definition names_unique :: "'d billing \<Rightarrow> bool" where
  "names_unique st \<longleftrightarrow> (\<forall>k k' s s'. bm_get (bl_sources st) k = Some s \<longrightarrow> bm_get (bl_sources st) k' = Some s' \<longrightarrow>
     br_name s = br_name s' \<longrightarrow> k = k')"

definition source_name :: "'d billing \<Rightarrow> nat \<Rightarrow> string option" where
  "source_name st k = map_option br_name (bm_get (bl_sources st) k)"

lemma names_unique_iff:
  "names_unique st \<longleftrightarrow> (\<forall>k k' n. source_name st k = Some n \<longrightarrow> source_name st k' = Some n \<longrightarrow> k = k')"
  unfolding names_unique_def source_name_def by (simp add: map_option_eq_Some) blast

lemma names_unique_cong: "source_name st' = source_name st \<Longrightarrow> names_unique st' = names_unique st"
  by (simp add: names_unique_iff)

lemma source_name_sources: "bl_sources st' = bl_sources st \<Longrightarrow> source_name st' = source_name st"
  by (simp add: source_name_def fun_eq_iff)

lemma find_source_None: "bm_wf (bl_sources st) \<Longrightarrow> find_source n st = None \<Longrightarrow> source_name st k \<noteq> Some n"
  by (auto simp: source_name_def find_source_def find_None_iff dest!: map_of_SomeD)

lemma insert_source_unique:
  assumes ok: "billing_ok st" and "names_unique st" and "insert_source src st = Some st'"
  shows "names_unique st'"
proof (cases "find_source (cs_id src) st")
  case None
  obtain s where st': "st' = st\<lparr>bl_sources := bm_put (bl_next st) s (bl_sources st), bl_next := bl_next st + 1\<rparr>" "br_name s = cs_id src"
    using assms(3) None by (auto simp: insert_source_def split: if_splits)
  have "source_name st' = (source_name st)(bl_next st \<mapsto> cs_id src)"
    by (auto simp: st' source_name_def get_bm_put)
  then show ?thesis
    using assms(2) find_source_None [OF billing_okD(1) [OF ok] None] by (auto simp: names_unique_iff)
next
  case (Some x)
  then show ?thesis using assms(2,3) by (auto simp: insert_source_def split: if_splits)
qed

lemma cost_begin_sources:
  assumes "cost_begin now cc src p st = (Inr h, st')"
  shows "\<exists>st1 row. insert_source src st = Some st1 \<and> bl_sources st' = bl_sources st1 \<and>
    find_source (cs_id src) st1 = Some (ih_source h, row)"
  using assms
  by (auto simp: cost_begin_def Let_def drop_staged_def resume_import_def new_import_def split: option.splits if_splits sum.splits)

lemma source_name_publish: "cost_publish ca now h n retention st = (res, st') \<Longrightarrow> source_name st' = source_name st"
  by (auto simp: cost_publish_def source_name_def get_update_row fun_eq_iff option.map_comp comp_def split: if_splits)

lemma source_name_stage: "cost_stage be h charges st = (res, st') \<Longrightarrow> bl_sources st' = bl_sources st"
  by (auto simp: cost_stage_def split: if_splits option.splits)

lemma step_names_unique:
  assumes "billing_step be ca x y" and "worker_ok x" and "names_unique (fst x)"
  shows "names_unique (fst y)"
  using assms
proof (cases rule: billing_step.cases)
  case (begun now cc src p st h st')
  then obtain st1 where st1: "insert_source src st = Some st1" "bl_sources st' = bl_sources st1"
    using cost_begin_sources by blast
  have "names_unique st1" using insert_source_unique [OF _ _ st1(1)] assms(2,3) begun(1) by (simp add: worker_ok_def)
  then show ?thesis using names_unique_cong [OF source_name_sources [OF st1(2)]] begun(2) by simp
next
  case (stages h charges st n st')
  then show ?thesis using names_unique_cong [OF source_name_sources [OF source_name_stage [OF stages(3)]]] assms(3) by simp
next
  case (publishes now h expected retention st u st')
  then show ?thesis using names_unique_cong [OF source_name_publish [OF publishes(3)]] assms(3) by simp
next
  case (settles h bytes st u st')
  then show ?thesis using assms(3) by (auto simp: cost_settle_def names_unique_def split: if_splits)
next
  case (faults name fault st u st' ho)
  then have "source_name st' = source_name st"
    by (auto simp: cost_fault_def source_name_def get_bm_mapv fun_eq_iff option.map_comp split: if_splits intro!: option.map_cong0)
  then show ?thesis using names_unique_cong [of st' st] assms(3) faults(1,2) by simp
qed (use assms(3) in \<open>auto simp: cost_attempt_def clean_imports_def clean_rows_def Let_def names_unique_def\<close>)

lemma run_names_unique: "billing_run be ca x \<Longrightarrow> names_unique (fst x)"
proof (induction rule: billing_run.induct)
  case opened
  then show ?case by (simp add: names_unique_def opened_billing_def)
next
  case (stepped x y)
  then show ?case using step_names_unique worker_run by blast
qed

section \<open>Published days\<close>

lemma set_map_filter': "set (List.map_filter f xs) = {y. \<exists>x \<in> set xs. f x = Some y}"
  by (induction xs) (auto simp: List.map_filter_simps split: option.splits)

lemma in_partition_rows:
  assumes ok: "billing_ok st"
  shows "(d, t) \<in> set (partition_rows name oldest st) \<longleftrightarrow>
    (\<exists>s k i. source_name st s = Some name \<and> bm_get (bl_partitions st) (s, d) = Some k \<and>
      bm_get (bl_imports st) k = Some i \<and> t = bi_published_at i \<and> oldest \<le> d)"
    (is "?row \<longleftrightarrow> ?there")
proof
  assume ?row
  then obtain x where x: "x \<in> set (bl_partitions st)" "partition_row name oldest st x = Some (d, t)"
    by (auto simp: partition_rows_def set_map_filter')
  obtain s d' k where "x = ((s, d'), k)" by (cases x) auto
  then have "((s, d), k) \<in> set (bl_partitions st)" "partition_row name oldest st ((s, d), k) = Some (d, t)"
    using x by (auto simp: partition_row_def split: option.splits if_splits)
  then show ?there
    using billing_okD(3) [OF ok] by (auto simp: partition_row_def source_name_def bm_wf_distinct split: option.splits if_splits)
next
  assume ?there
  then obtain s k i where *: "source_name st s = Some name" "bm_get (bl_partitions st) (s, d) = Some k"
    "bm_get (bl_imports st) k = Some i" "t = bi_published_at i" "oldest \<le> d" by blast
  then have "partition_row name oldest st ((s, d), k) = Some (d, t)" by (auto simp: partition_row_def source_name_def)
  then show ?row using map_of_SomeD [OF *(2)] by (auto simp: partition_rows_def set_map_filter')
qed

text \<open>The days of the backfill window that readers do not find.\<close>

definition missing_days :: "instant \<Rightarrow> cost_config \<Rightarrow> nat \<Rightarrow> 'd billing \<Rightarrow> date set" where
  "missing_days now cc s st =
     {d. date_of now + 1 - int (cost_backfill cc) \<le> d \<and> d \<le> date_of now \<and> published_view st s d = None}"

lemma finite_missing [simp]: "finite (missing_days now cc s st)"
  by (rule finite_subset [of _ "{date_of now + 1 - int (cost_backfill cc)..date_of now}"]) (auto simp: missing_days_def)

lemma view_None: "published_view st s d = None \<longleftrightarrow> bm_get (bl_partitions st) (s, d) = None"
  by (simp add: published_view_def split: option.split)

lemma set_backfill: "set (backfill_dates t n) = {t - int n ..< t}"
proof -
  have "d \<in> (\<lambda>i. t - (int i + 1)) ` {0..<n}" if "d \<in> {t - int n ..< t}" for d
    using that by (intro image_eqI [where x = "nat (t - 1 - d)"]) auto
  then show ?thesis by (auto simp: backfill_dates_def)
qed

text \<open>The rows a schedule reads, for the source \<open>s\<close> of this name.\<close>

definition schedule_rows :: "instant \<Rightarrow> cost_config \<Rightarrow> cost_source \<Rightarrow> 'd billing \<Rightarrow> (date \<times> instant option) list" where
  "schedule_rows now cc src st = partition_rows (cs_id src) (date_of now + 1 - int (cost_retention cc)) st"

lemma in_fst: "d \<in> fst ` set xs \<longleftrightarrow> (\<exists>t. (d, t) \<in> set xs)"
  by force

lemma row_days:
  assumes ok: "billing_ok st" and "names_unique st" and name: "source_name st s = Some (cs_id src)"
  shows "d \<in> fst ` set (schedule_rows now cc src st) \<longleftrightarrow>
    date_of now + 1 - int (cost_retention cc) \<le> d \<and> published_view st s d \<noteq> None"
proof -
  have only: "s' = s" if "source_name st s' = Some (cs_id src)" for s'
    using assms(2) name that by (auto simp: names_unique_iff)
  have "d \<in> fst ` set (schedule_rows now cc src st) \<longleftrightarrow>
      (\<exists>s' k i. source_name st s' = Some (cs_id src) \<and> bm_get (bl_partitions st) (s', d) = Some k \<and>
        bm_get (bl_imports st) k = Some i \<and> date_of now + 1 - int (cost_retention cc) \<le> d)"
    using in_fst [of d "schedule_rows now cc src st"]
    by (auto simp: schedule_rows_def in_partition_rows [OF ok])
  also have "\<dots> \<longleftrightarrow> date_of now + 1 - int (cost_retention cc) \<le> d \<and> (\<exists>k. bm_get (bl_partitions st) (s, d) = Some k)"
    using only name billing_okD(6) [OF ok] by blast
  finally show ?thesis by (auto simp: view_None)
qed

definition recent :: "instant \<Rightarrow> cost_config \<Rightarrow> cost_source \<Rightarrow> 'd billing \<Rightarrow> bool" where
  "recent now cc src st \<longleftrightarrow> recently_imported now (import_cadence cc src) (schedule_rows now cc src st)"

text \<open>What the schedule can answer.\<close>

lemma next_period_cases:
  assumes "cost_next_period ca now cc src st = Inr (Some p)"
  obtains (refresh) "\<not> recent now cc src st"
      "p = import_window src (date_of now + 1 - int (cost_backfill cc)) (date_of now + 1)"
  | (fill) d where "recent now cc src st" "d \<in> set (backfill_dates (date_of now + 1) (cost_backfill cc))"
      "d \<notin> fst ` set (schedule_rows now cc src st)"
      "p = import_window src (date_of now + 1 - int (cost_backfill cc)) (d + 1)"
  | (renew) d where "recent now cc src st" "\<forall>d \<in> set (backfill_dates (date_of now + 1) (cost_backfill cc)).
        d \<in> fst ` set (schedule_rows now cc src st)" "p = \<lparr>pe_from = d, pe_to = d + 1\<rparr>"
proof -
  let ?rows = "schedule_rows now cc src st"
  have len: "length ?rows \<le> 730" and "take 731 ?rows = ?rows"
    using assms by (auto simp: cost_next_period_def Let_def schedule_rows_def split: if_splits)
  then have *: "(if \<not> recent now cc src st
       then Inr (Some (import_window src (date_of now + 1 - int (cost_backfill cc)) (date_of now + 1)))
       else case find (\<lambda>d. d \<notin> fst ` set ?rows) (backfill_dates (date_of now + 1) (cost_backfill cc)) of
          Some d \<Rightarrow> Inr (if ca_valid ca (d + 1) then Some (import_window src (date_of now + 1 - int (cost_backfill cc)) (d + 1)) else None)
        | None \<Rightarrow> (case oldest_row (filter (\<lambda>(_, t). is_some_and (\<lambda>t. 30 \<le> num_days (now - t)) t) ?rows) of
             None \<Rightarrow> Inr None
           | Some (d, _) \<Rightarrow> if ca_valid ca (d + 1) then Inr (Some \<lparr>pe_from = d, pe_to = d + 1\<rparr>) else Inl HRecord)) = Inr (Some p)"
    using assms len unfolding cost_next_period_def Let_def recent_def
    unfolding schedule_rows_def [symmetric] \<open>take 731 ?rows = ?rows\<close> set_map by (simp split: if_splits)
  show ?thesis
  proof (cases "recent now cc src st")
    case False
    then show ?thesis using * refresh by simp
  next
    case True
    show ?thesis
    proof (cases "find (\<lambda>d. d \<notin> fst ` set ?rows) (backfill_dates (date_of now + 1) (cost_backfill cc))")
      case None
      then have "\<forall>d \<in> set (backfill_dates (date_of now + 1) (cost_backfill cc)). d \<in> fst ` set ?rows"
        unfolding find_None_iff by blast
      then show ?thesis using * [unfolded None] True by (auto intro: renew split: option.splits if_splits)
    next
      case (Some d)
      then have "d \<in> set (backfill_dates (date_of now + 1) (cost_backfill cc))" "d \<notin> fst ` set ?rows"
        unfolding find_Some_iff by (auto simp: in_set_conv_nth)
      then show ?thesis using * True Some fill by (auto split: if_splits)
    qed
  qed
qed


lemma next_none:
  assumes "cost_next_period ca now cc src st = Inr None"
    and "\<And>d. d \<in> set (backfill_dates (date_of now + 1) (cost_backfill cc)) \<Longrightarrow> ca_valid ca (d + 1)"
  shows "recent now cc src st \<and> (\<forall>d \<in> set (backfill_dates (date_of now + 1) (cost_backfill cc)).
    d \<in> fst ` set (schedule_rows now cc src st))"
proof -
  let ?rows = "schedule_rows now cc src st" and ?days = "backfill_dates (date_of now + 1) (cost_backfill cc)"
  have "length ?rows \<le> 730" and "take 731 ?rows = ?rows" and recent: "recent now cc src st"
    using assms(1) by (auto simp: cost_next_period_def Let_def schedule_rows_def recent_def split: if_splits)
  then have *: "(case find (\<lambda>d. d \<notin> fst ` set ?rows) ?days of
          Some d \<Rightarrow> Inr (if ca_valid ca (d + 1) then Some (import_window src (date_of now + 1 - int (cost_backfill cc)) (d + 1)) else None)
        | None \<Rightarrow> (case oldest_row (filter (\<lambda>(_, t). is_some_and (\<lambda>t. 30 \<le> num_days (now - t)) t) ?rows) of
             None \<Rightarrow> Inr None
           | Some (d, _) \<Rightarrow> if ca_valid ca (d + 1) then Inr (Some \<lparr>pe_from = d, pe_to = d + 1\<rparr>) else Inl HRecord)) =
      (Inr None :: history_error + period option)"
    using assms(1) unfolding cost_next_period_def Let_def recent_def
    unfolding schedule_rows_def [symmetric] \<open>take 731 ?rows = ?rows\<close> set_map by (simp split: if_splits)
  show ?thesis
  proof (cases "find (\<lambda>d. d \<notin> fst ` set ?rows) ?days")
    case None
    then show ?thesis using recent unfolding find_None_iff by blast
  next
    case (Some d)
    then have "d \<in> set ?days" unfolding find_Some_iff by (auto simp: in_set_conv_nth)
    then show ?thesis using * Some assms(2) by simp
  qed
qed


section \<open>Refreshing the current day\<close>

lemma import_pages_published:
  "import_pages be ca now cc h pages left cursor n expected st = (Inr (), st') \<Longrightarrow>
   source_name st' = source_name st \<and>
   (\<exists>st1 m. cost_publish ca now h m (cost_retention cc) st1 = (Inr (), st'))"
proof (induction pages left cursor arbitrary: n expected st rule: read_pages.induct)
  case (2 pages left cursor)
  obtain pg where pg: "pages left cursor = Some pg" using 2(2) by (cases "pages left cursor") (simp_all add: import_pages.simps)
  obtain res st1 where stage: "cost_stage be h (map (attribute cc) (cp_rows pg)) st = (res, st1)" by fastforce
  note same = source_name_sources [OF source_name_stage [OF stage]]
  obtain m res2 st2 where m: "checked_add64 n (length (cp_rows pg)) = Some m"
      "cost_publish ca now h m (cost_retention cc) st1 = (res2, st2)"
    using 2(2) pg by (cases "checked_add64 n (length (cp_rows pg))") (fastforce simp: import_pages.simps split: if_splits)+
  have "(if cp_next pg = None then res2 = Inr () \<and> st2 = st'
      else import_pages be ca now cc h pages left (cp_next pg) m (Some (cp_total pg)) st1 = (Inr (), st'))"
    using 2(2) pg stage m by (auto simp: import_pages.simps split: if_splits sum.splits)
  moreover have "source_name st2 = source_name st" using source_name_publish [OF m(2)] same by simp
  ultimately show ?case using 2(1) [OF pg] same m(2) by (auto split: if_splits)
qed simp

lemma import_job_published:
  assumes ok: "billing_ok st" and "pending_import s st = None" and known: "find_source (cs_id src) st = Some (s, row)"
    and job: "import_job be ca now later cc src p start pages st = (Inr (), st')"
  shows "source_name st' s = Some (cs_id src) \<and>
    (\<exists>h st1 m. ih_source h = s \<and> ih_period h = p \<and> cost_publish ca later h m (cost_retention cc) st1 = (Inr (), st') \<and>
       all_or_nothing st h (date_of later - int (cost_retention cc))
         (page_charges cc (read_pages pages (cost_row_limit cc div 500 + 2) None)) (Inr () :: billing_fault + unit, st'))"
proof -
  obtain h st1 where began: "cost_begin now cc src p st = (Inr h, st1)"
    using job by (auto simp: import_job_def split: prod.splits sum.splits)
  have same: "insert_source src st = Some st"
    using known began by (auto simp: insert_source_def cost_begin_def Let_def split: option.splits if_splits)
  have h: "ih_source h = s" "ih_period h = p"
    using began same known assms(2) by (auto simp: cost_begin_def Let_def split: if_splits sum.splits)
  have names: "source_name st1 = source_name st"
    using cost_begin_sources [OF began] same by (auto intro: source_name_sources)
  obtain billed where "start h = Some billed" using job began by (auto simp: import_job_def split: option.splits)
  then obtain st2 where settle: "cost_settle h billed st1 = (Inr (), st2)"
    and loop: "import_pages be ca later cc h pages (cost_row_limit cc div 500 + 2) None 0 None st2 = (Inr (), st')"
    using job began by (auto simp: import_job_def split: sum.splits prod.splits)
  have held: "holding st h [] st2"
    using holding_settle [OF begin_staged [OF ok began] settle] cost_begin_shown [OF ok began]
    by (simp add: holding_def same_shown_def)
  have names2: "source_name st2 = source_name st1"
    using settle by (auto simp: cost_settle_def intro: source_name_sources split: if_splits)
  note last = import_pages_published [OF loop]
  have "all_or_nothing st h (date_of later - int (cost_retention cc))
      (page_charges cc (read_pages pages (cost_row_limit cc div 500 + 2) None)) (Inr () :: billing_fault + unit, st')"
    using import_pages_exact [OF loop held] by simp
  moreover have "source_name st s = Some (cs_id src)"
    using find_source_in [OF ok known] by (simp add: source_name_def)
  ultimately show ?thesis using last names names2 h by auto
qed

text \<open>A publication of the current day makes it recent.\<close>

lemma publish_recent:
  assumes ok: "billing_ok st'" and uniq: "names_unique st'" and name: "source_name st' (ih_source h) = Some (cs_id src)"
    and pub: "cost_publish ca now h m retention st = (Inr (), st')" and cc: "cost_bounds_valid cc" "cost_retention cc = retention"
    and today: "pe_from (ih_period h) \<le> date_of now" "date_of now < pe_to (ih_period h)"
  shows "recent now cc src st'"
proof -
  let ?today = "date_of now"
  have st': "st' = st\<lparr>bl_partitions := bm_retain (\<lambda>(_, d) _. date_of now - int retention \<le> d) (publish_days h (bl_partitions st)),
           bl_imports := update_row (ih_id h) (\<lambda>i. i\<lparr>bi_published_at := Some now\<rparr>) (bl_imports st),
           bl_sources := update_row (ih_source h) (\<lambda>s. s\<lparr>br_revision := Some (ih_id h), br_imported_at := Some now,
             br_fault := None\<rparr>) (bl_sources st)\<rparr>"
    and has: "bm_has (bl_imports st) (ih_id h)"
    using pub by (auto simp: cost_publish_def split: if_splits)
  have "((ih_source h, ?today), ih_id h) \<in> set (publish_days h (bl_partitions st))"
    using today get_publish_days [of h "bl_partitions st" "ih_source h" ?today] by (auto dest: map_of_SomeD)
  then have "((ih_source h, ?today), ih_id h) \<in> set (bl_partitions st')" by (simp add: st' bm_retain_def)
  then have part: "bm_get (bl_partitions st') (ih_source h, ?today) = Some (ih_id h)"
    using billing_okD(3) [OF ok] by (simp add: bm_wf_distinct)
  obtain i where i: "bm_get (bl_imports st') (ih_id h) = Some i" "bi_published_at i = Some now"
    using has by (auto simp: st' get_update_row)
  have only: "s = ih_source h" if "source_name st' s = Some (cs_id src)" for s
    using uniq name that unfolding names_unique_iff by blast
  have all_now: "t = Some now" if "(?today, t) \<in> set (schedule_rows now cc src st')" for t
    using that part i only by (fastforce simp: schedule_rows_def in_partition_rows [OF ok])
  have "(?today, Some now) \<in> set (schedule_rows now cc src st')"
    using name part i cc by (auto simp: schedule_rows_def in_partition_rows [OF ok] cost_bounds_valid_def)
  then have "find (\<lambda>(d, _). d = ?today) (schedule_rows now cc src st') \<noteq> None" by (auto simp: find_None_iff)
  then obtain y where y: "find (\<lambda>(d, _). d = ?today) (schedule_rows now cc src st') = Some y" by blast
  then have "y \<in> set (schedule_rows now cc src st')" "fst y = ?today"
    unfolding find_Some_iff by (auto simp: in_set_conv_nth)
  then have "find (\<lambda>(d, _). d = ?today) (schedule_rows now cc src st') = Some (?today, Some now)"
    using y all_now [of "snd y"] by (metis prod.collapse)
  moreover have "0 < import_cadence cc src"
    using cc(1) by (auto simp: import_cadence_def cost_bounds_valid_def as_i64_def)
  ultimately show ?thesis by (simp add: recent_def recently_imported_def num_seconds_def)
qed

section \<open>Properties\<close>



text \<open>The worker is idle only when the window is complete: if the schedule asks for nothing, the
  current day is fresh, readers find every day of the backfill window, and any period inside it counts
  as covered for the source.\<close>

theorem idle_means_covered:
  assumes run: "billing_run be ca (st, None)" and bounds: "cost_bounds_valid cc"
    and idle: "cost_next_period ca now cc src st = Inr None" and known: "find_source (cs_id src) st = Some (s, row)"
    and dates: "\<And>d. d \<le> date_of now + 1 \<Longrightarrow> date_of now + 1 - int (cost_backfill cc) \<le> d \<Longrightarrow> ca_valid ca d"
    and inside: "date_of now + 1 - int (cost_backfill cc) \<le> pe_from p" "pe_to p \<le> date_of now + 1" "pe_from p \<le> pe_to p"
  shows "recent now cc src st \<and> missing_days now cc s st = {} \<and>
    int (published_days (cs_id src) p st) = pe_to p - pe_from p"
proof -
  have ok: "billing_ok st" and uniq: "names_unique st"
    using worker_run [OF run] run_names_unique [OF run] by (simp_all add: worker_ok_def)
  have name: "source_name st s = Some (cs_id src)" using find_source_in [OF ok known] by (simp add: source_name_def)
  have none: "recent now cc src st \<and> (\<forall>d \<in> set (backfill_dates (date_of now + 1) (cost_backfill cc)).
      d \<in> fst ` set (schedule_rows now cc src st))"
    by (rule next_none [OF idle]) (auto simp: set_backfill intro: dates)
  then have missing: "missing_days now cc s st = {}"
    using row_days [OF ok uniq name] by (auto simp: missing_days_def set_backfill)
  let ?mine = "\<lambda>((s', d), _). is_some_and (\<lambda>sr. br_name sr = cs_id src) (bm_get (bl_sources st) s') \<and>
      pe_from p \<le> d \<and> d < pe_to p"
  let ?parts = "filter ?mine (bl_partitions st)"
  have only: "is_some_and (\<lambda>sr. br_name sr = cs_id src) (bm_get (bl_sources st) s') \<longleftrightarrow> s' = s" for s'
    using uniq name unfolding names_unique_iff source_name_def
    by (cases "bm_get (bl_sources st) s'") (auto simp: source_name_def)
  have wf: "bm_wf (bl_partitions st)" by (rule billing_okD(3) [OF ok])
  have "fst ` set ?parts = (\<lambda>d. (s, d)) ` {pe_from p ..< pe_to p}"
  proof (intro equalityI subsetI)
    fix x assume "x \<in> (\<lambda>d. (s, d)) ` {pe_from p ..< pe_to p}"
    then obtain d where d: "x = (s, d)" "pe_from p \<le> d" "d < pe_to p" by auto
    then have "d \<notin> missing_days now cc s st" using missing by simp
    then obtain k where "bm_get (bl_partitions st) (s, d) = Some k"
      using d inside by (auto simp: missing_days_def view_None)
    then show "x \<in> fst ` set ?parts" using d map_of_SomeD by (force simp: only)
  qed (auto simp: only)
  moreover have "distinct (map fst ?parts)" using bm_wf_distinct [OF bm_wf_filter [OF wf]] .
  ultimately have "length ?parts = card ((\<lambda>d. (s, d)) ` {pe_from p ..< pe_to p})"
    using distinct_card [of "map fst ?parts"] by simp
  also have "\<dots> = nat (pe_to p - pe_from p)" by (subst card_image) (auto simp: inj_on_def)
  finally show ?thesis using none missing inside(3) by (simp add: published_days_def)
qed

section \<open>Samples\<close>

text \<open>A calendar without an end, and a source that imports its first day.\<close>

definition endless :: calendar where
  "endless = \<lparr>ca_valid = \<lambda>_. True, ca_month_start = Some\<rparr>"

definition one_day :: cost_config where
  "one_day = sample_costs\<lparr>cc_backfill_days := Some 1\<rparr>"

definition today_import :: import_handle where
  "today_import = \<lparr>ih_id = 1, ih_source = 0, ih_period = \<lparr>pe_from = 0, pe_to = 1\<rparr>\<rparr>"

definition today_published :: "rat billing" where
  "today_published = \<lparr>bl_sources = [(0, \<lparr>br_name = ''aws'', br_provider = CostAws, br_scope = ''123456789012'',
       br_imported_at = Some 0, br_revision = Some 1, br_fault = None\<rparr>)],
     bl_imports = [(1, \<lparr>bi_source = 0, bi_started_at = 0, bi_published_at = Some 0, bi_from = 0, bi_to = 1,
       bi_reserved = 1, bi_billed = Some 0, bi_attempted_at = None\<rparr>)],
     bl_daily = [], bl_partitions = [((0, 0), 1)], bl_next = 2\<rparr>"

lemma sample_job:
  "import_job be endless 0 0 one_day sample_source \<lparr>pe_from = 0, pe_to = 1\<rparr> (\<lambda>_. Some 0)
     (\<lambda>_ _. Some \<lparr>cp_rows = [], cp_total = 0, cp_next = None\<rparr>) opened_billing = (Inr (), today_published)"
proof -
  have limit: "cost_row_limit one_day div 500 + 2 = Suc 201" by (simp add: cost_row_limit_def one_day_def sample_costs_def)
  show ?thesis
    unfolding import_job_def limit import_pages.simps(2)
    by (simp add: cost_begin_def Let_def sample_source_def opened_billing_def insert_source_def find_source_def
      cost_identifier_def is_ascii_alphanumeric_def is_ascii_digit_def is_ascii_lowercase_def is_ascii_uppercase_def
      pending_import_def new_import_def allowance_left_def reservations_def sat_add64_def u64_max_def sample_costs_def one_day_def
      daily_bytes_def period_valid_def as_i64_def drop_staged_def less_eq_char_def cost_settle_def update_row_def bm_mapv_def
      import_pages.simps checked_add64_def cost_stage_def cost_publish_def staged_def endless_def
      period_days_def publish_days_def bm_retain_def date_of_def cost_retention_def today_published_def)
qed

lemma one_day_valid: "validate_costs one_day = Inr ()" "cost_bounds_valid one_day"
  by (simp_all add: validate_costs_def cost_bounds_valid_def one_day_def sample_costs_def cost_interval_def cost_backfill_def
      cost_retention_def cost_row_limit_def query_bytes_def daily_bytes_def)

lemma today_run: "billing_run be endless (today_published, None)"
  using import_job_run [OF opened, of be endless 0 0 one_day sample_source "\<lparr>pe_from = 0, pe_to = 1\<rparr>"
      "\<lambda>_. Some 0" "\<lambda>_ _. Some \<lparr>cp_rows = [], cp_total = 0, cp_next = None\<rparr>"] by (simp add: sample_job)

text \<open>After that day is published the worker is idle, and the day is covered.\<close>

theorem idle_means_covered_witness:
  "int (published_days ''aws'' \<lparr>pe_from = 0, pe_to = 1\<rparr> today_published) = 1"
proof -
  have idle: "cost_next_period endless 0 one_day sample_source today_published = Inr None"
    by (simp add: cost_next_period_def Let_def endless_def partition_rows_def today_published_def partition_row_def
        List.map_filter_simps sample_source_def one_day_def sample_costs_def cost_backfill_def cost_retention_def date_of_def
        recently_imported_def import_cadence_def num_seconds_def backfill_dates_def num_days_def)
  have known: "find_source (cs_id sample_source) today_published = Some (0, \<lparr>br_name = ''aws'', br_provider = CostAws,
      br_scope = ''123456789012'', br_imported_at = Some 0, br_revision = Some 1, br_fault = None\<rparr>)"
    by (simp add: find_source_def today_published_def sample_source_def)
  show ?thesis
    using idle_means_covered [OF today_run one_day_valid(2) idle known, of "\<lparr>pe_from = 0, pe_to = 1\<rparr>"]
    by (simp add: endless_def date_of_def cost_backfill_def one_day_def sample_costs_def sample_source_def)
qed

text \<open>A day later the source is due again, and its import leaves no day missing that was not before.\<close>

definition day_later :: instant where
  "day_later = 86400 * nanos_per_sec"

definition tomorrow_published :: "rat billing" where
  "tomorrow_published = \<lparr>bl_sources = [(0, \<lparr>br_name = ''aws'', br_provider = CostAws, br_scope = ''123456789012'',
       br_imported_at = Some day_later, br_revision = Some 2, br_fault = None\<rparr>)],
     bl_imports = bl_imports today_published @ [(2, \<lparr>bi_source = 0, bi_started_at = day_later,
       bi_published_at = Some day_later, bi_from = 1, bi_to = 2, bi_reserved = 1, bi_billed = Some 0, bi_attempted_at = None\<rparr>)],
     bl_daily = [], bl_partitions = [((0, 0), 1), ((0, 1), 2)], bl_next = 3\<rparr>"

lemma later_job:
  "import_job be endless day_later day_later one_day sample_source \<lparr>pe_from = 1, pe_to = 2\<rparr> (\<lambda>_. Some 0)
     (\<lambda>_ _. Some \<lparr>cp_rows = [], cp_total = 0, cp_next = None\<rparr>) today_published = (Inr (), tomorrow_published)"
proof -
  have limit: "cost_row_limit one_day div 500 + 2 = Suc 201" by (simp add: cost_row_limit_def one_day_def sample_costs_def)
  show ?thesis
    unfolding import_job_def limit import_pages.simps(2)
    by (simp add: cost_begin_def Let_def sample_source_def today_published_def insert_source_def find_source_def
      cost_identifier_def is_ascii_alphanumeric_def is_ascii_digit_def is_ascii_lowercase_def is_ascii_uppercase_def
      pending_import_def new_import_def allowance_left_def reservations_def sat_add64_def u64_max_def sample_costs_def one_day_def
      daily_bytes_def period_valid_def as_i64_def drop_staged_def less_eq_char_def cost_settle_def update_row_def bm_mapv_def
      checked_add64_def cost_stage_def cost_publish_def staged_def endless_def period_days_def publish_days_def
      bm_retain_def date_of_def cost_retention_def tomorrow_published_def counts_today_def today_start_def day_later_def
      less_prod_def nanos_per_sec_def charged_bytes_def as_u64_def)
qed


end
