(* ===== verification/Cost_View.thy ===== *)
theory Cost_View
  imports Billing_Worker
begin

text \<open>
  Billing views: \<open>cost_read.rs\<close>, \<open>cost_response.rs\<close>, \<open>cost_sql.rs\<close> of \<open>crates/history\<close> and
  \<open>server/src/cost_api.rs\<close>. A view reads the store with several statements, so the model takes a
  store for each of them. \<open>SUM\<close>, \<open>GROUP BY\<close>, \<open>HAVING\<close>, \<open>ORDER BY\<close> and \<open>LIMIT\<close> are list functions; the
  collation of the database, \<open>ILIKE\<close>, JSON text and SHA-256 are arguments.
\<close>

section \<open>Rows\<close>

record 'd view_env =
  ve_decimals :: "'d decimal_api"
  ve_before :: "string \<Rightarrow> string \<Rightarrow> bool"
  ve_ilike :: "string \<Rightarrow> string \<Rightarrow> bool"
  ve_json_sources :: "source_status list \<Rightarrow> string option"
  ve_json_filter :: "cost_filter \<Rightarrow> string option"
  ve_digest :: "string \<Rightarrow> string"
  ve_show_id :: "nat \<Rightarrow> string"
  ve_codec :: "'d cursor_codec"

type_synonym 'd cost_row = "source_row \<times> 'd charge"

text \<open>The join of daily rows, partitions and sources.\<close>

definition row_source :: "'d billing \<Rightarrow> 'd daily_row \<Rightarrow> (nat \<times> date) \<times> nat \<Rightarrow> 'd cost_row option" where
  "row_source st r x =
     (case x of ((s, d), k) \<Rightarrow>
        if k = bd_import r \<and> d = cg_day (bd_charge r)
        then map_option (\<lambda>sr. (sr, bd_charge r)) (bm_get (bl_sources st) s) else None)"

definition joined :: "'d billing \<Rightarrow> 'd cost_row list" where
  "joined st = concat (map (\<lambda>r. List.map_filter (row_source st r) (bl_partitions st)) (bl_daily st))"

fun provider_text :: "cost_provider \<Rightarrow> string" where
  "provider_text CostGcp = ''gcp''"
| "provider_text CostAws = ''aws''"
| "provider_text CostAzure = ''azure''"
| "provider_text CostExternal = ''external''"

text \<open>\<open>group_key\<close>: \<open>CONCAT\<close> renders an absent value as nothing.\<close>

definition group_key :: "string option \<Rightarrow> string" where
  "group_key x = ''v:'' @ unwrap_or [] x"

definition dimension :: "cost_group \<Rightarrow> 'd cost_row \<Rightarrow> string" where
  "dimension g x =
     (case x of (s, c) \<Rightarrow>
        group_key
          (case g of
             GProvider \<Rightarrow> Some (provider_text (br_provider s)) | GProduct \<Rightarrow> Some (cg_product c) | GScope \<Rightarrow> cg_scope c
           | GTarget \<Rightarrow> cg_target c | GRegion \<Rightarrow> cg_region c | GCategory \<Rightarrow> cg_category c | GResource \<Rightarrow> cg_resource c))"

text \<open>\<open>q.replace(c, "\\c")\<close>.\<close>

definition escape_char :: "char \<Rightarrow> string \<Rightarrow> string" where
  "escape_char c s = concat (map (\<lambda>x. if x = c then [CHR 0x5C, c] else [x]) s)"

definition like_pattern :: "string \<Rightarrow> string" where
  "like_pattern q = ''%'' @ escape_char CHR ''_'' (escape_char CHR ''%'' (escape_char CHR 0x5C q)) @ ''%''"

text \<open>An equality with a column that is null does not hold.\<close>

definition column_is :: "string option \<Rightarrow> string option \<Rightarrow> bool" where
  "column_is wanted column \<longleftrightarrow> (case wanted of None \<Rightarrow> True | Some w \<Rightarrow> column = Some w)"

definition row_matches ::
  "'d view_env \<Rightarrow> cost_filter \<Rightarrow> string list \<Rightarrow> date \<Rightarrow> date \<Rightarrow> string list \<Rightarrow> bool \<Rightarrow> 'd cost_row \<Rightarrow> bool" where
  "row_matches ve f names start stop excluded search x \<longleftrightarrow>
     (case x of (s, c) \<Rightarrow>
        start \<le> cg_day c \<and> cg_day c < stop \<and> cg_currency c = unwrap_or ''USD'' (cq_currency f) \<and> br_name s \<in> set names \<and>
        is_none_or (\<lambda>p. br_provider s = p) (cq_provider f) \<and> column_is (cq_target f) (cg_target c) \<and>
        column_is (cq_scope f) (cg_scope c) \<and> column_is (cq_product f) (Some (cg_product c)) \<and>
        column_is (cq_region f) (cg_region c) \<and> column_is (cq_category f) (cg_category c) \<and>
        column_is (cq_resource f) (cg_resource c) \<and> dimension (cq_group f) x \<notin> set excluded \<and>
        is_none_or (\<lambda>k. k = ''__other__'' \<or> dimension (cq_group f) x = k) (cq_contributor f) \<and>
        (search \<longrightarrow> is_none_or (\<lambda>q. ve_ilike ve (dimension (cq_group f) x) (like_pattern q)) (cq_q f)))"

section \<open>Aggregates\<close>

definition sum_decimals :: "'d decimal_api \<Rightarrow> 'd list \<Rightarrow> 'd" where
  "sum_decimals dc xs = foldr (dc_add dc) xs (dc_int dc 0)"

definition row_billed :: "'d cost_row \<Rightarrow> 'd" where
  "row_billed x = cg_billed (snd x)"

definition row_net :: "'d cost_row \<Rightarrow> 'd" where
  "row_net x = unwrap_or (cg_billed (snd x)) (cg_effective (snd x))"

text \<open>A group: its key with the sums of billed and net amounts.\<close>

type_synonym ('k, 'd) group_sum = "'k \<times> 'd \<times> 'd"

definition group_sums :: "'d decimal_api \<Rightarrow> ('d cost_row \<Rightarrow> 'k) \<Rightarrow> 'd cost_row list \<Rightarrow> ('k, 'd) group_sum list" where
  "group_sums dc key rows =
     map (\<lambda>k. let xs = filter (\<lambda>x. key x = k) rows
              in (k, sum_decimals dc (map row_billed xs), sum_decimals dc (map row_net xs))) (remdups (map key rows))"

text \<open>\<open>ORDER BY sum DESC, key ASC\<close>.\<close>

definition group_before :: "'d view_env \<Rightarrow> 'd \<times> string \<Rightarrow> 'd \<times> string \<Rightarrow> bool" where
  "group_before ve x y \<longleftrightarrow>
     (case (x, y) of ((a, k), (b, l)) \<Rightarrow>
        \<not> dc_le (ve_decimals ve) a b \<or> dc_le (ve_decimals ve) b a \<and> ve_before ve k l)"

definition position :: "(string, 'd) group_sum \<Rightarrow> 'd \<times> string" where
  "position g = (case g of (k, a, _) \<Rightarrow> (a, k))"

fun insert_group :: "'d view_env \<Rightarrow> (string, 'd) group_sum \<Rightarrow> (string, 'd) group_sum list \<Rightarrow> (string, 'd) group_sum list" where
  "insert_group ve g [] = [g]"
| "insert_group ve g (h # gs) =
     (if group_before ve (position h) (position g) then h # insert_group ve g gs else g # h # gs)"

definition order_groups :: "'d view_env \<Rightarrow> (string, 'd) group_sum list \<Rightarrow> (string, 'd) group_sum list" where
  "order_groups ve gs = foldr (insert_group ve) gs []"

definition after_boundary :: "'d view_env \<Rightarrow> 'd cost_cursor option \<Rightarrow> (string, 'd) group_sum \<Rightarrow> bool" where
  "after_boundary ve b g \<longleftrightarrow> is_none_or (\<lambda>c. group_before ve (cu_amount c, cu_key c) (position g)) b"

definition checked_amount :: "'d decimal_api \<Rightarrow> 'd \<Rightarrow> history_error + 'd" where
  "checked_amount dc x = (case from_decimal dc x of Inl _ \<Rightarrow> Inl HRecord | Inr y \<Rightarrow> Inr y)"

definition row_credits :: "'d decimal_api \<Rightarrow> 'd \<Rightarrow> 'd \<Rightarrow> history_error + 'd" where
  "row_credits dc billed net = checked_amount dc (dc_sub dc net billed)"

fun make_contributors :: "'d decimal_api \<Rightarrow> (string, 'd) group_sum list \<Rightarrow> history_error + 'd contributor list" where
  "make_contributors dc [] = Inr []"
| "make_contributors dc ((k, a, n) # gs) =
     (case row_credits dc a n of
        Inl e \<Rightarrow> Inl e
      | Inr c \<Rightarrow>
          (case checked_amount dc a of
             Inl e \<Rightarrow> Inl e
           | Inr a \<Rightarrow>
               (case make_contributors dc gs of
                  Inl e \<Rightarrow> Inl e
                | Inr cs \<Rightarrow> Inr (\<lparr>co_key = k, co_amount = a, co_credits = c, co_previous = None\<rparr> # cs))))"

fun add_previous :: "'d decimal_api \<Rightarrow> (string, 'd) group_sum list \<Rightarrow> 'd contributor list \<Rightarrow> history_error + 'd contributor list" where
  "add_previous dc prior [] = Inr []"
| "add_previous dc prior (c # cs) =
     (case checked_amount dc (case map_of prior (co_key c) of None \<Rightarrow> dc_int dc 0 | Some (a, _) \<Rightarrow> a) of
        Inl e \<Rightarrow> Inl e
      | Inr a \<Rightarrow> (case add_previous dc prior cs of Inl e \<Rightarrow> Inl e | Inr cs \<Rightarrow> Inr (c\<lparr>co_previous := Some a\<rparr> # cs)))"

fun make_buckets :: "'d decimal_api \<Rightarrow> (date \<times> string, 'd) group_sum list \<Rightarrow> history_error + 'd bucket list" where
  "make_buckets dc [] = Inr []"
| "make_buckets dc (((d, k), a, n) # gs) =
     (case row_credits dc a n of
        Inl e \<Rightarrow> Inl e
      | Inr c \<Rightarrow>
          (case checked_amount dc a of
             Inl e \<Rightarrow> Inl e
           | Inr a \<Rightarrow>
               (case make_buckets dc gs of
                  Inl e \<Rightarrow> Inl e
                | Inr bs \<Rightarrow> Inr (\<lparr>bu_day = d, bu_key = k, bu_amount = a, bu_credits = c\<rparr> # bs))))"

section \<open>The statements of a view\<close>

definition source_names :: "cost_config \<Rightarrow> string list" where
  "source_names cc = map cs_id (cc_sources cc)"

definition selected ::
  "'d view_env \<Rightarrow> cost_config \<Rightarrow> cost_filter \<Rightarrow> date \<Rightarrow> date \<Rightarrow> string list \<Rightarrow> bool \<Rightarrow> 'd billing \<Rightarrow> 'd cost_row list" where
  "selected ve cc f start stop excluded search st =
     filter (row_matches ve f (source_names cc) start stop excluded search) (joined st)"

definition leading_keys ::
  "'d view_env \<Rightarrow> cost_filter \<Rightarrow> 'd cost_row list \<Rightarrow> string list" where
  "leading_keys ve f rows = take 7 (map fst (order_groups ve (group_sums (ve_decimals ve) (dimension (cq_group f)) rows)))"

definition excluded_keys :: "'d view_env \<Rightarrow> cost_config \<Rightarrow> cost_filter \<Rightarrow> period \<Rightarrow> 'd billing \<Rightarrow> string list" where
  "excluded_keys ve cc f full st =
     (if cq_contributor f = Some ''__other__''
      then leading_keys ve f (selected ve cc f (pe_from full) (pe_to full) [] False st) else [])"

definition breakdown_page ::
  "'d view_env \<Rightarrow> cost_filter \<Rightarrow> 'd cost_cursor option \<Rightarrow> nat \<Rightarrow> 'd cost_row list \<Rightarrow> (string, 'd) group_sum list" where
  "breakdown_page ve f boundary limit rows =
     take (limit + 1) (order_groups ve
       (filter (after_boundary ve boundary) (group_sums (ve_decimals ve) (dimension (cq_group f)) rows)))"

text \<open>The buckets of a chart: the leading keys by day, and everything else by day.\<close>

definition view_buckets ::
  "'d view_env \<Rightarrow> cost_filter \<Rightarrow> string list \<Rightarrow> 'd cost_row list \<Rightarrow> 'd cost_row list \<Rightarrow> history_error + 'd bucket list" where
  "view_buckets ve f keys rows others =
     (let dc = ve_decimals ve; dim = dimension (cq_group f);
          shown = group_sums dc (\<lambda>x. (cg_day (snd x), dim x)) (filter (\<lambda>x. dim x \<in> set keys) rows);
          rest = group_sums dc (\<lambda>x. (cg_day (snd x), ''__other__'')) (filter (\<lambda>x. dim x \<notin> set keys) others)
      in if 6400 < length shown then Inl HRecord
         else case make_buckets dc (take 6401 shown) of
                Inl e \<Rightarrow> Inl e
              | Inr bs \<Rightarrow>
                  if 800 < length rest then Inl HRecord
                  else (case make_buckets dc (take 801 rest) of Inl e \<Rightarrow> Inl e | Inr bs' \<Rightarrow> Inr (bs @ bs')))"

section \<open>The response\<close>

record 'd cost_view =
  vw_enabled :: bool
  vw_revision :: string
  vw_period :: period
  vw_currency :: string
  vw_measure :: measure_kind
  vw_group :: cost_group
  vw_granularity :: granularity
  vw_total :: "'d option"
  vw_credits :: "'d option"
  vw_previous_total :: "'d option"
  vw_complete :: bool
  vw_sources :: "source_status list"
  vw_series :: "'d point list"
  vw_breakdown :: "'d contributor list"
  vw_next_cursor :: "string option"
  vw_contributor_count :: nat

record 'd draft =
  dr_buckets :: "'d bucket list"
  dr_breakdown :: "'d contributor list"
  dr_count :: nat
  dr_period :: period
  dr_previous :: period
  dr_revision :: string
  dr_fingerprint :: string
  dr_limit :: nat

definition as_record :: "cost_error + 'a \<Rightarrow> history_error + 'a" where
  "as_record x = (case x of Inl _ \<Rightarrow> Inl HRecord | Inr y \<Rightarrow> Inr y)"

definition when_known :: "bool \<Rightarrow> history_error + 'a \<Rightarrow> history_error + 'a option" where
  "when_known b x = (if b then (case x of Inl e \<Rightarrow> Inl e | Inr y \<Rightarrow> Inr (Some y)) else Inr None)"

definition current_statuses ::
  "'d view_env \<Rightarrow> calendar \<Rightarrow> instant \<Rightarrow> cost_config \<Rightarrow> cost_filter \<Rightarrow> 'd billing \<Rightarrow> history_error + source_status list" where
  "current_statuses ve ca now cc f st =
     (case cost_status (ve_show_id ve) ca st of Inl e \<Rightarrow> Inl e | Inr stored \<Rightarrow> Inr (cost_statuses now cc f stored))"

definition next_page_cursor :: "'d view_env \<Rightarrow> 'd draft \<Rightarrow> history_error + string option" where
  "next_page_cursor ve dr =
     (if dr_limit dr < length (dr_breakdown dr)
      then (case encode_cursor (ve_codec ve) (dr_breakdown dr ! (dr_limit dr - 1)) (dr_revision dr) (dr_fingerprint dr) of
              Inl e \<Rightarrow> Inl e | Inr s \<Rightarrow> Inr (Some s))
      else Inr None)"

definition cost_response ::
  "'d view_env \<Rightarrow> calendar \<Rightarrow> instant \<Rightarrow> cost_config \<Rightarrow> cost_filter \<Rightarrow> source_status list \<Rightarrow> 'd draft \<Rightarrow> (nat \<Rightarrow> 'd billing) \<Rightarrow>
   history_error + 'd cost_view" where
  "cost_response ve ca now cc f sources dr reads =
     (let dc = ve_decimals ve; p = dr_period dr;
          has_data = list_ex (within_period p) (dr_buckets dr);
          known = (pe_to p \<le> date_of now \<and> cost_covered sources (dr_previous dr) (reads 8) \<and> cost_covered sources p (reads 9))
      in case when_known has_data (as_record (period_total dc (dr_buckets dr) p)) of Inl e \<Rightarrow> Inl e | Inr t \<Rightarrow>
         (case when_known has_data (as_record (period_credits dc (dr_buckets dr) p)) of Inl e \<Rightarrow> Inl e | Inr c \<Rightarrow>
         (case when_known known (as_record (period_total dc (dr_buckets dr) (dr_previous dr))) of Inl e \<Rightarrow> Inl e | Inr pt \<Rightarrow>
         (case as_record (series dc ca (dr_buckets dr) p (cq_granularity f) known) of Inl e \<Rightarrow> Inl e | Inr pts \<Rightarrow>
         (case next_page_cursor ve dr of Inl e \<Rightarrow> Inl e | Inr cursor \<Rightarrow>
         (case current_statuses ve ca now cc f (reads 10) of Inl e \<Rightarrow> Inl e | Inr now_sources \<Rightarrow>
            if ve_json_sources ve sources \<noteq> ve_json_sources ve now_sources then Inl HRevision
            else Inr \<lparr>vw_enabled = True, vw_revision = dr_revision dr, vw_period = p,
                   vw_currency = unwrap_or ''USD'' (cq_currency f), vw_measure = cq_measure f, vw_group = cq_group f,
                   vw_granularity = cq_granularity f, vw_total = t, vw_credits = c, vw_previous_total = pt,
                   vw_complete = False, vw_sources = sources, vw_series = pts,
                   vw_breakdown = map (\<lambda>r. if known then r else r\<lparr>co_previous := None\<rparr>) (take (dr_limit dr) (dr_breakdown dr)),
                   vw_next_cursor = cursor, vw_contributor_count = dr_count dr\<rparr>))))))"

definition view_period :: "calendar \<Rightarrow> cost_filter \<Rightarrow> period \<Rightarrow> history_error + period" where
  "view_period ca f full =
     (case cq_day f of
        None \<Rightarrow> Inr full
      | Some d \<Rightarrow> (case date_add ca d 1 of None \<Rightarrow> Inl HRecord | Some e \<Rightarrow> Inr \<lparr>pe_from = d, pe_to = e\<rparr>))"

definition normalized_view :: "cost_filter \<Rightarrow> period \<Rightarrow> cost_filter" where
  "normalized_view f full = f\<lparr>cq_from := Some (pe_from full), cq_to := Some (pe_to full), cq_cursor := None, cq_revision := None\<rparr>"

text \<open>What the statements find once revision and cursor are known.\<close>

definition view_draft ::
  "'d view_env \<Rightarrow> cost_config \<Rightarrow> cost_filter \<Rightarrow> period \<Rightarrow> period \<Rightarrow> string \<Rightarrow> string \<Rightarrow> 'd cost_cursor option \<Rightarrow>
   (nat \<Rightarrow> 'd billing) \<Rightarrow> history_error + 'd draft" where
  "view_draft ve cc f full p revision fingerprint boundary reads =
     (let dc = ve_decimals ve; dim = dimension (cq_group f); limit = unwrap_or 50 (cq_limit f);
          previous = \<lparr>pe_from = pe_from p - (pe_to p - pe_from p), pe_to = pe_from p\<rparr>;
          excluded = excluded_keys ve cc f full (reads 1);
          rows = selected ve cc f (pe_from p) (pe_to p) excluded True
      in case make_contributors dc (breakdown_page ve f boundary limit (rows (reads 2))) of Inl e \<Rightarrow> Inl e | Inr cs \<Rightarrow>
         (case add_previous dc
                 (take (limit + 1) (filter (\<lambda>(k, _). k \<in> co_key ` set cs) (group_sums dc dim
                    (selected ve cc f (pe_from previous) (pe_to previous) excluded True (reads 3))))) cs of Inl e \<Rightarrow> Inl e | Inr cs \<Rightarrow>
            (let found = length (remdups (map dim (rows (reads 4))));
                 keys = leading_keys ve f (rows (reads 5));
                 both = selected ve cc f (pe_from previous) (pe_to p) excluded True
             in case view_buckets ve f keys (both (reads 6)) (both (reads 7)) of Inl e \<Rightarrow> Inl e | Inr bs \<Rightarrow>
                  Inr \<lparr>dr_buckets = bs, dr_breakdown = cs, dr_count = found, dr_period = p, dr_previous = previous,
                       dr_revision = revision, dr_fingerprint = fingerprint, dr_limit = limit\<rparr>)))"

definition cost_view_of ::
  "'d view_env \<Rightarrow> calendar \<Rightarrow> instant \<Rightarrow> cost_config \<Rightarrow> cost_filter \<Rightarrow> (nat \<Rightarrow> 'd billing) \<Rightarrow> history_error + 'd cost_view" where
  "cost_view_of ve ca now cc f reads =
     (case as_record (cost_period now f) of Inl e \<Rightarrow> Inl e | Inr full \<Rightarrow>
     (case view_period ca f full of Inl e \<Rightarrow> Inl e | Inr p \<Rightarrow>
        if cq_measure f \<noteq> Billed then Inl HRecord
        else (case current_statuses ve ca now cc f (reads 0) of Inl e \<Rightarrow> Inl e | Inr sources \<Rightarrow>
             (case ve_json_sources ve sources of None \<Rightarrow> Inl HRecord | Some text \<Rightarrow>
             (let revision = ve_digest ve text
              in if is_some_and (\<lambda>r. r \<noteq> revision) (cq_revision f) then Inl HRevision
                 else (case ve_json_filter ve (normalized_view f full) of None \<Rightarrow> Inl HRecord | Some text \<Rightarrow>
                      (case decode_cursor (ve_codec ve) (cq_cursor f) revision (ve_digest ve text) of Inl e \<Rightarrow> Inl e | Inr boundary \<Rightarrow>
                      (case view_draft ve cc f full p revision (ve_digest ve text) boundary reads of Inl e \<Rightarrow> Inl e | Inr dr \<Rightarrow>
                         cost_response ve ca now cc f sources dr reads))))))))"

section \<open>The endpoint\<close>

datatype view_answer = ViewRefused history_error | ViewBadQuery | ViewBusy | ViewUnavailable

text \<open>\<open>cost_api::view\<close>; \<open>permit\<close>: a free cost request; \<open>timely\<close>: the ten seconds suffice.\<close>

definition view_endpoint ::
  "'d view_env \<Rightarrow> calendar \<Rightarrow> instant \<Rightarrow> cost_config \<Rightarrow> bool \<Rightarrow> bool \<Rightarrow> cost_filter \<Rightarrow> (nat \<Rightarrow> 'd billing) \<Rightarrow>
   view_answer + 'd cost_view" where
  "view_endpoint ve ca now cc permit timely f reads =
     (case cost_period now f of
        Inl _ \<Rightarrow> Inl ViewBadQuery
      | Inr p \<Rightarrow>
          if \<not> permit then Inl ViewBusy
          else if \<not> cc_enabled cc then
            Inr \<lparr>vw_enabled = False, vw_revision = [], vw_period = p, vw_currency = ''USD'', vw_measure = cq_measure f,
                 vw_group = cq_group f, vw_granularity = cq_granularity f, vw_total = None, vw_credits = None,
                 vw_previous_total = None, vw_complete = False, vw_sources = [], vw_series = [], vw_breakdown = [],
                 vw_next_cursor = None, vw_contributor_count = 0\<rparr>
          else if \<not> timely then Inl ViewUnavailable
          else (case cost_view_of ve ca now cc f reads of Inl e \<Rightarrow> Inl (ViewRefused e) | Inr v \<Rightarrow> Inr v))"

definition sources_endpoint ::
  "'d view_env \<Rightarrow> calendar \<Rightarrow> cost_config \<Rightarrow> 'd billing \<Rightarrow> history_error + source_status list" where
  "sources_endpoint ve ca cc st =
     (if \<not> cc_enabled cc then Inr []
      else case cost_status (ve_show_id ve) ca st of
             Inl e \<Rightarrow> Inl e
           | Inr ss \<Rightarrow> Inr (filter (\<lambda>s. list_ex (\<lambda>c. cs_id c = so_id s) (cc_sources cc)) ss))"

end
