(* ===== verification/Cost_View_Properties.thy ===== *)
theory Cost_View_Properties
  imports Cost_View Cost_Properties Schedule_Properties "HOL-Library.Countable"
begin

text \<open>
  A billing view accounts for every published charge its filter selects, exactly once, in its total, its
  credits and its chart; its breakdown pages list every contributor once and in order; and all its
  statements read the same publications.
\<close>

section \<open>Sums over groups\<close>

lemma sum_decimals_value: "decimal_laws dc v \<Longrightarrow> v (sum_decimals dc xs) = sum_list (map v xs)"
  by (induction xs) (simp_all add: sum_decimals_def decimal_laws_def)

lemma sum_list_one: "distinct ks \<Longrightarrow> (\<Sum>k\<leftarrow>ks. if x = k then c else (0::rat)) = (if x \<in> set ks then c else 0)"
  by (induction ks) auto

lemma sum_list_group:
  assumes "distinct ks" and "\<And>x. x \<in> set rows \<Longrightarrow> key x \<in> set ks"
  shows "(\<Sum>k\<leftarrow>ks. \<Sum>x\<leftarrow>filter (\<lambda>x. key x = k) rows. f x) = (\<Sum>x\<leftarrow>rows. f x :: rat)"
  using assms(2)
proof (induction rows)
  case (Cons x rows)
  have "(\<Sum>k\<leftarrow>ks. \<Sum>y\<leftarrow>filter (\<lambda>y. key y = k) (x # rows). f y) =
      (\<Sum>k\<leftarrow>ks. (if key x = k then f x else 0) + (\<Sum>y\<leftarrow>filter (\<lambda>y. key y = k) rows. f y))"
    by (intro arg_cong [where f = sum_list] map_cong) auto
  also have "\<dots> = (\<Sum>k\<leftarrow>ks. if key x = k then f x else 0) + (\<Sum>k\<leftarrow>ks. \<Sum>y\<leftarrow>filter (\<lambda>y. key y = k) rows. f y)"
    by (rule sum_list_addf)
  finally show ?case using Cons assms(1) by (simp add: sum_list_one)
qed simp

text \<open>The groups that satisfy a predicate on their key add up to the rows that do.\<close>

lemma group_sums_value:
  assumes "decimal_laws dc v"
  shows "(\<Sum>(k, a, n)\<leftarrow>filter (\<lambda>(k, _). P k) (group_sums dc key rows). v a) =
      (\<Sum>x\<leftarrow>filter (\<lambda>x. P (key x)) rows. v (row_billed x)) \<and>
    (\<Sum>(k, a, n)\<leftarrow>filter (\<lambda>(k, _). P k) (group_sums dc key rows). v n) =
      (\<Sum>x\<leftarrow>filter (\<lambda>x. P (key x)) rows. v (row_net x))"
proof -
  let ?rows = "filter (\<lambda>x. P (key x)) rows" and ?ks = "filter P (remdups (map key rows))"
  have same: "filter (\<lambda>x. key x = k) rows = filter (\<lambda>x. key x = k) ?rows" if "P k" for k
    using that by (induction rows) auto
  have "(\<Sum>k\<leftarrow>?ks. \<Sum>x\<leftarrow>filter (\<lambda>x. key x = k) rows. f x) = (\<Sum>x\<leftarrow>?rows. f x)" for f :: "'a cost_row \<Rightarrow> rat"
  proof -
    have "(\<Sum>k\<leftarrow>?ks. \<Sum>x\<leftarrow>filter (\<lambda>x. key x = k) rows. f x) = (\<Sum>k\<leftarrow>?ks. \<Sum>x\<leftarrow>filter (\<lambda>x. key x = k) ?rows. f x)"
      by (intro arg_cong [where f = sum_list] map_cong refl) (simp only: same set_filter mem_Collect_eq)
    then show ?thesis using sum_list_group [of ?ks ?rows key f] by simp
  qed
  from this [of "v \<circ> row_billed"] this [of "v \<circ> row_net"] show ?thesis
    by (simp add: group_sums_def filter_map comp_def Let_def sum_decimals_value [OF assms])
qed

lemma checked_amount_value: "decimal_laws dc v \<Longrightarrow> checked_amount dc x = Inr y \<Longrightarrow> v y = v x"
  by (auto simp: checked_amount_def from_decimal_value split: sum.splits)

lemma row_credits_value: "decimal_laws dc v \<Longrightarrow> row_credits dc a n = Inr c \<Longrightarrow> v c = v n - v a"
  using checked_amount_value [of dc v "dc_sub dc n a" c] by (simp add: row_credits_def decimal_laws_def)

lemma make_buckets_value:
  assumes laws: "decimal_laws dc v"
  shows "make_buckets dc gs = Inr bs \<Longrightarrow>
    (\<Sum>b\<leftarrow>filter (\<lambda>b. D (bu_day b)) bs. v (bu_amount b)) = (\<Sum>(k, a, n)\<leftarrow>filter (\<lambda>(k, _). D (fst k)) gs. v a) \<and>
    (\<Sum>b\<leftarrow>filter (\<lambda>b. D (bu_day b)) bs. v (bu_credits b)) =
      (\<Sum>(k, a, n)\<leftarrow>filter (\<lambda>(k, _). D (fst k)) gs. v n) - (\<Sum>(k, a, n)\<leftarrow>filter (\<lambda>(k, _). D (fst k)) gs. v a) \<and>
    bu_day ` set bs = fst ` fst ` set gs"
proof (induction gs arbitrary: bs)
  case (Cons g gs)
  obtain d k a n where g: "g = ((d, k), a, n)" by (metis surj_pair)
  obtain c a' bs' where step: "row_credits dc a n = Inr c" "checked_amount dc a = Inr a'" "make_buckets dc gs = Inr bs'"
    "bs = \<lparr>bu_day = d, bu_key = k, bu_amount = a', bu_credits = c\<rparr> # bs'"
    using Cons.prems g by (auto split: sum.splits)
  show ?case
    using Cons.IH [OF step(3)] row_credits_value [OF laws step(1)] checked_amount_value [OF laws step(2)] step(4) g
    by simp
qed simp

section \<open>The total of a view\<close>

lemma day_of_group: "fst ` fst ` set (group_sums dc (\<lambda>x. (cg_day (snd x), key x)) rows) = (\<lambda>x. cg_day (snd x)) ` set rows"
  by (force simp: group_sums_def Let_def)

lemma view_buckets_value:
  assumes laws: "decimal_laws (ve_decimals ve) v" and "view_buckets ve f keys rows rows = Inr bs"
  shows "(\<Sum>b\<leftarrow>filter (\<lambda>b. D (bu_day b)) bs. v (bu_amount b)) = (\<Sum>x\<leftarrow>filter (\<lambda>x. D (cg_day (snd x))) rows. v (row_billed x)) \<and>
    (\<Sum>b\<leftarrow>filter (\<lambda>b. D (bu_day b)) bs. v (bu_credits b)) =
      (\<Sum>x\<leftarrow>filter (\<lambda>x. D (cg_day (snd x))) rows. v (row_net x) - v (row_billed x)) \<and>
    bu_day ` set bs = (\<lambda>x. cg_day (snd x)) ` set rows"
proof -
  let ?dc = "ve_decimals ve" and ?dim = "dimension (cq_group f)"
  let ?shown = "group_sums ?dc (\<lambda>x. (cg_day (snd x), ?dim x)) (filter (\<lambda>x. ?dim x \<in> set keys) rows)"
  let ?rest = "group_sums ?dc (\<lambda>x. (cg_day (snd x), ''__other__'')) (filter (\<lambda>x. ?dim x \<notin> set keys) rows)"
  obtain bs1 bs2 where bs: "make_buckets ?dc ?shown = Inr bs1" "make_buckets ?dc ?rest = Inr bs2" "bs = bs1 @ bs2"
    using assms(2) by (auto simp: view_buckets_def Let_def split: sum.splits if_splits)
  note shown = make_buckets_value [OF laws bs(1), of D] group_sums_value [OF laws, of "\<lambda>k. D (fst k)"
      "\<lambda>x. (cg_day (snd x), ?dim x)" "filter (\<lambda>x. ?dim x \<in> set keys) rows"]
  note rest = make_buckets_value [OF laws bs(2), of D] group_sums_value [OF laws, of "\<lambda>k. D (fst k)"
      "\<lambda>x. (cg_day (snd x), ''__other__'')" "filter (\<lambda>x. ?dim x \<notin> set keys) rows"]
  have both: "(\<Sum>x\<leftarrow>filter P rows. g x) =
      (\<Sum>x\<leftarrow>filter P (filter (\<lambda>x. Q x) rows). g x) + (\<Sum>x\<leftarrow>filter P (filter (\<lambda>x. \<not> Q x) rows). g x)"
    for P Q and g :: "'a cost_row \<Rightarrow> rat"
    by (induction rows) auto
  have days: "bu_day ` set bs = (\<lambda>x. cg_day (snd x)) ` set rows"
  proof -
    have parts: "bu_day ` set bs1 = (\<lambda>x. cg_day (snd x)) ` set (filter (\<lambda>x. ?dim x \<in> set keys) rows)"
      "bu_day ` set bs2 = (\<lambda>x. cg_day (snd x)) ` set (filter (\<lambda>x. ?dim x \<notin> set keys) rows)"
      using shown(1) rest(1) unfolding day_of_group by blast+
    show ?thesis unfolding bs(3) set_append image_Un parts by auto
  qed
  let ?Q = "\<lambda>x. ?dim x \<in> set keys" and ?D = "\<lambda>x. D (cg_day (snd x))"
  have net: "(\<Sum>x\<leftarrow>xs. v (row_net x) - v (row_billed x)) = (\<Sum>x\<leftarrow>xs. v (row_net x)) - (\<Sum>x\<leftarrow>xs. v (row_billed x))"
    for xs :: "'a cost_row list" by (rule sum_list_subtractf)
  have "(\<Sum>b\<leftarrow>filter (\<lambda>b. D (bu_day b)) bs. v (bu_amount b)) =
      (\<Sum>x\<leftarrow>filter ?D (filter ?Q rows). v (row_billed x)) + (\<Sum>x\<leftarrow>filter ?D (filter (\<lambda>x. \<not> ?Q x) rows). v (row_billed x))"
    using shown rest unfolding bs(3) filter_append map_append sum_list_append fst_conv by presburger
  moreover have "(\<Sum>b\<leftarrow>filter (\<lambda>b. D (bu_day b)) bs. v (bu_credits b)) =
      ((\<Sum>x\<leftarrow>filter ?D (filter ?Q rows). v (row_net x)) + (\<Sum>x\<leftarrow>filter ?D (filter (\<lambda>x. \<not> ?Q x) rows). v (row_net x))) -
      ((\<Sum>x\<leftarrow>filter ?D (filter ?Q rows). v (row_billed x)) + (\<Sum>x\<leftarrow>filter ?D (filter (\<lambda>x. \<not> ?Q x) rows). v (row_billed x)))"
    using shown rest unfolding bs(3) filter_append map_append sum_list_append fst_conv by linarith
  ultimately show ?thesis
    using days both [of "\<lambda>x. v (row_billed x)" ?D ?Q] both [of "\<lambda>x. v (row_net x)" ?D ?Q] net by presburger
qed

text \<open>What a successful view went through, on a store that does not change.\<close>

lemma cost_view_ofD:
  assumes "cost_view_of ve ca now cc f (\<lambda>_. st) = Inr w"
  obtains full p sources json fjson boundary dr where
    "cost_period now f = Inr full" "view_period ca f full = Inr p" "ve_json_sources ve sources = Some json"
    "current_statuses ve ca now cc f st = Inr sources" "is_none_or (\<lambda>r. r = ve_digest ve json) (cq_revision f)"
    "ve_json_filter ve (normalized_view f full) = Some fjson"
    "decode_cursor (ve_codec ve) (cq_cursor f) (ve_digest ve json) (ve_digest ve fjson) = Inr boundary"
    "view_draft ve cc f full p (ve_digest ve json) (ve_digest ve fjson) boundary (\<lambda>_. st) = Inr dr"
    "cost_response ve ca now cc f sources dr (\<lambda>_. st) = Inr w"
proof -
  obtain full where full: "cost_period now f = Inr full"
    using assms by (cases "cost_period now f") (simp_all add: cost_view_of_def as_record_def)
  obtain p where p: "view_period ca f full = Inr p"
    using assms full by (cases "view_period ca f full") (simp_all add: cost_view_of_def as_record_def)
  obtain sources where sources: "current_statuses ve ca now cc f st = Inr sources"
    using assms full p by (cases "current_statuses ve ca now cc f st") (simp_all add: cost_view_of_def as_record_def split: if_splits)
  obtain json where json: "ve_json_sources ve sources = Some json"
    using assms full p sources by (cases "ve_json_sources ve sources") (simp_all add: cost_view_of_def as_record_def split: if_splits)
  note known = full p sources json
  have revision: "is_none_or (\<lambda>r. r = ve_digest ve json) (cq_revision f)"
    using assms known by (cases "cq_revision f") (simp_all add: cost_view_of_def as_record_def Let_def split: if_splits)
  obtain fjson where fjson: "ve_json_filter ve (normalized_view f full) = Some fjson"
    using assms known by (cases "ve_json_filter ve (normalized_view f full)")
      (simp_all add: cost_view_of_def as_record_def Let_def split: if_splits)
  obtain boundary where boundary: "decode_cursor (ve_codec ve) (cq_cursor f) (ve_digest ve json) (ve_digest ve fjson) = Inr boundary"
    using assms known fjson by (cases "decode_cursor (ve_codec ve) (cq_cursor f) (ve_digest ve json) (ve_digest ve fjson)")
      (simp_all add: cost_view_of_def as_record_def Let_def split: if_splits)
  obtain dr where dr: "view_draft ve cc f full p (ve_digest ve json) (ve_digest ve fjson) boundary (\<lambda>_. st) = Inr dr"
    using assms known fjson boundary
    by (cases "view_draft ve cc f full p (ve_digest ve json) (ve_digest ve fjson) boundary (\<lambda>_. st)")
      (simp_all add: cost_view_of_def as_record_def Let_def split: if_splits)
  have "cost_response ve ca now cc f sources dr (\<lambda>_. st) = Inr w"
    using assms known fjson boundary dr by (simp add: cost_view_of_def as_record_def Let_def split: if_splits)
  from that [OF full p json sources revision fjson boundary dr this] show ?thesis .
qed

lemma view_periodD:
  assumes "cost_period now f = Inr full" and "view_period ca f full = Inr p"
  shows "pe_from p < pe_to p"
  using assms by (auto simp: cost_period_def view_period_def date_add_def Let_def split: option.splits if_splits)

lemma when_knownD: "when_known b x = Inr y \<Longrightarrow> (if b then \<exists>z. x = Inr z \<and> y = Some z else y = None)"
  by (auto simp: when_known_def split: if_splits sum.splits)

lemma as_recordD: "as_record x = Inr y \<Longrightarrow> x = Inr y"
  by (auto simp: as_record_def split: sum.splits)

lemma cost_responseD:
  assumes "cost_response ve ca now cc f sources dr reads = Inr w"
  shows "vw_period w = dr_period dr \<and>
    (if list_ex (within_period (dr_period dr)) (dr_buckets dr)
     then \<exists>t c. vw_total w = Some t \<and> period_total (ve_decimals ve) (dr_buckets dr) (dr_period dr) = Inr t \<and>
        vw_credits w = Some c \<and> period_credits (ve_decimals ve) (dr_buckets dr) (dr_period dr) = Inr c
     else vw_total w = None \<and> vw_credits w = None) \<and>
    (\<forall>t. vw_previous_total w = Some t \<longrightarrow> period_total (ve_decimals ve) (dr_buckets dr) (dr_previous dr) = Inr t) \<and>
    (\<exists>known. series (ve_decimals ve) ca (dr_buckets dr) (dr_period dr) (cq_granularity f) known = Inr (vw_series w)) \<and>
    map co_key (vw_breakdown w) = map co_key (take (dr_limit dr) (dr_breakdown dr)) \<and>
    next_page_cursor ve dr = Inr (vw_next_cursor w)"
proof -
  let ?has = "list_ex (within_period (dr_period dr)) (dr_buckets dr)"
  define known where "known \<longleftrightarrow> pe_to (dr_period dr) \<le> date_of now \<and> cost_covered sources (dr_previous dr) (reads 8) \<and>
    cost_covered sources (dr_period dr) (reads 9)"
  note run = assms [unfolded cost_response_def Let_def known_def [symmetric]]
  obtain t where t: "when_known ?has (as_record (period_total (ve_decimals ve) (dr_buckets dr) (dr_period dr))) = Inr t"
    using run by (auto split: sum.splits)
  obtain c where c: "when_known ?has (as_record (period_credits (ve_decimals ve) (dr_buckets dr) (dr_period dr))) = Inr c"
    using run t by (auto split: sum.splits)
  obtain pt where pt: "when_known known (as_record (period_total (ve_decimals ve) (dr_buckets dr) (dr_previous dr))) = Inr pt"
    using run t c by (auto split: sum.splits)
  obtain pts where pts: "as_record (series (ve_decimals ve) ca (dr_buckets dr) (dr_period dr) (cq_granularity f) known) = Inr pts"
    using run t c pt by (auto split: sum.splits)
  obtain cursor where cursor: "next_page_cursor ve dr = Inr cursor"
    using run t c pt pts by (auto split: sum.splits)
  have w: "vw_period w = dr_period dr \<and> vw_total w = t \<and> vw_credits w = c \<and> vw_previous_total w = pt \<and> vw_series w = pts \<and>
      vw_breakdown w = map (\<lambda>r. if known then r else r\<lparr>co_previous := None\<rparr>) (take (dr_limit dr) (dr_breakdown dr)) \<and>
      vw_next_cursor w = cursor"
    using run t c pt pts cursor by (auto split: sum.splits if_splits)
  have "map co_key (vw_breakdown w) = map co_key (take (dr_limit dr) (dr_breakdown dr))" using w by (simp add: comp_def if_distrib)
  then show ?thesis
    using when_knownD [OF t] when_knownD [OF c] when_knownD [OF pt] as_recordD [OF pts] cursor w
    by (auto dest!: as_recordD split: if_splits)
qed

lemma view_draftD:
  assumes "view_draft ve cc f full p revision fingerprint boundary (\<lambda>_. st) = Inr dr"
  obtains cs where
    "dr_period dr = p" "dr_previous dr = \<lparr>pe_from = pe_from p - (pe_to p - pe_from p), pe_to = pe_from p\<rparr>"
    "dr_limit dr = unwrap_or 50 (cq_limit f)" "dr_revision dr = revision" "dr_fingerprint dr = fingerprint"
    "make_contributors (ve_decimals ve) (breakdown_page ve f boundary (unwrap_or 50 (cq_limit f))
       (selected ve cc f (pe_from p) (pe_to p) (excluded_keys ve cc f full st) True st)) = Inr cs"
    "map (\<lambda>c. c\<lparr>co_previous := None\<rparr>) (dr_breakdown dr) = cs"
    "\<exists>keys rows. rows = selected ve cc f (pe_from p - (pe_to p - pe_from p)) (pe_to p) (excluded_keys ve cc f full st) True st \<and>
       view_buckets ve f keys rows rows = Inr (dr_buckets dr)"
proof -
  have previous: "add_previous dc prior cs = Inr cs' \<Longrightarrow> map (\<lambda>c. c\<lparr>co_previous := None\<rparr>) cs' = map (\<lambda>c. c\<lparr>co_previous := None\<rparr>) cs"
    for dc :: "'a decimal_api" and prior cs cs'
    by (induction cs arbitrary: cs') (auto split: sum.splits)
  have fresh: "make_contributors dc gs = Inr cs \<Longrightarrow> map (\<lambda>c. c\<lparr>co_previous := None\<rparr>) cs = cs"
    for dc :: "'a decimal_api" and gs cs
    by (induction dc gs arbitrary: cs rule: make_contributors.induct) (auto split: sum.splits)
  obtain cs where cs: "make_contributors (ve_decimals ve) (breakdown_page ve f boundary (unwrap_or 50 (cq_limit f))
       (selected ve cc f (pe_from p) (pe_to p) (excluded_keys ve cc f full st) True st)) = Inr cs"
    using assms by (auto simp: view_draft_def Let_def split: sum.splits)
  show ?thesis
    using assms cs fresh [OF cs] by (auto simp: view_draft_def Let_def dest: previous split: sum.splits intro!: that [OF _ _ _ _ _ cs])
qed

lemma selected_within:
  assumes "start \<le> mid"
  shows "filter (\<lambda>x. mid \<le> cg_day (snd x) \<and> cg_day (snd x) < stop) (selected ve cc f start stop ex se st) =
    selected ve cc f mid stop ex se st"
  using assms by (auto simp: selected_def row_matches_def intro!: filter_cong)

lemma selected_until:
  assumes "mid \<le> stop"
  shows "filter (\<lambda>x. start \<le> cg_day (snd x) \<and> cg_day (snd x) < mid) (selected ve cc f start stop ex se st) =
    selected ve cc f start mid ex se st"
  using assms by (auto simp: selected_def row_matches_def intro!: filter_cong)

text \<open>The rows a view is about.\<close>

definition view_rows :: "'d view_env \<Rightarrow> cost_config \<Rightarrow> cost_filter \<Rightarrow> period \<Rightarrow> period \<Rightarrow> 'd billing \<Rightarrow> 'd cost_row list" where
  "view_rows ve cc f full p st = selected ve cc f (pe_from p) (pe_to p) (excluded_keys ve cc f full st) True st"

lemma view_sums:
  assumes laws: "decimal_laws (ve_decimals ve) v" and run: "cost_view_of ve ca now cc f (\<lambda>_. st) = Inr w"
    and full: "cost_period now f = Inr full"
  shows "(case (vw_total w, vw_credits w) of
      (Some t, Some c) \<Rightarrow> v t = (\<Sum>x\<leftarrow>view_rows ve cc f full (vw_period w) st. v (row_billed x)) \<and>
        v c = (\<Sum>x\<leftarrow>view_rows ve cc f full (vw_period w) st. v (row_net x) - v (row_billed x))
    | (None, None) \<Rightarrow> view_rows ve cc f full (vw_period w) st = []
    | _ \<Rightarrow> False) \<and>
    (\<Sum>pt\<leftarrow>vw_series w. v (po_total pt)) = (\<Sum>x\<leftarrow>view_rows ve cc f full (vw_period w) st. v (row_billed x))"
proof -
  obtain full' p sources json fjson boundary dr where *: "cost_period now f = Inr full'" "view_period ca f full' = Inr p"
    "view_draft ve cc f full' p (ve_digest ve json) (ve_digest ve fjson) boundary (\<lambda>_. st) = Inr dr"
    "cost_response ve ca now cc f sources dr (\<lambda>_. st) = Inr w"
    using cost_view_ofD [OF run] by metis
  have "full' = full" using * full by simp
  note * = * [unfolded this]
  obtain keys rows where dr: "dr_period dr = p"
    "rows = selected ve cc f (pe_from p - (pe_to p - pe_from p)) (pe_to p) (excluded_keys ve cc f full st) True st"
    "view_buckets ve f keys rows rows = Inr (dr_buckets dr)"
    using view_draftD [OF *(3)] by metis
  have lt: "pe_from p < pe_to p" by (rule view_periodD [OF *(1,2)])
  note w = cost_responseD [OF *(4), unfolded dr(1)]
  let ?D = "\<lambda>d. pe_from p \<le> d \<and> d < pe_to p" and ?rows = "view_rows ve cc f full p st"
  have rows: "filter (\<lambda>x. ?D (cg_day (snd x))) rows = ?rows"
    using selected_within [of "pe_from p - (pe_to p - pe_from p)" "pe_from p"] lt by (simp add: dr(2) view_rows_def)
  note bs = view_buckets_value [OF laws dr(3), of ?D, unfolded rows]
  have in_period: "within_period p = (\<lambda>b :: 'a bucket. ?D (bu_day b))" by (simp add: within_period_def fun_eq_iff)
  have below: "bu_day b < pe_to p" if "b \<in> set (dr_buckets dr)" for b
    using that bs by (force simp: dr(2) selected_def row_matches_def)
  have total: "v t = (\<Sum>x\<leftarrow>?rows. v (row_billed x))" if "period_total (ve_decimals ve) (dr_buckets dr) p = Inr t" for t
    using sum_amounts_value [OF laws that [unfolded period_total_def]] bs laws by (simp add: in_period comp_def)
  have credits: "v c = (\<Sum>x\<leftarrow>?rows. v (row_net x) - v (row_billed x))"
    if "period_credits (ve_decimals ve) (dr_buckets dr) p = Inr c" for c
    using sum_amounts_value [OF laws that [unfolded period_credits_def]] bs laws by (simp add: in_period comp_def)
  have empty: "?rows = []" if "\<not> list_ex (within_period p) (dr_buckets dr)"
  proof (rule ccontr)
    assume "?rows \<noteq> []"
    then obtain x where "x \<in> set ?rows" by (cases ?rows) auto
    then have "x \<in> set rows" "?D (cg_day (snd x))" unfolding rows [symmetric] by auto
    then have "cg_day (snd x) \<in> bu_day ` set (dr_buckets dr)" using bs by blast
    then obtain b where "b \<in> set (dr_buckets dr)" "?D (bu_day b)" using \<open>?D (cg_day (snd x))\<close> by auto
    then show False using that by (auto simp: list_ex_iff in_period)
  qed
  obtain known where "series (ve_decimals ve) ca (dr_buckets dr) p (cq_granularity f) known = Inr (vw_series w)" using w by blast
  from chart_sums [OF laws this below] have "(\<Sum>pt\<leftarrow>vw_series w. v (po_total pt)) = (\<Sum>x\<leftarrow>?rows. v (row_billed x))"
    using bs by (simp add: in_period)
  then show ?thesis using w total credits empty by (auto split: if_splits)
qed

section \<open>Breakdown pages\<close>

text \<open>What is assumed of the database: its collation is a strict order, and cursors are read back.\<close>

definition collation :: "'d view_env \<Rightarrow> bool" where
  "collation ve \<longleftrightarrow> (\<forall>x. \<not> ve_before ve x x) \<and> (\<forall>x y z. ve_before ve x y \<longrightarrow> ve_before ve y z \<longrightarrow> ve_before ve x z) \<and>
     (\<forall>x y. x \<noteq> y \<longrightarrow> ve_before ve x y \<or> ve_before ve y x)"

definition codec_inverse :: "'d cursor_codec \<Rightarrow> bool" where
  "codec_inverse cd \<longleftrightarrow> (\<forall>c s. cc_encode cd c = Some s \<longrightarrow> cc_decode cd s = Some c)"

lemma group_before_iff:
  "decimal_laws (ve_decimals ve) v \<Longrightarrow>
   group_before ve (a, k) (b, l) \<longleftrightarrow> v b < v a \<or> v a = v b \<and> ve_before ve k l"
  by (auto simp: group_before_def decimal_laws_def)

text \<open>The order of groups is strict and, on distinct keys, total.\<close>

lemma collationD:
  assumes "collation ve"
  shows "\<not> ve_before ve x x" "ve_before ve x y \<Longrightarrow> ve_before ve y z \<Longrightarrow> ve_before ve x z"
    "x \<noteq> y \<Longrightarrow> ve_before ve x y \<or> ve_before ve y x"
  using assms unfolding collation_def by blast+

lemma group_before_trans:
  assumes "decimal_laws (ve_decimals ve) v" and "collation ve" and "group_before ve x y" "group_before ve y z"
  shows "group_before ve x z"
  using assms(3,4) collationD(2) [OF assms(2), of "snd x" "snd y" "snd z"]
  by (cases x, cases y, cases z) (simp add: group_before_iff [OF assms(1)], linarith)

lemma group_before_asym:
  assumes "decimal_laws (ve_decimals ve) v" and "collation ve" and "group_before ve x y"
  shows "\<not> group_before ve y x"
  using assms(3) collationD(1,2) [OF assms(2)]
  by (cases x, cases y) (simp add: group_before_iff [OF assms(1)], metis less_irrefl less_trans)

lemma group_before_total:
  assumes "decimal_laws (ve_decimals ve) v" and "collation ve" and "snd x \<noteq> snd y"
  shows "group_before ve x y \<or> group_before ve y x"
  using collationD(3) [OF assms(2,3)]
  by (cases x, cases y) (simp add: group_before_iff [OF assms(1)], linarith)

definition ordered_groups :: "'d view_env \<Rightarrow> (string, 'd) group_sum list \<Rightarrow> bool" where
  "ordered_groups ve gs \<longleftrightarrow> sorted_wrt (\<lambda>x y. group_before ve (position x) (position y)) gs"

lemma set_insert_group [simp]: "set (insert_group ve g gs) = insert g (set gs)"
  by (induction gs) auto

lemma position_key [simp]: "snd (position g) = fst g"
  by (simp add: position_def split: prod.split)

lemma ordered_insert_group:
  assumes "decimal_laws (ve_decimals ve) v" "collation ve"
  shows "ordered_groups ve gs \<Longrightarrow> fst g \<notin> fst ` set gs \<Longrightarrow> ordered_groups ve (insert_group ve g gs)"
proof (induction gs)
  case (Cons h gs)
  show ?case
  proof (cases "group_before ve (position h) (position g)")
    case True
    then show ?thesis using Cons by (auto simp: ordered_groups_def)
  next
    case False
    then have "group_before ve (position g) (position h)"
      using group_before_total [OF assms(1,2), of "position h" "position g"] Cons.prems(2) by auto
    then show ?thesis using Cons.prems(1) group_before_trans [OF assms(1,2)] False by (auto simp: ordered_groups_def)
  qed
qed (simp add: ordered_groups_def)

lemma order_groups_ordered:
  assumes "decimal_laws (ve_decimals ve) v" "collation ve"
  shows "distinct (map fst gs) \<Longrightarrow> ordered_groups ve (order_groups ve gs) \<and> set (order_groups ve gs) = set gs"
proof (induction gs)
  case (Cons g gs)
  then show ?case using ordered_insert_group [OF assms, of "order_groups ve gs" g] by (auto simp: order_groups_def)
qed (simp add: order_groups_def ordered_groups_def)

text \<open>An ordered list is determined by its elements.\<close>

lemma ordered_unique:
  assumes "decimal_laws (ve_decimals ve) v" "collation ve"
  shows "ordered_groups ve xs \<Longrightarrow> ordered_groups ve ys \<Longrightarrow> set xs = set ys \<Longrightarrow> xs = ys"
proof (induction xs arbitrary: ys)
  case (Cons x xs)
  then obtain y ys' where ys: "ys = y # ys'" by (cases ys) auto
  have irrefl: "\<not> group_before ve p p" for p using group_before_asym [OF assms, of p p] by blast
  have "x = y"
  proof (rule ccontr)
    assume "x \<noteq> y"
    then have "group_before ve (position x) (position y)" "group_before ve (position y) (position x)"
      using Cons.prems ys by (auto simp: ordered_groups_def)
    then show False using group_before_asym [OF assms] by blast
  qed
  moreover have "set xs = set ys'"
    using Cons.prems ys irrefl \<open>x = y\<close> by (fastforce simp: ordered_groups_def)
  ultimately show ?case using Cons ys by (auto simp: ordered_groups_def)
qed simp

lemma ordered_distinct:
  assumes "decimal_laws (ve_decimals ve) v" "collation ve"
  shows "ordered_groups ve gs \<Longrightarrow> distinct gs"
proof (induction gs)
  case (Cons g gs)
  have "\<not> group_before ve (position g) (position g)" using group_before_asym [OF assms] by blast
  then show ?case using Cons by (auto simp: ordered_groups_def)
qed simp

text \<open>What comes after a member of an ordered list is its tail.\<close>

lemma after_member:
  assumes "decimal_laws (ve_decimals ve) v" "collation ve"
  shows "ordered_groups ve gs \<Longrightarrow> m < length gs \<Longrightarrow>
    filter (\<lambda>g. group_before ve (position (gs ! m)) (position g)) gs = drop (Suc m) gs"
proof (induction gs arbitrary: m)
  case (Cons g gs)
  have irrefl: "\<not> group_before ve p p" for p using group_before_asym [OF assms, of p p] by blast
  show ?case
  proof (cases m)
    case 0
    then show ?thesis using Cons.prems irrefl by (auto simp: ordered_groups_def filter_id_conv)
  next
    case (Suc m')
    then have "gs ! m' \<in> set gs" using Cons.prems by simp
    then have "group_before ve (position g) (position (gs ! m'))" using Cons.prems(1) by (auto simp: ordered_groups_def)
    then have "\<not> group_before ve (position (gs ! m')) (position g)" using group_before_asym [OF assms] by blast
    then show ?thesis using Cons Suc by (auto simp: ordered_groups_def)
  qed
qed simp

text \<open>All contributors of a view, in order.\<close>

definition all_groups :: "'d view_env \<Rightarrow> cost_filter \<Rightarrow> 'd cost_row list \<Rightarrow> (string, 'd) group_sum list" where
  "all_groups ve f rows = order_groups ve (group_sums (ve_decimals ve) (dimension (cq_group f)) rows)"

lemma group_sums_keys: "map fst (group_sums dc key rows) = remdups (map key rows)"
  by (simp add: group_sums_def Let_def comp_def)

lemma all_groups_ordered:
  assumes "decimal_laws (ve_decimals ve) v" "collation ve"
  shows "ordered_groups ve (all_groups ve f rows) \<and>
    set (all_groups ve f rows) = set (group_sums (ve_decimals ve) (dimension (cq_group f)) rows)"
  unfolding all_groups_def by (rule order_groups_ordered [OF assms]) (simp add: group_sums_keys)

text \<open>A page that starts after the member \<open>m\<close> continues the list there.\<close>

lemma page_after:
  assumes "decimal_laws (ve_decimals ve) v" "collation ve" and m: "m < length (all_groups ve f rows)"
    and c: "cu_key c = fst (all_groups ve f rows ! m)" "v (cu_amount c) = v (fst (snd (all_groups ve f rows ! m)))"
  shows "breakdown_page ve f (Some c) limit rows = take (limit + 1) (drop (Suc m) (all_groups ve f rows))"
proof -
  let ?L = "all_groups ve f rows" and ?gs = "group_sums (ve_decimals ve) (dimension (cq_group f)) rows"
  note L = all_groups_ordered [OF assms(1,2), of f rows]
  have after: "after_boundary ve (Some c) g \<longleftrightarrow> group_before ve (position (?L ! m)) (position g)" for g
    using c by (cases "?L ! m", cases g) (simp add: after_boundary_def position_def group_before_iff [OF assms(1)])
  have "distinct (map fst (filter (after_boundary ve (Some c)) ?gs))"
    using distinct_map_filter [of fst ?gs] by (simp add: group_sums_keys)
  note page = order_groups_ordered [OF assms(1,2) this]
  have drop: "filter (\<lambda>g. group_before ve (position (?L ! m)) (position g)) ?L = drop (Suc m) ?L"
    by (rule after_member [OF assms(1,2) L [THEN conjunct1] m])
  have "ordered_groups ve (drop (Suc m) ?L)" using L by (simp add: ordered_groups_def sorted_wrt_drop)
  moreover have "set (drop (Suc m) ?L) = set (filter (after_boundary ve (Some c)) ?gs)"
    unfolding drop [symmetric] using L by (simp add: after)
  ultimately have "order_groups ve (filter (after_boundary ve (Some c)) ?gs) = drop (Suc m) ?L"
    using ordered_unique [OF assms(1,2)] page by metis
  then show ?thesis by (simp add: breakdown_page_def)
qed

lemma first_page: "breakdown_page ve f None limit rows = take (limit + 1) (all_groups ve f rows)"
proof -
  have "after_boundary ve None = (\<lambda>_. True)" by (simp add: after_boundary_def fun_eq_iff)
  then show ?thesis by (simp add: breakdown_page_def all_groups_def)
qed

lemma make_contributors_keys:
  assumes "decimal_laws dc v"
  shows "make_contributors dc gs = Inr cs \<Longrightarrow>
    map (\<lambda>c. (co_key c, v (co_amount c))) cs = map (\<lambda>(k, a, _). (k, v a)) gs"
proof (induction gs arbitrary: cs)
  case (Cons g gs)
  obtain k a n where g: "g = (k, a, n)" by (cases g) auto
  obtain a' c cs' where step: "checked_amount dc a = Inr a'" "make_contributors dc gs = Inr cs'"
    "cs = \<lparr>co_key = k, co_amount = a', co_credits = c, co_previous = None\<rparr> # cs'"
    using Cons.prems g by (auto split: sum.splits)
  show ?case using Cons.IH [OF step(2)] checked_amount_value [OF assms step(1)] step(3) g by simp
qed simp

text \<open>The pages of a breakdown, following the cursor of each to the next; \<open>None\<close> if a request fails or
  the pages do not end within the fuel.\<close>

fun follow_pages ::
  "'d view_env \<Rightarrow> calendar \<Rightarrow> instant \<Rightarrow> cost_config \<Rightarrow> 'd billing \<Rightarrow> nat \<Rightarrow> cost_filter \<Rightarrow> string list option" where
  "follow_pages ve ca now cc st 0 f = None"
| "follow_pages ve ca now cc st (Suc n) f =
     (case cost_view_of ve ca now cc f (\<lambda>_. st) of
        Inl _ \<Rightarrow> None
      | Inr w \<Rightarrow>
          (case vw_next_cursor w of
             None \<Rightarrow> Some (map co_key (vw_breakdown w))
           | Some s \<Rightarrow> map_option (\<lambda>ks. map co_key (vw_breakdown w) @ ks) (follow_pages ve ca now cc st n (f\<lparr>cq_cursor := Some s\<rparr>))))"

text \<open>A view of the groups from \<open>m\<close> on.\<close>

definition starts_at ::
  "'d view_env \<Rightarrow> calendar \<Rightarrow> instant \<Rightarrow> cost_config \<Rightarrow> 'd billing \<Rightarrow> period \<Rightarrow> 'd cost_row list \<Rightarrow> nat \<Rightarrow> cost_filter \<Rightarrow> bool" where
  "starts_at ve ca now cc st full rows m f \<longleftrightarrow>
     (\<forall>sources json fjson boundary limit. current_statuses ve ca now cc f st = Inr sources \<longrightarrow>
        ve_json_sources ve sources = Some json \<longrightarrow> ve_json_filter ve (normalized_view f full) = Some fjson \<longrightarrow>
        decode_cursor (ve_codec ve) (cq_cursor f) (ve_digest ve json) (ve_digest ve fjson) = Inr boundary \<longrightarrow>
        breakdown_page ve f boundary limit rows = take (limit + 1) (drop m (all_groups ve f rows)))"

text \<open>The cursor of a filter selects a page, nothing else.\<close>

lemma cursor_irrelevant_statuses [simp]:
  "current_statuses ve ca now cc (f\<lparr>cq_cursor := x\<rparr>) st = current_statuses ve ca now cc f st"
  by (cases "cost_status (ve_show_id ve) ca st") (simp_all add: current_statuses_def cost_statuses_def)

lemma cursor_irrelevant [simp]:
  "normalized_view (f\<lparr>cq_cursor := x\<rparr>) full = normalized_view f full"
  "breakdown_page ve (f\<lparr>cq_cursor := x\<rparr>) b limit rows = breakdown_page ve f b limit rows"
  "all_groups ve (f\<lparr>cq_cursor := x\<rparr>) rows = all_groups ve f rows"
  "view_period ca (f\<lparr>cq_cursor := x\<rparr>) full = view_period ca f full"
  by (simp_all add: normalized_view_def breakdown_page_def all_groups_def view_period_def)

lemma cursor_irrelevant_rows [simp]: "view_rows ve cc (f\<lparr>cq_cursor := x\<rparr>) full p st = view_rows ve cc f full p st"
proof -
  have "row_matches ve (f\<lparr>cq_cursor := x\<rparr>) = row_matches ve f"
    by (intro ext) (simp add: row_matches_def split: prod.split)
  then have same: "selected ve cc (f\<lparr>cq_cursor := x\<rparr>) = selected ve cc f"
    by (intro ext) (simp add: selected_def)
  show ?thesis by (simp add: view_rows_def same excluded_keys_def leading_keys_def)
qed

lemma cursor_irrelevant_period:
  "cost_period now (f\<lparr>cq_cursor := x\<rparr>) = Inr full' \<Longrightarrow> cost_period now f = Inr full \<Longrightarrow> full' = full"
  by (simp add: cost_period_def Let_def split: if_splits)

lemma view_page:
  assumes laws: "decimal_laws (ve_decimals ve) v" "collation ve" "codec_inverse (ve_codec ve)"
    and run: "cost_view_of ve ca now cc f (\<lambda>_. st) = Inr w" and full: "cost_period now f = Inr full" "view_period ca f full = Inr p"
    and start: "starts_at ve ca now cc st full (view_rows ve cc f full p st) m f"
  defines "L \<equiv> all_groups ve f (view_rows ve cc f full p st)" and "limit \<equiv> unwrap_or 50 (cq_limit f)"
  shows "map co_key (vw_breakdown w) = map fst (take limit (drop m L)) \<and>
    (case vw_next_cursor w of
       None \<Rightarrow> length L \<le> m + limit
     | Some s \<Rightarrow> starts_at ve ca now cc st full (view_rows ve cc f full p st) (m + limit) (f\<lparr>cq_cursor := Some s\<rparr>))"
proof -
  obtain full' p' sources json fjson boundary dr where *: "cost_period now f = Inr full'" "view_period ca f full' = Inr p'"
    "current_statuses ve ca now cc f st = Inr sources" "ve_json_sources ve sources = Some json"
    "ve_json_filter ve (normalized_view f full') = Some fjson"
    "decode_cursor (ve_codec ve) (cq_cursor f) (ve_digest ve json) (ve_digest ve fjson) = Inr boundary"
    "view_draft ve cc f full' p' (ve_digest ve json) (ve_digest ve fjson) boundary (\<lambda>_. st) = Inr dr"
    "cost_response ve ca now cc f sources dr (\<lambda>_. st) = Inr w"
    using cost_view_ofD [OF run] by metis
  have "full' = full" "p' = p" using * full by simp_all
  note * = * [unfolded this]
  have page: "breakdown_page ve f boundary limit (view_rows ve cc f full p st) = take (limit + 1) (drop m L)"
    using start *(3-6) unfolding starts_at_def L_def by blast
  obtain cs where dr: "dr_limit dr = limit" "dr_revision dr = ve_digest ve json" "dr_fingerprint dr = ve_digest ve fjson"
    "make_contributors (ve_decimals ve) (take (limit + 1) (drop m L)) = Inr cs"
    "map (\<lambda>c. c\<lparr>co_previous := None\<rparr>) (dr_breakdown dr) = cs"
    using view_draftD [OF *(7)] page unfolding limit_def view_rows_def by metis
  have limit: "0 < limit"
    using full(1) by (auto simp: limit_def cost_period_def Let_def unwrap_or_def split: if_splits option.splits)
  have pairs: "map (\<lambda>c. (co_key c, v (co_amount c))) (dr_breakdown dr) = map (\<lambda>(k, a, _). (k, v a)) (take (limit + 1) (drop m L))"
    using make_contributors_keys [OF laws(1) dr(4)] unfolding dr(5) [symmetric] by (simp add: comp_def)
  have keys: "map co_key (dr_breakdown dr) = map fst (take (limit + 1) (drop m L))"
    using arg_cong [OF pairs, of "map fst"] by (simp add: comp_def case_prod_beta)
  note w = cost_responseD [OF *(8), unfolded dr(1)]
  have shown: "map co_key (vw_breakdown w) = map fst (take limit (drop m L))"
    using w keys by (simp add: take_map [symmetric] min_def)
  have len: "length (dr_breakdown dr) = min (limit + 1) (length L - m)"
    using arg_cong [OF keys, of length] by simp
  show ?thesis
  proof (cases "vw_next_cursor w")
    case None
    then have "\<not> limit < length (dr_breakdown dr)"
      using w by (auto simp: next_page_cursor_def dr(1) split: if_splits sum.splits)
    then show ?thesis using shown len None by auto
  next
    case (Some s)
    let ?i = "m + limit - 1"
    have more: "limit < length (dr_breakdown dr)"
      and enc: "encode_cursor (ve_codec ve) (dr_breakdown dr ! (limit - 1)) (ve_digest ve json) (ve_digest ve fjson) = Inr s"
      using w Some by (auto simp: next_page_cursor_def dr(1-3) split: if_splits sum.splits)
    let ?c = "\<lparr>cu_amount = co_amount (dr_breakdown dr ! (limit - 1)), cu_key = co_key (dr_breakdown dr ! (limit - 1)),
        cu_revision = ve_digest ve json, cu_fingerprint = ve_digest ve fjson\<rparr>"
    have dec: "cc_decode (ve_codec ve) s = Some ?c"
      using enc laws(3) by (auto simp: encode_cursor_def codec_inverse_def split: option.splits)
    have here: "?i < length L" using more len limit by auto
    have "(co_key (dr_breakdown dr ! (limit - 1)), v (co_amount (dr_breakdown dr ! (limit - 1)))) = (fst (L ! ?i), v (fst (snd (L ! ?i))))"
      using arg_cong [OF pairs, of "\<lambda>xs. xs ! (limit - 1)"] more len limit here by (simp add: case_prod_beta)
    then have c: "cu_key ?c = fst (L ! ?i)" "v (cu_amount ?c) = v (fst (snd (L ! ?i)))" by simp_all
    have next_page: "breakdown_page ve f (Some ?c) l (view_rows ve cc f full p st) = take (l + 1) (drop (m + limit) L)" for l
      using page_after [OF laws(1,2) here [unfolded L_def] c [unfolded L_def], of l] limit by (simp add: L_def)
    have "starts_at ve ca now cc st full (view_rows ve cc f full p st) (m + limit) (f\<lparr>cq_cursor := Some s\<rparr>)"
      unfolding starts_at_def cursor_irrelevant cursor_irrelevant_statuses
    proof (intro allI impI)
      fix sources' json' fjson' boundary' l
      assume "current_statuses ve ca now cc f st = Inr sources'" "ve_json_sources ve sources' = Some json'"
        "ve_json_filter ve (normalized_view f full) = Some fjson'"
        and decoded: "decode_cursor (ve_codec ve) (cq_cursor (f\<lparr>cq_cursor := Some s\<rparr>)) (ve_digest ve json') (ve_digest ve fjson') = Inr boundary'"
      then have "boundary' = Some ?c" using * dec by (auto simp: decode_cursor_def split: if_splits)
      then show "breakdown_page ve f boundary' l (view_rows ve cc f full p st) =
          take (l + 1) (drop (m + limit) (all_groups ve f (view_rows ve cc f full p st)))"
        using next_page by (simp add: L_def)
    qed
    then show ?thesis using shown Some by simp
  qed
qed

lemma follow_from:
  assumes laws: "decimal_laws (ve_decimals ve) v" "collation ve" "codec_inverse (ve_codec ve)"
    and full: "view_period ca f full = Inr p"
  shows "follow_pages ve ca now cc st n f' = Some ks \<Longrightarrow> cost_period now f' = Inr full \<Longrightarrow> f' = f\<lparr>cq_cursor := x\<rparr> \<Longrightarrow>
    starts_at ve ca now cc st full (view_rows ve cc f full p st) m f' \<Longrightarrow>
    ks = map fst (drop m (all_groups ve f (view_rows ve cc f full p st)))"
proof (induction n arbitrary: f' ks m x)
  case (Suc n)
  obtain w where w: "cost_view_of ve ca now cc f' (\<lambda>_. st) = Inr w"
    using Suc.prems(1) by (auto split: sum.splits)
  have start: "starts_at ve ca now cc st full (view_rows ve cc f' full p st) m f'" using Suc.prems(3,4) by simp
  have "view_period ca f' full = Inr p" using full Suc.prems(3) by simp
  note page = view_page [OF laws w Suc.prems(2) this start]
  show ?case
  proof (cases "vw_next_cursor w")
    case None
    then have "take (unwrap_or 50 (cq_limit f')) (drop m (all_groups ve f (view_rows ve cc f full p st))) =
        drop m (all_groups ve f (view_rows ve cc f full p st))"
      using page Suc.prems(3) None by (auto simp: le_diff_conv)
    then show ?thesis using None page Suc.prems(1,3) w by simp
  next
    case (Some s)
    let ?f = "f'\<lparr>cq_cursor := Some s\<rparr>"
    obtain ks' where ks': "follow_pages ve ca now cc st n ?f = Some ks'" "ks = map co_key (vw_breakdown w) @ ks'"
      using Suc.prems(1) w Some by auto
    have f: "?f = f\<lparr>cq_cursor := Some s\<rparr>" using Suc.prems(3) by simp
    have "\<exists>w'. cost_view_of ve ca now cc ?f (\<lambda>_. st) = Inr w'"
      using ks'(1) by (cases n) (auto split: sum.splits)
    then obtain full' where full': "cost_period now ?f = Inr full'" using cost_view_ofD by metis
    then have same: "cost_period now ?f = Inr full" using cursor_irrelevant_period [OF full' Suc.prems(2)] by simp
    have "starts_at ve ca now cc st full (view_rows ve cc f full p st) (m + unwrap_or 50 (cq_limit f')) ?f"
      using page Some Suc.prems(3) by simp
    note rest = Suc.IH [OF ks'(1) same f this]
    let ?L = "all_groups ve f (view_rows ve cc f full p st)" and ?l = "unwrap_or 50 (cq_limit f')"
    have "ks = map fst (take ?l (drop m ?L) @ drop (m + ?l) ?L)" using rest page ks'(2) Suc.prems(3) by simp
    also have "take ?l (drop m ?L) @ drop (m + ?l) ?L = drop m ?L"
      using append_take_drop_id [of ?l "drop m ?L"] by (simp add: add.commute)
    finally show ?thesis .
  qed
qed simp

section \<open>Properties\<close>



section \<open>A sample view\<close>

definition sample_charge :: "rat charge" where
  "sample_charge = \<lparr>cg_target = None, cg_day = 0, cg_invoice_month = None, cg_provider = CostAws, cg_scope = None, cg_region = None,
     cg_product = ''EC2'', cg_resource = None, cg_category = None, cg_currency = ''USD'', cg_billed = 5, cg_effective = Some 4\<rparr>"

definition charged_day :: "rat billing" where
  "charged_day = today_published\<lparr>bl_daily := [\<lparr>bd_import = 1, bd_key = ''k'', bd_charge = sample_charge\<rparr>]\<rparr>"

definition view_costs :: cost_config where
  "view_costs = one_day\<lparr>cc_sources := [sample_source]\<rparr>"

text \<open>Texts that stand for JSON: different statuses have different ones.\<close>

definition status_fields ::
  "source_status \<Rightarrow> string \<times> string \<times> string \<times> instant option \<times> date option \<times> date option \<times> string option \<times> string option" where
  "status_fields s = (so_id s, provider_text (so_provider s), so_state s, so_imported_at s, so_from s, so_to s, so_revision s, so_fault s)"

definition status_text :: "source_status list \<Rightarrow> string" where
  "status_text ss = replicate (to_nat (map status_fields ss)) CHR ''x''"

lemma inj_status_text: "inj status_text"
proof -
  have "inj provider_text" by (auto simp: inj_def elim: provider_text.elims)
  then have "inj status_fields" by (auto simp: inj_def status_fields_def intro!: source_status.equality)
  then have "inj (\<lambda>ss. to_nat (map status_fields ss))" by (auto simp: inj_def inj_map_eq_map)
  then show ?thesis by (auto simp: inj_def status_text_def replicate_eq_replicate)
qed

definition sample_view_env :: "rat view_env" where
  "sample_view_env = \<lparr>ve_decimals = rational_decimal, ve_before = \<lambda>x y. (x, y) \<in> lexord {(a, b). a < b}, ve_ilike = \<lambda>_ _. True,
     ve_json_sources = \<lambda>ss. Some (status_text ss), ve_json_filter = \<lambda>_. Some [], ve_digest = \<lambda>s. s,
     ve_show_id = \<lambda>n. replicate n CHR ''x'',
     ve_codec = \<lparr>cc_encode = \<lambda>_. None, cc_decode = \<lambda>_. None\<rparr>\<rparr>"

definition view_filter :: cost_filter where
  "view_filter = \<lparr>cq_from = Some 0, cq_to = Some 1, cq_currency = None, cq_measure = Billed, cq_group = GProduct,
     cq_granularity = Daily, cq_target = None, cq_provider = None, cq_scope = None, cq_product = None, cq_region = None,
     cq_category = None, cq_resource = None, cq_contributor = None, cq_day = None, cq_q = None, cq_cursor = None,
     cq_revision = None, cq_limit = None\<rparr>"

lemma sample_collation: "collation sample_view_env"
proof -
  have tr: "trans {(a, b :: char). a < b}" by (auto simp: trans_def)
  have "(x, y) \<in> lexord {(a, b). a < b} \<or> x = y \<or> (y, x) \<in> lexord {(a, b). a < b}" for x y :: string
    by (rule lexord_linear) (auto simp: less_linear)
  moreover have "(x, x) \<notin> lexord {(a, b). a < b}" for x :: string by (rule lexord_irreflexive) simp
  ultimately show ?thesis using lexord_trans [OF _ _ tr] by (fastforce simp: collation_def sample_view_env_def)
qed

lemma sample_period: "cost_period 0 view_filter = Inr \<lparr>pe_from = 0, pe_to = 1\<rparr>"
  by (simp add: cost_period_def view_filter_def date_of_def)

lemma sample_selected:
  "selected sample_view_env view_costs view_filter start 1 [] True charged_day =
     (if start \<le> 0 then [(snd (hd (bl_sources today_published)), sample_charge)] else [])"
  by (simp add: selected_def joined_def charged_day_def today_published_def List.map_filter_simps row_source_def
      row_matches_def view_filter_def sample_charge_def view_costs_def source_names_def sample_source_def column_is_def dimension_def)

lemma sample_groups:
  "group_sums rational_decimal key [x] = [(key x, sum_decimals rational_decimal [row_billed x], sum_decimals rational_decimal [row_net x])]"
  "group_sums dc key [] = []"
  by (simp_all add: group_sums_def)

lemma sample_view:
  "\<exists>w. cost_view_of sample_view_env endless 0 view_costs view_filter (\<lambda>_. charged_day) = Inr w \<and>
     vw_next_cursor w = None \<and> vw_breakdown w = [\<lparr>co_key = ''v:EC2'', co_amount = 5, co_credits = -1, co_previous = None\<rparr>] \<and>
     vw_period w = \<lparr>pe_from = 0, pe_to = 1\<rparr> \<and> vw_total w = Some 5 \<and> vw_credits w = Some (-1)"
proof -
  obtain ss where ss: "current_statuses sample_view_env endless 0 view_costs view_filter charged_day = Inr ss"
    by (simp add: current_statuses_def cost_status_def charged_day_def today_published_def)
  have env: "ve_decimals sample_view_env = rational_decimal" "ve_json_sources sample_view_env x = Some (status_text x)"
    "ve_json_filter sample_view_env f = Some []" "ve_digest sample_view_env t = t" for x f t
    by (simp_all add: sample_view_env_def)
  have f: "cq_group view_filter = GProduct" "cq_limit view_filter = None" "cq_contributor view_filter = None"
    "cq_measure view_filter = Billed" "cq_cursor view_filter = None" "cq_revision view_filter = None" "cq_day view_filter = None"
    "cq_granularity view_filter = Daily"
    by (simp_all add: view_filter_def)
  let ?row = "(snd (hd (bl_sources today_published)), sample_charge)"
  have row: "dimension GProduct ?row = ''v:EC2''" "row_billed ?row = 5" "row_net ?row = 4" "cg_day (snd ?row) = 0" "cg_day sample_charge = 0"
    by (simp_all add: dimension_def group_key_def sample_charge_def row_billed_def row_net_def unwrap_or_def)
  let ?dr = "\<lparr>dr_buckets = [\<lparr>bu_day = 0, bu_key = ''v:EC2'', bu_amount = 5, bu_credits = -1\<rparr>],
      dr_breakdown = [\<lparr>co_key = ''v:EC2'', co_amount = 5, co_credits = -1, co_previous = Some 0\<rparr>], dr_count = 1,
      dr_period = \<lparr>pe_from = 0, pe_to = 1\<rparr>, dr_previous = \<lparr>pe_from = -1, pe_to = 0\<rparr>, dr_revision = status_text ss, dr_fingerprint = [],
      dr_limit = 50\<rparr> :: rat draft"
  have before: "selected sample_view_env view_costs view_filter (-1) 0 [] True charged_day = []"
    by (simp add: selected_def joined_def charged_day_def today_published_def List.map_filter_simps row_source_def
        row_matches_def sample_charge_def)
  have draft: "view_draft sample_view_env view_costs view_filter \<lparr>pe_from = 0, pe_to = 1\<rparr> \<lparr>pe_from = 0, pe_to = 1\<rparr> (status_text ss) [] None
      (\<lambda>_. charged_day) = Inr ?dr"
    by (simp add: view_draft_def Let_def env f excluded_keys_def sample_selected before breakdown_page_def sample_groups row
        order_groups_def after_boundary_def sum_decimals_def row_credits_def checked_amount_def from_decimal_def leading_keys_def
        view_buckets_def unwrap_or_def) (simp add: rational_decimal_def)
  let ?bs = "[\<lparr>bu_day = 0, bu_key = ''v:EC2'', bu_amount = 5, bu_credits = -1\<rparr>] :: rat bucket list"
  have amounts: "add_amounts rational_decimal a b = Inr (a + b)" if "\<bar>a + b\<bar> < 100" for a b
    using that by (simp add: add_amounts_def from_decimal_def rational_decimal_def)
  have zero: "zero_amount rational_decimal = 0" by (simp add: zero_amount_def rational_decimal_def)
  have here: "within_period \<lparr>pe_from = 0, pe_to = 1\<rparr> (hd ?bs)" by (simp add: within_period_def)
  have sums: "period_total rational_decimal ?bs \<lparr>pe_from = 0, pe_to = 1\<rparr> = Inr 5"
    "period_credits rational_decimal ?bs \<lparr>pe_from = 0, pe_to = 1\<rparr> = Inr (-1)"
    by (simp_all add: period_total_def period_credits_def within_period_def amounts zero)
  have chart: "\<exists>pts. series rational_decimal endless ?bs \<lparr>pe_from = 0, pe_to = 1\<rparr> Daily False = Inr pts"
    by (simp add: series_def series_row_def align_day_def add_both_def amounts zero unwrap_or_def make_point_def)
  then obtain pts where pts: "series rational_decimal endless ?bs \<lparr>pe_from = 0, pe_to = 1\<rparr> Daily False = Inr pts" by blast
  have "\<exists>w. cost_response sample_view_env endless 0 view_costs view_filter ss ?dr (\<lambda>_. charged_day) = Inr w \<and>
     vw_next_cursor w = None \<and> vw_breakdown w = [\<lparr>co_key = ''v:EC2'', co_amount = 5, co_credits = -1, co_previous = None\<rparr>] \<and>
     vw_period w = \<lparr>pe_from = 0, pe_to = 1\<rparr> \<and> vw_total w = Some 5 \<and> vw_credits w = Some (-1)"
    using ss here sums pts
    by (simp add: cost_response_def Let_def env f date_of_def when_known_def as_record_def next_page_cursor_def)
  then show ?thesis
    using ss draft by (simp add: cost_view_of_def sample_period as_record_def view_period_def f env Let_def decode_cursor_def)
qed



end
