(* ===== verification/View_Consistency.thy ===== *)
theory View_Consistency
  imports Cost_View_Properties Allowance_Properties
begin

text \<open>
  A billing view reads the store with several statements while the worker goes on. This theory shows that
  the revision it checks at the end is enough: a view that is answered saw one publication of every
  source it reports.
\<close>

section \<open>What a source can become\<close>

definition revision_of :: "'d billing \<Rightarrow> nat \<Rightarrow> nat option" where
  "revision_of st s = (case bm_get (bl_sources st) s of None \<Rightarrow> None | Some sr \<Rightarrow> br_revision sr)"

text \<open>An import that cannot be published any more, because it has been.\<close>

definition settled_import :: "'d billing \<Rightarrow> nat \<Rightarrow> bool" where
  "settled_import st r \<longleftrightarrow> r < bl_next st \<and> (\<forall>i. bm_get (bl_imports st) r = Some i \<longrightarrow> bi_published_at i \<noteq> None)"

definition revisions_settled :: "'d billing \<Rightarrow> bool" where
  "revisions_settled st \<longleftrightarrow> (\<forall>s r. revision_of st s = Some r \<longrightarrow> settled_import st r)"

text \<open>From one store to a later one: a source keeps its revision, and then loses at most its oldest days,
  or it has a revision that was not yet published.\<close>

definition only_loses_oldest :: "'d billing \<Rightarrow> 'd billing \<Rightarrow> nat \<Rightarrow> bool" where
  "only_loses_oldest st st' s \<longleftrightarrow>
     (\<forall>d. published_view st' s d \<in> {None, published_view st s d}) \<and>
     (\<forall>d d'. published_view st s d \<noteq> None \<longrightarrow> published_view st' s d = None \<longrightarrow> published_view st' s d' \<noteq> None \<longrightarrow> d < d')"

definition later_store :: "'d billing \<Rightarrow> 'd billing \<Rightarrow> bool" where
  "later_store st st' \<longleftrightarrow>
     (\<forall>s n. source_name st s = Some n \<longrightarrow> source_name st' s = Some n) \<and>
     (\<forall>r. settled_import st r \<longrightarrow> settled_import st' r) \<and>
     (\<forall>s. revision_of st' s = revision_of st s \<and> only_loses_oldest st st' s \<or>
        (\<exists>r. revision_of st' s = Some r \<and> \<not> settled_import st r \<and> settled_import st' r))"

lemma keeps_days: "published_view st' = published_view st \<Longrightarrow> only_loses_oldest st st' s"
  by (auto simp: only_loses_oldest_def)

lemma later_store_refl: "later_store st st"
  unfolding later_store_def by (simp add: keeps_days)

lemma only_loses_trans: "only_loses_oldest st st1 s \<Longrightarrow> only_loses_oldest st1 st2 s \<Longrightarrow> only_loses_oldest st st2 s"
  unfolding only_loses_oldest_def by (metis insertE insertI1 singletonD)

lemma later_storeD:
  assumes "later_store st st'"
  shows "source_name st s = Some n \<Longrightarrow> source_name st' s = Some n" and "settled_import st r \<Longrightarrow> settled_import st' r"
    and "revision_of st' s = revision_of st s \<and> only_loses_oldest st st' s \<or>
        (\<exists>r. revision_of st' s = Some r \<and> \<not> settled_import st r \<and> settled_import st' r)"
  using assms unfolding later_store_def by blast+

lemma later_store_trans:
  assumes "later_store st st1" and "later_store st1 st2"
  shows "later_store st st2"
proof -
  have "revision_of st2 s = revision_of st s \<and> only_loses_oldest st st2 s \<or>
      (\<exists>r. revision_of st2 s = Some r \<and> \<not> settled_import st r \<and> settled_import st2 r)" for s
    using later_storeD(3) [OF assms(1), of s] later_storeD(3) [OF assms(2), of s] only_loses_trans [of st st1 s st2]
      later_storeD(2) [OF assms(1)] later_storeD(2) [OF assms(2)]
    by (elim disjE exE conjE) (simp, metis+)
  then show ?thesis unfolding later_store_def using later_storeD [OF assms(1)] later_storeD [OF assms(2)] by blast
qed

section \<open>Steps of the worker\<close>

text \<open>A step that readers do not see and that touches no revision.\<close>

lemma later_quiet:
  assumes "published_view st' = published_view st" and "\<And>s n. source_name st s = Some n \<Longrightarrow> source_name st' s = Some n"
    and "\<And>s. revision_of st' s = revision_of st s" and "\<And>r. settled_import st r \<Longrightarrow> settled_import st' r"
  shows "later_store st st'"
  unfolding later_store_def using assms(2-4) keeps_days [OF assms(1)] by blast

lemma revision_sources: "bl_sources st' = bl_sources st \<Longrightarrow> revision_of st' s = revision_of st s"
  by (simp add: revision_of_def)

lemma settled_imports_cong: "bl_imports st' = bl_imports st \<Longrightarrow> bl_next st' = bl_next st \<Longrightarrow> settled_import st' r = settled_import st r"
  by (simp add: settled_import_def)

lemma settled_when:
  assumes "settled_import st r" and "bl_next st \<le> bl_next st'"
    and "\<And>i. bm_get (bl_imports st') r = Some i \<Longrightarrow> \<exists>i'. bm_get (bl_imports st) r = Some i' \<and> bi_published_at i' = bi_published_at i"
  shows "settled_import st' r"
  using assms unfolding settled_import_def by (metis order_less_le_trans)

lemma insert_source_later:
  assumes ok: "billing_ok st" and "insert_source src st = Some st1"
  shows "(\<forall>s n. source_name st s = Some n \<longrightarrow> source_name st1 s = Some n) \<and> (\<forall>s. revision_of st1 s = revision_of st s) \<and>
    (\<forall>r. settled_import st r \<longrightarrow> settled_import st1 r)"
proof (cases "st1 = st")
  case False
  then obtain s where st1: "st1 = st\<lparr>bl_sources := bm_put (bl_next st) s (bl_sources st), bl_next := bl_next st + 1\<rparr>" "br_revision s = None"
    using assms(2) by (auto simp: insert_source_def split: if_splits)
  have "bm_get (bl_sources st) (bl_next st) = None" using billing_okD(5) [OF ok] by fastforce
  then show ?thesis by (auto simp: st1 source_name_def revision_of_def settled_import_def get_bm_put)
qed auto

lemma cost_begin_later:
  assumes ok: "billing_ok st" and run: "cost_begin now cc src p st = (Inr h, st')"
  shows "later_store st st'"
proof -
  have view: "published_view st' = published_view st" using cost_begin_shown [OF ok run] by (simp add: same_shown_def)
  from run refl show ?thesis
  proof (cases rule: cost_begin_cases)
    case (resumed st1 source row k i st2)
    have ok1: "billing_ok st1" using insert_source_shown [OF ok resumed(1)] by (simp add: same_shown_def)
    note pending = pending_import_live [OF ok1 resumed(3)]
    have st2: "bl_sources st2 = bl_sources st1" "bl_next st2 = bl_next st1"
      "\<And>r i. bm_get (bl_imports st2) r = Some i \<Longrightarrow> \<exists>i'. bm_get (bl_imports st1) r = Some i' \<and> bi_published_at i' = bi_published_at i"
      using resumed(4) pending by (auto simp: resume_import_def get_bm_put split: if_splits)
    have same: "bl_sources st' = bl_sources st1" "bl_imports st' = bl_imports st2" "bl_next st' = bl_next st1"
      using st2(1,2) by (simp_all add: resumed(6) drop_staged_def)
    note before = insert_source_later [OF ok resumed(1)]
    have settled: "settled_import st' r" if "settled_import st r" for r
      using before that settled_when [of st1 r st'] st2(3) [of r] same by fastforce
    show ?thesis
      using before settled unfolding source_name_sources [OF same(1), symmetric] revision_sources [OF same(1), symmetric]
      by (intro later_quiet [OF view]) blast+
  next
    case (fresh st1 source row st2)
    obtain new where st2: "st2 = st1\<lparr>bl_imports := bm_put (bl_next st1) new (bl_imports st1), bl_next := bl_next st1 + 1\<rparr>"
      using fresh(4) by (auto simp: new_import_def split: if_splits)
    show ?thesis
      using insert_source_later [OF ok fresh(1)]
      by (intro later_quiet [OF view])
        (auto simp: fresh(6) st2 drop_staged_def source_name_def revision_of_def settled_import_def get_bm_put split: if_splits)
  qed
qed

lemma cost_publish_later:
  assumes ok: "billing_ok st" and live: "live st h" and run: "cost_publish ca now h m retention st = (Inr u, st')"
  shows "later_store st st'"
proof -
  let ?oldest = "date_of now - int retention"
  have st': "st' = st\<lparr>bl_partitions := bm_retain (\<lambda>(_, d) _. ?oldest \<le> d) (publish_days h (bl_partitions st)),
           bl_imports := update_row (ih_id h) (\<lambda>i. i\<lparr>bi_published_at := Some now\<rparr>) (bl_imports st),
           bl_sources := update_row (ih_source h) (\<lambda>s. s\<lparr>br_revision := Some (ih_id h), br_imported_at := Some now,
             br_fault := None\<rparr>) (bl_sources st)\<rparr>"
    using run by (auto simp: cost_publish_def split: if_splits)
  have view: "published_view st' = republished st h ?oldest (published_view st)"
    using cost_publish_shown [OF ok run] by blast
  have settled: "settled_import st r \<Longrightarrow> settled_import st' r" for r
    by (auto simp: settled_import_def st' get_update_row split: if_splits)
  have fresh: "\<not> settled_import st (ih_id h)" "settled_import st' (ih_id h)"
    using live billing_okD(4) [OF ok] by (auto simp: live_def settled_import_def st' get_update_row)
  have "revision_of st' s = revision_of st s \<and> only_loses_oldest st st' s \<or>
      (\<exists>r. revision_of st' s = Some r \<and> \<not> settled_import st r \<and> settled_import st' r)" for s
  proof (cases "s = ih_source h")
    case True
    then have "revision_of st' s = Some (ih_id h)" using live by (auto simp: revision_of_def st' get_update_row live_def)
    then show ?thesis using fresh by blast
  next
    case False
    then show ?thesis by (auto simp: revision_of_def st' get_update_row only_loses_oldest_def view [unfolded st'] republished_def)
  qed
  then show ?thesis using settled source_name_publish [OF run] unfolding later_store_def by simp
qed

lemma step_later:
  assumes "billing_step be ca x y" and ok: "worker_ok x"
  shows "later_store (fst x) (fst y)"
  using assms(1)
proof (cases rule: billing_step.cases)
  case (begun now cc src p st h st')
  then show ?thesis using cost_begin_later ok by (auto simp: worker_ok_def)
next
  case (stages h charges st n st')
  then have "bl_sources st' = bl_sources st" "bl_imports st' = bl_imports st" "bl_next st' = bl_next st"
    by (auto simp: cost_stage_def split: if_splits option.splits)
  note same = this
  have view: "published_view st' = published_view st"
    using staging.keeps_view [of st h be charges] ok stages by (simp add: worker_ok_def)
  have "later_store st st'"
    by (rule later_quiet [OF view])
      (simp_all only: source_name_sources [OF same(1)] revision_sources [OF same(1)] settled_imports_cong [OF same(2,3)])
  then show ?thesis using stages by simp
next
  case (publishes now h expected retention st u st')
  then show ?thesis using cost_publish_later ok by (auto simp: worker_ok_def)
next
  case (abandons st h)
  then show ?thesis by (simp add: later_store_refl)
next
  case (settles h bytes st u st')
  then have "published_view st' = published_view st"
    using settling.keeps_view [of st h bytes] ok by (simp add: worker_ok_def)
  then show ?thesis using settles
    by (intro later_quiet) (auto simp: cost_settle_def source_name_def revision_of_def settled_import_def get_update_row split: if_splits)
next
  case (attempts st h now)
  then have "published_view (cost_attempt now h st) = published_view st"
    using attempting.keeps_view [of st now h] ok by (simp add: worker_ok_def)
  then show ?thesis using attempts
    by (intro later_quiet) (auto simp: cost_attempt_def source_name_def revision_of_def settled_import_def get_update_row split: if_splits)
next
  case (faults name fault st u st' ho)
  then have "published_view st' = published_view st"
    using faulting.keeps_view [of st name fault] ok by (simp add: worker_ok_def)
  note view = this
  have st': "st' = st \<or> st' = st\<lparr>bl_sources := bm_mapv (\<lambda>_ s. if br_name s = name then s\<lparr>br_fault := Some fault\<rparr> else s)
             (bl_sources st)\<rparr>" using faults by (auto simp: cost_fault_def split: if_splits)
  have "source_name st' s = source_name st s \<and> revision_of st' s = revision_of st s \<and> settled_import st' r = settled_import st r" for s r
    using st' by (cases "bm_get (bl_sources st) s")
      (auto simp: source_name_def revision_of_def settled_import_def get_bm_mapv)
  then show ?thesis using later_quiet [OF view] faults by simp
next
  case (cleans_imports st ho)
  then have ok': "billing_ok st" using ok by (simp add: worker_ok_def)
  have wf: "bm_wf (bl_imports st)" by (rule billing_okD(2) [OF ok'])
  show ?thesis using cleans_imports cleaning_imports.keeps_view [OF ok']
    by (intro later_quiet)
      (auto simp: clean_imports_def Let_def source_name_def revision_of_def settled_import_def get_bm_retain [OF wf]
        split: if_splits option.splits)
next
  case (cleans_rows st ho)
  then have "billing_ok st" using ok by (simp add: worker_ok_def)
  then show ?thesis using cleans_rows cleaning_rows.keeps_view [of st]
    by (intro later_quiet) (auto simp: clean_rows_def source_name_def revision_of_def settled_import_def)
qed

lemma run_revisions_settled: "billing_run be ca x \<Longrightarrow> revisions_settled (fst x)"
proof (induction rule: billing_run.induct)
  case opened
  then show ?case by (simp add: revisions_settled_def revision_of_def opened_billing_def)
next
  case (stepped x y)
  have "later_store (fst x) (fst y)" using step_later [OF stepped(2)] worker_run [OF stepped(1)] .
  note later = later_storeD [OF this]
  show ?case unfolding revisions_settled_def
  proof (intro allI impI)
    fix s r assume "revision_of (fst y) s = Some r"
    then show "settled_import (fst y) r"
      using later(3) [of s] later(2) [of r] stepped.IH by (auto simp: revisions_settled_def)
  qed
qed

text \<open>The worker goes on from one state to another.\<close>

inductive worker_goes_on :: "'d billing_env \<Rightarrow> calendar \<Rightarrow> 'd billing \<times> import_handle option \<Rightarrow>
    'd billing \<times> import_handle option \<Rightarrow> bool" for be ca x where
  idle: "worker_goes_on be ca x x"
| goes: "worker_goes_on be ca x y \<Longrightarrow> billing_step be ca y z \<Longrightarrow> worker_goes_on be ca x z"

lemma worker_goes_on_later:
  assumes "worker_goes_on be ca x y" and "billing_run be ca x"
  shows "billing_run be ca y \<and> later_store (fst x) (fst y)"
  using assms
proof (induction rule: worker_goes_on.induct)
  case (goes y z)
  then have "billing_run be ca y" "later_store (fst x) (fst y)" by blast+
  then show ?case
    using stepped [OF _ goes(2)] step_later [OF goes(2)] worker_run [of be ca y] later_store_trans by blast
qed (simp add: later_store_refl)

section \<open>What a status tells\<close>

lemma find_only:
  assumes "x \<in> set xs" and "P x" and "\<And>y. y \<in> set xs \<Longrightarrow> P y \<Longrightarrow> y = x"
  shows "find P xs = Some x"
proof (cases "find P xs")
  case None
  then show ?thesis using assms(1,2) by (auto simp: find_None_iff)
next
  case (Some y)
  then have "y \<in> set xs" "P y" by (auto simp: find_Some_iff)
  then show ?thesis using Some assms(3) by simp
qed

lemma stored_status_found:
  assumes "billing_ok st" and "names_unique st" and "cost_status show ca st = Inr stored" and "bm_get (bl_sources st) s = Some row"
  shows "find (\<lambda>x. so_id x = br_name row) stored = Some (stored_status show ca st (s, row))"
proof (rule find_only)
  have wf: "bm_wf (bl_sources st)" using assms(1) by (simp add: billing_ok_def)
  have stored: "stored = map (stored_status show ca st) (bl_sources st)"
    using assms(3) by (auto simp: cost_status_def Let_def split: if_splits)
  have name: "so_id (stored_status show ca st x) = br_name (snd x)" for x
    by (cases x) (simp add: stored_status_def Let_def)
  show "stored_status show ca st (s, row) \<in> set stored" using map_of_SomeD [OF assms(4)] by (simp add: stored)
  show "so_id (stored_status show ca st (s, row)) = br_name row" by (simp add: name)
  fix y assume "y \<in> set stored" "so_id y = br_name row"
  then obtain k r where x: "(k, r) \<in> set (bl_sources st)" "y = stored_status show ca st (k, r)" "br_name r = br_name row"
    by (auto simp: stored name)
  then have "bm_get (bl_sources st) k = Some r" using wf by (simp add: bm_wf_distinct)
  then have "k = s" using assms(2,4) x(3) unfolding names_unique_def by blast
  then show "y = stored_status show ca st (s, row)" using x(2) assms(4) \<open>bm_get (bl_sources st) k = Some r\<close> by simp
qed

lemma source_state_keeps:
  "so_revision (source_state now cc stored src) = so_revision (unwrap_or (waiting_status src) (find (\<lambda>s. so_id s = cs_id src) stored))"
  "so_from (source_state now cc stored src) = so_from (unwrap_or (waiting_status src) (find (\<lambda>s. so_id s = cs_id src) stored))"
  by (simp_all add: source_state_def Let_def)

definition first_day :: "'d billing \<Rightarrow> nat \<Rightarrow> date option" where
  "first_day st s = list_min (map (\<lambda>((_, d), _). d) (filter (\<lambda>((k, _), _). k = s) (bl_partitions st)))"

lemma first_day_least:
  assumes "billing_ok st"
  shows "(case first_day st s of None \<Rightarrow> \<forall>d. published_view st s d = None
    | Some m \<Rightarrow> published_view st s m \<noteq> None \<and> (\<forall>d. published_view st s d \<noteq> None \<longrightarrow> m \<le> d))"
proof -
  have wf: "bm_wf (bl_partitions st)" using assms by (simp add: billing_ok_def)
  have "set (map (\<lambda>((_, d), _). d) (filter (\<lambda>((k, _), _). k = s) (bl_partitions st))) = {d. published_view st s d \<noteq> None}"
    using bm_wf_distinct [OF wf] by (auto simp: view_None image_iff)
  then have days: "published_view st s d \<noteq> None \<longleftrightarrow>
      d \<in> set (map (\<lambda>((_, d), _). d) (filter (\<lambda>((k, _), _). k = s) (bl_partitions st)))" for d by blast
  show ?thesis
  proof (cases "first_day st s")
    case None
    then have "\<not> published_view st s d \<noteq> None" for d unfolding days by (simp add: first_day_def)
    then show ?thesis using None by simp
  next
    case (Some m)
    then show ?thesis using list_min_Some [of _ m] unfolding first_day_def by (simp only: days option.case) blast
  qed
qed

text \<open>Equal statuses tell that a source has the same revision and the same first day.\<close>

lemma same_statuses:
  assumes st: "billing_ok st" "names_unique st" and st': "billing_ok st'" "names_unique st'" and inj: "inj show"
    and now: "cost_status show ca st = Inr stored" "cost_status show ca st' = Inr stored'"
    and same: "source_state t cc stored src = source_state t cc stored' src"
    and name: "source_name st s = Some (cs_id src)" "source_name st' s = Some (cs_id src)"
  shows "revision_of st' s = revision_of st s \<and> first_day st' s = first_day st s"
proof -
  obtain row row' where rows: "bm_get (bl_sources st) s = Some row" "br_name row = cs_id src"
    "bm_get (bl_sources st') s = Some row'" "br_name row' = cs_id src"
    using name by (auto simp: source_name_def map_option_eq_Some)
  have found: "find (\<lambda>x. so_id x = cs_id src) stored = Some (stored_status show ca st (s, row))"
    "find (\<lambda>x. so_id x = cs_id src) stored' = Some (stored_status show ca st' (s, row'))"
    using stored_status_found [OF st now(1) rows(1)] stored_status_found [OF st' now(2) rows(3)] rows by simp_all
  have "map_option show (br_revision row) = map_option show (br_revision row')" "first_day st s = first_day st' s"
    using arg_cong [OF same, of so_revision] arg_cong [OF same, of so_from]
    by (simp_all add: source_state_keeps found unwrap_or_def stored_status_def Let_def first_day_def)
  then show ?thesis using rows injD [OF option.inj_map [OF inj]] by (simp add: revision_of_def)
qed

section \<open>One publication\<close>

text \<open>Nothing was published in between, and nothing of what a source showed went away.\<close>

lemma nothing_published:
  assumes ok: "billing_ok st0" "billing_ok st2" and settled: "revisions_settled st0"
    and later: "later_store st0 st1" "later_store st1 st2"
    and same: "revision_of st2 s = revision_of st0 s" "first_day st2 s = first_day st0 s"
  shows "published_view st1 s = published_view st0 s"
proof
  fix d
  have no_fresh: "\<not> settled_import st0 r \<Longrightarrow> revision_of st0 s \<noteq> Some r" for r
    using settled by (auto simp: revisions_settled_def)
  note a = later_storeD(2,3) [OF later(1)] and b = later_storeD(2,3) [OF later(2)]
  have known: "settled_import st0 r" if "revision_of st0 s = Some r" for r
    using settled that by (simp add: revisions_settled_def)
  have step2: "revision_of st2 s = revision_of st1 s \<and> only_loses_oldest st1 st2 s"
  proof (rule ccontr)
    assume "\<not> ?thesis"
    then obtain r where r: "revision_of st2 s = Some r" "\<not> settled_import st1 r" using b(2) [of s] by blast
    then have "settled_import st0 r" using same(1) known by simp
    then show False using a(1) r(2) by blast
  qed
  have step1: "only_loses_oldest st0 st1 s"
  proof (rule ccontr)
    assume "\<not> ?thesis"
    then obtain r where "revision_of st1 s = Some r" "\<not> settled_import st0 r" using a(2) [of s] by blast
    then show False using step2 same(1) known by simp
  qed
  have both: "only_loses_oldest st0 st2 s" using only_loses_trans [OF step1] step2 by blast
  have "published_view st2 s d = published_view st0 s d"
  proof (rule ccontr)
    assume differ: "\<not> ?thesis"
    then have gone: "published_view st2 s d = None" "published_view st0 s d \<noteq> None"
      using both unfolding only_loses_oldest_def by (metis insertE singletonD)+
    obtain m where m: "first_day st0 s = Some m" "m \<le> d"
      using first_day_least [OF ok(1), of s] gone(2) by (cases "first_day st0 s") auto
    then have "published_view st2 s m \<noteq> None" using first_day_least [OF ok(2), of s] same(2) by simp
    then have "d < m" using both gone unfolding only_loses_oldest_def by blast
    then show False using m(2) by simp
  qed
  then show "published_view st1 s d = published_view st0 s d"
    using step1 step2 unfolding only_loses_oldest_def by (metis insertE singletonD)
qed

text \<open>A path of the worker, read at eleven places.\<close>

lemma path_later:
  assumes "billing_run be ca (path 0)" and "\<forall>k. worker_goes_on be ca (path k) (path (Suc k))" and "i \<le> j"
  shows "billing_run be ca (path i) \<and> later_store (fst (path i)) (fst (path j))"
proof -
  have run: "billing_run be ca (path i)" for i
  proof (induction i)
    case 0 then show ?case by (rule assms(1))
  next
    case (Suc i)
    then show ?case using worker_goes_on_later [OF assms(2) [rule_format]] by blast
  qed
  from assms(3) have "later_store (fst (path i)) (fst (path j))"
  proof (induction rule: dec_induct)
    case base then show ?case by (rule later_store_refl)
  next
    case (step n)
    then show ?case using worker_goes_on_later [OF assms(2) [rule_format, of n] run] later_store_trans by blast
  qed
  then show ?thesis using run by blast
qed

lemma view_reads_statuses:
  assumes "cost_view_of ve ca now cc f reads = Inr w" and "inj (ve_json_sources ve)"
  obtains ss where "current_statuses ve ca now cc f (reads 0) = Inr ss" "current_statuses ve ca now cc f (reads 10) = Inr ss"
proof -
  obtain sources dr where "current_statuses ve ca now cc f (reads 0) = Inr sources"
    "cost_response ve ca now cc f sources dr reads = Inr w"
    using assms(1) unfolding cost_view_of_def Let_def by (auto split: sum.splits option.splits if_splits)
  moreover from this(2) obtain after where "current_statuses ve ca now cc f (reads 10) = Inr after"
    "ve_json_sources ve sources = ve_json_sources ve after"
    unfolding cost_response_def Let_def by (auto split: sum.splits if_splits)
  ultimately show ?thesis using that injD [OF assms(2)] by metis
qed

lemma statuses_of:
  assumes "current_statuses ve ca now cc f st = Inr ss"
  obtains stored where "cost_status (ve_show_id ve) ca st = Inr stored" "ss = cost_statuses now cc f stored"
  using assms by (auto simp: current_statuses_def split: sum.splits)

text \<open>C10: A billing view reads the store with eleven statements while the worker goes on importing,
  publishing and cleaning up in between. When it is answered, each of them saw the same published charges
  of every source the view reports: never some days of one publication and some of the next.\<close>

theorem view_sees_one_publication:
  assumes "billing_run be ca (path 0)" and "\<forall>k. worker_goes_on be ca (path k) (path (Suc k))"
    and "inj (ve_json_sources ve)" and "inj (ve_show_id ve)"
    and "cost_view_of ve ca now cc f (\<lambda>k. fst (path k)) = Inr w"
    and "src \<in> set (cc_sources cc)" and "is_none_or (\<lambda>p. p = cs_provider src) (cq_provider f)"
    and "source_name (fst (path 0)) s = Some (cs_id src)" and "k \<le> 10"
  shows "published_view (fst (path k)) s = published_view (fst (path 0)) s"
proof -
  obtain ss where ss: "current_statuses ve ca now cc f (fst (path 0)) = Inr ss" "current_statuses ve ca now cc f (fst (path 10)) = Inr ss"
    using view_reads_statuses [OF assms(5,3)] by blast
  obtain a where a: "cost_status (ve_show_id ve) ca (fst (path 0)) = Inr a" "ss = cost_statuses now cc f a"
    using statuses_of [OF ss(1)] .
  obtain b where b: "cost_status (ve_show_id ve) ca (fst (path 10)) = Inr b" "ss = cost_statuses now cc f b"
    using statuses_of [OF ss(2)] .
  have same: "source_state now cc a src = source_state now cc b src"
    using a(2) b(2) assms(6,7) by (auto simp: cost_statuses_def)
  note path = path_later [OF assms(1,2)]
  have ok: "billing_ok (fst (path i))" "names_unique (fst (path i))" "revisions_settled (fst (path i))" for i
    using path [of i i] worker_run [of be ca "path i"] run_names_unique [of be ca "path i"] run_revisions_settled [of be ca "path i"]
    by (simp_all add: worker_ok_def)
  have name: "source_name (fst (path 10)) s = Some (cs_id src)"
    using later_storeD(1) [of "fst (path 0)" "fst (path 10)"] path [of 0 10] assms(8) by simp
  have "revision_of (fst (path 10)) s = revision_of (fst (path 0)) s \<and> first_day (fst (path 10)) s = first_day (fst (path 0)) s"
    using same_statuses [OF ok(1,2) ok(1,2) assms(4) a(1) b(1) same assms(8) name] .
  then show ?thesis
    using nothing_published [OF ok(1) ok(1) ok(3)] path [of 0 k] path [of k 10] assms(9) by blast
qed

section \<open>A sample path\<close>

text \<open>The next day's import begins right after the first statement of a view.\<close>

definition importing :: "rat billing" where
  "importing = today_published\<lparr>bl_imports := bl_imports today_published @ [(2, \<lparr>bi_source = 0, bi_started_at = 0,
     bi_published_at = None, bi_from = 1, bi_to = 2, bi_reserved = 1, bi_billed = None, bi_attempted_at = None\<rparr>)], bl_next := 3\<rparr>"

definition sample_path :: "nat \<Rightarrow> rat billing \<times> import_handle option" where
  "sample_path k = (if k = 0 then (today_published, None)
     else (importing, Some \<lparr>ih_id = 2, ih_source = 0, ih_period = \<lparr>pe_from = 1, pe_to = 2\<rparr>\<rparr>))"

lemma sample_begins:
  "cost_begin 0 one_day sample_source \<lparr>pe_from = 1, pe_to = 2\<rparr> today_published =
     (Inr \<lparr>ih_id = 2, ih_source = 0, ih_period = \<lparr>pe_from = 1, pe_to = 2\<rparr>\<rparr>, importing)"
  by (simp add: cost_begin_def Let_def sample_source_def insert_source_def find_source_def today_published_def
      cost_identifier_def is_ascii_alphanumeric_def is_ascii_digit_def is_ascii_lowercase_def is_ascii_uppercase_def
      pending_import_def new_import_def allowance_left_def reservations_def charged_bytes_def
      counts_today_def checked_add64_def sat_add64_def u64_max_def sample_costs_def one_day_def
      daily_bytes_def period_valid_def as_i64_def as_u64_def drop_staged_def less_eq_char_def importing_def)

lemma sample_path_view:
  "\<exists>w. cost_view_of sample_view_env endless 0 view_costs view_filter (\<lambda>k. fst (sample_path k)) = Inr w"
proof -
  let ?reads = "\<lambda>k. fst (sample_path k)"
  have sources: "bl_sources (?reads k) = bl_sources today_published" "bl_partitions (?reads k) = bl_partitions today_published"
    "bl_daily (?reads k) = []" for k
    by (simp_all add: sample_path_def importing_def today_published_def)
  have status: "cost_status sh ca (?reads k) = cost_status sh ca today_published" for sh k ca
    by (simp add: cost_status_def sources stored_status_def fun_eq_iff Let_def)
  obtain ss where "current_statuses sample_view_env endless 0 view_costs view_filter today_published = Inr ss"
    by (simp add: current_statuses_def cost_status_def today_published_def)
  then have ss: "current_statuses sample_view_env endless 0 view_costs view_filter (?reads k) = Inr ss" for k
    by (simp add: current_statuses_def status)
  have none: "selected ve cc f a b x y (?reads k) = []" for ve :: "rat view_env" and cc f a b x y k
    by (simp add: selected_def joined_def sources)
  have env: "ve_decimals sample_view_env = rational_decimal" "ve_json_sources sample_view_env x = Some (status_text x)"
    "ve_json_filter sample_view_env f = Some []" "ve_digest sample_view_env t = t" for x f t
    by (simp_all add: sample_view_env_def)
  have f: "cq_group view_filter = GProduct" "cq_limit view_filter = None" "cq_contributor view_filter = None"
    "cq_measure view_filter = Billed" "cq_cursor view_filter = None" "cq_revision view_filter = None" "cq_day view_filter = None"
    "cq_granularity view_filter = Daily"
    by (simp_all add: view_filter_def)
  let ?dr = "\<lparr>dr_buckets = [], dr_breakdown = [], dr_count = 0, dr_period = \<lparr>pe_from = 0, pe_to = 1\<rparr>,
      dr_previous = \<lparr>pe_from = -1, pe_to = 0\<rparr>, dr_revision = status_text ss, dr_fingerprint = [], dr_limit = 50\<rparr> :: rat draft"
  have draft: "view_draft sample_view_env view_costs view_filter \<lparr>pe_from = 0, pe_to = 1\<rparr> \<lparr>pe_from = 0, pe_to = 1\<rparr> (status_text ss) [] None
      ?reads = Inr ?dr"
    by (simp add: view_draft_def Let_def env f excluded_keys_def none breakdown_page_def sample_groups order_groups_def
        leading_keys_def view_buckets_def unwrap_or_def)
  have "\<exists>w. cost_response sample_view_env endless 0 view_costs view_filter ss ?dr ?reads = Inr w"
    using ss by (simp add: cost_response_def Let_def env f date_of_def when_known_def as_record_def next_page_cursor_def series_def)
  then show ?thesis
    using ss draft by (simp add: cost_view_of_def sample_period as_record_def view_period_def f env Let_def decode_cursor_def)
qed

theorem view_sees_one_publication_witness:
  "published_view importing 0 = published_view today_published 0 \<and> bl_imports importing \<noteq> bl_imports today_published"
proof -
  obtain w where w: "cost_view_of sample_view_env endless 0 view_costs view_filter (\<lambda>k. fst (sample_path k)) = Inr w"
    using sample_path_view by blast
  have goes: "\<forall>k. worker_goes_on be endless (sample_path k) (sample_path (Suc k))" for be :: "rat billing_env"
    using goes [OF idle begun [OF sample_begins], of be endless] worker_goes_on.idle [of be endless "sample_path 1"]
    by (simp add: sample_path_def)
  have inj: "inj (ve_json_sources sample_view_env)" "inj (ve_show_id sample_view_env)"
    using inj_status_text by (auto simp: sample_view_env_def inj_def replicate_eq_replicate)
  have start: "billing_run be endless (sample_path 0)" for be :: "rat billing_env" by (simp add: sample_path_def today_run)
  have "published_view (fst (sample_path 1)) 0 = published_view (fst (sample_path 0)) 0"
    by (rule view_sees_one_publication [OF start goes inj w, where src = sample_source and s = 0])
      (simp_all add: sample_path_def view_costs_def view_filter_def source_name_def today_published_def sample_source_def)
  then show ?thesis by (simp add: sample_path_def importing_def)
qed

end
