(* ===== verification/Read_Policy.thy ===== *)
theory Read_Policy
  imports Config_Types
begin

text \<open>
  The closed read-only policy every request to a provider passes (\<open>integrations/src/read_policy.rs\<close>).
  The decoding of a form body (crate \<open>url\<close>) is an argument.
\<close>

section \<open>Requests\<close>

record provider_request =
  pr_method :: string
  pr_url :: url
  pr_headers :: "(string \<times> string) list"
  pr_body :: string

text \<open>\<open>HeaderMap::get\<close> and \<open>HeaderValue::to_str\<close>, which refuses other than visible ASCII.\<close>

definition visible_ascii :: "char \<Rightarrow> bool" where
  "visible_ascii c \<longleftrightarrow> CHR 0x20 \<le> c \<and> c < CHR 0x7F \<or> c = CHR 0x09"

definition header_text :: "string \<Rightarrow> (string \<times> string) list \<Rightarrow> string option" where
  "header_text name hs =
     (case map_of hs name of None \<Rightarrow> None | Some v \<Rightarrow> if list_all visible_ascii v then Some v else None)"

definition lower :: "string \<Rightarrow> string" where
  "lower s = map to_ascii_lowercase s"

section \<open>Paths\<close>

definition denied_parts :: "string list" where
  "denied_parts = ['':access'', '':decrypt'', ''/exec'', ''/attach'', ''/proxy'', '':pull'', '':acknowledge'',
     ''/listkeys'', ''/listsecrets'']"

definition path_denied :: "string \<Rightarrow> bool" where
  "path_denied path \<longleftrightarrow> list_ex (str_contains path) denied_parts"

definition plain_read :: "string \<Rightarrow> string \<Rightarrow> bool" where
  "plain_read path query \<longleftrightarrow>
     \<not> str_contains query ''alt=media'' \<and> \<not> (starts_with path ''/v2/'' \<and> str_contains path ''/blobs/'') \<and>
     \<not> str_contains path ''/objects/'' \<and> (\<not> str_contains path ''/secrets/'' \<or> ends_with path ''/versions'')"

section \<open>Queries by POST\<close>

definition host_with :: "(string \<Rightarrow> bool) \<Rightarrow> provider_request \<Rightarrow> bool" where
  "host_with p r \<longleftrightarrow> is_some_and p (u_host (pr_url r))"

definition metric_operations :: "string list" where
  "metric_operations = [''getmetricdata'', ''listmetrics'', ''describealarms'']"

text \<open>The documented queries that are told from host and path.\<close>

definition query_endpoint :: "provider_request \<Rightarrow> string \<Rightarrow> bool" where
  "query_endpoint r path \<longleftrightarrow>
     host_with (\<lambda>h. h = ''management.azure.com'') r \<and> starts_with path ''/subscriptions/'' \<and>
       ends_with path ''/providers/microsoft.costmanagement/query'' \<or>
     host_with (\<lambda>h. ends_with h ''.azurecr.io'') r \<and> path \<in> {''/oauth2/exchange'', ''/oauth2/token''} \<or>
     host_with (\<lambda>h. h = ''management.azure.com'') r \<and>
       str_contains path ''/providers/microsoft.network/applicationgateways/'' \<and> ends_with path ''/backendhealth'' \<or>
     host_with (\<lambda>h. starts_with h ''application-signals.'' \<and> ends_with h ''.api.aws'') r \<and>
       path \<in> {''/slos'', ''/budget-report''} \<or>
     host_with (\<lambda>h. ends_with h ''.amazonaws.com'') r \<and>
       is_some_and (\<lambda>x. x \<in> set metric_operations) (strip_prefix ''/service/graniteserviceversion20100801/operation/'' path) \<or>
     host_with (\<lambda>h. h = ''api.loganalytics.azure.com'') r \<and> starts_with path ''/v1/workspaces/'' \<and> ends_with path ''/query''"

definition listing_endpoint :: "string \<Rightarrow> bool" where
  "listing_endpoint path \<longleftrightarrow>
     path = ''/v2/entries:list'' \<or> ends_with path ''/providers/microsoft.resourcegraph/resources'' \<or>
     ends_with path ''/gethealth''"

definition form_actions :: "string list" where
  "form_actions = [''GetMetricData'', ''ListMetrics'', ''DescribeAlarms'', ''DescribeInstances'', ''DescribeInstanceStatus'',
     ''DescribeVolumes'', ''DescribeAutoScalingGroups'', ''DescribeLoadBalancers'', ''DescribeTargetGroups'',
     ''DescribeTargetHealth'', ''DescribeDBInstances'', ''DescribeDBClusters'', ''DescribeCacheClusters'',
     ''DescribeReplicationGroups'', ''ListTopics'', ''GetTopicAttributes'', ''DescribeRegions'', ''DescribeAccountAttributes'']"

definition read_actions :: "string list" where
  "read_actions = [''GetCostAndUsage'', ''ListMetrics'', ''ListCertificates'', ''DescribeCertificate'', ''ListSecretVersionIds'',
     ''DescribeTable'', ''DescribeContinuousBackups'', ''ListTables'', ''DescribeClusters'', ''DescribeServices'', ''ListTasks'',
     ''DescribeTasks'', ''ListClusters'', ''ListServices'', ''ListFunctions'', ''DescribeLogGroups'', ''FilterLogEvents'',
     ''ListQueues'', ''GetQueueAttributes'', ''ListRules'', ''ListEventBuses'', ''ListEventSourceMappings'', ''DescribeAlarms'',
     ''GetMetricData'', ''ListAccounts'', ''DescribeOrganization'', ''DescribeRepositories'', ''ListImages'', ''DescribeImages'',
     ''BatchGetImage'', ''ListBuilds'', ''BatchGetBuilds'', ''ListPipelines'', ''GetPipelineState'', ''ListPipelineExecutions'',
     ''ListBackupVaults'', ''ListRecoveryPointsByBackupVault'', ''ListKeys'', ''DescribeKey'', ''ListSecrets'',
     ''ListServiceQuotas'', ''ListServices'', ''DescribeEvents'', ''DescribeAffectedEntities'', ''DescribeSubscriptionFilters'']"

text \<open>\<open>form_urlencoded::parse(body).find(|(k, _)| k == "Action")\<close>.\<close>

definition form_action :: "(string \<Rightarrow> (string \<times> string) list) \<Rightarrow> provider_request \<Rightarrow> string" where
  "form_action form r = unwrap_or [] (map_of (form (pr_body r)) ''Action'')"

text \<open>What follows the last dot of \<open>x-amz-target\<close>.\<close>

definition target_action :: "provider_request \<Rightarrow> string" where
  "target_action r = last (split_on CHR ''.'' (unwrap_or [] (header_text ''x-amz-target'' (pr_headers r))))"

definition post_allowed :: "(string \<Rightarrow> (string \<times> string) list) \<Rightarrow> provider_request \<Rightarrow> string \<Rightarrow> bool" where
  "post_allowed form r path \<longleftrightarrow>
     (if query_endpoint r path then True
      else if header_text ''content-type'' (pr_headers r) = Some ''application/x-www-form-urlencoded''
      then form_action form r \<in> set form_actions
      else if listing_endpoint path then True
      else target_action r \<in> set read_actions)"

definition request_allowed :: "(string \<Rightarrow> (string \<times> string) list) \<Rightarrow> provider_request \<Rightarrow> bool" where
  "request_allowed form r \<longleftrightarrow>
     (let path = lower (u_path (pr_url r))
      in if u_scheme (pr_url r) \<noteq> ''https'' \<or> path_denied path then False
         else if pr_method r = ''GET'' \<or> pr_method r = ''HEAD''
         then plain_read path (lower (unwrap_or [] (u_query (pr_url r))))
         else if pr_method r = ''POST'' then post_allowed form r path
         else False)"

section \<open>Properties\<close>

text \<open>The verbs of actions that only read.\<close>

definition read_verbs :: "string list" where
  "read_verbs = [''Get'', ''List'', ''Describe'', ''BatchGet'', ''Filter'']"

definition reads_only :: "string \<Rightarrow> bool" where
  "reads_only action \<longleftrightarrow> list_ex (starts_with action) read_verbs"

lemma listed_actions_read: "list_all reads_only form_actions" "list_all reads_only read_actions"
  by (simp_all add: form_actions_def read_actions_def reads_only_def read_verbs_def starts_with_def)


definition sample_read :: provider_request where
  "sample_read = \<lparr>pr_method = ''POST'', pr_url = \<lparr>u_scheme = ''https'', u_host = Some ''sqs.eu-west-1.amazonaws.com'',
       u_username = [], u_password = None, u_path = ''/'', u_query = None, u_fragment = None\<rparr>,
     pr_headers = [(''x-amz-target'', ''AmazonSQS.ListQueues'')], pr_body = ''{}''\<rparr>"


end
