(* ===== verification/Access.thy ===== *)
theory Access
  imports Read_Policy BTree Costs "HOL-Library.Word"
begin

unbundle bit_operations_syntax

text \<open>
  Who may read the dashboard: listener and access settings (\<open>server/src/config.rs\<close>,
  \<open>history/src/config.rs\<close>), the guard every request passes (\<open>security.rs\<close>) and the verification of
  identity tokens against a cached set of public keys (\<open>iap.rs\<close>). Signatures, hashes, network
  prefixes and the parsing of hosts are arguments, as are clocks and what a key fetch returns.
\<close>

section \<open>Settings\<close>

text \<open>\<open>IpAddr\<close>; an IPv6 address is its 128-bit number.\<close>

datatype ip = V4 u8 u8 u8 u8 | V6 nat

definition is_loopback :: "ip \<Rightarrow> bool" where
  "is_loopback a \<longleftrightarrow> (case a of V4 a _ _ _ \<Rightarrow> a = 127 | V6 n \<Rightarrow> n = 1)"

datatype 'n access =
    LocalAccess
  | ProxyAccess string url "'n list" "string list" \<comment> \<open>variable of the secret, origin, peers, domains\<close>
  | IapAccess string url "string list" \<comment> \<open>audience, origin, domains\<close>

record history_config =
  hc_database_url_env :: string
  hc_connections :: u32
  hc_retention :: span
  hc_event_rows :: int
  hc_run_rows :: int
  hc_gap_rows :: int
  hc_configuration_rows :: int
  hc_diagnostic_rows :: int
  hc_queue_bytes :: usize
  hc_queue_batches :: usize

record 'n server_config =
  vc_listen :: ip
  vc_tls :: "(string \<times> string) option"
  vc_access :: "'n access"
  vc_history :: history_config
  vc_costs :: cost_config
  vc_connections :: usize
  vc_requests :: usize
  vc_event_streams :: usize
  vc_response_bytes :: usize

definition env_name :: "string \<Rightarrow> bool" where
  "env_name s \<longleftrightarrow> s \<noteq> [] \<and> length s \<le> 128 \<and>
     list_all (\<lambda>b. is_ascii_uppercase b \<or> is_ascii_digit b \<or> b = CHR ''_'') s"

definition default_history :: history_config where
  "default_history = \<lparr>hc_database_url_env = ''HEALTHCHECK_DATABASE_URL'', hc_connections = 2, hc_retention = 7 * 86400,
     hc_event_rows = 100000, hc_run_rows = 1000000, hc_gap_rows = 1000, hc_configuration_rows = 32,
     hc_diagnostic_rows = 250000, hc_queue_bytes = 16 * 1024 * 1024, hc_queue_batches = 64\<rparr>"

definition validate_history :: "history_config \<Rightarrow> bool" where
  "validate_history hc \<longleftrightarrow> env_name (hc_database_url_env hc) \<and>
     2 \<le> hc_connections hc \<and> hc_connections hc \<le> 8 \<and> 60 \<le> hc_retention hc \<and> hc_retention hc \<le> 31 * 86400 \<and>
     1 \<le> hc_event_rows hc \<and> hc_event_rows hc \<le> 100000 \<and> 1 \<le> hc_run_rows hc \<and> hc_run_rows hc \<le> 1000000 \<and>
     1 \<le> hc_gap_rows hc \<and> hc_gap_rows hc \<le> 10000 \<and> 1 \<le> hc_configuration_rows hc \<and> hc_configuration_rows hc \<le> 1024 \<and>
     1 \<le> hc_diagnostic_rows hc \<and> hc_diagnostic_rows hc \<le> 1000000 \<and>
     65536 \<le> hc_queue_bytes hc \<and> hc_queue_bytes hc \<le> 64 * 1024 * 1024 \<and>
     1 \<le> hc_queue_batches hc \<and> hc_queue_batches hc \<le> 256"

definition origin_valid :: "url \<Rightarrow> bool" where
  "origin_valid u \<longleftrightarrow> u_scheme u = ''https'' \<and> u_host u \<noteq> None \<and> u_username u = [] \<and> u_password u = None \<and>
     u_query u = None \<and> u_fragment u = None \<and> u_path u = ''/''"

definition domains_valid :: "string list \<Rightarrow> bool" where
  "domains_valid ds \<longleftrightarrow> ds \<noteq> [] \<and> length ds \<le> 32 \<and>
     list_all (\<lambda>d. d \<noteq> [] \<and> length d \<le> 253 \<and> list_all (\<lambda>b. is_ascii_alphanumeric b \<or> b \<in> {CHR ''.'', CHR ''-''}) d) ds"

fun split_once_str :: "string \<Rightarrow> string \<Rightarrow> (string \<times> string) option" where
  "split_once_str p [] = (if p = [] then Some ([], []) else None)"
| "split_once_str p (c # s) =
     (case strip_prefix p (c # s) of
        Some b \<Rightarrow> Some ([], b)
      | None \<Rightarrow> map_option (\<lambda>(a, b). (c # a, b)) (split_once_str p s))"

definition audience_number :: "string \<Rightarrow> bool" where
  "audience_number s \<longleftrightarrow> s \<noteq> [] \<and> length s \<le> 20 \<and> list_all is_ascii_digit s"

definition audience_valid :: "string \<Rightarrow> bool" where
  "audience_valid s \<longleftrightarrow>
     is_some_and (\<lambda>rest. is_some_and (\<lambda>(project, service). audience_number project \<and> audience_number service)
       (split_once_str ''/global/backendServices/'' rest)) (strip_prefix ''/projects/'' s)"

definition access_valid :: "ip \<Rightarrow> 'n access \<Rightarrow> bool" where
  "access_valid listen a \<longleftrightarrow>
     (case a of
        LocalAccess \<Rightarrow> is_loopback listen
      | IapAccess audience public_origin domains \<Rightarrow> audience_valid audience \<and> origin_valid public_origin \<and> domains_valid domains
      | ProxyAccess secret public_origin peers domains \<Rightarrow> env_name secret \<and> origin_valid public_origin \<and>
          peers \<noteq> [] \<and> length peers \<le> 32 \<and> domains_valid domains)"

definition validate_server :: "'n server_config \<Rightarrow> bool" where
  "validate_server vc \<longleftrightarrow>
     validate_costs (vc_costs vc) = Inr () \<and> validate_history (vc_history vc) \<and>
     1 \<le> vc_connections vc \<and> vc_connections vc \<le> 256 \<and> 1 \<le> vc_requests vc \<and> vc_requests vc \<le> 64 \<and>
     vc_requests vc \<le> vc_connections vc \<and> 1 \<le> vc_event_streams vc \<and> vc_event_streams vc \<le> 64 \<and>
     vc_event_streams vc \<le> vc_connections vc \<and> 1024 \<le> vc_response_bytes vc \<and> vc_response_bytes vc \<le> 4 * 1024 * 1024 \<and>
     access_valid (vc_listen vc) (vc_access vc)"

section \<open>Identity tokens\<close>

text \<open>\<open>iap_header\<close>: algorithm and key id of a token; \<open>iap_decode\<close>: the claims of a token whose signature,
  audience, issuer and times the crate \<open>jsonwebtoken\<close> accepts at a time.\<close>

record claims =
  cl_iss :: string
  cl_aud :: string
  cl_exp :: u64
  cl_iat :: u64
  cl_sub :: string
  cl_email :: string

record ('k, 'n) access_env =
  ae_header :: "string \<Rightarrow> (string \<times> string option) option"
  ae_decode :: "string \<Rightarrow> 'k \<Rightarrow> string \<Rightarrow> instant \<Rightarrow> claims option"
  ae_digest :: "string \<Rightarrow> 8 word list"
  ae_host :: "string \<Rightarrow> string option"
  ae_contains :: "'n \<Rightarrow> ip \<Rightarrow> bool"
  ae_key :: "string \<Rightarrow> string \<Rightarrow> 'k option"

record jwk =
  jk_kid :: string
  jk_kty :: string
  jk_crv :: string
  jk_x :: string
  jk_y :: string
  jk_alg :: "string option"

record 'k key_cache =
  kc_values :: "(string, 'k) bmap"
  kc_valid_until :: instant
  kc_refresh_after :: instant

definition new_keys :: "instant \<Rightarrow> 'k key_cache" where
  "new_keys now = \<lparr>kc_values = [], kc_valid_until = now, kc_refresh_after = now\<rparr>"

definition jwk_fits :: "jwk \<Rightarrow> bool" where
  "jwk_fits k \<longleftrightarrow> jk_kty k = ''EC'' \<and> jk_crv k = ''P-256'' \<and> jk_kid k \<noteq> [] \<and> length (jk_kid k) \<le> 128 \<and>
     length (jk_x k) \<le> 128 \<and> length (jk_y k) \<le> 128 \<and> is_none_or (\<lambda>a. a = ''ES256'') (jk_alg k)"

fun insert_keys :: "('k, 'n) access_env \<Rightarrow> jwk list \<Rightarrow> (string, 'k) bmap \<Rightarrow> (string, 'k) bmap option" where
  "insert_keys ae [] m = Some m"
| "insert_keys ae (k # ks) m =
     (if \<not> jwk_fits k then None
      else case ae_key ae (jk_x k) (jk_y k) of
             None \<Rightarrow> None
           | Some d \<Rightarrow> if bm_has m (jk_kid k) then None else insert_keys ae ks (bm_put (jk_kid k) d m))"

text \<open>\<open>refresh\<close>: the keys of a response; \<open>None\<close> is any failure of the transfer.\<close>

definition refresh_keys :: "('k, 'n) access_env \<Rightarrow> jwk list option \<Rightarrow> (string, 'k) bmap option" where
  "refresh_keys ae fetched =
     (case fetched of
        None \<Rightarrow> None
      | Some ks \<Rightarrow> if ks = [] \<or> 16 < length ks then None else insert_keys ae ks [])"

definition email_allowed :: "string list \<Rightarrow> string \<Rightarrow> bool" where
  "email_allowed domains email \<longleftrightarrow>
     is_some_and (\<lambda>(user, domain). user \<noteq> [] \<and> list_ex (\<lambda>a. eq_ignore_ascii_case a domain) domains)
       (rsplit_once CHR ''@'' email)"

definition issuer :: string where "issuer = ''https://cloud.google.com/iap''"

definition token_valid :: "('k, 'n) access_env \<Rightarrow> instant \<Rightarrow> string \<Rightarrow> 'k \<Rightarrow> string \<Rightarrow> string list \<Rightarrow> bool" where
  "token_valid ae now token key audience domains \<longleftrightarrow>
     (case ae_decode ae token key audience now of
        None \<Rightarrow> False
      | Some c \<Rightarrow>
          cl_iss c = issuer \<and> cl_aud c = audience \<and> cl_iat c \<le> nat (now div nanos_per_sec) + 30 \<and>
          cl_iat c < cl_exp c \<and> cl_exp c - cl_iat c \<le> 660 \<and> cl_sub c \<noteq> [] \<and> length (cl_sub c) \<le> 512 \<and>
          length (cl_email c) \<le> 320 \<and> \<not> has_control (cl_email c) \<and> email_allowed domains (cl_email c))"

text \<open>\<open>Iap::authorized\<close> under its lock, taken at \<open>now\<close>: whether the keys were fetched, and the verdict. The
  fetch, if there is one, returns \<open>fetched\<close> and is over at \<open>later\<close>.\<close>

definition token_key_id :: "('k, 'n) access_env \<Rightarrow> string \<Rightarrow> string option" where
  "token_key_id ae token =
     (if 16384 < length token then None
      else case ae_header ae token of
             None \<Rightarrow> None
           | Some (alg, kid) \<Rightarrow>
               if alg \<noteq> ''ES256'' then None
               else (case kid of
                       None \<Rightarrow> None
                     | Some k \<Rightarrow> if k \<noteq> [] \<and> length k \<le> 128 then Some k else None))"

definition keys_due :: "instant \<Rightarrow> string \<Rightarrow> 'k key_cache \<Rightarrow> bool" where
  "keys_due now kid ks \<longleftrightarrow> (kc_valid_until ks \<le> now \<or> \<not> bm_has (kc_values ks) kid) \<and> kc_refresh_after ks \<le> now"

definition fetch_keys :: "('k, 'n) access_env \<Rightarrow> instant \<Rightarrow> instant \<Rightarrow> jwk list option \<Rightarrow> 'k key_cache \<Rightarrow> 'k key_cache" where
  "fetch_keys ae now later fetched ks =
     (let ks = ks\<lparr>kc_refresh_after := now + 60 * nanos_per_sec\<rparr>
      in case refresh_keys ae fetched of
           None \<Rightarrow> ks
         | Some m \<Rightarrow> ks\<lparr>kc_values := m, kc_valid_until := later + 3600 * nanos_per_sec\<rparr>)"

definition iap_authorized ::
  "('k, 'n) access_env \<Rightarrow> string \<Rightarrow> string list \<Rightarrow> instant \<Rightarrow> instant \<Rightarrow> jwk list option \<Rightarrow> string \<Rightarrow> 'k key_cache \<Rightarrow>
   bool \<times> bool \<times> 'k key_cache" where
  "iap_authorized ae audience domains now later fetched token ks =
     (case token_key_id ae token of
        None \<Rightarrow> (False, False, ks)
      | Some kid \<Rightarrow>
          (let due = keys_due now kid ks;
               ks = (if due then fetch_keys ae now later fetched ks else ks)
           in (due,
               later < kc_valid_until ks \<and>
                 is_some_and (\<lambda>key. token_valid ae later token key audience domains) (bm_get (kc_values ks) kid),
               ks)))"

text \<open>Load balancers: 35.191.0.0/16 and 130.211.0.0/22.\<close>

definition trusted_peer :: "ip \<Rightarrow> bool" where
  "trusted_peer a \<longleftrightarrow> (case a of V4 a b c _ \<Rightarrow> (a = 35 \<and> b = 191) \<or> (a = 130 \<and> b = 211 \<and> c \<le> 3) | V6 _ \<Rightarrow> False)"

section \<open>The guard\<close>

datatype api_error = Waiting | Unavailable | BadQuery | NotFound | Unauthorized | Busy | Capacity | Refresh

record web_request =
  wr_method :: string
  wr_path :: string
  wr_authority :: "string option"
  wr_uri_length :: nat
  wr_headers :: "(string \<times> string) list"
  wr_peer :: "ip option"

record 'n security =
  sy_access :: "'n access"
  sy_secret :: "8 word list option"

definition new_security :: "('k, 'n) access_env \<Rightarrow> (string \<Rightarrow> string option) \<Rightarrow> 'n access \<Rightarrow> 'n security option" where
  "new_security ae env a =
     (case a of
        ProxyAccess secret _ _ _ \<Rightarrow>
          (case env secret of
             None \<Rightarrow> None
           | Some v \<Rightarrow> if 32 \<le> length v \<and> length v \<le> 4096 then Some \<lparr>sy_access = a, sy_secret = Some (ae_digest ae v)\<rparr> else None)
      | _ \<Rightarrow> Some \<lparr>sy_access = a, sy_secret = None\<rparr>)"

text \<open>The comparison that takes the same time wherever digests differ.\<close>

definition digest_equal :: "8 word list \<Rightarrow> 8 word list \<Rightarrow> bool" where
  "digest_equal xs ys \<longleftrightarrow> fold (\<lambda>(a, b) d. d OR (a XOR b)) (zip xs ys) 0 = 0"

definition request_host :: "('k, 'n) access_env \<Rightarrow> web_request \<Rightarrow> string option" where
  "request_host ae r =
     (case (case wr_authority r of Some a \<Rightarrow> Some a | None \<Rightarrow> header_text ''host'' (wr_headers r)) of
        None \<Rightarrow> None
      | Some h \<Rightarrow> ae_host ae h)"

definition cross_site :: "web_request \<Rightarrow> bool" where
  "cross_site r \<longleftrightarrow> starts_with (wr_path r) ''/api/'' \<and> header_text ''sec-fetch-site'' (wr_headers r) = Some ''cross-site''"

definition proxy_identity :: "('k, 'n) access_env \<Rightarrow> 'n security \<Rightarrow> string list \<Rightarrow> web_request \<Rightarrow> bool" where
  "proxy_identity ae sy domains r \<longleftrightarrow>
     (case map_of (wr_headers r) ''x-healthcheck-proxy-key'' of
        None \<Rightarrow> False
      | Some token \<Rightarrow>
          is_some_and (\<lambda>secret. digest_equal secret (ae_digest ae token)) (sy_secret sy) \<and>
          is_some_and (\<lambda>email. length email \<le> 320 \<and> email_allowed domains email)
            (header_text ''x-auth-request-email'' (wr_headers r)))"

text \<open>The state behind the guard: request permits and, for identity tokens, the keys.\<close>

record 'k guard_state =
  gd_permits :: nat
  gd_keys :: "'k key_cache"

text \<open>\<open>Security::authorized\<close>; a token is only looked at for a trusted peer on the public host.\<close>

definition authorized ::
  "('k, 'n) access_env \<Rightarrow> 'n security \<Rightarrow> instant \<Rightarrow> instant \<Rightarrow> jwk list option \<Rightarrow> web_request \<Rightarrow> ip \<Rightarrow> 'k key_cache \<Rightarrow>
   bool \<times> bool \<times> 'k key_cache" where
  "authorized ae sy now later fetched r peer ks =
     (case request_host ae r of
        None \<Rightarrow> (False, False, ks)
      | Some host \<Rightarrow>
          if cross_site r then (False, False, ks)
          else (case sy_access sy of
                  LocalAccess \<Rightarrow> (False, is_loopback peer \<and> host \<in> {''localhost'', ''127.0.0.1'', ''[::1]''}, ks)
                | IapAccess audience public_origin domains \<Rightarrow>
                    if Some host \<noteq> u_host public_origin \<or> \<not> trusted_peer peer then (False, False, ks)
                    else (case header_text ''x-goog-iap-jwt-assertion'' (wr_headers r) of
                            None \<Rightarrow> (False, False, ks)
                          | Some token \<Rightarrow> iap_authorized ae audience domains now later fetched token ks)
                | ProxyAccess _ public_origin peers domains \<Rightarrow>
                    if Some host \<noteq> u_host public_origin \<or> \<not> list_ex (\<lambda>n. ae_contains ae n peer) peers then (False, False, ks)
                    else (False, proxy_identity ae sy domains r, ks)))"

definition probe :: "'n security \<Rightarrow> ip \<Rightarrow> bool" where
  "probe sy peer \<longleftrightarrow> is_loopback peer \<or> (case sy_access sy of IapAccess _ _ _ \<Rightarrow> trusted_peer peer | _ \<Rightarrow> False)"

text \<open>What the guard does with a request: an error, a status, or the handlers see it while it keeps a
  permit or, for the event stream, gives it back.\<close>

datatype verdict = Refused api_error | MethodNotAllowed | Passed bool

definition guard ::
  "('k, 'n) access_env \<Rightarrow> 'n security \<Rightarrow> instant \<Rightarrow> instant \<Rightarrow> jwk list option \<Rightarrow> web_request \<Rightarrow> 'k guard_state \<Rightarrow>
   bool \<times> verdict \<times> 'k guard_state" where
  "guard ae sy now later fetched r st =
     (if 8192 < wr_uri_length r then (False, Refused BadQuery, st)
      else if gd_permits st = 0 then (False, Refused Busy, st)
      else (case (case wr_peer r of
                    None \<Rightarrow> (False, False, gd_keys st)
                  | Some peer \<Rightarrow>
                      if wr_path r = ''/healthz'' then (False, probe sy peer, gd_keys st)
                      else authorized ae sy now later fetched r peer (gd_keys st)) of
              (fetch, ok, ks) \<Rightarrow>
                if \<not> ok then (fetch, Refused Unauthorized, st\<lparr>gd_keys := ks\<rparr>)
                else if wr_method r \<noteq> ''GET'' \<and> wr_method r \<noteq> ''HEAD'' then (fetch, MethodNotAllowed, st\<lparr>gd_keys := ks\<rparr>)
                else if wr_path r = ''/api/v1/events'' then (fetch, Passed False, st\<lparr>gd_keys := ks\<rparr>)
                else (fetch, Passed True, st\<lparr>gd_keys := ks, gd_permits := gd_permits st - 1\<rparr>)))"

text \<open>A body that has been sent or dropped gives its permit back.\<close>

definition release_permit :: "'k guard_state \<Rightarrow> 'k guard_state" where
  "release_permit st = st\<lparr>gd_permits := gd_permits st + 1\<rparr>"

section \<open>Headers of a response\<close>

record web_response =
  wp_status :: nat
  wp_headers :: "(string, string) bmap"

definition fixed_headers :: "(string \<times> string) list" where
  "fixed_headers =
     [(''content-security-policy'', ''default-src 'self'; script-src 'self'; style-src 'self'; img-src 'self' data:; font-src 'self'; connect-src 'self'; object-src 'none'; base-uri 'none'; frame-ancestors 'none'; form-action 'self'' @ [CHR 0x27]),
      (''x-content-type-options'', ''nosniff''), (''referrer-policy'', ''no-referrer''),
      (''permissions-policy'', ''camera=(), microphone=(), geolocation=()''), (''x-frame-options'', ''DENY'')]"

definition secure_headers :: "bool \<Rightarrow> 'n security \<Rightarrow> string \<Rightarrow> web_response \<Rightarrow> web_response" where
  "secure_headers tls sy path w =
     (let hs = fold (\<lambda>(k, v). bm_put k v) fixed_headers (wp_headers w);
          hs = (if tls \<or> (case sy_access sy of IapAccess _ _ _ \<Rightarrow> True | _ \<Rightarrow> False)
                then bm_put ''strict-transport-security'' ''max-age=31536000'' hs else hs);
          hs = (if bm_has hs ''cache-control'' then hs
                else bm_put ''cache-control''
                  (if starts_with path ''/assets/'' \<and> 200 \<le> wp_status w \<and> wp_status w < 300
                   then ''public, max-age=31536000, immutable'' else ''no-cache'') hs)
      in w\<lparr>wp_headers := hs\<rparr>)"

definition api_status :: "api_error \<Rightarrow> nat \<times> string" where
  "api_status e =
     (case e of
        Waiting \<Rightarrow> (503, ''waiting'') | Unavailable \<Rightarrow> (503, ''unavailable'') | BadQuery \<Rightarrow> (400, ''bad_query'')
      | NotFound \<Rightarrow> (404, ''not_found'') | Unauthorized \<Rightarrow> (401, ''unauthorized'') | Busy \<Rightarrow> (503, ''busy'')
      | Capacity \<Rightarrow> (503, ''response_limit'') | Refresh \<Rightarrow> (409, ''refresh_required''))"

definition error_response :: "api_error \<Rightarrow> web_response \<times> string" where
  "error_response e =
     (case api_status e of
        (status, code) \<Rightarrow>
          (\<lparr>wp_status = status, wp_headers = [(''cache-control'', ''no-store''), (''content-type'', ''application/json'')]\<rparr>,
           ''{'' @ [CHR 0x22] @ ''error'' @ [CHR 0x22] @ '':{'' @ [CHR 0x22] @ ''code'' @ [CHR 0x22] @ '':'' @ [CHR 0x22] @ code @
           [CHR 0x22] @ ''}}''))"

end
