(* ===== verification/Access_Properties.thy ===== *)
theory Access_Properties
  imports Access
begin

text \<open>
  Nobody reads the dashboard without the identity the settings ask for, the comparison of secrets is
  equality, and requests cannot make the server fetch keys more often than once a minute.
\<close>

section \<open>Comparing digests\<close>

lemma or_fold_zero: "fold (\<lambda>(a, b) d. d OR (a XOR b)) xs (d :: 8 word) = 0 \<longleftrightarrow> d = 0 \<and> (\<forall>(a, b) \<in> set xs. a = b)"
proof (induction xs arbitrary: d)
  case (Cons x xs)
  obtain a b where x: "x = (a, b)" by (cases x)
  have "d OR (a XOR b) = 0 \<longleftrightarrow> d = 0 \<and> a = b"
    by (metis bit.xor_self or_eq_0_iff xor.assoc xor.left_neutral xor_self_eq)
  then show ?case using Cons by (auto simp: x)
qed simp

lemma digest_equal_iff: "length xs = length ys \<Longrightarrow> digest_equal xs ys \<longleftrightarrow> xs = ys"
  by (auto simp: digest_equal_def or_fold_zero list_eq_iff_zip_eq)


section \<open>Identities\<close>

lemma rsplit_once_Some: "rsplit_once c s = Some (a, b) \<longleftrightarrow> s = a @ c # b \<and> c \<notin> set b"
proof -
  have "rsplit_once c s = Some (a, b) \<longleftrightarrow> split_once c (rev s) = Some (rev b, rev a)"
    by (auto simp: rsplit_once_def)
  also have "\<dots> \<longleftrightarrow> rev s = rev (a @ c # b) \<and> c \<notin> set b" by (simp add: split_once_Some)
  finally show ?thesis by (metis rev_is_rev_conv)
qed

text \<open>A mail address of one of the domains.\<close>

definition member_of :: "string list \<Rightarrow> string \<Rightarrow> bool" where
  "member_of domains email \<longleftrightarrow>
     (\<exists>user domain. email = user @ CHR ''@'' # domain \<and> CHR ''@'' \<notin> set domain \<and> user \<noteq> [] \<and>
        (\<exists>a \<in> set domains. eq_ignore_ascii_case a domain))"

lemma email_allowed_member: "email_allowed domains email \<Longrightarrow> member_of domains email"
  by (force simp: email_allowed_def is_some_and_def member_of_def rsplit_once_Some list_ex_iff split: option.splits)

text \<open>Who a request comes from, by the mode of access; \<open>secret\<close> is the configured one.\<close>

definition identified ::
  "('k, 'n) access_env \<Rightarrow> string \<Rightarrow> 'n access \<Rightarrow> instant \<Rightarrow> web_request \<Rightarrow> ip \<Rightarrow> 'k key_cache \<Rightarrow> bool" where
  "identified ae secret a now r peer ks \<longleftrightarrow>
     (case a of
        LocalAccess \<Rightarrow> is_loopback peer
      | ProxyAccess _ origin peers domains \<Rightarrow>
          request_host ae r = u_host origin \<and> (\<exists>n \<in> set peers. ae_contains ae n peer) \<and>
          (\<exists>token. map_of (wr_headers r) ''x-healthcheck-proxy-key'' = Some token \<and> ae_digest ae token = ae_digest ae secret) \<and>
          (\<exists>email. map_of (wr_headers r) ''x-auth-request-email'' = Some email \<and> member_of domains email)
      | IapAccess audience origin domains \<Rightarrow>
          request_host ae r = u_host origin \<and> trusted_peer peer \<and> now < kc_valid_until ks \<and>
          (\<exists>token key kid c. map_of (wr_headers r) ''x-goog-iap-jwt-assertion'' = Some token \<and>
             bm_get (kc_values ks) kid = Some key \<and> ae_decode ae token key audience now = Some c \<and>
             cl_iss c = issuer \<and> cl_aud c = audience \<and> cl_exp c \<le> cl_iat c + 660 \<and> member_of domains (cl_email c)))"

lemma header_text_Some: "header_text n hs = Some v \<Longrightarrow> map_of hs n = Some v"
  by (auto simp: header_text_def split: option.splits if_splits)

lemma iap_authorized_ok:
  assumes "iap_authorized ae audience domains now later fetched token ks = (f, True, ks')"
  shows "later < kc_valid_until ks' \<and> (\<exists>kid key. bm_get (kc_values ks') kid = Some key \<and>
    token_valid ae later token key audience domains)"
  using assms by (auto simp: iap_authorized_def Let_def is_some_and_def split: option.splits)

lemma token_validD:
  assumes "token_valid ae now token key audience domains"
  shows "\<exists>c. ae_decode ae token key audience now = Some c \<and> cl_iss c = issuer \<and> cl_aud c = audience \<and>
    cl_exp c \<le> cl_iat c + 660 \<and> member_of domains (cl_email c)"
  using assms by (auto simp: token_valid_def email_allowed_member split: option.splits)

lemma proxy_identityD:
  assumes "proxy_identity ae sy domains r" and "sy_secret sy = Some (ae_digest ae secret)"
    and "\<And>s t. length (ae_digest ae s) = length (ae_digest ae t)"
  shows "(\<exists>token. map_of (wr_headers r) ''x-healthcheck-proxy-key'' = Some token \<and> ae_digest ae token = ae_digest ae secret) \<and>
    (\<exists>email. map_of (wr_headers r) ''x-auth-request-email'' = Some email \<and> member_of domains email)"
proof -
  obtain token email where *: "map_of (wr_headers r) ''x-healthcheck-proxy-key'' = Some token"
    "digest_equal (ae_digest ae secret) (ae_digest ae token)"
    "header_text ''x-auth-request-email'' (wr_headers r) = Some email" "email_allowed domains email"
    using assms(1,2) by (auto simp: proxy_identity_def is_some_and_def split: option.splits)
  from *(2) have "ae_digest ae token = ae_digest ae secret"
    using digest_equal_iff [OF assms(3) [of secret token]] by simp
  then show ?thesis using *(1) header_text_Some [OF *(3)] email_allowed_member [OF *(4)] by blast
qed

lemma authorized_identified:
  assumes sec: "new_security ae env a = Some sy" and lens: "\<And>s t. length (ae_digest ae s) = length (ae_digest ae t)"
    and ok: "authorized ae sy now later fetched r peer ks = (f, True, ks')"
  shows "\<exists>secret. (\<forall>v o' p d. a = ProxyAccess v o' p d \<longrightarrow> env v = Some secret \<and> 32 \<le> length secret) \<and>
    identified ae secret a later r peer ks'"
proof -
  have acc: "sy_access sy = a" using sec by (auto simp: new_security_def split: access.splits option.splits if_splits)
  obtain host where host: "request_host ae r = Some host" using ok by (auto simp: authorized_def split: option.splits)
  show ?thesis
  proof (cases a)
    case LocalAccess
    then show ?thesis using ok acc host by (auto simp: authorized_def identified_def split: if_splits)
  next
    case (ProxyAccess v orig peers domains)
    then obtain secret where secret: "env v = Some secret" "32 \<le> length secret" "sy_secret sy = Some (ae_digest ae secret)"
      using sec by (auto simp: new_security_def split: option.splits if_splits)
    have "Some host = u_host orig" "list_ex (\<lambda>n. ae_contains ae n peer) peers" "proxy_identity ae sy domains r"
      using ok acc host ProxyAccess by (auto simp: authorized_def split: if_splits)
    then show ?thesis using proxy_identityD [OF _ secret(3) lens] secret host ProxyAccess
      by (auto simp: identified_def list_ex_iff)
  next
    case (IapAccess audience orig domains)
    then obtain token where token: "header_text ''x-goog-iap-jwt-assertion'' (wr_headers r) = Some token"
      "iap_authorized ae audience domains now later fetched token ks = (f, True, ks')"
      "Some host = u_host orig" "trusted_peer peer"
      using ok acc host by (auto simp: authorized_def split: if_splits option.splits)
    obtain kid key where "later < kc_valid_until ks'" "bm_get (kc_values ks') kid = Some key"
      "token_valid ae later token key audience domains"
      using iap_authorized_ok [OF token(2)] by blast
    then show ?thesis
      using token_validD header_text_Some [OF token(1)] token(3,4) host IapAccess
      by (fastforce simp: identified_def)
  qed
qed

section \<open>Key fetches\<close>

text \<open>The key cache over any sequence of requests, with the times of its fetches, latest first.\<close>

inductive key_run ::
  "('k, 'n) access_env \<Rightarrow> string \<Rightarrow> string list \<Rightarrow> 'k key_cache \<times> instant \<times> instant list \<Rightarrow> bool" for ae audience domains where
  fresh: "key_run ae audience domains (new_keys t, t, [])"
| asked: "key_run ae audience domains (ks, t, fs) \<Longrightarrow> t \<le> now \<Longrightarrow> now \<le> later \<Longrightarrow>
    iap_authorized ae audience domains now later fetched token ks = (f, ok, ks') \<Longrightarrow>
    key_run ae audience domains (ks', later, if f then now # fs else fs)"

lemma insert_keys_length: "insert_keys ae js m = Some m' \<Longrightarrow> bm_wf m \<Longrightarrow> length m' \<le> length m + length js \<and> bm_wf m'"
proof (induction js arbitrary: m)
  case (Cons j js)
  then obtain d where "insert_keys ae js (bm_put (jk_kid j) d m) = Some m'" by (auto split: if_splits option.splits)
  from Cons.IH [OF this bm_wf_put [OF Cons.prems(2)]] show ?case
    using bm.size_put_le [OF Cons.prems(2), of "jk_kid j" d] by simp
qed simp

lemma refresh_keys_length: "refresh_keys ae fetched = Some m \<Longrightarrow> length m \<le> 16"
  using insert_keys_length [of ae _ "[]" m] by (fastforce simp: refresh_keys_def split: option.splits if_splits)

definition keys_ok :: "'k key_cache \<times> instant \<times> instant list \<Rightarrow> bool" where
  "keys_ok x \<longleftrightarrow> (case x of (ks, t, fs) \<Rightarrow>
     sorted_wrt (\<lambda>a b. b + 60 * nanos_per_sec \<le> a) fs \<and> (\<forall>f \<in> set fs. f + 60 * nanos_per_sec \<le> kc_refresh_after ks) \<and>
     length (kc_values ks) \<le> 16 \<and> kc_valid_until ks \<le> t + 3600 * nanos_per_sec)"

lemma key_run_ok: "key_run ae audience domains x \<Longrightarrow> keys_ok x"
proof (induction rule: key_run.induct)
  case (fresh t)
  then show ?case by (simp add: keys_ok_def new_keys_def nanos_per_sec_def)
next
  case (asked ks t fs now later fetched token f ok ks')
  show ?case
  proof (cases f)
    case True
    then have ks': "ks' = fetch_keys ae now later fetched ks" and due: "kc_refresh_after ks \<le> now"
      using asked(4) by (auto simp: iap_authorized_def Let_def keys_due_def split: option.splits if_splits)
    have "length (kc_values ks') \<le> 16 \<and> kc_valid_until ks' \<le> later + 3600 * nanos_per_sec \<and>
        kc_refresh_after ks' = now + 60 * nanos_per_sec"
      using asked.IH asked(2,3) refresh_keys_length [of ae fetched]
      by (auto simp: ks' fetch_keys_def Let_def keys_ok_def split: option.split)
    then show ?thesis using asked.IH due True by (fastforce simp: keys_ok_def nanos_per_sec_def)
  next
    case False
    then have "ks' = ks" using asked(4) by (auto simp: iap_authorized_def Let_def split: option.splits if_splits)
    then show ?thesis using asked.IH asked(2,3) False by (auto simp: keys_ok_def)
  qed
qed

section \<open>Properties\<close>


text \<open>However many requests with whatever tokens arrive, keys are fetched at most once a minute, at
  most 16 are held, and none is used more than an hour after its fetch.\<close>

theorem key_fetches_are_spaced:
  assumes "key_run ae audience domains (ks, t, fs)"
  shows "sorted_wrt (\<lambda>a b. b + 60 * nanos_per_sec \<le> a) fs \<and> length (kc_values ks) \<le> 16 \<and>
    kc_valid_until ks \<le> t + 3600 * nanos_per_sec"
  using key_run_ok [OF assms] by (simp add: keys_ok_def)

section \<open>Samples\<close>

definition sample_access_env :: "(unit, unit) access_env" where
  "sample_access_env = \<lparr>ae_header = \<lambda>_. Some (''ES256'', Some ''k''), ae_decode = \<lambda>_ _ _ _. None, ae_digest = \<lambda>_. [1],
     ae_host = Some, ae_contains = \<lambda>_ _. True, ae_key = \<lambda>_ _. Some ()\<rparr>"

definition sample_web_request :: web_request where
  "sample_web_request = \<lparr>wr_method = ''GET'', wr_path = ''/api/v1/view'', wr_authority = Some ''localhost'', wr_uri_length = 12,
     wr_headers = [], wr_peer = Some (V4 127 0 0 1)\<rparr>"


theorem key_fetches_are_spaced_witness:
  "\<exists>ks. key_run sample_access_env ''a'' [] (ks, 0, [0]) \<and> length (kc_values ks) \<le> 16"
proof -
  obtain f ok ks where step: "iap_authorized sample_access_env ''a'' [] 0 0 None [] (new_keys 0) = (f, ok, ks)"
    by (cases "iap_authorized sample_access_env ''a'' [] 0 0 None [] (new_keys 0)") auto
  have f: "f" using step
    by (simp add: iap_authorized_def token_key_id_def sample_access_env_def Let_def keys_due_def new_keys_def)
  have run: "key_run sample_access_env ''a'' [] (ks, 0, [0])"
    using asked [OF fresh [of _ _ _ 0] _ _ step] f by simp
  then show ?thesis using key_fetches_are_spaced [OF run] by blast
qed

end
