(* ===== verification/Paging.thy ===== *)
theory Paging
  imports Projection
begin

text \<open>
  Reads of a provider and their continuation: \<open>crates/providers/src/endpoint.rs\<close>, \<open>pagination.rs\<close>,
  \<open>projection_rows.rs\<close> and the request key of \<open>common.rs\<close>. JSON values are those of \<open>value_api\<close> with what
  else is used here, in \<open>scan_env\<close>: a value's members, the text and length of JSON, the parsing and
  printing of URLs.
\<close>

section \<open>Endpoints\<close>

record 'v endpoint_read =
  ep_id :: string
  ep_url :: string
  ep_items :: string
  ep_body :: "'v option"
  ep_aws :: "(string \<times> string \<times> string) option"  \<comment> \<open>service, region, action\<close>

definition get_endpoint :: "string \<Rightarrow> string \<Rightarrow> string \<Rightarrow> 'v endpoint_read" where
  "get_endpoint i u items = \<lparr>ep_id = i, ep_url = u, ep_items = items, ep_body = None, ep_aws = None\<rparr>"

text \<open>A parsed URL with its port, its decoded query and its origin; an opaque origin equals none.\<close>

record web_url = url +
  wu_pairs :: "(string \<times> string) list"
  wu_origin :: "(string \<times> string \<times> nat) option"

definition same_origin :: "web_url \<Rightarrow> web_url \<Rightarrow> bool" where
  "same_origin a b \<longleftrightarrow> wu_origin a \<noteq> None \<and> wu_origin a = wu_origin b"

text \<open>
  \<^item> \<open>se_members\<close>: the values of an object, \<open>None\<close> for what is no object; \<open>se_null\<close>: \<open>Value::Null\<close>.
  \<^item> \<open>se_set v path s\<close>: \<open>v[a][b] = Value::String(s)\<close>; \<open>se_json\<close>: the length of \<open>serde_json::to_vec\<close>;
    \<open>se_triple\<close>: the JSON text of three strings; \<open>se_read\<close>: \<open>serde_json::from_str\<close>.
  \<^item> \<open>se_parse\<close>, \<open>se_print\<close>: \<open>Url::parse\<close> and its text; \<open>se_pairs u ps\<close>: the text of \<open>u\<close> with the query \<open>ps\<close>.
  \<^item> \<open>se_digest\<close>: SHA-256 in hexadecimal, of the text of a body for \<open>se_debug\<close>.
\<close>

record 'v scan_env =
  se_values :: "'v value_api"
  se_members :: "'v \<Rightarrow> 'v list option"
  se_null :: "'v \<Rightarrow> bool"
  se_set :: "'v \<Rightarrow> string list \<Rightarrow> string \<Rightarrow> 'v"
  se_json :: "'v \<Rightarrow> nat option"
  se_triple :: "string \<times> string \<times> string \<Rightarrow> string option"
  se_read :: "string \<Rightarrow> 'v option"
  se_parse :: "string \<Rightarrow> web_url option"
  se_print :: "web_url \<Rightarrow> string"
  se_pairs :: "web_url \<Rightarrow> (string \<times> string) list \<Rightarrow> string"
  se_digest :: "string \<Rightarrow> string"
  se_debug :: "'v option \<Rightarrow> string"
  se_batch :: "string \<Rightarrow> string list \<Rightarrow> 'v option \<Rightarrow> 'v"
  se_ids :: "string list \<Rightarrow> string"

definition endpoint_bytes :: "'v scan_env \<Rightarrow> 'v endpoint_read \<Rightarrow> usize" where
  "endpoint_bytes se e =
     (let body = (case ep_body e of None \<Rightarrow> 0 | Some b \<Rightarrow> (case se_json se b of None \<Rightarrow> u64_max | Some n \<Rightarrow> n));
          signing = (case ep_aws e of None \<Rightarrow> 0 | Some (service, region, action) \<Rightarrow>
                       length service + length region + length action)
      in sat_add64 (sat_mul64 (sat_add64 (sat_add64 (sat_add64 (sat_add64 body signing) (length (ep_id e)))
           (length (ep_url e))) (length (ep_items e))) 4) 512)"

text \<open>\<open>common::cache_key\<close>: what identifies a read within a revision.\<close>

definition read_key :: "'v scan_env \<Rightarrow> job \<Rightarrow> 'v endpoint_read \<Rightarrow> string" where
  "read_key se j e =
     se_digest se (j_revision j @ '':'' @ ep_id e @ '':'' @ ep_url e @ '':'' @ se_debug se (ep_body e))"

section \<open>Rows of a page\<close>

definition page_rows :: "'v scan_env \<Rightarrow> 'v \<Rightarrow> string \<Rightarrow> 'v list" where
  "page_rows se payload path =
     (case va_pointer (se_values se) payload path of
        None \<Rightarrow> []
      | Some v \<Rightarrow>
          (case va_array (se_values se) v of
             Some vs \<Rightarrow> vs
           | None \<Rightarrow>
               (case se_members se v of
                  Some ms \<Rightarrow>
                    if path = ''/items''
                    then concat (map (\<lambda>m. concat (List.map_filter (va_array (se_values se))
                           (unwrap_or [] (se_members se m)))) ms)
                    else [v]
                | None \<Rightarrow> [])))"

section \<open>Continuation\<close>

definition cursor_paths :: "string list" where
  "cursor_paths =
     [''/nextPageToken'', ''/nextToken'', ''/NextToken'', ''/nextLink'', ''/NextMarker'', ''/ContinuationToken'',
      ''/$skipToken'', ''/LastEvaluatedTableName'', ''/DescribeDBInstancesResult/Marker'',
      ''/DescribeDBClustersResult/Marker'', ''/DescribeCacheClustersResult/Marker'',
      ''/DescribeReplicationGroupsResult/Marker'', ''/DescribeAutoScalingGroupsResult/NextToken'',
      ''/DescribeLoadBalancersResult/NextMarker'', ''/DescribeTargetGroupsResult/NextMarker'',
      ''/ListTopicsResult/NextToken'']"

text \<open>The first cursor a page has; a cursor that is no string is malformed.\<close>

fun find_cursor :: "'v scan_env \<Rightarrow> 'v \<Rightarrow> string list \<Rightarrow> transport_error + (string \<times> string) option" where
  "find_cursor se payload [] = Inr None"
| "find_cursor se payload (p # ps) =
     (case va_pointer (se_values se) payload p of
        None \<Rightarrow> find_cursor se payload ps
      | Some v \<Rightarrow>
          if se_null se v then find_cursor se payload ps
          else (case va_str (se_values se) v of
                  None \<Rightarrow> Inl TMalformed
                | Some t \<Rightarrow> if t = [] then find_cursor se payload ps else Inr (Some (p, t))))"

definition token_refused :: "string \<Rightarrow> string \<Rightarrow> nat \<Rightarrow> job \<Rightarrow> bool" where
  "token_refused token previous page j \<longleftrightarrow>
     4096 < length token \<or> token = previous \<or> s_max_pages (j_settings j) \<le> page"

definition cursor_field :: "'v endpoint_read \<Rightarrow> job \<Rightarrow> string \<Rightarrow> string" where
  "cursor_field e j path =
     (let plain = dropWhile (\<lambda>c. c = CHR ''/'') path
      in if t_provider (j_target j) = Gcp then ''pageToken''
         else case ep_aws e of
                None \<Rightarrow> plain
              | Some (service, _, action) \<Rightarrow>
                  if path = ''/LastEvaluatedTableName'' then ''ExclusiveStartTableName''
                  else if starts_with action ''query:''
                  then (if service \<in> {''rds'', ''elasticache'', ''elasticloadbalancing''} then ''Marker'' else ''NextToken'')
                  else if service = ''kms'' then ''Marker''
                  else if ep_body e = None
                  then (if service \<in> {''eks'', ''backup''} then ''nextToken''
                        else if service = ''route53'' then ''marker''
                        else if service \<in> {''lambda'', ''cloudfront''} then ''Marker''
                        else if service = ''s3'' then ''continuation-token''
                        else ''NextToken'')
                  else plain)"

text \<open>\<open>pagination::query\<close>: the URL with some query fields replaced.\<close>

definition replace_query :: "'v scan_env \<Rightarrow> 'v endpoint_read \<Rightarrow> (string \<times> string) list \<Rightarrow> transport_error + 'v endpoint_read" where
  "replace_query se e replacement =
     (case se_parse se (ep_url e) of
        None \<Rightarrow> Inl TMalformed
      | Some u \<Rightarrow>
          Inr (e\<lparr>ep_url := se_pairs se u
                 (filter (\<lambda>(k, _). k \<notin> fst ` set replacement) (wu_pairs u) @ filter (\<lambda>(_, v). v \<noteq> []) replacement)\<rparr>))"

definition link_allowed :: "job \<Rightarrow> web_url \<Rightarrow> web_url \<Rightarrow> bool" where
  "link_allowed j old next_url \<longleftrightarrow>
     u_username next_url = [] \<and> u_password next_url = None \<and> u_fragment next_url = None \<and> same_origin next_url old \<and>
     (starts_with (u_path next_url) (''/subscriptions/'' @ t_scope (j_target j) @ ''/'') \<or>
      is_some_and (\<lambda>h. ends_with h ''.vault.azure.net'') (u_host old) \<and> u_path next_url = u_path old)"

definition follow_link :: "'v scan_env \<Rightarrow> job \<Rightarrow> 'v endpoint_read \<Rightarrow> string \<Rightarrow> transport_error + 'v endpoint_read" where
  "follow_link se j e token =
     (case se_parse se token of
        None \<Rightarrow> Inl TMalformed
      | Some next_url \<Rightarrow>
          (case se_parse se (ep_url e) of
             None \<Rightarrow> Inl TMalformed
           | Some old \<Rightarrow>
               if \<not> link_allowed j old next_url then Inl TForbidden
               else Inr (e\<lparr>ep_url := se_print se next_url\<rparr>)))"

definition record_page :: "'v scan_env \<Rightarrow> 'v endpoint_read \<Rightarrow> 'v \<Rightarrow> bool" where
  "record_page se e payload \<longleftrightarrow>
     is_some_and (\<lambda>(service, _). service = ''route53'') (ep_aws e) \<and> str_contains (ep_url e) ''/rrset'' \<and>
     boolean_at (se_values se) payload [''/IsTruncated''] = Some True"

definition advance_records ::
  "'v scan_env \<Rightarrow> 'v endpoint_read \<Rightarrow> job \<Rightarrow> 'v \<Rightarrow> string \<Rightarrow> nat \<Rightarrow> transport_error + (string \<times> 'v endpoint_read) option" where
  "advance_records se e j payload previous page =
     (case (text_at (se_values se) payload [''/NextRecordName''], text_at (se_values se) payload [''/NextRecordType'']) of
        (Some name, Some kind) \<Rightarrow>
          (let i = unwrap_or [] (text_at (se_values se) payload [''/NextRecordIdentifier''])
           in case se_triple se (name, kind, i) of
                None \<Rightarrow> Inl TMalformed
              | Some key \<Rightarrow>
                  if token_refused key previous page j then Inl TLimit
                  else (case replace_query se e [(''name'', name), (''type'', kind), (''identifier'', i)] of
                          Inl err \<Rightarrow> Inl err
                        | Inr e' \<Rightarrow> Inr (Some (key, e'))))
      | _ \<Rightarrow> Inl TMalformed)"

text \<open>\<open>pagination::advance\<close>: no further page, the token and the endpoint of the next, or an error.\<close>

definition advance_page ::
  "'v scan_env \<Rightarrow> 'v endpoint_read \<Rightarrow> job \<Rightarrow> 'v \<Rightarrow> string \<Rightarrow> nat \<Rightarrow> transport_error + (string \<times> 'v endpoint_read) option" where
  "advance_page se e j payload previous page =
     (if record_page se e payload then advance_records se e j payload previous page
      else case find_cursor se payload cursor_paths of
             Inl err \<Rightarrow> Inl err
           | Inr None \<Rightarrow>
               if boolean_at (se_values se) payload [''/IsTruncated'', ''/Truncated''] = Some True then Inl TMalformed
               else Inr None
           | Inr (Some (path, token)) \<Rightarrow>
               if token_refused token previous page j then Inl TLimit
               else (case (if path = ''/nextLink'' then follow_link se j e token
                           else case ep_body e of
                                  Some b \<Rightarrow>
                                    Inr (e\<lparr>ep_body := Some (se_set se b
                                      (if path = ''/$skipToken'' then [''options'', ''$skipToken''] else [cursor_field e j path])
                                      token)\<rparr>)
                                | None \<Rightarrow> replace_query se e [(cursor_field e j path, token)]) of
                       Inl err \<Rightarrow> Inl err
                     | Inr e' \<Rightarrow> Inr (Some (token, e'))))"

section \<open>Properties\<close>

text \<open>What printing and parsing URLs promise: a printed URL reads as itself, and a replaced query changes
  neither the origin nor the path.\<close>

definition url_laws :: "'v scan_env \<Rightarrow> bool" where
  "url_laws se \<longleftrightarrow>
     (\<forall>s u. se_parse se s = Some u \<longrightarrow> se_parse se (se_print se u) = Some u) \<and>
     (\<forall>s u ps. se_parse se s = Some u \<longrightarrow>
        (\<exists>u'. se_parse se (se_pairs se u ps) = Some u' \<and> wu_origin u' = wu_origin u \<and> u_path u' = u_path u \<and>
           u_host u' = u_host u))"

text \<open>Where the pages of one read may lie.\<close>

definition stays_in :: "job \<Rightarrow> web_url \<Rightarrow> web_url \<Rightarrow> bool" where
  "stays_in j u u' \<longleftrightarrow> wu_origin u' = wu_origin u \<and>
     (u_path u' = u_path u \<or> starts_with (u_path u') (''/subscriptions/'' @ t_scope (j_target j) @ ''/''))"

lemma replace_query_stays:
  assumes "url_laws se" and "replace_query se e ps = Inr e'" and "se_parse se (ep_url e) = Some u"
  shows "\<exists>u'. se_parse se (ep_url e') = Some u' \<and> stays_in j u u'"
  using assms unfolding url_laws_def replace_query_def stays_in_def by (auto simp: Let_def) blast

lemma follow_link_stays:
  assumes "url_laws se" and "follow_link se j e token = Inr e'" and "se_parse se (ep_url e) = Some u"
  shows "\<exists>u'. se_parse se (ep_url e') = Some u' \<and> stays_in j u u'"
  using assms unfolding url_laws_def follow_link_def link_allowed_def stays_in_def same_origin_def
  by (auto split: option.splits if_splits)

lemma advance_page_stays:
  assumes "url_laws se" and "advance_page se e j payload previous page = Inr (Some (token, e'))"
    and "se_parse se (ep_url e) = Some u"
  shows "\<exists>u'. se_parse se (ep_url e') = Some u' \<and> stays_in j u u'"
  using assms(2) assms(3) replace_query_stays [OF assms(1)] follow_link_stays [OF assms(1)]
  by (auto simp: advance_page_def advance_records_def stays_in_def Let_def split: if_splits option.splits sum.splits)

lemma advance_page_keeps: "advance_page se e j payload previous page = Inr (Some (token, e')) \<Longrightarrow>
    ep_id e' = ep_id e \<and> ep_items e' = ep_items e \<and> ep_aws e' = ep_aws e"
  by (auto simp: advance_page_def advance_records_def replace_query_def follow_link_def Let_def
      split: if_splits option.splits sum.splits)

end
