(* ===== verification/Scan.thy ===== *)
theory Scan
  imports Paging Bounds Images
begin

text \<open>
  Collection from a provider, \<open>crates/providers/src\<close>: the pages of one read (\<open>endpoint_scan.rs\<close>), the reads of
  a batch (\<open>aws_batches.rs\<close>) with what makes a page incomplete (\<open>metadata_fields.rs\<close>,
  \<open>registry_manifests.rs\<close>), and the work list over all reads (\<open>common_parallel.rs\<close>) with its shared
  inventory cache (\<open>inventory_cache.rs\<close>).

  What one value becomes as observations and as further reads is an argument, in \<open>scanner\<close>: the theorems
  hold for every projection. Replies are inputs. The byte budget that concurrent reads share
  (\<open>scan_budget.rs\<close>) is part of the limit; what other reads charge in between is an input too.
\<close>

section \<open>Scanner\<close>

record 'v scanner =
  sn_env :: "'v scan_env"
  sn_ext :: ext
  sn_project :: "job \<Rightarrow> 'v endpoint_read \<Rightarrow> 'v \<Rightarrow> observation list"
  sn_details :: "job \<Rightarrow> 'v endpoint_read \<Rightarrow> 'v \<Rightarrow> 'v endpoint_read list"

text \<open>\<open>scan_budget::claim\<close>: outside of a collection there is nothing to charge.\<close>

definition scan_claim :: "usize \<Rightarrow> limit \<Rightarrow> limit option" where
  "scan_claim n l =
     (case l_shared l of
        None \<Rightarrow> Some l
      | Some sh \<Rightarrow> (case claim n sh of None \<Rightarrow> None | Some sh' \<Rightarrow> Some (l\<lparr>l_shared := Some sh'\<rparr>)))"

text \<open>\<open>scan_budget::limit\<close>.\<close>

definition scan_limit :: "settings \<Rightarrow> shared_budget option \<Rightarrow> limit" where
  "scan_limit s shared = (case shared of None \<Rightarrow> new_limit s | Some sh \<Rightarrow> limit_with_shared s sh)"

definition queue_share :: "settings \<Rightarrow> usize" where
  "queue_share s = s_memory_bytes s div 4 div max (s_concurrency s) 1"

definition wall :: "'v scanner \<Rightarrow> instant" where
  "wall sc = x_wall (sn_ext sc)"

section \<open>Incomplete pages\<close>

text \<open>\<open>metadata_fields::validate\<close>: more rules than are kept.\<close>

definition rules_truncated :: "'v scan_env \<Rightarrow> job \<Rightarrow> 'v endpoint_read \<Rightarrow> 'v \<Rightarrow> bool" where
  "rules_truncated se j e v \<longleftrightarrow>
     (let va = se_values se; family = first_part CHR ''/'' (ep_id e);
          rules = obind (va_get va v ''allowed'') (va_array va)
      in family = ''firewalls'' \<and>
           (is_some_and (\<lambda>rs. 32 < length rs) rules \<or>
            128 < sum_list (map length (List.map_filter (\<lambda>r. obind (va_get va r ''ports'') (va_array va)) (unwrap_or [] rules)))) \<or>
         family = ''network-security'' \<and>
           is_some_and (\<lambda>rs. s_max_assets (j_settings j) < length rs) (array_at va v ''/properties/securityRules''))"

definition validate_metadata :: "'v scan_env \<Rightarrow> job \<Rightarrow> 'v endpoint_read \<Rightarrow> 'v \<Rightarrow> transport_error option" where
  "validate_metadata se j e v = (if rules_truncated se j e v then Some TLimit else None)"

text \<open>\<open>registry_manifests::validate\<close>.\<close>

definition validate_manifest :: "'v scan_env \<Rightarrow> job \<Rightarrow> 'v \<Rightarrow> transport_error option" where
  "validate_manifest se j row =
     (let va = se_values se
      in case (case text_at va row [''/imageManifest''] of Some raw \<Rightarrow> se_read se raw | None \<Rightarrow> Some row) of
           None \<Rightarrow> Some TMalformed
         | Some manifest \<Rightarrow>
             if obind (va_get va manifest ''schemaVersion'') (va_i64 va) \<noteq> Some 2 then Some TMalformed
             else (case obind (va_get va manifest ''manifests'') (va_array va) of
                     None \<Rightarrow> Some TMalformed
                   | Some children \<Rightarrow>
                       if s_max_series (j_settings j) < length children then Some TLimit
                       else if list_ex (\<lambda>c. obind (text_at va c [''/digest'']) digest = None) children then Some TMalformed
                       else None))"

definition validate_manifests :: "'v scan_env \<Rightarrow> job \<Rightarrow> 'v endpoint_read \<Rightarrow> 'v \<Rightarrow> transport_error option" where
  "validate_manifests se j e payload =
     (let va = se_values se
      in case (if ep_aws e \<noteq> None then obind (va_get va payload ''images'') (va_array va) else Some [payload]) of
           None \<Rightarrow> Some TMalformed
         | Some rows \<Rightarrow> if rows = [] then Some TMissing else find_map (validate_manifest se j) rows)"

section \<open>Batches\<close>

fun chunks :: "nat \<Rightarrow> 'a list \<Rightarrow> 'a list list" where
  "chunks n [] = []"
| "chunks n (x # xs) = take (max n 1) (x # xs) # chunks n (drop (max n 1 - 1) xs)"

definition batch_kind :: "string \<Rightarrow> (string \<times> string \<times> string \<times> nat \<times> string) option" where
  "batch_kind family =
     (if family = ''codebuild''
      then Some (''build-details'', ''CodeBuild_20161006.BatchGetBuilds'', ''ids'', 100, ''/builds'')
      else if family = ''ecs-services''
      then Some (''ecs-services-detail'', ''AmazonEC2ContainerServiceV20141113.DescribeServices'', ''services'', 10, ''/services'')
      else if family = ''ecs-tasks''
      then Some (''ecs-tasks-detail'', ''AmazonEC2ContainerServiceV20141113.DescribeTasks'', ''tasks'', 100, ''/tasks'')
      else None)"

text \<open>\<open>aws_batches::followups\<close>; \<open>se_batch field ids cluster\<close> is the body, \<open>se_ids\<close> the digest of the ids.\<close>

definition batch_followups :: "'v scan_env \<Rightarrow> 'v endpoint_read \<Rightarrow> 'v list \<Rightarrow> 'v endpoint_read list option" where
  "batch_followups se parent rows =
     obind (ep_aws parent) (\<lambda>(service, region, _).
     obind (batch_kind (first_part CHR ''/'' (ep_id parent))) (\<lambda>(name, action, field, limit, items).
       Some (map (\<lambda>ids.
           (get_endpoint (''batch-'' @ name @ ''/'' @ region @ ''/'' @ se_ids se ids) (ep_url parent) items)
             \<lparr>ep_aws := Some (service, region, action),
              ep_body := Some (se_batch se field ids (obind (ep_body parent) (\<lambda>b. va_get (se_values se) b ''cluster'')))\<rparr>)
         (chunks limit (List.map_filter (va_str (se_values se)) rows)))))"

section \<open>Pages of one read\<close>

record 'v page_state =
  pg_obs :: "observation list"
  pg_pending :: "'v endpoint_read list"
  pg_queued :: usize
  pg_limit :: limit
  pg_outcome :: "transport_error + nat"

definition failed_page :: "'v page_state \<Rightarrow> bool" where
  "failed_page st \<longleftrightarrow> (case pg_outcome st of Inl _ \<Rightarrow> True | Inr _ \<Rightarrow> False)"

text \<open>Queue further reads until one does not fit.\<close>

fun queue_reads :: "'v scanner \<Rightarrow> settings \<Rightarrow> 'v endpoint_read list \<Rightarrow> 'v page_state \<Rightarrow> 'v page_state" where
  "queue_reads sc s [] st = st"
| "queue_reads sc s (e # es) st =
     (let size = endpoint_bytes (sn_env sc) e
      in if s_ready_queue s \<le> length (pg_pending st) \<or> queue_share s - pg_queued st < size
         then st\<lparr>pg_outcome := Inl TLimit\<rparr>
         else case scan_claim size (pg_limit st) of
                None \<Rightarrow> st\<lparr>pg_outcome := Inl TLimit\<rparr>
              | Some l \<Rightarrow>
                  queue_reads sc s es (st\<lparr>pg_limit := l, pg_queued := pg_queued st + size, pg_pending := pg_pending st @ [e]\<rparr>))"

definition admit_page :: "'v scanner \<Rightarrow> observation list \<Rightarrow> 'v page_state \<Rightarrow> 'v page_state" where
  "admit_page sc os st =
     (case admit_observations (sn_ext sc) (pg_limit st) (pg_obs st) os of
        (l, out, fits) \<Rightarrow>
          (let st = st\<lparr>pg_limit := l, pg_obs := out\<rparr> in if fits then st else st\<lparr>pg_outcome := Inl TLimit\<rparr>))"

definition check_metadata :: "transport_error option \<Rightarrow> 'v page_state \<Rightarrow> 'v page_state" where
  "check_metadata err st = (case err of None \<Rightarrow> st | Some x \<Rightarrow> st\<lparr>pg_outcome := Inl x\<rparr>)"

definition scan_row :: "'v scanner \<Rightarrow> job \<Rightarrow> 'v endpoint_read \<Rightarrow> bool \<Rightarrow> 'v \<Rightarrow> 'v page_state \<Rightarrow> 'v page_state" where
  "scan_row sc j e batched row st =
     queue_reads sc (j_settings j) (if batched then [] else sn_details sc j e row)
       (admit_page sc (sn_project sc j e row) (check_metadata (validate_metadata (sn_env sc) j e row) st))"

fun scan_rows :: "'v scanner \<Rightarrow> job \<Rightarrow> 'v endpoint_read \<Rightarrow> bool \<Rightarrow> 'v list \<Rightarrow> 'v page_state \<Rightarrow> 'v page_state" where
  "scan_rows sc j e batched [] st = st"
| "scan_rows sc j e batched (row # rows) st =
     (if s_max_assets (j_settings j) \<le> length (pg_obs st) then st\<lparr>pg_outcome := Inl TLimit\<rparr>
      else let st = scan_row sc j e batched row st
           in if failed_page st then st else scan_rows sc j e batched rows st)"

text \<open>An empty page that is what an empty list looks like.\<close>

definition empty_page :: "'v scan_env \<Rightarrow> 'v endpoint_read \<Rightarrow> 'v \<Rightarrow> bool" where
  "empty_page se e payload \<longleftrightarrow>
     (let va = se_values se
      in se_members se payload = Some [] \<or>
         ep_items e = ''/items'' \<and>
           is_some_and (list_all (\<lambda>scope. text_at va scope [''/warning/code''] = Some ''NO_RESULTS_ON_PAGE''))
             (obind (va_get va payload ''items'') (se_members se)) \<or>
         is_some_and (\<lambda>v. va_array va v = Some [] \<or> va_str va v = Some []) (va_pointer va payload (ep_items e)))"

definition scan_page :: "'v scanner \<Rightarrow> job \<Rightarrow> 'v endpoint_read \<Rightarrow> 'v \<Rightarrow> 'v page_state \<Rightarrow> 'v page_state" where
  "scan_page sc j e payload st =
     (let se = sn_env sc; rows = page_rows se payload (ep_items e); batches = batch_followups se e rows;
          st = queue_reads sc (j_settings j) (unwrap_or [] batches) st
      in if rows \<noteq> []
         then (let st = scan_rows sc j e (batches \<noteq> None) rows st
               in case pg_outcome st of Inl _ \<Rightarrow> st | Inr n \<Rightarrow> st\<lparr>pg_outcome := Inr (n + length rows)\<rparr>)
         else if ep_items e = []
         then admit_page sc (sn_project sc j e payload)
                (check_metadata (validate_metadata se j e payload) (st\<lparr>pg_outcome := Inr 1\<rparr>))
         else if empty_page se e payload then st\<lparr>pg_outcome := Inr 0\<rparr>
         else st\<lparr>pg_outcome := Inl TMalformed\<rparr>)"

text \<open>What other reads charged to the shared budget before page \<open>k\<close> is processed.\<close>

definition meanwhile :: "(nat \<Rightarrow> usize \<Rightarrow> usize) \<Rightarrow> nat \<Rightarrow> 'v page_state \<Rightarrow> 'v page_state" where
  "meanwhile others k st =
     st\<lparr>pg_limit := (pg_limit st)\<lparr>l_shared := map_option (\<lambda>sh. sh\<lparr>sh_used := others k (sh_used sh)\<rparr>) (l_shared (pg_limit st))\<rparr>\<rparr>"

text \<open>The loop over the pages; \<open>n\<close> pages are left, \<open>page\<close> were read.\<close>

fun scan_pages ::
  "'v scanner \<Rightarrow> job \<Rightarrow> (nat \<Rightarrow> 'v endpoint_read \<Rightarrow> transport_error + 'v) \<Rightarrow> (nat \<Rightarrow> usize \<Rightarrow> usize) \<Rightarrow> nat \<Rightarrow> nat \<Rightarrow>
   'v endpoint_read \<Rightarrow> string \<Rightarrow> 'v page_state \<Rightarrow> nat \<times> 'v page_state" where
  "scan_pages sc j answers others 0 page e previous st = (page, st)"
| "scan_pages sc j answers others (Suc n) page e previous st =
     (case answers page e of
        Inl err \<Rightarrow> (page + 1, st\<lparr>pg_outcome := Inl err\<rparr>)
      | Inr payload \<Rightarrow>
          (let st = scan_page sc j e payload (meanwhile others page st)
           in if failed_page st then (page + 1, st)
              else case (if starts_with (ep_id e) ''registry-manifest/'' then validate_manifests (sn_env sc) j e payload else None) of
                     Some err \<Rightarrow> (page + 1, st\<lparr>pg_outcome := Inl err\<rparr>)
                   | None \<Rightarrow>
                       (case advance_page (sn_env sc) e j payload previous (page + 1) of
                          Inl err \<Rightarrow> (page + 1, st\<lparr>pg_outcome := Inl err\<rparr>)
                        | Inr None \<Rightarrow> (page + 1, st)
                        | Inr (Some (token, e')) \<Rightarrow> scan_pages sc j answers others n (page + 1) e' token st)))"

record 'v fetched =
  fe_result :: check_result
  fe_followups :: "'v endpoint_read list"

text \<open>\<open>router::base\<close>: a result without operations.\<close>

definition base_result :: "'v scanner \<Rightarrow> job \<Rightarrow> check_result" where
  "base_result sc j = (result_failure (t_name (j_target j)) (j_check j) (j_revision j) Missing (wall sc))\<lparr>r_operations := []\<rparr>"

definition fetch_pages ::
  "'v scanner \<Rightarrow> job \<Rightarrow> shared_budget option \<Rightarrow> (nat \<Rightarrow> 'v endpoint_read \<Rightarrow> transport_error + 'v) \<Rightarrow> (nat \<Rightarrow> usize \<Rightarrow> usize) \<Rightarrow>
   'v endpoint_read \<Rightarrow> 'v fetched" where
  "fetch_pages sc j shared answers others e =
     (let s = j_settings j;
          (pages, st) = scan_pages sc j answers others (s_max_pages s) 0 e []
            \<lparr>pg_obs = [], pg_pending = [], pg_queued = 0, pg_limit = scan_limit s shared, pg_outcome = Inr 0\<rparr>;
          (l, ops, _) = admit_operations (sn_ext sc) (pg_limit st) []
            [project_operation (wall sc) (ep_id e) (pg_outcome st) pages (s_required s)];
          r = finish_limit (sn_ext sc) l (s_required s) ((base_result sc j)\<lparr>r_operations := ops, r_observations := pg_obs st\<rparr>)
      in \<lparr>fe_result = r\<lparr>r_finished_at := wall sc\<rparr>, fe_followups = pg_pending st\<rparr>)"

section \<open>The reads of a batch\<close>

record 'v batch_state =
  ba_obs :: "observation list"
  ba_ops :: "operation list"
  ba_followups :: "'v endpoint_read list"
  ba_limit :: limit

fun trim_start :: "string \<Rightarrow> string \<Rightarrow> string" where
  "trim_start p [] = []"
| "trim_start p (c # s) =
     (if p \<noteq> [] \<and> starts_with (c # s) p then trim_start p (drop (length p - 1) s) else c # s)"

definition batch_scope :: "string \<Rightarrow> string" where
  "batch_scope i = join_with ''/'' (take 2 (split_on CHR ''/'' (trim_start ''batch-'' i)))"

definition batch_field :: "string \<Rightarrow> string" where
  "batch_field i =
     (let family = first_part CHR ''/'' i
      in if family = ''batch-build-details'' then ''ids''
         else if family = ''batch-ecs-services-detail'' then ''services'' else ''tasks'')"

fun batch_details :: "'v scanner \<Rightarrow> settings \<Rightarrow> 'v endpoint_read list \<Rightarrow> 'v batch_state \<Rightarrow> bool \<times> 'v batch_state" where
  "batch_details sc s [] st = (True, st)"
| "batch_details sc s (e # es) st =
     (let claimed = (if length (ba_followups st) < s_ready_queue s then scan_claim (endpoint_bytes (sn_env sc) e) (ba_limit st) else None);
          (ok, st') = batch_details sc s es (case claimed of None \<Rightarrow> st
             | Some l \<Rightarrow> st\<lparr>ba_limit := l, ba_followups := ba_followups st @ [e]\<rparr>)
      in (ok \<and> claimed \<noteq> None, st'))"

definition batch_row :: "'v scanner \<Rightarrow> job \<Rightarrow> 'v endpoint_read \<Rightarrow> 'v \<Rightarrow> 'v batch_state \<Rightarrow> (coverage + nat) \<times> 'v batch_state" where
  "batch_row sc j item row st =
     (let projected = sn_project sc j item row;
          (l, os, admitted) = admit_observations (sn_ext sc) (ba_limit st) (ba_obs st) projected;
          (bounded, st) = batch_details sc (j_settings j) (sn_details sc j item row) (st\<lparr>ba_limit := l, ba_obs := os\<rparr>)
      in (if admitted \<and> bounded then Inr (length projected) else Inl Truncated, st))"

definition batch_answer ::
  "'v scanner \<Rightarrow> job \<Rightarrow> 'v endpoint_read \<Rightarrow> transport_error + 'v \<Rightarrow> string \<Rightarrow> 'v batch_state \<Rightarrow> (coverage + nat) \<times> 'v batch_state" where
  "batch_answer sc j item response i st =
     (let va = se_values (sn_env sc)
      in case response of
           Inl err \<Rightarrow> (Inl (transport_coverage err), st)
         | Inr v \<Rightarrow>
             (case obind (array_at va v (ep_items item))
                     (find (\<lambda>row. text_at va row [''/id'', ''/serviceArn'', ''/taskArn''] = Some i)) of
                Some row \<Rightarrow> batch_row sc j item row st
              | None \<Rightarrow> (Inl (if array_at va v (ep_items item) = None then Malformed else Missing), st)))"

text \<open>One operation for each requested id.\<close>

fun batch_items ::
  "'v scanner \<Rightarrow> job \<Rightarrow> 'v endpoint_read \<Rightarrow> transport_error + 'v \<Rightarrow> string list \<Rightarrow> 'v batch_state \<Rightarrow> 'v batch_state" where
  "batch_items sc j e response [] st = st"
| "batch_items sc j e response (i # is) st =
     (let item = e\<lparr>ep_id := batch_scope (ep_id e) @ ''/'' @ i\<rparr>;
          (outcome, st) = batch_answer sc j item response i st;
          p = (case outcome of
                 Inr n \<Rightarrow> project_operation (wall sc) (ep_id item) (Inr n) 1 (s_required (j_settings j))
               | Inl c \<Rightarrow> (project_operation (wall sc) (ep_id item) (Inl TMissing) 1 (s_required (j_settings j)))\<lparr>op_coverage := c\<rparr>);
          (l, ops, _) = admit_operations (sn_ext sc) (ba_limit st) (ba_ops st) [p]
      in batch_items sc j e response is (st\<lparr>ba_limit := l, ba_ops := ops\<rparr>))"

definition requested_ids :: "'v scan_env \<Rightarrow> 'v endpoint_read \<Rightarrow> string list" where
  "requested_ids se e =
     (case ep_body e of
        None \<Rightarrow> []
      | Some b \<Rightarrow> List.map_filter (va_str (se_values se))
           (unwrap_or [] (obind (va_get (se_values se) b (batch_field (ep_id e))) (va_array (se_values se)))))"

definition fetch_batch :: "'v scanner \<Rightarrow> job \<Rightarrow> shared_budget option \<Rightarrow> transport_error + 'v \<Rightarrow> 'v endpoint_read \<Rightarrow> 'v fetched" where
  "fetch_batch sc j shared response e =
     (let s = j_settings j;
          st = batch_items sc j e response (requested_ids (sn_env sc) e)
            \<lparr>ba_obs = [], ba_ops = [], ba_followups = [], ba_limit = scan_limit s shared\<rparr>;
          ops = (if ba_ops st = [] then [project_operation (wall sc) (batch_scope (ep_id e)) (Inl TMalformed) 1 True] else ba_ops st);
          r = (base_result sc j)\<lparr>r_operations := ops, r_observations := ba_obs st, r_finished_at := wall sc\<rparr>
      in \<lparr>fe_result = finish_limit (sn_ext sc) (ba_limit st) (s_required s) r, fe_followups = ba_followups st\<rparr>)"

text \<open>\<open>endpoint_scan::fetch\<close>; between request and reply of a batch others charge the budget.\<close>

definition fetch ::
  "'v scanner \<Rightarrow> job \<Rightarrow> shared_budget option \<Rightarrow> (nat \<Rightarrow> 'v endpoint_read \<Rightarrow> transport_error + 'v) \<Rightarrow> (nat \<Rightarrow> usize \<Rightarrow> usize) \<Rightarrow>
   'v endpoint_read \<Rightarrow> 'v fetched" where
  "fetch sc j shared answers others e =
     (if starts_with (ep_id e) ''batch-'' \<and> ep_aws e \<noteq> None
      then fetch_batch sc j (map_option (\<lambda>sh. sh\<lparr>sh_used := others 0 (sh_used sh)\<rparr>) shared) (answers 0 e) e
      else fetch_pages sc j shared answers others e)"

end
