(* ===== verification/Collect.thy ===== *)
theory Collect
  imports Scan
begin

text \<open>
  The work list over all reads of a collection, \<open>crates/providers/src/common_parallel.rs\<close>, with the width
  of \<open>integrations/src/admission.rs\<close> and the inventory cache of \<open>inventory_cache.rs\<close>. Reads run side by
  side; \<open>pick k\<close> says which of the running reads ends as the \<open>k\<close>-th, and \<open>replies\<close> with what: a key is
  read at most once in a collection, so the reply is a function of the read.
\<close>

section \<open>The inventory cache\<close>

record 'v inventory_entry =
  ie_consumers :: "check set"
  ie_at :: instant
  ie_value :: "'v fetched"

definition fetched_bytes :: "'v scanner \<Rightarrow> 'v fetched \<Rightarrow> usize" where
  "fetched_bytes sc f =
     sat_add64 (result_bytes (sn_ext sc) (fe_result f)) (sum_list (map (endpoint_bytes (sn_env sc)) (fe_followups f)))"

definition all_complete :: "check_result \<Rightarrow> bool" where
  "all_complete r \<longleftrightarrow> list_all (\<lambda>p. op_coverage p = Complete) (r_operations r)"

definition refused_read :: "'v scanner \<Rightarrow> job \<Rightarrow> coverage \<Rightarrow> check_result" where
  "refused_read sc j c = result_failure (t_name (j_target j)) (j_check j) (j_revision j) c (wall sc)"

text \<open>\<open>InventoryCache::load\<close> with the slot of its key locked: \<open>now\<close> and \<open>later\<close> are the clock before and after
  the read, \<open>claimed\<close> whether the collection has room for the cached value, \<open>room\<close> whether the cache has.\<close>

definition load_slot ::
  "'v scanner \<Rightarrow> job \<Rightarrow> instant \<Rightarrow> instant \<Rightarrow> bool \<Rightarrow> (usize \<Rightarrow> bool) \<Rightarrow> 'v fetched \<Rightarrow> 'v endpoint_read \<Rightarrow>
   'v inventory_entry option \<Rightarrow> 'v fetched \<times> 'v inventory_entry option" where
  "load_slot sc j now later claimed room fetched e slot =
     (case (case slot of
              Some en \<Rightarrow> if now - ie_at en < int (s_interval (j_settings j)) * nanos_per_sec \<and> j_check j \<notin> ie_consumers en
                         then Some en else None
            | None \<Rightarrow> None) of
        Some en \<Rightarrow>
          if \<not> claimed
          then (let r = refused_read sc j Truncated
                in (\<lparr>fe_result = r\<lparr>r_operations := map (\<lambda>p. p\<lparr>op_id := ep_id e\<rparr>) (r_operations r)\<rparr>, fe_followups = []\<rparr>, slot))
          else (ie_value en, Some (en\<lparr>ie_consumers := insert (j_check j) (ie_consumers en)\<rparr>))
      | None \<Rightarrow>
          (fetched,
           if all_complete (fe_result fetched) \<and> fetched_bytes sc fetched \<le> u32_max \<and> room (fetched_bytes sc fetched)
           then Some \<lparr>ie_consumers = {j_check j}, ie_at = later, ie_value = fetched\<rparr> else None))"

section \<open>The work list\<close>

definition scan_width :: "settings \<Rightarrow> usize" where
  "scan_width s = max (min (s_scope_concurrency s) (s_concurrency s)) 1"

record 'v collect_state =
  co_initial :: "'v endpoint_read list"
  co_pending :: "'v endpoint_read list"
  co_queued :: usize
  co_visited :: "string list"
  co_running :: "'v endpoint_read list"
  co_limit :: limit
  co_result :: check_result

definition start_collect :: "'v scanner \<Rightarrow> job \<Rightarrow> 'v endpoint_read list \<Rightarrow> 'v collect_state" where
  "start_collect sc j es =
     \<lparr>co_initial = es, co_pending = [], co_queued = 0, co_visited = [], co_running = [],
      co_limit = new_limit (j_settings j), co_result = base_result sc j\<rparr>"

definition next_read :: "'v scanner \<Rightarrow> 'v collect_state \<Rightarrow> ('v endpoint_read \<times> 'v collect_state) option" where
  "next_read sc st =
     (case co_pending st of
        e # es \<Rightarrow> Some (e, st\<lparr>co_pending := es, co_queued := co_queued st - endpoint_bytes (sn_env sc) e\<rparr>)
      | [] \<Rightarrow> (case co_initial st of e # es \<Rightarrow> Some (e, st\<lparr>co_initial := es\<rparr>) | [] \<Rightarrow> None))"

definition waiting_reads :: "'v collect_state \<Rightarrow> nat" where
  "waiting_reads st = length (co_pending st) + length (co_initial st)"

lemma next_read_less: "next_read sc st = Some (e, st') \<Longrightarrow> waiting_reads st' < waiting_reads st"
  by (auto simp: next_read_def waiting_reads_def split: list.splits)

text \<open>Start reads while there is room; a key that was visited is skipped.\<close>

function fill_running :: "'v scanner \<Rightarrow> job \<Rightarrow> 'v collect_state \<Rightarrow> 'v collect_state" where
  "fill_running sc j st =
     (if scan_width (j_settings j) \<le> length (co_running st) \<or> limit_exhausted (co_limit st) then st
      else case next_read sc st of
             None \<Rightarrow> st
           | Some (e, st') \<Rightarrow>
               if read_key (sn_env sc) j e \<in> set (co_visited st') then fill_running sc j st'
               else if s_max_assets (j_settings j) < length (co_visited st') + 1
               then st'\<lparr>co_visited := read_key (sn_env sc) j e # co_visited st', co_limit := mark_limited (co_limit st')\<rparr>
               else fill_running sc j
                      (st'\<lparr>co_visited := read_key (sn_env sc) j e # co_visited st', co_running := co_running st' @ [e]\<rparr>))"
  by pat_completeness auto

termination
proof (relation "measure (\<lambda>(_, _, st). waiting_reads st)")
  show "wf (measure (\<lambda>(_, _, st). waiting_reads st))" by simp
qed (auto dest!: next_read_less simp: waiting_reads_def)

declare fill_running.simps [simp del]

text \<open>Queue the further reads of a page until one does not fit; then its operations are not complete.\<close>

fun push_followups :: "'v scanner \<Rightarrow> settings \<Rightarrow> 'v endpoint_read list \<Rightarrow> 'v collect_state \<Rightarrow> bool \<times> 'v collect_state" where
  "push_followups sc s [] st = (True, st)"
| "push_followups sc s (e # es) st =
     (if s_ready_queue s \<le> length (co_pending st) \<or> queue_share s - co_queued st < endpoint_bytes (sn_env sc) e
      then (False, st)
      else push_followups sc s es
             (st\<lparr>co_queued := co_queued st + endpoint_bytes (sn_env sc) e, co_pending := co_pending st @ [e]\<rparr>))"

definition settle_operations :: "bool \<Rightarrow> bool \<Rightarrow> operation list \<Rightarrow> operation list" where
  "settle_operations fits required ps =
     map (\<lambda>p. (if fits then p else p\<lparr>op_coverage := Truncated\<rparr>)\<lparr>op_required := required\<rparr>) ps"

definition join_read :: "'v scanner \<Rightarrow> job \<Rightarrow> nat \<Rightarrow> 'v fetched \<Rightarrow> 'v collect_state \<Rightarrow> 'v collect_state" where
  "join_read sc j i f st =
     (let st = st\<lparr>co_running := take i (co_running st) @ drop (Suc i) (co_running st)\<rparr>;
          (fits, st) = push_followups sc (j_settings j) (fe_followups f) st;
          r = fe_result f;
          (l, merged) = merge_result (sn_ext sc) (co_limit st) (co_result st)
            (r\<lparr>r_operations := settle_operations fits (s_required (j_settings j)) (r_operations r)\<rparr>)
      in st\<lparr>co_limit := l, co_result := merged\<rparr>)"

definition end_collect :: "'v scanner \<Rightarrow> job \<Rightarrow> 'v collect_state \<Rightarrow> check_result" where
  "end_collect sc j st =
     (let l = (if co_pending st \<noteq> [] \<or> co_initial st \<noteq> [] then mark_limited (co_limit st) else co_limit st);
          r = finish_limit (sn_ext sc) l (s_required (j_settings j)) (co_result st);
          ops = (if r_operations r = []
                 then [project_operation (wall sc) ''not-configured'' (Inl TMissing) 0 (s_required (j_settings j))]
                 else r_operations r)
      in r\<lparr>r_operations := sort_key op_id ops, r_observations := sort_key o_resource (r_observations r),
           r_finished_at := wall sc\<rparr>)"

text \<open>The loop; every turn that joins a read takes one unit of fuel.\<close>

fun collect_loop ::
  "'v scanner \<Rightarrow> job \<Rightarrow> (nat \<Rightarrow> nat) \<Rightarrow> ('v endpoint_read \<Rightarrow> 'v fetched) \<Rightarrow> nat \<Rightarrow> nat \<Rightarrow> 'v collect_state \<Rightarrow> check_result option" where
  "collect_loop sc j pick replies n k st =
     (let st = fill_running sc j st
      in if co_running st = [] then Some (end_collect sc j st)
         else case n of
                0 \<Rightarrow> None
              | Suc n \<Rightarrow>
                  (let i = pick k mod length (co_running st)
                   in collect_loop sc j pick replies n (k + 1) (join_read sc j i (replies (co_running st ! i)) st)))"

declare collect_loop.simps [simp del]

definition collect_reads ::
  "'v scanner \<Rightarrow> job \<Rightarrow> (nat \<Rightarrow> nat) \<Rightarrow> ('v endpoint_read \<Rightarrow> 'v fetched) \<Rightarrow> 'v endpoint_read list \<Rightarrow> check_result option" where
  "collect_reads sc j pick replies es =
     collect_loop sc j pick replies (s_max_assets (j_settings j)) 0 (start_collect sc j es)"

end
