(* ===== verification/Scan_Properties.thy ===== *)
theory Scan_Properties
  imports Collect
begin

text \<open>
  What a complete collection rests on: a read whose operations are all complete returned exactly what its
  pages hold, and a collection whose operations are all complete followed every read it was led to and
  kept every observation. Nothing that was cut short, refused or dropped is reported complete.
\<close>

section \<open>The budget tells what it refused\<close>

lemma charge_limited: "charge c l = Some l' \<Longrightarrow> l_limited l' = l_limited l"
  by (auto simp: charge_def split: if_splits option.splits)

lemma scan_claim_limited: "scan_claim n l = Some l' \<Longrightarrow> l_limited l' = l_limited l"
  by (auto simp: scan_claim_def split: option.splits)

lemma admit_observations_told:
  "admit_observations x l out os = (l', out', fits) \<Longrightarrow>
     (if fits then out' = out @ os \<and> l_limited l' = l_limited l else l_limited l')"
proof (induction x l out os rule: admit_observations.induct)
  case (2 x l out obs incoming)
  then show ?case
    by (auto simp: mark_limited_def charge_limited split: if_splits option.splits)
qed simp

lemma admit_operations_told:
  "admit_operations x l out ps = (l', out', fits) \<Longrightarrow>
     (\<exists>n. out' = out @ take n ps) \<and> (if fits then out' = out @ ps \<and> l_limited l' = l_limited l else l_limited l')"
proof (induction x l out ps rule: admit_operations.induct)
  case (2 x l out p incoming)
  show ?case
  proof (cases "l_operations l < l_assets l \<and> charge (operation_bytes x p) l \<noteq> None")
    case True
    then obtain l1 where l1: "charge (operation_bytes x p) l = Some l1" by auto
    have "admit_operations x (l1\<lparr>l_operations := Suc (l_operations l1)\<rparr>) (out @ [p]) incoming = (l', out', fits)"
      using 2(2) True l1 by simp
    from 2(1) [OF _ l1 this] True obtain n where
      "out' = out @ take (Suc n) (p # incoming)" "if fits then out' = out @ p # incoming \<and> l_limited l' = l_limited l else l_limited l'"
      using charge_limited [OF l1] by auto
    then show ?thesis by blast
  next
    case False
    then show ?thesis using 2(2) by (auto simp: mark_limited_def intro: exI [of _ 0] split: if_splits option.splits)
  qed
qed auto

declare admit_operations.simps [simp del] admit_observations.simps [simp del]

lemma finish_limit_complete: "all_complete (finish_limit x l b r) \<longleftrightarrow> \<not> l_limited l \<and> all_complete r"
  by (simp add: finish_limit_def all_complete_def)

lemma finish_limit_kept: "r_observations (finish_limit x l b r) = r_observations r"
  by (simp add: finish_limit_def)

lemma error_incomplete [simp]: "transport_coverage e \<noteq> Complete"
  by (cases e) simp_all

section \<open>Pages\<close>

lemma queue_reads_whole:
  "\<not> failed_page (queue_reads sc s es st) \<Longrightarrow>
     pg_pending (queue_reads sc s es st) = pg_pending st @ es \<and> pg_obs (queue_reads sc s es st) = pg_obs st \<and>
     pg_outcome (queue_reads sc s es st) = pg_outcome st \<and> \<not> failed_page st"
  by (induction sc s es st rule: queue_reads.induct)
    (auto simp: failed_page_def Let_def split: if_splits option.splits sum.splits)

lemma admit_page_whole:
  assumes "\<not> failed_page (admit_page sc os st)"
  shows "pg_obs (admit_page sc os st) = pg_obs st @ os \<and> pg_pending (admit_page sc os st) = pg_pending st \<and>
    pg_outcome (admit_page sc os st) = pg_outcome st \<and> \<not> failed_page st"
proof -
  obtain l out fits where run: "admit_observations (sn_ext sc) (pg_limit st) (pg_obs st) os = (l, out, fits)"
    by (cases "admit_observations (sn_ext sc) (pg_limit st) (pg_obs st) os")
  then show ?thesis using admit_observations_told [OF run] assms
    by (auto simp: admit_page_def failed_page_def Let_def split: if_splits)
qed

lemma check_metadata_whole: "\<not> failed_page (check_metadata err st) \<Longrightarrow> check_metadata err st = st"
  by (auto simp: check_metadata_def failed_page_def split: option.splits)

lemma scan_row_whole:
  assumes "\<not> failed_page (scan_row sc j e batched row st)"
  shows "pg_obs (scan_row sc j e batched row st) = pg_obs st @ sn_project sc j e row \<and>
    pg_pending (scan_row sc j e batched row st) = pg_pending st @ (if batched then [] else sn_details sc j e row) \<and>
    pg_outcome (scan_row sc j e batched row st) = pg_outcome st \<and> \<not> failed_page st"
proof -
  let ?m = "check_metadata (validate_metadata (sn_env sc) j e row) st"
  note q = queue_reads_whole [OF assms [unfolded scan_row_def]]
  have a: "\<not> failed_page (admit_page sc (sn_project sc j e row) ?m)" using q by blast
  have m: "\<not> failed_page ?m" using admit_page_whole [OF a] by blast
  show ?thesis
    using q admit_page_whole [OF a] check_metadata_whole [OF m] m unfolding scan_row_def by auto
qed

lemma scan_rows_whole:
  "\<not> failed_page (scan_rows sc j e batched rows st) \<Longrightarrow>
     pg_obs (scan_rows sc j e batched rows st) = pg_obs st @ concat (map (sn_project sc j e) rows) \<and>
     pg_pending (scan_rows sc j e batched rows st) =
       pg_pending st @ (if batched then [] else concat (map (sn_details sc j e) rows)) \<and>
     pg_outcome (scan_rows sc j e batched rows st) = pg_outcome st"
proof (induction rows arbitrary: st)
  case (Cons row rows)
  show ?case
  proof (cases "s_max_assets (j_settings j) \<le> length (pg_obs st) \<or> failed_page (scan_row sc j e batched row st)")
    case True
    then show ?thesis using Cons.prems by (auto simp: failed_page_def Let_def split: if_splits)
  next
    case False
    then have run: "scan_rows sc j e batched (row # rows) st = scan_rows sc j e batched rows (scan_row sc j e batched row st)"
      by (simp add: Let_def)
    show ?thesis
      using Cons.IH [of "scan_row sc j e batched row st"] Cons.prems scan_row_whole [of sc j e batched row st] False
      unfolding run by auto
  qed
qed simp

lemma scan_rows_failed: "failed_page st \<Longrightarrow> rows \<noteq> [] \<Longrightarrow> failed_page (scan_rows sc j e batched rows st)"
  using scan_row_whole [of sc j e batched "hd rows" st] by (cases rows) (auto simp: failed_page_def Let_def)

text \<open>What a page holds.\<close>

definition page_observations :: "'v scanner \<Rightarrow> job \<Rightarrow> 'v endpoint_read \<Rightarrow> 'v \<Rightarrow> observation list" where
  "page_observations sc j e payload =
     (let rows = page_rows (sn_env sc) payload (ep_items e)
      in if rows \<noteq> [] then concat (map (sn_project sc j e) rows)
         else if ep_items e = [] then sn_project sc j e payload else [])"

definition page_reads :: "'v scanner \<Rightarrow> job \<Rightarrow> 'v endpoint_read \<Rightarrow> 'v \<Rightarrow> 'v endpoint_read list" where
  "page_reads sc j e payload =
     (let rows = page_rows (sn_env sc) payload (ep_items e)
      in case batch_followups (sn_env sc) e rows of
           Some bs \<Rightarrow> bs
         | None \<Rightarrow> concat (map (sn_details sc j e) rows))"

lemma batch_of_nothing: "batch_followups se e [] = Some bs \<Longrightarrow> bs = []"
  by (auto simp: batch_followups_def obind_def List.map_filter_simps split: option.splits)

lemma scan_page_whole:
  assumes "\<not> failed_page (scan_page sc j e payload st)"
  shows "pg_obs (scan_page sc j e payload st) = pg_obs st @ page_observations sc j e payload \<and>
    pg_pending (scan_page sc j e payload st) = pg_pending st @ page_reads sc j e payload"
proof -
  let ?rows = "page_rows (sn_env sc) payload (ep_items e)"
  let ?bs = "batch_followups (sn_env sc) e ?rows"
  let ?q = "queue_reads sc (j_settings j) (unwrap_or [] ?bs) st"
  show ?thesis
  proof (cases "?rows = []")
    case False
    let ?r = "scan_rows sc j e (?bs \<noteq> None) ?rows ?q"
    have page: "scan_page sc j e payload st = (case pg_outcome ?r of Inl _ \<Rightarrow> ?r | Inr n \<Rightarrow> ?r\<lparr>pg_outcome := Inr (n + length ?rows)\<rparr>)"
      unfolding scan_page_def Let_def by (rule if_P) (rule False)
    have r: "\<not> failed_page ?r" using assms unfolding page by (auto simp: failed_page_def split: sum.splits)
    have q: "\<not> failed_page ?q" using scan_rows_failed [OF _ False, of ?q] r by blast
    have same: "pg_obs (scan_page sc j e payload st) = pg_obs ?r" "pg_pending (scan_page sc j e payload st) = pg_pending ?r"
      unfolding page by (auto split: sum.splits)
    show ?thesis
      unfolding same using scan_rows_whole [OF r] queue_reads_whole [OF q] False
      by (auto simp: page_observations_def page_reads_def Let_def unwrap_or_def split: option.splits)
  next
    case True
    have none: "unwrap_or [] ?bs = []" using batch_of_nothing True by (cases ?bs) (simp_all add: unwrap_or_def)
    have reads: "page_reads sc j e payload = []"
      using batch_of_nothing True by (auto simp: page_reads_def Let_def split: option.splits)
    show ?thesis
    proof (cases "ep_items e = []")
      case items: True
      let ?m = "check_metadata (validate_metadata (sn_env sc) j e payload) (st\<lparr>pg_outcome := Inr 1\<rparr>)"
      have page: "scan_page sc j e payload st = admit_page sc (sn_project sc j e payload) ?m"
        using True items none by (simp add: scan_page_def Let_def)
      note a = admit_page_whole [OF assms [unfolded page]]
      have "\<not> failed_page ?m" using a by blast
      from check_metadata_whole [OF this] show ?thesis
        using a items True reads unfolding page by (simp add: page_observations_def)
    next
      case False
      then show ?thesis using True none reads assms
        by (auto simp: scan_page_def Let_def page_observations_def failed_page_def split: if_splits)
    qed
  qed
qed

text \<open>All pages of a read, as the replies announce them, without any limit but the number of pages.\<close>

fun all_pages ::
  "'v scanner \<Rightarrow> job \<Rightarrow> (nat \<Rightarrow> 'v endpoint_read \<Rightarrow> transport_error + 'v) \<Rightarrow> nat \<Rightarrow> nat \<Rightarrow> 'v endpoint_read \<Rightarrow> string \<Rightarrow>
   ('v endpoint_read \<times> 'v) list option" where
  "all_pages sc j answers 0 page e previous = None"
| "all_pages sc j answers (Suc n) page e previous =
     (case answers page e of
        Inl _ \<Rightarrow> None
      | Inr payload \<Rightarrow>
          (case advance_page (sn_env sc) e j payload previous (page + 1) of
             Inl _ \<Rightarrow> None
           | Inr None \<Rightarrow> Some [(e, payload)]
           | Inr (Some (token, e')) \<Rightarrow> map_option ((#) (e, payload)) (all_pages sc j answers n (page + 1) e' token)))"

lemma meanwhile_same [simp]: "pg_obs (meanwhile others k st) = pg_obs st" "pg_pending (meanwhile others k st) = pg_pending st"
  "pg_outcome (meanwhile others k st) = pg_outcome st"
  by (simp_all add: meanwhile_def)

lemma token_on_time: "advance_page se e j payload previous page = Inr (Some x) \<Longrightarrow> page < s_max_pages (j_settings j)"
  by (auto simp: advance_page_def advance_records_def token_refused_def Let_def
      split: if_splits option.splits sum.splits)

lemma scan_pages_whole:
  assumes "scan_pages sc j answers others n page e previous st = (k, st')" and "\<not> failed_page st'"
    and "page + n = s_max_pages (j_settings j)" and "0 < n"
  shows "\<exists>ps. all_pages sc j answers n page e previous = Some ps \<and>
    pg_obs st' = pg_obs st @ concat (map (\<lambda>(e, v). page_observations sc j e v) ps) \<and>
    pg_pending st' = pg_pending st @ concat (map (\<lambda>(e, v). page_reads sc j e v) ps)"
  using assms
proof (induction sc j answers others n page e previous st rule: scan_pages.induct)
  case (2 sc j answers others n page e previous st)
  obtain payload where payload: "answers page e = Inr payload"
    using 2(2,3) by (cases "answers page e") (auto simp: failed_page_def)
  let ?st = "scan_page sc j e payload (meanwhile others page st)"
  have ok: "\<not> failed_page ?st" using 2(2,3) payload by (auto simp: Let_def split: if_splits)
  have checked: "(if starts_with (ep_id e) ''registry-manifest/'' then validate_manifests (sn_env sc) j e payload else None) = None"
    using 2(2,3) payload ok by (auto simp: Let_def failed_page_def split: option.splits if_splits)
  note page = scan_page_whole [OF ok]
  consider (last) "advance_page (sn_env sc) e j payload previous (page + 1) = Inr None"
    | (more) token e' where "advance_page (sn_env sc) e j payload previous (page + 1) = Inr (Some (token, e'))"
  proof (cases "advance_page (sn_env sc) e j payload previous (page + 1)")
    case (Inl err)
    then show ?thesis using 2(2,3) payload ok checked by (auto simp: Let_def failed_page_def)
  next
    case (Inr x)
    then show ?thesis using that by (cases x) auto
  qed
  then show ?case
  proof cases
    case last
    then have "st' = ?st" using 2(2) payload ok checked by (simp add: Let_def)
    then show ?thesis using last payload page by simp
  next
    case more
    have run: "scan_pages sc j answers others n (page + 1) e' token ?st = (k, st')"
      using 2(2) payload ok checked more by (simp add: Let_def)
    have "page + 1 + n = s_max_pages (j_settings j)" "0 < n" using 2(4) token_on_time [OF more] by auto
    from 2(1) [OF payload refl ok checked more refl refl run 2(3) this]
    show ?thesis using more payload page by auto
  qed
qed simp

section \<open>Batches\<close>

lemma batch_details_told:
  "batch_details sc s es st = (ok, st') \<Longrightarrow>
     ba_obs st' = ba_obs st \<and> ba_ops st' = ba_ops st \<and> l_limited (ba_limit st') = l_limited (ba_limit st) \<and>
     (ok \<longrightarrow> ba_followups st' = ba_followups st @ es)"
proof (induction es arbitrary: st ok st')
  case (Cons e es)
  let ?claimed = "if length (ba_followups st) < s_ready_queue s then scan_claim (endpoint_bytes (sn_env sc) e) (ba_limit st) else None"
  let ?st = "case ?claimed of None \<Rightarrow> st | Some l \<Rightarrow> st\<lparr>ba_limit := l, ba_followups := ba_followups st @ [e]\<rparr>"
  obtain ok1 where rest: "batch_details sc s es ?st = (ok1, st')" "ok = (ok1 \<and> ?claimed \<noteq> None)"
    using Cons.prems by (cases "batch_details sc s es ?st") simp
  have "ba_obs ?st = ba_obs st \<and> ba_ops ?st = ba_ops st \<and> l_limited (ba_limit ?st) = l_limited (ba_limit st) \<and>
      (?claimed \<noteq> None \<longrightarrow> ba_followups ?st = ba_followups st @ [e])"
  proof (cases ?claimed)
    case (Some l)
    then have "scan_claim (endpoint_bytes (sn_env sc) e) (ba_limit st) = Some l" by (simp split: if_splits)
    then show ?thesis using Some scan_claim_limited by simp
  qed simp
  then show ?case using Cons.IH [OF rest(1)] rest(2) by auto
qed simp

lemma batch_row_told:
  assumes "batch_row sc j item row st = (outcome, st')"
  shows "ba_ops st' = ba_ops st \<and> (l_limited (ba_limit st) \<longrightarrow> l_limited (ba_limit st')) \<and>
    (\<forall>n. outcome = Inr n \<longrightarrow> ba_obs st' = ba_obs st @ sn_project sc j item row \<and>
       ba_followups st' = ba_followups st @ sn_details sc j item row) \<and> outcome \<noteq> Inl Complete"
proof -
  obtain l os admitted where a: "admit_observations (sn_ext sc) (ba_limit st) (ba_obs st) (sn_project sc j item row) = (l, os, admitted)"
    by (cases "admit_observations (sn_ext sc) (ba_limit st) (ba_obs st) (sn_project sc j item row)")
  obtain bounded st1 where b: "batch_details sc (j_settings j) (sn_details sc j item row) (st\<lparr>ba_limit := l, ba_obs := os\<rparr>) = (bounded, st1)"
    by (cases "batch_details sc (j_settings j) (sn_details sc j item row) (st\<lparr>ba_limit := l, ba_obs := os\<rparr>)")
  show ?thesis
    using assms admit_observations_told [OF a] batch_details_told [OF b] by (auto simp: batch_row_def Let_def a b split: if_splits)
qed

definition batch_item :: "'v endpoint_read \<Rightarrow> string \<Rightarrow> 'v endpoint_read" where
  "batch_item e i = e\<lparr>ep_id := batch_scope (ep_id e) @ ''/'' @ i\<rparr>"

definition batch_found :: "'v scanner \<Rightarrow> 'v endpoint_read \<Rightarrow> 'v \<Rightarrow> string \<Rightarrow> 'v option" where
  "batch_found sc e v i =
     obind (array_at (se_values (sn_env sc)) v (ep_items e))
       (find (\<lambda>row. text_at (se_values (sn_env sc)) row [''/id'', ''/serviceArn'', ''/taskArn''] = Some i))"

lemma batch_answer_told:
  assumes "batch_answer sc j (batch_item e i) response i st = (outcome, st')"
  shows "ba_ops st' = ba_ops st \<and> (l_limited (ba_limit st) \<longrightarrow> l_limited (ba_limit st')) \<and> outcome \<noteq> Inl Complete \<and>
    (\<forall>n. outcome = Inr n \<longrightarrow> (\<exists>v row. response = Inr v \<and> batch_found sc e v i = Some row \<and>
       ba_obs st' = ba_obs st @ sn_project sc j (batch_item e i) row \<and>
       ba_followups st' = ba_followups st @ sn_details sc j (batch_item e i) row))"
proof -
  have items: "ep_items (batch_item e i) = ep_items e" by (simp add: batch_item_def)
  show ?thesis
    using assms batch_row_told unfolding batch_answer_def Let_def items batch_found_def [symmetric]
    by (fastforce split: sum.splits option.splits if_splits)
qed

text \<open>What the reply to a batch holds for the requested ids.\<close>

fun batch_contents ::
  "'v scanner \<Rightarrow> job \<Rightarrow> 'v endpoint_read \<Rightarrow> 'v \<Rightarrow> string list \<Rightarrow> (observation list \<times> 'v endpoint_read list) option" where
  "batch_contents sc j e v [] = Some ([], [])"
| "batch_contents sc j e v (i # ids) =
     (case batch_found sc e v i of
        None \<Rightarrow> None
      | Some row \<Rightarrow> map_option (\<lambda>(os, fs). (sn_project sc j (batch_item e i) row @ os, sn_details sc j (batch_item e i) row @ fs))
          (batch_contents sc j e v ids))"

definition batch_operation :: "'v scanner \<Rightarrow> job \<Rightarrow> 'v endpoint_read \<Rightarrow> string \<Rightarrow> coverage + nat \<Rightarrow> operation" where
  "batch_operation sc j e i outcome =
     (case outcome of
        Inr n \<Rightarrow> project_operation (wall sc) (ep_id (batch_item e i)) (Inr n) 1 (s_required (j_settings j))
      | Inl c \<Rightarrow> (project_operation (wall sc) (ep_id (batch_item e i)) (Inl TMissing) 1 (s_required (j_settings j)))\<lparr>op_coverage := c\<rparr>)"

definition after_item :: "'v scanner \<Rightarrow> job \<Rightarrow> 'v endpoint_read \<Rightarrow> transport_error + 'v \<Rightarrow> string \<Rightarrow> 'v batch_state \<Rightarrow> 'v batch_state" where
  "after_item sc j e response i st =
     (let (outcome, st) = batch_answer sc j (batch_item e i) response i st;
          (l, ops, _) = admit_operations (sn_ext sc) (ba_limit st) (ba_ops st) [batch_operation sc j e i outcome]
      in st\<lparr>ba_limit := l, ba_ops := ops\<rparr>)"

lemma batch_items_step: "batch_items sc j e response (i # ids) st = batch_items sc j e response ids (after_item sc j e response i st)"
  unfolding after_item_def batch_item_def batch_operation_def batch_items.simps(2) Let_def by (simp split: prod.splits)

lemma after_item_told:
  shows "(l_limited (ba_limit st) \<longrightarrow> l_limited (ba_limit (after_item sc j e response i st))) \<and>
    (\<exists>ps. ba_ops (after_item sc j e response i st) = ba_ops st @ ps) \<and>
    (\<not> l_limited (ba_limit (after_item sc j e response i st)) \<and> (\<forall>p \<in> set (ba_ops (after_item sc j e response i st)). op_coverage p = Complete) \<longrightarrow>
       (\<exists>v row. response = Inr v \<and> batch_found sc e v i = Some row \<and>
       ba_obs (after_item sc j e response i st) = ba_obs st @ sn_project sc j (batch_item e i) row \<and>
       ba_followups (after_item sc j e response i st) = ba_followups st @ sn_details sc j (batch_item e i) row))"
proof -
  obtain outcome st1 where a: "batch_answer sc j (batch_item e i) response i st = (outcome, st1)"
    by (cases "batch_answer sc j (batch_item e i) response i st")
  obtain l ops ok where b: "admit_operations (sn_ext sc) (ba_limit st1) (ba_ops st1) [batch_operation sc j e i outcome] = (l, ops, ok)"
    by (cases "admit_operations (sn_ext sc) (ba_limit st1) (ba_ops st1) [batch_operation sc j e i outcome]")
  have after: "after_item sc j e response i st = st1\<lparr>ba_limit := l, ba_ops := ops\<rparr>" by (simp add: after_item_def a b)
  note told = batch_answer_told [OF a] admit_operations_told [OF b]
  have limited: "l_limited (ba_limit st1) \<longrightarrow> l_limited l" using told(2) by (auto split: if_splits)
  have "\<exists>n. outcome = Inr n" if "\<not> l_limited l" "\<forall>p \<in> set ops. op_coverage p = Complete"
  proof -
    have "op_coverage (batch_operation sc j e i outcome) = Complete" using told(2) that by (auto split: if_splits)
    then show ?thesis using told(1) by (cases outcome) (auto simp: batch_operation_def)
  qed
  then show ?thesis unfolding after using told limited by (auto split: if_splits)
qed

lemma batch_items_whole:
  "\<not> l_limited (ba_limit (batch_items sc j e response ids st)) \<Longrightarrow>
     \<forall>p \<in> set (ba_ops (batch_items sc j e response ids st)). op_coverage p = Complete \<Longrightarrow>
     (\<exists>ps. ba_ops (batch_items sc j e response ids st) = ba_ops st @ ps) \<and> \<not> l_limited (ba_limit st) \<and>
     (\<forall>v. response = Inr v \<or> ids \<noteq> [] \<longrightarrow> (\<exists>v os fs. response = Inr v \<and> batch_contents sc j e v ids = Some (os, fs) \<and>
       ba_obs (batch_items sc j e response ids st) = ba_obs st @ os \<and>
       ba_followups (batch_items sc j e response ids st) = ba_followups st @ fs))"
proof (induction ids arbitrary: st)
  case (Cons i ids)
  let ?st = "after_item sc j e response i st"
  note step = batch_items_step [of sc j e response i ids st]
  note rest = Cons.IH [of ?st, OF Cons.prems [unfolded step]]
  then obtain ps where ps: "ba_ops (batch_items sc j e response ids ?st) = ba_ops ?st @ ps" by blast
  have now: "\<not> l_limited (ba_limit ?st)" "\<forall>p \<in> set (ba_ops ?st). op_coverage p = Complete"
    using rest Cons.prems(2) [unfolded step] ps by auto
  then obtain v row where row: "response = Inr v" "batch_found sc e v i = Some row"
      "ba_obs ?st = ba_obs st @ sn_project sc j (batch_item e i) row"
      "ba_followups ?st = ba_followups st @ sn_details sc j (batch_item e i) row"
    using after_item_told [of st sc j e response i] by blast
  have "\<exists>v os fs. response = Inr v \<and> batch_contents sc j e v ids = Some (os, fs) \<and>
       ba_obs (batch_items sc j e response ids ?st) = ba_obs ?st @ os \<and>
       ba_followups (batch_items sc j e response ids ?st) = ba_followups ?st @ fs"
    using rest row(1) by blast
  then obtain os fs where "batch_contents sc j e v ids = Some (os, fs)"
       "ba_obs (batch_items sc j e response ids ?st) = ba_obs ?st @ os"
       "ba_followups (batch_items sc j e response ids ?st) = ba_followups ?st @ fs" using row(1) by auto
  moreover obtain qs where "ba_ops ?st = ba_ops st @ qs" using after_item_told [of st sc j e response i] by blast
  ultimately show ?case unfolding step
    using ps row now(1) after_item_told [of st sc j e response i] by auto
qed simp

section \<open>One read\<close>

definition is_batch :: "'v endpoint_read \<Rightarrow> bool" where
  "is_batch e \<longleftrightarrow> starts_with (ep_id e) ''batch-'' \<and> ep_aws e \<noteq> None"

text \<open>Everything a read holds: the observations and the reads it leads to.\<close>

definition read_contents ::
  "'v scanner \<Rightarrow> job \<Rightarrow> (nat \<Rightarrow> 'v endpoint_read \<Rightarrow> transport_error + 'v) \<Rightarrow> 'v endpoint_read \<Rightarrow>
   (observation list \<times> 'v endpoint_read list) option" where
  "read_contents sc j answers e =
     (if is_batch e
      then (case answers 0 e of Inl _ \<Rightarrow> None | Inr v \<Rightarrow> batch_contents sc j e v (requested_ids (sn_env sc) e))
      else map_option (\<lambda>ps. (concat (map (\<lambda>(e, v). page_observations sc j e v) ps), concat (map (\<lambda>(e, v). page_reads sc j e v) ps)))
             (all_pages sc j answers (s_max_pages (j_settings j)) 0 e []))"

lemma scan_limit_fresh [simp]: "\<not> l_limited (scan_limit s shared)"
  by (auto simp: scan_limit_def new_limit_def limit_with_shared_def Let_def split: option.splits)

lemma fetch_batch_whole:
  assumes "all_complete (fe_result (fetch_batch sc j shared response e))"
  shows "\<exists>v. response = Inr v \<and> batch_contents sc j e v (requested_ids (sn_env sc) e) =
    Some (r_observations (fe_result (fetch_batch sc j shared response e)), fe_followups (fetch_batch sc j shared response e))"
proof -
  let ?ids = "requested_ids (sn_env sc) e"
  let ?st = "batch_items sc j e response ?ids \<lparr>ba_obs = [], ba_ops = [], ba_followups = [], ba_limit = scan_limit (j_settings j) shared\<rparr>"
  have kept: "r_observations (fe_result (fetch_batch sc j shared response e)) = ba_obs ?st"
    "fe_followups (fetch_batch sc j shared response e) = ba_followups ?st"
    by (simp_all add: fetch_batch_def Let_def finish_limit_kept)
  have unlimited: "\<not> l_limited (ba_limit ?st)" and ops: "ba_ops ?st \<noteq> []" "\<forall>p \<in> set (ba_ops ?st). op_coverage p = Complete"
  proof -
    let ?ops = "if ba_ops ?st = [] then [project_operation (wall sc) (batch_scope (ep_id e)) (Inl TMalformed) 1 True] else ba_ops ?st"
    have "fe_result (fetch_batch sc j shared response e) = finish_limit (sn_ext sc) (ba_limit ?st) (s_required (j_settings j))
        ((base_result sc j)\<lparr>r_operations := ?ops, r_observations := ba_obs ?st, r_finished_at := wall sc\<rparr>)"
      unfolding fetch_batch_def Let_def by simp
    then have "\<not> l_limited (ba_limit ?st)" "\<forall>p \<in> set ?ops. op_coverage p = Complete"
      using assms by (simp_all only: finish_limit_complete) (simp_all add: all_complete_def list_all_iff)
    then show "\<not> l_limited (ba_limit ?st)" "ba_ops ?st \<noteq> []" "\<forall>p \<in> set (ba_ops ?st). op_coverage p = Complete"
      by (auto simp: project_operation_def split: if_splits)
  qed
  have "?ids \<noteq> []" using ops(1) by (cases ?ids) auto
  then show ?thesis using batch_items_whole [OF unlimited ops(2)] unfolding kept by fastforce
qed

lemma fetch_pages_whole:
  assumes "all_complete (fe_result (fetch_pages sc j shared answers others e))" and "0 < s_max_pages (j_settings j)"
  shows "\<exists>ps. all_pages sc j answers (s_max_pages (j_settings j)) 0 e [] = Some ps \<and>
    r_observations (fe_result (fetch_pages sc j shared answers others e)) = concat (map (\<lambda>(e, v). page_observations sc j e v) ps) \<and>
    fe_followups (fetch_pages sc j shared answers others e) = concat (map (\<lambda>(e, v). page_reads sc j e v) ps)"
proof -
  let ?s = "j_settings j"
  let ?st0 = "\<lparr>pg_obs = [], pg_pending = [], pg_queued = 0, pg_limit = scan_limit ?s shared, pg_outcome = Inr 0\<rparr>"
  obtain pages st where run: "scan_pages sc j answers others (s_max_pages ?s) 0 e [] ?st0 = (pages, st)"
    by (cases "scan_pages sc j answers others (s_max_pages ?s) 0 e [] ?st0")
  let ?p = "project_operation (wall sc) (ep_id e) (pg_outcome st) pages (s_required ?s)"
  obtain l ops ok where admit: "admit_operations (sn_ext sc) (pg_limit st) [] [?p] = (l, ops, ok)"
    by (cases "admit_operations (sn_ext sc) (pg_limit st) [] [?p]")
  have kept: "r_observations (fe_result (fetch_pages sc j shared answers others e)) = pg_obs st"
    "fe_followups (fetch_pages sc j shared answers others e) = pg_pending st"
    by (simp_all add: fetch_pages_def Let_def run admit finish_limit_kept)
  have "\<not> l_limited l" "\<forall>p \<in> set ops. op_coverage p = Complete"
    using assms(1) by (auto simp: fetch_pages_def Let_def run admit all_complete_def finish_limit_def list_all_iff split: if_splits)
  then have "op_coverage ?p = Complete" using admit_operations_told [OF admit] by (auto split: if_splits)
  then have "\<not> failed_page st" by (auto simp: project_operation_def failed_page_def split: sum.splits)
  from scan_pages_whole [OF run this _ assms(2)] show ?thesis unfolding kept by simp
qed

lemma fetch_whole:
  assumes "all_complete (fe_result (fetch sc j shared answers others e))" and "0 < s_max_pages (j_settings j)"
  shows "read_contents sc j answers e =
    Some (r_observations (fe_result (fetch sc j shared answers others e)), fe_followups (fetch sc j shared answers others e))"
proof (cases "is_batch e")
  case True
  then have "fetch sc j shared answers others e =
      fetch_batch sc j (map_option (\<lambda>sh. sh\<lparr>sh_used := others 0 (sh_used sh)\<rparr>) shared) (answers 0 e) e"
    by (simp add: fetch_def is_batch_def)
  note same = this
  obtain v where "answers 0 e = Inr v"
    "batch_contents sc j e v (requested_ids (sn_env sc) e) =
       Some (r_observations (fe_result (fetch sc j shared answers others e)), fe_followups (fetch sc j shared answers others e))"
    using fetch_batch_whole [OF assms(1) [unfolded same]] unfolding same by blast
  then show ?thesis using True by (simp add: read_contents_def)
next
  case False
  then have "fetch sc j shared answers others e = fetch_pages sc j shared answers others e"
    by (auto simp: fetch_def is_batch_def)
  note same = this
  obtain ps where "all_pages sc j answers (s_max_pages (j_settings j)) 0 e [] = Some ps"
    "r_observations (fe_result (fetch sc j shared answers others e)) = concat (map (\<lambda>(e, v). page_observations sc j e v) ps)"
    "fe_followups (fetch sc j shared answers others e) = concat (map (\<lambda>(e, v). page_reads sc j e v) ps)"
    using fetch_pages_whole [OF assms(1) [unfolded same] assms(2)] unfolding same by blast
  then show ?thesis using False by (simp add: read_contents_def)
qed

text \<open>A read always reports an operation.\<close>

lemma fetch_reports: "r_operations (fe_result (fetch sc j shared answers others e)) \<noteq> []"
proof -
  have batch: "r_operations (fe_result (fetch_batch sc j shared response e)) \<noteq> []" for shared response
    by (simp add: fetch_batch_def Let_def finish_limit_def)
  have pages: "r_operations (fe_result (fetch_pages sc j shared answers others e)) \<noteq> []"
  proof -
    let ?s = "j_settings j"
    let ?st0 = "\<lparr>pg_obs = [], pg_pending = [], pg_queued = 0, pg_limit = scan_limit ?s shared, pg_outcome = Inr 0\<rparr>"
    obtain pages st where run: "scan_pages sc j answers others (s_max_pages ?s) 0 e [] ?st0 = (pages, st)"
      by (cases "scan_pages sc j answers others (s_max_pages ?s) 0 e [] ?st0")
    let ?p = "project_operation (wall sc) (ep_id e) (pg_outcome st) pages (s_required ?s)"
    obtain l ops ok where admit: "admit_operations (sn_ext sc) (pg_limit st) [] [?p] = (l, ops, ok)"
      by (cases "admit_operations (sn_ext sc) (pg_limit st) [] [?p]")
    then show ?thesis using admit_operations_told [OF admit]
      by (auto simp: fetch_pages_def Let_def run finish_limit_def split: if_splits)
  qed
  show ?thesis using batch pages by (simp add: fetch_def)
qed

end
