(* ===== verification/Collect_Properties.thy ===== *)
theory Collect_Properties
  imports Scan_Properties Samples "HOL-Library.Multiset"
begin

text \<open>
  The work list of a collection: it ends after at most as many reads as assets are kept, and when all its
  operations are complete it followed every read it was led to and kept every observation.
\<close>

section \<open>What merging tells\<close>

lemma all_complete_append: "all_complete (r\<lparr>r_operations := ps @ qs\<rparr>) \<longleftrightarrow>
    all_complete (r\<lparr>r_operations := ps\<rparr>) \<and> all_complete (r\<lparr>r_operations := qs\<rparr>)"
  by (simp add: all_complete_def)

lemma merge_result_told:
  assumes "merge_result x l out incoming = (l', r')"
  shows "(l_limited l \<longrightarrow> l_limited l') \<and> (all_complete r' \<longrightarrow> all_complete out) \<and>
    (all_complete r' \<and> \<not> l_limited l' \<longrightarrow>
       all_complete incoming \<and> r_observations r' = r_observations out @ r_observations incoming)"
proof -
  obtain l1 ps fits1 where a: "admit_operations x l (r_operations out) (r_operations incoming) = (l1, ps, fits1)"
    by (cases "admit_operations x l (r_operations out) (r_operations incoming)")
  obtain l2 os fits where b: "admit_observations x l1 (r_observations out) (r_observations incoming) = (l2, os, fits)"
    by (cases "admit_observations x l1 (r_observations out) (r_observations incoming)")
  have r': "l' = l2" "r_observations r' = os" "r_operations r' =
      (if fits then ps else take (length (r_operations out)) ps @ map (demote Truncated) (drop (length (r_operations out)) ps))"
    using assms by (auto simp: merge_result_def Let_def a b)
  show ?thesis
    using admit_operations_told [OF a] admit_observations_told [OF b] r' by (auto simp: all_complete_def split: if_splits)
qed

lemma settle_operations_told:
  "ps \<noteq> [] \<Longrightarrow> list_all (\<lambda>p. op_coverage p = Complete) (settle_operations fits b ps) \<Longrightarrow>
     fits \<and> list_all (\<lambda>p. op_coverage p = Complete) ps"
  by (cases ps) (auto simp: settle_operations_def list_all_iff split: if_splits)

lemma push_followups_told:
  "push_followups sc s fs st = (fits, st') \<Longrightarrow>
     co_initial st' = co_initial st \<and> co_visited st' = co_visited st \<and> co_running st' = co_running st \<and>
     co_limit st' = co_limit st \<and> co_result st' = co_result st \<and> (fits \<longrightarrow> co_pending st' = co_pending st @ fs)"
  by (induction sc s fs st rule: push_followups.induct) (auto split: if_splits)

section \<open>The invariant\<close>

definition cut_short :: "'v collect_state \<Rightarrow> bool" where
  "cut_short st \<longleftrightarrow> l_limited (co_limit st) \<or> \<not> all_complete (co_result st)"

text \<open>\<open>R\<close>: the reads that ended.\<close>

definition accounted ::
  "'v scanner \<Rightarrow> job \<Rightarrow> ('v endpoint_read \<Rightarrow> 'v fetched) \<Rightarrow> 'v endpoint_read list \<Rightarrow> 'v endpoint_read list \<Rightarrow> 'v collect_state \<Rightarrow> bool" where
  "accounted sc j replies es R st \<longleftrightarrow>
     (\<forall>e \<in> set es. e \<in> set (co_initial st) \<or> read_key (sn_env sc) j e \<in> set (co_visited st)) \<and>
     set (co_visited st) = read_key (sn_env sc) j ` (set R \<union> set (co_running st)) \<and>
     distinct (map (read_key (sn_env sc) j) (R @ co_running st)) \<and>
     (\<forall>e \<in> set R. all_complete (fe_result (replies e)) \<and>
        (\<forall>f \<in> set (fe_followups (replies e)). f \<in> set (co_pending st) \<or> read_key (sn_env sc) j f \<in> set (co_visited st))) \<and>
     mset (r_observations (co_result st)) = (\<Sum>e\<leftarrow>R. mset (r_observations (fe_result (replies e))))"

definition collect_ok where
  "collect_ok sc j replies es R st \<longleftrightarrow> cut_short st \<or> accounted sc j replies es R st"

lemma next_read_told:
  assumes "next_read sc st = Some (e, st')"
  shows "co_visited st' = co_visited st \<and> co_running st' = co_running st \<and> co_limit st' = co_limit st \<and> co_result st' = co_result st \<and>
    set (co_initial st) \<subseteq> insert e (set (co_initial st')) \<and> set (co_pending st) \<subseteq> insert e (set (co_pending st'))"
  using assms by (auto simp: next_read_def split: list.splits)

lemma accounted_next:
  assumes acc: "accounted sc j replies es R st" and read: "next_read sc st = Some (e, st')"
    and vs: "read_key (sn_env sc) j e \<in> set vs" "set (co_visited st) \<subseteq> set vs"
      "set vs = read_key (sn_env sc) j ` (set R \<union> set rs)" "distinct (map (read_key (sn_env sc) j) (R @ rs))"
  shows "accounted sc j replies es R (st'\<lparr>co_visited := vs, co_running := rs\<rparr>)"
proof -
  note told = next_read_told [OF read]
  have "x \<in> set (co_initial st') \<or> read_key (sn_env sc) j x \<in> set vs" if "x \<in> set es" for x
    using acc that told vs(1,2) unfolding accounted_def by blast
  moreover have "f \<in> set (co_pending st') \<or> read_key (sn_env sc) j f \<in> set vs"
    if "x \<in> set R" "f \<in> set (fe_followups (replies x))" for x f
    using acc that told vs(1,2) unfolding accounted_def by blast
  ultimately show ?thesis using acc told vs(3,4) by (simp add: accounted_def)
qed

lemma fill_ok: "collect_ok sc j replies es R st \<Longrightarrow> collect_ok sc j replies es R (fill_running sc j st)"
proof (induction sc j st rule: fill_running.induct)
  case (1 sc j st)
  let ?key = "read_key (sn_env sc) j"
  show ?case
  proof (cases "scan_width (j_settings j) \<le> length (co_running st) \<or> limit_exhausted (co_limit st) \<or> next_read sc st = None")
    case True
    then show ?thesis using 1(3) by (auto simp: fill_running.simps [of sc j st])
  next
    case False
    then obtain e st' where read: "next_read sc st = Some (e, st')" by auto
    have go: "\<not> (scan_width (j_settings j) \<le> length (co_running st) \<or> limit_exhausted (co_limit st))" using False by blast
    note told = next_read_told [OF read]
    have cut: "cut_short st1 = cut_short st" if "co_limit st1 = co_limit st'" "co_result st1 = co_result st'" for st1
      using told that by (simp add: cut_short_def)
    consider (seen) "?key e \<in> set (co_visited st')" | (full) "?key e \<notin> set (co_visited st')" "s_max_assets (j_settings j) < length (co_visited st') + 1"
      | (start) "?key e \<notin> set (co_visited st')" "\<not> s_max_assets (j_settings j) < length (co_visited st') + 1" by blast
    then show ?thesis
    proof cases
      case seen
      have "collect_ok sc j replies es R st'"
      proof (cases "cut_short st")
        case True
        then show ?thesis using cut [of st'] by (simp add: collect_ok_def)
      next
        case False
        then have acc: "accounted sc j replies es R st" using 1(3) by (simp add: collect_ok_def)
        have "accounted sc j replies es R (st'\<lparr>co_visited := co_visited st', co_running := co_running st'\<rparr>)"
          by (rule accounted_next [OF acc read]) (use acc seen told in \<open>auto simp: accounted_def\<close>)
        then show ?thesis by (simp add: collect_ok_def)
      qed
      then show ?thesis using 1(1) [OF go read refl seen] seen read go by (simp add: fill_running.simps [of sc j st])
    next
      case full
      then show ?thesis using read go by (simp add: fill_running.simps [of sc j st] collect_ok_def cut_short_def mark_limited_def)
    next
      case start
      let ?st = "st'\<lparr>co_visited := ?key e # co_visited st', co_running := co_running st' @ [e]\<rparr>"
      have "collect_ok sc j replies es R ?st"
      proof (cases "cut_short st")
        case True
        then show ?thesis using cut [of ?st] by (simp add: collect_ok_def)
      next
        case False
        then have acc: "accounted sc j replies es R st" using 1(3) by (simp add: collect_ok_def)
        have "accounted sc j replies es R ?st"
          by (rule accounted_next [OF acc read]) (use acc start(1) told in \<open>auto simp: accounted_def\<close>)
        then show ?thesis by (simp add: collect_ok_def)
      qed
      then show ?thesis using 1(2) [OF go read refl start] start read go by (simp add: fill_running.simps [of sc j st])
    qed
  qed
qed

lemma join_ok:
  assumes ok: "collect_ok sc j replies es R st" and i: "i < length (co_running st)"
    and ops: "r_operations (fe_result (replies (co_running st ! i))) \<noteq> []"
  shows "collect_ok sc j replies es (R @ [co_running st ! i]) (join_read sc j i (replies (co_running st ! i)) st)"
proof -
  let ?key = "read_key (sn_env sc) j"
  let ?e = "co_running st ! i"
  let ?f = "replies ?e"
  let ?st = "st\<lparr>co_running := take i (co_running st) @ drop (Suc i) (co_running st)\<rparr>"
  obtain fits st1 where push: "push_followups sc (j_settings j) (fe_followups ?f) ?st = (fits, st1)"
    by (cases "push_followups sc (j_settings j) (fe_followups ?f) ?st")
  let ?r = "(fe_result ?f)\<lparr>r_operations := settle_operations fits (s_required (j_settings j)) (r_operations (fe_result ?f))\<rparr>"
  obtain l merged where merge: "merge_result (sn_ext sc) (co_limit st1) (co_result st1) ?r = (l, merged)"
    by (cases "merge_result (sn_ext sc) (co_limit st1) (co_result st1) ?r")
  have join: "join_read sc j i ?f st = st1\<lparr>co_limit := l, co_result := merged\<rparr>"
    by (simp add: join_read_def Let_def push merge)
  note pushed = push_followups_told [OF push] and merged = merge_result_told [OF merge]
  show ?thesis
  proof (cases "cut_short (join_read sc j i ?f st)")
    case False
    then have whole: "\<not> l_limited l" "all_complete merged" by (auto simp: join cut_short_def)
    then have "\<not> cut_short st" using merged pushed by (auto simp: cut_short_def)
    then have acc: "accounted sc j replies es R st" using ok by (simp add: collect_ok_def)
    have complete: "fits" "all_complete (fe_result ?f)"
      using merged whole settle_operations_told [OF ops] by (auto simp: all_complete_def)
    have obs: "r_observations merged = r_observations (co_result st) @ r_observations (fe_result ?f)"
      using merged whole pushed by simp
    have running: "co_running st = take i (co_running st) @ ?e # drop (Suc i) (co_running st)" using i by (rule id_take_nth_drop)
    have set_running: "set (co_running st) = insert ?e (set (take i (co_running st) @ drop (Suc i) (co_running st)))"
      by (subst running) auto
    have keys: "distinct (map ?key (R @ take i (co_running st) @ ?e # drop (Suc i) (co_running st)))"
      using acc running by (simp add: accounted_def)
    have joined: "co_initial (join_read sc j i ?f st) = co_initial st" "co_visited (join_read sc j i ?f st) = co_visited st"
      "co_running (join_read sc j i ?f st) = take i (co_running st) @ drop (Suc i) (co_running st)"
      "co_pending (join_read sc j i ?f st) = co_pending st @ fe_followups ?f"
      "co_result (join_read sc j i ?f st) = merged"
      using pushed complete(1) by (simp_all add: join)
    have known: "\<forall>x \<in> set (R @ [?e]). all_complete (fe_result (replies x)) \<and>
        (\<forall>f \<in> set (fe_followups (replies x)). f \<in> set (co_pending st @ fe_followups ?f) \<or> ?key f \<in> set (co_visited st))"
    proof -
      have "\<forall>x \<in> set R. all_complete (fe_result (replies x)) \<and>
          (\<forall>f \<in> set (fe_followups (replies x)). f \<in> set (co_pending st) \<or> ?key f \<in> set (co_visited st))"
        using acc unfolding accounted_def by blast
      then show ?thesis using complete(2) by fastforce
    qed
    have visited: "set (co_visited st) =
        ?key ` (set (R @ [?e]) \<union> set (take i (co_running st) @ drop (Suc i) (co_running st)))"
      using acc set_running by (simp add: accounted_def)
    have distinct: "distinct (map ?key ((R @ [?e]) @ take i (co_running st) @ drop (Suc i) (co_running st)))"
      using keys by auto
    have given: "\<forall>x \<in> set es. x \<in> set (co_initial st) \<or> ?key x \<in> set (co_visited st)"
      using acc unfolding accounted_def by blast
    have "mset (r_observations (co_result st)) = (\<Sum>e\<leftarrow>R. mset (r_observations (fe_result (replies e))))"
      using acc unfolding accounted_def by blast
    then have "mset (r_observations merged) = (\<Sum>e\<leftarrow>R @ [?e]. mset (r_observations (fe_result (replies e))))"
      using obs by simp
    then have "accounted sc j replies es (R @ [?e]) (join_read sc j i ?f st)"
      unfolding accounted_def joined using given visited distinct known by blast
    then show ?thesis by (simp add: collect_ok_def)
  qed (simp add: collect_ok_def)
qed

text \<open>What a complete collection did.\<close>

definition exhaustive ::
  "'v scanner \<Rightarrow> job \<Rightarrow> ('v endpoint_read \<Rightarrow> 'v fetched) \<Rightarrow> 'v endpoint_read list \<Rightarrow> 'v endpoint_read list \<Rightarrow> observation list \<Rightarrow> bool" where
  "exhaustive sc j replies es R os \<longleftrightarrow>
     distinct (map (read_key (sn_env sc) j) R) \<and>
     read_key (sn_env sc) j ` set es \<subseteq> read_key (sn_env sc) j ` set R \<and>
     (\<forall>e \<in> set R. all_complete (fe_result (replies e)) \<and>
        read_key (sn_env sc) j ` set (fe_followups (replies e)) \<subseteq> read_key (sn_env sc) j ` set R) \<and>
     mset os = (\<Sum>e\<leftarrow>R. mset (r_observations (fe_result (replies e))))"

lemma end_told:
  assumes "collect_ok sc j replies es R st" and "co_running st = []" and "all_complete (end_collect sc j st)"
  shows "exhaustive sc j replies es R (r_observations (end_collect sc j st))"
proof -
  let ?l = "if co_pending st \<noteq> [] \<or> co_initial st \<noteq> [] then mark_limited (co_limit st) else co_limit st"
  let ?r = "finish_limit (sn_ext sc) ?l (s_required (j_settings j)) (co_result st)"
  let ?ops = "if r_operations ?r = []
      then [project_operation (wall sc) ''not-configured'' (Inl TMissing) 0 (s_required (j_settings j))] else r_operations ?r"
  have result: "end_collect sc j st = ?r\<lparr>r_operations := sort_key op_id ?ops,
      r_observations := sort_key o_resource (r_observations ?r), r_finished_at := wall sc\<rparr>"
    unfolding end_collect_def Let_def by simp
  have "\<forall>p \<in> set ?ops. op_coverage p = Complete"
    using assms(3) unfolding result by (simp add: all_complete_def list_all_iff)
  then have "all_complete ?r" by (auto simp: all_complete_def list_all_iff split: if_splits)
  then have "\<not> l_limited ?l \<and> all_complete (co_result st)" unfolding finish_limit_complete .
  then have whole: "\<not> l_limited ?l" "all_complete (co_result st)" by blast+
  then have "\<not> cut_short st" "co_pending st = []" "co_initial st = []"
    by (auto simp: cut_short_def mark_limited_def split: if_splits)
  then have "accounted sc j replies es R st" using assms(1) by (simp add: collect_ok_def)
  moreover have "mset (r_observations (end_collect sc j st)) = mset (r_observations (co_result st))"
    unfolding result by (simp add: finish_limit_kept)
  ultimately show ?thesis
    using \<open>co_pending st = []\<close> \<open>co_initial st = []\<close> assms(2) by (auto simp: accounted_def exhaustive_def)
qed

lemma loop_told:
  assumes "collect_ok sc j replies es R st" and "collect_loop sc j pick replies n k st = Some r" and "all_complete r"
    and ops: "\<And>e. r_operations (fe_result (replies e)) \<noteq> []"
  shows "\<exists>R. exhaustive sc j replies es R (r_observations r)"
  using assms(1,2)
proof (induction n arbitrary: R k st)
  case 0
  let ?st = "fill_running sc j st"
  have "co_running ?st = []" "r = end_collect sc j ?st"
    using 0(2) by (auto simp: collect_loop.simps [of sc j pick replies 0] Let_def split: if_splits)
  then show ?case using end_told [OF fill_ok [OF 0(1)]] assms(3) by blast
next
  case (Suc n)
  let ?st = "fill_running sc j st"
  note ok = fill_ok [OF Suc.prems(1)]
  show ?case
  proof (cases "co_running ?st = []")
    case True
    then have "r = end_collect sc j ?st" using Suc.prems(2) by (simp add: collect_loop.simps [of sc j pick replies "Suc n"] Let_def)
    then show ?thesis using end_told [OF ok True] assms(3) by blast
  next
    case False
    let ?i = "pick k mod length (co_running ?st)"
    have i: "?i < length (co_running ?st)" using False by simp
    have "collect_loop sc j pick replies n (k + 1) (join_read sc j ?i (replies (co_running ?st ! ?i)) ?st) = Some r"
      using Suc.prems(2) False by (simp add: collect_loop.simps [of sc j pick replies "Suc n"] Let_def)
    from Suc.IH [OF join_ok [OF ok i ops] this] show ?thesis .
  qed
qed

lemma start_ok: "collect_ok sc j replies es [] (start_collect sc j es)"
  by (simp add: collect_ok_def accounted_def start_collect_def base_result_def result_failure_def)

section \<open>The loop ends\<close>

text \<open>Every read that is started has a key of its own, and no more are started than assets are kept.\<close>

definition started :: "job \<Rightarrow> nat \<Rightarrow> 'v collect_state \<Rightarrow> bool" where
  "started j k st \<longleftrightarrow> k + length (co_running st) \<le> length (co_visited st) \<and> k + length (co_running st) \<le> s_max_assets (j_settings j)"

lemma fill_started: "started j k st \<Longrightarrow> started j k (fill_running sc j st)"
proof (induction sc j st rule: fill_running.induct)
  case (1 sc j st)
  show ?case
  proof (cases "scan_width (j_settings j) \<le> length (co_running st) \<or> limit_exhausted (co_limit st) \<or> next_read sc st = None")
    case True
    then show ?thesis using 1(3) by (auto simp: fill_running.simps [of sc j st])
  next
    case False
    then obtain e st' where read: "next_read sc st = Some (e, st')" by auto
    have go: "\<not> (scan_width (j_settings j) \<le> length (co_running st) \<or> limit_exhausted (co_limit st))" using False by blast
    show ?thesis
      using 1(1) [OF go read refl] 1(2) [OF go read refl] 1(3) next_read_told [OF read] read go
      by (auto simp: fill_running.simps [of sc j st] started_def)
  qed
qed

lemma join_read_kept:
  "co_visited (join_read sc j i f st) = co_visited st \<and>
   co_running (join_read sc j i f st) = take i (co_running st) @ drop (Suc i) (co_running st)"
proof -
  let ?st = "st\<lparr>co_running := take i (co_running st) @ drop (Suc i) (co_running st)\<rparr>"
  obtain fits st1 where push: "push_followups sc (j_settings j) (fe_followups f) ?st = (fits, st1)"
    by (cases "push_followups sc (j_settings j) (fe_followups f) ?st")
  show ?thesis using push_followups_told [OF push] by (simp add: join_read_def Let_def push split: prod.splits)
qed

lemma join_started:
  assumes "started j k st" and "i < length (co_running st)"
  shows "started j (k + 1) (join_read sc j i f st)"
proof -
  have "Suc (length (take i (co_running st) @ drop (Suc i) (co_running st))) = length (co_running st)" using assms(2) by simp
  then show ?thesis using assms(1) unfolding started_def join_read_kept [THEN conjunct1] join_read_kept [THEN conjunct2] by linarith
qed

lemma loop_ends:
  assumes "started j k st" and "s_max_assets (j_settings j) \<le> n + k"
  shows "\<exists>r. collect_loop sc j pick replies n k st = Some r"
  using assms
proof (induction n arbitrary: k st)
  case 0
  have "started j k (fill_running sc j st)" by (rule fill_started [OF 0(1)])
  then have "length (co_running (fill_running sc j st)) = 0" using 0(2) unfolding started_def by linarith
  then show ?case by (simp add: collect_loop.simps [of sc j pick replies 0] Let_def)
next
  case (Suc n)
  let ?st = "fill_running sc j st"
  show ?case
  proof (cases "co_running ?st = []")
    case True
    then show ?thesis by (simp add: collect_loop.simps [of sc j pick replies "Suc n"] Let_def)
  next
    case False
    let ?i = "pick k mod length (co_running ?st)"
    have "started j (k + 1) (join_read sc j ?i (replies (co_running ?st ! ?i)) ?st)"
      by (rule join_started [OF fill_started [OF Suc.prems(1)]]) (simp add: False)
    from Suc.IH [OF this] show ?thesis using Suc.prems(2) False
      by (simp add: collect_loop.simps [of sc j pick replies "Suc n"] Let_def)
  qed
qed

section \<open>Properties\<close>

text \<open>C33: A collection always ends: whatever the replies, whichever read ends first and however many further
  reads they lead to, at most as many reads are made as assets are kept.\<close>

theorem collection_ends: "\<exists>r. collect_reads sc j pick replies es = Some r"
  unfolding collect_reads_def by (rule loop_ends) (simp_all add: started_def start_collect_def)

text \<open>C5: A collection that reports all its operations complete is exhaustive: of every read it was given
  or was led to, each page was read to the end, every observation on them is in the result exactly once,
  and every further read they name was made too. Whatever was refused by a budget, cut by a limit, skipped
  or failed is told by an operation that is not complete.\<close>

theorem complete_means_exhaustive:
  assumes "collect_reads sc j pick (\<lambda>e. fetch sc j (shared e) (answers e) (others e) e) es = Some r"
    and "all_complete r" and "0 < s_max_pages (j_settings j)"
  shows "\<exists>R contents. distinct (map (read_key (sn_env sc) j) R) \<and>
    read_key (sn_env sc) j ` set es \<subseteq> read_key (sn_env sc) j ` set R \<and>
    (\<forall>e \<in> set R. read_contents sc j (answers e) e = Some (contents e) \<and>
       read_key (sn_env sc) j ` set (snd (contents e)) \<subseteq> read_key (sn_env sc) j ` set R) \<and>
    mset (r_observations r) = (\<Sum>e\<leftarrow>R. mset (fst (contents e)))"
proof -
  let ?replies = "\<lambda>e. fetch sc j (shared e) (answers e) (others e) e"
  obtain R where R: "exhaustive sc j ?replies es R (r_observations r)"
    using loop_told [OF start_ok assms(1) [unfolded collect_reads_def] assms(2)] fetch_reports by blast
  let ?contents = "\<lambda>e. (r_observations (fe_result (?replies e)), fe_followups (?replies e))"
  have "read_contents sc j (answers e) e = Some (?contents e)" if "e \<in> set R" for e
  proof -
    have "all_complete (fe_result (?replies e))" using R that by (simp add: exhaustive_def)
    then show ?thesis by (rule fetch_whole [OF _ assms(3)])
  qed
  then show ?thesis using R by (intro exI [of _ R] exI [of _ ?contents]) (auto simp: exhaustive_def)
qed

section \<open>A sample collection\<close>

text \<open>A list of two pages whose first row leads to one further read.\<close>

datatype doc = Text string | Rows "doc list" | Page "doc list" "string option"

fun doc_pointer :: "doc \<Rightarrow> string \<Rightarrow> doc option" where
  "doc_pointer (Page rows t) p =
     (if p = ''/items'' then Some (Rows rows) else if p = ''/nextToken'' then map_option Text t else None)"
| "doc_pointer v p = None"

fun doc_text :: "doc \<Rightarrow> string option" where
  "doc_text (Text t) = Some t"
| "doc_text v = None"

fun doc_rows :: "doc \<Rightarrow> doc list option" where
  "doc_rows (Rows vs) = Some vs"
| "doc_rows v = None"

definition doc_api :: "doc value_api" where
  "doc_api = \<lparr>va_pointer = doc_pointer, va_get = \<lambda>_ _. None, va_str = doc_text, va_f64 = \<lambda>_. None, va_i64 = \<lambda>_. None,
     va_bool = \<lambda>_. None, va_array = doc_rows, va_parse_f64 = \<lambda>_. None, va_rfc3339 = \<lambda>_. None,
     va_from_timestamp = \<lambda>_ _. None, va_span = \<lambda>_. None\<rparr>"

definition doc_url :: "string \<Rightarrow> web_url" where
  "doc_url s = \<lparr>u_scheme = ''https'', u_host = Some ''h'', u_username = [], u_password = None, u_path = s, u_query = None,
     u_fragment = None, wu_pairs = [], wu_origin = Some (''https'', ''h'', 443)\<rparr>"

definition doc_env :: "doc scan_env" where
  "doc_env = \<lparr>se_values = doc_api, se_members = \<lambda>_. None, se_null = \<lambda>_. False, se_set = \<lambda>v _ _. v, se_json = \<lambda>_. Some 1,
     se_triple = \<lambda>_. None, se_read = \<lambda>_. None, se_parse = \<lambda>s. Some (doc_url s), se_print = u_path,
     se_pairs = \<lambda>u _. u_path u, se_digest = \<lambda>s. s, se_debug = \<lambda>_. [], se_batch = \<lambda>_ _ _. Text [], se_ids = concat\<rparr>"

definition doc_scanner :: "doc scanner" where
  "doc_scanner = \<lparr>sn_env = doc_env, sn_ext = sample_ext,
     sn_project = \<lambda>j e v. [sample_observation\<lparr>o_resource := ep_id e @ unwrap_or [] (doc_text v)\<rparr>],
     sn_details = \<lambda>j e v. if v = Text ''a'' then [get_endpoint ''detail'' ''d'' []] else []\<rparr>"

definition doc_answers :: "doc endpoint_read \<Rightarrow> nat \<Rightarrow> doc endpoint_read \<Rightarrow> transport_error + doc" where
  "doc_answers e k e' =
     Inr (if ep_id e = ''detail'' then Text ''x'' else if k = 0 then Page [Text ''a''] (Some ''t'') else Page [Text ''b''] None)"

definition doc_job :: job where
  "doc_job = sample_job\<lparr>j_settings := default_settings\<lparr>s_max_pages := 2, s_max_assets := 3\<rparr>\<rparr>"

abbreviation doc_fetch :: "doc endpoint_read \<Rightarrow> doc fetched" where
  "doc_fetch e \<equiv> fetch doc_scanner doc_job None (doc_answers e) (\<lambda>_ n. n) e"

lemma doc_settings:
  "s_max_pages (j_settings doc_job) = 2" "s_max_assets (j_settings doc_job) = 3" "s_required (j_settings doc_job)"
  "scan_width (j_settings doc_job) = 4" "s_ready_queue (j_settings doc_job) = 1024"
  "queue_share (j_settings doc_job) = 4194304" "t_provider (j_target doc_job) = Gcp" "j_revision doc_job = ''r1''"
  by (simp_all add: doc_job_def default_settings_def sample_job_def scan_width_def queue_share_def sample_target_def)

definition doc_limit :: "usize \<Rightarrow> nat \<Rightarrow> limit" where
  "doc_limit used ops = \<lparr>l_used = used, l_bytes = 8384512, l_assets = 3, l_operations = ops, l_limited = False, l_shared = None\<rparr>"

lemma doc_limits:
  "scan_limit (j_settings doc_job) None = doc_limit 0 0" "new_limit (j_settings doc_job) = doc_limit 0 0"
  "used + n \<le> 8384512 \<Longrightarrow> charge n (doc_limit used ops) = Some (doc_limit (used + n) ops)"
  "scan_claim n (doc_limit used ops) = Some (doc_limit used ops)"
  "l_assets (doc_limit used ops) = 3" "l_operations (doc_limit used ops) = ops"
  "(doc_limit used ops)\<lparr>l_operations := k\<rparr> = doc_limit used k" "\<not> l_limited (doc_limit used ops)"
  "limit_exhausted (doc_limit used ops) \<longleftrightarrow> 8384512 \<le> used \<or> 3 \<le> ops"
  "(doc_limit used ops)\<lparr>l_shared := map_option f (l_shared (doc_limit used ops))\<rparr> = doc_limit used ops"
  by (simp_all add: scan_limit_def new_limit_def collection_share_def doc_job_def default_settings_def charge_def doc_limit_def
      scan_claim_def limit_exhausted_def Let_def)

lemma doc_sizes:
  "observation_bytes sample_ext obs = 700" "length (op_id p) \<le> 100 \<Longrightarrow> operation_bytes sample_ext p = 4 * length (op_id p) + 336"
  by (simp_all add: observation_bytes_def operation_bytes_def sample_ext_def sat_add64_def sat_mul64_def u64_max_def)

lemma doc_admits:
  "length out < 3 \<Longrightarrow> used \<le> 100000 \<Longrightarrow> admit_observations sample_ext (doc_limit used ops) out (obs # os) =
     admit_observations sample_ext (doc_limit (used + 700) ops) (out @ [obs]) os"
  "ops < 3 \<Longrightarrow> used \<le> 100000 \<Longrightarrow> length (op_id p) \<le> 100 \<Longrightarrow> admit_operations sample_ext (doc_limit used ops) qs (p # ps) =
     admit_operations sample_ext (doc_limit (used + (4 * length (op_id p) + 336)) (Suc ops)) (qs @ [p]) ps"
  by (simp_all add: admit_observations.simps admit_operations.simps doc_sizes doc_limits)

lemma doc_parts [simp]:
  "sn_env doc_scanner = doc_env" "sn_ext doc_scanner = sample_ext" "wall doc_scanner = 0" "se_values doc_env = doc_api"
  "sn_project doc_scanner j e v = [sample_observation\<lparr>o_resource := ep_id e @ unwrap_or [] (doc_text v)\<rparr>]"
  "sn_details doc_scanner j e v = (if v = Text ''a'' then [get_endpoint ''detail'' ''d'' []] else [])"
  by (simp_all add: doc_scanner_def doc_env_def wall_def sample_ext_def)

lemma doc_rows_of: "page_rows doc_env (Page vs t) ''/items'' = vs" "page_rows doc_env (Text u) [] = []"
  by (simp_all add: page_rows_def doc_env_def doc_api_def)

lemma doc_no_batch: "ep_aws e = None \<Longrightarrow> batch_followups doc_env e rows = None"
  by (simp add: batch_followups_def obind_def)

lemma doc_valid: "validate_metadata doc_env doc_job e v = None"
  by (cases v) (simp_all add: validate_metadata_def rules_truncated_def Let_def doc_env_def doc_api_def obind_def array_at_def is_some_and_def unwrap_or_def)

lemma doc_detail_bytes: "endpoint_bytes doc_env (get_endpoint ''detail'' ''d'' []) = 540"
  by (simp add: endpoint_bytes_def get_endpoint_def sat_add64_def sat_mul64_def u64_max_def)

definition doc_state :: "observation list \<Rightarrow> doc endpoint_read list \<Rightarrow> usize \<Rightarrow> usize \<Rightarrow> nat \<Rightarrow> doc page_state" where
  "doc_state os es queued used n = \<lparr>pg_obs = os, pg_pending = es, pg_queued = queued, pg_limit = doc_limit used 0, pg_outcome = Inr n\<rparr>"

lemma doc_fields:
  "pg_obs (doc_state os es queued used n) = os" "pg_pending (doc_state os es queued used n) = es"
  "pg_limit (doc_state os es queued used n) = doc_limit used 0" "pg_outcome (doc_state os es queued used n) = Inr n"
  by (simp_all add: doc_state_def)

lemma doc_page:
  assumes "ep_aws e = None" and "ep_items e = ''/items''" and "length os < 3" and "used \<le> 100000" and "queued \<le> 1000" and "length es < 3"
  shows "scan_page doc_scanner doc_job e (Page [Text t] c) (doc_state os es queued used n) =
    (if t = ''a'' then doc_state (os @ [sample_observation\<lparr>o_resource := ep_id e @ t\<rparr>]) (es @ [get_endpoint ''detail'' ''d'' []]) (queued + 540) (used + 700) (n + 1)
     else doc_state (os @ [sample_observation\<lparr>o_resource := ep_id e @ t\<rparr>]) es queued (used + 700) (n + 1))"
  using assms
  by (simp add: scan_page_def Let_def doc_rows_of doc_no_batch unwrap_or_def scan_row_def check_metadata_def doc_valid admit_page_def
      doc_admits admit_observations.simps(1) doc_settings failed_page_def doc_state_def doc_detail_bytes doc_limits)

lemma doc_cursor:
  "find_cursor doc_env (Page vs (Some ''t'')) cursor_paths = Inr (Some (''/nextToken'', ''t''))"
  "find_cursor doc_env (Page vs None) cursor_paths = Inr None" "find_cursor doc_env (Text v) cursor_paths = Inr None"
  by (simp_all add: cursor_paths_def doc_api_def) (simp_all add: doc_env_def doc_api_def)

lemma doc_advance:
  assumes "ep_aws e = None" and "ep_body e = None"
  shows "k < 2 \<Longrightarrow> previous \<noteq> ''t'' \<Longrightarrow> advance_page doc_env e doc_job (Page vs (Some ''t'')) previous k = Inr (Some (''t'', e))"
    "advance_page doc_env e doc_job (Page vs None) previous k = Inr None"
    "advance_page doc_env e doc_job (Text v) previous k = Inr None"
proof -
  have "replace_query doc_env e ps = Inr e" for ps by (simp add: replace_query_def doc_env_def doc_url_def)
  moreover have "boolean_at doc_api v [''/IsTruncated'', ''/Truncated''] = None" for v
    by (cases v) (simp_all add: boolean_at_def obind_def doc_api_def)
  ultimately show "k < 2 \<Longrightarrow> previous \<noteq> ''t'' \<Longrightarrow> advance_page doc_env e doc_job (Page vs (Some ''t'')) previous k = Inr (Some (''t'', e))"
    "advance_page doc_env e doc_job (Page vs None) previous k = Inr None"
    "advance_page doc_env e doc_job (Text v) previous k = Inr None"
    using assms by (simp_all add: advance_page_def record_page_def is_some_and_def doc_cursor token_refused_def doc_settings)
qed

lemma scan_pages_step:
  assumes "answers page e = Inr payload" and "scan_page sc j e payload (meanwhile others page st) = st'"
    and "\<not> failed_page st'" and "\<not> starts_with (ep_id e) ''registry-manifest/''"
  shows "advance_page (sn_env sc) e j payload previous (page + 1) = Inr None \<Longrightarrow>
      scan_pages sc j answers others (Suc n) page e previous st = (page + 1, st')"
    "advance_page (sn_env sc) e j payload previous (page + 1) = Inr (Some (token, e')) \<Longrightarrow>
      scan_pages sc j answers others (Suc n) page e previous st = scan_pages sc j answers others n (page + 1) e' token st'"
  using assms by simp_all

text \<open>The two reads.\<close>

lemma doc_operations:
  assumes "length i \<le> 50" and "used \<le> 50000"
  shows "admit_operations sample_ext (doc_limit used 0) [] [project_operation 0 i (Inr n) pages b] =
    (doc_limit (used + (4 * length i + 336)) 1, [project_operation 0 i (Inr n) pages b], True)"
  using assms by (simp add: doc_admits(2) project_operation_def admit_operations.simps(1))

lemma doc_fetch_list:
  "r_observations (fe_result (doc_fetch (get_endpoint ''list'' ''l'' ''/items''))) =
     [sample_observation\<lparr>o_resource := ''lista''\<rparr>, sample_observation\<lparr>o_resource := ''listb''\<rparr>]"
  "fe_followups (doc_fetch (get_endpoint ''list'' ''l'' ''/items'')) = [get_endpoint ''detail'' ''d'' []]"
  "r_operations (fe_result (doc_fetch (get_endpoint ''list'' ''l'' ''/items''))) = [project_operation 0 ''list'' (Inr (Suc (Suc 0))) (Suc (Suc 0)) True]"
proof -
  let ?e = "get_endpoint ''list'' ''l'' ''/items'' :: doc endpoint_read"
  have e: "ep_aws ?e = None" "ep_body ?e = None" "ep_id ?e = ''list''" "ep_items ?e = ''/items''" by (simp_all add: get_endpoint_def)
  have start: "\<lparr>pg_obs = [], pg_pending = [], pg_queued = 0, pg_limit = doc_limit 0 0, pg_outcome = Inr 0\<rparr> = doc_state [] [] 0 0 0"
    by (simp add: doc_state_def)
  have idle: "meanwhile (\<lambda>_ n. n) k (doc_state os es q u n) = doc_state os es q u n" for os es q u n k
    by (simp add: meanwhile_def doc_state_def doc_limit_def)
  have fine: "\<not> failed_page (doc_state os es q u n)" for os es q u n by (simp add: failed_page_def doc_state_def)
  have answers: "doc_answers ?e 0 ?e = Inr (Page [Text ''a''] (Some ''t''))" "doc_answers ?e (Suc 0) ?e = Inr (Page [Text ''b''] None)"
    using e by (simp_all add: doc_answers_def)
  have pages: "scan_pages doc_scanner doc_job (doc_answers ?e) (\<lambda>_ n. n) 2 0 ?e [] (doc_state [] [] 0 0 0) =
      (Suc (Suc 0), doc_state [sample_observation\<lparr>o_resource := ''lista''\<rparr>, sample_observation\<lparr>o_resource := ''listb''\<rparr>]
        [get_endpoint ''detail'' ''d'' []] 540 1400 (Suc (Suc 0)))"
  proof -
    let ?one = "[sample_observation\<lparr>o_resource := ''lista''\<rparr>]" and ?detail = "[get_endpoint ''detail'' ''d'' []] :: doc endpoint_read list"
    have first: "scan_page doc_scanner doc_job ?e (Page [Text ''a''] (Some ''t'')) (doc_state [] [] 0 0 0) = doc_state ?one ?detail 540 700 (Suc 0)"
      using e by (simp add: doc_page)
    have second: "scan_page doc_scanner doc_job ?e (Page [Text ''b''] None) (doc_state ?one ?detail 540 700 (Suc 0)) =
        doc_state (?one @ [sample_observation\<lparr>o_resource := ''listb''\<rparr>]) ?detail 540 1400 (Suc (Suc 0))"
      using e by (simp add: doc_page)
    have plain: "\<not> starts_with ''list'' ''registry-manifest/''" by (simp add: starts_with_def)
    have "scan_pages doc_scanner doc_job (doc_answers ?e) (\<lambda>_ n. n) (Suc (Suc 0)) 0 ?e [] (doc_state [] [] 0 0 0) =
        scan_pages doc_scanner doc_job (doc_answers ?e) (\<lambda>_ n. n) (Suc 0) (0 + 1) ?e ''t'' (doc_state ?one ?detail 540 700 (Suc 0))"
    proof (rule scan_pages_step(2))
      show "doc_answers ?e 0 ?e = Inr (Page [Text ''a''] (Some ''t''))" by (rule answers(1))
      show "scan_page doc_scanner doc_job ?e (Page [Text ''a''] (Some ''t'')) (meanwhile (\<lambda>_ n. n) 0 (doc_state [] [] 0 0 0)) =
          doc_state ?one ?detail 540 700 (Suc 0)" unfolding idle by (rule first)
    qed (use e plain in \<open>simp_all add: fine doc_advance\<close>)
    also have "\<dots> = (0 + 1 + 1, doc_state (?one @ [sample_observation\<lparr>o_resource := ''listb''\<rparr>]) ?detail 540 1400 (Suc (Suc 0)))"
    proof (rule scan_pages_step(1))
      show "doc_answers ?e (0 + 1) ?e = Inr (Page [Text ''b''] None)" using answers(2) by simp
      show "scan_page doc_scanner doc_job ?e (Page [Text ''b''] None) (meanwhile (\<lambda>_ n. n) (0 + 1) (doc_state ?one ?detail 540 700 (Suc 0))) =
          doc_state (?one @ [sample_observation\<lparr>o_resource := ''listb''\<rparr>]) ?detail 540 1400 (Suc (Suc 0))" unfolding idle by (rule second)
    qed (use e plain in \<open>simp_all add: fine doc_advance\<close>)
    finally show ?thesis unfolding numeral_2_eq_2 by simp
  qed
  have admits: "admit_operations sample_ext (doc_limit 1400 0) [] [project_operation 0 ''list'' (Inr (Suc (Suc 0))) (Suc (Suc 0)) True] =
      (doc_limit 1752 (Suc 0), [project_operation 0 ''list'' (Inr (Suc (Suc 0))) (Suc (Suc 0)) True], True)" by (simp add: doc_operations)
  show "r_observations (fe_result (doc_fetch ?e)) =
     [sample_observation\<lparr>o_resource := ''lista''\<rparr>, sample_observation\<lparr>o_resource := ''listb''\<rparr>]"
    "fe_followups (doc_fetch ?e) = [get_endpoint ''detail'' ''d'' []]"
    "r_operations (fe_result (doc_fetch ?e)) = [project_operation 0 ''list'' (Inr (Suc (Suc 0))) (Suc (Suc 0)) True]"
    using e by (simp_all add: fetch_def fetch_pages_def Let_def doc_settings doc_limits start pages admits doc_fields
        finish_limit_def starts_with_def)
qed

lemma doc_fetch_detail:
  "r_observations (fe_result (doc_fetch (get_endpoint ''detail'' ''d'' []))) = [sample_observation\<lparr>o_resource := ''detailx''\<rparr>]"
  "fe_followups (doc_fetch (get_endpoint ''detail'' ''d'' [])) = []"
  "r_operations (fe_result (doc_fetch (get_endpoint ''detail'' ''d'' []))) = [project_operation 0 ''detail'' (Inr (Suc 0)) (Suc 0) True]"
proof -
  let ?e = "get_endpoint ''detail'' ''d'' [] :: doc endpoint_read"
  have e: "ep_aws ?e = None" "ep_body ?e = None" "ep_id ?e = ''detail''" "ep_items ?e = []" by (simp_all add: get_endpoint_def)
  have start: "\<lparr>pg_obs = [], pg_pending = [], pg_queued = 0, pg_limit = doc_limit 0 0, pg_outcome = Inr 0\<rparr> = doc_state [] [] 0 0 0"
    by (simp add: doc_state_def)
  have idle: "meanwhile (\<lambda>_ n. n) k (doc_state os es q u n) = doc_state os es q u n" for os es q u n k
    by (simp add: meanwhile_def doc_state_def doc_limit_def)
  have fine: "\<not> failed_page (doc_state os es q u n)" for os es q u n by (simp add: failed_page_def doc_state_def)
  have page: "scan_page doc_scanner doc_job ?e (Text ''x'') (doc_state [] [] 0 0 0) =
      doc_state [sample_observation\<lparr>o_resource := ''detailx''\<rparr>] [] 0 700 (Suc 0)"
    using e by (simp add: scan_page_def Let_def doc_rows_of doc_no_batch unwrap_or_def check_metadata_def doc_valid admit_page_def
      doc_admits admit_observations.simps(1) doc_state_def)
  have plain: "\<not> starts_with ''detail'' ''registry-manifest/''" by (simp add: starts_with_def)
  have "doc_answers ?e 0 ?e = Inr (Text ''x'')" using e by (simp add: doc_answers_def)
  note answer = this
  have "scan_pages doc_scanner doc_job (doc_answers ?e) (\<lambda>_ n. n) 2 0 ?e [] (doc_state [] [] 0 0 0) =
      (0 + 1, doc_state [sample_observation\<lparr>o_resource := ''detailx''\<rparr>] [] 0 700 (Suc 0))"
    unfolding numeral_2_eq_2
  proof (rule scan_pages_step(1))
    show "doc_answers ?e 0 ?e = Inr (Text ''x'')" by (rule answer)
    show "scan_page doc_scanner doc_job ?e (Text ''x'') (meanwhile (\<lambda>_ n. n) 0 (doc_state [] [] 0 0 0)) =
        doc_state [sample_observation\<lparr>o_resource := ''detailx''\<rparr>] [] 0 700 (Suc 0)" unfolding idle by (rule page)
  qed (use e plain in \<open>simp_all add: fine doc_advance\<close>)
  then have pages: "scan_pages doc_scanner doc_job (doc_answers ?e) (\<lambda>_ n. n) 2 0 ?e [] (doc_state [] [] 0 0 0) =
      (Suc 0, doc_state [sample_observation\<lparr>o_resource := ''detailx''\<rparr>] [] 0 700 (Suc 0))" by simp
  have admits: "admit_operations sample_ext (doc_limit 700 0) [] [project_operation 0 ''detail'' (Inr (Suc 0)) (Suc 0) True] =
      (doc_limit 1060 (Suc 0), [project_operation 0 ''detail'' (Inr (Suc 0)) (Suc 0) True], True)" by (simp add: doc_operations)
  show "r_observations (fe_result (doc_fetch ?e)) = [sample_observation\<lparr>o_resource := ''detailx''\<rparr>]"
    "fe_followups (doc_fetch ?e) = []"
    "r_operations (fe_result (doc_fetch ?e)) = [project_operation 0 ''detail'' (Inr (Suc 0)) (Suc 0) True]"
    using e by (simp_all add: fetch_def fetch_pages_def Let_def doc_settings doc_limits start pages admits doc_fields
        finish_limit_def starts_with_def)
qed

lemma doc_key: "read_key doc_env doc_job (get_endpoint i u items) = ''r1:'' @ i @ '':'' @ u @ '':''"
  by (simp add: read_key_def doc_settings get_endpoint_def) (simp add: doc_env_def)

definition doc_progress ::
  "doc endpoint_read list \<Rightarrow> doc endpoint_read list \<Rightarrow> usize \<Rightarrow> string list \<Rightarrow> doc endpoint_read list \<Rightarrow> usize \<Rightarrow> nat \<Rightarrow>
   operation list \<Rightarrow> observation list \<Rightarrow> doc collect_state" where
  "doc_progress initial pending queued visited running used n ops os =
     \<lparr>co_initial = initial, co_pending = pending, co_queued = queued, co_visited = visited, co_running = running,
      co_limit = doc_limit used n, co_result = (base_result doc_scanner doc_job)\<lparr>r_operations := ops, r_observations := os\<rparr>\<rparr>"

lemma doc_fill:
  "fill_running doc_scanner doc_job (doc_progress [get_endpoint ''list'' ''l'' ''/items''] [] 0 [] [] 0 0 [] []) =
     doc_progress [] [] 0 [''r1:list:l:''] [get_endpoint ''list'' ''l'' ''/items''] 0 0 [] []"
  "fill_running doc_scanner doc_job (doc_progress [] [get_endpoint ''detail'' ''d'' []] 540 [''r1:list:l:''] [] 1752 (Suc 0) ops os) =
     doc_progress [] [] 0 [''r1:detail:d:'', ''r1:list:l:''] [get_endpoint ''detail'' ''d'' []] 1752 (Suc 0) ops os"
  "fill_running doc_scanner doc_job (doc_progress [] [] 0 vs [] used (Suc (Suc 0)) ops os) = doc_progress [] [] 0 vs [] used (Suc (Suc 0)) ops os"
proof -
  note step = doc_settings doc_limits next_read_def doc_key doc_detail_bytes doc_progress_def
  let ?list = "get_endpoint ''list'' ''l'' ''/items'' :: doc endpoint_read"
  let ?detail = "get_endpoint ''detail'' ''d'' [] :: doc endpoint_read"
  have idle: "fill_running doc_scanner doc_job (doc_progress [] [] 0 vs rs used n ops os) = doc_progress [] [] 0 vs rs used n ops os"
    for vs rs used n ops os
    by (subst fill_running.simps) (simp add: doc_progress_def next_read_def)
  show "fill_running doc_scanner doc_job (doc_progress [?list] [] 0 [] [] 0 0 [] []) = doc_progress [] [] 0 [''r1:list:l:''] [?list] 0 0 [] []"
    by (subst fill_running.simps) (simp add: step idle [unfolded doc_progress_def])
  show "fill_running doc_scanner doc_job (doc_progress [] [?detail] 540 [''r1:list:l:''] [] 1752 (Suc 0) ops os) =
     doc_progress [] [] 0 [''r1:detail:d:'', ''r1:list:l:''] [?detail] 1752 (Suc 0) ops os"
    by (subst fill_running.simps) (simp add: step idle [unfolded doc_progress_def])
  show "fill_running doc_scanner doc_job (doc_progress [] [] 0 vs [] used (Suc (Suc 0)) ops os) = doc_progress [] [] 0 vs [] used (Suc (Suc 0)) ops os"
    by (rule idle)
qed

lemma doc_whole: "\<exists>r. collect_reads doc_scanner doc_job (\<lambda>_. 0) doc_fetch [get_endpoint ''list'' ''l'' ''/items''] = Some r \<and>
    all_complete r \<and> map o_resource (r_observations r) = [''detailx'', ''lista'', ''listb'']"
proof -
  let ?list = "get_endpoint ''list'' ''l'' ''/items'' :: doc endpoint_read"
  let ?detail = "get_endpoint ''detail'' ''d'' [] :: doc endpoint_read"
  let ?p = "project_operation 0 ''list'' (Inr (Suc (Suc 0))) (Suc (Suc 0)) True" and ?q = "project_operation 0 ''detail'' (Inr (Suc 0)) (Suc 0) True"
  let ?os = "[sample_observation\<lparr>o_resource := ''lista''\<rparr>, sample_observation\<lparr>o_resource := ''listb''\<rparr>]"
  have settled: "settle_operations True True [project_operation 0 i (Inr n) k True] = [project_operation 0 i (Inr n) k True]" for i n k
    by (simp add: settle_operations_def project_operation_def)
  have start: "start_collect doc_scanner doc_job [?list] = doc_progress [?list] [] 0 [] [] 0 0 [] []"
    by (simp add: start_collect_def doc_progress_def doc_limits base_result_def result_failure_def)
  have ids: "length (op_id ?p) = 4" "length (op_id ?q) = 6" by (simp_all add: project_operation_def)
  have one: "join_read doc_scanner doc_job 0 (doc_fetch ?list) (doc_progress [] [] 0 [''r1:list:l:''] [?list] 0 0 [] []) =
      doc_progress [] [?detail] 540 [''r1:list:l:''] [] 1752 (Suc 0) [?p] ?os"
    by (simp add: join_read_def Let_def doc_progress_def doc_fetch_list doc_settings doc_detail_bytes merge_result_def settled
        doc_admits ids admit_operations.simps(1) admit_observations.simps(1))
  have two: "join_read doc_scanner doc_job 0 (doc_fetch ?detail) (doc_progress [] [] 0 vs [?detail] 1752 (Suc 0) [?p] ?os) =
      doc_progress [] [] 0 vs [] 2812 (Suc (Suc 0)) [?p, ?q] (?os @ [sample_observation\<lparr>o_resource := ''detailx''\<rparr>])" for vs
    by (simp add: join_read_def Let_def doc_progress_def doc_fetch_detail doc_settings merge_result_def settled
        doc_admits ids admit_operations.simps(1) admit_observations.simps(1) numeral_2_eq_2)
  have "collect_reads doc_scanner doc_job (\<lambda>_. 0) doc_fetch [?list] =
      Some (end_collect doc_scanner doc_job (doc_progress [] [] 0 [''r1:detail:d:'', ''r1:list:l:''] [] 2812 (Suc (Suc 0)) [?p, ?q]
        (?os @ [sample_observation\<lparr>o_resource := ''detailx''\<rparr>])))"
  proof -
    let ?loop = "collect_loop doc_scanner doc_job (\<lambda>_. 0) doc_fetch"
    have "?loop (Suc (Suc (Suc 0))) 0 (doc_progress [?list] [] 0 [] [] 0 0 [] []) =
        ?loop (Suc (Suc 0)) (0 + 1) (doc_progress [] [?detail] 540 [''r1:list:l:''] [] 1752 (Suc 0) [?p] ?os)"
      by (subst collect_loop.simps) (simp only: doc_fill Let_def one [symmetric], simp add: doc_progress_def)
    also have "\<dots> = ?loop (Suc 0) (0 + 1 + 1) (doc_progress [] [] 0 [''r1:detail:d:'', ''r1:list:l:''] [] 2812 (Suc (Suc 0)) [?p, ?q]
        (?os @ [sample_observation\<lparr>o_resource := ''detailx''\<rparr>]))"
      by (subst collect_loop.simps) (simp only: doc_fill Let_def two [symmetric], simp add: doc_progress_def)
    also have "\<dots> = Some (end_collect doc_scanner doc_job (doc_progress [] [] 0 [''r1:detail:d:'', ''r1:list:l:''] [] 2812 (Suc (Suc 0)) [?p, ?q]
        (?os @ [sample_observation\<lparr>o_resource := ''detailx''\<rparr>])))"
      by (subst collect_loop.simps) (simp only: doc_fill Let_def, simp add: doc_progress_def)
    finally show ?thesis unfolding collect_reads_def doc_settings numeral_3_eq_3 start .
  qed
  then show ?thesis
    by (simp add: end_collect_def Let_def doc_progress_def doc_limits finish_limit_def all_complete_def project_operation_def
        base_result_def)
qed

theorem complete_means_exhaustive_witness:
  "\<exists>R :: doc endpoint_read list. read_key doc_env doc_job (get_endpoint ''list'' ''l'' ''/items'') \<in> read_key doc_env doc_job ` set R"
proof -
  obtain r where r: "collect_reads doc_scanner doc_job (\<lambda>_. 0) doc_fetch [get_endpoint ''list'' ''l'' ''/items''] = Some r" "all_complete r"
    using doc_whole by blast
  have pages: "0 < s_max_pages (j_settings doc_job)" by (simp add: doc_settings)
  show ?thesis
    using complete_means_exhaustive [where shared = "\<lambda>_. None" and answers = doc_answers and others = "\<lambda>_ _ n. n", OF r pages] by auto
qed

text \<open>Reads that one read leads to by its continuations.\<close>

inductive continues :: "'v scan_env \<Rightarrow> job \<Rightarrow> 'v endpoint_read \<Rightarrow> 'v endpoint_read \<Rightarrow> bool" for se j e where
  first_page: "continues se j e e"
| next_page: "continues se j e e1 \<Longrightarrow> advance_page se e1 j payload previous page = Inr (Some (token, e2)) \<Longrightarrow> continues se j e e2"

text \<open>C20: Whatever cursors a provider returns, every page of a read is asked from the origin of the first one, under
  the same id, and from the same path or one of the subscription of the target: credentials are never sent elsewhere.\<close>

theorem pages_stay_on_origin:
  assumes "url_laws se" and "continues se j e e'" and "se_parse se (ep_url e) = Some u"
  shows "ep_id e' = ep_id e \<and> (\<exists>u'. se_parse se (ep_url e') = Some u' \<and> wu_origin u' = wu_origin u \<and>
    (u_path u' = u_path u \<or> starts_with (u_path u') (''/subscriptions/'' @ t_scope (j_target j) @ ''/'')))"
  using assms(2)
proof (induction rule: continues.induct)
  case (next_page e1 payload previous page token e2)
  then obtain u1 where u1: "se_parse se (ep_url e1) = Some u1" "wu_origin u1 = wu_origin u"
    "u_path u1 = u_path u \<or> starts_with (u_path u1) (''/subscriptions/'' @ t_scope (j_target j) @ ''/'')" by blast
  show ?case
    using advance_page_stays [OF assms(1) next_page(2) u1(1)] advance_page_keeps [OF next_page(2)] next_page(3) u1(2,3)
    unfolding stays_in_def by auto
qed (simp add: assms(3))

theorem pages_stay_on_origin_witness: "\<exists>u'. se_parse doc_env ''l'' = Some u' \<and> wu_origin u' = Some (''https'', ''h'', 443) \<and> u_path u' = ''l''"
proof -
  let ?e = "get_endpoint ''list'' ''l'' ''/items'' :: doc endpoint_read"
  have laws: "url_laws doc_env" by (auto simp: url_laws_def doc_env_def doc_url_def)
  have "continues doc_env doc_job ?e ?e"
    by (rule next_page [OF first_page doc_advance(1) [where k = 1 and previous = "[]"]]) (simp_all add: get_endpoint_def)
  from pages_stay_on_origin [OF laws this, of "doc_url ''l''"] show ?thesis
    by (auto simp: get_endpoint_def doc_env_def doc_url_def)
qed

end
