(* ===== verification/Router.thy ===== *)
theory Router
  imports Collect Log_Window
begin

text \<open>
  The router in front of all collectors: \<open>crates/providers/src/router.rs\<close>, \<open>router_lifecycle.rs\<close>, the choice of
  a collector in \<open>routing.rs\<close> with \<open>routing_github.rs\<close>, \<open>routing_edge.rs\<close> and \<open>routing_discovery.rs\<close>, the cursor
  rule of \<open>log_cursor.rs\<close>, and the admission of remote operations in \<open>integrations/src/admission.rs\<close>.

  Clients (\<open>'a\<close> credentials, \<open>'k\<close> Kubernetes, \<open>'n\<close> NATS) are opaque; how loading one ends is an input, a
  timeout included. \<open>Arc\<close>s are indices: scopes, budgets and slots live in lists, and what a map forgets stays
  there for who still holds it.
\<close>

section \<open>Admission of remote operations\<close>

record limits =
  lm_global :: budget
  lm_pool :: "budget list"
  lm_scopes :: "(string, nat) bmap"

definition remote_limit :: "effective \<Rightarrow> usize" where
  "remote_limit ef = (case ef_jobs ef of [] \<Rightarrow> 1 | j # _ \<Rightarrow> s_concurrency (j_settings j))"

definition new_limits :: "effective \<Rightarrow> limits" where
  "new_limits ef =
     \<lparr>lm_global = new_budget (remote_limit ef),
      lm_pool = map (\<lambda>j. new_budget (s_scope_concurrency (j_settings j))) (ef_jobs ef),
      lm_scopes = bm_collect (zip (map job_scope (ef_jobs ef)) [0..<length (ef_jobs ef)])\<rparr>"

text \<open>\<open>Limits::reload\<close> for one job: a scope that was there keeps its budget, with what is charged to it.\<close>

definition keep_scope ::
  "(string, nat) bmap \<Rightarrow> job \<Rightarrow> budget list \<times> (string, nat) bmap \<Rightarrow> budget list \<times> (string, nat) bmap" where
  "keep_scope old j = (\<lambda>(pool, kept).
     (let limit = s_scope_concurrency (j_settings j);
          (i, pool) = (case bm_get old (job_scope j) of
                         Some i \<Rightarrow> (i, pool)
                       | None \<Rightarrow> (length pool, pool @ [new_budget limit]))
      in (pool[i := resize limit (pool ! i)], bm_put (job_scope j) i kept)))"

definition reload_limits :: "effective \<Rightarrow> limits \<Rightarrow> limits" where
  "reload_limits ef l =
     (let (pool, kept) = fold (keep_scope (lm_scopes l)) (ef_jobs ef) (lm_pool l, [])
      in \<lparr>lm_global = resize (remote_limit ef) (lm_global l), lm_pool = pool, lm_scopes = kept\<rparr>)"

definition limits_context :: "job \<Rightarrow> limits \<Rightarrow> transport_error + nat" where
  "limits_context j l = (case bm_get (lm_scopes l) (job_scope j) of None \<Rightarrow> Inl TCancelled | Some i \<Rightarrow> Inr i)"

text \<open>\<open>acquire\<close> in the context of budget \<open>i\<close>: first the scope, then the whole; a \<open>Reservation\<close> drops in this
  order of its fields. An attempt that is refused waits and is made again.\<close>

definition enter_scope :: "nat \<Rightarrow> limits \<Rightarrow> limits option" where
  "enter_scope i l =
     (case try_acquire (lm_pool l ! i) 1 of
        (b, True) \<Rightarrow> Some (l\<lparr>lm_pool := (lm_pool l)[i := b]\<rparr>)
      | (b, False) \<Rightarrow> None)"

definition enter_global :: "limits \<Rightarrow> limits option" where
  "enter_global l =
     (case try_acquire (lm_global l) 1 of
        (b, True) \<Rightarrow> Some (l\<lparr>lm_global := b\<rparr>)
      | (b, False) \<Rightarrow> None)"

definition drop_reservation :: "nat \<Rightarrow> limits \<Rightarrow> limits" where
  "drop_reservation i l =
     l\<lparr>lm_global := drop_permit 1 (lm_global l), lm_pool := (lm_pool l)[i := drop_permit 1 (lm_pool l ! i)]\<rparr>"

section \<open>State\<close>

record cached_result =
  ca_consumers :: "check set"
  ca_result :: check_result
  ca_bytes :: usize

record ('a, 'k, 'n) scope =
  sp_revision :: string
  sp_dedupe :: "(fingerprint \<rightharpoonup> instant) option"
  sp_tokens :: "string \<rightharpoonup> string"
  sp_auth :: "'a option"
  sp_kube :: "'k option"
  sp_kube_cache :: "cached_result option"
  sp_github_cache :: "cached_result option"
  sp_nats :: "'n option"

record ('a, 'k, 'n) router =
  ro_config :: config
  ro_revision :: string
  ro_limits :: limits
  ro_heap :: "('a, 'k, 'n) scope list"
  ro_scopes :: "string \<rightharpoonup> nat"
  ro_processes :: budget
  ro_cache_bytes :: budget
  ro_cursors :: "string \<rightharpoonup> instant"
  ro_slots :: "'a option list"
  ro_discovery :: "string \<rightharpoonup> nat"

definition router_settings :: "effective \<Rightarrow> settings" where
  "router_settings ef = (case ef_jobs ef of [] \<Rightarrow> default_settings | j # _ \<Rightarrow> j_settings j)"

definition new_router :: "config \<Rightarrow> effective \<Rightarrow> ('a, 'k, 'n) router" where
  "new_router cf ef =
     \<lparr>ro_config = cf, ro_revision = ef_revision ef, ro_limits = new_limits ef, ro_heap = [], ro_scopes = Map.empty,
      ro_processes = new_budget (s_subprocesses (router_settings ef)),
      ro_cache_bytes = new_budget (s_memory_bytes (router_settings ef) div 4),
      ro_cursors = Map.empty, ro_slots = [], ro_discovery = Map.empty\<rparr>"

text \<open>\<open>Router::reload\<close>, one wait after the other, all under the write lock of the configuration.\<close>

definition reload_budgets :: "effective \<Rightarrow> ('a, 'k, 'n) router \<Rightarrow> ('a, 'k, 'n) router" where
  "reload_budgets ef r =
     (case ef_jobs ef of
        [] \<Rightarrow> r
      | j # _ \<Rightarrow> r\<lparr>ro_cache_bytes := resize (s_memory_bytes (j_settings j) div 4) (ro_cache_bytes r),
                  ro_processes := resize (s_subprocesses (j_settings j)) (ro_processes r)\<rparr>)"

definition reload_steps :: "effective \<Rightarrow> (('a, 'k, 'n) router \<Rightarrow> ('a, 'k, 'n) router) list" where
  "reload_steps ef =
     [\<lambda>r. r\<lparr>ro_revision := ef_revision ef\<rparr>,
      \<lambda>r. r\<lparr>ro_limits := reload_limits ef (ro_limits r)\<rparr>,
      reload_budgets ef,
      \<lambda>r. r\<lparr>ro_scopes := Map.empty\<rparr>,
      \<lambda>r. r\<lparr>ro_cursors := Map.empty\<rparr>,
      \<lambda>r. r\<lparr>ro_discovery := Map.empty\<rparr>]"

abbreviation at_scope ::
  "nat \<Rightarrow> (('a, 'k, 'n) scope \<Rightarrow> ('a, 'k, 'n) scope) \<Rightarrow> ('a, 'k, 'n) router \<Rightarrow> ('a, 'k, 'n) router" where
  "at_scope i f r \<equiv> r\<lparr>ro_heap := (ro_heap r)[i := f (ro_heap r ! i)]\<rparr>"

section \<open>Log cursors\<close>

text \<open>\<open>log_cursor::complete\<close>.\<close>

definition window_complete :: "observation \<Rightarrow> bool" where
  "window_complete ob = (case o_data ob of LogWindow _ _ _ _ _ _ True \<Rightarrow> True | _ \<Rightarrow> False)"

definition window_gap :: "observation \<Rightarrow> bool" where
  "window_gap ob = (case o_data ob of LogWindow gap _ _ _ _ _ True \<Rightarrow> 0 < gap | _ \<Rightarrow> False)"

definition cursor_complete :: "check_result \<Rightarrow> bool" where
  "cursor_complete r \<longleftrightarrow>
     list_ex window_complete (r_observations r) \<and>
     list_all (\<lambda>p. op_coverage p = Complete \<or> op_coverage p = Missing \<and>
       list_ex (\<lambda>ob. op_id p = o_operation ob @ ''/missing-window'' \<and> window_gap ob) (r_observations r)) (r_operations r)"

definition window_ends :: "check_result \<Rightarrow> instant list" where
  "window_ends r = List.map_filter (\<lambda>ob. case o_data ob of LogWindow _ _ e _ _ _ True \<Rightarrow> Some e | _ \<Rightarrow> None) (r_observations r)"

text \<open>\<open>restore_logs\<close>; \<open>insert_async\<close> keeps an entry that is there.\<close>

definition restored_results :: "snapshot \<Rightarrow> check_result list" where
  "restored_results sn = take 128 (filter (\<lambda>r. r_check r = CLogs \<and> cursor_complete r) (map snd (sn_results sn)))"

definition restore_one :: "check_result \<Rightarrow> ('a, 'k, 'n) router \<Rightarrow> ('a, 'k, 'n) router" where
  "restore_one res r =
     (if window_ends res = [] \<or> ro_cursors r (r_target res) \<noteq> None then r
      else r\<lparr>ro_cursors := (ro_cursors r)(r_target res \<mapsto> Min (set (window_ends res)))\<rparr>)"

definition restore_logs :: "snapshot \<Rightarrow> ('a, 'k, 'n) router \<Rightarrow> ('a, 'k, 'n) router" where
  "restore_logs sn r = fold restore_one (restored_results sn) r"

text \<open>The window a collection is to read.\<close>

definition select_window :: "instant \<Rightarrow> job \<Rightarrow> ('a, 'k, 'n) router \<Rightarrow> job" where
  "select_window now j r =
     (if j_check j \<noteq> CLogs then j
      else j\<lparr>j_log_end := Some now,
             j_log_start := if j_continuous j then ro_cursors r (t_name (j_target j)) else j_log_start j\<rparr>)"

section \<open>Scopes and their clients\<close>

text \<open>\<open>Router::scope\<close> up to the insertion: a scope that is there, the end, or room for a new one.\<close>

definition configured_target :: "config \<Rightarrow> job \<Rightarrow> bool" where
  "configured_target cf j \<longleftrightarrow>
     list_ex (\<lambda>t. t_name t = t_name (j_target j) \<and> t_scope t = t_scope (j_target j) \<and> t_provider t = t_provider (j_target j))
       (cf_targets cf)"

definition find_scope :: "job \<Rightarrow> ('a, 'k, 'n) router \<Rightarrow> transport_error + nat option" where
  "find_scope j r =
     (if j_revision j \<noteq> ro_revision r then Inl TCancelled
      else if \<not> configured_target (ro_config r) j then Inl TCancelled
      else case ro_scopes r (t_name (j_target j)) of
             Some i \<Rightarrow> Inr (Some i)
           | None \<Rightarrow> if 128 \<le> card (dom (ro_scopes r)) then Inl TLimit else Inr None)"

definition new_scope :: "job \<Rightarrow> ('a, 'k, 'n) scope" where
  "new_scope j =
     \<lparr>sp_revision = j_revision j, sp_dedupe = None, sp_tokens = Map.empty, sp_auth = None, sp_kube = None,
      sp_kube_cache = None, sp_github_cache = None, sp_nats = None\<rparr>"

text \<open>\<open>entry_async(..).or_insert(scope)\<close>: another collection of the target may have been faster.\<close>

definition insert_scope :: "job \<Rightarrow> ('a, 'k, 'n) router \<Rightarrow> ('a, 'k, 'n) router \<times> nat" where
  "insert_scope j r =
     (case ro_scopes r (t_name (j_target j)) of
        Some i \<Rightarrow> (r, i)
      | None \<Rightarrow>
          (r\<lparr>ro_heap := ro_heap r @ [new_scope j],
             ro_scopes := (ro_scopes r)(t_name (j_target j) \<mapsto> length (ro_heap r))\<rparr>, length (ro_heap r)))"

text \<open>\<open>Router::auth\<close>: the profile a job names, and the one load of its client.\<close>

definition job_profile :: "config \<Rightarrow> job \<Rightarrow> credential option" where
  "job_profile cf j = (case t_credential (j_target j) of None \<Rightarrow> None | Some n \<Rightarrow> bm_get (cf_credentials cf) n)"

definition load_auth ::
  "(credential option \<Rightarrow> transport_error + 'a) \<Rightarrow> job \<Rightarrow> nat \<Rightarrow> ('a, 'k, 'n) router \<Rightarrow> (transport_error + 'a) \<times> ('a, 'k, 'n) router" where
  "load_auth answer j i r =
     (case sp_auth (ro_heap r ! i) of
        Some a \<Rightarrow> (Inr a, r)
      | None \<Rightarrow>
          (case answer (job_profile (ro_config r) j) of
             Inl e \<Rightarrow> (Inl e, r)
           | Inr a \<Rightarrow> (Inr a, at_scope i (\<lambda>sp. sp\<lparr>sp_auth := Some a\<rparr>) r)))"

definition load_dedupe ::
  "job \<Rightarrow> nat \<Rightarrow> ('a, 'k, 'n) router \<Rightarrow> (fingerprint \<rightharpoonup> instant) option \<times> ('a, 'k, 'n) router" where
  "load_dedupe j i r =
     (if \<not> j_continuous j then (None, r)
      else case sp_dedupe (ro_heap r ! i) of
             Some d \<Rightarrow> (Some d, r)
           | None \<Rightarrow> (let (d, b) = new_dedupe (s_log_dedup_entries (j_settings j)) (ro_cache_bytes r)
                     in (d, (at_scope i (\<lambda>sp. sp\<lparr>sp_dedupe := d\<rparr>) r)\<lparr>ro_cache_bytes := b\<rparr>)))"

section \<open>Results shared between checks\<close>

text \<open>A result serves each check once, within its revision, while it is younger than \<open>age\<close> seconds.\<close>

definition serve_cached :: "instant \<Rightarrow> int \<Rightarrow> job \<Rightarrow> cached_result option \<Rightarrow> (check_result \<times> cached_result) option" where
  "serve_cached now age j slot =
     (case slot of
        None \<Rightarrow> None
      | Some c \<Rightarrow>
          if r_revision (ca_result c) = j_revision j \<and> j_check j \<notin> ca_consumers c \<and>
             elapsed now (r_finished_at (ca_result c)) < age
          then Some ((ca_result c)\<lparr>r_check := j_check j\<rparr>, c\<lparr>ca_consumers := insert (j_check j) (ca_consumers c)\<rparr>)
          else None)"

definition drop_cached :: "cached_result option \<Rightarrow> budget \<Rightarrow> budget" where
  "drop_cached slot b = (case slot of None \<Rightarrow> b | Some c \<Rightarrow> drop_permit (ca_bytes c) b)"

definition keep_cached :: "ext \<Rightarrow> job \<Rightarrow> check_result \<Rightarrow> budget \<Rightarrow> cached_result option \<times> budget" where
  "keep_cached x j res b =
     (let bytes = result_bytes x res
      in if u32_max < bytes then (None, b)
         else (case try_acquire b bytes of
                 (b, True) \<Rightarrow> (Some \<lparr>ca_consumers = {j_check j}, ca_result = res, ca_bytes = bytes\<rparr>, b)
               | (b, False) \<Rightarrow> (None, b)))"

text \<open>\<open>Router::kube\<close>; the locks of the cache and of the client are held to the end.\<close>

definition kube_collect ::
  "ext \<Rightarrow> instant \<Rightarrow> transport_error + 'k \<Rightarrow> ('k \<Rightarrow> check_result) \<Rightarrow> job \<Rightarrow> nat \<Rightarrow> ('a, 'k, 'n) router \<Rightarrow>
   (transport_error + check_result) \<times> ('a, 'k, 'n) router" where
  "kube_collect x now connecting collected j i r =
     (let sp = ro_heap r ! i
      in case serve_cached now 30 j (sp_kube_cache sp) of
           Some (res, c) \<Rightarrow> (Inr res, at_scope i (\<lambda>sp. sp\<lparr>sp_kube_cache := Some c\<rparr>) r)
         | None \<Rightarrow>
             (case (case sp_kube sp of Some k \<Rightarrow> Inr k | None \<Rightarrow> connecting) of
                Inl e \<Rightarrow> (Inl e, r)
              | Inr k \<Rightarrow>
                  (let res = collected k;
                       (slot, b) = keep_cached x j res (drop_cached (sp_kube_cache sp) (ro_cache_bytes r))
                   in (Inr res,
                       (at_scope i (\<lambda>sp. sp\<lparr>sp_kube := Some k, sp_kube_cache := slot\<rparr>) r)\<lparr>ro_cache_bytes := b\<rparr>))))"

text \<open>\<open>github_token\<close>: which profile, and where its token comes from.\<close>

definition github_profile :: "config \<Rightarrow> job \<Rightarrow> credential option" where
  "github_profile cf j =
     (case obind (case t_github_credential (j_target j) of
                    Some n \<Rightarrow> Some n
                  | None \<Rightarrow> if t_provider (j_target j) = Github then t_credential (j_target j) else None)
             (bm_get (cf_credentials cf)) of
        Some p \<Rightarrow> Some p
      | None \<Rightarrow> List.find (\<lambda>p. c_provider p = Github) (map snd (cf_credentials cf)))"

definition github_token ::
  "(string \<Rightarrow> transport_error + string) \<Rightarrow> (string \<Rightarrow> string option) \<Rightarrow> transport_error + string \<Rightarrow> credential option \<Rightarrow>
   transport_error + (string \<times> string option)" where
  "github_token read_file env helper p =
     (let expected = obind p c_expected_identity
      in case (case obind p c_credential_file of
                 Some path \<Rightarrow> read_file path
               | None \<Rightarrow>
                   (case env (unwrap_or ''GH_TOKEN'' (obind p c_token_env)) of
                      Some token \<Rightarrow> Inr token
                    | None \<Rightarrow> helper)) of
           Inl e \<Rightarrow> Inl e
         | Inr token \<Rightarrow> Inr (token, expected))"

definition github_collect ::
  "ext \<Rightarrow> instant \<Rightarrow> (credential option \<Rightarrow> transport_error + (string \<times> string option)) \<Rightarrow>
   (string \<times> string option \<Rightarrow> check_result) \<Rightarrow> job \<Rightarrow> nat \<Rightarrow> ('a, 'k, 'n) router \<Rightarrow>
   (transport_error + check_result) \<times> ('a, 'k, 'n) router" where
  "github_collect x now tokens collected j i r =
     (if j_check j = CPreflight then (map_sum id collected (tokens (github_profile (ro_config r) j)), r)
      else
        (let slot = sp_github_cache (ro_heap r ! i)
         in case serve_cached now (as_i64 (s_interval (j_settings j))) j slot of
              Some (res, c) \<Rightarrow> (Inr res, at_scope i (\<lambda>sp. sp\<lparr>sp_github_cache := Some c\<rparr>) r)
            | None \<Rightarrow>
                (let b = drop_cached slot (ro_cache_bytes r);
                     answer = map_sum id collected (tokens (github_profile (ro_config r) j));
                     (slot, b) = (case answer of
                                    Inl _ \<Rightarrow> (None, b)
                                  | Inr res \<Rightarrow> if result_complete res then keep_cached x j res b else (None, b))
                 in (answer, (at_scope i (\<lambda>sp. sp\<lparr>sp_github_cache := slot\<rparr>) r)\<lparr>ro_cache_bytes := b\<rparr>))))"

text \<open>The NATS client of a scope: connecting once, dropped when it does not answer.\<close>

definition load_nats ::
  "(url \<Rightarrow> credential option \<Rightarrow> transport_error + 'n) \<Rightarrow> job \<Rightarrow> nat \<Rightarrow> ('a, 'k, 'n) router \<Rightarrow>
   (transport_error + 'n) \<times> ('a, 'k, 'n) router" where
  "load_nats connect j i r =
     (case sp_nats (ro_heap r ! i) of
        Some n \<Rightarrow> (Inr n, r)
      | None \<Rightarrow>
          (case t_nats_url (j_target j) of
             None \<Rightarrow> (Inl TAuthentication, r)
           | Some url \<Rightarrow>
               (case connect url (job_profile (ro_config r) j) of
                  Inl e \<Rightarrow> (Inl e, r)
                | Inr n \<Rightarrow> (Inr n, at_scope i (\<lambda>sp. sp\<lparr>sp_nats := Some n\<rparr>) r))))"

definition nats_collect ::
  "(url \<Rightarrow> credential option \<Rightarrow> transport_error + 'n) \<Rightarrow> ('n \<Rightarrow> check_result) \<Rightarrow> job \<Rightarrow> nat \<Rightarrow> ('a, 'k, 'n) router \<Rightarrow>
   (transport_error + check_result) \<times> ('a, 'k, 'n) router" where
  "nats_collect connect collected j i r =
     (case load_nats connect j i r of
        (Inl e, r) \<Rightarrow> (Inl e, r)
      | (Inr n, r) \<Rightarrow>
          (let res = collected n
           in (Inr res,
               if list_ex (\<lambda>p. op_coverage p = Unavailable \<or> op_coverage p = Unauthenticated) (r_operations res)
               then at_scope i (\<lambda>sp. sp\<lparr>sp_nats := None\<rparr>) r else r)))"

section \<open>Which collector answers\<close>

datatype route =
    To_flow_inputs | To_queues | To_kubernetes | To_edge | To_github | To_nats
  | To_scope_preflight | To_discovery | To_slo | To_logs | To_provider

definition route_of :: "job \<Rightarrow> route" where
  "route_of j =
     (let c = j_check j; p = t_provider (j_target j)
      in if c = CFlows then To_flow_inputs
         else if c = CQueues \<and> t_context (j_target j) \<noteq> None then To_queues
         else if c = CKubernetes \<or> p = Kubernetes \<and> c \<noteq> CEdge \<and> c \<noteq> CPreflight then To_kubernetes
         else if c = CEdge then To_edge
         else if p = Github \<or> c = CGithub then To_github
         else if p = Nats then To_nats
         else if c = CPreflight \<and> (j_kube_only j \<or> p = Edge \<or> p = Kubernetes) then To_scope_preflight
         else if c = CDiscovery then To_discovery
         else if c = CSlo \<and> t_slo_goals (j_target j) \<noteq> [] then To_slo
         else if c = CLogs then To_logs
         else To_provider)"

definition flow_inputs :: "'v scanner \<Rightarrow> job \<Rightarrow> check_result" where
  "flow_inputs sc j =
     (base_result sc j)\<lparr>r_operations := [project_operation (wall sc) ''flow-inputs'' (Inl TMissing) 0 True]\<rparr>"

text \<open>The rows of the NATS report beside the queues of a cluster; \<open>f\<close> is \<open>u64 as f64\<close>.\<close>

definition stream_metrics :: "'v scanner \<Rightarrow> job \<Rightarrow> string \<times> u64 \<times> u64 \<Rightarrow> observation list" where
  "stream_metrics sc j = (\<lambda>(name, messages, bytes).
     map (\<lambda>(metric, n). project_observation (wall sc) j ''nats-streams'' (name @ ''/'' @ metric)
            (Metric metric (f_of_nat n) None None None 0))
       [(''stored-messages'', messages), (''stored-bytes'', bytes)])"

definition add_streams ::
  "'v scanner \<Rightarrow> job \<Rightarrow> transport_error + (string \<times> u64 \<times> u64) list \<Rightarrow> check_result \<Rightarrow> check_result" where
  "add_streams sc j parsed res =
     (if t_context (j_target j) = None \<or> t_nats_fallback (j_target j) = None then res
      else res\<lparr>r_operations := r_operations res @
                 [project_operation (wall sc) ''nats-streams'' (map_sum id length parsed) 1 True],
               r_observations := r_observations res @
                 (case parsed of Inl _ \<Rightarrow> [] | Inr rows \<Rightarrow> concat (map (stream_metrics sc j) rows))\<rparr>)"

text \<open>The preflight of a scope without a cloud; \<open>observed\<close> is what its cluster answered.\<close>

definition scope_preflight :: "'v scanner \<Rightarrow> job \<Rightarrow> transport_error + check_result \<Rightarrow> transport_error + check_result" where
  "scope_preflight sc j observed =
     (let passed = (base_result sc j)\<lparr>r_operations := [project_operation (wall sc) ''configured-scope'' (Inr 1) 1 True],
            r_observations := [project_observation (wall sc) j ''configured-scope'' ''target'' (Identity (t_scope (j_target j)))]\<rparr>
      in if j_kube_only j \<or> t_provider (j_target j) = Kubernetes
         then (case observed of
                 Inl e \<Rightarrow> Inl e
               | Inr res \<Rightarrow>
                   (case List.find (\<lambda>p. op_required p \<and> op_coverage p \<noteq> Complete) (r_operations res) of
                      Some p \<Rightarrow> Inr (refused_read sc j (op_coverage p))
                    | None \<Rightarrow> Inr passed))
         else Inr passed)"

text \<open>What the configured SLO goals make of the metrics asked for them (\<open>slo_projection::configured\<close>).\<close>

definition slo_metrics :: "job \<Rightarrow> job" where
  "slo_metrics j =
     j\<lparr>j_target := (j_target j)\<lparr>t_metrics :=
       filter (\<lambda>q. bm_has (t_slo_goals (j_target j)) (mq_name q)) (t_metrics (j_target j))\<rparr>\<rparr>"

definition slo_compliance :: "f64 \<Rightarrow> f64 option \<Rightarrow> f64 option" where
  "slo_compliance v capacity =
     (let c = f_div v (unwrap_or (Fin 1) capacity) in if f_le (Fin 0) c \<and> f_le c (Fin 1) then Some c else None)"

definition metric_goal :: "job \<Rightarrow> observation \<Rightarrow> (string \<times> f64 \<times> f64 option) option" where
  "metric_goal j ob =
     (case o_data ob of
        Metric name v capacity _ _ _ \<Rightarrow>
          map_option (\<lambda>goal. (name, goal, slo_compliance v capacity)) (bm_get (t_slo_goals (j_target j)) name)
      | _ \<Rightarrow> None)"

definition slo_observation :: "job \<Rightarrow> observation \<Rightarrow> observation" where
  "slo_observation j ob =
     (case metric_goal j ob of
        None \<Rightarrow> ob
      | Some (_, goal, compliance) \<Rightarrow>
          ob\<lparr>o_resource := o_resource ob @ ''/slo'', o_data := Slo goal compliance None None None\<rparr>)"

definition bad_metric :: "job \<Rightarrow> operation \<Rightarrow> observation \<Rightarrow> bool" where
  "bad_metric j p ob \<longleftrightarrow>
     op_id p = o_operation ob \<and> (case metric_goal j ob of Some (_, _, None) \<Rightarrow> True | _ \<Rightarrow> False)"

definition slo_configured :: "instant \<Rightarrow> job \<Rightarrow> check_result \<Rightarrow> check_result" where
  "slo_configured now j res =
     (let found = map fst (List.map_filter (metric_goal j) (r_observations res))
      in res\<lparr>r_observations := map (slo_observation j) (r_observations res),
             r_operations :=
               map (\<lambda>p. if list_ex (bad_metric j p) (r_observations res) then p\<lparr>op_coverage := Malformed\<rparr> else p)
                 (r_operations res) @
               map (\<lambda>name. project_operation now name (Inl TMissing) 0 True)
                 (filter (\<lambda>name. name \<notin> set found) (map fst (t_slo_goals (j_target j))))\<rparr>)"

section \<open>Public endpoints\<close>

text \<open>\<open>routing_edge::append\<close>; \<open>parse\<close> is \<open>Url::parse\<close>.\<close>

definition unrelated_operations :: "string list" where
  "unrelated_operations =
     [''events'', ''pods'', ''jobs'', ''cronjobs'', ''nodes'', ''replicasets'', ''deployments'', ''statefulsets'',
      ''daemonsets'', ''horizontalpodautoscalers'', ''scaledobjects'', ''externalsecrets'']"

fun append_endpoints ::
  "(string \<Rightarrow> url option) \<Rightarrow> instant \<Rightarrow> observation list \<Rightarrow> endpoint list \<Rightarrow> endpoint list \<times> operation list" where
  "append_endpoints parse now [] es = (es, [])"
| "append_endpoints parse now (ob # obs) es =
     (case (case o_data ob of AdvertisedEndpoint u \<Rightarrow> parse u | _ \<Rightarrow> None) of
        None \<Rightarrow> append_endpoints parse now obs es
      | Some u \<Rightarrow>
          if list_ex (\<lambda>e. e_url e = u) es then append_endpoints parse now obs es
          else if 256 \<le> length es then (es, [project_operation now ''endpoint-limit'' (Inl TLimit) 0 True])
          else append_endpoints parse now obs (es @ [\<lparr>e_name = o_resource ob, e_url = u, e_accepted = []\<rparr>]))"

definition append_snapshot ::
  "(string \<Rightarrow> url option) \<Rightarrow> instant \<Rightarrow> string \<Rightarrow> transport_error + check_result \<Rightarrow>
   endpoint list \<times> check_result \<Rightarrow> endpoint list \<times> check_result" where
  "append_snapshot parse now failed answer = (\<lambda>(es, res).
     (case answer of
        Inl e \<Rightarrow> (es, res\<lparr>r_operations := r_operations res @ [project_operation now failed (Inl e) 0 True]\<rparr>)
      | Inr sn \<Rightarrow>
          (let (es, ops) = append_endpoints parse now (r_observations sn) es
           in (es, res\<lparr>r_operations := r_operations res @ ops @
                 filter (\<lambda>p. op_id p \<notin> set unrelated_operations) (r_operations sn)\<rparr>))))"

text \<open>\<open>Router::edge\<close>: \<open>probes\<close> are the observations of the probed endpoints in the order they end.\<close>

definition edge_result ::
  "'v scanner \<Rightarrow> (string \<Rightarrow> url option) \<Rightarrow> job \<Rightarrow> transport_error + check_result \<Rightarrow> transport_error + check_result \<Rightarrow>
   (endpoint list \<Rightarrow> observation list) \<Rightarrow> check_result" where
  "edge_result sc parse j cluster cloud probes =
     (let now = wall sc;
          st = (t_endpoints (j_target j), base_result sc j);
          st = (if t_context (j_target j) = None then st
                else append_snapshot parse now ''kubernetes-endpoint-discovery'' cluster st);
          st = (if t_provider (j_target j) \<in> {Gcp, Aws, Azure}
                then append_snapshot parse now ''cloud-endpoint-discovery'' cloud st else st);
          obs = probes (fst st); n = length obs
      in (snd st)\<lparr>r_observations := r_observations (snd st) @ obs,
           r_operations := r_operations (snd st) @
             [project_operation now ''endpoints'' (if n = 0 then Inl TMissing else Inr n) 1 True],
           r_finished_at := now\<rparr>)"

section \<open>Discovery\<close>

definition discovery_credential :: "job \<Rightarrow> discovery_root \<Rightarrow> string option" where
  "discovery_credential j dr = (case dr_credential dr of Some n \<Rightarrow> Some n | None \<Rightarrow> t_credential (j_target j))"

definition discovery_profile :: "config \<Rightarrow> job \<Rightarrow> discovery_root \<Rightarrow> credential option" where
  "discovery_profile cf j dr =
     (let profile = obind (discovery_credential j dr) (bm_get (cf_credentials cf))
      in if dr_provider dr = Azure
         then Some ((unwrap_or \<lparr>c_google_federation = None, c_credential_file = None, c_provider = Azure, c_profile = None,
                        c_tenant = None, c_role_arn = None, c_expected_identity = None, c_token_env = None\<rparr> profile)
                      \<lparr>c_tenant := Some (dr_scope dr)\<rparr>)
         else profile)"

definition discovery_key :: "job \<Rightarrow> discovery_root \<Rightarrow> string" where
  "discovery_key j dr =
     provider_name (dr_provider dr) @ ''/'' @ dr_scope dr @ ''/'' @ debug_opt (discovery_credential j dr)"

definition discovery_account :: "discovery_root \<Rightarrow> string option" where
  "discovery_account dr =
     (if dr_provider dr = Aws \<and> length (dr_scope dr) = 12 \<and> list_all is_ascii_digit (dr_scope dr)
      then Some (dr_scope dr) else None)"

text \<open>The slot of a root, made when it is missing, and the client loaded into it. \<open>cf\<close> is the configuration
  the collection copied when it started.\<close>

definition discovery_slot :: "job \<Rightarrow> discovery_root \<Rightarrow> ('a, 'k, 'n) router \<Rightarrow> ('a, 'k, 'n) router \<times> nat" where
  "discovery_slot j dr r =
     (case ro_discovery r (discovery_key j dr) of
        Some i \<Rightarrow> (r, i)
      | None \<Rightarrow>
          (r\<lparr>ro_slots := ro_slots r @ [None], ro_discovery := (ro_discovery r)(discovery_key j dr \<mapsto> length (ro_slots r))\<rparr>,
           length (ro_slots r)))"

definition load_discovery ::
  "(credential option \<Rightarrow> string option \<Rightarrow> transport_error + 'a) \<Rightarrow> config \<Rightarrow> job \<Rightarrow> discovery_root \<Rightarrow>
   ('a, 'k, 'n) router \<Rightarrow> (transport_error + 'a) \<times> nat \<times> ('a, 'k, 'n) router" where
  "load_discovery answer cf j dr r =
     (let (r, i) = discovery_slot j dr r
      in case ro_slots r ! i of
           Some a \<Rightarrow> (Inr a, i, r)
         | None \<Rightarrow>
             (case answer (discovery_profile cf j dr) (discovery_account dr) of
                Inl e \<Rightarrow> (Inl e, i, r)
              | Inr a \<Rightarrow> (Inr a, i, r\<lparr>ro_slots := (ro_slots r)[i := Some a]\<rparr>)))"

text \<open>One root with what it collected, and all roots of the provider.\<close>

definition discover_root ::
  "'v scanner \<Rightarrow> (discovery_root \<Rightarrow> credential option \<Rightarrow> string option \<Rightarrow> transport_error + 'a) \<Rightarrow>
   (discovery_root \<Rightarrow> 'a \<Rightarrow> check_result) \<Rightarrow> config \<Rightarrow> job \<Rightarrow> discovery_root \<Rightarrow>
   check_result \<times> ('a, 'k, 'n) router \<Rightarrow> check_result \<times> ('a, 'k, 'n) router" where
  "discover_root sc answer collected cf j dr = (\<lambda>(res, r).
     (case load_discovery (answer dr) cf j dr r of
        (Inl e, _, r) \<Rightarrow>
          (res\<lparr>r_operations := r_operations res @
             [project_operation (wall sc) (''discovery-auth/'' @ dr_scope dr) (Inl e) 0 True]\<rparr>, r)
      | (Inr a, i, r) \<Rightarrow>
          (let c = collected dr a
           in (res\<lparr>r_operations := r_operations res @ r_operations c,
                   r_observations := r_observations res @ r_observations c\<rparr>,
               if list_ex (\<lambda>p. op_coverage p = Unauthenticated) (r_operations c)
               then r\<lparr>ro_slots := (ro_slots r)[i := None]\<rparr> else r))))"

definition discover ::
  "'v scanner \<Rightarrow> (discovery_root \<Rightarrow> credential option \<Rightarrow> string option \<Rightarrow> transport_error + 'a) \<Rightarrow>
   (discovery_root \<Rightarrow> 'a \<Rightarrow> check_result) \<Rightarrow> config \<Rightarrow> job \<Rightarrow> ('a, 'k, 'n) router \<Rightarrow> check_result \<times> ('a, 'k, 'n) router" where
  "discover sc answer collected cf j r =
     (let (res, r) = fold (discover_root sc answer collected cf j)
            (filter (\<lambda>dr. dr_provider dr = t_provider (j_target j)) (cf_discovery cf)) (base_result sc j, r);
          res = (if r_operations res = []
                 then res\<lparr>r_operations := [project_operation (wall sc) ''discovery-roots'' (Inl TMissing) 0 True]\<rparr> else res)
      in (res\<lparr>r_finished_at := wall sc\<rparr>, r))"

section \<open>The end of a collection\<close>

definition refuse_client :: "job \<Rightarrow> ('a, 'k, 'n) scope \<Rightarrow> ('a, 'k, 'n) scope" where
  "refuse_client j sp =
     (if j_check j = CKubernetes \<or> j_kube_only j \<or> t_provider (j_target j) = Kubernetes
      then sp\<lparr>sp_kube := None\<rparr> else sp\<lparr>sp_auth := None, sp_tokens := Map.empty\<rparr>)"

definition drop_clients :: "job \<Rightarrow> check_result \<Rightarrow> ('a, 'k, 'n) router \<Rightarrow> ('a, 'k, 'n) router" where
  "drop_clients j res r =
     (if list_ex (\<lambda>p. op_coverage p = Unauthenticated) (r_operations res)
      then (case ro_scopes r (t_name (j_target j)) of
              None \<Rightarrow> r
            | Some i \<Rightarrow> if sp_revision (ro_heap r ! i) = j_revision j then at_scope i (refuse_client j) r else r)
      else r)"

definition advance_cursor :: "job \<Rightarrow> check_result \<Rightarrow> ('a, 'k, 'n) router \<Rightarrow> ('a, 'k, 'n) router" where
  "advance_cursor j res r =
     (if ro_revision r = j_revision j \<and> j_continuous j \<and> j_check j = CLogs \<and> cursor_complete res
      then (case j_log_end j of
              None \<Rightarrow> r
            | Some e \<Rightarrow> r\<lparr>ro_cursors := (ro_cursors r)(t_name (j_target j) \<mapsto> e)\<rparr>)
      else r)"

text \<open>\<open>Collector::collect\<close> after the collector answered; \<open>j\<close> is the selected job.\<close>

definition answer_result :: "'v scanner \<Rightarrow> job \<Rightarrow> transport_error + check_result \<Rightarrow> check_result" where
  "answer_result sc j answer =
     (case answer of Inr res \<Rightarrow> res | Inl e \<Rightarrow> refused_read sc j (transport_coverage e))"

definition end_collection :: "job \<Rightarrow> check_result \<Rightarrow> ('a, 'k, 'n) router \<Rightarrow> ('a, 'k, 'n) router" where
  "end_collection j res r = advance_cursor j res (drop_clients j res r)"

end
