(* ===== verification/Router_Properties.thy ===== *)
theory Router_Properties
  imports Router Config_Properties Samples
begin

text \<open>
  What the router promises while collections and reloads interleave. \<open>router_step\<close> lets any task or the reload
  move by one critical section: a collection looks its scope up and inserts it under one read lock of the
  configuration, so no reload can begin between the two; a reload holds the write lock to its end, in the six steps of \<open>reload_steps\<close>.
\<close>

section \<open>Runs\<close>

datatype stage = Looking | Creating | In_scope nat

type_synonym collection = "job \<times> stage \<times> config option"

text \<open>\<open>wd_windows\<close> records, for the theorems only, each continuous log window read to its end, with the
  revision that read it.\<close>

record ('a, 'k, 'n) world =
  wd_router :: "('a, 'k, 'n) router"
  wd_reload :: "(effective \<times> nat) option"
  wd_tasks :: "collection list"
  wd_windows :: "(string \<times> string \<times> instant) list"

definition finished_window :: "job \<Rightarrow> check_result \<Rightarrow> (string \<times> string \<times> instant) list" where
  "finished_window j res =
     (if j_continuous j \<and> j_check j = CLogs \<and> cursor_complete res
      then (case j_log_end j of None \<Rightarrow> [] | Some e \<Rightarrow> [(j_revision j, t_name (j_target j), e)]) else [])"

definition restored_windows :: "effective \<Rightarrow> snapshot \<Rightarrow> (string \<times> string \<times> instant) list" where
  "restored_windows ef sn =
     map (\<lambda>res. (ef_revision ef, r_target res, Min (set (window_ends res))))
       (filter (\<lambda>res. window_ends res \<noteq> []) (restored_results sn))"

definition start_world :: "config \<Rightarrow> effective \<Rightarrow> snapshot \<Rightarrow> ('a, 'k, 'n) world" where
  "start_world cf ef sn =
     \<lparr>wd_router = restore_logs sn (new_router cf ef), wd_reload = None, wd_tasks = [],
      wd_windows = restored_windows ef sn\<rparr>"

abbreviation with_task :: "nat \<Rightarrow> collection \<Rightarrow> ('a, 'k, 'n) world \<Rightarrow> ('a, 'k, 'n) world" where
  "with_task i t w \<equiv> w\<lparr>wd_tasks := (wd_tasks w)[i := t]\<rparr>"

inductive router_step :: "('a, 'k, 'n) world \<Rightarrow> ('a, 'k, 'n) world \<Rightarrow> bool" where
  reload: "\<lbrakk>wd_reload w = None; \<forall>t \<in> set (wd_tasks w). fst (snd t) \<noteq> Creating\<rbrakk> \<Longrightarrow>
    router_step w (w\<lparr>wd_router := (wd_router w)\<lparr>ro_config := cf\<rparr>, wd_reload := Some (ef, 0)\<rparr>)"
| reloading: "\<lbrakk>wd_reload w = Some (ef, n); n < 6\<rbrakk> \<Longrightarrow>
    router_step w (w\<lparr>wd_router := (reload_steps ef ! n) (wd_router w), wd_reload := Some (ef, Suc n)\<rparr>)"
| reloaded: "wd_reload w = Some (ef, 6) \<Longrightarrow> router_step w (w\<lparr>wd_reload := None\<rparr>)"
| started: "router_step w (w\<lparr>wd_tasks := wd_tasks w @ [(select_window now j (wd_router w), Looking, None)]\<rparr>)"
| found: "\<lbrakk>wd_reload w = None; i < length (wd_tasks w); wd_tasks w ! i = (j, Looking, c);
      find_scope j (wd_router w) = Inr (Some s)\<rbrakk> \<Longrightarrow> router_step w (with_task i (j, In_scope s, c) w)"
| missing: "\<lbrakk>wd_reload w = None; i < length (wd_tasks w); wd_tasks w ! i = (j, Looking, c);
      find_scope j (wd_router w) = Inr None\<rbrakk> \<Longrightarrow> router_step w (with_task i (j, Creating, c) w)"
| created: "\<lbrakk>i < length (wd_tasks w); wd_tasks w ! i = (j, Creating, c); insert_scope j (wd_router w) = (r, s)\<rbrakk> \<Longrightarrow>
    router_step w (with_task i (j, In_scope s, c) w\<lparr>wd_router := r\<rparr>)"
| authed: "\<lbrakk>(j, In_scope s, c) \<in> set (wd_tasks w); load_auth answer j s (wd_router w) = (a, r)\<rbrakk> \<Longrightarrow>
    router_step w (w\<lparr>wd_router := r\<rparr>)"
| deduped: "\<lbrakk>(j, In_scope s, c) \<in> set (wd_tasks w); load_dedupe j s (wd_router w) = (d, r)\<rbrakk> \<Longrightarrow>
    router_step w (w\<lparr>wd_router := r\<rparr>)"
| kubed: "\<lbrakk>(j, In_scope s, c) \<in> set (wd_tasks w); \<forall>k. r_revision (collected k) = j_revision j;
      kube_collect x now answer collected j s (wd_router w) = (a, r)\<rbrakk> \<Longrightarrow> router_step w (w\<lparr>wd_router := r\<rparr>)"
| githubbed: "\<lbrakk>(j, In_scope s, c) \<in> set (wd_tasks w); \<forall>k. r_revision (collected k) = j_revision j;
      github_collect x now tokens collected j s (wd_router w) = (a, r)\<rbrakk> \<Longrightarrow> router_step w (w\<lparr>wd_router := r\<rparr>)"
| natsed: "\<lbrakk>(j, In_scope s, c) \<in> set (wd_tasks w); nats_collect connect collected j s (wd_router w) = (a, r)\<rbrakk> \<Longrightarrow>
    router_step w (w\<lparr>wd_router := r\<rparr>)"
| copied: "\<lbrakk>wd_reload w = None; i < length (wd_tasks w); wd_tasks w ! i = (j, In_scope s, c)\<rbrakk> \<Longrightarrow>
    router_step w (with_task i (j, In_scope s, Some (ro_config (wd_router w))) w)"
| discovered: "\<lbrakk>(j, In_scope s, Some cf) \<in> set (wd_tasks w); load_discovery answer cf j dr (wd_router w) = (a, k, r)\<rbrakk> \<Longrightarrow>
    router_step w (w\<lparr>wd_router := r\<rparr>)"
| undiscovered: "k < length (ro_slots (wd_router w)) \<Longrightarrow>
    router_step w (w\<lparr>wd_router := (wd_router w)\<lparr>ro_slots := (ro_slots (wd_router w))[k := None]\<rparr>\<rparr>)"
| finished: "\<lbrakk>i < length (wd_tasks w); wd_tasks w ! i = (j, st, c); st \<noteq> Creating\<rbrakk> \<Longrightarrow>
    router_step w (w\<lparr>wd_router := end_collection j res (wd_router w),
      wd_tasks := take i (wd_tasks w) @ drop (Suc i) (wd_tasks w),
      wd_windows := wd_windows w @ finished_window j res\<rparr>)"

inductive router_run :: "config \<Rightarrow> effective \<Rightarrow> snapshot \<Rightarrow> ('a, 'k, 'n) world \<Rightarrow> bool" for cf ef sn where
  begins: "router_run cf ef sn (start_world cf ef sn)"
| steps: "\<lbrakk>router_run cf ef sn w; router_step w w'\<rbrakk> \<Longrightarrow> router_run cf ef sn w'"

section \<open>What no collector changes\<close>

definition cached_for :: "string \<Rightarrow> cached_result option \<Rightarrow> bool" where
  "cached_for v slot \<longleftrightarrow> (case slot of None \<Rightarrow> True | Some c \<Rightarrow> r_revision (ca_result c) = v)"

definition scope_ok :: "('a, 'k, 'n) scope \<Rightarrow> bool" where
  "scope_ok sp \<longleftrightarrow> cached_for (sp_revision sp) (sp_kube_cache sp) \<and> cached_for (sp_revision sp) (sp_github_cache sp)"

definition heap_ok :: "('a, 'k, 'n) router \<Rightarrow> bool" where
  "heap_ok r \<longleftrightarrow> list_all scope_ok (ro_heap r)"

definition framed :: "('a, 'k, 'n) router \<Rightarrow> ('a, 'k, 'n) router \<Rightarrow> bool" where
  "framed r r' \<longleftrightarrow> ro_config r' = ro_config r \<and> ro_revision r' = ro_revision r \<and> ro_scopes r' = ro_scopes r \<and>
     ro_cursors r' = ro_cursors r \<and> map sp_revision (ro_heap r') = map sp_revision (ro_heap r) \<and> (heap_ok r \<longrightarrow> heap_ok r')"

lemma framed_refl [simp]: "framed r r"
  by (simp add: framed_def)

lemma framed_ignored [simp]:
  "framed r (r'\<lparr>ro_cache_bytes := b\<rparr>) = framed r r'" "framed r (r'\<lparr>ro_slots := xs\<rparr>) = framed r r'"
  "framed r (r'\<lparr>ro_discovery := d\<rparr>) = framed r r'"
  by (simp_all add: framed_def heap_ok_def)

lemma framed_at_scope:
  assumes "\<And>sp. sp_revision (f sp) = sp_revision sp"
    and "\<And>sp. sp = ro_heap r ! s \<Longrightarrow> s < length (ro_heap r) \<Longrightarrow> scope_ok sp \<Longrightarrow> scope_ok (f sp)"
  shows "framed r (at_scope s f r)"
proof -
  have "map sp_revision ((ro_heap r)[s := f (ro_heap r ! s)]) = map sp_revision (ro_heap r)"
    by (cases "s < length (ro_heap r)") (simp_all add: map_update assms(1) list_update_same_conv list_update_beyond)
  moreover have "heap_ok r \<longrightarrow> heap_ok (at_scope s f r)"
    using assms(2) by (cases "s < length (ro_heap r)") (auto simp: heap_ok_def list_all_length nth_list_update)
  ultimately show ?thesis by (simp add: framed_def)
qed

lemma framed_auth: "framed r (snd (load_auth answer j s r))"
  by (auto simp: load_auth_def scope_ok_def split: option.splits sum.splits intro!: framed_at_scope)

lemma framed_dedupe: "framed r (snd (load_dedupe j s r))"
  by (auto simp: load_dedupe_def scope_ok_def split: option.splits prod.splits intro!: framed_at_scope)

lemma served_same: "serve_cached now age j slot = Some (res, c) \<Longrightarrow>
    \<exists>c'. slot = Some c' \<and> ca_result c = ca_result c'"
  by (auto simp: serve_cached_def split: option.splits if_splits)

lemma kept_for: "r_revision res = v \<Longrightarrow> cached_for v (fst (keep_cached x j res b))"
  by (auto simp: keep_cached_def cached_for_def Let_def split: prod.splits bool.splits)

lemma framed_kube:
  assumes "\<forall>k. r_revision (collected k) = j_revision j" and "sp_revision (ro_heap r ! s) = j_revision j"
  shows "framed r (snd (kube_collect x now answer collected j s r))"
proof -
  let ?sp = "ro_heap r ! s"
  show ?thesis
  proof (cases "serve_cached now 30 j (sp_kube_cache ?sp)")
    case None
    obtain slots where slots: "slots = (\<lambda>k. keep_cached x j (collected k) (drop_cached (sp_kube_cache ?sp) (ro_cache_bytes r)))"
      by blast
    have kept: "cached_for (j_revision j) (fst (slots k))" for k
      using assms(1) by (simp add: slots kept_for)
    have "framed r (at_scope s (\<lambda>sp. sp\<lparr>sp_kube := Some k, sp_kube_cache := fst (slots k)\<rparr>) r)" for k
      using assms(2) kept by (intro framed_at_scope) (auto simp: scope_ok_def)
    then show ?thesis
      by (simp add: kube_collect_def None Let_def slots case_prod_beta split: option.splits sum.splits)
  next
    case (Some p)
    then obtain res c where p: "serve_cached now 30 j (sp_kube_cache ?sp) = Some (res, c)" by (cases p) auto
    from served_same [OF this] obtain c' where "sp_kube_cache ?sp = Some c'" "ca_result c = ca_result c'" by blast
    then have "framed r (at_scope s (\<lambda>sp. sp\<lparr>sp_kube_cache := Some c\<rparr>) r)"
      by (intro framed_at_scope) (auto simp: scope_ok_def cached_for_def)
    then show ?thesis by (simp add: kube_collect_def Let_def p)
  qed
qed

lemma framed_github:
  assumes "\<forall>k. r_revision (collected k) = j_revision j" and "sp_revision (ro_heap r ! s) = j_revision j"
  shows "framed r (snd (github_collect x now tokens collected j s r))"
proof (cases "j_check j = CPreflight")
  case False
  let ?sp = "ro_heap r ! s"
  show ?thesis
  proof (cases "serve_cached now (as_i64 (s_interval (j_settings j))) j (sp_github_cache ?sp)")
    case None
    obtain slots where slots: "slots = (case map_sum id collected (tokens (github_profile (ro_config r) j)) of
        Inl _ \<Rightarrow> (None, drop_cached (sp_github_cache ?sp) (ro_cache_bytes r))
      | Inr res \<Rightarrow> if result_complete res
          then keep_cached x j res (drop_cached (sp_github_cache ?sp) (ro_cache_bytes r))
          else (None, drop_cached (sp_github_cache ?sp) (ro_cache_bytes r)))"
      by blast
    have "cached_for (j_revision j) (fst slots)"
      using assms(1) by (cases "tokens (github_profile (ro_config r) j)") (auto simp: slots cached_for_def kept_for [unfolded cached_for_def])
    then have "framed r (at_scope s (\<lambda>sp. sp\<lparr>sp_github_cache := fst slots\<rparr>) r)"
      using assms(2) by (intro framed_at_scope) (auto simp: scope_ok_def)
    then show ?thesis using False
      by (simp add: github_collect_def None Let_def slots [symmetric] case_prod_beta)
  next
    case (Some p)
    then obtain res c where p: "serve_cached now (as_i64 (s_interval (j_settings j))) j (sp_github_cache ?sp) = Some (res, c)"
      by (cases p) auto
    from served_same [OF this] obtain c' where "sp_github_cache ?sp = Some c'" "ca_result c = ca_result c'" by blast
    then have "framed r (at_scope s (\<lambda>sp. sp\<lparr>sp_github_cache := Some c\<rparr>) r)"
      by (intro framed_at_scope) (auto simp: scope_ok_def cached_for_def)
    then show ?thesis using False by (simp add: github_collect_def Let_def p)
  qed
qed (simp add: github_collect_def)

lemma framed_trans: "framed r r' \<Longrightarrow> framed r' r'' \<Longrightarrow> framed r r''"
  by (simp add: framed_def)

lemma framed_nats: "framed r (snd (nats_collect connect collected j s r))"
proof -
  have load: "framed r (snd (load_nats connect j s r))"
    by (auto simp: load_nats_def scope_ok_def split: option.splits sum.splits intro!: framed_at_scope)
  obtain a r' where l: "load_nats connect j s r = (a, r')" by (cases "load_nats connect j s r") auto
  have "framed r' (at_scope s (\<lambda>sp. sp\<lparr>sp_nats := None\<rparr>) r')"
    by (rule framed_at_scope) (simp_all add: scope_ok_def)
  from framed_trans [OF _ this, of r] load show ?thesis
    by (cases a) (auto simp: nats_collect_def l Let_def)
qed

lemma framed_discovery: "framed r (snd (snd (load_discovery answer cf j dr r)))"
  by (auto simp: load_discovery_def discovery_slot_def Let_def split: option.splits sum.splits)

lemma framed_drop: "framed r (drop_clients j res r)"
  by (auto simp: drop_clients_def refuse_client_def scope_ok_def split: option.splits intro!: framed_at_scope)

section \<open>The invariant\<close>

definition before_revision :: "('a, 'k, 'n) world \<Rightarrow> bool" where
  "before_revision w \<longleftrightarrow> (case wd_reload w of None \<Rightarrow> True | Some (_, n) \<Rightarrow> n = 0)"

definition past_step :: "nat \<Rightarrow> ('a, 'k, 'n) world \<Rightarrow> bool" where
  "past_step k w \<longleftrightarrow> (case wd_reload w of None \<Rightarrow> False | Some (_, n) \<Rightarrow> k < n)"

fun task_ok :: "('a, 'k, 'n) router \<Rightarrow> collection \<Rightarrow> bool" where
  "task_ok r (j, Looking, c) \<longleftrightarrow> True"
| "task_ok r (j, Creating, c) \<longleftrightarrow> j_revision j = ro_revision r \<and> configured_target (ro_config r) j"
| "task_ok r (j, In_scope s, c) \<longleftrightarrow> s < length (ro_heap r) \<and> sp_revision (ro_heap r ! s) = j_revision j"

definition scopes_ok :: "('a, 'k, 'n) world \<Rightarrow> bool" where
  "scopes_ok w \<longleftrightarrow> (let r = wd_router w in
     (\<forall>t s. ro_scopes r t = Some s \<longrightarrow> s < length (ro_heap r)) \<and>
     (before_revision w \<longrightarrow> (\<forall>t s. ro_scopes r t = Some s \<longrightarrow> sp_revision (ro_heap r ! s) = ro_revision r)) \<and>
     (wd_reload w = None \<longrightarrow> (\<forall>t s. ro_scopes r t = Some s \<longrightarrow> t \<in> t_name ` set (cf_targets (ro_config r)))) \<and>
     (past_step 3 w \<longrightarrow> ro_scopes r = Map.empty))"

definition tasks_ok :: "('a, 'k, 'n) world \<Rightarrow> bool" where
  "tasks_ok w \<longleftrightarrow> (\<forall>t \<in> set (wd_tasks w). task_ok (wd_router w) t) \<and>
     (wd_reload w \<noteq> None \<longrightarrow> (\<forall>t \<in> set (wd_tasks w). fst (snd t) \<noteq> Creating))"

definition cursors_ok :: "('a, 'k, 'n) world \<Rightarrow> bool" where
  "cursors_ok w \<longleftrightarrow> (before_revision w \<or> past_step 4 w \<longrightarrow>
     (\<forall>t e. ro_cursors (wd_router w) t = Some e \<longrightarrow> (ro_revision (wd_router w), t, e) \<in> set (wd_windows w)))"

definition world_ok :: "('a, 'k, 'n) world \<Rightarrow> bool" where
  "world_ok w \<longleftrightarrow> scopes_ok w \<and> tasks_ok w \<and> cursors_ok w \<and> heap_ok (wd_router w)"

lemmas world_ok_defs = scopes_ok_def tasks_ok_def cursors_ok_def before_revision_def past_step_def Let_def

lemma framed_heap:
  assumes "framed r r'"
  shows "length (ro_heap r') = length (ro_heap r)"
    and "s < length (ro_heap r) \<Longrightarrow> sp_revision (ro_heap r' ! s) = sp_revision (ro_heap r ! s)"
proof -
  have m: "map sp_revision (ro_heap r') = map sp_revision (ro_heap r)" using assms by (simp add: framed_def)
  then show l: "length (ro_heap r') = length (ro_heap r)" by (rule map_eq_imp_length_eq)
  show "s < length (ro_heap r) \<Longrightarrow> sp_revision (ro_heap r' ! s) = sp_revision (ro_heap r ! s)"
    using m l by (metis nth_map)
qed

lemma framed_task: "framed r r' \<Longrightarrow> task_ok r t \<Longrightarrow> task_ok r' t"
  by (cases "(r, t)" rule: task_ok.cases) (auto simp: framed_heap, auto simp: framed_def)

lemma framed_ok:
  assumes "world_ok w" and f: "framed (wd_router w) r"
  shows "world_ok (w\<lparr>wd_router := r\<rparr>)"
proof -
  have same: "ro_config r = ro_config (wd_router w)" "ro_revision r = ro_revision (wd_router w)"
      "ro_scopes r = ro_scopes (wd_router w)" "ro_cursors r = ro_cursors (wd_router w)"
    using f by (simp_all add: framed_def)
  have "scopes_ok (w\<lparr>wd_router := r\<rparr>)"
    using assms(1) framed_heap [OF f] by (auto simp: world_ok_def world_ok_defs same split: option.splits)
  moreover have "tasks_ok (w\<lparr>wd_router := r\<rparr>)"
    using assms(1) framed_task [OF f] by (auto simp: world_ok_def tasks_ok_def)
  moreover have "cursors_ok (w\<lparr>wd_router := r\<rparr>)"
    using assms(1) by (auto simp: world_ok_def world_ok_defs same)
  moreover have "heap_ok r"
    using assms by (simp add: framed_def world_ok_def)
  ultimately show ?thesis by (simp add: world_ok_def)
qed

text \<open>Steps of a task that leave the router alone.\<close>

lemma retasked_ok:
  assumes "world_ok w" and "\<forall>t \<in> set ts. t \<in> set (wd_tasks w) \<or> task_ok (wd_router w) t \<and> (wd_reload w \<noteq> None \<longrightarrow> fst (snd t) \<noteq> Creating)"
  shows "world_ok (w\<lparr>wd_tasks := ts\<rparr>)"
proof -
  have "tasks_ok (w\<lparr>wd_tasks := ts\<rparr>)" using assms by (auto simp: world_ok_def tasks_ok_def)
  then show ?thesis using assms(1) by (simp add: world_ok_def world_ok_defs)
qed

lemma with_task_ok:
  assumes "world_ok w" and "task_ok (wd_router w) t" and "wd_reload w \<noteq> None \<longrightarrow> fst (snd t) \<noteq> Creating"
  shows "world_ok (with_task i t w)"
  using assms by (intro retasked_ok) (auto dest!: subsetD [OF set_update_subset_insert])

lemma task_of: "world_ok w \<Longrightarrow> (j, In_scope s, c) \<in> set (wd_tasks w) \<Longrightarrow>
    s < length (ro_heap (wd_router w)) \<and> sp_revision (ro_heap (wd_router w) ! s) = j_revision j"
  by (auto simp: world_ok_def tasks_ok_def)

lemma restore_fold:
  "ro_revision (fold restore_one xs r) = ro_revision r \<and> ro_scopes (fold restore_one xs r) = ro_scopes r \<and>
   ro_heap (fold restore_one xs r) = ro_heap r \<and>
   (\<forall>t e. ro_cursors (fold restore_one xs r) t = Some e \<longrightarrow> ro_cursors r t = Some e \<or>
     (\<exists>res \<in> set xs. window_ends res \<noteq> [] \<and> t = r_target res \<and> e = Min (set (window_ends res))))"
proof (induction xs arbitrary: r)
  case (Cons x xs)
  have "ro_cursors (restore_one x r) t = Some e \<Longrightarrow> ro_cursors r t = Some e \<or>
      (window_ends x \<noteq> [] \<and> t = r_target x \<and> e = Min (set (window_ends x)))" for t e
    by (auto simp: restore_one_def split: if_splits)
  moreover have "ro_revision (restore_one x r) = ro_revision r \<and> ro_scopes (restore_one x r) = ro_scopes r \<and>
      ro_heap (restore_one x r) = ro_heap r"
    by (simp add: restore_one_def)
  ultimately show ?case using Cons.IH [of "restore_one x r"] by fastforce
qed simp

lemma started_ok: "world_ok (start_world cf ef sn :: ('a, 'k, 'n) world)"
proof -
  let ?r = "new_router cf ef :: ('a, 'k, 'n) router"
  note restored = restore_fold [of "restored_results sn" ?r]
  have "(ef_revision ef, t, e) \<in> set (restored_windows ef sn)"
    if e: "ro_cursors (restore_logs sn ?r) t = Some e" for t e
  proof -
    have "ro_cursors ?r t = None" by (simp add: new_router_def)
    with e restored obtain res where "res \<in> set (restored_results sn)" "window_ends res \<noteq> []" "t = r_target res"
        "e = Min (set (window_ends res))"
      unfolding restore_logs_def by force
    then show ?thesis by (auto simp: restored_windows_def)
  qed
  then show ?thesis using restored
    by (simp add: world_ok_def world_ok_defs heap_ok_def start_world_def restore_logs_def new_router_def)
qed

lemma task_ok_stays:
  "fst (snd t) \<noteq> Creating \<Longrightarrow> ro_heap r' = ro_heap r \<Longrightarrow> task_ok r' t = task_ok r t"
  by (cases "(r, t)" rule: task_ok.cases) auto

lemma reloading_ok:
  assumes "world_ok w" and "wd_reload w = Some (ef, n)" and "n < 6"
  shows "world_ok (w\<lparr>wd_router := (reload_steps ef ! n) (wd_router w), wd_reload := Some (ef, Suc n)\<rparr>)"
proof -
  have n: "n \<in> {0, 1, 2, 3, 4, 5}" using assms(3) by auto
  have heap: "ro_heap ((reload_steps ef ! n) (wd_router w)) = ro_heap (wd_router w)"
    using n by (auto simp: reload_steps_def reload_budgets_def split: list.splits)
  have "scopes_ok (w\<lparr>wd_router := (reload_steps ef ! n) (wd_router w), wd_reload := Some (ef, Suc n)\<rparr>)"
    using n assms(1,2)
    by (auto simp: world_ok_def world_ok_defs reload_steps_def reload_budgets_def split: list.splits)
  moreover have "cursors_ok (w\<lparr>wd_router := (reload_steps ef ! n) (wd_router w), wd_reload := Some (ef, Suc n)\<rparr>)"
    using n assms(1,2)
    by (auto simp: world_ok_def world_ok_defs reload_steps_def reload_budgets_def split: list.splits)
  moreover have "tasks_ok (w\<lparr>wd_router := (reload_steps ef ! n) (wd_router w), wd_reload := Some (ef, Suc n)\<rparr>)"
    using assms(1,2) task_ok_stays [OF _ heap] by (auto simp: world_ok_def tasks_ok_def)
  ultimately show ?thesis using assms(1) heap by (simp add: world_ok_def heap_ok_def)
qed

lemma task_ok_grows:
  "ro_config r' = ro_config r \<Longrightarrow> ro_revision r' = ro_revision r \<Longrightarrow> ro_heap r' = ro_heap r @ [sp] \<Longrightarrow>
   task_ok r t \<Longrightarrow> task_ok r' t"
  by (cases "(r, t)" rule: task_ok.cases) (auto simp: nth_append)

lemma created_ok:
  assumes w: "world_ok w" and "i < length (wd_tasks w)" and "wd_tasks w ! i = (j, Creating, c)"
    and ins: "insert_scope j (wd_router w) = (r, s)"
  shows "world_ok (with_task i (j, In_scope s, c) w\<lparr>wd_router := r\<rparr>)"
proof -
  let ?w = "with_task i (j, In_scope s, c) w\<lparr>wd_router := r\<rparr>" and ?r = "wd_router w"
  have t: "(j, Creating, c) \<in> set (wd_tasks w)" using assms(2,3) nth_mem by metis
  with w have idle: "wd_reload w = None" by (cases "wd_reload w") (auto simp: world_ok_def tasks_ok_def)
  have j: "j_revision j = ro_revision ?r" "configured_target (ro_config ?r) j"
    using t w by (auto simp: world_ok_def tasks_ok_def)
  show ?thesis
  proof (cases "ro_scopes ?r (t_name (j_target j))")
    case (Some s')
    then have "r = ?r" "s = s'" using ins by (simp_all add: insert_scope_def)
    moreover have "task_ok ?r (j, In_scope s', c)"
      using Some w idle j by (auto simp: world_ok_def world_ok_defs)
    ultimately show ?thesis using with_task_ok [OF w, of "(j, In_scope s, c)" i] by simp
  next
    case None
    then have r: "r = ?r\<lparr>ro_heap := ro_heap ?r @ [new_scope j], ro_scopes := (ro_scopes ?r)(t_name (j_target j) \<mapsto> length (ro_heap ?r))\<rparr>"
      and s: "s = length (ro_heap ?r)" using ins by (auto simp: insert_scope_def)
    have new: "sp_revision (new_scope j) = ro_revision ?r" "scope_ok (new_scope j)"
      using j by (simp_all add: new_scope_def scope_ok_def cached_for_def)
    have "t_name (j_target j) \<in> t_name ` set (cf_targets (ro_config ?r))"
      using j(2) by (auto simp: configured_target_def list_ex_iff image_iff) (metis)
    then have "scopes_ok ?w" using w idle new(1) by (auto simp: world_ok_def world_ok_defs r nth_append less_Suc_eq)
    moreover have "tasks_ok ?w"
      using w idle new(1) j(1) task_ok_grows [of r ?r "new_scope j"]
      by (auto simp: world_ok_def tasks_ok_def s r dest!: subsetD [OF set_update_subset_insert])
    moreover have "cursors_ok ?w" using w by (simp add: world_ok_def world_ok_defs r)
    moreover have "heap_ok r" using w new(2) by (simp add: world_ok_def heap_ok_def r)
    ultimately show ?thesis by (simp add: world_ok_def)
  qed
qed

lemma cursor_advanced:
  assumes "ro_cursors (advance_cursor j res r) t = Some e"
  shows "(ro_revision r, t, e) \<in> set (finished_window j res) \<or> ro_cursors r t = Some e"
proof (cases "ro_revision r = j_revision j \<and> j_continuous j \<and> j_check j = CLogs \<and> cursor_complete res")
  case True
  then show ?thesis using assms
    by (cases "j_log_end j") (auto simp: advance_cursor_def finished_window_def split: if_splits)
next
  case False
  then have "advance_cursor j res r = r" unfolding advance_cursor_def by (rule if_not_P)
  then show ?thesis using assms by simp
qed

lemma finished_ok:
  assumes "world_ok w"
  shows "world_ok (w\<lparr>wd_router := end_collection j res (wd_router w),
      wd_tasks := take i (wd_tasks w) @ drop (Suc i) (wd_tasks w),
      wd_windows := wd_windows w @ finished_window j res\<rparr>)"
proof -
  let ?r = "drop_clients j res (wd_router w)"
  let ?w = "w\<lparr>wd_tasks := take i (wd_tasks w) @ drop (Suc i) (wd_tasks w)\<rparr>"
  have "world_ok ?w"
    using assms by (intro retasked_ok) (auto dest: in_set_takeD in_set_dropD)
  then have w: "world_ok (?w\<lparr>wd_router := ?r\<rparr>)" using framed_drop [of "wd_router w"] by (intro framed_ok) simp_all
  have heap: "ro_heap (advance_cursor j res ?r) = ro_heap ?r" "ro_config (advance_cursor j res ?r) = ro_config ?r"
      "ro_revision (advance_cursor j res ?r) = ro_revision ?r" "ro_scopes (advance_cursor j res ?r) = ro_scopes ?r"
    by (simp_all add: advance_cursor_def split: option.split)
  let ?w' = "w\<lparr>wd_router := advance_cursor j res ?r, wd_tasks := wd_tasks ?w,
      wd_windows := wd_windows w @ finished_window j res\<rparr>"
  have "task_ok (advance_cursor j res ?r) t = task_ok ?r t" for t
    by (cases "(?r, t)" rule: task_ok.cases) (auto simp: heap)
  then have "tasks_ok ?w'" using w by (simp add: world_ok_def tasks_ok_def)
  moreover have "scopes_ok ?w'" using w by (simp add: world_ok_def scopes_ok_def before_revision_def past_step_def Let_def heap)
  moreover have "cursors_ok ?w'"
  proof -
    have "(ro_revision ?r, t, e) \<in> set (finished_window j res) \<or> ro_cursors ?r t = Some e"
      if "ro_cursors (advance_cursor j res ?r) t = Some e" for t e
      using cursor_advanced [OF that] .
    then show ?thesis using w
      by (fastforce simp: world_ok_def cursors_ok_def before_revision_def past_step_def heap)
  qed
  moreover have "heap_ok (advance_cursor j res ?r)" using w by (simp add: world_ok_def heap_ok_def heap)
  ultimately show ?thesis by (simp add: world_ok_def end_collection_def)
qed

lemma step_ok:
  assumes "router_step w w'" and "world_ok w"
  shows "world_ok w'"
  using assms
proof (cases rule: router_step.cases)
  case (reload cf ef)
  have "task_ok ((wd_router w)\<lparr>ro_config := y\<rparr>) t = task_ok (wd_router w) t" if "fst (snd t) \<noteq> Creating" for y t
    using that by (rule task_ok_stays) simp
  with reload show ?thesis using assms(2) by (auto simp: world_ok_def world_ok_defs heap_ok_def)
next
  case (started now j)
  show ?thesis unfolding started(1) using assms(2) by (intro retasked_ok) auto
next
  case (found i j c s)
  then have "ro_scopes (wd_router w) (t_name (j_target j)) = Some s" "j_revision j = ro_revision (wd_router w)"
    by (auto simp: find_scope_def split: if_splits option.splits)
  with found assms(2) have "task_ok (wd_router w) (j, In_scope s, c)"
    by (auto simp: world_ok_def world_ok_defs)
  then show ?thesis unfolding found(1) using assms(2) by (intro with_task_ok) auto
next
  case (missing i j c)
  then have "task_ok (wd_router w) (j, Creating, c)"
    by (auto simp: find_scope_def split: if_splits option.splits)
  then show ?thesis unfolding missing(1) using assms(2) missing(2) by (intro with_task_ok) auto
next
  case (kubed j s c collected x now answer a r)
  then have "framed (wd_router w) r"
    using framed_kube task_of [OF assms(2)] by (metis snd_conv)
  then show ?thesis unfolding kubed(1) using assms(2) by (rule framed_ok [rotated])
next
  case (githubbed j s c collected x now tokens a r)
  then have "framed (wd_router w) r"
    using framed_github task_of [OF assms(2)] by (metis snd_conv)
  then show ?thesis unfolding githubbed(1) using assms(2) by (rule framed_ok [rotated])
next
  case (copied i j s c)
  then have "task_ok (wd_router w) (j, In_scope s, Some (ro_config (wd_router w)))"
    using task_of [OF assms(2), of j s c] nth_mem [of i "wd_tasks w"] by auto
  then show ?thesis unfolding copied(1) using assms(2) by (intro with_task_ok) auto
next
  case (reloading ef n)
  show ?thesis unfolding reloading(1) using assms(2) reloading(2,3) by (rule reloading_ok)
next
  case (reloaded ef)
  then show ?thesis using assms(2) by (simp add: world_ok_def world_ok_defs)
next
  case (created i j c r s)
  show ?thesis unfolding created(1) using assms(2) created(2-) by (rule created_ok)
next
  case (authed j s c answer a r)
  then have "framed (wd_router w) r" using framed_auth by (metis snd_conv)
  then show ?thesis unfolding authed(1) using assms(2) by (rule framed_ok [rotated])
next
  case (deduped j s c d r)
  then have "framed (wd_router w) r" using framed_dedupe by (metis snd_conv)
  then show ?thesis unfolding deduped(1) using assms(2) by (rule framed_ok [rotated])
next
  case (natsed j s c connect collected a r)
  then have "framed (wd_router w) r" using framed_nats by (metis snd_conv)
  then show ?thesis unfolding natsed(1) using assms(2) by (rule framed_ok [rotated])
next
  case (discovered j s cf answer dr a k r)
  then have "framed (wd_router w) r" using framed_discovery by (metis snd_conv)
  then show ?thesis unfolding discovered(1) using assms(2) by (rule framed_ok [rotated])
next
  case (undiscovered k)
  then show ?thesis using framed_ok [OF assms(2), of "(wd_router w)\<lparr>ro_slots := (ro_slots (wd_router w))[k := None]\<rparr>"]
    by simp
next
  case (finished i j st c res)
  show ?thesis unfolding finished(1) using assms(2) by (rule finished_ok)
qed


lemma run_ok: "router_run cf ef sn w \<Longrightarrow> world_ok w"
  by (induction rule: router_run.induct) (rule started_ok, erule (1) step_ok)

section \<open>Properties\<close>

text \<open>C15: However collections, authentications, discoveries and reloads interleave: when no reload is under way, every
  scope the router hands out was made for the current revision and for a configured target, every result it shares
  between checks was collected under that revision, and every log cursor is the end of a window that was read to
  its end, or restored, under that revision.\<close>

theorem caches_follow_the_revision:
  assumes "router_run cf ef sn w" and "wd_reload w = None"
  defines "r \<equiv> wd_router w"
  shows "(\<forall>t s. ro_scopes r t = Some s \<longrightarrow>
      sp_revision (ro_heap r ! s) = ro_revision r \<and> t \<in> t_name ` set (cf_targets (ro_config r)) \<and>
      (\<forall>c. sp_kube_cache (ro_heap r ! s) = Some c \<or> sp_github_cache (ro_heap r ! s) = Some c \<longrightarrow>
         r_revision (ca_result c) = ro_revision r)) \<and>
    (\<forall>t e. ro_cursors r t = Some e \<longrightarrow> (ro_revision r, t, e) \<in> set (wd_windows w))"
proof -
  have ok: "world_ok w" using assms(1) by (rule run_ok)
  have "cached_for (ro_revision r) (sp_kube_cache (ro_heap r ! s)) \<and>
      cached_for (ro_revision r) (sp_github_cache (ro_heap r ! s))" if t: "ro_scopes r t = Some s" for t s
  proof -
    have "scopes_ok w" "heap_ok r" using ok by (simp_all add: world_ok_def r_def)
    then have "s < length (ro_heap r)" and "sp_revision (ro_heap r ! s) = ro_revision r"
      using assms(2) t by (auto simp: scopes_ok_def before_revision_def Let_def r_def)
    then show ?thesis using \<open>heap_ok r\<close> unfolding heap_ok_def list_all_length scope_ok_def by metis
  qed
  then show ?thesis using ok assms(2)
    by (fastforce simp: world_ok_def scopes_ok_def cursors_ok_def before_revision_def Let_def cached_for_def r_def)
qed

section \<open>A run\<close>

definition scoped_world :: "instant \<Rightarrow> job \<Rightarrow> ('a, 'k, 'n) world \<Rightarrow> ('a, 'k, 'n) world" where
  "scoped_world now j w =
     w\<lparr>wd_tasks := [(select_window now j (wd_router w), In_scope (snd (insert_scope j (wd_router w))), None)],
       wd_router := fst (insert_scope j (wd_router w))\<rparr>"

lemma select_window_same [simp]:
  "j_target (select_window now j r) = j_target j" "j_revision (select_window now j r) = j_revision j"
  "new_scope (select_window now j r) = new_scope j"
  "configured_target cf (select_window now j r) = configured_target cf j"
  by (simp_all add: select_window_def new_scope_def configured_target_def)

lemma insert_scope_same [simp]: "insert_scope (select_window now j r) = insert_scope j"
  unfolding insert_scope_def select_window_same ..

lemma find_scope_same [simp]: "find_scope (select_window now j r) = find_scope j"
  unfolding find_scope_def select_window_same ..

lemma run_scoped:
  assumes run: "router_run cf ef sn w" and idle: "wd_reload w = None" "wd_tasks w = []"
    and room: "find_scope j (wd_router w) = Inr None"
  shows "router_run cf ef sn (scoped_world now j w)"
proof -
  let ?j = "select_window now j (wd_router w)"
  have "router_run cf ef sn (w\<lparr>wd_tasks := [(?j, Looking, None)]\<rparr>)"
    using router_run.steps [OF run router_step.started [of w now j]] idle by simp
  then have "router_run cf ef sn (w\<lparr>wd_tasks := [(?j, Creating, None)]\<rparr>)"
    using router_step.missing [where w = "w\<lparr>wd_tasks := [(?j, Looking, None)]\<rparr>" and i = 0 and j = ?j and c = None] idle room
    by (auto intro: router_run.steps)
  from router_run.steps [OF this router_step.created [where i = 0 and j = ?j and c = None]] show ?thesis
    by (cases "insert_scope j (wd_router w)") (simp add: scoped_world_def)
qed

definition reloaded_world :: "config \<Rightarrow> effective \<Rightarrow> ('a, 'k, 'n) world \<Rightarrow> ('a, 'k, 'n) world" where
  "reloaded_world cf ef w =
     w\<lparr>wd_router := fold (\<lambda>f. f) (reload_steps ef) ((wd_router w)\<lparr>ro_config := cf\<rparr>)\<rparr>"

lemma run_reloaded:
  assumes run: "router_run cf ef sn w" and idle: "wd_reload w = None" "\<forall>t \<in> set (wd_tasks w). fst (snd t) \<noteq> Creating"
  shows "router_run cf ef sn (reloaded_world cf' ef' w)"
proof -
  let ?w = "\<lambda>n. w\<lparr>wd_router := fold (\<lambda>f. f) (take n (reload_steps ef')) ((wd_router w)\<lparr>ro_config := cf'\<rparr>),
      wd_reload := Some (ef', n)\<rparr>"
  have six: "length (reload_steps ef') = 6" for ef' by (simp add: reload_steps_def)
  have "n \<le> 6 \<Longrightarrow> router_run cf ef sn (?w n)" for n
  proof (induction n)
    case 0
    show ?case using router_run.steps [OF run router_step.reload [OF idle, where cf = cf' and ef = ef']] by simp
  next
    case (Suc n)
    then have "router_run cf ef sn (?w n)" by simp
    from router_run.steps [OF this router_step.reloading [where ef = ef' and n = n]] Suc.prems
    show ?case by (simp add: take_Suc_conv_app_nth six)
  qed
  then have "router_run cf ef sn (?w 6)" by blast
  from router_run.steps [OF this router_step.reloaded [where ef = ef']] show ?thesis
    using idle(1) by (cases w) (simp add: reloaded_world_def six)
qed

definition logs_job :: job where
  "logs_job = preflight_job\<lparr>j_check := CLogs, j_continuous := True\<rparr>"

definition logs_result :: check_result where
  "logs_result = (result_failure ''prod'' CLogs ''r1'' Complete 5)\<lparr>r_observations :=
     [\<lparr>o_context = None, o_resource = ''prod/logs'', o_operation = ''logs'', o_observed_at = 5, o_expected = Active,
       o_data = LogWindow 0 0 5 0 0 10 True\<rparr>]\<rparr>"

definition first_world :: "config \<Rightarrow> (credential option, unit, unit) world" where
  "first_world cf = start_world cf sample_effective sample_snapshot"

definition read_world :: "(credential option, unit, unit) world" where
  "read_world =
     (let w = scoped_world 5 logs_job (first_world sample_config); j = fst (hd (wd_tasks w))
      in w\<lparr>wd_router := end_collection j logs_result (wd_router w), wd_tasks := [],
          wd_windows := wd_windows w @ finished_window j logs_result\<rparr>)"

lemma logs_job_simps [simp]:
  "j_target logs_job = sample_target" "j_revision logs_job = ''r1''" "j_continuous logs_job" "j_check logs_job = CLogs"
  by (simp_all add: logs_job_def preflight_job_def new_job_def sample_selection_def)

lemma first_world_simps [simp]:
  "wd_reload (first_world cf) = None" "wd_tasks (first_world cf) = []" "wd_windows (first_world cf) = []"
  "ro_scopes (wd_router (first_world cf)) = Map.empty" "ro_heap (wd_router (first_world cf)) = []"
  "ro_revision (wd_router (first_world cf)) = ''r1''" "ro_config (wd_router (first_world cf)) = cf"
  "ro_slots (wd_router (first_world cf)) = []"
  by (simp_all add: first_world_def start_world_def restored_windows_def restore_logs_def restored_results_def
      new_router_def sample_snapshot_def sample_effective_def)

lemma first_run:
  assumes "cf_targets cf = [sample_target]" and "j_target j = sample_target" and "j_revision j = ''r1''"
  shows "router_run cf sample_effective sample_snapshot (scoped_world now j (first_world cf))"
proof (rule run_scoped)
  show "router_run cf sample_effective sample_snapshot (first_world cf)"
    unfolding first_world_def by (rule router_run.begins)
  show "find_scope j (wd_router (first_world cf)) = Inr None"
    using assms by (simp add: find_scope_def configured_target_def)
qed simp_all

lemma read_run: "router_run sample_config sample_effective sample_snapshot read_world"
proof -
  let ?w = "scoped_world 5 logs_job (first_world sample_config)"
  have "router_run sample_config sample_effective sample_snapshot ?w" by (rule first_run) simp_all
  moreover obtain j s where t: "wd_tasks ?w = [(j, In_scope s, None)]" by (simp add: scoped_world_def)
  ultimately show ?thesis
    using router_step.finished [where w = ?w and i = 0 and j = j and st = "In_scope s" and c = None and res = logs_result]
    by (auto simp: read_world_def t Let_def intro: router_run.steps)
qed

theorem caches_follow_the_revision_witness:
  "ro_cursors (wd_router read_world) ''prod'' = Some 5 \<and> (''r1'', ''prod'', 5) \<in> set (wd_windows read_world) \<and>
   sp_revision (ro_heap (wd_router read_world) ! 0) = ''r1''"
proof -
  let ?r = "wd_router (first_world sample_config)"
  have done_: "cursor_complete logs_result"
    by (simp add: cursor_complete_def logs_result_def window_complete_def result_failure_def)
  have idle: "wd_reload read_world = None" by (simp add: read_world_def scoped_world_def Let_def)
  note current = caches_follow_the_revision [OF read_run idle]
  have drop: "drop_clients j logs_result r = r" for j and r :: "(credential option, unit, unit) router"
    by (simp add: drop_clients_def logs_result_def result_failure_def)
  have "ro_cursors (wd_router read_world) ''prod'' = Some 5" and "ro_scopes (wd_router read_world) ''prod'' = Some 0"
    and "ro_revision (wd_router read_world) = ''r1''"
    using done_ by (simp_all add: read_world_def scoped_world_def Let_def end_collection_def drop advance_cursor_def
        select_window_def insert_scope_def sample_target_def)
  then show ?thesis using current by auto
qed

section \<open>Discovery is not covered\<close>

definition profile_with :: "string \<Rightarrow> credential" where
  "profile_with path = \<lparr>c_google_federation = None, c_credential_file = Some path, c_provider = Gcp, c_profile = None,
     c_tenant = None, c_role_arn = None, c_expected_identity = None, c_token_env = None\<rparr>"

definition config_with :: "string \<Rightarrow> config" where
  "config_with path = sample_config\<lparr>cf_credentials := [(''reader'', profile_with path)],
     cf_discovery := [\<lparr>dr_provider = Gcp, dr_scope = ''folder'', dr_credential = Some ''reader''\<rparr>]\<rparr>"

abbreviation folder :: discovery_root where
  "folder \<equiv> \<lparr>dr_provider = Gcp, dr_scope = ''folder'', dr_credential = Some ''reader''\<rparr>"

lemma folder_profile [simp]: "discovery_profile (config_with path) j folder = Some (profile_with path)"
  by (simp add: discovery_profile_def discovery_credential_def obind_def config_with_def)

text \<open>C37: A discovery copies the configuration and gives the lock back. After a reload has emptied the cache of
  discovery clients it loads a client with the old profile, under a key the new revision uses as well.\<close>

theorem obsolete_discovery_survives_reload:
  "\<exists>w s. router_run (config_with ''old'') sample_effective sample_snapshot (w :: (credential option, unit, unit) world) \<and>
     wd_reload w = None \<and> ro_revision (wd_router w) = ''r2'' \<and>
     discovery_profile (ro_config (wd_router w)) logs_job folder = Some (profile_with ''new'') \<and>
     ro_discovery (wd_router w) (discovery_key logs_job folder) = Some s \<and>
     ro_slots (wd_router w) ! s = Some (Some (profile_with ''old''))"
proof -
  let ?old = "config_with ''old''" and ?new = "config_with ''new''"
  let ?ef = "sample_effective\<lparr>ef_revision := ''r2''\<rparr>" and ?run = "router_run (config_with ''old'') sample_effective sample_snapshot"
  let ?w1 = "scoped_world 5 logs_job (first_world ?old)"
  obtain j s where t: "wd_tasks ?w1 = [(j, In_scope s, None)]" by (simp add: scoped_world_def)
  let ?w2 = "?w1\<lparr>wd_tasks := [(j, In_scope s, Some ?old)]\<rparr>" and ?w3 = "reloaded_world ?new ?ef"
  have "?run ?w1" by (rule first_run) (simp_all add: config_with_def)
  moreover have "wd_reload ?w1 = None" "ro_config (wd_router ?w1) = ?old"
    by (simp_all add: scoped_world_def insert_scope_def)
  ultimately have "?run ?w2"
    using router_step.copied [where w = ?w1 and i = 0 and j = j and s = s and c = None] t
    by (auto intro: router_run.steps)
  from run_reloaded [OF this] \<open>wd_reload ?w1 = None\<close> have w3: "?run (?w3 ?w2)" by simp
  let ?r = "wd_router (?w3 ?w2)"
  have r: "ro_revision ?r = ''r2''" "ro_config ?r = ?new" "ro_discovery ?r = Map.empty" "wd_reload (?w3 ?w2) = None"
      "wd_tasks (?w3 ?w2) = [(j, In_scope s, Some ?old)]"
    using \<open>wd_reload ?w1 = None\<close>
    by (auto simp: reloaded_world_def reload_steps_def reload_budgets_def split: list.splits)
  have key: "discovery_key j folder = discovery_key logs_job folder"
    by (simp add: discovery_key_def discovery_credential_def)
  obtain a k r' where load: "load_discovery (\<lambda>p _. Inr p) ?old j folder ?r = (a, k, r')"
    by (cases "load_discovery (\<lambda>p _. Inr p :: transport_error + credential option) ?old j folder ?r") auto
  have "?run ((?w3 ?w2)\<lparr>wd_router := r'\<rparr>)"
    using router_run.steps [OF w3 router_step.discovered [OF _ load]] r(5) by simp
  moreover have "ro_discovery r' (discovery_key logs_job folder) = Some (length (ro_slots ?r))"
      "ro_slots r' ! length (ro_slots ?r) = Some (Some (profile_with ''old''))" "ro_revision r' = ''r2''" "ro_config r' = ?new"
    using load r by (auto simp: load_discovery_def discovery_slot_def key Let_def nth_append)
  ultimately show ?thesis using r(4) by (intro exI [of _ "(?w3 ?w2)\<lparr>wd_router := r'\<rparr>"] exI) simp
qed

end
