(* ===== verification/Dashboard_Facts.thy ===== *)
theory Dashboard_Facts
  imports Projection
begin

text \<open>
  What the server shows of one observation: the facts of \<open>crates/server/src/facts.rs\<close> and
  \<open>facts_metadata.rs\<close>, and the links of \<open>console_links.rs\<close> and \<open>log_links.rs\<close>. How chrono and the standard library
  print times and floating-point numbers is a parameter, \<open>text_api\<close>, as is the JSON text of a string.
\<close>

section \<open>Printing\<close>

record text_api =
  tx_time :: "instant \<Rightarrow> string"
  tx_fixed :: "nat \<Rightarrow> f64 \<Rightarrow> string"
  tx_float :: "f64 \<Rightarrow> string"
  tx_quote :: "string \<Rightarrow> string option"
  tx_lower :: "string \<Rightarrow> string"

definition show_bool :: "bool \<Rightarrow> string" where
  "show_bool b = (if b then ''true'' else ''false'')"

fun service_state_name :: "service_state \<Rightarrow> string" where
  "service_state_name SReady = ''Ready''" | "service_state_name SStarting = ''Starting''"
| "service_state_name SStopped = ''Stopped''" | "service_state_name SFailed = ''Failed''"
| "service_state_name SUnknown = ''Unknown''"

fun health_name :: "health \<Rightarrow> string" where
  "health_name Healthy = ''Healthy''" | "health_name Degraded = ''Degraded''"
| "health_name Unhealthy = ''Unhealthy''" | "health_name Unknown = ''Unknown''"
| "health_name ExpectedInactive = ''ExpectedInactive''"

fun log_class_debug :: "log_class \<Rightarrow> string" where
  "log_class_debug LImport = ''Import''" | "log_class_debug LPanic = ''Panic''"
| "log_class_debug LOutOfMemory = ''OutOfMemory''" | "log_class_debug LConnection = ''Connection''"
| "log_class_debug LPermission = ''Permission''" | "log_class_debug LTimeout = ''Timeout''"
| "log_class_debug LWarning = ''Warning''" | "log_class_debug LOtherError = ''OtherError''"

text \<open>\<open>facts_metadata::known\<close>.\<close>

definition known :: "bool option \<Rightarrow> string" where
  "known v = (case v of None \<Rightarrow> ''Unknown'' | Some True \<Rightarrow> ''Yes'' | Some False \<Rightarrow> ''No'')"

section \<open>Facts\<close>

record fact =
  fa_label :: string
  fa_value :: string

abbreviation one_fact :: "string \<Rightarrow> string \<Rightarrow> fact list" where
  "one_fact l v \<equiv> [\<lparr>fa_label = l, fa_value = v\<rparr>]"

definition fact_if :: "string \<Rightarrow> ('a \<Rightarrow> string) \<Rightarrow> 'a option \<Rightarrow> fact list" where
  "fact_if l f x = (case x of None \<Rightarrow> [] | Some v \<Rightarrow> one_fact l (f v))"

fun metadata_facts :: "text_api \<Rightarrow> data \<Rightarrow> fact list" where
  "metadata_facts tx (Certificate issued expires) =
     one_fact ''Issued'' (known issued) @ fact_if ''Expires'' (tx_time tx) expires"
| "metadata_facts tx (Synchronization ready synced interval) =
     one_fact ''Synchronized'' (known ready) @ fact_if ''Last synchronized'' (tx_time tx) synced @
     fact_if ''Refresh interval'' (\<lambda>n. show_nat n @ '' s'') interval"
| "metadata_facts tx (Recovery attempt state enabled success retention pitr geo) =
     one_fact ''Recovery state'' (service_state_name state) @ one_fact ''Enabled'' (known enabled) @
     fact_if ''Last attempt'' (tx_time tx) attempt @ fact_if ''Last success'' (tx_time tx) success @
     fact_if ''Retention'' (\<lambda>n. show_nat n @ '' days'') retention @
     one_fact ''Point-in-time recovery'' (known pitr) @ one_fact ''Geo redundant'' (known geo)"
| "metadata_facts tx (Job _ _ whole failed attempts succeeded active _) =
     one_fact ''Job state'' (if whole \<and> failed then ''Invalid terminal conditions'' else if whole then ''Completed''
                         else if failed then ''Failed'' else ''In progress'') @
     one_fact ''Successful completions'' (show_nat succeeded) @ one_fact ''Failed attempts'' (show_nat attempts) @
     one_fact ''Active attempts'' (show_nat active)"
| "metadata_facts tx (Schedule _ _ _ schedule timezone suspended _ last_schedule last_success) =
     one_fact ''Schedule'' schedule @ one_fact ''Timezone'' timezone @ one_fact ''Suspended'' (show_bool suspended) @
     fact_if ''Last scheduled'' (tx_time tx) last_schedule @ fact_if ''Last success'' (tx_time tx) last_success"
| "metadata_facts tx (Log signature n first_seen last_seen sampled) =
     one_fact ''Diagnostic'' (log_class_debug signature) @ one_fact ''Matching entries'' (show_nat n) @
     one_fact ''First seen'' (tx_time tx first_seen) @ one_fact ''Last seen'' (tx_time tx last_seen) @
     one_fact ''Sampled'' (show_bool sampled)"
| "metadata_facts tx (LogWindow gap start stop scanned duplicates limit whole) =
     one_fact ''Window start'' (tx_time tx start) @ one_fact ''Window end'' (tx_time tx stop) @
     one_fact ''Sample count'' (show_nat scanned @ '' / '' @ show_nat limit) @ one_fact ''Duplicates'' (show_nat duplicates) @
     one_fact ''Complete window'' (show_bool whole) @ one_fact ''Missing window'' (show_nat gap @ '' s'')"
| "metadata_facts tx (Commit repository revision reference) =
     one_fact ''Repository'' repository @ one_fact ''Commit'' revision @ fact_if ''Reference'' id reference"
| "metadata_facts tx (Artifact _ _ img digest tags _ _ built _) =
     one_fact ''Image'' img @ one_fact ''Digest'' digest @ one_fact ''Tags'' (join_with '', '' tags) @
     one_fact ''Build confirmed'' (show_bool built)"
| "metadata_facts tx (Provenance _ observed desired pending revision repository registry build commit mismatch) =
     one_fact ''Desired image digest'' (unwrap_or ''Not recorded'' desired) @
     one_fact ''Observed image digests'' (if observed = [] then ''Not recorded'' else join_with '', '' observed) @
     fact_if ''Source repository'' id repository @ one_fact ''Registry verified'' (show_bool registry) @
     one_fact ''Build verified'' (show_bool build) @ one_fact ''Commit verified'' (show_bool commit) @
     one_fact ''Deployment pending'' (show_bool pending) @ one_fact ''Revision mismatch'' (show_bool mismatch) @
     fact_if ''Revision'' id revision"
| "metadata_facts tx (Slo goal compliance budget rate _) =
     one_fact ''Goal'' (tx_fixed tx 3 (f_mul goal (Fin 100)) @ ''%'') @
     fact_if ''Compliance'' (\<lambda>c. tx_fixed tx 3 (f_mul c (Fin 100)) @ ''%'') compliance @
     fact_if ''Budget'' (tx_fixed tx 3) budget @ fact_if ''Burn rate'' (tx_fixed tx 3) rate"
| "metadata_facts tx (SloDefinition name goal _) =
     one_fact ''Objective'' name @ fact_if ''Goal'' (\<lambda>g. tx_fixed tx 3 (f_mul g (Fin 100)) @ ''%'') goal"
| "metadata_facts tx (KeyMetadata enabled purpose rotates expires) =
     one_fact ''Enabled'' (known enabled) @ fact_if ''Purpose'' id purpose @
     fact_if ''Next rotation'' (tx_time tx) rotates @ fact_if ''Expires'' (tx_time tx) expires"
| "metadata_facts tx (Maintenance w pending) =
     one_fact ''Pending maintenance'' (show_bool pending) @ fact_if ''Window'' id w"
| "metadata_facts tx (NetworkPolicy direction allows_public protocols ports priority) =
     fact_if ''Direction'' id direction @ one_fact ''Public access'' (known allows_public) @
     one_fact ''Protocols'' (join_with '', '' protocols) @ one_fact ''Ports'' (join_with '', '' ports) @
     fact_if ''Priority'' show_nat priority"
| "metadata_facts tx (Quota region code limit _) =
     one_fact ''Quota'' code @ one_fact ''Region'' region @ one_fact ''Limit'' (tx_fixed tx 2 limit)"
| "metadata_facts tx (Progress state) = one_fact ''Progress'' (health_name state)"
| "metadata_facts tx (Activity operation state event) =
     one_fact ''Operation'' operation @ one_fact ''State'' (service_state_name state) @ fact_if ''Event time'' (tx_time tx) event"
| "metadata_facts tx (Registry host) = one_fact ''Registry'' host"
| "metadata_facts tx (LogWorkspace workspace resource) = one_fact ''Workspace'' workspace @ one_fact ''Resource'' resource"
| "metadata_facts tx (MetricResource resource namespace) = one_fact ''Resource'' resource @ one_fact ''Metric namespace'' namespace"
| "metadata_facts tx (AdvertisedEndpoint u) = one_fact ''Advertised endpoint'' u"
| "metadata_facts tx _ = []"

fun data_facts :: "text_api \<Rightarrow> data \<Rightarrow> fact list" where
  "data_facts tx (Workload desired ready _ draining _) =
     one_fact ''Ready replicas'' (show_nat ready @ '' / '' @ show_nat desired) @
     (if draining then one_fact ''Lifecycle'' ''Draining'' else [])"
| "data_facts tx (Pod uid container ready restarts crash_loop created terminated) =
     one_fact ''Container'' container @ one_fact ''Pod UID'' uid @ fact_if ''Created'' (tx_time tx) created @
     fact_if ''Last termination'' (tx_time tx) terminated @ one_fact ''Ready'' (show_bool ready) @
     one_fact ''Restarts'' (show_nat restarts) @ (if crash_loop then one_fact ''Runtime'' ''Crash loop'' else [])"
| "data_facts tx (Endpoint dns tls status accepted latency expires) =
     one_fact ''DNS'' (if dns then ''Resolved'' else ''Unavailable'') @ one_fact ''TLS'' (if tls then ''Trusted'' else ''Unavailable'') @
     one_fact ''HTTP status'' (case status of None \<Rightarrow> ''Unavailable'' | Some n \<Rightarrow> show_nat n) @
     one_fact ''Accepted HTTP statuses''
       (if accepted = [] then ''Below 500 (reachability only)'' else join_with '', '' (map show_nat accepted)) @
     one_fact ''Latency'' (show_nat latency @ '' ms'') @ fact_if ''Certificate expires'' (tx_time tx) expires"
| "data_facts tx (Queue backlog _ ready desired _ _ age dead) =
     one_fact ''Backlog'' (tx_fixed tx 0 backlog) @ one_fact ''Ready workers'' (show_nat ready @ '' / '' @ show_nat desired) @
     fact_if ''Oldest age'' (\<lambda>a. tx_fixed tx 0 a @ '' s'') age @ fact_if ''Dead letters'' (tx_fixed tx 0) dead"
| "data_facts tx (Metric name v capacity warning err seconds) =
     one_fact name (tx_fixed tx 2 v) @ fact_if ''Warning threshold'' (tx_float tx) warning @
     fact_if ''Error threshold'' (tx_float tx) err @ one_fact ''Evaluation window'' (show_nat seconds @ '' seconds'') @
     fact_if ''Capacity'' (tx_fixed tx 2) capacity"
| "data_facts tx (Service state replicas backup encrypted) =
     one_fact ''Service state'' (service_state_name state) @ fact_if ''Replicas'' show_nat replicas @
     fact_if ''Backups'' show_bool backup @ fact_if ''Encrypted'' show_bool encrypted"
| "data_facts tx (Build _ pipeline revision _ state _) =
     one_fact ''Pipeline'' pipeline @ one_fact ''Revision'' revision @ one_fact ''Build state'' (service_state_name state)"
| "data_facts tx (Image desired observed _) =
     one_fact ''Desired image'' desired @ fact_if ''Observed digest'' id observed"
| "data_facts tx (Condition rl healthy) =
     one_fact ''Condition'' (map (\<lambda>c. if c = CHR ''-'' then CHR '' '' else c) rl) @
     one_fact ''Healthy'' (case healthy of None \<Rightarrow> ''Unknown'' | Some b \<Rightarrow> show_bool b)"
| "data_facts tx (Inventory family supported) =
     one_fact ''Family'' family @ one_fact ''Coverage'' (if supported then ''Supported metadata'' else ''Inventory only'')"
| "data_facts tx (Identity scope) = one_fact ''Identity'' scope"
| "data_facts tx d = metadata_facts tx d"

section \<open>Links\<close>

record link =
  li_label :: string
  li_url :: string

text \<open>\<open>url_encoded\<close>: form encoding of the bytes, with \<open>%20\<close> for a space.\<close>

definition upper_hex :: "nat \<Rightarrow> char" where
  "upper_hex n = (if n < 10 then char_of (48 + n) else char_of (55 + n))"

definition encode_byte :: "char \<Rightarrow> string" where
  "encode_byte c =
     (if is_ascii_alphanumeric c \<or> c \<in> {CHR ''*'', CHR ''-'', CHR ''.'', CHR ''_''} then [c]
      else [CHR ''%'', upper_hex (of_char c div 16), upper_hex (of_char c mod 16)])"

definition url_encoded :: "string \<Rightarrow> string" where
  "url_encoded s = concat (map encode_byte s)"

definition last_part :: "char \<Rightarrow> string \<Rightarrow> string" where
  "last_part c s = last (split_on c s)"

definition unlinkable :: "string \<Rightarrow> bool" where
  "unlinkable s \<longleftrightarrow> s = [] \<or> 2048 < length s \<or> has_control s"

definition link_name :: "resource_context \<Rightarrow> string" where
  "link_name c = unwrap_or (last_part CHR ''/'' (rc_native_id c)) (rc_name c)"

definition azure_link :: "resource_context \<Rightarrow> string \<times> string" where
  "azure_link c =
     (if starts_with (map to_ascii_lowercase (rc_native_id c))
           (''/subscriptions/'' @ map to_ascii_lowercase (rc_scope c) @ ''/'')
      then (''Open in Azure'',
            ''https://portal.azure.com/#resource'' @ join_with ''/'' (map url_encoded (split_on CHR ''/'' (rc_native_id c))) @ ''/overview'')
      else (''Open Azure subscription'',
            ''https://portal.azure.com/#resource/subscriptions/'' @ url_encoded (rc_scope c) @ ''/overview''))"

definition trim_end_s :: "string \<Rightarrow> string" where
  "trim_end_s s = rev (dropWhile (\<lambda>c. c = CHR ''s'') (rev s))"

definition gcp_path :: "resource_context \<Rightarrow> string option" where
  "gcp_path c =
     (let resource = url_encoded (link_name c); s = rc_service c; region = map_option url_encoded (rc_region c);
          location = map_option url_encoded (case rc_zone c of Some z \<Rightarrow> Some z | None \<Rightarrow> rc_region c);
          placed = (\<lambda>f. case (location, rc_cluster c, rc_namespace c, rc_name c) of
             (Some l, Some cl, Some ns, Some n) \<Rightarrow> Some (f l (url_encoded cl) (url_encoded ns) (url_encoded n))
           | _ \<Rightarrow> None)
      in if s = ''sql'' \<or> s = ''sql-instances'' then Some (''sql/instances/'' @ resource @ ''/overview'')
         else if s = ''buckets'' then Some (''storage/browser/'' @ resource)
         else if s = ''builds'' \<or> s = ''build-details''
         then map_option (\<lambda>r. ''cloud-build/builds;region='' @ r @ ''/'' @ resource) region
         else if s = ''instances'' \<or> s = ''compute-instances''
         then map_option (\<lambda>z. ''compute/instancesDetail/zones/'' @ url_encoded z @ ''/instances/'' @ resource) (rc_zone c)
         else if s = ''run'' \<or> s = ''cloud-run''
         then map_option (\<lambda>r. ''run/detail/'' @ r @ ''/'' @ resource @ ''/metrics'') region
         else if s = ''clusters''
         then map_option (\<lambda>r. ''kubernetes/clusters/details/'' @ r @ ''/'' @ resource @ ''/details'') location
         else if s = ''topics'' \<or> s = ''pubsub-topics'' then Some (''cloudpubsub/topic/detail/'' @ resource)
         else if s = ''subscriptions'' \<or> s = ''pubsub-subscriptions'' then Some (''cloudpubsub/subscription/detail/'' @ resource)
         else if s = ''redis''
         then map_option (\<lambda>r. ''memorystore/redis/locations/'' @ r @ ''/instances/'' @ resource @ ''/details'') region
         else if s = ''pods''
         then placed (\<lambda>l cl ns n. ''kubernetes/pod/'' @ l @ ''/'' @ cl @ ''/'' @ ns @ ''/'' @ n @ ''/details'')
         else if s = ''deployments'' \<or> s = ''statefulsets'' \<or> s = ''daemonsets'' \<or> s = ''jobs'' \<or> s = ''cronjobs''
         then placed (\<lambda>l cl ns n. ''kubernetes/'' @ trim_end_s s @ ''/'' @ l @ ''/'' @ cl @ ''/'' @ ns @ ''/'' @ n @ ''/overview'')
         else if s = ''dns-zones'' then Some (''net-services/dns/zones/'' @ resource @ ''/details'')
         else if s = ''secrets'' then Some (''security/secret-manager/secret/'' @ resource @ ''/details'')
         else if s = ''alert-policies'' then Some (''monitoring/alerting/policies/'' @ resource)
         else if s = ''scheduler'' then map_option (\<lambda>r. ''cloudscheduler/jobs/edit/'' @ r @ ''/'' @ resource) region
         else None)"

definition gcp_link :: "resource_context \<Rightarrow> string \<times> string" where
  "gcp_link c =
     (case gcp_path c of
        Some path \<Rightarrow>
          (''Open in Google Cloud'', ''https://console.cloud.google.com/'' @ path @ ''?project='' @ url_encoded (rc_scope c))
      | None \<Rightarrow>
          (''Find in Google Cloud'',
           ''https://console.cloud.google.com/search?project='' @ url_encoded (rc_scope c) @ ''&q='' @ url_encoded (rc_native_id c)))"

definition aws_host :: "resource_context \<Rightarrow> string" where
  "aws_host c =
     (case rc_region c of
        Some r \<Rightarrow>
          if list_all (\<lambda>b. is_ascii_lowercase b \<or> is_ascii_digit b \<or> b = CHR ''-'') r
          then ''https://'' @ r @ ''.console.aws.amazon.com'' else ''https://console.aws.amazon.com''
      | None \<Rightarrow> ''https://console.aws.amazon.com'')"

definition aws_path :: "resource_context \<Rightarrow> string option" where
  "aws_path c =
     (let s = rc_service c; name = url_encoded (link_name c); tail = url_encoded (last_part CHR '':'' (rc_native_id c))
      in if s = ''instances'' \<or> s = ''ec2'' then Some (''ec2/home#InstanceDetails:instanceId='' @ name)
         else if s = ''volumes'' \<or> s = ''ebs'' then Some (''ec2/home#VolumeDetails:volumeId='' @ name)
         else if s = ''buckets'' \<or> s = ''s3'' then Some (''s3/buckets/'' @ name)
         else if s = ''functions'' \<or> s = ''lambda'' then Some (''lambda/home#/functions/'' @ tail)
         else if s = ''eks'' \<or> s = ''clusters'' then Some (''eks/home#/clusters/'' @ name)
         else if s = ''ecs-clusters'' then Some (''ecs/v2/clusters/'' @ name)
         else if s = ''ecr'' then Some (''ecr/repositories/private/'' @ url_encoded (rc_scope c) @ ''/'' @ name)
         else if s = ''rds'' \<or> s = ''rds-instances'' \<or> s = ''databases''
         then Some (''rds/home#database:id='' @ tail @ '';is-cluster=false'')
         else if s = ''sqs'' \<or> s = ''sqs-attributes'' then Some (''sqs/v3/home#/queues/'' @ url_encoded (rc_native_id c))
         else None)"

definition aws_link :: "resource_context \<Rightarrow> string \<times> string" where
  "aws_link c =
     (case aws_path c of
        Some path \<Rightarrow> (''Open in AWS'', aws_host c @ ''/'' @ path)
      | None \<Rightarrow> (''Open AWS console'', aws_host c @ ''/console/home''))"

definition context_link :: "resource_context \<Rightarrow> (string \<times> string) option" where
  "context_link c =
     (case rc_provider c of
        Azure \<Rightarrow> Some (azure_link c) | Gcp \<Rightarrow> Some (gcp_link c) | Aws \<Rightarrow> Some (aws_link c) | _ \<Rightarrow> None)"

definition console_links :: "resource_context option \<Rightarrow> link list" where
  "console_links context =
     (case context of
        None \<Rightarrow> []
      | Some c \<Rightarrow>
          if unlinkable (rc_native_id c) \<or> unlinkable (rc_scope c) then []
          else (case context_link c of None \<Rightarrow> [] | Some (l, u) \<Rightarrow> [\<lparr>li_label = l, li_url = u\<rparr>]))"

section \<open>Log links\<close>

definition log_filters :: "text_api \<Rightarrow> resource_context \<Rightarrow> string list \<times> bool" where
  "log_filters tx c =
     (let quoted = (\<lambda>field v. case obind v (tx_quote tx) of
                      None \<Rightarrow> [] | Some q \<Rightarrow> [''resource.labels.'' @ field @ ''='' @ q]);
          name = (case rc_name c of Some n \<Rightarrow> Some n | None \<Rightarrow> Some (last_part CHR ''/'' (rc_native_id c)));
          s = rc_service c
      in if rc_namespace c \<noteq> None
         then ([''resource.type=\"k8s_container\"''] @ quoted ''namespace_name'' (rc_namespace c) @
               quoted ''cluster_name'' (rc_cluster c) @ quoted ''container_name'' (rc_container c) @
               (if s = ''pods'' \<or> s = ''logs'' then quoted ''pod_name'' (rc_name c) else []),
               (s = ''pods'' \<or> s = ''logs'') \<and> rc_name c \<noteq> None \<and> rc_cluster c \<noteq> None)
         else if s = ''cloud-run'' \<or> s = ''run''
         then (let q = quoted ''service_name'' name in ([''resource.type=\"cloud_run_revision\"''] @ q, q \<noteq> []))
         else if s = ''sql'' \<or> s = ''sql-instances''
         then (let q = quoted ''database_id'' (map_option (\<lambda>n. rc_scope c @ '':'' @ n) name)
               in ([''resource.type=\"cloudsql_database\"''] @ q, q \<noteq> []))
         else ([], False))"

definition log_window_links :: "text_api \<Rightarrow> resource_context option \<Rightarrow> instant \<Rightarrow> instant \<Rightarrow> link list" where
  "log_window_links tx context start stop =
     (case context of
        None \<Rightarrow> []
      | Some c \<Rightarrow>
          if rc_provider c \<noteq> Gcp \<or> rc_scope c = [] \<or> 128 < length (rc_scope c) \<or> has_control (rc_scope c) then []
          else (let (filters, scoped) = log_filters tx c;
                    all = [''timestamp >= \"'' @ tx_time tx start @ [CHR 0x22], ''timestamp < \"'' @ tx_time tx stop @ [CHR 0x22]] @ filters
                in [\<lparr>li_label = (if scoped then ''View incident logs''
                       else if rc_namespace c \<noteq> None \<and> rc_cluster c \<noteq> None then ''View namespace logs in this window''
                       else ''View project logs in this window''),
                     li_url = ''https://console.cloud.google.com/logs/query;query='' @ url_encoded (join_with [CHR 0x0A] all) @
                       ''?project='' @ url_encoded (rc_scope c)\<rparr>]))"

definition log_links :: "text_api \<Rightarrow> resource_context option \<Rightarrow> data \<Rightarrow> link list" where
  "log_links tx context d =
     (case d of
        Log _ _ first_seen last_seen _ \<Rightarrow>
          log_window_links tx context (first_seen - 60 * nanos_per_sec) (last_seen + 60 * nanos_per_sec)
      | LogWindow _ start stop _ _ _ _ \<Rightarrow> log_window_links tx context start stop
      | _ \<Rightarrow> [])"

definition incident_links :: "text_api \<Rightarrow> resource_context option \<Rightarrow> instant \<Rightarrow> link list" where
  "incident_links tx context t = log_window_links tx context (t - 300 * nanos_per_sec) (t + 300 * nanos_per_sec)"

end
