(* ===== verification/Facts_Properties.thy ===== *)
theory Facts_Properties
  imports Dashboard_Facts
begin

text \<open>Where the links of the dashboard lead.\<close>

section \<open>Addresses\<close>

definition url_char :: "char \<Rightarrow> bool" where
  "url_char c \<longleftrightarrow> is_ascii_alphanumeric c \<or> c \<in> set ''*-._%/:;=?&#''"

definition region_char :: "char \<Rightarrow> bool" where
  "region_char c \<longleftrightarrow> is_ascii_lowercase c \<or> is_ascii_digit c \<or> c = CHR ''-''"

definition url_host :: "string \<Rightarrow> string option" where
  "url_host u = map_option (takeWhile (\<lambda>c. c \<noteq> CHR ''/'')) (strip_prefix ''https://'' u)"

definition console_host :: "string \<Rightarrow> bool" where
  "console_host h \<longleftrightarrow> h \<in> {''portal.azure.com'', ''console.cloud.google.com'', ''console.aws.amazon.com''} \<or>
     is_some_and (list_all region_char) (strip_suffix ''.console.aws.amazon.com'' h)"

definition console_url :: "string \<Rightarrow> bool" where
  "console_url u \<longleftrightarrow> is_some_and console_host (url_host u) \<and> list_all url_char u"

lemma url_chars [simp]:
  "url_char CHR ''a''" "url_char CHR ''b''" "url_char CHR ''c''" "url_char CHR ''d''" "url_char CHR ''e''"
  "url_char CHR ''f''" "url_char CHR ''g''" "url_char CHR ''h''" "url_char CHR ''i''" "url_char CHR ''j''"
  "url_char CHR ''k''" "url_char CHR ''l''" "url_char CHR ''m''" "url_char CHR ''n''" "url_char CHR ''o''"
  "url_char CHR ''p''" "url_char CHR ''q''" "url_char CHR ''r''" "url_char CHR ''s''" "url_char CHR ''t''"
  "url_char CHR ''u''" "url_char CHR ''v''" "url_char CHR ''w''" "url_char CHR ''x''" "url_char CHR ''y''"
  "url_char CHR ''z''" "url_char CHR ''A''" "url_char CHR ''B''" "url_char CHR ''C''" "url_char CHR ''D''"
  "url_char CHR ''E''" "url_char CHR ''F''" "url_char CHR ''G''" "url_char CHR ''H''" "url_char CHR ''I''"
  "url_char CHR ''J''" "url_char CHR ''K''" "url_char CHR ''L''" "url_char CHR ''M''" "url_char CHR ''N''"
  "url_char CHR ''O''" "url_char CHR ''P''" "url_char CHR ''Q''" "url_char CHR ''R''" "url_char CHR ''S''"
  "url_char CHR ''T''" "url_char CHR ''U''" "url_char CHR ''V''" "url_char CHR ''W''" "url_char CHR ''X''"
  "url_char CHR ''Y''" "url_char CHR ''Z''" "url_char CHR ''0''" "url_char CHR ''1''" "url_char CHR ''2''"
  "url_char CHR ''3''" "url_char CHR ''4''" "url_char CHR ''5''" "url_char CHR ''6''" "url_char CHR ''7''"
  "url_char CHR ''8''" "url_char CHR ''9''" "url_char CHR ''*''" "url_char CHR ''-''" "url_char CHR ''.''"
  "url_char CHR ''_''" "url_char CHR ''%''" "url_char CHR ''/''" "url_char CHR '':''" "url_char CHR '';''"
  "url_char CHR ''=''" "url_char CHR ''?''" "url_char CHR ''&''" "url_char CHR ''#''"
  by (simp_all add: url_char_def is_ascii_alphanumeric_def char_classes less_eq_char_def)

lemma hex_alphanumeric: "n < 16 \<Longrightarrow> is_ascii_alphanumeric (upper_hex n)"
  by (cases "n < 10") (auto simp: upper_hex_def is_ascii_alphanumeric_def char_classes less_eq_char_def)

lemma encode_byte_ok: "list_all url_char (encode_byte c)"
proof -
  have "(of_char c :: nat) div 16 < 16" "(of_char c :: nat) mod 16 < 16"
    using of_char_mod_256 [where ?'a = nat, of c] by (simp_all add: less_mult_imp_div_less)
  then show ?thesis by (auto simp: encode_byte_def url_char_def hex_alphanumeric)
qed

lemma url_encoded_ok [simp]: "list_all url_char (url_encoded s)"
  by (induction s) (simp_all add: url_encoded_def encode_byte_ok)

lemma join_url_ok: "list_all url_char p \<Longrightarrow> list_all (list_all url_char) xs \<Longrightarrow> list_all url_char (join_with p xs)"
  by (induction p xs rule: join_with.induct) simp_all

lemma region_url_ok: "list_all region_char r \<Longrightarrow> list_all url_char r"
  by (auto simp: list_all_iff region_char_def url_char_def is_ascii_alphanumeric_def)

lemma azure_ok: "console_url (snd (azure_link c))"
proof -
  have "list_all (list_all url_char) (map url_encoded xs)" for xs by (simp add: list_all_iff url_encoded_ok [unfolded list_all_iff])
  then show ?thesis
    by (simp add: azure_link_def console_url_def url_host_def strip_prefix_def starts_with_def is_some_and_def console_host_def
        join_url_ok)
qed

definition path_ok :: "string option \<Rightarrow> bool" where
  "path_ok x \<longleftrightarrow> (case x of None \<Rightarrow> True | Some u \<Rightarrow> list_all url_char u)"

lemma path_ok_if: "(b \<Longrightarrow> path_ok x) \<Longrightarrow> path_ok y \<Longrightarrow> path_ok (if b then x else y)"
  by simp

lemma path_ok_map: "(\<And>r. path_ok (Some r) \<Longrightarrow> path_ok (Some (f r))) \<Longrightarrow> path_ok x \<Longrightarrow> path_ok (map_option f x)"
  by (cases x) (simp_all add: path_ok_def)

lemma path_ok_simps [simp]:
  "path_ok None" "path_ok (Some u) \<longleftrightarrow> list_all url_char u" "path_ok (map_option url_encoded x)"
  by (cases x; simp add: path_ok_def)+

lemma path_ok_zone: "path_ok (map_option (\<lambda>z. ''compute/instancesDetail/zones/'' @ url_encoded z @ ''/instances/'' @ url_encoded n) x)"
  by (cases x) simp_all

lemma path_ok_placed:
  assumes "\<And>l cl ns n. list_all url_char l \<Longrightarrow> list_all url_char (f l (url_encoded cl) (url_encoded ns) (url_encoded n))"
  shows "path_ok (case (map_option url_encoded a, x, y, z) of
      (Some l, Some cl, Some ns, Some n) \<Rightarrow> Some (f l (url_encoded cl) (url_encoded ns) (url_encoded n)) | _ \<Rightarrow> None)"
  using assms by (auto split: option.split)

lemma trimmed_ok:
  "s \<in> {''deployments'', ''statefulsets'', ''daemonsets'', ''jobs'', ''cronjobs''} \<Longrightarrow> list_all url_char (trim_end_s s)"
  by (auto simp: trim_end_s_def)

lemma gcp_path_ok: "gcp_path c = Some u \<Longrightarrow> list_all url_char u"
proof -
  have "path_ok (gcp_path c)"
    unfolding gcp_path_def Let_def
    by (rule path_ok_if path_ok_simps(1) path_ok_simps(3) path_ok_zone path_ok_placed path_ok_map | simp add: trimmed_ok)+
  then show "gcp_path c = Some u \<Longrightarrow> list_all url_char u" by simp
qed

lemma gcp_ok: "console_url (snd (gcp_link c))"
  by (auto simp: gcp_link_def console_url_def url_host_def strip_prefix_def starts_with_def is_some_and_def console_host_def
      gcp_path_ok split: option.split)

lemma aws_path_ok: "aws_path c = Some path \<Longrightarrow> list_all url_char path"
  by (auto simp: aws_path_def Let_def split: if_splits)

lemma aws_host_ok: "list_all url_char p \<Longrightarrow> console_url (aws_host c @ ''/'' @ p)"
proof -
  assume p: "list_all url_char p"
  have plain: "console_url (''https://console.aws.amazon.com'' @ ''/'' @ p)"
    using p by (simp add: console_url_def url_host_def strip_prefix_def starts_with_def is_some_and_def console_host_def)
  have "console_url ((''https://'' @ r @ ''.console.aws.amazon.com'') @ ''/'' @ p)" if r: "list_all region_char r" for r
  proof -
    have host: "takeWhile (\<lambda>c. c \<noteq> CHR ''/'') ((r @ ''.console.aws.amazon.com'') @ ''/'' @ p) = r @ ''.console.aws.amazon.com''"
      using r by (subst takeWhile_append2) (auto simp: list_all_iff region_char_def is_ascii_lowercase_def is_ascii_digit_def)
    have "strip_suffix ''.console.aws.amazon.com'' (r @ ''.console.aws.amazon.com'') = Some r"
      by (simp add: strip_suffix_Some)
    then have "console_host (r @ ''.console.aws.amazon.com'')" using r by (simp add: console_host_def is_some_and_def)
    moreover have "url_host ((''https://'' @ r @ ''.console.aws.amazon.com'') @ ''/'' @ p) = Some (r @ ''.console.aws.amazon.com'')"
      using host strip_prefix_Some [of "''https://''" "(''https://'' @ r @ ''.console.aws.amazon.com'') @ ''/'' @ p"]
      by (auto simp: url_host_def)
    ultimately show ?thesis using region_url_ok [OF r] p by (simp add: console_url_def is_some_and_def)
  qed
  then show ?thesis using plain
    by (auto simp: aws_host_def region_char_def [abs_def, symmetric] split: option.split)
qed

lemma aws_ok: "console_url (snd (aws_link c))"
  using aws_host_ok [of "''console/home''" c] aws_host_ok [OF aws_path_ok, of c _ c]
  by (auto simp: aws_link_def split: option.split)

lemma window_link_ok: "l \<in> set (log_window_links tx context a b) \<Longrightarrow> console_url (li_url l)"
  by (auto simp: log_window_links_def Let_def console_url_def url_host_def strip_prefix_def starts_with_def
      is_some_and_def console_host_def split: option.splits if_splits prod.splits)

lemma log_links_ok: "l \<in> set (log_links tx c d) \<Longrightarrow> console_url (li_url l)"
  by (cases d) (simp_all add: log_links_def window_link_ok)

lemma context_link_ok: "context_link c = Some (a, u) \<Longrightarrow> console_url u"
  using azure_ok [of c] gcp_ok [of c] aws_ok [of c]
  by (cases "rc_provider c") (simp_all add: context_link_def)

lemma console_links_ok: "l \<in> set (console_links context) \<Longrightarrow> console_url (li_url l)"
  by (cases "context") (auto simp: console_links_def context_link_ok split: option.splits if_splits)

section \<open>Property\<close>

text \<open>C31: Whatever text a provider put into a resource, every link shown for it leads over HTTPS to the console of
  that cloud, and holds no character that could end an attribute or a line.\<close>

theorem links_lead_to_consoles:
  assumes "l \<in> set (console_links context) \<union> set (log_links tx context d) \<union> set (incident_links tx context t)"
  shows "is_some_and console_host (url_host (li_url l)) \<and> list_all url_char (li_url l)"
proof -
  have "console_url (li_url l)"
    using assms console_links_ok log_links_ok window_link_ok unfolding incident_links_def by blast
  then show ?thesis by (simp add: console_url_def)
qed

definition hostile_context :: resource_context where
  "hostile_context = \<lparr>rc_provider = Aws, rc_scope = ''acct'', rc_service = ''s3'', rc_native_id = ''b'',
     rc_region = Some ''evil.example/'', rc_zone = None, rc_cluster = None, rc_namespace = None,
     rc_name = Some ''<a>'', rc_uid = None, rc_container = None, rc_reason = None, rc_exit_code = None\<rparr>"

theorem links_lead_to_consoles_witness:
  "console_links (Some hostile_context) =
     [\<lparr>li_label = ''Open in AWS'', li_url = ''https://console.aws.amazon.com/s3/buckets/%3Ca%3E''\<rparr>] \<and>
   list_all url_char ''https://console.aws.amazon.com/s3/buckets/%3Ca%3E''"
proof -
  have links: "console_links (Some hostile_context) =
      [\<lparr>li_label = ''Open in AWS'', li_url = ''https://console.aws.amazon.com/s3/buckets/%3Ca%3E''\<rparr>]"
    by code_simp
  then show ?thesis
    using links_lead_to_consoles [of "hd (console_links (Some hostile_context))" "Some hostile_context"]
    by simp
qed

end
