(* ===== verification/Dashboard.thy ===== *)
theory Dashboard
  imports Dashboard_Facts Settings Config_Types
begin

text \<open>
  The views the server publishes: \<open>crates/server/src/view.rs\<close>, \<open>build_view.rs\<close>, \<open>build_resources.rs\<close> with
  \<open>resource_evidence.rs\<close>, and what the overview and the resource list make of them (\<open>overview.rs\<close>,
  \<open>problem_groups.rs\<close>, \<open>resource_rows.rs\<close>). Sums of times are unbounded; chrono ends the process beyond its range.
\<close>

section \<open>Views\<close>

record view_evidence =
  ev_id :: string
  ev_check :: check
  ev_operation :: string
  ev_observed_at :: instant
  ev_expires_at :: instant
  ev_context :: "resource_context option"
  ev_facts :: "fact list"

record resource_view =
  rv_checks :: "check list"
  rv_context :: "resource_context option"
  rv_links :: "link list"
  rv_evidence :: "view_evidence list"
  rv_id :: string
  rv_target :: string
  rv_check :: check
  rv_health :: health
  rv_expected :: expected
  rv_observed_at :: instant
  rv_expires_at :: instant
  rv_facts :: "fact list"
  rv_search :: string

record diagnostic_view =
  dv_first_detected_at :: "instant option"
  dv_last_detected_at :: instant
  dv_context :: "resource_context option"
  dv_facts :: "fact list"
  dv_links :: "link list"

record finding_view =
  fv_check :: "check option"
  fv_diagnostic :: "diagnostic_view option"
  fv_id :: string
  fv_target :: string
  fv_resource :: string
  fv_rule :: string
  fv_severity :: severity
  fv_observed_at :: instant
  fv_valid_until :: "instant option"
  fv_expected :: expected
  fv_confidence :: confidence
  fv_stale :: bool
  fv_evidence :: "string list"

record failure =
  fl_operation :: string
  fl_coverage :: coverage
  fl_required :: bool

record check_view =
  cv_required :: bool
  cv_started_at :: "instant option"
  cv_required_failures :: usize
  cv_optional_gaps :: usize
  cv_prerequisite :: bool
  cv_operations :: "operation list"
  cv_key :: string
  cv_target :: string
  cv_check :: check
  cv_interval_seconds :: u64
  cv_finished_at :: "instant option"
  cv_expires_at :: "instant option"
  cv_complete :: bool
  cv_observations :: usize
  cv_failures :: "failure list"

record target_view =
  tv_name :: string
  tv_provider :: provider
  tv_scope :: string
  tv_regions :: "string list"

record result_stamp =
  st_revision :: string
  st_started_at :: instant
  st_finished_at :: instant

record view =
  vw_generation :: u64
  vw_revision :: string
  vw_captured_at :: instant
  vw_targets :: "target_view list"
  vw_checks :: "check_view list"
  vw_resources :: "resource_view list"
  vw_findings :: "finding_view list"
  vw_result_stamps :: "(string, result_stamp) bmap"
  vw_persistence_fault :: bool
  vw_dropped_transitions :: u64

definition stamp_of :: "check_result \<Rightarrow> result_stamp" where
  "stamp_of r = \<lparr>st_revision = r_revision r, st_started_at = r_started_at r, st_finished_at = r_finished_at r\<rparr>"

definition stamp_matches :: "result_stamp \<Rightarrow> check_result \<Rightarrow> bool" where
  "stamp_matches s r \<longleftrightarrow>
     st_revision s = r_revision r \<and> st_started_at s = r_started_at r \<and> st_finished_at s = r_finished_at r"

definition finding_source :: "finding_view \<Rightarrow> finding" where
  "finding_source f =
     \<lparr>f_diagnostic = None, f_check = None, f_id = fv_id f, f_resource = fv_resource f, f_rule = fv_rule f,
      f_severity = fv_severity f, f_evidence = fv_evidence f, f_observed_at = fv_observed_at f,
      f_expected = fv_expected f, f_confidence = fv_confidence f, f_stale = fv_stale f, f_clear_count = 0,
      f_valid_until = fv_valid_until f\<rparr>"

definition current_health :: "health \<Rightarrow> instant \<Rightarrow> instant \<Rightarrow> health" where
  "current_health h expires now = (if expires < now then Unknown else h)"

text \<open>\<open>at + Duration::seconds(n as i64)\<close>.\<close>

definition seconds_after :: "u64 \<Rightarrow> instant \<Rightarrow> instant" where
  "seconds_after n t = t + as_i64 n * nanos_per_sec"

definition result_freshness :: "snapshot \<Rightarrow> job \<Rightarrow> u64" where
  "result_freshness sn j = unwrap_or (freshness (j_settings j)) (bm_get (sn_freshness sn) (j_key j))"

section \<open>Evidence\<close>

text \<open>The index behind \<open>mem::discriminant\<close>.\<close>

fun data_index :: "data \<Rightarrow> nat" where
  "data_index (Activity _ _ _) = 0" | "data_index (NetworkPolicy _ _ _ _ _) = 1" | "data_index (KeyMetadata _ _ _ _) = 2"
| "data_index (Maintenance _ _) = 3" | "data_index (Synchronization _ _ _) = 4" | "data_index (Registry _) = 5"
| "data_index (Artifact _ _ _ _ _ _ _ _ _) = 6" | "data_index (Commit _ _ _) = 7"
| "data_index (Provenance _ _ _ _ _ _ _ _ _ _) = 8" | "data_index (SloDefinition _ _ _) = 9" | "data_index (Slo _ _ _ _ _) = 10"
| "data_index (LogWorkspace _ _) = 11" | "data_index (LogWindow _ _ _ _ _ _ _) = 12" | "data_index (Certificate _ _) = 13"
| "data_index (Recovery _ _ _ _ _ _ _) = 14" | "data_index (MetricResource _ _) = 15" | "data_index (Quota _ _ _ _) = 16"
| "data_index (Progress _) = 17" | "data_index (Scaler _ _ _ _ _ _) = 18" | "data_index (Owner _ _) = 19"
| "data_index (AdvertisedEndpoint _) = 20" | "data_index (Endpoint _ _ _ _ _ _) = 21" | "data_index (Job _ _ _ _ _ _ _ _) = 22"
| "data_index (Workload _ _ _ _ _) = 23" | "data_index (Pod _ _ _ _ _ _ _) = 24" | "data_index (Schedule _ _ _ _ _ _ _ _ _) = 25"
| "data_index (Queue _ _ _ _ _ _ _ _) = 26" | "data_index (Service _ _ _ _) = 27" | "data_index (Metric _ _ _ _ _ _) = 28"
| "data_index (Build _ _ _ _ _ _) = 29" | "data_index (Image _ _ _) = 30" | "data_index (Log _ _ _ _ _) = 31"
| "data_index (Inventory _ _) = 32" | "data_index (Condition _ _) = 33" | "data_index (Identity _) = 34"

definition evidence_id :: "check \<Rightarrow> observation \<Rightarrow> string" where
  "evidence_id c ob =
     (let component = (case o_data ob of Pod uid container _ _ _ _ _ \<Rightarrow> uid @ ''/'' @ container | _ \<Rightarrow> [])
      in check_name c @ ''/'' @ o_operation ob @ ''/Discriminant('' @ show_nat (data_index (o_data ob)) @ '')/'' @ component)"

definition evidence_view :: "text_api \<Rightarrow> observation \<Rightarrow> check \<Rightarrow> instant \<Rightarrow> view_evidence" where
  "evidence_view tx ob c expires =
     \<lparr>ev_id = evidence_id c ob, ev_check = c, ev_operation = o_operation ob, ev_observed_at = o_observed_at ob,
      ev_expires_at = expires, ev_context = o_context ob, ev_facts = data_facts tx (o_data ob)\<rparr>"

fun put_evidence :: "view_evidence \<Rightarrow> view_evidence list \<Rightarrow> view_evidence list" where
  "put_evidence e [] = [e]"
| "put_evidence e (old # es) =
     (if ev_id old = ev_id e then (if ev_observed_at old < ev_observed_at e then e else old) # es
      else old # put_evidence e es)"

definition attach_evidence :: "view_evidence \<Rightarrow> resource_view \<Rightarrow> resource_view" where
  "attach_evidence e r =
     r\<lparr>rv_checks := (if ev_check e \<in> set (rv_checks r) then rv_checks r else rv_checks r @ [ev_check e]),
       rv_context := (if rv_context r = None then ev_context e else rv_context r),
       rv_evidence := put_evidence e (rv_evidence r)\<rparr>"

text \<open>\<open>DiagnosticView::from\<close>.\<close>

definition diagnostic_of :: "text_api \<Rightarrow> diagnostic \<Rightarrow> diagnostic_view" where
  "diagnostic_of tx d =
     (let ob = d_observation d; context = o_context ob
      in \<lparr>dv_first_detected_at = d_first_detected_at d, dv_last_detected_at = d_last_detected_at d, dv_context = context,
          dv_facts = data_facts tx (o_data ob) @
            fact_if ''Previous restart count (same container UID)'' show_nat (d_previous_restarts d) @
            (case o_data ob of
               Pod _ _ _ _ _ _ _ \<Rightarrow> one_fact ''Startup grace'' (show_nat (d_grace_seconds d) @ '' seconds'')
             | Workload _ _ _ _ _ \<Rightarrow> one_fact ''Startup grace'' (show_nat (d_grace_seconds d) @ '' seconds'')
             | _ \<Rightarrow> []),
          dv_links = console_links context @ log_links tx context (o_data ob) @
            (case o_data ob of
               Log _ _ _ _ _ \<Rightarrow> []
             | LogWindow _ _ _ _ _ _ _ \<Rightarrow> []
             | _ \<Rightarrow> incident_links tx context (d_last_detected_at d))\<rparr>)"

section \<open>Resources\<close>

definition shown_until :: "snapshot \<Rightarrow> job \<Rightarrow> observation \<Rightarrow> instant" where
  "shown_until sn j ob =
     (let t = seconds_after (result_freshness sn j) (o_observed_at ob)
      in case o_data ob of Provenance until _ _ _ _ _ _ _ _ _ \<Rightarrow> min t until | _ \<Rightarrow> t)"

definition new_resource :: "text_api \<Rightarrow> snapshot \<Rightarrow> job \<Rightarrow> observation \<Rightarrow> resource_view" where
  "new_resource tx sn j ob =
     \<lparr>rv_checks = [], rv_context = o_context ob, rv_links = [], rv_evidence = [], rv_id = o_resource ob,
      rv_target = t_name (j_target j), rv_check = j_check j,
      rv_health = unwrap_or Unknown (bm_get (sn_health sn) (o_resource ob)), rv_expected = o_expected ob,
      rv_observed_at = o_observed_at ob, rv_expires_at = shown_until sn j ob,
      rv_facts = data_facts tx (o_data ob), rv_search = []\<rparr>"

definition newer_observation :: "text_api \<Rightarrow> snapshot \<Rightarrow> job \<Rightarrow> observation \<Rightarrow> resource_view \<Rightarrow> resource_view" where
  "newer_observation tx sn j ob r =
     (if rv_observed_at r < o_observed_at ob
      then r\<lparr>rv_observed_at := o_observed_at ob, rv_expires_at := shown_until sn j ob,
             rv_facts := data_facts tx (o_data ob), rv_check := j_check j,
             rv_context := (case o_context ob of Some c \<Rightarrow> Some c | None \<Rightarrow> rv_context r)\<rparr>
      else r)"

definition is_relation :: "data \<Rightarrow> bool" where
  "is_relation d = (case d of Owner _ _ \<Rightarrow> True | Scaler _ _ _ _ _ _ \<Rightarrow> True | _ \<Rightarrow> False)"

definition add_observation ::
  "text_api \<Rightarrow> snapshot \<Rightarrow> job \<Rightarrow> observation \<Rightarrow> (string, resource_view) bmap \<Rightarrow> (string, resource_view) bmap" where
  "add_observation tx sn j ob m =
     (if is_relation (o_data ob) then m
      else bm_put (o_resource ob)
             (attach_evidence (evidence_view tx ob (j_check j) (shown_until sn j ob))
                (newer_observation tx sn j ob (unwrap_or (new_resource tx sn j ob) (bm_get m (o_resource ob))))) m)"

definition job_observations :: "snapshot \<Rightarrow> job \<Rightarrow> observation list" where
  "job_observations sn j = (case bm_get (sn_results sn) (j_key j) of None \<Rightarrow> [] | Some r \<Rightarrow> r_observations r)"

definition add_job :: "text_api \<Rightarrow> snapshot \<Rightarrow> job \<Rightarrow> (string, resource_view) bmap \<Rightarrow> (string, resource_view) bmap" where
  "add_job tx sn j m = fold (add_observation tx sn j) (job_observations sn j) m"

text \<open>A failed inventory may no longer contain a resource whose finding is still active.\<close>

definition finding_resource :: "text_api \<Rightarrow> job \<Rightarrow> finding \<Rightarrow> diagnostic \<Rightarrow> resource_view" where
  "finding_resource tx j f d =
     (let ob = d_observation d; expires = seconds_after (freshness (j_settings j)) (o_observed_at ob);
          e = evidence_view tx ob (j_check j) expires
      in \<lparr>rv_checks = [j_check j], rv_context = o_context ob, rv_links = [], rv_evidence = [e], rv_id = f_resource f,
          rv_target = t_name (j_target j), rv_check = j_check j, rv_health = Unknown, rv_expected = f_expected f,
          rv_observed_at = o_observed_at ob, rv_expires_at = expires, rv_facts = ev_facts e, rv_search = []\<rparr>)"

definition add_finding ::
  "text_api \<Rightarrow> effective \<Rightarrow> finding \<Rightarrow> (string, resource_view) bmap \<Rightarrow> (string, resource_view) bmap" where
  "add_finding tx ef f m =
     (case f_diagnostic f of
        None \<Rightarrow> m
      | Some d \<Rightarrow>
          (case List.find (\<lambda>j. f_check f = Some (j_check j) \<and> starts_with (f_resource f) (t_name (j_target j) @ ''/'')) (ef_jobs ef) of
             None \<Rightarrow> m
           | Some j \<Rightarrow> if bm_has m (f_resource f) then m else bm_put (f_resource f) (finding_resource tx j f d) m))"

definition search_text :: "text_api \<Rightarrow> resource_view \<Rightarrow> string" where
  "search_text tx r =
     tx_lower tx (join_with '' ''
       (rv_id r # concat (map (\<lambda>e. concat (map (\<lambda>f. [fa_label f, fa_value f]) (ev_facts e))) (rv_evidence r)))) @
     (case rv_context r of
        None \<Rightarrow> []
      | Some c \<Rightarrow> tx_lower tx ('' '' @ join_with '' '' [rc_scope c, rc_native_id c, unwrap_or [] (rc_region c),
                                   unwrap_or [] (rc_namespace c), unwrap_or [] (rc_cluster c)]))"

definition finish_resource :: "text_api \<Rightarrow> resource_view \<Rightarrow> resource_view" where
  "finish_resource tx r =
     r\<lparr>rv_links := console_links (rv_context r), rv_checks := sort (rv_checks r), rv_search := search_text tx r\<rparr>"

definition catalog :: "text_api \<Rightarrow> snapshot \<Rightarrow> effective \<Rightarrow> (string, resource_view) bmap" where
  "catalog tx sn ef =
     fold (add_finding tx ef) (map snd (sn_findings sn)) (fold (add_job tx sn) (ef_jobs ef) [])"

definition build_resources :: "text_api \<Rightarrow> snapshot \<Rightarrow> effective \<Rightarrow> resource_view list" where
  "build_resources tx sn ef = map (\<lambda>(_, r). finish_resource tx r) (catalog tx sn ef)"

section \<open>The view\<close>

definition target_views :: "effective \<Rightarrow> target_view list" where
  "target_views ef =
     map snd (fold (\<lambda>j m. if bm_has m (t_name (j_target j)) then m
                         else bm_put (t_name (j_target j))
                                \<lparr>tv_name = t_name (j_target j), tv_provider = t_provider (j_target j),
                                 tv_scope = t_scope (j_target j), tv_regions = t_regions (j_target j)\<rparr> m) (ef_jobs ef) [])"

text \<open>\<open>build_view::target\<close>; \<open>max_by_key\<close> returns the last of the longest names.\<close>

fun last_longest :: "string list \<Rightarrow> string option" where
  "last_longest [] = None"
| "last_longest (x # xs) =
     (case last_longest xs of None \<Rightarrow> Some x | Some y \<Rightarrow> if length y < length x then Some x else Some y)"

definition target_of :: "string \<Rightarrow> target_view list \<Rightarrow> string" where
  "target_of resource ts =
     unwrap_or ''unknown'' (last_longest (filter (\<lambda>n. starts_with resource (n @ ''/'')) (map tv_name ts)))"

definition finding_view_of :: "text_api \<Rightarrow> target_view list \<Rightarrow> finding \<Rightarrow> finding_view" where
  "finding_view_of tx ts f =
     \<lparr>fv_check = f_check f, fv_diagnostic = map_option (diagnostic_of tx) (f_diagnostic f), fv_id = f_id f,
      fv_target = target_of (f_resource f) ts, fv_resource = f_resource f, fv_rule = f_rule f,
      fv_severity = f_severity f, fv_observed_at = f_observed_at f, fv_valid_until = f_valid_until f,
      fv_expected = f_expected f, fv_confidence = f_confidence f, fv_stale = f_stale f, fv_evidence = f_evidence f\<rparr>"

definition failures_of :: "check_result option \<Rightarrow> failure list" where
  "failures_of res =
     (case res of
        None \<Rightarrow> []
      | Some r \<Rightarrow> map (\<lambda>p. \<lparr>fl_operation = op_id p, fl_coverage = op_coverage p, fl_required = op_required p\<rparr>)
                    (filter (\<lambda>p. op_coverage p \<noteq> Complete) (r_operations r)))"

definition check_view_of :: "snapshot \<Rightarrow> job \<Rightarrow> check_view" where
  "check_view_of sn j =
     (let res = bm_get (sn_results sn) (j_key j); fails = failures_of res
      in \<lparr>cv_required = s_required (j_settings j), cv_started_at = map_option r_started_at res,
          cv_required_failures = length (filter fl_required fails),
          cv_optional_gaps = length (filter (\<lambda>f. \<not> fl_required f) fails),
          cv_prerequisite = (j_check j \<notin> set (j_requested_checks j)),
          cv_operations = (case res of None \<Rightarrow> [] | Some r \<Rightarrow> r_operations r),
          cv_key = j_key j, cv_target = t_name (j_target j), cv_check = j_check j,
          cv_interval_seconds = s_interval (j_settings j), cv_finished_at = map_option r_finished_at res,
          cv_expires_at = map_option (\<lambda>r. seconds_after (result_freshness sn j) (r_finished_at r)) res,
          cv_complete = is_some_and result_complete res,
          cv_observations = (case res of None \<Rightarrow> 0 | Some r \<Rightarrow> length (r_observations r)),
          cv_failures = take 3 fails\<rparr>)"

definition stamps_of :: "snapshot \<Rightarrow> effective \<Rightarrow> (string, result_stamp) bmap" where
  "stamps_of sn ef =
     fold (\<lambda>j m. case bm_get (sn_results sn) (j_key j) of None \<Rightarrow> m | Some r \<Rightarrow> bm_put (j_key j) (stamp_of r) m) (ef_jobs ef) []"

definition build_view :: "text_api \<Rightarrow> snapshot \<Rightarrow> effective \<Rightarrow> u64 \<Rightarrow> view" where
  "build_view tx sn ef generation =
     (let ts = target_views ef
      in \<lparr>vw_generation = generation, vw_revision = sn_revision sn, vw_captured_at = sn_captured_at sn, vw_targets = ts,
          vw_checks = map (check_view_of sn) (ef_jobs ef), vw_resources = build_resources tx sn ef,
          vw_findings = map (\<lambda>(_, f). finding_view_of tx ts f) (sn_findings sn), vw_result_stamps = stamps_of sn ef,
          vw_persistence_fault = sn_persistence_fault sn, vw_dropped_transitions = sn_dropped_transitions sn\<rparr>)"

section \<open>The overview\<close>

record target_summary =
  ts_target :: target_view
  ts_health :: health
  ts_complete_checks :: usize
  ts_total_checks :: usize
  ts_errors :: usize
  ts_warnings :: usize
  ts_resources :: usize
  ts_latest_observation :: "instant option"

definition check_current :: "instant \<Rightarrow> check_view \<Rightarrow> bool" where
  "check_current now c \<longleftrightarrow> cv_complete c \<and> is_some_and (\<lambda>t. now \<le> t) (cv_expires_at c)"

definition summary_health ::
  "nat \<Rightarrow> nat \<Rightarrow> check_view list \<Rightarrow> nat \<Rightarrow> resource_view list \<Rightarrow> instant \<Rightarrow> health" where
  "summary_health errors warnings checks whole resources now =
     (let has = (\<lambda>h. list_ex (\<lambda>r. current_health (rv_health r) (rv_expires_at r) now = h) resources)
      in if 0 < errors \<or> has Unhealthy then Unhealthy
         else if 0 < warnings \<or> has Degraded then Degraded
         else if whole \<noteq> length checks \<or> checks = [] \<or> resources = [] \<or> has Unknown then Unknown
         else if resources \<noteq> [] \<and> list_all (\<lambda>r. rv_health r = ExpectedInactive) resources then ExpectedInactive
         else Healthy)"

definition target_summary_of :: "view \<Rightarrow> instant \<Rightarrow> target_view \<Rightarrow> target_summary" where
  "target_summary_of v now t =
     (let checks = filter (\<lambda>c. cv_target c = tv_name t) (vw_checks v);
          whole = length (filter (check_current now) checks);
          findings = filter (\<lambda>f. fv_target f = tv_name t) (vw_findings v);
          errors = length (filter (\<lambda>f. fv_severity f = Error) findings);
          warnings = length (filter (\<lambda>f. fv_severity f = Warning) findings);
          resources = filter (\<lambda>r. rv_target r = tv_name t) (vw_resources v)
      in \<lparr>ts_target = t, ts_health = summary_health errors warnings checks whole resources now,
          ts_complete_checks = whole, ts_total_checks = length checks, ts_errors = errors, ts_warnings = warnings,
          ts_resources = length resources,
          ts_latest_observation = (if resources = [] then None else Some (Max (set (map rv_observed_at resources))))\<rparr>)"

record overview_totals =
  ot_targets :: usize
  ot_resources :: usize
  ot_error_findings :: usize
  ot_warning_findings :: usize
  ot_incomplete_checks :: usize

definition totals_of :: "target_summary list \<Rightarrow> overview_totals" where
  "totals_of ts =
     \<lparr>ot_targets = length ts, ot_resources = sum_list (map ts_resources ts), ot_error_findings = sum_list (map ts_errors ts),
      ot_warning_findings = sum_list (map ts_warnings ts),
      ot_incomplete_checks = sum_list (map (\<lambda>t. ts_total_checks t - ts_complete_checks t) ts)\<rparr>"

section \<open>Problem groups\<close>

record problem_group =
  gr_target :: string
  gr_rule :: string
  gr_check :: "check option"
  gr_severity :: severity
  gr_resources :: usize
  gr_findings :: usize
  gr_first_detected_at :: "instant option"
  gr_last_detected_at :: instant
  gr_stale :: bool
  gr_example_resource :: string

fun severity_priority :: "severity \<Rightarrow> nat" where
  "severity_priority Error = 0" | "severity_priority Warning = 1" | "severity_priority Info = 2"

definition first_detected_at :: "finding_view \<Rightarrow> instant option" where
  "first_detected_at f = (case fv_diagnostic f of None \<Rightarrow> None | Some d \<Rightarrow> dv_first_detected_at d)"

definition last_detected :: "finding_view \<Rightarrow> instant" where
  "last_detected f = (case fv_diagnostic f of None \<Rightarrow> fv_observed_at f | Some d \<Rightarrow> dv_last_detected_at d)"

definition new_group :: "finding_view \<Rightarrow> problem_group" where
  "new_group f =
     \<lparr>gr_target = fv_target f, gr_rule = fv_rule f, gr_check = fv_check f, gr_severity = fv_severity f, gr_resources = 0,
      gr_findings = 0, gr_first_detected_at = first_detected_at f, gr_last_detected_at = last_detected f, gr_stale = False,
      gr_example_resource = fv_resource f\<rparr>"

definition join_group ::
  "instant \<Rightarrow> finding_view \<Rightarrow> problem_group \<times> string list \<Rightarrow> problem_group \<times> string list" where
  "join_group now f = (\<lambda>(g, resources).
     (let resources = bs_insert (fv_resource f) resources
      in (g\<lparr>gr_findings := gr_findings g + 1, gr_resources := length resources,
            gr_severity := (if severity_priority (fv_severity f) < severity_priority (gr_severity g)
                            then fv_severity f else gr_severity g),
            gr_first_detected_at := (case (gr_first_detected_at g, first_detected_at f) of
               (Some a, Some b) \<Rightarrow> Some (min a b) | _ \<Rightarrow> None),
            gr_last_detected_at := max (gr_last_detected_at g) (last_detected f),
            gr_stale := (gr_stale g \<or> fv_stale f \<or> is_some_and (\<lambda>t. t < now) (fv_valid_until f))\<rparr>, resources)))"

definition add_to_groups ::
  "instant \<Rightarrow> finding_view \<Rightarrow> (string \<times> string, problem_group \<times> string list) bmap \<Rightarrow>
   (string \<times> string, problem_group \<times> string list) bmap" where
  "add_to_groups now f m =
     bm_put (fv_target f, fv_rule f) (join_group now f (unwrap_or (new_group f, []) (bm_get m (fv_target f, fv_rule f)))) m"

definition group_rank :: "problem_group \<Rightarrow> nat \<times> int \<times> string \<times> string" where
  "group_rank g = (severity_priority (gr_severity g), - int (gr_resources g), gr_target g, gr_rule g)"

definition problem_groups :: "instant \<Rightarrow> string option \<Rightarrow> finding_view list \<Rightarrow> nat \<times> problem_group list" where
  "problem_groups now target fs =
     (let m = fold (add_to_groups now) (filter (\<lambda>f. target = None \<or> target = Some (fv_target f)) fs) []
      in (length m, take 5 (sort_key group_rank (map (fst \<circ> snd) m))))"

definition overview ::
  "view \<Rightarrow> instant \<Rightarrow> string option \<Rightarrow>
   (overview_totals \<times> target_summary list \<times> check_view list \<times> nat \<times> problem_group list) option" where
  "overview v now selection =
     (if is_some_and (\<lambda>n. n \<notin> tv_name ` set (vw_targets v)) selection then None
      else (let ts = map (target_summary_of v now) (vw_targets v);
                selected = (\<lambda>n. selection = None \<or> selection = Some n)
            in Some (totals_of (filter (\<lambda>t. selected (tv_name (ts_target t))) ts), ts,
                 map (\<lambda>c. if is_some_and (\<lambda>t. t < now) (cv_expires_at c) then c\<lparr>cv_complete := False\<rparr> else c)
                   (filter (\<lambda>c. selected (cv_target c)) (vw_checks v)),
                 problem_groups now selection (vw_findings v))))"

section \<open>Rows of the resource list\<close>

record preview =
  pv_rule :: string
  pv_severity :: severity
  pv_observed_at :: instant
  pv_valid_until :: "instant option"
  pv_stale :: bool
  pv_diagnostic :: "diagnostic_view option"

record resource_row =
  rr_resource :: resource_view
  rr_finding_count :: usize
  rr_findings :: "preview list"

definition preview_of :: "instant \<Rightarrow> finding_view \<Rightarrow> preview" where
  "preview_of now f =
     \<lparr>pv_rule = fv_rule f, pv_severity = fv_severity f, pv_observed_at = fv_observed_at f,
      pv_valid_until = fv_valid_until f, pv_stale = (fv_stale f \<or> is_some_and (\<lambda>t. t < now) (fv_valid_until f)),
      pv_diagnostic = fv_diagnostic f\<rparr>"

definition preview_rank :: "preview \<Rightarrow> nat \<times> string" where
  "preview_rank p = (severity_priority (pv_severity p), pv_rule p)"

text \<open>The rows are found by the id of their resource; of equal ids the last row is meant.\<close>

definition add_preview :: "instant \<Rightarrow> finding_view \<Rightarrow> resource_row \<Rightarrow> resource_row" where
  "add_preview now f row =
     row\<lparr>rr_finding_count := rr_finding_count row + 1,
         rr_findings := take 2 (sort_key preview_rank (rr_findings row @ [preview_of now f]))\<rparr>"

definition row_index :: "resource_view list \<Rightarrow> (string, nat) bmap" where
  "row_index rs = bm_collect (zip (map rv_id rs) [0..<length rs])"

definition with_findings :: "instant \<Rightarrow> finding_view list \<Rightarrow> resource_view list \<Rightarrow> resource_row list" where
  "with_findings now fs rs =
     fold (\<lambda>f rows. case bm_get (row_index rs) (fv_resource f) of
                      None \<Rightarrow> rows
                    | Some i \<Rightarrow> if i < length rows then rows[i := add_preview now f (rows ! i)] else rows)
       fs (map (\<lambda>r. \<lparr>rr_resource = r, rr_finding_count = 0, rr_findings = []\<rparr>) rs)"

end
