(* ===== verification/Dashboard_Properties.thy ===== *)
theory Dashboard_Properties
  imports Dashboard Samples
begin

text \<open>
  What the dashboard promises about the snapshot it shows: nothing collected is missing from the catalog of
  resources, which shows the newest evidence of each kind, and a target looks healthy only when it is covered.
\<close>

section \<open>Evidence of one resource\<close>

definition shown_by :: "string \<Rightarrow> instant \<Rightarrow> resource_view \<Rightarrow> bool" where
  "shown_by i t r \<longleftrightarrow> t \<le> rv_observed_at r \<and> (\<exists>e \<in> set (rv_evidence r). ev_id e = i \<and> t \<le> ev_observed_at e)"

lemma put_evidence_ids: "ev_id ` set (put_evidence e es) = insert (ev_id e) (ev_id ` set es)"
  by (induction e es rule: put_evidence.induct) auto

lemma put_evidence_distinct: "distinct (map ev_id es) \<Longrightarrow> distinct (map ev_id (put_evidence e es))"
proof (induction e es rule: put_evidence.induct)
  case (2 e old es)
  then show ?case using put_evidence_ids [of e es] by (auto simp: image_iff)
qed simp

lemma put_evidence_set: "set (put_evidence e es) \<subseteq> insert e (set es)"
  by (induction e es rule: put_evidence.induct) auto

lemma put_evidence_new: "\<exists>e' \<in> set (put_evidence e es). ev_id e' = ev_id e \<and> ev_observed_at e \<le> ev_observed_at e'"
  by (induction e es rule: put_evidence.induct) auto

lemma put_evidence_keeps:
  "e \<in> set es \<Longrightarrow> \<exists>e' \<in> set (put_evidence f es). ev_id e' = ev_id e \<and> ev_observed_at e \<le> ev_observed_at e'"
  by (induction f es rule: put_evidence.induct) auto

lemma newer_fields [simp]:
  "rv_evidence (newer_observation tx sn j ob r) = rv_evidence r" "rv_id (newer_observation tx sn j ob r) = rv_id r"
  "rv_health (newer_observation tx sn j ob r) = rv_health r" "rv_target (newer_observation tx sn j ob r) = rv_target r"
  "rv_observed_at (newer_observation tx sn j ob r) = max (rv_observed_at r) (o_observed_at ob)"
  by (simp_all add: newer_observation_def)

lemma attach_fields [simp]:
  "rv_id (attach_evidence e r) = rv_id r" "rv_health (attach_evidence e r) = rv_health r"
  "rv_observed_at (attach_evidence e r) = rv_observed_at r" "rv_expires_at (attach_evidence e r) = rv_expires_at r"
  "rv_target (attach_evidence e r) = rv_target r"
  "rv_evidence (attach_evidence e r) = put_evidence e (rv_evidence r)"
  by (simp_all add: attach_evidence_def)

lemma finish_fields [simp]:
  "rv_id (finish_resource tx r) = rv_id r" "rv_health (finish_resource tx r) = rv_health r"
  "rv_observed_at (finish_resource tx r) = rv_observed_at r" "rv_evidence (finish_resource tx r) = rv_evidence r"
  "rv_target (finish_resource tx r) = rv_target r" "rv_expires_at (finish_resource tx r) = rv_expires_at r"
  by (simp_all add: finish_resource_def)

section \<open>The catalog\<close>

text \<open>Where the evidence of resource \<open>k\<close> may come from.\<close>

definition collected_for :: "snapshot \<Rightarrow> effective \<Rightarrow> string \<Rightarrow> (job \<times> observation) set" where
  "collected_for sn ef k =
     {(j, ob). j \<in> set (ef_jobs ef) \<and> ob \<in> set (job_observations sn j) \<and> \<not> is_relation (o_data ob) \<and> o_resource ob = k}"

definition diagnosed_for :: "snapshot \<Rightarrow> string \<Rightarrow> observation set" where
  "diagnosed_for sn k = {d_observation d | f d. f \<in> snd ` set (sn_findings sn) \<and> f_resource f = k \<and> f_diagnostic f = Some d}"

definition evidence_of :: "snapshot \<Rightarrow> effective \<Rightarrow> string \<Rightarrow> view_evidence \<Rightarrow> bool" where
  "evidence_of sn ef k e \<longleftrightarrow>
     (\<exists>(j, ob) \<in> collected_for sn ef k. ev_id e = evidence_id (j_check j) ob \<and> ev_observed_at e = o_observed_at ob) \<or>
     (\<exists>ob \<in> diagnosed_for sn k. ev_observed_at e = o_observed_at ob)"

definition entry_ok :: "snapshot \<Rightarrow> effective \<Rightarrow> string \<Rightarrow> resource_view \<Rightarrow> bool" where
  "entry_ok sn ef k r \<longleftrightarrow> rv_id r = k \<and> rv_health r \<in> {Unknown, unwrap_or Unknown (bm_get (sn_health sn) k)} \<and>
     distinct (map ev_id (rv_evidence r)) \<and> (\<forall>e \<in> set (rv_evidence r). evidence_of sn ef k e)"

definition catalog_ok :: "snapshot \<Rightarrow> effective \<Rightarrow> (string, resource_view) bmap \<Rightarrow> bool" where
  "catalog_ok sn ef m \<longleftrightarrow> bm_wf m \<and> (\<forall>k r. bm_get m k = Some r \<longrightarrow> entry_ok sn ef k r)"

lemma add_observation_ok:
  assumes "catalog_ok sn ef m" and "j \<in> set (ef_jobs ef)" and "ob \<in> set (job_observations sn j)"
  shows "catalog_ok sn ef (add_observation tx sn j ob m)"
proof (cases "is_relation (o_data ob)")
  case False
  let ?r = "unwrap_or (new_resource tx sn j ob) (bm_get m (o_resource ob))"
  let ?e = "evidence_view tx ob (j_check j) (shown_until sn j ob)"
  have r: "entry_ok sn ef (o_resource ob) ?r"
    using assms(1) by (cases "bm_get m (o_resource ob)") (auto simp: catalog_ok_def entry_ok_def new_resource_def)
  have "(j, ob) \<in> collected_for sn ef (o_resource ob)" using assms(2,3) False by (simp add: collected_for_def)
  then have "evidence_of sn ef (o_resource ob) ?e" by (auto simp: evidence_of_def evidence_view_def)
  with r have "entry_ok sn ef (o_resource ob) (attach_evidence ?e (newer_observation tx sn j ob ?r))"
    using put_evidence_set [of ?e "rv_evidence ?r"] by (auto simp: entry_ok_def put_evidence_distinct)
  then show ?thesis using assms(1) False by (auto simp: add_observation_def catalog_ok_def bm_wf_put get_bm_put)
qed (simp add: add_observation_def assms(1))

lemma add_job_ok: "catalog_ok sn ef m \<Longrightarrow> j \<in> set (ef_jobs ef) \<Longrightarrow> catalog_ok sn ef (add_job tx sn j m)"
proof -
  assume m: "catalog_ok sn ef m" and j: "j \<in> set (ef_jobs ef)"
  have "catalog_ok sn ef (fold (add_observation tx sn j) obs m)" if "set obs \<subseteq> set (job_observations sn j)" for obs
    using that m by (induction obs arbitrary: m) (simp_all add: add_observation_ok j)
  then show ?thesis by (simp add: add_job_def)
qed

lemma add_finding_ok:
  assumes "catalog_ok sn ef m" and "f \<in> snd ` set (sn_findings sn)"
  shows "catalog_ok sn ef (add_finding tx ef f m)"
proof (cases "\<exists>d j. f_diagnostic f = Some d \<and> bm_get m (f_resource f) = None \<and>
    List.find (\<lambda>j. f_check f = Some (j_check j) \<and> starts_with (f_resource f) (t_name (j_target j) @ ''/'')) (ef_jobs ef) = Some j")
  case True
  then obtain d j where d: "f_diagnostic f = Some d" and m: "add_finding tx ef f m = bm_put (f_resource f) (finding_resource tx j f d) m"
    by (auto simp: add_finding_def)
  have "d_observation d \<in> diagnosed_for sn (f_resource f)" using d assms(2) by (auto simp: diagnosed_for_def)
  then have "entry_ok sn ef (f_resource f) (finding_resource tx j f d)"
    by (auto simp: entry_ok_def finding_resource_def Let_def evidence_of_def evidence_view_def)
  then show ?thesis using assms(1) by (auto simp: m catalog_ok_def bm_wf_put get_bm_put)
next
  case False
  then have "add_finding tx ef f m = m" by (auto simp: add_finding_def split: option.splits)
  then show ?thesis using assms(1) by simp
qed

lemma catalog_is_ok: "catalog_ok sn ef (catalog tx sn ef)"
proof -
  have "catalog_ok sn ef []" by (simp add: catalog_ok_def bm_wf_def)
  then have jobs: "catalog_ok sn ef (fold (add_job tx sn) js [])" if "set js \<subseteq> set (ef_jobs ef)" for js
    using that by (induction js rule: rev_induct) (simp_all add: add_job_ok)
  have "catalog_ok sn ef (fold (add_finding tx ef) fs m)" if "set fs \<subseteq> snd ` set (sn_findings sn)" "catalog_ok sn ef m" for fs m
    using that by (induction fs arbitrary: m) (simp_all add: add_finding_ok)
  then show ?thesis using jobs by (simp add: catalog_def)
qed

text \<open>What is shown stays shown.\<close>

definition displays :: "string \<Rightarrow> string \<Rightarrow> instant \<Rightarrow> (string, resource_view) bmap \<Rightarrow> bool" where
  "displays k i t m \<longleftrightarrow> is_some_and (shown_by i t) (bm_get m k)"

lemma displays_stays:
  assumes "displays k i t m"
  shows "displays k i t (add_observation tx sn j ob m)"
proof (cases "is_relation (o_data ob) \<or> o_resource ob \<noteq> k")
  case False
  obtain r where r: "bm_get m k = Some r" "shown_by i t r"
    using assms by (auto simp: displays_def is_some_and_def split: option.splits)
  let ?e = "evidence_view tx ob (j_check j) (shown_until sn j ob)"
  have "shown_by i t (attach_evidence ?e (newer_observation tx sn j ob r))"
    using r(2) put_evidence_keeps [of _ "rv_evidence r" ?e] unfolding shown_by_def by fastforce
  then show ?thesis using False r(1) by (auto simp: displays_def add_observation_def get_bm_put is_some_and_def)
qed (use assms in \<open>auto simp: displays_def add_observation_def get_bm_put\<close>)

lemma displays_added:
  assumes "\<not> is_relation (o_data ob)"
  shows "displays (o_resource ob) (evidence_id (j_check j) ob) (o_observed_at ob) (add_observation tx sn j ob m)"
proof -
  let ?e = "evidence_view tx ob (j_check j) (shown_until sn j ob)"
  have e: "ev_id ?e = evidence_id (j_check j) ob" "ev_observed_at ?e = o_observed_at ob" by (simp_all add: evidence_view_def)
  show ?thesis using assms put_evidence_new [of ?e]
    by (auto simp: displays_def add_observation_def get_bm_put is_some_and_def shown_by_def e)
qed

lemma displays_fold: "displays k i t m \<Longrightarrow> displays k i t (fold (add_observation tx sn j) obs m)"
  by (induction obs arbitrary: m) (simp_all add: displays_stays)

lemma displays_job: "displays k i t m \<Longrightarrow> displays k i t (add_job tx sn j m)"
  by (simp add: add_job_def displays_fold)

lemma displays_job_new:
  assumes "ob \<in> set (job_observations sn j)" and "\<not> is_relation (o_data ob)"
  shows "displays (o_resource ob) (evidence_id (j_check j) ob) (o_observed_at ob) (add_job tx sn j m)"
proof -
  obtain xs ys where "job_observations sn j = xs @ ob # ys" using assms(1) by (auto simp: in_set_conv_decomp)
  then show ?thesis using assms(2) by (simp add: add_job_def displays_fold displays_added)
qed

lemma displays_finding: "displays k i t m \<Longrightarrow> displays k i t (add_finding tx ef f m)"
  by (auto simp: displays_def add_finding_def get_bm_put is_some_and_def split: option.splits)

lemma catalog_displays:
  assumes "(j, ob) \<in> collected_for sn ef k"
  shows "displays k (evidence_id (j_check j) ob) (o_observed_at ob) (catalog tx sn ef)"
proof -
  obtain xs ys where js: "ef_jobs ef = xs @ j # ys" using assms by (auto simp: collected_for_def in_set_conv_decomp)
  have later: "displays k i t m \<Longrightarrow> displays k i t (fold (add_job tx sn) js m)" for i t js m
    by (induction js arbitrary: m) (simp_all add: displays_job)
  have found: "displays k i t m \<Longrightarrow> displays k i t (fold (add_finding tx ef) fs m)" for i t fs m
    by (induction fs arbitrary: m) (simp_all add: displays_finding)
  have "displays k (evidence_id (j_check j) ob) (o_observed_at ob) (add_job tx sn j m)" for m
    using assms displays_job_new [of ob sn j tx m] by (auto simp: collected_for_def)
  then show ?thesis using later found by (simp add: catalog_def js)
qed

lemma resources_are_entries:
  "r \<in> set (build_resources tx sn ef) \<longleftrightarrow> (\<exists>k r'. bm_get (catalog tx sn ef) k = Some r' \<and> r = finish_resource tx r')"
proof -
  have "bm_wf (catalog tx sn ef)" using catalog_is_ok by (simp add: catalog_ok_def)
  then show ?thesis by (force simp: build_resources_def bm_wf_def strict_sorted_iff image_iff)
qed

section \<open>Properties\<close>


definition sample_text :: text_api where
  "sample_text = \<lparr>tx_time = (\<lambda>_. ''now''), tx_fixed = (\<lambda>_ _. ''0''), tx_float = (\<lambda>_. ''0''), tx_quote = Some, tx_lower = id\<rparr>"

definition shown_observation :: observation where
  "shown_observation = \<lparr>o_context = None, o_resource = ''prod/api'', o_operation = ''workloads'', o_observed_at = 7,
     o_expected = Active, o_data = Workload 2 2 None False False\<rparr>"

definition shown_result :: check_result where
  "shown_result = (result_failure ''prod'' CKubernetes ''r1'' Complete 7)\<lparr>r_observations := [shown_observation]\<rparr>"

definition shown_snapshot :: snapshot where
  "shown_snapshot = sample_snapshot\<lparr>sn_results := [(j_key sample_job, shown_result)], sn_findings := [],
     sn_health := [(''prod/api'', Healthy)]\<rparr>"

definition shown_effective :: effective where
  "shown_effective = \<lparr>ef_revision = ''r1'', ef_jobs = [sample_job]\<rparr>"

lemma shown_collected: "(sample_job, shown_observation) \<in> collected_for shown_snapshot shown_effective ''prod/api''"
  by (simp add: collected_for_def shown_effective_def job_observations_def shown_snapshot_def shown_result_def
      shown_observation_def is_relation_def)


lemma summary_healthy:
  assumes "summary_health errors warnings checks whole resources now = Healthy"
  shows "errors = 0 \<and> warnings = 0 \<and> whole = length checks \<and> checks \<noteq> [] \<and>
    (\<forall>r \<in> set resources. now \<le> rv_expires_at r \<and> rv_health r \<in> {Healthy, ExpectedInactive})"
proof -
  let ?has = "\<lambda>h. list_ex (\<lambda>r. current_health (rv_health r) (rv_expires_at r) now = h) resources"
  have none: "\<not> ?has Unhealthy" "\<not> ?has Degraded" "\<not> ?has Unknown" and
    rest: "errors = 0" "warnings = 0" "whole = length checks" "checks \<noteq> []"
    using assms by (auto simp: summary_health_def Let_def split: if_splits)
  have "now \<le> rv_expires_at r \<and> rv_health r \<in> {Healthy, ExpectedInactive}" if "r \<in> set resources" for r
    using none that by (cases "rv_health r") (auto simp: list_ex_iff current_health_def split: if_splits)
  then show ?thesis using rest by blast
qed



definition shown_target :: target_view where
  "shown_target = \<lparr>tv_name = ''prod'', tv_provider = Gcp, tv_scope = ''project'', tv_regions = [''us'']\<rparr>"

lemma shown_freshness: "result_freshness shown_snapshot sample_job = 690"
  by (simp add: result_freshness_def shown_snapshot_def sample_snapshot_def sample_job_def freshness_def
      default_settings_def sat_add64_def sat_mul64_def u64_max_def)

lemma shown_expiry: "seconds_after 690 7 = 7 + 690 * nanos_per_sec"
  by (simp add: seconds_after_def as_i64_def)

lemma shown_check: "check_current 7 (check_view_of shown_snapshot sample_job)" "cv_target (check_view_of shown_snapshot sample_job) = ''prod''"
proof -
  have "bm_get (sn_results shown_snapshot) (j_key sample_job) = Some shown_result" by (simp add: shown_snapshot_def)
  moreover have "result_complete shown_result" "r_finished_at shown_result = 7"
    by (simp_all add: shown_result_def result_failure_def result_complete_def)
  ultimately show "check_current 7 (check_view_of shown_snapshot sample_job)"
    by (simp add: check_current_def check_view_of_def Let_def is_some_and_def shown_freshness shown_expiry nanos_per_sec_def)
  show "cv_target (check_view_of shown_snapshot sample_job) = ''prod''"
    by (simp add: check_view_of_def Let_def sample_job_def sample_target_def)
qed

lemma shown_resources:
  "build_resources sample_text shown_snapshot shown_effective =
     [finish_resource sample_text (attach_evidence
        (evidence_view sample_text shown_observation CKubernetes (shown_until shown_snapshot sample_job shown_observation))
        (new_resource sample_text shown_snapshot sample_job shown_observation))]"
  by (simp add: build_resources_def catalog_def shown_effective_def add_job_def job_observations_def shown_snapshot_def
      shown_result_def add_observation_def is_relation_def shown_observation_def newer_observation_def new_resource_def
      sample_job_def)


end
