(* ===== verification/Dashboard_Lists.thy ===== *)
theory Dashboard_Lists
  imports Dashboard Access
begin

text \<open>
  Pages over the published view: the keyset cursors of \<open>crates/server/src/pages.rs\<close>, the lists of \<open>lists.rs\<close> and
  the drill-downs of \<open>checks_api.rs\<close>. JSON text of cursors and the SHA-256 of a filter are parameters. Answers are
  given before \<open>response.rs\<close> writes them as JSON within the byte limit of the server.
\<close>

section \<open>Cursors\<close>

datatype direction = Next | Previous

type_synonym page_key = "nat \<times> string \<times> string"

record page_codec =
  cc_encode :: "page_key \<Rightarrow> string option"
  cc_decode :: "string \<Rightarrow> page_key option"
  cc_wrap :: "string \<Rightarrow> string \<Rightarrow> string option"
  cc_unwrap :: "string \<Rightarrow> (string \<times> string) option"

definition resource_key :: "resource_view \<Rightarrow> page_key" where
  "resource_key r = (0, rv_id r, [])"

definition finding_key :: "finding_view \<Rightarrow> page_key" where
  "finding_key f = (severity_priority (fv_severity f), fv_resource f, fv_id f)"

definition evidence_key :: "view_evidence \<Rightarrow> page_key" where
  "evidence_key e = (0, ev_id e, [])"

definition check_key :: "check_view \<Rightarrow> page_key" where
  "check_key c = (if cv_complete c then 1 else 0, cv_key c, [])"

definition operation_key :: "operation \<Rightarrow> page_key" where
  "operation_key p = (if op_coverage p = Complete then 1 else 0, op_id p, [])"

record 'a slice =
  sl_items :: "'a list"
  sl_next :: "string option"
  sl_previous :: "string option"
  sl_total :: usize

section \<open>One page\<close>

definition page_boundary :: "page_codec \<Rightarrow> string option \<Rightarrow> api_error + page_key option" where
  "page_boundary cc after =
     (case after of
        None \<Rightarrow> Inr None
      | Some v \<Rightarrow>
          if 16384 < length v then Inl BadQuery
          else (case cc_decode cc v of
                  None \<Rightarrow> Inl BadQuery
                | Some (p, res, i) \<Rightarrow>
                    if 2 < p \<or> 4096 < length res \<or> 8192 < length i then Inl BadQuery else Inr (Some (p, res, i))))"

definition page_range ::
  "('a \<Rightarrow> page_key) \<Rightarrow> 'a list \<Rightarrow> page_key option \<Rightarrow> direction \<Rightarrow> usize \<Rightarrow> nat \<times> nat" where
  "page_range key rows boundary d limit =
     (case (boundary, d) of
        (Some b, Previous) \<Rightarrow>
          (let stop = length (takeWhile (\<lambda>r. key r < b) rows) in (stop - limit, stop))
      | _ \<Rightarrow>
          (let start = (case boundary of None \<Rightarrow> 0 | Some b \<Rightarrow> length (takeWhile (\<lambda>r. key r \<le> b) rows))
           in (start, min (sat_add64 start limit) (length rows))))"

definition edge_cursor :: "page_codec \<Rightarrow> ('a \<Rightarrow> page_key) \<Rightarrow> bool \<Rightarrow> 'a list \<Rightarrow> api_error + string option" where
  "edge_cursor cc key more_rows row =
     (if \<not> more_rows \<or> row = [] then Inr None
      else case cc_encode cc (key (hd row)) of None \<Rightarrow> Inl BadQuery | Some t \<Rightarrow> Inr (Some t))"

text \<open>\<open>pages::select\<close>.\<close>

definition select_page ::
  "page_codec \<Rightarrow> ('a \<Rightarrow> page_key) \<Rightarrow> 'a list \<Rightarrow> string option \<Rightarrow> direction \<Rightarrow> usize \<Rightarrow> api_error + 'a slice" where
  "select_page cc key rows after d limit =
     (let rows = sort_key key rows
      in case page_boundary cc after of
           Inl e \<Rightarrow> Inl e
         | Inr boundary \<Rightarrow>
             (let (start, stop) = page_range key rows boundary d limit;
                  items = drop start (take stop rows)
              in case edge_cursor cc key (stop < length rows) (rev items) of
                   Inl e \<Rightarrow> Inl e
                 | Inr following \<Rightarrow>
                     (case edge_cursor cc key (0 < start) items of
                        Inl e \<Rightarrow> Inl e
                      | Inr preceding \<Rightarrow>
                          Inr \<lparr>sl_items = items, sl_next = following, sl_previous = preceding, sl_total = length rows\<rparr>)))"

text \<open>\<open>pages::select_scoped\<close>; \<open>scope\<close> is the digest of the endpoint and its filter, when it has one.\<close>

definition wrap_cursor :: "page_codec \<Rightarrow> string \<Rightarrow> string option \<Rightarrow> api_error + string option" where
  "wrap_cursor cc scope position =
     (case position of
        None \<Rightarrow> Inr None
      | Some p \<Rightarrow> (case cc_wrap cc scope p of None \<Rightarrow> Inl BadQuery | Some t \<Rightarrow> Inr (Some t)))"

definition unwrap_cursor :: "page_codec \<Rightarrow> string \<Rightarrow> string option \<Rightarrow> api_error + string option" where
  "unwrap_cursor cc scope after =
     (case after of
        None \<Rightarrow> Inr None
      | Some v \<Rightarrow>
          if 32768 < length v then Inl BadQuery
          else (case cc_unwrap cc v of
                  None \<Rightarrow> Inl Refresh
                | Some (s, position) \<Rightarrow> if s \<noteq> scope then Inl Refresh else Inr (Some position)))"

definition select_scoped ::
  "page_codec \<Rightarrow> string option \<Rightarrow> ('a \<Rightarrow> page_key) \<Rightarrow> 'a list \<Rightarrow> string option \<Rightarrow> direction \<Rightarrow> usize \<Rightarrow>
   api_error + 'a slice" where
  "select_scoped cc digest key rows after d limit =
     (case digest of
        None \<Rightarrow> Inl BadQuery
      | Some scope \<Rightarrow>
          (case unwrap_cursor cc scope after of
             Inl e \<Rightarrow> Inl e
           | Inr cursor \<Rightarrow>
               (case select_page cc key rows cursor d limit of
                  Inl e \<Rightarrow> Inl e
                | Inr s \<Rightarrow>
                    (case wrap_cursor cc scope (sl_next s) of
                       Inl e \<Rightarrow> Inl e
                     | Inr following \<Rightarrow>
                         (case wrap_cursor cc scope (sl_previous s) of
                            Inl e \<Rightarrow> Inl e
                          | Inr preceding \<Rightarrow> Inr (s\<lparr>sl_next := following, sl_previous := preceding\<rparr>))))))"

section \<open>Lists\<close>

record list_filter =
  lf_target :: "string option"
  lf_check :: "check option"
  lf_resource :: "string option"
  lf_q :: "string option"
  lf_rule :: "string option"
  lf_severity :: "severity option"
  lf_health :: "health option"
  lf_cursor :: "string option"
  lf_direction :: direction
  lf_limit :: "usize option"

definition list_limit :: "list_filter \<Rightarrow> api_error + usize" where
  "list_limit fl =
     (let limit = unwrap_or 50 (lf_limit fl)
      in if limit = 0 \<or> 100 < limit \<or> is_some_and (\<lambda>v. 128 < length v) (lf_q fl) \<or>
            is_some_and (\<lambda>v. 128 < length v) (lf_target fl)
         then Inl BadQuery else Inr limit)"

definition asks :: "'a \<Rightarrow> 'a option \<Rightarrow> bool" where
  "asks v f \<longleftrightarrow> f = None \<or> f = Some v"

definition list_query :: "text_api \<Rightarrow> string option \<Rightarrow> string" where
  "list_query tx q = tx_lower tx (unwrap_or [] q)"

definition resource_asked :: "text_api \<Rightarrow> instant \<Rightarrow> list_filter \<Rightarrow> resource_view \<Rightarrow> bool" where
  "resource_asked tx now fl r \<longleftrightarrow>
     asks (rv_target r) (lf_target fl) \<and> (case lf_check fl of None \<Rightarrow> True | Some c \<Rightarrow> c \<in> set (rv_checks r)) \<and>
     str_contains (rv_search r) (list_query tx (lf_q fl)) \<and>
     asks (current_health (rv_health r) (rv_expires_at r) now) (lf_health fl)"

definition finding_asked :: "text_api \<Rightarrow> list_filter \<Rightarrow> finding_view \<Rightarrow> bool" where
  "finding_asked tx fl f \<longleftrightarrow>
     (let q = list_query tx (lf_q fl)
      in asks (fv_target f) (lf_target fl) \<and> (case lf_check fl of None \<Rightarrow> True | Some c \<Rightarrow> fv_check f = Some c) \<and>
         asks (fv_resource f) (lf_resource fl) \<and> asks (fv_severity f) (lf_severity fl) \<and> asks (fv_rule f) (lf_rule fl) \<and>
         (q = [] \<or> str_contains (tx_lower tx (fv_resource f)) q \<or> str_contains (tx_lower tx (fv_rule f)) q))"

record 'a listed =
  ls_generation :: u64
  ls_items :: "'a list"
  ls_next :: "string option"
  ls_previous :: "string option"
  ls_total :: usize

definition listed_of :: "view \<Rightarrow> ('a list \<Rightarrow> 'b list) \<Rightarrow> 'a slice \<Rightarrow> 'b listed" where
  "listed_of v f s =
     \<lparr>ls_generation = vw_generation v, ls_items = f (sl_items s), ls_next = sl_next s, ls_previous = sl_previous s,
      ls_total = sl_total s\<rparr>"

text \<open>\<open>digest\<close> is \<open>select_scoped\<close>'s digest of the name of the list and its filter.\<close>

definition list_resources ::
  "text_api \<Rightarrow> page_codec \<Rightarrow> (string \<Rightarrow> list_filter \<Rightarrow> string option) \<Rightarrow> instant \<Rightarrow> view option \<Rightarrow> list_filter \<Rightarrow>
   api_error + resource_row listed" where
  "list_resources tx cc digest now current fl =
     (case list_limit fl of
        Inl e \<Rightarrow> Inl e
      | Inr limit \<Rightarrow>
          (case current of
             None \<Rightarrow> Inl Waiting
           | Some v \<Rightarrow>
               (case select_scoped cc (digest ''resources'' fl) resource_key (filter (resource_asked tx now fl) (vw_resources v))
                       (lf_cursor fl) (lf_direction fl) limit of
                  Inl e \<Rightarrow> Inl e
                | Inr s \<Rightarrow>
                    Inr (listed_of v (\<lambda>rs. with_findings now (vw_findings v)
                      (map (\<lambda>r. r\<lparr>rv_health := current_health (rv_health r) (rv_expires_at r) now\<rparr>) rs)) s))))"

definition list_findings ::
  "text_api \<Rightarrow> page_codec \<Rightarrow> (string \<Rightarrow> list_filter \<Rightarrow> string option) \<Rightarrow> instant \<Rightarrow> view option \<Rightarrow> list_filter \<Rightarrow>
   api_error + finding_view listed" where
  "list_findings tx cc digest now current fl =
     (case list_limit fl of
        Inl e \<Rightarrow> Inl e
      | Inr limit \<Rightarrow>
          (case current of
             None \<Rightarrow> Inl Waiting
           | Some v \<Rightarrow>
               (case select_scoped cc (digest ''findings'' fl) finding_key (filter (finding_asked tx fl) (vw_findings v))
                       (lf_cursor fl) (lf_direction fl) limit of
                  Inl e \<Rightarrow> Inl e
                | Inr s \<Rightarrow>
                    Inr (listed_of v (map (\<lambda>f. f\<lparr>fv_stale := (fv_stale f \<or> is_some_and (\<lambda>t. t < now) (fv_valid_until f))\<rparr>)) s))))"

text \<open>\<open>binary_search_by\<close> over the resources, which are sorted by their ids.\<close>

definition resource_by_id :: "string \<Rightarrow> view \<Rightarrow> resource_view option" where
  "resource_by_id i v = List.find (\<lambda>r. rv_id r = i) (vw_resources v)"

definition show_resource ::
  "instant \<Rightarrow> view option \<Rightarrow> string \<Rightarrow> bool option \<Rightarrow> api_error + (u64 \<times> resource_view \<times> finding_view list)" where
  "show_resource now current i include =
     (if 4096 < length i then Inl BadQuery
      else case current of
             None \<Rightarrow> Inl Waiting
           | Some v \<Rightarrow>
               (case resource_by_id i v of
                  None \<Rightarrow> Inl NotFound
                | Some r \<Rightarrow>
                    Inr (vw_generation v, r\<lparr>rv_health := current_health (rv_health r) (rv_expires_at r) now\<rparr>,
                         filter (\<lambda>f. include \<noteq> Some False \<and> fv_resource f = i) (vw_findings v))))"

section \<open>Drill-downs\<close>

record drill_filter =
  df_target :: "string option"
  df_check :: "check option"
  df_id :: "string option"
  df_q :: "string option"
  df_status :: "string option"
  df_cursor :: "string option"
  df_direction :: direction
  df_limit :: "usize option"

definition drill_limit :: "drill_filter \<Rightarrow> api_error + usize" where
  "drill_limit fl =
     (let limit = unwrap_or 50 (df_limit fl)
      in if limit < 1 \<or> 100 < limit \<or> is_some_and (\<lambda>s. 128 < length s) (df_q fl) \<or>
            is_some_and (\<lambda>s. 128 < length s) (df_target fl) \<or> is_some_and (\<lambda>s. 4096 < length s) (df_id fl) \<or>
            is_some_and (\<lambda>s. s \<notin> {''complete'', ''incomplete'', ''stale'', ''awaiting'', ''needs_attention''}) (df_status fl)
         then Inl BadQuery else Inr limit)"

definition drill_matches :: "drill_filter \<Rightarrow> check_view \<Rightarrow> bool" where
  "drill_matches fl c \<longleftrightarrow> asks (cv_target c) (df_target fl) \<and> asks (cv_check c) (df_check fl)"

definition drill_page ::
  "page_codec \<Rightarrow> ('a \<Rightarrow> page_key) \<Rightarrow> view \<Rightarrow> drill_filter \<Rightarrow> 'a list \<Rightarrow> api_error + 'a listed" where
  "drill_page cc key v fl rows =
     (case drill_limit fl of
        Inl e \<Rightarrow> Inl e
      | Inr limit \<Rightarrow>
          (case select_page cc key rows (df_cursor fl) (df_direction fl) limit of
             Inl e \<Rightarrow> Inl e
           | Inr s \<Rightarrow> Inr (listed_of v id s)))"

fun check_label :: "check \<Rightarrow> string" where
  "check_label CPreflight = ''Access and prerequisites''" | "check_label CDiscovery = ''Organization discovery''"
| "check_label CInventory = ''Resource inventory''" | "check_label CKubernetes = ''Kubernetes health''"
| "check_label CEdge = ''DNS, TLS, and endpoints''" | "check_label CManaged = ''Managed dependencies''"
| "check_label CQueues = ''Queues and consumers''" | "check_label CReleases = ''Release verification''"
| "check_label CGithub = ''Repository and workflow checks''" | "check_label CMetrics = ''Performance and capacity''"
| "check_label CLogs = ''Runtime diagnostics''" | "check_label CAlerts = ''Provider alerts and incidents''"
| "check_label CSlo = ''Service objectives''" | "check_label CFlows = ''Processing progress''"

definition check_state :: "instant \<Rightarrow> check_view \<Rightarrow> string" where
  "check_state now c =
     (if cv_finished_at c = None then ''awaiting''
      else if is_some_and (\<lambda>t. t < now) (cv_expires_at c) then ''stale''
      else if cv_complete c then ''complete'' else ''incomplete'')"

definition check_asked :: "text_api \<Rightarrow> instant \<Rightarrow> drill_filter \<Rightarrow> check_view \<Rightarrow> bool" where
  "check_asked tx now fl c \<longleftrightarrow>
     (let q = list_query tx (df_q fl); state = check_state now c
      in drill_matches fl c \<and>
         (str_contains (tx_lower tx (cv_key c)) q \<or> str_contains (tx_lower tx (check_label (cv_check c))) q) \<and>
         (case df_status fl of None \<Rightarrow> True | Some s \<Rightarrow> s = state \<or> s = ''needs_attention'' \<and> state \<noteq> ''complete''))"

definition list_checks ::
  "text_api \<Rightarrow> page_codec \<Rightarrow> instant \<Rightarrow> view option \<Rightarrow> drill_filter \<Rightarrow> api_error + check_view listed" where
  "list_checks tx cc now current fl =
     (case drill_limit fl of
        Inl e \<Rightarrow> Inl e
      | Inr _ \<Rightarrow>
          (case current of
             None \<Rightarrow> Inl Waiting
           | Some v \<Rightarrow>
               drill_page cc check_key v fl
                 (map (\<lambda>c. c\<lparr>cv_complete := check_current now c\<rparr>) (filter (check_asked tx now fl) (vw_checks v)))))"

definition find_check :: "view option \<Rightarrow> drill_filter \<Rightarrow> api_error + (view \<times> check_view)" where
  "find_check current fl =
     (case drill_limit fl of
        Inl e \<Rightarrow> Inl e
      | Inr _ \<Rightarrow>
          if df_target fl = None \<or> df_check fl = None then Inl BadQuery
          else (case current of
                  None \<Rightarrow> Inl Waiting
                | Some v \<Rightarrow>
                    (case List.find (drill_matches fl) (vw_checks v) of None \<Rightarrow> Inl NotFound | Some c \<Rightarrow> Inr (v, c))))"

definition list_operations ::
  "text_api \<Rightarrow> page_codec \<Rightarrow> view option \<Rightarrow> drill_filter \<Rightarrow> api_error + operation listed" where
  "list_operations tx cc current fl =
     (case find_check current fl of
        Inl e \<Rightarrow> Inl e
      | Inr (v, c) \<Rightarrow>
          drill_page cc operation_key v fl
            (filter (\<lambda>p. str_contains (tx_lower tx (op_id p)) (list_query tx (df_q fl))) (cv_operations c)))"

definition list_evidence ::
  "text_api \<Rightarrow> page_codec \<Rightarrow> view option \<Rightarrow> drill_filter \<Rightarrow> api_error + view_evidence listed" where
  "list_evidence tx cc current fl =
     (case drill_limit fl of
        Inl e \<Rightarrow> Inl e
      | Inr _ \<Rightarrow>
          (case df_id fl of
             None \<Rightarrow> Inl BadQuery
           | Some i \<Rightarrow>
               (case current of
                  None \<Rightarrow> Inl Waiting
                | Some v \<Rightarrow>
                    (case resource_by_id i v of
                       None \<Rightarrow> Inl NotFound
                     | Some r \<Rightarrow>
                         drill_page cc evidence_key v fl
                           (filter (\<lambda>e. str_contains (tx_lower tx (ev_operation e)) (list_query tx (df_q fl)) \<and>
                              asks (ev_check e) (df_check fl)) (rv_evidence r))))))"

end
