(* ===== verification/Page_Properties.thy ===== *)
theory Page_Properties
  imports Dashboard_Lists
begin

text \<open>Following the cursors of a list whose rows change between the requests.\<close>

section \<open>Following the cursors\<close>

definition cursor_ok :: "page_codec \<Rightarrow> page_key \<Rightarrow> bool" where
  "cursor_ok cc k \<longleftrightarrow>
     (case cc_encode cc k of None \<Rightarrow> False | Some t \<Rightarrow> length t \<le> 16384 \<and> cc_decode cc t = Some k) \<and>
     fst k \<le> 2 \<and> length (fst (snd k)) \<le> 4096 \<and> length (snd (snd k)) \<le> 8192"

text \<open>\<open>views k\<close> are the rows when the \<open>k\<close>-th page is asked for; \<open>None\<close> is a refused or an endless list.\<close>

fun follow ::
  "page_codec \<Rightarrow> ('a \<Rightarrow> page_key) \<Rightarrow> (nat \<Rightarrow> 'a list) \<Rightarrow> usize \<Rightarrow> nat \<Rightarrow> nat \<Rightarrow> string option \<Rightarrow> 'a list list option" where
  "follow cc key views limit 0 k after = None"
| "follow cc key views limit (Suc n) k after =
     (case select_page cc key (views k) after Next limit of
        Inl e \<Rightarrow> None
      | Inr s \<Rightarrow>
          (case sl_next s of
             None \<Rightarrow> Some [sl_items s]
           | Some c \<Rightarrow> map_option ((#) (sl_items s)) (follow cc key views limit n (Suc k) (Some c))))"

section \<open>One page\<close>

definition beyond :: "page_key option \<Rightarrow> page_key \<Rightarrow> bool" where
  "beyond b k \<longleftrightarrow> (case b of None \<Rightarrow> True | Some b \<Rightarrow> b < k)"

definition past :: "('a \<Rightarrow> page_key) \<Rightarrow> page_key option \<Rightarrow> 'a list \<Rightarrow> 'a list" where
  "past key b rows = filter (\<lambda>r. beyond b (key r)) (sort_key key rows)"

definition asked_with :: "page_codec \<Rightarrow> string option \<Rightarrow> page_key option \<Rightarrow> bool" where
  "asked_with cc after b \<longleftrightarrow>
     (case b of None \<Rightarrow> after = None | Some k \<Rightarrow> cursor_ok cc k \<and> after \<noteq> None \<and> after = cc_encode cc k)"

lemma asked_boundary: "asked_with cc after b \<Longrightarrow> page_boundary cc after = Inr b"
proof (cases b)
  case (Some k)
  assume "asked_with cc after b"
  then show ?thesis using Some by (cases k) (auto simp: asked_with_def cursor_ok_def page_boundary_def split: option.splits)
qed (simp add: asked_with_def page_boundary_def)

lemma drop_sorted:
  assumes "sorted (map key xs)"
  shows "drop (length (takeWhile (\<lambda>r. key r \<le> b) xs)) xs = filter (\<lambda>r. b < key r) xs"
  using assms
proof (induction xs)
  case (Cons x xs)
  then show ?case
    by (cases "key x \<le> b") (auto simp: not_le intro!: filter_True [symmetric] filter_False [symmetric]
        intro: less_le_trans order.strict_trans2)
qed simp

lemma past_sorted:
  assumes "distinct (map key rows)"
  shows "sorted_wrt (<) (map key (past key b rows))"
proof -
  have "sorted_wrt (<) (map key (sort_key key rows))"
    using assms by (simp add: strict_sorted_iff distinct_map)
  then show ?thesis unfolding past_def by (simp add: sorted_wrt_map sorted_wrt_filter)
qed

lemma selected_page:
  assumes asked: "asked_with cc after b" and rows: "\<forall>r \<in> set rows. cursor_ok cc (key r)"
    and limit: "0 < limit" and len: "length rows \<le> u64_max"
  obtains s where "select_page cc key rows after Next limit = Inr s" and "sl_items s = take limit (past key b rows)"
    and "sl_next s = (if limit < length (past key b rows) then cc_encode cc (key (last (take limit (past key b rows)))) else None)"
proof -
  let ?rows = "sort_key key rows" and ?start = "case b of None \<Rightarrow> 0 | Some b \<Rightarrow> length (takeWhile (\<lambda>r. key r \<le> b) (sort_key key rows))"
  let ?p = "past key b rows" and ?stop = "min (sat_add64 ?start limit) (length ?rows)"
  have range: "page_range key ?rows b Next limit = (?start, ?stop)"
    by (cases b) (simp_all add: page_range_def Let_def)
  have past: "drop ?start ?rows = ?p"
    by (cases b) (simp_all add: past_def beyond_def drop_sorted)
  have start: "?start \<le> length ?rows"
    using length_takeWhile_le [of _ ?rows] by (cases b) (simp_all del: length_sort)
  then have "length ?p = length ?rows - ?start" using past by (metis length_drop)
  have "?stop = min (?start + limit) (length ?rows)" using len by (auto simp: sat_add64_def)
  then have items: "drop ?start (take ?stop ?rows) = take limit ?p" and more: "?stop < length ?rows \<longleftrightarrow> limit < length ?p"
    using past start \<open>length ?p = _\<close> by (auto simp: drop_take min_def)
  have enc: "cc_encode cc (key r) \<noteq> None" if "r \<in> set ?p" for r
    using rows that by (auto simp: past_def cursor_ok_def split: option.splits)
  have first: "\<exists>q. edge_cursor cc key c (take limit ?p) = Inr q" for c
  proof (cases "take limit ?p")
    case (Cons r rs)
    then have "r \<in> set ?p" using in_set_takeD [of r limit ?p] by simp
    from enc [OF this] obtain t where "cc_encode cc (key r) = Some t" by blast
    then show ?thesis using Cons by (simp add: edge_cursor_def)
  qed (simp add: edge_cursor_def)
  have last: "edge_cursor cc key (limit < length ?p) (rev (take limit ?p)) =
      Inr (if limit < length ?p then cc_encode cc (key (last (take limit ?p))) else None)"
  proof (cases "limit < length ?p")
    case True
    then have ne: "take limit ?p \<noteq> []" using limit by auto
    then have "last (take limit ?p) \<in> set ?p" using last_in_set in_set_takeD by metis
    then show ?thesis using True ne enc by (auto simp: edge_cursor_def hd_rev split: option.splits)
  qed (simp add: edge_cursor_def)
  obtain q where q: "edge_cursor cc key (0 < ?start) (take limit ?p) = Inr q" using first by blast
  have "select_page cc key rows after Next limit = Inr \<lparr>sl_items = take limit ?p,
      sl_next = (if limit < length ?p then cc_encode cc (key (last (take limit ?p))) else None),
      sl_previous = q, sl_total = length ?rows\<rparr>"
    unfolding select_page_def Let_def asked_boundary [OF asked] sum.case range prod.case items more last q ..
  then show ?thesis using that by simp
qed

section \<open>All pages\<close>

lemma take_past:
  fixes key :: "'a \<Rightarrow> page_key"
  assumes "sorted_wrt (<) (map key ps)" and "limit < length ps" and "0 < limit" and "r \<in> set ps" and "key r \<le> key (last (take limit ps))"
  shows "r \<in> set (take limit ps)"
proof (rule ccontr)
  assume "r \<notin> set (take limit ps)"
  then have "r \<in> set (drop limit ps)" using assms(4) append_take_drop_id [of limit ps] by (metis Un_iff set_append)
  moreover have "take limit ps \<noteq> []" using assms(2,3) by auto
  then have "last (take limit ps) \<in> set (take limit ps)" by simp
  moreover have "sorted_wrt (<) (map key (take limit ps @ drop limit ps))" using assms(1) by simp
  ultimately have "key (last (take limit ps)) < key r" by (simp add: sorted_wrt_append del: append_take_drop_id)
  then show False using assms(5) by (metis leD)
qed

lemma le_last:
  assumes "sorted (map key xs)" and "r \<in> set xs"
  shows "key r \<le> key (last xs)"
  using assms
proof (induction xs)
  case (Cons x xs)
  then show ?case by (cases "xs = []") auto
qed simp

lemma follow_all:
  assumes limit: "0 < limit" and U: "finite U" "\<forall>u \<in> U. cursor_ok cc u" "card U \<le> u64_max"
    and views: "\<And>k. distinct (map key (views k)) \<and> key ` set (views k) \<subseteq> U"
  shows "asked_with cc after b \<Longrightarrow> card {u \<in> U. beyond b u} < n \<Longrightarrow>
    \<exists>ps. follow cc key views limit n k after = Some ps \<and> sorted_wrt (<) (map key (concat ps)) \<and>
      (\<forall>r \<in> set (concat ps). beyond b (key r) \<and> (\<exists>i. r \<in> set (views i))) \<and> (\<forall>p \<in> set ps. length p \<le> limit) \<and>
      (\<forall>u. beyond b u \<longrightarrow> (\<forall>i. u \<in> key ` set (views i)) \<longrightarrow> u \<in> key ` set (concat ps))"
proof (induction n arbitrary: k after b)
  case (Suc n)
  let ?p = "past key b (views k)"
  have "card (key ` set (views k)) \<le> card U" using views U(1) by (simp add: card_mono)
  then have len: "length (views k) \<le> u64_max"
    using views [of k] U(3) by (metis (no_types) distinct_card le_trans length_map set_map)
  have rows: "\<forall>r \<in> set (views k). cursor_ok cc (key r)" using views U(2) by blast
  obtain s where s: "select_page cc key (views k) after Next limit = Inr s" "sl_items s = take limit ?p"
      "sl_next s = (if limit < length ?p then cc_encode cc (key (last (take limit ?p))) else None)"
    by (rule selected_page [OF Suc.prems(1) rows limit len])
  have sorted: "sorted_wrt (<) (map key ?p)" using views by (blast intro: past_sorted)
  have inp: "r \<in> set ?p \<longleftrightarrow> r \<in> set (views k) \<and> beyond b (key r)" for r by (auto simp: past_def)
  show ?case
  proof (cases "limit < length ?p")
    case False
    then have "follow cc key views limit (Suc n) k after = Some [?p]" using s by simp
    moreover have "u \<in> key ` set ?p" if "beyond b u" "\<forall>i. u \<in> key ` set (views i)" for u
    proof -
      from that(2) obtain r where "r \<in> set (views k)" "u = key r" by blast
      then show ?thesis using that(1) inp by blast
    qed
    ultimately show ?thesis using False sorted inp by (intro exI [of _ "[?p]"]) auto
  next
    case True
    let ?l = "last (take limit ?p)"
    have "take limit ?p \<noteq> []" using True limit by auto
    then have l: "?l \<in> set (take limit ?p)" by simp
    then have lp: "?l \<in> set ?p" by (rule in_set_takeD)
    then have lv: "?l \<in> set (views k)" and lb: "beyond b (key ?l)" using inp by blast+
    have okl: "cursor_ok cc (key ?l)" using rows lv by blast
    then obtain t where t: "cc_encode cc (key ?l) = Some t" by (auto simp: cursor_ok_def split: option.splits)
    have asked: "asked_with cc (Some t) (Some (key ?l))" using okl t by (simp add: asked_with_def)
    have mono: "beyond (Some (key ?l)) u \<Longrightarrow> beyond b u" for u using lb by (auto simp: beyond_def split: option.splits)
    have "key ?l \<in> U" using lv views by blast
    then have "key ?l \<in> {u \<in> U. beyond b u}" and "key ?l \<notin> {u \<in> U. beyond (Some (key ?l)) u}"
      using lb by (simp_all add: beyond_def)
    then have "{u \<in> U. beyond (Some (key ?l)) u} \<subset> {u \<in> U. beyond b u}"
      using mono by blast
    then have "card {u \<in> U. beyond (Some (key ?l)) u} < card {u \<in> U. beyond b u}"
      using U(1) by (intro psubset_card_mono) simp_all
    then have "card {u \<in> U. beyond (Some (key ?l)) u} < n"
      using Suc.prems(2) by linarith
    from Suc.IH [OF asked this, of "Suc k"] obtain ps where
      ps: "follow cc key views limit n (Suc k) (Some t) = Some ps" "sorted_wrt (<) (map key (concat ps))"
        "\<forall>r \<in> set (concat ps). beyond (Some (key ?l)) (key r) \<and> (\<exists>i. r \<in> set (views i))" "\<forall>p \<in> set ps. length p \<le> limit"
        "\<forall>u. beyond (Some (key ?l)) u \<longrightarrow> (\<forall>i. u \<in> key ` set (views i)) \<longrightarrow> u \<in> key ` set (concat ps)"
      by blast
    have tail: "key r \<le> key ?l" if "r \<in> set (take limit ?p)" for r
    proof -
      have "sorted (map key (take limit ?p))" using sorted by (simp add: strict_sorted_iff take_map [symmetric] sorted_wrt_take)
      then show ?thesis using that by (rule le_last)
    qed
    have "follow cc key views limit (Suc n) k after = Some (take limit ?p # ps)" using s True t ps(1) by simp
    moreover have "sorted_wrt (<) (map key (concat (take limit ?p # ps)))"
    proof -
      have "sorted_wrt (<) (map key (take limit ?p))" using sorted by (simp add: take_map [symmetric] sorted_wrt_take)
      moreover have "key r < key r'" if "r \<in> set (take limit ?p)" "r' \<in> set (concat ps)" for r r'
        using tail [OF that(1)] ps(3) that(2) by (auto simp: beyond_def intro: le_less_trans)
      ultimately show ?thesis using ps(2) by (simp add: sorted_wrt_append) blast
    qed
    moreover have "u \<in> key ` set (concat (take limit ?p # ps))" if u: "beyond b u" "\<forall>i. u \<in> key ` set (views i)" for u
    proof (cases "u \<le> key ?l")
      case True
      from u(2) obtain r where "r \<in> set (views k)" "u = key r" by blast
      then show ?thesis using take_past [OF sorted \<open>limit < length ?p\<close> limit, of r] True u(1) inp by auto
    next
      case False
      then have "beyond (Some (key ?l)) u" by (simp add: beyond_def)
      then have "u \<in> key ` set (concat ps)" using ps(5) u(2) by blast
      then show ?thesis by auto
    qed
    moreover have "\<forall>r \<in> set (concat (take limit ?p # ps)). beyond b (key r) \<and> (\<exists>i. r \<in> set (views i))"
      unfolding concat.simps set_append ball_Un using ps(3) mono inp by (blast dest: in_set_takeD)
    ultimately show ?thesis using ps(4) by (intro exI [of _ "take limit ?p # ps"]) auto
  qed
qed simp

section \<open>Property\<close>

text \<open>C29: Rows may come and go between two requests of a list. Following its cursors ends, lists no row twice and
  all in order, and every row that stays is listed.\<close>

theorem pages_list_every_row_that_stays:
  assumes "0 < limit" and "finite U" and "\<forall>u \<in> U. cursor_ok cc u" and "card U \<le> u64_max"
    and "\<And>k. distinct (map key (views k)) \<and> key ` set (views k) \<subseteq> U"
  shows "\<exists>ps. follow cc key views limit (Suc (card U)) 0 None = Some ps \<and> sorted_wrt (<) (map key (concat ps)) \<and>
    (\<forall>u. (\<forall>k. u \<in> key ` set (views k)) \<longrightarrow> u \<in> key ` set (concat ps)) \<and>
    (\<forall>r \<in> set (concat ps). \<exists>k. r \<in> set (views k)) \<and> (\<forall>p \<in> set ps. length p \<le> limit)"
proof -
  have "asked_with cc None None" and "card {u \<in> U. beyond None u} < Suc (card U)"
    by (simp_all add: asked_with_def beyond_def)
  from follow_all [where views = views, OF assms(1-4) assms(5) this, where k = 0]
  show ?thesis by (simp add: beyond_def del: follow.simps) blast
qed

definition plain_codec :: page_codec where
  "plain_codec = \<lparr>cc_encode = (\<lambda>(p, res, i). Some (char_of p # res)), cc_decode = (\<lambda>t. case t of [] \<Rightarrow> None | c # s \<Rightarrow> Some (of_char c, s, [])),
     cc_wrap = (\<lambda>_ p. Some p), cc_unwrap = (\<lambda>t. Some ([], t))\<rparr>"

definition letters :: "string \<Rightarrow> page_key list" where
  "letters = map (\<lambda>c. (0, [c], []))"

text \<open>\<open>b\<close>, \<open>d\<close> and \<open>e\<close> stay, \<open>c\<close> goes and \<open>a\<close> comes after the first page.\<close>

definition moving :: "nat \<Rightarrow> page_key list" where
  "moving k = (if k = 0 then letters ''bcde'' else letters ''abde'')"

lemma moving_pages:
  "select_page plain_codec id (moving 0) None Next 2 =
     Inr \<lparr>sl_items = letters ''bc'', sl_next = Some (char_of (0 :: nat) # ''c''), sl_previous = None, sl_total = 4\<rparr>"
  "select_page plain_codec id (moving (Suc 0)) (Some (char_of (0 :: nat) # ''c'')) Next 2 =
     Inr \<lparr>sl_items = letters ''de'', sl_next = None, sl_previous = Some (char_of (0 :: nat) # ''d''), sl_total = 4\<rparr>"
  by (simp_all add: select_page_def Let_def page_range_def page_boundary_def edge_cursor_def plain_codec_def moving_def
      letters_def sat_add64_def u64_max_def less_char_def less_eq_char_def)

theorem pages_list_every_row_that_stays_witness:
  "follow plain_codec id moving 2 6 0 None = Some [letters ''bc'', letters ''de''] \<and>
   (0, ''d'', []) \<in> set (concat (the (follow plain_codec id moving 2 6 0 None)))"
proof -
  let ?U = "set (letters ''abcde'')"
  have U: "finite ?U" "card ?U = 5" by (simp_all add: letters_def)
  have ok: "\<forall>u \<in> ?U. cursor_ok plain_codec u" by (simp add: letters_def cursor_ok_def plain_codec_def)
  have "distinct (map id (moving k)) \<and> id ` set (moving k) \<subseteq> ?U" for k by (simp add: moving_def letters_def)
  from pages_list_every_row_that_stays [where views = moving, OF _ U(1) ok _ this, of 2]
  obtain ps where ps: "follow plain_codec id moving 2 6 0 None = Some ps"
      "\<forall>u. (\<forall>k. u \<in> set (moving k)) \<longrightarrow> u \<in> set (concat ps)"
    by (auto simp: U u64_max_def)
  have "(0, ''d'', []) \<in> set (concat ps)" using ps(2) by (simp add: moving_def letters_def)
  moreover have "follow plain_codec id moving 2 6 0 None = Some [letters ''bc'', letters ''de'']"
  proof -
    have "(6 :: nat) = Suc (Suc 4)" by simp
    then show ?thesis by (simp only: follow.simps moving_pages) (simp add: moving_pages)
  qed
  ultimately show ?thesis using ps(1) by simp
qed

end
