(* ===== verification/Bus.thy ===== *)
theory Bus
  imports Dashboard Query_Recorder Journal
begin

text \<open>
  How the server publishes a snapshot: \<open>crates/server/src/bus.rs\<close> with the query records of \<open>query_publish.rs\<close>,
  \<open>query_projection.rs\<close> and \<open>query_observations.rs\<close>. Printing (\<open>text_api\<close>), the host of a URL, SHA-256 and JSON
  lengths are parameters.
\<close>

section \<open>Projections\<close>

fun q_provider_of :: "provider \<Rightarrow> q_provider" where
  "q_provider_of Gcp = QGcp" | "q_provider_of Aws = QAws" | "q_provider_of Azure = QAzure"
| "q_provider_of Kubernetes = QKubernetes" | "q_provider_of Github = QGithub" | "q_provider_of Edge = QEdge"
| "q_provider_of Nats = QNats"

fun q_check_of :: "check \<Rightarrow> q_check" where
  "q_check_of CPreflight = QCPreflight" | "q_check_of CDiscovery = QCDiscovery" | "q_check_of CInventory = QCInventory"
| "q_check_of CKubernetes = QCKubernetes" | "q_check_of CEdge = QCEdge" | "q_check_of CManaged = QCManaged"
| "q_check_of CQueues = QCQueues" | "q_check_of CReleases = QCReleases" | "q_check_of CGithub = QCGithub"
| "q_check_of CMetrics = QCMetrics" | "q_check_of CLogs = QCLogs" | "q_check_of CAlerts = QCAlerts"
| "q_check_of CSlo = QCSlo" | "q_check_of CFlows = QCFlows"

fun q_severity_of :: "severity \<Rightarrow> q_severity" where
  "q_severity_of Info = QInfo" | "q_severity_of Warning = QWarning" | "q_severity_of Error = QError"

fun q_expected_of :: "expected \<Rightarrow> q_expected" where
  "q_expected_of Active = QActive" | "q_expected_of Dormant = QDormant" | "q_expected_of ScaleToZero = QScaleToZero"
| "q_expected_of Suspended = QSuspended"

fun q_confidence_of :: "confidence \<Rightarrow> q_confidence" where
  "q_confidence_of confidence.Direct = QDirect" | "q_confidence_of Correlated = QCorrelated" | "q_confidence_of Insufficient = QInsufficient"

fun q_coverage_of :: "coverage \<Rightarrow> q_coverage" where
  "q_coverage_of Complete = QComplete" | "q_coverage_of Denied = QDenied" | "q_coverage_of Unauthenticated = QUnauthenticated"
| "q_coverage_of Unavailable = QUnavailable" | "q_coverage_of Unsupported = QUnsupported" | "q_coverage_of Missing = QMissing"
| "q_coverage_of Truncated = QTruncated" | "q_coverage_of Timeout = QTimeout" | "q_coverage_of Cancelled = QCancelled"
| "q_coverage_of Malformed = QMalformed" | "q_coverage_of Stale = QStale" | "q_coverage_of InventoryOnly = QInventoryOnly"

fun q_log_class_of :: "log_class \<Rightarrow> q_log_class" where
  "q_log_class_of LImport = QImport" | "q_log_class_of LPanic = QPanic" | "q_log_class_of LOutOfMemory = QOutOfMemory"
| "q_log_class_of LConnection = QConnection" | "q_log_class_of LPermission = QPermission"
| "q_log_class_of LTimeout = QLogTimeout" | "q_log_class_of LWarning = QLogWarning" | "q_log_class_of LOtherError = QOtherError"

record publish_api =
  pb_text :: text_api
  pb_host :: "string \<Rightarrow> string option"
  pb_recorder :: recorder_codec
  pb_digests :: digests

definition target_scope :: "target_view \<Rightarrow> q_scope" where
  "target_scope t = \<lparr>qs_target = tv_name t, qs_provider = q_provider_of (tv_provider t), qs_scope = tv_scope t\<rparr>"

definition context_scope :: "target_view \<Rightarrow> resource_context option \<Rightarrow> q_scope" where
  "context_scope t context =
     (case context of
        None \<Rightarrow> target_scope t
      | Some c \<Rightarrow> (target_scope t)\<lparr>qs_provider := q_provider_of (rc_provider c), qs_scope := rc_scope c\<rparr>)"

definition q_location_of :: "publish_api \<Rightarrow> resource_context option \<Rightarrow> q_location" where
  "q_location_of pb context =
     (case context of
        None \<Rightarrow> \<lparr>ql_native_id = None, ql_region = None, ql_zone = None, ql_cluster = None, ql_namespace = None,
                 ql_service = None, ql_hostname = None, ql_uid = None, ql_container = None\<rparr>
      | Some c \<Rightarrow> \<lparr>ql_native_id = Some (rc_native_id c), ql_region = rc_region c, ql_zone = rc_zone c,
                 ql_cluster = rc_cluster c, ql_namespace = rc_namespace c, ql_service = Some (rc_service c),
                 ql_hostname = pb_host pb (rc_native_id c), ql_uid = rc_uid c, ql_container = rc_container c\<rparr>)"

definition q_fact_of :: "fact \<Rightarrow> q_fact" where
  "q_fact_of f = \<lparr>qa_label = fa_label f, qa_value = fa_value f\<rparr>"

definition q_link_of :: "link \<Rightarrow> q_link" where
  "q_link_of l = \<lparr>qi_label = li_label l, qi_url = li_url l\<rparr>"

definition q_facts :: "publish_api \<Rightarrow> data \<Rightarrow> q_fact list" where
  "q_facts pb d = map q_fact_of (data_facts (pb_text pb) d)"

definition q_links :: "resource_context option \<Rightarrow> q_link list" where
  "q_links context = map q_link_of (console_links context)"

definition finding_record :: "publish_api \<Rightarrow> target_view list \<Rightarrow> finding_view \<Rightarrow> q_record option" where
  "finding_record pb ts f =
     (case List.find (\<lambda>t. tv_name t = fv_target f) ts of
        None \<Rightarrow> None
      | Some t \<Rightarrow>
          (let d = fv_diagnostic f; context = (case d of None \<Rightarrow> None | Some d \<Rightarrow> dv_context d);
               seen = (case d of None \<Rightarrow> fv_observed_at f | Some d \<Rightarrow> dv_last_detected_at d)
           in Some \<lparr>qr_id = fv_id f, qr_identity = fv_id f, qr_scope = context_scope t context,
                qr_location = q_location_of pb context, qr_check = map_option q_check_of (fv_check f),
                qr_resource = Some (fv_resource f), qr_observed_at = seen, qr_last_observed_at = seen,
                qr_valid_until = fv_valid_until f, qr_closed_at = None, qr_stale = fv_stale f,
                qr_details = DFinding \<lparr>fd_rule = fv_rule f, fd_severity = q_severity_of (fv_severity f), fd_state = QStillActive,
                  fd_first_detected_at = first_detected_at f, fd_expected = q_expected_of (fv_expected f),
                  fd_confidence = q_confidence_of (fv_confidence f),
                  fd_facts = (case d of None \<Rightarrow> [] | Some d \<Rightarrow> map q_fact_of (dv_facts d)),
                  fd_links = (case d of None \<Rightarrow> [] | Some d \<Rightarrow> map q_link_of (dv_links d)), fd_legacy = (d = None)\<rparr>\<rparr>))"

definition incomplete_operations :: "check_result \<Rightarrow> operation list" where
  "incomplete_operations res = filter (\<lambda>p. op_coverage p \<noteq> Complete) (r_operations res)"

definition check_record :: "publish_api \<Rightarrow> (string, health) bmap \<Rightarrow> job \<Rightarrow> target_view \<Rightarrow> check_result \<Rightarrow> q_record" where
  "check_record pb health j t res =
     (let i = r_target res @ ''/'' @ check_name (r_check res); ops = incomplete_operations res
      in \<lparr>qr_id = i, qr_identity = i, qr_scope = target_scope t, qr_location = q_location_of pb None,
          qr_check = Some (q_check_of (r_check res)), qr_resource = None, qr_observed_at = r_finished_at res,
          qr_last_observed_at = r_finished_at res,
          qr_valid_until = Some (seconds_after (freshness (j_settings j)) (r_finished_at res)),
          qr_closed_at = None, qr_stale = False,
          qr_details = DCheck \<lparr>kd_required = s_required (j_settings j), kd_started_at = r_started_at res,
            kd_finished_at = r_finished_at res,
            kd_oldest_observation_at = (if r_observations res = [] then None
              else Some (Min (set (map o_observed_at (r_observations res))))),
            kd_complete = result_complete res, kd_observations = length (r_observations res),
            kd_interval_seconds = s_interval (j_settings j), kd_required_failures = length (filter op_required ops),
            kd_pending_observations = length (filter (\<lambda>ob. o_expected ob = Active \<and> is_health_evidence (o_data ob) \<and>
              bm_get health (o_resource ob) = Some Unknown) (r_observations res)),
            kd_operations = map (\<lambda>p. \<lparr>qo_name = op_id p, qo_coverage = q_coverage_of (op_coverage p),
              qo_required = op_required p, qo_observed_at = op_observed_at p\<rparr>) (take 128 ops),
            kd_operations_truncated = (128 < length ops)\<rparr>\<rparr>)"

section \<open>Logs and releases\<close>

text \<open>The window a group of log entries was read in.\<close>

definition is_window :: "data \<Rightarrow> bool" where
  "is_window d = (case d of LogWindow _ _ _ _ _ _ _ \<Rightarrow> True | _ \<Rightarrow> False)"

definition log_details_of :: "publish_api \<Rightarrow> check_result \<Rightarrow> observation \<Rightarrow> log_class \<Rightarrow> u64 \<Rightarrow> instant \<Rightarrow> instant \<Rightarrow> bool \<Rightarrow> log_details" where
  "log_details_of pb res ob signature n first_seen last_seen sampled =
     (let w = map_option o_data (List.find (\<lambda>o'. o_operation o' = o_operation ob \<and> is_window (o_data o')) (r_observations res));
          (start, stop, scanned, duplicates, whole, gap) = (case w of
             Some (LogWindow gap start stop scanned duplicates _ whole) \<Rightarrow> (start, stop, scanned, duplicates, whole, gap)
           | _ \<Rightarrow> (first_seen, last_seen, 0, 0, False, 0))
      in \<lparr>gd_signature = q_log_class_of signature, gd_count = n, gd_first_seen = first_seen, gd_last_seen = last_seen,
          gd_window_start = start, gd_window_end = stop, gd_sampled = sampled, gd_scanned = scanned,
          gd_duplicates = duplicates, gd_complete = whole, gd_gap_seconds = gap,
          gd_links = q_links (o_context ob) @ map q_link_of (log_links (pb_text pb) (o_context ob) (o_data ob))\<rparr>)"

fun observed_details :: "publish_api \<Rightarrow> check_result \<Rightarrow> observation \<Rightarrow> data \<Rightarrow> details option" where
  "observed_details pb res ob (Log signature n first_seen last_seen sampled) =
     Some (DDiagnostic (log_details_of pb res ob signature n first_seen last_seen sampled))"
| "observed_details pb res ob (Image _ digest revision) =
     Some (DRelease \<lparr>rd_revision = revision, rd_observed_digests = (case digest of None \<Rightarrow> [] | Some d \<Rightarrow> [d]),
       rd_desired_digest = None, rd_pending = (digest = None), rd_verified = False, rd_facts = q_facts pb (o_data ob),
       rd_links = q_links (o_context ob)\<rparr>)"
| "observed_details pb res ob (Provenance _ observed desired undeployed revision _ registry build committed mismatch) =
     Some (DRelease \<lparr>rd_revision = revision, rd_observed_digests = observed, rd_desired_digest = desired,
       rd_pending = undeployed, rd_verified = (registry \<and> build \<and> committed \<and> \<not> mismatch), rd_facts = q_facts pb (o_data ob),
       rd_links = q_links (o_context ob)\<rparr>)"
| "observed_details pb res ob _ = None"

definition observation_record :: "publish_api \<Rightarrow> job \<Rightarrow> target_view \<Rightarrow> check_result \<Rightarrow> observation \<Rightarrow> q_record option" where
  "observation_record pb j t res ob =
     (case observed_details pb res ob (o_data ob) of
        None \<Rightarrow> None
      | Some d \<Rightarrow>
          Some \<lparr>qr_id = o_resource ob, qr_identity = o_resource ob @ ''/'' @ check_name (r_check res) @ ''/'' @ o_operation ob,
            qr_scope = context_scope t (o_context ob), qr_location = q_location_of pb (o_context ob),
            qr_check = Some (q_check_of (r_check res)), qr_resource = Some (o_resource ob),
            qr_observed_at = (case d of DDiagnostic g \<Rightarrow> gd_first_seen g | _ \<Rightarrow> o_observed_at ob),
            qr_last_observed_at = (case d of DDiagnostic g \<Rightarrow> gd_last_seen g | _ \<Rightarrow> o_observed_at ob),
            qr_valid_until = Some (seconds_after (freshness (j_settings j)) (o_observed_at ob)),
            qr_closed_at = None, qr_stale = False, qr_details = d\<rparr>)"

definition result_records :: "publish_api \<Rightarrow> (string, health) bmap \<Rightarrow> job \<Rightarrow> target_view \<Rightarrow> check_result \<Rightarrow> q_record list" where
  "result_records pb health j t res =
     check_record pb health j t res # List.map_filter (observation_record pb j t res) (r_observations res)"

section \<open>Query records of one publication\<close>

text \<open>A result the previous view has shown is not recorded again.\<close>

definition already_shown :: "view option \<Rightarrow> string \<Rightarrow> check_result \<Rightarrow> bool" where
  "already_shown previous k res \<longleftrightarrow>
     (case previous of None \<Rightarrow> False | Some v \<Rightarrow> is_some_and (\<lambda>s. stamp_matches s res) (bm_get (vw_result_stamps v) k))"

definition job_records :: "publish_api \<Rightarrow> snapshot \<Rightarrow> view \<Rightarrow> view option \<Rightarrow> job \<Rightarrow> q_record list" where
  "job_records pb sn v previous j =
     (case bm_get (sn_results sn) (j_key j) of
        None \<Rightarrow> []
      | Some res \<Rightarrow>
          if already_shown previous (j_key j) res then []
          else (case List.find (\<lambda>t. tv_name t = t_name (j_target j)) (vw_targets v) of
                  None \<Rightarrow> []
                | Some t \<Rightarrow> result_records pb (sn_health sn) j t res))"

definition closes :: "transition \<Rightarrow> bool" where
  "closes t \<longleftrightarrow> tr_kind t = TRecovered \<or> tr_kind t = TRemoved"

fun capture_all ::
  "recorder_codec \<Rightarrow> instant \<Rightarrow> q_record list \<Rightarrow> recorder \<Rightarrow> (history_error + query_row) list \<times> recorder" where
  "capture_all rk now [] rc = ([], rc)"
| "capture_all rk now (r # rs) rc =
     (let (out, rc) = capture rk now r rc;
          (rows, rc) = capture_all rk now rs rc
      in ((case out of Inl e \<Rightarrow> [Inl e] | Inr xs \<Rightarrow> map Inr xs) @ rows, rc))"

fun close_all :: "transition list \<Rightarrow> recorder \<Rightarrow> (history_error + query_row) list \<times> recorder" where
  "close_all [] rc = ([], rc)"
| "close_all (t # ts) rc =
     (let (out, rc) = close_finding (tr_finding t) (tr_at t) (tr_kind t = TRemoved) rc;
          (rows, rc) = close_all ts rc
      in ((case out of None \<Rightarrow> [] | Some row \<Rightarrow> [Inr row]) @ rows, rc))"

definition publish_records ::
  "publish_api \<Rightarrow> snapshot \<Rightarrow> effective \<Rightarrow> view \<Rightarrow> view option \<Rightarrow> transition list \<Rightarrow> recorder \<Rightarrow>
   (history_error + query_row) list \<times> recorder" where
  "publish_records pb sn ef v previous ts rc =
     (let rs = concat (map (job_records pb sn v previous) (ef_jobs ef)) @
               List.map_filter (finding_record pb (vw_targets v)) (vw_findings v);
          (rows, rc) = capture_all (pb_recorder pb) (sn_captured_at sn) rs rc;
          (more_rows, rc) = close_all (filter closes ts) rc
      in (rows @ more_rows, rc))"

section \<open>The bus\<close>

record bus =
  bu_view :: "view option"
  bu_recorder :: recorder
  bu_generation :: u64
  bu_changed :: u64
  bu_heartbeat :: int
  bu_running :: bool

definition new_bus :: bus where
  "new_bus = \<lparr>bu_view = None, bu_recorder = new_recorder, bu_generation = 0, bu_changed = 0, bu_heartbeat = 0, bu_running = False\<rparr>"

text \<open>What one update hands to the journal.\<close>

record submission =
  sb_revision :: string
  sb_runs :: "(history_error + run) list"
  sb_events :: "(history_error + event_row) list"
  sb_rows :: "(history_error + query_row) list"

definition unchanged :: "snapshot \<Rightarrow> transition list \<Rightarrow> view option \<Rightarrow> bool" where
  "unchanged sn ts previous \<longleftrightarrow> ts = [] \<and>
     is_some_and (\<lambda>v. vw_captured_at v = sn_captured_at sn \<and> vw_revision v = sn_revision sn \<and>
        vw_persistence_fault v = sn_persistence_fault sn) previous"

definition new_results :: "snapshot \<Rightarrow> view option \<Rightarrow> (string \<times> check_result) list" where
  "new_results sn previous =
     filter (\<lambda>(k, res). r_revision res = sn_revision sn \<and> \<not> already_shown previous k res) (sn_results sn)"

definition event_of :: "digests \<Rightarrow> snapshot \<Rightarrow> view \<Rightarrow> view option \<Rightarrow> transition \<Rightarrow> history_error + event_row" where
  "event_of dg sn v previous t =
     (case bm_get (sn_findings sn) (tr_finding t) of
        Some f \<Rightarrow> new_event dg (target_of (f_resource f) (vw_targets v)) t f
      | None \<Rightarrow>
          (case (case previous of None \<Rightarrow> None | Some p \<Rightarrow> List.find (\<lambda>f. fv_id f = tr_finding t) (vw_findings p)) of
             None \<Rightarrow> Inl HRecord
           | Some old \<Rightarrow> new_event dg (fv_target old) t (finding_source old)))"

text \<open>\<open>Bus::update\<close>; what it hands to the journal is \<open>None\<close> when it hands over nothing.\<close>

definition bus_update ::
  "publish_api \<Rightarrow> snapshot \<Rightarrow> effective \<Rightarrow> transition list \<Rightarrow> bus \<Rightarrow> bus \<times> submission option" where
  "bus_update pb sn ef ts b =
     (let previous = bu_view b
      in if unchanged sn ts previous then (b, None)
         else (let g = (bu_generation b + 1) mod 2 ^ 64;
                   v = build_view (pb_text pb) sn ef g;
                   b = b\<lparr>bu_generation := g, bu_view := Some v, bu_changed := g\<rparr>
               in if is_digest (sn_revision sn)
                  then (let rc = retain_resources (rv_id ` set (vw_resources v)) (bu_recorder b);
                            (rows, rc) = publish_records pb sn ef v previous ts rc
                        in (b\<lparr>bu_recorder := rc\<rparr>,
                            Some \<lparr>sb_revision = sn_revision sn,
                              sb_runs = map (\<lambda>(_, res). new_run (pb_digests pb) res) (new_results sn previous),
                              sb_events = map (event_of (pb_digests pb) sn v previous) ts, sb_rows = rows\<rparr>))
                  else (b, None)))"

definition bus_submit :: "journal_limits \<Rightarrow> lengths \<Rightarrow> bool \<Rightarrow> submission option \<Rightarrow> journal \<Rightarrow> journal" where
  "bus_submit jl le shut s jo =
     (case s of None \<Rightarrow> jo | Some s \<Rightarrow> submit jl le shut (sb_revision s) (sb_runs s) (sb_events s) (sb_rows s) jo)"

definition bus_heartbeat :: "int \<Rightarrow> bool \<Rightarrow> bus \<Rightarrow> bus" where
  "bus_heartbeat ms running b = b\<lparr>bu_heartbeat := ms, bu_running := running\<rparr>"

end
