(* ===== verification/Bus_Properties.thy ===== *)
theory Bus_Properties
  imports Bus Dashboard_Properties
begin

text \<open>What reaches the journal while the bus publishes one snapshot after the other.\<close>

section \<open>A sequence of updates\<close>

type_synonym publication = "snapshot \<times> effective \<times> transition list"

text \<open>The snapshots that were published, with what was handed to the journal and the results that were new.\<close>

fun publish_all ::
  "publish_api \<Rightarrow> publication list \<Rightarrow> bus \<Rightarrow> (snapshot \<times> submission \<times> (string \<times> check_result) list) list" where
  "publish_all pb [] b = []"
| "publish_all pb ((sn, ef, ts) # us) b =
     (let (b', s) = bus_update pb sn ef ts b
      in (case s of None \<Rightarrow> [] | Some s \<Rightarrow> [(sn, s, new_results sn (bu_view b))]) @ publish_all pb us b')"

definition shown_stamp :: "string \<Rightarrow> view option \<Rightarrow> result_stamp option" where
  "shown_stamp k v = (case v of None \<Rightarrow> None | Some v \<Rightarrow> bm_get (vw_result_stamps v) k)"

definition stamp_in :: "string \<Rightarrow> snapshot \<Rightarrow> result_stamp option" where
  "stamp_in k sn = map_option stamp_of (bm_get (sn_results sn) k)"

definition handed :: "string \<Rightarrow> (string \<times> check_result) list \<Rightarrow> result_stamp list" where
  "handed k rs = map (stamp_of \<circ> snd) (filter (\<lambda>r. fst r = k) rs)"

text \<open>What the scheduler and the state guarantee of the snapshots of one revision.\<close>

definition update_ok :: "string \<Rightarrow> publication \<Rightarrow> bool" where
  "update_ok v = (\<lambda>(sn, ef, ts). is_digest (sn_revision sn) \<and> sn_revision sn = v \<and> bm_wf (sn_results sn) \<and>
     list_all (\<lambda>(k, res). k \<in> j_key ` set (ef_jobs ef) \<and> r_revision res = v) (sn_results sn))"

section \<open>Stamps\<close>

lemma stamp_matches_iff: "stamp_matches s res \<longleftrightarrow> s = stamp_of res"
  by (cases s) (auto simp: stamp_matches_def stamp_of_def)

lemma stamps_fold:
  "bm_get (fold (\<lambda>j m. case bm_get (sn_results sn) (j_key j) of None \<Rightarrow> m | Some r \<Rightarrow> bm_put (j_key j) (stamp_of r) m) js m) k =
     (if k \<in> j_key ` set js \<and> bm_get (sn_results sn) k \<noteq> None then stamp_in k sn else bm_get m k)"
  by (induction js arbitrary: m) (auto simp: get_bm_put stamp_in_def split: option.splits)

lemma view_stamp:
  assumes "update_ok v (sn, ef, ts)"
  shows "shown_stamp k (Some (build_view tx sn ef g)) = stamp_in k sn"
proof -
  have "k \<in> j_key ` set (ef_jobs ef)" if "bm_get (sn_results sn) k = Some r" for r
    using assms map_of_SomeD [OF that] by (auto simp: update_ok_def list_all_iff)
  then show ?thesis
    by (cases "bm_get (sn_results sn) k") (auto simp: shown_stamp_def build_view_def Let_def stamps_of_def stamps_fold stamp_in_def)
qed

lemma filter_key:
  assumes "distinct (map fst m)"
  shows "filter (\<lambda>r. fst r = k \<and> P (snd r)) m = (case bm_get m k of None \<Rightarrow> [] | Some res \<Rightarrow> if P res then [(k, res)] else [])"
  using assms
proof (induction m)
  case (Cons a m)
  show ?case
  proof (cases "fst a = k")
    case True
    then have "filter (\<lambda>r. fst r = k \<and> P (snd r)) m = []" using Cons.prems by (auto simp: filter_empty_conv rev_image_eqI)
    then show ?thesis using True by (cases a) simp
  next
    case False
    then show ?thesis using Cons by (cases a) simp
  qed
qed simp

lemma handed_new:
  assumes "update_ok v (sn, ef, ts)"
  shows "handed k (new_results sn prev) =
     (case stamp_in k sn of None \<Rightarrow> [] | Some s \<Rightarrow> if shown_stamp k prev = Some s then [] else [s])"
proof -
  let ?new = "\<lambda>res. \<not> already_shown prev k res"
  have all: "\<forall>r \<in> set (sn_results sn). r_revision (snd r) = v" and wf: "bm_wf (sn_results sn)" and v: "sn_revision sn = v"
    using assms by (auto simp: update_ok_def list_all_iff)
  have "filter (\<lambda>r. fst r = k) (new_results sn prev) = filter (\<lambda>r. fst r = k \<and> ?new (snd r)) (sn_results sn)"
    using all v by (auto simp: new_results_def filter_filter intro!: filter_cong)
  also have "\<dots> = (case bm_get (sn_results sn) k of None \<Rightarrow> [] | Some res \<Rightarrow> if ?new res then [(k, res)] else [])"
    using wf by (intro filter_key) (simp add: bm_wf_def strict_sorted_iff)
  finally show ?thesis
    by (auto simp: handed_def stamp_in_def already_shown_def shown_stamp_def is_some_and_def stamp_matches_iff split: option.splits)
qed

lemma update_view:
  assumes "bus_update pb sn ef ts b = (b', s)" and "update_ok v (sn, ef, ts)"
  shows "s = None \<and> b' = b \<or> (\<exists>x g. s = Some x \<and> bu_view b' = Some (build_view (pb_text pb) sn ef g) \<and>
      sb_runs x = map (\<lambda>(_, res). new_run (pb_digests pb) res) (new_results sn (bu_view b)))"
  using assms by (auto simp: bus_update_def update_ok_def Let_def split: if_splits prod.splits)

lemma remdups_from: "remdups_adj (x # xs) = x # tl (remdups_adj (x # xs))"
  by (cases "remdups_adj (x # xs)") (auto simp: remdups_adj_Cons split: list.splits if_splits)

lemma handed_sequence:
  assumes "\<forall>u \<in> set us. update_ok v u"
  shows "concat (map (\<lambda>(_, _, rs). handed k rs) (publish_all pb us b)) =
    List.map_filter id (tl (remdups_adj (shown_stamp k (bu_view b) # map (\<lambda>(sn, _). stamp_in k sn) (publish_all pb us b))))"
  using assms
proof (induction us arbitrary: b)
  case (Cons u us)
  obtain sn ef ts where u: "u = (sn, ef, ts)" by (cases u)
  obtain b' s where up: "bus_update pb sn ef ts b = (b', s)" by (cases "bus_update pb sn ef ts b")
  have ok: "update_ok v (sn, ef, ts)" using Cons.prems u by simp
  let ?p = "shown_stamp k (bu_view b)" and ?rest = "publish_all pb us b'"
  from update_view [OF up ok] show ?case
  proof
    assume "s = None \<and> b' = b"
    then show ?thesis using Cons by (simp add: u up)
  next
    assume "\<exists>x g. s = Some x \<and> bu_view b' = Some (build_view (pb_text pb) sn ef g) \<and>
      sb_runs x = map (\<lambda>(_, res). new_run (pb_digests pb) res) (new_results sn (bu_view b))"
    then obtain x g where x: "s = Some x" and b': "bu_view b' = Some (build_view (pb_text pb) sn ef g)" by blast
    have p': "shown_stamp k (bu_view b') = stamp_in k sn" unfolding b' using ok by (rule view_stamp)
    let ?xs = "map (\<lambda>(sn, _). stamp_in k sn) ?rest"
    have "tl (remdups_adj (?p # stamp_in k sn # ?xs)) =
        (if ?p = stamp_in k sn then [] else [stamp_in k sn]) @ tl (remdups_adj (stamp_in k sn # ?xs))"
      using remdups_from [of "stamp_in k sn" ?xs] by simp
    then show ?thesis
      using Cons by (auto simp: u up x p' handed_new [OF ok] List.map_filter_def split: option.splits)
  qed
qed (simp add: List.map_filter_def)

lemma runs_sequence:
  assumes "\<forall>u \<in> set us. update_ok v u"
  shows "map (\<lambda>(_, s, _). sb_runs s) (publish_all pb us b) =
      map (\<lambda>(_, _, rs). map (\<lambda>(_, res). new_run (pb_digests pb) res) rs) (publish_all pb us b)"
  using assms
proof (induction us arbitrary: b)
  case (Cons u us)
  obtain sn ef ts where u: "u = (sn, ef, ts)" by (cases u)
  obtain b' s where up: "bus_update pb sn ef ts b = (b', s)" by (cases "bus_update pb sn ef ts b")
  have ok: "update_ok v (sn, ef, ts)" using Cons.prems u by simp
  have rest: "map (\<lambda>(_, s, _). sb_runs s) (publish_all pb us b') =
      map (\<lambda>(_, _, rs). map (\<lambda>(_, res). new_run (pb_digests pb) res) rs) (publish_all pb us b')"
    using Cons by simp
  show ?case
  proof (cases s)
    case (Some x)
    then have "sb_runs x = map (\<lambda>(_, res). new_run (pb_digests pb) res) (new_results sn (bu_view b))"
      using update_view [OF up ok] by blast
    then show ?thesis using rest Some by (simp only: u publish_all.simps up Let_def) simp
  qed (use rest in \<open>simp add: u up\<close>)
qed simp

lemma drop_none: "List.map_filter id (None # xs) = List.map_filter id xs"
  by (simp add: List.map_filter_def)

lemma present_after_none:
  "List.map_filter id (tl (remdups_adj (None # xs))) = List.map_filter id (remdups_adj xs)"
proof (cases xs)
  case (Cons x ys)
  show ?thesis
  proof (cases x)
    case None
    have "List.map_filter id (remdups_adj (None # ys)) = List.map_filter id (tl (remdups_adj (None # ys)))"
      by (metis remdups_from drop_none)
    then show ?thesis using None Cons by simp
  qed (simp add: Cons)
qed simp

section \<open>Property\<close>

text \<open>C27: Under one revision the journal is handed each result of a check once, when the first publication shows it,
  in the order the publications show them; a publication that changes nothing hands over nothing.\<close>

theorem each_result_is_journaled_once:
  assumes "\<forall>u \<in> set us. update_ok v u"
  shows "map (\<lambda>(_, s, _). sb_runs s) (publish_all pb us new_bus) =
      map (\<lambda>(_, _, rs). map (\<lambda>(_, res). new_run (pb_digests pb) res) rs) (publish_all pb us new_bus) \<and>
    concat (map (\<lambda>(_, _, rs). handed k rs) (publish_all pb us new_bus)) =
      List.map_filter id (remdups_adj (map (\<lambda>(sn, _). stamp_in k sn) (publish_all pb us new_bus)))"
  using runs_sequence [OF assms, of pb new_bus] handed_sequence [OF assms, of k pb new_bus]
  by (simp add: new_bus_def shown_stamp_def present_after_none)


text \<open>Two publications of the same result: the second, with a later capture, hands over nothing new.\<close>

definition bus_api :: publish_api where
  "bus_api = \<lparr>pb_text = sample_text, pb_host = (\<lambda>_. None),
     pb_recorder = \<lparr>rk_rows = \<lparr>rc_value = (\<lambda>_. None), rc_length = (\<lambda>_. None)\<rparr>, rk_check_key = (\<lambda>_ _ _ _. None),
       rk_fingerprint = (\<lambda>_ _ _ _ _ _. None), rk_key = (\<lambda>_ _ _. None)\<rparr>,
     pb_digests = \<lparr>dg_run = (\<lambda>_. None), dg_event = (\<lambda>_. None), dg_gap = (\<lambda>_ _ _. None)\<rparr>\<rparr>"

definition digest_text :: string where "digest_text = replicate 64 CHR ''a''"

definition bus_result :: check_result where "bus_result = shown_result\<lparr>r_revision := digest_text\<rparr>"

definition bus_snapshot :: "instant \<Rightarrow> snapshot" where
  "bus_snapshot now = shown_snapshot\<lparr>sn_revision := digest_text, sn_captured_at := now,
     sn_results := [(j_key sample_job, bus_result)]\<rparr>"

definition bus_updates :: "publication list" where
  "bus_updates = [(bus_snapshot 8, shown_effective, []), (bus_snapshot 9, shown_effective, [])]"

lemma digest_text_ok: "is_digest digest_text"
  by (simp add: is_digest_def digest_text_def list_all_iff is_ascii_digit_def)

lemma bus_updates_ok: "\<forall>u \<in> set bus_updates. update_ok digest_text u"
  by (simp add: bus_updates_def update_ok_def bus_snapshot_def digest_text_ok bm_wf_def shown_effective_def bus_result_def)

lemma published_snapshots: "map fst (publish_all bus_api bus_updates new_bus) = [bus_snapshot 8, bus_snapshot 9]"
proof -
  have sn: "sn_captured_at (bus_snapshot i) = i" "sn_revision (bus_snapshot i) = digest_text" for i
    by (simp_all add: bus_snapshot_def)
  obtain b s where up: "bus_update bus_api (bus_snapshot 8) shown_effective [] new_bus = (b, s)"
    by (cases "bus_update bus_api (bus_snapshot 8) shown_effective [] new_bus")
  have first: "s \<noteq> None \<and> is_some_and (\<lambda>v. vw_captured_at v = 8) (bu_view b)"
    using up by (auto simp: bus_update_def unchanged_def new_bus_def sn digest_text_ok Let_def is_some_and_def build_view_def
        split: prod.splits)
  moreover have "snd (bus_update bus_api (bus_snapshot 9) shown_effective [] b) \<noteq> None"
    using first by (auto simp: bus_update_def unchanged_def sn digest_text_ok Let_def is_some_and_def split: option.splits prod.splits)
  ultimately show ?thesis
    by (auto simp: bus_updates_def up split: option.splits prod.splits)
qed

theorem each_result_is_journaled_once_witness:
  "concat (map (\<lambda>(_, _, rs). handed (j_key sample_job) rs) (publish_all bus_api bus_updates new_bus)) = [stamp_of bus_result]"
proof -
  have "map (\<lambda>(sn, _). stamp_in (j_key sample_job) sn) (publish_all bus_api bus_updates new_bus) =
      map (stamp_in (j_key sample_job)) (map fst (publish_all bus_api bus_updates new_bus))"
    by (simp add: case_prod_beta)
  also have "\<dots> = [Some (stamp_of bus_result), Some (stamp_of bus_result)]"
    unfolding published_snapshots by (simp add: stamp_in_def bus_snapshot_def)
  finally show ?thesis
    using each_result_is_journaled_once [OF bus_updates_ok, of bus_api "j_key sample_job"] by (simp add: List.map_filter_simps)
qed

end
