(* ===== verification/Query_Store.thy ===== *)
theory Query_Store
  imports Query History_Records Cost_View
begin

text \<open>
  The table of query records: \<open>query_read.rs\<close>, \<open>query_latest.rs\<close>, \<open>query_gaps.rs\<close> and \<open>query_write.rs\<close> of
  \<open>crates/history\<close> with the rows of \<open>query_records.rs\<close> and the view \<open>query_gap\<close> of the migrations. A statement is
  a function of the table it finds; instants are those PostgreSQL keeps. The collation of the database, \<open>ILIKE\<close>
  and the text of JSON are arguments.
\<close>

section \<open>Order of a query\<close>

fun insert_by :: "('a \<Rightarrow> 'a \<Rightarrow> bool) \<Rightarrow> 'a \<Rightarrow> 'a list \<Rightarrow> 'a list" where
  "insert_by lt x [] = [x]"
| "insert_by lt x (y # ys) = (if lt y x then y # insert_by lt x ys else x # y # ys)"

definition sort_by :: "('a \<Rightarrow> 'a \<Rightarrow> bool) \<Rightarrow> 'a list \<Rightarrow> 'a list" where
  "sort_by lt xs = foldr (insert_by lt) xs []"

text \<open>\<open>DISTINCT ON\<close>: the first row of every run of equal keys.\<close>

function first_of_each :: "('a \<Rightarrow> 'k) \<Rightarrow> 'a list \<Rightarrow> 'a list" where
  "first_of_each k [] = []"
| "first_of_each k (x # xs) = x # first_of_each k (dropWhile (\<lambda>y. k y = k x) xs)"
  by pat_completeness auto

termination
  by (relation "measure (\<lambda>(_, xs). length xs)") (auto simp: le_imp_less_Suc length_dropWhile_le)

section \<open>Rows\<close>

text \<open>
  \<open>sd_columns\<close> is the record a row was inserted with: it gives the columns that no later write changes. The others
  follow the last write, \<open>sd_payload\<close> is its JSON.
\<close>

record stored =
  sd_id :: nat
  sd_key :: string
  sd_columns :: q_record
  sd_to :: instant
  sd_closed_at :: "instant option"
  sd_state :: "q_state option"
  sd_payload :: q_record

record query_db =
  qd_rows :: "stored list"
  qd_fresh :: nat
  qd_since :: instant
  qd_evicted_through :: "instant option"
  qd_persisted_at :: "instant option"
  qd_dropped :: "gap list"

record store_env =
  se_before :: "string \<Rightarrow> string \<Rightarrow> bool"
  se_ilike :: "string \<Rightarrow> string \<Rightarrow> bool"
  se_details :: "details \<Rightarrow> string"
  se_records :: record_codec
  se_id :: "nat \<Rightarrow> string"

definition row_identity :: "stored \<Rightarrow> string" where
  "row_identity row = qr_identity (sd_columns row)"

definition row_from :: "stored \<Rightarrow> instant" where
  "row_from row = qr_observed_at (sd_columns row)"

text \<open>\<open>Stored::decode\<close>.\<close>

definition decode_row :: "store_env \<Rightarrow> stored \<Rightarrow> history_error + q_record" where
  "decode_row se row =
     (let r = (sd_payload row)\<lparr>qr_id := se_id se (sd_id row), qr_observed_at := row_from row,
                qr_last_observed_at := sd_to row, qr_closed_at := sd_closed_at row\<rparr>
      in if valid_record (se_records se) r then Inr r else Inl HRecord)"

fun decode_rows :: "store_env \<Rightarrow> stored list \<Rightarrow> history_error + q_record list" where
  "decode_rows se [] = Inr []"
| "decode_rows se (row # rows) =
     (case decode_row se row of
        Inl e \<Rightarrow> Inl e
      | Inr r \<Rightarrow> (case decode_rows se rows of Inl e \<Rightarrow> Inl e | Inr rs \<Rightarrow> Inr (r # rs)))"

section \<open>Selection\<close>

text \<open>The columns of a record a filter compares.\<close>

definition columns_match :: "query_filter \<Rightarrow> q_record \<Rightarrow> bool" where
  "columns_match fl c \<longleftrightarrow>
     column_is (qf_target fl) (Some (qs_target (qr_scope c))) \<and> column_is (qf_scope fl) (Some (qs_scope (qr_scope c))) \<and>
     column_is (qf_resource fl) (qr_resource c) \<and> column_is (qf_region fl) (ql_region (qr_location c)) \<and>
     column_is (qf_cluster fl) (ql_cluster (qr_location c)) \<and> column_is (qf_namespace fl) (ql_namespace (qr_location c)) \<and>
     column_is (qf_service fl) (ql_service (qr_location c)) \<and> column_is (qf_hostname fl) (ql_hostname (qr_location c)) \<and>
     is_none_or (\<lambda>p. qs_provider (qr_scope c) = p) (qf_provider fl) \<and>
     is_none_or (\<lambda>k. qr_check c = Some k) (qf_check fl) \<and>
     is_none_or (\<lambda>s. record_severity c = Some s) (qf_severity fl)"

definition state_matches :: "q_state option \<Rightarrow> stored \<Rightarrow> bool" where
  "state_matches wanted row \<longleftrightarrow>
     (case wanted of
        None \<Rightarrow> True
      | Some st \<Rightarrow> sd_state row = Some st \<and> (st = QStillActive \<longrightarrow> sd_closed_at row = None))"

definition search_matches :: "store_env \<Rightarrow> string option \<Rightarrow> stored \<Rightarrow> bool" where
  "search_matches se q row \<longleftrightarrow>
     (case q of
        None \<Rightarrow> True
      | Some s \<Rightarrow> se_ilike se (row_identity row) (like_pattern s) \<or>
                  se_ilike se (se_details se (qr_details (sd_payload row))) (like_pattern s))"

definition row_overlaps :: "window \<Rightarrow> stored \<Rightarrow> bool" where
  "row_overlaps w row \<longleftrightarrow> row_from row < w_to w \<and>
     (w_from w \<le> sd_to row \<or>
      category (sd_columns row) = QFinding \<and> (sd_closed_at row = None \<or> is_some_and (\<lambda>t. w_from w \<le> t) (sd_closed_at row)))"

definition row_selected :: "store_env \<Rightarrow> query_filter \<Rightarrow> window \<Rightarrow> q_category option \<Rightarrow> stored \<Rightarrow> bool" where
  "row_selected se fl w cat row \<longleftrightarrow>
     row_overlaps w row \<and> is_none_or (\<lambda>k. category (sd_columns row) = k) cat \<and> columns_match fl (sd_columns row) \<and>
     state_matches (qf_state fl) row \<and> search_matches se (qf_q fl) row"

definition row_selection :: "store_env \<Rightarrow> query_filter \<Rightarrow> window \<Rightarrow> q_category option \<Rightarrow> query_db \<Rightarrow> stored list" where
  "row_selection se fl w cat db = filter (row_selected se fl w cat) (qd_rows db)"

definition row_newer :: "stored \<Rightarrow> stored \<Rightarrow> bool" where
  "row_newer a b \<longleftrightarrow> row_from b < row_from a \<or> row_from a = row_from b \<and> sd_id b < sd_id a"

section \<open>Statements\<close>

definition query_page ::
  "store_env \<Rightarrow> query_filter \<Rightarrow> window \<Rightarrow> q_category option \<Rightarrow> (instant \<times> nat) option \<Rightarrow> query_db \<Rightarrow> history_error + q_record list" where
  "query_page se fl w cat preceding db =
     (let limit = unwrap_or 50 (qf_limit fl)
      in if limit \<notin> {1..100} then Inl HRecord
         else decode_rows se (take (limit + 1) (sort_by row_newer (filter (\<lambda>row.
                is_none_or (\<lambda>(t, i). row_from row < t \<or> row_from row = t \<and> sd_id row < i) preceding)
                (row_selection se fl w cat db)))))"

definition latest_before :: "store_env \<Rightarrow> stored \<Rightarrow> stored \<Rightarrow> bool" where
  "latest_before se a b \<longleftrightarrow>
     se_before se (row_identity a) (row_identity b) \<or> row_identity a = row_identity b \<and> row_newer a b"

definition query_latest ::
  "store_env \<Rightarrow> query_filter \<Rightarrow> window \<Rightarrow> q_category \<Rightarrow> string option \<Rightarrow> string list option \<Rightarrow> query_db \<Rightarrow>
   history_error + q_record list" where
  "query_latest se fl w cat after ids db =
     (let picked = sd_id ` set (filter (\<lambda>row. is_none_or (\<lambda>a. se_before se a (row_identity row)) after \<and>
                     is_none_or (\<lambda>is. row_identity row \<in> set is) ids) (row_selection se fl w (Some cat) db));
          rows = filter (\<lambda>row. sd_id row \<in> picked \<and> category (sd_columns row) = cat) (qd_rows db)
      in decode_rows se (take 101 (first_of_each row_identity (sort_by (latest_before se) rows))))"

definition count_identities :: "stored list \<Rightarrow> nat" where
  "count_identities rows = length (remdups (map row_identity rows))"

definition query_count ::
  "store_env \<Rightarrow> query_filter \<Rightarrow> window \<Rightarrow> q_category \<Rightarrow> q_severity option \<Rightarrow> query_db \<Rightarrow> nat" where
  "query_count se fl w cat severity db =
     (if is_some_and (\<lambda>s. is_some_and (\<lambda>t. t \<noteq> s) (qf_severity fl)) severity then 0
      else (let fl = (if severity = None then fl else fl\<lparr>qf_severity := severity\<rparr>)
            in count_identities (row_selection se fl w (Some cat) db)))"

definition row_incomplete :: "stored \<Rightarrow> bool" where
  "row_incomplete row \<longleftrightarrow> (case qr_details (sd_payload row) of DCheck k \<Rightarrow> \<not> kd_complete k | _ \<Rightarrow> False)"

definition query_failed_checks :: "store_env \<Rightarrow> query_filter \<Rightarrow> window \<Rightarrow> query_db \<Rightarrow> nat" where
  "query_failed_checks se fl w db = count_identities (filter row_incomplete (row_selection se fl w (Some QCheck) db))"

section \<open>Missing observations\<close>

text \<open>The view \<open>query_gap\<close>: a required check is covered from its row until the row expires or the next one begins.\<close>

record query_gap =
  gq_columns :: q_record
  gq_from :: instant
  gq_to :: instant

definition row_required :: "stored \<Rightarrow> bool" where
  "row_required row \<longleftrightarrow> category (sd_columns row) = QCheck \<and>
     (case qr_details (sd_payload row) of DCheck k \<Rightarrow> kd_required k | _ \<Rightarrow> True)"

definition row_complete :: "stored \<Rightarrow> bool" where
  "row_complete row \<longleftrightarrow> (case qr_details (sd_payload row) of DCheck k \<Rightarrow> kd_complete k | _ \<Rightarrow> False)"

text \<open>\<open>lead(query_record_from) OVER (PARTITION BY identity ORDER BY from, id)\<close>.\<close>

definition following_from :: "stored list \<Rightarrow> stored \<Rightarrow> instant option" where
  "following_from rows row =
     list_min (map row_from (filter (\<lambda>r. row_identity r = row_identity row \<and> row_newer r row) rows))"

definition gap_of :: "instant \<Rightarrow> stored list \<Rightarrow> stored \<Rightarrow> query_gap" where
  "gap_of now rows row =
     \<lparr>gq_columns = sd_columns row,
      gq_from = (if row_complete row then unwrap_or (row_from row) (qr_valid_until (sd_payload row)) else row_from row),
      gq_to = unwrap_or now (following_from rows row)\<rparr>"

definition query_gaps :: "instant \<Rightarrow> query_db \<Rightarrow> query_gap list" where
  "query_gaps now db =
     (let rows = filter row_required (qd_rows db)
      in filter (\<lambda>g. gq_from g < gq_to g) (map (gap_of now rows) rows))"

definition query_gap_count :: "instant \<Rightarrow> query_filter \<Rightarrow> window \<Rightarrow> query_db \<Rightarrow> nat" where
  "query_gap_count now fl w db = length (filter (\<lambda>g. gq_from g < w_to w \<and> w_from w < gq_to g \<and>
     column_is (qf_target fl) (Some (qs_target (qr_scope (gq_columns g)))) \<and>
     column_is (qf_scope fl) (Some (qs_scope (qr_scope (gq_columns g)))) \<and>
     is_none_or (\<lambda>p. qs_provider (qr_scope (gq_columns g)) = p) (qf_provider fl) \<and>
     is_none_or (\<lambda>k. qr_check (gq_columns g) = Some k) (qf_check fl)) (query_gaps now db))"

section \<open>Availability\<close>

definition retained_since :: "instant \<Rightarrow> span \<Rightarrow> query_db \<Rightarrow> instant" where
  "retained_since now retention db =
     max (max (qd_since db) (now - as_i64 retention * nanos_per_sec)) (unwrap_or (qd_since db) (qd_evicted_through db))"

text \<open>The watermark and the dropped records are read one after the other.\<close>

definition availability_gaps :: "instant \<Rightarrow> span \<Rightarrow> window \<Rightarrow> query_db \<Rightarrow> query_db \<Rightarrow> string list" where
  "availability_gaps now retention w marks drops =
     (if w_from w < retained_since now retention marks
      then [''Requested period begins before available diagnostic history''] else []) @
     (if 0 < length (filter (\<lambda>g. w_from w \<le> gp_at g \<and> gp_at g < w_to w) (qd_dropped drops))
      then [''Persistence dropped records during this period; coverage is incomplete''] else []) @
     (if qd_persisted_at marks = None then [''No diagnostic history has been persisted yet''] else [])"

definition query_availability :: "instant \<Rightarrow> span \<Rightarrow> window \<Rightarrow> query_db \<Rightarrow> query_db \<Rightarrow> availability" where
  "query_availability now retention w marks drops =
     \<lparr>av_requested = w, av_available_since = Some (retained_since now retention marks),
      av_persisted_through = qd_persisted_at marks, av_history_available = True,
      av_complete = (availability_gaps now retention w marks drops = []),
      av_gaps = availability_gaps now retention w marks drops\<rparr>"

section \<open>Writes\<close>

text \<open>Of several records with one key the last one counts.\<close>

definition unique_rows :: "query_row list \<Rightarrow> query_row list" where
  "unique_rows rows = map snd (fold (\<lambda>r. bm_put (qw_key r) r) rows [])"

definition row_insertable :: "q_record \<Rightarrow> bool" where
  "row_insertable r \<longleftrightarrow> is_resource (qr_identity r) \<and> is_name (qs_target (qr_scope r)) \<and> is_resource (qs_scope (qr_scope r)) \<and>
     list_all (is_none_or is_resource) [qr_resource r, ql_region (qr_location r), ql_cluster (qr_location r),
       ql_namespace (qr_location r), ql_service (qr_location r)]"

definition is_continuing :: "query_row \<Rightarrow> bool" where
  "is_continuing r \<longleftrightarrow> category (qw_record r) = QFinding \<or> category (qw_record r) = QRelease"

text \<open>Open versions of a continuing identity that are not written now.\<close>

definition supersede :: "instant \<Rightarrow> query_row list \<Rightarrow> stored \<Rightarrow> stored" where
  "supersede now rows row =
     (if row_identity row \<in> set (map (\<lambda>r. qr_identity (qw_record r)) (filter is_continuing rows)) \<and>
         sd_key row \<notin> set (map qw_key rows) \<and> sd_closed_at row = None
      then row\<lparr>sd_closed_at := Some now\<rparr> else row)"

definition renew_row :: "query_row \<Rightarrow> stored \<Rightarrow> stored" where
  "renew_row r row = row\<lparr>sd_to := qr_last_observed_at (qw_record r), sd_closed_at := qr_closed_at (qw_record r),
     sd_state := record_state (qw_record r), sd_payload := qw_record r\<rparr>"

definition insert_row :: "nat \<Rightarrow> query_row \<Rightarrow> stored" where
  "insert_row i r = \<lparr>sd_id = i, sd_key = qw_key r, sd_columns = qw_record r, sd_to = qr_last_observed_at (qw_record r),
     sd_closed_at = qr_closed_at (qw_record r), sd_state = record_state (qw_record r), sd_payload = qw_record r\<rparr>"

definition upsert_row :: "query_row \<Rightarrow> query_db \<Rightarrow> query_db" where
  "upsert_row r db =
     (if qw_key r \<in> sd_key ` set (qd_rows db)
      then db\<lparr>qd_rows := map (\<lambda>row. if sd_key row = qw_key r then renew_row r row else row) (qd_rows db)\<rparr>
      else db\<lparr>qd_rows := qd_rows db @ [insert_row (qd_fresh db) r], qd_fresh := qd_fresh db + 1\<rparr>)"

text \<open>\<open>query_write::write\<close>, inside the transaction of a batch.\<close>

definition write_rows :: "instant \<Rightarrow> query_row list \<Rightarrow> query_db \<Rightarrow> history_error + query_db" where
  "write_rows now rows db =
     (let unique = unique_rows rows
      in if list_ex (\<lambda>r. \<not> row_insertable (qw_record r)) unique then Inl HRecord
         else (let db = fold upsert_row unique (db\<lparr>qd_rows := map (supersede now unique) (qd_rows db)\<rparr>)
               in Inr (if rows = [] then db else db\<lparr>qd_persisted_at := Some now\<rparr>)))"

section \<open>Retention\<close>

definition row_older :: "stored \<Rightarrow> stored \<Rightarrow> bool" where
  "row_older a b \<longleftrightarrow> sd_to a < sd_to b \<or> sd_to a = sd_to b \<and> sd_id a < sd_id b"

definition delete_rows :: "stored list \<Rightarrow> query_db \<Rightarrow> query_db" where
  "delete_rows gone db = db\<lparr>qd_rows := filter (\<lambda>row. sd_id row \<notin> sd_id ` set gone) (qd_rows db)\<rparr>"

definition expire_rows :: "instant \<Rightarrow> query_db \<Rightarrow> query_db" where
  "expire_rows cutoff db = delete_rows (take 2048 (sort_by row_older (filter (\<lambda>row. sd_to row < cutoff) (qd_rows db)))) db"

text \<open>What exceeds the limit; the watermark moves before the rows go.\<close>

definition excess_rows :: "nat \<Rightarrow> query_db \<Rightarrow> stored list" where
  "excess_rows cap db = take (min (length (qd_rows db) - cap) 2048) (sort_by row_older (qd_rows db))"

definition mark_evicted :: "stored list \<Rightarrow> query_db \<Rightarrow> query_db" where
  "mark_evicted gone db = (if gone = [] then db else db\<lparr>qd_evicted_through := Some (sd_to (last gone))\<rparr>)"

definition retain_queries :: "instant \<Rightarrow> span \<Rightarrow> nat \<Rightarrow> query_db \<Rightarrow> query_db" where
  "retain_queries now retention cap db =
     (let db = expire_rows (now - as_i64 retention * nanos_per_sec) db; gone = excess_rows cap db
      in delete_rows gone (mark_evicted gone db))"

end
