(* ===== verification/Query_Api.thy ===== *)
theory Query_Api
  imports Query_Store Bus Access
begin

text \<open>
  The query endpoints of \<open>crates/server\<close>: \<open>query_api.rs\<close>, \<open>query_availability.rs\<close>, \<open>query_cursor.rs\<close>,
  \<open>query_deployment.rs\<close>, \<open>query_deployment_pages.rs\<close> and the scopes of \<open>scope_api.rs\<close> with \<open>query_scopes.rs\<close>.
  A handler sends several statements, so the model takes the table each of them finds, or the error it ended with;
  JSON text, SHA-256 and the representable instants (\<open>rep\<close>) are arguments.
\<close>

section \<open>Application\<close>

record app =
  ap_bus :: bus
  ap_journal :: journal
  ap_retention :: span

type_synonym read_result = "history_error + query_db"

text \<open>One statement on the table it finds.\<close>

definition over :: "read_result \<Rightarrow> (query_db \<Rightarrow> history_error + 'a) \<Rightarrow> history_error + 'a" where
  "over rd f = (case rd of Inl e \<Rightarrow> Inl e | Inr db \<Rightarrow> f db)"

definition over_total :: "read_result \<Rightarrow> (query_db \<Rightarrow> 'a) \<Rightarrow> history_error + 'a" where
  "over_total rd f = over rd (\<lambda>db. Inr (f db))"

text \<open>\<open>impl From<Error> for ApiError\<close>.\<close>

definition api_error_of :: "history_error \<Rightarrow> api_error" where
  "api_error_of e = (if e = HRevision then Refresh else Unavailable)"

definition api :: "history_error + 'a \<Rightarrow> api_error + 'a" where
  "api r = (case r of Inl e \<Rightarrow> Inl (api_error_of e) | Inr x \<Rightarrow> Inr x)"

section \<open>Availability\<close>

definition add_gap :: "string \<Rightarrow> availability \<Rightarrow> availability" where
  "add_gap reason av = av\<lparr>av_complete := False, av_gaps := av_gaps av @ [reason]\<rparr>"

definition no_history :: "window \<Rightarrow> string \<Rightarrow> availability" where
  "no_history w reason = \<lparr>av_requested = w, av_available_since = None, av_persisted_through = None,
     av_history_available = False, av_complete = False, av_gaps = [reason]\<rparr>"

definition store_availability :: "instant \<Rightarrow> span \<Rightarrow> window \<Rightarrow> read_result \<Rightarrow> read_result \<Rightarrow> history_error + availability" where
  "store_availability now retention w marks drops =
     over marks (\<lambda>m. over drops (\<lambda>d. Inr (query_availability now retention w m d)))"

definition journal_behind :: "journal \<Rightarrow> bool" where
  "journal_behind j = (case journal_health j of (available, _, _, _, queued, _) \<Rightarrow> \<not> available \<or> 0 < queued)"

definition availability_of :: "app \<Rightarrow> instant \<Rightarrow> window \<Rightarrow> read_result \<Rightarrow> read_result \<Rightarrow> availability" where
  "availability_of ap now w marks drops =
     (let av = (case store_availability now (ap_retention ap) w marks drops of
                  Inr av \<Rightarrow> av
                | Inl _ \<Rightarrow> no_history w ''Diagnostic history is unavailable; current observations may still be available'');
          av = (if journal_behind (ap_journal ap)
                then add_gap ''History publication is unavailable or behind current collection'' av else av)
      in if \<not> bu_running (ap_bus ap) then add_gap ''Continuous collection is stopped'' av else av)"

text \<open>What the current view knows of a filter: the target of its resource, and whether a check is in its scope.\<close>

definition resource_target :: "view option \<Rightarrow> string \<Rightarrow> string option" where
  "resource_target current i =
     (case current of None \<Rightarrow> None | Some v \<Rightarrow> map_option rv_target (List.find (\<lambda>r. rv_id r = i) (vw_resources v)))"

definition check_in_scope :: "query_filter \<Rightarrow> view \<Rightarrow> check_view \<Rightarrow> bool" where
  "check_in_scope fl v c \<longleftrightarrow>
     is_some_and (\<lambda>t. scope_matches fl (target_scope t) any_location) (List.find (\<lambda>t. tv_name t = cv_target c) (vw_targets v))"

definition scoped_coverage :: "view option \<Rightarrow> query_filter \<Rightarrow> query_filter" where
  "scoped_coverage current fl =
     (case (qf_target fl, qf_resource fl) of
        (None, Some i) \<Rightarrow> fl\<lparr>qf_target := resource_target current i\<rparr>
      | _ \<Rightarrow> fl)"

definition coverage_probe :: "query_filter \<Rightarrow> query_filter" where
  "coverage_probe fl = any_filter\<lparr>qf_target := qf_target fl, qf_provider := qf_provider fl, qf_scope := qf_scope fl,
     qf_check := qf_check fl, qf_limit := Some 1\<rparr>"

definition awaited_checks :: "view option \<Rightarrow> query_filter \<Rightarrow> bool" where
  "awaited_checks current pf \<longleftrightarrow>
     is_some_and (\<lambda>v. list_ex (\<lambda>c. cv_required c \<and> cv_finished_at c = None \<and>
        is_none_or (\<lambda>k. q_check_of (cv_check c) = k) (qf_check pf) \<and> check_in_scope pf v c) (vw_checks v)) current"

definition gap_verdict :: "string \<Rightarrow> history_error + nat \<Rightarrow> availability \<Rightarrow> availability" where
  "gap_verdict reason n av =
     (case n of
        Inr n \<Rightarrow> if n = 0 then av else add_gap reason av
      | Inl _ \<Rightarrow> add_gap ''Historical collection coverage could not be evaluated'' av)"

record scoped_reads =
  sr_marks :: read_result
  sr_drops :: read_result
  sr_probe :: read_result
  sr_gaps :: read_result

text \<open>\<open>query_availability::scoped\<close>; \<open>now\<close> is each time the clock is read.\<close>

definition scoped_availability ::
  "store_env \<Rightarrow> app \<Rightarrow> instant \<Rightarrow> query_filter \<Rightarrow> window \<Rightarrow> scoped_reads \<Rightarrow> availability" where
  "scoped_availability se ap now fl w sr =
     (let av = availability_of ap now w (sr_marks sr) (sr_drops sr); current = bu_view (ap_bus ap)
      in if \<not> av_history_available av then av
         else (let coverage = scoped_coverage current fl; pf = coverage_probe coverage;
                   av = (case over (sr_probe sr) (query_page se pf \<lparr>w_from = w_to w - days31, w_to = w_to w\<rparr> (Some QCheck) None) of
                           Inr [] \<Rightarrow> add_gap ''No collected checks establish coverage for the selected scope and period'' av
                         | Inr _ \<Rightarrow> av
                         | Inl _ \<Rightarrow> add_gap ''Check coverage for the selected scope could not be established'' av);
                   av = (if now - seconds 30 \<le> w_to w \<and> awaited_checks current pf
                         then add_gap ''Some configured required checks have not produced observations yet'' av else av)
               in gap_verdict ''Required checks have failed or missing observation windows in this period''
                    (over_total (sr_gaps sr) (query_gap_count now coverage w)) av))"

section \<open>Cursors\<close>

record history_cursor =
  hu_version :: nat
  hu_fingerprint :: string
  hu_window :: window
  hu_at :: instant
  hu_id :: nat

record scope_cursor =
  so_fingerprint :: string
  so_window :: window
  so_after :: q_scope

record query_codec =
  qc_digest :: "string \<Rightarrow> query_filter \<Rightarrow> string option"
  qc_read :: "string \<Rightarrow> history_cursor option"
  qc_show :: "history_cursor \<Rightarrow> string option"
  qc_read_scope :: "string \<Rightarrow> scope_cursor option"
  qc_show_scope :: "scope_cursor \<Rightarrow> string option"
  qc_id :: "string \<Rightarrow> nat option"

definition fingerprint_of :: "query_codec \<Rightarrow> query_filter \<Rightarrow> string \<Rightarrow> string option" where
  "fingerprint_of qc fl endpoint = qc_digest qc endpoint (fl\<lparr>qf_cursor := None, qf_limit := None\<rparr>)"

text \<open>The window of a cursor.\<close>

definition bad_window :: "(instant \<Rightarrow> bool) \<Rightarrow> window \<Rightarrow> bool" where
  "bad_window rep w \<longleftrightarrow> \<not> rep (w_to w - days31) \<or> w_to w \<le> w_from w \<or> days31 < w_to w - w_from w"

definition resolve_cursor ::
  "(instant \<Rightarrow> bool) \<Rightarrow> query_codec \<Rightarrow> instant \<Rightarrow> string \<Rightarrow> query_filter \<Rightarrow>
   api_error + (query_filter \<times> window \<times> (instant \<times> nat) option)" where
  "resolve_cursor rep qc now endpoint fl =
     (case normalize_filter fl of
        Inl _ \<Rightarrow> Inl BadQuery
      | Inr fl \<Rightarrow>
          (case qf_cursor fl of
             Some text \<Rightarrow>
               (case qc_read qc text of
                  None \<Rightarrow> Inl BadQuery
                | Some c \<Rightarrow>
                    if hu_version c \<noteq> 1 \<or> bad_window rep (hu_window c) \<or>
                       fingerprint_of qc fl endpoint \<noteq> Some (hu_fingerprint c) \<or> w_to (hu_window c) < hu_at c
                    then Inl BadQuery else Inr (fl, hu_window c, Some (hu_at c, hu_id c)))
           | None \<Rightarrow> (case filter_window rep now fl of Inl _ \<Rightarrow> Inl BadQuery | Inr w \<Rightarrow> Inr (fl, w, None))))"

definition next_cursor ::
  "query_codec \<Rightarrow> query_filter \<Rightarrow> string \<Rightarrow> window \<Rightarrow> q_record \<Rightarrow> api_error + string" where
  "next_cursor qc fl endpoint w r =
     (case (qc_id qc (qr_id r), fingerprint_of qc fl endpoint) of
        (Some i, Some f) \<Rightarrow>
          (case qc_show qc \<lparr>hu_version = 1, hu_fingerprint = f, hu_window = w, hu_at = qr_observed_at r, hu_id = i\<rparr> of
             None \<Rightarrow> Inl BadQuery | Some t \<Rightarrow> Inr t)
      | _ \<Rightarrow> Inl BadQuery)"

definition resolve_scope ::
  "(instant \<Rightarrow> bool) \<Rightarrow> query_codec \<Rightarrow> instant \<Rightarrow> query_filter \<Rightarrow> api_error + (query_filter \<times> window \<times> q_scope option)" where
  "resolve_scope rep qc now fl =
     (case normalize_filter fl of
        Inl _ \<Rightarrow> Inl BadQuery
      | Inr fl \<Rightarrow>
          (case qf_cursor fl of
             Some text \<Rightarrow>
               (case qc_read_scope qc text of
                  None \<Rightarrow> Inl BadQuery
                | Some c \<Rightarrow>
                    if fingerprint_of qc fl ''scopes'' \<noteq> Some (so_fingerprint c) \<or> bad_window rep (so_window c)
                    then Inl BadQuery else Inr (fl, so_window c, Some (so_after c)))
           | None \<Rightarrow> (case filter_window rep now fl of Inl _ \<Rightarrow> Inl BadQuery | Inr w \<Rightarrow> Inr (fl, w, None))))"

definition next_scope :: "query_codec \<Rightarrow> query_filter \<Rightarrow> window \<Rightarrow> q_scope \<Rightarrow> api_error + string" where
  "next_scope qc fl w after =
     (case fingerprint_of qc fl ''scopes'' of
        None \<Rightarrow> Inl BadQuery
      | Some f \<Rightarrow>
          (case qc_show_scope qc \<lparr>so_fingerprint = f, so_window = w, so_after = after\<rparr> of
             None \<Rightarrow> Inl BadQuery | Some t \<Rightarrow> Inr t))"

section \<open>Pages of records\<close>

record 'a answer_page =
  an_items :: "'a list"
  an_next_cursor :: "string option"
  an_availability :: availability

record page_statements =
  pr_now :: instant
  pr_app :: app
  pr_scoped :: scoped_reads
  pr_rows :: read_result

record query_env =
  qe_rep :: "instant \<Rightarrow> bool"
  qe_codec :: query_codec
  qe_store :: store_env

definition records_page ::
  "query_env \<Rightarrow> page_statements \<Rightarrow> string \<Rightarrow> q_category option \<Rightarrow> query_filter \<Rightarrow> api_error + q_record answer_page" where
  "records_page qe pr endpoint cat fl =
     (case resolve_cursor (qe_rep qe) (qe_codec qe) (pr_now pr) endpoint fl of
        Inl e \<Rightarrow> Inl e
      | Inr (fl, w, preceding) \<Rightarrow>
          (let av = scoped_availability (qe_store qe) (pr_app pr) (pr_now pr) fl w (pr_scoped pr);
               limit = unwrap_or 50 (qf_limit fl)
           in case api (over (pr_rows pr) (query_page (qe_store qe) fl w cat preceding)) of
                Inl e \<Rightarrow> Inl e
              | Inr rows \<Rightarrow>
                  (let items = take limit rows
                   in if length rows \<le> limit \<or> items = []
                      then Inr \<lparr>an_items = items, an_next_cursor = None, an_availability = av\<rparr>
                      else case next_cursor (qe_codec qe) fl endpoint w (last items) of
                             Inl e \<Rightarrow> Inl e
                           | Inr c \<Rightarrow> Inr \<lparr>an_items = items, an_next_cursor = Some c, an_availability = av\<rparr>)))"

definition findings_page :: "query_env \<Rightarrow> page_statements \<Rightarrow> query_filter \<Rightarrow> api_error + q_record answer_page" where
  "findings_page qe pr fl = records_page qe pr ''findings'' (Some QFinding) fl"

definition diagnostics_page :: "query_env \<Rightarrow> page_statements \<Rightarrow> query_filter \<Rightarrow> api_error + q_record answer_page" where
  "diagnostics_page qe pr fl = records_page qe pr ''diagnostics'' (Some QDiagnostic) fl"

definition checks_page :: "query_env \<Rightarrow> page_statements \<Rightarrow> query_filter \<Rightarrow> api_error + q_record answer_page" where
  "checks_page qe pr fl = records_page qe pr ''checks'' (Some QCheck) fl"

section \<open>Deployments\<close>

text \<open>
  One statement per page. The list holds what the statements of the loop find; it is \<open>None\<close> when the loop
  needs another one.
\<close>

definition clear_operations :: "q_record \<Rightarrow> q_record" where
  "clear_operations r =
     (case qr_details r of DCheck k \<Rightarrow> r\<lparr>qr_details := DCheck (k\<lparr>kd_operations := []\<rparr>)\<rparr> | _ \<Rightarrow> r)"

definition last_identity :: "q_record list \<Rightarrow> string option" where
  "last_identity rs = (if rs = [] then None else Some (qr_identity (last rs)))"

fun check_pages ::
  "store_env \<Rightarrow> query_filter \<Rightarrow> window \<Rightarrow> string list \<Rightarrow> string option \<Rightarrow> read_result list \<Rightarrow>
   (history_error + q_record list) option" where
  "check_pages se fl w required after [] = None"
| "check_pages se fl w required after (rd # rds) =
     (case over rd (query_latest se fl w QCheck after None) of
        Inl e \<Rightarrow> Some (Inl e)
      | Inr page \<Rightarrow>
          (let kept = map clear_operations (filter (\<lambda>r. qr_identity r \<in> set required) (take 100 page))
           in if length page \<le> 100 then Some (Inr kept)
              else map_option (\<lambda>res. case res of Inl e \<Rightarrow> Inl e | Inr rs \<Rightarrow> Inr (kept @ rs))
                     (check_pages se fl w required (last_identity (take 100 page)) rds)))"

fun release_pages ::
  "store_env \<Rightarrow> deployment \<Rightarrow> window \<Rightarrow> instant \<Rightarrow> string option \<Rightarrow> release_assessment \<Rightarrow> read_result list \<Rightarrow>
   (history_error + release_assessment) option" where
  "release_pages se d w now after ra [] = None"
| "release_pages se d w now after ra (rd # rds) =
     (case over rd (query_latest se (de_filter d) w QRelease after None) of
        Inl e \<Rightarrow> Some (Inl e)
      | Inr page \<Rightarrow>
          (let ra = fold (observe_release d w now) (take 100 page) ra
           in if length page \<le> 100 then Some (Inr ra)
              else release_pages se d w now (last_identity (take 100 page)) ra rds))"

definition assess_releases ::
  "store_env \<Rightarrow> deployment \<Rightarrow> window \<Rightarrow> instant \<Rightarrow> read_result list \<Rightarrow> (history_error + release_assessment) option" where
  "assess_releases se d w now rds =
     (if de_expected_revision d = None \<and> de_expected_digest d = None then Some (Inr no_release)
      else release_pages se d w now None no_release rds)"

record deployment_reads =
  dr_marks :: read_result
  dr_drops :: read_result
  dr_gaps :: read_result
  dr_checks :: "read_result list"
  dr_releases :: "read_result list"
  dr_findings :: page_statements
  dr_baseline :: read_result
  dr_errors :: read_result
  dr_failed :: read_result

definition check_scope :: "view \<Rightarrow> query_filter \<Rightarrow> query_filter" where
  "check_scope v fl =
     (let target = (case qf_resource fl of None \<Rightarrow> None | Some i \<Rightarrow> resource_target (Some v) i)
      in fl\<lparr>qf_resource := None, qf_region := None, qf_namespace := None, qf_cluster := None, qf_service := None,
            qf_hostname := None, qf_severity := None, qf_state := None, qf_q := None,
            qf_target := (if target \<noteq> None then target else qf_target fl)\<rparr>)"

definition required_keys :: "view \<Rightarrow> query_filter \<Rightarrow> query_filter \<Rightarrow> string list" where
  "required_keys v fl scope = map cv_key (filter (\<lambda>c. cv_required c \<and>
     is_none_or (\<lambda>k. q_check_of (cv_check c) = k) (qf_check fl) \<and> check_in_scope scope v c) (vw_checks v))"

definition finding_filter :: "window \<Rightarrow> instant \<Rightarrow> query_filter \<Rightarrow> query_filter" where
  "finding_filter w now fl = fl\<lparr>qf_state := None, qf_severity := None, qf_from := Some (w_from w),
     qf_to := Some (min (w_to w) now), qf_limit := Some 50\<rparr>"

definition observed_window :: "window \<Rightarrow> instant \<Rightarrow> window" where
  "observed_window w now = \<lparr>w_from = w_from w - (w_to w - w_from w), w_to = min (w_to w) now\<rparr>"

text \<open>Everything the verdict rests on, in the order of the statements.\<close>

definition deployment_evidence ::
  "query_env \<Rightarrow> app \<Rightarrow> instant \<Rightarrow> view \<Rightarrow> deployment \<Rightarrow> window \<Rightarrow> deployment_reads \<Rightarrow> (api_error + evidence) option" where
  "deployment_evidence qe ap now v d w dr =
     (let se = qe_store qe; observed = observed_window w now; fl = de_filter d; scope = check_scope v fl;
          av = availability_of ap now observed (dr_marks dr) (dr_drops dr);
          av = gap_verdict ''The deployment or baseline period contains missing required observations''
                 (over_total (dr_gaps dr) (query_gap_count now scope observed)) av;
          required = required_keys v fl scope
      in case check_pages se scope observed required None (dr_checks dr) of
           None \<Rightarrow> None
         | Some (Inl e) \<Rightarrow> Some (Inl (api_error_of e))
         | Some (Inr checks) \<Rightarrow>
             (case assess_releases se d w now (dr_releases dr) of
                None \<Rightarrow> None
              | Some (Inl e) \<Rightarrow> Some (Inl (api_error_of e))
              | Some (Inr ra) \<Rightarrow>
                  (let ff = finding_filter w now fl
                   in Some
                     (case records_page qe (dr_findings dr) ''findings'' (Some QFinding) ff of
                        Inl e \<Rightarrow> Inl e
                      | Inr page \<Rightarrow>
                          (case api (over (dr_baseline dr) (query_latest se ff \<lparr>w_from = w_from observed, w_to = w_from w\<rparr>
                                   QFinding None (Some (map qr_identity (an_items page))))) of
                             Inl e \<Rightarrow> Inl e
                           | Inr baseline \<Rightarrow>
                               (case api (over_total (dr_errors dr) (query_count se ff w QFinding (Some QError))) of
                                  Inl e \<Rightarrow> Inl e
                                | Inr errors \<Rightarrow>
                                    (case api (over_total (dr_failed dr) (query_failed_checks se scope w)) of
                                       Inl e \<Rightarrow> Inl e
                                     | Inr failed \<Rightarrow>
                                         Inr \<lparr>ev_checks = checks, ev_required_checks = required, ev_releases = [],
                                           ev_release_assessment = Some ra, ev_findings = an_items page,
                                           ev_baseline = baseline, ev_error_count = errors, ev_failed_checks = failed,
                                           ev_availability = av, ev_next_cursor = an_next_cursor page\<rparr>)))))))"

text \<open>The handler; \<open>None\<close> when a loop over pages has not ended with the statements given.\<close>

definition deployment_answer ::
  "query_env \<Rightarrow> app \<Rightarrow> instant \<Rightarrow> deployment \<Rightarrow> deployment_reads \<Rightarrow> (api_error + assessment) option" where
  "deployment_answer qe ap now d dr =
     (case normalize_filter (de_filter d) of
        Inl _ \<Rightarrow> Some (Inl BadQuery)
      | Inr fl \<Rightarrow>
          (let d = d\<lparr>de_filter := fl\<rparr>
           in case deployment_window (qe_rep qe) d of
                Inl _ \<Rightarrow> Some (Inl BadQuery)
              | Inr w \<Rightarrow>
                  if now < de_deployed_at d then Some (Inl BadQuery)
                  else (case bu_view (ap_bus ap) of
                          None \<Rightarrow> Some (Inl Waiting)
                        | Some v \<Rightarrow>
                            (case deployment_evidence qe ap now v d w dr of
                               None \<Rightarrow> None
                             | Some (Inl e) \<Rightarrow> Some (Inl e)
                             | Some (Inr ev) \<Rightarrow>
                                 Some (case evaluate_deployment (qe_rep qe) d ev now of
                                         Inl _ \<Rightarrow> Inl BadQuery | Inr a \<Rightarrow> Inr a)))))"

text \<open>
  A resource, a summary and the discovery of scopes. A deadline that passed is \<open>None\<close>.
\<close>

section \<open>Summary\<close>

record query_summary =
  qm_availability :: availability
  qm_findings :: nat
  qm_errors :: nat
  qm_warnings :: nat
  qm_recovered :: nat
  qm_failed_checks :: nat

record summary_reads =
  mr_scoped :: scoped_reads
  mr_findings :: read_result
  mr_errors :: read_result
  mr_warnings :: read_result
  mr_failed :: read_result
  mr_recovered :: read_result

definition query_summary_of ::
  "query_env \<Rightarrow> app \<Rightarrow> instant \<Rightarrow> summary_reads \<Rightarrow> query_filter \<Rightarrow> api_error + query_summary" where
  "query_summary_of qe ap now mr fl =
     (if qf_cursor fl \<noteq> None then Inl BadQuery
      else case resolve_cursor (qe_rep qe) (qe_codec qe) now ''summary'' fl of
             Inl e \<Rightarrow> Inl e
           | Inr (fl, w, _) \<Rightarrow>
               (let se = qe_store qe; av = scoped_availability se ap now fl w (mr_scoped mr);
                    counted = (\<lambda>rd fl severity. api (over_total rd (query_count se fl w QFinding severity)))
                in case counted (mr_findings mr) fl None of
                     Inl e \<Rightarrow> Inl e
                   | Inr findings \<Rightarrow>
                       (case counted (mr_errors mr) fl (Some QError) of
                          Inl e \<Rightarrow> Inl e
                        | Inr errors \<Rightarrow>
                            (case counted (mr_warnings mr) fl (Some QWarning) of
                               Inl e \<Rightarrow> Inl e
                             | Inr warnings \<Rightarrow>
                                 (case api (over_total (mr_failed mr) (query_failed_checks se fl w)) of
                                    Inl e \<Rightarrow> Inl e
                                  | Inr failed \<Rightarrow>
                                      (case counted (mr_recovered mr) (fl\<lparr>qf_state := Some QRecovered\<rparr>) None of
                                         Inl e \<Rightarrow> Inl e
                                       | Inr recovered \<Rightarrow>
                                           Inr \<lparr>qm_availability = av, qm_findings = findings, qm_errors = errors,
                                             qm_warnings = warnings, qm_recovered = recovered, qm_failed_checks = failed\<rparr>))))))"

section \<open>Resource\<close>

datatype q_health = QHealthy | QDegraded | QUnhealthy | QUnknown | QExpectedInactive

fun q_health_of :: "health \<Rightarrow> q_health" where
  "q_health_of Healthy = QHealthy" | "q_health_of Degraded = QDegraded" | "q_health_of Unhealthy = QUnhealthy"
| "q_health_of Unknown = QUnknown" | "q_health_of ExpectedInactive = QExpectedInactive"

record current_resource =
  ce_id :: string
  ce_scope :: q_scope
  ce_location :: q_location
  ce_observed_at :: instant
  ce_valid_until :: instant
  ce_health :: q_health
  ce_facts :: "q_fact list"
  ce_links :: "q_link list"

definition current_resource_of ::
  "publish_api \<Rightarrow> instant \<Rightarrow> view option \<Rightarrow> query_filter \<Rightarrow> string \<Rightarrow> current_resource option" where
  "current_resource_of pb now current fl i =
     (case current of
        None \<Rightarrow> None
      | Some v \<Rightarrow>
          (case List.find (\<lambda>r. rv_id r = i) (vw_resources v) of
             None \<Rightarrow> None
           | Some r \<Rightarrow>
               (case List.find (\<lambda>t. tv_name t = rv_target r) (vw_targets v) of
                  None \<Rightarrow> None
                | Some t \<Rightarrow>
                    (let scope = context_scope t (rv_context r); location = q_location_of pb (rv_context r)
                     in if \<not> scope_matches fl scope location then None
                        else Some \<lparr>ce_id = rv_id r, ce_scope = scope, ce_location = location,
                          ce_observed_at = rv_observed_at r, ce_valid_until = rv_expires_at r,
                          ce_health = q_health_of (current_health (rv_health r) (rv_expires_at r) now),
                          ce_facts = map q_fact_of (rv_facts r), ce_links = map q_link_of (rv_links r)\<rparr>))))"

text \<open>Without history the current observation is still an answer; \<open>marks\<close> and \<open>drops\<close> are read for it again.\<close>

definition resource_answer ::
  "query_env \<Rightarrow> publish_api \<Rightarrow> app \<Rightarrow> instant \<Rightarrow> page_statements \<Rightarrow> read_result \<Rightarrow> read_result \<Rightarrow> query_filter \<Rightarrow>
   api_error + (current_resource option \<times> q_record answer_page)" where
  "resource_answer qe pb ap now pr marks drops fl =
     (case normalize_filter fl of
        Inl _ \<Rightarrow> Inl BadQuery
      | Inr fl \<Rightarrow>
          (case qf_resource fl of
             None \<Rightarrow> Inl BadQuery
           | Some i \<Rightarrow>
               (let current = current_resource_of pb now (bu_view (ap_bus ap)) fl i
                in case records_page qe pr ''resource'' None fl of
                     Inr page \<Rightarrow> Inr (current, page)
                   | Inl e \<Rightarrow>
                       if e \<noteq> Unavailable \<or> current = None then Inl e
                       else (case resolve_cursor (qe_rep qe) (qe_codec qe) now ''resource'' fl of
                               Inl e \<Rightarrow> Inl e
                             | Inr (_, w, _) \<Rightarrow>
                                 Inr (current, \<lparr>an_items = [], an_next_cursor = None,
                                   an_availability = availability_of ap now w marks drops\<rparr>)))))"

section \<open>Scopes\<close>

text \<open>The derived order of the provider, which is that of the type in the database.\<close>

fun provider_rank :: "q_provider \<Rightarrow> nat" where
  "provider_rank QGcp = 0" | "provider_rank QAws = 1" | "provider_rank QAzure = 2" | "provider_rank QKubernetes = 3"
| "provider_rank QGithub = 4" | "provider_rank QEdge = 5" | "provider_rank QNats = 6" | "provider_rank QUnknownProvider = 7"

definition scope_before :: "(string \<Rightarrow> string \<Rightarrow> bool) \<Rightarrow> q_scope \<Rightarrow> q_scope \<Rightarrow> bool" where
  "scope_before lt a b \<longleftrightarrow> lt (qs_target a) (qs_target b) \<or>
     qs_target a = qs_target b \<and> provider_rank (qs_provider a) < provider_rank (qs_provider b) \<or>
     qs_target a = qs_target b \<and> qs_provider a = qs_provider b \<and> lt (qs_scope a) (qs_scope b)"

definition row_scope :: "stored \<Rightarrow> q_scope" where
  "row_scope row = qr_scope (sd_columns row)"

definition query_scopes :: "store_env \<Rightarrow> query_filter \<Rightarrow> window \<Rightarrow> q_scope option \<Rightarrow> query_db \<Rightarrow> q_scope list" where
  "query_scopes se fl w after db =
     take (unwrap_or 50 (qf_limit fl) + 1) (first_of_each id (sort_by (scope_before (se_before se))
       (filter (\<lambda>s. is_none_or (\<lambda>a. scope_before (se_before se) a s) after) (map row_scope (row_selection se fl w None db)))))"

record scope_info =
  si_scope :: q_scope
  si_checks :: "q_check list"
  si_current :: bool

definition scope_key :: "q_scope \<Rightarrow> string \<times> nat \<times> string" where
  "scope_key s = (qs_target s, provider_rank (qs_provider s), qs_scope s)"

definition retained_scopes :: "q_scope list \<Rightarrow> (string \<times> nat \<times> string, scope_info) bmap" where
  "retained_scopes scopes = fold (\<lambda>s. bm_put (scope_key s) \<lparr>si_scope = s, si_checks = [], si_current = False\<rparr>) scopes []"

definition add_current_scope ::
  "query_filter \<Rightarrow> q_scope option \<Rightarrow> view \<Rightarrow> target_view \<Rightarrow> (string \<times> nat \<times> string, scope_info) bmap \<Rightarrow>
   (string \<times> nat \<times> string, scope_info) bmap" where
  "add_current_scope fl after v t m =
     (let s = target_scope t
      in if scope_matches fl s any_location \<and> is_none_or (\<lambda>a. scope_key a < scope_key s) after
         then bm_put (scope_key s) \<lparr>si_scope = s,
                si_checks = map (q_check_of \<circ> cv_check) (filter (\<lambda>c. cv_target c = tv_name t) (vw_checks v)), si_current = True\<rparr> m
         else m)"

definition project_scopes ::
  "query_codec \<Rightarrow> view option \<Rightarrow> query_filter \<Rightarrow> window \<Rightarrow> q_scope option \<Rightarrow> availability \<Rightarrow> q_scope list \<Rightarrow>
   api_error + scope_info answer_page" where
  "project_scopes qc current fl w after av retained =
     (let m = retained_scopes retained;
          m = (case current of None \<Rightarrow> m | Some v \<Rightarrow> fold (add_current_scope fl after v) (vw_targets v) m);
          limit = unwrap_or 50 (qf_limit fl); items = take limit (map snd m)
      in if length m \<le> limit \<or> items = [] then Inr \<lparr>an_items = items, an_next_cursor = None, an_availability = av\<rparr>
         else case next_scope qc fl w (si_scope (last items)) of
                Inl e \<Rightarrow> Inl e
              | Inr c \<Rightarrow> Inr \<lparr>an_items = items, an_next_cursor = Some c, an_availability = av\<rparr>)"

definition history_failed :: "string \<Rightarrow> availability \<Rightarrow> availability" where
  "history_failed reason av = (add_gap reason av)\<lparr>av_history_available := False\<rparr>"

definition assemble_scopes ::
  "query_codec \<Rightarrow> view option \<Rightarrow> query_filter \<Rightarrow> window \<Rightarrow> q_scope option \<Rightarrow> availability option \<Rightarrow>
   (history_error + q_scope list) option \<Rightarrow> api_error + scope_info answer_page" where
  "assemble_scopes qc current fl w after av scopes =
     (let (av, retained) =
        (case av of
           None \<Rightarrow> (no_history w ''Historical scope lookup timed out; retained scopes may be missing'', [])
         | Some av \<Rightarrow>
             (case scopes of
                None \<Rightarrow> (history_failed ''Historical scope lookup timed out; retained scopes may be missing'' av, [])
              | Some (Inl _) \<Rightarrow> (history_failed ''Historical scope lookup failed; retained scopes may be missing'' av, [])
              | Some (Inr ss) \<Rightarrow> (av, ss)))
      in project_scopes qc current fl w after av retained)"

record scope_reads =
  or_marks :: read_result
  or_drops :: read_result
  or_scopes :: read_result
  or_late_marks :: bool
  or_late_scopes :: bool

text \<open>\<open>scopes\<close> without its cache: the two lookups, each of which may miss the deadline.\<close>

definition scopes_answer ::
  "query_env \<Rightarrow> app \<Rightarrow> instant \<Rightarrow> scope_reads \<Rightarrow> query_filter \<Rightarrow> api_error + scope_info answer_page" where
  "scopes_answer qe ap now os fl =
     (case resolve_scope (qe_rep qe) (qe_codec qe) now fl of
        Inl e \<Rightarrow> Inl e
      | Inr (fl, w, after) \<Rightarrow>
          assemble_scopes (qe_codec qe) (bu_view (ap_bus ap)) fl w after
            (if or_late_marks os then None else Some (availability_of ap now w (or_marks os) (or_drops os)))
            (if or_late_scopes os then None
             else Some (over_total (or_scopes os) (query_scopes (qe_store qe) fl w after))))"

end
