(* ===== verification/Query_Api_Properties.thy ===== *)
theory Query_Api_Properties
  imports Query_Api Query_Properties
begin

text \<open>
  Facts about the table of query records and about the endpoints over it: ordered statements and the newest row of
  every identity; what retention leaves, so that an answer called complete is; the loops over pages read every row of
  a row_selection once; and a deployment that passes is justified by what is stored.
\<close>

section \<open>Ordered lists\<close>

text \<open>What the database promises of a collation.\<close>

definition strict_order :: "('a \<Rightarrow> 'a \<Rightarrow> bool) \<Rightarrow> bool" where
  "strict_order lt \<longleftrightarrow> (\<forall>x. \<not> lt x x) \<and> (\<forall>x y z. lt x y \<longrightarrow> lt y z \<longrightarrow> lt x z) \<and> (\<forall>x y. x \<noteq> y \<longrightarrow> lt x y \<or> lt y x)"

text \<open>Orders that are total only on the rows of one table.\<close>

definition orders :: "('a \<Rightarrow> 'a \<Rightarrow> bool) \<Rightarrow> 'a set \<Rightarrow> bool" where
  "orders lt S \<longleftrightarrow> (\<forall>x \<in> S. \<not> lt x x) \<and> (\<forall>x \<in> S. \<forall>y \<in> S. \<forall>z \<in> S. lt x y \<longrightarrow> lt y z \<longrightarrow> lt x z) \<and>
     (\<forall>x \<in> S. \<forall>y \<in> S. x \<noteq> y \<longrightarrow> lt x y \<or> lt y x)"

lemma orders_subset: "orders lt S \<Longrightarrow> T \<subseteq> S \<Longrightarrow> orders lt T"
  unfolding orders_def by (meson subsetD)

lemma set_insert_by [simp]: "set (insert_by lt x xs) = insert x (set xs)"
  by (induction xs) auto

lemma set_sort_by [simp]: "set (sort_by lt xs) = set xs"
  by (induction xs) (auto simp: sort_by_def)

lemma length_insert_by [simp]: "length (insert_by lt x xs) = Suc (length xs)"
  by (induction xs) auto

lemma length_sort_by [simp]: "length (sort_by lt xs) = length xs"
  by (induction xs) (auto simp: sort_by_def)

lemma sorted_insert_by:
  assumes "sorted_wrt lt xs" and "x \<notin> set xs" and "orders lt (insert x (set xs))"
  shows "sorted_wrt lt (insert_by lt x xs)"
  using assms
proof (induction xs)
  case (Cons y ys)
  have o: "orders lt (insert x (set ys))" using Cons.prems(3) by (rule orders_subset) auto
  show ?case
  proof (cases "lt y x")
    case True
    then show ?thesis using Cons o by auto
  next
    case False
    then have xy: "lt x y" using Cons.prems(2,3) unfolding orders_def by (metis insertCI list.set_intros(1) list.simps(15))
    have "lt x z" if "z \<in> set ys" for z
    proof -
      have "lt y z" using Cons.prems(1) that by simp
      then show ?thesis using xy Cons.prems(3) that unfolding orders_def
        by (meson insertI1 insertI2 list.set_intros(1) list.set_intros(2))
    qed
    then show ?thesis using False xy Cons.prems(1) by simp
  qed
qed simp

lemma sorted_sort_by:
  assumes "distinct xs" and "orders lt (set xs)"
  shows "sorted_wrt lt (sort_by lt xs)"
  using assms
proof (induction xs)
  case (Cons x xs)
  then have "sorted_wrt lt (sort_by lt xs)" by (auto intro: orders_subset)
  then have "sorted_wrt lt (insert_by lt x (sort_by lt xs))" using Cons.prems by (intro sorted_insert_by) simp_all
  then show ?case by (simp add: sort_by_def)
qed (simp add: sort_by_def)

lemma sorted_unique:
  assumes "sorted_wrt lt xs" and "sorted_wrt lt ys" and "set xs = set ys" and "orders lt (set xs)"
  shows "xs = ys"
  using assms
proof (induction xs arbitrary: ys)
  case (Cons x xs)
  then obtain y ys' where ys: "ys = y # ys'" by (cases ys) auto
  have irr: "\<not> lt u u" if "u \<in> set (x # xs)" for u using Cons.prems(4) that unfolding orders_def by blast
  have xy: "x = y"
  proof (rule ccontr)
    assume ne: "x \<noteq> y"
    have "lt y x" using Cons.prems(2,3) ne ys by (metis list.set_intros(1) set_ConsD sorted_wrt.simps(2))
    moreover have "lt x y" using Cons.prems(1,3) ne ys by (metis list.set_intros(1) set_ConsD sorted_wrt.simps(2))
    moreover have "y \<in> set (x # xs)" using Cons.prems(3) ys by simp
    ultimately show False using Cons.prems(4) irr [of x] unfolding orders_def by (meson list.set_intros(1))
  qed
  have "x \<notin> set xs" "y \<notin> set ys'" using Cons.prems(1,2) irr [of x] xy ys by auto
  then have "set xs = set ys'" using Cons.prems(3) xy ys by auto
  then have "xs = ys'" using Cons.prems ys by (intro Cons.IH) (auto intro: orders_subset)
  then show ?case using xy ys by simp
qed simp

lemma sort_by_filter:
  assumes "distinct xs" and "orders lt (set xs)"
  shows "sort_by lt (filter P xs) = filter P (sort_by lt xs)"
proof (rule sorted_unique)
  show "sorted_wrt lt (sort_by lt (filter P xs))"
    using assms by (intro sorted_sort_by) (auto intro: orders_subset)
  show "sorted_wrt lt (filter P (sort_by lt xs))"
    using sorted_sort_by [OF assms] by (rule sorted_wrt_filter)
  show "orders lt (set (sort_by lt (filter P xs)))" using assms(2) by (auto intro: orders_subset)
qed simp

lemma first_of_each_subset: "set (first_of_each k xs) \<subseteq> set xs"
proof (induction k xs rule: first_of_each.induct)
  case (2 k x xs)
  then show ?case using set_dropWhileD by fastforce
qed simp

text \<open>In a list ordered by key first, the first of each key is the least of its key.\<close>

lemma first_of_each_set:
  assumes "sorted_wrt lt xs" and "orders lt (set xs)"
    and "\<And>x y. x \<in> set xs \<Longrightarrow> y \<in> set xs \<Longrightarrow> lt x y \<Longrightarrow> before (k x) (k y) \<or> k x = k y"
    and "strict_order before"
  shows "sorted_wrt (\<lambda>x y. before (k x) (k y)) (first_of_each k xs) \<and>
    set (first_of_each k xs) = {x \<in> set xs. \<forall>y \<in> set xs. k y = k x \<longrightarrow> y = x \<or> lt x y}"
  using assms(1-3)
proof (induction k xs rule: first_of_each.induct)
  case (2 k x xs)
  let ?ys = "dropWhile (\<lambda>y. k y = k x) xs"
  have sub: "set ?ys \<subseteq> set xs" using set_dropWhileD by fast
  have sorted_xs: "sorted_wrt lt xs" and x_first: "\<forall>y \<in> set xs. lt x y" using 2(2) by simp_all
  have sorted_ys: "sorted_wrt lt ?ys"
    using sorted_xs by (metis sorted_wrt_append takeWhile_dropWhile_id)
  have IH: "sorted_wrt (\<lambda>x y. before (k x) (k y)) (first_of_each k ?ys) \<and>
      set (first_of_each k ?ys) = {y \<in> set ?ys. \<forall>z \<in> set ?ys. k z = k y \<longrightarrow> z = y \<or> lt y z}"
    using 2(1) sorted_ys orders_subset [OF 2(3), of "set ?ys"] sub 2(4) by (meson insertCI list.set_intros(2) order_trans set_subset_Cons subsetD)
  have later: "before (k x) (k y)" if y: "y \<in> set ?ys" for y
  proof -
    obtain h t where ht: "?ys = h # t" using y by (cases ?ys) auto
    have "h \<in> set xs" using ht sub by auto
    moreover have "k h \<noteq> k x" using ht by (metis (mono_tags, lifting) dropWhile_eq_Cons_conv)
    ultimately have xh: "before (k x) (k h)" using 2(4) [of x h] x_first by auto
    have "h = y \<or> lt h y" using y sorted_ys ht by auto
    then have "k h = k y \<or> before (k h) (k y)" using 2(4) [of h y] sub y ht by auto
    then show ?thesis using xh assms(4) unfolding strict_order_def by metis
  qed
  have other: "k y \<noteq> k x" if "y \<in> set ?ys" for y using later [OF that] assms(4) unfolding strict_order_def by metis
  have same: "k y = k x" if "y \<in> set xs" "y \<notin> set ?ys" for y
    using that by (metis (mono_tags, lifting) Un_iff set_append set_takeWhileD takeWhile_dropWhile_id)
  have irr: "\<not> lt y y" "lt y z \<Longrightarrow> lt z y \<Longrightarrow> False" if "y \<in> set (x # xs)" "z \<in> set (x # xs)" for y z
    using 2(3) that unfolding orders_def by metis+
  have "set (first_of_each k (x # xs)) = {y \<in> set (x # xs). \<forall>z \<in> set (x # xs). k z = k y \<longrightarrow> z = y \<or> lt y z}" (is "?l = ?r")
  proof (intro equalityI subsetI)
    fix y assume "y \<in> ?l"
    then consider "y = x" | "y \<in> set ?ys" "\<forall>z \<in> set ?ys. k z = k y \<longrightarrow> z = y \<or> lt y z" using IH by auto
    then show "y \<in> ?r"
    proof cases
      case 2
      then have "z = y \<or> lt y z" if "z \<in> set (x # xs)" "k z = k y" for z
        using that other [OF 2(1)] same by (cases "z \<in> set ?ys") auto
      then show ?thesis using 2 sub by auto
    qed (use x_first in auto)
  next
    fix y assume y: "y \<in> ?r"
    show "y \<in> ?l"
    proof (cases "y \<in> set ?ys")
      case True
      then show ?thesis using y IH sub by auto
    next
      case False
      then have "k y = k x" using y same by auto
      then have "x = y \<or> lt y x" using y by auto
      then have "y = x" using irr(2) [of y x] x_first y by auto
      then show ?thesis by simp
    qed
  qed
  moreover have "sorted_wrt (\<lambda>x y. before (k x) (k y)) (first_of_each k (x # xs))"
    using IH later first_of_each_subset [of k ?ys] by auto
  ultimately show ?case by blast
qed simp

lemma first_of_each_filter:
  assumes "sorted_wrt lt xs" and "orders lt (set xs)"
    and "\<And>x y. x \<in> set xs \<Longrightarrow> y \<in> set xs \<Longrightarrow> lt x y \<Longrightarrow> before (k x) (k y) \<or> k x = k y"
    and "strict_order before"
  shows "first_of_each k (filter (\<lambda>x. P (k x)) xs) = filter (\<lambda>x. P (k x)) (first_of_each k xs)"
proof (rule sorted_unique)
  let ?ys = "filter (\<lambda>x. P (k x)) xs"
  note all = first_of_each_set [where k = k and before = before, OF assms(1,2) _ assms(4), OF assms(3)]
  have some: "sorted_wrt (\<lambda>x y. before (k x) (k y)) (first_of_each k ?ys) \<and>
      set (first_of_each k ?ys) = {x \<in> set ?ys. \<forall>y \<in> set ?ys. k y = k x \<longrightarrow> y = x \<or> lt x y}"
    using assms by (intro first_of_each_set) (auto intro: sorted_wrt_filter orders_subset)
  show "sorted_wrt (\<lambda>x y. before (k x) (k y)) (first_of_each k ?ys)" using some by blast
  show "sorted_wrt (\<lambda>x y. before (k x) (k y)) (filter (\<lambda>x. P (k x)) (first_of_each k xs))"
    using all by (intro sorted_wrt_filter) blast
  show "set (first_of_each k ?ys) = set (filter (\<lambda>x. P (k x)) (first_of_each k xs))"
    using all some by auto
  have "x = y" if "x \<in> set (first_of_each k ?ys)" "y \<in> set (first_of_each k ?ys)" "k x = k y" for x y
  proof (rule ccontr)
    assume "x \<noteq> y"
    then have "lt x y" "lt y x" "x \<in> set xs" "y \<in> set xs" using that some by (auto split: if_splits)
    then show False using assms(2) unfolding orders_def by blast
  qed
  then show "orders (\<lambda>x y. before (k x) (k y)) (set (first_of_each k ?ys))"
    using assms(4) unfolding orders_def strict_order_def by metis
qed

section \<open>Tables\<close>

text \<open>What the table guarantees: identities and keys are unique, and a key stands for one identity and category.\<close>

definition store_ok :: "query_db \<Rightarrow> bool" where
  "store_ok db \<longleftrightarrow> distinct (map sd_id (qd_rows db)) \<and> distinct (map sd_key (qd_rows db)) \<and>
     (\<forall>row \<in> set (qd_rows db). sd_id row < qd_fresh db \<and> qr_identity (sd_payload row) = row_identity row \<and>
        category (sd_payload row) = category (sd_columns row))"

lemma store_ids:
  assumes "store_ok db" and "a \<in> set (qd_rows db)" and "b \<in> set (qd_rows db)" and "sd_id a = sd_id b"
  shows "a = b"
  using assms by (auto simp: store_ok_def distinct_map inj_on_def)

lemma store_keys:
  assumes "store_ok db" and "a \<in> set (qd_rows db)" and "b \<in> set (qd_rows db)" and "sd_key a = sd_key b"
  shows "a = b"
  using assms by (auto simp: store_ok_def distinct_map inj_on_def)

lemma newer_orders:
  assumes "store_ok db" and "S \<subseteq> set (qd_rows db)"
  shows "orders row_newer S"
proof -
  have "row_newer x y \<or> row_newer y x" if "x \<in> S" "y \<in> S" "x \<noteq> y" for x y
  proof -
    have "sd_id x \<noteq> sd_id y" using store_ids [OF assms(1), of x y] that assms(2) by blast
    then show ?thesis by (auto simp: row_newer_def)
  qed
  moreover have "\<not> row_newer x x" and "row_newer x y \<Longrightarrow> row_newer y z \<Longrightarrow> row_newer x z" for x y z
    by (auto simp: row_newer_def)
  ultimately show ?thesis unfolding orders_def by blast
qed

lemma latest_orders:
  assumes "store_ok db" and "S \<subseteq> set (qd_rows db)" and "strict_order (se_before se)"
  shows "orders (latest_before se) S"
proof -
  note newer = newer_orders [OF assms(1,2), unfolded orders_def] and before = assms(3) [unfolded strict_order_def]
  show ?thesis unfolding orders_def latest_before_def
  proof (intro conjI ballI impI)
    fix x assume "x \<in> S"
    then show "\<not> (se_before se (row_identity x) (row_identity x) \<or> row_identity x = row_identity x \<and> row_newer x x)"
      using newer before by blast
  next
    fix x y z assume "x \<in> S" "y \<in> S" "z \<in> S" and
      "se_before se (row_identity x) (row_identity y) \<or> row_identity x = row_identity y \<and> row_newer x y"
      "se_before se (row_identity y) (row_identity z) \<or> row_identity y = row_identity z \<and> row_newer y z"
    then show "se_before se (row_identity x) (row_identity z) \<or> row_identity x = row_identity z \<and> row_newer x z"
      using newer before by metis
  next
    fix x y assume "x \<in> S" "y \<in> S" "x \<noteq> y"
    then show "(se_before se (row_identity x) (row_identity y) \<or> row_identity x = row_identity y \<and> row_newer x y) \<or>
        (se_before se (row_identity y) (row_identity x) \<or> row_identity y = row_identity x \<and> row_newer y x)"
      using newer before by metis
  qed
qed

text \<open>The newest row of every identity of a selection, in the order of the identities.\<close>

definition latest_rows :: "store_env \<Rightarrow> stored list \<Rightarrow> stored list" where
  "latest_rows se rows = first_of_each row_identity (sort_by (latest_before se) rows)"

definition newest_row :: "stored list \<Rightarrow> stored \<Rightarrow> bool" where
  "newest_row rows row \<longleftrightarrow> row \<in> set rows \<and>
     (\<forall>r \<in> set rows. row_identity r = row_identity row \<longrightarrow> r = row \<or> row_newer row r)"

lemma row_selection_sub: "set (row_selection se fl w cat db) \<subseteq> set (qd_rows db)"
  by (auto simp: row_selection_def)

lemma row_selection_distinct: "store_ok db \<Longrightarrow> distinct (row_selection se fl w cat db)"
  by (auto simp: row_selection_def store_ok_def distinct_map)

lemma sorted_latest:
  assumes "store_ok db" and "set rows \<subseteq> set (qd_rows db)" and "distinct rows" and "strict_order (se_before se)"
  shows "sorted_wrt (latest_before se) (sort_by (latest_before se) rows)"
  using assms(3) latest_orders [OF assms(1,2,4)] by (rule sorted_sort_by)

lemma latest_before_identity:
  "latest_before se x y \<Longrightarrow> se_before se (row_identity x) (row_identity y) \<or> row_identity x = row_identity y"
  by (auto simp: latest_before_def)

lemma latest_rows_set:
  assumes "store_ok db" and "set rows \<subseteq> set (qd_rows db)" and "distinct rows" and "strict_order (se_before se)"
  shows "sorted_wrt (\<lambda>x y. se_before se (row_identity x) (row_identity y)) (latest_rows se rows) \<and>
    set (latest_rows se rows) = {row. newest_row rows row}"
proof -
  have "sorted_wrt (\<lambda>x y. se_before se (row_identity x) (row_identity y)) (latest_rows se rows) \<and>
      set (latest_rows se rows) = {x \<in> set rows. \<forall>y \<in> set rows. row_identity y = row_identity x \<longrightarrow> y = x \<or> latest_before se x y}"
    unfolding latest_rows_def
    using first_of_each_set [where k = row_identity and before = "se_before se", OF sorted_latest [OF assms] _ _ assms(4)]
      latest_orders [OF assms(1,2,4)] latest_before_identity by simp
  moreover have "latest_before se x y \<longleftrightarrow> row_newer x y" if "row_identity y = row_identity x" for x y
    using that assms(4) by (auto simp: latest_before_def strict_order_def)
  ultimately show ?thesis by (auto simp: newest_row_def)
qed

lemma latest_rows_filter:
  assumes "store_ok db" and "set rows \<subseteq> set (qd_rows db)" and "distinct rows" and "strict_order (se_before se)"
  shows "latest_rows se (filter (\<lambda>row. P (row_identity row)) rows) = filter (\<lambda>row. P (row_identity row)) (latest_rows se rows)"
proof -
  note o = latest_orders [OF assms(1,2,4)]
  have "sort_by (latest_before se) (filter (\<lambda>row. P (row_identity row)) rows) =
      filter (\<lambda>row. P (row_identity row)) (sort_by (latest_before se) rows)"
    using assms(3) o by (rule sort_by_filter)
  then show ?thesis unfolding latest_rows_def
    using first_of_each_filter [where k = row_identity and before = "se_before se", OF sorted_latest [OF assms] _ _ assms(4)]
      o latest_before_identity by simp
qed

text \<open>\<open>query_latest\<close> is the beginning of that list.\<close>

lemma query_latest_rows:
  assumes "store_ok db"
  shows "query_latest se fl w cat after None db = decode_rows se (take 101 (latest_rows se
     (filter (\<lambda>row. is_none_or (\<lambda>a. se_before se a (row_identity row)) after) (row_selection se fl w (Some cat) db))))"
proof -
  let ?sel = "filter (\<lambda>row. is_none_or (\<lambda>a. se_before se a (row_identity row)) after) (row_selection se fl w (Some cat) db)"
  have "filter (\<lambda>row. sd_id row \<in> sd_id ` set ?sel \<and> category (sd_columns row) = cat) (qd_rows db) = ?sel"
  proof -
    have "sd_id row \<in> sd_id ` set ?sel \<longleftrightarrow> row \<in> set ?sel" if "row \<in> set (qd_rows db)" for row
      using store_ids [OF assms] that row_selection_sub by (auto simp: image_iff) blast+
    then have "filter (\<lambda>row. sd_id row \<in> sd_id ` set ?sel \<and> category (sd_columns row) = cat) (qd_rows db) =
        filter (\<lambda>row. row \<in> set ?sel \<and> category (sd_columns row) = cat) (qd_rows db)"
      by (intro filter_cong) auto
    also have "\<dots> = ?sel"
      unfolding row_selection_def filter_filter by (intro filter_cong) (auto simp: row_selected_def is_none_or_def split: option.splits)
    finally show ?thesis .
  qed
  then show ?thesis by (simp add: query_latest_def Let_def latest_rows_def is_none_or_def)
qed

section \<open>Decoding\<close>

lemma decode_row_fields:
  "decode_row se row = Inr r \<Longrightarrow> qr_identity r = qr_identity (sd_payload row) \<and> qr_details r = qr_details (sd_payload row) \<and>
   qr_observed_at r = row_from row \<and> qr_last_observed_at r = sd_to row \<and> qr_closed_at r = sd_closed_at row \<and>
   qr_valid_until r = qr_valid_until (sd_payload row) \<and> qr_stale r = qr_stale (sd_payload row)"
  by (auto simp: decode_row_def Let_def split: if_splits)

lemma decode_rows_append:
  "decode_rows se (xs @ ys) = (case decode_rows se xs of Inl e \<Rightarrow> Inl e | Inr rs \<Rightarrow>
     (case decode_rows se ys of Inl e \<Rightarrow> Inl e | Inr rs' \<Rightarrow> Inr (rs @ rs')))"
  by (induction xs) (auto split: sum.splits)

lemma decode_rows_error: "decode_rows se rows = Inl e \<Longrightarrow> e = HRecord"
  by (induction rows) (auto simp: decode_row_def Let_def split: sum.splits if_splits)

lemma decode_rows_all: "decode_rows se rows = Inr rs \<Longrightarrow> list_all2 (\<lambda>row r. decode_row se row = Inr r) rows rs"
  by (induction rows arbitrary: rs) (auto split: sum.splits)

section \<open>Retention\<close>

text \<open>The last record written under each key.\<close>

definition log_row :: "query_row \<Rightarrow> (string \<Rightarrow> q_record option) \<Rightarrow> string \<Rightarrow> q_record option" where
  "log_row r mem = mem(qw_key r \<mapsto> qw_record r)"

text \<open>
  The table under writes and retention, as time goes on; \<open>mem\<close> remembers what retention forgets. No write
  is older than what retention has already removed.
\<close>

inductive store_run :: "span \<Rightarrow> nat \<Rightarrow> instant \<Rightarrow> query_db \<Rightarrow> (string \<Rightarrow> q_record option) \<Rightarrow> bool" for retention cap where
  created: "qd_rows db = [] \<Longrightarrow> qd_evicted_through db = None \<Longrightarrow> store_run retention cap t db (\<lambda>_. None)"
| wrote: "store_run retention cap t db mem \<Longrightarrow> t \<le> now \<Longrightarrow>
     \<forall>r \<in> set rows. is_none_or (\<lambda>e. e \<le> qr_last_observed_at (qw_record r)) (qd_evicted_through db) \<Longrightarrow>
     write_rows now rows db = Inr db' \<Longrightarrow> store_run retention cap now db' (fold log_row rows mem)"
| retained: "store_run retention cap t db mem \<Longrightarrow> t \<le> now \<Longrightarrow>
     store_run retention cap now (retain_queries now retention cap db) mem"

definition kept_rows :: "span \<Rightarrow> instant \<Rightarrow> query_db \<Rightarrow> (string \<Rightarrow> q_record option) \<Rightarrow> bool" where
  "kept_rows retention t db mem \<longleftrightarrow>
     distinct (map sd_id (qd_rows db)) \<and> distinct (map sd_key (qd_rows db)) \<and> (\<forall>row \<in> set (qd_rows db). sd_id row < qd_fresh db) \<and>
     (\<forall>row \<in> set (qd_rows db). mem (sd_key row) = Some (sd_payload row) \<and> sd_to row = qr_last_observed_at (sd_payload row) \<and>
        is_none_or (\<lambda>e. e \<le> qr_last_observed_at (sd_payload row)) (qd_evicted_through db)) \<and>
     (\<forall>k r. mem k = Some r \<longrightarrow> k \<in> sd_key ` set (qd_rows db) \<or> qr_last_observed_at r < t - as_i64 retention * nanos_per_sec \<or>
        is_some_and (\<lambda>e. qr_last_observed_at r \<le> e) (qd_evicted_through db))"

lemma kept_later: "kept_rows retention t db mem \<Longrightarrow> t \<le> now \<Longrightarrow> kept_rows retention now db mem"
  unfolding kept_rows_def by (meson diff_right_mono less_le_trans)

lemma older_orders:
  assumes "distinct (map sd_id rows)"
  shows "orders row_older (set rows)"
proof -
  have "row_older x y \<or> row_older y x" if "x \<in> set rows" "y \<in> set rows" "x \<noteq> y" for x y
    using that assms by (force simp: row_older_def distinct_map inj_on_def)
  moreover have "\<not> row_older x x" and "row_older x y \<Longrightarrow> row_older y z \<Longrightarrow> row_older x z" for x y z
    by (auto simp: row_older_def)
  ultimately show ?thesis unfolding orders_def by blast
qed

lemma kept_upsert:
  assumes "kept_rows retention t db mem" and "is_none_or (\<lambda>e. e \<le> qr_last_observed_at (qw_record r)) (qd_evicted_through db)"
  shows "kept_rows retention t (upsert_row r db) (log_row r mem)"
proof (cases "qw_key r \<in> sd_key ` set (qd_rows db)")
  case True
  define f where "f row = (if sd_key row = qw_key r then renew_row r row else row)" for row
  have f [simp]: "sd_key (f row) = sd_key row" "sd_id (f row) = sd_id row" for row by (simp_all add: f_def renew_row_def)
  have up: "upsert_row r db = db\<lparr>qd_rows := map f (qd_rows db)\<rparr>" using True by (simp add: upsert_row_def f_def)
  have "log_row r mem (sd_key row) = Some (sd_payload (f row)) \<and> sd_to (f row) = qr_last_observed_at (sd_payload (f row)) \<and>
      is_none_or (\<lambda>e. e \<le> qr_last_observed_at (sd_payload (f row))) (qd_evicted_through db)" if "row \<in> set (qd_rows db)" for row
    using assms that by (cases "sd_key row = qw_key r") (auto simp: kept_rows_def log_row_def f_def renew_row_def)
  moreover have "k \<in> sd_key ` set (qd_rows db) \<or> qr_last_observed_at x < t - as_i64 retention * nanos_per_sec \<or>
      is_some_and (\<lambda>e. qr_last_observed_at x \<le> e) (qd_evicted_through db)" if "log_row r mem k = Some x" for k x
    using assms(1) that True by (cases "k = qw_key r") (auto simp: kept_rows_def log_row_def)
  ultimately show ?thesis using assms unfolding kept_rows_def up by (simp add: image_image comp_def)
next
  case False
  let ?row = "insert_row (qd_fresh db) r"
  have new: "sd_id ?row = qd_fresh db" "sd_key ?row = qw_key r" "sd_payload ?row = qw_record r"
    "sd_to ?row = qr_last_observed_at (qw_record r)" by (simp_all add: insert_row_def)
  have up: "upsert_row r db = db\<lparr>qd_rows := qd_rows db @ [?row], qd_fresh := qd_fresh db + 1\<rparr>" using False by (simp add: upsert_row_def)
  have old: "log_row r mem (sd_key row) = mem (sd_key row)" if "row \<in> set (qd_rows db)" for row
    using that False by (force simp: log_row_def)
  have "k \<in> sd_key ` set (qd_rows db @ [?row]) \<or> qr_last_observed_at x < t - as_i64 retention * nanos_per_sec \<or>
      is_some_and (\<lambda>e. qr_last_observed_at x \<le> e) (qd_evicted_through db)" if "log_row r mem k = Some x" for k x
    using assms(1) that by (cases "k = qw_key r") (auto simp: kept_rows_def log_row_def new)
  moreover have "distinct (map sd_id (qd_rows db @ [?row]))" "distinct (map sd_key (qd_rows db @ [?row]))"
    using assms(1) False by (auto simp: kept_rows_def new)
  moreover have "\<forall>row \<in> set (qd_rows db @ [?row]). sd_id row < qd_fresh db + 1"
    using assms(1) by (auto simp: kept_rows_def new less_Suc_eq)
  moreover have "\<forall>row \<in> set (qd_rows db @ [?row]). log_row r mem (sd_key row) = Some (sd_payload row) \<and>
      sd_to row = qr_last_observed_at (sd_payload row) \<and> is_none_or (\<lambda>e. e \<le> qr_last_observed_at (sd_payload row)) (qd_evicted_through db)"
    using assms old by (auto simp: kept_rows_def new) (simp add: log_row_def)
  ultimately show ?thesis unfolding kept_rows_def up by simp
qed

lemma upsert_evicted [simp]: "qd_evicted_through (upsert_row r db) = qd_evicted_through db"
  by (simp add: upsert_row_def)

lemma kept_upserts:
  "kept_rows retention t db mem \<Longrightarrow> \<forall>r \<in> set rows. is_none_or (\<lambda>e. e \<le> qr_last_observed_at (qw_record r)) (qd_evicted_through db) \<Longrightarrow>
   kept_rows retention t (fold upsert_row rows db) (fold log_row rows mem)"
  by (induction rows arbitrary: db mem) (simp_all add: kept_upsert)

lemma kept_supersede:
  assumes "kept_rows retention t db mem"
  shows "kept_rows retention t (db\<lparr>qd_rows := map (supersede now rows) (qd_rows db)\<rparr>) mem"
proof -
  have "sd_id (supersede now rows row) = sd_id row" "sd_key (supersede now rows row) = sd_key row"
    "sd_to (supersede now rows row) = sd_to row" "sd_payload (supersede now rows row) = sd_payload row" for row
    by (simp_all add: supersede_def)
  then show ?thesis using assms unfolding kept_rows_def by (simp add: comp_def image_image)
qed

text \<open>Of records with one key the last one is both what is written and what is remembered.\<close>

lemma log_other: "qw_key r \<notin> qw_key ` set rows \<Longrightarrow> fold log_row rows (log_row r mem) = log_row r (fold log_row rows mem)"
  by (induction rows arbitrary: mem) (auto simp: log_row_def fun_upd_twist)

lemma log_put:
  assumes "bm_wf m" and "\<forall>(k, r) \<in> set m. qw_key r = k"
  shows "fold log_row (map snd (bm_put (qw_key r) r m)) mem = log_row r (fold log_row (map snd m) mem)"
  using assms
proof (induction m arbitrary: mem)
  case (Cons a m)
  obtain k x where a: "a = (k, x)" by (cases a)
  have k: "qw_key x = k" and wf: "bm_wf m" and keys: "\<forall>(k, r) \<in> set m. qw_key r = k" using Cons.prems a by (auto simp: bm_wf_def)
  have above: "\<forall>y \<in> snd ` set m. k < qw_key y" using Cons.prems a by (force simp: bm_wf_def)
  show ?case
  proof (cases "qw_key r" k rule: linorder_cases)
    case less
    then have "qw_key r \<notin> qw_key ` set (map snd (a # m))" using above a k by force
    then show ?thesis using log_other [of r "map snd (a # m)" mem] less by (simp add: a)
  next
    case equal
    then have "qw_key r \<notin> qw_key ` set (map snd m)" using above by force
    moreover have "qw_key x \<notin> qw_key ` set (map snd m)" using above k by force
    moreover have "log_row r (log_row x l) = log_row r l" for l using equal k by (simp add: log_row_def)
    ultimately show ?thesis using log_other [of r "map snd m" mem] log_other [of x "map snd m" mem] equal by (simp add: a)
  next
    case greater
    then have "\<not> qw_key r < k" "qw_key r \<noteq> k" by auto
    then show ?thesis using Cons.IH [OF wf keys, of "log_row x mem"] by (simp add: a)
  qed
qed simp

lemma in_bm_put: "a \<in> set (bm_put k v m) \<Longrightarrow> a = (k, v) \<or> a \<in> set m"
  by (induction k v m rule: bm_put.induct) (auto split: if_splits)

lemma unique_rows_sub: "set (unique_rows rows) \<subseteq> set rows"
proof -
  have put: "snd ` set (bm_put k r m) \<subseteq> insert r (snd ` set m)" for k r and m :: "(string \<times> query_row) list"
    by (auto dest!: in_bm_put)
  have "snd ` set (fold (\<lambda>r. bm_put (qw_key r) r) rows m) \<subseteq> set rows \<union> snd ` set m" for m
  proof (induction rows arbitrary: m)
    case (Cons r rows)
    show ?case using Cons.IH [of "bm_put (qw_key r) r m"] put [of "qw_key r" r m] by auto
  qed simp
  from this [where m = "[]"] show ?thesis by (simp add: unique_rows_def)
qed

lemma log_unique: "fold log_row (unique_rows rows) mem = fold log_row rows mem"
proof -
  have "bm_wf (fold (\<lambda>r. bm_put (qw_key r) r) rows []) \<and> (\<forall>(k, r) \<in> set (fold (\<lambda>r. bm_put (qw_key r) r) rows []). qw_key r = k) \<and>
      fold log_row (map snd (fold (\<lambda>r. bm_put (qw_key r) r) rows [])) mem = fold log_row rows mem"
  proof (induction rows rule: rev_induct)
    case (snoc r rows)
    let ?m = "fold (\<lambda>r. bm_put (qw_key r) r) rows []"
    have "\<forall>(k, x) \<in> set (bm_put (qw_key r) r ?m). qw_key x = k"
      using snoc by (auto dest!: in_bm_put)
    then show ?case using snoc log_put [of ?m r mem] by (simp add: bm_wf_put)
  qed (simp add: bm_wf_def)
  then show ?thesis by (simp add: unique_rows_def)
qed

lemma expire_rows_keep [simp]: "qd_evicted_through (expire_rows cutoff db) = qd_evicted_through db"
  "qd_fresh (expire_rows cutoff db) = qd_fresh db"
  by (simp_all add: expire_rows_def delete_rows_def)

lemma kept_expire:
  assumes "kept_rows retention t db mem"
  shows "kept_rows retention t (expire_rows (t - as_i64 retention * nanos_per_sec) db) mem"
proof -
  let ?cut = "t - as_i64 retention * nanos_per_sec"
  let ?gone = "take 2048 (sort_by row_older (filter (\<lambda>row. sd_to row < ?cut) (qd_rows db)))"
  have gone: "row \<in> set (qd_rows db)" "sd_to row < ?cut" if "row \<in> set ?gone" for row
    using in_set_takeD [OF that] by simp_all
  have rows: "set (qd_rows (expire_rows ?cut db)) = {row \<in> set (qd_rows db). sd_id row \<notin> sd_id ` set ?gone}"
    by (simp add: expire_rows_def delete_rows_def)
  have "k \<in> sd_key ` set (qd_rows (expire_rows ?cut db)) \<or> qr_last_observed_at r < ?cut \<or>
      is_some_and (\<lambda>e. qr_last_observed_at r \<le> e) (qd_evicted_through db)" if k: "mem k = Some r" for k r
  proof (cases "k \<in> sd_key ` set (qd_rows db)")
    case True
    then obtain row where row: "row \<in> set (qd_rows db)" "k = sd_key row" by blast
    show ?thesis
    proof (cases "sd_id row \<in> sd_id ` set ?gone")
      case True
      then obtain x where x: "x \<in> set ?gone" "sd_id row = sd_id x" by blast
      have "x = row" using assms row(1) gone(1) [OF x(1)] x(2) by (auto simp: kept_rows_def distinct_map dest: inj_onD)
      then show ?thesis using gone(2) [OF x(1)] assms row k by (auto simp: kept_rows_def)
    qed (use row rows in blast)
  next
    case False
    then show ?thesis using assms k by (auto simp: kept_rows_def)
  qed
  moreover have "distinct (map sd_id (qd_rows (expire_rows ?cut db)))" "distinct (map sd_key (qd_rows (expire_rows ?cut db)))"
    using assms by (auto simp: kept_rows_def expire_rows_def delete_rows_def distinct_map inj_on_def)
  ultimately show ?thesis using assms rows unfolding kept_rows_def by simp
qed

lemma sorted_take_drop:
  assumes "sorted_wrt lt xs" and "x \<in> set (take n xs)" and "y \<in> set xs" and "y \<notin> set (take n xs)"
  shows "lt x y"
  using assms by (metis Un_iff append_take_drop_id set_append sorted_wrt_append)

lemma sorted_before_last: "sorted_wrt lt xs \<Longrightarrow> x \<in> set xs \<Longrightarrow> x = last xs \<or> lt x (last xs)"
  by (induction xs) auto

lemma kept_excess:
  assumes "kept_rows retention t db mem"
  shows "kept_rows retention t (delete_rows (excess_rows cap db) (mark_evicted (excess_rows cap db) db)) mem"
proof (cases "excess_rows cap db = []")
  case True
  then show ?thesis using assms by (simp add: delete_rows_def mark_evicted_def)
next
  case False
  define gone where "gone = excess_rows cap db"
  let ?db = "delete_rows gone (mark_evicted gone db)" and ?all = "sort_by row_older (qd_rows db)"
  define n where "n = min (length (qd_rows db) - cap) 2048"
  have g: "gone = take n ?all" by (simp add: gone_def n_def excess_rows_def)
  have ids: "distinct (map sd_id (qd_rows db))" using assms by (simp add: kept_rows_def)
  have sorted: "sorted_wrt row_older ?all"
    using ids older_orders by (intro sorted_sort_by) (auto simp: distinct_map)
  have newest: "last gone \<in> set gone" using False by (simp add: gone_def)
  have sub: "set gone \<subseteq> set (qd_rows db)" using g by (metis set_sort_by set_take_subset)
  have up: "?db = db\<lparr>qd_evicted_through := Some (sd_to (last gone)),
      qd_rows := filter (\<lambda>row. sd_id row \<notin> sd_id ` set gone) (qd_rows db)\<rparr>"
    using False by (simp add: delete_rows_def mark_evicted_def gone_def)
  have before: "sd_to row \<le> sd_to (last gone)" if "row \<in> set gone" for row
  proof -
    have "sorted_wrt row_older gone" unfolding g using sorted by (rule sorted_wrt_take)
    then have "row = last gone \<or> row_older row (last gone)" using that by (rule sorted_before_last)
    then show ?thesis by (auto simp: row_older_def)
  qed
  have left: "row \<notin> set gone" if "sd_id row \<notin> sd_id ` set gone" for row using that by blast
  have after: "sd_to (last gone) \<le> sd_to row" if "row \<in> set (qd_rows db)" "sd_id row \<notin> sd_id ` set gone" for row
  proof -
    have "row \<in> set ?all" using that(1) by simp
    then have "row_older (last gone) row"
      using sorted_take_drop [OF sorted, of "last gone" n row] newest left [OF that(2)] unfolding g by blast
    then show ?thesis by (auto simp: row_older_def)
  qed
  have kept_or_gone: "k \<in> sd_key ` {row \<in> set (qd_rows db). sd_id row \<notin> sd_id ` set gone} \<or>
      qr_last_observed_at r < t - as_i64 retention * nanos_per_sec \<or> qr_last_observed_at r \<le> sd_to (last gone)"
    if k: "mem k = Some r" for k r
  proof (cases "k \<in> sd_key ` set (qd_rows db)")
    case True
    then obtain row where row: "row \<in> set (qd_rows db)" "k = sd_key row" by blast
    then have to: "sd_to row = qr_last_observed_at r" using assms k by (auto simp: kept_rows_def)
    show ?thesis
    proof (cases "sd_id row \<in> sd_id ` set gone")
      case True
      then obtain x where x: "x \<in> set gone" "sd_id row = sd_id x" by blast
      then have "x = row" using ids row(1) sub by (auto simp: distinct_map dest: inj_onD)
      then show ?thesis using before [OF x(1)] to by simp
    qed (use row in blast)
  next
    case False
    moreover have "is_none_or (\<lambda>e. e \<le> sd_to (last gone)) (qd_evicted_through db)"
      using assms newest sub by (auto simp: kept_rows_def)
    ultimately show ?thesis using assms k unfolding kept_rows_def
      by (cases "qd_evicted_through db") (auto, fastforce)
  qed
  have "distinct (map sd_id (filter P (qd_rows db))) \<and> distinct (map sd_key (filter P (qd_rows db)))" for P
    using assms by (auto simp: kept_rows_def distinct_map inj_on_def)
  then show ?thesis using assms after kept_or_gone unfolding gone_def [symmetric] kept_rows_def up by simp
qed

lemma kept_run: "store_run retention cap t db mem \<Longrightarrow> kept_rows retention t db mem"
proof (induction rule: store_run.induct)
  case (created db t)
  then show ?case by (simp add: kept_rows_def)
next
  case (wrote t db mem now rows db')
  let ?u = "unique_rows rows"
  have "set ?u \<subseteq> set rows" by (rule unique_rows_sub)
  then have "kept_rows retention now (fold upsert_row ?u (db\<lparr>qd_rows := map (supersede now ?u) (qd_rows db)\<rparr>)) (fold log_row ?u mem)"
    using wrote by (intro kept_upserts kept_supersede kept_later [OF wrote.IH]) auto
  moreover have "kept_rows retention now (d\<lparr>qd_persisted_at := p\<rparr>) m = kept_rows retention now d m" for d p m by (simp add: kept_rows_def)
  ultimately show ?case using wrote.hyps(4) by (auto simp: write_rows_def Let_def log_unique split: if_splits)
next
  case (retained t db mem now)
  then show ?case unfolding retain_queries_def Let_def by (intro kept_excess kept_expire kept_later [OF retained.IH])
qed

section \<open>Properties of retention\<close>


definition seen_at :: "string \<Rightarrow> nat \<Rightarrow> query_row" where
  "seen_at k n = \<lparr>qw_key = k, qw_record = sample_record k (DCheck sample_check)
     \<lparr>qr_observed_at := seconds n, qr_last_observed_at := seconds n\<rparr>\<rparr>"

definition fresh_store :: query_db where
  "fresh_store = \<lparr>qd_rows = [], qd_fresh = 0, qd_since = 0, qd_evicted_through = None, qd_persisted_at = None, qd_dropped = []\<rparr>"

lemma seen_simps [simp]:
  "qw_key (seen_at k n) = k" "qr_identity (qw_record (seen_at k n)) = k" "qr_observed_at (qw_record (seen_at k n)) = seconds n"
  "qr_last_observed_at (qw_record (seen_at k n)) = seconds n" "is_continuing (seen_at k n) = False"
  by (simp_all add: seen_at_def sample_record_def is_continuing_def category_def)

lemma seen_insertable: "row_insertable (qw_record (seen_at [c] n)) = is_resource [c]"
  by (simp add: row_insertable_def) (simp add: seen_at_def sample_record_def any_location_def is_name_def is_resource_def bounded_text_def
      char_count_def valid_text_def less_eq_char_def less_char_def)

lemma write_one:
  assumes "is_resource [c]" and "[c] \<notin> sd_key ` set (qd_rows db)"
  shows "write_rows now [seen_at [c] n] db = Inr (db\<lparr>qd_rows := qd_rows db @ [insert_row (qd_fresh db) (seen_at [c] n)],
    qd_fresh := qd_fresh db + 1, qd_persisted_at := Some now\<rparr>)"
proof -
  have "map (supersede now [seen_at [c] n]) rows = rows" for rows by (rule map_idI) (simp add: supersede_def)
  then show ?thesis using assms by (simp add: write_rows_def unique_rows_def seen_insertable upsert_row_def Let_def)
qed

lemma seen_row [simp]:
  "sd_key (insert_row i (seen_at k n)) = k" "sd_id (insert_row i (seen_at k n)) = i" "sd_to (insert_row i (seen_at k n)) = seconds n"
  by (simp_all add: insert_row_def)

lemma one_letter: "is_resource ''a''" "is_resource ''b''" "is_resource ''c''"
  by (simp_all add: is_resource_def bounded_text_def char_count_def valid_text_def less_eq_char_def less_char_def)


text \<open>C38: The assumption about late records in the order of writes is needed: retention sets the watermark back when it
  removes a record older than the last one it removed, and then the store calls a window complete although the record
  of ''a'' in it was evicted, which it had admitted before.\<close>

theorem late_record_hides_an_eviction:
  "\<exists>db1 db2 db3 db4. write_rows (seconds 55) [seen_at ''a'' 45, seen_at ''b'' 50] fresh_store = Inr db1 \<and>
     db2 = retain_queries (seconds 60) 604800 1 db1 \<and> map sd_key (qd_rows db2) = [''b''] \<and>
     \<not> av_complete (query_availability (seconds 70) 604800 \<lparr>w_from = seconds 20, w_to = seconds 60\<rparr> db2 db2) \<and>
     write_rows (seconds 65) [seen_at ''c'' 10] db2 = Inr db3 \<and>
     db4 = retain_queries (seconds 70) 604800 1 db3 \<and> map sd_key (qd_rows db4) = [''b''] \<and>
     av_complete (query_availability (seconds 70) 604800 \<lparr>w_from = seconds 20, w_to = seconds 60\<rparr> db4 db4)"
proof -
  let ?a = "insert_row 0 (seen_at ''a'' 45)" and ?b = "insert_row 1 (seen_at ''b'' 50)" and ?c = "insert_row 2 (seen_at ''c'' 10)"
  let ?db = "\<lambda>rows n e t. \<lparr>qd_rows = rows, qd_fresh = n, qd_since = 0, qd_evicted_through = e, qd_persisted_at = Some (seconds t),
    qd_dropped = []\<rparr>"
  have "supersede now [seen_at ''a'' 45, seen_at ''b'' 50] row = row" for now row by (simp add: supersede_def)
  then have 1: "write_rows (seconds 55) [seen_at ''a'' 45, seen_at ''b'' 50] fresh_store = Inr (?db [?a, ?b] 2 None 55)"
    using one_letter by (simp add: write_rows_def unique_rows_def seen_insertable upsert_row_def Let_def fresh_store_def)
  have 2: "retain_queries (seconds 60) 604800 1 (?db [?a, ?b] 2 None 55) = ?db [?b] 2 (Some (seconds 45)) 55"
    by (simp add: retain_queries_def expire_rows_def excess_rows_def delete_rows_def mark_evicted_def sort_by_def row_older_def
        as_i64_small seconds_def nanos_per_sec_def Let_def)
  have 3: "write_rows (seconds 65) [seen_at ''c'' 10] (?db [?b] 2 (Some (seconds 45)) 55) = Inr (?db [?b, ?c] 3 (Some (seconds 45)) 65)"
    using write_one [of "CHR ''c''" "?db [?b] 2 (Some (seconds 45)) 55" "seconds 65" 10] one_letter by simp
  have 4: "retain_queries (seconds 70) 604800 1 (?db [?b, ?c] 3 (Some (seconds 45)) 65) = ?db [?b] 3 (Some (seconds 10)) 65"
    by (simp add: retain_queries_def expire_rows_def excess_rows_def delete_rows_def mark_evicted_def sort_by_def row_older_def
        as_i64_small seconds_def nanos_per_sec_def Let_def)
  have "\<not> av_complete (query_availability (seconds 70) 604800 \<lparr>w_from = seconds 20, w_to = seconds 60\<rparr> d d)"
    if "d = ?db [?b] 2 (Some (seconds 45)) 55" for d
    using that by (simp add: query_availability_def availability_gaps_def retained_since_def as_i64_small seconds_def nanos_per_sec_def)
  moreover have "av_complete (query_availability (seconds 70) 604800 \<lparr>w_from = seconds 20, w_to = seconds 60\<rparr> d d)"
    if "d = ?db [?b] 3 (Some (seconds 10)) 65" for d
    using that by (simp add: query_availability_def availability_gaps_def retained_since_def as_i64_small seconds_def nanos_per_sec_def)
  ultimately show ?thesis using 1 2 3 4 by (intro exI conjI) (assumption | simp)+
qed

section \<open>Loops over pages\<close>

definition rows_after :: "store_env \<Rightarrow> string option \<Rightarrow> stored list \<Rightarrow> stored list" where
  "rows_after se after rows = filter (\<lambda>row. is_none_or (\<lambda>a. se_before se a (row_identity row)) after) rows"

definition latest_selected :: "store_env \<Rightarrow> query_filter \<Rightarrow> window \<Rightarrow> q_category \<Rightarrow> query_db \<Rightarrow> stored list" where
  "latest_selected se fl w cat db = latest_rows se (row_selection se fl w (Some cat) db)"

lemma latest_page:
  assumes "store_ok db" and "strict_order (se_before se)"
  shows "query_latest se fl w cat after None db = decode_rows se (take 101 (rows_after se after (latest_selected se fl w cat db)))"
  unfolding query_latest_rows [OF assms(1)] rows_after_def latest_selected_def
  using latest_rows_filter [OF assms(1) row_selection_sub row_selection_distinct [OF assms(1)] assms(2),
      where P = "\<lambda>i. is_none_or (\<lambda>a. se_before se a i) after"] by simp

lemma latest_selected_rows:
  assumes "store_ok db" and "strict_order (se_before se)"
  shows "set (latest_selected se fl w cat db) = {row. newest_row (row_selection se fl w (Some cat) db) row}"
  using latest_rows_set [OF assms(1) row_selection_sub row_selection_distinct [OF assms(1)] assms(2)]
  by (simp add: latest_selected_def)

lemma sorted_distinct: "sorted_wrt (\<lambda>x y. lt (k x) (k y)) xs \<Longrightarrow> strict_order lt \<Longrightarrow> distinct (map k xs)"
  by (induction xs) (auto simp: strict_order_def)

lemma latest_selected_distinct:
  assumes "store_ok db" and "strict_order (se_before se)"
  shows "distinct (map row_identity (latest_selected se fl w cat db))"
  using latest_rows_set [OF assms(1) row_selection_sub row_selection_distinct [OF assms(1)] assms(2)] assms(2)
  unfolding latest_selected_def by (intro sorted_distinct [where lt = "se_before se"]) blast+

lemma latest_selected_sub:
  assumes "store_ok db" and "strict_order (se_before se)"
  shows "set (rows_after se after (latest_selected se fl w cat db)) \<subseteq> set (qd_rows db)"
  using latest_selected_rows [OF assms] row_selection_sub unfolding rows_after_def newest_row_def by fastforce

text \<open>After the last row of a page come exactly the rows the page left out.\<close>

lemma sorted_rest:
  assumes "sorted_wrt (\<lambda>x y. lt (k x) (k y)) xs" and "strict_order lt" and "n < length xs"
  shows "filter (\<lambda>x. lt (k (xs ! n)) (k x)) xs = drop (Suc n) xs"
proof -
  have split: "xs = take (Suc n) xs @ drop (Suc n) xs" by simp
  have earlier: "\<not> lt (k (xs ! n)) (k x)" if x: "x \<in> set (take (Suc n) xs)" for x
  proof -
    obtain i where i: "i \<le> n" "x = xs ! i" using x assms(3) by (auto simp: in_set_conv_nth less_Suc_eq_le)
    then have "i = n \<or> lt (k x) (k (xs ! n))" using assms(1,3) by (cases "i = n") (auto simp: sorted_wrt_iff_nth_less)
    then show ?thesis using assms(2) i unfolding strict_order_def by metis
  qed
  have later: "lt (k (xs ! n)) (k x)" if x: "x \<in> set (drop (Suc n) xs)" for x
  proof -
    obtain i where i: "Suc n + i < length xs" "x = xs ! (Suc n + i)"
      using x unfolding in_set_conv_nth by (metis add.commute length_drop less_diff_conv nth_drop order_less_imp_le assms(3) Suc_leI)
    then show ?thesis using assms(1) by (simp add: sorted_wrt_iff_nth_less)
  qed
  have "filter (\<lambda>x. lt (k (xs ! n)) (k x)) (take (Suc n) xs) = []" using earlier by (simp add: filter_empty_conv)
  moreover have "filter (\<lambda>x. lt (k (xs ! n)) (k x)) (drop (Suc n) xs) = drop (Suc n) xs" using later by (simp add: filter_id_conv)
  ultimately show ?thesis by (metis append_Nil filter_append split)
qed

lemma rows_after_next:
  assumes "store_ok db" and "strict_order (se_before se)"
    and "100 < length (rows_after se after (latest_selected se fl w cat db))"
  shows "rows_after se (Some (row_identity (rows_after se after (latest_selected se fl w cat db) ! 99)))
      (latest_selected se fl w cat db) = drop 100 (rows_after se after (latest_selected se fl w cat db))"
proof -
  let ?L = "latest_selected se fl w cat db" and ?R = "rows_after se after (latest_selected se fl w cat db)"
  let ?i = "row_identity (?R ! 99)"
  have sorted: "sorted_wrt (\<lambda>x y. se_before se (row_identity x) (row_identity y)) ?L"
    using latest_rows_set [OF assms(1) row_selection_sub row_selection_distinct [OF assms(1)] assms(2)]
    by (simp add: latest_selected_def)
  then have "filter (\<lambda>x. se_before se ?i (row_identity x)) ?R = drop (Suc 99) ?R"
    using assms(3) by (intro sorted_rest [OF _ assms(2)]) (auto simp: rows_after_def sorted_wrt_filter)
  moreover have "filter (\<lambda>x. se_before se ?i (row_identity x)) ?R = rows_after se (Some ?i) ?L"
  proof -
    have "?R ! 99 \<in> set ?R" using assms(3) by (intro nth_mem) simp
    then have first: "is_none_or (\<lambda>a. se_before se a ?i) after" by (simp add: rows_after_def)
    have "se_before se ?i (row_identity x) \<Longrightarrow> is_none_or (\<lambda>a. se_before se a (row_identity x)) after" for x
      using assms(2) first unfolding strict_order_def is_none_or_def by (cases after) (simp, metis option.case(2))
    then have "filter (\<lambda>x. se_before se ?i (row_identity x)) ?R = filter (\<lambda>x. se_before se ?i (row_identity x)) ?L"
      unfolding rows_after_def filter_filter by (intro filter_cong) blast+
    then show ?thesis by (simp add: rows_after_def is_none_or_def)
  qed
  ultimately show ?thesis by simp
qed

definition decoded :: "store_env \<Rightarrow> (q_record list \<Rightarrow> 'a) \<Rightarrow> stored list \<Rightarrow> history_error + 'a" where
  "decoded se f rows = (case decode_rows se rows of Inl e \<Rightarrow> Inl e | Inr rs \<Rightarrow> Inr (f rs))"

lemma page_identity:
  assumes "store_ok db" and "decode_rows se rows = Inr rs" and "set rows \<subseteq> set (qd_rows db)" and "rows \<noteq> []"
  shows "last_identity rs = Some (row_identity (last rows))"
proof -
  have all: "list_all2 (\<lambda>row r. decode_row se row = Inr r) rows rs" by (rule decode_rows_all [OF assms(2)])
  then have len: "length rs = length rows" by (simp add: list_all2_lengthD)
  then have ne: "rs \<noteq> []" using assms(4) by auto
  have "decode_row se (last rows) = Inr (last rs)"
    using all len ne assms(4) by (simp add: list_all2_conv_all_nth last_conv_nth)
  moreover have "last rows \<in> set (qd_rows db)" using assms(3,4) last_in_set by blast
  ultimately show ?thesis
    using assms(1) ne decode_row_fields by (auto simp: last_identity_def store_ok_def)
qed

text \<open>One page, over the table \<open>db\<close>: the error, all that is left, or a hundred rows and the identity to go on after.\<close>

lemma page_cases:
  fixes fl w cat
  assumes "store_ok db" and "strict_order (se_before se)"
  defines "R \<equiv> (\<lambda>after. rows_after se after (latest_selected se fl w cat db))"
  shows "(case over (Inr db) (query_latest se fl w cat after None) of
      Inl e \<Rightarrow> decode_rows se (R after) = Inl e
    | Inr page \<Rightarrow>
        if length page \<le> 100 then decode_rows se (R after) = Inr (take 100 page) \<and> length (R after) \<le> 100
        else 100 < length (R after) \<and> decode_rows se (take 100 (R after)) = Inr (take 100 page) \<and>
             R (last_identity (take 100 page)) = drop 100 (R after))"
proof -
  have page: "over (Inr db) (query_latest se fl w cat after None) = decode_rows se (take 101 (R after))"
    unfolding over_def R_def by (simp add: latest_page [OF assms(1,2)])
  have whole: "decode_rows se (R after) = (case decode_rows se (take 101 (R after)) of Inl e \<Rightarrow> Inl e | Inr rs \<Rightarrow>
      (case decode_rows se (drop 101 (R after)) of Inl e \<Rightarrow> Inl e | Inr rs' \<Rightarrow> Inr (rs @ rs')))"
    using decode_rows_append [of se "take 101 (R after)" "drop 101 (R after)"] by simp
  show ?thesis
  proof (cases "decode_rows se (take 101 (R after))")
    case (Inl e)
    then show ?thesis using page whole by simp
  next
    case (Inr page)
    have len: "length page = min 101 (length (R after))"
      using list_all2_lengthD [OF decode_rows_all [OF Inr]] by simp
    show ?thesis
    proof (cases "length page \<le> 100")
      case True
      then have "length (R after) \<le> 100" using len by simp
      then show ?thesis using True page Inr len by simp
    next
      case False
      then have big: "100 < length (R after)" using len by simp
      have "take 101 (R after) = take 100 (R after) @ [R after ! 100]"
        using big take_Suc_conv_app_nth [of 100 "R after"] by simp
      then obtain rs where rs: "decode_rows se (take 100 (R after)) = Inr rs" "take (length rs) page = rs"
        using Inr by (auto simp: decode_rows_append split: sum.splits)
      have "length rs = 100" using list_all2_lengthD [OF decode_rows_all [OF rs(1)]] big by simp
      then have first: "decode_rows se (take 100 (R after)) = Inr (take 100 page)" using rs by simp
      have "set (take 100 (R after)) \<subseteq> set (qd_rows db)"
        using latest_selected_sub [OF assms(1,2)] unfolding R_def by (meson in_set_takeD subsetD subsetI)
      then have "last_identity (take 100 page) = Some (row_identity (last (take 100 (R after))))"
        using big by (intro page_identity [OF assms(1) first]) auto
      also have "last (take 100 (R after)) = R after ! 99" using big by (subst last_conv_nth) auto
      finally have "last_identity (take 100 page) = Some (row_identity (R after ! 99))" .
      then have "R (last_identity (take 100 page)) = drop 100 (R after)"
        using rows_after_next [where se = se and after = after and fl = fl and w = w and cat = cat, OF assms(1,2)] big by (simp add: R_def)
      then show ?thesis using page Inr False big first by simp
    qed
  qed
qed

text \<open>With every statement on the table \<open>db\<close>, a loop that ends has read all the rows that were left, and it ends.\<close>

lemma decoded_split:
  assumes "decode_rows se (take n xs) = Inr rs"
  shows "decoded se f xs = (case decode_rows se (drop n xs) of Inl e \<Rightarrow> Inl e | Inr rs' \<Rightarrow> Inr (f (rs @ rs')))"
  using decode_rows_append [of se "take n xs" "drop n xs"] assms by (simp add: decoded_def split: sum.splits)

lemma check_pages_all:
  fixes fl w required
  assumes "store_ok db" and "strict_order (se_before se)" and "\<forall>rd \<in> set rds. rd = Inr db"
  defines "R \<equiv> (\<lambda>after. rows_after se after (latest_selected se fl w QCheck db))"
  assumes "check_pages se fl w required after rds = Some res"
  shows "res = decoded se (\<lambda>rs. map clear_operations (filter (\<lambda>r. qr_identity r \<in> set required) rs)) (R after)"
  using assms(3,5)
proof (induction rds arbitrary: after res)
  case (Cons rd rds)
  have "R a = rows_after se a (latest_selected se fl w QCheck db)" for a by (simp add: R_def)
  note page = page_cases [OF assms(1,2), where fl = fl and w = w and cat = QCheck and after = after, folded this]
  have rd: "rd = Inr db" using Cons.prems(1) by simp
  show ?case
  proof (cases "over (Inr db) (query_latest se fl w QCheck after None)")
    case (Inl e)
    then have "res = Inl e" "decode_rows se (R after) = Inl e" using page Cons.prems(2) by (simp_all add: rd)
    then show ?thesis by (simp add: decoded_def)
  next
    case (Inr ds)
    show ?thesis
    proof (cases "length ds \<le> 100")
      case True
      then show ?thesis using page Cons.prems(2) Inr by (simp add: rd decoded_def)
    next
      case False
      then have more: "decode_rows se (take 100 (R after)) = Inr (take 100 ds)" "R (last_identity (take 100 ds)) = drop 100 (R after)"
        using page Inr by simp_all
      obtain res' where res': "check_pages se fl w required (last_identity (take 100 ds)) rds = Some res'"
        and res: "res = (case res' of Inl e \<Rightarrow> Inl e | Inr rs \<Rightarrow>
          Inr (map clear_operations (filter (\<lambda>r. qr_identity r \<in> set required) (take 100 ds)) @ rs))"
        using Cons.prems(2) Inr False by (auto simp: rd)
      have "res' = decoded se (\<lambda>rs. map clear_operations (filter (\<lambda>r. qr_identity r \<in> set required) rs)) (drop 100 (R after))"
        using Cons.IH [OF _ res'] Cons.prems(1) more(2) by simp
      then show ?thesis unfolding res decoded_split [OF more(1)] by (simp add: decoded_def split: sum.splits)
    qed
  qed
qed simp

lemma check_pages_end:
  fixes fl w required
  assumes "store_ok db" and "strict_order (se_before se)" and "\<forall>rd \<in> set rds. rd = Inr db"
  defines "R \<equiv> (\<lambda>after. rows_after se after (latest_selected se fl w QCheck db))"
  assumes "length (R after) < 100 * length rds"
  shows "check_pages se fl w required after rds \<noteq> None"
  using assms(3,5)
proof (induction rds arbitrary: after)
  case (Cons rd rds)
  have "R a = rows_after se a (latest_selected se fl w QCheck db)" for a by (simp add: R_def)
  note page = page_cases [OF assms(1,2), where fl = fl and w = w and cat = QCheck and after = after, folded this]
  have rd: "rd = Inr db" using Cons.prems(1) by simp
  show ?case
  proof (cases "over (Inr db) (query_latest se fl w QCheck after None)")
    case (Inr ds)
    show ?thesis
    proof (cases "length ds \<le> 100")
      case False
      then have "length (R (last_identity (take 100 ds))) < 100 * length rds" using page Inr Cons.prems(2) by simp linarith
      then have "check_pages se fl w required (last_identity (take 100 ds)) rds \<noteq> None"
        using Cons.prems(1) by (intro Cons.IH) simp_all
      then show ?thesis using Inr False by (simp add: rd)
    qed (simp add: rd Inr)
  qed (simp add: rd)
qed simp

lemma release_pages_all:
  fixes d w
  assumes "store_ok db" and "strict_order (se_before se)" and "\<forall>rd \<in> set rds. rd = Inr db"
  defines "R \<equiv> (\<lambda>after. rows_after se after (latest_selected se (de_filter d) w QRelease db))"
  assumes "release_pages se d w now after ra rds = Some res"
  shows "res = decoded se (\<lambda>rs. fold (observe_release d w now) rs ra) (R after)"
  using assms(3,5)
proof (induction rds arbitrary: after ra)
  case (Cons rd rds)
  have "R a = rows_after se a (latest_selected se (de_filter d) w QRelease db)" for a by (simp add: R_def)
  note page = page_cases [OF assms(1,2), where fl = "de_filter d" and w = w and cat = QRelease and after = after, folded this]
  have rd: "rd = Inr db" using Cons.prems(1) by simp
  show ?case
  proof (cases "over (Inr db) (query_latest se (de_filter d) w QRelease after None)")
    case (Inl e)
    then have "res = Inl e" "decode_rows se (R after) = Inl e" using page Cons.prems(2) by (simp_all add: rd)
    then show ?thesis by (simp add: decoded_def)
  next
    case (Inr ds)
    show ?thesis
    proof (cases "length ds \<le> 100")
      case True
      then show ?thesis using page Cons.prems(2) Inr by (simp add: rd decoded_def)
    next
      case False
      then have more: "decode_rows se (take 100 (R after)) = Inr (take 100 ds)" "R (last_identity (take 100 ds)) = drop 100 (R after)"
        using page Inr by simp_all
      have rest: "release_pages se d w now (last_identity (take 100 ds)) (fold (observe_release d w now) (take 100 ds) ra) rds = Some res"
        using Cons.prems(2) Inr False by (simp add: rd)
      have "res = decoded se (\<lambda>rs. fold (observe_release d w now) rs (fold (observe_release d w now) (take 100 ds) ra)) (drop 100 (R after))"
        using Cons.IH [OF _ rest] Cons.prems(1) by (simp add: more(2))
      then show ?thesis unfolding decoded_split [OF more(1)] by (simp add: decoded_def split: sum.splits)
    qed
  qed
qed simp

lemma release_pages_end:
  fixes d w
  assumes "store_ok db" and "strict_order (se_before se)" and "\<forall>rd \<in> set rds. rd = Inr db"
  defines "R \<equiv> (\<lambda>after. rows_after se after (latest_selected se (de_filter d) w QRelease db))"
  assumes "length (R after) < 100 * length rds"
  shows "release_pages se d w now after ra rds \<noteq> None"
  using assms(3,5)
proof (induction rds arbitrary: after ra)
  case (Cons rd rds)
  have "R a = rows_after se a (latest_selected se (de_filter d) w QRelease db)" for a by (simp add: R_def)
  note page = page_cases [OF assms(1,2), where fl = "de_filter d" and w = w and cat = QRelease and after = after, folded this]
  have rd: "rd = Inr db" using Cons.prems(1) by simp
  show ?case
  proof (cases "over (Inr db) (query_latest se (de_filter d) w QRelease after None)")
    case (Inr ds)
    show ?thesis
    proof (cases "length ds \<le> 100")
      case False
      then have "length (R (last_identity (take 100 ds))) < 100 * length rds" using page Inr Cons.prems(2) by simp linarith
      then have "release_pages se d w now (last_identity (take 100 ds)) (fold (observe_release d w now) (take 100 ds) ra) rds \<noteq> None"
        using Cons.prems(1) by (intro Cons.IH) simp_all
      then show ?thesis using Inr False by (simp add: rd)
    qed (simp add: rd Inr)
  qed (simp add: rd)
qed simp

section \<open>Deployments\<close>

definition reads_of :: "deployment_reads \<Rightarrow> read_result list" where
  "reads_of dr = [dr_marks dr, dr_drops dr, dr_gaps dr, dr_errors dr, dr_failed dr] @ dr_checks dr @ dr_releases dr"

lemma over_total_Inr [simp]: "over_total (Inr db) f = Inr (f db)"
  by (simp add: over_total_def over_def)

lemma gap_verdict_complete: "av_complete (gap_verdict reason n av) \<Longrightarrow> n = Inr 0 \<and> av_complete av"
  by (auto simp: gap_verdict_def add_gap_def split: sum.splits if_splits)

lemma availability_complete:
  "av_complete (availability_of ap now w (Inr m) (Inr d)) \<Longrightarrow>
   availability_gaps now (ap_retention ap) w m d = [] \<and> \<not> journal_behind (ap_journal ap) \<and> bu_running (ap_bus ap)"
  by (auto simp: availability_of_def store_availability_def over_def query_availability_def add_gap_def Let_def split: if_splits)

lemma evidence_cases:
  assumes "deployment_evidence qe ap now v d w dr = Some (Inr ev)"
  defines "scope \<equiv> check_scope v (de_filter d)" and "observed \<equiv> observed_window w now"
  obtains checks ra where
    "check_pages (qe_store qe) scope observed (required_keys v (de_filter d) scope) None (dr_checks dr) = Some (Inr checks)"
    "assess_releases (qe_store qe) d w now (dr_releases dr) = Some (Inr ra)"
    "ev_checks ev = checks" "ev_release_assessment ev = Some ra" "ev_required_checks ev = required_keys v (de_filter d) scope"
    "over_total (dr_errors dr) (query_count (qe_store qe) (finding_filter w now (de_filter d)) w QFinding (Some QError)) =
       Inr (ev_error_count ev)"
    "over_total (dr_failed dr) (query_failed_checks (qe_store qe) scope w) = Inr (ev_failed_checks ev)"
    "ev_availability ev = gap_verdict ''The deployment or baseline period contains missing required observations''
       (over_total (dr_gaps dr) (query_gap_count now scope observed)) (availability_of ap now observed (dr_marks dr) (dr_drops dr))"
proof -
  define se where "se = qe_store qe"
  define ff where "ff = finding_filter w now (de_filter d)"
  let ?cp = "check_pages se scope observed (required_keys v (de_filter d) scope) None (dr_checks dr)"
  let ?rp = "assess_releases se d w now (dr_releases dr)"
  note ev = assms(1) [unfolded deployment_evidence_def Let_def, folded scope_def observed_def se_def ff_def]
  have "\<exists>checks. ?cp = Some (Inr checks)"
    using ev by (cases ?cp; cases "the ?cp") simp_all
  then obtain checks where checks: "?cp = Some (Inr checks)" ..
  note ev = ev [unfolded checks option.case sum.case]
  have "\<exists>ra. ?rp = Some (Inr ra)"
    using ev by (cases ?rp; cases "the ?rp") simp_all
  then obtain ra where ra: "?rp = Some (Inr ra)" ..
  note ev = ev [unfolded ra option.case sum.case option.inject]
  obtain page where page: "records_page qe (dr_findings dr) ''findings'' (Some QFinding) ff = Inr page"
    using ev by (cases "records_page qe (dr_findings dr) ''findings'' (Some QFinding) ff") simp_all
  note ev = ev [unfolded page sum.case]
  obtain baseline where base: "api (over (dr_baseline dr) (query_latest se ff \<lparr>w_from = w_from observed, w_to = w_from w\<rparr>
      QFinding None (Some (map qr_identity (an_items page))))) = Inr baseline"
    using ev by (cases "api (over (dr_baseline dr) (query_latest se ff \<lparr>w_from = w_from observed, w_to = w_from w\<rparr>
      QFinding None (Some (map qr_identity (an_items page)))))") simp_all
  note ev = ev [unfolded base sum.case]
  obtain errors where errors: "over_total (dr_errors dr) (query_count se ff w QFinding (Some QError)) = Inr errors"
    using ev by (cases "over_total (dr_errors dr) (query_count se ff w QFinding (Some QError))") (simp_all add: api_def)
  note ev = ev [unfolded errors api_def sum.case]
  obtain failed where failed: "over_total (dr_failed dr) (query_failed_checks se scope w) = Inr failed"
    using ev by (cases "over_total (dr_failed dr) (query_failed_checks se scope w)") simp_all
  note ev = ev [unfolded failed sum.case sum.inject]
  show ?thesis
    using that [of checks ra] checks ra errors failed by (simp add: ev [symmetric] se_def ff_def)
qed

lemma answer_cases:
  assumes "deployment_answer qe ap now d dr = Some (Inr a)"
  obtains fl w v ev where "normalize_filter (de_filter d) = Inr fl" "bu_view (ap_bus ap) = Some v"
    "deployment_evidence qe ap now v (d\<lparr>de_filter := fl\<rparr>) w dr = Some (Inr ev)"
    "deployment_window (qe_rep qe) (d\<lparr>de_filter := fl\<rparr>) = Inr w"
    "evaluate_deployment (qe_rep qe) (d\<lparr>de_filter := fl\<rparr>) ev now = Inr a"
proof -
  note a = assms [unfolded deployment_answer_def Let_def]
  obtain fl where fl: "normalize_filter (de_filter d) = Inr fl"
    using a by (cases "normalize_filter (de_filter d)") simp_all
  let ?d = "d\<lparr>de_filter := fl\<rparr>"
  note a = a [unfolded fl sum.case]
  obtain w where w: "deployment_window (qe_rep qe) ?d = Inr w"
    using a by (cases "deployment_window (qe_rep qe) ?d") simp_all
  note a = a [unfolded w sum.case]
  obtain v where v: "bu_view (ap_bus ap) = Some v"
    using a by (cases "bu_view (ap_bus ap)") (simp_all split: if_splits)
  note a = a [unfolded v option.case]
  have "\<exists>ev. deployment_evidence qe ap now v ?d w dr = Some (Inr ev)"
    using a by (cases "deployment_evidence qe ap now v ?d w dr"; cases "the (deployment_evidence qe ap now v ?d w dr)")
      (simp_all split: if_splits)
  then obtain ev where ev: "deployment_evidence qe ap now v ?d w dr = Some (Inr ev)" ..
  note a = a [unfolded ev option.case sum.case]
  have "evaluate_deployment (qe_rep qe) ?d ev now = Inr a"
    using a by (cases "evaluate_deployment (qe_rep qe) ?d ev now") (simp_all split: if_splits)
  then show ?thesis using that [OF fl v ev w] by blast
qed

lemma decoded_rows:
  assumes "decode_rows se rows = Inr rs" and "r \<in> set rs"
  obtains row where "row \<in> set rows" "decode_row se row = Inr r"
proof -
  obtain i where i: "i < length rs" "r = rs ! i" using assms(2) by (auto simp: in_set_conv_nth)
  have all: "list_all2 (\<lambda>row r. decode_row se row = Inr r) rows rs" by (rule decode_rows_all [OF assms(1)])
  have "i < length rows" using list_all2_lengthD [OF all] i(1) by simp
  moreover have "decode_row se (rows ! i) = Inr r" using list_all2_nthD2 [OF all i(1)] i(2) by simp
  ultimately show ?thesis using that [of "rows ! i"] by simp
qed

lemma clear_fields:
  "qr_identity (clear_operations r) = qr_identity r" "qr_observed_at (clear_operations r) = qr_observed_at r"
  "qr_valid_until (clear_operations r) = qr_valid_until r" "qr_stale (clear_operations r) = qr_stale r"
  by (simp_all add: clear_operations_def split: details.splits)

lemma settled_clear: "check_settled w now (clear_operations r) \<longleftrightarrow> check_settled w now r"
  by (simp add: check_settled_def clear_operations_def split: details.splits)

text \<open>What is known of a stored check that settles_check a deployment.\<close>

definition settles_check :: "deployment \<Rightarrow> window \<Rightarrow> stored \<Rightarrow> bool" where
  "settles_check d w row \<longleftrightarrow> (case qr_details (sd_payload row) of
     DCheck c \<Rightarrow> kd_complete c \<and> kd_pending_observations c = 0 \<and> de_deployed_at d \<le> kd_started_at c \<and>
       \<not> qr_stale (sd_payload row) \<and> is_some_and (\<lambda>t. w_to w \<le> t) (qr_valid_until (sd_payload row))
   | _ \<Rightarrow> False)"

lemma settled_row:
  assumes "store_ok db" and "strict_order (se_before se)" and "w_to w \<le> now" and "w_from w = de_deployed_at d"
    and "decoded se (\<lambda>rs. map clear_operations (filter (\<lambda>r. qr_identity r \<in> set required) rs)) (latest_selected se fl ow QCheck db) = Inr checks"
    and "outstanding (newest_checks w checks) w now required = []" and "k \<in> set required"
  shows "\<exists>row. newest_row (row_selection se fl ow (Some QCheck) db) row \<and> row_identity row = k \<and> settles_check d w row"
proof -
  obtain rs where rs: "decode_rows se (latest_selected se fl ow QCheck db) = Inr rs"
    "checks = map clear_operations (filter (\<lambda>r. qr_identity r \<in> set required) rs)"
    using assms(5) by (auto simp: decoded_def split: sum.splits)
  obtain r where r: "bm_get (newest_checks w checks) k = Some r" "check_settled w now r"
    using assms(6,7) by (auto simp: outstanding_def filter_empty_conv is_some_and_iff)
  then have "r \<in> set checks" "qr_identity r = k" using newest_checks_get [OF r(1)] by simp_all
  then obtain r0 where r0: "r0 \<in> set rs" "r = clear_operations r0" "qr_identity r0 = k" by (auto simp: rs clear_fields)
  obtain row where row: "row \<in> set (latest_selected se fl ow QCheck db)" "decode_row se row = Inr r0"
    using decoded_rows [OF rs(1) r0(1)] .
  have newest: "newest_row (row_selection se fl ow (Some QCheck) db) row" using row(1) latest_selected_rows [OF assms(1,2)] by blast
  then have stored: "row \<in> set (qd_rows db)" using row_selection_sub unfolding newest_row_def by blast
  note same = decode_row_fields [OF row(2)]
  have "row_identity row = k" using same r0(3) stored assms(1) by (simp add: store_ok_def)
  moreover have "check_settled w now r0" using r(2) r0(2) by (simp add: settled_clear)
  then have "settles_check d w row" using same assms(3,4) by (auto simp: check_settled_def settles_check_def split: details.splits)
  ultimately show ?thesis using newest by blast
qed

lemma count_none: "count_identities rows = 0 \<longleftrightarrow> rows = []"
  by (simp add: count_identities_def)

lemma expected_release:
  assumes "\<not> ra_mismatch (summarize d rds)" and "release_reasons (summarize d rds) = []"
  shows "rds \<noteq> [] \<and> (\<forall>rd \<in> set rds. \<not> rd_pending rd \<and>
     is_none_or (\<lambda>x. set (rd_observed_digests rd) = {x}) (de_expected_digest d) \<and>
     is_none_or (\<lambda>v. rd_verified rd \<and> rd_revision rd = Some v) (de_expected_revision d))"
proof -
  have "rds \<noteq> []" using assms(2) by (auto simp: release_reasons_def summarize_def)
  moreover have "\<not> rd_pending rd \<and> is_none_or (\<lambda>x. set (rd_observed_digests rd) = {x}) (de_expected_digest d) \<and>
     is_none_or (\<lambda>v. rd_verified rd \<and> rd_revision rd = Some v) (de_expected_revision d)"
    if rd: "rd \<in> set rds" for rd
  proof -
    have "\<not> rd_pending rd" and missing: "de_expected_digest d \<noteq> None \<Longrightarrow> rd_observed_digests rd \<noteq> []"
      and verified: "de_expected_revision d \<noteq> None \<Longrightarrow> rd_verified rd \<and> rd_revision rd \<noteq> None"
      using assms(2) rd by (auto simp: release_reasons_def summarize_def list_ex_iff split: if_splits)
    moreover have "\<not> digest_wrong d rd" "\<not> revision_wrong d rd"
      using assms(1) rd by (auto simp: summarize_def list_ex_iff)
    ultimately show ?thesis
      by (cases "de_expected_digest d"; cases "de_expected_revision d"; cases "rd_observed_digests rd")
        (auto simp: digest_wrong_def revision_wrong_def list_ex_iff)
  qed
  ultimately show ?thesis by blast
qed

text \<open>The release rows an expected revision or digest is compared with.\<close>

definition released :: "store_env \<Rightarrow> deployment \<Rightarrow> window \<Rightarrow> instant \<Rightarrow> query_db \<Rightarrow> release_details list" where
  "released se d w now db =
     (case decode_rows se (latest_selected se (de_filter d) w QRelease db) of
        Inl _ \<Rightarrow> [] | Inr rs \<Rightarrow> fresh_releases w now rs)"

lemma assessed_releases:
  assumes "store_ok db" and "strict_order (se_before se)" and "\<forall>rd \<in> set rds. rd = Inr db"
    and "assess_releases se d w now rds = Some (Inr ra)" and "de_expected_revision d \<noteq> None \<or> de_expected_digest d \<noteq> None"
  shows "ra = summarize d (released se d w now db)"
proof -
  have "release_pages se d w now None no_release rds = Some (Inr ra)" using assms(4,5) by (auto simp: assess_releases_def split: if_splits)
  from release_pages_all [OF assms(1-3) this]
  have "Inr ra = decoded se (\<lambda>rs. fold (observe_release d w now) rs no_release) (latest_selected se (de_filter d) w QRelease db)"
    by (simp add: rows_after_def)
  then show ?thesis by (auto simp: decoded_def released_def observe_all split: sum.splits)
qed

section \<open>Properties\<close>



section \<open>A deployment that passes\<close>

definition told_env :: store_env where
  "told_env = \<lparr>se_before = (<), se_ilike = (=), se_details = (\<lambda>_. []),
     se_records = \<lparr>rc_value = (\<lambda>_. Some JScalar), rc_length = (\<lambda>_. Some 10)\<rparr>, se_id = (\<lambda>_. ''id'')\<rparr>"

definition told_query :: query_env where
  "told_query = \<lparr>qe_rep = (\<lambda>_. True), qe_codec = \<lparr>qc_digest = (\<lambda>_ _. None), qc_read = (\<lambda>_. None), qc_show = (\<lambda>_. None),
     qc_read_scope = (\<lambda>_. None), qc_show_scope = (\<lambda>_. None), qc_id = (\<lambda>_. None)\<rparr>, qe_store = told_env\<rparr>"

definition told_check :: stored where "told_check = insert_row 0 \<lparr>qw_key = ''a'', qw_record = sample_record ''k'' (DCheck sample_check)\<rparr>"
definition told_release :: stored where "told_release = insert_row 1 \<lparr>qw_key = ''b'', qw_record = sample_record ''i'' (DRelease sample_release)\<rparr>"

definition told_db :: query_db where
  "told_db = \<lparr>qd_rows = [told_check, told_release], qd_fresh = 2, qd_since = - seconds 100, qd_evicted_through = None,
     qd_persisted_at = Some 0, qd_dropped = []\<rparr>"

definition told_view :: view where
  "told_view = \<lparr>vw_generation = 1, vw_revision = [], vw_captured_at = 0,
     vw_targets = [\<lparr>tv_name = ''api'', tv_provider = Gcp, tv_scope = ''p'', tv_regions = []\<rparr>],
     vw_checks = [\<lparr>cv_required = True, cv_started_at = None, cv_required_failures = 0, cv_optional_gaps = 0, cv_prerequisite = False,
       cv_operations = [], cv_key = ''k'', cv_target = ''api'', cv_check = CKubernetes, cv_interval_seconds = 30,
       cv_finished_at = None, cv_expires_at = None, cv_complete = True, cv_observations = 4, cv_failures = []\<rparr>],
     vw_resources = [], vw_findings = [], vw_result_stamps = [], vw_persistence_fault = False, vw_dropped_transitions = 0\<rparr>"

definition told_journal :: journal where
  "told_journal = (let j = new_journal \<lparr>jl_batches = 1, jl_bytes = 1\<rparr> in j\<lparr>jo_status := (jo_status j)\<lparr>su_available := True\<rparr>\<rparr>)"

definition told_app :: app where
  "told_app = \<lparr>ap_bus = new_bus\<lparr>bu_view := Some told_view, bu_running := True\<rparr>, ap_journal = told_journal, ap_retention = 604800\<rparr>"

definition told_reads :: deployment_reads where
  "told_reads = \<lparr>dr_marks = Inr told_db, dr_drops = Inr told_db, dr_gaps = Inr told_db, dr_checks = [Inr told_db],
     dr_releases = [Inr told_db], dr_findings = \<lparr>pr_now = seconds 100, pr_app = told_app,
       pr_scoped = \<lparr>sr_marks = Inr told_db, sr_drops = Inr told_db, sr_probe = Inr told_db, sr_gaps = Inr told_db\<rparr>,
       pr_rows = Inr told_db\<rparr>,
     dr_baseline = Inr told_db, dr_errors = Inr told_db, dr_failed = Inr told_db\<rparr>"

lemma told_reads_simps:
  "dr_marks told_reads = Inr told_db" "dr_drops told_reads = Inr told_db" "dr_gaps told_reads = Inr told_db"
  "dr_checks told_reads = [Inr told_db]" "dr_releases told_reads = [Inr told_db]" "dr_baseline told_reads = Inr told_db"
  "dr_errors told_reads = Inr told_db" "dr_failed told_reads = Inr told_db"
  by (simp_all add: told_reads_def)

lemmas told_rows = told_db_def told_check_def told_release_def insert_row_def row_identity_def row_from_def sample_record_def

lemma told_strict: "strict_order (se_before told_env)"
  by (auto simp: strict_order_def told_env_def)

lemma told_ok: "store_ok told_db"
  by (simp add: store_ok_def told_rows)

lemma told_normal: "normalize_filter (de_filter sample_deployment) = Inr (de_filter sample_deployment)"
  by (simp add: normalize_filter_def sample_deployment_def any_filter_def take_alias_def filter_values_def bad_value_def
      has_control.simps bad_page_def Let_def)

lemma told_scope: "check_scope told_view (de_filter sample_deployment) = de_filter sample_deployment"
  by (simp add: check_scope_def sample_deployment_def any_filter_def)

lemma told_required: "required_keys told_view (de_filter sample_deployment) (de_filter sample_deployment) = [''k'']"
  by (simp add: required_keys_def told_view_def sample_deployment_def any_filter_def check_in_scope_def target_scope_def scope_matches_def)

abbreviation told_window :: window where "told_window \<equiv> \<lparr>w_from = 0, w_to = seconds 60\<rparr>"
abbreviation told_observed :: window where "told_observed \<equiv> \<lparr>w_from = - seconds 60, w_to = seconds 60\<rparr>"

lemma told_seconds: "seconds n = int n * 1000000000"
  by (simp add: seconds_def nanos_per_sec_def)

lemma told_windows: "deployment_window (\<lambda>_. True) sample_deployment = Inr told_window" "observed_window told_window (seconds 100) = told_observed"
  by (simp_all add: deployment_window_def bad_deployment_def bad_expectation_def sample_deployment_def any_filter_def
      observed_window_def told_seconds has_control.simps)

lemma told_categories: "category (sample_record i (DCheck c)) = QCheck" "category (sample_record i (DRelease x)) = QRelease"
  by (simp_all add: category_def sample_record_def)

lemma told_matches: "columns_match (de_filter sample_deployment) (sample_record i ds)" "qf_state (de_filter sample_deployment) = None"
    "qf_q (de_filter sample_deployment) = None"
  by (simp_all add: columns_match_def column_is_def sample_deployment_def any_filter_def sample_record_def)

lemma told_valid: "valid_record (se_records told_env) (sample_record ''k'' (DCheck sample_check)\<lparr>qr_id := ''id''\<rparr>)"
    "valid_record (se_records told_env) (sample_record ''i'' (DRelease sample_release)\<lparr>qr_id := ''id''\<rparr>)"
  by (simp_all add: valid_record_def told_env_def sample_record_def any_location_def is_name_def is_resource_def bounded_text_def
      char_count_def valid_text_def json_bounded.simps less_eq_char_def less_char_def)

lemma told_rows_simps:
  "sd_columns told_check = sample_record ''k'' (DCheck sample_check)" "sd_payload told_check = sample_record ''k'' (DCheck sample_check)"
  "sd_to told_check = seconds 45" "sd_closed_at told_check = None" "row_from told_check = seconds 45" "sd_id told_check = 0"
  "row_identity told_check = ''k''" "sd_columns told_release = sample_record ''i'' (DRelease sample_release)"
  "sd_payload told_release = sample_record ''i'' (DRelease sample_release)" "sd_to told_release = seconds 45"
  "sd_closed_at told_release = None" "row_from told_release = seconds 45" "sd_id told_release = 1" "row_identity told_release = ''i''"
  by (simp_all add: told_rows)

lemma told_decoded:
  "decode_row told_env told_check = Inr (sample_record ''k'' (DCheck sample_check)\<lparr>qr_id := ''id''\<rparr>)"
  "decode_row told_env told_release = Inr (sample_record ''i'' (DRelease sample_release)\<lparr>qr_id := ''id''\<rparr>)"
proof -
  have "(sample_record i ds)\<lparr>qr_id := j, qr_observed_at := seconds 45, qr_last_observed_at := seconds 45, qr_closed_at := None\<rparr> =
      (sample_record i ds)\<lparr>qr_id := j\<rparr>" for i ds j
    by (simp add: sample_record_def)
  moreover have "se_id told_env n = ''id''" for n by (simp add: told_env_def)
  ultimately show "decode_row told_env told_check = Inr (sample_record ''k'' (DCheck sample_check)\<lparr>qr_id := ''id''\<rparr>)"
    "decode_row told_env told_release = Inr (sample_record ''i'' (DRelease sample_release)\<lparr>qr_id := ''id''\<rparr>)"
    using told_valid by (simp_all add: decode_row_def told_rows_simps Let_def)
qed

lemma told_selection:
  assumes "w_from w \<le> 0" and "w_to w = seconds 60"
  shows "row_selection told_env (de_filter sample_deployment) w (Some QCheck) told_db = [told_check]"
    "row_selection told_env (de_filter sample_deployment) w (Some QRelease) told_db = [told_release]"
  using assms by (simp_all add: row_selection_def told_db_def row_selected_def row_overlaps_def told_rows_simps told_categories
      told_matches state_matches_def search_matches_def told_seconds)

lemma told_no_findings: "row_selection told_env fl w (Some QFinding) told_db = []"
  by (simp add: row_selection_def told_db_def row_selected_def told_rows_simps told_categories)

lemma told_latest:
  "query_latest told_env (de_filter sample_deployment) told_observed QCheck None None told_db =
     Inr [sample_record ''k'' (DCheck sample_check)\<lparr>qr_id := ''id''\<rparr>]"
  "query_latest told_env (de_filter sample_deployment) told_window QRelease None None told_db =
     Inr [sample_record ''i'' (DRelease sample_release)\<lparr>qr_id := ''id''\<rparr>]"
  using told_selection [of told_observed] told_selection [of told_window]
  by (simp_all add: query_latest_rows [OF told_ok] latest_rows_def sort_by_def told_decoded told_seconds)

abbreviation told_record :: q_record where "told_record \<equiv> sample_record ''k'' (DCheck sample_check)\<lparr>qr_id := ''id''\<rparr>"

lemma told_summary:
  "summarize sample_deployment [sample_release] =
     \<lparr>ra_fresh = 1, ra_mismatch = False, ra_pending = False, ra_missing_digest = False, ra_unverified_revision = False\<rparr>"
  by (simp add: summarize_def digest_wrong_def revision_wrong_def sample_deployment_def sample_release_def u64_max_def)

lemma told_pages:
  "check_pages told_env (de_filter sample_deployment) told_observed [''k''] None [Inr told_db] = Some (Inr [told_record])"
  "assess_releases told_env sample_deployment told_window (seconds 100) [Inr told_db] = Some (Inr (summarize sample_deployment [sample_release]))"
proof -
  have "clear_operations told_record = told_record" "qr_identity told_record = ''k''"
    by (simp_all add: clear_operations_def sample_record_def sample_check_def)
  then show "check_pages told_env (de_filter sample_deployment) told_observed [''k''] None [Inr told_db] = Some (Inr [told_record])"
    by (simp add: over_def told_latest)
  have "fresh_releases told_window (seconds 100) [sample_record ''i'' (DRelease sample_release)\<lparr>qr_id := ''id''\<rparr>] = [sample_release]"
    by (simp add: release_fresh_def sample_record_def told_seconds)
  moreover have "de_expected_digest sample_deployment = Some ''sha256:a''" by (simp add: sample_deployment_def)
  ultimately show "assess_releases told_env sample_deployment told_window (seconds 100) [Inr told_db] =
      Some (Inr (summarize sample_deployment [sample_release]))"
    using observe_all [of sample_deployment told_window "seconds 100" "[sample_record ''i'' (DRelease sample_release)\<lparr>qr_id := ''id''\<rparr>]"]
    by (simp add: assess_releases_def over_def told_latest)
qed

lemma told_gaps: "query_gap_count (seconds 100) (de_filter sample_deployment) told_observed told_db = 0"
proof -
  have "filter row_required (qd_rows told_db) = [told_check]"
    by (simp add: told_db_def row_required_def told_rows_simps told_categories) (simp add: sample_record_def sample_check_def)
  moreover have "\<not> gq_from (gap_of (seconds 100) [told_check] told_check) < gq_to (gap_of (seconds 100) [told_check] told_check)"
    by (simp add: gap_of_def row_complete_def told_rows_simps following_from_def row_newer_def)
      (simp add: sample_record_def sample_check_def told_seconds)
  ultimately show ?thesis by (simp add: query_gap_count_def query_gaps_def)
qed

definition told_availability :: availability where
  "told_availability = \<lparr>av_requested = told_observed, av_available_since = Some (- seconds 100), av_persisted_through = Some 0,
     av_history_available = True, av_complete = True, av_gaps = []\<rparr>"

lemma told_available: "availability_of told_app (seconds 100) told_observed (Inr told_db) (Inr told_db) = told_availability"
proof -
  have "retained_since (seconds 100) 604800 told_db = - seconds 100"
    by (simp add: retained_since_def told_db_def told_seconds as_i64_small nanos_per_sec_def)
  then have "query_availability (seconds 100) 604800 told_observed told_db told_db = told_availability"
    by (simp add: query_availability_def availability_gaps_def told_db_def told_availability_def told_seconds)
  then show ?thesis
    by (simp add: availability_of_def store_availability_def over_def told_app_def journal_behind_def journal_health_def
        told_journal_def new_journal_def Let_def)
qed

lemma told_findings:
  "records_page told_query (dr_findings told_reads) ''findings'' (Some QFinding) (finding_filter told_window (seconds 100) (de_filter sample_deployment)) =
     Inr \<lparr>an_items = [], an_next_cursor = None, an_availability = scoped_availability told_env told_app (seconds 100)
       (finding_filter told_window (seconds 100) (de_filter sample_deployment)) told_window (pr_scoped (dr_findings told_reads))\<rparr>"
proof -
  let ?ff = "finding_filter told_window (seconds 100) (de_filter sample_deployment)"
  have "normalize_filter ?ff = Inr ?ff"
    by (simp add: normalize_filter_def finding_filter_def sample_deployment_def any_filter_def take_alias_def filter_values_def
        bad_value_def has_control.simps bad_page_def Let_def)
  moreover have "filter_window (\<lambda>_. True) (seconds 100) ?ff = Inr told_window" "qf_cursor ?ff = None" "qf_limit ?ff = Some 50"
    by (simp_all add: filter_window_def finding_filter_def sample_deployment_def any_filter_def told_seconds days31_def)
  ultimately show ?thesis
    by (simp add: records_page_def resolve_cursor_def told_query_def told_reads_def over_def query_page_def api_def sort_by_def told_no_findings)
qed

definition told_evidence :: evidence where
  "told_evidence = \<lparr>ev_checks = [told_record], ev_required_checks = [''k''], ev_releases = [],
     ev_release_assessment = Some (summarize sample_deployment [sample_release]), ev_findings = [], ev_baseline = [],
     ev_error_count = 0, ev_failed_checks = 0, ev_availability = told_availability, ev_next_cursor = None\<rparr>"

lemma told_evidence_read:
  "deployment_evidence told_query told_app (seconds 100) told_view sample_deployment told_window told_reads = Some (Inr told_evidence)"
proof -
  let ?fl = "de_filter sample_deployment" and ?ff = "finding_filter told_window (seconds 100) (de_filter sample_deployment)"
  have store: "qe_store told_query = told_env" by (simp add: told_query_def)
  have baseline: "query_latest told_env ?ff w QFinding None ids told_db = Inr []" for w ids
    by (simp add: query_latest_def sort_by_def told_no_findings)
  have errors: "query_count told_env ?ff told_window QFinding (Some QError) told_db = 0"
    by (simp add: query_count_def count_identities_def told_no_findings)
  have failed: "query_failed_checks told_env ?fl told_window told_db = 0"
    using told_selection(1) [of told_window]
    by (simp add: query_failed_checks_def count_identities_def row_incomplete_def told_rows_simps)
      (simp add: sample_record_def sample_check_def)
  show ?thesis
    using told_pages told_gaps told_available told_findings errors failed baseline
    by (simp add: deployment_evidence_def Let_def store told_scope told_required told_windows told_evidence_def gap_verdict_def
        over_total_def over_def api_def told_reads_simps del: check_pages.simps release_pages.simps)
qed

lemma told_answer: "\<exists>a. deployment_answer told_query told_app (seconds 100) sample_deployment told_reads = Some (Inr a) \<and>
    as_outcome a = Passing \<and> as_window a = told_window"
proof -
  let ?r = "summarize sample_deployment [sample_release]"
  have m: "newest_checks told_window (ev_checks told_evidence) = [(''k'', told_record)]"
    by (simp add: newest_checks_def newest_step_def told_evidence_def) (simp add: sample_record_def told_seconds)
  have o: "outstanding [(''k'', told_record)] told_window (seconds 100) (ev_required_checks told_evidence) = []"
    by (simp add: outstanding_def check_settled_def told_evidence_def sample_record_def sample_check_def told_seconds)
  have r: "release_status sample_deployment told_window (seconds 100) told_evidence = Some ?r"
    by (simp add: release_status_def told_evidence_def sample_deployment_def)
  have q: "seconds 60 \<le> seconds 100" "\<not> seconds 100 < seconds 60" by (simp_all add: told_seconds)
  have "\<exists>a. evaluate_deployment (\<lambda>_. True) sample_deployment told_evidence (seconds 100) = Inr a \<and> as_outcome a = Passing"
    unfolding evaluate_deployment_def told_windows(1) sum.case Let_def m o r
    by (simp add: raw_reasons_def told_summary release_reasons_def verdict_def q) (simp add: told_evidence_def told_availability_def)
  then obtain a where a: "evaluate_deployment (\<lambda>_. True) sample_deployment told_evidence (seconds 100) = Inr a" "as_outcome a = Passing" by blast
  have same: "sample_deployment\<lparr>de_filter := de_filter sample_deployment\<rparr> = sample_deployment" by simp
  have "bu_view (ap_bus told_app) = Some told_view" "qe_rep told_query = (\<lambda>_. True)" "\<not> seconds 100 < de_deployed_at sample_deployment"
    by (simp_all add: told_app_def told_query_def sample_deployment_def told_seconds)
  then have "deployment_answer told_query told_app (seconds 100) sample_deployment told_reads = Some (Inr a)"
    using a by (simp add: deployment_answer_def told_normal same told_windows told_evidence_read Let_def)
  moreover have "as_window a = told_window" using evaluate_cases [OF a(1)] told_windows(1) by (metis sum.inject(2))
  ultimately show ?thesis using a(2) by blast
qed



end
