(* ===== verification/Spec2Isabelle.thy ===== *)
theory Spec2Isabelle
  imports State_Properties Config_Properties Budget Report_Properties Supervise_Properties Scheduler_Properties
    Storage_Properties Query_Properties Scope_Cache Journal_Properties Projection_Properties Recorder_Properties
    Cost_Properties Allowance_Properties Schedule_Properties View_Consistency Access_Properties
    Collect_Properties Router_Properties Facts_Properties Dashboard_Properties Page_Properties Bus_Properties
    Query_Api_Properties
begin

text \<open>
  A verification library of the health monitor. The Rust workspace under \<open>src/crates\<close> has one
  foreground loop that schedules collections of evidence, judges their results, keeps one snapshot,
  and publishes it to disk and to a history database, beside a server that answers queries.

  \<^bold>\<open>How the parts interact.\<close> \<open>runtime/src/supervise.rs\<close> owns everything: it resolves the
  configuration into jobs (\<open>core/src/config\<close>), hands them to the scheduler (\<open>core/src/scheduler.rs\<close>),
  which runs collectors under the budgets of \<open>core/src/budget.rs\<close>; a collector (\<open>integrations\<close>) projects
  what a provider returned into observations; \<open>State::apply\<close> (\<open>core/src/state.rs\<close>) merges a result into the
  snapshot and reports transitions; the publisher (\<open>core/src/publication.rs\<close>, \<open>storage.rs\<close>) writes snapshot
  and events; \<open>history/src/journal.rs\<close> and \<open>server/src/query_recorder.rs\<close> keep the database;
  \<open>query/src/assessment.rs\<close> judges deployments from it and \<open>server/src/scope_cache.rs\<close> shares answers.

  \<^bold>\<open>Foundations.\<close> \<open>Prelude\<close>: integer widths with their saturating and wrapping operations, instants
  (nanoseconds as \<open>int\<close>), the string functions of the source. \<open>BTree\<close>: the ordered containers as sorted
  association lists, with the interface \<open>ordered_map\<close>. \<open>Float64\<close>: binary64 as rationals with rounding.

  \<^bold>\<open>Core, data and policy.\<close> \<open>Model\<close> (\<open>model.rs\<close>, \<open>observations.rs\<close>, \<open>diagnostics.rs\<close>), \<open>Settings\<close> and
  \<open>Config_Types\<close> (\<open>config/settings.rs\<close>, \<open>patch.rs\<close>, \<open>limits.rs\<close>, \<open>types.rs\<close>), \<open>Policy\<close> and \<open>Evaluate\<close> (\<open>policy.rs\<close>
  and the policy modules), \<open>Bounds\<close> (\<open>bounds.rs\<close>, \<open>collection_budget.rs\<close>), \<open>Passes\<close> (\<open>partial_results.rs\<close>,
  \<open>provenance.rs\<close>, \<open>recovery.rs\<close>, \<open>log_recovery.rs\<close>), \<open>Eval_Index\<close> (\<open>evaluation_index.rs\<close>), \<open>Images\<close>,
  \<open>Release_Evidence\<close>, \<open>Releases\<close>, \<open>Flows\<close> (the files of these names).

  \<^bold>\<open>Core, state.\<close> \<open>State\<close> (\<open>State::apply\<close>, block by block and composed), \<open>Lifecycle\<close>
  (\<open>state_lifecycle.rs\<close>); \<open>State_Facts\<close>, \<open>Apply_Facts\<close>, \<open>Samples\<close> hold their lemmas and sample values,
  \<open>State_Properties\<close> what is promised: findings are removed and recovered only on complete newer
  evidence, nothing incomplete is healthy, all collections stay bounded.

  \<^bold>\<open>Core, running.\<close> \<open>Validate\<close> and \<open>Resolve\<close> (\<open>config/validate.rs\<close>, \<open>resolve.rs\<close>, \<open>references.rs\<close>,
  \<open>shared_limits.rs\<close>) with \<open>Config_Properties\<close>; \<open>Budget\<close> (interleaved atomic accesses as a step
  relation); \<open>Scheduler\<close> with \<open>Scheduler_Properties\<close> (turns and arms of \<open>drive\<close>); \<open>Publication\<close>,
  \<open>Supervise\<close> with \<open>Supervise_Properties\<close> (the loop, and its event queue as a refinement of an
  append-only log); \<open>Storage\<close> with \<open>Storage_Properties\<close> (a disk under a stream of failing system calls);
  \<open>Report\<close> with \<open>Report_Properties\<close>.

  \<^bold>\<open>Integrations.\<close> \<open>Projection\<close> (\<open>projection.rs\<close>, \<open>resource_context.rs\<close>, \<open>kube_*.rs\<close>), \<open>Kube_Projection\<close>
  (\<open>kube_projection.rs\<close>, \<open>worker_index.rs\<close>, the demand of \<open>queues.rs\<close>), \<open>Log_Window\<close> (\<open>log_window.rs\<close>,
  \<open>log_dedup.rs\<close>, \<open>logs.rs\<close>), with \<open>Projection_Properties\<close>.

  \<^bold>\<open>History, queries, server.\<close> \<open>History_Records\<close>, \<open>Journal\<close> with \<open>Journal_Properties\<close> (\<open>journal.rs\<close>,
  \<open>journal_worker.rs\<close>: every record offered is written, queued, in hand or counted in a gap);
  \<open>Query_Types\<close>, \<open>Query\<close> with \<open>Query_Properties\<close> (\<open>crates/query\<close>: what a verdict of \<open>Passing\<close> rests on);
  \<open>Query_Recorder\<close> with \<open>Recorder_Properties\<close>; \<open>Scope_Cache\<close>.

  \<^bold>\<open>Billing.\<close> \<open>Costs\<close> with \<open>Cost_Properties\<close> (\<open>crates/costs\<close>: amounts, settings and charts, which
  neither lose nor duplicate an amount); \<open>Billing\<close> with \<open>Billing_Properties\<close> (\<open>history/src/cost_write.rs\<close> and
  the files beside it, as four tables: readers see only whole publications) and \<open>Allowance_Properties\<close>;
  \<open>Billing_Worker\<close> with \<open>Worker_Properties\<close> and \<open>Schedule_Properties\<close> (the import loops of
  \<open>server/src/cost_worker.rs\<close> and \<open>cost_reader.rs\<close>, the schedule and coverage); \<open>Cost_View\<close> with
  \<open>Cost_View_Properties\<close> (\<open>history/src/cost_read.rs\<close>, \<open>cost_response.rs\<close>, \<open>server/src/cost_api.rs\<close>: a
  view as eleven statements, each over the store it finds; its sums and its pages) and \<open>View_Consistency\<close>
  (its statements see one publication although the worker goes on).

  \<^bold>\<open>Who may ask what.\<close> \<open>Read_Policy\<close> (\<open>integrations/src/read_policy.rs\<close>: requests to providers only
  read) and \<open>Access\<close> with \<open>Access_Properties\<close> (\<open>server/src/security.rs\<close>, \<open>iap.rs\<close>, \<open>config.rs\<close>: requests to the
  server are identified first).

  \<^bold>\<open>Collection from providers.\<close> \<open>Paging\<close> (\<open>providers/src/pagination.rs\<close>, \<open>endpoint.rs\<close>), \<open>Scan\<close> with
  \<open>Scan_Properties\<close> (\<open>endpoint_scan.rs\<close>, \<open>aws_batches.rs\<close>: the pages of a read) and \<open>Collect\<close> with
  \<open>Collect_Properties\<close> (\<open>common_parallel.rs\<close>, \<open>inventory_cache.rs\<close>: the work list over all reads). A collection
  ends, and one that is complete left nothing out. \<open>Router\<close> with \<open>Router_Properties\<close> (\<open>router.rs\<close>, \<open>routing*.rs\<close>,
  \<open>integrations/src/admission.rs\<close>): what collections share, while reloads interleave with them.

  \<^bold>\<open>Dashboard.\<close> The server publishes every snapshot as one view. \<open>Dashboard_Facts\<close> with \<open>Facts_Properties\<close>
  (\<open>server/src/facts.rs\<close>, \<open>facts_metadata.rs\<close>, \<open>console_links.rs\<close>, \<open>log_links.rs\<close>: what an observation shows, and
  that its links lead to consoles only), \<open>Dashboard\<close> with \<open>Dashboard_Properties\<close> (\<open>build_view.rs\<close>,
  \<open>build_resources.rs\<close>, \<open>resource_evidence.rs\<close>, \<open>overview.rs\<close>, \<open>problem_groups.rs\<close>, \<open>resource_rows.rs\<close>: the catalog is
  the newest evidence, a healthy target is covered), \<open>Dashboard_Lists\<close> with \<open>Page_Properties\<close> (\<open>pages.rs\<close>,
  \<open>lists.rs\<close>, \<open>checks_api.rs\<close>: pages stay stable while rows come and go) and \<open>Bus\<close> with \<open>Bus_Properties\<close>
  (\<open>bus.rs\<close>, \<open>query_publish.rs\<close>, \<open>query_projection.rs\<close>, \<open>query_observations.rs\<close>: what one publication hands to
  the journal).

  \<^bold>\<open>Stored queries.\<close> \<open>Query_Store\<close> (\<open>history/src/query_read.rs\<close>, \<open>query_latest.rs\<close>, \<open>query_gaps.rs\<close>,
  \<open>query_write.rs\<close>, the rows of \<open>query_records.rs\<close> and the view of the migrations: statements as functions of the
  table, the upserts of a batch, retention) and \<open>Query_Api\<close> (\<open>server/src/query_api.rs\<close>, \<open>query_availability.rs\<close>,
  \<open>query_cursor.rs\<close>, \<open>query_deployment.rs\<close>, \<open>query_deployment_pages.rs\<close>, \<open>scope_api.rs\<close>: every answer, each of its
  statements over the table it finds) with \<open>Query_Api_Properties\<close>: an answer called complete misses nothing, the
  loops over pages read every row once, and a \<open>Passing\<close> answer is justified by what is stored. Instants have the
  precision of the database; a request for a page reads one clock, and the cache in front of the scopes is \<open>Scope_Cache\<close>.

  \<^bold>\<open>Bounds and fuel.\<close> \<open>owned_by\<close> has fuel 64 because \<open>releases.rs\<close> stops after 64 owners;
  \<open>resolve_inner\<close> has fuel 2 because reference jobs are resolved without further references
  (\<open>resolution_returns\<close> proves that this is always enough); \<open>ancestors\<close> is followed three times, as in
  \<open>worker_index.rs\<close>. \<open>collect_reads\<close> has as much fuel as assets are
  kept (\<open>collection_ends\<close>: that is enough); the loops over pages of stored rows take one table per statement
  (\<open>pages_are_one_query\<close>: more than a hundredth of the rows are enough). Every other function terminates structurally or by the given measure.

  \<^bold>\<open>Parameters.\<close> What is not in the repository is an argument: SHA-256 and JSON text (as functions to
  text or length, possibly failing), \<open>serde_json::Value\<close> (the record \<open>value_api\<close>), cron schedules and
  time zones, the file system's failures (a stream of outcomes), the database (the outcome of every
  call), clocks. \<open>tokio::sync::Notify\<close> is a generation counter with a permit, its mutex a flag.

  \<^bold>\<open>Not modelled.\<close> HTTP, DNS, NATS and Kubernetes clients, the clients of the cloud providers and most
  of their projections, SQL outside the billing tables and the query records, OAuth and MCP endpoints, server-sent events, the
  command line, benchmarks, the layout of the Markdown report, \<open>serde\<close>'s rejection of ill-formed input:
  they are I/O. The pages of the dashboard under \<open>src/dashboard\<close> are written in another language.
\<close>

section \<open>Resolution and scheduling together\<close>

text \<open>What the loop hands to the scheduler: the jobs of a successful resolution.\<close>

definition resolved_jobs :: "job list \<Rightarrow> bool" where
  "resolved_jobs js \<longleftrightarrow> (\<exists>y cf sel e. resolve_config y cf sel = Some (Inr e) \<and> js = ef_jobs e)"

lemma resolved_limits: "resolved_jobs js \<Longrightarrow> limits_ok 256 s 256 js"
  by (auto simp: resolved_jobs_def limits_ok_def settings_invalid_def dest!: resolved_ceilings)

text \<open>C36: Whatever configurations are loaded one after the other, and however turns, completions
  and reloads interleave, never more than 256 collections run at once, no check overlaps with
  itself, and every collection that runs has valid settings.\<close>

theorem resolved_schedules_are_limited:
  assumes "driven md resolved_jobs st"
  shows "length (sc_tasks st) \<le> 256 \<and> distinct (map task_key (sc_tasks st)) \<and>
    (\<forall>e \<in> set (sc_entries st). \<not> settings_invalid (j_settings (en_job e)))"
proof -
  have "driven md (limits_ok 256 s 256) st" for s
    using assms resolved_limits by (rule driven_mono)
  from driven_within [OF this] have "length (sc_tasks st) \<le> 256 \<and> distinct (map task_key (sc_tasks st))"
    by (simp add: tasks_within_def sched_ok_def)
  moreover have "\<not> settings_invalid (j_settings (en_job e))" if "e \<in> set (sc_entries st)" for e
    using driven_jobs [OF assms] that resolved_ceilings unfolding resolved_jobs_def
    by (metis imageI set_map)
  ultimately show ?thesis by blast
qed

theorem resolved_schedules_are_limited_witness:
  "length (sc_tasks (turn Once 0 (new_sched 0 (ef_jobs sample_effective)))) \<le> 256 \<and>
   \<not> settings_invalid (j_settings (en_job (hd (sc_entries (turn Once 0 (new_sched 0 (ef_jobs sample_effective)))))))"
proof -
  let ?st = "turn Once 0 (new_sched 0 (ef_jobs sample_effective))"
  have "driven Once resolved_jobs ?st"
    using sample_resolved by (intro driven.turned driven.spawned) (auto simp: resolved_jobs_def)
  note limited = resolved_schedules_are_limited [OF this]
  have "map en_job (sc_entries ?st) = ef_jobs sample_effective"
    by (simp add: turn_jobs new_sched_def sample_effective_def)
  then have "sc_entries ?st \<noteq> []" by (auto simp: sample_effective_def)
  then show ?thesis using limited by simp
qed

end
